(* ===== verification/Enclave_Prelude.thy ===== *)
theory Enclave_Prelude
  imports Main
begin

text \<open>
  Shared vocabulary of the development.

  \<^item> Fallible code returns \<open>'e + 'a\<close>: \<open>Inl\<close> is a thrown error, \<open>Inr\<close> a returned value.
    \<open>rbind\<close> is sequencing (an error stops the rest), \<open>require\<close> is a guard that throws.
  \<^item> A database transaction is a function \<open>'s \<Rightarrow> 'e + ('a \<times> 's)\<close>: an error has no state
    because PostgreSQL rolls back. \<open>run_tx\<close> runs one against the committed state, so that a
    sequence of transactions, each committed on its own, is a \<open>'s \<Rightarrow> ('e + 'a) \<times> 's\<close>.
  \<^item> A table is a list of rows. \<open>select_row\<close> is \<open>SELECT ... LIMIT 1\<close>, \<open>update_rows\<close> is
    \<open>UPDATE ... WHERE\<close>, \<open>matching_rows\<close> is what \<open>RETURNING\<close> gives, \<open>delete_rows\<close> is \<open>DELETE\<close>.
  \<^item> \<open>reachable\<close> are the states of a transition system; the locale \<open>invariant_system\<close> is the
    contract a state machine discharges, its lemmas are used by every component with steps.
  \<^item> Collections: \<open>res_simps\<close> (path conditions of fallible code), \<open>row_simps\<close> (tables).
\<close>

named_theorems res_simps "path conditions of sequenced fallible code"
named_theorems row_simps "selecting, updating and deleting rows"

section \<open>Fallible code\<close>

definition rbind :: "'e + 'a \<Rightarrow> ('a \<Rightarrow> 'e + 'b) \<Rightarrow> 'e + 'b" where
  "rbind m f = (case m of Inl e \<Rightarrow> Inl e | Inr x \<Rightarrow> f x)"

definition require :: "bool \<Rightarrow> 'e \<Rightarrow> 'e + unit" where
  "require c e = (if c then Inr () else Inl e)"

definition is_ok :: "'e + 'a \<Rightarrow> bool" where
  "is_ok m = (case m of Inl _ \<Rightarrow> False | Inr _ \<Rightarrow> True)"

definition of_option :: "'e \<Rightarrow> 'a option \<Rightarrow> 'e + 'a" where
  "of_option e x = (case x of None \<Rightarrow> Inl e | Some y \<Rightarrow> Inr y)"

definition rmap :: "('a \<Rightarrow> 'b) \<Rightarrow> 'e + 'a \<Rightarrow> 'e + 'b" where
  "rmap f m = (case m of Inl e \<Rightarrow> Inl e | Inr x \<Rightarrow> Inr (f x))"

lemma rbind_simps [simp]:
  "rbind (Inl e) f = Inl e" "rbind (Inr x) f = f x"
  by (simp_all add: rbind_def)

lemma rbind_Inr_iff [res_simps]: "rbind m f = Inr y \<longleftrightarrow> (\<exists>x. m = Inr x \<and> f x = Inr y)"
  by (cases m) auto

lemma rbind_InrE:
  assumes "rbind m f = Inr y"
  obtains x where "m = Inr x" and "f x = Inr y"
  using assms by (cases m) auto

lemma rbind_Inl_iff: "rbind m f = Inl e \<longleftrightarrow> m = Inl e \<or> (\<exists>x. m = Inr x \<and> f x = Inl e)"
  by (cases m) auto

lemma require_Inr_iff [res_simps]: "require c e = Inr u \<longleftrightarrow> c"
  by (simp add: require_def)

lemma require_Inl_iff [res_simps]: "require c e = Inl e' \<longleftrightarrow> \<not> c \<and> e' = e"
  by (auto simp: require_def)

lemma require_simps [simp]: "require True e = Inr ()" "require False e = Inl e"
  by (simp_all add: require_def)

lemma of_option_Inr_iff [res_simps]: "of_option e x = Inr y \<longleftrightarrow> x = Some y"
  by (auto simp: of_option_def split: option.splits)

lemma of_option_Inl_iff [res_simps]: "of_option e x = Inl e' \<longleftrightarrow> x = None \<and> e' = e"
  by (auto simp: of_option_def split: option.splits)

lemma of_option_simps [simp]: "of_option e None = Inl e" "of_option e (Some y) = Inr y"
  by (simp_all add: of_option_def)

lemma rmap_Inr_iff [res_simps]: "rmap f m = Inr y \<longleftrightarrow> (\<exists>x. m = Inr x \<and> y = f x)"
  by (cases m) (auto simp: rmap_def)

lemma rmap_simps [simp]: "rmap f (Inl e) = Inl e" "rmap f (Inr x) = Inr (f x)"
  by (simp_all add: rmap_def)

lemma is_ok_iff [res_simps]: "is_ok m \<longleftrightarrow> (\<exists>x. m = Inr x)"
  by (cases m) (auto simp: is_ok_def)

lemma is_ok_simps [simp]: "is_ok (Inr x)" "\<not> is_ok (Inl e)"
  by (simp_all add: is_ok_def)

section \<open>Transactions\<close>

definition run_tx :: "('s \<Rightarrow> 'e + ('a \<times> 's)) \<Rightarrow> 's \<Rightarrow> ('e + 'a) \<times> 's" where
  "run_tx t s = (case t s of Inl e \<Rightarrow> (Inl e, s) | Inr (x, s') \<Rightarrow> (Inr x, s'))"

lemma run_tx_cases:
  obtains (aborted) e where "t s = Inl e" "run_tx t s = (Inl e, s)"
  | (committed) x s' where "t s = Inr (x, s')" "run_tx t s = (Inr x, s')"
  by (cases "t s") (auto simp: run_tx_def split: prod.splits)

lemma run_tx_preserves:
  assumes "\<And>x s'. t s = Inr (x, s') \<Longrightarrow> P s'" and "P s"
  shows "P (snd (run_tx t s))"
  using assms by (cases rule: run_tx_cases [of t s]) auto

lemma run_tx_Inr: "run_tx t s = (Inr x, s') \<longleftrightarrow> t s = Inr (x, s')"
  by (auto simp: run_tx_def split: sum.splits prod.splits)

lemma run_tx_Inl: "run_tx t s = (Inl e, s') \<longleftrightarrow> t s = Inl e \<and> s' = s"
  by (auto simp: run_tx_def split: sum.splits prod.splits)

section \<open>Tables\<close>

definition select_row :: "('r \<Rightarrow> bool) \<Rightarrow> 'r list \<Rightarrow> 'r option" where
  "select_row P rows = List.find P rows"

definition update_rows :: "('r \<Rightarrow> bool) \<Rightarrow> ('r \<Rightarrow> 'r) \<Rightarrow> 'r list \<Rightarrow> 'r list" where
  "update_rows P f rows = map (\<lambda>r. if P r then f r else r) rows"

definition matching_rows :: "('r \<Rightarrow> bool) \<Rightarrow> 'r list \<Rightarrow> 'r list" where
  "matching_rows P rows = filter P rows"

definition delete_rows :: "('r \<Rightarrow> bool) \<Rightarrow> 'r list \<Rightarrow> 'r list" where
  "delete_rows P rows = filter (\<lambda>r. \<not> P r) rows"

lemma select_row_Some:
  "select_row P rows = Some r \<Longrightarrow> P r \<and> r \<in> set rows"
  by (induction rows) (auto simp: select_row_def split: if_splits)

lemma select_row_None [row_simps]: "select_row P rows = None \<longleftrightarrow> (\<forall>r \<in> set rows. \<not> P r)"
  by (induction rows) (auto simp: select_row_def)

lemma select_row_simps [simp]:
  "select_row P [] = None"
  "select_row P (r # rows) = (if P r then Some r else select_row P rows)"
  by (simp_all add: select_row_def)

lemma set_update_rows [row_simps]:
  "r \<in> set (update_rows P f rows) \<longleftrightarrow>
     (\<exists>q \<in> set rows. (P q \<and> r = f q) \<or> (\<not> P q \<and> r = q))"
  by (auto simp: update_rows_def image_iff split: if_splits)

lemma update_rows_simps [simp]:
  "update_rows P f [] = []"
  "update_rows P f (r # rows) = (if P r then f r else r) # update_rows P f rows"
  by (simp_all add: update_rows_def)

lemma length_update_rows [simp]: "length (update_rows P f rows) = length rows"
  by (simp add: update_rows_def)

lemma update_rows_no_match: "(\<forall>r \<in> set rows. \<not> P r) \<Longrightarrow> update_rows P f rows = rows"
  by (induction rows) auto

lemma map_update_rows: "(\<And>r. key (f r) = key r) \<Longrightarrow> map key (update_rows P f rows) = map key rows"
  by (induction rows) auto

lemma set_matching_rows [row_simps]: "r \<in> set (matching_rows P rows) \<longleftrightarrow> r \<in> set rows \<and> P r"
  by (auto simp: matching_rows_def)

lemma matching_rows_Nil [row_simps]: "matching_rows P rows = [] \<longleftrightarrow> (\<forall>r \<in> set rows. \<not> P r)"
  by (induction rows) (auto simp: matching_rows_def)

lemma set_delete_rows [row_simps]: "r \<in> set (delete_rows P rows) \<longleftrightarrow> r \<in> set rows \<and> \<not> P r"
  by (auto simp: delete_rows_def)

text \<open>A primary key identifies at most one row.\<close>

definition unique_key :: "('r \<Rightarrow> 'k) \<Rightarrow> 'r list \<Rightarrow> bool" where
  "unique_key key rows = distinct (map key rows)"

lemma unique_key_eq:
  "unique_key key rows \<Longrightarrow> r \<in> set rows \<Longrightarrow> q \<in> set rows \<Longrightarrow> key r = key q \<Longrightarrow> r = q"
  by (auto simp: unique_key_def distinct_map dest: inj_onD)

lemma unique_key_Cons: "unique_key key (r # rows) \<longleftrightarrow> key r \<notin> key ` set rows \<and> unique_key key rows"
  by (auto simp: unique_key_def)

lemma unique_key_snoc: "unique_key key (rows @ [r]) \<longleftrightarrow> key r \<notin> key ` set rows \<and> unique_key key rows"
  by (auto simp: unique_key_def)

lemma unique_key_Nil [simp]: "unique_key key []"
  by (simp add: unique_key_def)

lemma unique_key_update:
  "(\<And>r. key (f r) = key r) \<Longrightarrow> unique_key key (update_rows P f rows) = unique_key key rows"
  by (simp add: unique_key_def map_update_rows)

lemma unique_key_delete: "unique_key key rows \<Longrightarrow> unique_key key (delete_rows P rows)"
  by (simp add: unique_key_def delete_rows_def distinct_map_filter)

text \<open>A \<open>UNIQUE\<close> column that may be null: \<open>NULL\<close> is never equal to \<open>NULL\<close>.\<close>

definition unique_opt :: "('r \<Rightarrow> 'k option) \<Rightarrow> 'r list \<Rightarrow> bool" where
  "unique_opt key rows = distinct (filter (\<lambda>k. k \<noteq> None) (map key rows))"

lemma unique_opt_Cons:
  "unique_opt key (r # rows) \<longleftrightarrow> (key r = None \<or> key r \<notin> key ` set rows) \<and> unique_opt key rows"
  by (auto simp: unique_opt_def)

lemma unique_opt_Nil [simp]: "unique_opt key []"
  by (simp add: unique_opt_def)

lemma unique_opt_eq:
  "unique_opt key rows \<Longrightarrow> q \<in> set rows \<Longrightarrow> r \<in> set rows \<Longrightarrow> key q = Some k \<Longrightarrow> key r = Some k \<Longrightarrow> q = r"
proof (induction rows)
  case (Cons a rows)
  have "x = a" if "x \<in> set (a # rows)" "key x = Some k" "key a = Some k" for x
    using that Cons.prems(1) by (auto simp: unique_opt_Cons intro: rev_image_eqI)
  with Cons show ?case by (auto simp: unique_opt_Cons)
qed simp

lemma unique_opt_snoc:
  "unique_opt key (rows @ [r]) \<longleftrightarrow> (key r = None \<or> key r \<notin> key ` set rows) \<and> unique_opt key rows"
  by (auto simp: unique_opt_def)

lemma unique_opt_update:
  "(\<And>r. key (f r) = key r) \<Longrightarrow> unique_opt key (update_rows P f rows) = unique_opt key rows"
  by (simp add: unique_opt_def map_update_rows)

lemma set_update_key:
  assumes "unique_key key rows" and "a \<in> set rows"
  shows "x \<in> set (update_rows (\<lambda>q. key q = key a) f rows) \<longleftrightarrow> x = f a \<or> (x \<in> set rows \<and> x \<noteq> a)"
proof -
  have "key q = key a \<longleftrightarrow> q = a" if "q \<in> set rows" for q
    using unique_key_eq [OF assms(1) that assms(2)] by blast
  then show ?thesis using assms(2) by (auto simp: set_update_rows)
qed

text \<open>The same facts when only the updated rows are known to keep the key.\<close>

lemma map_update_rows_on:
  "(\<And>r. r \<in> set rows \<Longrightarrow> P r \<Longrightarrow> key (f r) = key r) \<Longrightarrow> map key (update_rows P f rows) = map key rows"
  by (induction rows) auto

lemma unique_key_update_on:
  "(\<And>r. r \<in> set rows \<Longrightarrow> P r \<Longrightarrow> key (f r) = key r) \<Longrightarrow>
     unique_key key (update_rows P f rows) = unique_key key rows"
  by (simp add: unique_key_def map_update_rows_on)

lemma unique_opt_update_on:
  "(\<And>r. r \<in> set rows \<Longrightarrow> P r \<Longrightarrow> key (f r) = key r) \<Longrightarrow>
     unique_opt key (update_rows P f rows) = unique_opt key rows"
  by (simp add: unique_opt_def map_update_rows_on)

text \<open>An update of one row that gives it a new value in a \<open>UNIQUE\<close> column nobody else has.\<close>

lemma unique_opt_update_one:
  assumes "unique_opt key rows" and "unique_key ident rows" and "a \<in> set rows"
    and "\<And>r. r \<in> set rows \<Longrightarrow> r \<noteq> a \<Longrightarrow> key (f a) = None \<or> key r \<noteq> key (f a)"
  shows "unique_opt key (update_rows (\<lambda>q. ident q = ident a) f rows)"
  using assms
proof (induction rows)
  case (Cons r rows)
  from Cons.prems(2) have u: "unique_key ident rows" "ident r \<notin> ident ` set rows"
    by (auto simp: unique_key_Cons)
  show ?case
  proof (cases "r = a")
    case True
    with u(2) have "update_rows (\<lambda>q. ident q = ident a) f rows = rows"
      by (intro update_rows_no_match) (metis imageI)
    moreover have "key (f a) = None \<or> key (f a) \<notin> key ` set rows"
    proof (cases "key (f a)")
      case (Some k)
      have "key x \<noteq> key (f a)" if "x \<in> set rows" for x
      proof -
        from that u(2) True have "x \<noteq> a" by auto
        with Cons.prems(4) [of x] that Some show ?thesis by auto
      qed
      then have "key (f a) \<notin> key ` set rows" by (metis imageE)
      then show ?thesis by simp
    qed simp
    ultimately show ?thesis using True Cons.prems(1) by (auto simp: unique_opt_Cons)
  next
    case False
    with Cons.prems(3) have a: "a \<in> set rows" by simp
    with u(2) have ne: "ident r \<noteq> ident a" by (metis imageI)
    have "unique_opt key (update_rows (\<lambda>q. ident q = ident a) f rows)"
      using Cons a u(1) by (auto simp: unique_opt_Cons)
    moreover have "key r = None \<or> key r \<notin> key ` set (update_rows (\<lambda>q. ident q = ident a) f rows)"
    proof (rule ccontr)
      assume "\<not> ?thesis"
      then have some: "key r \<noteq> None"
        and "key r \<in> key ` set (update_rows (\<lambda>q. ident q = ident a) f rows)" by simp_all
      then obtain x where x: "x \<in> set (update_rows (\<lambda>q. ident q = ident a) f rows)"
        and k: "key r = key x" by (metis imageE)
      from x set_update_key [OF u(1) a, of x f] have "x = f a \<or> x \<in> set rows" by blast
      then show False
      proof
        assume "x = f a"
        with Cons.prems(4) [of r] False k some show False by auto
      next
        assume "x \<in> set rows"
        with Cons.prems(1) k some show False by (auto simp: unique_opt_Cons)
      qed
    qed
    ultimately show ?thesis using ne by (simp add: unique_opt_Cons)
  qed
qed simp

lemma sum_update_one:
  fixes g :: "'r \<Rightarrow> int"
  assumes "unique_key ident rows" and "a \<in> set rows"
  shows "sum_list (map g (update_rows (\<lambda>q. ident q = ident a) f rows))
           = sum_list (map g rows) - g a + g (f a)"
  using assms
proof (induction rows)
  case (Cons r rows)
  from Cons.prems(1) have u: "unique_key ident rows" "ident r \<notin> ident ` set rows"
    by (auto simp: unique_key_Cons)
  show ?case
  proof (cases "r = a")
    case True
    with u(2) have "update_rows (\<lambda>q. ident q = ident a) f rows = rows"
      by (intro update_rows_no_match) (metis imageI)
    with True show ?thesis by simp
  next
    case False
    with Cons.prems(2) have "a \<in> set rows" by simp
    moreover from this u(2) have "ident r \<noteq> ident a" by (metis imageI)
    ultimately show ?thesis using Cons.IH [OF u(1)] by simp
  qed
qed simp

lemma select_row_key:
  assumes "unique_key key rows" and "r \<in> set rows"
  shows "select_row (\<lambda>q. key q = key r) rows = Some r"
  using assms by (induction rows) (auto simp: unique_key_def image_iff)

lemma select_row_update:
  assumes "\<And>r. key (f r) = key r"
  shows "select_row (\<lambda>q. key q = k) (update_rows P f rows)
           = map_option (\<lambda>r. if P r then f r else r) (select_row (\<lambda>q. key q = k) rows)"
  using assms by (induction rows) auto

lemma select_row_snoc:
  "select_row P (rows @ [r])
     = (case select_row P rows of Some q \<Rightarrow> Some q | None \<Rightarrow> if P r then Some r else None)"
  by (induction rows) auto

section \<open>Stable sorting\<close>

lemma insort_key_append:
  "(\<And>y. y \<in> set ys \<Longrightarrow> f x \<le> f y) \<Longrightarrow> insort_key f x (xs @ ys) = insort_key f x xs @ ys"
  by (induction xs) (auto intro: insort_is_Cons)

lemma sort_key_append:
  "(\<And>x y. x \<in> set xs \<Longrightarrow> y \<in> set ys \<Longrightarrow> f x \<le> f y) \<Longrightarrow> sort_key f (xs @ ys) = sort_key f xs @ sort_key f ys"
  by (induction xs) (auto intro!: insort_key_append)

section \<open>Transition systems\<close>

inductive reachable :: "('s \<Rightarrow> bool) \<Rightarrow> ('s \<Rightarrow> 's \<Rightarrow> bool) \<Rightarrow> 's \<Rightarrow> bool"
  for start :: "'s \<Rightarrow> bool" and next_state :: "'s \<Rightarrow> 's \<Rightarrow> bool" where
  reachable_start: "start s \<Longrightarrow> reachable start next_state s"
| reachable_step: "reachable start next_state s \<Longrightarrow> next_state s t \<Longrightarrow> reachable start next_state t"

text \<open>
  The contract of a state machine: an invariant of the initial states that each step keeps. A
  client gets it in every reachable state and along every run.
\<close>

locale invariant_system =
  fixes start :: "'s \<Rightarrow> bool" and next_state :: "'s \<Rightarrow> 's \<Rightarrow> bool" and inv :: "'s \<Rightarrow> bool"
  assumes inv_start: "start s \<Longrightarrow> inv s"
    and inv_step: "inv s \<Longrightarrow> next_state s t \<Longrightarrow> inv t"
begin

lemma inv_run: "next_state\<^sup>*\<^sup>* s t \<Longrightarrow> inv s \<Longrightarrow> inv t"
  by (induction rule: rtranclp_induct) (auto intro: inv_step)

lemma inv_reachable: "reachable start next_state s \<Longrightarrow> inv s"
  by (induction rule: reachable.induct) (auto intro: inv_start inv_step)

end

text \<open>
  A state machine with a history relation: what a step may do to facts already recorded. A client
  gets the relation between the two ends of any run.
\<close>

locale history_system = invariant_system start next_state inv
  for start :: "'s \<Rightarrow> bool" and next_state :: "'s \<Rightarrow> 's \<Rightarrow> bool" and inv :: "'s \<Rightarrow> bool" +
  fixes keeps :: "'s \<Rightarrow> 's \<Rightarrow> bool"
  assumes keeps_refl: "keeps s s"
    and keeps_trans: "keeps s t \<Longrightarrow> keeps t u \<Longrightarrow> keeps s u"
    and keeps_step: "inv s \<Longrightarrow> next_state s t \<Longrightarrow> keeps s t"
begin

lemma keeps_run:
  assumes "next_state\<^sup>*\<^sup>* s t" and "inv s"
  shows "keeps s t"
  using assms
proof (induction rule: rtranclp_induct)
  case base
  show ?case by (rule keeps_refl)
next
  case (step t u)
  from step.hyps(1) step.prems have "inv t" by (rule inv_run)
  with step.hyps(2) have "keeps t u" by (simp add: keeps_step)
  with step.IH [OF step.prems] show ?case by (rule keeps_trans)
qed

lemma keeps_from_reachable: "reachable start next_state s \<Longrightarrow> next_state\<^sup>*\<^sup>* s t \<Longrightarrow> keeps s t"
  by (rule keeps_run) (auto intro: inv_reachable)

end

end
