(* ===== verification/Core_Text.thy ===== *)
theory Core_Text
  imports Enclave_Prelude "HOL-Library.Word"
begin

text \<open>
  Strings, bytes and numbers as the packages use them (\<open>core/src/hash.ts\<close>,
  \<open>core/src/addresses.ts\<close>, \<open>core/src/indexer-scope.ts\<close>).

  A JavaScript string is a \<open>string\<close> of its UTF-8 bytes, a \<open>Buffer\<close> is a list of bytes, a
  \<open>bigint\<close> is an \<open>int\<close>. SHA-256 and Keccak are parameters on byte lists. The regular
  expressions of the code are bool-valued functions; \<open>toLowerCase\<close> is the ASCII one, which is
  all the code applies it to (hexadecimal text, hashes and addresses).
\<close>

type_synonym bytes = "8 word list"
type_synonym hash_fun = "bytes \<Rightarrow> bytes"

section \<open>Characters\<close>

abbreviation code_of :: "char \<Rightarrow> nat" where
  "code_of c \<equiv> of_char c"

definition is_digit :: "char \<Rightarrow> bool" where
  "is_digit c \<longleftrightarrow> 48 \<le> code_of c \<and> code_of c \<le> 57"

definition is_lower_hex_digit :: "char \<Rightarrow> bool" where
  "is_lower_hex_digit c \<longleftrightarrow> is_digit c \<or> (97 \<le> code_of c \<and> code_of c \<le> 102)"

definition is_hex_digit :: "char \<Rightarrow> bool" where
  "is_hex_digit c \<longleftrightarrow> is_lower_hex_digit c \<or> (65 \<le> code_of c \<and> code_of c \<le> 70)"

definition is_letter :: "char \<Rightarrow> bool" where
  "is_letter c \<longleftrightarrow> (97 \<le> code_of c \<and> code_of c \<le> 122) \<or> (65 \<le> code_of c \<and> code_of c \<le> 90)"

definition is_control :: "char \<Rightarrow> bool" where
  "is_control c \<longleftrightarrow> code_of c < 32 \<or> code_of c = 127"

definition lower_char :: "char \<Rightarrow> char" where
  "lower_char c = (if 65 \<le> code_of c \<and> code_of c \<le> 90 then char_of (code_of c + 32) else c)"

definition lower :: "string \<Rightarrow> string" where
  "lower s = map lower_char s"

definition same :: "string \<Rightarrow> string \<Rightarrow> bool" where
  "same a b \<longleftrightarrow> lower a = lower b"

definition starts_with :: "string \<Rightarrow> string \<Rightarrow> bool" where
  "starts_with s p \<longleftrightarrow> take (length p) s = p"

text \<open>\<open>/^0x[0-9a-fA-F]{n}$/\<close> and \<open>/^[A-Za-z0-9._:-]{1,128}$/\<close>.\<close>

definition hex_string :: "nat \<Rightarrow> string \<Rightarrow> bool" where
  "hex_string n s \<longleftrightarrow> length s = n + 2 \<and> take 2 s = ''0x'' \<and> list_all is_hex_digit (drop 2 s)"

definition key_string :: "string \<Rightarrow> bool" where
  "key_string s \<longleftrightarrow> 1 \<le> length s \<and> length s \<le> 128 \<and>
     list_all (\<lambda>c. is_letter c \<or> is_digit c \<or> c \<in> set ''._:-'') s"

lemma same_refl [simp]: "same a a"
  by (simp add: same_def)

lemma same_sym: "same a b \<Longrightarrow> same b a"
  by (simp add: same_def)

lemma same_trans: "same a b \<Longrightarrow> same b c \<Longrightarrow> same a c"
  by (simp add: same_def)

section \<open>Hexadecimal\<close>

definition hex_char :: "nat \<Rightarrow> char" where
  "hex_char n = (if n < 10 then char_of (48 + n) else char_of (87 + n))"

definition hex_value :: "char \<Rightarrow> nat" where
  "hex_value c = (if is_digit c then code_of c - 48
     else if 97 \<le> code_of c then code_of c - 87
     else code_of c - 55)"

definition hex_number :: "string \<Rightarrow> nat" where
  "hex_number s = foldl (\<lambda>acc c. 16 * acc + hex_value c) 0 s"

definition hex_of_byte :: "8 word \<Rightarrow> string" where
  "hex_of_byte b = [hex_char (unat b div 16), hex_char (unat b mod 16)]"

definition toHex :: "bytes \<Rightarrow> string" where
  "toHex buf = ''0x'' @ concat (map hex_of_byte buf)"

fun hex_pairs :: "string \<Rightarrow> bytes" where
  "hex_pairs (a # b # rest) = word_of_nat (16 * hex_value a + hex_value b) # hex_pairs rest"
| "hex_pairs _ = []"

datatype hex_error = OddHexLength | InvalidHexCharacters

definition strip_0x :: "string \<Rightarrow> string" where
  "strip_0x s = (if starts_with s ''0x'' then drop 2 s else s)"

definition fromHex :: "string \<Rightarrow> hex_error + bytes" where
  "fromHex hex = (let h = strip_0x hex in
     if length h mod 2 \<noteq> 0 then Inl OddHexLength
     else if \<not> list_all is_hex_digit h then Inl InvalidHexCharacters
     else Inr (hex_pairs h))"

definition isHex32 :: "string \<Rightarrow> bool" where
  "isHex32 value = hex_string 64 value"

lemma hex_value_hex_char: "n < 16 \<Longrightarrow> hex_value (hex_char n) = n"
  by (auto simp: hex_value_def hex_char_def is_digit_def)

lemma is_lower_hex_char: "n < 16 \<Longrightarrow> is_lower_hex_digit (hex_char n)"
  by (auto simp: is_lower_hex_digit_def is_digit_def hex_char_def)

lemma lower_hex_is_hex: "is_lower_hex_digit c \<Longrightarrow> is_hex_digit c"
  by (simp add: is_hex_digit_def)

lemma lower_hex_fixed: "is_lower_hex_digit c \<Longrightarrow> lower_char c = c"
  by (auto simp: is_lower_hex_digit_def is_digit_def lower_char_def)

lemma byte_div_bound: "unat (b :: 8 word) div 16 < 16"
proof -
  have "unat b < 2 ^ LENGTH(8)" by (rule unsigned_less)
  then show ?thesis by simp
qed

lemma hex_pairs_of_bytes: "hex_pairs (concat (map hex_of_byte buf)) = buf"
proof (induction buf)
  case Nil
  then show ?case by simp
next
  case (Cons b buf)
  have hi: "hex_value (hex_char (unat b div 16)) = unat b div 16"
    by (rule hex_value_hex_char) (rule byte_div_bound)
  have lo: "hex_value (hex_char (unat b mod 16)) = unat b mod 16"
    by (rule hex_value_hex_char) simp
  have "word_of_nat (16 * (unat b div 16) + unat b mod 16) = b"
    by (simp add: mult_div_mod_eq)
  with hi lo Cons.IH show ?case
    by (simp add: hex_of_byte_def)
qed

lemma hex_of_bytes_digits: "list_all is_lower_hex_digit (concat (map hex_of_byte buf))"
proof (induction buf)
  case Nil
  then show ?case by simp
next
  case (Cons b buf)
  then show ?case
    using is_lower_hex_char [OF byte_div_bound [of b]] is_lower_hex_char [of "unat b mod 16"]
    by (simp add: hex_of_byte_def)
qed

lemma length_hex_of_bytes: "length (concat (map hex_of_byte buf)) = 2 * length buf"
  by (induction buf) (auto simp: hex_of_byte_def)

lemma fromHex_toHex: "fromHex (toHex buf) = Inr buf"
proof -
  have "list_all is_hex_digit (concat (map hex_of_byte buf))"
    using hex_of_bytes_digits [of buf] by (auto simp: list_all_iff intro: lower_hex_is_hex)
  then show ?thesis
    by (simp add: fromHex_def toHex_def strip_0x_def starts_with_def length_hex_of_bytes
        hex_pairs_of_bytes)
qed

lemma toHex_inj: "toHex a = toHex b \<longleftrightarrow> a = b"
  by (metis fromHex_toHex Inr_inject)

lemma toHex_hex_string: "hex_string (2 * length buf) (toHex buf)"
  using hex_of_bytes_digits [of buf]
  by (auto simp: hex_string_def toHex_def length_hex_of_bytes list_all_iff
      intro: lower_hex_is_hex)

lemma lower_toHex: "lower (toHex buf) = toHex buf"
proof -
  have "map lower_char (concat (map hex_of_byte buf)) = concat (map hex_of_byte buf)"
    using hex_of_bytes_digits [of buf] by (intro map_idI) (auto simp: list_all_iff lower_hex_fixed)
  moreover have "lower_char CHR ''0'' = CHR ''0''" "lower_char CHR ''x'' = CHR ''x''"
    by (simp_all add: lower_char_def)
  ultimately show ?thesis by (simp add: lower_def toHex_def)
qed

lemma same_toHex: "same (toHex a) (toHex b) \<longleftrightarrow> a = b"
  by (simp add: same_def lower_toHex toHex_inj)

section \<open>Hashes of text\<close>

definition utf8 :: "string \<Rightarrow> bytes" where
  "utf8 s = map (\<lambda>c. word_of_nat (of_char c)) s"

definition sha256Hex :: "hash_fun \<Rightarrow> bytes \<Rightarrow> string" where
  "sha256Hex sha data = toHex (sha data)"

definition sha256HexText :: "hash_fun \<Rightarrow> string \<Rightarrow> string" where
  "sha256HexText sha s = sha256Hex sha (utf8 s)"

lemma utf8_append: "utf8 (a @ b) = utf8 a @ utf8 b"
  by (simp add: utf8_def)

lemma isHex32_sha256Hex: "length (sha data) = 32 \<Longrightarrow> isHex32 (sha256Hex sha data)"
  using toHex_hex_string [of "sha data"] by (simp add: isHex32_def sha256Hex_def)

section \<open>Decimal numbers\<close>

definition digit_char :: "nat \<Rightarrow> char" where
  "digit_char n = char_of (48 + n)"

fun nat_dec :: "nat \<Rightarrow> string" where
  "nat_dec n = (if n < 10 then [digit_char n] else nat_dec (n div 10) @ [digit_char (n mod 10)])"

declare nat_dec.simps [simp del]

definition int_dec :: "int \<Rightarrow> string" where
  "int_dec i = (if i < 0 then CHR ''-'' # nat_dec (nat (- i)) else nat_dec (nat i))"

definition digit_value :: "char \<Rightarrow> nat" where
  "digit_value c = code_of c - 48"

definition dec_number :: "string \<Rightarrow> nat" where
  "dec_number s = foldl (\<lambda>acc c. 10 * acc + digit_value c) 0 s"

text \<open>\<open>/^\d{1,n}$/\<close>.\<close>

definition dec_string :: "nat \<Rightarrow> string \<Rightarrow> bool" where
  "dec_string n s \<longleftrightarrow> 1 \<le> length s \<and> length s \<le> n \<and> list_all is_digit s"

lemma digit_value_char: "n < 10 \<Longrightarrow> digit_value (digit_char n) = n"
  by (simp add: digit_value_def digit_char_def)

lemma is_digit_char: "n < 10 \<Longrightarrow> is_digit (digit_char n)"
  by (simp add: is_digit_def digit_char_def)

lemma dec_number_snoc: "dec_number (s @ [c]) = 10 * dec_number s + digit_value c"
  by (simp add: dec_number_def)

lemma dec_number_nat_dec: "dec_number (nat_dec n) = n"
proof (induction n rule: nat_dec.induct)
  case (1 n)
  show ?case
  proof (cases "n < 10")
    case True
    then show ?thesis
      by (subst nat_dec.simps) (simp add: dec_number_def digit_value_char)
  next
    case False
    with "1.IH" have "dec_number (nat_dec (n div 10)) = n div 10" by simp
    with False show ?thesis
      by (subst nat_dec.simps) (simp add: dec_number_snoc digit_value_char)
  qed
qed

lemma nat_dec_inj: "nat_dec a = nat_dec b \<longleftrightarrow> a = b"
  by (metis dec_number_nat_dec)

lemma nat_dec_digits: "list_all is_digit (nat_dec n)"
proof (induction n rule: nat_dec.induct)
  case (1 n)
  then show ?case
    by (subst nat_dec.simps) (auto simp: is_digit_char)
qed

lemma nat_dec_nonempty: "nat_dec n \<noteq> []"
  by (subst nat_dec.simps) simp

section \<open>Numbers\<close>

text \<open>
  A JavaScript \<open>number\<close> where the code first asks \<open>Number.isInteger\<close> or
  \<open>Number.isSafeInteger\<close>: an integral value, or \<open>JOther\<close> with its printed text for a fraction,
  \<open>NaN\<close> or an infinity.
\<close>

datatype js_number = JInt int | JOther string

definition max_safe :: int where
  "max_safe = 9007199254740991"

definition is_integer :: "js_number \<Rightarrow> bool" where
  "is_integer n = (case n of JInt _ \<Rightarrow> True | JOther _ \<Rightarrow> False)"

definition is_safe_integer :: "js_number \<Rightarrow> bool" where
  "is_safe_integer n = (case n of JInt i \<Rightarrow> \<bar>i\<bar> \<le> max_safe | JOther _ \<Rightarrow> False)"

text \<open>\<open>String(n)\<close>, and the value of a number that passed \<open>Number.isInteger\<close>.\<close>

fun num_text :: "js_number \<Rightarrow> string" where
  "num_text (JInt i) = int_dec i"
| "num_text (JOther t) = t"

fun int_of :: "js_number \<Rightarrow> int" where
  "int_of (JInt i) = i"
| "int_of (JOther _) = 0"

text \<open>\<open>!s.trim()\<close> on ASCII text.\<close>

definition is_space :: "char \<Rightarrow> bool" where
  "is_space c \<longleftrightarrow> code_of c = 32 \<or> (9 \<le> code_of c \<and> code_of c \<le> 13)"

definition blank :: "string \<Rightarrow> bool" where
  "blank s \<longleftrightarrow> list_all is_space s"

lemma int_dec_nonneg: "0 \<le> i \<Longrightarrow> int_dec i = nat_dec (nat i)"
  by (simp add: int_dec_def)

lemma int_dec_inj_nonneg: "0 \<le> i \<Longrightarrow> 0 \<le> j \<Longrightarrow> int_dec i = int_dec j \<longleftrightarrow> i = j"
  using int_dec_nonneg nat_dec_inj nat_eq_iff by (metis int_nat_eq)

section \<open>Addresses and deployment scopes\<close>

text \<open>
  \<open>isConfiguredAddress\<close> takes \<open>string | undefined | null\<close>: an absent value is \<open>None\<close>. The
  \<open>BigInt\<close> conversion cannot throw once the pattern has matched.
\<close>

definition placeholder_max :: nat where
  "placeholder_max = 16"

definition isConfiguredAddress :: "string option \<Rightarrow> bool" where
  "isConfiguredAddress value = (case value of
     None \<Rightarrow> False
   | Some v \<Rightarrow> hex_string 40 v \<and> hex_number (drop 2 v) > placeholder_max)"

definition normalize_address :: "string option \<Rightarrow> string option" where
  "normalize_address value =
     (if isConfiguredAddress value then map_option lower value else None)"

record scope_input =
  sc_chainId :: nat
  sc_genesisHash :: string
  sc_deploymentId :: "string option"
  sc_verifier :: "string option"
  sc_meter :: "string option"
  sc_feeVault :: "string option"
  sc_registry :: "string option"

definition json_string_or_null :: "string option \<Rightarrow> string" where
  "json_string_or_null v = (case v of None \<Rightarrow> ''null'' | Some s \<Rightarrow> ''\"'' @ s @ ''\"'')"

definition scope_identity :: "scope_input \<Rightarrow> string option list" where
  "scope_identity i =
     [Some (lower (sc_genesisHash i)),
      Some (case sc_deploymentId i of None \<Rightarrow> '''' | Some d \<Rightarrow> d),
      normalize_address (sc_verifier i), normalize_address (sc_meter i),
      normalize_address (sc_feeVault i), normalize_address (sc_registry i)]"

text \<open>\<open>encode\<close> is \<open>JSON.stringify\<close> of the identity record and \<open>keccak\<close> the digest of its bytes.\<close>

definition indexerScope ::
  "(string option list \<Rightarrow> string) \<Rightarrow> hash_fun \<Rightarrow> scope_input \<Rightarrow> string" where
  "indexerScope encode keccak i =
     ''enclave-v2:'' @ nat_dec (sc_chainId i) @ '':'' @ toHex (keccak (utf8 (encode (scope_identity i))))"

lemma isConfiguredAddress_Some:
  "isConfiguredAddress value \<Longrightarrow> \<exists>v. value = Some v \<and> hex_string 40 v"
  by (auto simp: isConfiguredAddress_def split: option.splits)

end
