(* ===== verification/Core_Errors.thy ===== *)
theory Core_Errors
  imports Core_Text
begin

text \<open>
  The errors of the packages (\<open>core/src/errors.ts\<close>) as values, their codes and HTTP statuses,
  and the two places that translate them: \<open>mapError\<close> of \<open>api/src/trpc.ts\<close> and the
  \<open>onError\<close> handler of \<open>api/src/app.ts\<close>. \<open>PlainError\<close> is a \<open>throw new Error(...)\<close>, \<open>RangeError\<close>
  or an exception of a library: anything that is not an \<open>AppError\<close>. The payload of a payment
  error is the x402 challenge of \<open>core/src/x402.ts\<close>.
\<close>

record x402_accept =
  xa_scheme :: string
  xa_network :: string
  xa_maxAmountRequired :: string
  xa_payTo :: string
  xa_asset :: string
  xa_receiptPending :: bool
  xa_paymentId :: string

record x402_requirement =
  xr_x402Version :: nat
  xr_accepts :: "x402_accept list"

datatype enclave_error =
    AppError string string nat
  | AttestationFailedError string
  | KeyNotReleasedError
  | TamperedImageError
  | MandateBreachError string
  | PaymentRequiredError string x402_requirement
  | ValidationError string
  | NotFoundError string string
  | ConflictError string
  | UnauthorizedError string
  | ModelNotApprovedError string
  | ForbiddenError string
  | PlainError string

definition is_app_error :: "enclave_error \<Rightarrow> bool" where
  "is_app_error e = (case e of PlainError _ \<Rightarrow> False | _ \<Rightarrow> True)"

fun error_code :: "enclave_error \<Rightarrow> string" where
  "error_code (AppError code _ _) = code"
| "error_code (AttestationFailedError _) = ''ATTESTATION_FAILED''"
| "error_code KeyNotReleasedError = ''KEY_NOT_RELEASED''"
| "error_code TamperedImageError = ''TAMPERED_IMAGE''"
| "error_code (MandateBreachError _) = ''MANDATE_BREACH''"
| "error_code (PaymentRequiredError _ _) = ''PAYMENT_REQUIRED''"
| "error_code (ValidationError _) = ''VALIDATION_FAILED''"
| "error_code (NotFoundError _ _) = ''NOT_FOUND''"
| "error_code (ConflictError _) = ''CONFLICT''"
| "error_code (UnauthorizedError _) = ''UNAUTHORIZED''"
| "error_code (ModelNotApprovedError _) = ''MODEL_NOT_APPROVED''"
| "error_code (ForbiddenError _) = ''FORBIDDEN''"
| "error_code (PlainError _) = ''INTERNAL''"

fun error_status :: "enclave_error \<Rightarrow> nat" where
  "error_status (AppError _ _ status) = status"
| "error_status (AttestationFailedError _) = 403"
| "error_status KeyNotReleasedError = 403"
| "error_status TamperedImageError = 403"
| "error_status (MandateBreachError _) = 403"
| "error_status (PaymentRequiredError _ _) = 402"
| "error_status (ValidationError _) = 400"
| "error_status (NotFoundError _ _) = 404"
| "error_status (ConflictError _) = 409"
| "error_status (UnauthorizedError _) = 401"
| "error_status (ModelNotApprovedError _) = 403"
| "error_status (ForbiddenError _) = 403"
| "error_status (PlainError _) = 500"

text \<open>\<open>err.message\<close>; the payload of a \<open>ValidationError\<close> are its details, not its message.\<close>

fun error_message :: "enclave_error \<Rightarrow> string" where
  "error_message (AppError _ message _) = message"
| "error_message (AttestationFailedError message) = message"
| "error_message KeyNotReleasedError = ''No secret is released before attestation verifies''"
| "error_message TamperedImageError = ''Serving image measurement does not match TCB policy''"
| "error_message (MandateBreachError message) = message"
| "error_message (PaymentRequiredError message _) = message"
| "error_message (ValidationError _) = ''Validation failed''"
| "error_message (NotFoundError resource i) = resource @ '' not found: '' @ i"
| "error_message (ConflictError message) = message"
| "error_message (UnauthorizedError message) = message"
| "error_message (ModelNotApprovedError message) = message"
| "error_message (ForbiddenError message) = message"
| "error_message (PlainError message) = message"

text \<open>\<open>mapError\<close>: only an \<open>AppError\<close> becomes a tRPC code, everything else is rethrown (\<open>None\<close>).\<close>

definition mapError :: "enclave_error \<Rightarrow> string option" where
  "mapError err =
     (if is_app_error err then
        Some (let s = error_status err in
          if s = 401 then ''UNAUTHORIZED''
          else if s = 403 then ''FORBIDDEN''
          else if s = 404 then ''NOT_FOUND''
          else if s = 409 then ''CONFLICT''
          else if s = 402 then ''PRECONDITION_FAILED''
          else if s = 400 then ''BAD_REQUEST''
          else ''INTERNAL_SERVER_ERROR'')
      else None)"

text \<open>
  The JSON body of a failed request: \<open>problem\<close> for the application's errors, a fixed body for
  everything else.
\<close>

record problem_body =
  pb_type :: string
  pb_title :: string
  pb_status :: nat
  pb_detail :: string

definition problem :: "enclave_error \<Rightarrow> problem_body" where
  "problem err = \<lparr>pb_type = ''https://enclave.local/errors/'' @ error_code err,
     pb_title = error_code err, pb_status = error_status err,
     pb_detail = error_message err\<rparr>"

datatype log_call = LogError string | LogWarn string | NoLog

definition onError :: "enclave_error \<Rightarrow> log_call \<times> problem_body \<times> nat" where
  "onError err =
     (case err of
        PaymentRequiredError _ _ \<Rightarrow> (NoLog, problem err, 402)
      | _ \<Rightarrow>
        if is_app_error err then
          ((if error_status err \<ge> 500 then LogError ''server_error'' else LogWarn ''client_error''),
           problem err, error_status err)
        else
          (LogError ''unhandled_error'',
           \<lparr>pb_type = ''about:blank'', pb_title = ''INTERNAL'', pb_status = 500,
            pb_detail = ''Internal error''\<rparr>, 500))"

lemma onError_status: "pb_status (fst (snd (onError err))) = snd (snd (onError err))"
  by (cases err) (auto simp: onError_def problem_def is_app_error_def)

lemma error_status_code: "is_app_error err \<Longrightarrow> (\<forall>c m s. err \<noteq> AppError c m s) \<Longrightarrow> error_status err \<in> {400, 401, 402, 403, 404, 409}"
  by (cases err) (auto simp: is_app_error_def)

text \<open>
  A failure that is not one of the application's own errors reaches the client as one
  fixed body, whatever its message was, and is logged; every other failure is reported with the
  HTTP status that its body carries.
\<close>

theorem internal_errors_do_not_leak:
  "snd (onError (PlainError secret)) =
      (\<lparr>pb_type = ''about:blank'', pb_title = ''INTERNAL'', pb_status = 500, pb_detail = ''Internal error''\<rparr>, 500)
   \<and> fst (onError (PlainError secret)) = LogError ''unhandled_error''
   \<and> mapError (PlainError secret) = None
   \<and> pb_status (fst (snd (onError err))) = snd (snd (onError err))"
  using onError_status [of err] by (simp add: onError_def is_app_error_def mapError_def)

end
