(* ===== verification/Core_Money.thy ===== *)
theory Core_Money
  imports Core_Errors "HOL-Library.List_Lexorder" "HOL-Library.Char_ord" "HOL-Library.Multiset"
begin

text \<open>
  Money, mandates and policies of the core package: \<open>fees.ts\<close>, \<open>buyback.ts\<close>, \<open>mandate.ts\<close>,
  \<open>registry.ts\<close>, \<open>agent.ts\<close>, \<open>x402.ts\<close>, and the relay gas limits of \<open>db/src/arc-gas-policy.ts\<close>.

  A \<open>bigint\<close> is an \<open>int\<close>. Its division truncates towards zero; every dividend here has passed a
  sign check, so HOL's \<open>div\<close> is the same function on it.
\<close>

section \<open>Fee split and buyback\<close>

record fee_split =
  treasury :: int
  stakers :: int
  providers :: int
  ecosystem :: int

definition fee_treasury_bps :: int where "fee_treasury_bps = 80"
definition fee_stakers_bps :: int where "fee_stakers_bps = 10"
definition fee_providers_bps :: int where "fee_providers_bps = 5"

definition splitFee :: "int \<Rightarrow> enclave_error + fee_split" where
  "splitFee amount =
     (if amount < 0 then Inl (PlainError ''amount'')
      else
        (let t = (amount * fee_treasury_bps) div 100;
             s = (amount * fee_stakers_bps) div 100;
             p = (amount * fee_providers_bps) div 100
         in Inr \<lparr>treasury = t, stakers = s, providers = p, ecosystem = amount - t - s - p\<rparr>))"

definition buyback_of_treasury_bps :: int where "buyback_of_treasury_bps = 1000"

definition buybackFromTreasury :: "int \<Rightarrow> enclave_error + int" where
  "buybackFromTreasury treasuryAmount =
     (if treasuryAmount < 0 then Inl (PlainError ''amount'')
      else Inr ((treasuryAmount * buyback_of_treasury_bps) div 10000))"

lemmas fee_defs = splitFee_def fee_treasury_bps_def fee_stakers_bps_def fee_providers_bps_def Let_def

lemma splitFee_Inr:
  assumes "splitFee a = Inr f"
  shows "0 \<le> a" and "treasury f = a * 80 div 100" and "stakers f = a * 10 div 100"
    and "providers f = a * 5 div 100"
    and "ecosystem f = a - treasury f - stakers f - providers f"
  using assms by (auto simp: fee_defs split: if_splits)

lemma ecosystem_bounds:
  fixes a :: int
  assumes "0 \<le> a"
  shows "a * 5 div 100 \<le> a - a * 80 div 100 - a * 10 div 100 - a * 5 div 100"
    and "a - a * 80 div 100 - a * 10 div 100 - a * 5 div 100 \<le> a * 5 div 100 + 3"
  by linarith+

section \<open>Mandates\<close>

record mandate_snapshot =
  dailyLimitUnits :: int
  spentTodayUnits :: int
  dayKey :: string

definition reserveMandate ::
  "mandate_snapshot \<Rightarrow> string \<Rightarrow> int \<Rightarrow> enclave_error + mandate_snapshot" where
  "reserveMandate row day amount =
     (if amount < 0 \<or> dailyLimitUnits row < 0 \<or> spentTodayUnits row < 0
      then Inl (MandateBreachError ''Mandate amounts must be non-negative'')
      else
        (let spent = (if dayKey row = day then spentTodayUnits row else 0) in
         if spent + amount > dailyLimitUnits row
         then Inl (MandateBreachError ''Mandate limit exceeded'')
         else Inr \<lparr>dailyLimitUnits = dailyLimitUnits row, spentTodayUnits = spent + amount,
                   dayKey = day\<rparr>))"

lemma reserveMandate_Inr:
  assumes "reserveMandate row day amount = Inr row'"
  shows "0 \<le> amount" and "dailyLimitUnits row' = dailyLimitUnits row" and "dayKey row' = day"
    and "spentTodayUnits row' = (if dayKey row = day then spentTodayUnits row else 0) + amount"
    and "0 \<le> spentTodayUnits row'" and "spentTodayUnits row' \<le> dailyLimitUnits row'"
  using assms by (auto simp: reserveMandate_def Let_def split: if_splits)

text \<open>A sequence of reservations against one row: a refused one leaves the row as it was.\<close>

fun reserve_all :: "mandate_snapshot \<Rightarrow> (string \<times> int) list \<Rightarrow> mandate_snapshot \<times> (string \<times> int) list" where
  "reserve_all row [] = (row, [])"
| "reserve_all row ((day, amount) # rest) =
     (case reserveMandate row day amount of
        Inl _ \<Rightarrow> reserve_all row rest
      | Inr row' \<Rightarrow>
          (let (final, accepted) = reserve_all row' rest in (final, (day, amount) # accepted)))"

definition mandate_ok :: "mandate_snapshot \<Rightarrow> bool" where
  "mandate_ok row \<longleftrightarrow> 0 \<le> spentTodayUnits row \<and> spentTodayUnits row \<le> dailyLimitUnits row"

lemma reserve_all_Cons_Inr:
  assumes "reserveMandate row day amount = Inr row'"
    and "reserve_all row ((day, amount) # rest) = (final, accepted)"
  obtains accepted' where "reserve_all row' rest = (final, accepted')"
    and "accepted = (day, amount) # accepted'"
  using assms by (cases "reserve_all row' rest") auto

lemma reserve_all_Cons_Inl:
  "reserveMandate row day amount = Inl e \<Longrightarrow> reserve_all row ((day, amount) # rest) = reserve_all row rest"
  by simp

lemma reserve_all_ok:
  "mandate_ok row \<Longrightarrow> reserve_all row reqs = (final, accepted) \<Longrightarrow>
     mandate_ok final \<and> dailyLimitUnits final = dailyLimitUnits row"
proof (induction reqs arbitrary: row accepted)
  case Nil
  then show ?case by simp
next
  case (Cons r rest)
  obtain day amount where r: "r = (day, amount)" by (cases r)
  show ?case
  proof (cases "reserveMandate row day amount")
    case (Inl e)
    with Cons.prems r have "reserve_all row rest = (final, accepted)" by simp
    with Cons.prems(1) show ?thesis by (rule Cons.IH)
  next
    case (Inr row')
    from reserveMandate_Inr [OF Inr] have ok: "mandate_ok row'" by (simp add: mandate_ok_def)
    obtain accepted' where "reserve_all row' rest = (final, accepted')"
      using Inr Cons.prems(2) [unfolded r] by (rule reserve_all_Cons_Inr)
    with ok have "mandate_ok final \<and> dailyLimitUnits final = dailyLimitUnits row'"
      by (rule Cons.IH)
    with reserveMandate_Inr(2) [OF Inr] show ?thesis by simp
  qed
qed

text \<open>What one day's accepted reservations add up to.\<close>

definition total_on :: "string \<Rightarrow> (string \<times> int) list \<Rightarrow> int" where
  "total_on day reqs = sum_list (map snd (filter (\<lambda>r. fst r = day) reqs))"

lemma total_on_simps [simp]:
  "total_on day [] = 0"
  "total_on day (r # rs) = (if fst r = day then snd r else 0) + total_on day rs"
  by (simp_all add: total_on_def)

lemma reserve_all_same_day:
  "(\<forall>r \<in> set reqs. fst r = day) \<Longrightarrow> dayKey row = day \<Longrightarrow>
     reserve_all row reqs = (final, accepted) \<Longrightarrow>
     spentTodayUnits final = spentTodayUnits row + total_on day accepted \<and> dayKey final = day"
proof (induction reqs arbitrary: row accepted)
  case Nil
  then show ?case by simp
next
  case (Cons r rest)
  obtain amount where r: "r = (day, amount)" using Cons.prems(1) by (cases r) simp
  have same: "\<forall>r \<in> set rest. fst r = day" using Cons.prems(1) by simp
  show ?case
  proof (cases "reserveMandate row day amount")
    case (Inl e)
    with Cons.prems r have "reserve_all row rest = (final, accepted)" by simp
    with same Cons.prems(2) show ?thesis by (rule Cons.IH)
  next
    case (Inr row')
    obtain accepted' where run: "reserve_all row' rest = (final, accepted')"
      and accepted: "accepted = (day, amount) # accepted'"
      using Inr Cons.prems(3) [unfolded r] by (rule reserve_all_Cons_Inr)
    have "spentTodayUnits final = spentTodayUnits row' + total_on day accepted' \<and> dayKey final = day"
      using same reserveMandate_Inr(3) [OF Inr] run by (rule Cons.IH)
    with accepted reserveMandate_Inr(4) [OF Inr] Cons.prems(2) show ?thesis by simp
  qed
qed

section \<open>Model listings\<close>

record listing_state =
  ls_approved :: bool
  ls_revoked :: bool

definition modelServingAllowed :: "listing_state option \<Rightarrow> bool" where
  "modelServingAllowed row = (case row of None \<Rightarrow> False | Some r \<Rightarrow> ls_approved r \<and> \<not> ls_revoked r)"

definition listingBpsValid :: "js_number \<Rightarrow> bool" where
  "listingBpsValid bps = (case bps of JInt b \<Rightarrow> 0 \<le> b \<and> b \<le> 10000 | JOther _ \<Rightarrow> False)"

section \<open>Agent policies\<close>

record agent_policy =
  ap_dailyLimitUnits :: int
  ap_allowedModels :: "string list"

fun join :: "string \<Rightarrow> string list \<Rightarrow> string" where
  "join sep [] = ''''"
| "join sep [x] = x"
| "join sep (x # xs) = x @ sep @ join sep xs"

definition hashAgentPolicy :: "hash_fun \<Rightarrow> agent_policy \<Rightarrow> string" where
  "hashAgentPolicy sha policy =
     (let models = join '','' (sort (map lower (ap_allowedModels policy)))
      in sha256HexText sha (''agent-policy:v1:'' @ int_dec (ap_dailyLimitUnits policy) @ '':'' @ models))"

definition agentAllowsModel :: "agent_policy \<Rightarrow> string \<Rightarrow> bool" where
  "agentAllowsModel policy modelHash =
     (if ap_allowedModels policy = [] then True
      else list_ex (\<lambda>item. lower item = lower modelHash) (ap_allowedModels policy))"

definition assertAgentModel :: "agent_policy \<Rightarrow> string \<Rightarrow> enclave_error + unit" where
  "assertAgentModel policy modelHash =
     require (agentAllowsModel policy modelHash)
       (ModelNotApprovedError ''Agent mandate does not allow this model'')"

lemma hashAgentPolicy_mset:
  assumes "mset (map lower (ap_allowedModels p)) = mset (map lower (ap_allowedModels q))"
    and "ap_dailyLimitUnits p = ap_dailyLimitUnits q"
  shows "hashAgentPolicy sha p = hashAgentPolicy sha q"
proof -
  have "sort (map lower (ap_allowedModels p)) = sort (map lower (ap_allowedModels q))"
    using assms(1) by (metis mset_sort sorted_sort properties_for_sort)
  with assms(2) show ?thesis by (simp add: hashAgentPolicy_def)
qed

section \<open>The x402 version 1 challenge\<close>

record payment_required_opts =
  pr_network :: string
  pr_amountUnits :: int
  pr_payTo :: string
  pr_asset :: string
  pr_paymentId :: string

definition paymentRequiredBody :: "payment_required_opts \<Rightarrow> enclave_error + x402_requirement" where
  "paymentRequiredBody opts =
     (if pr_amountUnits opts < 0 then Inl (PlainError ''Payment amount must be non-negative'')
      else Inr \<lparr>xr_x402Version = 1, xr_accepts =
        [\<lparr>xa_scheme = ''exact'', xa_network = pr_network opts,
          xa_maxAmountRequired = int_dec (pr_amountUnits opts), xa_payTo = pr_payTo opts,
          xa_asset = pr_asset opts, xa_receiptPending = True, xa_paymentId = pr_paymentId opts\<rparr>]\<rparr>)"

section \<open>Relay gas limits\<close>

record prepared_tx =
  px_gas :: "int option"
  px_gasPrice :: "int option"
  px_maxFeePerGas :: "int option"
  px_maxPriorityFeePerGas :: "int option"
  px_value :: "int option"

definition arc_chain_id :: int where "arc_chain_id = 5042"
definition arc_min_fee_per_gas :: int where "arc_min_fee_per_gas = 20000000000"
definition arc_max_fee_per_gas :: int where "arc_max_fee_per_gas = 100000000000"
definition arc_max_gas :: int where "arc_max_gas = 1000000"
definition arc_max_transaction_cost :: int where "arc_max_transaction_cost = 100000000000000000"

text \<open>\<open>a ?? b\<close>.\<close>

definition nullish :: "'a option \<Rightarrow> 'a option \<Rightarrow> 'a option" where
  "nullish a b = (case a of Some x \<Rightarrow> Some x | None \<Rightarrow> b)"

definition relay_limits_ok :: "prepared_tx \<Rightarrow> bool" where
  "relay_limits_ok prepared =
     (case (px_gas prepared, nullish (px_maxFeePerGas prepared) (px_gasPrice prepared)) of
        (Some gas, Some fee) \<Rightarrow>
          (let priority = (case px_maxPriorityFeePerGas prepared of Some p \<Rightarrow> p | None \<Rightarrow> 0) in
            \<not> (gas \<le> 0 \<or> gas > arc_max_gas
               \<or> fee < arc_min_fee_per_gas \<or> fee > arc_max_fee_per_gas
               \<or> priority < 0 \<or> priority > fee \<or> gas * fee > arc_max_transaction_cost
               \<or> (case px_value prepared of Some v \<Rightarrow> v | None \<Rightarrow> 0) \<noteq> 0))
      | _ \<Rightarrow> False)"

definition enforceArcRelayGas :: "int \<Rightarrow> prepared_tx \<Rightarrow> enclave_error + unit" where
  "enforceArcRelayGas chainId prepared =
     (if chainId \<noteq> arc_chain_id then Inr ()
      else require (relay_limits_ok prepared) 
        (PlainError ''ARC_RELAY_GAS_LIMIT: transaction exceeds the reviewed relay policy; no new transaction was signed''))"

lemmas gas_defs = enforceArcRelayGas_def relay_limits_ok_def arc_chain_id_def arc_min_fee_per_gas_def
  arc_max_fee_per_gas_def arc_max_gas_def arc_max_transaction_cost_def nullish_def Let_def

lemma enforceArcRelayGas_Inr:
  assumes "enforceArcRelayGas arc_chain_id prepared = Inr u"
  obtains gas fee where "px_gas prepared = Some gas"
    and "nullish (px_maxFeePerGas prepared) (px_gasPrice prepared) = Some fee"
    and "0 < gas" and "gas \<le> 1000000" and "20000000000 \<le> fee" and "fee \<le> 100000000000"
    and "gas * fee \<le> 100000000000000000"
    and "px_value prepared = None \<or> px_value prepared = Some 0"
  using assms that
  by (auto simp: gas_defs require_Inr_iff split: option.splits prod.splits if_splits)

section \<open>What the money functions guarantee\<close>

text \<open>
  Splitting a fee neither creates nor destroys money: the four shares are non-negative
  and add up to the amount, and rounding leaves the ecosystem share at most three units above the
  provider share.
\<close>

theorem splitFee_conserves:
  assumes "splitFee amount = Inr f"
  shows "treasury f + stakers f + providers f + ecosystem f = amount
     \<and> 0 \<le> treasury f \<and> 0 \<le> stakers f \<and> 0 \<le> providers f
     \<and> providers f \<le> ecosystem f \<and> ecosystem f \<le> providers f + 3"
  using splitFee_Inr [OF assms] ecosystem_bounds [of amount] by (simp add: pos_imp_zdiv_nonneg_iff)

theorem splitFee_conserves_witness:
  "\<exists>f. splitFee 199 = Inr f \<and> treasury f + stakers f + providers f + ecosystem f = 199 \<and> ecosystem f \<le> providers f + 3"
proof -
  obtain f where f: "splitFee 199 = Inr f" by (simp add: fee_defs)
  show ?thesis using splitFee_conserves [OF f] f by auto
qed

text \<open>
  A mandate is never overspent: after any sequence of reservations on one day, accepted
  or refused, the amount recorded as spent is exactly what the accepted ones add up to (on top of
  what the day had already spent) and is at most the daily limit, which no reservation changes.
\<close>

theorem mandate_never_overspent:
  assumes "mandate_ok row" and "dayKey row = day" and "\<forall>r \<in> set reqs. fst r = day"
    and "reserve_all row reqs = (final, accepted)"
  shows "spentTodayUnits final = spentTodayUnits row + total_on day accepted
     \<and> 0 \<le> spentTodayUnits final \<and> spentTodayUnits final \<le> dailyLimitUnits row
     \<and> dailyLimitUnits final = dailyLimitUnits row"
  using reserve_all_same_day [OF assms(3,2,4)] reserve_all_ok [OF assms(1,4)]
  by (auto simp: mandate_ok_def)

theorem mandate_never_overspent_witness:
  "let row = \<lparr>dailyLimitUnits = 10, spentTodayUnits = 3, dayKey = ''d''\<rparr>;
       (final, accepted) = reserve_all row [(''d'', 4), (''d'', 5), (''d'', 3)]
   in spentTodayUnits final = 3 + total_on ''d'' accepted \<and> spentTodayUnits final \<le> 10"
proof -
  let ?row = "\<lparr>dailyLimitUnits = 10, spentTodayUnits = 3, dayKey = ''d''\<rparr>"
  let ?reqs = "[(''d'', 4), (''d'', 5), (''d'', 3 :: int)]"
  obtain final accepted where run: "reserve_all ?row ?reqs = (final, accepted)" by fastforce
  have "mandate_ok ?row" by (simp add: mandate_ok_def)
  from mandate_never_overspent [OF this _ _ run, of "''d''"] run show ?thesis by (simp add: Let_def)
qed

text \<open>
  A relay transaction on Arc mainnet that passes the gas policy transfers no native value
  and cannot cost more than 0.10 native USDC (10^17 wei) in gas; on any other chain the policy
  never refuses.
\<close>

theorem relay_gas_bounded:
  assumes "enforceArcRelayGas chainId prepared = Inr ()"
  shows "chainId \<noteq> 5042 \<or> (\<exists>gas fee. px_gas prepared = Some gas
     \<and> nullish (px_maxFeePerGas prepared) (px_gasPrice prepared) = Some fee
     \<and> 0 < gas * fee \<and> gas * fee \<le> 10 ^ 17
     \<and> (px_value prepared = None \<or> px_value prepared = Some 0))"
proof (cases "chainId = arc_chain_id")
  case True
  with assms have "enforceArcRelayGas arc_chain_id prepared = Inr ()" by simp
  then show ?thesis
    by (rule enforceArcRelayGas_Inr) (auto intro!: mult_pos_pos)
qed (simp add: arc_chain_id_def)

theorem relay_gas_bounded_witness:
  "\<exists>gas fee. nullish (Some 30000000000) None = Some (fee :: int) \<and> Some 21000 = Some (gas :: int)
     \<and> 0 < gas * fee \<and> gas * fee \<le> 10 ^ 17"
proof -
  let ?tx = "\<lparr>px_gas = Some 21000, px_gasPrice = None, px_maxFeePerGas = Some 30000000000,
     px_maxPriorityFeePerGas = Some 1, px_value = None\<rparr>"
  have "enforceArcRelayGas 5042 ?tx = Inr ()" by (simp add: gas_defs)
  from relay_gas_bounded [OF this] show ?thesis by (auto simp: nullish_def)
qed

end
