(* ===== verification/Core_Json.thy ===== *)
theory Core_Json
  imports Core_Money
begin

text \<open>
  JSON values and the functions of the core package that walk them: \<open>canonicalEvidenceJson\<close> of
  \<open>core/src/provider-proof.ts\<close> and the leak checks of \<open>core/src/secrets.ts\<close>.

  A value has finitely many fields in insertion order, so cycles cannot be written down; \<open>JBad\<close>
  stands for any value the canonical encoder refuses outright (\<open>undefined\<close>, a function, a symbol,
  a \<open>bigint\<close>, a number that is not finite, a cyclic reference, an accessor or hidden property, a
  sparse array, an object with another prototype). Numbers are the integers; the evidence this
  code encodes has no fractions.
\<close>

datatype json =
    JNull
  | JBool bool
  | JNum int
  | JStr string
  | JArr "json list"
  | JObj "(string \<times> json) list"
  | JBad

section \<open>Strings of JSON\<close>

text \<open>\<open>JSON.stringify\<close> of a string: quotes, backslashes and control characters are escaped.\<close>

definition escape_char :: "char \<Rightarrow> string" where
  "escape_char c =
     (if c = CHR 0x22 then [CHR 0x5C, CHR 0x22]
      else if c = CHR 0x5C then [CHR 0x5C, CHR 0x5C]
      else if code_of c = 8 then [CHR 0x5C, CHR ''b'']
      else if code_of c = 9 then [CHR 0x5C, CHR ''t'']
      else if code_of c = 10 then [CHR 0x5C, CHR ''n'']
      else if code_of c = 12 then [CHR 0x5C, CHR ''f'']
      else if code_of c = 13 then [CHR 0x5C, CHR ''r'']
      else if code_of c < 32 then
        [CHR 0x5C, CHR ''u'', CHR ''0'', CHR ''0'', hex_char (code_of c div 16), hex_char (code_of c mod 16)]
      else [c])"

definition json_quote :: "string \<Rightarrow> string" where
  "json_quote s = CHR 0x22 # concat (map escape_char s) @ [CHR 0x22]"

section \<open>The canonical encoding\<close>

definition bad_evidence :: enclave_error where
  "bad_evidence = PlainError ''Evidence must contain finite, acyclic JSON values only''"

fun collect :: "('e + 'a) list \<Rightarrow> 'e + 'a list" where
  "collect [] = Inr []"
| "collect (m # ms) = rbind m (\<lambda>x. rmap (\<lambda>xs. x # xs) (collect ms))"

definition encode_array :: "string list \<Rightarrow> string" where
  "encode_array ss = CHR ''['' # join '','' ss @ '']''"

definition encode_object :: "(string \<times> string) list \<Rightarrow> string" where
  "encode_object fs =
     CHR 0x7B # join '','' (map (\<lambda>(k, s). json_quote k @ '':'' @ s) fs) @ [CHR 0x7D]"

text \<open>
  The text of a value without \<open>JBad\<close>, fields in the order of the value, and the order the
  encoder imposes. \<open>visit\<close> composes them with the depth bound and the refusals.
\<close>

primrec stringify :: "json \<Rightarrow> string" where
  "stringify JNull = ''null''"
| "stringify (JBool b) = (if b then ''true'' else ''false'')"
| "stringify (JNum i) = int_dec i"
| "stringify (JStr s) = json_quote s"
| "stringify (JArr xs) = encode_array (map stringify xs)"
| "stringify (JObj fs) = encode_object (map (map_prod id stringify) fs)"
| "stringify JBad = ''''"


fun canon :: "json \<Rightarrow> json" where
  "canon (JArr xs) = JArr (map canon xs)"
| "canon (JObj fs) = JObj (sort_key fst (map (\<lambda>(k, v). (k, canon v)) fs))"
| "canon v = v"

fun visit :: "json \<Rightarrow> nat \<Rightarrow> enclave_error + string" where
  "visit item depth =
     (if depth > 128 then Inl bad_evidence
      else (case item of
          JBad \<Rightarrow> Inl bad_evidence
        | JArr xs \<Rightarrow> rmap encode_array (collect (map (\<lambda>x. visit x (depth + 1)) xs))
        | JObj fs \<Rightarrow>
            rmap encode_object
              (collect (map (\<lambda>(k, v). rmap (\<lambda>s. (k, s)) (visit v (depth + 1))) (sort_key fst fs)))
        | _ \<Rightarrow> Inr (stringify item)))"

declare visit.simps [simp del]

definition canonicalEvidenceJson :: "json \<Rightarrow> enclave_error + string" where
  "canonicalEvidenceJson value = visit value 0"


section \<open>The encoder prints the canonical form\<close>

primrec plain :: "json \<Rightarrow> bool" where
  "plain JNull = True"
| "plain (JBool b) = True"
| "plain (JNum i) = True"
| "plain (JStr s) = True"
| "plain (JArr xs) = list_all id (map plain xs)"
| "plain (JObj fs) = list_all (\<lambda>p. snd p) (map (map_prod id plain) fs)"
| "plain JBad = False"

lemma collect_Inr: "collect ms = Inr ys \<longleftrightarrow> list_all2 (\<lambda>m y. m = Inr y) ms ys"
proof (induction ms arbitrary: ys)
  case Nil
  then show ?case by auto
next
  case (Cons m ms)
  then show ?case
    by (auto simp: rbind_Inr_iff rmap_Inr_iff list_all2_Cons1)
qed

lemma collect_map_Inr:
  assumes "collect (map f xs) = Inr ys" and "\<And>x y. x \<in> set xs \<Longrightarrow> f x = Inr y \<Longrightarrow> y = g x"
  shows "ys = map g xs"
  using assms by (induction xs arbitrary: ys) (auto simp: rbind_Inr_iff rmap_Inr_iff)

lemma collect_map_ok:
  "collect (map f xs) = Inr ys \<Longrightarrow> x \<in> set xs \<Longrightarrow> \<exists>y. f x = Inr y"
  by (induction xs arbitrary: ys) (auto simp: rbind_Inr_iff rmap_Inr_iff)

lemma insort_key_map:
  "(\<And>x. key' (f x) = key x) \<Longrightarrow> insort_key key' (f x) (map f xs) = map f (insort_key key x xs)"
  by (induction xs) auto

lemma sort_key_map: "(\<And>x. key' (f x) = key x) \<Longrightarrow> sort_key key' (map f xs) = map f (sort_key key xs)"
  by (induction xs) (auto simp: insort_key_map)

lemma canon_fields:
  "sort_key fst (map (\<lambda>(k, v). (k, canon v)) fs) = map (\<lambda>(k, v). (k, canon v)) (sort_key fst fs)"
  by (rule sort_key_map) auto

lemma visit_deep: "depth > 128 \<Longrightarrow> visit v depth = Inl bad_evidence"
  by (simp add: visit.simps)

lemma visit_JArr:
  "depth \<le> 128 \<Longrightarrow> visit (JArr xs) depth = rmap encode_array (collect (map (\<lambda>x. visit x (depth + 1)) xs))"
  by (subst visit.simps) simp

lemma visit_JObj:
  "depth \<le> 128 \<Longrightarrow> visit (JObj fs) depth =
     rmap encode_object (collect (map (\<lambda>(k, v). rmap (\<lambda>s. (k, s)) (visit v (depth + 1))) (sort_key fst fs)))"
  by (subst visit.simps) simp

lemma visit_Inr: "visit v depth = Inr s \<Longrightarrow> s = stringify (canon v) \<and> plain (canon v)"
proof (induction v depth arbitrary: s rule: visit.induct)
  case (1 item depth)
  show ?case
  proof (cases item)
    case (JArr xs)
    with 1(3) obtain ss where ss: "collect (map (\<lambda>x. visit x (depth + 1)) xs) = Inr ss"
      and s: "s = encode_array ss" and d: "\<not> depth > 128"
      by (subst (asm) visit.simps) (auto simp: rmap_Inr_iff split: if_splits)
    have each: "y = stringify (canon x) \<and> plain (canon x)"
      if "x \<in> set xs" "visit x (depth + 1) = Inr y" for x y
      using 1(1) [OF d JArr that] by simp
    have "ss = map (\<lambda>x. stringify (canon x)) xs"
      using ss by (rule collect_map_Inr) (use each in blast)
    moreover have "plain (canon x)" if "x \<in> set xs" for x
      using collect_map_ok [OF ss that] each [OF that] by auto
    ultimately show ?thesis
      using JArr s by (simp add: comp_def list_all_iff)
  next
    case (JObj fs)
    let ?enc = "\<lambda>(k, v). rmap (\<lambda>s. (k, s)) (visit v (depth + 1))"
    from JObj 1(3) obtain es where es: "collect (map ?enc (sort_key fst fs)) = Inr es"
      and s: "s = encode_object es" and d: "\<not> depth > 128"
      by (subst (asm) visit.simps) (auto simp: rmap_Inr_iff split: if_splits)
    have each: "y = stringify (canon v) \<and> plain (canon v)"
      if "(k, v) \<in> set (sort_key fst fs)" "visit v (depth + 1) = Inr y" for k v y
      using 1(2) [OF d JObj that(1) refl] that by simp
    from es have "es = map (\<lambda>(k, v). (k, stringify (canon v))) (sort_key fst fs)"
      by (rule collect_map_Inr) (auto simp: rmap_Inr_iff dest: each [simplified])
    moreover have "plain (canon v)" if "(k, v) \<in> set (sort_key fst fs)" for k v
      using collect_map_ok [OF es that] each [OF that] by (auto simp: rmap_Inr_iff)
    ultimately show ?thesis
      using JObj s by (auto simp: canon_fields list_all_iff map_prod_def intro!: arg_cong [of _ _ encode_object])
  qed (use 1(3) in \<open>subst (asm) visit.simps, auto split: if_splits\<close>)+
qed

lemma visit_canon: "visit (canon v) depth = visit v depth"
proof (induction v depth rule: visit.induct)
  case (1 item depth)
  show ?case
  proof (cases "depth > 128")
    case True
    then show ?thesis by (simp add: visit.simps)
  next
    case d: False
    show ?thesis
    proof (cases item)
      case (JArr xs)
      have "map (\<lambda>x. visit x (depth + 1)) (map canon xs) = map (\<lambda>x. visit x (depth + 1)) xs"
        using 1(1) [OF d JArr] by simp
      with d JArr show ?thesis by (simp add: visit_JArr del: map_map)
    next
      case (JObj fs)
      let ?enc = "\<lambda>(k, v). rmap (\<lambda>s. (k, s)) (visit v (depth + 1))"
      have "map ?enc (map (\<lambda>(k, v). (k, canon v)) (sort_key fst fs)) = map ?enc (sort_key fst fs)"
        using 1(2) [OF d JObj] by auto
      moreover have "sort_key fst (map (\<lambda>(k, v). (k, canon v)) (sort_key fst fs))
          = map (\<lambda>(k, v). (k, canon v)) (sort_key fst fs)"
        by (subst canon_fields) (simp add: sort_key_id_if_sorted)
      ultimately show ?thesis using JObj d
        by (simp add: visit_JObj canon_fields del: map_map)
    qed (simp_all add: visit.simps)
  qed
qed

section \<open>Unique readability\<close>

text \<open>What follows a value inside a document: nothing, a comma or a closing bracket.\<close>

definition delimited :: "string \<Rightarrow> bool" where
  "delimited r \<longleftrightarrow> r = [] \<or> hd r \<in> {CHR '','', CHR '']'', CHR 0x7D}"


lemma escape_char_hd: "escape_char c @ x \<noteq> CHR 0x22 # y"
  by (auto simp: escape_char_def)

text \<open>Reading one escaped character back.\<close>

definition unescape_short :: "char \<Rightarrow> char" where
  "unescape_short b =
     (if b = CHR ''b'' then char_of (8 :: nat) else if b = CHR ''t'' then char_of (9 :: nat)
      else if b = CHR ''n'' then char_of (10 :: nat) else if b = CHR ''f'' then char_of (12 :: nat)
      else if b = CHR ''r'' then char_of (13 :: nat) else b)"

definition unescape :: "string \<Rightarrow> char \<times> string" where
  "unescape s =
     (if hd s \<noteq> CHR 0x5C then (hd s, tl s)
      else if s ! 1 = CHR ''u'' then (char_of (16 * hex_value (s ! 4) + hex_value (s ! 5)), drop 6 s)
      else (unescape_short (s ! 1), drop 2 s))"

lemma char_of_code: "code_of c = n \<Longrightarrow> char_of n = c"
  by auto

lemma unescape_escape: "unescape (escape_char c @ x) = (c, x)"
proof -
  consider (quote) "c = CHR 0x22" | (slash) "c = CHR 0x5C"
    | (short) "code_of c \<in> {8, 9, 10, 12, 13 :: nat}" "c \<noteq> CHR 0x22" "c \<noteq> CHR 0x5C"
    | (control) "code_of c < (32 :: nat)" "code_of c \<notin> {8, 9, 10, 12, 13 :: nat}"
        "c \<noteq> CHR 0x22" "c \<noteq> CHR 0x5C"
    | (other) "\<not> code_of c < (32 :: nat)" "c \<noteq> CHR 0x22" "c \<noteq> CHR 0x5C"
    by blast
  then show ?thesis
  proof cases
    case short
    then show ?thesis
      by (elim insertE) (simp_all add: escape_char_def unescape_def unescape_short_def char_of_code)
  next
    case control
    have "code_of c div 16 < (16 :: nat)" "code_of c mod 16 < (16 :: nat)" using control(1) by auto
    then have "char_of (16 * hex_value (hex_char (code_of c div 16)) + hex_value (hex_char (code_of c mod 16))) = c"
      by (simp add: hex_value_hex_char)
    with control show ?thesis by (simp add: escape_char_def unescape_def)
  qed (simp_all add: escape_char_def unescape_def unescape_short_def)
qed

lemma escape_char_eq: "escape_char c @ x = escape_char d @ y \<Longrightarrow> c = d \<and> x = y"
  by (metis unescape_escape prod.inject)

lemma json_quote_eq:
  assumes "json_quote s @ r = json_quote t @ r'"
  shows "s = t \<and> r = r'"
proof -
  have "concat (map escape_char s) @ CHR 0x22 # r = concat (map escape_char t) @ CHR 0x22 # r'
      \<Longrightarrow> s = t \<and> r = r'" for r r'
  proof (induction s arbitrary: t)
    case Nil
    then show ?case by (cases t) (auto dest: sym simp: escape_char_hd)
  next
    case (Cons c s)
    then show ?case
    proof (cases t)
      case Nil
      with Cons.prems show ?thesis by (simp add: escape_char_hd)
    next
      case (Cons d t')
      with Cons.prems have "escape_char c @ (concat (map escape_char s) @ CHR 0x22 # r)
          = escape_char d @ (concat (map escape_char t') @ CHR 0x22 # r')" by simp
      from escape_char_eq [OF this] have "c = d"
        and "concat (map escape_char s) @ CHR 0x22 # r = concat (map escape_char t') @ CHR 0x22 # r'"
        by simp_all
      with Cons.IH [of t'] Cons show ?thesis by simp
    qed
  qed
  with assms show ?thesis by (simp add: json_quote_def)
qed


lemma delimited_simps [simp]:
  "delimited []" "delimited (CHR '','' # r)" "delimited (CHR '']'' # r)" "delimited (CHR 0x7D # r)"
  by (simp_all add: delimited_def)

lemma digits_delimited:
  "list_all is_digit a \<Longrightarrow> list_all is_digit b \<Longrightarrow> delimited r \<Longrightarrow> delimited r' \<Longrightarrow> a @ r = b @ r' \<Longrightarrow>
     a = b \<and> r = r'"
proof (induction a arbitrary: b)
  case Nil
  then show ?case by (cases b) (auto simp: delimited_def is_digit_def)
next
  case (Cons c a)
  then show ?case by (cases b) (auto simp: delimited_def is_digit_def)
qed

lemma nat_dec_hd: "is_digit (hd (nat_dec n))"
  using nat_dec_digits [of n] nat_dec_nonempty [of n] by (cases "nat_dec n") auto

lemma int_dec_hd: "int_dec i \<noteq> []" "is_digit (hd (int_dec i)) \<or> hd (int_dec i) = CHR ''-''"
  by (auto simp: int_dec_def nat_dec_nonempty nat_dec_hd)

lemma int_dec_eq:
  assumes "int_dec i @ r = int_dec j @ r'" and "delimited r" and "delimited r'"
  shows "i = j \<and> r = r'"
proof -
  have minus: "\<not> is_digit CHR ''-''" by (simp add: is_digit_def)
  have first: "nat_dec n @ q \<noteq> CHR ''-'' # q'" for n q q'
    using nat_dec_hd [of n] nat_dec_nonempty [of n] minus by (cases "nat_dec n") auto
  have core: "m = n \<and> r = r'" if "nat_dec m @ r = nat_dec n @ r'" for m n
    using digits_delimited [OF nat_dec_digits nat_dec_digits assms(2,3) that] by (simp add: nat_dec_inj)
  show ?thesis
    using assms(1) first first [THEN not_sym] unfolding int_dec_def
    by (auto split: if_splits dest!: core)
qed

text \<open>What \<open>U\<close> says of an encoder of elements lifts to comma-separated lists of elements.\<close>

definition readable :: "('a \<Rightarrow> string) \<Rightarrow> 'a \<Rightarrow> 'a \<Rightarrow> bool" where
  "readable enc x y \<longleftrightarrow> (\<forall>r r'. delimited r \<longrightarrow> delimited r' \<longrightarrow> enc x @ r = enc y @ r' \<longrightarrow> x = y \<and> r = r')"

lemma readableD:
  "readable enc x y \<Longrightarrow> enc x @ r = enc y @ r' \<Longrightarrow> delimited r \<Longrightarrow> delimited r' \<Longrightarrow> x = y \<and> r = r'"
  by (simp add: readable_def)

lemma join_Cons: "join sep (x # xs) = x @ concat (map (\<lambda>s. sep @ s) xs)"
  by (induction xs arbitrary: x) auto

lemma tail_readable:
  assumes "close \<in> {CHR '']'', CHR 0x7D}"
  shows "(\<forall>x \<in> set xs. \<forall>y \<in> set ys. readable enc x y) \<Longrightarrow>
     concat (map (\<lambda>x. CHR '','' # enc x) xs) @ close # r
       = concat (map (\<lambda>x. CHR '','' # enc x) ys) @ close # r' \<Longrightarrow> xs = ys \<and> r = r'"
proof (induction xs arbitrary: ys)
  case Nil
  with assms show ?case by (cases ys) auto
next
  case (Cons x xs)
  have dl: "delimited (concat (map (\<lambda>x. CHR '','' # enc x) zs) @ close # q)" for zs q
    using assms by (cases zs) auto
  from Cons.prems(2) assms obtain y ys' where ys: "ys = y # ys'"
    by (cases ys) auto
  from Cons.prems ys have "x = y \<and> concat (map (\<lambda>x. CHR '','' # enc x) xs) @ close # r
       = concat (map (\<lambda>x. CHR '','' # enc x) ys') @ close # r'"
    by (intro readableD [of enc]) (auto intro: dl)
  with Cons.IH [of ys'] Cons.prems(1) ys show ?case by simp
qed

lemma list_readable:
  assumes "close \<in> {CHR '']'', CHR 0x7D}"
    and "\<And>x y. x \<in> set xs \<Longrightarrow> y \<in> set ys \<Longrightarrow> readable enc x y"
    and "\<And>x q. x \<in> set xs \<union> set ys \<Longrightarrow> enc x @ q \<noteq> close # r \<and> enc x @ q \<noteq> close # r'"
    and "join '','' (map enc xs) @ close # r = join '','' (map enc ys) @ close # r'"
  shows "xs = ys \<and> r = r'"
proof (cases xs)
  case Nil
  with assms(3,4) show ?thesis by (cases ys) (auto simp: join_Cons dest: sym)
next
  case x: (Cons x xs')
  show ?thesis
  proof (cases ys)
    case Nil
    with x assms(3,4) show ?thesis by (auto simp: join_Cons)
  next
    case (Cons y ys')
    have "concat (map (\<lambda>x. CHR '','' # enc x) (x # xs')) @ close # r
       = concat (map (\<lambda>x. CHR '','' # enc x) (y # ys')) @ close # r'"
      using assms(4) x Cons by (simp add: join_Cons comp_def)
    moreover have "\<forall>x \<in> set xs. \<forall>y \<in> set ys. readable enc x y" using assms(2) by blast
    ultimately show ?thesis using tail_readable [OF assms(1)] x Cons by blast
  qed
qed


text \<open>The first character tells the kind of a value.\<close>

fun opens :: "json \<Rightarrow> char \<Rightarrow> bool" where
  "opens JNull c = (c = CHR ''n'')"
| "opens (JBool b) c = (c = (if b then CHR ''t'' else CHR ''f''))"
| "opens (JNum i) c = (is_digit c \<or> c = CHR ''-'')"
| "opens (JStr s) c = (c = CHR 0x22)"
| "opens (JArr xs) c = (c = CHR ''['')"
| "opens (JObj fs) c = (c = CHR 0x7B)"
| "opens JBad c = False"

lemma int_dec_opens: "int_dec i = c # q \<Longrightarrow> is_digit c \<or> c = CHR ''-''"
  using int_dec_hd(2) [of i] by simp

lemma stringify_opening: "plain v \<Longrightarrow> stringify v @ r = c # q \<Longrightarrow> opens v c"
  using int_dec_hd(1) by (cases v) (auto simp: json_quote_def encode_array_def encode_object_def
      Cons_eq_append_conv append_eq_Cons_conv dest: int_dec_opens split: if_splits)

lemma opening_not_close: "opens v c \<Longrightarrow> c \<notin> {CHR '']'', CHR 0x7D}"
  by (cases v) (auto simp: is_digit_def split: if_splits)

lemma stringify_not_Nil: "plain v \<Longrightarrow> stringify v \<noteq> []"
  by (cases v) (auto simp: json_quote_def encode_array_def encode_object_def int_dec_hd)

lemma same_opening:
  assumes "plain v" and "plain w" and "stringify v @ r = stringify w @ r'"
  obtains c where "opens v c" and "opens w c"
proof -
  from stringify_not_Nil [OF assms(1)] obtain c q where "stringify v @ r = c # q"
    by (cases "stringify v") auto
  with assms that show ?thesis by (metis stringify_opening)
qed

lemma field_readable:
  assumes "readable stringify v w"
  shows "readable (\<lambda>(k, s). json_quote k @ '':'' @ stringify s) (k, v) (l, w)"
proof -
  have "(k, v) = (l, w) \<and> r = r'"
    if "delimited r" "delimited r'"
      "json_quote k @ '':'' @ stringify v @ r = json_quote l @ '':'' @ stringify w @ r'" for r r'
  proof -
    from json_quote_eq [OF that(3)] have "k = l" "stringify v @ r = stringify w @ r'" by auto
    with readableD [OF assms(1) _ that(1,2)] show ?thesis by auto
  qed
  then show ?thesis by (simp add: readable_def)
qed

lemma readable_JNum: "readable stringify (JNum i) (JNum j)"
  by (auto simp: readable_def dest: int_dec_eq)

lemma readable_JArr:
  assumes "\<And>x y. x \<in> set xs \<Longrightarrow> y \<in> set ys \<Longrightarrow> readable stringify x y"
    and "\<And>x. x \<in> set xs \<union> set ys \<Longrightarrow> plain x"
  shows "readable stringify (JArr xs) (JArr ys)"
proof -
  have "xs = ys \<and> r = r'"
    if "join '','' (map stringify xs) @ CHR '']'' # r = join '','' (map stringify ys) @ CHR '']'' # r'" for r r'
  proof (rule list_readable [OF _ _ _ that])
    show "stringify x @ q \<noteq> CHR '']'' # r \<and> stringify x @ q \<noteq> CHR '']'' # r'"
      if "x \<in> set xs \<union> set ys" for x q
      using stringify_opening [OF assms(2) [OF that]] opening_not_close by blast
  qed (use assms(1) in auto)
  then show ?thesis by (simp add: readable_def encode_array_def)
qed

lemma readable_JObj:
  assumes "\<And>x y. x \<in> set fs \<Longrightarrow> y \<in> set gs \<Longrightarrow> readable stringify (snd x) (snd y)"
  shows "readable stringify (JObj fs) (JObj gs)"
proof -
  let ?enc = "\<lambda>(k, s). json_quote k @ '':'' @ stringify s"
  have "fs = gs \<and> r = r'"
    if "join '','' (map ?enc fs) @ CHR 0x7D # r = join '','' (map ?enc gs) @ CHR 0x7D # r'" for r r'
  proof (rule list_readable [OF _ _ _ that])
    show "readable ?enc x y" if "x \<in> set fs" "y \<in> set gs" for x y
      using field_readable [OF assms [OF that]] by (cases x, cases y) auto
  qed (auto simp: json_quote_def)
  then show ?thesis
    by (simp add: readable_def encode_object_def comp_def map_prod_def case_prod_unfold)
qed

text \<open>Values of two kinds never share a text.\<close>

fun kind :: "json \<Rightarrow> nat" where
  "kind JNull = 0" | "kind (JBool _) = 1" | "kind (JNum _) = 2" | "kind (JStr _) = 3"
| "kind (JArr _) = 4" | "kind (JObj _) = 5" | "kind JBad = 6"

lemma opens_kind: "opens v c \<Longrightarrow> opens w c \<Longrightarrow> kind v = kind w"
  by (cases v; cases w) (auto simp: is_digit_def split: if_splits)

lemma readable_kinds: "plain v \<Longrightarrow> plain w \<Longrightarrow> kind v \<noteq> kind w \<Longrightarrow> readable stringify v w"
  unfolding readable_def by (metis same_opening opens_kind)

lemma stringify_readable: "plain v \<Longrightarrow> plain w \<Longrightarrow> readable stringify v w"
proof (induction v arbitrary: w)
  case (JArr xs)
  show ?case
  proof (cases "kind w = 4")
    case True
    then obtain ys where w: "w = JArr ys" by (cases w) auto
    show ?thesis unfolding w
      using JArr w by (intro readable_JArr) (auto simp: list_all_iff)
  qed (use JArr in \<open>simp add: readable_kinds\<close>)
next
  case (JObj fs)
  show ?case
  proof (cases "kind w = 5")
    case True
    then obtain gs where w: "w = JObj gs" by (cases w) auto
    have "readable stringify (snd x) (snd y)" if "x \<in> set fs" "y \<in> set gs" for x y
      using JObj w that by (cases x, cases y) (fastforce simp: list_all_iff)
    then show ?thesis unfolding w by (rule readable_JObj)
  qed (use JObj in \<open>simp add: readable_kinds\<close>)
next
  case JNull
  then show ?case by (cases "kind w = 0"; cases w) (auto simp: readable_kinds, simp add: readable_def)
next
  case (JBool b)
  then show ?case
    by (cases "kind w = 1"; cases w) (auto simp: readable_kinds, auto simp: readable_def split: if_splits)
next
  case (JNum i)
  then show ?case by (cases "kind w = 2"; cases w) (auto simp: readable_kinds readable_JNum)
next
  case (JStr s)
  then show ?case
    by (cases "kind w = 3"; cases w) (auto simp: readable_kinds, auto simp: readable_def dest: json_quote_eq)
next
  case JBad
  then show ?case by simp
qed

lemma stringify_inj: "plain v \<Longrightarrow> plain w \<Longrightarrow> stringify v = stringify w \<longleftrightarrow> v = w"
  using readableD [OF stringify_readable, of v w "[]" "[]"] by auto

lemma canonicalEvidenceJson_canon:
  assumes "canonicalEvidenceJson v = Inr s"
  shows "s = stringify (canon v)" and "plain (canon v)"
  using visit_Inr assms by (auto simp: canonicalEvidenceJson_def)

section \<open>Secrets\<close>

definition banned_field_names :: "string list" where
  "banned_field_names = [''wrappingKey'', ''enclavePrivateKey'', ''vendorPrivateKey'', ''modelKey'',
     ''privateKey'', ''plaintext'', ''prompt'', ''memoryPlaintext'']"

fun bannedSecretFields :: "json \<Rightarrow> string list \<Rightarrow> string list" where
  "bannedSecretFields (JArr xs) acc = fold (\<lambda>x a. bannedSecretFields x a) xs acc"
| "bannedSecretFields (JObj fs) acc =
     fold (\<lambda>(key, nested) a. bannedSecretFields nested
        (if key \<in> set banned_field_names \<and> key \<notin> set a then a @ [key] else a)) fs acc"
| "bannedSecretFields _ acc = acc"

fun has_substring :: "string \<Rightarrow> string \<Rightarrow> bool" where
  "has_substring [] needle = (needle = [])"
| "has_substring (c # hay) needle = (starts_with (c # hay) needle \<or> has_substring hay needle)"

definition secretMaterialHits :: "json \<Rightarrow> string list \<Rightarrow> string list" where
  "secretMaterialHits payload material =
     (let hay = lower (stringify payload)
      in filter (\<lambda>item.
           let raw = lower item; hex = strip_0x raw
           in length hex \<ge> 16 \<and> (has_substring hay raw \<or> has_substring hay hex)) material)"

primrec field_names :: "json \<Rightarrow> string set" where
  "field_names JNull = {}"
| "field_names (JBool b) = {}"
| "field_names (JNum i) = {}"
| "field_names (JStr s) = {}"
| "field_names (JArr xs) = \<Union> (set (map field_names xs))"
| "field_names (JObj fs) = (\<Union>p \<in> set (map (map_prod id field_names) fs). insert (fst p) (snd p))"
| "field_names JBad = {}"

lemma fold_collects:
  assumes "\<And>x a. x \<in> set xs \<Longrightarrow> set (f x a) = set a \<union> g x"
  shows "set (fold f xs acc) = set acc \<union> (\<Union>x \<in> set xs. g x)"
  using assms by (induction xs arbitrary: acc) auto

lemma fold_distinct:
  assumes "\<And>x a. x \<in> set xs \<Longrightarrow> distinct a \<Longrightarrow> distinct (f x a)"
  shows "distinct acc \<Longrightarrow> distinct (fold f xs acc)"
  using assms by (induction xs arbitrary: acc) auto

lemma banned_set:
  "set (bannedSecretFields v acc) = set acc \<union> (field_names v \<inter> set banned_field_names)"
proof (induction v acc rule: bannedSecretFields.induct)
  case (1 xs acc)
  have "set (fold (\<lambda>x a. bannedSecretFields x a) xs acc)
      = set acc \<union> (\<Union>x \<in> set xs. field_names x \<inter> set banned_field_names)"
    by (rule fold_collects) (use 1 in auto)
  then show ?case by auto
next
  case (2 fs acc)
  let ?f = "\<lambda>(key, nested) a. bannedSecretFields nested
        (if key \<in> set banned_field_names \<and> key \<notin> set a then a @ [key] else a)"
  have "set (fold ?f fs acc)
      = set acc \<union> (\<Union>p \<in> set fs. insert (fst p) (field_names (snd p)) \<inter> set banned_field_names)"
  proof (rule fold_collects)
    fix p a assume p: "p \<in> set fs"
    obtain key nested where pe: "p = (key, nested)" by (cases p)
    from 2 [OF p pe [symmetric]] show "set (?f p a) = set a \<union> insert (fst p) (field_names (snd p)) \<inter> set banned_field_names"
      unfolding pe by auto
  qed
  then show ?case by auto
qed auto

section \<open>What the walks guarantee\<close>

text \<open>
  The canonical text identifies the evidence: once a value has a canonical text, another
  value has the same text exactly when the two differ at most in the order of object fields. So a
  hash of the text commits to the whole value and never depends on field order.
\<close>

theorem canonical_evidence_identity:
  assumes "canonicalEvidenceJson v = Inr s"
  shows "canonicalEvidenceJson w = Inr s \<longleftrightarrow> canon w = canon v"
proof
  assume "canonicalEvidenceJson w = Inr s"
  with assms show "canon w = canon v"
    using canonicalEvidenceJson_canon stringify_inj by metis
next
  assume "canon w = canon v"
  with assms show "canonicalEvidenceJson w = Inr s"
    unfolding canonicalEvidenceJson_def by (metis visit_canon)
qed

theorem canonical_evidence_identity_witness:
  "canonicalEvidenceJson (JObj [(''b'', JNum 1), (''a'', JNull)])
     = canonicalEvidenceJson (JObj [(''a'', JNull), (''b'', JNum 1)])"
proof -
  have "canonicalEvidenceJson (JObj [(''a'', JNull), (''b'', JNum 1)])
      = Inr (stringify (JObj [(''a'', JNull), (''b'', JNum 1)]))"
    by (simp add: canonicalEvidenceJson_def visit.simps)
  moreover have "canon (JObj [(''b'', JNum 1), (''a'', JNull)]) = canon (JObj [(''a'', JNull), (''b'', JNum 1)])"
    by simp
  ultimately show ?thesis using canonical_evidence_identity by metis
qed

text \<open>
  The leak check of a response finds precisely the banned field names that occur in it,
  at any depth of nested objects and arrays.
\<close>

theorem banned_fields_complete:
  "set (bannedSecretFields v []) = field_names v \<inter> set banned_field_names"
  by (simp add: banned_set)

end
