(* ===== verification/Core_Attestation.thy ===== *)
theory Core_Attestation
  imports Core_Json
begin

text \<open>
  Attestation quotes and the software TCB policy they commit to: \<open>core/src/attestation.ts\<close> and
  \<open>core/src/tcb.ts\<close>.

  Cryptography is a parameter: a record \<open>crypto\<close> of the functions the code calls. What the code
  relies on is stated by \<open>hash_width\<close> (SHA-256 gives 32 bytes), \<open>no_collision\<close> (two given inputs
  do not collide) and \<open>signatures_recover\<close> (recovering a genuine signature gives its signer).
  A stored policy text is the JSON value it encodes.
\<close>

section \<open>Cryptography\<close>

record crypto =
  cx_sha :: hash_fun
  cx_keccak :: hash_fun
  cx_address :: "string \<Rightarrow> string"
  cx_sign :: "string \<Rightarrow> string \<Rightarrow> string"
  cx_recover :: "string \<Rightarrow> string \<Rightarrow> string option"
  cx_encrypt :: "bytes \<Rightarrow> bytes \<Rightarrow> bytes"
  cx_decrypt :: "bytes \<Rightarrow> bytes \<Rightarrow> bytes option"

definition hash_width :: "crypto \<Rightarrow> bool" where
  "hash_width cx \<longleftrightarrow> (\<forall>d. length (cx_sha cx d) = 32)"

definition no_collision :: "crypto \<Rightarrow> string \<Rightarrow> string \<Rightarrow> bool" where
  "no_collision cx a b \<longleftrightarrow> (cx_sha cx (utf8 a) = cx_sha cx (utf8 b) \<longrightarrow> a = b)"

definition signatures_recover :: "crypto \<Rightarrow> bool" where
  "signatures_recover cx \<longleftrightarrow> (\<forall>k m. cx_recover cx m (cx_sign cx k m) = Some (cx_address cx k))"

lemma sha256HexText_no_collision:
  "no_collision cx a b \<Longrightarrow> same (sha256HexText (cx_sha cx) a) (sha256HexText (cx_sha cx) b) \<Longrightarrow> a = b"
  by (simp add: no_collision_def sha256HexText_def sha256Hex_def same_toHex)

section \<open>Policies\<close>

record tcb_policy =
  tp_version :: js_number
  tp_servingImageId :: string
  tp_requireCpuTee :: bool
  tp_requireGpuCc :: bool

definition measurement_text :: "tcb_policy \<Rightarrow> string" where
  "measurement_text policy =
     tp_servingImageId policy @ ''|'' @ num_text (tp_version policy) @ ''|cpu+gpu''"

definition measurementOf :: "crypto \<Rightarrow> tcb_policy \<Rightarrow> string" where
  "measurementOf cx policy = sha256HexText (cx_sha cx) (measurement_text policy)"

definition invalid_policy :: enclave_error where
  "invalid_policy = PlainError ''Invalid development TCB policy''"

definition valid_policy :: "tcb_policy \<Rightarrow> bool" where
  "valid_policy policy \<longleftrightarrow>
     is_safe_integer (tp_version policy) \<and> int_of (tp_version policy) \<ge> 1
     \<and> \<not> blank (tp_servingImageId policy) \<and> length (tp_servingImageId policy) \<le> 80
     \<and> \<not> list_ex is_control (tp_servingImageId policy)
     \<and> tp_requireCpuTee policy \<and> tp_requireGpuCc policy"

definition policy_json :: "tcb_policy \<Rightarrow> json" where
  "policy_json policy = JObj
     [(''version'', JNum (int_of (tp_version policy))),
      (''servingImageId'', JStr (tp_servingImageId policy)),
      (''requireCpuTee'', JBool True), (''requireGpuCc'', JBool True)]"

definition canonicalTcbPolicy :: "tcb_policy \<Rightarrow> enclave_error + string" where
  "canonicalTcbPolicy policy =
     (if valid_policy policy then Inr (stringify (policy_json policy)) else Inl invalid_policy)"

definition policy_keys :: "string list" where
  "policy_keys = [''version'', ''servingImageId'', ''requireCpuTee'', ''requireGpuCc'']"

definition policy_of_fields :: "(string \<times> json) list \<Rightarrow> tcb_policy option" where
  "policy_of_fields fs =
     (case (map_of fs ''version'', map_of fs ''servingImageId'',
            map_of fs ''requireCpuTee'', map_of fs ''requireGpuCc'') of
        (Some (JNum v), Some (JStr i), Some (JBool c), Some (JBool g)) \<Rightarrow>
          Some \<lparr>tp_version = JInt v, tp_servingImageId = i, tp_requireCpuTee = c, tp_requireGpuCc = g\<rparr>
      | _ \<Rightarrow> None)"

definition parseTcbPolicy :: "json \<Rightarrow> enclave_error + tcb_policy" where
  "parseTcbPolicy candidate =
     (case candidate of
        JObj fs \<Rightarrow>
          if list_ex (\<lambda>(k, _). k \<notin> set policy_keys) fs then Inl invalid_policy
          else rbind (of_option invalid_policy (policy_of_fields fs)) (\<lambda>policy.
            rmap (\<lambda>_. policy) (canonicalTcbPolicy policy))
      | _ \<Rightarrow> Inl invalid_policy)"

definition tcbPolicyHash :: "crypto \<Rightarrow> tcb_policy \<Rightarrow> enclave_error + string" where
  "tcbPolicyHash cx policy = rmap (sha256HexText (cx_sha cx)) (canonicalTcbPolicy policy)"

definition nextTcbVersion :: "js_number \<Rightarrow> enclave_error + int" where
  "nextTcbVersion current =
     (if \<not> is_safe_integer current \<or> int_of current < 1 \<or> int_of current \<ge> max_safe
      then Inl (PlainError ''current version'') else Inr (int_of current + 1))"

record tcb_record =
  tr_version :: js_number
  tr_servingImageId :: string
  tr_measurement :: string
  tr_policyHash :: string

definition tcbPolicyRecord :: "crypto \<Rightarrow> tcb_policy \<Rightarrow> enclave_error + tcb_record" where
  "tcbPolicyRecord cx policy =
     rmap (\<lambda>h. \<lparr>tr_version = tp_version policy, tr_servingImageId = tp_servingImageId policy,
                tr_measurement = measurementOf cx policy, tr_policyHash = h\<rparr>)
       (tcbPolicyHash cx policy)"

lemma safe_version_JInt: "is_safe_integer n \<Longrightarrow> n = JInt (int_of n)"
  by (cases n) (auto simp: is_safe_integer_def)

lemma policy_json_inj:
  assumes "valid_policy p" and "valid_policy q" and "policy_json p = policy_json q"
  shows "p = q"
proof -
  from assms have "tp_version p = tp_version q"
    using safe_version_JInt [of "tp_version p"] safe_version_JInt [of "tp_version q"]
    by (simp add: valid_policy_def policy_json_def)
  with assms show ?thesis by (simp add: valid_policy_def policy_json_def)
qed

lemma plain_policy_json: "plain (policy_json p)"
  by (simp add: policy_json_def)

lemma canonicalTcbPolicy_Inr:
  "canonicalTcbPolicy p = Inr t \<longleftrightarrow> valid_policy p \<and> t = stringify (policy_json p)"
  by (auto simp: canonicalTcbPolicy_def)

lemma canonicalTcbPolicy_inj:
  "canonicalTcbPolicy p = Inr t \<Longrightarrow> canonicalTcbPolicy q = Inr t \<Longrightarrow> p = q"
  by (metis canonicalTcbPolicy_Inr policy_json_inj stringify_inj plain_policy_json)

lemma parse_policy_json: "valid_policy p \<Longrightarrow> parseTcbPolicy (policy_json p) = Inr p"
  using safe_version_JInt [of "tp_version p"]
  by (auto simp: parseTcbPolicy_def policy_json_def policy_of_fields_def policy_keys_def
      canonicalTcbPolicy_def valid_policy_def)

lemma parseTcbPolicy_valid: "parseTcbPolicy j = Inr p \<Longrightarrow> valid_policy p"
  by (auto simp: parseTcbPolicy_def res_simps canonicalTcbPolicy_def split: json.splits if_splits)

lemma tcbPolicyRecord_Inr:
  "tcbPolicyRecord cx p = Inr r \<longleftrightarrow> valid_policy p \<and>
     r = \<lparr>tr_version = tp_version p, tr_servingImageId = tp_servingImageId p,
          tr_measurement = measurementOf cx p,
          tr_policyHash = sha256HexText (cx_sha cx) (stringify (policy_json p))\<rparr>"
  by (auto simp: tcbPolicyRecord_def tcbPolicyHash_def res_simps canonicalTcbPolicy_Inr)

text \<open>The text a measurement hashes determines image and version, whatever the image is called.\<close>

lemma digits_bar:
  "list_all is_digit a \<Longrightarrow> list_all is_digit b \<Longrightarrow> x @ ''|'' @ a = y @ ''|'' @ b \<Longrightarrow> x = y \<and> a = b"
proof (induction a arbitrary: b rule: rev_induct)
  case Nil
  then show ?case
    by (cases b rule: rev_cases) (auto simp: is_digit_def simp flip: append_assoc)
next
  case (snoc c a)
  then show ?case
    by (cases b rule: rev_cases) (auto simp: is_digit_def simp flip: append_assoc)
qed

lemma measurement_text_inj:
  assumes "measurement_text p = measurement_text q"
    and "tp_version p = JInt v" and "tp_version q = JInt w" and "0 \<le> v" and "0 \<le> w"
  shows "tp_servingImageId p = tp_servingImageId q \<and> v = w"
proof -
  have "tp_servingImageId p @ ''|'' @ nat_dec (nat v) = tp_servingImageId q @ ''|'' @ nat_dec (nat w)"
    using assms by (simp add: measurement_text_def int_dec_nonneg flip: append_assoc)
  from digits_bar [OF nat_dec_digits nat_dec_digits this] assms(4,5) show ?thesis
    by (simp add: nat_dec_inj nat_eq_iff)
qed

section \<open>Quotes\<close>

record attestation_quote =
  q_cpuQuote :: string
  q_gpuQuote :: string
  q_measurement :: string
  q_tcbVersion :: js_number
  q_timestamp :: js_number
  q_signature :: string

record vendor_roots =
  vr_address :: string
  vr_privateKey :: "string option"

definition vendor_message_prefix :: string where
  "vendor_message_prefix = ''enclave-attestation-v1:''"

definition quotePayload :: "attestation_quote \<Rightarrow> string" where
  "quotePayload q =
     join ''|'' [vendor_message_prefix, q_cpuQuote q, q_gpuQuote q, q_measurement q,
       num_text (q_tcbVersion q), num_text (q_timestamp q)]"

definition createVendorRoots :: "crypto \<Rightarrow> string \<Rightarrow> vendor_roots" where
  "createVendorRoots cx privateKey =
     \<lparr>vr_address = cx_address cx privateKey, vr_privateKey = Some privateKey\<rparr>"

definition issueQuote ::
  "crypto \<Rightarrow> vendor_roots \<Rightarrow> tcb_policy \<Rightarrow> js_number \<Rightarrow> enclave_error + attestation_quote" where
  "issueQuote cx roots policy now =
     (case vr_privateKey roots of
        None \<Rightarrow> Inl (AttestationFailedError ''Vendor root cannot issue quotes without a private key'')
      | Some key \<Rightarrow>
          (let unsigned = \<lparr>q_cpuQuote = ''tdx:'' @ tp_servingImageId policy,
                 q_gpuQuote = ''nvidia-cc:'' @ tp_servingImageId policy,
                 q_measurement = measurementOf cx policy, q_tcbVersion = tp_version policy,
                 q_timestamp = now, q_signature = []\<rparr>
           in Inr (unsigned\<lparr>q_signature := cx_sign cx key (quotePayload unsigned)\<rparr>)))"

definition quote_lifetime_ms :: int where
  "quote_lifetime_ms = 5 * 60000"

definition verifyQuote ::
  "crypto \<Rightarrow> attestation_quote \<Rightarrow> tcb_policy \<Rightarrow> string \<Rightarrow> js_number \<Rightarrow> enclave_error + unit" where
  "verifyQuote cx quote policy vendorAddress now =
     (if \<not> tp_requireCpuTee policy \<or> \<not> tp_requireGpuCc policy then
        Inl (AttestationFailedError ''TEE without CPU+GPU composite is rejected'')
      else if q_cpuQuote quote = [] \<or> q_gpuQuote quote = [] then
        Inl (AttestationFailedError ''Composite CPU+GPU quote required'')
      else if \<not> same (q_measurement quote) (measurementOf cx policy) then Inl TamperedImageError
      else if q_tcbVersion quote \<noteq> tp_version policy then
        Inl (AttestationFailedError ''TCB policy version mismatch'')
      else if \<not> is_safe_integer now \<or> int_of now < 0
           \<or> \<not> is_safe_integer (q_timestamp quote) \<or> int_of (q_timestamp quote) < 0 then
        Inl (AttestationFailedError ''Invalid quote timestamp or verifier clock'')
      else if \<bar>int_of now - int_of (q_timestamp quote)\<bar> > quote_lifetime_ms then
        Inl (AttestationFailedError ''Quote expired'')
      else case cx_recover cx (quotePayload quote) (q_signature quote) of
        None \<Rightarrow> Inl (AttestationFailedError ''Invalid quote signature'')
      | Some recovered \<Rightarrow>
          require (same recovered vendorAddress)
            (AttestationFailedError ''Quote signature does not match vendor root''))"

definition isGpuCcWithoutCpuTee :: "attestation_quote \<Rightarrow> bool" where
  "isGpuCcWithoutCpuTee quote \<longleftrightarrow> q_gpuQuote quote \<noteq> [] \<and> q_cpuQuote quote = []"

lemma quotePayload_signature [simp]: "quotePayload (q\<lparr>q_signature := s\<rparr>) = quotePayload q"
  by (simp add: quotePayload_def)

lemma verifyQuote_Inr:
  "verifyQuote cx quote policy vendor now = Inr u \<longleftrightarrow>
     tp_requireCpuTee policy \<and> tp_requireGpuCc policy \<and> q_cpuQuote quote \<noteq> [] \<and> q_gpuQuote quote \<noteq> []
     \<and> same (q_measurement quote) (measurementOf cx policy) \<and> q_tcbVersion quote = tp_version policy
     \<and> is_safe_integer now \<and> 0 \<le> int_of now
     \<and> is_safe_integer (q_timestamp quote) \<and> 0 \<le> int_of (q_timestamp quote)
     \<and> \<bar>int_of now - int_of (q_timestamp quote)\<bar> \<le> quote_lifetime_ms
     \<and> (\<exists>a. cx_recover cx (quotePayload quote) (q_signature quote) = Some a \<and> same a vendor)"
  by (auto simp: verifyQuote_def require_Inr_iff split: option.splits)

lemma same_measurement:
  assumes "same (q_measurement quote) (measurementOf cx p)"
    and "same (q_measurement quote) (measurementOf cx q)"
    and "no_collision cx (measurement_text p) (measurement_text q)"
  shows "measurement_text p = measurement_text q"
proof -
  have "same (measurementOf cx p) (measurementOf cx q)"
    using assms(1,2) same_sym same_trans by blast
  with assms(3) show ?thesis
    unfolding measurementOf_def by (rule sha256HexText_no_collision)
qed

section \<open>A concrete instance of the cryptography\<close>

text \<open>
  Used to show that the named assumptions can hold: a 32-byte digest that keeps short inputs
  apart, and signatures of the shape the gateway checks (65 bytes, low \<open>s\<close>, \<open>v = 27\<close>) that
  recover to the signer's address.
\<close>

definition pad_hex :: "nat \<Rightarrow> string \<Rightarrow> string" where
  "pad_hex n s = take n (s @ replicate n (CHR ''0''))"

definition demo_address :: "string \<Rightarrow> string" where
  "demo_address key = ''0x'' @ pad_hex 40 (strip_0x key)"

definition demo_crypto :: crypto where
  "demo_crypto = \<lparr>cx_sha = (\<lambda>d. take 32 (d @ replicate 32 0)),
     cx_keccak = (\<lambda>d. take 32 (d @ replicate 32 0)),
     cx_address = demo_address,
     cx_sign = (\<lambda>key m. demo_address key @ replicate 24 (CHR ''0'')
                        @ replicate 63 (CHR ''0'') @ ''1'' @ ''1b''),
     cx_recover = (\<lambda>m sig. Some (take 42 sig)),
     cx_encrypt = (\<lambda>key p. key @ p),
     cx_decrypt = (\<lambda>key c. if take (length key) c = key then Some (drop (length key) c) else None)\<rparr>"

lemma demo_hash_width: "hash_width demo_crypto"
  by (auto simp: hash_width_def demo_crypto_def min_def)

lemma length_demo_address: "length (demo_address key) = 42"
  by (simp add: demo_address_def pad_hex_def)

lemma demo_signatures: "signatures_recover demo_crypto"
  by (simp add: signatures_recover_def demo_crypto_def length_demo_address)

definition demo_policy :: tcb_policy where
  "demo_policy = \<lparr>tp_version = JInt 1, tp_servingImageId = ''img'', tp_requireCpuTee = True,
     tp_requireGpuCc = True\<rparr>"

lemma demo_policy_valid: "valid_policy demo_policy"
  by (simp add: valid_policy_def demo_policy_def is_safe_integer_def max_safe_def blank_def
      is_space_def is_control_def)

section \<open>What the checks of a quote give\<close>

text \<open>
  A quote the vendor issues for a valid policy verifies under that policy and the
  vendor's address exactly while the verifier's clock is within five minutes of its timestamp, in
  either direction.
\<close>

theorem issued_quote_verifies:
  assumes "signatures_recover cx" and "issueQuote cx (createVendorRoots cx key) policy (JInt t) = Inr quote"
    and "valid_policy policy" and "0 \<le> t" and "t \<le> max_safe" and "0 \<le> now" and "now \<le> max_safe"
  shows "verifyQuote cx quote policy (cx_address cx key) (JInt now) = Inr () \<longleftrightarrow> \<bar>now - t\<bar> \<le> 300000"
  using assms
  by (auto simp: issueQuote_def createVendorRoots_def verifyQuote_Inr signatures_recover_def
      valid_policy_def is_safe_integer_def quote_lifetime_ms_def quotePayload_def)

theorem issued_quote_verifies_witness:
  "\<exists>quote. issueQuote demo_crypto (createVendorRoots demo_crypto ''0xab'') demo_policy (JInt 1000) = Inr quote
     \<and> (verifyQuote demo_crypto quote demo_policy (cx_address demo_crypto ''0xab'') (JInt 2000) = Inr ()
        \<longleftrightarrow> \<bar>2000 - 1000\<bar> \<le> (300000 :: int))"
proof -
  obtain quote where q: "issueQuote demo_crypto (createVendorRoots demo_crypto ''0xab'') demo_policy (JInt 1000) = Inr quote"
    by (simp add: issueQuote_def createVendorRoots_def)
  show ?thesis
    using q issued_quote_verifies [OF demo_signatures q demo_policy_valid, of 2000]
    by (auto simp: max_safe_def)
qed

text \<open>
  An accepted quote pins the serving software: if the same quote is accepted under two
  valid policies, by any two verifiers at any two times, the policies are equal, provided SHA-256
  does not collide on the two measurement texts.
\<close>

theorem accepted_quote_pins_policy:
  assumes "verifyQuote cx quote p vendor now = Inr ()" and "verifyQuote cx quote q vendor' now' = Inr ()"
    and "valid_policy p" and "valid_policy q"
    and "no_collision cx (measurement_text p) (measurement_text q)"
  shows "p = q"
proof -
  have versions: "tp_version p = tp_version q" "tp_version p = JInt (int_of (tp_version p))"
    using assms(1-3) safe_version_JInt [of "tp_version p"] by (auto simp: verifyQuote_Inr valid_policy_def)
  from assms(1,2,5) have "measurement_text p = measurement_text q"
    by (auto simp: verifyQuote_Inr intro: same_measurement)
  then have "tp_servingImageId p = tp_servingImageId q"
    by (simp add: measurement_text_def versions(1))
  with versions(1) assms(3,4) show ?thesis by (simp add: valid_policy_def)
qed

theorem accepted_quote_pins_policy_witness:
  "\<exists>quote. verifyQuote demo_crypto quote demo_policy (demo_address ''0xab'') (JInt 1000) = Inr () \<and> demo_policy = demo_policy"
proof -
  let ?q = "\<lparr>q_cpuQuote = ''a'', q_gpuQuote = ''b'', q_measurement = measurementOf demo_crypto demo_policy,
     q_tcbVersion = JInt 1, q_timestamp = JInt 1000, q_signature = demo_address ''0xab''\<rparr>"
  have "verifyQuote demo_crypto ?q demo_policy (demo_address ''0xab'') (JInt 1000) = Inr ()"
    using length_demo_address [of "''0xab''"]
    by (simp add: verifyQuote_Inr is_safe_integer_def max_safe_def quote_lifetime_ms_def)
       (simp add: demo_policy_def demo_crypto_def)
  moreover have "no_collision demo_crypto (measurement_text demo_policy) (measurement_text demo_policy)"
    by (simp add: no_collision_def)
  ultimately show ?thesis
    using accepted_quote_pins_policy [OF _ _ demo_policy_valid demo_policy_valid] by blast
qed

end
