(* ===== verification/Near_Inference.thy ===== *)
theory Near_Inference
  imports Core_Attestation
begin

text \<open>
  Verified inference at the NEAR provider: \<open>core/src/near-inference.ts\<close> and
  \<open>core/src/near-attestation-error.ts\<close>.

  The outside of one call is an argument: what the attestation verifier, the pinned transport, the clocks and
  the abort signal do at each point (\<open>near_world\<close>). What the call does to the outside, the POST of the prompt,
  the signature reads and the closing of the session, is returned as a list of events. \<open>JSON.parse\<close>,
  \<open>Date.parse\<close> and the URL parser are fields of \<open>near_host\<close>; the decoding of UTF-8, the schemas and the checks
  on signatures are written out.
\<close>

section \<open>Attestation failures\<close>

definition nearVerifierErrorCodes :: "string list" where
  "nearVerifierErrorCodes =
     [''ARCHIVE_INVALID'', ''ARCHIVE_TIME_INVALID'', ''ARCHIVE_VERDICT_MISMATCH'', ''INPUT_INVALID'', ''POLICY_CHANGED'', ''POLICY_INVALID'', ''POLICY_EXPIRED'',
      ''CPU_BINDING_MISMATCH'', ''CPU_DEBUG_REJECTED'', ''CPU_INVALID'', ''CPU_TCB_REJECTED'', ''CPU_TYPE_REJECTED'', ''CPU_VERIFICATION_FAILED'',
      ''GATEWAY_COMPOSE_MISMATCH'', ''GATEWAY_EVENT_LOG_INVALID'', ''GATEWAY_EVENT_LOG_MISMATCH'', ''GATEWAY_EVIDENCE_MISSING'', ''GATEWAY_POLICY_MISMATCH'', ''GATEWAY_SIGNER_INVALID'',
      ''MODEL_EVENT_LOG_MISMATCH'', ''MODEL_EVIDENCE_DUPLICATE'', ''MODEL_EVIDENCE_INVALID'', ''MODEL_EVIDENCE_MISSING'', ''MODEL_INVALID'', ''NONCE_MISMATCH'',
      ''NVIDIA_GPU_BINDING_INVALID'', ''NVIDIA_GPU_REJECTED'', ''NVIDIA_GPU_SET_INVALID'', ''NVIDIA_IMPLEMENTATION_CHANGED'', ''NVIDIA_INVALID'',
      ''NVIDIA_LOCAL_CONFIG_INVALID'', ''NVIDIA_LOCAL_OUTPUT_INVALID'', ''NVIDIA_LOCAL_TIMEOUT'', ''NVIDIA_LOCAL_UNAVAILABLE'', ''NVIDIA_NONCE_INVALID'',
      ''NVIDIA_RESULT_REJECTED'', ''NVIDIA_SIGNATURE_INVALID'', ''NVIDIA_TIME_INVALID'', ''NVIDIA_UNAVAILABLE'', ''NVIDIA_VERIFIER_MISMATCH'',
      ''SIGNING_ALGORITHM_REJECTED'', ''TLS_BINDING_MISMATCH'', ''VERIFICATION_ABORTED'', ''VERIFICATION_EXPIRED'', ''VERIFICATION_FAILED'', ''VERIFICATION_TIMEOUT'',
      ''WORKLOAD_ACTIONS_INVALID'', ''WORKLOAD_BINDING_MISMATCH'', ''WORKLOAD_COMPOSE_MISMATCH'', ''WORKLOAD_EVIDENCE_MISSING'', ''WORKLOAD_MANAGER_UNKNOWN'',
      ''WORKLOAD_NONCE_MISMATCH'', ''WORKLOAD_NOT_APPROVED'', ''WORKLOAD_VM_MISMATCH'']"

record attestation_failure =
  af_stage :: string
  af_reason :: string
  af_verifierError :: "string option"

text \<open>\<open>failureSchema\<close>, a union of strict objects: the reasons of a stage, and the codes of a rejection.\<close>

definition stage_reasons :: "(string \<times> string list) list" where
  "stage_reasons =
     [(''verifier'', [''aborted'', ''output-limit'', ''process-failed'', ''stdin-failed'', ''invalid-output'', ''archive-unverified'', ''invalid-input'']),
      (''transport'', [''aborted'', ''tls'', ''request'', ''response'', ''body-limit'', ''encoding'', ''body-type'']),
      (''report'', [''http-status'', ''json'', ''shape'', ''nonce-binding'', ''tls-binding'', ''model-binding'']),
      (''policy'', [''unreadable'', ''size'', ''changed'', ''json'']),
      (''session'', [''tls-binding'', ''signer'', ''signer-set'', ''time'', ''origin'', ''expired'']),
      (''configuration'', [''credentials''])]"

definition failureSchema :: "attestation_failure \<Rightarrow> bool" where
  "failureSchema f \<longleftrightarrow>
     (af_stage f = ''verifier'' \<and> af_reason f = ''rejected''
       \<and> (case af_verifierError f of Some c \<Rightarrow> c \<in> set nearVerifierErrorCodes | None \<Rightarrow> False))
     \<or> (af_verifierError f = None
       \<and> (case map_of stage_reasons (af_stage f) of Some rs \<Rightarrow> af_reason f \<in> set rs | None \<Rightarrow> False))"

text \<open>An exception on its way to the handler; only the factory creates one that carries a diagnostic.\<close>

datatype near_reason =
    SessionInvalid | AttestationProofInvalid | ResponseLimit | ResponseMissing | InvalidJson | TransportBinding
  | SignatureNoncanonical | HttpStatus | InvalidCompletion | OutputLimit | SignatureUnavailable | SignatureBinding
  | SignerUnattested | VerificationFailed | TimedOut

datatype near_throw =
    NearThrow string near_reason
  | AttestationThrow attestation_failure
  | HookThrow string

definition createNearAttestationError :: "attestation_failure \<Rightarrow> near_throw" where
  "createNearAttestationError f =
     AttestationThrow (if failureSchema f then f else \<lparr>af_stage = ''transport'', af_reason = ''request'', af_verifierError = None\<rparr>)"

definition getNearAttestationFailure :: "near_throw \<Rightarrow> attestation_failure option" where
  "getNearAttestationFailure t = (case t of AttestationThrow f \<Rightarrow> Some f | _ \<Rightarrow> None)"

definition isNearAttestationError :: "near_throw \<Rightarrow> bool" where
  "isNearAttestationError t \<longleftrightarrow> getNearAttestationFailure t \<noteq> None"

definition isUnapprovedNearWorkload :: "near_throw \<Rightarrow> bool" where
  "isUnapprovedNearWorkload t \<longleftrightarrow>
     (case getNearAttestationFailure t of
        Some f \<Rightarrow> af_stage f = ''verifier'' \<and> af_reason f = ''rejected'' \<and> af_verifierError f = Some ''WORKLOAD_NOT_APPROVED''
      | None \<Rightarrow> False)"

section \<open>Bytes and text\<close>

text \<open>\<open>new TextDecoder("utf-8", \{ fatal: true \})\<close>: well-formed UTF-8, a leading byte order mark dropped.\<close>

definition between :: "nat \<Rightarrow> nat \<Rightarrow> nat \<Rightarrow> bool" where
  "between a b n \<longleftrightarrow> a \<le> n \<and> n \<le> b"

fun utf8_valid :: "nat list \<Rightarrow> bool" where
  "utf8_valid [] = True"
| "utf8_valid (a # bs) =
     (if a < 128 then utf8_valid bs
      else (case bs of
          [] \<Rightarrow> False
        | b # cs \<Rightarrow>
            if between 194 223 a then between 128 191 b \<and> utf8_valid cs
            else (case cs of
                [] \<Rightarrow> False
              | c # ds \<Rightarrow>
                  if between 224 239 a
                  then between (if a = 224 then 160 else 128) (if a = 237 then 159 else 191) b \<and> between 128 191 c \<and> utf8_valid ds
                  else (case ds of
                      [] \<Rightarrow> False
                    | d # es \<Rightarrow> between 240 244 a \<and> between (if a = 240 then 144 else 128) (if a = 244 then 143 else 191) b
                        \<and> between 128 191 c \<and> between 128 191 d \<and> utf8_valid es))))"

definition text_of :: "bytes \<Rightarrow> string" where
  "text_of bs = map (\<lambda>b. char_of (unat b)) bs"

definition decode_text :: "bytes \<Rightarrow> string option" where
  "decode_text bs =
     (if \<not> utf8_valid (map unat bs) then None
      else Some (if take 3 bs = [239, 187, 191] then text_of (drop 3 bs) else text_of bs))"

text \<open>The \<open>length\<close> of a JavaScript string: UTF-16 units.\<close>

definition utf16_length :: "string \<Rightarrow> nat" where
  "utf16_length s = length (filter (\<lambda>c. code_of c < 128 \<or> 192 \<le> code_of c) s) + length (filter (\<lambda>c. 240 \<le> code_of c) s)"

definition trim :: "string \<Rightarrow> string" where
  "trim s = rev (dropWhile is_space (rev (dropWhile is_space s)))"

definition json_field :: "string \<Rightarrow> json \<Rightarrow> json option" where
  "json_field k v = (case v of JObj fs \<Rightarrow> map_of fs k | _ \<Rightarrow> None)"

definition json_text :: "string \<Rightarrow> json \<Rightarrow> string option" where
  "json_text k v = (case json_field k v of Some (JStr s) \<Rightarrow> Some s | _ \<Rightarrow> None)"

record url_parts =
  up_protocol :: string
  up_username :: string
  up_password :: string
  up_search :: string
  up_hash :: string
  up_port :: string
  up_hostname :: string
  up_pathname :: string

record near_host =
  nh_crypto :: crypto
  nh_parse :: "string \<Rightarrow> json option"
  nh_date :: "string \<Rightarrow> int option"
  nh_url :: "string \<Rightarrow> url_parts option"

section \<open>Data\<close>

record near_session =
  ns_allowedSigners :: "string list"
  ns_attestationRef :: string
  ns_verifiedAt :: string
  ns_expiresAt :: string
  ns_tlsBound :: bool
  ns_hasFetch :: bool
  ns_attestationProof :: "string option"
  ns_closable :: bool

record near_evidence =
  ne_schemaVersion :: nat
  ne_provider :: string
  ne_signatureKind :: string
  ne_endpoint :: string
  ne_model :: string
  ne_completionId :: string
  ne_requestHash :: string
  ne_responseHash :: string
  ne_outputHash :: string
  ne_signatureText :: string
  ne_signature :: string
  ne_signingAddress :: string
  ne_attestationRef :: string
  ne_verifiedAt :: string
  ne_expiresAt :: string
  ne_tlsBound :: bool

record near_result =
  nt_output :: bytes
  nt_evidence :: near_evidence
  nt_requestBody :: bytes
  nt_responseBody :: bytes
  nt_attestationProof :: "string option"

datatype near_phase = PhAttestation | PhDispatch | PhCompletion | PhSignature

record near_failure =
  nf_phase :: near_phase
  nf_reason :: near_reason
  nf_postAttempted :: bool
  nf_httpStatus :: "int option"
  nf_completionId :: "string option"
  nf_attestationFailure :: "attestation_failure option"

record near_config =
  nc_base :: url_parts
  nc_model :: string
  nc_apiKey :: string
  nc_timeoutMs :: int
  nc_maxRequestBytes :: int
  nc_maxResponseBytes :: int
  nc_maxOutputBytes :: int
  nc_maxTokens :: int
  nc_enableThinking :: bool
  nc_attempts :: int
  nc_retryDelayMs :: int

definition address_pattern :: "string \<Rightarrow> bool" where
  "address_pattern s = hex_string 40 s"

definition hash_pattern :: "string \<Rightarrow> bool" where
  "hash_pattern s = hex_string 64 s"

definition halfCurveOrder :: nat where
  "halfCurveOrder = 0x7fffffffffffffffffffffffffffffff5d576e7357a4501ddfe92f46681b20a0"

record completion =
  cp_id :: string
  cp_model :: string
  cp_contents :: "string list"

definition completion_id_pattern :: "string \<Rightarrow> bool" where
  "completion_id_pattern s \<longleftrightarrow> 1 \<le> length s \<and> length s \<le> 256 \<and> list_all (\<lambda>c. is_letter c \<or> is_digit c \<or> c \<in> set ''_-'') s"

definition choice_content :: "json \<Rightarrow> string option" where
  "choice_content v =
     (case json_field ''message'' v of
        Some m \<Rightarrow> (case json_text ''content'' m of Some s \<Rightarrow> if s = [] then None else Some s | None \<Rightarrow> None)
      | None \<Rightarrow> None)"

fun all_some :: "'a option list \<Rightarrow> 'a list option" where
  "all_some [] = Some []"
| "all_some (x # xs) = (case (x, all_some xs) of (Some y, Some ys) \<Rightarrow> Some (y # ys) | _ \<Rightarrow> None)"

definition completionSchema :: "json \<Rightarrow> completion option" where
  "completionSchema v =
     (case (json_text ''id'' v, json_text ''model'' v, json_field ''choices'' v) of
        (Some i, Some m, Some (JArr cs)) \<Rightarrow>
          (case all_some (map choice_content cs) of
             Some contents \<Rightarrow>
               if completion_id_pattern i \<and> contents \<noteq> [] then Some \<lparr>cp_id = i, cp_model = m, cp_contents = contents\<rparr> else None
           | None \<Rightarrow> None)
      | _ \<Rightarrow> None)"

record signature_payload =
  sg_text :: string
  sg_signature :: string
  sg_address :: string
  sg_kind :: "string option"

definition signatureSchema :: "json \<Rightarrow> signature_payload option" where
  "signatureSchema v =
     (case (json_text ''text'' v, json_text ''signature'' v, json_text ''signing_address'' v) of
        (Some t, Some s, Some a) \<Rightarrow>
          if utf16_length t \<le> 1024 \<and> hex_string 130 s \<and> address_pattern a \<and> json_text ''signing_algo'' v = Some ''ecdsa''
             \<and> (json_field ''signature_kind'' v = None \<or> json_text ''signature_kind'' v = Some ''provider_tee'')
          then Some \<lparr>sg_text = t, sg_signature = s, sg_address = a, sg_kind = json_text ''signature_kind'' v\<rparr>
          else None
      | _ \<Rightarrow> None)"

definition request_content :: "json \<Rightarrow> (string \<times> string) option" where
  "request_content v =
     (case (json_text ''model'' v, json_field ''messages'' v) of
        (Some m, Some (JArr [x])) \<Rightarrow>
          (case json_text ''content'' x of
             Some c \<Rightarrow> if json_text ''role'' x = Some ''user'' \<and> json_field ''stream'' v = Some (JBool False) then Some (m, c) else None
           | None \<Rightarrow> None)
      | _ \<Rightarrow> None)"

section \<open>Options\<close>

definition limit :: "js_number \<Rightarrow> int \<Rightarrow> enclave_error + int" where
  "limit n maximum =
     (if \<not> is_safe_integer n \<or> int_of n < 1 \<or> int_of n > maximum then Inl (PlainError ''Invalid NEAR inference limit'')
      else Inr (int_of n))"

text \<open>\<open>/^[a-z0-9-]+\.completions\.near\.ai$/\<close>.\<close>

definition near_hostname :: "string \<Rightarrow> bool" where
  "near_hostname h \<longleftrightarrow> h = ''cloud-api.near.ai''
     \<or> (length h > 20 \<and> drop (length h - 20) h = ''.completions.near.ai''
        \<and> list_all (\<lambda>c. (97 \<le> code_of c \<and> code_of c \<le> 122) \<or> is_digit c \<or> c = CHR ''-'') (take (length h - 20) h))"

definition endpoint :: "near_host \<Rightarrow> string \<Rightarrow> enclave_error + url_parts" where
  "endpoint host text =
     (case nh_url host text of
        None \<Rightarrow> Inl (PlainError ''Invalid NEAR inference URL'')
      | Some u \<Rightarrow>
          if up_protocol u \<noteq> ''https:'' \<or> up_username u \<noteq> [] \<or> up_password u \<noteq> [] \<or> up_search u \<noteq> [] \<or> up_hash u \<noteq> []
             \<or> up_port u \<noteq> [] \<or> \<not> near_hostname (up_hostname u) \<or> up_pathname u \<notin> set ['''', ''/'', ''/v1'', ''/v1/'']
          then Inl (PlainError ''NEAR inference requires an approved HTTPS endpoint'')
          else Inr (u\<lparr>up_pathname := ''/v1/''\<rparr>))"

definition base_origin :: "url_parts \<Rightarrow> string" where
  "base_origin u = ''https://'' @ up_hostname u"

definition base_href :: "url_parts \<Rightarrow> string" where
  "base_href u = base_origin u @ up_pathname u"

record near_options =
  np_baseUrl :: string
  np_model :: string
  np_apiKey :: string
  np_verifier :: bool
  np_timeoutMs :: "js_number option"
  np_maxRequestBytes :: "js_number option"
  np_maxResponseBytes :: "js_number option"
  np_maxOutputBytes :: "js_number option"
  np_maxTokens :: "js_number option"
  np_enableThinking :: "bool option"
  np_maxSignatureAttempts :: "js_number option"
  np_signatureRetryDelayMs :: "js_number option"

definition or_else :: "'a option \<Rightarrow> 'a \<Rightarrow> 'a" where
  "or_else x d = (case x of Some y \<Rightarrow> y | None \<Rightarrow> d)"

definition line_break :: "char \<Rightarrow> bool" where
  "line_break c \<longleftrightarrow> code_of c = 10 \<or> code_of c = 13"

definition createNearInference :: "near_host \<Rightarrow> near_options \<Rightarrow> enclave_error + near_config" where
  "createNearInference host options =
     rbind (endpoint host (np_baseUrl options)) (\<lambda>base.
     let model = trim (np_model options); apiKey = trim (np_apiKey options) in
     rbind (require (\<not> (model = [] \<or> utf16_length model > 512 \<or> list_ex (\<lambda>c. line_break c \<or> c = CHR '':'') model))
       (PlainError ''Invalid NEAR inference model'')) (\<lambda>_.
     rbind (require (\<not> (apiKey = [] \<or> list_ex line_break apiKey)) (PlainError ''Invalid NEAR inference API key'')) (\<lambda>_.
     rbind (require (np_verifier options) (PlainError ''NEAR attestation verifier is required'')) (\<lambda>_.
     rbind (limit (or_else (np_timeoutMs options) (JInt 30000)) 300000) (\<lambda>timeoutMs.
     rbind (limit (or_else (np_maxRequestBytes options) (JInt 1048576)) 16777216) (\<lambda>maxRequestBytes.
     rbind (limit (or_else (np_maxResponseBytes options) (JInt 8388608)) 33554432) (\<lambda>maxResponseBytes.
     rbind (limit (or_else (np_maxOutputBytes options) (JInt 1048576)) 16777216) (\<lambda>maxOutputBytes.
     rbind (limit (or_else (np_maxTokens options) (JInt 1024)) 131072) (\<lambda>maxTokens.
     rbind (limit (or_else (np_maxSignatureAttempts options) (JInt 5)) 10) (\<lambda>attempts.
     rbind (limit (or_else (np_signatureRetryDelayMs options) (JInt 250)) 5000) (\<lambda>retryDelayMs.
     Inr \<lparr>nc_base = base, nc_model = model, nc_apiKey = apiKey, nc_timeoutMs = timeoutMs, nc_maxRequestBytes = maxRequestBytes,
          nc_maxResponseBytes = maxResponseBytes, nc_maxOutputBytes = maxOutputBytes, nc_maxTokens = maxTokens,
          nc_enableThinking = or_else (np_enableThinking options) False, nc_attempts = attempts, nc_retryDelayMs = retryDelayMs\<rparr>)))))))))))"

definition cloudGateway :: "near_config \<Rightarrow> bool" where
  "cloudGateway cfg \<longleftrightarrow> up_hostname (nc_base cfg) = ''cloud-api.near.ai''"

section \<open>Checks\<close>

definition zero_address :: "string \<Rightarrow> bool" where
  "zero_address s \<longleftrightarrow> lower s = ''0x'' @ replicate 40 (CHR ''0'')"

definition assertSession :: "near_host \<Rightarrow> int \<Rightarrow> near_session \<Rightarrow> near_throw + unit" where
  "assertSession host now s =
     (let valid = (case (nh_date host (ns_verifiedAt s), nh_date host (ns_expiresAt s)) of
          (Some issued, Some expires) \<Rightarrow> \<not> (issued > now + 30000) \<and> \<not> (expires \<le> now) \<and> \<not> (expires \<le> issued)
        | _ \<Rightarrow> False) in
      rbind (require (ns_tlsBound s \<and> ns_hasFetch s \<and> hash_pattern (ns_attestationRef s)
          \<and> 1 \<le> length (ns_allowedSigners s) \<and> length (ns_allowedSigners s) \<le> 64
          \<and> list_all (\<lambda>a. address_pattern a \<and> \<not> zero_address a) (ns_allowedSigners s) \<and> valid)
        (NearThrow ''NEAR attestation session is invalid or expired'' SessionInvalid)) (\<lambda>_.
      require (case ns_attestationProof s of Some p \<Rightarrow> length p \<le> 4194304 | None \<Rightarrow> True)
        (NearThrow ''NEAR attestation proof is invalid'' AttestationProofInvalid)))"

text \<open>A response of the pinned transport. A body is what its reader yields until it is done; reading and cancelling may throw.\<close>

record near_response =
  rp_status :: int
  rp_redirected :: bool
  rp_origin :: "string option"
  rp_length :: "string option"
  rp_body :: "(near_throw + bytes) list option"
  rp_cancel :: "near_throw + unit"

definition too_long :: near_throw where
  "too_long = NearThrow ''NEAR response exceeds the byte limit'' ResponseLimit"

definition cancelled :: "near_response \<Rightarrow> near_throw \<Rightarrow> near_throw + 'a" where
  "cancelled r t = (case rp_cancel r of Inl c \<Rightarrow> Inl c | Inr _ \<Rightarrow> Inl t)"

fun read_chunks :: "near_response \<Rightarrow> int \<Rightarrow> int \<Rightarrow> (near_throw + bytes) list \<Rightarrow> near_throw + bytes" where
  "read_chunks r maximum n [] = Inr []"
| "read_chunks r maximum n (chunk # chunks) =
     rbind chunk (\<lambda>b.
       if n + int (length b) > maximum then cancelled r too_long
       else rmap (\<lambda>rest. b @ rest) (read_chunks r maximum (n + int (length b)) chunks))"

definition readBody :: "near_response \<Rightarrow> int \<Rightarrow> near_throw + bytes" where
  "readBody r maximum =
     (if (case rp_length r of Some d \<Rightarrow> \<not> (d \<noteq> [] \<and> list_all is_digit d) \<or> int (dec_number d) > maximum | None \<Rightarrow> False)
      then cancelled r too_long
      else case rp_body r of
          None \<Rightarrow> Inl (NearThrow ''NEAR response body is missing'' ResponseMissing)
        | Some chunks \<Rightarrow> read_chunks r maximum 0 chunks)"

definition parseJson :: "near_host \<Rightarrow> bytes \<Rightarrow> near_throw + json" where
  "parseJson host bs =
     of_option (NearThrow ''NEAR returned invalid JSON'' InvalidJson)
       (case decode_text bs of Some s \<Rightarrow> nh_parse host s | None \<Rightarrow> None)"

definition assertResponseOrigin :: "near_response \<Rightarrow> string \<Rightarrow> near_throw + unit" where
  "assertResponseOrigin r origin =
     require (\<not> (rp_redirected r \<or> (case rp_origin r of Some u \<Rightarrow> u \<noteq> origin | None \<Rightarrow> False)))
       (NearThrow ''NEAR response transport binding failed'' TransportBinding)"

definition recoverCanonicalSignature :: "near_host \<Rightarrow> string \<Rightarrow> string \<Rightarrow> near_throw + string" where
  "recoverCanonicalSignature host text sig =
     rbind (require (hex_string 130 sig) (NearThrow ''NEAR signature is not canonical'' SignatureNoncanonical)) (\<lambda>_.
     let s = hex_number (take 64 (drop 66 sig)); v = hex_number (drop 130 sig) in
     rbind (require (\<not> (s = 0 \<or> s > halfCurveOrder \<or> v \<notin> {0, 1, 27, 28})) (NearThrow ''NEAR signature is not canonical'' SignatureNoncanonical)) (\<lambda>_.
     of_option (HookThrow ''signature recovery'') (cx_recover (nh_crypto host) text sig)))"

definition signature_text :: "string \<Rightarrow> string \<Rightarrow> string \<Rightarrow> string" where
  "signature_text model requestHash responseHash = model @ '':'' @ drop 2 requestHash @ '':'' @ drop 2 responseHash"

definition near_sha :: "near_host \<Rightarrow> bytes \<Rightarrow> string" where
  "near_sha host = sha256Hex (cx_sha (nh_crypto host))"

text \<open>Any exception inside makes the answer \<open>false\<close>.\<close>

definition transcript_checks :: "near_host \<Rightarrow> near_evidence \<Rightarrow> bytes \<Rightarrow> bytes \<Rightarrow> near_throw + bool" where
  "transcript_checks host e requestBody responseBody =
     (if ne_schemaVersion e \<noteq> 1 \<or> ne_provider e \<noteq> ''near'' \<or> ne_signatureKind e \<noteq> ''provider_tee'' \<or> \<not> ne_tlsBound e
         \<or> \<not> address_pattern (ne_signingAddress e) \<or> \<not> hash_pattern (ne_attestationRef e)
         \<or> length requestBody > 16777216 \<or> length responseBody > 33554432
         \<or> nh_date host (ne_verifiedAt e) = None \<or> nh_date host (ne_expiresAt e) = None then Inr False
      else case endpoint host (ne_endpoint e) of Inl _ \<Rightarrow> Inl (HookThrow ''endpoint'') | Inr _ \<Rightarrow>
        (let requestHash = near_sha host requestBody; responseHash = near_sha host responseBody in
         if requestHash \<noteq> ne_requestHash e \<or> responseHash \<noteq> ne_responseHash e then Inr False
         else rbind (parseJson host requestBody) (\<lambda>q. rbind (parseJson host responseBody) (\<lambda>a.
           case (request_content q, completionSchema a) of
             (Some (m, _), Some c) \<Rightarrow>
               if m \<noteq> ne_model e \<or> cp_model c \<noteq> ne_model e \<or> cp_id c \<noteq> ne_completionId e
                  \<or> near_sha host (utf8 (hd (cp_contents c))) \<noteq> ne_outputHash e then Inr False
               else if ne_signatureText e \<noteq> signature_text (ne_model e) requestHash responseHash then Inr False
               else rmap (\<lambda>r. same r (ne_signingAddress e)) (recoverCanonicalSignature host (ne_signatureText e) (ne_signature e))
           | _ \<Rightarrow> Inr False))))"

definition verifyNearTranscript :: "near_host \<Rightarrow> near_evidence \<Rightarrow> bytes \<Rightarrow> bytes \<Rightarrow> bool" where
  "verifyNearTranscript host e requestBody responseBody = (transcript_checks host e requestBody responseBody = Inr True)"

section \<open>One inference\<close>

datatype near_event = PostSent string string | SignatureRead string | SessionClosed

record near_round =
  rd_now :: int
  rd_response :: "near_throw + near_response"
  rd_delay :: "near_throw + unit"
  rd_abortedRecover :: bool
  rd_nowDone :: int
  rd_abortedDone :: bool

text \<open>
  What happens outside: the verifier's session, the answer to the POST, the rounds of the signature reads, the
  clock and the abort flag where the code reads them. A wait that the signal ends is one of the throws.
\<close>

record near_world =
  nw_uuid :: string
  nw_session :: "near_throw + near_session"
  nw_now :: int
  nw_aborted :: bool
  nw_post :: "near_throw + near_response"
  nw_rounds :: "nat \<Rightarrow> near_round"
  nw_abortedCaught :: bool

definition request_json :: "near_config \<Rightarrow> string \<Rightarrow> string \<Rightarrow> json" where
  "request_json cfg uuid prompt =
     JObj [(''model'', JStr (nc_model cfg)), (''user'', JStr (''enclave-'' @ uuid)),
       (''messages'', JArr [JObj [(''role'', JStr ''user''), (''content'', JStr prompt)]]), (''stream'', JBool False),
       (''temperature'', JNum 0), (''max_tokens'', JNum (nc_maxTokens cfg)),
       (''chat_template_kwargs'', JObj [(''enable_thinking'', JBool (nc_enableThinking cfg))])]"

definition http_status :: "near_response \<Rightarrow> int option" where
  "http_status r = (if 100 \<le> rp_status r \<and> rp_status r \<le> 599 then Some (rp_status r) else None)"

text \<open>Lines 275-277.\<close>

definition attested_session :: "near_host \<Rightarrow> near_world \<Rightarrow> near_throw + near_session" where
  "attested_session host w =
     rbind (nw_session w) (\<lambda>s. rbind (assertSession host (nw_now w) s) (\<lambda>_.
     rbind (require (\<not> nw_aborted w) (HookThrow ''aborted'')) (\<lambda>_. Inr s)))"

text \<open>Lines 286-296: the completion id, once it is valid, and the completion's bytes and output.\<close>

definition read_completion :: "near_host \<Rightarrow> near_config \<Rightarrow> near_response \<Rightarrow> string option \<times> (near_throw + (bytes \<times> bytes))" where
  "read_completion host cfg r =
     (case rbind (assertResponseOrigin r (base_origin (nc_base cfg))) (\<lambda>_.
           if rp_status r \<noteq> 200 then cancelled r (NearThrow (''NEAR inference returned HTTP '' @ int_dec (rp_status r)) HttpStatus)
           else rbind (readBody r (nc_maxResponseBytes cfg)) (\<lambda>body.
             rbind (parseJson host body) (\<lambda>v.
             rbind (of_option (NearThrow ''NEAR returned an invalid completion or model'' InvalidCompletion)
               (case completionSchema v of Some c \<Rightarrow> if cp_model c = nc_model cfg then Some c else None | None \<Rightarrow> None)) (\<lambda>c.
             Inr (body, c)))))
      of Inl t \<Rightarrow> (None, Inl t)
       | Inr (body, c) \<Rightarrow>
           (Some (cp_id c),
            let output = utf8 (hd (cp_contents c)) in
            if int (length output) > nc_maxOutputBytes cfg then Inl (NearThrow ''NEAR output exceeds the byte limit'' OutputLimit)
            else Inr (body, output)))"

datatype round_result = RoundThrow near_throw | RoundRetry | RoundSigned string string

text \<open>Lines 302-326 of one attempt: the status shown by a failure, whether the signature was read, and the outcome.\<close>

definition signed_round :: "near_host \<Rightarrow> near_config \<Rightarrow> near_session \<Rightarrow> string \<Rightarrow> near_round \<Rightarrow> near_response \<Rightarrow> near_throw + (string \<times> string)" where
  "signed_round host cfg s text rd r =
     rbind (rbind (readBody r 16384) (parseJson host)) (\<lambda>v.
     rbind (of_option (NearThrow ''NEAR signature payload does not bind this inference'' SignatureBinding)
       (case signatureSchema v of
          Some p \<Rightarrow> if sg_text p = text \<and> (cloudGateway cfg \<longrightarrow> sg_kind p = Some ''provider_tee'') then Some p else None
        | None \<Rightarrow> None)) (\<lambda>p.
     rbind (require (\<not> rd_abortedRecover rd) (HookThrow ''aborted'')) (\<lambda>_.
     rbind (recoverCanonicalSignature host text (sg_signature p)) (\<lambda>recovered.
     rbind (require (same recovered (sg_address p) \<and> list_ex (\<lambda>a. same a recovered) (ns_allowedSigners s))
       (NearThrow ''NEAR signature signer is not attested'' SignerUnattested)) (\<lambda>_.
     rbind (assertSession host (rd_nowDone rd) s) (\<lambda>_.
     rbind (require (\<not> rd_abortedDone rd) (HookThrow ''aborted'')) (\<lambda>_.
     Inr (sg_signature p, recovered))))))))"

definition signature_round ::
    "near_host \<Rightarrow> near_config \<Rightarrow> near_session \<Rightarrow> string \<Rightarrow> bool \<Rightarrow> near_round \<Rightarrow> int option \<times> bool \<times> round_result" where
  "signature_round host cfg s text final rd =
     (case assertSession host (rd_now rd) s of
        Inl t \<Rightarrow> (None, False, RoundThrow t)
      | Inr _ \<Rightarrow>
          (case rd_response rd of
             Inl t \<Rightarrow> (None, True, RoundThrow t)
           | Inr r \<Rightarrow>
               (http_status r, True,
                case assertResponseOrigin r (base_origin (nc_base cfg)) of
                  Inl t \<Rightarrow> RoundThrow t
                | Inr _ \<Rightarrow>
                    if rp_status r \<in> {404, 503, 504}
                    then (case rp_cancel r of
                        Inl t \<Rightarrow> RoundThrow t
                      | Inr _ \<Rightarrow>
                          if final then RoundThrow (NearThrow ''NEAR signature was not available within the retry limit'' SignatureUnavailable)
                          else (case rd_delay rd of Inl t \<Rightarrow> RoundThrow t | Inr _ \<Rightarrow> RoundRetry))
                    else if rp_status r \<noteq> 200
                    then (case rp_cancel r of Inl t \<Rightarrow> RoundThrow t
                        | Inr _ \<Rightarrow> RoundThrow (NearThrow (''NEAR signature returned HTTP '' @ int_dec (rp_status r)) HttpStatus))
                    else (case signed_round host cfg s text rd r of Inl t \<Rightarrow> RoundThrow t | Inr (sig, a) \<Rightarrow> RoundSigned sig a))))"

text \<open>The loop over the attempts still allowed, from attempt \<open>i\<close>.\<close>

fun signature_loop ::
    "near_host \<Rightarrow> near_config \<Rightarrow> near_session \<Rightarrow> string \<Rightarrow> string \<Rightarrow> (nat \<Rightarrow> near_round) \<Rightarrow> nat \<Rightarrow> nat
      \<Rightarrow> int option \<times> near_event list \<times> (near_throw + (string \<times> string))" where
  "signature_loop host cfg s url text rounds i 0 =
     (None, [], Inl (NearThrow ''NEAR signature was not available within the retry limit'' SignatureUnavailable))"
| "signature_loop host cfg s url text rounds i (Suc n) =
     (let (status, fetched, res) = signature_round host cfg s text (n = 0) (rounds i);
          events = (if fetched then [SignatureRead url] else []) in
      case res of
        RoundThrow t \<Rightarrow> (status, events, Inl t)
      | RoundSigned sig a \<Rightarrow> (status, events, Inr (sig, a))
      | RoundRetry \<Rightarrow>
          (let (status', events', res') = signature_loop host cfg s url text rounds (Suc i) n in (status', events @ events', res')))"

record near_progress =
  pr_phase :: near_phase
  pr_posted :: bool
  pr_status :: "int option"
  pr_completion :: "string option"

text \<open>Lines 274-336, the body of the \<open>try\<close>: how far it got, what it sent, and its value or exception.\<close>

definition near_attempt ::
    "near_host \<Rightarrow> near_config \<Rightarrow> near_world \<Rightarrow> bytes \<Rightarrow> near_progress \<times> near_event list \<times> (near_throw + near_result)" where
  "near_attempt host cfg w requestBody =
     (let base = nc_base cfg; requestHash = near_sha host requestBody in
      case attested_session host w of
        Inl t \<Rightarrow> (\<lparr>pr_phase = PhAttestation, pr_posted = False, pr_status = None, pr_completion = None\<rparr>, [], Inl t)
      | Inr s \<Rightarrow>
        (let post = PostSent (base_href base @ ''chat/completions'') (text_of requestBody) in
         case nw_post w of
           Inl t \<Rightarrow> (\<lparr>pr_phase = PhDispatch, pr_posted = True, pr_status = None, pr_completion = None\<rparr>, [post], Inl t)
         | Inr r \<Rightarrow>
           (case read_completion host cfg r of
              (i, Inl t) \<Rightarrow> (\<lparr>pr_phase = PhCompletion, pr_posted = True, pr_status = http_status r, pr_completion = i\<rparr>, [post], Inl t)
            | (i, Inr (responseBody, output)) \<Rightarrow>
              (let responseHash = near_sha host responseBody;
                   text = signature_text (nc_model cfg) requestHash responseHash;
                   url = base_href base @ ''signature/'' @ or_else i '''' @ ''?signing_algo=ecdsa'';
                   (status, reads, res) = signature_loop host cfg s url text (nw_rounds w) 0 (nat (nc_attempts cfg)) in
               (\<lparr>pr_phase = PhSignature, pr_posted = True, pr_status = status, pr_completion = i\<rparr>, post # reads,
                rmap (\<lambda>(sig, recovered).
                  \<lparr>nt_output = output,
                   nt_evidence = \<lparr>ne_schemaVersion = 1, ne_provider = ''near'', ne_signatureKind = ''provider_tee'', ne_endpoint = base_origin base,
                     ne_model = nc_model cfg, ne_completionId = or_else i '''', ne_requestHash = requestHash, ne_responseHash = responseHash,
                     ne_outputHash = near_sha host output, ne_signatureText = text, ne_signature = sig, ne_signingAddress = recovered,
                     ne_attestationRef = ns_attestationRef s, ne_verifiedAt = ns_verifiedAt s, ne_expiresAt = ns_expiresAt s, ne_tlsBound = True\<rparr>,
                   nt_requestBody = requestBody, nt_responseBody = responseBody, nt_attestationProof = ns_attestationProof s\<rparr>) res)))))"

text \<open>Lines 337-346.\<close>

definition near_caught :: "near_world \<Rightarrow> near_progress \<Rightarrow> near_throw \<Rightarrow> enclave_error \<times> near_failure" where
  "near_caught w p t =
     (let reason = (if nw_abortedCaught w then TimedOut else case t of NearThrow _ r \<Rightarrow> r | _ \<Rightarrow> VerificationFailed) in
      (if nw_abortedCaught w then AppError ''NEAR_INFERENCE_TIMEOUT'' ''NEAR verified inference timed out'' 504
       else (case t of
           NearThrow m _ \<Rightarrow> AppError ''NEAR_VERIFICATION_FAILED'' m 502
         | _ \<Rightarrow> AppError ''NEAR_VERIFICATION_FAILED'' ''NEAR attestation or verified inference failed'' 502),
       \<lparr>nf_phase = pr_phase p, nf_reason = reason, nf_postAttempted = pr_posted p, nf_httpStatus = pr_status p,
        nf_completionId = pr_completion p, nf_attestationFailure = getNearAttestationFailure t\<rparr>))"

datatype near_answer = NearRefused enclave_error | NearFailed enclave_error near_failure | NearAnswered near_result

definition near_infer :: "near_host \<Rightarrow> near_config \<Rightarrow> near_world \<Rightarrow> bytes \<Rightarrow> near_answer \<times> near_event list" where
  "near_infer host cfg w plaintext =
     (if int (length plaintext) > nc_maxRequestBytes cfg then (NearRefused (ValidationError ''prompt''), [])
      else case decode_text plaintext of
        None \<Rightarrow> (NearRefused (ValidationError ''prompt''), [])
      | Some prompt \<Rightarrow>
        (let requestBody = utf8 (stringify (request_json cfg (nw_uuid w) prompt)) in
         if int (length requestBody) > nc_maxRequestBytes cfg then (NearRefused (ValidationError ''prompt''), [])
         else (let (p, events, res) = near_attempt host cfg w requestBody;
                   closing = (case nw_session w of Inr s \<Rightarrow> if ns_closable s then [SessionClosed] else [] | Inl _ \<Rightarrow> []) in
           case res of
             Inr r \<Rightarrow> (NearAnswered r, events @ closing)
           | Inl t \<Rightarrow> (let (e, f) = near_caught w p t in (NearFailed e f, events @ closing)))))"

section \<open>Text survives the round trip\<close>

definition codes :: "string \<Rightarrow> nat list" where
  "codes s = map of_char s"

text \<open>A string without lone surrogates: its bytes are well-formed UTF-8.\<close>

definition js_text :: "string \<Rightarrow> bool" where
  "js_text s \<longleftrightarrow> utf8_valid (codes s)"

declare utf8_valid.simps(2) [simp del]

lemma utf8_valid_ascii [simp]: "a < 128 \<Longrightarrow> utf8_valid (a # bs) \<longleftrightarrow> utf8_valid bs"
  by (simp add: utf8_valid.simps)

lemma utf8_valid_multi:
  "128 \<le> a \<Longrightarrow> utf8_valid (a # bs) \<longleftrightarrow>
     (\<exists>b cs. bs = b # cs \<and> between 194 223 a \<and> between 128 191 b \<and> utf8_valid cs)
   \<or> (\<exists>b c cs. bs = b # c # cs \<and> between 224 239 a \<and> between (if a = 224 then 160 else 128) (if a = 237 then 159 else 191) b
        \<and> between 128 191 c \<and> utf8_valid cs)
   \<or> (\<exists>b c d cs. bs = b # c # d # cs \<and> between 240 244 a \<and> between (if a = 240 then 144 else 128) (if a = 244 then 143 else 191) b
        \<and> between 128 191 c \<and> between 128 191 d \<and> utf8_valid cs)"
proof -
  assume a: "128 \<le> a"
  have excl: "\<not> (between 194 223 a \<and> between 224 239 a)" "\<not> (between 194 223 a \<and> between 240 244 a)" "\<not> (between 224 239 a \<and> between 240 244 a)"
    by (auto simp: between_def)
  show ?thesis
  proof (cases bs)
    case (Cons b cs)
    show ?thesis
    proof (cases cs)
      case Nil
      with Cons a show ?thesis by (simp add: utf8_valid.simps(2))
    next
      case two: (Cons c ds)
      show ?thesis
        using a excl unfolding Cons two
        by (cases ds; cases "between 194 223 a"; cases "between 224 239 a") (simp_all add: utf8_valid.simps(2) [of a])
    qed
  qed (use a in \<open>simp add: utf8_valid.simps(2)\<close>)
qed

lemma utf8_valid_append: "utf8_valid a \<Longrightarrow> utf8_valid (a @ b) \<longleftrightarrow> utf8_valid b"
proof (induction a rule: length_induct)
  case (1 xs)
  show ?case
  proof (cases xs)
    case (Cons a bs)
    have step: "utf8_valid cs \<Longrightarrow> length cs < length xs \<Longrightarrow> utf8_valid (cs @ b) = utf8_valid b" for cs using 1(1) by blast
    show ?thesis
    proof (cases "a < 128")
      case True
      with Cons 1(2) step [of bs] show ?thesis by simp
    next
      case False
      then have a: "128 \<le> a" by simp
      have excl: "\<not> (between 194 223 a \<and> between 224 239 a)" "\<not> (between 194 223 a \<and> between 240 244 a)" "\<not> (between 224 239 a \<and> between 240 244 a)"
        by (auto simp: between_def)
      from 1(2) Cons have "utf8_valid (a # bs)" by simp
      then show ?thesis unfolding utf8_valid_multi [OF a]
      proof (elim disjE exE conjE)
        fix x cs assume h: "bs = x # cs" "between 194 223 a" "between 128 191 x" "utf8_valid cs"
        have "xs @ b = a # x # cs @ b" using Cons h(1) by simp
        moreover have "utf8_valid (cs @ b) = utf8_valid b" by (rule step [OF h(4)]) (simp add: Cons h(1))
        ultimately show ?thesis using h(2,3) excl by (simp add: utf8_valid_multi [OF a])
      next
        fix x y cs assume h: "bs = x # y # cs" "between 224 239 a" "between (if a = 224 then 160 else 128) (if a = 237 then 159 else 191) x"
          "between 128 191 y" "utf8_valid cs"
        have "xs @ b = a # x # y # cs @ b" using Cons h(1) by simp
        moreover have "utf8_valid (cs @ b) = utf8_valid b" by (rule step [OF h(5)]) (simp add: Cons h(1))
        ultimately show ?thesis using h(2-4) excl by (simp add: utf8_valid_multi [OF a])
      next
        fix x y z cs assume h: "bs = x # y # z # cs" "between 240 244 a" "between (if a = 240 then 144 else 128) (if a = 244 then 143 else 191) x"
          "between 128 191 y" "between 128 191 z" "utf8_valid cs"
        have "xs @ b = a # x # y # z # cs @ b" using Cons h(1) by simp
        moreover have "utf8_valid (cs @ b) = utf8_valid b" by (rule step [OF h(6)]) (simp add: Cons h(1))
        ultimately show ?thesis using h(2-5) excl by (simp add: utf8_valid_multi [OF a])
      qed
    qed
  qed simp
qed

lemma unat_utf8 [simp]: "map unat (utf8 s) = codes s"
  by (simp add: utf8_def codes_def unat_of_nat take_bit_eq_mod comp_def)

lemma text_of_utf8 [simp]: "text_of (utf8 s) = s"
  by (simp add: text_of_def utf8_def unat_of_nat take_bit_eq_mod comp_def)

lemma utf8_text_of [simp]: "utf8 (text_of bs) = bs"
proof -
  have "word_of_nat (unat b mod 256) = b" for b :: "8 word"
  proof -
    have "unat b < 2 ^ LENGTH(8)" by (rule unsigned_less)
    then show ?thesis by simp
  qed
  then show ?thesis by (simp add: text_of_def utf8_def comp_def)
qed

lemma codes_append [simp]: "codes (a @ b) = codes a @ codes b" "codes (c # b) = of_char c # codes b" "codes [] = []"
  by (simp_all add: codes_def)

lemma js_text_append: "js_text a \<Longrightarrow> js_text (a @ b) \<longleftrightarrow> js_text b"
  by (simp add: js_text_def utf8_valid_append)

lemma js_text_ascii [simp]: "code_of c < 128 \<Longrightarrow> js_text (c # s) \<longleftrightarrow> js_text s" "js_text []"
  by (simp_all add: js_text_def)

lemma all_ascii: "list_all (\<lambda>c. code_of c < 128) s \<Longrightarrow> js_text s"
  by (induction s) auto

lemma codes_text_of: "codes (text_of xs) = map unat xs"
  using unat_utf8 [of "text_of xs"] by simp

lemma decoded_text: "decode_text bs = Some s \<Longrightarrow> js_text s"
proof -
  assume d: "decode_text bs = Some s"
  then have v: "utf8_valid (map unat bs)" by (auto simp: decode_text_def split: if_splits)
  show "js_text s"
  proof (cases "take 3 bs = [239, 187, 191]")
    case True
    then have "bs = [239, 187, 191] @ drop 3 bs" by (metis append_take_drop_id)
    then have "map unat bs = map unat [239, 187, 191 :: 8 word] @ map unat (drop 3 bs)" by (metis map_append)
    with v have "utf8_valid ([239, 187, 191] @ map unat (drop 3 bs))" by simp
    moreover have "utf8_valid [239, 187, 191]" by (simp add: utf8_valid_multi between_def)
    ultimately have "utf8_valid (map unat (drop 3 bs))" using utf8_valid_append by blast
    moreover have "s = text_of (drop 3 bs)" using d True v by (simp add: decode_text_def)
    ultimately show ?thesis by (simp add: js_text_def codes_text_of)
  next
    case False
    with d v show ?thesis by (auto simp add: decode_text_def js_text_def codes_text_of)
  qed
qed

lemma decode_utf8:
  assumes "js_text s" and "\<not> starts_with s (text_of [239, 187, 191])"
  shows "decode_text (utf8 s) = Some s"
proof -
  have "take 3 (utf8 s) \<noteq> [239, 187, 191]"
  proof
    assume "take 3 (utf8 s) = [239, 187, 191]"
    then have "text_of (take 3 (utf8 s)) = text_of [239, 187, 191]" by simp
    then have "take 3 (text_of (utf8 s)) = text_of [239, 187, 191]" by (simp add: text_of_def take_map)
    then have "take 3 s = text_of [239, 187, 191]" by (simp only: text_of_utf8)
    moreover have "length (text_of [239, 187, 191]) = 3" by (simp add: text_of_def)
    ultimately show False using assms(2) by (simp add: starts_with_def)
  qed
  with assms(1) show ?thesis by (simp add: decode_text_def js_text_def)
qed

text \<open>Escaping replaces ASCII characters by ASCII text and keeps the others.\<close>

lemma mapped_text:
  assumes keep: "\<And>n. n \<ge> 128 \<Longrightarrow> f n = [n]" and ascii: "\<And>n. n < 128 \<Longrightarrow> utf8_valid (f n)"
  shows "utf8_valid xs \<Longrightarrow> utf8_valid (concat (map f xs))"
proof (induction xs rule: length_induct)
  case (1 xs)
  have ih: "utf8_valid cs \<Longrightarrow> length cs < length xs \<Longrightarrow> utf8_valid (concat (map f cs))" for cs using 1(1) by blast
  show ?case
  proof (cases xs)
    case (Cons a bs)
    show ?thesis
    proof (cases "a < 128")
      case True
      with Cons 1(2) ih [of bs] ascii [of a] show ?thesis by (simp add: utf8_valid_append)
    next
      case False
      then have a: "128 \<le> a" by simp
      have high: "f b = [b]" if "between m k b" "128 \<le> m" for m k b using that keep by (simp add: between_def)
      from 1(2) Cons have "utf8_valid (a # bs)" by simp
      then show ?thesis unfolding utf8_valid_multi [OF a]
      proof (elim disjE exE conjE)
        fix x cs assume h: "bs = x # cs" "between 194 223 a" "between 128 191 x" "utf8_valid cs"
        from h(4) have "utf8_valid (concat (map f cs))" by (rule ih) (simp add: Cons h(1))
        with h show ?thesis using high [OF h(3)] keep [OF a] by (simp add: Cons utf8_valid_multi [OF a])
      next
        fix x y cs assume h: "bs = x # y # cs" "between 224 239 a" "between (if a = 224 then 160 else 128) (if a = 237 then 159 else 191) x"
          "between 128 191 y" "utf8_valid cs"
        from h(5) have "utf8_valid (concat (map f cs))" by (rule ih) (simp add: Cons h(1))
        moreover have "f x = [x]" using h(3) by (rule high) simp
        ultimately show ?thesis using h(1-4) high [OF h(4)] keep [OF a] by (simp add: Cons utf8_valid_multi [OF a])
      next
        fix x y z cs assume h: "bs = x # y # z # cs" "between 240 244 a" "between (if a = 240 then 144 else 128) (if a = 244 then 143 else 191) x"
          "between 128 191 y" "between 128 191 z" "utf8_valid cs"
        from h(6) have "utf8_valid (concat (map f cs))" by (rule ih) (simp add: Cons h(1))
        moreover have "f x = [x]" using h(3) by (rule high) simp
        ultimately show ?thesis using h(1-5) high [OF h(4)] high [OF h(5)] keep [OF a] by (simp add: Cons utf8_valid_multi [OF a])
      qed
    qed
  qed simp
qed

lemma escape_text: "js_text s \<Longrightarrow> js_text (concat (map escape_char s))"
proof -
  define f where "f n = (if n < 256 then codes (escape_char (char_of n)) else [n])" for n :: nat
  have hex: "code_of (hex_char n) < 128" if "n < 16" for n using that by (auto simp: hex_char_def)
  have low: "js_text (escape_char c)" if "code_of c < 128" for c
    using that hex [of "code_of c div 16"] hex [of "code_of c mod 16"] by (intro all_ascii) (auto simp: escape_char_def)
  have high: "escape_char c = [c]" if "128 \<le> code_of c" for c
    using that by (auto simp: escape_char_def)
  have "utf8_valid (f n)" if "n < 128" for n
    using that low [of "char_of n"] by (simp add: f_def js_text_def)
  moreover have "f n = [n]" if "128 \<le> n" for n
    using that high [of "char_of n"] by (simp add: f_def)
  moreover have "codes (concat (map escape_char s)) = concat (map f (codes s))"
    by (induction s) (simp_all add: f_def)
  ultimately show "js_text s \<Longrightarrow> js_text (concat (map escape_char s))"
    using mapped_text [of f "codes s"] by (simp add: js_text_def)
qed

lemma js_text_quote: "js_text s \<Longrightarrow> js_text (json_quote s @ t) \<longleftrightarrow> js_text t"
  using js_text_append [OF escape_text [of s], of "CHR 0x22 # t"] by (simp add: json_quote_def)

lemma nat_dec_ascii: "js_text (nat_dec n @ t) \<longleftrightarrow> js_text t"
  using nat_dec_digits [of n] by (intro js_text_append all_ascii) (auto simp: list_all_iff is_digit_def)

lemma int_dec_ascii: "js_text (int_dec i @ t) \<longleftrightarrow> js_text t"
  by (simp add: int_dec_def nat_dec_ascii)

lemma request_text:
  assumes "js_text (nc_model cfg)" and "js_text uuid" and "js_text prompt"
  shows "js_text (stringify (request_json cfg uuid prompt))" and "hd (stringify (request_json cfg uuid prompt)) = CHR 0x7B"
proof -
  have lit: "js_text (''enclave-'' @ uuid)" using assms(2) by simp
  have key: "js_text (json_quote k @ t) \<longleftrightarrow> js_text t" if "js_text k" for k t using that by (rule js_text_quote)
  show "js_text (stringify (request_json cfg uuid prompt))"
    by (simp add: request_json_def encode_object_def encode_array_def key assms lit int_dec_ascii)
  show "hd (stringify (request_json cfg uuid prompt)) = CHR 0x7B"
    by (simp add: request_json_def encode_object_def)
qed

text \<open>\<open>JSON.parse\<close> of what \<open>JSON.stringify\<close> printed, and the URL parser on an origin.\<close>

definition reads_back :: "near_host \<Rightarrow> json \<Rightarrow> bool" where
  "reads_back host v \<longleftrightarrow> nh_parse host (stringify v) = Some v"

definition reads_origin :: "near_host \<Rightarrow> url_parts \<Rightarrow> bool" where
  "reads_origin host u \<longleftrightarrow> nh_url host (base_origin u) =
     Some \<lparr>up_protocol = ''https:'', up_username = [], up_password = [], up_search = [], up_hash = [], up_port = [],
           up_hostname = up_hostname u, up_pathname = ''/''\<rparr>"

definition recovers_addresses :: "crypto \<Rightarrow> bool" where
  "recovers_addresses cx \<longleftrightarrow> (\<forall>m s a. cx_recover cx m s = Some a \<longrightarrow> address_pattern a)"

lemma request_decodes:
  assumes "js_text (nc_model cfg)" "js_text uuid" "js_text prompt"
  shows "decode_text (utf8 (stringify (request_json cfg uuid prompt))) = Some (stringify (request_json cfg uuid prompt))"
proof -
  let ?s = "stringify (request_json cfg uuid prompt)"
  have "\<not> starts_with ?s (text_of [239, 187, 191])"
  proof
    assume "starts_with ?s (text_of [239, 187, 191])"
    then have "take (length (text_of [239, 187, 191])) ?s = text_of [239, 187, 191]" by (simp only: starts_with_def)
    moreover have "hd (take (length (text_of [239, 187, 191])) ?s) = hd ?s" by (cases ?s) (simp_all add: text_of_def)
    moreover have "hd (text_of [239, 187, 191]) = char_of (239 :: nat)" by (simp add: text_of_def)
    ultimately have "char_of (239 :: nat) = CHR 0x7B" using request_text(2) [OF assms] by metis
    then have "code_of (char_of (239 :: nat)) = code_of (CHR 0x7B)" by (rule arg_cong)
    then show False by simp
  qed
  with request_text(1) [OF assms] show ?thesis by (rule decode_utf8)
qed

lemma request_parses:
  assumes "js_text (nc_model cfg)" "js_text uuid" "js_text prompt" and "reads_back host (request_json cfg uuid prompt)"
  shows "parseJson host (utf8 (stringify (request_json cfg uuid prompt))) = Inr (request_json cfg uuid prompt)"
  using request_decodes [OF assms(1-3)] assms(4) by (simp add: parseJson_def reads_back_def)

lemma request_content_json: "request_content (request_json cfg uuid prompt) = Some (nc_model cfg, prompt)"
  by (simp add: request_content_def request_json_def json_text_def json_field_def)

lemma createNearInference_Inr:
  assumes "createNearInference host options = Inr cfg"
  shows "near_hostname (up_hostname (nc_base cfg))" "up_protocol (nc_base cfg) = ''https:''" "up_pathname (nc_base cfg) = ''/v1/''"
    "nc_model cfg = trim (np_model options)"
    "nc_maxRequestBytes cfg \<le> 16777216" "nc_maxResponseBytes cfg \<le> 33554432" "1 \<le> nc_attempts cfg" "nc_attempts cfg \<le> 10"
  using assms
  by (auto simp: createNearInference_def Let_def endpoint_def limit_def elim!: rbind_InrE split: option.splits if_splits)

lemma assertSession_Inr:
  assumes "assertSession host now s = Inr u"
  obtains issued expires where "nh_date host (ns_verifiedAt s) = Some issued" "nh_date host (ns_expiresAt s) = Some expires"
    "issued \<le> now + 30000" "now < expires" "issued < expires" "ns_tlsBound s" "hash_pattern (ns_attestationRef s)"
  using assms by (auto simp: assertSession_def Let_def res_simps split: option.splits)

lemma read_chunks_bound: "read_chunks r maximum n chunks = Inr b \<Longrightarrow> n \<le> maximum \<Longrightarrow> n + int (length b) \<le> maximum"
proof (induction r maximum n chunks arbitrary: b rule: read_chunks.induct)
  case (2 r maximum n chunk chunks)
  from 2(2) obtain c where c: "chunk = Inr c" "(if n + int (length c) > maximum then cancelled r too_long
       else rmap (\<lambda>rest. c @ rest) (read_chunks r maximum (n + int (length c)) chunks)) = Inr b" by (auto simp: res_simps)
  have "\<not> n + int (length c) > maximum" using c(2) by (auto simp: cancelled_def split: sum.splits)
  with c(2) obtain rest where rest: "b = c @ rest" "read_chunks r maximum (n + int (length c)) chunks = Inr rest" by (auto simp: res_simps)
  from 2(1) [OF _ rest(2)] \<open>\<not> n + int (length c) > maximum\<close> rest(1) show ?case by simp
qed simp

lemma readBody_bound: "readBody r maximum = Inr b \<Longrightarrow> 0 \<le> maximum \<Longrightarrow> int (length b) \<le> maximum"
  using read_chunks_bound [of r maximum 0]
  by (auto simp: readBody_def cancelled_def split: option.splits if_splits sum.splits)

lemma read_completion_Inr:
  assumes "read_completion host cfg r = (i, Inr (body, output))"
  obtains v c where "readBody r (nc_maxResponseBytes cfg) = Inr body" "parseJson host body = Inr v" "completionSchema v = Some c"
    "cp_model c = nc_model cfg" "i = Some (cp_id c)" "output = utf8 (hd (cp_contents c))"
  using assms
  by (auto simp: read_completion_def cancelled_def Let_def res_simps split: sum.splits if_splits option.splits prod.splits)

lemma signed_round_Inr:
  assumes "signed_round host cfg s text rd r = Inr (sig, a)"
  shows "recoverCanonicalSignature host text sig = Inr a" "list_ex (\<lambda>x. same x a) (ns_allowedSigners s)"
    "assertSession host (rd_nowDone rd) s = Inr ()" "\<not> rd_abortedDone rd"
  using assms by (auto simp: signed_round_def res_simps)

lemma signature_loop_Inr:
  assumes "signature_loop host cfg s url text rounds i n = (status, events, Inr (sig, a))"
  obtains j r where "i \<le> j" "j < i + n" "signed_round host cfg s text (rounds j) r = Inr (sig, a)" "set events \<subseteq> {SignatureRead url}"
    "length events = j - i + 1" "events \<noteq> []"
  using assms
proof (induction n arbitrary: i status events thesis)
  case (Suc n)
  obtain st fetched res where r: "signature_round host cfg s text (n = 0) (rounds i) = (st, fetched, res)"
    by (cases "signature_round host cfg s text (n = 0) (rounds i)") auto
  show ?case
  proof (cases res)
    case (RoundThrow t)
    with Suc.prems(2) r show ?thesis by (simp add: Let_def)
  next
    case RoundRetry
    obtain st' ev' where rest: "signature_loop host cfg s url text rounds (Suc i) n = (st', ev', Inr (sig, a))"
      and ev: "events = (if fetched then [SignatureRead url] else []) @ ev'"
      using Suc.prems(2) r RoundRetry by (auto simp: Let_def split: prod.splits)
    have "fetched" using r RoundRetry by (auto simp: signature_round_def split: sum.splits if_splits prod.splits)
    from Suc.IH [OF _ rest] obtain j q where "Suc i \<le> j" "j < Suc i + n" "signed_round host cfg s text (rounds j) q = Inr (sig, a)"
      "set ev' \<subseteq> {SignatureRead url}" "length ev' = j - Suc i + 1" by blast
    then show ?thesis using ev \<open>fetched\<close> by (intro Suc.prems(1) [of j q]) auto
  next
    case (RoundSigned x b)
    with r obtain q where "signed_round host cfg s text (rounds i) q = Inr (x, b)" "fetched"
      by (auto simp: signature_round_def split: sum.splits if_splits prod.splits)
    with Suc.prems r RoundSigned show ?thesis by (auto simp: Let_def)
  qed
qed simp

lemma near_attempt_Inr:
  assumes "near_attempt host cfg w requestBody = (p, events, Inr r)"
  obtains s resp i body out status reads sig a where "attested_session host w = Inr s" "nw_post w = Inr resp"
    "read_completion host cfg resp = (i, Inr (body, out))"
    "signature_loop host cfg s (base_href (nc_base cfg) @ ''signature/'' @ or_else i '''' @ ''?signing_algo=ecdsa'')
       (signature_text (nc_model cfg) (near_sha host requestBody) (near_sha host body)) (nw_rounds w) 0 (nat (nc_attempts cfg)) = (status, reads, Inr (sig, a))"
    "events = PostSent (base_href (nc_base cfg) @ ''chat/completions'') (text_of requestBody) # reads"
    "r = \<lparr>nt_output = out,
       nt_evidence = \<lparr>ne_schemaVersion = 1, ne_provider = ''near'', ne_signatureKind = ''provider_tee'', ne_endpoint = base_origin (nc_base cfg),
         ne_model = nc_model cfg, ne_completionId = or_else i '''', ne_requestHash = near_sha host requestBody, ne_responseHash = near_sha host body,
         ne_outputHash = near_sha host out, ne_signatureText = signature_text (nc_model cfg) (near_sha host requestBody) (near_sha host body),
         ne_signature = sig, ne_signingAddress = a,
         ne_attestationRef = ns_attestationRef s, ne_verifiedAt = ns_verifiedAt s, ne_expiresAt = ns_expiresAt s, ne_tlsBound = True\<rparr>,
       nt_requestBody = requestBody, nt_responseBody = body, nt_attestationProof = ns_attestationProof s\<rparr>"
  using assms
  by (auto simp: near_attempt_def Let_def res_simps split: sum.splits prod.splits)

lemma near_infer_answered:
  assumes "near_infer host cfg w plaintext = (NearAnswered r, events)"
  obtains prompt p sent where "decode_text plaintext = Some prompt"
    "near_attempt host cfg w (utf8 (stringify (request_json cfg (nw_uuid w) prompt))) = (p, sent, Inr r)"
    "int (length (utf8 (stringify (request_json cfg (nw_uuid w) prompt)))) \<le> nc_maxRequestBytes cfg"
    "events = sent @ (case nw_session w of Inr s \<Rightarrow> if ns_closable s then [SessionClosed] else [] | Inl _ \<Rightarrow> [])"
  using assms by (auto simp: near_infer_def Let_def split: if_splits option.splits prod.splits sum.splits)

section \<open>Properties\<close>

lemma completion_contents: "completionSchema v = Some c \<Longrightarrow> cp_contents c \<noteq> [] \<and> completion_id_pattern (cp_id c)"
  by (auto simp: completionSchema_def split: option.splits json.splits if_splits)

text \<open>What the adapter returns is evidence anyone can check again: the transcript verification
  accepts every result, whatever the provider, the retries and the clocks did.\<close>

theorem near_answer_verifies:
  assumes "createNearInference host options = Inr cfg" and "near_infer host cfg w plaintext = (NearAnswered r, events)"
    and "js_text (nc_model cfg)" and "js_text (nw_uuid w)"
    and "\<forall>prompt. decode_text plaintext = Some prompt \<longrightarrow> reads_back host (request_json cfg (nw_uuid w) prompt)"
    and "reads_origin host (nc_base cfg)" and "recovers_addresses (nh_crypto host)"
  shows "verifyNearTranscript host (nt_evidence r) (nt_requestBody r) (nt_responseBody r)"
proof -
  note cfg = createNearInference_Inr [OF assms(1)]
  from assms(2) obtain prompt p sent where prompt: "decode_text plaintext = Some prompt"
    and run: "near_attempt host cfg w (utf8 (stringify (request_json cfg (nw_uuid w) prompt))) = (p, sent, Inr r)"
    and size: "int (length (utf8 (stringify (request_json cfg (nw_uuid w) prompt)))) \<le> nc_maxRequestBytes cfg"
    by (rule near_infer_answered)
  define req where "req = utf8 (stringify (request_json cfg (nw_uuid w) prompt))"
  have parsed: "parseJson host req = Inr (request_json cfg (nw_uuid w) prompt)"
    unfolding req_def using request_parses assms(3,4,5) decoded_text [OF prompt] prompt by blast
  from run obtain s resp i body out status reads sig a where s: "attested_session host w = Inr s"
    and comp: "read_completion host cfg resp = (i, Inr (body, out))"
    and loop: "signature_loop host cfg s (base_href (nc_base cfg) @ ''signature/'' @ or_else i '''' @ ''?signing_algo=ecdsa'')
       (signature_text (nc_model cfg) (near_sha host req) (near_sha host body)) (nw_rounds w) 0 (nat (nc_attempts cfg)) = (status, reads, Inr (sig, a))"
    and r: "r = \<lparr>nt_output = out,
       nt_evidence = \<lparr>ne_schemaVersion = 1, ne_provider = ''near'', ne_signatureKind = ''provider_tee'', ne_endpoint = base_origin (nc_base cfg),
         ne_model = nc_model cfg, ne_completionId = or_else i '''', ne_requestHash = near_sha host req, ne_responseHash = near_sha host body,
         ne_outputHash = near_sha host out, ne_signatureText = signature_text (nc_model cfg) (near_sha host req) (near_sha host body),
         ne_signature = sig, ne_signingAddress = a,
         ne_attestationRef = ns_attestationRef s, ne_verifiedAt = ns_verifiedAt s, ne_expiresAt = ns_expiresAt s, ne_tlsBound = True\<rparr>,
       nt_requestBody = req, nt_responseBody = body, nt_attestationProof = ns_attestationProof s\<rparr>"
    unfolding req_def by (rule near_attempt_Inr)
  from comp obtain v c where body: "readBody resp (nc_maxResponseBytes cfg) = Inr body" "parseJson host body = Inr v" "completionSchema v = Some c"
    "cp_model c = nc_model cfg" "i = Some (cp_id c)" "out = utf8 (hd (cp_contents c))" by (rule read_completion_Inr)
  from loop obtain j q where signed: "signed_round host cfg s (signature_text (nc_model cfg) (near_sha host req) (near_sha host body)) (nw_rounds w j) q = Inr (sig, a)"
    by (rule signature_loop_Inr)
  note sig = signed_round_Inr [OF signed]
  obtain issued expires where dates: "nh_date host (ns_verifiedAt s) = Some issued" "nh_date host (ns_expiresAt s) = Some expires" "hash_pattern (ns_attestationRef s)"
    by (rule assertSession_Inr [OF sig(3)])
  have addr: "address_pattern a" using sig(1) assms(7)
    by (auto simp: recoverCanonicalSignature_def Let_def res_simps recovers_addresses_def)
  have req_size: "length req \<le> 16777216" using size cfg(5) by (simp add: req_def)
  have max: "0 \<le> nc_maxResponseBytes cfg" using assms(1) by (auto simp: createNearInference_def Let_def limit_def elim!: rbind_InrE split: if_splits)
  have body_size: "length body \<le> 33554432" using readBody_bound [OF body(1) max] cfg(6) by simp
  have base: "is_ok (endpoint host (base_origin (nc_base cfg)))"
    using assms(6) cfg(1) by (simp add: endpoint_def reads_origin_def)
  then obtain u where u: "endpoint host (base_origin (nc_base cfg)) = Inr u" by (auto simp: is_ok_iff)
  show ?thesis
    unfolding verifyNearTranscript_def transcript_checks_def
    using dates addr req_size body_size u parsed body sig(1)
    by (simp add: r or_else_def request_content_json Let_def)
qed

text \<open>An answer is attested end to end: the prompt was sent exactly once, over the session's
  transport, and an attested signer's key signed the model with the hashes of exactly the sent request and the
  received response, while the attestation had not expired.\<close>

theorem near_answer_attested:
  assumes "near_infer host cfg w plaintext = (NearAnswered r, events)"
  shows "\<exists>s reads now. attested_session host w = Inr s
    \<and> events = PostSent (base_href (nc_base cfg) @ ''chat/completions'') (text_of (nt_requestBody r)) # reads
    \<and> (\<forall>e \<in> set reads. \<forall>u b. e \<noteq> PostSent u b)
    \<and> list_ex (\<lambda>x. same x (ne_signingAddress (nt_evidence r))) (ns_allowedSigners s)
    \<and> recoverCanonicalSignature host (signature_text (nc_model cfg) (near_sha host (nt_requestBody r)) (near_sha host (nt_responseBody r)))
        (ne_signature (nt_evidence r)) = Inr (ne_signingAddress (nt_evidence r))
    \<and> assertSession host now s = Inr () \<and> ne_attestationRef (nt_evidence r) = ns_attestationRef s"
proof -
  from assms obtain prompt p sent where
    run: "near_attempt host cfg w (utf8 (stringify (request_json cfg (nw_uuid w) prompt))) = (p, sent, Inr r)"
    and events: "events = sent @ (case nw_session w of Inr s \<Rightarrow> if ns_closable s then [SessionClosed] else [] | Inl _ \<Rightarrow> [])"
    by (rule near_infer_answered)
  define req where "req = utf8 (stringify (request_json cfg (nw_uuid w) prompt))"
  from run obtain s resp i body out status reads sig a where s: "attested_session host w = Inr s"
    and loop: "signature_loop host cfg s (base_href (nc_base cfg) @ ''signature/'' @ or_else i '''' @ ''?signing_algo=ecdsa'')
       (signature_text (nc_model cfg) (near_sha host req) (near_sha host body)) (nw_rounds w) 0 (nat (nc_attempts cfg)) = (status, reads, Inr (sig, a))"
    and sent: "sent = PostSent (base_href (nc_base cfg) @ ''chat/completions'') (text_of req) # reads"
    and r: "nt_requestBody r = req" "nt_responseBody r = body" "ne_signature (nt_evidence r) = sig" "ne_signingAddress (nt_evidence r) = a"
      "ne_attestationRef (nt_evidence r) = ns_attestationRef s"
    unfolding req_def by (rule near_attempt_Inr) (simp add: that)
  from loop obtain j q where signed: "signed_round host cfg s (signature_text (nc_model cfg) (near_sha host req) (near_sha host body)) (nw_rounds w j) q = Inr (sig, a)"
    and reads: "set reads \<subseteq> {SignatureRead (base_href (nc_base cfg) @ ''signature/'' @ or_else i '''' @ ''?signing_algo=ecdsa'')}"
    by (rule signature_loop_Inr)
  note sig = signed_round_Inr [OF signed]
  let ?closing = "case nw_session w of Inr s \<Rightarrow> if ns_closable s then [SessionClosed] else [] | Inl _ \<Rightarrow> []"
  show ?thesis
  proof (intro exI conjI)
    show "attested_session host w = Inr s" by (rule s)
    show "events = PostSent (base_href (nc_base cfg) @ ''chat/completions'') (text_of (nt_requestBody r)) # (reads @ ?closing)"
      by (simp add: events sent r)
    show "\<forall>e \<in> set (reads @ ?closing). \<forall>u b. e \<noteq> PostSent u b" using reads by (auto split: sum.splits)
    show "assertSession host (rd_nowDone (nw_rounds w j)) s = Inr ()" by (rule sig(3))
  qed (use sig r in simp_all)
qed

definition posts :: "near_event list \<Rightarrow> nat" where
  "posts events = length (filter (\<lambda>e. case e of PostSent _ _ \<Rightarrow> True | _ \<Rightarrow> False) events)"

definition signature_reads :: "near_event list \<Rightarrow> nat" where
  "signature_reads events = length (filter (\<lambda>e. case e of SignatureRead _ \<Rightarrow> True | _ \<Rightarrow> False) events)"

lemma count_append [simp]: "posts (a @ b) = posts a + posts b" "signature_reads (a @ b) = signature_reads a + signature_reads b"
  by (simp_all add: posts_def signature_reads_def)

lemma count_Cons [simp]: "posts [] = 0" "signature_reads [] = 0"
  "posts (PostSent u b # es) = Suc (posts es)" "posts (SignatureRead u # es) = posts es" "posts (SessionClosed # es) = posts es"
  "signature_reads (PostSent u b # es) = signature_reads es" "signature_reads (SignatureRead u # es) = Suc (signature_reads es)"
  "signature_reads (SessionClosed # es) = signature_reads es"
  by (simp_all add: posts_def signature_reads_def)

lemma signature_loop_reads:
  "signature_loop host cfg s url text rounds i n = (status, events, res) \<Longrightarrow> posts events = 0 \<and> signature_reads events \<le> n"
proof (induction n arbitrary: i status events res)
  case (Suc n)
  obtain st fetched q where r: "signature_round host cfg s text (n = 0) (rounds i) = (st, fetched, q)"
    by (cases "signature_round host cfg s text (n = 0) (rounds i)") auto
  show ?case
  proof (cases q)
    case RoundRetry
    obtain st' ev' res' where rest: "signature_loop host cfg s url text rounds (Suc i) n = (st', ev', res')"
      by (cases "signature_loop host cfg s url text rounds (Suc i) n") auto
    with Suc.IH [OF rest] Suc.prems r RoundRetry show ?thesis by (auto simp: Let_def split: if_splits)
  qed (use Suc.prems r in \<open>auto simp: Let_def split: if_splits\<close>)
qed simp

text \<open>What an attempt sent, against how far it reports to have got.\<close>

lemma near_attempt_progress:
  assumes "near_attempt host cfg w requestBody = (p, events, res)"
  shows "posts events = (if pr_posted p then 1 else 0)" "signature_reads events \<le> nat (nc_attempts cfg)"
    "pr_phase p = PhAttestation \<longleftrightarrow> \<not> pr_posted p" "pr_posted p \<longleftrightarrow> is_ok (attested_session host w)"
    "signature_reads events > 0 \<longrightarrow> pr_phase p = PhSignature" "pr_phase p = PhSignature \<longrightarrow> pr_completion p \<noteq> None"
proof -
  have "posts events = (if pr_posted p then 1 else 0) \<and> signature_reads events \<le> nat (nc_attempts cfg)
    \<and> (pr_phase p = PhAttestation \<longleftrightarrow> \<not> pr_posted p) \<and> (pr_posted p \<longleftrightarrow> is_ok (attested_session host w))
    \<and> (signature_reads events > 0 \<longrightarrow> pr_phase p = PhSignature) \<and> (pr_phase p = PhSignature \<longrightarrow> pr_completion p \<noteq> None)"
  proof (cases "attested_session host w")
    case (Inl t)
    with assms show ?thesis by (auto simp: near_attempt_def Let_def)
  next
    case s: (Inr s)
    show ?thesis
    proof (cases "nw_post w")
      case (Inl t)
      with s assms show ?thesis by (auto simp: near_attempt_def Let_def)
    next
      case r: (Inr r)
      obtain i c where c: "read_completion host cfg r = (i, c)" by (cases "read_completion host cfg r") auto
      show ?thesis
      proof (cases c)
        case (Inl t)
        with s r c assms show ?thesis by (auto simp: near_attempt_def Let_def)
      next
        case d: (Inr d)
        obtain body out where d': "d = (body, out)" by (cases d) auto
        obtain status reads q where loop: "signature_loop host cfg s (base_href (nc_base cfg) @ ''signature/'' @ or_else i '''' @ ''?signing_algo=ecdsa'')
          (signature_text (nc_model cfg) (near_sha host requestBody) (near_sha host body)) (nw_rounds w) 0 (nat (nc_attempts cfg)) = (status, reads, q)"
          by (metis prod_cases3)
        have "i \<noteq> None" using read_completion_Inr [of host cfg r i body out] c d d' by auto
        with s r c d d' loop signature_loop_reads [OF loop] assms show ?thesis by (auto simp: near_attempt_def Let_def)
      qed
    qed
  qed
  then show "posts events = (if pr_posted p then 1 else 0)" "signature_reads events \<le> nat (nc_attempts cfg)"
    "pr_phase p = PhAttestation \<longleftrightarrow> \<not> pr_posted p" "pr_posted p \<longleftrightarrow> is_ok (attested_session host w)"
    "signature_reads events > 0 \<longrightarrow> pr_phase p = PhSignature" "pr_phase p = PhSignature \<longrightarrow> pr_completion p \<noteq> None" by blast+
qed

text \<open>Claim C15. A failed inference reports exactly what left the process: it says that the prompt was posted if
  and only if it was, which needs a session that passed every attestation check; nothing is posted twice, the
  signature is read at most as often as configured, and the client sees only the adapter's own two error codes.\<close>

theorem near_failure_reports_dispatch:
  assumes "near_infer host cfg w plaintext = (NearFailed e f, events)"
  shows "posts events = (if nf_postAttempted f then 1 else 0) \<and> (nf_postAttempted f \<longleftrightarrow> is_ok (attested_session host w))
    \<and> (nf_phase f = PhAttestation \<longleftrightarrow> \<not> nf_postAttempted f) \<and> signature_reads events \<le> nat (nc_attempts cfg)
    \<and> (signature_reads events > 0 \<longrightarrow> nf_completionId f \<noteq> None)
    \<and> error_code e \<in> {''NEAR_VERIFICATION_FAILED'', ''NEAR_INFERENCE_TIMEOUT''}"
proof -
  let ?closing = "case nw_session w of Inr s \<Rightarrow> if ns_closable s then [SessionClosed] else [] | Inl _ \<Rightarrow> []"
  from assms obtain prompt p sent t where
    run: "near_attempt host cfg w (utf8 (stringify (request_json cfg (nw_uuid w) prompt))) = (p, sent, Inl t)"
    and caught: "near_caught w p t = (e, f)" and events: "events = sent @ ?closing"
    by (auto simp: near_infer_def Let_def split: if_splits option.splits prod.splits sum.splits)
  note progress = near_attempt_progress [OF run]
  have f: "nf_postAttempted f = pr_posted p" "nf_phase f = pr_phase p" "nf_completionId f = pr_completion p"
    "error_code e \<in> {''NEAR_VERIFICATION_FAILED'', ''NEAR_INFERENCE_TIMEOUT''}"
    using caught by (auto simp: near_caught_def Let_def split: near_throw.splits if_splits)
  have closing: "posts ?closing = 0" "signature_reads ?closing = 0" by (auto split: sum.splits)
  show ?thesis using progress f closing by (auto simp: events)
qed

section \<open>A worked call\<close>

text \<open>The provider answers, its signature is unavailable once and then signed by the attested key.\<close>

definition demo_signer :: string where
  "demo_signer = ''0x'' @ replicate 40 (CHR ''1'')"

definition demo_near_signature :: string where
  "demo_near_signature = ''0x'' @ replicate 64 (CHR ''0'') @ replicate 63 (CHR ''0'') @ ''1'' @ ''1b''"

definition demo_near_crypto :: crypto where
  "demo_near_crypto = demo_crypto\<lparr>cx_sha := (\<lambda>_. replicate 32 0), cx_recover := (\<lambda>_ _. Some demo_signer)\<rparr>"

definition demo_near_options :: near_options where
  "demo_near_options = \<lparr>np_baseUrl = ''https://cloud-api.near.ai'', np_model = ''m'', np_apiKey = ''k'', np_verifier = True, np_timeoutMs = None,
     np_maxRequestBytes = None, np_maxResponseBytes = None, np_maxOutputBytes = None, np_maxTokens = None, np_enableThinking = None,
     np_maxSignatureAttempts = None, np_signatureRetryDelayMs = None\<rparr>"

definition demo_base :: url_parts where
  "demo_base = \<lparr>up_protocol = ''https:'', up_username = [], up_password = [], up_search = [], up_hash = [], up_port = [],
     up_hostname = ''cloud-api.near.ai'', up_pathname = ''/v1/''\<rparr>"

definition demo_near_config :: near_config where
  "demo_near_config = \<lparr>nc_base = demo_base, nc_model = ''m'', nc_apiKey = ''k'', nc_timeoutMs = 30000, nc_maxRequestBytes = 1048576,
     nc_maxResponseBytes = 8388608, nc_maxOutputBytes = 1048576, nc_maxTokens = 1024, nc_enableThinking = False, nc_attempts = 5, nc_retryDelayMs = 250\<rparr>"

definition demo_request :: json where
  "demo_request = request_json demo_near_config ''u'' ''q''"

definition demo_completion :: json where
  "demo_completion = JObj [(''id'', JStr ''c''), (''model'', JStr ''m''), (''choices'', JArr [JObj [(''message'', JObj [(''content'', JStr ''a'')])]])]"

definition demo_zero_hash :: string where
  "demo_zero_hash = ''0x'' @ replicate 64 (CHR ''0'')"

definition demo_proof_payload :: json where
  "demo_proof_payload = JObj [(''text'', JStr (signature_text ''m'' demo_zero_hash demo_zero_hash)), (''signature'', JStr demo_near_signature),
     (''signing_address'', JStr demo_signer), (''signing_algo'', JStr ''ecdsa''), (''signature_kind'', JStr ''provider_tee'')]"

text \<open>The report of the provider, the verdict on it and the proof kept of both.\<close>

definition demo_report :: json where
  "demo_report = JObj [(''gateway_attestation'', JObj [(''request_nonce'', JStr (drop 2 demo_zero_hash)), (''tls_cert_fingerprint'', JStr (drop 2 demo_zero_hash))]),
     (''model_attestations'', JArr [JNull])]"

definition demo_verdict :: json where
  "demo_verdict = JObj [(''ok'', JBool True), (''signingAddress'', JStr demo_signer), (''tlsSpkiSha256'', JStr (drop 2 demo_zero_hash)),
     (''attestationRef'', JStr demo_zero_hash), (''verifiedAt'', JStr ''a''), (''expiresAt'', JStr ''b''), (''allowedSigners'', JArr [JStr demo_signer])]"

definition demo_attestation :: string where
  "demo_attestation = stringify (JObj [(''report'', demo_report), (''verdict'', demo_verdict), (''policy'', JObj []), (''policyHash'', JStr demo_zero_hash)])"

definition demo_near_host :: near_host where
  "demo_near_host = \<lparr>nh_crypto = demo_near_crypto,
     nh_parse = (\<lambda>s. if s = ''R'' then Some demo_completion else if s = ''S'' then Some demo_proof_payload
                     else if s = ''G'' then Some demo_report else if s = ''V'' then Some demo_verdict else if s = ''P'' then Some (JObj [])
                     else if s = stringify demo_request then Some demo_request else None),
     nh_date = (\<lambda>s. if s = ''a'' then Some 0 else if s = ''b'' then Some 1000 else None),
     nh_url = (\<lambda>s. if s = ''https://cloud-api.near.ai'' then Some (demo_base\<lparr>up_pathname := ''/''\<rparr>) else None)\<rparr>"

definition demo_session :: near_session where
  "demo_session = \<lparr>ns_allowedSigners = [demo_signer], ns_attestationRef = demo_zero_hash, ns_verifiedAt = ''a'', ns_expiresAt = ''b'', ns_tlsBound = True,
     ns_hasFetch = True, ns_attestationProof = Some demo_attestation, ns_closable = True\<rparr>"

definition demo_reply :: "int \<Rightarrow> string \<Rightarrow> near_response" where
  "demo_reply status body = \<lparr>rp_status = status, rp_redirected = False, rp_origin = None, rp_length = None, rp_body = Some [Inr (utf8 body)], rp_cancel = Inr ()\<rparr>"

definition demo_round :: "nat \<Rightarrow> near_round" where
  "demo_round i = \<lparr>rd_now = 500, rd_response = Inr (if i = 0 then demo_reply 503 '''' else demo_reply 200 ''S''), rd_delay = Inr (),
     rd_abortedRecover = False, rd_nowDone = 500, rd_abortedDone = False\<rparr>"

definition demo_near_world :: "(near_throw + near_response) \<Rightarrow> near_world" where
  "demo_near_world post = \<lparr>nw_uuid = ''u'', nw_session = Inr demo_session, nw_now = 500, nw_aborted = False, nw_post = post, nw_rounds = demo_round,
     nw_abortedCaught = False\<rparr>"

lemma demo_patterns: "hash_pattern demo_zero_hash" "address_pattern demo_signer" "\<not> zero_address demo_signer" "hex_string 130 demo_near_signature"
  by (simp_all add: hash_pattern_def address_pattern_def zero_address_def hex_string_def demo_zero_hash_def demo_signer_def demo_near_signature_def
      is_hex_digit_def is_lower_hex_digit_def is_digit_def lower_def lower_char_def list_all_iff)

lemma demo_created: "createNearInference demo_near_host demo_near_options = Inr demo_near_config"
  by (simp add: createNearInference_def demo_near_options_def demo_near_host_def endpoint_def demo_base_def near_hostname_def trim_def is_space_def
      utf16_length_def line_break_def limit_def or_else_def is_safe_integer_def max_safe_def demo_near_config_def)

lemma demo_attestation_size: "length demo_attestation \<le> 4194304"
  by (simp add: demo_attestation_def demo_report_def demo_verdict_def demo_zero_hash_def demo_signer_def encode_object_def encode_array_def
      json_quote_def escape_char_def)

lemma demo_session_ok: "assertSession demo_near_host 500 demo_session = Inr ()"
  using demo_patterns demo_attestation_size by (simp add: assertSession_def demo_near_host_def demo_session_def)

lemma demo_recovers:
  assumes "nh_crypto host = demo_near_crypto"
  shows "recoverCanonicalSignature host text demo_near_signature = Inr demo_signer"
proof -
  have "take 64 (drop 66 demo_near_signature) = replicate 63 (CHR ''0'') @ ''1''" "drop 130 demo_near_signature = ''1b''"
    by (simp_all add: demo_near_signature_def)
  moreover have "hex_number (replicate n (CHR ''0'') @ ''1'') = 1" for n
    by (induction n) (simp_all add: hex_number_def hex_value_def is_digit_def)
  moreover have "hex_number ''1b'' = 27" by (simp add: hex_number_def hex_value_def is_digit_def)
  ultimately show ?thesis using demo_patterns
    by (simp add: recoverCanonicalSignature_def Let_def halfCurveOrder_def assms) (simp add: demo_near_crypto_def)
qed

lemma demo_hash:
  assumes "nh_crypto host = demo_near_crypto"
  shows "near_sha host b = demo_zero_hash"
proof -
  have zero: "hex_char 0 = CHR ''0''" by (code_simp)
  have "concat (map hex_of_byte (replicate n 0)) = replicate (2 * n) (CHR ''0'')" for n
    by (induction n) (simp_all add: hex_of_byte_def zero)
  from this [of 32] show ?thesis by (simp add: near_sha_def assms) (simp add: demo_near_crypto_def sha256Hex_def toHex_def demo_zero_hash_def)
qed

lemma demo_host_crypto [simp]: "nh_crypto demo_near_host = demo_near_crypto"
  by (simp add: demo_near_host_def)

lemma demo_text: "decode_text (utf8 ''R'') = Some ''R''" "decode_text (utf8 ''S'') = Some ''S''" "decode_text (utf8 ''q'') = Some ''q''"
  by (rule decode_utf8; simp add: starts_with_def text_of_def)+

lemma demo_read: "read_completion demo_near_host demo_near_config (demo_reply 200 ''R'') = (Some ''c'', Inr (utf8 ''R'', utf8 ''a''))"
proof -
  have "parseJson demo_near_host (utf8 ''R'') = Inr demo_completion" by (simp add: parseJson_def demo_text demo_near_host_def)
  moreover have "readBody (demo_reply 200 ''R'') 8388608 = Inr (utf8 ''R'')" by (simp add: readBody_def demo_reply_def utf8_def)
  moreover have "completionSchema demo_completion = Some \<lparr>cp_id = ''c'', cp_model = ''m'', cp_contents = [''a'']\<rparr>"
    by (simp add: completionSchema_def demo_completion_def json_text_def json_field_def choice_content_def completion_id_pattern_def is_letter_def)
  moreover have "int (length (utf8 ''a'')) = 1" by (simp add: utf8_def)
  ultimately show ?thesis
    by (simp add: read_completion_def demo_near_config_def assertResponseOrigin_def, simp add: demo_reply_def)
qed

definition demo_near_events :: "near_event list" where
  "demo_near_events = [PostSent ''https://cloud-api.near.ai/v1/chat/completions'' (stringify demo_request),
     SignatureRead ''https://cloud-api.near.ai/v1/signature/c?signing_algo=ecdsa'', SignatureRead ''https://cloud-api.near.ai/v1/signature/c?signing_algo=ecdsa'',
     SessionClosed]"

lemma demo_signed: "signed_round demo_near_host demo_near_config demo_session (signature_text ''m'' demo_zero_hash demo_zero_hash) (demo_round (Suc i)) (demo_reply 200 ''S'')
    = Inr (demo_near_signature, demo_signer)"
proof -
  have "readBody (demo_reply 200 ''S'') 16384 = Inr (utf8 ''S'')" by (simp add: readBody_def demo_reply_def utf8_def)
  moreover have "parseJson demo_near_host (utf8 ''S'') = Inr demo_proof_payload" by (simp add: parseJson_def demo_text demo_near_host_def)
  moreover have "utf16_length (signature_text ''m'' demo_zero_hash demo_zero_hash) \<le> 1024"
    by (simp add: utf16_length_def signature_text_def demo_zero_hash_def)
  then have "signatureSchema demo_proof_payload
      = Some \<lparr>sg_text = signature_text ''m'' demo_zero_hash demo_zero_hash, sg_signature = demo_near_signature, sg_address = demo_signer, sg_kind = Some ''provider_tee''\<rparr>"
    using demo_patterns by (simp add: signatureSchema_def demo_proof_payload_def json_text_def json_field_def)
  moreover have "list_ex (\<lambda>a. same a demo_signer) (ns_allowedSigners demo_session)" by (simp add: demo_session_def)
  moreover have "rd_abortedRecover (demo_round (Suc i)) = False" "rd_abortedDone (demo_round (Suc i)) = False" "rd_nowDone (demo_round (Suc i)) = 500"
    by (simp_all add: demo_round_def)
  ultimately show ?thesis by (simp add: signed_round_def demo_recovers demo_session_ok)
qed

lemma demo_loop:
  "\<exists>status. signature_loop demo_near_host demo_near_config demo_session url (signature_text ''m'' demo_zero_hash demo_zero_hash) demo_round 0 5
    = (status, [SignatureRead url, SignatureRead url], Inr (demo_near_signature, demo_signer))"
proof -
  let ?text = "signature_text ''m'' demo_zero_hash demo_zero_hash"
  have now: "rd_now (demo_round i) = 500" for i by (simp add: demo_round_def)
  have "signature_round demo_near_host demo_near_config demo_session ?text False (demo_round 0) = (Some 503, True, RoundRetry)"
    unfolding signature_round_def now demo_session_ok
    by (simp add: demo_round_def demo_reply_def http_status_def assertResponseOrigin_def)
  moreover have reply: "rd_response (demo_round (Suc 0)) = Inr (demo_reply 200 ''S'')" by (simp add: demo_round_def)
  have "signature_round demo_near_host demo_near_config demo_session ?text False (demo_round (Suc 0)) = (Some 200, True, RoundSigned demo_near_signature demo_signer)"
    unfolding signature_round_def now demo_session_ok reply using demo_signed [of 0]
    by (simp add: http_status_def assertResponseOrigin_def, simp add: demo_reply_def)
  ultimately show ?thesis by (simp add: numeral_eq_Suc)
qed

lemma demo_sent: "attested_session demo_near_host (demo_near_world post) = Inr demo_session"
  by (simp add: attested_session_def demo_near_world_def demo_session_ok)

lemma demo_request_size: "length (utf8 (stringify (request_json demo_near_config ''u'' ''q''))) \<le> 1000"
  by (simp add: request_json_def demo_near_config_def encode_object_def encode_array_def json_quote_def escape_char_def utf8_def int_dec_def nat_dec.simps)

lemma demo_answered:
  "\<exists>r. near_infer demo_near_host demo_near_config (demo_near_world (Inr (demo_reply 200 ''R''))) (utf8 ''q'') = (NearAnswered r, demo_near_events)
     \<and> nt_output r = utf8 ''a''"
proof -
  let ?w = "demo_near_world (Inr (demo_reply 200 ''R''))"
  let ?url = "''https://cloud-api.near.ai/v1/signature/c?signing_algo=ecdsa''"
  have w: "nw_uuid ?w = ''u''" "nw_post ?w = Inr (demo_reply 200 ''R'')" "nw_rounds ?w = demo_round" "nw_session ?w = Inr demo_session"
    by (simp_all add: demo_near_world_def)
  have cfg: "nc_maxRequestBytes demo_near_config = 1048576" "nc_model demo_near_config = ''m''" "nat (nc_attempts demo_near_config) = 5"
    "base_href (nc_base demo_near_config) = ''https://cloud-api.near.ai/v1/''"
    by (simp_all add: demo_near_config_def base_href_def base_origin_def demo_base_def)
  have size: "length (utf8 ''q'') = 1" by (simp add: utf8_def)
  obtain status where loop: "signature_loop demo_near_host demo_near_config demo_session ?url (signature_text ''m'' demo_zero_hash demo_zero_hash) demo_round 0 5
    = (status, [SignatureRead ?url, SignatureRead ?url], Inr (demo_near_signature, demo_signer))" using demo_loop by blast
  have close: "ns_closable demo_session" by (simp add: demo_session_def)
  show ?thesis
    using demo_request_size loop
    by (simp add: near_infer_def cfg w size demo_text Let_def near_attempt_def demo_sent demo_read demo_hash or_else_def close demo_near_events_def demo_request_def)
qed

lemma demo_reads_back: "reads_back demo_near_host demo_request"
proof -
  have "hd (stringify demo_request) = CHR 0x7B" unfolding demo_request_def by (rule request_text(2)) (simp_all add: demo_near_config_def)
  then have "stringify demo_request \<noteq> [c]" if "c \<noteq> CHR 0x7B" for c using that by auto
  then show ?thesis by (simp add: reads_back_def demo_near_host_def)
qed

theorem near_answer_verifies_witness:
  "\<exists>r. near_infer demo_near_host demo_near_config (demo_near_world (Inr (demo_reply 200 ''R''))) (utf8 ''q'') = (NearAnswered r, demo_near_events)
     \<and> verifyNearTranscript demo_near_host (nt_evidence r) (nt_requestBody r) (nt_responseBody r)"
proof -
  obtain r where r: "near_infer demo_near_host demo_near_config (demo_near_world (Inr (demo_reply 200 ''R''))) (utf8 ''q'') = (NearAnswered r, demo_near_events)"
    using demo_answered by blast
  have "js_text (nc_model demo_near_config)" "js_text (nw_uuid (demo_near_world (Inr (demo_reply 200 ''R''))))"
    by (simp_all add: demo_near_config_def demo_near_world_def)
  moreover have "nw_uuid (demo_near_world (Inr (demo_reply 200 ''R''))) = ''u''" by (simp add: demo_near_world_def)
  then have "\<forall>prompt. decode_text (utf8 ''q'') = Some prompt \<longrightarrow> reads_back demo_near_host (request_json demo_near_config (nw_uuid (demo_near_world (Inr (demo_reply 200 ''R'')))) prompt)"
    using demo_reads_back by (simp add: demo_text demo_request_def)
  moreover have "reads_origin demo_near_host (nc_base demo_near_config)"
    by (simp add: reads_origin_def demo_near_host_def demo_near_config_def demo_base_def base_origin_def)
  moreover have "recovers_addresses (nh_crypto demo_near_host)"
    using demo_patterns by (simp add: recovers_addresses_def demo_near_host_def demo_near_crypto_def)
  ultimately show ?thesis using near_answer_verifies [OF demo_created r] r by blast
qed

theorem near_answer_attested_witness:
  "\<exists>r :: near_result. list_ex (\<lambda>x. same x (ne_signingAddress (nt_evidence r))) [demo_signer] \<and> nt_output r = utf8 ''a''"
proof -
  obtain r where r: "near_infer demo_near_host demo_near_config (demo_near_world (Inr (demo_reply 200 ''R''))) (utf8 ''q'') = (NearAnswered r, demo_near_events)"
    "nt_output r = utf8 ''a''" using demo_answered by blast
  have "ns_allowedSigners demo_session = [demo_signer]" by (simp add: demo_session_def)
  with near_answer_attested [OF r(1)] have "list_ex (\<lambda>x. same x (ne_signingAddress (nt_evidence r))) [demo_signer]" by (auto simp: demo_sent)
  with r(2) show ?thesis by (intro exI [of _ r]) simp
qed

theorem near_failure_reports_dispatch_witness:
  "\<exists>e f events. near_infer demo_near_host demo_near_config (demo_near_world (Inl (HookThrow ''socket''))) (utf8 ''q'') = (NearFailed e f, events)
     \<and> posts events = 1 \<and> nf_postAttempted f"
proof -
  let ?w = "demo_near_world (Inl (HookThrow ''socket''))"
  have "nc_maxRequestBytes demo_near_config = 1048576" "nw_uuid ?w = ''u''" "nw_post ?w = Inl (HookThrow ''socket'')" "length (utf8 ''q'') = 1"
    by (simp_all add: demo_near_config_def demo_near_world_def utf8_def)
  then obtain e f events where f: "near_infer demo_near_host demo_near_config ?w (utf8 ''q'') = (NearFailed e f, events)"
    using demo_request_size by (cases "near_caught ?w \<lparr>pr_phase = PhDispatch, pr_posted = True, pr_status = None, pr_completion = None\<rparr> (HookThrow ''socket'')")
      (simp add: near_infer_def demo_text Let_def near_attempt_def demo_sent)
  have "is_ok (attested_session demo_near_host ?w)" by (simp add: demo_sent)
  with near_failure_reports_dispatch [OF f] f show ?thesis by auto
qed

end
