(* ===== verification/X402_Protocol.thy ===== *)
theory X402_Protocol
  imports Core_Attestation
begin

text \<open>
  What a payer signs and what the API accepts: the x402 version 2 exact scheme of
  \<open>api/src/x402-v2.ts\<close>, the direct USDC authorization of \<open>api/src/authorization.ts\<close> and the chain
  proof of \<open>api/src/settlement-proof.ts\<close>.

  The parsed request is a record: the \<open>strict\<close> object schemas refuse unknown fields before this
  point, and each \<open>refine\<close> and \<open>regex\<close> is a predicate here. Parameters (\<open>x402_env\<close>, \<open>proof_rpc\<close>) are
  the URL parser, the UUID schema, \<open>getAddress\<close>, EIP-712 verification and the RPC node; a call that
  throws is \<open>None\<close>. Every failure of a validator becomes the same error, as in the code.
\<close>

section \<open>Data\<close>

record x402_requirements =
  rq_scheme :: string
  rq_network :: string
  rq_amount :: string
  rq_asset :: string
  rq_payTo :: string
  rq_maxTimeoutSeconds :: int
  rq_assetTransferMethod :: string
  rq_name :: string
  rq_version :: string
  rq_enclavePaymentId :: string

record x402_resource =
  rs_url :: string
  rs_description :: "string option"
  rs_mimeType :: "string option"

record x402_required =
  xq_resource :: x402_resource
  xq_accepts :: x402_requirements

record transfer_fields =
  tf_from :: string
  tf_to :: string
  tf_value :: string
  tf_validAfter :: string
  tf_validBefore :: string
  tf_nonce :: string

record transfer_authorization = transfer_fields +
  tf_signature :: string

record x402_payload =
  xp_resource :: "x402_resource option"
  xp_accepted :: x402_requirements
  xp_authorization :: transfer_fields
  xp_signature :: string

record typed_transfer =
  td_name :: string
  td_version :: string
  td_chainId :: int
  td_verifyingContract :: string
  td_from :: string
  td_to :: string
  td_value :: int
  td_validAfter :: int
  td_validBefore :: int
  td_nonce :: string

record url_parts =
  ur_protocol :: string
  ur_username :: string
  ur_password :: string
  ur_hash :: string

record x402_env =
  xe_url :: "string \<Rightarrow> url_parts option"
  xe_uuid :: "string \<Rightarrow> bool"
  xe_getAddress :: "string \<Rightarrow> string option"
  xe_verifyTypedData :: "typed_transfer \<Rightarrow> string \<Rightarrow> string \<Rightarrow> bool option"
  xe_keccak :: hash_fun

section \<open>Schemas\<close>

definition max_uint256 :: int where
  "max_uint256 = 2 ^ 256 - 1"

definition max_canonical_s :: int where
  "max_canonical_s = 0x7fffffffffffffffffffffffffffffff5d576e7357a4501ddfe92f46681b20a0"

definition zero_address :: string where
  "zero_address = ''0x'' @ replicate 40 (CHR ''0'')"

definition address_ok :: "string \<Rightarrow> bool" where
  "address_ok s \<longleftrightarrow> hex_string 40 s \<and> lower s \<noteq> zero_address"

text \<open>\<open>/^(0|[1-9]\d{0,77})$/\<close> with a value of at most 256 bits.\<close>

definition uint_ok :: "string \<Rightarrow> bool" where
  "uint_ok s \<longleftrightarrow> dec_string 78 s \<and> (s = ''0'' \<or> hd s \<noteq> CHR ''0'') \<and> int (dec_number s) \<le> max_uint256"

definition network_ok :: "string \<Rightarrow> bool" where
  "network_ok s \<longleftrightarrow> starts_with s ''eip155:'' \<and> drop 7 s \<noteq> [] \<and> list_all is_digit (drop 7 s)
     \<and> hd (drop 7 s) \<noteq> CHR ''0''"

definition requirements_ok :: "x402_env \<Rightarrow> x402_requirements \<Rightarrow> bool" where
  "requirements_ok env r \<longleftrightarrow> rq_scheme r = ''exact'' \<and> network_ok (rq_network r)
     \<and> uint_ok (rq_amount r) \<and> dec_number (rq_amount r) > 0
     \<and> address_ok (rq_asset r) \<and> address_ok (rq_payTo r)
     \<and> 0 < rq_maxTimeoutSeconds r \<and> rq_maxTimeoutSeconds r \<le> 3600
     \<and> rq_assetTransferMethod r = ''eip3009'' \<and> rq_name r \<noteq> [] \<and> rq_version r \<noteq> []
     \<and> xe_uuid env (rq_enclavePaymentId r)"

definition transfer_fields_ok :: "('a transfer_fields_scheme) \<Rightarrow> bool" where
  "transfer_fields_ok a \<longleftrightarrow> address_ok (tf_from a) \<and> address_ok (tf_to a) \<and> uint_ok (tf_value a)
     \<and> uint_ok (tf_validAfter a) \<and> uint_ok (tf_validBefore a) \<and> isHex32 (tf_nonce a)"

definition payload_ok :: "x402_env \<Rightarrow> x402_payload \<Rightarrow> bool" where
  "payload_ok env p \<longleftrightarrow>
     (case xp_resource p of None \<Rightarrow> True | Some r \<Rightarrow> xe_url env (rs_url r) \<noteq> None)
     \<and> requirements_ok env (xp_accepted p) \<and> transfer_fields_ok (xp_authorization p)
     \<and> hex_string 130 (xp_signature p)"

section \<open>The x402 version 2 messages\<close>

definition x402_invalid :: enclave_error where
  "x402_invalid = ValidationError ''payment''"

definition caip2 :: "int \<Rightarrow> enclave_error + string" where
  "caip2 chainId = (if \<bar>chainId\<bar> > max_safe \<or> chainId \<le> 0 then Inl x402_invalid
     else Inr (''eip155:'' @ int_dec chainId))"

record required_input =
  ri_resourceUrl :: string
  ri_paymentId :: string
  ri_chainId :: int
  ri_amount :: int
  ri_asset :: string
  ri_payTo :: string
  ri_domainName :: string
  ri_domainVersion :: string
  ri_maxTimeoutSeconds :: "int option"

definition x402_timeout_seconds :: int where
  "x402_timeout_seconds = 300"

definition plain_http :: "url_parts \<Rightarrow> bool" where
  "plain_http u \<longleftrightarrow> ur_protocol u \<in> {''http:'', ''https:''} \<and> ur_username u = [] \<and> ur_password u = []
     \<and> ur_hash u = []"

definition createPaymentRequired :: "x402_env \<Rightarrow> required_input \<Rightarrow> enclave_error + x402_required" where
  "createPaymentRequired env i =
     rbind (of_option x402_invalid (xe_url env (ri_resourceUrl i))) (\<lambda>url.
     rbind (require (plain_http url) x402_invalid) (\<lambda>_.
     rbind (caip2 (ri_chainId i)) (\<lambda>network.
     rbind (of_option x402_invalid (xe_getAddress env (ri_asset i))) (\<lambda>asset.
     rbind (of_option x402_invalid (xe_getAddress env (ri_payTo i))) (\<lambda>payTo.
     let r = \<lparr>rq_scheme = ''exact'', rq_network = network, rq_amount = int_dec (ri_amount i),
           rq_asset = asset, rq_payTo = payTo,
           rq_maxTimeoutSeconds = (case ri_maxTimeoutSeconds i of Some t \<Rightarrow> t | None \<Rightarrow> x402_timeout_seconds),
           rq_assetTransferMethod = ''eip3009'', rq_name = ri_domainName i, rq_version = ri_domainVersion i,
           rq_enclavePaymentId = ri_paymentId i\<rparr> in
     rbind (require (requirements_ok env r) x402_invalid) (\<lambda>_.
       Inr \<lparr>xq_resource = \<lparr>rs_url = ri_resourceUrl i,
              rs_description = Some ''Encrypted ENCLAVE inference'', rs_mimeType = Some ''application/json''\<rparr>,
            xq_accepts = r\<rparr>))))))"

definition transferTypedData ::
  "x402_requirements \<Rightarrow> transfer_authorization \<Rightarrow> enclave_error + typed_transfer" where
  "transferTypedData expected auth =
     (let chainId = int (dec_number (drop 7 (rq_network expected))) in
      rbind (caip2 chainId) (\<lambda>network.
      if network \<noteq> rq_network expected then Inl x402_invalid
      else Inr \<lparr>td_name = rq_name expected, td_version = rq_version expected, td_chainId = chainId,
        td_verifyingContract = rq_asset expected, td_from = tf_from auth, td_to = tf_to auth,
        td_value = int (dec_number (tf_value auth)), td_validAfter = int (dec_number (tf_validAfter auth)),
        td_validBefore = int (dec_number (tf_validBefore auth)), td_nonce = tf_nonce auth\<rparr>))"

text \<open>The \<open>s\<close> and \<open>v\<close> parts of a 65-byte signature in hexadecimal.\<close>

definition signature_s :: "string \<Rightarrow> int" where
  "signature_s sig = int (hex_number (take 64 (drop 66 sig)))"

definition signature_v :: "string \<Rightarrow> int" where
  "signature_v sig = int (hex_number (drop 130 sig))"

definition resource_matches :: "x402_payload \<Rightarrow> x402_required \<Rightarrow> bool" where
  "resource_matches payload expected =
     (case xp_resource payload of None \<Rightarrow> True
      | Some r \<Rightarrow> rs_url r = rs_url (xq_resource expected)
          \<and> rs_description r = rs_description (xq_resource expected)
          \<and> rs_mimeType r = rs_mimeType (xq_resource expected))"

definition accepted_matches :: "x402_requirements \<Rightarrow> x402_requirements \<Rightarrow> bool" where
  "accepted_matches a e \<longleftrightarrow> rq_scheme a = rq_scheme e \<and> rq_network a = rq_network e \<and> rq_amount a = rq_amount e
     \<and> same (rq_asset a) (rq_asset e) \<and> same (rq_payTo a) (rq_payTo e)
     \<and> rq_maxTimeoutSeconds a = rq_maxTimeoutSeconds e
     \<and> rq_assetTransferMethod a = rq_assetTransferMethod e \<and> rq_name a = rq_name e
     \<and> rq_version a = rq_version e \<and> rq_enclavePaymentId a = rq_enclavePaymentId e"

definition in_window :: "transfer_authorization \<Rightarrow> int \<Rightarrow> int \<Rightarrow> bool" where
  "in_window auth now maxTimeout \<longleftrightarrow> int (dec_number (tf_validAfter auth)) < now
     \<and> now < int (dec_number (tf_validBefore auth))
     \<and> int (dec_number (tf_validBefore auth)) \<le> now + maxTimeout"

definition validateExactPayload ::
  "x402_env \<Rightarrow> x402_payload \<Rightarrow> x402_required \<Rightarrow> js_number \<Rightarrow> bool \<Rightarrow> enclave_error + transfer_authorization" where
  "validateExactPayload env payload expected nowSeconds allowExpired =
     (let e = xq_accepts expected; a = xp_accepted payload; f = xp_authorization payload;
          auth = \<lparr>tf_from = tf_from f, tf_to = tf_to f, tf_value = tf_value f,
            tf_validAfter = tf_validAfter f, tf_validBefore = tf_validBefore f, tf_nonce = tf_nonce f,
            tf_signature = xp_signature payload\<rparr> in
      rbind (require (payload_ok env payload) x402_invalid) (\<lambda>_.
      rbind (require (requirements_ok env e) x402_invalid) (\<lambda>_.
      rbind (require (resource_matches payload expected) x402_invalid) (\<lambda>_.
      rbind (require (accepted_matches a e) x402_invalid) (\<lambda>_.
      rbind (require (same (tf_to auth) (rq_payTo e) \<and> tf_value auth = rq_amount e
          \<and> dec_number (tf_validAfter auth) < dec_number (tf_validBefore auth)) x402_invalid) (\<lambda>_.
      rbind (require (is_safe_integer nowSeconds \<and> int_of nowSeconds \<ge> 0) x402_invalid) (\<lambda>_.
      rbind (require (allowExpired \<or> in_window auth (int_of nowSeconds) (rq_maxTimeoutSeconds e)) x402_invalid) (\<lambda>_.
      rbind (require (signature_s (tf_signature auth) \<noteq> 0 \<and> signature_s (tf_signature auth) \<le> max_canonical_s
          \<and> signature_v (tf_signature auth) \<in> {27, 28}) x402_invalid) (\<lambda>_.
      rbind (transferTypedData e auth) (\<lambda>typed.
      rbind (of_option x402_invalid (xe_verifyTypedData env typed (tf_from auth) (tf_signature auth))) (\<lambda>verified.
      rbind (require verified x402_invalid) (\<lambda>_.
      rbind (of_option x402_invalid (xe_getAddress env (tf_from auth))) (\<lambda>from.
      rbind (of_option x402_invalid (xe_getAddress env (tf_to auth))) (\<lambda>to.
        Inr (auth\<lparr>tf_from := from, tf_to := to, tf_nonce := lower (tf_nonce auth),
               tf_signature := lower (tf_signature auth)\<rparr>)))))))))))))))"

section \<open>Direct USDC authorizations\<close>

record payment_authorization =
  pa_from :: string
  pa_validAfter :: string
  pa_validBefore :: string
  pa_signature :: string

record auth_config =
  ac_domainName :: string
  ac_domainVersion :: string
  ac_chainId :: int
  ac_usdc :: string
  ac_meter :: string

definition authorizationError :: enclave_error where
  "authorizationError = ValidationError ''authorization''"

definition uint256 :: "string \<Rightarrow> enclave_error + int" where
  "uint256 value =
     (if \<not> dec_string 78 value then Inl authorizationError
      else if int (dec_number value) > max_uint256 then Inl authorizationError
      else Inr (int (dec_number value)))"

definition authorizationData ::
  "x402_env \<Rightarrow> auth_config \<Rightarrow> string \<Rightarrow> int \<Rightarrow> string \<Rightarrow> string \<Rightarrow> string \<Rightarrow> enclave_error + typed_transfer" where
  "authorizationData env config paymentId amount from validAfter validBefore =
     rbind (uint256 validAfter) (\<lambda>after.
     rbind (uint256 validBefore) (\<lambda>before.
       if paymentId = [] \<or> amount \<le> 0 \<or> amount > max_uint256 \<or> \<not> address_ok from \<or> after \<ge> before
       then Inl authorizationError
       else Inr \<lparr>td_name = ac_domainName config, td_version = ac_domainVersion config,
              td_chainId = ac_chainId config, td_verifyingContract = ac_usdc config, td_from = from,
              td_to = ac_meter config, td_value = amount, td_validAfter = after, td_validBefore = before,
              td_nonce = toHex (xe_keccak env (utf8 paymentId))\<rparr>))"

definition validateAuthorization ::
  "x402_env \<Rightarrow> auth_config \<Rightarrow> string \<Rightarrow> int \<Rightarrow> payment_authorization \<Rightarrow> int \<Rightarrow> enclave_error + unit" where
  "validateAuthorization env config paymentId amount auth nowSeconds =
     rbind (authorizationData env config paymentId amount (pa_from auth) (pa_validAfter auth) (pa_validBefore auth)) (\<lambda>data.
     if td_validAfter data \<ge> nowSeconds \<or> td_validBefore data \<le> nowSeconds then Inl authorizationError
     else if \<not> hex_string 130 (pa_signature auth) then Inl authorizationError
     else if signature_s (pa_signature auth) > max_canonical_s \<or> signature_v (pa_signature auth) \<notin> {27, 28}
     then Inl authorizationError
     else require (xe_verifyTypedData env data (pa_from auth) (pa_signature auth) = Some True) authorizationError)"

section \<open>Chain proof of a settlement\<close>

record settled_event =
  se_address :: string
  se_payer :: string
  se_amount :: int
  se_receiptHash :: string
  se_confidential :: bool

record chain_receipt =
  cr_hash :: string
  cr_status :: string
  cr_blockNumber :: int
  cr_blockHash :: string
  cr_settled :: "settled_event list"

record proof_rpc =
  pr_chainId :: "int option"
  pr_genesisHash :: "string option"
  pr_receipt :: "string \<Rightarrow> chain_receipt option"
  pr_blockHash :: "int \<Rightarrow> string option"
  pr_head :: "int option"

record settle_config =
  sc_configChainId :: int
  sc_usdc :: string
  sc_usageMeter :: string
  sc_deployer :: string
  sc_confirmations :: "int option"

text \<open>An RPC call that fails throws; the model gives it one error.\<close>

definition rpc_failed :: enclave_error where
  "rpc_failed = PlainError ''RPC request failed''"

definition settlementScope :: "settle_config \<Rightarrow> proof_rpc \<Rightarrow> enclave_error + string" where
  "settlementScope config rpc =
     rbind (of_option rpc_failed (pr_chainId rpc)) (\<lambda>chain.
     rbind (require (chain = sc_configChainId config) (ConflictError ''Settlement RPC chain mismatch'')) (\<lambda>_.
     rbind (of_option rpc_failed (pr_genesisHash rpc)) (\<lambda>genesis.
       Inr (join '':'' [int_dec (sc_configChainId config), genesis, lower (sc_usdc config),
              lower (sc_usageMeter config), lower (sc_deployer config)]))))"

definition confirmations_for :: "settle_config \<Rightarrow> int" where
  "confirmations_for config =
     (case sc_confirmations config of Some d \<Rightarrow> d
      | None \<Rightarrow> if sc_configChainId config \<in> {31337, 1337} then 0 else 12)"

record proof_input =
  pi_paymentId :: string
  pi_txHash :: string
  pi_amount :: int
  pi_confidential :: bool
  pi_payer :: "string option"

definition settles :: "settle_config \<Rightarrow> hash_fun \<Rightarrow> proof_input \<Rightarrow> settled_event \<Rightarrow> bool" where
  "settles config keccak input event \<longleftrightarrow>
     same (se_address event) (sc_usageMeter config)
     \<and> same (se_payer event) (case pi_payer input of Some p \<Rightarrow> p | None \<Rightarrow> sc_deployer config)
     \<and> se_receiptHash event = toHex (keccak (utf8 (pi_paymentId input)))
     \<and> se_confidential event = pi_confidential input
     \<and> se_amount event = (if pi_confidential input then 0 else pi_amount input)"

definition verifySettlementProof ::
  "settle_config \<Rightarrow> hash_fun \<Rightarrow> proof_rpc \<Rightarrow> proof_input \<Rightarrow> enclave_error + unit" where
  "verifySettlementProof config keccak rpc input =
     rbind (require (isHex32 (pi_txHash input)) (ConflictError ''Payment transaction hash missing'')) (\<lambda>_.
     rbind (of_option rpc_failed (pr_receipt rpc (pi_txHash input))) (\<lambda>receipt.
     rbind (of_option rpc_failed (pr_blockHash rpc (cr_blockNumber receipt))) (\<lambda>block.
     rbind (of_option rpc_failed (pr_head rpc)) (\<lambda>head.
     rbind (require (same (cr_hash receipt) (pi_txHash input) \<and> cr_status receipt = ''success''
         \<and> block = cr_blockHash receipt \<and> head \<ge> cr_blockNumber receipt + confirmations_for config)
         (ConflictError ''Payment is not confirmed on the canonical chain'')) (\<lambda>_.
       require (list_ex (settles config keccak input) (cr_settled receipt))
         (ConflictError ''Transaction does not prove the requested payment''))))))"

section \<open>What an accepted payment commits to\<close>

lemma dec_number_int_dec: "0 \<le> i \<Longrightarrow> int (dec_number (int_dec i)) = i"
  by (simp add: int_dec_def dec_number_nat_dec)

lemma createPaymentRequired_Inr:
  assumes "createPaymentRequired env i = Inr expected"
  shows "requirements_ok env (xq_accepts expected)"
    and "caip2 (ri_chainId i) = Inr (rq_network (xq_accepts expected))"
    and "rq_amount (xq_accepts expected) = int_dec (ri_amount i)"
    and "rq_enclavePaymentId (xq_accepts expected) = ri_paymentId i"
    and "xe_getAddress env (ri_asset i) = Some (rq_asset (xq_accepts expected))"
    and "xe_getAddress env (ri_payTo i) = Some (rq_payTo (xq_accepts expected))"
    and "rq_name (xq_accepts expected) = ri_domainName i"
    and "rq_version (xq_accepts expected) = ri_domainVersion i"
  using assms unfolding createPaymentRequired_def Let_def
  by (elim rbind_InrE; auto simp: require_Inr_iff of_option_Inr_iff)+

lemma caip2_Inr: "caip2 n = Inr s \<longleftrightarrow> 0 < n \<and> n \<le> max_safe \<and> s = ''eip155:'' @ int_dec n"
  by (auto simp: caip2_def)

lemma required_amount:
  assumes "createPaymentRequired env i = Inr expected"
  shows "int (dec_number (rq_amount (xq_accepts expected))) = ri_amount i" and "0 < ri_amount i"
proof -
  note r = createPaymentRequired_Inr [OF assms]
  have digits: "list_all is_digit (int_dec (ri_amount i))"
    using r(1,3) by (simp add: requirements_ok_def uint_ok_def dec_string_def)
  have "\<not> ri_amount i < 0"
  proof
    assume "ri_amount i < 0"
    with digits show False by (simp add: int_dec_def is_digit_def)
  qed
  then show "int (dec_number (rq_amount (xq_accepts expected))) = ri_amount i"
    by (simp add: r(3) dec_number_int_dec)
  with r(1) show "0 < ri_amount i" by (simp add: requirements_ok_def)
qed

lemma required_chain:
  assumes "createPaymentRequired env i = Inr expected"
  shows "int (dec_number (drop 7 (rq_network (xq_accepts expected)))) = ri_chainId i"
  using createPaymentRequired_Inr(2) [OF assms] by (auto simp: caip2_Inr dec_number_int_dec)

lemma validateExactPayload_Inr:
  assumes "validateExactPayload env payload expected now allowExpired = Inr auth"
  obtains typed signed where "transferTypedData (xq_accepts expected) signed = Inr typed"
    and "xe_verifyTypedData env typed (tf_from signed) (tf_signature signed) = Some True"
    and "same (tf_to signed) (rq_payTo (xq_accepts expected))"
    and "tf_value signed = rq_amount (xq_accepts expected)"
    and "accepted_matches (xp_accepted payload) (xq_accepts expected)"
    and "\<not> allowExpired \<longrightarrow> in_window signed (int_of now) (rq_maxTimeoutSeconds (xq_accepts expected))"
    and "xe_getAddress env (tf_from signed) = Some (tf_from auth)"
    and "tf_value auth = tf_value signed" and "tf_validBefore auth = tf_validBefore signed"
    and "tf_signature auth = lower (tf_signature signed)" and "tf_signature signed = xp_signature payload"
  using assms that unfolding validateExactPayload_def Let_def
  by (elim rbind_InrE) (auto simp: require_Inr_iff of_option_Inr_iff)

text \<open>
  A payment payload that the API accepts carries a verified signature of the payer over
  precisely the challenge the API issued: its amount, token contract, chain, token domain and
  recipient, for the same payment id; and, unless an already persisted authorization is replayed,
  only inside the signed validity window.
\<close>

theorem accepted_payload_signs_challenge:
  assumes "createPaymentRequired env i = Inr expected"
    and "validateExactPayload env payload expected now allowExpired = Inr auth"
  shows "\<exists>typed from. xe_verifyTypedData env typed from (xp_signature payload) = Some True
     \<and> xe_getAddress env from = Some (tf_from auth)
     \<and> td_value typed = ri_amount i \<and> 0 < td_value typed \<and> td_chainId typed = ri_chainId i
     \<and> td_name typed = ri_domainName i \<and> td_version typed = ri_domainVersion i
     \<and> xe_getAddress env (ri_asset i) = Some (td_verifyingContract typed)
     \<and> (\<exists>payTo. xe_getAddress env (ri_payTo i) = Some payTo \<and> same (td_to typed) payTo)
     \<and> rq_enclavePaymentId (xp_accepted payload) = ri_paymentId i
     \<and> (allowExpired \<or> (td_validAfter typed < int_of now \<and> int_of now < td_validBefore typed))"
  using assms(2)
proof (rule validateExactPayload_Inr)
  fix typed signed
  assume t: "transferTypedData (xq_accepts expected) signed = Inr typed"
    and v: "xe_verifyTypedData env typed (tf_from signed) (tf_signature signed) = Some True"
    and to: "same (tf_to signed) (rq_payTo (xq_accepts expected))"
    and val: "tf_value signed = rq_amount (xq_accepts expected)"
    and acc: "accepted_matches (xp_accepted payload) (xq_accepts expected)"
    and win: "\<not> allowExpired \<longrightarrow> in_window signed (int_of now) (rq_maxTimeoutSeconds (xq_accepts expected))"
    and payer: "xe_getAddress env (tf_from signed) = Some (tf_from auth)"
    and sig: "tf_signature signed = xp_signature payload"
  note r = createPaymentRequired_Inr [OF assms(1)]
  from t have typed: "td_value typed = int (dec_number (tf_value signed))"
    "td_chainId typed = int (dec_number (drop 7 (rq_network (xq_accepts expected))))"
    "td_name typed = rq_name (xq_accepts expected)" "td_version typed = rq_version (xq_accepts expected)"
    "td_verifyingContract typed = rq_asset (xq_accepts expected)" "td_to typed = tf_to signed"
    "td_validAfter typed = int (dec_number (tf_validAfter signed))"
    "td_validBefore typed = int (dec_number (tf_validBefore signed))"
    by (auto simp: transferTypedData_def Let_def rbind_Inr_iff split: if_splits)
  show ?thesis
    using v payer to val acc win r(4-8) required_amount [OF assms(1)] required_chain [OF assms(1)]
    by (intro exI [of _ typed] exI [of _ "tf_from signed"])
       (auto simp: typed sig accepted_matches_def in_window_def)
qed

definition demo_x402 :: x402_env where
  "demo_x402 = \<lparr>xe_url = (\<lambda>u. Some \<lparr>ur_protocol = ''https:'', ur_username = [], ur_password = [], ur_hash = []\<rparr>),
     xe_uuid = (\<lambda>_. True), xe_getAddress = Some, xe_verifyTypedData = (\<lambda>_ _ _. Some True),
     xe_keccak = (\<lambda>d. take 32 (d @ replicate 32 0))\<rparr>"

definition demo_signature :: string where
  "demo_signature = ''0x'' @ replicate 127 (CHR ''0'') @ ''11b''"

definition demo_input :: required_input where
  "demo_input = \<lparr>ri_resourceUrl = ''https://a'', ri_paymentId = ''p'', ri_chainId = 5, ri_amount = 7,
     ri_asset = ''0x'' @ replicate 40 (CHR ''1''), ri_payTo = ''0x'' @ replicate 40 (CHR ''2''),
     ri_domainName = ''USDC'', ri_domainVersion = ''2'', ri_maxTimeoutSeconds = None\<rparr>"

definition demo_payload :: "x402_required \<Rightarrow> x402_payload" where
  "demo_payload expected = \<lparr>xp_resource = None, xp_accepted = xq_accepts expected,
     xp_authorization = \<lparr>tf_from = ''0x'' @ replicate 40 (CHR ''3''), tf_to = ''0x'' @ replicate 40 (CHR ''2''),
       tf_value = ''7'', tf_validAfter = ''1'', tf_validBefore = ''9'', tf_nonce = ''0x'' @ replicate 64 (CHR ''4'')\<rparr>,
     xp_signature = demo_signature\<rparr>"

lemma demo_x402_accepts:
  "\<exists>expected auth. createPaymentRequired demo_x402 demo_input = Inr expected
     \<and> validateExactPayload demo_x402 (demo_payload expected) expected (JInt 3) False = Inr auth"
proof -
  have "is_ok (rbind (createPaymentRequired demo_x402 demo_input) (\<lambda>expected.
      validateExactPayload demo_x402 (demo_payload expected) expected (JInt 3) False))"
    by code_simp
  then show ?thesis by (auto simp: is_ok_iff rbind_Inr_iff)
qed

theorem accepted_payload_signs_challenge_witness:
  "\<exists>typed :: typed_transfer. td_value typed = 7 \<and> td_chainId typed = 5 \<and> td_validAfter typed < 3"
proof -
  obtain expected auth where "createPaymentRequired demo_x402 demo_input = Inr expected"
    "validateExactPayload demo_x402 (demo_payload expected) expected (JInt 3) False = Inr auth"
    using demo_x402_accepts by blast
  from accepted_payload_signs_challenge [OF this] show ?thesis by (simp add: demo_input_def) blast
qed

end
