(* ===== verification/Payments.thy ===== *)
theory Payments
  imports X402_Protocol
begin

text \<open>
  The payment life cycle of \<open>api/src/gateway.ts\<close> (opening, settlement by the direct and the x402
  protocol, recovery, consumption, mandates) and \<open>reopenStuckSettling\<close> of \<open>worker/src/jobs.ts\<close>,
  over the tables \<open>payments\<close> and \<open>mandates\<close> of \<open>db/src/schema.ts\<close>.

  A settlement is three committed transactions with an external call between the first two: the
  claim, the transfer on chain, and the finalisation or the failure update; they are separate
  functions here, so that other workers can run in between, and \<open>performSettlement\<close> and
  \<open>settleX402ForKey\<close> compose them. What the code awaits inside a transaction (deployment scope,
  provider admission, signature checks) is a result in the record \<open>pay_world\<close>; \<open>todayKey()\<close> and
  \<open>Date.now()\<close> are read once per transaction. \<open>authorization_json\<close> holds the value it encodes.
\<close>

section \<open>State\<close>

record x402_stored =
  xs_required :: x402_required
  xs_fromBlock :: string
  xs_authorization :: "transfer_authorization option"
  xs_from :: "string option"
  xs_fundingTx :: "string option"
  xs_admission :: "(string \<times> string) option"

datatype auth_doc = DirectAuth payment_authorization | X402Doc x402_stored

record payment_row =
  py_id :: string
  py_keyHash :: string
  py_amountUnits :: int
  py_status :: string
  py_settleTx :: "string option"
  py_settlingStartedAt :: "int option"
  py_receiptHash :: "string option"
  py_intentKey :: "string option"
  py_requestHash :: "string option"
  py_agentId :: "string option"
  py_listingId :: "int option"
  py_authorization :: "auth_doc option"
  py_settlementMode :: "string option"
  py_mandateDayKey :: "string option"
  py_chainScope :: "string option"
  py_confidential :: bool

record mandate_row =
  mn_agent :: string
  mn_snapshot :: mandate_snapshot

record pay_state =
  pt_payments :: "payment_row list"
  pt_mandates :: "mandate_row list"

type_synonym 'a pay_tx = "pay_state \<Rightarrow> enclave_error + ('a \<times> pay_state)"

record pay_config =
  pc_paymentMode :: string
  pc_meterConfigured :: bool
  pc_chainId :: int
  pc_priceUnits :: int
  pc_usdc :: string
  pc_usageMeter :: string
  pc_feeVault :: string
  pc_domainName :: string
  pc_domainVersion :: string

record pay_world =
  pw_now :: int
  pw_day :: string
  pw_scope :: "enclave_error + string"
  pw_admission :: "enclave_error + unit"
  pw_x402Admission :: "transfer_authorization \<Rightarrow> enclave_error + (string \<times> string)"

text \<open>\<open>row.agentId ?? keyHash\<close>: whose mandate pays.\<close>

definition holder :: "payment_row \<Rightarrow> string" where
  "holder r = (case py_agentId r of Some a \<Rightarrow> a | None \<Rightarrow> py_keyHash r)"

definition payment_by_id :: "string \<Rightarrow> pay_state \<Rightarrow> payment_row option" where
  "payment_by_id pid s = select_row (\<lambda>r. py_id r = pid) (pt_payments s)"

definition update_payments ::
  "(payment_row \<Rightarrow> bool) \<Rightarrow> (payment_row \<Rightarrow> payment_row) \<Rightarrow> pay_state \<Rightarrow> pay_state" where
  "update_payments P f s = s\<lparr>pt_payments := update_rows P f (pt_payments s)\<rparr>"

section \<open>Opening and consuming\<close>

definition paymentChallenge :: "pay_config \<Rightarrow> string \<Rightarrow> enclave_error + x402_requirement" where
  "paymentChallenge cfg paymentId =
     paymentRequiredBody \<lparr>pr_network = ''arc-'' @ int_dec (pc_chainId cfg), pr_amountUnits = pc_priceUnits cfg,
       pr_payTo = (if pc_paymentMode cfg = ''authorized'' then pc_usageMeter cfg else pc_feeVault cfg),
       pr_asset = pc_usdc cfg, pr_paymentId = paymentId\<rparr>"

definition open_row ::
  "string \<Rightarrow> string \<Rightarrow> int \<Rightarrow> string option \<Rightarrow> string \<Rightarrow> string option \<Rightarrow> int option \<Rightarrow> payment_row" where
  "open_row fresh keyHash amount intentKey requestHash agentId listingId =
     \<lparr>py_id = fresh, py_keyHash = keyHash, py_amountUnits = amount, py_status = ''open'', py_settleTx = None,
      py_settlingStartedAt = None, py_receiptHash = None, py_intentKey = intentKey,
      py_requestHash = Some requestHash, py_agentId = agentId, py_listingId = listingId,
      py_authorization = None, py_settlementMode = None, py_mandateDayKey = None, py_chainScope = None,
      py_confidential = False\<rparr>"

text \<open>
  The unique index on owner and intent key. A racing insert that loses to it is answered by the same
  lookup as the one before the insert, so one atomic step covers both; an empty key is not looked up.
\<close>

definition payment_intent :: "payment_row \<Rightarrow> (string \<times> string) option" where
  "payment_intent r = map_option (Pair (py_keyHash r)) (py_intentKey r)"

definition existing_intent :: "string \<Rightarrow> string option \<Rightarrow> pay_state \<Rightarrow> payment_row option" where
  "existing_intent keyHash intentKey s =
     (case intentKey of
        None \<Rightarrow> None
      | Some k \<Rightarrow> if k = [] then None
                  else select_row (\<lambda>r. py_keyHash r = keyHash \<and> py_intentKey r = Some k) (pt_payments s))"

definition openPayment ::
  "string \<Rightarrow> string \<Rightarrow> int \<Rightarrow> string option \<Rightarrow> string \<Rightarrow> string option \<Rightarrow> int option \<Rightarrow> payment_row pay_tx" where
  "openPayment fresh keyHash amount intentKey requestHash agentId listingId s =
     (case existing_intent keyHash intentKey s of
        Some existing \<Rightarrow>
          if py_requestHash existing \<noteq> Some requestHash
          then Inl (ConflictError ''Idempotency key already bound to a different request'')
          else Inr (existing, s)
      | None \<Rightarrow>
          (let row = open_row fresh keyHash amount intentKey requestHash agentId listingId
           in if payment_intent row \<noteq> None \<and> list_ex (\<lambda>r. payment_intent r = payment_intent row) (pt_payments s)
              then Inl (PlainError ''duplicate key value'')
              else Inr (row, s\<lparr>pt_payments := pt_payments s @ [row]\<rparr>)))"

definition payment_required :: "pay_config \<Rightarrow> string \<Rightarrow> enclave_error" where
  "payment_required cfg paymentId =
     (case paymentChallenge cfg paymentId of
        Inr body \<Rightarrow> PaymentRequiredError ''USDC payment required'' body
      | Inl e \<Rightarrow> e)"

text \<open>
  \<open>proofs\<close> is the result of re-verifying scope, funding and settlement proofs of a row. The row is
  selected \<open>FOR UPDATE\<close>, so the conditional update after it always finds it again; the same holds of
  the mandate row in \<open>assertMandateTx\<close>.
\<close>

definition consumePayment ::
  "pay_config \<Rightarrow> (payment_row \<Rightarrow> enclave_error + unit) \<Rightarrow> string \<Rightarrow> string \<Rightarrow> int \<Rightarrow> string \<Rightarrow> bool \<Rightarrow> unit pay_tx" where
  "consumePayment cfg proofs keyHash paymentId amount requestHash validateOnly s =
     (case payment_by_id paymentId s of
        None \<Rightarrow> Inl (NotFoundError ''payment'' paymentId)
      | Some row \<Rightarrow>
          if py_keyHash row \<noteq> keyHash then Inl (NotFoundError ''payment'' paymentId)
          else if (case py_requestHash row of None \<Rightarrow> False | Some h \<Rightarrow> h \<noteq> [] \<and> h \<noteq> requestHash)
          then Inl (ConflictError ''Payment is bound to a different request'')
          else if py_status row \<noteq> ''settled'' then Inl (payment_required cfg paymentId)
          else if py_amountUnits row < amount then Inl (payment_required cfg paymentId)
          else rbind (if py_settlementMode row \<noteq> None \<and> py_settlementMode row \<noteq> Some ''simulated''
                      then proofs row else Inr ()) (\<lambda>_.
            if validateOnly then Inr ((), s)
            else Inr ((), update_payments (\<lambda>r. py_id r = paymentId \<and> py_status r = ''settled'')
                   (\<lambda>r. r\<lparr>py_status := ''consumed''\<rparr>) s)))"

text \<open>\<open>tx.update(payments).set({ receiptHash })\<close> of \<open>infer\<close>.\<close>

definition linkReceipt :: "string \<Rightarrow> string \<Rightarrow> pay_state \<Rightarrow> pay_state" where
  "linkReceipt paymentId typedHash =
     update_payments (\<lambda>r. py_id r = paymentId) (\<lambda>r. r\<lparr>py_receiptHash := Some typedHash\<rparr>)"

section \<open>Mandates\<close>

definition assertMandateTx :: "string \<Rightarrow> string \<Rightarrow> int \<Rightarrow> unit pay_tx" where
  "assertMandateTx day agent amount s =
     (case select_row (\<lambda>m. mn_agent m = agent) (pt_mandates s) of
        None \<Rightarrow> Inr ((), s)
      | Some row \<Rightarrow>
          rmap (\<lambda>next_snapshot. ((), s\<lparr>pt_mandates := update_rows (\<lambda>m. mn_agent m = agent)
                 (\<lambda>m. m\<lparr>mn_snapshot := next_snapshot\<lparr>dailyLimitUnits := dailyLimitUnits (mn_snapshot m)\<rparr>\<rparr>)
                 (pt_mandates s)\<rparr>))
            (reserveMandate (mn_snapshot row) day amount))"

definition refundMandate :: "string \<Rightarrow> string \<Rightarrow> int \<Rightarrow> pay_state \<Rightarrow> pay_state" where
  "refundMandate agent day amount s =
     s\<lparr>pt_mandates := update_rows (\<lambda>m. mn_agent m = agent \<and> dayKey (mn_snapshot m) = day)
         (\<lambda>m. m\<lparr>mn_snapshot := (mn_snapshot m)\<lparr>spentTodayUnits :=
                  max 0 (spentTodayUnits (mn_snapshot m) - amount)\<rparr>\<rparr>) (pt_mandates s)\<rparr>"

text \<open>The mandate row that \<open>createAgent\<close> inserts for a fresh agent id.\<close>

definition createAgentMandate :: "string \<Rightarrow> int \<Rightarrow> string \<Rightarrow> pay_state \<Rightarrow> pay_state" where
  "createAgentMandate agentId limit day s =
     s\<lparr>pt_mandates := pt_mandates s @ [\<lparr>mn_agent = agentId,
         mn_snapshot = \<lparr>dailyLimitUnits = limit, spentTodayUnits = 0, dayKey = day\<rparr>\<rparr>]\<rparr>"

section \<open>Direct settlement\<close>

datatype settle_claim = AlreadySettled string payment_row | Claimed payment_row

definition confidential_available :: "pay_config \<Rightarrow> bool \<Rightarrow> bool" where
  "confidential_available cfg confidential \<longleftrightarrow>
     \<not> confidential \<or> (pc_paymentMode cfg = ''mock'' \<and> pc_chainId cfg \<in> {31337, 1337})"

definition current_scope :: "pay_config \<Rightarrow> pay_world \<Rightarrow> enclave_error + string option" where
  "current_scope cfg w = (if pc_meterConfigured cfg then rmap Some (pw_scope w) else Inr None)"

definition admit_open ::
  "pay_config \<Rightarrow> pay_world \<Rightarrow> (payment_authorization \<Rightarrow> enclave_error + unit) \<Rightarrow> bool \<Rightarrow>
     payment_authorization option \<Rightarrow> payment_row \<Rightarrow> unit pay_tx" where
  "admit_open cfg w validate confidential authorization row s =
     rbind (if pc_paymentMode cfg = ''authorized''
            then (case authorization of
                    None \<Rightarrow> Inl (ValidationError ''authorization'')
                  | Some auth \<Rightarrow> validate auth)
            else Inr ()) (\<lambda>_.
     rbind (require (\<not> (confidential \<and> py_agentId row \<noteq> None)) (ValidationError ''confidential'')) (\<lambda>_.
     rbind (pw_admission w) (\<lambda>_.
       assertMandateTx (pw_day w) (holder row) (py_amountUnits row) s)))"

definition admit_recovery ::
  "string option \<Rightarrow> bool \<Rightarrow> payment_authorization option \<Rightarrow> payment_row \<Rightarrow> unit pay_tx" where
  "admit_recovery currentScope confidential authorization row s =
     (if py_chainScope row \<noteq> currentScope
      then Inl (ConflictError ''Payment settlement deployment has changed'')
      else if confidential \<noteq> py_confidential row
      then Inl (ConflictError ''Settlement mode cannot change during recovery'')
      else if authorization \<noteq> None \<and> py_authorization row \<noteq> map_option DirectAuth authorization
      then Inl (ConflictError ''Payment authorization cannot change during recovery'')
      else Inr ((), s))"

definition settling_row ::
  "pay_config \<Rightarrow> pay_world \<Rightarrow> string option \<Rightarrow> bool \<Rightarrow> payment_authorization option \<Rightarrow> payment_row \<Rightarrow> payment_row" where
  "settling_row cfg w currentScope confidential authorization row =
     row\<lparr>py_status := ''settling'', py_settlingStartedAt := Some (pw_now w),
         py_settlementMode := nullish (py_settlementMode row)
           (Some (if pc_meterConfigured cfg then pc_paymentMode cfg else ''simulated'')),
         py_authorization := nullish (py_authorization row) (map_option DirectAuth authorization),
         py_mandateDayKey := nullish (py_mandateDayKey row) (Some (pw_day w)),
         py_confidential := confidential, py_chainScope := currentScope\<rparr>"

definition claimSettlement ::
  "pay_config \<Rightarrow> pay_world \<Rightarrow> (payment_row \<Rightarrow> payment_authorization \<Rightarrow> enclave_error + unit) \<Rightarrow> string option \<Rightarrow>
     string \<Rightarrow> string \<Rightarrow> bool \<Rightarrow> payment_authorization option \<Rightarrow> settle_claim pay_tx" where
  "claimSettlement cfg w validate currentScope keyHash paymentId confidential authorization s =
     (case payment_by_id paymentId s of
        None \<Rightarrow> Inl (NotFoundError ''payment'' paymentId)
      | Some row \<Rightarrow>
          if py_keyHash row \<noteq> keyHash then Inl (NotFoundError ''payment'' paymentId)
          else if py_settlementMode row = Some ''x402''
          then Inl (ConflictError ''x402 v2 payments must use their original protocol'')
          else if py_status row = ''settled''
          then Inr (AlreadySettled (case py_settleTx row of Some t \<Rightarrow> t | None \<Rightarrow> []) row, s)
          else if py_status row = ''consumed'' then Inl (ConflictError ''Payment already consumed'')
          else if py_status row \<noteq> ''open''
               \<and> \<not> (py_status row = ''settlement_unknown'' \<and> py_settlementMode row \<noteq> None)
          then Inl (ConflictError (''Payment is '' @ py_status row))
          else rbind (if py_status row = ''open''
                      then admit_open cfg w (validate row) confidential authorization row s
                      else admit_recovery currentScope confidential authorization row s) (\<lambda>(_, s1).
            Inr (Claimed (settling_row cfg w currentScope confidential authorization row),
                 update_payments (\<lambda>r. py_id r = paymentId)
                   (settling_row cfg w currentScope confidential authorization) s1)))"

text \<open>The fence of every later update: the row is still the one this attempt claimed.\<close>

definition fenced :: "payment_row \<Rightarrow> payment_row \<Rightarrow> bool" where
  "fenced claimed r \<longleftrightarrow> py_id r = py_id claimed \<and> py_status r = ''settling''
     \<and> py_settlingStartedAt r = py_settlingStartedAt claimed"

definition finalizeSettlement :: "payment_row \<Rightarrow> string \<Rightarrow> pay_state \<Rightarrow> pay_state" where
  "finalizeSettlement claimed settleTx =
     update_payments (fenced claimed) (\<lambda>r. r\<lparr>py_status := ''settled'', py_settleTx := Some settleTx,
       py_confidential := py_confidential claimed, py_settlingStartedAt := None\<rparr>)"

datatype settle_failure = Reverted enclave_error | Uncertain enclave_error

definition failure_error :: "settle_failure \<Rightarrow> enclave_error" where
  "failure_error f = (case f of Reverted e \<Rightarrow> e | Uncertain e \<Rightarrow> e)"

definition failSettlement :: "payment_row \<Rightarrow> settle_failure \<Rightarrow> string \<Rightarrow> pay_state \<Rightarrow> pay_state" where
  "failSettlement claimed failure keyHash s =
     (let reverted = (case failure of Reverted _ \<Rightarrow> True | Uncertain _ \<Rightarrow> False);
          failed = matching_rows (fenced claimed) (pt_payments s);
          s1 = update_payments (fenced claimed)
            (\<lambda>r. r\<lparr>py_status := if reverted then ''failed'' else ''settlement_unknown''\<rparr>) s
      in case failed of
           row # _ \<Rightarrow>
             (case py_mandateDayKey row of
                Some day \<Rightarrow>
                  if reverted
                  then refundMandate (case py_agentId row of Some a \<Rightarrow> a | None \<Rightarrow> keyHash) day (py_amountUnits row) s1
                  else s1
              | None \<Rightarrow> s1)
         | [] \<Rightarrow> s1)"

record settle_result =
  sr_paymentId :: string
  sr_tx :: string
  sr_confidential :: bool

text \<open>
  \<open>external\<close> is the chain part of one attempt: opening the mandate, the facilitator's transfer and
  \<open>verifySettlementProof\<close>; \<open>between\<close> is what other workers commit meanwhile.
\<close>

definition performSettlement ::
  "pay_config \<Rightarrow> pay_world \<Rightarrow> (payment_row \<Rightarrow> payment_authorization \<Rightarrow> enclave_error + unit) \<Rightarrow>
     (payment_row \<Rightarrow> settle_failure + string) \<Rightarrow> (pay_state \<Rightarrow> pay_state) \<Rightarrow>
     string \<Rightarrow> string \<Rightarrow> bool \<Rightarrow> payment_authorization option \<Rightarrow> pay_state \<Rightarrow>
     (enclave_error + settle_result) \<times> pay_state" where
  "performSettlement cfg w validate external between keyHash paymentId confidential authorization s =
     (if \<not> confidential_available cfg confidential
      then (Inl (AppError ''CONFIDENTIAL_UNAVAILABLE''
              ''No real confidential transfer adapter is configured'' 503), s)
      else case current_scope cfg w of
        Inl e \<Rightarrow> (Inl e, s)
      | Inr scope \<Rightarrow>
          (case run_tx (claimSettlement cfg w validate scope keyHash paymentId confidential authorization) s of
             (Inl e, s1) \<Rightarrow> (Inl e, s1)
           | (Inr (AlreadySettled tx row), s1) \<Rightarrow>
               (Inr \<lparr>sr_paymentId = paymentId, sr_tx = tx, sr_confidential = py_confidential row\<rparr>, s1)
           | (Inr (Claimed row), s1) \<Rightarrow>
               (case (if py_settlementMode row = Some ''simulated'' then Inr (''sim:'' @ paymentId)
                      else external row) of
                  Inr tx \<Rightarrow>
                    (Inr \<lparr>sr_paymentId = paymentId, sr_tx = tx, sr_confidential = confidential\<rparr>,
                     finalizeSettlement row tx (between s1))
                | Inl failure \<Rightarrow>
                    (Inl (failure_error failure), failSettlement row failure keyHash (between s1)))))"

section \<open>x402 settlement\<close>

definition x402_doc :: "payment_row \<Rightarrow> x402_stored option" where
  "x402_doc r = (case py_authorization r of Some (X402Doc d) \<Rightarrow> Some d | _ \<Rightarrow> None)"

definition x402_input :: "pay_config \<Rightarrow> string \<Rightarrow> payment_row \<Rightarrow> required_input" where
  "x402_input cfg resourceUrl row =
     \<lparr>ri_resourceUrl = resourceUrl, ri_paymentId = py_id row, ri_chainId = pc_chainId cfg,
      ri_amount = py_amountUnits row, ri_asset = pc_usdc cfg, ri_payTo = pc_usageMeter cfg,
      ri_domainName = pc_domainName cfg, ri_domainVersion = pc_domainVersion cfg, ri_maxTimeoutSeconds = None\<rparr>"

definition x402Challenge ::
  "x402_env \<Rightarrow> pay_config \<Rightarrow> pay_world \<Rightarrow> string \<Rightarrow> string \<Rightarrow> string \<Rightarrow> string \<Rightarrow> string \<Rightarrow> x402_required pay_tx" where
  "x402Challenge env cfg w scope fromBlock keyHash paymentId resourceUrl s =
     (case payment_by_id paymentId s of
        None \<Rightarrow> Inl (NotFoundError ''payment'' paymentId)
      | Some row \<Rightarrow>
          if py_keyHash row \<noteq> keyHash then Inl (NotFoundError ''payment'' paymentId)
          else if py_status row \<noteq> ''open''
               \<or> (py_settlementMode row \<noteq> None \<and> py_settlementMode row \<noteq> Some ''x402'')
          then Inl (ConflictError ''Payment is not an open x402 intent'')
          else (case py_authorization row of
              Some (X402Doc d) \<Rightarrow>
                if rs_url (xq_resource (xs_required d)) \<noteq> resourceUrl \<or> py_chainScope row \<noteq> Some scope
                then Inl (ConflictError ''x402 challenge cannot change'')
                else Inr (xs_required d, s)
            | Some (DirectAuth _) \<Rightarrow> Inl (ConflictError ''x402 challenge cannot change'')
            | None \<Rightarrow>
                rbind (pw_admission w) (\<lambda>_.
                rbind (createPaymentRequired env (x402_input cfg resourceUrl row)) (\<lambda>required.
                  Inr (required, update_payments (\<lambda>r. py_id r = paymentId)
                    (\<lambda>r. r\<lparr>py_settlementMode := Some ''x402'', py_chainScope := Some scope,
                       py_authorization := Some (X402Doc \<lparr>xs_required = required, xs_fromBlock = fromBlock,
                         xs_authorization = None, xs_from = None, xs_fundingTx = None, xs_admission = None\<rparr>)\<rparr>) s)))))"

text \<open>The token authorization a row is bound to: deployment, payer and nonce, case ignored.\<close>

definition x402_key :: "payment_row \<Rightarrow> (string option \<times> string \<times> string) option" where
  "x402_key r =
     (if py_settlementMode r = Some ''x402''
      then (case x402_doc r of
              Some d \<Rightarrow> map_option (\<lambda>a. (py_chainScope r, lower (tf_from a), lower (tf_nonce a))) (xs_authorization d)
            | None \<Rightarrow> None)
      else None)"

datatype x402_claim = AlreadyPaid payment_row x402_stored transfer_authorization
  | ClaimedX402 payment_row x402_stored transfer_authorization

definition x402_admission ::
  "pay_world \<Rightarrow> x402_stored \<Rightarrow> transfer_authorization \<Rightarrow> payment_row \<Rightarrow> (string \<times> string) pay_tx" where
  "x402_admission w d auth row s =
     (case xs_authorization d of
        Some _ \<Rightarrow>
          (case xs_admission d of
             None \<Rightarrow> Inl (ConflictError ''x402 authorization has no durable admission proof'')
           | Some a \<Rightarrow> Inr (a, s))
      | None \<Rightarrow>
          rbind (pw_admission w) (\<lambda>_.
          rbind (pw_x402Admission w auth) (\<lambda>a.
          rbind (assertMandateTx (pw_day w) (holder row) (py_amountUnits row) s) (\<lambda>(_, s1). Inr (a, s1)))))"

definition x402_settling :: "pay_world \<Rightarrow> x402_stored \<Rightarrow> payment_row \<Rightarrow> payment_row" where
  "x402_settling w d row =
     row\<lparr>py_status := ''settling'', py_settlingStartedAt := Some (pw_now w), py_authorization := Some (X402Doc d),
         py_mandateDayKey := nullish (py_mandateDayKey row) (Some (pw_day w)), py_confidential := False\<rparr>"

definition claimX402 ::
  "x402_env \<Rightarrow> pay_world \<Rightarrow> js_number \<Rightarrow> string \<Rightarrow> string \<Rightarrow> string \<Rightarrow> x402_payload \<Rightarrow> string \<Rightarrow> string \<Rightarrow> x402_claim pay_tx" where
  "claimX402 env w nowSeconds scope keyHash paymentId payload resourceUrl requestHash s =
     rbind (of_option (NotFoundError ''payment'' paymentId) (payment_by_id paymentId s)) (\<lambda>row.
     rbind (require (py_keyHash row = keyHash) (NotFoundError ''payment'' paymentId)) (\<lambda>_.
     rbind (require (py_settlementMode row = Some ''x402'' \<and> py_chainScope row = Some scope
         \<and> py_requestHash row = Some requestHash \<and> py_authorization row \<noteq> None)
       (ConflictError ''x402 intent does not match this request or deployment'')) (\<lambda>_.
     rbind (of_option (ConflictError ''x402 resource mismatch'') (x402_doc row)) (\<lambda>d.
     rbind (require (rs_url (xq_resource (xs_required d)) = resourceUrl)
       (ConflictError ''x402 resource mismatch'')) (\<lambda>_.
     rbind (validateExactPayload env payload (xs_required d) nowSeconds (xs_authorization d \<noteq> None)) (\<lambda>auth.
     rbind (require (xs_authorization d = None \<or> xs_authorization d = Some auth)
       (ConflictError ''x402 authorization cannot change'')) (\<lambda>_.
     rbind (require (case select_row (\<lambda>r. x402_key r = Some (Some scope, lower (tf_from auth), lower (tf_nonce auth)))
                       (pt_payments s) of
                     Some duplicate \<Rightarrow> py_id duplicate = paymentId | None \<Rightarrow> True)
       (ConflictError ''x402 authorization is already bound to another payment'')) (\<lambda>_.
       if py_status row \<in> {''settled'', ''consumed''} then Inr (AlreadyPaid row d auth, s)
       else if py_status row \<notin> {''open'', ''settlement_unknown''}
       then Inl (AppError ''SETTLEMENT_PENDING'' ''x402 settlement is pending reconciliation'' 503)
       else rbind (x402_admission w d auth row s) (\<lambda>(admission, s1).
         let d' = d\<lparr>xs_admission := Some admission, xs_authorization := Some auth, xs_from := Some (tf_from auth)\<rparr>
         in Inr (ClaimedX402 (x402_settling w d' row) d' auth,
                 update_payments (\<lambda>r. py_id r = paymentId) (x402_settling w d') s1))))))))))"

definition finalizeX402 :: "payment_row \<Rightarrow> x402_stored \<Rightarrow> string \<Rightarrow> string option \<Rightarrow> pay_state \<Rightarrow> pay_state" where
  "finalizeX402 claimed d tx fundingTx =
     update_payments (fenced claimed) (\<lambda>r. r\<lparr>py_status := ''settled'', py_settleTx := Some tx,
       py_settlingStartedAt := None,
       py_authorization := Some (X402Doc (d\<lparr>xs_fundingTx := nullish fundingTx (xs_fundingTx d)\<rparr>))\<rparr>)"

definition failX402 :: "payment_row \<Rightarrow> pay_state \<Rightarrow> pay_state" where
  "failX402 claimed = update_payments (fenced claimed) (\<lambda>r. r\<lparr>py_status := ''settlement_unknown''\<rparr>)"

text \<open>
  \<open>X402PaidError\<close>: the chain proved the settlement but the finalising update did not commit, so that
  the caller must not be told the request is unpaid. \<open>x402_app_error\<close> is its base class.
\<close>

datatype x402_failure = X402PaidError string string | X402Failed enclave_error

definition x402_app_error :: "x402_failure \<Rightarrow> enclave_error" where
  "x402_app_error f = (case f of
     X402PaidError _ _ \<Rightarrow> AppError ''SETTLEMENT_PENDING'' ''Payment confirmed; completion pending reconciliation'' 503
   | X402Failed e \<Rightarrow> e)"

text \<open>
  \<open>proof_ok\<close> re-verifies a settled payment; \<open>external\<close> settles and verifies, giving tx and funding tx;
  \<open>commits\<close> says whether the database accepts the finalising update.
\<close>

definition settleX402ForKey ::
  "x402_env \<Rightarrow> pay_world \<Rightarrow> js_number \<Rightarrow> (payment_row \<Rightarrow> x402_stored \<Rightarrow> transfer_authorization \<Rightarrow> enclave_error + unit) \<Rightarrow>
     (payment_row \<Rightarrow> x402_stored \<Rightarrow> transfer_authorization \<Rightarrow> unit + (string \<times> string option)) \<Rightarrow> bool \<Rightarrow> (pay_state \<Rightarrow> pay_state) \<Rightarrow>
     string \<Rightarrow> string \<Rightarrow> x402_payload \<Rightarrow> string \<Rightarrow> string \<Rightarrow> pay_state \<Rightarrow> (x402_failure + (string \<times> string)) \<times> pay_state" where
  "settleX402ForKey env w nowSeconds proof_ok external commits between keyHash paymentId payload resourceUrl requestHash s =
     (case pw_scope w of
        Inl e \<Rightarrow> (Inl (X402Failed e), s)
      | Inr scope \<Rightarrow>
          (case run_tx (claimX402 env w nowSeconds scope keyHash paymentId payload resourceUrl requestHash) s of
             (Inl e, s1) \<Rightarrow> (Inl (X402Failed e), s1)
           | (Inr (AlreadyPaid row d auth), s1) \<Rightarrow>
               (case proof_ok row d auth of
                  Inl e \<Rightarrow> (Inl (X402Failed e), s1)
                | Inr _ \<Rightarrow> (Inr (case py_settleTx row of Some t \<Rightarrow> t | None \<Rightarrow> [], tf_from auth), s1))
           | (Inr (ClaimedX402 row d auth), s1) \<Rightarrow>
               (case external row d auth of
                  Inr (tx, fundingTx) \<Rightarrow>
                    if commits then (Inr (tx, tf_from auth), finalizeX402 row d tx fundingTx (between s1))
                    else (Inl (X402PaidError tx (tf_from auth)), failX402 row (between s1))
                | Inl _ \<Rightarrow> (Inl (X402Failed (AppError ''SETTLEMENT_PENDING''
                              ''x402 settlement requires reconciliation'' 503)), failX402 row (between s1)))))"

section \<open>Recovery\<close>

text \<open>\<open>reopenStuckSettling\<close>, also the first statement of \<open>reconcilePayments\<close> (with 120000 ms).\<close>

definition stuck :: "int \<Rightarrow> payment_row \<Rightarrow> bool" where
  "stuck cutoff r \<longleftrightarrow> py_status r = ''settling''
     \<and> (case py_settlingStartedAt r of Some t \<Rightarrow> t < cutoff | None \<Rightarrow> False)"

definition reopenStuckSettling :: "int \<Rightarrow> int \<Rightarrow> pay_state \<Rightarrow> nat \<times> pay_state" where
  "reopenStuckSettling olderThanMs now s =
     (length (matching_rows (stuck (now - olderThanMs)) (pt_payments s)),
      update_payments (stuck (now - olderThanMs)) (\<lambda>r. r\<lparr>py_status := ''settlement_unknown''\<rparr>) s)"

definition resume_payload :: "x402_stored \<Rightarrow> transfer_authorization \<Rightarrow> x402_payload" where
  "resume_payload d a =
     \<lparr>xp_resource = Some (xq_resource (xs_required d)), xp_accepted = xq_accepts (xs_required d),
      xp_authorization = \<lparr>tf_from = tf_from a, tf_to = tf_to a, tf_value = tf_value a,
        tf_validAfter = tf_validAfter a, tf_validBefore = tf_validBefore a, tf_nonce = tf_nonce a\<rparr>,
      xp_signature = tf_signature a\<rparr>"

definition resumable :: "payment_row \<Rightarrow> enclave_error + (x402_stored \<times> transfer_authorization \<times> string)" where
  "resumable row =
     (case (py_settlementMode row, py_authorization row, py_requestHash row) of
        (Some mode, Some doc, Some h) \<Rightarrow>
          if mode \<noteq> ''x402'' \<or> h = [] then Inl (ConflictError ''No durable x402 intent'')
          else (case doc of
              X402Doc d \<Rightarrow>
                (case xs_authorization d of
                   Some a \<Rightarrow> Inr (d, a, h)
                 | None \<Rightarrow> Inl (ConflictError ''No durable x402 authorization''))
            | DirectAuth _ \<Rightarrow> Inl (ConflictError ''No durable x402 authorization''))
      | _ \<Rightarrow> Inl (ConflictError ''No durable x402 intent''))"

definition resumeX402Payment where
  "resumeX402Payment env w nowSeconds proof_ok external commits between paymentId s =
     (case payment_by_id paymentId s of
        None \<Rightarrow> (Inl (X402Failed (ConflictError ''No durable x402 intent'')), s)
      | Some row \<Rightarrow>
          (case resumable row of
             Inl e \<Rightarrow> (Inl (X402Failed e), s)
           | Inr (d, a, h) \<Rightarrow>
               settleX402ForKey env w nowSeconds proof_ok external commits between (py_keyHash row) (py_id row)
                 (resume_payload d a) (rs_url (xq_resource (xs_required d))) h s))"

definition paymentAuthorization ::
  "x402_env \<Rightarrow> auth_config \<Rightarrow> pay_world \<Rightarrow> string \<Rightarrow> string \<Rightarrow> string \<Rightarrow> pay_state \<Rightarrow> enclave_error + typed_transfer" where
  "paymentAuthorization env acfg w keyHash paymentId from s =
     rbind (of_option (NotFoundError ''payment'' paymentId) (payment_by_id paymentId s)) (\<lambda>row.
     rbind (require (py_keyHash row = keyHash) (NotFoundError ''payment'' paymentId)) (\<lambda>_.
     rbind (require (py_status row = ''open'') (ConflictError (''Payment is '' @ py_status row))) (\<lambda>_.
     rbind (pw_admission w) (\<lambda>_.
       authorizationData env acfg (py_id row) (py_amountUnits row) from ''0''
         (int_dec (pw_now w div 1000 + 1800))))))"

section \<open>Payments as a transition system\<close>

text \<open>
  Workers interleave freely. The system state is the database, the claims in flight and the calendar
  day, which only moves forward; a step is one committed transaction of any worker. External results,
  worlds, ids and arguments are arbitrary. A fresh agent id has no payment yet.
\<close>

record pay_sys =
  sy_db :: pay_state
  sy_claims :: "payment_row list"
  sy_day :: string

inductive pay_step :: "pay_sys \<Rightarrow> pay_sys \<Rightarrow> bool" where
  step_day: "sy_day s \<le> day \<Longrightarrow> pay_step s (s\<lparr>sy_day := day\<rparr>)"
| step_agent: "\<forall>r \<in> set (pt_payments (sy_db s)). holder r \<noteq> agent \<Longrightarrow>
    \<forall>m \<in> set (pt_mandates (sy_db s)). mn_agent m \<noteq> agent \<Longrightarrow> 0 \<le> limit \<Longrightarrow>
    pay_step s (s\<lparr>sy_db := createAgentMandate agent limit (sy_day s) (sy_db s)\<rparr>)"
| step_open: "openPayment fresh keyHash amount intentKey requestHash agentId listingId (sy_db s) = Inr (row, db) \<Longrightarrow>
    \<forall>r \<in> set (pt_payments (sy_db s)). py_id r \<noteq> fresh \<Longrightarrow> pay_step s (s\<lparr>sy_db := db\<rparr>)"
| step_challenge: "x402Challenge env cfg w scope fromBlock keyHash paymentId resourceUrl (sy_db s) = Inr (req, db) \<Longrightarrow>
    pay_step s (s\<lparr>sy_db := db\<rparr>)"
| step_claim: "claimSettlement cfg w validate scope keyHash paymentId confidential authorization (sy_db s)
      = Inr (Claimed row, db) \<Longrightarrow> pw_day w = sy_day s \<Longrightarrow> pc_paymentMode cfg \<in> {''mock'', ''authorized''} \<Longrightarrow>
    pay_step s (s\<lparr>sy_db := db, sy_claims := row # sy_claims s\<rparr>)"
| step_claim_x402: "claimX402 env w nowSeconds scope keyHash paymentId payload resourceUrl requestHash (sy_db s)
      = Inr (ClaimedX402 row d auth, db) \<Longrightarrow> pw_day w = sy_day s \<Longrightarrow>
    pay_step s (s\<lparr>sy_db := db, sy_claims := row # sy_claims s\<rparr>)"
| step_finalize: "row \<in> set (sy_claims s) \<Longrightarrow> py_settlementMode row \<noteq> Some ''x402'' \<Longrightarrow>
    pay_step s (s\<lparr>sy_db := finalizeSettlement row tx (sy_db s)\<rparr>)"
| step_fail: "row \<in> set (sy_claims s) \<Longrightarrow> py_settlementMode row \<noteq> Some ''x402'' \<Longrightarrow>
    pay_step s (s\<lparr>sy_db := failSettlement row failure (py_keyHash row) (sy_db s)\<rparr>)"
| step_finalize_x402: "row \<in> set (sy_claims s) \<Longrightarrow> py_settlementMode row = Some ''x402'' \<Longrightarrow> x402_doc row = Some d \<Longrightarrow>
    pay_step s (s\<lparr>sy_db := finalizeX402 row d tx fundingTx (sy_db s)\<rparr>)"
| step_fail_x402: "row \<in> set (sy_claims s) \<Longrightarrow> pay_step s (s\<lparr>sy_db := failX402 row (sy_db s)\<rparr>)"
| step_sweep: "reopenStuckSettling olderThanMs now (sy_db s) = (n, db) \<Longrightarrow> pay_step s (s\<lparr>sy_db := db\<rparr>)"
| step_consume: "consumePayment cfg proofs keyHash paymentId amount requestHash validateOnly (sy_db s) = Inr (u, db) \<Longrightarrow>
    pay_step s (s\<lparr>sy_db := db\<rparr>)"
| step_receipt: "pay_step s (s\<lparr>sy_db := linkReceipt paymentId typedHash (sy_db s)\<rparr>)"

section \<open>What one update may do to a payment\<close>

text \<open>The status graph, transitively closed.\<close>

definition status_reaches :: "string \<Rightarrow> string \<Rightarrow> bool" where
  "status_reaches a b \<longleftrightarrow> a = b \<or> a = ''open''
     \<or> (a \<in> {''settling'', ''settlement_unknown''} \<and> b \<noteq> ''open'')
     \<or> (a = ''settled'' \<and> b = ''consumed'')"

definition fixed_fields :: "payment_row \<Rightarrow> string \<times> string \<times> int \<times> string option \<times> string option \<times> string option \<times> int option" where
  "fixed_fields r = (py_id r, py_keyHash r, py_amountUnits r, py_intentKey r, py_requestHash r,
     py_agentId r, py_listingId r)"

definition once :: "'a option \<Rightarrow> 'a option \<Rightarrow> bool" where
  "once a b \<longleftrightarrow> a = None \<or> b = a"

definition evolves :: "payment_row \<Rightarrow> payment_row \<Rightarrow> bool" where
  "evolves r r' \<longleftrightarrow> fixed_fields r' = fixed_fields r \<and> status_reaches (py_status r) (py_status r')
     \<and> (py_status r \<in> {''settled'', ''consumed''} \<longrightarrow> py_settleTx r' = py_settleTx r)
     \<and> once (py_mandateDayKey r) (py_mandateDayKey r') \<and> once (py_settlementMode r) (py_settlementMode r')
     \<and> once (x402_key r) (x402_key r')"

lemma once_trans: "once a b \<Longrightarrow> once b c \<Longrightarrow> once a c"
  by (auto simp: once_def)

lemma once_refl [simp]: "once a a"
  by (simp add: once_def)

lemma status_reaches_trans: "status_reaches a b \<Longrightarrow> status_reaches b c \<Longrightarrow> status_reaches a c"
  by (auto simp: status_reaches_def)

lemma evolves_refl: "evolves r r"
  by (simp add: evolves_def status_reaches_def)

lemma evolves_trans:
  assumes "evolves p q" and "evolves q r"
  shows "evolves p r"
proof -
  have "py_status p \<in> {''settled'', ''consumed''} \<Longrightarrow> py_status q \<in> {''settled'', ''consumed''}"
    using assms(1) by (auto simp: evolves_def status_reaches_def)
  moreover have "status_reaches (py_status p) (py_status r)"
    using assms status_reaches_trans by (auto simp: evolves_def)
  moreover have "once (py_mandateDayKey p) (py_mandateDayKey r)" "once (py_settlementMode p) (py_settlementMode r)"
    "once (x402_key p) (x402_key r)"
    using assms once_trans by (auto simp: evolves_def)
  ultimately show ?thesis using assms by (auto simp: evolves_def)
qed

definition payments_keep :: "pay_sys \<Rightarrow> pay_sys \<Rightarrow> bool" where
  "payments_keep s t \<longleftrightarrow>
     (\<forall>r \<in> set (pt_payments (sy_db s)). \<exists>r' \<in> set (pt_payments (sy_db t)). evolves r r')"

lemma payments_keep_trans: "payments_keep s t \<Longrightarrow> payments_keep t u \<Longrightarrow> payments_keep s u"
  unfolding payments_keep_def by (meson evolves_trans)

lemma keep_append: "pt_payments (sy_db t) = pt_payments (sy_db s) @ new \<Longrightarrow> payments_keep s t"
  by (auto simp: payments_keep_def intro: evolves_refl)

lemma keep_same: "pt_payments (sy_db t) = pt_payments (sy_db s) \<Longrightarrow> payments_keep s t"
  by (rule keep_append [where new = "[]"]) simp

lemma keep_update:
  assumes "pt_payments (sy_db t) = update_rows P f (pt_payments (sy_db s))"
    and "\<And>r. r \<in> set (pt_payments (sy_db s)) \<Longrightarrow> P r \<Longrightarrow> evolves r (f r)"
  shows "payments_keep s t"
  unfolding payments_keep_def
proof
  fix r assume r: "r \<in> set (pt_payments (sy_db s))"
  let ?r = "if P r then f r else r"
  have "?r \<in> set (pt_payments (sy_db t))" using r by (auto simp: assms(1) set_update_rows)
  moreover have "evolves r ?r" using assms(2) [OF r] evolves_refl by simp
  ultimately show "\<exists>r' \<in> set (pt_payments (sy_db t)). evolves r r'" by blast
qed

section \<open>The invariant\<close>

text \<open>Payments that hold a reservation, and what one holder has reserved on one day.\<close>

definition live :: "payment_row \<Rightarrow> bool" where
  "live r \<longleftrightarrow> py_status r \<in> {''settling'', ''settlement_unknown'', ''settled'', ''consumed''}"

definition reserved :: "string \<Rightarrow> string \<Rightarrow> payment_row \<Rightarrow> int" where
  "reserved agent day r =
     (if live r \<and> holder r = agent \<and> py_mandateDayKey r = Some day then py_amountUnits r else 0)"

definition mandate_exact :: "payment_row list \<Rightarrow> mandate_row \<Rightarrow> bool" where
  "mandate_exact payments m \<longleftrightarrow>
     (let snap = mn_snapshot m in
      spentTodayUnits snap = sum_list (map (reserved (mn_agent m) (dayKey snap)) payments)
      \<and> 0 \<le> spentTodayUnits snap \<and> spentTodayUnits snap \<le> dailyLimitUnits snap
      \<and> (\<forall>d. sum_list (map (reserved (mn_agent m) d) payments) \<le> dailyLimitUnits snap)
      \<and> (\<forall>r \<in> set payments. live r \<longrightarrow> holder r = mn_agent m \<longrightarrow>
           0 \<le> py_amountUnits r \<and> (\<exists>d. py_mandateDayKey r = Some d \<and> d \<le> dayKey snap)))"

definition statuses :: "string set" where
  "statuses = {''open'', ''settling'', ''settlement_unknown'', ''settled'', ''consumed'', ''failed''}"

definition row_ok :: "payment_row \<Rightarrow> bool" where
  "row_ok r \<longleftrightarrow> py_status r \<in> statuses
     \<and> (py_status r = ''open'' \<longleftrightarrow> py_mandateDayKey r = None)
     \<and> (py_status r = ''open'' \<longrightarrow> x402_key r = None)
     \<and> (py_status r \<in> {''settled'', ''consumed''} \<longrightarrow> py_settleTx r \<noteq> None)
     \<and> (py_status r \<noteq> ''open'' \<longrightarrow> py_settlementMode r \<noteq> None)
     \<and> (py_status r \<noteq> ''open'' \<longrightarrow> py_settlementMode r = Some ''x402'' \<longrightarrow> x402_key r \<noteq> None)"

text \<open>A claim in flight refers to its row, and an x402 claim to the authorization of its row.\<close>

definition claim_ok :: "payment_row list \<Rightarrow> payment_row \<Rightarrow> bool" where
  "claim_ok payments c \<longleftrightarrow> (\<exists>r \<in> set payments. py_id r = py_id c \<and> py_keyHash r = py_keyHash c
     \<and> py_settlementMode r = py_settlementMode c \<and> py_settlementMode c \<noteq> None
     \<and> (py_settlementMode c = Some ''x402'' \<longrightarrow> x402_key r = x402_key c \<and> x402_key c \<noteq> None))"

definition pay_ok :: "pay_sys \<Rightarrow> bool" where
  "pay_ok s \<longleftrightarrow>
     (let payments = pt_payments (sy_db s); mandates = pt_mandates (sy_db s) in
      unique_key py_id payments \<and> unique_opt payment_intent payments \<and> unique_opt x402_key payments
      \<and> (\<forall>r \<in> set payments. row_ok r)
      \<and> (\<forall>c \<in> set (sy_claims s). claim_ok payments c)
      \<and> unique_key mn_agent mandates
      \<and> (\<forall>m \<in> set mandates. mandate_exact payments m \<and> dayKey (mn_snapshot m) \<le> sy_day s))"

definition pay_start :: "pay_sys \<Rightarrow> bool" where
  "pay_start s \<longleftrightarrow> pt_payments (sy_db s) = [] \<and> pt_mandates (sy_db s) = [] \<and> sy_claims s = []"

lemma pay_start_ok: "pay_start s \<Longrightarrow> pay_ok s"
  by (simp add: pay_start_def pay_ok_def)

section \<open>Each step keeps the invariant and the history\<close>

lemma evolves_fields:
  assumes "evolves r r'"
  shows "py_id r' = py_id r" and "py_keyHash r' = py_keyHash r" and "py_amountUnits r' = py_amountUnits r"
    and "payment_intent r' = payment_intent r" and "holder r' = holder r"
  using assms by (simp_all add: evolves_def fixed_fields_def payment_intent_def holder_def split: option.splits)

lemma claims_kept:
  assumes "payments_keep s t" and "claim_ok (pt_payments (sy_db s)) c"
  shows "claim_ok (pt_payments (sy_db t)) c"
proof -
  from assms(2) obtain r where r: "r \<in> set (pt_payments (sy_db s))" "py_id r = py_id c"
    "py_keyHash r = py_keyHash c" "py_settlementMode r = py_settlementMode c" "py_settlementMode c \<noteq> None"
    "py_settlementMode c = Some ''x402'' \<longrightarrow> x402_key r = x402_key c \<and> x402_key c \<noteq> None"
    by (auto simp: claim_ok_def)
  from assms(1) r(1) obtain r' where r': "r' \<in> set (pt_payments (sy_db t))" "evolves r r'"
    by (auto simp: payments_keep_def)
  have "py_settlementMode r' = py_settlementMode c"
    using r'(2) r(4,5) by (auto simp: evolves_def once_def)
  moreover have "py_settlementMode c = Some ''x402'' \<longrightarrow> x402_key r' = x402_key c \<and> x402_key c \<noteq> None"
    using r'(2) r(6) by (auto simp: evolves_def once_def)
  ultimately show ?thesis
    using r' r(2,3,5) evolves_fields [OF r'(2)] by (auto simp: claim_ok_def intro!: bexI [of _ r'])
qed

lemma payment_in: "payment_by_id pid db = Some row \<Longrightarrow> row \<in> set (pt_payments db) \<and> py_id row = pid"
  by (auto simp: payment_by_id_def dest: select_row_Some)

definition same_account :: "payment_row \<Rightarrow> payment_row \<Rightarrow> bool" where
  "same_account r r' \<longleftrightarrow> live r' = live r \<and> (live r \<longrightarrow> py_mandateDayKey r' = py_mandateDayKey r)"

lemma same_account_reserved:
  "same_account r r' \<Longrightarrow> evolves r r' \<Longrightarrow> reserved agent day r' = reserved agent day r"
  using evolves_fields [of r r'] by (auto simp: same_account_def reserved_def)

lemma mandate_exact_update:
  assumes "mandate_exact payments m"
    and "\<And>r. r \<in> set payments \<Longrightarrow> P r \<Longrightarrow> evolves r (f r) \<and> same_account r (f r)"
  shows "mandate_exact (update_rows P f payments) m"
proof -
  have sums: "map (reserved (mn_agent m) d) (update_rows P f payments) = map (reserved (mn_agent m) d) payments" for d
    by (rule map_update_rows_on) (use assms(2) same_account_reserved in blast)
  have "0 \<le> py_amountUnits r \<and> (\<exists>d. py_mandateDayKey r = Some d \<and> d \<le> dayKey (mn_snapshot m))"
    if r: "r \<in> set (update_rows P f payments)" "live r" "holder r = mn_agent m" for r
  proof -
    from r(1) obtain q where q: "q \<in> set payments" "r = q \<or> (P q \<and> r = f q)"
      by (auto simp: set_update_rows)
    then have "live q \<and> holder q = mn_agent m \<and> py_amountUnits r = py_amountUnits q
        \<and> py_mandateDayKey r = py_mandateDayKey q"
      using assms(2) [OF q(1)] r(2,3) evolves_fields [of q r] by (auto simp: same_account_def)
    with assms(1) q(1) show ?thesis by (auto simp: mandate_exact_def Let_def)
  qed
  with assms(1) sums show ?thesis by (simp add: mandate_exact_def Let_def)
qed

text \<open>Updates that move no money: the reservations and the bound authorizations stay.\<close>

lemma ok_update:
  assumes ok: "pay_ok s"
    and "\<And>r. r \<in> set (pt_payments (sy_db s)) \<Longrightarrow> P r \<Longrightarrow>
      evolves r (f r) \<and> same_account r (f r) \<and> row_ok (f r) \<and> x402_key (f r) = x402_key r"
  shows "pay_ok (s\<lparr>sy_db := update_payments P f (sy_db s)\<rparr>)
    \<and> payments_keep s (s\<lparr>sy_db := update_payments P f (sy_db s)\<rparr>)"
proof -
  let ?t = "s\<lparr>sy_db := update_payments P f (sy_db s)\<rparr>"
  have keep: "payments_keep s ?t"
    by (rule keep_update [where P = P and f = f]) (use assms(2) in \<open>auto simp: update_payments_def\<close>)
  have "unique_key py_id (update_rows P f (pt_payments (sy_db s)))"
    by (subst unique_key_update_on) (use ok assms(2) evolves_fields in \<open>auto simp: pay_ok_def Let_def\<close>)
  moreover have "unique_opt payment_intent (update_rows P f (pt_payments (sy_db s)))"
    by (subst unique_opt_update_on) (use ok assms(2) evolves_fields in \<open>auto simp: pay_ok_def Let_def\<close>)
  moreover have "unique_opt x402_key (update_rows P f (pt_payments (sy_db s)))"
    by (subst unique_opt_update_on) (use ok assms(2) in \<open>auto simp: pay_ok_def Let_def\<close>)
  moreover have "\<forall>r \<in> set (update_rows P f (pt_payments (sy_db s))). row_ok r"
    using ok assms(2) by (auto simp: pay_ok_def Let_def set_update_rows)
  moreover have "\<forall>m \<in> set (pt_mandates (sy_db s)). mandate_exact (update_rows P f (pt_payments (sy_db s))) m"
    using ok assms(2) by (auto simp: pay_ok_def Let_def intro!: mandate_exact_update)
  moreover have "\<forall>c \<in> set (sy_claims s). claim_ok (update_rows P f (pt_payments (sy_db s))) c"
    using ok claims_kept [OF keep] by (auto simp: pay_ok_def Let_def update_payments_def)
  ultimately have "pay_ok ?t"
    using ok by (auto simp: pay_ok_def Let_def update_payments_def)
  with keep show ?thesis by simp
qed

lemma ok_rows: "pay_ok s \<Longrightarrow> r \<in> set (pt_payments (sy_db s)) \<Longrightarrow> row_ok r"
  by (simp add: pay_ok_def Let_def)

lemma ok_day:
  assumes "pay_ok s" and "r \<in> set (pt_payments (sy_db s))" and "py_status r \<noteq> ''open''"
  shows "\<exists>d. py_mandateDayKey r = Some d"
  using ok_rows [OF assms(1,2)] assms(3) by (simp add: row_ok_def)

lemma ok_unique: "pay_ok s \<Longrightarrow> unique_key py_id (pt_payments (sy_db s))"
  by (simp add: pay_ok_def Let_def)

lemma ok_claim: "pay_ok s \<Longrightarrow> c \<in> set (sy_claims s) \<Longrightarrow> claim_ok (pt_payments (sy_db s)) c"
  by (simp add: pay_ok_def Let_def)

lemmas status_defs = evolves_def status_reaches_def same_account_def live_def row_ok_def statuses_def

lemma x402_key_fields [simp]:
  "x402_key (r\<lparr>py_status := a\<rparr>) = x402_key r" "x402_key (r\<lparr>py_settleTx := t\<rparr>) = x402_key r"
  "x402_key (r\<lparr>py_settlingStartedAt := n\<rparr>) = x402_key r" "x402_key (r\<lparr>py_receiptHash := t\<rparr>) = x402_key r"
  "x402_key (r\<lparr>py_mandateDayKey := t\<rparr>) = x402_key r" "x402_key (r\<lparr>py_confidential := c\<rparr>) = x402_key r"
  by (simp_all add: x402_key_def x402_doc_def cong: option.case_cong)

lemma fixed_fields_other [simp]:
  "fixed_fields (r\<lparr>py_status := a\<rparr>) = fixed_fields r" "fixed_fields (r\<lparr>py_settleTx := t\<rparr>) = fixed_fields r"
  "fixed_fields (r\<lparr>py_settlingStartedAt := n\<rparr>) = fixed_fields r"
  "fixed_fields (r\<lparr>py_receiptHash := t\<rparr>) = fixed_fields r"
  "fixed_fields (r\<lparr>py_mandateDayKey := t\<rparr>) = fixed_fields r"
  "fixed_fields (r\<lparr>py_confidential := c\<rparr>) = fixed_fields r"
  "fixed_fields (r\<lparr>py_settlementMode := t\<rparr>) = fixed_fields r"
  "fixed_fields (r\<lparr>py_chainScope := t\<rparr>) = fixed_fields r"
  "fixed_fields (r\<lparr>py_authorization := d\<rparr>) = fixed_fields r"
  by (simp_all add: fixed_fields_def)

lemma finalize_ok:
  assumes "pay_ok s"
  shows "pay_ok (s\<lparr>sy_db := finalizeSettlement row tx (sy_db s)\<rparr>)
    \<and> payments_keep s (s\<lparr>sy_db := finalizeSettlement row tx (sy_db s)\<rparr>)"
  unfolding finalizeSettlement_def
  by (rule ok_update [OF assms])
     (use ok_rows [OF assms] in \<open>auto simp: status_defs fenced_def intro!: ok_day [OF assms]\<close>)

lemma failX402_ok:
  assumes "pay_ok s"
  shows "pay_ok (s\<lparr>sy_db := failX402 row (sy_db s)\<rparr>) \<and> payments_keep s (s\<lparr>sy_db := failX402 row (sy_db s)\<rparr>)"
  unfolding failX402_def
  by (rule ok_update [OF assms])
     (use ok_rows [OF assms] in \<open>auto simp: status_defs fenced_def intro!: ok_day [OF assms]\<close>)

lemma sweep_ok:
  assumes "pay_ok s" and "reopenStuckSettling olderThanMs now (sy_db s) = (n, db)"
  shows "pay_ok (s\<lparr>sy_db := db\<rparr>) \<and> payments_keep s (s\<lparr>sy_db := db\<rparr>)"
proof -
  have "db = update_payments (stuck (now - olderThanMs)) (\<lambda>r. r\<lparr>py_status := ''settlement_unknown''\<rparr>) (sy_db s)"
    using assms(2) by (simp add: reopenStuckSettling_def)
  then show ?thesis
    by (simp only:) (rule ok_update [OF assms(1)],
      use ok_rows [OF assms(1)] in \<open>auto simp: status_defs stuck_def intro!: ok_day [OF assms(1)]\<close>)
qed

lemma receipt_ok:
  assumes "pay_ok s"
  shows "pay_ok (s\<lparr>sy_db := linkReceipt paymentId typedHash (sy_db s)\<rparr>)
    \<and> payments_keep s (s\<lparr>sy_db := linkReceipt paymentId typedHash (sy_db s)\<rparr>)"
proof -
  have "row_ok (r\<lparr>py_receiptHash := h\<rparr>) = row_ok r" for r h by (simp add: row_ok_def)
  moreover have "evolves r (r\<lparr>py_receiptHash := h\<rparr>)" for r h by (simp add: evolves_def status_reaches_def)
  moreover have "same_account r (r\<lparr>py_receiptHash := h\<rparr>)" for r h by (simp add: same_account_def live_def)
  ultimately show ?thesis
    unfolding linkReceipt_def by (intro ok_update [OF assms]) (simp add: ok_rows [OF assms])
qed

lemma consumePayment_Inr:
  assumes "consumePayment cfg proofs keyHash paymentId amount requestHash validateOnly db = Inr (u, db')"
  shows "\<exists>row. payment_by_id paymentId db = Some row \<and> py_keyHash row = keyHash \<and> py_status row = ''settled''
      \<and> amount \<le> py_amountUnits row
      \<and> (py_requestHash row = None \<or> py_requestHash row = Some [] \<or> py_requestHash row = Some requestHash)
      \<and> db' = (if validateOnly then db
               else update_payments (\<lambda>r. py_id r = paymentId \<and> py_status r = ''settled'')
                      (\<lambda>r. r\<lparr>py_status := ''consumed''\<rparr>) db)"
proof -
  obtain row where row: "payment_by_id paymentId db = Some row"
    using assms by (auto simp: consumePayment_def split: option.splits)
  show ?thesis
    using assms unfolding consumePayment_def row
    by (cases "py_requestHash row") (auto simp: rbind_Inr_iff row split: if_splits)
qed

lemma pay_consume_ok:
  assumes "pay_ok s"
    and "consumePayment cfg proofs keyHash paymentId amount requestHash validateOnly (sy_db s) = Inr (u, db)"
  shows "pay_ok (s\<lparr>sy_db := db\<rparr>) \<and> payments_keep s (s\<lparr>sy_db := db\<rparr>)"
proof (cases validateOnly)
  case True
  with consumePayment_Inr [OF assms(2)] have "db = sy_db s" by auto
  with assms(1) show ?thesis by (simp add: keep_same)
next
  case False
  with consumePayment_Inr [OF assms(2)]
  have db: "db = update_payments (\<lambda>r. py_id r = paymentId \<and> py_status r = ''settled'')
      (\<lambda>r. r\<lparr>py_status := ''consumed''\<rparr>) (sy_db s)" by auto
  show ?thesis
    unfolding db
    by (rule ok_update [OF assms(1)])
       (use ok_rows [OF assms(1)] in \<open>auto simp: status_defs intro!: ok_day [OF assms(1)]\<close>)
qed

lemma x402_key_Some:
  "x402_key r = Some k \<longleftrightarrow> py_settlementMode r = Some ''x402'' \<and>
     (\<exists>d a. py_authorization r = Some (X402Doc d) \<and> xs_authorization d = Some a
        \<and> k = (py_chainScope r, lower (tf_from a), lower (tf_nonce a)))"
  by (auto simp: x402_key_def x402_doc_def split: option.splits auth_doc.splits)

lemma finalizeX402_ok:
  assumes ok: "pay_ok s" and row: "row \<in> set (sy_claims s)" "py_settlementMode row = Some ''x402''"
    and d: "x402_doc row = Some d"
  shows "pay_ok (s\<lparr>sy_db := finalizeX402 row d tx fundingTx (sy_db s)\<rparr>)
    \<and> payments_keep s (s\<lparr>sy_db := finalizeX402 row d tx fundingTx (sy_db s)\<rparr>)"
proof -
  from ok_claim [OF ok row(1)] row(2) obtain r0 where r0: "r0 \<in> set (pt_payments (sy_db s))"
    "py_id r0 = py_id row" "x402_key r0 = x402_key row" "x402_key row \<noteq> None"
    by (auto simp: claim_ok_def)
  let ?f = "\<lambda>r. r\<lparr>py_status := ''settled'', py_settleTx := Some tx, py_settlingStartedAt := None,
       py_authorization := Some (X402Doc (d\<lparr>xs_fundingTx := nullish fundingTx (xs_fundingTx d)\<rparr>))\<rparr>"
  have key: "x402_key (?f r) = x402_key r" if "r \<in> set (pt_payments (sy_db s))" "fenced row r" for r
  proof -
    from that(2) have "py_id r = py_id row" by (simp add: fenced_def)
    then have "r = r0" using unique_key_eq [OF ok_unique [OF ok] that(1) r0(1)] r0(2) by simp
    with r0(3,4) obtain k where k: "x402_key r = Some k" "x402_key row = Some k" by auto
    then have "x402_key (?f r) = Some k"
      using d by (auto simp: x402_key_Some x402_doc_def split: option.splits auth_doc.splits)
    with k show ?thesis by simp
  qed
  show ?thesis
    unfolding finalizeX402_def
    by (rule ok_update [OF ok])
       (use ok_rows [OF ok] key in \<open>auto simp: status_defs fenced_def intro!: ok_day [OF ok]\<close>)
qed

lemma challenge_ok:
  assumes ok: "pay_ok s"
    and "x402Challenge env cfg w scope fromBlock keyHash paymentId resourceUrl (sy_db s) = Inr (req, db)"
  shows "pay_ok (s\<lparr>sy_db := db\<rparr>) \<and> payments_keep s (s\<lparr>sy_db := db\<rparr>)"
proof -
  obtain row where row: "payment_by_id paymentId (sy_db s) = Some row"
    using assms(2) by (auto simp: x402Challenge_def split: option.splits)
  note row_in = payment_in [OF row]
  show ?thesis
  proof (cases "py_authorization row")
    case (Some doc)
    with assms(2) row have "db = sy_db s"
      by (cases doc) (auto simp: x402Challenge_def split: if_splits)
    with ok show ?thesis by (simp add: keep_same)
  next
    case None
    let ?f = "\<lambda>r. r\<lparr>py_settlementMode := Some ''x402'', py_chainScope := Some scope,
        py_authorization := Some (X402Doc \<lparr>xs_required = req, xs_fromBlock = fromBlock,
           xs_authorization = None, xs_from = None, xs_fundingTx = None, xs_admission = None\<rparr>)\<rparr>"
    from assms(2) row None have st: "py_status row = ''open''"
      and mode: "py_settlementMode row = None \<or> py_settlementMode row = Some ''x402''"
      and db: "db = update_payments (\<lambda>r. py_id r = paymentId) ?f (sy_db s)"
      by (auto simp: x402Challenge_def rbind_Inr_iff split: if_splits)
    have only: "r = row" if "r \<in> set (pt_payments (sy_db s))" "py_id r = paymentId" for r
      using unique_key_eq [OF ok_unique [OF ok] that(1)] row_in that(2) by auto
    have new_key: "x402_key (?f row) = None" by (simp add: x402_key_def x402_doc_def)
    have "evolves row (?f row) \<and> same_account row (?f row) \<and> row_ok (?f row) \<and> x402_key (?f row) = x402_key row"
      using ok_rows [OF ok, of row] row_in st mode new_key
      by (auto simp: status_defs once_def)
    then show ?thesis unfolding db by (intro ok_update [OF ok]) (use only in blast)
  qed
qed

text \<open>Reserving: one open payment becomes a live one of today, and the mandate is charged.\<close>

lemma assertMandate_Inr:
  assumes "assertMandateTx day agent amount db = Inr (u, db1)" and "unique_key mn_agent (pt_mandates db)"
  obtains (none) "db1 = db" and "\<forall>m \<in> set (pt_mandates db). mn_agent m \<noteq> agent"
  | (charged) m snap where "m \<in> set (pt_mandates db)" and "mn_agent m = agent"
      and "reserveMandate (mn_snapshot m) day amount = Inr snap" and "pt_payments db1 = pt_payments db"
      and "\<And>x. x \<in> set (pt_mandates db1) \<longleftrightarrow>
             x = m\<lparr>mn_snapshot := snap\<rparr> \<or> (x \<in> set (pt_mandates db) \<and> x \<noteq> m)"
      and "unique_key mn_agent (pt_mandates db1)"
proof (cases "select_row (\<lambda>m. mn_agent m = agent) (pt_mandates db)")
  case None
  with assms(1) none show ?thesis by (auto simp: assertMandateTx_def row_simps)
next
  case (Some m)
  then have m: "m \<in> set (pt_mandates db)" "mn_agent m = agent" by (auto dest: select_row_Some)
  let ?f = "\<lambda>snap m. m\<lparr>mn_snapshot := snap\<lparr>dailyLimitUnits := dailyLimitUnits (mn_snapshot m)\<rparr>\<rparr>"
  from assms(1) Some obtain snap where snap: "reserveMandate (mn_snapshot m) day amount = Inr snap"
    and db1: "db1 = db\<lparr>pt_mandates := update_rows (\<lambda>m. mn_agent m = agent) (?f snap) (pt_mandates db)\<rparr>"
    by (auto simp: assertMandateTx_def rmap_Inr_iff)
  have limit: "?f snap m = m\<lparr>mn_snapshot := snap\<rparr>"
    using reserveMandate_Inr(2) [OF snap] by simp
  have mem: "x \<in> set (pt_mandates db1) \<longleftrightarrow>
             x = m\<lparr>mn_snapshot := snap\<rparr> \<or> (x \<in> set (pt_mandates db) \<and> x \<noteq> m)" for x
    using set_update_key [OF assms(2) m(1), of x "?f snap"] limit by (simp add: db1 m(2))
  have "unique_key mn_agent (pt_mandates db1)"
    unfolding db1 by (simp add: unique_key_update assms(2))
  with charged [OF m snap _ mem] show ?thesis by (simp add: db1)
qed

lemma reserved_row_sum:
  assumes "unique_key py_id payments" and "row \<in> set payments" and "\<not> live row"
  shows "sum_list (map (reserved agent day) (update_rows (\<lambda>r. py_id r = py_id row) f payments))
     = sum_list (map (reserved agent day) payments) + reserved agent day (f row)"
  using sum_update_one [OF assms(1,2), of "reserved agent day" f] assms(3) by (simp add: reserved_def)

lemma charge_exact:
  assumes "mandate_exact payments m" and "unique_key py_id payments" and "row \<in> set payments" and "\<not> live row"
    and f: "holder (f row) = mn_agent m" "py_amountUnits (f row) = amount" "live (f row)"
      "py_mandateDayKey (f row) = Some day"
    and day: "dayKey (mn_snapshot m) \<le> day" and snap: "reserveMandate (mn_snapshot m) day amount = Inr snap"
  shows "mandate_exact (update_rows (\<lambda>r. py_id r = py_id row) f payments) (m\<lparr>mn_snapshot := snap\<rparr>)"
proof -
  let ?ps = "update_rows (\<lambda>r. py_id r = py_id row) f payments"
  note s = reserveMandate_Inr [OF snap]
  have old: "sum_list (map (reserved (mn_agent m) day) payments)
      = (if dayKey (mn_snapshot m) = day then spentTodayUnits (mn_snapshot m) else 0)"
  proof (cases "dayKey (mn_snapshot m) = day")
    case True
    with assms(1) show ?thesis by (simp add: mandate_exact_def Let_def)
  next
    case False
    with day have "dayKey (mn_snapshot m) < day" by simp
    then have "reserved (mn_agent m) day r = 0" if "r \<in> set payments" for r
      using assms(1) that by (auto simp: mandate_exact_def Let_def reserved_def)
    then have "map (reserved (mn_agent m) day) payments = map (\<lambda>_. 0) payments" by simp
    then have "sum_list (map (reserved (mn_agent m) day) payments) = 0" by (simp only: sum_list_0)
    with False show ?thesis by simp
  qed
  have "sum_list (map (reserved (mn_agent m) day) ?ps)
      = sum_list (map (reserved (mn_agent m) day) payments) + amount"
    using reserved_row_sum [OF assms(2-4), of "mn_agent m" day f] f by (simp add: reserved_def)
  moreover have "0 \<le> py_amountUnits r \<and> (\<exists>d. py_mandateDayKey r = Some d \<and> d \<le> day)"
    if r: "r \<in> set ?ps" "live r" "holder r = mn_agent m" for r
  proof -
    from r(1) have "r = f row \<or> r \<in> set payments"
      using set_update_key [OF assms(2,3)] by blast
    then show ?thesis
    proof
      assume "r = f row"
      with f s(1) show ?thesis by auto
    next
      assume "r \<in> set payments"
      with assms(1) r(2,3) obtain d where "0 \<le> py_amountUnits r" "py_mandateDayKey r = Some d"
        "d \<le> dayKey (mn_snapshot m)" by (auto simp: mandate_exact_def Let_def)
      with day show ?thesis by (auto intro: order_trans)
    qed
  qed
  moreover have "sum_list (map (reserved (mn_agent m) d) ?ps) \<le> dailyLimitUnits (mn_snapshot m)" for d
  proof (cases "d = day")
    case True
    with s old show ?thesis using reserved_row_sum [OF assms(2-4), of "mn_agent m" day f] f by (simp add: reserved_def)
  next
    case False
    with f have "reserved (mn_agent m) d (f row) = 0" by (simp add: reserved_def)
    with reserved_row_sum [OF assms(2-4), of "mn_agent m" d f] assms(1) show ?thesis
      by (simp add: mandate_exact_def Let_def)
  qed
  ultimately show ?thesis
    using s old by (simp add: mandate_exact_def Let_def)
qed

lemma other_exact:
  assumes "mandate_exact payments m" and "unique_key py_id payments" and "row \<in> set payments" and "\<not> live row"
    and "holder (f row) \<noteq> mn_agent m"
  shows "mandate_exact (update_rows (\<lambda>r. py_id r = py_id row) f payments) m"
proof -
  have "sum_list (map (reserved (mn_agent m) d) (update_rows (\<lambda>r. py_id r = py_id row) f payments))
      = sum_list (map (reserved (mn_agent m) d) payments)" for d
    using reserved_row_sum [OF assms(2-4), of "mn_agent m" d f] assms(5) by (simp add: reserved_def)
  moreover have "r = f row \<or> r \<in> set payments"
    if "r \<in> set (update_rows (\<lambda>r. py_id r = py_id row) f payments)" for r
    using set_update_key [OF assms(2,3)] that by blast
  ultimately show ?thesis
    using assms(1,5) unfolding mandate_exact_def Let_def by (simp, blast)
qed

text \<open>The common core of both claims on an open payment.\<close>

lemma reserve_ok:
  assumes ok: "pay_ok s" and row: "payment_by_id paymentId (sy_db s) = Some row" "py_status row = ''open''"
    and charge: "assertMandateTx (sy_day s) (holder row) (py_amountUnits row) (sy_db s) = Inr (u, db1)"
    and f: "evolves row (f row)" "row_ok (f row)" "live (f row)" "py_mandateDayKey (f row) = Some (sy_day s)"
    and fresh_key: "\<And>r. r \<in> set (pt_payments (sy_db s)) \<Longrightarrow> r \<noteq> row \<Longrightarrow>
      x402_key (f row) = None \<or> x402_key r \<noteq> x402_key (f row)"
    and db: "db = update_payments (\<lambda>r. py_id r = paymentId) f db1"
  shows "pay_ok (s\<lparr>sy_db := db\<rparr>) \<and> payments_keep s (s\<lparr>sy_db := db\<rparr>)"
proof -
  let ?ps = "pt_payments (sy_db s)"
  let ?ps' = "update_rows (\<lambda>r. py_id r = py_id row) f ?ps"
  let ?t = "s\<lparr>sy_db := db\<rparr>"
  note row_in = payment_in [OF row(1)]
  have u: "unique_key py_id ?ps" and um: "unique_key mn_agent (pt_mandates (sy_db s))"
    using ok by (auto simp: pay_ok_def Let_def)
  have dead: "\<not> live row" using row(2) by (simp add: live_def)
  have only: "evolves r (f r)" if "r \<in> set ?ps" "py_id r = py_id row" for r
  proof -
    have "r = row" using unique_key_eq [OF u that(1)] row_in that(2) by blast
    with f(1) show ?thesis by simp
  qed
  have payments: "pt_payments db1 = ?ps"
    using charge um by (rule assertMandate_Inr) auto
  then have ps: "pt_payments (sy_db ?t) = ?ps'" using row_in by (simp add: db update_payments_def)
  have keep: "payments_keep s ?t" by (rule keep_update [OF ps]) (rule only)
  have mandates: "unique_key mn_agent (pt_mandates db1) \<and>
      (\<forall>m \<in> set (pt_mandates db1). mandate_exact ?ps' m \<and> dayKey (mn_snapshot m) \<le> sy_day s)"
    using charge um
  proof (rule assertMandate_Inr)
    assume none: "db1 = sy_db s" "\<forall>m \<in> set (pt_mandates (sy_db s)). mn_agent m \<noteq> holder row"
    have "mandate_exact ?ps' m" if m: "m \<in> set (pt_mandates (sy_db s))" for m
      using ok m none(2) row_in u dead evolves_fields(5) [OF f(1)]
      by (intro other_exact) (auto simp: pay_ok_def Let_def)
    with ok none(1) show ?thesis by (simp add: pay_ok_def Let_def)
  next
    fix m snap
    assume m: "m \<in> set (pt_mandates (sy_db s))" "mn_agent m = holder row"
      and snap: "reserveMandate (mn_snapshot m) (sy_day s) (py_amountUnits row) = Inr snap"
      and mem: "\<And>x. x \<in> set (pt_mandates db1) \<longleftrightarrow>
             x = m\<lparr>mn_snapshot := snap\<rparr> \<or> (x \<in> set (pt_mandates (sy_db s)) \<and> x \<noteq> m)"
      and um1: "unique_key mn_agent (pt_mandates db1)"
    have mok: "mandate_exact ?ps x \<and> dayKey (mn_snapshot x) \<le> sy_day s"
      if "x \<in> set (pt_mandates (sy_db s))" for x
      using ok that by (simp add: pay_ok_def Let_def)
    have "mandate_exact ?ps' (m\<lparr>mn_snapshot := snap\<rparr>)"
      using mok [OF m(1)] u row_in dead evolves_fields [OF f(1)] m(2) f(3,4) snap
      by (intro charge_exact) auto
    moreover have "mandate_exact ?ps' x" if "x \<in> set (pt_mandates (sy_db s))" "x \<noteq> m" for x
    proof -
      from that m um have "mn_agent x \<noteq> holder row" by (metis unique_key_eq)
      then show ?thesis
        using mok [OF that(1)] u row_in dead evolves_fields(5) [OF f(1)] by (intro other_exact) auto
    qed
    ultimately show ?thesis
      using mem mok um1 reserveMandate_Inr(3) [OF snap] by auto
  qed
  have "unique_key py_id ?ps'"
    by (subst unique_key_update_on) (simp_all add: u evolves_fields(1) [OF only])
  moreover have "unique_opt payment_intent ?ps'"
    by (subst unique_opt_update_on)
       (use ok in \<open>simp_all add: evolves_fields(4) [OF only] pay_ok_def Let_def\<close>)
  moreover have "unique_opt x402_key ?ps'"
    using ok row_in u fresh_key by (intro unique_opt_update_one) (auto simp: pay_ok_def Let_def)
  moreover have "\<forall>r \<in> set ?ps'. row_ok r"
  proof
    fix r assume "r \<in> set ?ps'"
    with set_update_key [OF u, of row r f] row_in have "r = f row \<or> r \<in> set ?ps" by blast
    then show "row_ok r" using f(2) ok_rows [OF ok] by blast
  qed
  moreover have "\<forall>c \<in> set (sy_claims s). claim_ok ?ps' c"
    using ok claims_kept [OF keep] ps by (auto simp: pay_ok_def Let_def)
  ultimately have "pay_ok ?t"
    using mandates ps by (simp add: pay_ok_def Let_def) (simp add: db update_payments_def)
  with keep show ?thesis by simp
qed

lemma assertMandate_payments:
  assumes "assertMandateTx day agent amount (sy_db s) = Inr (u, db1)" and "pay_ok s"
  shows "pt_payments db1 = pt_payments (sy_db s)"
  by (rule assertMandate_Inr [OF assms(1)]) (use assms(2) in \<open>auto simp: pay_ok_def Let_def\<close>)

lemma add_claim:
  assumes "pay_ok (s\<lparr>sy_db := db\<rparr>)" and "payments_keep s (s\<lparr>sy_db := db\<rparr>)" and "claim_ok (pt_payments db) row"
  shows "pay_ok (s\<lparr>sy_db := db, sy_claims := row # sy_claims s\<rparr>)
    \<and> payments_keep s (s\<lparr>sy_db := db, sy_claims := row # sy_claims s\<rparr>)"
  using assms by (simp add: pay_ok_def payments_keep_def Let_def)

lemma claimSettlement_Inr:
  assumes "claimSettlement cfg w validate scope keyHash paymentId confidential authorization db = Inr (Claimed row, db')"
  obtains r db1 where "payment_by_id paymentId db = Some r" and "py_keyHash r = keyHash"
    and "py_settlementMode r \<noteq> Some ''x402''"
    and "row = settling_row cfg w scope confidential authorization r"
    and "db' = update_payments (\<lambda>q. py_id q = paymentId) (settling_row cfg w scope confidential authorization) db1"
    and "(py_status r = ''open'' \<and> assertMandateTx (pw_day w) (holder r) (py_amountUnits r) db = Inr ((), db1)) \<or>
         (py_status r = ''settlement_unknown'' \<and> py_settlementMode r \<noteq> None \<and> db1 = db)"
proof -
  obtain r where r: "payment_by_id paymentId db = Some r"
    using assms by (auto simp: claimSettlement_def split: option.splits)
  from assms r have st: "py_status r = ''open'' \<or> (py_status r = ''settlement_unknown'' \<and> py_settlementMode r \<noteq> None)"
    and k: "py_keyHash r = keyHash" "py_settlementMode r \<noteq> Some ''x402''"
    by (auto simp: claimSettlement_def split: if_splits)
  have ns: "py_status r \<noteq> ''settled''" "py_status r \<noteq> ''consumed''" using st by auto
  from assms r k st ns obtain v db1 where
    adm: "(if py_status r = ''open'' then admit_open cfg w (validate r) confidential authorization r db
           else admit_recovery scope confidential authorization r db) = Inr (v, db1)"
    and row: "row = settling_row cfg w scope confidential authorization r"
    and db': "db' = update_payments (\<lambda>q. py_id q = paymentId) (settling_row cfg w scope confidential authorization) db1"
    by (auto simp: claimSettlement_def rbind_Inr_iff split: if_splits)
  show ?thesis
  proof (cases "py_status r = ''open''")
    case True
    with adm have "assertMandateTx (pw_day w) (holder r) (py_amountUnits r) db = Inr ((), db1)"
      unfolding admit_open_def by (simp add: rbind_Inr_iff)
    with True r k row db' that show ?thesis by blast
  next
    case False
    with adm have "db1 = db" by (auto simp: admit_recovery_def split: if_splits)
    with False st r k row db' that show ?thesis by blast
  qed
qed

lemma claim_ok_step:
  assumes ok: "pay_ok s" and day: "pw_day w = sy_day s" and cfg: "pc_paymentMode cfg \<in> {''mock'', ''authorized''}"
    and claim: "claimSettlement cfg w validate scope keyHash paymentId confidential authorization (sy_db s)
       = Inr (Claimed row, db)"
  shows "pay_ok (s\<lparr>sy_db := db, sy_claims := row # sy_claims s\<rparr>)
    \<and> payments_keep s (s\<lparr>sy_db := db, sy_claims := row # sy_claims s\<rparr>)"
  using claim
proof (rule claimSettlement_Inr)
  fix r db1
  let ?f = "settling_row cfg w scope confidential authorization"
  assume r: "payment_by_id paymentId (sy_db s) = Some r" "py_keyHash r = keyHash" "py_settlementMode r \<noteq> Some ''x402''"
    and row: "row = ?f r" and db: "db = update_payments (\<lambda>q. py_id q = paymentId) ?f db1"
    and cases: "(py_status r = ''open'' \<and> assertMandateTx (pw_day w) (holder r) (py_amountUnits r) (sy_db s) = Inr ((), db1)) \<or>
         (py_status r = ''settlement_unknown'' \<and> py_settlementMode r \<noteq> None \<and> db1 = sy_db s)"
  note r_in = payment_in [OF r(1)]
  have only: "q = r" if "q \<in> set (pt_payments (sy_db s))" "py_id q = paymentId" for q
    using unique_key_eq [OF ok_unique [OF ok] that(1)] r_in that(2) by auto
  have r_ok: "row_ok r" using ok_rows [OF ok] r_in by blast
  have mode: "py_settlementMode (?f r) \<noteq> None" "once (py_settlementMode r) (py_settlementMode (?f r))"
    "py_settlementMode (?f r) \<noteq> Some ''x402''"
    using r(3) cfg by (auto simp: settling_row_def nullish_def once_def split: option.splits)
  have key: "x402_key r = None" "x402_key (?f r) = None" using r(3) mode(3) by (simp_all add: x402_key_def)
  have base: "fixed_fields (?f r) = fixed_fields r" "py_status (?f r) = ''settling''"
    "py_mandateDayKey (?f r) = nullish (py_mandateDayKey r) (Some (pw_day w))"
    "py_id (?f r) = py_id r" "py_keyHash (?f r) = py_keyHash r"
    by (simp_all add: settling_row_def)
  have live: "live (?f r)" using base(2) by (simp add: live_def)
  have dayr: "py_mandateDayKey r = None \<and> py_status r = ''open'' \<or> py_mandateDayKey r \<noteq> None \<and> py_status r \<noteq> ''open''"
    using r_ok by (auto simp: row_ok_def)
  have ev: "evolves r (?f r)" and okf: "row_ok (?f r)"
    using base mode key dayr cases by (auto simp: evolves_def status_reaches_def row_ok_def statuses_def once_def nullish_def)
  have all: "pay_ok (s\<lparr>sy_db := db\<rparr>) \<and> payments_keep s (s\<lparr>sy_db := db\<rparr>)"
    using cases
  proof
    assume "py_status r = ''open'' \<and> assertMandateTx (pw_day w) (holder r) (py_amountUnits r) (sy_db s) = Inr ((), db1)"
    then show ?thesis
      using ok r(1) ev okf live base(3) dayr key day db
      by (intro reserve_ok [where u = "()" and f = "?f" and row = r and paymentId = paymentId and ?db1.0 = db1])
         (auto simp: nullish_def)
  next
    assume "py_status r = ''settlement_unknown'' \<and> py_settlementMode r \<noteq> None \<and> db1 = sy_db s"
    then have "evolves r (?f r) \<and> same_account r (?f r) \<and> row_ok (?f r) \<and> x402_key (?f r) = x402_key r" "db1 = sy_db s"
      using ev okf key live dayr base(3) by (auto simp: same_account_def live_def nullish_def)
    then show ?thesis unfolding db by (simp only:) (intro ok_update [OF ok], use only in blast)
  qed
  moreover have "claim_ok (pt_payments db) row"
  proof -
    have "pt_payments db1 = pt_payments (sy_db s)"
    proof (cases "py_status r = ''open''")
      case True
      with cases have "assertMandateTx (pw_day w) (holder r) (py_amountUnits r) (sy_db s) = Inr ((), db1)" by auto
      then show ?thesis using ok by (rule assertMandate_payments)
    qed (use cases in auto)
    then have "?f r \<in> set (pt_payments db)"
      using r_in by (auto simp: db update_payments_def set_update_rows)
    then show ?thesis using row mode base by (auto simp: claim_ok_def intro!: bexI [of _ "?f r"])
  qed
  ultimately show ?thesis using add_claim by blast
qed

lemma claimX402_Inr:
  assumes "claimX402 env w nowSeconds scope keyHash paymentId payload resourceUrl requestHash db
     = Inr (ClaimedX402 row d' auth, db')"
  obtains r d a db1 where "payment_by_id paymentId db = Some r" and "py_settlementMode r = Some ''x402''"
    and "py_chainScope r = Some scope" and "x402_doc r = Some d"
    and "xs_authorization d = None \<or> xs_authorization d = Some auth"
    and "case select_row (\<lambda>q. x402_key q = Some (Some scope, lower (tf_from auth), lower (tf_nonce auth)))
            (pt_payments db) of Some q \<Rightarrow> py_id q = paymentId | None \<Rightarrow> True"
    and "py_status r \<in> {''open'', ''settlement_unknown''}"
    and "x402_admission w d auth r db = Inr (a, db1)"
    and "d' = d\<lparr>xs_admission := Some a, xs_authorization := Some auth, xs_from := Some (tf_from auth)\<rparr>"
    and "row = x402_settling w d' r"
    and "db' = update_payments (\<lambda>q. py_id q = paymentId) (x402_settling w d') db1"
proof -
  note that' = that
  show ?thesis
    using assms unfolding claimX402_def
    apply (elim rbind_InrE)
    apply (simp only: require_Inr_iff of_option_Inr_iff)
    apply (split if_split_asm)
     apply simp
    apply (split if_split_asm)
     apply simp
    apply (elim rbind_InrE)
    apply (simp add: Let_def split: prod.splits)
    apply (rule that')
               apply (auto split: option.splits)
    done
qed

lemma x402_settling_simps [simp]:
  "fixed_fields (x402_settling w d r) = fixed_fields r" "py_status (x402_settling w d r) = ''settling''"
  "py_id (x402_settling w d r) = py_id r" "py_keyHash (x402_settling w d r) = py_keyHash r"
  "py_settlementMode (x402_settling w d r) = py_settlementMode r"
  "py_chainScope (x402_settling w d r) = py_chainScope r" "x402_doc (x402_settling w d r) = Some d"
  "py_mandateDayKey (x402_settling w d r) = nullish (py_mandateDayKey r) (Some (pw_day w))"
  by (simp_all add: x402_settling_def x402_doc_def)

lemma claim_x402_step:
  assumes ok: "pay_ok s" and day: "pw_day w = sy_day s"
    and claim: "claimX402 env w nowSeconds scope keyHash paymentId payload resourceUrl requestHash (sy_db s)
       = Inr (ClaimedX402 row d' auth, db)"
  shows "pay_ok (s\<lparr>sy_db := db, sy_claims := row # sy_claims s\<rparr>)
    \<and> payments_keep s (s\<lparr>sy_db := db, sy_claims := row # sy_claims s\<rparr>)"
  using claim
proof (rule claimX402_Inr)
  fix r d a db1
  let ?f = "x402_settling w d'"
  let ?k = "(Some scope, lower (tf_from auth), lower (tf_nonce auth))"
  assume r: "payment_by_id paymentId (sy_db s) = Some r" "py_settlementMode r = Some ''x402''"
      "py_chainScope r = Some scope" "x402_doc r = Some d" "py_status r \<in> {''open'', ''settlement_unknown''}"
    and same: "xs_authorization d = None \<or> xs_authorization d = Some auth"
    and dup: "case select_row (\<lambda>q. x402_key q = Some ?k) (pt_payments (sy_db s)) of
        Some q \<Rightarrow> py_id q = paymentId | None \<Rightarrow> True"
    and adm: "x402_admission w d auth r (sy_db s) = Inr (a, db1)"
    and d': "d' = d\<lparr>xs_admission := Some a, xs_authorization := Some auth, xs_from := Some (tf_from auth)\<rparr>"
    and row: "row = ?f r" and db: "db = update_payments (\<lambda>q. py_id q = paymentId) ?f db1"
  note r_in = payment_in [OF r(1)]
  have only: "q = r" if "q \<in> set (pt_payments (sy_db s))" "py_id q = paymentId" for q
    using unique_key_eq [OF ok_unique [OF ok] that(1)] r_in that(2) by auto
  have r_ok: "row_ok r" using ok_rows [OF ok] r_in by blast
  have fkey: "x402_key (?f r) = Some ?k" using r d' by (simp add: x402_key_def)
  have rkey: "x402_key r = None \<and> xs_authorization d = None \<or> x402_key r = Some ?k \<and> xs_authorization d = Some auth"
    using same r by (auto simp: x402_key_def)
  have dayr: "py_mandateDayKey r = None \<and> py_status r = ''open'' \<and> x402_key r = None
      \<or> py_mandateDayKey r \<noteq> None \<and> py_status r = ''settlement_unknown'' \<and> x402_key r \<noteq> None"
    using r_ok r by (auto simp: row_ok_def)
  have live: "live (?f r)" by (simp add: live_def)
  have okf: "row_ok (?f r)" using r(2) fkey dayr by (auto simp: row_ok_def statuses_def nullish_def)
  have ev: "evolves r (?f r)" using rkey fkey dayr by (auto simp: evolves_def status_reaches_def once_def nullish_def)
  have charged: "assertMandateTx (pw_day w) (holder r) (py_amountUnits r) (sy_db s) = Inr ((), db1)"
    if "py_status r = ''open''"
    using adm rkey dayr that unfolding x402_admission_def
    by (auto simp: rbind_Inr_iff split: prod.splits)
  have unpaid: "db1 = sy_db s" if "py_status r \<noteq> ''open''"
    using adm rkey dayr that unfolding x402_admission_def by (auto split: option.splits)
  have other: "x402_key q \<noteq> x402_key (?f r)" if "q \<in> set (pt_payments (sy_db s))" "q \<noteq> r" "py_status r = ''open''" for q
  proof
    assume eq: "x402_key q = x402_key (?f r)"
    with that(1) fkey have "select_row (\<lambda>q. x402_key q = Some ?k) (pt_payments (sy_db s)) \<noteq> None"
      by (auto simp: select_row_None)
    then obtain p where p: "select_row (\<lambda>q. x402_key q = Some ?k) (pt_payments (sy_db s)) = Some p" by auto
    with dup have "py_id p = paymentId" by simp
    moreover have "p \<in> set (pt_payments (sy_db s))" "x402_key p = Some ?k" using select_row_Some [OF p] by auto
    ultimately have "x402_key r = Some ?k" using only by blast
    with that(3) dayr show False by auto
  qed
  have all: "pay_ok (s\<lparr>sy_db := db\<rparr>) \<and> payments_keep s (s\<lparr>sy_db := db\<rparr>)"
  proof (cases "py_status r = ''open''")
    case True
    show ?thesis
      using ok r(1) True ev okf live charged other dayr day db
      by (intro reserve_ok [where u = "()" and f = "?f" and row = r and paymentId = paymentId and ?db1.0 = db1])
         (auto simp: nullish_def)
  next
    case False
    then have "evolves r (?f r) \<and> same_account r (?f r) \<and> row_ok (?f r) \<and> x402_key (?f r) = x402_key r" "db1 = sy_db s"
      using ev okf unpaid rkey fkey live dayr by (auto simp: same_account_def live_def nullish_def)
    then show ?thesis unfolding db by (simp only:) (intro ok_update [OF ok], use only in blast)
  qed
  moreover have "claim_ok (pt_payments db) row"
  proof -
    have "pt_payments db1 = pt_payments (sy_db s)"
      using charged unpaid assertMandate_payments [OF _ ok] by (cases "py_status r = ''open''") blast+
    then have "?f r \<in> set (pt_payments db)"
      using r_in by (auto simp: db update_payments_def set_update_rows)
    then show ?thesis using row r(2) fkey by (auto simp: claim_ok_def intro!: bexI [of _ "?f r"])
  qed
  ultimately show ?thesis using add_claim by blast
qed

text \<open>Giving a reservation back: the sum stays the sum, and never goes below zero.\<close>

definition refunded :: "string \<Rightarrow> string \<Rightarrow> int \<Rightarrow> mandate_row \<Rightarrow> mandate_row" where
  "refunded agent day amount m =
     (if mn_agent m = agent \<and> dayKey (mn_snapshot m) = day
      then m\<lparr>mn_snapshot := (mn_snapshot m)\<lparr>spentTodayUnits := max 0 (spentTodayUnits (mn_snapshot m) - amount)\<rparr>\<rparr>
      else m)"

lemma set_refundMandate:
  "set (pt_mandates (refundMandate agent day amount db)) = refunded agent day amount ` set (pt_mandates db)"
  by (auto simp: refundMandate_def update_rows_def refunded_def)

lemma refunded_fields [simp]:
  "mn_agent (refunded agent day amount m) = mn_agent m"
  "dayKey (mn_snapshot (refunded agent day amount m)) = dayKey (mn_snapshot m)"
  "dailyLimitUnits (mn_snapshot (refunded agent day amount m)) = dailyLimitUnits (mn_snapshot m)"
  by (simp_all add: refunded_def)

lemma refund_exact:
  assumes exact: "mandate_exact payments m" and u: "unique_key py_id payments" and r: "r \<in> set payments" "live r"
    and d: "py_mandateDayKey r = Some day" and f: "\<not> live (f r)"
  shows "mandate_exact (update_rows (\<lambda>q. py_id q = py_id r) f payments)
    (refunded (holder r) day (py_amountUnits r) m)"
proof -
  let ?ps = "update_rows (\<lambda>q. py_id q = py_id r) f payments"
  let ?m = "refunded (holder r) day (py_amountUnits r) m"
  let ?sum = "\<lambda>ps. sum_list (map (reserved (mn_agent m) (dayKey (mn_snapshot m))) ps)"
  have sub: "q \<in> set payments" if q: "q \<in> set ?ps" "live q" for q
  proof -
    from q(1) set_update_key [OF u r(1), of q f] have "q = f r \<or> q \<in> set payments" by auto
    with q(2) f show ?thesis by auto
  qed
  have sums: "?sum ?ps = ?sum payments - reserved (mn_agent m) (dayKey (mn_snapshot m)) r"
    using sum_update_one [OF u r(1), of _ f] f by (simp add: reserved_def)
  have nonneg: "0 \<le> reserved (mn_agent m) (dayKey (mn_snapshot m)) q" if "q \<in> set payments" for q
    using exact that by (auto simp: mandate_exact_def Let_def reserved_def)
  have "0 \<le> reserved (mn_agent m) (dayKey (mn_snapshot m)) q" if "q \<in> set ?ps" for q
  proof (cases "live q")
    case True
    show ?thesis by (rule nonneg [OF sub [OF that True]])
  qed (simp add: reserved_def)
  then have pos: "0 \<le> ?sum ?ps" by (auto intro!: sum_list_nonneg)
  have spent: "spentTodayUnits (mn_snapshot ?m) = ?sum ?ps"
  proof (cases "mn_agent m = holder r \<and> dayKey (mn_snapshot m) = day")
    case True
    then have "reserved (mn_agent m) (dayKey (mn_snapshot m)) r = py_amountUnits r"
      using r(2) d by (simp add: reserved_def)
    with True exact pos sums show ?thesis by (simp add: refunded_def mandate_exact_def Let_def)
  next
    case False
    then have "reserved (mn_agent m) (dayKey (mn_snapshot m)) r = 0" using d by (auto simp: reserved_def)
    with False exact sums show ?thesis by (auto simp: refunded_def mandate_exact_def Let_def)
  qed
  moreover have "?sum ?ps \<le> dailyLimitUnits (mn_snapshot m)"
    using exact sums nonneg [OF r(1)] by (auto simp: mandate_exact_def Let_def)
  moreover have "sum_list (map (reserved (mn_agent m) e) ?ps) \<le> dailyLimitUnits (mn_snapshot m)" for e
  proof -
    have "0 \<le> reserved (mn_agent m) e r"
      using exact r by (auto simp: mandate_exact_def Let_def reserved_def)
    moreover have "sum_list (map (reserved (mn_agent m) e) payments) \<le> dailyLimitUnits (mn_snapshot m)"
      using exact by (simp add: mandate_exact_def Let_def)
    ultimately show ?thesis
      using sum_update_one [OF u r(1), of "reserved (mn_agent m) e" f] f by (simp add: reserved_def)
  qed
  ultimately show ?thesis
    using exact pos sub by (simp add: mandate_exact_def Let_def)
qed

lemma update_rows_cong_on:
  "(\<And>r. r \<in> set rows \<Longrightarrow> P r \<longleftrightarrow> Q r) \<Longrightarrow> update_rows P f rows = update_rows Q f rows"
  by (induction rows) auto

lemma fenced_unique:
  assumes "unique_key py_id payments" and "r \<in> set payments" and "fenced claimed r" and "q \<in> set payments"
  shows "fenced claimed q \<longleftrightarrow> py_id q = py_id r"
  using assms(3) unique_key_eq [OF assms(1,4,2)] by (auto simp: fenced_def)

lemma failSettlement_cases:
  assumes "failSettlement claimed failure keyHash s = s'" and "unique_key py_id (pt_payments s)"
  obtains (unknown) "s' = failX402 claimed s"
  | (failed) r where "r \<in> set (pt_payments s)" and "fenced claimed r"
      and "s' = (case py_mandateDayKey r of
             Some day \<Rightarrow> refundMandate (case py_agentId r of Some a \<Rightarrow> a | None \<Rightarrow> keyHash) day (py_amountUnits r)
                (update_payments (\<lambda>q. py_id q = py_id r) (\<lambda>q. q\<lparr>py_status := ''failed''\<rparr>) s)
           | None \<Rightarrow> update_payments (\<lambda>q. py_id q = py_id r) (\<lambda>q. q\<lparr>py_status := ''failed''\<rparr>) s)"
proof (cases "matching_rows (fenced claimed) (pt_payments s)")
  case Nil
  then have no: "\<forall>r \<in> set (pt_payments s). \<not> fenced claimed r" by (simp add: matching_rows_Nil)
  then have "s' = s" using assms(1) Nil update_rows_no_match [OF no]
    by (simp add: failSettlement_def Let_def update_payments_def)
  moreover have "failX402 claimed s = s" using update_rows_no_match [OF no]
    by (simp add: failX402_def update_payments_def)
  ultimately show ?thesis using unknown by simp
next
  case (Cons r rest)
  then have "r \<in> set (matching_rows (fenced claimed) (pt_payments s))" by simp
  then have r: "r \<in> set (pt_payments s)" "fenced claimed r" by (simp_all add: set_matching_rows)
  show ?thesis
  proof (cases failure)
    case (Uncertain e)
    with assms(1) Cons have "s' = failX402 claimed s"
      by (auto simp: failSettlement_def Let_def failX402_def split: option.splits)
    then show ?thesis by (rule unknown)
  next
    case (Reverted e)
    have "update_payments (fenced claimed) f s = update_payments (\<lambda>q. py_id q = py_id r) f s" for f
      unfolding update_payments_def
      by (simp add: update_rows_cong_on [OF fenced_unique [OF assms(2) r]])
    with Reverted assms(1) Cons failed [OF r] show ?thesis
      by (simp add: failSettlement_def Let_def split: option.splits)
  qed
qed

lemma unique_refund: "unique_key mn_agent (pt_mandates (refundMandate agent day amount db))
    = unique_key mn_agent (pt_mandates db)"
  by (simp add: refundMandate_def unique_key_update)

lemma fail_ok:
  assumes ok: "pay_ok s" and claim: "row \<in> set (sy_claims s)"
  shows "pay_ok (s\<lparr>sy_db := failSettlement row failure (py_keyHash row) (sy_db s)\<rparr>)
    \<and> payments_keep s (s\<lparr>sy_db := failSettlement row failure (py_keyHash row) (sy_db s)\<rparr>)"
  using refl [of "failSettlement row failure (py_keyHash row) (sy_db s)"] ok_unique [OF ok]
proof (rule failSettlement_cases)
  assume "failSettlement row failure (py_keyHash row) (sy_db s) = failX402 row (sy_db s)"
  then show ?thesis using failX402_ok [OF ok] by simp
next
  fix r :: payment_row
  let ?f = "\<lambda>q :: payment_row. q\<lparr>py_status := ''failed''\<rparr>"
  let ?ps = "pt_payments (sy_db s)"
  let ?ps' = "update_rows (\<lambda>q. py_id q = py_id r) ?f ?ps"
  let ?db1 = "update_payments (\<lambda>q. py_id q = py_id r) ?f (sy_db s)"
  let ?db = "failSettlement row failure (py_keyHash row) (sy_db s)"
  let ?t = "s\<lparr>sy_db := ?db\<rparr>"
  assume r: "r \<in> set ?ps" "fenced row r"
    and res: "?db = (case py_mandateDayKey r of
             Some day \<Rightarrow> refundMandate (case py_agentId r of Some a \<Rightarrow> a | None \<Rightarrow> py_keyHash row) day (py_amountUnits r) ?db1
           | None \<Rightarrow> ?db1)"
  note u = ok_unique [OF ok]
  have r_ok: "row_ok r" by (rule ok_rows [OF ok r(1)])
  have st: "py_status r = ''settling''" using r(2) by (simp add: fenced_def)
  then obtain day where day: "py_mandateDayKey r = Some day" using ok_day [OF ok r(1)] by auto
  from ok_claim [OF ok claim] obtain q where q: "q \<in> set ?ps" "py_id q = py_id row" "py_keyHash q = py_keyHash row"
    by (auto simp: claim_ok_def)
  moreover have "py_id r = py_id row" using r(2) by (simp add: fenced_def)
  ultimately have "r = q" using unique_key_eq [OF u r(1) q(1)] by simp
  with q(3) day res have db: "?db = refundMandate (holder r) day (py_amountUnits r) ?db1"
    by (simp add: holder_def cong: option.case_cong)
  then have ps: "pt_payments ?db = ?ps'"
    and mandates: "set (pt_mandates ?db) = refunded (holder r) day (py_amountUnits r) ` set (pt_mandates (sy_db s))"
    and um: "unique_key mn_agent (pt_mandates ?db)"
    using ok by (simp_all add: set_refundMandate update_payments_def unique_refund pay_ok_def Let_def)
      (simp add: refundMandate_def)
  have only: "a = r" if "a \<in> set ?ps" "py_id a = py_id r" for a
    by (rule unique_key_eq [OF u that(1) r(1) that(2)])
  have ev: "evolves a (?f a) \<and> row_ok (?f a)" if "a \<in> set ?ps" "py_id a = py_id r" for a
    using only [OF that] r_ok st day by (auto simp: status_defs)
  have keep: "payments_keep s ?t"
    by (rule keep_update [where P = "\<lambda>q. py_id q = py_id r" and f = ?f]) (use ps ev in auto)
  have "mandate_exact ?ps' m \<and> dayKey (mn_snapshot m) \<le> sy_day s" if m: "m \<in> set (pt_mandates ?db)" for m
  proof -
    from m mandates obtain n where n: "n \<in> set (pt_mandates (sy_db s))"
      "m = refunded (holder r) day (py_amountUnits r) n" by auto
    moreover have "mandate_exact ?ps n \<and> dayKey (mn_snapshot n) \<le> sy_day s"
      using ok n(1) by (simp add: pay_ok_def Let_def)
    moreover have "live r" "\<not> live (?f r)" using st by (simp_all add: live_def)
    ultimately show ?thesis using refund_exact [OF _ u r(1) _ day, of n ?f] by simp
  qed
  moreover have "unique_key py_id ?ps'" by (subst unique_key_update_on) (simp_all add: u)
  moreover have "unique_opt payment_intent ?ps'"
    by (subst unique_opt_update_on) (use ok in \<open>simp_all add: payment_intent_def pay_ok_def Let_def\<close>)
  moreover have "unique_opt x402_key ?ps'"
    by (subst unique_opt_update_on) (use ok in \<open>simp_all add: pay_ok_def Let_def\<close>)
  moreover have "\<forall>a \<in> set ?ps'. row_ok a"
    using ev ok_rows [OF ok] by (auto simp: set_update_rows)
  moreover have "\<forall>c \<in> set (sy_claims s). claim_ok ?ps' c"
    using ok claims_kept [OF keep] ps by (auto simp: pay_ok_def Let_def)
  ultimately have "pay_ok ?t" using ps um by (simp add: pay_ok_def Let_def)
  with keep show ?thesis by simp
qed

lemma open_ok:
  assumes ok: "pay_ok s"
    and opened: "openPayment fresh keyHash amount intentKey requestHash agentId listingId (sy_db s) = Inr (row, db)"
    and fresh: "\<forall>r \<in> set (pt_payments (sy_db s)). py_id r \<noteq> fresh"
  shows "pay_ok (s\<lparr>sy_db := db\<rparr>) \<and> payments_keep s (s\<lparr>sy_db := db\<rparr>)"
proof (cases "existing_intent keyHash intentKey (sy_db s)")
  case (Some existing)
  with opened have "db = sy_db s" by (auto simp: openPayment_def split: if_splits)
  with ok show ?thesis by (simp add: keep_same)
next
  case None
  let ?row = "open_row fresh keyHash amount intentKey requestHash agentId listingId"
  let ?ps = "pt_payments (sy_db s)"
  from None opened have db: "db = (sy_db s)\<lparr>pt_payments := ?ps @ [?row]\<rparr>"
    and intent: "payment_intent ?row = None \<or> \<not> list_ex (\<lambda>r. payment_intent r = payment_intent ?row) ?ps"
    by (auto simp: openPayment_def Let_def split: if_splits)
  have keep: "payments_keep s (s\<lparr>sy_db := db\<rparr>)" by (rule keep_append) (simp add: db)
  have row: "py_id ?row = fresh" "x402_key ?row = None" "row_ok ?row" "\<not> live ?row"
    by (simp_all add: open_row_def x402_key_def row_ok_def statuses_def live_def)
  have "unique_opt payment_intent (?ps @ [?row])"
    using ok intent by (auto simp: unique_opt_snoc pay_ok_def Let_def list_ex_iff)
  moreover have "mandate_exact (?ps @ [?row]) m" if "mandate_exact ?ps m" for m
    using that row(4) by (auto simp: mandate_exact_def Let_def reserved_def)
  moreover have "claim_ok (?ps @ [?row]) c" if "claim_ok ?ps c" for c
    using claims_kept [OF keep that] by (simp add: db)
  ultimately have "pay_ok (s\<lparr>sy_db := db\<rparr>)"
    using ok fresh row by (auto simp: pay_ok_def Let_def unique_key_snoc unique_opt_snoc db)
  with keep show ?thesis by simp
qed

lemma agent_ok:
  assumes ok: "pay_ok s" and no: "\<forall>r \<in> set (pt_payments (sy_db s)). holder r \<noteq> agent"
    "\<forall>m \<in> set (pt_mandates (sy_db s)). mn_agent m \<noteq> agent" and limit: "0 \<le> limit"
  shows "pay_ok (s\<lparr>sy_db := createAgentMandate agent limit (sy_day s) (sy_db s)\<rparr>)
    \<and> payments_keep s (s\<lparr>sy_db := createAgentMandate agent limit (sy_day s) (sy_db s)\<rparr>)"
proof -
  have "map (reserved agent day) (pt_payments (sy_db s)) = map (\<lambda>_. 0) (pt_payments (sy_db s))" for day
    using no(1) by (simp add: reserved_def)
  then have "sum_list (map (reserved agent day) (pt_payments (sy_db s))) = 0" for day
    by (simp only: sum_list_0)
  then have "mandate_exact (pt_payments (sy_db s)) \<lparr>mn_agent = agent,
      mn_snapshot = \<lparr>dailyLimitUnits = limit, spentTodayUnits = 0, dayKey = day\<rparr>\<rparr>" for day
    using no(1) limit by (simp add: mandate_exact_def Let_def)
  with ok no(2) show ?thesis
    by (auto simp: pay_ok_def Let_def createAgentMandate_def unique_key_snoc keep_same)
qed

lemma day_ok:
  assumes "pay_ok s" and "sy_day s \<le> day"
  shows "pay_ok (s\<lparr>sy_day := day\<rparr>) \<and> payments_keep s (s\<lparr>sy_day := day\<rparr>)"
  using assms by (auto simp: pay_ok_def Let_def keep_same intro: order_trans)

lemma pay_step_ok:
  assumes "pay_step s t" and "pay_ok s"
  shows "pay_ok t \<and> payments_keep s t"
  using assms
  by (induction rule: pay_step.induct)
     ((rule day_ok agent_ok challenge_ok claim_ok_step claim_x402_step finalize_ok fail_ok finalizeX402_ok
         failX402_ok sweep_ok pay_consume_ok receipt_ok open_ok; assumption)+)

interpretation payments: history_system pay_start pay_step pay_ok payments_keep
proof unfold_locales
  show "payments_keep s s" for s by (simp add: keep_same)
  show "pay_ok s" if "pay_start s" for s using that by (rule pay_start_ok)
  show "payments_keep s u" if "payments_keep s t" "payments_keep t u" for s t u
    using that by (rule payments_keep_trans)
qed (use pay_step_ok in auto)

section \<open>A worked history\<close>

text \<open>An agent with a limit of 10 pays 4: opened, claimed, settled, consumed.\<close>

definition demo_pay_config :: pay_config where
  "demo_pay_config = \<lparr>pc_paymentMode = ''mock'', pc_meterConfigured = False, pc_chainId = 31337,
     pc_priceUnits = 4, pc_usdc = ''u'', pc_usageMeter = ''m'', pc_feeVault = ''v'', pc_domainName = ''n'',
     pc_domainVersion = ''1''\<rparr>"

definition demo_world :: "int \<Rightarrow> pay_world" where
  "demo_world now = \<lparr>pw_now = now, pw_day = ''d'', pw_scope = Inr ''s'', pw_admission = Inr (),
     pw_x402Admission = (\<lambda>_. Inr (''x'', ''y''))\<rparr>"

definition demo_mandate :: "int \<Rightarrow> mandate_row" where
  "demo_mandate spent = \<lparr>mn_agent = ''a'',
     mn_snapshot = \<lparr>dailyLimitUnits = 10, spentTodayUnits = spent, dayKey = ''d''\<rparr>\<rparr>"

definition demo_open :: payment_row where
  "demo_open = open_row ''p'' ''k'' 4 (Some ''i'') ''h'' (Some ''a'') None"

definition demo_claim :: payment_row where
  "demo_claim = settling_row demo_pay_config (demo_world 5) None False None demo_open"

definition demo_settled :: payment_row where
  "demo_settled = demo_claim\<lparr>py_status := ''settled'', py_settleTx := Some ''sim:p'', py_settlingStartedAt := None\<rparr>"

definition demo_sys :: "payment_row list \<Rightarrow> mandate_row list \<Rightarrow> payment_row list \<Rightarrow> pay_sys" where
  "demo_sys payments mandates claims = \<lparr>sy_db = \<lparr>pt_payments = payments, pt_mandates = mandates\<rparr>,
     sy_claims = claims, sy_day = ''d''\<rparr>"

lemmas demo_defs = demo_sys_def demo_settled_def demo_claim_def demo_open_def demo_mandate_def demo_world_def
  demo_pay_config_def open_row_def settling_row_def nullish_def holder_def

abbreviation demo_1 :: pay_sys where "demo_1 \<equiv> demo_sys [] [demo_mandate 0] []"
abbreviation demo_2 :: pay_sys where "demo_2 \<equiv> demo_sys [demo_open] [demo_mandate 0] []"
abbreviation demo_3 :: pay_sys where "demo_3 \<equiv> demo_sys [demo_claim] [demo_mandate 4] [demo_claim]"
abbreviation demo_4 :: pay_sys where "demo_4 \<equiv> demo_sys [demo_settled] [demo_mandate 4] [demo_claim]"

lemma demo_claimed:
  "claimSettlement demo_pay_config (demo_world 5) (\<lambda>_ _. Inr ()) None ''k'' ''p'' False None (sy_db demo_2)
     = Inr (Claimed demo_claim, sy_db demo_3)"
  by (simp add: demo_defs claimSettlement_def payment_by_id_def admit_open_def assertMandateTx_def
      reserveMandate_def update_payments_def Let_def)

lemma demo_steps: "pay_step demo_1 demo_2" "pay_step demo_2 demo_3" "pay_step demo_3 demo_4"
proof -
  have "openPayment ''p'' ''k'' 4 (Some ''i'') ''h'' (Some ''a'') None (sy_db demo_1) = Inr (demo_open, sy_db demo_2)"
    by (simp add: demo_defs openPayment_def existing_intent_def Let_def)
  from step_open [OF this] show "pay_step demo_1 demo_2" by (simp add: demo_sys_def)
  from step_claim [OF demo_claimed] show "pay_step demo_2 demo_3"
    by (simp add: demo_sys_def demo_world_def demo_pay_config_def)
  have "demo_4 = demo_3\<lparr>sy_db := finalizeSettlement demo_claim ''sim:p'' (sy_db demo_3)\<rparr>"
    by (simp add: demo_defs finalizeSettlement_def fenced_def update_payments_def)
  moreover have "py_settlementMode demo_claim \<noteq> Some ''x402''" by (simp add: demo_defs)
  ultimately show "pay_step demo_3 demo_4"
    using step_finalize [of demo_claim demo_3 "''sim:p''"] by (simp add: demo_sys_def)
qed

lemma demo_pay_reachable: "reachable pay_start pay_step demo_1" "reachable pay_start pay_step demo_2"
  "reachable pay_start pay_step demo_3" "reachable pay_start pay_step demo_4"
proof -
  have "reachable pay_start pay_step (demo_sys [] [] [])"
    by (rule reachable_start) (simp add: pay_start_def demo_sys_def)
  moreover have "pay_step (demo_sys [] [] []) demo_1"
    using step_agent [of "demo_sys [] [] []" "''a''" 10] by (simp add: demo_sys_def createAgentMandate_def demo_mandate_def)
  ultimately show 1: "reachable pay_start pay_step demo_1" by (rule reachable_step)
  from this demo_steps(1) show 2: "reachable pay_start pay_step demo_2" by (rule reachable_step)
  from this demo_steps(2) show 3: "reachable pay_start pay_step demo_3" by (rule reachable_step)
  from this demo_steps(3) show "reachable pay_start pay_step demo_4" by (rule reachable_step)
qed

section \<open>Properties\<close>



lemma payment_later:
  assumes "reachable pay_start pay_step s" and "pay_step\<^sup>*\<^sup>* s t" and "r \<in> set (pt_payments (sy_db s))"
  shows "\<exists>r' \<in> set (pt_payments (sy_db t)). fixed_fields r' = fixed_fields r
    \<and> status_reaches (py_status r) (py_status r')
    \<and> (py_status r \<in> {''settled'', ''consumed''} \<longrightarrow> py_settleTx r' = py_settleTx r \<and> py_settleTx r' \<noteq> None)
    \<and> once (py_settlementMode r) (py_settlementMode r') \<and> once (py_mandateDayKey r) (py_mandateDayKey r')
    \<and> once (x402_key r) (x402_key r')"
proof -
  from payments.keeps_from_reachable [OF assms(1,2)] assms(3)
  obtain r' where r': "r' \<in> set (pt_payments (sy_db t))" "evolves r r'" by (auto simp: payments_keep_def)
  have "row_ok r" using ok_rows [OF payments.inv_reachable [OF assms(1)] assms(3)] .
  with r'(2) show ?thesis by (intro bexI [OF _ r'(1)]) (auto simp: evolves_def row_ok_def)
qed

text \<open>
  A payment's identity, owner, amount, intent, bound request, agent and listing never
  change; its status only moves along the life cycle (nothing leaves consumed or failed, a settled
  payment can only be consumed); the transaction of a settled payment, the protocol it settles by,
  its mandate day and the token authorization it is bound to are never replaced.
\<close>

theorem payment_history:
  assumes "reachable pay_start pay_step s" and "pay_step\<^sup>*\<^sup>* s t" and "r \<in> set (pt_payments (sy_db s))"
  shows "\<exists>r' \<in> set (pt_payments (sy_db t)). fixed_fields r' = fixed_fields r
    \<and> status_reaches (py_status r) (py_status r')
    \<and> (py_status r \<in> {''settled'', ''consumed''} \<longrightarrow> py_settleTx r' = py_settleTx r \<and> py_settleTx r' \<noteq> None)
    \<and> once (py_settlementMode r) (py_settlementMode r') \<and> once (py_mandateDayKey r) (py_mandateDayKey r')
    \<and> once (x402_key r) (x402_key r')"
  using assms by (rule payment_later)

theorem payment_history_witness:
  "\<exists>r' \<in> set (pt_payments (sy_db demo_4)). fixed_fields r' = fixed_fields demo_claim
    \<and> status_reaches ''settling'' (py_status r')"
proof -
  have "pay_step\<^sup>*\<^sup>* demo_3 demo_4" using demo_steps(3) by simp
  from payment_history [OF demo_pay_reachable(3) this, of demo_claim] show ?thesis
    by (auto simp: demo_sys_def demo_claim_def settling_row_def)
qed

lemma consume_needs_settled:
  "payment_by_id pid db = Some row \<Longrightarrow> py_status row \<noteq> ''settled'' \<Longrightarrow>
    \<exists>e. consumePayment cfg proofs k pid amount h v db = Inl e"
  by (auto simp: consumePayment_def)

text \<open>
  Claim C2. A payment is consumed at most once: once a consumption of it has committed, every later
  consumption or validation of the same payment fails, whatever ran in between and whoever asks.
\<close>

theorem consumed_at_most_once:
  assumes "reachable pay_start pay_step s"
    and used: "consumePayment cfg proofs keyHash pid amount h False (sy_db s) = Inr (u, db)"
    and run: "pay_step\<^sup>*\<^sup>* (s\<lparr>sy_db := db\<rparr>) t"
  shows "\<exists>e. consumePayment cfg' proofs' keyHash' pid amount' h' validateOnly (sy_db t) = Inl e"
proof -
  have step: "pay_step s (s\<lparr>sy_db := db\<rparr>)" using used by (rule step_consume)
  with assms(1) have r1: "reachable pay_start pay_step (s\<lparr>sy_db := db\<rparr>)" by (rule reachable_step)
  from consumePayment_Inr [OF used] obtain row where row: "payment_by_id pid (sy_db s) = Some row"
    "py_status row = ''settled''" and db: "db = update_payments (\<lambda>r. py_id r = pid \<and> py_status r = ''settled'')
       (\<lambda>r. r\<lparr>py_status := ''consumed''\<rparr>) (sy_db s)" by auto
  let ?row = "row\<lparr>py_status := ''consumed''\<rparr>"
  have "?row \<in> set (pt_payments (sy_db (s\<lparr>sy_db := db\<rparr>)))"
    using payment_in [OF row(1)] row(2) by (auto simp: db update_payments_def set_update_rows)
  from payment_later [OF r1 run this] obtain r' where r': "r' \<in> set (pt_payments (sy_db t))"
    "fixed_fields r' = fixed_fields ?row" "status_reaches ''consumed'' (py_status r')" by auto
  have "payments_keep (s\<lparr>sy_db := db\<rparr>) t" by (rule payments.keeps_from_reachable [OF r1 run])
  have "pay_ok t" using payments.inv_run [OF run payments.inv_reachable [OF r1]] .
  then have "select_row (\<lambda>q. py_id q = py_id r') (pt_payments (sy_db t)) = Some r'"
    using ok_unique r'(1) by (blast intro: select_row_key)
  moreover have "py_id r' = pid" using r'(2) payment_in [OF row(1)] by (simp add: fixed_fields_def)
  ultimately have "payment_by_id pid (sy_db t) = Some r'" by (simp add: payment_by_id_def)
  moreover have "py_status r' \<noteq> ''settled''" using r'(3) by (auto simp: status_reaches_def)
  ultimately show ?thesis by (rule consume_needs_settled)
qed

theorem consumed_at_most_once_witness:
  "\<exists>db e. consumePayment demo_pay_config (\<lambda>_. Inr ()) ''k'' ''p'' 4 ''h'' False (sy_db demo_4) = Inr ((), db)
     \<and> consumePayment demo_pay_config (\<lambda>_. Inr ()) ''k'' ''p'' 4 ''h'' False db = Inl e"
proof -
  let ?db = "(sy_db demo_4)\<lparr>pt_payments := [demo_settled\<lparr>py_status := ''consumed''\<rparr>]\<rparr>"
  have used: "consumePayment demo_pay_config (\<lambda>_. Inr ()) ''k'' ''p'' 4 ''h'' False (sy_db demo_4) = Inr ((), ?db)"
    by (simp add: demo_defs consumePayment_def payment_by_id_def update_payments_def)
  have "pay_step\<^sup>*\<^sup>* (demo_4\<lparr>sy_db := ?db\<rparr>) (demo_4\<lparr>sy_db := ?db\<rparr>)" by simp
  from consumed_at_most_once [OF demo_pay_reachable(4) used this] used show ?thesis by fastforce
qed

text \<open>
  Claim C5. One signed token authorization (deployment, payer, nonce) is bound to at most one
  payment: two x402 payments never rest on the same authorization.
\<close>

theorem one_authorization_one_payment:
  assumes "reachable pay_start pay_step s" and "q \<in> set (pt_payments (sy_db s))" and "r \<in> set (pt_payments (sy_db s))"
    and "x402_key q = Some k" and "x402_key r = Some k"
  shows "q = r"
  using payments.inv_reachable [OF assms(1)] assms(2-) by (auto simp: pay_ok_def Let_def intro: unique_opt_eq)

definition demo_x402_config :: pay_config where
  "demo_x402_config = \<lparr>pc_paymentMode = ''authorized'', pc_meterConfigured = True, pc_chainId = 5,
     pc_priceUnits = 7, pc_usdc = ri_asset demo_input, pc_usageMeter = ri_payTo demo_input, pc_feeVault = ''v'',
     pc_domainName = ''USDC'', pc_domainVersion = ''2''\<rparr>"

definition demo_intent :: payment_row where
  "demo_intent = open_row ''p'' ''k'' 7 None ''h'' None None"

definition demo_x402_claim :: "payment_row option" where
  "demo_x402_claim =
     (case x402Challenge demo_x402 demo_x402_config (demo_world 5) ''s'' ''1'' ''k'' ''p'' ''https://a''
         \<lparr>pt_payments = [demo_intent], pt_mandates = []\<rparr> of
        Inr (req, db) \<Rightarrow>
          (case claimX402 demo_x402 (demo_world 5) (JInt 3) ''s'' ''k'' ''p'' (demo_payload req) ''https://a'' ''h'' db of
             Inr (ClaimedX402 row d auth, db') \<Rightarrow>
               if row \<in> set (pt_payments db') \<and> x402_key row \<noteq> None then Some row else None
           | _ \<Rightarrow> None)
      | Inl _ \<Rightarrow> None)"

lemma demo_x402_claimed: "demo_x402_claim \<noteq> None"
  by code_simp

lemma demo_x402_reachable:
  "\<exists>s row k. reachable pay_start pay_step s \<and> row \<in> set (pt_payments (sy_db s)) \<and> x402_key row = Some k"
proof -
  let ?s0 = "demo_sys [] [] []" and ?s1 = "demo_sys [demo_intent] [] []"
  have "reachable pay_start pay_step ?s0"
    by (rule reachable_start) (simp add: pay_start_def demo_sys_def)
  moreover have "openPayment ''p'' ''k'' 7 None ''h'' None None (sy_db ?s0) = Inr (demo_intent, sy_db ?s1)"
    by (simp add: demo_sys_def demo_intent_def openPayment_def existing_intent_def Let_def payment_intent_def
        open_row_def)
  then have "pay_step ?s0 ?s1" using step_open [of _ _ _ _ _ _ _ ?s0] by (simp add: demo_sys_def)
  ultimately have r1: "reachable pay_start pay_step ?s1" by (rule reachable_step)
  from demo_x402_claimed obtain req db row d auth db' where
    c: "x402Challenge demo_x402 demo_x402_config (demo_world 5) ''s'' ''1'' ''k'' ''p'' ''https://a''
         \<lparr>pt_payments = [demo_intent], pt_mandates = []\<rparr> = Inr (req, db)"
      "claimX402 demo_x402 (demo_world 5) (JInt 3) ''s'' ''k'' ''p'' (demo_payload req) ''https://a'' ''h'' db
         = Inr (ClaimedX402 row d auth, db')" "row \<in> set (pt_payments db')" "x402_key row \<noteq> None"
    by (auto simp: demo_x402_claim_def split: sum.splits prod.splits x402_claim.splits if_splits)
  let ?s2 = "?s1\<lparr>sy_db := db\<rparr>"
  have "pay_step ?s1 ?s2" by (rule step_challenge) (use c(1) in \<open>simp add: demo_sys_def\<close>)
  with r1 have r2: "reachable pay_start pay_step ?s2" by (rule reachable_step)
  have "pay_step ?s2 (?s2\<lparr>sy_db := db', sy_claims := row # sy_claims ?s2\<rparr>)"
    by (rule step_claim_x402 [where env = demo_x402 and w = "demo_world 5"])
       (use c(2) in \<open>simp_all add: demo_world_def demo_sys_def\<close>)
  with r2 have "reachable pay_start pay_step (?s2\<lparr>sy_db := db', sy_claims := row # sy_claims ?s2\<rparr>)"
    by (rule reachable_step)
  then show ?thesis using c(3,4) by fastforce
qed

theorem one_authorization_one_payment_witness:
  "\<exists>(s :: pay_sys) k. \<exists>r \<in> set (pt_payments (sy_db s)). x402_key r = Some k
     \<and> (\<forall>q \<in> set (pt_payments (sy_db s)). x402_key q = Some k \<longrightarrow> q = r)"
proof -
  from demo_x402_reachable obtain s row k where s: "reachable pay_start pay_step s"
    "row \<in> set (pt_payments (sy_db s))" "x402_key row = Some k" by blast
  show ?thesis
    using one_authorization_one_payment [OF s(1) _ s(2) _ s(3)] s(3)
    by (intro exI [of _ s] exI [of _ k] bexI [OF _ s(2)]) auto
qed

lemma stale_no_effect:
  assumes "\<forall>r \<in> set (pt_payments db). \<not> fenced claimed r"
  shows "finalizeSettlement claimed tx db = db \<and> failSettlement claimed failure k db = db
    \<and> finalizeX402 claimed d tx fundingTx db = db \<and> failX402 claimed db = db"
proof -
  have "update_payments (fenced claimed) f db = db" for f
    using update_rows_no_match [OF assms] by (simp add: update_payments_def)
  moreover have "matching_rows (fenced claimed) (pt_payments db) = []"
    using assms by (simp add: matching_rows_Nil)
  ultimately show ?thesis
    by (simp add: finalizeSettlement_def failSettlement_def finalizeX402_def failX402_def Let_def)
qed

lemma swept_not_fenced:
  assumes "reopenStuckSettling olderThanMs now s = (n, db)" and "py_settlingStartedAt claimed = Some started"
    and "started < now - olderThanMs" and "r \<in> set (pt_payments db)"
  shows "\<not> fenced claimed r"
  using assms by (auto simp: reopenStuckSettling_def update_payments_def set_update_rows fenced_def stuck_def)



lemma already_settled_Inr:
  assumes "claimSettlement cfg w validate scope keyHash paymentId confidential authorization db
     = Inr (AlreadySettled tx row, db')"
  shows "payment_by_id paymentId db = Some row \<and> py_keyHash row = keyHash \<and> py_status row = ''settled''
    \<and> tx = (case py_settleTx row of Some t \<Rightarrow> t | None \<Rightarrow> []) \<and> db' = db"
proof -
  obtain r where r: "payment_by_id paymentId db = Some r"
    using assms by (auto simp: claimSettlement_def split: option.splits)
  with assms have k: "py_keyHash r = keyHash" "py_settlementMode r \<noteq> Some ''x402''"
    by (auto simp: claimSettlement_def split: if_splits)
  from assms r k show ?thesis
    by (cases "py_status r = ''settled''") (auto simp: claimSettlement_def rbind_Inr_iff split: if_splits)
qed

lemma payment_by_id_update:
  assumes "\<And>r. py_id (f r) = py_id r"
  shows "payment_by_id pid (update_payments P f db)
    = map_option (\<lambda>r. if P r then f r else r) (payment_by_id pid db)"
  by (simp add: payment_by_id_def update_payments_def select_row_update [where key = py_id and f = f, OF assms])

lemma claimed_row_stored:
  assumes "pay_ok s"
    and "claimSettlement cfg w validate scope keyHash paymentId confidential authorization (sy_db s)
       = Inr (Claimed row, db)"
  shows "payment_by_id paymentId db = Some row \<and> py_keyHash row = keyHash \<and> fenced row row
    \<and> py_confidential row = confidential"
  using assms(2)
proof (rule claimSettlement_Inr)
  fix r db1
  let ?f = "settling_row cfg w scope confidential authorization"
  assume r: "payment_by_id paymentId (sy_db s) = Some r" "py_keyHash r = keyHash" and row: "row = ?f r"
    and db: "db = update_payments (\<lambda>q. py_id q = paymentId) ?f db1"
    and c: "(py_status r = ''open'' \<and> assertMandateTx (pw_day w) (holder r) (py_amountUnits r) (sy_db s) = Inr ((), db1)) \<or>
         (py_status r = ''settlement_unknown'' \<and> py_settlementMode r \<noteq> None \<and> db1 = sy_db s)"
  from c have "pt_payments db1 = pt_payments (sy_db s)"
    using assertMandate_payments [OF _ assms(1)] by blast
  with r(1) have "payment_by_id paymentId db1 = Some r" by (simp add: payment_by_id_def)
  then have "payment_by_id paymentId db = Some row"
    using payment_in [OF r(1)] by (simp add: db row payment_by_id_update settling_row_def)
  with r(2) show ?thesis by (simp add: row fenced_def settling_row_def)
qed

lemma performSettlement_Inr:
  assumes "performSettlement cfg w validate external between keyHash paymentId confidential authorization db0 = (Inr res, db)"
  obtains (already) scope tx row where
      "claimSettlement cfg w validate scope keyHash paymentId confidential authorization db0 = Inr (AlreadySettled tx row, db)"
      "res = \<lparr>sr_paymentId = paymentId, sr_tx = tx, sr_confidential = py_confidential row\<rparr>"
  | (fresh) scope tx row db1 where
      "claimSettlement cfg w validate scope keyHash paymentId confidential authorization db0 = Inr (Claimed row, db1)"
      "res = \<lparr>sr_paymentId = paymentId, sr_tx = tx, sr_confidential = confidential\<rparr>"
      "db = finalizeSettlement row tx (between db1)"
proof -
  from assms obtain scope where scope: "current_scope cfg w = Inr scope" "confidential_available cfg confidential"
    by (auto simp: performSettlement_def split: if_splits sum.splits)
  show ?thesis
  proof (cases rule: run_tx_cases [of "claimSettlement cfg w validate scope keyHash paymentId confidential authorization" db0])
    case (aborted e)
    with assms scope show ?thesis by (simp add: performSettlement_def)
  next
    case (committed c db1)
    show ?thesis
    proof (cases c)
      case (AlreadySettled tx row)
      with assms scope committed already show ?thesis by (auto simp: performSettlement_def)
    next
      case (Claimed row)
      with assms scope committed fresh show ?thesis
        by (auto simp: performSettlement_def split: sum.split_asm)
    qed
  qed
qed

text \<open>
  What a settlement reports is what the database records: when \<open>performSettlement\<close> returns
  a result, the caller owns the payment, and the payment is stored as settled, under the returned
  transaction and confidentiality, whether this attempt or an earlier one settled it.
\<close>

theorem reported_settlement_is_recorded:
  assumes "reachable pay_start pay_step s"
    and "performSettlement cfg w validate external id keyHash paymentId confidential authorization (sy_db s) = (Inr res, db)"
  shows "\<exists>row. payment_by_id paymentId db = Some row \<and> py_keyHash row = keyHash \<and> py_status row = ''settled''
    \<and> py_settleTx row = Some (sr_tx res) \<and> py_confidential row = sr_confidential res \<and> sr_paymentId res = paymentId"
proof -
  note ok = payments.inv_reachable [OF assms(1)]
  from assms(2) show ?thesis
  proof (cases rule: performSettlement_Inr)
    case (already scope tx row)
    from already_settled_Inr [OF already(1)]
    have row: "payment_by_id paymentId (sy_db s) = Some row" "py_keyHash row = keyHash" "py_status row = ''settled''"
      "tx = (case py_settleTx row of Some t \<Rightarrow> t | None \<Rightarrow> [])" "db = sy_db s" by auto
    have "row_ok row" using ok_rows [OF ok] payment_in [OF row(1)] by blast
    with row(3,4) have "py_settleTx row = Some tx" by (auto simp: row_ok_def)
    with row already(2) show ?thesis by simp
  next
    case (fresh scope tx row db1)
    from claimed_row_stored [OF ok fresh(1)] fresh(2,3) show ?thesis
      by (auto simp: finalizeSettlement_def payment_by_id_update)
  qed
qed

theorem reported_settlement_is_recorded_witness:
  "\<exists>res db row. performSettlement demo_pay_config (demo_world 5) (\<lambda>_ _. Inr ()) (\<lambda>_. Inr []) id ''k'' ''p'' False None
        (sy_db demo_2) = (Inr res, db)
     \<and> payment_by_id ''p'' db = Some row \<and> py_settleTx row = Some (sr_tx res)"
proof -
  let ?run = "performSettlement demo_pay_config (demo_world 5) (\<lambda>_ _. Inr ()) (\<lambda>_. Inr []) id ''k'' ''p'' False None
        (sy_db demo_2)"
  have "current_scope demo_pay_config (demo_world 5) = Inr None" "confidential_available demo_pay_config False"
    by (simp_all add: current_scope_def confidential_available_def demo_pay_config_def)
  moreover have "py_settlementMode demo_claim = Some ''simulated''" by (simp add: demo_defs)
  ultimately obtain res db where run: "?run = (Inr res, db)"
    using demo_claimed by (simp add: performSettlement_def run_tx_def)
  from reported_settlement_is_recorded [OF demo_pay_reachable(2) run] run show ?thesis by blast
qed

text \<open>
  Opening a payment is idempotent: repeating it with the same owner and key returns the
  payment that was opened first and changes nothing, whatever the other arguments are, and a repeat
  bound to a different request is refused.
\<close>

theorem open_payment_idempotent:
  assumes "openPayment fresh keyHash amount (Some key) requestHash agentId listingId db = Inr (row, db')" and "key \<noteq> []"
  shows "openPayment fresh' keyHash amount' (Some key) requestHash' agentId' listingId' db'
     = (if requestHash' = requestHash then Inr (row, db')
        else Inl (ConflictError ''Idempotency key already bound to a different request''))"
proof (cases "existing_intent keyHash (Some key) db")
  case (Some existing)
  with assms(1) have "py_requestHash existing = Some requestHash" "row = existing" "db' = db"
    by (auto simp: openPayment_def split: if_splits)
  with Some show ?thesis by (simp add: openPayment_def)
next
  case None
  let ?row = "open_row fresh keyHash amount (Some key) requestHash agentId listingId"
  from None assms(1) have row: "row = ?row" "db' = db\<lparr>pt_payments := pt_payments db @ [?row]\<rparr>"
    by (auto simp: openPayment_def Let_def split: if_splits)
  from None have "existing_intent keyHash (Some key) db' = Some row"
    using assms(2) by (simp add: existing_intent_def row select_row_snoc open_row_def)
  moreover have "py_requestHash row = Some requestHash" by (simp add: row open_row_def)
  ultimately show ?thesis by (simp add: openPayment_def)
qed

theorem open_payment_idempotent_witness:
  "\<exists>row db. openPayment ''q'' ''k'' 4 (Some ''i'') ''h'' None None \<lparr>pt_payments = [], pt_mandates = []\<rparr> = Inr (row, db)
     \<and> openPayment ''r'' ''k'' 9 (Some ''i'') ''h'' None None db = Inr (row, db)"
proof -
  obtain row db where opened: "openPayment ''q'' ''k'' 4 (Some ''i'') ''h'' None None \<lparr>pt_payments = [], pt_mandates = []\<rparr> = Inr (row, db)"
    by (simp add: openPayment_def existing_intent_def Let_def)
  from open_payment_idempotent [OF this, of "''r''" 9 "''h''" None None] opened show ?thesis by auto
qed

text \<open>
  Another key learns nothing about a payment: every operation that names a payment of a
  different owner answers exactly as for an id that does not exist, and changes nothing.
\<close>

theorem foreign_payment_is_not_found:
  assumes "payment_by_id pid db = Some row" and "py_keyHash row \<noteq> key"
  shows "claimSettlement cfg w validate scope key pid confidential authorization db = Inl (NotFoundError ''payment'' pid)
    \<and> claimX402 env w nowSeconds dep key pid payload url h db = Inl (NotFoundError ''payment'' pid)
    \<and> x402Challenge env cfg w dep fromBlock key pid url db = Inl (NotFoundError ''payment'' pid)
    \<and> paymentAuthorization env acfg w key pid payer db = Inl (NotFoundError ''payment'' pid)
    \<and> consumePayment cfg proofs key pid amount h validateOnly db = Inl (NotFoundError ''payment'' pid)
    \<and> (payment_by_id absent db = None \<longrightarrow>
         claimSettlement cfg w validate scope key absent confidential authorization db
           = Inl (NotFoundError ''payment'' absent))"
  using assms
  by (simp add: claimSettlement_def claimX402_def x402Challenge_def paymentAuthorization_def consumePayment_def)

theorem foreign_payment_is_not_found_witness:
  "claimSettlement demo_pay_config (demo_world 5) (\<lambda>_ _. Inr ()) None ''other'' ''p'' False None (sy_db demo_2)
     = Inl (NotFoundError ''payment'' ''p'')"
proof -
  have "payment_by_id ''p'' (sy_db demo_2) = Some demo_open" "py_keyHash demo_open \<noteq> ''other''"
    by (simp_all add: payment_by_id_def demo_sys_def demo_open_def open_row_def)
  from foreign_payment_is_not_found [OF this] show ?thesis by blast
qed

end
