(* ===== verification/Receipts.thy ===== *)
theory Receipts
  imports Payments Core_Attestation Core_Json
begin

text \<open>
  Receipts and what is shown of them: the EIP-712 receipt of \<open>core/src/receipt.ts\<close>, the public projections
  and view secrets of \<open>core/src/viewkey.ts\<close>, and the reads and view keys of \<open>api/src/gateway.ts\<close>.

  Typed-data hashing, signing and recovery are viem's: the record \<open>typed_crypto\<close>. The table columns are those
  of \<open>db/src/schema.ts\<close>; a JSON column holds the value it encodes.
\<close>

section \<open>Typed data\<close>

record inference_receipt =
  ir_version :: nat
  ir_modelHash :: string
  ir_codeHash :: string
  ir_inHash :: string
  ir_outHash :: string
  ir_attRef :: string
  ir_nonce :: "string option"
  ir_ts :: int

record signed_receipt =
  sr_receipt :: inference_receipt
  sr_sig :: string

datatype typed_value = TypedText string | TypedInt int

record receipt_domain =
  dm_name :: string
  dm_version :: string
  dm_chainId :: int
  dm_contract :: string

record typed_data =
  td_domain :: receipt_domain
  td_primary :: string
  td_fields :: "(string \<times> string \<times> typed_value) list"

record typed_crypto =
  ty_hash :: "typed_data \<Rightarrow> string"
  ty_sign :: "string \<Rightarrow> typed_data \<Rightarrow> string"
  ty_recover :: "typed_data \<Rightarrow> string \<Rightarrow> string option"
  ty_address :: "string \<Rightarrow> string"

definition LEGACY_RECEIPT_TYPES :: "(string \<times> string) list" where
  "LEGACY_RECEIPT_TYPES = [(''modelHash'', ''bytes32''), (''codeHash'', ''bytes32''), (''inHash'', ''bytes32''),
     (''outHash'', ''bytes32''), (''attRef'', ''bytes32''), (''ts'', ''uint64'')]"

definition RECEIPT_TYPES :: "(string \<times> string) list" where
  "RECEIPT_TYPES = [(''modelHash'', ''bytes32''), (''codeHash'', ''bytes32''), (''inHash'', ''bytes32''),
     (''outHash'', ''bytes32''), (''attRef'', ''bytes32''), (''nonce'', ''bytes32''), (''ts'', ''uint64'')]"

definition receiptDomain :: "int \<Rightarrow> string \<Rightarrow> nat \<Rightarrow> enclave_error + receipt_domain" where
  "receiptDomain chainId verifyingContract version =
     (if version \<noteq> 1 \<and> version \<noteq> 2 then Inl (PlainError ''Unsupported receipt version'')
      else Inr \<lparr>dm_name = ''ENCLAVE'', dm_version = (if version = 1 then ''1'' else ''2''), dm_chainId = chainId,
                dm_contract = verifyingContract\<rparr>)"

definition hashesForIo :: "hash_fun \<Rightarrow> bytes \<Rightarrow> bytes \<Rightarrow> string \<times> string" where
  "hashesForIo sha input out = (sha256Hex sha input, sha256Hex sha out)"

text \<open>What the encoder reads of the message for a field of the type; \<open>None\<close> is a missing value, on which it throws.\<close>

definition receipt_field :: "inference_receipt \<Rightarrow> string \<Rightarrow> typed_value option" where
  "receipt_field r name =
     (if name = ''modelHash'' then Some (TypedText (ir_modelHash r))
      else if name = ''codeHash'' then Some (TypedText (ir_codeHash r))
      else if name = ''inHash'' then Some (TypedText (ir_inHash r))
      else if name = ''outHash'' then Some (TypedText (ir_outHash r))
      else if name = ''attRef'' then Some (TypedText (ir_attRef r))
      else if name = ''nonce'' then map_option TypedText (ir_nonce r)
      else if name = ''ts'' then Some (TypedInt (ir_ts r)) else None)"

definition receipt_types :: "inference_receipt \<Rightarrow> (string \<times> string) list" where
  "receipt_types r = (if ir_version r = 1 then LEGACY_RECEIPT_TYPES else RECEIPT_TYPES)"

definition encode_message :: "inference_receipt \<Rightarrow> enclave_error + (string \<times> string \<times> typed_value) list" where
  "encode_message r =
     (if list_all (\<lambda>(name, ty). receipt_field r name \<noteq> None) (receipt_types r)
      then Inr (map (\<lambda>(name, ty). (name, ty, the (receipt_field r name))) (receipt_types r))
      else Inl (PlainError ''Invalid typed data''))"

definition receipt_typed_data :: "inference_receipt \<Rightarrow> int \<Rightarrow> string \<Rightarrow> enclave_error + typed_data" where
  "receipt_typed_data r chainId verifyingContract =
     rbind (receiptDomain chainId verifyingContract (ir_version r)) (\<lambda>domain.
     rbind (encode_message r) (\<lambda>fields.
     Inr \<lparr>td_domain = domain, td_primary = ''InferenceReceipt'', td_fields = fields\<rparr>))"

definition signReceipt :: "typed_crypto \<Rightarrow> inference_receipt \<Rightarrow> string \<Rightarrow> int \<Rightarrow> string \<Rightarrow> enclave_error + signed_receipt" where
  "signReceipt ty r privateKey chainId verifyingContract =
     rmap (\<lambda>d. \<lparr>sr_receipt = r, sr_sig = ty_sign ty privateKey d\<rparr>) (receipt_typed_data r chainId verifyingContract)"

definition verifyReceiptSignature :: "typed_crypto \<Rightarrow> signed_receipt \<Rightarrow> string \<Rightarrow> int \<Rightarrow> string \<Rightarrow> enclave_error + bool" where
  "verifyReceiptSignature ty sr expectedSigner chainId verifyingContract =
     rbind (receipt_typed_data (sr_receipt sr) chainId verifyingContract) (\<lambda>d.
     rbind (of_option (PlainError ''Invalid signature'') (ty_recover ty d (sr_sig sr))) (\<lambda>recovered.
     Inr (same recovered expectedSigner)))"

definition receiptTypedHash :: "typed_crypto \<Rightarrow> inference_receipt \<Rightarrow> int \<Rightarrow> string \<Rightarrow> enclave_error + string" where
  "receiptTypedHash ty r chainId verifyingContract = rmap (ty_hash ty) (receipt_typed_data r chainId verifyingContract)"

section \<open>Rows\<close>

record saved_receipt =
  sv_signed :: signed_receipt
  sv_chainId :: int
  sv_verifierAddress :: string
  sv_output :: string
  sv_typedHash :: string
  sv_status :: string
  sv_keyHash :: "string option"
  sv_agentId :: "string option"

record usage_row =
  us_keyHash :: string
  us_calls :: int
  us_usdcUnits :: int

record view_key_row =
  vk_id :: string
  vk_ownerKeyHash :: string
  vk_secretHash :: string
  vk_label :: string

record audit_db =
  au_receipts :: "saved_receipt list"
  au_payments :: "payment_row list"
  au_usage :: "usage_row list"
  au_viewKeys :: "view_key_row list"

section \<open>Public projections\<close>

type_synonym payload = "(string \<times> json) list"

definition publicReceiptView :: "saved_receipt \<Rightarrow> payload" where
  "publicReceiptView row =
     (let r = sr_receipt (sv_signed row) in
      [(''typedHash'', JStr (sv_typedHash row)), (''modelHash'', JStr (ir_modelHash r)), (''codeHash'', JStr (ir_codeHash r)),
       (''inHash'', JStr (ir_inHash r)), (''outHash'', JStr (ir_outHash r)), (''status'', JStr (sv_status row))])"

definition public_receipt_keys :: "string list" where
  "public_receipt_keys = [''typedHash'', ''modelHash'', ''codeHash'', ''inHash'', ''outHash'', ''status'']"

definition present :: "payload \<Rightarrow> string \<Rightarrow> bool" where
  "present p key = (case map_of p key of Some v \<Rightarrow> v \<noteq> JNull | None \<Rightarrow> False)"

definition publicReceiptLeaksSecrets :: "payload \<Rightarrow> string list" where
  "publicReceiptLeaksSecrets p =
     filter (present p) [''sig'', ''keyHash'', ''agentId'', ''settleTx'', ''amountUnits'', ''usdcUnits'', ''ciphertext'', ''plaintext'']"

definition publicPaymentView :: "payment_row \<Rightarrow> payload" where
  "publicPaymentView row = [(''id'', JStr (py_id row)), (''status'', JStr (py_status row)), (''confidential'', JBool (py_confidential row))]"

definition public_payment_keys :: "string list" where
  "public_payment_keys = [''id'', ''status'', ''confidential'']"

definition isHashOnlyPayment :: "payload \<Rightarrow> bool" where
  "isHashOnlyPayment p \<longleftrightarrow> list_all (\<lambda>key. key \<in> set public_payment_keys) (map fst p)
     \<and> map_of p ''amountUnits'' = None \<and> map_of p ''settleTx'' = None \<and> map_of p ''keyHash'' = None"

definition isHashOnlyReceipt :: "payload \<Rightarrow> bool" where
  "isHashOnlyReceipt p \<longleftrightarrow> list_all (\<lambda>key. key \<in> set public_receipt_keys) (map fst p) \<and> publicReceiptLeaksSecrets p = []"

definition getReceipt :: "string \<Rightarrow> audit_db \<Rightarrow> enclave_error + saved_receipt" where
  "getReceipt typedHash db = of_option (NotFoundError ''receipt'' typedHash) (select_row (\<lambda>r. sv_typedHash r = typedHash) (au_receipts db))"

definition getPublicReceipt :: "string \<Rightarrow> audit_db \<Rightarrow> enclave_error + payload" where
  "getPublicReceipt typedHash db = rmap publicReceiptView (getReceipt typedHash db)"

definition getPublicPayment :: "string \<Rightarrow> audit_db \<Rightarrow> enclave_error + payload" where
  "getPublicPayment paymentId db =
     rmap publicPaymentView (of_option (NotFoundError ''payment'' paymentId) (select_row (\<lambda>p. py_id p = paymentId) (au_payments db)))"

section \<open>View keys\<close>

definition hashViewSecret :: "hash_fun \<Rightarrow> string \<Rightarrow> string" where
  "hashViewSecret sha secret = sha256HexText sha (''enclave-view-key:v1:'' @ secret)"

text \<open>\<open>Buffer.from(s, "hex")\<close> decodes up to the first pair that is not hexadecimal.\<close>

fun hex_prefix :: "string \<Rightarrow> string" where
  "hex_prefix (a # b # s) = (if is_hex_digit a \<and> is_hex_digit b then a # b # hex_prefix s else [])"
| "hex_prefix _ = []"

definition viewSecretMatches :: "hash_fun \<Rightarrow> string \<Rightarrow> string \<Rightarrow> bool" where
  "viewSecretMatches sha secret digest =
     (let left = sha (utf8 (''enclave-view-key:v1:'' @ secret));
          raw = (if starts_with digest ''0x'' then drop 2 digest else digest) in
      if length raw \<noteq> 64 then False
      else let right = hex_pairs (hex_prefix raw) in
        if length left \<noteq> length right then False else left = right)"

text \<open>\<open>random\<close> are the sixteen random bytes; \<open>keyHash\<close> is the result of \<open>requireKey\<close>.\<close>

definition issueViewKey ::
    "hash_fun \<Rightarrow> string \<Rightarrow> bytes \<Rightarrow> enclave_error + string \<Rightarrow> string \<Rightarrow> audit_db
      \<Rightarrow> enclave_error + ((string \<times> string \<times> string) \<times> audit_db)" where
  "issueViewKey sha fresh random owner label db =
     rbind owner (\<lambda>keyHash.
     let secret = ''enclave_vk_'' @ drop 2 (toHex random);
         row = \<lparr>vk_id = fresh, vk_ownerKeyHash = keyHash, vk_secretHash = hashViewSecret sha secret, vk_label = label\<rparr> in
     rbind (require (\<forall>r \<in> set (au_viewKeys db). vk_secretHash r \<noteq> vk_secretHash row \<and> vk_id r \<noteq> vk_id row) (PlainError ''unique constraint'')) (\<lambda>_.
     Inr ((vk_id row, vk_label row, secret), db\<lparr>au_viewKeys := au_viewKeys db @ [row]\<rparr>)))"

record audit_payment =
  ap_id :: string
  ap_amountUnits :: int
  ap_status :: string
  ap_settleTx :: "string option"
  ap_receiptHash :: "string option"
  ap_confidential :: bool

record audit_receipt =
  ac_typedHash :: string
  ac_signed :: signed_receipt
  ac_chainId :: int
  ac_verifierAddress :: string
  ac_status :: string
  ac_agentId :: "string option"

record audit_export =
  ae_auditor :: "string \<times> string"
  ae_receipts :: "audit_receipt list"
  ae_payments :: "audit_payment list"
  ae_usage :: "int \<times> int"

definition audit_receipt_of :: "saved_receipt \<Rightarrow> audit_receipt" where
  "audit_receipt_of r = \<lparr>ac_typedHash = sv_typedHash r, ac_signed = sv_signed r, ac_chainId = sv_chainId r,
     ac_verifierAddress = sv_verifierAddress r, ac_status = sv_status r, ac_agentId = sv_agentId r\<rparr>"

definition audit_payment_of :: "payment_row \<Rightarrow> audit_payment" where
  "audit_payment_of p = \<lparr>ap_id = py_id p, ap_amountUnits = py_amountUnits p, ap_status = py_status p, ap_settleTx = py_settleTx p,
     ap_receiptHash = py_receiptHash p, ap_confidential = py_confidential p\<rparr>"

definition exportWithViewKey :: "hash_fun \<Rightarrow> string \<Rightarrow> audit_db \<Rightarrow> enclave_error + audit_export" where
  "exportWithViewKey sha secret db =
     (case select_row (\<lambda>k. vk_secretHash k = hashViewSecret sha secret) (au_viewKeys db) of
        None \<Rightarrow> Inl (ForbiddenError ''Invalid view key'')
      | Some vk \<Rightarrow>
          if \<not> viewSecretMatches sha secret (vk_secretHash vk) then Inl (ForbiddenError ''Invalid view key'')
          else let used = select_row (\<lambda>u. us_keyHash u = vk_ownerKeyHash vk) (au_usage db) in
            Inr \<lparr>ae_auditor = (vk_id vk, vk_label vk),
                 ae_receipts = map audit_receipt_of (matching_rows (\<lambda>r. sv_keyHash r = Some (vk_ownerKeyHash vk)) (au_receipts db)),
                 ae_payments = map audit_payment_of (matching_rows (\<lambda>p. py_keyHash p = vk_ownerKeyHash vk) (au_payments db)),
                 ae_usage = (case used of Some u \<Rightarrow> (us_calls u, us_usdcUnits u) | None \<Rightarrow> (0, 0))\<rparr>)"

section \<open>What a signature stands for\<close>

fun value_same :: "typed_value \<Rightarrow> typed_value \<Rightarrow> bool" where
  "value_same (TypedText a) (TypedText b) = same a b"
| "value_same (TypedInt m) (TypedInt n) = (m = n)"
| "value_same _ _ = False"

text \<open>Equal digests: the encoder reads hexadecimal text, whose case does not matter.\<close>

definition typed_same :: "typed_data \<Rightarrow> typed_data \<Rightarrow> bool" where
  "typed_same d e \<longleftrightarrow> dm_name (td_domain d) = dm_name (td_domain e) \<and> dm_version (td_domain d) = dm_version (td_domain e)
     \<and> dm_chainId (td_domain d) = dm_chainId (td_domain e) \<and> same (dm_contract (td_domain d)) (dm_contract (td_domain e))
     \<and> td_primary d = td_primary e
     \<and> list_all2 (\<lambda>(n, t, x) (n', t', y). n = n' \<and> t = t' \<and> value_same x y) (td_fields d) (td_fields e)"

text \<open>ECDSA recovery over a collision-free digest: the signer's address comes back for the signed data only.\<close>

definition recovery_exact :: "typed_crypto \<Rightarrow> bool" where
  "recovery_exact ty \<longleftrightarrow> (\<forall>k d e. (\<exists>a. ty_recover ty e (ty_sign ty k d) = Some a \<and> same a (ty_address ty k)) \<longleftrightarrow> typed_same d e)"

definition same_receipt :: "inference_receipt \<Rightarrow> inference_receipt \<Rightarrow> bool" where
  "same_receipt r q \<longleftrightarrow> ir_version r = ir_version q \<and> same (ir_modelHash r) (ir_modelHash q) \<and> same (ir_codeHash r) (ir_codeHash q)
     \<and> same (ir_inHash r) (ir_inHash q) \<and> same (ir_outHash r) (ir_outHash q) \<and> same (ir_attRef r) (ir_attRef q)
     \<and> ir_ts r = ir_ts q \<and> (ir_version r = 1 \<or> (\<exists>m n. ir_nonce r = Some m \<and> ir_nonce q = Some n \<and> same m n))"

lemma receipt_typed_data_Inr:
  "receipt_typed_data r c v = Inr d \<longleftrightarrow> (ir_version r = 1 \<or> (ir_version r = 2 \<and> ir_nonce r \<noteq> None))
     \<and> d = \<lparr>td_domain = \<lparr>dm_name = ''ENCLAVE'', dm_version = (if ir_version r = 1 then ''1'' else ''2''), dm_chainId = c, dm_contract = v\<rparr>,
            td_primary = ''InferenceReceipt'', td_fields = map (\<lambda>(name, ty). (name, ty, the (receipt_field r name))) (receipt_types r)\<rparr>"
  by (auto simp: receipt_typed_data_def receiptDomain_def encode_message_def receipt_types_def LEGACY_RECEIPT_TYPES_def RECEIPT_TYPES_def
      receipt_field_def res_simps split: if_splits)

lemma typed_same_receipt:
  assumes "receipt_typed_data r c v = Inr d" and "receipt_typed_data q c' v' = Inr e"
  shows "typed_same d e \<longleftrightarrow> same_receipt r q \<and> c = c' \<and> same v v'"
proof -
  have d: "ir_version r = 1 \<or> (ir_version r = 2 \<and> ir_nonce r \<noteq> None)"
    "d = \<lparr>td_domain = \<lparr>dm_name = ''ENCLAVE'', dm_version = (if ir_version r = 1 then ''1'' else ''2''), dm_chainId = c, dm_contract = v\<rparr>,
            td_primary = ''InferenceReceipt'', td_fields = map (\<lambda>(name, ty). (name, ty, the (receipt_field r name))) (receipt_types r)\<rparr>"
    and e: "ir_version q = 1 \<or> (ir_version q = 2 \<and> ir_nonce q \<noteq> None)"
    "e = \<lparr>td_domain = \<lparr>dm_name = ''ENCLAVE'', dm_version = (if ir_version q = 1 then ''1'' else ''2''), dm_chainId = c', dm_contract = v'\<rparr>,
            td_primary = ''InferenceReceipt'', td_fields = map (\<lambda>(name, ty). (name, ty, the (receipt_field q name))) (receipt_types q)\<rparr>"
    using assms by (simp_all only: receipt_typed_data_Inr)
  have v: "typed_same d e \<Longrightarrow> ir_version r = ir_version q" using d(1) e(1) by (auto simp: d(2) e(2) typed_same_def split: if_splits)
  show ?thesis
  proof (cases "ir_version r = ir_version q")
    case False
    with v show ?thesis by (auto simp: same_receipt_def)
  next
    case True
    show ?thesis
    proof (cases "ir_version r = 1")
      case one: True
      with True show ?thesis
        by (auto simp: d(2) e(2) typed_same_def same_receipt_def receipt_types_def LEGACY_RECEIPT_TYPES_def receipt_field_def)
    next
      case False
      with True d(1) e(1) obtain m n where "ir_nonce r = Some m" "ir_nonce q = Some n" by auto
      with True False show ?thesis
        by (auto simp: d(2) e(2) typed_same_def same_receipt_def receipt_types_def RECEIPT_TYPES_def receipt_field_def)
    qed
  qed
qed

text \<open>The signature of a receipt verifies, against its signer, for exactly the receipt (version,
  hashes, nonce and time), chain and verifier contract it was issued for, and for nothing else: not across
  versions, chains or verifiers and not for any changed field.\<close>

theorem receipt_signature_exact:
  assumes "recovery_exact ty" and "signReceipt ty r key c v = Inr s" and "is_ok (receipt_typed_data q c' v')"
  shows "verifyReceiptSignature ty \<lparr>sr_receipt = q, sr_sig = sr_sig s\<rparr> (ty_address ty key) c' v' = Inr True
    \<longleftrightarrow> same_receipt r q \<and> c = c' \<and> same v v'"
proof -
  from assms(2) obtain d where d: "receipt_typed_data r c v = Inr d" "s = \<lparr>sr_receipt = r, sr_sig = ty_sign ty key d\<rparr>"
    by (auto simp: signReceipt_def res_simps)
  from assms(3) obtain e where e: "receipt_typed_data q c' v' = Inr e" by (auto simp: is_ok_iff)
  have "verifyReceiptSignature ty \<lparr>sr_receipt = q, sr_sig = sr_sig s\<rparr> (ty_address ty key) c' v' = Inr True
    \<longleftrightarrow> (\<exists>a. ty_recover ty e (ty_sign ty key d) = Some a \<and> same a (ty_address ty key))"
    by (auto simp: verifyReceiptSignature_def e d(2) res_simps)
  also have "\<dots> \<longleftrightarrow> typed_same d e" using assms(1) by (simp add: recovery_exact_def)
  also have "\<dots> \<longleftrightarrow> same_receipt r q \<and> c = c' \<and> same v v'" by (rule typed_same_receipt [OF d(1) e])
  finally show ?thesis .
qed

fun value_json :: "typed_value \<Rightarrow> json" where
  "value_json (TypedText a) = JStr (lower a)"
| "value_json (TypedInt n) = JNum n"

definition typed_json :: "typed_data \<Rightarrow> json" where
  "typed_json d = JArr [JStr (dm_name (td_domain d)), JStr (dm_version (td_domain d)), JNum (dm_chainId (td_domain d)),
     JStr (lower (dm_contract (td_domain d))), JStr (td_primary d),
     JArr (map (\<lambda>(n, t, x). JArr [JStr n, JStr t, value_json x]) (td_fields d))]"

lemma value_json_plain [simp]: "plain (value_json x)"
  by (cases x) simp_all

lemma typed_json_plain: "plain (typed_json d)"
  by (auto simp: typed_json_def list_all_iff)

lemma value_json_same: "value_json x = value_json y \<longleftrightarrow> value_same x y"
  by (cases x; cases y) (auto simp: same_def)

lemma typed_json_same: "typed_json d = typed_json e \<longleftrightarrow> typed_same d e"
proof -
  have "map (\<lambda>(n, t, x). JArr [JStr n, JStr t, value_json x]) xs = map (\<lambda>(n, t, x). JArr [JStr n, JStr t, value_json x]) ys
    \<longleftrightarrow> list_all2 (\<lambda>(n, t, x) (n', t', y). n = n' \<and> t = t' \<and> value_same x y) xs ys" for xs ys :: "(string \<times> string \<times> typed_value) list"
  proof (induction xs arbitrary: ys)
    case (Cons a xs)
    then show ?case by (cases ys) (auto simp: value_json_same split: prod.splits)
  qed auto
  then show ?thesis by (auto simp: typed_json_def typed_same_def same_def)
qed

definition demo_typed :: typed_crypto where
  "demo_typed = \<lparr>ty_hash = (\<lambda>d. stringify (typed_json d)), ty_sign = (\<lambda>k d. demo_address k @ stringify (typed_json d)),
     ty_recover = (\<lambda>e s. if drop 42 s = stringify (typed_json e) then Some (take 42 s) else None), ty_address = demo_address\<rparr>"

lemma demo_typed_exact: "recovery_exact demo_typed"
  by (auto simp: recovery_exact_def demo_typed_def length_demo_address stringify_inj typed_json_plain typed_json_same)

definition demo_receipt :: inference_receipt where
  "demo_receipt = \<lparr>ir_version = 2, ir_modelHash = ''0xa'', ir_codeHash = ''0xb'', ir_inHash = ''0xc'', ir_outHash = ''0xd'',
     ir_attRef = ''0xe'', ir_nonce = Some ''0xf'', ir_ts = 5\<rparr>"

theorem receipt_signature_exact_witness:
  "\<exists>s. signReceipt demo_typed demo_receipt ''1'' 7 ''0xv'' = Inr s
     \<and> verifyReceiptSignature demo_typed s (demo_address ''1'') 7 ''0xV'' = Inr True
     \<and> verifyReceiptSignature demo_typed \<lparr>sr_receipt = demo_receipt\<lparr>ir_ts := 6\<rparr>, sr_sig = sr_sig s\<rparr> (demo_address ''1'') 7 ''0xv'' \<noteq> Inr True"
proof -
  obtain s where s: "signReceipt demo_typed demo_receipt ''1'' 7 ''0xv'' = Inr s" "sr_receipt s = demo_receipt"
    by (auto simp: signReceipt_def receipt_typed_data_def receiptDomain_def encode_message_def receipt_types_def RECEIPT_TYPES_def
        receipt_field_def demo_receipt_def)
  have ok: "is_ok (receipt_typed_data (demo_receipt\<lparr>ir_ts := t\<rparr>) 7 v)" for t v
    by (auto simp: is_ok_iff receipt_typed_data_Inr demo_receipt_def)
  have a: "ty_address demo_typed = demo_address" by (simp add: demo_typed_def)
  note exact = receipt_signature_exact [OF demo_typed_exact s(1)]
  have "same ''0xv'' ''0xV''" by code_simp
  then have "same_receipt demo_receipt demo_receipt \<and> (7::int) = 7 \<and> same ''0xv'' ''0xV''" by (simp add: same_receipt_def demo_receipt_def)
  with exact [of demo_receipt 7 "''0xV''"] ok [of 5 "''0xV''"] s a
  have one: "verifyReceiptSignature demo_typed \<lparr>sr_receipt = demo_receipt, sr_sig = sr_sig s\<rparr> (demo_address ''1'') 7 ''0xV'' = Inr True"
    by (simp add: demo_receipt_def)
  moreover have "\<lparr>sr_receipt = demo_receipt, sr_sig = sr_sig s\<rparr> = s" using s(2) by simp
  moreover have "\<not> same_receipt demo_receipt (demo_receipt\<lparr>ir_ts := 6\<rparr>)" by (simp add: same_receipt_def demo_receipt_def)
  with exact [OF ok [of 6 "''0xv''"]] a
  have "verifyReceiptSignature demo_typed \<lparr>sr_receipt = demo_receipt\<lparr>ir_ts := 6\<rparr>, sr_sig = sr_sig s\<rparr> (demo_address ''1'') 7 ''0xv'' \<noteq> Inr True"
    by simp
  ultimately show ?thesis using s(1) by auto
qed

section \<open>What is shown of a receipt\<close>

lemma hex_prefix_all: "list_all is_hex_digit s \<Longrightarrow> even (length s) \<Longrightarrow> hex_prefix s = s"
  by (induction s rule: hex_prefix.induct) auto

lemma viewSecretMatches_hash:
  assumes "length (sha (utf8 (''enclave-view-key:v1:'' @ a))) = 32" and "length (sha (utf8 (''enclave-view-key:v1:'' @ b))) = 32"
  shows "viewSecretMatches sha a (hashViewSecret sha b) \<longleftrightarrow> hashViewSecret sha a = hashViewSecret sha b"
proof -
  let ?h = "\<lambda>s. sha (utf8 (''enclave-view-key:v1:'' @ s))"
  have raw: "drop 2 (toHex (?h b)) = concat (map hex_of_byte (?h b))" "starts_with (toHex (?h b)) ''0x''"
    by (simp_all add: toHex_def starts_with_def)
  have hs: "hex_string 64 (toHex (?h b))" using toHex_hex_string [of "?h b"] assms(2) by simp
  then have "list_all is_hex_digit (concat (map hex_of_byte (?h b)))" "length (concat (map hex_of_byte (?h b))) = 64"
    using raw by (simp_all add: hex_string_def) (simp add: toHex_def)
  then have "hex_pairs (hex_prefix (concat (map hex_of_byte (?h b)))) = ?h b" by (simp add: hex_prefix_all hex_pairs_of_bytes)
  with assms raw \<open>length (concat (map hex_of_byte (?h b))) = 64\<close> show ?thesis
    by (simp add: viewSecretMatches_def hashViewSecret_def sha256HexText_def sha256Hex_def toHex_inj Let_def)
qed


lemma export_Inr:
  assumes "exportWithViewKey sha secret db = Inr e"
  obtains vk where "vk \<in> set (au_viewKeys db)" "vk_secretHash vk = hashViewSecret sha secret"
    "ae_auditor e = (vk_id vk, vk_label vk)"
    "ae_receipts e = map audit_receipt_of (matching_rows (\<lambda>r. sv_keyHash r = Some (vk_ownerKeyHash vk)) (au_receipts db))"
    "ae_payments e = map audit_payment_of (matching_rows (\<lambda>p. py_keyHash p = vk_ownerKeyHash vk) (au_payments db))"
  using assms select_row_Some [of "\<lambda>k. vk_secretHash k = hashViewSecret sha secret" "au_viewKeys db"]
  by (auto simp: exportWithViewKey_def Let_def split: option.splits if_splits)


definition demo_saved :: "string \<Rightarrow> string \<Rightarrow> saved_receipt" where
  "demo_saved h owner = \<lparr>sv_signed = \<lparr>sr_receipt = demo_receipt, sr_sig = ''s''\<rparr>, sv_chainId = 7, sv_verifierAddress = ''0xv'', sv_output = ''o'',
     sv_typedHash = h, sv_status = ''pending'', sv_keyHash = Some owner, sv_agentId = None\<rparr>"

definition demo_audit :: audit_db where
  "demo_audit = \<lparr>au_receipts = [demo_saved ''h'' ''o'', demo_saved ''j'' ''q''], au_payments = [], au_usage = [], au_viewKeys = []\<rparr>"


end
