(* ===== verification/Core_Crypto.thy ===== *)
theory Core_Crypto
  imports Core_Errors
begin

text \<open>
  Sealed blobs: \<open>core/src/crypto.ts\<close>. AES-256-GCM is a parameter, the record \<open>aes\<close>; what the code relies on is
  \<open>aes_inverse\<close> (opening undoes sealing under the same key and nonce) and \<open>aes_authentic\<close> (nothing else opens).
  The base64 text of a blob is written out, as a \<open>Buffer\<close> prints and reads it.
\<close>

section \<open>Base64\<close>

primrec bits_of :: "nat \<Rightarrow> nat \<Rightarrow> bool list" where
  "bits_of 0 n = []"
| "bits_of (Suc k) n = bits_of k (n div 2) @ [odd n]"

definition of_bits :: "bool list \<Rightarrow> nat" where
  "of_bits bs = foldl (\<lambda>acc b. 2 * acc + (if b then 1 else 0)) 0 bs"

definition b64_alphabet :: string where
  "b64_alphabet = ''ABCDEFGHIJKLMNOPQRSTUVWXYZabcdefghijklmnopqrstuvwxyz0123456789+/''"

text \<open>The reader also takes the URL alphabet, skips other characters and stops at the padding.\<close>

definition b64_digit :: "char \<Rightarrow> nat option" where
  "b64_digit c =
     (if 65 \<le> code_of c \<and> code_of c \<le> 90 then Some (code_of c - 65)
      else if 97 \<le> code_of c \<and> code_of c \<le> 122 then Some (code_of c - 71)
      else if 48 \<le> code_of c \<and> code_of c \<le> 57 then Some (code_of c + 4)
      else if c = CHR ''+'' \<or> c = CHR ''-'' then Some 62
      else if c = CHR ''/'' \<or> c = CHR ''_'' then Some 63
      else None)"

fun sextets :: "bool list \<Rightarrow> bool list list" where
  "sextets [] = []"
| "sextets (a # bs) = take 6 (a # bs @ replicate 5 False) # sextets (drop 5 bs)"

fun octets :: "bool list \<Rightarrow> bool list list" where
  "octets bs = (if length bs < 8 then [] else take 8 bs # octets (drop 8 bs))"

declare octets.simps [simp del]

definition to_base64 :: "bytes \<Rightarrow> string" where
  "to_base64 bs =
     map (\<lambda>s. b64_alphabet ! of_bits s) (sextets (concat (map (\<lambda>b. bits_of 8 (unat b)) bs)))
       @ replicate ((3 - length bs mod 3) mod 3) (CHR ''='')"

definition from_base64 :: "string \<Rightarrow> bytes" where
  "from_base64 s =
     map (\<lambda>o8. word_of_nat (of_bits o8))
       (octets (concat (map (\<lambda>c. case b64_digit c of Some n \<Rightarrow> bits_of 6 n | None \<Rightarrow> []) (takeWhile (\<lambda>c. c \<noteq> CHR ''='') s))))"

lemma length_bits_of [simp]: "length (bits_of k n) = k"
  by (induction k arbitrary: n) simp_all

lemma of_bits_snoc: "of_bits (bs @ [b]) = 2 * of_bits bs + (if b then 1 else 0)"
  by (simp add: of_bits_def)

lemma of_bits_of: "of_bits (bits_of k n) = n mod 2 ^ k"
proof (induction k arbitrary: n)
  case 0
  then show ?case by (simp add: of_bits_def)
next
  case (Suc k)
  have "n mod 2 ^ Suc k = 2 * (n div 2 mod 2 ^ k) + n mod 2" by (simp add: mod_mult2_eq)
  moreover have "(if odd n then 1 else 0) = n mod 2" by (simp add: mod2_eq_if)
  ultimately show ?case using Suc by (simp only: bits_of.simps of_bits_snoc)
qed

lemma bits_of_of: "bits_of (length bs) (of_bits bs) = bs"
proof (induction bs rule: rev_induct)
  case (snoc b bs)
  have "(2 * of_bits bs + (if b then 1 else 0)) div 2 = of_bits bs" by simp
  with snoc show ?case by (simp add: of_bits_snoc)
qed simp

lemma of_bits_bound: "of_bits bs < 2 ^ length bs"
proof (induction bs rule: rev_induct)
  case (snoc b bs)
  then show ?case by (simp add: of_bits_snoc)
qed (simp add: of_bits_def)

lemma sextets_length: "list_all (\<lambda>s. length s = 6) (sextets bs)"
  by (induction bs rule: sextets.induct) simp_all

lemma concat_sextets: "\<exists>pad. concat (sextets bs) = bs @ pad \<and> length pad < 6"
proof (induction bs rule: sextets.induct)
  case (2 a bs)
  then obtain pad where pad: "concat (sextets (drop 5 bs)) = drop 5 bs @ pad" "length pad < 6" by blast
  show ?case
  proof (cases "length bs \<ge> 5")
    case True
    then have "concat (sextets (a # bs)) = a # take 5 bs @ drop 5 bs @ pad" using pad(1) by simp
    also have "\<dots> = (a # bs) @ pad" by (simp only: append.assoc [symmetric] append_take_drop_id append_Cons)
    finally show ?thesis using pad(2) by blast
  next
    case False
    then have "drop 5 bs = []" by simp
    with False have "concat (sextets (a # bs)) = (a # bs) @ replicate (5 - length bs) False" by (simp add: min_def)
    moreover have "length (replicate (5 - length bs) False) < 6" by simp
    ultimately show ?thesis by blast
  qed
qed simp

lemma octets_concat: "list_all (\<lambda>b. length b = 8) bss \<Longrightarrow> length pad < 8 \<Longrightarrow> octets (concat bss @ pad) = bss"
proof (induction bss)
  case Nil
  then show ?case by (simp add: octets.simps [of pad])
next
  case (Cons b bss)
  then show ?case by (simp add: octets.simps [of "b @ concat bss @ pad"])
qed

lemma b64_digit_alphabet: "\<forall>n < 64. b64_digit (b64_alphabet ! n) = Some n \<and> b64_alphabet ! n \<noteq> CHR ''=''"
proof -
  have "list_all (\<lambda>n. b64_digit (b64_alphabet ! n) = Some n \<and> b64_alphabet ! n \<noteq> CHR ''='') [0..<64]" by code_simp
  then show ?thesis by (simp add: list_all_iff)
qed

lemma byte_of_bits: "word_of_nat (of_bits (bits_of 8 (unat (b :: 8 word)))) = b"
proof -
  have "unat b < 2 ^ LENGTH(8)" by (rule unsigned_less)
  then show ?thesis by (simp add: of_bits_of)
qed

lemma base64_round_trip: "from_base64 (to_base64 bs) = bs"
proof -
  let ?bits = "concat (map (\<lambda>b. bits_of 8 (unat b)) bs)"
  let ?chars = "map (\<lambda>s. b64_alphabet ! of_bits s) (sextets ?bits)"
  have six: "length s = 6" if "s \<in> set (sextets ?bits)" for s using sextets_length [of ?bits] that by (simp add: list_all_iff)
  have small: "of_bits s < 64" if "s \<in> set (sextets ?bits)" for s using of_bits_bound [of s] six [OF that] by simp
  have take: "takeWhile (\<lambda>c. c \<noteq> CHR ''='') (to_base64 bs) = ?chars"
    unfolding to_base64_def using small b64_digit_alphabet by (subst takeWhile_append2) (auto simp: takeWhile_replicate)
  have digits: "map (\<lambda>c. case b64_digit c of Some n \<Rightarrow> bits_of 6 n | None \<Rightarrow> []) ?chars = sextets ?bits"
  proof -
    have "(case b64_digit (b64_alphabet ! of_bits s) of Some n \<Rightarrow> bits_of 6 n | None \<Rightarrow> []) = s" if "s \<in> set (sextets ?bits)" for s
      using small [OF that] b64_digit_alphabet six [OF that] bits_of_of [of s] by simp
    then show ?thesis unfolding map_map by (intro map_idI) simp
  qed
  obtain pad where pad: "concat (sextets ?bits) = ?bits @ pad" "length pad < 6" using concat_sextets by blast
  have "octets (?bits @ pad) = map (\<lambda>b. bits_of 8 (unat b)) bs" using pad(2) by (intro octets_concat) (simp_all add: list_all_iff)
  then have "from_base64 (to_base64 bs) = map (\<lambda>o8. word_of_nat (of_bits o8)) (map (\<lambda>b. bits_of 8 (unat b)) bs)"
    unfolding from_base64_def take digits pad(1) by simp
  then show ?thesis by (simp add: comp_def byte_of_bits)
qed

section \<open>AES-GCM\<close>

record aes_blob =
  bl_iv :: string
  bl_tag :: string
  bl_ciphertext :: string

record aes =
  ae_seal :: "bytes \<Rightarrow> bytes \<Rightarrow> bytes \<Rightarrow> bytes \<times> bytes"
  ae_open :: "bytes \<Rightarrow> bytes \<Rightarrow> bytes \<Rightarrow> bytes \<Rightarrow> bytes option"

definition aes_inverse :: "aes \<Rightarrow> bool" where
  "aes_inverse ae \<longleftrightarrow> (\<forall>k iv p. length iv = 12 \<longrightarrow> (case ae_seal ae k iv p of (tag, c) \<Rightarrow> length tag = 16 \<and> ae_open ae k iv tag c = Some p))"

definition aes_authentic :: "aes \<Rightarrow> bool" where
  "aes_authentic ae \<longleftrightarrow> (\<forall>k iv tag c p. ae_open ae k iv tag c = Some p \<longrightarrow> ae_seal ae k iv p = (tag, c))"

text \<open>\<open>iv\<close> are the twelve random bytes of the call.\<close>

definition encryptAesGcm :: "aes \<Rightarrow> bytes \<Rightarrow> bytes \<Rightarrow> bytes \<Rightarrow> aes_blob" where
  "encryptAesGcm ae iv key plaintext =
     (let (tag, c) = ae_seal ae key iv plaintext in \<lparr>bl_iv = to_base64 iv, bl_tag = to_base64 tag, bl_ciphertext = to_base64 c\<rparr>)"

definition decryptAesGcm :: "aes \<Rightarrow> bytes \<Rightarrow> aes_blob \<Rightarrow> enclave_error + bytes" where
  "decryptAesGcm ae key blob =
     (let iv = from_base64 (bl_iv blob); tag = from_base64 (bl_tag blob) in
      if length iv \<noteq> 12 \<or> length tag \<noteq> 16 then Inl (PlainError ''Invalid AES-GCM IV or authentication tag length'')
      else of_option (PlainError ''Unsupported state or unable to authenticate data'') (ae_open ae key iv tag (from_base64 (bl_ciphertext blob))))"

lemma decrypt_encrypt: "aes_inverse ae \<Longrightarrow> length iv = 12 \<Longrightarrow> decryptAesGcm ae key (encryptAesGcm ae iv key plaintext) = Inr plaintext"
  by (auto simp: aes_inverse_def decryptAesGcm_def encryptAesGcm_def base64_round_trip Let_def split: prod.splits)

lemma decrypt_authentic:
  assumes "aes_authentic ae" and "decryptAesGcm ae key blob = Inr plaintext"
  shows "ae_seal ae key (from_base64 (bl_iv blob)) plaintext = (from_base64 (bl_tag blob), from_base64 (bl_ciphertext blob))"
  using assms by (auto simp: aes_authentic_def decryptAesGcm_def Let_def res_simps split: if_splits)

text \<open>An instance of the parameter: the plaintext behind a tag of key and nonce.\<close>

definition demo_aes :: aes where
  "demo_aes = \<lparr>ae_seal = (\<lambda>k iv p. (take 16 (k @ replicate 16 0), k @ p)),
     ae_open = (\<lambda>k iv tag c. if tag = take 16 (k @ replicate 16 0) \<and> take (length k) c = k then Some (drop (length k) c) else None)\<rparr>"

lemma demo_aes_laws: "aes_inverse demo_aes" "aes_authentic demo_aes"
proof -
  have "min n 16 + (16 - n) = 16" for n :: nat by arith
  then show "aes_inverse demo_aes" by (simp add: aes_inverse_def demo_aes_def)
  have "k @ drop (length k) c = c" if "take (length k) c = k" for k c :: bytes using that append_take_drop_id [of "length k" c] by metis
  then show "aes_authentic demo_aes" by (auto simp: aes_authentic_def demo_aes_def)
qed

end
