(* ===== verification/Enclave_Cvm.thy ===== *)
theory Enclave_Cvm
  imports Near_Inference Receipts Core_Crypto
begin

text \<open>
  The enclave software \<open>DevCvm\<close> of \<open>core/src/cvm.ts\<close>: sessions it admits, the keys it releases, the inference it
  signs and the memory it seals, with the provider proof of \<open>core/src/provider-proof.ts\<close>.

  An instance is a record; an operation that changes it returns it changed. Randomness, clocks and the answers
  of the adapters are arguments. Adapters return bytes, as their types say.
\<close>

section \<open>Provider proofs\<close>

definition evidence_json :: "near_evidence \<Rightarrow> json" where
  "evidence_json e = JObj
     [(''schemaVersion'', JNum (int (ne_schemaVersion e))), (''provider'', JStr (ne_provider e)), (''signatureKind'', JStr (ne_signatureKind e)),
      (''endpoint'', JStr (ne_endpoint e)), (''model'', JStr (ne_model e)), (''completionId'', JStr (ne_completionId e)),
      (''requestHash'', JStr (ne_requestHash e)), (''responseHash'', JStr (ne_responseHash e)), (''outputHash'', JStr (ne_outputHash e)),
      (''signatureText'', JStr (ne_signatureText e)), (''signature'', JStr (ne_signature e)), (''signingAddress'', JStr (ne_signingAddress e)),
      (''attestationRef'', JStr (ne_attestationRef e)), (''verifiedAt'', JStr (ne_verifiedAt e)), (''expiresAt'', JStr (ne_expiresAt e)),
      (''tlsBound'', JBool (ne_tlsBound e))]"

text \<open>A parsed value used as evidence; \<open>None\<close> stands for one that lacks a field of its type.\<close>

definition evidence_of_json :: "json \<Rightarrow> near_evidence option" where
  "evidence_of_json v =
     (case (json_field ''schemaVersion'' v, json_field ''tlsBound'' v,
            all_some (map (\<lambda>k. json_text k v) [''provider'', ''signatureKind'', ''endpoint'', ''model'', ''completionId'', ''requestHash'',
              ''responseHash'', ''outputHash'', ''signatureText'', ''signature'', ''signingAddress'', ''attestationRef'', ''verifiedAt'', ''expiresAt''])) of
        (Some (JNum n), Some (JBool b), Some [provider, signatureKind, endpoint', model, completionId, requestHash, responseHash, outputHash,
            signatureText, signature, signingAddress, attestationRef, verifiedAt, expiresAt]) \<Rightarrow>
          if n < 0 then None
          else Some \<lparr>ne_schemaVersion = nat n, ne_provider = provider, ne_signatureKind = signatureKind, ne_endpoint = endpoint', ne_model = model,
            ne_completionId = completionId, ne_requestHash = requestHash, ne_responseHash = responseHash, ne_outputHash = outputHash,
            ne_signatureText = signatureText, ne_signature = signature, ne_signingAddress = signingAddress, ne_attestationRef = attestationRef,
            ne_verifiedAt = verifiedAt, ne_expiresAt = expiresAt, ne_tlsBound = b\<rparr>
      | _ \<Rightarrow> None)"

record provider_proof =
  pf_version :: nat
  pf_receiptHash :: string
  pf_evidenceHash :: string
  pf_evidence :: near_evidence
  pf_sig :: string

definition proofTypes :: "(string \<times> string) list" where
  "proofTypes = [(''receiptHash'', ''bytes32''), (''evidenceHash'', ''bytes32'')]"

definition proofDomain :: "int \<Rightarrow> string \<Rightarrow> receipt_domain" where
  "proofDomain chainId verifyingContract =
     \<lparr>dm_name = ''ENCLAVE_PROVIDER_EVIDENCE'', dm_version = ''1'', dm_chainId = chainId, dm_contract = verifyingContract\<rparr>"

definition proof_typed_data :: "string \<Rightarrow> string \<Rightarrow> int \<Rightarrow> string \<Rightarrow> typed_data" where
  "proof_typed_data receiptHash evidenceHash chainId verifyingContract =
     \<lparr>td_domain = proofDomain chainId verifyingContract, td_primary = ''InferenceEvidence'',
      td_fields = map (\<lambda>(name, ty). (name, ty, TypedText (if name = ''receiptHash'' then receiptHash else evidenceHash))) proofTypes\<rparr>"

definition providerEvidenceHash :: "hash_fun \<Rightarrow> near_evidence \<Rightarrow> enclave_error + string" where
  "providerEvidenceHash sha e = rmap (sha256HexText sha) (canonicalEvidenceJson (evidence_json e))"

text \<open>\<open>JSON.parse(canonicalEvidenceJson(e))\<close>: the copy a later mutation of the evidence cannot reach.\<close>

definition snapshot :: "near_host \<Rightarrow> near_evidence \<Rightarrow> enclave_error + near_evidence" where
  "snapshot host e =
     rbind (canonicalEvidenceJson (evidence_json e)) (\<lambda>text.
     of_option (PlainError ''evidence'') (case nh_parse host text of Some v \<Rightarrow> evidence_of_json v | None \<Rightarrow> None))"

definition signProviderProof ::
    "near_host \<Rightarrow> typed_crypto \<Rightarrow> signed_receipt \<Rightarrow> near_evidence \<Rightarrow> string \<Rightarrow> int \<Rightarrow> string \<Rightarrow> enclave_error + provider_proof" where
  "signProviderProof host ty receipt evidence privateKey chainId verifyingContract =
     rbind (receiptTypedHash ty (sr_receipt receipt) chainId verifyingContract) (\<lambda>receiptHash.
     rbind (providerEvidenceHash (cx_sha (nh_crypto host)) evidence) (\<lambda>evidenceHash.
     rbind (snapshot host evidence) (\<lambda>signedEvidence.
     rbind (require (ne_outputHash signedEvidence = ir_outHash (sr_receipt receipt)) (PlainError ''Provider evidence output does not match receipt'')) (\<lambda>_.
     Inr \<lparr>pf_version = 1, pf_receiptHash = receiptHash, pf_evidenceHash = evidenceHash, pf_evidence = signedEvidence,
          pf_sig = ty_sign ty privateKey (proof_typed_data receiptHash evidenceHash chainId verifyingContract)\<rparr>))))"

definition verifyProviderProof ::
    "near_host \<Rightarrow> typed_crypto \<Rightarrow> provider_proof \<Rightarrow> signed_receipt \<Rightarrow> string \<Rightarrow> int \<Rightarrow> string \<Rightarrow> bool" where
  "verifyProviderProof host ty p receipt expectedSigner chainId verifyingContract \<longleftrightarrow>
     rbind (receiptTypedHash ty (sr_receipt receipt) chainId verifyingContract) (\<lambda>receiptHash.
     rbind (require (pf_version p = 1 \<and> pf_receiptHash p = receiptHash) (PlainError ''false'')) (\<lambda>_.
     rbind (providerEvidenceHash (cx_sha (nh_crypto host)) (pf_evidence p)) (\<lambda>evidenceHash.
     rbind (require (pf_evidenceHash p = evidenceHash \<and> ne_outputHash (pf_evidence p) = ir_outHash (sr_receipt receipt)) (PlainError ''false'')) (\<lambda>_.
     rbind (verifyReceiptSignature ty receipt expectedSigner chainId verifyingContract) (\<lambda>ok.
     rbind (require ok (PlainError ''false'')) (\<lambda>_.
     rbind (of_option (PlainError ''recover'')
       (ty_recover ty (proof_typed_data (pf_receiptHash p) (pf_evidenceHash p) chainId verifyingContract) (pf_sig p))) (\<lambda>signer.
     Inr (same signer expectedSigner)))))))) = Inr True"

section \<open>The enclave\<close>

datatype gateway_mode = Development | ManagedNear

record cvm_config =
  cc_policy :: tcb_policy
  cc_modelId :: string
  cc_chainId :: int
  cc_verifyingContract :: string
  cc_inference :: bool
  cc_verifiedInference :: bool
  cc_gatewayMode :: "string option"
  cc_policyKeys :: bool

record dev_cvm =
  dv_config :: cvm_config
  dv_vendor :: vendor_roots
  dv_wrappingKey :: bytes
  dv_encryptedWeights :: aes_blob
  dv_enclavePrivateKey :: string
  dv_modelKey :: "bytes option"
  dv_verifiedAttRefs :: "string list"
  dv_mode :: gateway_mode

text \<open>The functions the enclave calls: hashes, signatures, sealing.\<close>

record cvm_env =
  ce_host :: near_host
  ce_typed :: typed_crypto
  ce_aes :: aes

definition ce_crypto :: "cvm_env \<Rightarrow> crypto" where
  "ce_crypto env = nh_crypto (ce_host env)"

definition ce_sha :: "cvm_env \<Rightarrow> hash_fun" where
  "ce_sha env = cx_sha (ce_crypto env)"

definition gatewayProviderMarker :: string where
  "gatewayProviderMarker = ''near-provider:verify-before-inference''"

definition gatewaySessionDescriptor :: "crypto \<Rightarrow> tcb_policy \<Rightarrow> js_number \<Rightarrow> attestation_quote" where
  "gatewaySessionDescriptor cx policy now =
     \<lparr>q_cpuQuote = ''gateway-session:'' @ tp_servingImageId policy, q_gpuQuote = gatewayProviderMarker,
      q_measurement = measurementOf cx policy, q_tcbVersion = tp_version policy, q_timestamp = now, q_signature = []\<rparr>"

definition canonical_27_28 :: "string \<Rightarrow> bool" where
  "canonical_27_28 sig \<longleftrightarrow> hex_string 130 sig \<and> hex_number (take 64 (drop 66 sig)) \<noteq> 0 \<and> hex_number (take 64 (drop 66 sig)) \<le> halfCurveOrder
     \<and> hex_number (drop 130 sig) \<in> {27, 28}"

definition verifyGatewaySession :: "crypto \<Rightarrow> attestation_quote \<Rightarrow> tcb_policy \<Rightarrow> string \<Rightarrow> js_number \<Rightarrow> enclave_error + unit" where
  "verifyGatewaySession cx quote policy issuer now =
     (let expected = gatewaySessionDescriptor cx policy now in
      if q_cpuQuote quote \<noteq> q_cpuQuote expected \<or> q_gpuQuote quote \<noteq> q_gpuQuote expected \<or> \<not> isHex32 (q_measurement quote)
         \<or> q_measurement quote \<noteq> q_measurement expected \<or> q_tcbVersion quote \<noteq> q_tcbVersion expected
      then Inl (AttestationFailedError ''Gateway session descriptor does not match the software admission policy'')
      else if \<not> is_safe_integer now \<or> int_of now < 0 \<or> \<not> is_safe_integer (q_timestamp quote) \<or> int_of (q_timestamp quote) < 0
      then Inl (AttestationFailedError ''Invalid gateway session timestamp or verifier clock'')
      else if \<bar>int_of now - int_of (q_timestamp quote)\<bar> > 5 * 60000 then Inl (AttestationFailedError ''Gateway session descriptor expired'')
      else case (if canonical_27_28 (q_signature quote) then cx_recover cx (quotePayload quote) (q_signature quote) else None) of
          None \<Rightarrow> Inl (AttestationFailedError ''Invalid gateway session signature'')
        | Some recovered \<Rightarrow> require (same recovered issuer) (AttestationFailedError ''Gateway session signature does not match its issuer''))"

section \<open>Construction\<close>

definition gateway_mode_of :: "cvm_config \<Rightarrow> gateway_mode" where
  "gateway_mode_of c = (if cc_gatewayMode c = Some ''managed-near'' then ManagedNear else Development)"

definition frozen_config :: "cvm_config \<Rightarrow> enclave_error + cvm_config" where
  "frozen_config c =
     (if gateway_mode_of c = ManagedNear
      then rbind (canonicalTcbPolicy (cc_policy c)) (\<lambda>_. rmap (\<lambda>p. c\<lparr>cc_policy := p\<rparr>) (parseTcbPolicy (policy_json (cc_policy c))))
      else Inr c)"

definition new_cvm :: "vendor_roots \<Rightarrow> bytes \<Rightarrow> aes_blob \<Rightarrow> string \<Rightarrow> cvm_config \<Rightarrow> enclave_error + dev_cvm" where
  "new_cvm vendor wrappingKey weights key c =
     rmap (\<lambda>c'. \<lparr>dv_config = c', dv_vendor = vendor, dv_wrappingKey = wrappingKey, dv_encryptedWeights = weights, dv_enclavePrivateKey = key,
       dv_modelKey = None, dv_verifiedAttRefs = [], dv_mode = gateway_mode_of c\<rparr>) (frozen_config c)"

definition enclaveAddress :: "cvm_env \<Rightarrow> dev_cvm \<Rightarrow> string" where
  "enclaveAddress env d = ty_address (ce_typed env) (dv_enclavePrivateKey d)"

definition modelHash :: "cvm_env \<Rightarrow> dev_cvm \<Rightarrow> string" where
  "modelHash env d = sha256HexText (ce_sha env) (''model:'' @ cc_modelId (dv_config d))"

definition codeHash :: "cvm_env \<Rightarrow> dev_cvm \<Rightarrow> string" where
  "codeHash env d = measurementOf (ce_crypto env) (cc_policy (dv_config d))"

text \<open>\<open>persisted\<close> and \<open>fresh\<close> are the stored and the newly generated keys (signer, wrapping, model).\<close>

definition create_cvm ::
    "cvm_env \<Rightarrow> bytes \<Rightarrow> cvm_config \<Rightarrow> vendor_roots \<Rightarrow> (string \<times> bytes \<times> bytes) option \<Rightarrow> string \<times> bytes \<times> bytes \<Rightarrow> enclave_error + dev_cvm" where
  "create_cvm env iv c vendor persisted fresh =
     (if cc_inference c \<and> cc_verifiedInference c then Inl (PlainError ''Only one inference adapter may be configured'')
      else if cc_gatewayMode c \<noteq> None \<and> cc_gatewayMode c \<notin> Some ` set [''development'', ''managed-near''] then Inl (PlainError ''Invalid gateway mode'')
      else if cc_gatewayMode c = Some ''managed-near'' \<and> (\<not> cc_verifiedInference c \<or> cc_inference c)
      then Inl (PlainError ''Managed NEAR requires a verified inference adapter and forbids ordinary inference'')
      else (let (key, wrappingKey, modelKey) = or_else persisted fresh in
        new_cvm vendor wrappingKey (encryptAesGcm (ce_aes env) iv wrappingKey modelKey) key c))"

section \<open>Sessions\<close>

definition cvm_quote :: "cvm_env \<Rightarrow> dev_cvm \<Rightarrow> js_number \<Rightarrow> enclave_error + attestation_quote" where
  "cvm_quote env d now =
     (if dv_mode d = ManagedNear
      then rbind (of_option (AttestationFailedError ''Gateway session issuer requires a private key'') (vr_privateKey (dv_vendor d))) (\<lambda>key.
        rbind (require (is_safe_integer now \<and> 0 \<le> int_of now) (AttestationFailedError ''Invalid gateway session timestamp'')) (\<lambda>_.
        let descriptor = gatewaySessionDescriptor (ce_crypto env) (cc_policy (dv_config d)) now in
        Inr (descriptor\<lparr>q_signature := cx_sign (ce_crypto env) key (quotePayload descriptor)\<rparr>)))
      else issueQuote (ce_crypto env) (dv_vendor d) (cc_policy (dv_config d)) now)"

definition releaseKeys :: "cvm_env \<Rightarrow> attestation_quote \<Rightarrow> string \<Rightarrow> js_number \<Rightarrow> dev_cvm \<Rightarrow> enclave_error + dev_cvm" where
  "releaseKeys env quote vendorAddress now d =
     (if vr_address (dv_vendor d) = [] then Inl (AttestationFailedError ''Missing vendor root'')
      else if \<not> same vendorAddress (vr_address (dv_vendor d)) then Inl (AttestationFailedError ''Vendor root does not match CVM configuration'')
      else rbind (if dv_mode d = ManagedNear
          then verifyGatewaySession (ce_crypto env) quote (cc_policy (dv_config d)) (vr_address (dv_vendor d)) now
          else verifyQuote (ce_crypto env) quote (cc_policy (dv_config d)) (vr_address (dv_vendor d)) now) (\<lambda>_.
        rbind (decryptAesGcm (ce_aes env) (dv_wrappingKey d) (dv_encryptedWeights d)) (\<lambda>modelKey.
        Inr (d\<lparr>dv_modelKey := Some modelKey, dv_verifiedAttRefs := sha256HexText (ce_sha env) (q_signature quote) # dv_verifiedAttRefs d\<rparr>))))"

definition withPolicy :: "tcb_policy \<Rightarrow> dev_cvm \<Rightarrow> enclave_error + dev_cvm" where
  "withPolicy policy d =
     rbind (canonicalTcbPolicy policy) (\<lambda>_.
     rbind (parseTcbPolicy (policy_json policy)) (\<lambda>next_policy.
     new_cvm (dv_vendor d) (dv_wrappingKey d) (dv_encryptedWeights d) (dv_enclavePrivateKey d)
       ((dv_config d)\<lparr>cc_policy := next_policy, cc_policyKeys := True\<rparr>)))"

definition sessionSecret :: "cvm_env \<Rightarrow> string \<Rightarrow> dev_cvm \<Rightarrow> enclave_error + bytes" where
  "sessionSecret env sessionId d =
     rbind (of_option KeyNotReleasedError (dv_modelKey d)) (\<lambda>key.
     Inr (ce_sha env (key @ utf8 sessionId @ (if cc_policyKeys (dv_config d) then utf8 (codeHash env d) else []))))"

definition memorySealKey :: "cvm_env \<Rightarrow> dev_cvm \<Rightarrow> bytes" where
  "memorySealKey env d = ce_sha env (dv_wrappingKey d @ utf8 ''enclave-agent-memory-v1'')"

definition sealMemory :: "cvm_env \<Rightarrow> bytes \<Rightarrow> bytes \<Rightarrow> dev_cvm \<Rightarrow> aes_blob" where
  "sealMemory env iv text d = encryptAesGcm (ce_aes env) iv (memorySealKey env d) text"

definition openMemory :: "cvm_env \<Rightarrow> aes_blob \<Rightarrow> dev_cvm \<Rightarrow> enclave_error + bytes" where
  "openMemory env blob d =
     rbind (of_option KeyNotReleasedError (dv_modelKey d)) (\<lambda>_. decryptAesGcm (ce_aes env) (memorySealKey env d) blob)"

definition keysReleased :: "dev_cvm \<Rightarrow> bool" where
  "keysReleased d \<longleftrightarrow> dv_modelKey d \<noteq> None"

definition debugFingerprint :: "cvm_env \<Rightarrow> dev_cvm \<Rightarrow> string \<times> string" where
  "debugFingerprint env d = (toHex (ce_sha env (dv_wrappingKey d)), enclaveAddress env d)"

definition cvm_view :: "cvm_env \<Rightarrow> dev_cvm \<Rightarrow> string \<times> string \<times> string \<times> bool" where
  "cvm_view env d = (enclaveAddress env d, modelHash env d, codeHash env d, keysReleased d)"

section \<open>Inference\<close>

record infer_context =
  ic_attRef :: string
  ic_nonce :: "string option"
  ic_receiptTimestamp :: "int option"

text \<open>\<open>iw_now\<close> is \<open>Date.now()\<close>, \<open>iw_elapsed\<close> the floored time the call took, \<open>iw_nonce\<close> the random nonce.\<close>

record infer_world =
  iw_now :: js_number
  iw_elapsed :: int
  iw_nonce :: bytes
  iw_verified :: "enclave_error + near_result"
  iw_backend :: "enclave_error + bytes"

record cvm_answer =
  ca_output :: bytes
  ca_receipt :: signed_receipt
  ca_proof :: "provider_proof option"
  ca_transcript :: "(bytes \<times> bytes \<times> string option) option"

text \<open>Lines 187-197: the time of the receipt and its nonce.\<close>

definition receipt_stamp :: "cvm_env \<Rightarrow> infer_context \<Rightarrow> infer_world \<Rightarrow> dev_cvm \<Rightarrow> enclave_error + (bytes \<times> string \<times> int)" where
  "receipt_stamp env ctx w d =
     rbind (of_option KeyNotReleasedError (dv_modelKey d)) (\<lambda>modelKey.
     rbind (require (isHex32 (ic_attRef ctx) \<and> lower (ic_attRef ctx) \<in> set (dv_verifiedAttRefs d))
       (AttestationFailedError ''Session attestation was not verified by this CVM'')) (\<lambda>_.
     let nonce = or_else (ic_nonce ctx) (toHex (iw_nonce w)) in
     rbind (require (isHex32 nonce) (PlainError ''Receipt nonce must be bytes32'')) (\<lambda>_.
     rbind (require (is_safe_integer (iw_now w) \<and> 0 \<le> int_of (iw_now w)) (PlainError ''Invalid receipt timestamp'')) (\<lambda>_.
     let ts = or_else (ic_receiptTimestamp ctx) (int_of (iw_now w) div 1000) in
     rbind (require (0 \<le> ts \<and> ts \<le> 2 ^ 64 - 1) (PlainError ''Invalid receipt timestamp'')) (\<lambda>_.
     Inr (modelKey, nonce, ts))))))"

definition first_content :: "json \<Rightarrow> json option" where
  "first_content v = (case json_field ''messages'' v of Some (JArr (x # _)) \<Rightarrow> json_field ''content'' x | _ \<Rightarrow> None)"

text \<open>Lines 205-235: the adapter's candidate, checked; \<open>prompt\<close> is the decoded input.\<close>

definition checked_candidate ::
    "cvm_env \<Rightarrow> infer_world \<Rightarrow> string \<Rightarrow> near_result \<Rightarrow> dev_cvm \<Rightarrow> enclave_error + near_result" where
  "checked_candidate env w prompt candidate d =
     rbind (require (case nt_attestationProof candidate of Some p \<Rightarrow> length p \<le> 4194304 | None \<Rightarrow> True)
       (PlainError ''Verified inference adapter returned an invalid result'')) (\<lambda>_.
     rbind (snapshot (ce_host env) (nt_evidence candidate)) (\<lambda>evidence.
     rbind (require (ne_model evidence = cc_modelId (dv_config d) \<and> ne_outputHash evidence = sha256Hex (ce_sha env) (nt_output candidate)
         \<and> verifyNearTranscript (ce_host env) evidence (nt_requestBody candidate) (nt_responseBody candidate))
       (PlainError ''Verified inference evidence does not match the result'')) (\<lambda>_.
     rbind (require (dv_mode d = ManagedNear \<longrightarrow>
         (case (nh_date (ce_host env) (ne_verifiedAt evidence), nh_date (ce_host env) (ne_expiresAt evidence)) of
            (Some issued, Some expires) \<Rightarrow>
              (let completed = int_of (iw_now w) + max 0 (iw_elapsed w) in
               \<bar>completed\<bar> \<le> max_safe \<and> \<not> issued > completed + 30000 \<and> \<not> expires \<le> completed \<and> \<not> expires \<le> issued)
          | _ \<Rightarrow> False)) (PlainError ''Verified inference evidence is not fresh'')) (\<lambda>_.
     rbind (of_option (PlainError ''request'')
       (case decode_text (nt_requestBody candidate) of Some s \<Rightarrow> nh_parse (ce_host env) s | None \<Rightarrow> None)) (\<lambda>request.
     rbind (of_option (PlainError ''request'') (first_content request)) (\<lambda>c.
     rbind (require (c = JStr prompt) (PlainError ''Verified inference evidence does not match the input'')) (\<lambda>_.
     Inr (candidate\<lparr>nt_evidence := evidence\<rparr>))))))))"

definition verified_answer :: "cvm_env \<Rightarrow> infer_world \<Rightarrow> bytes \<Rightarrow> dev_cvm \<Rightarrow> enclave_error + near_result option" where
  "verified_answer env w input d =
     rbind (require (\<not> (dv_mode d = ManagedNear \<and> (\<not> cc_verifiedInference (dv_config d) \<or> cc_inference (dv_config d))))
       (PlainError ''Managed NEAR requires a verified inference adapter and forbids ordinary inference'')) (\<lambda>_.
     if cc_verifiedInference (dv_config d)
     then rbind (of_option (PlainError ''The encoded data was not valid'') (decode_text input)) (\<lambda>prompt.
       rbind (iw_verified w) (\<lambda>candidate. rmap Some (checked_candidate env w prompt candidate d)))
     else Inr None)"

definition cvm_infer :: "cvm_env \<Rightarrow> bytes \<Rightarrow> infer_context \<Rightarrow> infer_world \<Rightarrow> dev_cvm \<Rightarrow> enclave_error + cvm_answer" where
  "cvm_infer env input ctx w d =
     rbind (receipt_stamp env ctx w d) (\<lambda>(modelKey, nonce, ts).
     rbind (verified_answer env w input d) (\<lambda>verified.
     rbind (require (\<not> (dv_mode d = ManagedNear \<and> verified = None)) (PlainError ''Managed NEAR requires verified provider evidence'')) (\<lambda>_.
     rbind (case verified of
         Some v \<Rightarrow> Inr (nt_output v)
       | None \<Rightarrow> if cc_inference (dv_config d) then iw_backend w else Inr (ce_sha env (modelKey @ input))) (\<lambda>out.
     rbind (signReceipt (ce_typed env)
         \<lparr>ir_version = 2, ir_modelHash = modelHash env d, ir_codeHash = codeHash env d, ir_inHash = sha256Hex (ce_sha env) input,
          ir_outHash = sha256Hex (ce_sha env) out, ir_attRef = ic_attRef ctx, ir_nonce = Some nonce, ir_ts = ts\<rparr>
         (dv_enclavePrivateKey d) (cc_chainId (dv_config d)) (cc_verifyingContract (dv_config d))) (\<lambda>receipt.
     case verified of
       None \<Rightarrow> Inr \<lparr>ca_output = out, ca_receipt = receipt, ca_proof = None, ca_transcript = None\<rparr>
     | Some v \<Rightarrow>
         rmap (\<lambda>p. \<lparr>ca_output = out, ca_receipt = receipt, ca_proof = Some p,
                    ca_transcript = Some (nt_requestBody v, nt_responseBody v, nt_attestationProof v)\<rparr>)
           (signProviderProof (ce_host env) (ce_typed env) receipt (nt_evidence v) (dv_enclavePrivateKey d)
             (cc_chainId (dv_config d)) (cc_verifyingContract (dv_config d))))))))"

section \<open>Evidence survives its copy\<close>

definition reads_evidence :: "near_host \<Rightarrow> near_evidence \<Rightarrow> bool" where
  "reads_evidence host e \<longleftrightarrow> nh_parse host (stringify (canon (evidence_json e))) = Some (canon (evidence_json e))"

definition sorted_evidence :: "near_evidence \<Rightarrow> (string \<times> json) list" where
  "sorted_evidence e =
     [(''attestationRef'', JStr (ne_attestationRef e)), (''completionId'', JStr (ne_completionId e)), (''endpoint'', JStr (ne_endpoint e)),
      (''expiresAt'', JStr (ne_expiresAt e)), (''model'', JStr (ne_model e)), (''outputHash'', JStr (ne_outputHash e)), (''provider'', JStr (ne_provider e)),
      (''requestHash'', JStr (ne_requestHash e)), (''responseHash'', JStr (ne_responseHash e)), (''schemaVersion'', JNum (int (ne_schemaVersion e))),
      (''signature'', JStr (ne_signature e)), (''signatureKind'', JStr (ne_signatureKind e)), (''signatureText'', JStr (ne_signatureText e)),
      (''signingAddress'', JStr (ne_signingAddress e)), (''tlsBound'', JBool (ne_tlsBound e)), (''verifiedAt'', JStr (ne_verifiedAt e))]"

lemma canon_evidence: "canon (evidence_json e) = JObj (sorted_evidence e)"
  by (simp add: evidence_json_def sorted_evidence_def)

lemma evidence_text: "canonicalEvidenceJson (evidence_json e) = Inr (stringify (canon (evidence_json e)))"
proof -
  have "\<exists>s. canonicalEvidenceJson (evidence_json e) = Inr s"
    by (simp add: canonicalEvidenceJson_def evidence_json_def visit.simps)
  then show ?thesis using canonicalEvidenceJson_canon(1) by blast
qed

lemma evidence_of_canon: "evidence_of_json (canon (evidence_json e)) = Some e"
  by (simp add: canon_evidence sorted_evidence_def evidence_of_json_def json_field_def json_text_def)

lemma snapshot_same: "reads_evidence host e \<Longrightarrow> snapshot host e = Inr e"
  by (simp add: snapshot_def evidence_text reads_evidence_def evidence_of_canon)

lemma evidence_hash: "providerEvidenceHash sha e = Inr (sha256HexText sha (stringify (canon (evidence_json e))))"
  by (simp add: providerEvidenceHash_def evidence_text)

section \<open>What an answer rests on\<close>

lemma receipt_stamp_Inr:
  assumes "receipt_stamp env ctx w d = Inr (modelKey, nonce, ts)"
  shows "dv_modelKey d = Some modelKey" "isHex32 (ic_attRef ctx)" "lower (ic_attRef ctx) \<in> set (dv_verifiedAttRefs d)" "isHex32 nonce" "0 \<le> ts" "ts < 2 ^ 64"
  using assms by (auto simp: receipt_stamp_def Let_def res_simps)

lemma checked_candidate_Inr:
  assumes "checked_candidate env w prompt candidate d = Inr v"
  obtains evidence request where "snapshot (ce_host env) (nt_evidence candidate) = Inr evidence" "v = candidate\<lparr>nt_evidence := evidence\<rparr>"
    "ne_model evidence = cc_modelId (dv_config d)" "ne_outputHash evidence = sha256Hex (ce_sha env) (nt_output candidate)"
    "verifyNearTranscript (ce_host env) evidence (nt_requestBody candidate) (nt_responseBody candidate)"
    "dv_mode d = ManagedNear \<longrightarrow> (\<exists>issued expires. nh_date (ce_host env) (ne_verifiedAt evidence) = Some issued
        \<and> nh_date (ce_host env) (ne_expiresAt evidence) = Some expires
        \<and> issued \<le> int_of (iw_now w) + max 0 (iw_elapsed w) + 30000 \<and> int_of (iw_now w) + max 0 (iw_elapsed w) < expires \<and> issued < expires)"
    "\<exists>s. decode_text (nt_requestBody candidate) = Some s \<and> nh_parse (ce_host env) s = Some request" "first_content request = Some (JStr prompt)"
proof -
  from assms obtain evidence c request where e: "snapshot (ce_host env) (nt_evidence candidate) = Inr evidence"
    and m: "ne_model evidence = cc_modelId (dv_config d) \<and> ne_outputHash evidence = sha256Hex (ce_sha env) (nt_output candidate)
         \<and> verifyNearTranscript (ce_host env) evidence (nt_requestBody candidate) (nt_responseBody candidate)"
    and fresh: "dv_mode d = ManagedNear \<longrightarrow>
         (case (nh_date (ce_host env) (ne_verifiedAt evidence), nh_date (ce_host env) (ne_expiresAt evidence)) of
            (Some issued, Some expires) \<Rightarrow>
              (let completed = int_of (iw_now w) + max 0 (iw_elapsed w) in
               \<bar>completed\<bar> \<le> max_safe \<and> \<not> issued > completed + 30000 \<and> \<not> expires \<le> completed \<and> \<not> expires \<le> issued)
          | _ \<Rightarrow> False)"
    and request: "(case decode_text (nt_requestBody candidate) of Some s \<Rightarrow> nh_parse (ce_host env) s | None \<Rightarrow> None) = Some request"
    and c: "first_content request = Some c" "c = JStr prompt" and v: "v = candidate\<lparr>nt_evidence := evidence\<rparr>"
    unfolding checked_candidate_def res_simps by blast
  have "\<exists>s. decode_text (nt_requestBody candidate) = Some s \<and> nh_parse (ce_host env) s = Some request"
    using request by (auto split: option.splits)
  moreover have "\<exists>issued expires. nh_date (ce_host env) (ne_verifiedAt evidence) = Some issued \<and> nh_date (ce_host env) (ne_expiresAt evidence) = Some expires
        \<and> issued \<le> int_of (iw_now w) + max 0 (iw_elapsed w) + 30000 \<and> int_of (iw_now w) + max 0 (iw_elapsed w) < expires \<and> issued < expires"
    if "dv_mode d = ManagedNear"
    using fresh that by (auto simp: Let_def split: option.splits)
  ultimately show ?thesis using e m c v by (intro that [of evidence request]) auto
qed

lemma cvm_infer_Inr:
  assumes "cvm_infer env input ctx w d = Inr ans"
  obtains modelKey nonce ts verified receipt where "receipt_stamp env ctx w d = Inr (modelKey, nonce, ts)" "verified_answer env w input d = Inr verified"
    "dv_mode d = ManagedNear \<longrightarrow> verified \<noteq> None"
    "signReceipt (ce_typed env)
         \<lparr>ir_version = 2, ir_modelHash = modelHash env d, ir_codeHash = codeHash env d, ir_inHash = sha256Hex (ce_sha env) input,
          ir_outHash = sha256Hex (ce_sha env) (ca_output ans), ir_attRef = ic_attRef ctx, ir_nonce = Some nonce, ir_ts = ts\<rparr>
         (dv_enclavePrivateKey d) (cc_chainId (dv_config d)) (cc_verifyingContract (dv_config d)) = Inr (ca_receipt ans)"
    "case verified of None \<Rightarrow> ca_proof ans = None
     | Some v \<Rightarrow> ca_output ans = nt_output v \<and> ca_transcript ans = Some (nt_requestBody v, nt_responseBody v, nt_attestationProof v)
        \<and> (\<exists>p. ca_proof ans = Some p \<and> signProviderProof (ce_host env) (ce_typed env) (ca_receipt ans) (nt_evidence v) (dv_enclavePrivateKey d)
             (cc_chainId (dv_config d)) (cc_verifyingContract (dv_config d)) = Inr p)"
proof -
  from assms obtain st where st: "receipt_stamp env ctx w d = Inr st" unfolding cvm_infer_def by (rule rbind_InrE)
  obtain modelKey nonce ts where split: "st = (modelKey, nonce, ts)" by (rule prod_cases3)
  from st split have s: "receipt_stamp env ctx w d = Inr (modelKey, nonce, ts)" by simp
  from assms obtain verified out receipt where v: "verified_answer env w input d = Inr verified" and m: "\<not> (dv_mode d = ManagedNear \<and> verified = None)"
    and out: "(case verified of Some v \<Rightarrow> Inr (nt_output v)
       | None \<Rightarrow> if cc_inference (dv_config d) then iw_backend w else Inr (ce_sha env (modelKey @ input))) = Inr out"
    and r: "signReceipt (ce_typed env)
         \<lparr>ir_version = 2, ir_modelHash = modelHash env d, ir_codeHash = codeHash env d, ir_inHash = sha256Hex (ce_sha env) input,
          ir_outHash = sha256Hex (ce_sha env) out, ir_attRef = ic_attRef ctx, ir_nonce = Some nonce, ir_ts = ts\<rparr>
         (dv_enclavePrivateKey d) (cc_chainId (dv_config d)) (cc_verifyingContract (dv_config d)) = Inr receipt"
    and a: "(case verified of
       None \<Rightarrow> Inr \<lparr>ca_output = out, ca_receipt = receipt, ca_proof = None, ca_transcript = None\<rparr>
     | Some v \<Rightarrow>
         rmap (\<lambda>p. \<lparr>ca_output = out, ca_receipt = receipt, ca_proof = Some p,
                    ca_transcript = Some (nt_requestBody v, nt_responseBody v, nt_attestationProof v)\<rparr>)
           (signProviderProof (ce_host env) (ce_typed env) receipt (nt_evidence v) (dv_enclavePrivateKey d)
             (cc_chainId (dv_config d)) (cc_verifyingContract (dv_config d)))) = Inr ans"
    unfolding cvm_infer_def st split rbind_simps prod.case by (elim rbind_InrE, unfold require_Inr_iff) (rule that)
  have "ca_output ans = out \<and> ca_receipt ans = receipt \<and> (case verified of None \<Rightarrow> ca_proof ans = None
     | Some v \<Rightarrow> ca_output ans = nt_output v \<and> ca_transcript ans = Some (nt_requestBody v, nt_responseBody v, nt_attestationProof v)
        \<and> (\<exists>p. ca_proof ans = Some p \<and> signProviderProof (ce_host env) (ce_typed env) receipt (nt_evidence v) (dv_enclavePrivateKey d)
             (cc_chainId (dv_config d)) (cc_verifyingContract (dv_config d)) = Inr p))"
    using a out by (cases verified) (auto simp: res_simps)
  then have o: "ca_output ans = out" "ca_receipt ans = receipt" and rest: "case verified of None \<Rightarrow> ca_proof ans = None
     | Some v \<Rightarrow> ca_output ans = nt_output v \<and> ca_transcript ans = Some (nt_requestBody v, nt_responseBody v, nt_attestationProof v)
        \<and> (\<exists>p. ca_proof ans = Some p \<and> signProviderProof (ce_host env) (ce_typed env) (ca_receipt ans) (nt_evidence v) (dv_enclavePrivateKey d)
             (cc_chainId (dv_config d)) (cc_verifyingContract (dv_config d)) = Inr p)" by (cases verified; simp)+
  have "dv_mode d = ManagedNear \<longrightarrow> verified \<noteq> None" using m by simp
  then show ?thesis by (rule that [OF s v _ r [folded o] rest])
qed

lemma verified_answer_Inr:
  assumes "verified_answer env w input d = Inr (Some v)"
  obtains prompt candidate where "decode_text input = Some prompt" "iw_verified w = Inr candidate" "checked_candidate env w prompt candidate d = Inr v"
  using assms by (auto simp: verified_answer_def res_simps split: if_splits)

lemma signProviderProof_Inr:
  assumes "signProviderProof host ty receipt e key c v = Inr p" and "reads_evidence host e"
  shows "pf_evidence p = e" "ne_outputHash e = ir_outHash (sr_receipt receipt)"
    "receiptTypedHash ty (sr_receipt receipt) c v = Inr (pf_receiptHash p)"
    "pf_evidenceHash p = sha256HexText (cx_sha (nh_crypto host)) (stringify (canon (evidence_json e)))" "pf_version p = 1"
    "pf_sig p = ty_sign ty key (proof_typed_data (pf_receiptHash p) (pf_evidenceHash p) c v)"
  using assms by (auto simp: signProviderProof_def res_simps snapshot_same evidence_hash)

section \<open>The enclave as a transition system\<close>

definition accepts :: "cvm_env \<Rightarrow> dev_cvm \<Rightarrow> attestation_quote \<Rightarrow> js_number \<Rightarrow> bool" where
  "accepts env d quote now \<longleftrightarrow>
     (if dv_mode d = ManagedNear
      then verifyGatewaySession (ce_crypto env) quote (cc_policy (dv_config d)) (vr_address (dv_vendor d)) now
      else verifyQuote (ce_crypto env) quote (cc_policy (dv_config d)) (vr_address (dv_vendor d)) now) = Inr ()"

definition cvm_start :: "cvm_env \<Rightarrow> dev_cvm \<Rightarrow> bool" where
  "cvm_start env d \<longleftrightarrow> (\<exists>iv c vendor persisted fresh. create_cvm env iv c vendor persisted fresh = Inr d \<and> length iv = 12)"

inductive cvm_step :: "cvm_env \<Rightarrow> dev_cvm \<Rightarrow> dev_cvm \<Rightarrow> bool" for env :: cvm_env where
  released: "releaseKeys env quote vendorAddress now d = Inr d' \<Longrightarrow> cvm_step env d d'"
| rotated: "withPolicy policy d = Inr d' \<Longrightarrow> cvm_step env d d'"

definition cvm_ok :: "cvm_env \<Rightarrow> dev_cvm \<Rightarrow> bool" where
  "cvm_ok env d \<longleftrightarrow> (dv_modelKey d = None \<longleftrightarrow> dv_verifiedAttRefs d = [])
     \<and> (\<forall>r \<in> set (dv_verifiedAttRefs d). \<exists>quote now. accepts env d quote now \<and> r = sha256HexText (ce_sha env) (q_signature quote))"

definition cvm_keeps :: "dev_cvm \<Rightarrow> dev_cvm \<Rightarrow> bool" where
  "cvm_keeps d e \<longleftrightarrow> dv_wrappingKey e = dv_wrappingKey d \<and> dv_encryptedWeights e = dv_encryptedWeights d
     \<and> dv_enclavePrivateKey e = dv_enclavePrivateKey d \<and> dv_vendor e = dv_vendor d \<and> dv_mode e = dv_mode d
     \<and> cc_modelId (dv_config e) = cc_modelId (dv_config d) \<and> cc_verifiedInference (dv_config e) = cc_verifiedInference (dv_config d)
     \<and> cc_inference (dv_config e) = cc_inference (dv_config d)"

lemma frozen_config_Inr:
  assumes "frozen_config c = Inr c'"
  shows "\<exists>p. c' = c\<lparr>cc_policy := p\<rparr>"
proof (cases "gateway_mode_of c = ManagedNear")
  case True
  with assms show ?thesis by (auto simp: frozen_config_def res_simps)
next
  case False
  with assms show ?thesis by (intro exI [of _ "cc_policy c"]) (simp add: frozen_config_def)
qed

lemma new_cvm_Inr:
  assumes "new_cvm vendor wk weights key c = Inr d"
  shows "dv_modelKey d = None" "dv_verifiedAttRefs d = []" "dv_mode d = gateway_mode_of c" "dv_wrappingKey d = wk" "dv_encryptedWeights d = weights"
    "dv_enclavePrivateKey d = key" "dv_vendor d = vendor" "cc_modelId (dv_config d) = cc_modelId c"
    "cc_verifiedInference (dv_config d) = cc_verifiedInference c" "cc_inference (dv_config d) = cc_inference c"
    "cc_gatewayMode (dv_config d) = cc_gatewayMode c"
  using assms frozen_config_Inr [of c] by (auto simp: new_cvm_def res_simps)

lemma withPolicy_Inr:
  assumes "withPolicy policy d = Inr e"
  obtains p where "new_cvm (dv_vendor d) (dv_wrappingKey d) (dv_encryptedWeights d) (dv_enclavePrivateKey d)
       ((dv_config d)\<lparr>cc_policy := p, cc_policyKeys := True\<rparr>) = Inr e"
  using assms by (auto simp: withPolicy_def res_simps)

lemma releaseKeys_Inr:
  assumes "releaseKeys env quote vendorAddress now d = Inr e"
  obtains key where "accepts env d quote now" "e = d\<lparr>dv_modelKey := Some key, dv_verifiedAttRefs := sha256HexText (ce_sha env) (q_signature quote) # dv_verifiedAttRefs d\<rparr>"
    "decryptAesGcm (ce_aes env) (dv_wrappingKey d) (dv_encryptedWeights d) = Inr key"
  using assms by (auto simp: releaseKeys_def accepts_def res_simps split: if_splits)

lemma gateway_mode_update [simp]:
  "gateway_mode_of (c\<lparr>cc_policy := p\<rparr>) = gateway_mode_of c" "gateway_mode_of (c\<lparr>cc_policyKeys := b\<rparr>) = gateway_mode_of c"
  by (simp_all add: gateway_mode_of_def)

definition mode_ok :: "dev_cvm \<Rightarrow> bool" where
  "mode_ok d \<longleftrightarrow> dv_mode d = gateway_mode_of (dv_config d)"

lemma cvm_step_ok:
  assumes "cvm_step env d e" and "cvm_ok env d \<and> mode_ok d"
  shows "(cvm_ok env e \<and> mode_ok e) \<and> cvm_keeps d e"
  using assms
proof (induction rule: cvm_step.induct)
  case (released quote vendorAddress now d e)
  from released(1) obtain key where e: "accepts env d quote now"
    "e = d\<lparr>dv_modelKey := Some key, dv_verifiedAttRefs := sha256HexText (ce_sha env) (q_signature quote) # dv_verifiedAttRefs d\<rparr>" by (rule releaseKeys_Inr)
  have "accepts env e q n = accepts env d q n" for q n by (simp add: accepts_def e(2))
  then show ?case using released(2) e(1) by (auto simp: cvm_ok_def mode_ok_def cvm_keeps_def e(2))
next
  case (rotated policy d e)
  from rotated(1) obtain p where "new_cvm (dv_vendor d) (dv_wrappingKey d) (dv_encryptedWeights d) (dv_enclavePrivateKey d)
       ((dv_config d)\<lparr>cc_policy := p, cc_policyKeys := True\<rparr>) = Inr e" by (rule withPolicy_Inr)
  from new_cvm_Inr [OF this] rotated(2) show ?case
    by (auto simp: cvm_ok_def mode_ok_def cvm_keeps_def gateway_mode_of_def)
qed

lemma create_cvm_Inr:
  assumes "create_cvm env iv c vendor persisted fresh = Inr d"
  obtains key wk mk where "new_cvm vendor wk (encryptAesGcm (ce_aes env) iv wk mk) key c = Inr d" "(key, wk, mk) = or_else persisted fresh"
  using assms by (auto simp: create_cvm_def Let_def split: if_splits prod.splits)

interpretation enclave: history_system "cvm_start env" "cvm_step env" "\<lambda>d. cvm_ok env d \<and> mode_ok d" cvm_keeps for env
proof unfold_locales
  show "cvm_ok env d \<and> mode_ok d" if "cvm_start env d" for d
  proof -
    from that obtain iv c vendor persisted fresh where "create_cvm env iv c vendor persisted fresh = Inr d" by (auto simp: cvm_start_def)
    then obtain key wk mk where "new_cvm vendor wk (encryptAesGcm (ce_aes env) iv wk mk) key c = Inr d" by (rule create_cvm_Inr)
    from new_cvm_Inr [OF this] show ?thesis by (auto simp: cvm_ok_def mode_ok_def gateway_mode_of_def)
  qed
  show "cvm_keeps d d" for d by (simp add: cvm_keeps_def)
  show "cvm_keeps d f" if "cvm_keeps d e" "cvm_keeps e f" for d e f using that by (simp add: cvm_keeps_def)
  show "cvm_keeps d e" if "cvm_ok env d \<and> mode_ok d" "cvm_step env d e" for d e using cvm_step_ok that by blast
  show "cvm_ok env e \<and> mode_ok e" if "cvm_ok env d \<and> mode_ok d" "cvm_step env d e" for d e using cvm_step_ok that by blast
qed

section \<open>Properties\<close>

text \<open>Claim C11. Under managed inference every answer is verified provider output for exactly this prompt: the
  signed evidence passed the transcript check, names this enclave's model and the answer's hash, was fresh when
  the call completed, and the request it binds carries the decoded input; the receipt commits to the same input
  and output.\<close>

theorem managed_answer_is_verified:
  assumes "dv_mode d = ManagedNear" and "cvm_infer env input ctx w d = Inr ans" and "iw_verified w = Inr candidate"
    and "reads_evidence (ce_host env) (nt_evidence candidate)"
  shows "\<exists>p prompt request. ca_proof ans = Some p \<and> pf_evidence p = nt_evidence candidate
    \<and> verifyNearTranscript (ce_host env) (pf_evidence p) (nt_requestBody candidate) (nt_responseBody candidate)
    \<and> ca_output ans = nt_output candidate \<and> ne_model (pf_evidence p) = cc_modelId (dv_config d)
    \<and> decode_text input = Some prompt \<and> first_content request = Some (JStr prompt)
    \<and> (\<exists>s. decode_text (nt_requestBody candidate) = Some s \<and> nh_parse (ce_host env) s = Some request)
    \<and> ir_inHash (sr_receipt (ca_receipt ans)) = sha256Hex (ce_sha env) input
    \<and> ir_outHash (sr_receipt (ca_receipt ans)) = ne_outputHash (pf_evidence p)
    \<and> (\<exists>expires. nh_date (ce_host env) (ne_expiresAt (pf_evidence p)) = Some expires \<and> int_of (iw_now w) + max 0 (iw_elapsed w) < expires)"
proof -
  from assms(2) obtain modelKey nonce ts verified where v: "verified_answer env w input d = Inr verified" "dv_mode d = ManagedNear \<longrightarrow> verified \<noteq> None"
    and r: "signReceipt (ce_typed env)
         \<lparr>ir_version = 2, ir_modelHash = modelHash env d, ir_codeHash = codeHash env d, ir_inHash = sha256Hex (ce_sha env) input,
          ir_outHash = sha256Hex (ce_sha env) (ca_output ans), ir_attRef = ic_attRef ctx, ir_nonce = Some nonce, ir_ts = ts\<rparr>
         (dv_enclavePrivateKey d) (cc_chainId (dv_config d)) (cc_verifyingContract (dv_config d)) = Inr (ca_receipt ans)"
    and rest: "case verified of None \<Rightarrow> ca_proof ans = None
     | Some v \<Rightarrow> ca_output ans = nt_output v \<and> ca_transcript ans = Some (nt_requestBody v, nt_responseBody v, nt_attestationProof v)
        \<and> (\<exists>p. ca_proof ans = Some p \<and> signProviderProof (ce_host env) (ce_typed env) (ca_receipt ans) (nt_evidence v) (dv_enclavePrivateKey d)
             (cc_chainId (dv_config d)) (cc_verifyingContract (dv_config d)) = Inr p)"
    by (rule cvm_infer_Inr)
  from v(2) assms(1) obtain x where x: "verified = Some x" by auto
  from v(1) x obtain prompt where prompt: "decode_text input = Some prompt" and cand: "checked_candidate env w prompt candidate d = Inr x"
    using verified_answer_Inr [of env w input d x] assms(3) by (metis Inr_inject)
  from cand obtain evidence request where e: "snapshot (ce_host env) (nt_evidence candidate) = Inr evidence" "x = candidate\<lparr>nt_evidence := evidence\<rparr>"
    "ne_model evidence = cc_modelId (dv_config d)" "ne_outputHash evidence = sha256Hex (ce_sha env) (nt_output candidate)"
    "verifyNearTranscript (ce_host env) evidence (nt_requestBody candidate) (nt_responseBody candidate)"
    and fresh: "dv_mode d = ManagedNear \<longrightarrow> (\<exists>issued expires. nh_date (ce_host env) (ne_verifiedAt evidence) = Some issued
        \<and> nh_date (ce_host env) (ne_expiresAt evidence) = Some expires
        \<and> issued \<le> int_of (iw_now w) + max 0 (iw_elapsed w) + 30000 \<and> int_of (iw_now w) + max 0 (iw_elapsed w) < expires \<and> issued < expires)"
    and request: "\<exists>s. decode_text (nt_requestBody candidate) = Some s \<and> nh_parse (ce_host env) s = Some request" "first_content request = Some (JStr prompt)"
    by (rule checked_candidate_Inr)
  have same: "evidence = nt_evidence candidate" using e(1) snapshot_same [OF assms(4)] by simp
  from rest x obtain p where p: "ca_output ans = nt_output x" "ca_proof ans = Some p"
    "signProviderProof (ce_host env) (ce_typed env) (ca_receipt ans) (nt_evidence x) (dv_enclavePrivateKey d)
             (cc_chainId (dv_config d)) (cc_verifyingContract (dv_config d)) = Inr p" by auto
  have "reads_evidence (ce_host env) (nt_evidence x)" using assms(4) by (simp add: e(2) same)
  note sp = signProviderProof_Inr [OF p(3) this]
  have receipt: "ir_inHash (sr_receipt (ca_receipt ans)) = sha256Hex (ce_sha env) input"
    using r by (auto simp: signReceipt_def res_simps)
  obtain expires where "nh_date (ce_host env) (ne_expiresAt evidence) = Some expires" "int_of (iw_now w) + max 0 (iw_elapsed w) < expires"
    using fresh assms(1) by blast
  with p sp e prompt request receipt show ?thesis
    by (intro exI [of _ p] exI [of _ prompt] exI [of _ request]) (simp add: same)
qed

text \<open>The proof that comes with an answer verifies for its receipt and the enclave's signer, on the chain
  and verifier contract it was made for.\<close>

theorem answer_proof_verifies:
  assumes "recovery_exact (ce_typed env)" and "cvm_infer env input ctx w d = Inr ans" and "ca_proof ans = Some p"
    and "iw_verified w = Inr candidate" and "reads_evidence (ce_host env) (nt_evidence candidate)"
  shows "verifyProviderProof (ce_host env) (ce_typed env) p (ca_receipt ans) (enclaveAddress env d)
    (cc_chainId (dv_config d)) (cc_verifyingContract (dv_config d))"
proof -
  let ?c = "cc_chainId (dv_config d)" and ?v = "cc_verifyingContract (dv_config d)" and ?key = "dv_enclavePrivateKey d"
  from assms(2) obtain modelKey nonce ts verified where v: "verified_answer env w input d = Inr verified"
    and r: "signReceipt (ce_typed env)
         \<lparr>ir_version = 2, ir_modelHash = modelHash env d, ir_codeHash = codeHash env d, ir_inHash = sha256Hex (ce_sha env) input,
          ir_outHash = sha256Hex (ce_sha env) (ca_output ans), ir_attRef = ic_attRef ctx, ir_nonce = Some nonce, ir_ts = ts\<rparr> ?key ?c ?v = Inr (ca_receipt ans)"
    and rest: "case verified of None \<Rightarrow> ca_proof ans = None
     | Some v \<Rightarrow> ca_output ans = nt_output v \<and> ca_transcript ans = Some (nt_requestBody v, nt_responseBody v, nt_attestationProof v)
        \<and> (\<exists>p. ca_proof ans = Some p \<and> signProviderProof (ce_host env) (ce_typed env) (ca_receipt ans) (nt_evidence v) ?key ?c ?v = Inr p)"
    by (rule cvm_infer_Inr)
  from rest assms(3) obtain x where x: "verified = Some x"
    "signProviderProof (ce_host env) (ce_typed env) (ca_receipt ans) (nt_evidence x) ?key ?c ?v = Inr p"
    by (auto split: option.splits)
  from v x(1) obtain prompt where "checked_candidate env w prompt candidate d = Inr x"
    using verified_answer_Inr [of env w input d x] assms(4) by (metis Inr_inject)
  then obtain evidence where "snapshot (ce_host env) (nt_evidence candidate) = Inr evidence" "x = candidate\<lparr>nt_evidence := evidence\<rparr>"
    by (rule checked_candidate_Inr)
  with snapshot_same [OF assms(5)] assms(5) have "reads_evidence (ce_host env) (nt_evidence x)" by simp
  note sp = signProviderProof_Inr [OF x(2) this]
  from r obtain t where t: "receipt_typed_data (sr_receipt (ca_receipt ans)) ?c ?v = Inr t" "sr_sig (ca_receipt ans) = ty_sign (ce_typed env) ?key t"
    by (auto simp: signReceipt_def res_simps)
  have refl: "typed_same e e" for e
  proof -
    have "value_same z z" for z by (cases z) simp_all
    then show ?thesis by (auto simp: typed_same_def list_all2_conv_all_nth)
  qed
  from assms(1) refl obtain a b where a: "ty_recover (ce_typed env) t (ty_sign (ce_typed env) ?key t) = Some a" "same a (ty_address (ce_typed env) ?key)"
    and b: "ty_recover (ce_typed env) (proof_typed_data (pf_receiptHash p) (pf_evidenceHash p) ?c ?v)
        (ty_sign (ce_typed env) ?key (proof_typed_data (pf_receiptHash p) (pf_evidenceHash p) ?c ?v)) = Some b" "same b (ty_address (ce_typed env) ?key)"
    unfolding recovery_exact_def by metis
  show ?thesis
    unfolding verifyProviderProof_def using sp a b t
    by (simp add: verifyReceiptSignature_def evidence_hash enclaveAddress_def)
qed

text \<open>Claim C12. No answer without an attestation of the running policy: an enclave, however it was rotated before,
  answers and gives out session keys only after a quote that its current policy accepts, and the receipt names
  exactly such a quote.\<close>

theorem no_answer_without_attestation:
  assumes "reachable (cvm_start env) (cvm_step env) d" and "cvm_infer env input ctx w d = Inr ans"
  shows "\<exists>quote now. accepts env d quote now \<and> same (ir_attRef (sr_receipt (ca_receipt ans))) (sha256HexText (ce_sha env) (q_signature quote))"
proof -
  from assms(2) obtain modelKey nonce ts verified where s: "receipt_stamp env ctx w d = Inr (modelKey, nonce, ts)"
    and r: "signReceipt (ce_typed env)
         \<lparr>ir_version = 2, ir_modelHash = modelHash env d, ir_codeHash = codeHash env d, ir_inHash = sha256Hex (ce_sha env) input,
          ir_outHash = sha256Hex (ce_sha env) (ca_output ans), ir_attRef = ic_attRef ctx, ir_nonce = Some nonce, ir_ts = ts\<rparr>
         (dv_enclavePrivateKey d) (cc_chainId (dv_config d)) (cc_verifyingContract (dv_config d)) = Inr (ca_receipt ans)"
    by (rule cvm_infer_Inr)
  have att: "ir_attRef (sr_receipt (ca_receipt ans)) = ic_attRef ctx" using r by (auto simp: signReceipt_def res_simps)
  have "cvm_ok env d" using enclave.inv_reachable [OF assms(1)] by simp
  with receipt_stamp_Inr(3) [OF s] obtain quote now where q: "accepts env d quote now" "lower (ic_attRef ctx) = sha256HexText (ce_sha env) (q_signature quote)"
    by (auto simp: cvm_ok_def)
  have "lower (sha256HexText (ce_sha env) (q_signature quote)) = sha256HexText (ce_sha env) (q_signature quote)"
    by (simp add: sha256HexText_def sha256Hex_def lower_toHex)
  with q att show ?thesis by (intro exI [of _ quote] exI [of _ now]) (simp add: same_def)
qed

text \<open>Claim C13. Memory sealed before a policy rotation opens after it: whatever releases and rotations happen in
  between, an enclave whose keys are released opens exactly what was sealed.\<close>

theorem sealed_memory_survives_rotation:
  assumes "aes_inverse (ce_aes env)" and "length iv = 12" and "reachable (cvm_start env) (cvm_step env) d"
    and "(cvm_step env)\<^sup>*\<^sup>* d e" and "keysReleased e"
  shows "openMemory env (sealMemory env iv memory d) e = Inr memory"
proof -
  have "cvm_keeps d e" by (rule enclave.keeps_from_reachable [OF assms(3,4)])
  then have key: "memorySealKey env e = memorySealKey env d" by (simp add: cvm_keeps_def memorySealKey_def)
  from assms(5) obtain k where "dv_modelKey e = Some k" by (auto simp: keysReleased_def)
  with decrypt_encrypt [OF assms(1,2)] show ?thesis by (simp add: openMemory_def sealMemory_def key)
qed

section \<open>A worked call\<close>

text \<open>The managed enclave of a stored key, released by a gateway session, answers one prompt with the evidence of \<open>Near_Inference\<close>.\<close>

definition demo_evidence :: near_evidence where
  "demo_evidence = \<lparr>ne_schemaVersion = 1, ne_provider = ''near'', ne_signatureKind = ''provider_tee'', ne_endpoint = ''https://cloud-api.near.ai'',
     ne_model = ''m'', ne_completionId = ''c'', ne_requestHash = demo_zero_hash, ne_responseHash = demo_zero_hash, ne_outputHash = demo_zero_hash,
     ne_signatureText = signature_text ''m'' demo_zero_hash demo_zero_hash, ne_signature = demo_near_signature, ne_signingAddress = demo_signer,
     ne_attestationRef = demo_zero_hash, ne_verifiedAt = ''a'', ne_expiresAt = ''b'', ne_tlsBound = True\<rparr>"

definition demo_candidate :: near_result where
  "demo_candidate = \<lparr>nt_output = utf8 ''a'', nt_evidence = demo_evidence, nt_requestBody = utf8 (stringify demo_request), nt_responseBody = utf8 ''R'',
     nt_attestationProof = None\<rparr>"

definition demo_cvm_host :: near_host where
  "demo_cvm_host = demo_near_host\<lparr>nh_parse := (\<lambda>s. if s = stringify (canon (evidence_json demo_evidence)) then Some (canon (evidence_json demo_evidence))
     else nh_parse demo_near_host s)\<rparr>"

definition demo_cvm_env :: cvm_env where
  "demo_cvm_env = \<lparr>ce_host = demo_cvm_host, ce_typed = demo_typed, ce_aes = demo_aes\<rparr>"

definition demo_cvm_config :: cvm_config where
  "demo_cvm_config = \<lparr>cc_policy = demo_policy, cc_modelId = ''m'', cc_chainId = 7, cc_verifyingContract = ''0xv'', cc_inference = False,
     cc_verifiedInference = True, cc_gatewayMode = Some ''managed-near'', cc_policyKeys = False\<rparr>"

definition demo_vendor :: vendor_roots where
  "demo_vendor = \<lparr>vr_address = demo_signer, vr_privateKey = Some ''1''\<rparr>"

definition demo_created_cvm :: dev_cvm where
  "demo_created_cvm = \<lparr>dv_config = demo_cvm_config, dv_vendor = demo_vendor, dv_wrappingKey = [1], dv_encryptedWeights = encryptAesGcm demo_aes (replicate 12 0) [1] [2],
     dv_enclavePrivateKey = ''2'', dv_modelKey = None, dv_verifiedAttRefs = [], dv_mode = ManagedNear\<rparr>"

definition demo_gateway_quote :: "tcb_policy \<Rightarrow> attestation_quote" where
  "demo_gateway_quote p = (gatewaySessionDescriptor demo_near_crypto p (JInt 500))\<lparr>q_signature := demo_near_signature\<rparr>"

definition demo_released_cvm :: dev_cvm where
  "demo_released_cvm = demo_created_cvm\<lparr>dv_modelKey := Some [2], dv_verifiedAttRefs := [demo_zero_hash]\<rparr>"

definition demo_infer_world :: infer_world where
  "demo_infer_world = \<lparr>iw_now = JInt 500, iw_elapsed = 0, iw_nonce = replicate 32 0, iw_verified = Inr demo_candidate, iw_backend = Inr []\<rparr>"

definition demo_context :: infer_context where
  "demo_context = \<lparr>ic_attRef = demo_zero_hash, ic_nonce = None, ic_receiptTimestamp = None\<rparr>"

lemma demo_cvm_crypto [simp]: "nh_crypto demo_cvm_host = demo_near_crypto" "ce_crypto demo_cvm_env = demo_near_crypto" "ce_host demo_cvm_env = demo_cvm_host"
  "ce_typed demo_cvm_env = demo_typed" "ce_aes demo_cvm_env = demo_aes"
  by (simp_all add: demo_cvm_host_def ce_crypto_def demo_cvm_env_def)

lemma demo_sha: "sha256Hex (ce_sha demo_cvm_env) b = demo_zero_hash" "sha256HexText (ce_sha demo_cvm_env) s = demo_zero_hash"
  using demo_hash [of demo_cvm_host] by (simp_all add: near_sha_def ce_sha_def sha256HexText_def)

lemma demo_create: "create_cvm demo_cvm_env (replicate 12 0) demo_cvm_config demo_vendor (Some (''2'', [1], [2])) ('''', [], []) = Inr demo_created_cvm"
proof -
  have "frozen_config demo_cvm_config = Inr demo_cvm_config"
    using parse_policy_json [OF demo_policy_valid] demo_policy_valid
    by (simp add: frozen_config_def gateway_mode_of_def demo_cvm_config_def canonicalTcbPolicy_def)
  then show ?thesis
    by (simp add: create_cvm_def new_cvm_def or_else_def demo_created_cvm_def, simp add: demo_cvm_config_def gateway_mode_of_def)
qed

lemma demo_release_any:
  assumes "dv_vendor d = demo_vendor" "dv_wrappingKey d = [1]" "dv_encryptedWeights d = encryptAesGcm demo_aes (replicate 12 0) [1] [2]" "dv_mode d = ManagedNear"
  shows "releaseKeys demo_cvm_env (demo_gateway_quote (cc_policy (dv_config d))) demo_signer (JInt 500) d
    = Inr (d\<lparr>dv_modelKey := Some [2], dv_verifiedAttRefs := demo_zero_hash # dv_verifiedAttRefs d\<rparr>)"
proof -
  have sig: "canonical_27_28 demo_near_signature"
  proof -
    have "recoverCanonicalSignature demo_near_host [] demo_near_signature = Inr demo_signer" by (rule demo_recovers) simp
    then have "hex_string 130 demo_near_signature" "hex_number (take 64 (drop 66 demo_near_signature)) \<noteq> 0" "hex_number (take 64 (drop 66 demo_near_signature)) \<le> halfCurveOrder"
      by (auto simp: recoverCanonicalSignature_def Let_def res_simps)
    moreover have "drop 130 demo_near_signature = ''1b''" by (simp add: demo_near_signature_def)
    moreover have "hex_number ''1b'' = 27" by (simp add: hex_number_def hex_value_def is_digit_def)
    ultimately show ?thesis by (simp add: canonical_27_28_def)
  qed
  have hex: "isHex32 (measurementOf demo_near_crypto p)" for p
    using demo_sha(2) demo_patterns(1) by (simp add: measurementOf_def ce_sha_def isHex32_def hash_pattern_def)
  have "cx_recover demo_near_crypto m s = Some demo_signer" for m s by (simp add: demo_near_crypto_def)
  then have "verifyGatewaySession demo_near_crypto (demo_gateway_quote p) p demo_signer (JInt 500) = Inr ()" for p
    using sig hex by (simp add: verifyGatewaySession_def Let_def demo_gateway_quote_def gatewaySessionDescriptor_def is_safe_integer_def max_safe_def)
  moreover have "decryptAesGcm demo_aes [1] (encryptAesGcm demo_aes (replicate 12 0) [1] [2]) = Inr [2]"
    by (rule decrypt_encrypt [OF demo_aes_laws(1)]) simp
  moreover have "demo_signer \<noteq> []" by (simp add: demo_signer_def)
  ultimately show ?thesis
    by (simp add: releaseKeys_def assms demo_sha, simp add: demo_vendor_def)
qed

lemma demo_release: "releaseKeys demo_cvm_env (demo_gateway_quote demo_policy) demo_signer (JInt 500) demo_created_cvm = Inr demo_released_cvm"
  using demo_release_any [of demo_created_cvm] by (simp add: demo_created_cvm_def demo_released_cvm_def demo_cvm_config_def)

lemma demo_cvm_reachable: "reachable (cvm_start demo_cvm_env) (cvm_step demo_cvm_env) demo_created_cvm"
  "reachable (cvm_start demo_cvm_env) (cvm_step demo_cvm_env) demo_released_cvm"
proof -
  show r: "reachable (cvm_start demo_cvm_env) (cvm_step demo_cvm_env) demo_created_cvm"
    by (rule reachable_start) (use demo_create in \<open>force simp: cvm_start_def\<close>)
  show "reachable (cvm_start demo_cvm_env) (cvm_step demo_cvm_env) demo_released_cvm"
    by (rule reachable_step [OF r]) (rule released [OF demo_release])
qed

lemma demo_parses:
  "nh_parse demo_cvm_host (stringify demo_request) = Some demo_request" "parseJson demo_cvm_host (utf8 (stringify demo_request)) = Inr demo_request"
  "parseJson demo_cvm_host (utf8 ''R'') = Inr demo_completion" "reads_evidence demo_cvm_host demo_evidence"
  "decode_text (utf8 (stringify demo_request)) = Some (stringify demo_request)"
proof -
  have "plain demo_request" by (simp add: demo_request_def request_json_def)
  moreover have "plain (canon (evidence_json demo_evidence))" by (simp add: canon_evidence sorted_evidence_def)
  moreover have "demo_request \<noteq> canon (evidence_json demo_evidence)" by (simp add: canon_evidence sorted_evidence_def demo_request_def request_json_def)
  ultimately have ne: "stringify demo_request \<noteq> stringify (canon (evidence_json demo_evidence))" by (simp add: stringify_inj)
  then show p: "nh_parse demo_cvm_host (stringify demo_request) = Some demo_request"
    using demo_reads_back by (simp add: demo_cvm_host_def reads_back_def)
  have "js_text (nc_model demo_near_config)" by (simp add: demo_near_config_def)
  then show "parseJson demo_cvm_host (utf8 (stringify demo_request)) = Inr demo_request"
    unfolding demo_request_def by (rule request_parses) (use p in \<open>simp_all add: reads_back_def demo_request_def\<close>)
  show "decode_text (utf8 (stringify demo_request)) = Some (stringify demo_request)"
    unfolding demo_request_def by (rule request_decodes) (simp_all add: demo_near_config_def)
  have "hd (stringify (canon (evidence_json demo_evidence))) = CHR 0x7B" by (simp add: canon_evidence encode_object_def)
  then have "stringify (canon (evidence_json demo_evidence)) \<noteq> ''R''" by auto
  then show "parseJson demo_cvm_host (utf8 ''R'') = Inr demo_completion"
    by (simp add: parseJson_def demo_text demo_cvm_host_def demo_near_host_def)
  show "reads_evidence demo_cvm_host demo_evidence" by (simp add: reads_evidence_def demo_cvm_host_def)
qed

lemma demo_transcript: "verifyNearTranscript demo_cvm_host demo_evidence (utf8 (stringify demo_request)) (utf8 ''R'')"
proof -
  have endpoint: "endpoint demo_cvm_host ''https://cloud-api.near.ai'' = Inr demo_base"
    by (simp add: endpoint_def demo_cvm_host_def demo_near_host_def demo_base_def near_hostname_def)
  have date: "nh_date demo_cvm_host ''a'' = Some 0" "nh_date demo_cvm_host ''b'' = Some 1000" by (simp_all add: demo_cvm_host_def demo_near_host_def)
  have size: "length (utf8 (stringify demo_request)) \<le> 16777216" "length (utf8 ''R'') \<le> 33554432"
    using demo_request_size by (simp_all add: demo_request_def utf8_def)
  have request: "request_content demo_request = Some (''m'', ''q'')"
    by (simp add: demo_request_def request_content_json) (simp add: demo_near_config_def)
  have completion: "completionSchema demo_completion = Some \<lparr>cp_id = ''c'', cp_model = ''m'', cp_contents = [''a'']\<rparr>"
    by (simp add: completionSchema_def demo_completion_def json_text_def json_field_def choice_content_def completion_id_pattern_def is_letter_def)
  show ?thesis
    unfolding verifyNearTranscript_def transcript_checks_def
    using size date demo_patterns by (simp add: demo_evidence_def endpoint demo_hash demo_parses request completion demo_recovers Let_def)
qed

lemma demo_checked: "checked_candidate demo_cvm_env demo_infer_world ''q'' demo_candidate demo_released_cvm = Inr demo_candidate"
proof -
  have date: "nh_date demo_cvm_host ''a'' = Some 0" "nh_date demo_cvm_host ''b'' = Some 1000" by (simp_all add: demo_cvm_host_def demo_near_host_def)
  have e: "ne_model demo_evidence = ''m''" "ne_outputHash demo_evidence = demo_zero_hash" "ne_verifiedAt demo_evidence = ''a''" "ne_expiresAt demo_evidence = ''b''"
    by (simp_all add: demo_evidence_def)
  have d: "cc_modelId (dv_config demo_released_cvm) = ''m''" by (simp add: demo_released_cvm_def demo_created_cvm_def demo_cvm_config_def)
  have c: "nt_evidence demo_candidate = demo_evidence" "nt_requestBody demo_candidate = utf8 (stringify demo_request)" "nt_responseBody demo_candidate = utf8 ''R''"
    "nt_attestationProof demo_candidate = None" "demo_candidate\<lparr>nt_evidence := demo_evidence\<rparr> = demo_candidate"
    by (simp_all add: demo_candidate_def)
  have w: "iw_now demo_infer_world = JInt 500" "iw_elapsed demo_infer_world = 0" by (simp_all add: demo_infer_world_def)
  have content: "first_content demo_request = Some (JStr ''q'')" by (simp add: first_content_def demo_request_def request_json_def json_field_def)
  show ?thesis
    unfolding checked_candidate_def
    by (simp add: c snapshot_same demo_parses e d demo_sha demo_transcript date w max_safe_def content)
qed

lemma demo_answer:
  "\<exists>ans p. cvm_infer demo_cvm_env (utf8 ''q'') demo_context demo_infer_world demo_released_cvm = Inr ans \<and> ca_proof ans = Some p
     \<and> ca_output ans = utf8 ''a'' \<and> ir_attRef (sr_receipt (ca_receipt ans)) = demo_zero_hash"
proof -
  have hex: "isHex32 demo_zero_hash" using demo_patterns(1) by (simp add: isHex32_def hash_pattern_def)
  have "lower demo_zero_hash = demo_zero_hash" by (simp add: demo_zero_hash_def lower_def lower_char_def)
  moreover have "toHex (replicate 32 0) = demo_zero_hash"
    using demo_hash [of demo_near_host] by (simp add: near_sha_def sha256Hex_def demo_near_crypto_def)
  ultimately have stamp: "receipt_stamp demo_cvm_env demo_context demo_infer_world demo_released_cvm = Inr ([2], demo_zero_hash, 0)"
    using hex by (simp add: receipt_stamp_def Let_def demo_context_def demo_infer_world_def demo_released_cvm_def or_else_def is_safe_integer_def max_safe_def)
  have verified: "verified_answer demo_cvm_env demo_infer_world (utf8 ''q'') demo_released_cvm = Inr (Some demo_candidate)"
    using demo_checked by (simp add: verified_answer_def demo_text, simp add: demo_released_cvm_def demo_created_cvm_def demo_cvm_config_def demo_infer_world_def)
  let ?r = "\<lparr>ir_version = 2, ir_modelHash = modelHash demo_cvm_env demo_released_cvm, ir_codeHash = codeHash demo_cvm_env demo_released_cvm, ir_inHash = demo_zero_hash,
          ir_outHash = demo_zero_hash, ir_attRef = demo_zero_hash, ir_nonce = Some demo_zero_hash, ir_ts = 0\<rparr>"
  have typed: "is_ok (receipt_typed_data ?r c v)" for c v by (auto simp: is_ok_iff receipt_typed_data_Inr)
  then obtain t where t: "receipt_typed_data ?r (cc_chainId (dv_config demo_released_cvm)) (cc_verifyingContract (dv_config demo_released_cvm)) = Inr t"
    by (auto simp: is_ok_iff)
  have c: "nt_output demo_candidate = utf8 ''a''" "nt_evidence demo_candidate = demo_evidence" "ne_outputHash demo_evidence = demo_zero_hash"
    by (simp_all add: demo_candidate_def demo_evidence_def)
  have ctx: "ic_attRef demo_context = demo_zero_hash" by (simp add: demo_context_def)
  show ?thesis
    by (simp add: cvm_infer_def stamp verified c ctx demo_sha signReceipt_def t signProviderProof_def receiptTypedHash_def evidence_hash snapshot_same demo_parses)
qed

theorem managed_answer_is_verified_witness:
  "\<exists>ans p. cvm_infer demo_cvm_env (utf8 ''q'') demo_context demo_infer_world demo_released_cvm = Inr ans
     \<and> ca_proof ans = Some p \<and> pf_evidence p = demo_evidence \<and> ca_output ans = utf8 ''a''"
proof -
  obtain ans where a: "cvm_infer demo_cvm_env (utf8 ''q'') demo_context demo_infer_world demo_released_cvm = Inr ans" "ca_output ans = utf8 ''a''"
    using demo_answer by blast
  have "dv_mode demo_released_cvm = ManagedNear" "iw_verified demo_infer_world = Inr demo_candidate" "nt_evidence demo_candidate = demo_evidence"
    by (simp_all add: demo_released_cvm_def demo_created_cvm_def demo_infer_world_def demo_candidate_def)
  with managed_answer_is_verified [OF _ a(1)] demo_parses(4) a show ?thesis by fastforce
qed

theorem answer_proof_verifies_witness:
  "\<exists>ans p. cvm_infer demo_cvm_env (utf8 ''q'') demo_context demo_infer_world demo_released_cvm = Inr ans
     \<and> verifyProviderProof demo_cvm_host demo_typed p (ca_receipt ans) (demo_address ''2'') 7 ''0xv''"
proof -
  obtain ans p where a: "cvm_infer demo_cvm_env (utf8 ''q'') demo_context demo_infer_world demo_released_cvm = Inr ans" "ca_proof ans = Some p"
    using demo_answer by blast
  have "iw_verified demo_infer_world = Inr demo_candidate" "nt_evidence demo_candidate = demo_evidence"
    by (simp_all add: demo_infer_world_def demo_candidate_def)
  moreover have "enclaveAddress demo_cvm_env demo_released_cvm = demo_address ''2''"
    by (simp add: enclaveAddress_def demo_released_cvm_def demo_created_cvm_def) (simp add: demo_typed_def)
  moreover have "cc_chainId (dv_config demo_released_cvm) = 7" "cc_verifyingContract (dv_config demo_released_cvm) = ''0xv''"
    by (simp_all add: demo_released_cvm_def demo_created_cvm_def demo_cvm_config_def)
  ultimately show ?thesis
    using answer_proof_verifies [OF _ a, of demo_candidate] demo_typed_exact demo_parses(4) a(1) by auto
qed

theorem no_answer_without_attestation_witness:
  "\<exists>ans quote now. cvm_infer demo_cvm_env (utf8 ''q'') demo_context demo_infer_world demo_released_cvm = Inr ans
     \<and> accepts demo_cvm_env demo_released_cvm quote now"
proof -
  obtain ans where a: "cvm_infer demo_cvm_env (utf8 ''q'') demo_context demo_infer_world demo_released_cvm = Inr ans" using demo_answer by blast
  from no_answer_without_attestation [OF demo_cvm_reachable(2) a] a show ?thesis by blast
qed

theorem sealed_memory_survives_rotation_witness:
  "\<exists>d e :: dev_cvm. withPolicy (demo_policy\<lparr>tp_version := JInt 2\<rparr>) demo_released_cvm = Inr d \<and> cvm_step demo_cvm_env d e
     \<and> openMemory demo_cvm_env (sealMemory demo_cvm_env (replicate 12 7) [1, 2, 3] demo_released_cvm) e = Inr [1, 2, 3]"
proof -
  let ?p = "demo_policy\<lparr>tp_version := JInt 2\<rparr>"
  let ?d = "demo_created_cvm\<lparr>dv_config := demo_cvm_config\<lparr>cc_policy := ?p, cc_policyKeys := True\<rparr>\<rparr>"
  have valid: "valid_policy ?p"
    using demo_policy_valid by (simp add: valid_policy_def is_safe_integer_def max_safe_def)
  have "dv_vendor demo_released_cvm = demo_vendor" "dv_wrappingKey demo_released_cvm = [1]" "dv_enclavePrivateKey demo_released_cvm = ''2''"
    "dv_encryptedWeights demo_released_cvm = encryptAesGcm demo_aes (replicate 12 0) [1] [2]" "dv_config demo_released_cvm = demo_cvm_config"
    by (simp_all add: demo_released_cvm_def demo_created_cvm_def)
  then have rot: "withPolicy ?p demo_released_cvm = Inr ?d"
    using parse_policy_json [OF valid] valid
    by (simp add: withPolicy_def canonicalTcbPolicy_def new_cvm_def frozen_config_def gateway_mode_of_def)
      (simp add: demo_created_cvm_def demo_cvm_config_def)
  obtain e where rel: "releaseKeys demo_cvm_env (demo_gateway_quote (cc_policy (dv_config ?d))) demo_signer (JInt 500) ?d = Inr e" "keysReleased e"
    using demo_release_any [of ?d] by (simp add: demo_created_cvm_def keysReleased_def)
  then have "cvm_step demo_cvm_env ?d e" by (blast intro: released)
  moreover have "cvm_step demo_cvm_env demo_released_cvm ?d" using rot by (rule rotated)
  ultimately have "(cvm_step demo_cvm_env)\<^sup>*\<^sup>* demo_released_cvm e" by (meson converse_rtranclp_into_rtranclp r_into_rtranclp)
  then show ?thesis
    using sealed_memory_survives_rotation [OF _ _ demo_cvm_reachable(2) _ rel(2), of "replicate 12 7" "[1, 2, 3]"] demo_aes_laws(1) rot
      \<open>cvm_step demo_cvm_env ?d e\<close> by auto
qed

end
