(* ===== verification/Chain_Calls.thy ===== *)
theory Chain_Calls
  imports X402_Protocol
begin

text \<open>
  The contract calls of the API, \<open>api/src/chain.ts\<close> and the listing transaction of \<open>api/src/tcb-chain.ts\<close>.

  A program over the chain takes the world and the events so far, and returns a result or an error together with
  the events after it. A transaction is sent through the durable signer under an operation key, then awaited; a
  read polls the node. The world answers by the events before a call, so every answer of a node and of the
  signer, at every point, is covered. Calldata and logs are shown decoded, as viem encodes and parses them.
\<close>

section \<open>Programs over the chain\<close>

datatype chain_value = VInt int | VText string | VBool bool | VPoint int string

record chain_call =
  kc_to :: string
  kc_function :: string
  kc_args :: "chain_value list"

record chain_log =
  lg_address :: string
  lg_name :: string
  lg_args :: "chain_value list"

record token_receipt =
  tk_hash :: string
  tk_success :: bool
  tk_blockNumber :: int
  tk_blockHash :: string
  tk_logs :: "chain_log list"

record token_tx =
  tt_hash :: string
  tt_blockHash :: "string option"
  tt_to :: "string option"
  tt_value :: int
  tt_call :: "(string \<times> chain_value list) option"

record chain_block =
  bl_number :: int
  bl_hash :: "string option"
  bl_timestamp :: int

record found_log =
  fl_transactionHash :: "string option"
  fl_removed :: bool

record rpc_view =
  rv_chainId :: "enclave_error + int"
  rv_head :: "enclave_error + int"
  rv_latest :: "enclave_error + chain_block"
  rv_block :: "int \<Rightarrow> enclave_error + chain_block"
  rv_receipt :: "string \<Rightarrow> enclave_error + token_receipt"
  rv_transaction :: "string \<Rightarrow> enclave_error + token_tx"
  rv_code :: "string \<Rightarrow> enclave_error + string option"
  rv_used :: "string \<Rightarrow> string \<Rightarrow> int \<Rightarrow> int \<Rightarrow> enclave_error + found_log list"
  rv_call :: "chain_call \<Rightarrow> enclave_error + chain_value list"
  rv_callAt :: "int \<Rightarrow> chain_call \<Rightarrow> enclave_error + chain_value list"

datatype chain_event = Sent string chain_call | Waited string | Polled

record chain_world =
  cw_send :: "chain_event list \<Rightarrow> string \<Rightarrow> chain_call \<Rightarrow> enclave_error + string"
  cw_wait :: "chain_event list \<Rightarrow> string \<Rightarrow> enclave_error + token_receipt"
  cw_view :: "chain_event list \<Rightarrow> rpc_view"

type_synonym 'a chain_io = "chain_world \<Rightarrow> chain_event list \<Rightarrow> (enclave_error + 'a) \<times> chain_event list"

definition io_return :: "'a \<Rightarrow> 'a chain_io" where
  "io_return x = (\<lambda>w t. (Inr x, t))"

definition io_lift :: "enclave_error + 'a \<Rightarrow> 'a chain_io" where
  "io_lift m = (\<lambda>w t. (m, t))"

definition io_bind :: "'a chain_io \<Rightarrow> ('a \<Rightarrow> 'b chain_io) \<Rightarrow> 'b chain_io" where
  "io_bind m f = (\<lambda>w t. case m w t of (Inl e, u) \<Rightarrow> (Inl e, u) | (Inr x, u) \<Rightarrow> f x w u)"

definition io_catch :: "'a chain_io \<Rightarrow> (enclave_error \<Rightarrow> 'a chain_io) \<Rightarrow> 'a chain_io" where
  "io_catch m h = (\<lambda>w t. case m w t of (Inl e, u) \<Rightarrow> h e w u | (Inr x, u) \<Rightarrow> (Inr x, u))"

definition io_read :: "(rpc_view \<Rightarrow> enclave_error + 'a) \<Rightarrow> 'a chain_io" where
  "io_read f = (\<lambda>w t. (f (cw_view w t), t @ [Polled]))"

definition io_require :: "bool \<Rightarrow> enclave_error \<Rightarrow> unit chain_io" where
  "io_require c e = io_lift (require c e)"

lemma io_simps [simp]:
  "io_return x w t = (Inr x, t)" "io_lift m w t = (m, t)" "io_read f w t = (f (cw_view w t), t @ [Polled])"
  "io_require c e w t = (require c e, t)"
  by (simp_all add: io_return_def io_lift_def io_read_def io_require_def)

lemma io_bind_Inr:
  "io_bind m f w t = (Inr y, u) \<longleftrightarrow> (\<exists>x v. m w t = (Inr x, v) \<and> f x w v = (Inr y, u))"
  by (auto simp: io_bind_def split: prod.splits sum.splits)

lemma io_bind_InrE:
  assumes "io_bind m f w t = (Inr y, u)"
  obtains x v where "m w t = (Inr x, v)" "f x w v = (Inr y, u)"
  using assms by (auto simp: io_bind_Inr)

lemma io_bind_Inl:
  "io_bind m f w t = (Inl e, u) \<longleftrightarrow> m w t = (Inl e, u) \<or> (\<exists>x v. m w t = (Inr x, v) \<and> f x w v = (Inl e, u))"
  by (auto simp: io_bind_def split: prod.splits sum.splits)

text \<open>A program only appends events, and every event it appends satisfies \<open>P\<close>.\<close>

definition events_in :: "(chain_event \<Rightarrow> bool) \<Rightarrow> 'a chain_io \<Rightarrow> bool" where
  "events_in P m \<longleftrightarrow> (\<forall>w t. \<exists>new. snd (m w t) = t @ new \<and> list_all P new)"

named_theorems event_intros "events of composed programs"

lemma events_in_leaf [event_intros]:
  "events_in P (io_return x)" "events_in P (io_lift r)" "events_in P (io_require c e)"
  by (simp_all add: events_in_def)

lemma events_in_read [event_intros]: "P Polled \<Longrightarrow> events_in P (io_read f)"
  by (simp add: events_in_def)

lemma events_in_bind [event_intros]:
  assumes "events_in P m" and "\<And>x. events_in P (f x)"
  shows "events_in P (io_bind m f)"
  unfolding events_in_def
proof (intro allI)
  fix w t
  obtain r u where m: "m w t = (r, u)" by force
  from assms(1) m obtain new where u: "u = t @ new" "list_all P new" by (auto simp: events_in_def) (metis snd_conv)
  show "\<exists>new. snd (io_bind m f w t) = t @ new \<and> list_all P new"
  proof (cases r)
    case (Inl e)
    with m u show ?thesis by (simp add: io_bind_def)
  next
    case (Inr x)
    from assms(2) [of x] obtain more where "snd (f x w u) = u @ more" "list_all P more" by (auto simp: events_in_def)
    with Inr m u show ?thesis by (intro exI [of _ "new @ more"]) (simp add: io_bind_def)
  qed
qed

lemma events_in_catch [event_intros]:
  assumes "events_in P m" and "\<And>e. events_in P (h e)"
  shows "events_in P (io_catch m h)"
  unfolding events_in_def
proof (intro allI)
  fix w t
  obtain r u where m: "m w t = (r, u)" by force
  from assms(1) m obtain new where u: "u = t @ new" "list_all P new" by (auto simp: events_in_def) (metis snd_conv)
  show "\<exists>new. snd (io_catch m h w t) = t @ new \<and> list_all P new"
  proof (cases r)
    case (Inr x)
    with m u show ?thesis by (simp add: io_catch_def)
  next
    case (Inl e)
    from assms(2) [of e] obtain more where "snd (h e w u) = u @ more" "list_all P more" by (auto simp: events_in_def)
    with Inl m u show ?thesis by (intro exI [of _ "new @ more"]) (simp add: io_catch_def)
  qed
qed

lemma events_inD:
  assumes "events_in P m" and "m w t = (r, u)"
  obtains new where "u = t @ new" "list_all P new"
  using assms unfolding events_in_def by (metis snd_conv)

section \<open>Sending and awaiting\<close>

record chain_config =
  kf_chainId :: int
  kf_account :: string
  kf_usdc :: string
  kf_encl :: string
  kf_meter :: string
  kf_staking :: string
  kf_registry :: string
  kf_mandate :: string
  kf_feeVault :: string
  kf_confirmations :: "int option"
  kf_keccak :: hash_fun

definition paymentIdToBytes32 :: "chain_config \<Rightarrow> string \<Rightarrow> string" where
  "paymentIdToBytes32 config paymentId = toHex (kf_keccak config (utf8 paymentId))"

definition zeroHash :: string where
  "zeroHash = ''0x'' @ replicate 64 (CHR ''0'')"

definition contract_call :: "string \<Rightarrow> string \<Rightarrow> chain_value list \<Rightarrow> chain_call" where
  "contract_call to name args = \<lparr>kc_to = to, kc_function = name, kc_args = args\<rparr>"

text \<open>The wallet of an operation numbers its transactions; the durable signer knows them by this key.\<close>

definition operation_key :: "string \<Rightarrow> nat \<Rightarrow> string" where
  "operation_key operation n = operation @ '':'' @ nat_dec n"

definition send_durable :: "string \<Rightarrow> chain_call \<Rightarrow> string chain_io" where
  "send_durable key call = (\<lambda>w t. (cw_send w t key call, t @ [Sent key call]))"

definition writeContract :: "string \<Rightarrow> nat \<Rightarrow> chain_call \<Rightarrow> string chain_io" where
  "writeContract operation n call = send_durable (operation_key operation n) call"

definition confirmed :: "string \<Rightarrow> token_receipt chain_io" where
  "confirmed hash = (\<lambda>w t.
     (rbind (cw_wait w t hash) (\<lambda>r. if tk_success r then Inr r else Inl (PlainError (''Transaction reverted: '' @ hash))), t @ [Waited hash]))"

text \<open>A transaction and its confirmation; nearly every action ends with one.\<close>

definition transact :: "string \<Rightarrow> nat \<Rightarrow> chain_call \<Rightarrow> string chain_io" where
  "transact operation n call = io_bind (writeContract operation n call) (\<lambda>tx. io_bind (confirmed tx) (\<lambda>_. io_return tx))"

definition readContract :: "chain_call \<Rightarrow> chain_value list chain_io" where
  "readContract call = io_read (\<lambda>v. rv_call v call)"

definition max_uint :: chain_value where
  "max_uint = VInt (2 ^ 256 - 1)"

section \<open>Settlement by the gateway\<close>

record settlement_context =
  st_listingId :: "int option"
  st_agentId :: "string option"
  st_authorization :: "payment_authorization option"
  st_authorized :: bool

text \<open>JavaScript truth of an optional number or string.\<close>

definition truthy_int :: "int option \<Rightarrow> int option" where
  "truthy_int n = (if n = Some 0 then None else n)"

definition truthy_text :: "string option \<Rightarrow> string option" where
  "truthy_text s = (if s = Some [] then None else s)"

definition listing_arg :: "int option \<Rightarrow> chain_value" where
  "listing_arg l = VInt (case l of Some n \<Rightarrow> n | None \<Rightarrow> 0)"

definition agent_arg :: "chain_config \<Rightarrow> string option \<Rightarrow> chain_value" where
  "agent_arg config a = VText (case truthy_text a of Some i \<Rightarrow> paymentIdToBytes32 config i | None \<Rightarrow> zeroHash)"

definition authorized_call :: "chain_config \<Rightarrow> string \<Rightarrow> int \<Rightarrow> settlement_context \<Rightarrow> payment_authorization \<Rightarrow> chain_call" where
  "authorized_call config paymentId amount ctx auth =
     contract_call (kf_meter config) ''settleAuthorized''
       [VText (pa_from auth), VInt amount, VText (paymentIdToBytes32 config paymentId), listing_arg (st_listingId ctx), agent_arg config (st_agentId ctx),
        VInt (int (dec_number (pa_validAfter auth))), VInt (int (dec_number (pa_validBefore auth))), VText (pa_signature auth)]"

definition direct_call :: "chain_config \<Rightarrow> string \<Rightarrow> int \<Rightarrow> settlement_context \<Rightarrow> chain_call" where
  "direct_call config paymentId amount ctx =
     (let payer = VText (kf_account config); receiptHash = VText (paymentIdToBytes32 config paymentId) in
      case (truthy_int (st_listingId ctx), truthy_text (st_agentId ctx)) of
        (Some l, _) \<Rightarrow> contract_call (kf_meter config) ''settleModel'' [payer, VInt amount, receiptHash, VInt l, agent_arg config (st_agentId ctx)]
      | (None, Some a) \<Rightarrow> contract_call (kf_meter config) ''settleAgent'' [payer, VText (paymentIdToBytes32 config a), VInt amount, receiptHash]
      | (None, None) \<Rightarrow> contract_call (kf_meter config) ''settle'' [payer, VInt amount, receiptHash])"

definition confidential_call :: "chain_config \<Rightarrow> string \<Rightarrow> chain_call" where
  "confidential_call config paymentId =
     contract_call (kf_meter config) ''settleConfidential''
       [VText (kf_account config), VText (toHex (utf8 ''shielded'')), VText (paymentIdToBytes32 config paymentId)]"

definition mint_call :: "chain_config \<Rightarrow> int \<Rightarrow> chain_call" where
  "mint_call config amount = contract_call (kf_usdc config) ''mint'' [VText (kf_account config), VInt amount]"

definition approve_call :: "string \<Rightarrow> string \<Rightarrow> chain_call" where
  "approve_call token spender = contract_call token ''approve'' [VText spender, max_uint]"

definition facilitator_settle :: "chain_config \<Rightarrow> string \<Rightarrow> int \<Rightarrow> bool \<Rightarrow> settlement_context \<Rightarrow> string chain_io" where
  "facilitator_settle config paymentId amount confidential ctx =
     (let operation = ''payment:'' @ paymentId in
      if st_authorized ctx
      then io_bind (io_require (\<not> confidential) (PlainError ''Confidential authorization adapter is not configured'')) (\<lambda>_.
        io_bind (io_lift (of_option (PlainError ''A signed USDC receive authorization is required'') (st_authorization ctx))) (\<lambda>auth.
        transact operation 0 (authorized_call config paymentId amount ctx auth)))
      else if confidential then transact operation 0 (confidential_call config paymentId)
      else io_bind (transact operation 0 (mint_call config amount)) (\<lambda>_.
        io_bind (transact operation 1 (approve_call (kf_usdc config) (kf_meter config))) (\<lambda>_.
        transact operation 2 (direct_call config paymentId amount ctx))))"

section \<open>Staking, the market and mandates\<close>

definition staking_stake :: "chain_config \<Rightarrow> string \<Rightarrow> int \<Rightarrow> string chain_io" where
  "staking_stake config operation amount =
     io_bind (transact operation 0 (approve_call (kf_encl config) (kf_staking config))) (\<lambda>_.
     transact operation 1 (contract_call (kf_staking config) ''stake'' [VInt amount]))"

definition staking_unstake :: "chain_config \<Rightarrow> string \<Rightarrow> int \<Rightarrow> string chain_io" where
  "staking_unstake config operation amount = transact operation 0 (contract_call (kf_staking config) ''unstake'' [VInt amount])"

definition int_answer :: "chain_value list \<Rightarrow> enclave_error + int" where
  "int_answer v = of_option rpc_failed (case v of [VInt n] \<Rightarrow> Some n | _ \<Rightarrow> None)"

definition staking_stakedOf :: "chain_config \<Rightarrow> string \<Rightarrow> int chain_io" where
  "staking_stakedOf config who =
     io_bind (readContract (contract_call (kf_staking config) ''staked'' [VText who])) (\<lambda>v. io_lift (int_answer v))"

definition market_list :: "chain_config \<Rightarrow> string \<Rightarrow> string \<Rightarrow> string \<Rightarrow> int \<Rightarrow> (string \<times> int) chain_io" where
  "market_list config operation modelHash codeHash bps =
     io_bind (readContract (contract_call (kf_registry config) ''listingStake'' [])) (\<lambda>v.
     io_bind (io_lift (int_answer v)) (\<lambda>stake.
     io_bind (if stake > 0 \<and> isConfiguredAddress (Some (kf_encl config))
         then io_bind (transact operation 0 (approve_call (kf_encl config) (kf_registry config))) (\<lambda>_. io_return 1) else io_return 0) (\<lambda>n.
     io_bind (transact operation n (contract_call (kf_registry config) ''list'' [VText modelHash, VText codeHash, VInt bps])) (\<lambda>tx.
     io_bind (readContract (contract_call (kf_registry config) ''idByHashes'' [VText modelHash, VText codeHash])) (\<lambda>v.
     io_bind (io_lift (int_answer v)) (\<lambda>i. io_return (tx, i)))))))"

definition market_bootstrapApprove :: "chain_config \<Rightarrow> string \<Rightarrow> int \<Rightarrow> string chain_io" where
  "market_bootstrapApprove config operation i = transact operation 0 (contract_call (kf_registry config) ''bootstrapApprove'' [VInt i])"

definition market_bootstrapRestore :: "chain_config \<Rightarrow> string \<Rightarrow> int \<Rightarrow> string chain_io" where
  "market_bootstrapRestore config operation i = transact operation 0 (contract_call (kf_registry config) ''bootstrapRestore'' [VInt i])"

definition market_revoke :: "chain_config \<Rightarrow> string \<Rightarrow> int \<Rightarrow> string chain_io" where
  "market_revoke config operation i = transact operation 0 (contract_call (kf_registry config) ''revoke'' [VInt i])"

definition market_isApproved :: "chain_config \<Rightarrow> string \<Rightarrow> string \<Rightarrow> bool chain_io" where
  "market_isApproved config modelHash codeHash =
     io_bind (readContract (contract_call (kf_registry config) ''isApproved'' [VText modelHash, VText codeHash])) (\<lambda>v.
     io_lift (of_option rpc_failed (case v of [VBool b] \<Rightarrow> Some b | _ \<Rightarrow> None)))"

definition mandate_open :: "chain_config \<Rightarrow> string \<Rightarrow> int \<Rightarrow> string chain_io" where
  "mandate_open config agentId dailyLimit =
     transact (''agent:'' @ agentId @ '':open'') 0
       (contract_call (kf_mandate config) ''open'' [VText (paymentIdToBytes32 config agentId), VInt dailyLimit])"

definition mandate_spend :: "chain_config \<Rightarrow> string \<Rightarrow> string \<Rightarrow> int \<Rightarrow> string chain_io" where
  "mandate_spend config operation agentId amount =
     transact operation 0 (contract_call (kf_mandate config) ''spend'' [VText (paymentIdToBytes32 config agentId), VInt amount])"

definition fee_distribute :: "chain_config \<Rightarrow> string \<Rightarrow> string chain_io" where
  "fee_distribute config operation = transact operation 0 (contract_call (kf_feeVault config) ''distribute'' [])"

definition fee_queueBuyback :: "chain_config \<Rightarrow> string \<Rightarrow> int \<Rightarrow> string chain_io" where
  "fee_queueBuyback config operation amount = transact operation 0 (contract_call (kf_feeVault config) ''queueBuyback'' [VInt amount])"

definition registry_approve :: "chain_config \<Rightarrow> string \<Rightarrow> int \<Rightarrow> string chain_io" where
  "registry_approve config operation i = transact operation 0 (contract_call (kf_registry config) ''approve'' [VInt i])"

section \<open>The approval of a listing\<close>

datatype approval_state = Missing | Revoked | Approved | Ready | Pending

record approval_status =
  av_listingId :: int
  av_state :: approval_state
  av_availableAt :: int
  av_chainTimestamp :: int
  av_provider :: string
  av_listingBps :: int

text \<open>The tuple of \<open>listings\<close>: model, code, provider, time of listing, share, stake, approved, revoked.\<close>

definition listing_row :: "chain_value list \<Rightarrow> (string \<times> int \<times> int \<times> bool \<times> bool) option" where
  "listing_row v =
     (case v of [VText _, VText _, VText provider, VInt listedAt, VInt bps, VInt _, VBool approved, VBool revoked] \<Rightarrow> Some (provider, listedAt, bps, approved, revoked)
      | _ \<Rightarrow> None)"

definition approval_state_of :: "string \<Rightarrow> int \<Rightarrow> bool \<Rightarrow> bool \<Rightarrow> int \<Rightarrow> int \<Rightarrow> approval_state" where
  "approval_state_of provider listedAt approved revoked timelock now =
     (if hex_number (drop 2 provider) = 0 then Missing else if revoked then Revoked else if approved then Approved
      else if now \<ge> listedAt + timelock then Ready else Pending)"

definition registry_status :: "chain_config \<Rightarrow> int \<Rightarrow> approval_status chain_io" where
  "registry_status config i =
     io_bind (readContract (contract_call (kf_registry config) ''listings'' [VInt i])) (\<lambda>v.
     io_bind (io_lift (of_option rpc_failed (listing_row v))) (\<lambda>(provider, listedAt, bps, approved, revoked).
     io_bind (readContract (contract_call (kf_registry config) ''TIMELOCK'' [])) (\<lambda>v.
     io_bind (io_lift (int_answer v)) (\<lambda>timelock.
     io_bind (io_read rv_latest) (\<lambda>block.
     io_return \<lparr>av_listingId = i, av_state = approval_state_of provider listedAt approved revoked timelock (bl_timestamp block),
       av_availableAt = listedAt + timelock, av_chainTimestamp = bl_timestamp block, av_provider = provider, av_listingBps = bps\<rparr>)))))"

section \<open>Fees and buybacks\<close>

text \<open>The first event of a name that the contract at an address emitted.\<close>

definition first_event :: "string \<Rightarrow> string \<Rightarrow> token_receipt \<Rightarrow> chain_value list option" where
  "first_event address name r = map_option lg_args (List.find (\<lambda>l. same (lg_address l) address \<and> lg_name l = name) (tk_logs r))"

definition economic_pendingRewards :: "chain_config \<Rightarrow> string \<Rightarrow> int chain_io" where
  "economic_pendingRewards config who =
     io_bind (readContract (contract_call (kf_staking config) ''pendingRewards'' [VText who])) (\<lambda>v. io_lift (int_answer v))"

definition economic_claimRewards :: "chain_config \<Rightarrow> string \<Rightarrow> (string \<times> int \<times> string) chain_io" where
  "economic_claimRewards config operation =
     io_bind (writeContract operation 0 (contract_call (kf_staking config) ''claimRewards'' [])) (\<lambda>tx.
     io_bind (confirmed tx) (\<lambda>r.
     io_lift (of_option (PlainError ''Confirmed reward claim did not emit RewardsClaimed'')
       (case first_event (kf_staking config) ''RewardsClaimed'' r of Some [VText who, VInt amount] \<Rightarrow> Some (tx, amount, who) | _ \<Rightarrow> None))))"

record buyback_status =
  by_reserved :: int
  by_treasuryBps :: int
  by_router :: string
  by_tokenOut :: string
  by_recipient :: string
  by_available :: int

definition text_answer :: "chain_value list \<Rightarrow> enclave_error + string" where
  "text_answer v = of_option rpc_failed (case v of [VText s] \<Rightarrow> Some s | _ \<Rightarrow> None)"

definition read_int :: "string \<Rightarrow> string \<Rightarrow> chain_value list \<Rightarrow> int chain_io" where
  "read_int to name args = io_bind (readContract (contract_call to name args)) (\<lambda>v. io_lift (int_answer v))"

definition read_text :: "string \<Rightarrow> string \<Rightarrow> string chain_io" where
  "read_text to name = io_bind (readContract (contract_call to name [])) (\<lambda>v. io_lift (text_answer v))"

definition economic_buybackStatus :: "chain_config \<Rightarrow> buyback_status chain_io" where
  "economic_buybackStatus config =
     io_bind (read_int (kf_feeVault config) ''reservedBuyback'' []) (\<lambda>reserved.
     io_bind (read_int (kf_feeVault config) ''buybackReserveBps'' []) (\<lambda>bps.
     io_bind (read_text (kf_feeVault config) ''buybackRouter'') (\<lambda>router.
     io_bind (read_text (kf_feeVault config) ''buybackToken'') (\<lambda>tokenOut.
     io_bind (read_text (kf_feeVault config) ''buybackRecipient'') (\<lambda>recipient.
     io_bind (read_int (kf_usdc config) ''balanceOf'' [VText (kf_feeVault config)]) (\<lambda>balance.
     io_return \<lparr>by_reserved = reserved, by_treasuryBps = bps, by_router = router, by_tokenOut = tokenOut, by_recipient = recipient,
       by_available = balance - reserved\<rparr>))))))"

definition fee_balances :: "chain_config \<Rightarrow> (int \<times> string \<times> string \<times> string \<times> string) chain_io" where
  "fee_balances config =
     io_bind (read_int (kf_usdc config) ''balanceOf'' [VText (kf_feeVault config)]) (\<lambda>vaultBal.
     io_bind (read_text (kf_feeVault config) ''treasury'') (\<lambda>treasury.
     io_bind (read_text (kf_feeVault config) ''stakers'') (\<lambda>stakers.
     io_bind (read_text (kf_feeVault config) ''providers'') (\<lambda>providers.
     io_bind (read_text (kf_feeVault config) ''ecosystem'') (\<lambda>ecosystem.
     io_return (vaultBal, treasury, stakers, providers, ecosystem))))))"

definition economic_configureBuyback :: "chain_config \<Rightarrow> string \<Rightarrow> string \<Rightarrow> string \<Rightarrow> string \<Rightarrow> string chain_io" where
  "economic_configureBuyback config operation router tokenOut recipient =
     transact operation 0 (contract_call (kf_feeVault config) ''configureBuyback'' [VText router, VText tokenOut, VText recipient])"

definition economic_setBuybackReserve :: "chain_config \<Rightarrow> string \<Rightarrow> int \<Rightarrow> string chain_io" where
  "economic_setBuybackReserve config operation treasuryBps =
     transact operation 0 (contract_call (kf_feeVault config) ''setBuybackReserveBps'' [VInt treasuryBps])"

definition economic_executeBuyback :: "chain_config \<Rightarrow> string \<Rightarrow> int \<Rightarrow> int \<Rightarrow> int \<Rightarrow> (string \<times> int \<times> int \<times> string) chain_io" where
  "economic_executeBuyback config operation amountIn minOut deadline =
     io_bind (writeContract operation 0 (contract_call (kf_feeVault config) ''executeBuyback'' [VInt amountIn, VInt minOut, VInt deadline])) (\<lambda>tx.
     io_bind (confirmed tx) (\<lambda>r.
     io_lift (of_option (PlainError ''Confirmed buyback did not emit BuybackExecuted'')
       (case first_event (kf_feeVault config) ''BuybackExecuted'' r of
          Some [VText _, VInt i, VInt amountOut, VText recipient] \<Rightarrow> Some (tx, i, amountOut, recipient) | _ \<Rightarrow> None))))"

record distribution =
  db_tx :: string
  db_treasury :: int
  db_stakers :: int
  db_providers :: int
  db_ecosystem :: int
  db_reserved :: int

definition economic_distributeWithAccounting :: "chain_config \<Rightarrow> string \<Rightarrow> distribution chain_io" where
  "economic_distributeWithAccounting config operation =
     io_bind (writeContract operation 0 (contract_call (kf_feeVault config) ''distribute'' [])) (\<lambda>tx.
     io_bind (confirmed tx) (\<lambda>r.
     io_lift (of_option (PlainError ''Confirmed distribution did not emit Distributed'')
       (case first_event (kf_feeVault config) ''Distributed'' r of
          Some [VInt toTreasury, VInt toStakers, VInt toProviders, VInt toEcosystem] \<Rightarrow>
            Some \<lparr>db_tx = tx, db_treasury = toTreasury, db_stakers = toStakers, db_providers = toProviders, db_ecosystem = toEcosystem,
              db_reserved = (case first_event (kf_feeVault config) ''BuybackReserved'' r of Some [VInt amount] \<Rightarrow> amount | _ \<Rightarrow> 0)\<rparr>
        | _ \<Rightarrow> None))))"

end
