(* ===== verification/X402_Funding.thy ===== *)
theory X402_Funding
  imports Chain_Calls
begin

text \<open>
  Settlement of an x402 payment on chain, \<open>createX402Facilitator\<close> of \<open>api/src/chain.ts\<close>: the debit through the
  meter, and its recovery from a transfer that somebody else submitted with the payer's authorization.
\<close>

section \<open>Proof of a deposit\<close>

record token_transfer =
  ta_from :: string
  ta_to :: string
  ta_value :: int
  ta_after :: int
  ta_before :: int
  ta_nonce :: string
  ta_signature :: string

text \<open>The two overloads of \<open>transferWithAuthorization\<close>; a \<open>uint8\<close> has two hexadecimal digits.\<close>

definition transfer_call :: "string \<times> chain_value list \<Rightarrow> token_transfer option" where
  "transfer_call c =
     (case c of
        (name, [VText f, VText t, VInt v, VInt a, VInt b, VText n, VText sig]) \<Rightarrow>
          if name = ''transferWithAuthorization''
          then Some \<lparr>ta_from = f, ta_to = t, ta_value = v, ta_after = a, ta_before = b, ta_nonce = n, ta_signature = sig\<rparr> else None
      | (name, [VText f, VText t, VInt v, VInt a, VInt b, VText n, VInt sv, VText sr, VText ss]) \<Rightarrow>
          if name = ''transferWithAuthorization''
          then Some \<lparr>ta_from = f, ta_to = t, ta_value = v, ta_after = a, ta_before = b, ta_nonce = n,
                     ta_signature = ''0x'' @ drop 2 sr @ drop 2 ss @ hex_of_byte (word_of_int sv)\<rparr> else None
      | _ \<Rightarrow> None)"

definition funding_depth :: "chain_config \<Rightarrow> int" where
  "funding_depth config = (case kf_confirmations config of Some d \<Rightarrow> d | None \<Rightarrow> if kf_chainId config \<in> {31337, 1337} then 0 else 12)"

definition canonical_direct :: "chain_config \<Rightarrow> string \<Rightarrow> token_receipt \<Rightarrow> token_tx \<Rightarrow> chain_block \<Rightarrow> int \<Rightarrow> bool" where
  "canonical_direct config txHash r tx block head \<longleftrightarrow>
     same (tk_hash r) txHash \<and> same (tt_hash tx) txHash \<and> tk_success r \<and> bl_hash block = Some (tk_blockHash r)
     \<and> tt_blockHash tx = bl_hash block \<and> head \<ge> tk_blockNumber r + funding_depth config
     \<and> (case tt_to tx of Some a \<Rightarrow> same a (kf_usdc config) | None \<Rightarrow> False) \<and> tt_value tx = 0"

definition transfers_authorization :: "chain_config \<Rightarrow> transfer_authorization \<Rightarrow> token_transfer \<Rightarrow> bool" where
  "transfers_authorization config auth a \<longleftrightarrow>
     same (ta_from a) (tf_from auth) \<and> same (ta_to a) (kf_meter config) \<and> same (ta_to a) (tf_to auth) \<and> ta_value a = int (dec_number (tf_value auth))
     \<and> ta_after a = int (dec_number (tf_validAfter auth)) \<and> ta_before a = int (dec_number (tf_validBefore auth)) \<and> same (ta_nonce a) (tf_nonce auth)"

definition authorization_used :: "chain_config \<Rightarrow> transfer_authorization \<Rightarrow> chain_log \<Rightarrow> bool" where
  "authorization_used config auth l \<longleftrightarrow> same (lg_address l) (kf_usdc config) \<and> lg_name l = ''AuthorizationUsed''
     \<and> (case lg_args l of [VText a, VText n] \<Rightarrow> same a (tf_from auth) \<and> same n (tf_nonce auth) | _ \<Rightarrow> False)"

definition tokens_moved :: "chain_config \<Rightarrow> transfer_authorization \<Rightarrow> chain_log \<Rightarrow> bool" where
  "tokens_moved config auth l \<longleftrightarrow> same (lg_address l) (kf_usdc config) \<and> lg_name l = ''Transfer''
     \<and> (case lg_args l of [VText f, VText t, VInt v] \<Rightarrow> same f (tf_from auth) \<and> same t (tf_to auth) \<and> v = int (dec_number (tf_value auth)) | _ \<Rightarrow> False)"

definition verifyX402FundingProof :: "chain_config \<Rightarrow> transfer_authorization \<Rightarrow> string \<Rightarrow> (int \<times> string) chain_io" where
  "verifyX402FundingProof config auth txHash =
     io_bind (io_read rv_chainId) (\<lambda>chain.
     io_bind (io_require (chain = kf_chainId config) (ConflictError ''x402 funding chain mismatch'')) (\<lambda>_.
     io_bind (io_read (\<lambda>v. rv_receipt v txHash)) (\<lambda>r.
     io_bind (io_read (\<lambda>v. rv_transaction v txHash)) (\<lambda>tx.
     io_bind (io_read (\<lambda>v. rv_block v (tk_blockNumber r))) (\<lambda>block.
     io_bind (io_read rv_head) (\<lambda>head.
     io_bind (io_require (canonical_direct config txHash r tx block head) (ConflictError ''x402 funding is not a canonical direct token transfer'')) (\<lambda>_.
     io_bind (io_lift (of_option rpc_failed (tt_call tx))) (\<lambda>call.
     io_bind (io_lift (of_option (ConflictError ''x402 funding authorization mismatch'') (transfer_call call))) (\<lambda>a.
     io_bind (io_require (transfers_authorization config auth a) (ConflictError ''x402 funding authorization mismatch'')) (\<lambda>_.
     io_bind (io_require (same (ta_signature a) (tf_signature auth)) (ConflictError ''x402 funding signature mismatch'')) (\<lambda>_.
     io_bind (io_require (list_ex (authorization_used config auth) (tk_logs r) \<and> list_ex (tokens_moved config auth) (tk_logs r))
       (ConflictError ''x402 funding requires both authorization and transfer events'')) (\<lambda>_.
     io_return (tk_blockNumber r, tk_blockHash r)))))))))))))"

section \<open>Finding a deposit\<close>

fun scan_logs :: "chain_config \<Rightarrow> transfer_authorization \<Rightarrow> found_log list \<Rightarrow> string option chain_io" where
  "scan_logs config auth [] = io_return None"
| "scan_logs config auth (l # ls) =
     (case fl_transactionHash l of
        Some hash \<Rightarrow>
          if hash = [] \<or> fl_removed l then scan_logs config auth ls
          else io_bind (verifyX402FundingProof config auth hash) (\<lambda>_. io_return (Some hash))
      | None \<Rightarrow> scan_logs config auth ls)"

function scan_windows :: "chain_config \<Rightarrow> transfer_authorization \<Rightarrow> int \<Rightarrow> int \<Rightarrow> string option chain_io" where
  "scan_windows config auth head cursor =
     (if cursor \<le> head
      then io_bind (io_read (\<lambda>v. rv_used v (tf_from auth) (tf_nonce auth) cursor (if cursor + 1999 > head then head else cursor + 1999))) (\<lambda>logs.
        io_bind (scan_logs config auth logs) (\<lambda>found.
        case found of Some hash \<Rightarrow> io_return (Some hash) | None \<Rightarrow> scan_windows config auth head (cursor + 2000)))
      else io_return None)"
  by pat_completeness auto

termination by (relation "measure (\<lambda>(config, auth, head, cursor). nat (head + 1 - cursor))") auto

declare scan_windows.simps [simp del]

definition scan_start :: "int \<Rightarrow> int \<Rightarrow> int" where
  "scan_start fromBlock head =
     (let oldest = (if head > 255 then head - 255 else 0) in if fromBlock > oldest then fromBlock else oldest)"

definition findX402Funding :: "chain_config \<Rightarrow> transfer_authorization \<Rightarrow> int \<Rightarrow> string option chain_io" where
  "findX402Funding config auth fromBlock =
     io_bind (io_read rv_head) (\<lambda>head.
     io_bind (io_require (\<not> fromBlock > head) (ConflictError ''x402 challenge chain history was reorganized'')) (\<lambda>_.
     scan_windows config auth head (scan_start fromBlock head)))"

section \<open>The facilitator\<close>

definition x402_unavailable :: enclave_error where
  "x402_unavailable = AppError ''X402_UNAVAILABLE'' ''Configured UsageMeter does not support x402 v2 settlement'' 503"

definition x402_assertSupported :: "chain_config \<Rightarrow> unit chain_io" where
  "x402_assertSupported config =
     io_catch
       (io_bind (io_read rv_chainId) (\<lambda>chain.
        io_bind (io_require (chain = kf_chainId config) (PlainError ''Unsupported meter'')) (\<lambda>_.
        io_bind (readContract (contract_call (kf_meter config) ''X402_VERSION'' [])) (\<lambda>v.
        io_require (v = [VInt 2]) (PlainError ''Unsupported meter'')))))
       (\<lambda>_. io_lift (Inl x402_unavailable))"

definition x402_blockNumber :: "int chain_io" where
  "x402_blockNumber = io_read rv_head"

record x402_admission =
  xa_blockNumber :: string
  xa_blockHash :: string

definition x402_admit :: "chain_config \<Rightarrow> transfer_authorization \<Rightarrow> x402_admission chain_io" where
  "x402_admit config auth =
     io_bind (io_read rv_chainId) (\<lambda>chain.
     io_bind (io_require (chain = kf_chainId config) (ConflictError ''x402 admission chain mismatch'')) (\<lambda>_.
     io_bind (io_read rv_latest) (\<lambda>block.
     io_bind (io_read (\<lambda>v. rv_callAt v (bl_number block)
       (contract_call (kf_usdc config) ''authorizationState'' [VText (tf_from auth), VText (tf_nonce auth)]))) (\<lambda>used.
     io_bind (io_require (used = [VBool False] \<and> bl_hash block \<noteq> None) (ConflictError ''x402 authorization must be unused at canonical admission'')) (\<lambda>_.
     io_bind (io_read (\<lambda>v. rv_block v (bl_number block))) (\<lambda>again.
     io_bind (io_require (bl_hash again = bl_hash block) (ConflictError ''x402 authorization must be unused at canonical admission'')) (\<lambda>_.
     io_return \<lparr>xa_blockNumber = int_dec (bl_number block), xa_blockHash = the (bl_hash block)\<rparr>)))))))"

record x402_context =
  xc_listingId :: "int option"
  xc_agentId :: "string option"
  xc_admission :: x402_admission
  xc_fundingTx :: "string option"

definition settle_args :: "chain_config \<Rightarrow> string \<Rightarrow> transfer_authorization \<Rightarrow> x402_context \<Rightarrow> chain_value list" where
  "settle_args config paymentId auth ctx =
     [VText (tf_from auth), VInt (int (dec_number (tf_value auth))), VText (paymentIdToBytes32 config paymentId), listing_arg (xc_listingId ctx),
      agent_arg config (xc_agentId ctx), VInt (int (dec_number (tf_validAfter auth))), VInt (int (dec_number (tf_validBefore auth))),
      VText (tf_nonce auth), VText (tf_signature auth)]"

definition debit_call :: "chain_config \<Rightarrow> string \<Rightarrow> transfer_authorization \<Rightarrow> x402_context \<Rightarrow> chain_call" where
  "debit_call config paymentId auth ctx = contract_call (kf_meter config) ''settleTransferAuthorized'' (settle_args config paymentId auth ctx)"

definition prepaid_call :: "chain_config \<Rightarrow> string \<Rightarrow> transfer_authorization \<Rightarrow> x402_context \<Rightarrow> int \<Rightarrow> string \<Rightarrow> chain_call" where
  "prepaid_call config paymentId auth ctx n h =
     contract_call (kf_meter config) ''settlePrepaidTransfer'' (settle_args config paymentId auth ctx @ [VPoint n h])"

definition admission_block :: "x402_context \<Rightarrow> int" where
  "admission_block ctx = int (dec_number (xa_blockNumber (xc_admission ctx)))"

definition transfer_operation :: "string \<Rightarrow> string" where
  "transfer_operation paymentId = ''x402:'' @ paymentId @ '':transfer''"

definition prepaid_operation :: "string \<Rightarrow> string \<Rightarrow> string" where
  "prepaid_operation paymentId f = ''x402:'' @ paymentId @ '':prepaid:'' @ f"

text \<open>The debit, or the deposit that takes its place: \<open>Inl tx\<close> is a confirmed debit.\<close>

definition debit_or_deposit :: "chain_config \<Rightarrow> string \<Rightarrow> transfer_authorization \<Rightarrow> x402_context \<Rightarrow> (string + string) chain_io" where
  "debit_or_deposit config paymentId auth ctx =
     (case truthy_text (xc_fundingTx ctx) of
        Some f \<Rightarrow> io_return (Inr f)
      | None \<Rightarrow>
          io_catch (io_bind (transact (transfer_operation paymentId) 0 (debit_call config paymentId auth ctx)) (\<lambda>tx. io_return (Inl tx)))
            (\<lambda>e. io_bind (findX402Funding config auth (admission_block ctx + 1)) (\<lambda>found.
               case found of None \<Rightarrow> io_lift (Inl e) | Some f \<Rightarrow> io_return (Inr f))))"

definition settle_prepaid :: "chain_config \<Rightarrow> string \<Rightarrow> transfer_authorization \<Rightarrow> x402_context \<Rightarrow> string \<Rightarrow> (string \<times> string option) chain_io" where
  "settle_prepaid config paymentId auth ctx f =
     io_bind (verifyX402FundingProof config auth f) (\<lambda>(n, h).
     io_bind (io_require (\<not> n \<le> admission_block ctx) (ConflictError ''x402 funding must follow durable admission'')) (\<lambda>_.
     io_bind (transact (prepaid_operation paymentId f) 0 (prepaid_call config paymentId auth ctx n h)) (\<lambda>tx.
     io_bind (verifyX402FundingProof config auth f) (\<lambda>_.
     io_return (tx, Some f)))))"

definition x402_settle :: "chain_config \<Rightarrow> string \<Rightarrow> transfer_authorization \<Rightarrow> x402_context \<Rightarrow> (string \<times> string option) chain_io" where
  "x402_settle config paymentId auth ctx =
     io_bind (io_read (\<lambda>v. rv_block v (admission_block ctx))) (\<lambda>block.
     io_bind (io_require (bl_hash block = Some (xa_blockHash (xc_admission ctx))) (ConflictError ''x402 admission chain history was reorganized'')) (\<lambda>_.
     io_bind (io_read (\<lambda>v. rv_code v (tf_from auth))) (\<lambda>code.
     io_bind (io_require (code = None \<or> code = Some [] \<or> code = Some ''0x'') (ConflictError ''x402 supports externally owned payer accounts only'')) (\<lambda>_.
     io_bind (debit_or_deposit config paymentId auth ctx) (\<lambda>step.
     case step of Inl tx \<Rightarrow> io_return (tx, None) | Inr f \<Rightarrow> settle_prepaid config paymentId auth ctx f)))))"

section \<open>What a program does\<close>

definition is_poll :: "chain_event \<Rightarrow> bool" where
  "is_poll e \<longleftrightarrow> e = Polled"

lemma poll_events [event_intros]: "events_in is_poll (io_read f)"
  by (rule events_in_read) (simp add: is_poll_def)

lemma verify_polls [event_intros]: "events_in is_poll (verifyX402FundingProof config auth f)"
  unfolding verifyX402FundingProof_def by (intro event_intros)

lemma scan_logs_polls [event_intros]: "events_in is_poll (scan_logs config auth ls)"
  by (induction config auth ls rule: scan_logs.induct) (auto simp del: io_simps intro!: event_intros split: option.splits)

lemma scan_windows_polls [event_intros]: "events_in is_poll (scan_windows config auth head cursor)"
proof (induction config auth head cursor rule: scan_windows.induct)
  case (1 config auth head cursor)
  then show ?case
    by (subst scan_windows.simps) (auto simp del: io_simps intro!: event_intros split: option.splits)
qed

lemma find_polls [event_intros]: "events_in is_poll (findX402Funding config auth fromBlock)"
  unfolding findX402Funding_def by (intro event_intros)

lemma transact_run:
  "transact operation n call w t =
     (case cw_send w t (operation_key operation n) call of
        Inl e \<Rightarrow> (Inl e, t @ [Sent (operation_key operation n) call])
      | Inr tx \<Rightarrow> (rbind (cw_wait w (t @ [Sent (operation_key operation n) call]) tx)
            (\<lambda>r. if tk_success r then Inr tx else Inl (PlainError (''Transaction reverted: '' @ tx))),
          t @ [Sent (operation_key operation n) call, Waited tx]))"
proof (cases "cw_send w t (operation_key operation n) call")
  case (Inl e)
  then show ?thesis by (simp add: transact_def writeContract_def send_durable_def io_bind_def)
next
  case (Inr tx)
  then show ?thesis
    by (cases "cw_wait w (t @ [Sent (operation_key operation n) call]) tx")
      (simp_all add: transact_def writeContract_def send_durable_def io_bind_def confirmed_def)
qed

lemma transact_events:
  assumes "transact operation n call w t = (r, u)"
  shows "\<exists>rest. u = t @ Sent (operation_key operation n) call # rest \<and> (rest = [] \<or> (\<exists>tx. rest = [Waited tx]))"
  using assms by (auto simp: transact_run split: sum.splits)

lemma transact_Inr:
  assumes "transact operation n call w t = (Inr tx, u)"
  obtains r where "cw_send w t (operation_key operation n) call = Inr tx" "cw_wait w (t @ [Sent (operation_key operation n) call]) tx = Inr r" "tk_success r"
    "u = t @ [Sent (operation_key operation n) call, Waited tx]"
  using assms by (auto simp: transact_run res_simps split: sum.splits if_splits)

definition funds :: "chain_config \<Rightarrow> transfer_authorization \<Rightarrow> chain_world \<Rightarrow> string \<Rightarrow> int \<Rightarrow> string \<Rightarrow> bool" where
  "funds config auth w f n h \<longleftrightarrow>
     (\<exists>r tx block head call a s1 s2 s3 s4.
        rv_receipt (cw_view w s1) f = Inr r \<and> rv_transaction (cw_view w s2) f = Inr tx \<and> rv_block (cw_view w s3) n = Inr block
        \<and> rv_head (cw_view w s4) = Inr head \<and> canonical_direct config f r tx block head
        \<and> tt_call tx = Some call \<and> transfer_call call = Some a \<and> transfers_authorization config auth a \<and> same (ta_signature a) (tf_signature auth)
        \<and> list_ex (authorization_used config auth) (tk_logs r) \<and> list_ex (tokens_moved config auth) (tk_logs r)
        \<and> n = tk_blockNumber r \<and> h = tk_blockHash r)"

lemma verify_funding_Inr:
  assumes "verifyX402FundingProof config auth f w t = (Inr (n, h), u)"
  shows "funds config auth w f n h"
proof -
  from assms obtain r tx block head call a s1 s2 s3 s4 where
    "rv_receipt (cw_view w s1) f = Inr r" "rv_transaction (cw_view w s2) f = Inr tx" "rv_block (cw_view w s3) (tk_blockNumber r) = Inr block"
    "rv_head (cw_view w s4) = Inr head" "canonical_direct config f r tx block head" "tt_call tx = Some call" "transfer_call call = Some a"
    "transfers_authorization config auth a" "same (ta_signature a) (tf_signature auth)"
    "list_ex (authorization_used config auth) (tk_logs r) \<and> list_ex (tokens_moved config auth) (tk_logs r)" "n = tk_blockNumber r" "h = tk_blockHash r"
    unfolding verifyX402FundingProof_def
    by (elim io_bind_InrE) (auto simp: res_simps)
  then show ?thesis unfolding funds_def by blast
qed

section \<open>Debits and prepaid settlements\<close>

definition is_debit :: "chain_event \<Rightarrow> bool" where
  "is_debit e \<longleftrightarrow> (case e of Sent k c \<Rightarrow> kc_function c = ''settleTransferAuthorized'' | _ \<Rightarrow> False)"

definition is_prepaid :: "chain_event \<Rightarrow> bool" where
  "is_prepaid e \<longleftrightarrow> (case e of Sent k c \<Rightarrow> kc_function c = ''settlePrepaidTransfer'' | _ \<Rightarrow> False)"

lemma event_kinds [simp]:
  "\<not> is_debit Polled" "\<not> is_debit (Waited h)" "\<not> is_prepaid Polled" "\<not> is_prepaid (Waited h)"
  "is_debit (Sent k (debit_call config p auth ctx))" "\<not> is_debit (Sent k (prepaid_call config p auth ctx n h))"
  "is_prepaid (Sent k (prepaid_call config p auth ctx n h))" "\<not> is_prepaid (Sent k (debit_call config p auth ctx))"
  by (simp_all add: is_debit_def is_prepaid_def debit_call_def prepaid_call_def contract_call_def)

lemma polls_only: "list_all is_poll new \<Longrightarrow> filter is_debit new = [] \<and> filter is_prepaid new = []"
  by (induction new) (auto simp: is_poll_def)

lemma debit_or_deposit_run:
  assumes "debit_or_deposit config p auth ctx w t = (r, u)"
  obtains new where "u = t @ new" "filter is_prepaid new = []"
    "filter is_debit new = (if truthy_text (xc_fundingTx ctx) = None
       then [Sent (operation_key (transfer_operation p) 0) (debit_call config p auth ctx)] else [])"
proof (cases "truthy_text (xc_fundingTx ctx)")
  case (Some f)
  with assms have "u = t" by (simp add: debit_or_deposit_def)
  with Some that [of "[]"] show ?thesis by simp
next
  case None
  let ?call = "debit_call config p auth ctx" and ?k = "operation_key (transfer_operation p) 0"
  obtain tr v where tr: "transact (transfer_operation p) 0 ?call w t = (tr, v)" by force
  from transact_events [OF tr] obtain rest where v: "v = t @ Sent ?k ?call # rest" "rest = [] \<or> (\<exists>tx. rest = [Waited tx])" by blast
  show ?thesis
  proof (cases tr)
    case (Inr tx)
    with assms None tr have "u = v" by (simp add: debit_or_deposit_def io_catch_def io_bind_def)
    with v None that [of "Sent ?k ?call # rest"] show ?thesis by auto
  next
    case (Inl e)
    let ?find = "io_bind (findX402Funding config auth (admission_block ctx + 1)) (\<lambda>found. case found of None \<Rightarrow> io_lift (Inl e) | Some f \<Rightarrow> io_return (Inr f))"
    have "?find w v = (r, u)" using assms None tr Inl by (simp add: debit_or_deposit_def io_catch_def io_bind_def)
    moreover have "events_in is_poll (?find :: (string + string) chain_io)" by (auto simp del: io_simps intro!: event_intros split: option.splits)
    ultimately obtain new where u: "u = v @ new" "list_all is_poll new" by (blast elim: events_inD)
    with v None polls_only [OF u(2)] that [of "Sent ?k ?call # rest @ new"] show ?thesis by auto
  qed
qed

lemma settle_prepaid_run:
  assumes "settle_prepaid config p auth ctx f w t = (r, u)"
  obtains new where "u = t @ new" "filter is_debit new = []"
    "filter is_prepaid new = [] \<or> (\<exists>n h. funds config auth w f n h \<and> admission_block ctx < n
       \<and> filter is_prepaid new = [Sent (operation_key (prepaid_operation p f) 0) (prepaid_call config p auth ctx n h)])"
proof -
  obtain vr v where vr: "verifyX402FundingProof config auth f w t = (vr, v)" by force
  then obtain new where v: "v = t @ new" "list_all is_poll new" by (blast elim: events_inD [OF verify_polls])
  show ?thesis
  proof (cases vr)
    case (Inl e)
    with assms vr have "u = v" by (simp add: settle_prepaid_def io_bind_def)
    with v polls_only [OF v(2)] that [of new] show ?thesis by auto
  next
    case (Inr nh)
    obtain n h where nh: "nh = (n, h)" by force
    have fund: "funds config auth w f n h" using vr Inr nh verify_funding_Inr by blast
    show ?thesis
    proof (cases "n \<le> admission_block ctx")
      case True
      with assms vr Inr nh have "u = v" by (simp add: settle_prepaid_def io_bind_def)
      with v polls_only [OF v(2)] that [of new] show ?thesis by auto
    next
      case False
      let ?call = "prepaid_call config p auth ctx n h" and ?k = "operation_key (prepaid_operation p f) 0"
      obtain tr x where tr: "transact (prepaid_operation p f) 0 ?call w v = (tr, x)" by force
      from transact_events [OF tr] obtain rest where x: "x = v @ Sent ?k ?call # rest" "rest = [] \<or> (\<exists>tx. rest = [Waited tx])" by blast
      show ?thesis
      proof (cases tr)
        case (Inl e)
        with assms vr Inr nh False tr have "u = x" by (simp add: settle_prepaid_def io_bind_def)
        with x v fund False polls_only [OF v(2)] that [of "new @ Sent ?k ?call # rest"] show ?thesis by force
      next
        case ok: (Inr tx)
        let ?tail = "io_bind (verifyX402FundingProof config auth f) (\<lambda>_. io_return (tx, Some f))"
        have "?tail w x = (r, u)" using assms vr Inr nh False tr ok by (simp add: settle_prepaid_def io_bind_def)
        moreover have "events_in is_poll ?tail" by (intro event_intros)
        ultimately obtain more where u: "u = x @ more" "list_all is_poll more" by (blast elim: events_inD)
        with x v fund False polls_only [OF v(2)] polls_only [OF u(2)] that [of "new @ Sent ?k ?call # rest @ more"] show ?thesis by force
      qed
    qed
  qed
qed

lemma x402_settle_run:
  assumes "x402_settle config p auth ctx w t = (r, u)"
  obtains new where "u = t @ new"
    "filter is_debit new = [] \<or> (truthy_text (xc_fundingTx ctx) = None
       \<and> filter is_debit new = [Sent (operation_key (transfer_operation p) 0) (debit_call config p auth ctx)])"
    "filter is_prepaid new = [] \<or> (\<exists>f n h. funds config auth w f n h \<and> admission_block ctx < n
       \<and> filter is_prepaid new = [Sent (operation_key (prepaid_operation p f) 0) (prepaid_call config p auth ctx n h)])"
proof -
  let ?head = "\<lambda>k. io_bind (io_read (\<lambda>v. rv_block v (admission_block ctx))) (\<lambda>block.
     io_bind (io_require (bl_hash block = Some (xa_blockHash (xc_admission ctx))) (ConflictError ''x402 admission chain history was reorganized'')) (\<lambda>_.
     io_bind (io_read (\<lambda>v. rv_code v (tf_from auth))) (\<lambda>code.
     io_bind (io_require (code = None \<or> code = Some [] \<or> code = Some ''0x'') (ConflictError ''x402 supports externally owned payer accounts only'')) k)))"
  let ?k = "\<lambda>_::unit. io_bind (debit_or_deposit config p auth ctx) (\<lambda>step. case step of Inl tx \<Rightarrow> io_return (tx, None) | Inr f \<Rightarrow> settle_prepaid config p auth ctx f)"
  have guard: "(\<exists>e. r = Inl e \<and> (\<exists>new. u = t @ new \<and> list_all is_poll new)) \<or> (\<exists>polls. list_all is_poll polls \<and> ?k () w (t @ polls) = (r, u))"
    using assms unfolding x402_settle_def
    by (auto simp: io_bind_def is_poll_def require_def split: sum.splits if_splits)
  then show ?thesis
  proof
    assume "\<exists>e. r = Inl e \<and> (\<exists>new. u = t @ new \<and> list_all is_poll new)"
    then obtain new where "u = t @ new" "list_all is_poll new" by blast
    with polls_only [of new] that [of new] show ?thesis by simp
  next
    assume "\<exists>polls. list_all is_poll polls \<and> ?k () w (t @ polls) = (r, u)"
    then obtain polls where polls: "list_all is_poll polls" and k: "?k () w (t @ polls) = (r, u)" by blast
    obtain sr v where step: "debit_or_deposit config p auth ctx w (t @ polls) = (sr, v)" by force
    from debit_or_deposit_run [OF this] obtain new where v: "v = (t @ polls) @ new" "filter is_prepaid new = []"
      "filter is_debit new = (if truthy_text (xc_fundingTx ctx) = None
         then [Sent (operation_key (transfer_operation p) 0) (debit_call config p auth ctx)] else [])" by blast
    show ?thesis
    proof (cases "\<exists>f. sr = Inr (Inr f)")
      case False
      then have "u = v" using k step by (auto simp: io_bind_def split: sum.splits)
      with v polls_only [OF polls] that [of "polls @ new"] show ?thesis by auto
    next
      case True
      then obtain f where "settle_prepaid config p auth ctx f w v = (r, u)" using k step by (auto simp: io_bind_def)
      from settle_prepaid_run [OF this] obtain more where "u = v @ more" "filter is_debit more = []"
        "filter is_prepaid more = [] \<or> (\<exists>n h. funds config auth w f n h \<and> admission_block ctx < n
           \<and> filter is_prepaid more = [Sent (operation_key (prepaid_operation p f) 0) (prepaid_call config p auth ctx n h)])" by blast
      then have more: "u = t @ (polls @ new @ more)" "filter is_debit (polls @ new @ more) = filter is_debit new"
        "filter is_prepaid (polls @ new @ more) = filter is_prepaid more"
        "filter is_prepaid more = [] \<or> (\<exists>f n h. funds config auth w f n h \<and> admission_block ctx < n
           \<and> filter is_prepaid more = [Sent (operation_key (prepaid_operation p f) 0) (prepaid_call config p auth ctx n h)])"
        using v polls_only [OF polls] by (simp_all, blast)
      show ?thesis by (rule that [OF more(1)]) (use v(3) more(2-4) in \<open>simp_all\<close>)
    qed
  qed
qed

lemma verify_answers:
  assumes "verifyX402FundingProof config auth f w t = (Inr x, u)"
  shows "funds config auth w f (fst x) (snd x)"
  using verify_funding_Inr [of config auth f w t "fst x" "snd x" u] assms by simp

section \<open>A node that holds still\<close>

text \<open>Every read is answered from one state of the chain.\<close>

definition still :: "chain_world \<Rightarrow> rpc_view \<Rightarrow> bool" where
  "still w v \<longleftrightarrow> (\<forall>t. cw_view w t = v)"

lemma funds_verified:
  assumes "still w v" and "funds config auth w f n h" and "rv_chainId v = Inr (kf_chainId config)"
  shows "fst (verifyX402FundingProof config auth f w t) = Inr (n, h)"
  using assms unfolding funds_def still_def verifyX402FundingProof_def
  by (auto simp: io_bind_def)

text \<open>\<open>eth_getLogs\<close> over a range that holds one log.\<close>

definition logs_in_range :: "rpc_view \<Rightarrow> transfer_authorization \<Rightarrow> int \<Rightarrow> string \<Rightarrow> bool" where
  "logs_in_range v auth n f \<longleftrightarrow>
     (\<forall>a b. rv_used v (tf_from auth) (tf_nonce auth) a b
        = Inr (if a \<le> n \<and> n \<le> b then [\<lparr>fl_transactionHash = Some f, fl_removed = False\<rparr>] else []))"

lemma scan_finds:
  assumes "still w v" and "logs_in_range v auth n f" and "fst (verifyX402FundingProof config auth f w t') = Inr x"
    and "\<And>t. fst (verifyX402FundingProof config auth f w t) = fst (verifyX402FundingProof config auth f w t')"
    and "f \<noteq> []" and "cursor \<le> n" and "n \<le> head" and "head < cursor + 2000"
  shows "fst (scan_windows config auth head cursor w t) = Inr (Some f)"
proof -
  have view: "cw_view w u = v" for u using assms(1) by (simp add: still_def)
  have ver: "\<exists>s. verifyX402FundingProof config auth f w u = (Inr x, s)" for u
    using assms(3,4) by (metis prod.collapse)
  have "cursor \<le> head" "(if cursor + 1999 > head then head else cursor + 1999) = head" using assms(6-8) by auto
  moreover have "rv_used v (tf_from auth) (tf_nonce auth) cursor head = Inr [\<lparr>fl_transactionHash = Some f, fl_removed = False\<rparr>]"
    using assms(2,6,7) by (simp add: logs_in_range_def)
  ultimately show ?thesis
    using ver [of "t @ [Polled]"] assms(5)
    by (subst scan_windows.simps) (auto simp: io_bind_def view)
qed

lemma find_finds:
  assumes "still w v" and "logs_in_range v auth n f" and "funds config auth w f n h" and "rv_chainId v = Inr (kf_chainId config)"
    and "rv_head v = Inr head" and "f \<noteq> []" and "fromBlock \<le> n" and "n \<le> head" and "head - 255 \<le> n" and "0 \<le> n"
  shows "fst (findX402Funding config auth fromBlock w t) = Inr (Some f)"
proof -
  note ver = funds_verified [OF assms(1,3,4)]
  have "cw_view w u = v" for u using assms(1) by (simp add: still_def)
  moreover have "scan_start fromBlock head \<le> n" "head < scan_start fromBlock head + 2000"
    using assms(7-10) by (auto simp: scan_start_def Let_def)
  then have "fst (scan_windows config auth head (scan_start fromBlock head) w u) = Inr (Some f)" for u
    using scan_finds [OF assms(1,2) ver _ assms(6) _ assms(8)] ver by simp
  ultimately show ?thesis using assms(5,7,8) by (simp add: findX402Funding_def io_bind_def)
qed

lemma fst_InrD: "fst (m w u) = Inr x \<Longrightarrow> \<exists>s. m w u = (Inr x, s)"
  by (cases "m w u") simp

section \<open>Properties\<close>

text \<open>Claim C6. Settlement of an x402 payment sends at most one debit of the payer, under the one operation key of
  the payment, and none at all once a deposit is recorded: an unknown outcome of the debit never leads to a second one.\<close>

theorem x402_debits_once:
  assumes "x402_settle config p auth ctx w [] = (r, events)"
  shows "filter is_debit events = [] \<or> (truthy_text (xc_fundingTx ctx) = None
    \<and> filter is_debit events = [Sent (operation_key (transfer_operation p) 0) (debit_call config p auth ctx)])"
  using x402_settle_run [OF assms] by (metis append_Nil)

text \<open>A settlement from a deposit is sent only for a transfer that the chain showed: successful, canonical
  and deep enough, later than the admission, made directly to the token with exactly this payer's signed
  authorization, and with both of its events; and it names the block of that transfer.\<close>

theorem x402_prepaid_is_funded:
  assumes "x402_settle config p auth ctx w [] = (r, events)" and "Sent k c \<in> set events" and "kc_function c = ''settlePrepaidTransfer''"
  shows "\<exists>f n h. funds config auth w f n h \<and> admission_block ctx < n \<and> c = prepaid_call config p auth ctx n h"
proof -
  from assms(2,3) have "Sent k c \<in> set (filter is_prepaid events)" by (simp add: is_prepaid_def)
  then show ?thesis using x402_settle_run [OF assms(1)] by (metis append_Nil empty_iff empty_set list.set_intros(1) set_ConsD chain_event.inject(1))
qed


section \<open>A worked recovery\<close>

text \<open>Somebody submitted the payer's authorization in transaction \<open>F\<close> of block 5, after the admission at block 3; the
  gateway's own debit is refused.\<close>

definition demo_chain :: chain_config where
  "demo_chain = \<lparr>kf_chainId = 1337, kf_account = ''g'', kf_usdc = ''u'', kf_encl = ''e'', kf_meter = ''m'', kf_staking = ''s'', kf_registry = ''r'',
     kf_mandate = ''d'', kf_feeVault = ''v'', kf_confirmations = None, kf_keccak = (\<lambda>_. replicate 32 0)\<rparr>"

definition demo_auth :: transfer_authorization where
  "demo_auth = \<lparr>tf_from = ''a'', tf_to = ''m'', tf_value = ''7'', tf_validAfter = ''1'', tf_validBefore = ''9'', tf_nonce = ''n'', tf_signature = ''s''\<rparr>"

definition demo_context :: x402_context where
  "demo_context = \<lparr>xc_listingId = None, xc_agentId = None, xc_admission = \<lparr>xa_blockNumber = ''3'', xa_blockHash = ''B''\<rparr>, xc_fundingTx = None\<rparr>"

definition demo_deposit :: token_receipt where
  "demo_deposit = \<lparr>tk_hash = ''F'', tk_success = True, tk_blockNumber = 5, tk_blockHash = ''B'',
     tk_logs = [\<lparr>lg_address = ''u'', lg_name = ''AuthorizationUsed'', lg_args = [VText ''a'', VText ''n'']\<rparr>,
       \<lparr>lg_address = ''U'', lg_name = ''Transfer'', lg_args = [VText ''a'', VText ''m'', VInt 7]\<rparr>]\<rparr>"

definition demo_view :: rpc_view where
  "demo_view = \<lparr>rv_chainId = Inr 1337, rv_head = Inr 9, rv_latest = Inl rpc_failed, rv_block = (\<lambda>n. Inr \<lparr>bl_number = n, bl_hash = Some ''B'', bl_timestamp = 0\<rparr>),
     rv_receipt = (\<lambda>_. Inr demo_deposit),
     rv_transaction = (\<lambda>_. Inr \<lparr>tt_hash = ''f'', tt_blockHash = Some ''B'', tt_to = Some ''u'', tt_value = 0,
        tt_call = Some (''transferWithAuthorization'', [VText ''a'', VText ''m'', VInt 7, VInt 1, VInt 9, VText ''n'', VText ''S''])\<rparr>),
     rv_code = (\<lambda>_. Inr None),
     rv_used = (\<lambda>_ _ a b. Inr (if a \<le> 5 \<and> 5 \<le> b then [\<lparr>fl_transactionHash = Some ''F'', fl_removed = False\<rparr>] else [])),
     rv_call = (\<lambda>_. Inl rpc_failed), rv_callAt = (\<lambda>_ _. Inl rpc_failed)\<rparr>"

definition demo_world :: chain_world where
  "demo_world = \<lparr>cw_send = (\<lambda>t k c. if kc_function c = ''settleTransferAuthorized'' then Inl rpc_failed else Inr ''T''),
     cw_wait = (\<lambda>t h. Inr demo_deposit), cw_view = (\<lambda>t. demo_view)\<rparr>"

lemma demo_still: "still demo_world demo_view"
  by (simp add: still_def demo_world_def)

lemma demo_funds: "funds demo_chain demo_auth demo_world ''F'' 5 ''B''"
proof -
  have dec: "dec_number ''7'' = 7" "dec_number ''1'' = 1" "dec_number ''9'' = 9" by code_simp+
  have same: "same ''F'' ''F''" "same ''f'' ''F''" "same ''u'' ''u''" "same ''U'' ''u''" "same ''S'' ''s''" by code_simp+
  let ?a = "\<lparr>ta_from = ''a'', ta_to = ''m'', ta_value = 7, ta_after = 1, ta_before = 9, ta_nonce = ''n'', ta_signature = ''S''\<rparr>"
  show ?thesis
    unfolding funds_def
    by (rule exI [of _ demo_deposit], intro exI conjI)
      (auto simp: demo_world_def demo_view_def demo_deposit_def canonical_direct_def demo_chain_def funding_depth_def same transfer_call_def
        transfers_authorization_def demo_auth_def dec authorization_used_def tokens_moved_def)
qed

lemma demo_settled: "fst (x402_settle demo_chain ''p'' demo_auth demo_context demo_world []) = Inr (''T'', Some ''F'')"
  by code_simp


theorem x402_debits_once_witness:
  "\<exists>events. x402_settle demo_chain ''p'' demo_auth demo_context demo_world [] = (Inr (''T'', Some ''F''), events)
     \<and> length (filter is_debit events) \<le> 1"
proof -
  obtain events where e: "x402_settle demo_chain ''p'' demo_auth demo_context demo_world [] = (Inr (''T'', Some ''F''), events)"
    using demo_settled by (metis prod.collapse)
  from x402_debits_once [OF e] have "length (filter is_debit events) \<le> 1" by auto
  with e show ?thesis by blast
qed

theorem x402_prepaid_is_funded_witness:
  "\<exists>events f n h. x402_settle demo_chain ''p'' demo_auth demo_context demo_world [] = (Inr (''T'', Some ''F''), events)
     \<and> Sent (operation_key (prepaid_operation ''p'' ''F'') 0) (prepaid_call demo_chain ''p'' demo_auth demo_context 5 ''B'') \<in> set events
     \<and> funds demo_chain demo_auth demo_world f n h \<and> 3 < n"
proof -
  let ?e = "Sent (operation_key (prepaid_operation ''p'' ''F'') 0) (prepaid_call demo_chain ''p'' demo_auth demo_context 5 ''B'')"
  let ?run = "x402_settle demo_chain ''p'' demo_auth demo_context demo_world []"
  have mem: "?e \<in> set (snd ?run)" by code_simp
  have e: "?run = (Inr (''T'', Some ''F''), snd ?run)" using demo_settled by (metis prod.collapse)
  have "admission_block demo_context = 3" by code_simp
  with x402_prepaid_is_funded [OF e mem] obtain f n h where "funds demo_chain demo_auth demo_world f n h" "3 < n"
    by (auto simp: prepaid_call_def contract_call_def)
  with e mem show ?thesis by metis
qed

end
