(* ===== verification/Inference_Execution.thy ===== *)
theory Inference_Execution
  imports Core_Errors
begin

text \<open>
  The dispatch claim that makes an inference run at most once per payment and per idempotency key:
  \<open>api/src/inference-execution.ts\<close> over the table of \<open>db/src/inference-execution-schema.ts\<close>.

  A claim id is drawn by the database; it is the parameter \<open>fresh\<close>. The caller of a claim commits
  it in a transaction of its own before the provider is called.
\<close>

section \<open>Rows\<close>

record execution_row =
  ex_paymentId :: string
  ex_claimId :: string
  ex_keyHash :: string
  ex_requestHash :: string
  ex_idempotencyKey :: "string option"
  ex_status :: string
  ex_receiptHash :: "string option"
  ex_completedAt :: "int option"

text \<open>The primary key, the unique index on owner and intent, and the two \<open>CHECK\<close> constraints.\<close>

definition owner_intent :: "execution_row \<Rightarrow> (string \<times> string) option" where
  "owner_intent r = map_option (Pair (ex_keyHash r)) (ex_idempotencyKey r)"

definition execution_row_ok :: "execution_row \<Rightarrow> bool" where
  "execution_row_ok r \<longleftrightarrow>
     (ex_status r = ''dispatched'' \<and> ex_receiptHash r = None \<and> ex_completedAt r = None)
     \<or> (ex_status r = ''completed'' \<and> ex_receiptHash r \<noteq> None \<and> ex_completedAt r \<noteq> None)"

definition executions_ok :: "execution_row list \<Rightarrow> bool" where
  "executions_ok rows \<longleftrightarrow> unique_key ex_paymentId rows \<and> unique_opt owner_intent rows
     \<and> list_all execution_row_ok rows"

record execution_binding =
  eb_paymentId :: string
  eb_keyHash :: string
  eb_requestHash :: string
  eb_idempotencyKey :: "string option"

definition uncertainInference :: "string \<Rightarrow> enclave_error" where
  "uncertainInference paymentId = AppError ''INFERENCE_EXECUTION_UNCERTAIN''
     ''Execution may have been dispatched. This payment is quarantined; do not submit another payment for this request.'' 409"

section \<open>Operations\<close>

definition claim_row :: "execution_binding \<Rightarrow> string \<Rightarrow> execution_row" where
  "claim_row binding fresh = \<lparr>ex_paymentId = eb_paymentId binding, ex_claimId = fresh,
     ex_keyHash = eb_keyHash binding, ex_requestHash = eb_requestHash binding,
     ex_idempotencyKey = eb_idempotencyKey binding, ex_status = ''dispatched'',
     ex_receiptHash = None, ex_completedAt = None\<rparr>"

text \<open>\<open>ON CONFLICT DO NOTHING\<close>: the insert is skipped when a unique key is taken.\<close>

definition claim_conflict :: "execution_binding \<Rightarrow> execution_row \<Rightarrow> bool" where
  "claim_conflict binding r \<longleftrightarrow> ex_paymentId r = eb_paymentId binding
     \<or> (ex_keyHash r = eb_keyHash binding \<and> eb_idempotencyKey binding \<noteq> None
        \<and> ex_idempotencyKey r = eb_idempotencyKey binding)"

definition same_dispatch :: "execution_binding \<Rightarrow> execution_row \<Rightarrow> bool" where
  "same_dispatch binding r \<longleftrightarrow> ex_paymentId r = eb_paymentId binding
     \<or> (case eb_idempotencyKey binding of
          None \<Rightarrow> False
        | Some key \<Rightarrow> key \<noteq> [] \<and> ex_keyHash r = eb_keyHash binding \<and> ex_idempotencyKey r = Some key)"

definition claimInferenceExecution ::
  "execution_binding \<Rightarrow> string \<Rightarrow> execution_row list \<Rightarrow> enclave_error + (string \<times> execution_row list)" where
  "claimInferenceExecution binding fresh rows =
     (if \<not> list_ex (claim_conflict binding) rows then Inr (fresh, rows @ [claim_row binding fresh])
      else case select_row (same_dispatch binding) rows of
        None \<Rightarrow> Inl (ConflictError ''Inference dispatch claim could not be confirmed'')
      | Some existing \<Rightarrow>
          if ex_keyHash existing \<noteq> eb_keyHash binding \<or> ex_requestHash existing \<noteq> eb_requestHash binding
             \<or> ex_paymentId existing \<noteq> eb_paymentId binding
             \<or> ex_idempotencyKey existing \<noteq> eb_idempotencyKey binding
          then Inl (ConflictError ''Inference dispatch is bound to a different request'')
          else Inl (uncertainInference (eb_paymentId binding)))"

definition completion_match :: "execution_binding \<Rightarrow> string \<Rightarrow> execution_row \<Rightarrow> bool" where
  "completion_match binding claimId r \<longleftrightarrow> ex_paymentId r = eb_paymentId binding \<and> ex_claimId r = claimId
     \<and> ex_keyHash r = eb_keyHash binding \<and> ex_requestHash r = eb_requestHash binding
     \<and> ex_status r = ''dispatched''"

definition completeInferenceExecution ::
  "execution_binding \<Rightarrow> string \<Rightarrow> string \<Rightarrow> int \<Rightarrow> execution_row list \<Rightarrow>
     enclave_error + (unit \<times> execution_row list)" where
  "completeInferenceExecution binding claimId receiptHash now rows =
     (if length (matching_rows (completion_match binding claimId) rows) \<noteq> 1
      then Inl (uncertainInference (eb_paymentId binding))
      else Inr ((), update_rows (completion_match binding claimId)
             (\<lambda>r. r\<lparr>ex_status := ''completed'', ex_receiptHash := Some receiptHash,
                    ex_completedAt := Some now\<rparr>) rows))"

text \<open>
  \<open>execute\<close> has already run to a value or an error; \<open>recordFailure\<close> is the telemetry callback,
  whose own failure is swallowed.
\<close>

definition runClaimedInference ::
  "string \<Rightarrow> enclave_error + 'a \<Rightarrow> (enclave_error \<Rightarrow> 'log) \<Rightarrow> (enclave_error + 'a) \<times> 'log list" where
  "runClaimedInference paymentId execute recordFailure =
     (case execute of
        Inr x \<Rightarrow> (Inr x, [])
      | Inl e \<Rightarrow> (Inl (uncertainInference paymentId), [recordFailure e]))"

definition execution_failure_codes :: "string list" where
  "execution_failure_codes = [''NEAR_VERIFICATION_FAILED'', ''NEAR_INFERENCE_TIMEOUT'',
     ''INFERENCE_ATTESTATION_FAILED'', ''MODEL_NOT_APPROVED'', ''ATTESTATION_FAILED'', ''KEY_NOT_RELEASED'',
     ''TAMPERED_IMAGE'', ''CONFLICT'', ''FORBIDDEN'', ''VALIDATION_FAILED'']"

definition inferenceExecutionFailureCode :: "enclave_error \<Rightarrow> string" where
  "inferenceExecutionFailureCode e =
     (if is_app_error e
      then (case List.find (\<lambda>code. code = error_code e) execution_failure_codes of
              Some code \<Rightarrow> code | None \<Rightarrow> ''EXECUTION_FAILED'')
      else ''EXECUTION_FAILED'')"

section \<open>The claims as a transition system\<close>

inductive execution_step :: "execution_row list \<Rightarrow> execution_row list \<Rightarrow> bool" where
  step_claim: "claimInferenceExecution binding fresh rows = Inr (c, rows') \<Longrightarrow> execution_step rows rows'"
| step_complete:
    "completeInferenceExecution binding claimId receiptHash now rows = Inr (u, rows') \<Longrightarrow> execution_step rows rows'"

text \<open>A claim is permanent: its binding and its claim id stay, and only a completion is added.\<close>

definition claim_kept :: "execution_row \<Rightarrow> execution_row \<Rightarrow> bool" where
  "claim_kept r r' \<longleftrightarrow> ex_paymentId r' = ex_paymentId r \<and> ex_claimId r' = ex_claimId r
     \<and> ex_keyHash r' = ex_keyHash r \<and> ex_requestHash r' = ex_requestHash r
     \<and> ex_idempotencyKey r' = ex_idempotencyKey r
     \<and> (ex_status r = ''completed'' \<longrightarrow> r' = r)"

definition executions_keep :: "execution_row list \<Rightarrow> execution_row list \<Rightarrow> bool" where
  "executions_keep rows rows' \<longleftrightarrow> (\<forall>r \<in> set rows. \<exists>r' \<in> set rows'. claim_kept r r')"

lemma claim_Inr:
  "claimInferenceExecution binding fresh rows = Inr (c, rows') \<longleftrightarrow>
     (\<forall>r \<in> set rows. \<not> claim_conflict binding r) \<and> c = fresh \<and> rows' = rows @ [claim_row binding fresh]"
  by (auto simp: claimInferenceExecution_def list_ex_iff split: option.splits if_splits)

lemma complete_Inr:
  "completeInferenceExecution binding claimId h now rows = Inr (u, rows') \<longleftrightarrow>
     length (matching_rows (completion_match binding claimId) rows) = 1
     \<and> rows' = update_rows (completion_match binding claimId)
             (\<lambda>r. r\<lparr>ex_status := ''completed'', ex_receiptHash := Some h, ex_completedAt := Some now\<rparr>) rows"
  by (auto simp: completeInferenceExecution_def)

lemma claim_preserves:
  assumes "executions_ok rows" and "claimInferenceExecution binding fresh rows = Inr (c, rows')"
  shows "executions_ok rows'"
  using assms
  by (auto simp: claim_Inr executions_ok_def unique_key_snoc unique_opt_snoc claim_conflict_def claim_row_def
      owner_intent_def execution_row_ok_def image_iff map_option_case split: option.splits)

lemma complete_preserves:
  assumes "executions_ok rows" and "completeInferenceExecution binding claimId h now rows = Inr (u, rows')"
  shows "executions_ok rows'"
proof -
  have closed: "execution_row_ok (r\<lparr>ex_status := ''completed'', ex_receiptHash := Some h,
      ex_completedAt := Some now\<rparr>)" for r
    by (simp add: execution_row_ok_def)
  from assms show ?thesis
    by (auto simp: complete_Inr executions_ok_def unique_key_update unique_opt_update owner_intent_def
        list_all_iff set_update_rows closed)
qed

lemma claim_kept_trans: "claim_kept q r \<Longrightarrow> claim_kept r s \<Longrightarrow> claim_kept q s"
  by (auto simp: claim_kept_def)

lemma executions_keep_trans: "executions_keep s t \<Longrightarrow> executions_keep t u \<Longrightarrow> executions_keep s u"
  unfolding executions_keep_def by (meson claim_kept_trans)

lemma executions_keep_refl: "executions_keep rows rows"
  by (force simp: executions_keep_def claim_kept_def)

lemma claim_keeps: "claimInferenceExecution binding fresh rows = Inr (c, rows') \<Longrightarrow> executions_keep rows rows'"
  by (force simp: claim_Inr executions_keep_def claim_kept_def)

lemma complete_keeps:
  assumes "completeInferenceExecution binding claimId h now rows = Inr (u, rows')"
  shows "executions_keep rows rows'"
  unfolding executions_keep_def
proof
  fix r assume r: "r \<in> set rows"
  let ?f = "\<lambda>r. r\<lparr>ex_status := ''completed'', ex_receiptHash := Some h, ex_completedAt := Some now\<rparr>"
  let ?r = "if completion_match binding claimId r then ?f r else r"
  have "?r \<in> set rows'" using assms r by (auto simp: complete_Inr set_update_rows)
  moreover have "claim_kept r ?r" by (auto simp: claim_kept_def completion_match_def)
  ultimately show "\<exists>r' \<in> set rows'. claim_kept r r'" by blast
qed

interpretation executions: history_system "\<lambda>rows. rows = []" execution_step executions_ok executions_keep
proof
  show "executions_ok s" if "s = []" for s
    using that by (simp add: executions_ok_def)
  show "executions_ok t" if "executions_ok s" "execution_step s t" for s t
    using that(2,1) by (cases rule: execution_step.cases) (auto intro: claim_preserves complete_preserves)
  show "executions_keep s t" if "execution_step s t" for s t
    using that by (cases rule: execution_step.cases) (auto intro: claim_keeps complete_keeps)
qed (auto intro: executions_keep_refl executions_keep_trans)

section \<open>What the claims guarantee\<close>

lemma claim_kept_conflict: "claim_kept r r' \<Longrightarrow> claim_conflict binding r \<Longrightarrow> claim_conflict binding r'"
  by (auto simp: claim_kept_def claim_conflict_def)

text \<open>
  An inference is dispatched at most once: once a claim has been granted, no later claim
  for the same payment, or for the same owner and idempotency key, is ever granted, whatever
  claims and completions commit in between and whatever else the later request contains.
\<close>

theorem dispatch_at_most_once:
  assumes "claimInferenceExecution first fresh rows = Inr (c, rows1)"
    and "execution_step\<^sup>*\<^sup>* rows1 rows2" and "executions_ok rows"
    and "eb_paymentId second = eb_paymentId first
      \<or> (eb_keyHash second = eb_keyHash first \<and> eb_idempotencyKey second = eb_idempotencyKey first
         \<and> eb_idempotencyKey first \<noteq> None)"
  shows "\<not> is_ok (claimInferenceExecution second fresh2 rows2)"
proof -
  have "executions_keep rows1 rows2"
    using executions.keeps_run [OF assms(2)] claim_preserves [OF assms(3,1)] by simp
  moreover have "claim_row first fresh \<in> set rows1" using assms(1) by (simp add: claim_Inr)
  ultimately obtain r where r: "r \<in> set rows2" "claim_kept (claim_row first fresh) r"
    by (auto simp: executions_keep_def)
  have "claim_conflict second (claim_row first fresh)"
    using assms(4) by (auto simp: claim_conflict_def claim_row_def)
  with r have "claim_conflict second r" by (blast intro: claim_kept_conflict)
  with r(1) show ?thesis by (force simp: is_ok_iff claim_Inr)
qed

theorem dispatch_at_most_once_witness:
  "let b = \<lparr>eb_paymentId = ''p'', eb_keyHash = ''k'', eb_requestHash = ''r'', eb_idempotencyKey = Some ''i''\<rparr>
   in \<exists>rows1. claimInferenceExecution b ''c'' [] = Inr (''c'', rows1)
      \<and> \<not> is_ok (claimInferenceExecution (b\<lparr>eb_paymentId := ''q''\<rparr>) ''d'' rows1)"
proof -
  let ?b = "\<lparr>eb_paymentId = ''p'', eb_keyHash = ''k'', eb_requestHash = ''r'', eb_idempotencyKey = Some ''i''\<rparr>"
  have ok: "executions_ok []" by (simp add: executions_ok_def)
  have c: "claimInferenceExecution ?b ''c'' [] = Inr (''c'', [claim_row ?b ''c''])" by (simp add: claim_Inr)
  from dispatch_at_most_once [OF c rtranclp.rtrancl_refl ok, of "?b\<lparr>eb_paymentId := ''q''\<rparr>"] c
  show ?thesis by simp
qed

text \<open>
  Telemetry of a failed inference carries no free text: the recorded code is one of
  eleven fixed words for every error, and the caller sees the same quarantine error whatever the
  failure was.
\<close>

theorem failure_telemetry_fixed:
  "inferenceExecutionFailureCode e \<in> insert ''EXECUTION_FAILED'' (set execution_failure_codes)
   \<and> fst (runClaimedInference paymentId (Inl e) recordFailure) = Inl (uncertainInference paymentId)"
proof -
  have "inferenceExecutionFailureCode e \<in> insert ''EXECUTION_FAILED'' (set execution_failure_codes)"
    by (auto simp: inferenceExecutionFailureCode_def find_Some_iff in_set_conv_nth split: option.splits)
  then show ?thesis by (simp add: runClaimedInference_def)
qed

end
