(* ===== verification/Tcb_Lifecycle.thy ===== *)
theory Tcb_Lifecycle
  imports Core_Attestation
begin

text \<open>
  The software TCB policy control plane: \<open>api/src/tcb-lifecycle.ts\<close>, the table \<open>tcb_policy\<close> of
  \<open>db/src/schema.ts\<close> and the on-chain approval of \<open>api/src/tcb-chain.ts\<close>.

  The state is the list of rows. \<open>exclusive\<close> takes an advisory lock, so each operation is one
  transaction on the committed rows; a \<open>UNIQUE\<close> violation aborts it. The model-registry contract
  is a parameter \<open>registry_view\<close> (an RPC failure is \<open>None\<close>); the approval a lifecycle uses is a
  parameter \<open>approve\<close>, for which \<open>verifyTcbApproval\<close> is the production value.
\<close>

section \<open>Rows\<close>

record tcb_row =
  tc_version :: int
  tc_servingImageId :: string
  tc_measurement :: string
  tc_policyHash :: "string option"
  tc_policyJson :: "json option"
  tc_status :: string
  tc_proposalKey :: "string option"
  tc_activationKey :: "string option"
  tc_activationRequestHash :: "string option"
  tc_activationMode :: "string option"
  tc_activationScope :: "string option"
  tc_activatedAt :: "int option"
  tc_createdAt :: int

definition constraints_ok :: "tcb_row list \<Rightarrow> bool" where
  "constraints_ok rows \<longleftrightarrow>
     unique_key tc_version rows \<and> unique_opt tc_proposalKey rows \<and> unique_opt tc_activationKey rows"

definition checked :: "tcb_row list \<Rightarrow> enclave_error + tcb_row list" where
  "checked rows = (if constraints_ok rows then Inr rows else Inl (PlainError ''duplicate key value''))"

definition tx_insert :: "tcb_row \<Rightarrow> tcb_row list \<Rightarrow> enclave_error + tcb_row list" where
  "tx_insert row rows = checked (rows @ [row])"

definition tx_update ::
  "int \<Rightarrow> (tcb_row \<Rightarrow> tcb_row) \<Rightarrow> tcb_row list \<Rightarrow> enclave_error + tcb_row list" where
  "tx_update version patch rows = checked (update_rows (\<lambda>r. tc_version r = version) patch rows)"

section \<open>Helpers\<close>

definition maximum_version :: int where
  "maximum_version = 2147483647"

definition versionValid :: "js_number \<Rightarrow> enclave_error + unit" where
  "versionValid version =
     (if \<not> is_safe_integer version \<or> int_of version < 1 \<or> int_of version > maximum_version
      then Inl (ConflictError ''Invalid software TCB version'') else Inr ())"

definition mutationKey :: "string \<Rightarrow> enclave_error + string" where
  "mutationKey value =
     (if \<not> key_string value then Inl (ConflictError ''Invalid TCB idempotency key'') else Inr value)"

definition row_policy_json :: "tcb_row \<Rightarrow> json" where
  "row_policy_json row =
     (case tc_policyJson row of
        Some j \<Rightarrow> j
      | None \<Rightarrow> JObj [(''version'', JNum (tc_version row)),
          (''servingImageId'', JStr (tc_servingImageId row)),
          (''requireCpuTee'', JBool True), (''requireGpuCc'', JBool True)])"

definition policyOf :: "crypto \<Rightarrow> tcb_row \<Rightarrow> enclave_error + tcb_policy" where
  "policyOf cx row =
     rbind (parseTcbPolicy (row_policy_json row)) (\<lambda>policy.
     rbind (tcbPolicyRecord cx policy) (\<lambda>r.
       if JInt (tc_version row) \<noteq> tr_version r \<or> tc_servingImageId row \<noteq> tr_servingImageId r
          \<or> tc_measurement row \<noteq> tr_measurement r
          \<or> (tc_policyHash row \<noteq> None \<and> tc_policyHash row \<noteq> Some (tr_policyHash r))
       then Inl (ConflictError ''Stored software TCB policy is inconsistent'')
       else Inr policy))"

record tcb_state =
  st_record :: tcb_record
  st_policy :: tcb_policy
  st_status :: string
  st_binding :: string
  st_scope :: "string option"
  st_activatedAt :: "int option"
  st_createdAt :: int

definition policyState :: "crypto \<Rightarrow> tcb_row \<Rightarrow> enclave_error + tcb_state" where
  "policyState cx row =
     (if tc_status row \<notin> {''pending'', ''active'', ''retired''}
      then Inl (ConflictError ''Invalid software TCB state'')
      else rbind (policyOf cx row) (\<lambda>policy.
           rmap (\<lambda>r. \<lparr>st_record = r, st_policy = policy, st_status = tc_status row,
               st_binding = (case tc_activationMode row of Some m \<Rightarrow> m | None \<Rightarrow> ''unapproved''),
               st_scope = tc_activationScope row, st_activatedAt = tc_activatedAt row,
               st_createdAt = tc_createdAt row\<rparr>)
             (tcbPolicyRecord cx policy)))"

abbreviation active :: "tcb_row \<Rightarrow> bool" where
  "active r \<equiv> tc_status r = ''active''"

definition activeRow :: "tcb_row list \<Rightarrow> enclave_error + tcb_row" where
  "activeRow rows =
     (case filter active rows of
        [r] \<Rightarrow> if tc_activationMode r \<in> {Some ''legacy'', Some ''onchain'', Some ''local-fixture''}
               then Inr r
               else Inl (ConflictError ''Exactly one initialized software TCB policy is required'')
      | _ \<Rightarrow> Inl (ConflictError ''Exactly one initialized software TCB policy is required''))"

section \<open>On-chain approval\<close>

record tcb_binding =
  tb_modelHash :: string
  tb_codeHash :: string
  tb_policyHash :: string
  tb_policyVersion :: int

record tcb_approval =
  ta_mode :: string
  ta_scope :: string
  ta_listingId :: int

record registry_view =
  rg_address :: string
  rg_configChainId :: int
  rg_chainId :: "int option"
  rg_genesisHash :: "string option"
  rg_bindingVersion :: "int option"
  rg_isApprovedWithPolicy :: "tcb_binding \<Rightarrow> bool option"
  rg_idByHashes :: "string \<Rightarrow> string \<Rightarrow> int option"
  rg_listingPolicy :: "int \<Rightarrow> (string \<times> int) option"

definition zero_hash :: string where
  "zero_hash = ''0x'' @ replicate 64 (CHR ''0'')"

definition validate_binding :: "tcb_binding \<Rightarrow> enclave_error + unit" where
  "validate_binding binding =
     (if list_ex (\<lambda>v. \<not> isHex32 v \<or> lower v = zero_hash)
           [tb_modelHash binding, tb_codeHash binding, tb_policyHash binding]
      then Inl (ValidationError ''policy'')
      else if tb_policyVersion binding \<le> 0 \<or> tb_policyVersion binding > 2 ^ 64 - 1
      then Inl (ValidationError ''policyVersion'')
      else Inr ())"

definition unavailable :: enclave_error where
  "unavailable = AppError ''TCB_BINDING_UNAVAILABLE''
     ''Configured chain or registry cannot verify TCB policy bindings'' 503"

definition assertSupported :: "registry_view \<Rightarrow> enclave_error + string" where
  "assertSupported rpc =
     (if \<not> isConfiguredAddress (Some (rg_address rpc)) \<or> rg_chainId rpc \<noteq> Some (rg_configChainId rpc)
      then Inl unavailable
      else case rg_genesisHash rpc of
        None \<Rightarrow> Inl unavailable
      | Some genesis \<Rightarrow>
          if genesis = [] \<or> rg_bindingVersion rpc \<noteq> Some 1 then Inl unavailable
          else Inr (int_dec (rg_configChainId rpc) @ '':'' @ lower genesis @ '':'' @ lower (rg_address rpc)))"

definition readPolicy :: "registry_view \<Rightarrow> int \<Rightarrow> enclave_error + (string \<times> int)" where
  "readPolicy rpc listingId =
     (if listingId \<le> 0 \<or> listingId > 2 ^ 256 - 1 then Inl (ValidationError ''listingId'')
      else rbind (assertSupported rpc) (\<lambda>_. of_option unavailable (rg_listingPolicy rpc listingId)))"

definition approval :: "registry_view \<Rightarrow> tcb_binding \<Rightarrow> enclave_error + (bool \<times> string)" where
  "approval rpc binding =
     rbind (validate_binding binding) (\<lambda>_.
     rbind (assertSupported rpc) (\<lambda>scope.
     rbind (of_option unavailable (rg_isApprovedWithPolicy rpc binding)) (\<lambda>approved.
       Inr (approved, scope))))"

definition assertApproved :: "registry_view \<Rightarrow> tcb_binding \<Rightarrow> enclave_error + tcb_approval" where
  "assertApproved rpc binding =
     rbind (approval rpc binding) (\<lambda>(approved, scope).
       if \<not> approved then Inl (AppError ''TCB_POLICY_NOT_APPROVED''
              ''Model, code and TCB policy are not approved together'' 409)
       else rbind (of_option unavailable (rg_idByHashes rpc (tb_modelHash binding) (tb_codeHash binding)))
         (\<lambda>listingId. if listingId = 0 then Inl unavailable
            else Inr \<lparr>ta_mode = ''onchain'', ta_scope = scope, ta_listingId = listingId\<rparr>))"

definition verifyTcbApproval ::
  "registry_view \<Rightarrow> string \<Rightarrow> string \<Rightarrow> string \<Rightarrow> js_number \<Rightarrow> enclave_error + tcb_approval" where
  "verifyTcbApproval rpc modelHash codeHash policyHash version =
     (if \<not> is_safe_integer version then Inl (ValidationError ''version'')
      else assertApproved rpc \<lparr>tb_modelHash = modelHash, tb_codeHash = codeHash,
             tb_policyHash = policyHash, tb_policyVersion = int_of version\<rparr>)"

section \<open>The lifecycle\<close>

record tcb_env =
  te_crypto :: crypto
  te_bootstrap :: tcb_policy
  te_modelHash :: string
  te_localFixture :: bool
  te_approve :: "string \<Rightarrow> string \<Rightarrow> string \<Rightarrow> js_number \<Rightarrow> enclave_error + tcb_approval"

type_synonym 'a tcb_tx = "tcb_row list \<Rightarrow> enclave_error + ('a \<times> tcb_row list)"

definition new_row :: "tcb_record \<Rightarrow> int \<Rightarrow> tcb_row" where
  "new_row r now = \<lparr>tc_version = int_of (tr_version r), tc_servingImageId = tr_servingImageId r,
     tc_measurement = tr_measurement r, tc_policyHash = Some (tr_policyHash r), tc_policyJson = None,
     tc_status = ''pending'', tc_proposalKey = None, tc_activationKey = None,
     tc_activationRequestHash = None, tc_activationMode = None, tc_activationScope = None,
     tc_activatedAt = None, tc_createdAt = now\<rparr>"

definition legacy_patch :: "tcb_policy \<Rightarrow> tcb_record \<Rightarrow> int \<Rightarrow> tcb_row \<Rightarrow> tcb_row" where
  "legacy_patch policy r now row = row\<lparr>tc_policyHash := Some (tr_policyHash r),
     tc_policyJson := Some (policy_json policy), tc_status := ''active'',
     tc_activationMode := Some ''legacy'', tc_activationScope := None, tc_activatedAt := Some now\<rparr>"

definition never_activated :: "tcb_row \<Rightarrow> bool" where
  "never_activated row \<longleftrightarrow> tc_status row = ''pending'' \<and> tc_activationMode row = None
     \<and> tc_activatedAt row = None \<and> tc_activationKey row = None"

text \<open>The three lifecycle transactions are cut where the code has read everything it decides on.\<close>

definition assertSamePolicy :: "tcb_env \<Rightarrow> tcb_row option \<Rightarrow> enclave_error + unit" where
  "assertSamePolicy env existing =
     (case existing of
        None \<Rightarrow> Inr ()
      | Some row \<Rightarrow>
          rbind (policyOf (te_crypto env) row) (\<lambda>stored.
          rbind (canonicalTcbPolicy stored) (\<lambda>a.
          rbind (canonicalTcbPolicy (te_bootstrap env)) (\<lambda>b.
            require (a = b)
              (ConflictError ''Configured TCB version already has a different immutable policy'')))))"

definition seed_rows :: "tcb_env \<Rightarrow> int \<Rightarrow> tcb_record \<Rightarrow> tcb_row option \<Rightarrow> unit tcb_tx" where
  "seed_rows env now r existing rows =
     (if list_ex active rows then rmap (\<lambda>_. ((), rows)) (activeRow rows)
      else if list_ex (\<lambda>row. \<not> never_activated row) rows
      then Inl (ConflictError ''TCB activation history has no active policy; explicit recovery is required'')
      else rmap (\<lambda>rows'. ((), rows'))
        (case existing of
           Some _ \<Rightarrow> tx_update (int_of (tr_version r)) (legacy_patch (te_bootstrap env) r now) rows
         | None \<Rightarrow> tx_insert (legacy_patch (te_bootstrap env) r now (new_row r now)) rows))"

definition initialize :: "tcb_env \<Rightarrow> int \<Rightarrow> unit tcb_tx" where
  "initialize env now rows =
     rbind (versionValid (tp_version (te_bootstrap env))) (\<lambda>_.
     rbind (tcbPolicyRecord (te_crypto env) (te_bootstrap env)) (\<lambda>r.
       let existing = select_row (\<lambda>row. JInt (tc_version row) = tr_version r) rows in
       rbind (assertSamePolicy env existing) (\<lambda>_. seed_rows env now r existing rows)))"

definition current :: "tcb_env \<Rightarrow> tcb_row list \<Rightarrow> enclave_error + tcb_state" where
  "current env rows = rbind (activeRow rows) (policyState (te_crypto env))"

definition list_states :: "tcb_env \<Rightarrow> tcb_row list \<Rightarrow> enclave_error + (tcb_state \<times> tcb_state list)" where
  "list_states env rows =
     rbind (activeRow rows) (\<lambda>a.
     rbind (policyState (te_crypto env) a) (\<lambda>act.
     rbind (collect (map (policyState (te_crypto env)) (rev (sort_key tc_version rows)))) (\<lambda>history.
       Inr (act, history))))"

record proposal_options =
  po_version :: "js_number option"
  po_idempotencyKey :: "string option"

definition max_version :: "tcb_row list \<Rightarrow> int" where
  "max_version rows = fold (\<lambda>r m. max (tc_version r) m) rows (tc_version (hd rows))"

definition proposal_key ::
  "tcb_env \<Rightarrow> tcb_row \<Rightarrow> string \<Rightarrow> proposal_options \<Rightarrow> enclave_error + string" where
  "proposal_key env cur servingImageId options =
     (case po_idempotencyKey options of
        Some key \<Rightarrow> Inr key
      | None \<Rightarrow>
          rbind (policyOf (te_crypto env) cur) (\<lambda>p.
          rbind (tcbPolicyRecord (te_crypto env)
              (p\<lparr>tp_servingImageId := servingImageId,
                 tp_version := (case po_version options of Some v \<Rightarrow> v | None \<Rightarrow> JInt (tc_version cur))\<rparr>)) (\<lambda>r.
            Inr (''proposal:'' @ int_dec (tc_version cur) @ '':'' @ tr_policyHash r))))"

definition repeated_proposal ::
  "tcb_env \<Rightarrow> tcb_row \<Rightarrow> string \<Rightarrow> proposal_options \<Rightarrow> tcb_row \<Rightarrow> (tcb_state \<times> tcb_state) tcb_tx" where
  "repeated_proposal env cur servingImageId options repeated rows =
     (if tc_servingImageId repeated \<noteq> servingImageId
         \<or> (case po_version options of None \<Rightarrow> False | Some v \<Rightarrow> JInt (tc_version repeated) \<noteq> v)
      then Inl (ConflictError ''TCB idempotency key already has another proposal'')
      else rbind (policyState (te_crypto env) cur) (\<lambda>p.
           rbind (policyState (te_crypto env) repeated) (\<lambda>r. Inr ((p, r), rows))))"

definition proposal_collision ::
  "tcb_env \<Rightarrow> tcb_policy \<Rightarrow> tcb_row option \<Rightarrow> enclave_error + unit" where
  "proposal_collision env policy collision =
     (case collision of
        None \<Rightarrow> Inr ()
      | Some row \<Rightarrow>
          rbind (policyOf (te_crypto env) row) (\<lambda>stored.
          rbind (canonicalTcbPolicy stored) (\<lambda>a.
          rbind (canonicalTcbPolicy policy) (\<lambda>b.
            if a \<noteq> b then Inl (ConflictError ''TCB version already has another immutable policy'')
            else Inl (ConflictError ''TCB version was proposed under another idempotency key'')))))"

definition new_proposal ::
  "tcb_env \<Rightarrow> int \<Rightarrow> tcb_row \<Rightarrow> tcb_policy \<Rightarrow> string \<Rightarrow> (tcb_state \<times> tcb_state) tcb_tx" where
  "new_proposal env now cur policy key rows =
     rbind (versionValid (tp_version policy)) (\<lambda>_.
     rbind (tcbPolicyRecord (te_crypto env) policy) (\<lambda>r.
     rbind (proposal_collision env policy
         (select_row (\<lambda>row. JInt (tc_version row) = tp_version policy) rows)) (\<lambda>_.
     rbind (require (\<not> int_of (tp_version policy) \<le> tc_version cur)
         (ConflictError ''New TCB policy must advance the active version'')) (\<lambda>_.
     rbind (tx_insert ((new_row r now)\<lparr>tc_policyJson := Some (policy_json policy),
         tc_proposalKey := Some key\<rparr>) rows) (\<lambda>rows'.
     rbind (policyState (te_crypto env) cur) (\<lambda>p.
     rbind (of_option (PlainError ''undefined'')
         (select_row (\<lambda>row. JInt (tc_version row) = tp_version policy) rows')) (\<lambda>saved.
     rbind (policyState (te_crypto env) saved) (\<lambda>s. Inr ((p, s), rows')))))))))"

definition propose ::
  "tcb_env \<Rightarrow> int \<Rightarrow> string \<Rightarrow> proposal_options \<Rightarrow> (tcb_state \<times> tcb_state) tcb_tx" where
  "propose env now servingImageId options rows =
     rbind (activeRow rows) (\<lambda>cur.
     rbind (proposal_key env cur servingImageId options) (\<lambda>proposed.
     rbind (mutationKey proposed) (\<lambda>key.
       case select_row (\<lambda>row. tc_proposalKey row = Some key) rows of
         Some repeated \<Rightarrow> repeated_proposal env cur servingImageId options repeated rows
       | None \<Rightarrow>
           new_proposal env now cur
             \<lparr>tp_version = (case po_version options of Some v \<Rightarrow> v | None \<Rightarrow> JInt (max_version rows + 1)),
              tp_servingImageId = servingImageId, tp_requireCpuTee = True, tp_requireGpuCc = True\<rparr> key rows)))"

record activation_result =
  ar_previous :: tcb_state
  ar_active :: tcb_state
  ar_alreadyActive :: bool

definition activation_key :: "js_number \<Rightarrow> js_number \<Rightarrow> string option \<Rightarrow> string" where
  "activation_key version expectedActiveVersion idempotencyKey =
     (case idempotencyKey of Some k \<Rightarrow> k
      | None \<Rightarrow> ''activation:'' @ num_text expectedActiveVersion @ '':'' @ num_text version)"

definition activation_hash :: "crypto \<Rightarrow> int \<Rightarrow> int \<Rightarrow> string" where
  "activation_hash cx version expectedActiveVersion =
     sha256HexText (cx_sha cx) (stringify (JObj [(''version'', JNum version),
       (''expectedActiveVersion'', JNum expectedActiveVersion)]))"

definition binding_for :: "tcb_env \<Rightarrow> tcb_state \<Rightarrow> js_number \<Rightarrow> enclave_error + (string \<times> string)" where
  "binding_for env state version =
     (if te_localFixture env then Inr (''local-fixture'', ''local-fixture:31337'')
      else rmap (\<lambda>a. (ta_mode a, ta_scope a))
        (te_approve env (te_modelHash env) (tr_measurement (st_record state))
           (tr_policyHash (st_record state)) version))"

definition activation_patch ::
  "tcb_state \<Rightarrow> string \<Rightarrow> string \<Rightarrow> string \<times> string \<Rightarrow> int \<Rightarrow> tcb_row \<Rightarrow> tcb_row" where
  "activation_patch state key requestHash binding now row =
     row\<lparr>tc_status := ''active'', tc_policyHash := Some (tr_policyHash (st_record state)),
         tc_policyJson := Some (policy_json (st_policy state)), tc_activationKey := Some key,
         tc_activationRequestHash := Some requestHash, tc_activationMode := Some (fst binding),
         tc_activationScope := Some (snd binding), tc_activatedAt := Some now\<rparr>"

definition repeated_activation ::
  "tcb_env \<Rightarrow> tcb_row \<Rightarrow> tcb_row \<Rightarrow> activation_result tcb_tx" where
  "repeated_activation env cur target rows =
     rbind (policyState (te_crypto env) cur) (\<lambda>p.
     rbind (policyState (te_crypto env) target) (\<lambda>a.
       Inr (\<lparr>ar_previous = p, ar_active = a, ar_alreadyActive = True\<rparr>, rows)))"

definition switch_active ::
  "tcb_env \<Rightarrow> int \<Rightarrow> js_number \<Rightarrow> string \<Rightarrow> string \<Rightarrow> tcb_row \<Rightarrow> tcb_row \<Rightarrow> activation_result tcb_tx" where
  "switch_active env now version key requestHash cur target rows =
     rbind (policyState (te_crypto env) target) (\<lambda>state.
     rbind (binding_for env state version) (\<lambda>binding.
     rbind (tx_update (tc_version cur) (\<lambda>row. row\<lparr>tc_status := ''retired''\<rparr>) rows) (\<lambda>rows1.
     rbind (tx_update (int_of version) (activation_patch state key requestHash binding now) rows1) (\<lambda>rows2.
     rbind (policyState (te_crypto env) cur) (\<lambda>p.
     rbind (of_option (PlainError ''undefined'')
         (select_row (\<lambda>row. JInt (tc_version row) = version) rows2)) (\<lambda>saved.
     rbind (policyState (te_crypto env) saved) (\<lambda>a.
       Inr (\<lparr>ar_previous = p, ar_active = a, ar_alreadyActive = False\<rparr>, rows2))))))))"

definition activate_target ::
  "tcb_env \<Rightarrow> int \<Rightarrow> js_number \<Rightarrow> js_number \<Rightarrow> string \<Rightarrow> string \<Rightarrow> tcb_row \<Rightarrow> tcb_row \<Rightarrow>
     activation_result tcb_tx" where
  "activate_target env now version expectedActiveVersion key requestHash cur target rows =
     (if active target \<and> tc_activationKey target = Some key
      then repeated_activation env cur target rows
      else if JInt (tc_version cur) \<noteq> expectedActiveVersion
      then Inl (ConflictError ''Active TCB version changed; refresh before activation'')
      else if tc_status target \<noteq> ''pending'' \<or> int_of version \<le> tc_version cur
      then Inl (ConflictError ''Only a newer pending TCB policy can be activated'')
      else switch_active env now version key requestHash cur target rows)"

definition activate ::
  "tcb_env \<Rightarrow> int \<Rightarrow> js_number \<Rightarrow> js_number \<Rightarrow> string option \<Rightarrow> activation_result tcb_tx" where
  "activate env now version expectedActiveVersion idempotencyKey rows =
     rbind (versionValid version) (\<lambda>_.
     rbind (versionValid expectedActiveVersion) (\<lambda>_.
     rbind (mutationKey (activation_key version expectedActiveVersion idempotencyKey)) (\<lambda>key.
     let requestHash = activation_hash (te_crypto env) (int_of version) (int_of expectedActiveVersion) in
     rbind (activeRow rows) (\<lambda>cur.
     rbind (case select_row (\<lambda>row. tc_activationKey row = Some key) rows of
         None \<Rightarrow> Inr ()
       | Some row \<Rightarrow> require (JInt (tc_version row) = version \<and> tc_activationRequestHash row = Some requestHash)
           (ConflictError ''TCB idempotency key already has another activation'')) (\<lambda>_.
     rbind (of_option (ConflictError ''Propose the TCB policy before activation'')
         (select_row (\<lambda>row. JInt (tc_version row) = version) rows)) (\<lambda>target.
       activate_target env now version expectedActiveVersion key requestHash cur target rows))))))"

definition assertCurrentTcb :: "crypto \<Rightarrow> string \<Rightarrow> unit tcb_tx" where
  "assertCurrentTcb cx expectedHash rows =
     rbind (activeRow rows) (\<lambda>row.
     rbind (policyState cx row) (\<lambda>state.
       if tr_policyHash (st_record state) \<noteq> expectedHash
       then Inl (ConflictError ''TCB policy changed; open a new attested session'')
       else Inr ((), rows)))"

text \<open>
  Every operation first awaits \<open>initialize\<close>, a transaction of its own. A process caches the
  promise once it has succeeded; \<open>initialize_again\<close> shows that running it again changes nothing.
\<close>

definition after_initialize ::
  "tcb_env \<Rightarrow> int \<Rightarrow> 'a tcb_tx \<Rightarrow> tcb_row list \<Rightarrow> (enclave_error + 'a) \<times> tcb_row list" where
  "after_initialize env now t rows =
     (case run_tx (initialize env now) rows of
        (Inl e, rows') \<Rightarrow> (Inl e, rows')
      | (Inr _, rows') \<Rightarrow> run_tx t rows')"

section \<open>What each operation does to the rows\<close>

lemma checked_Inr: "checked rows = Inr rows' \<longleftrightarrow> constraints_ok rows \<and> rows' = rows"
  by (auto simp: checked_def)

lemma activeRow_Inr:
  assumes "activeRow rows = Inr a"
  shows "filter active rows = [a]" and "a \<in> set rows" and "active a"
    and "r \<in> set rows \<Longrightarrow> active r \<Longrightarrow> r = a"
proof -
  from assms show f: "filter active rows = [a]"
    by (auto simp: activeRow_def split: list.splits if_splits)
  then have "a \<in> set (filter active rows)" by simp
  then show "a \<in> set rows" and "active a" by simp_all
  show "r = a" if "r \<in> set rows" "active r"
  proof -
    from that have "r \<in> set (filter active rows)" by simp
    with f show ?thesis by simp
  qed
qed

lemma activeRow_some:
  assumes "activeRow rows = Inr a"
  shows "list_ex active rows"
  using activeRow_Inr(2,3) [OF assms] by (auto simp: list_ex_iff)

lemma initialize_cases:
  assumes "initialize env now rows = Inr (u, rows')"
  obtains (unchanged) a where "rows' = rows" and "activeRow rows = Inr a"
  | (seeded) r where "tcbPolicyRecord (te_crypto env) (te_bootstrap env) = Inr r"
      and "\<forall>q \<in> set rows. never_activated q"
      and "\<exists>q \<in> set rows. JInt (tc_version q) = tr_version r" and "constraints_ok rows'"
      and "rows' = update_rows (\<lambda>q. tc_version q = int_of (tr_version r))
             (legacy_patch (te_bootstrap env) r now) rows"
  | (inserted) r where "tcbPolicyRecord (te_crypto env) (te_bootstrap env) = Inr r"
      and "\<forall>q \<in> set rows. never_activated q" and "constraints_ok rows'"
      and "\<forall>q \<in> set rows. JInt (tc_version q) \<noteq> tr_version r"
      and "rows' = rows @ [legacy_patch (te_bootstrap env) r now (new_row r now)]"
proof -
  from assms obtain r where r: "tcbPolicyRecord (te_crypto env) (te_bootstrap env) = Inr r"
    and seed: "seed_rows env now r (select_row (\<lambda>row. JInt (tc_version row) = tr_version r) rows) rows
         = Inr (u, rows')"
    unfolding initialize_def Let_def by (elim rbind_InrE) auto
  show ?thesis
  proof (cases "list_ex active rows")
    case True
    with seed unchanged show ?thesis by (auto simp: seed_rows_def rmap_Inr_iff)
  next
    case inactive: False
    with seed have never: "\<forall>q \<in> set rows. never_activated q"
      by (auto simp: seed_rows_def list_ex_iff split: if_splits)
    then have "\<not> list_ex (\<lambda>row. \<not> never_activated row) rows" by (simp add: list_ex_iff)
    with inactive seed have wr: "(case select_row (\<lambda>row. JInt (tc_version row) = tr_version r) rows of
           Some _ \<Rightarrow> tx_update (int_of (tr_version r)) (legacy_patch (te_bootstrap env) r now) rows
         | None \<Rightarrow> tx_insert (legacy_patch (te_bootstrap env) r now (new_row r now)) rows) = Inr rows'"
      by (auto simp: seed_rows_def rmap_Inr_iff)
    show ?thesis
    proof (cases "select_row (\<lambda>row. JInt (tc_version row) = tr_version r) rows")
      case None
      with wr inserted [OF r never] show ?thesis
        by (simp add: tx_insert_def checked_Inr row_simps)
    next
      case (Some q)
      from select_row_Some [OF Some] have "\<exists>q \<in> set rows. JInt (tc_version q) = tr_version r" by blast
      with wr Some seeded [OF r never] show ?thesis by (simp add: tx_update_def checked_Inr)
    qed
  qed
qed

lemma proposal_collision_Inr: "proposal_collision env policy c = Inr u \<longleftrightarrow> c = None"
  by (auto simp: proposal_collision_def rbind_Inr_iff split: option.splits if_splits)

definition proposed_row :: "tcb_record \<Rightarrow> tcb_policy \<Rightarrow> string \<Rightarrow> int \<Rightarrow> tcb_row" where
  "proposed_row r policy key now =
     (new_row r now)\<lparr>tc_policyJson := Some (policy_json policy), tc_proposalKey := Some key\<rparr>"

lemma new_proposal_Inr:
  assumes "new_proposal env now cur policy key rows = Inr ((p, s), rows')"
  obtains r where "tcbPolicyRecord (te_crypto env) policy = Inr r"
    and "rows' = rows @ [proposed_row r policy key now]" and "constraints_ok rows'"
    and "\<forall>q \<in> set rows. JInt (tc_version q) \<noteq> tp_version policy"
    and "tc_version cur < int_of (tp_version policy)"
    and "tp_version policy = JInt (int_of (tp_version policy))"
    and "policyState (te_crypto env) cur = Inr p"
proof -
  from assms obtain r where valid: "versionValid (tp_version policy) = Inr ()"
    and r: "tcbPolicyRecord (te_crypto env) policy = Inr r"
    and none: "proposal_collision env policy (select_row (\<lambda>row. JInt (tc_version row) = tp_version policy) rows) = Inr ()"
    and newer: "tc_version cur < int_of (tp_version policy)"
    and ins: "tx_insert ((new_row r now)\<lparr>tc_policyJson := Some (policy_json policy),
         tc_proposalKey := Some key\<rparr>) rows = Inr rows'"
    and p: "policyState (te_crypto env) cur = Inr p"
    unfolding new_proposal_def by (elim rbind_InrE) (auto simp: require_Inr_iff)
  have "tp_version policy = JInt (int_of (tp_version policy))"
    using valid by (intro safe_version_JInt) (simp add: versionValid_def split: if_splits)
  moreover have "rows' = rows @ [proposed_row r policy key now]" "constraints_ok rows'"
    using ins by (simp_all add: tx_insert_def checked_Inr proposed_row_def)
  moreover have "\<forall>q \<in> set rows. JInt (tc_version q) \<noteq> tp_version policy"
    using none by (simp add: proposal_collision_Inr row_simps)
  ultimately show ?thesis using that r newer p by blast
qed

lemma propose_cases:
  assumes "propose env now img options rows = Inr ((p, s), rows')"
  obtains (unchanged) a where "rows' = rows" and "activeRow rows = Inr a"
      and "policyState (te_crypto env) a = Inr p"
  | (inserted) a r policy key where "activeRow rows = Inr a" and "policyState (te_crypto env) a = Inr p"
      and "tcbPolicyRecord (te_crypto env) policy = Inr r"
      and "tp_servingImageId policy = img" and "rows' = rows @ [proposed_row r policy key now]"
      and "constraints_ok rows'" and "\<forall>q \<in> set rows. JInt (tc_version q) \<noteq> tp_version policy"
      and "tc_version a < int_of (tp_version policy)"
      and "tp_version policy = JInt (int_of (tp_version policy))"
proof -
  from assms obtain a proposed key where a: "activeRow rows = Inr a"
    and body: "(case select_row (\<lambda>row. tc_proposalKey row = Some key) rows of
         Some repeated \<Rightarrow> repeated_proposal env a img options repeated rows
       | None \<Rightarrow>
           new_proposal env now a
             \<lparr>tp_version = (case po_version options of Some v \<Rightarrow> v | None \<Rightarrow> JInt (max_version rows + 1)),
              tp_servingImageId = img, tp_requireCpuTee = True, tp_requireGpuCc = True\<rparr> key rows) = Inr ((p, s), rows')"
    unfolding propose_def by (elim rbind_InrE) auto
  show ?thesis
  proof (cases "select_row (\<lambda>row. tc_proposalKey row = Some key) rows")
    case (Some q)
    with body unchanged [OF _ a] show ?thesis
      by (auto simp: repeated_proposal_def rbind_Inr_iff split: if_splits)
  next
    case None
    with body have "new_proposal env now a
             \<lparr>tp_version = (case po_version options of Some v \<Rightarrow> v | None \<Rightarrow> JInt (max_version rows + 1)),
              tp_servingImageId = img, tp_requireCpuTee = True, tp_requireGpuCc = True\<rparr> key rows = Inr ((p, s), rows')"
      by simp
    then show ?thesis
      by (rule new_proposal_Inr) (rule inserted [OF a], assumption+, simp, assumption+)
  qed
qed

lemma switch_active_Inr:
  assumes "switch_active env now version key h cur target rows = Inr (res, rows')"
  obtains state binding where "policyState (te_crypto env) target = Inr state"
    and "binding_for env state version = Inr binding" and "\<not> ar_alreadyActive res"
    and "rows' = update_rows (\<lambda>q. tc_version q = int_of version) (activation_patch state key h binding now)
             (update_rows (\<lambda>q. tc_version q = tc_version cur) (\<lambda>q. q\<lparr>tc_status := ''retired''\<rparr>) rows)"
    and "constraints_ok rows'" and "policyState (te_crypto env) cur = Inr (ar_previous res)"
    and "\<exists>saved. select_row (\<lambda>row. JInt (tc_version row) = version) rows' = Some saved
       \<and> policyState (te_crypto env) saved = Inr (ar_active res)"
  using assms that unfolding switch_active_def
  by (elim rbind_InrE) (auto simp: tx_update_def checked_Inr of_option_Inr_iff)

lemma activate_cases:
  assumes "activate env now version expected key_opt rows = Inr (res, rows')"
  obtains (unchanged) a t where "rows' = rows" and "ar_alreadyActive res" and "activeRow rows = Inr a"
      and "t \<in> set rows" and "active t" and "JInt (tc_version t) = version"
  | (activated) a t state binding where "activeRow rows = Inr a" and "t \<in> set rows"
      and "JInt (tc_version t) = version" and "tc_status t = ''pending''" and "tc_version a < tc_version t"
      and "JInt (tc_version a) = expected" and "policyState (te_crypto env) t = Inr state"
      and "binding_for env state version = Inr binding"
      and "rows' = update_rows (\<lambda>q. tc_version q = tc_version t)
             (activation_patch state (activation_key version expected key_opt)
                (activation_hash (te_crypto env) (tc_version t) (tc_version a)) binding now)
             (update_rows (\<lambda>q. tc_version q = tc_version a) (\<lambda>q. q\<lparr>tc_status := ''retired''\<rparr>) rows)"
      and "constraints_ok rows'" and "\<not> ar_alreadyActive res"
      and "policyState (te_crypto env) a = Inr (ar_previous res)"
      and "\<exists>saved. select_row (\<lambda>row. JInt (tc_version row) = version) rows' = Some saved
         \<and> policyState (te_crypto env) saved = Inr (ar_active res)"
proof -
  let ?key = "activation_key version expected key_opt"
  let ?h = "activation_hash (te_crypto env) (int_of version) (int_of expected)"
  from assms obtain a t where a: "activeRow rows = Inr a"
    and sel: "select_row (\<lambda>row. JInt (tc_version row) = version) rows = Some t"
    and body: "activate_target env now version expected ?key ?h a t rows = Inr (res, rows')"
    unfolding activate_def Let_def
    by (elim rbind_InrE) (auto simp: mutationKey_def of_option_Inr_iff split: if_splits)
  note t = select_row_Some [OF sel]
  show ?thesis
  proof (cases "active t \<and> tc_activationKey t = Some ?key")
    case True
    with body unchanged [OF _ _ a] t show ?thesis
      by (auto simp: activate_target_def repeated_activation_def rbind_Inr_iff)
  next
    case False
    with body have facts: "JInt (tc_version a) = expected" "tc_status t = ''pending''" "tc_version a < int_of version"
      and sw: "switch_active env now version ?key ?h a t rows = Inr (res, rows')"
      by (auto simp: activate_target_def split: if_splits)
    have v: "int_of version = tc_version t" "int_of expected = tc_version a"
      using t facts(1) by auto
    from sw show ?thesis
      by (rule switch_active_Inr) (rule activated [OF a], use t facts v in auto)
  qed
qed

section \<open>The lifecycle as a transition system\<close>

inductive tcb_step :: "tcb_env \<Rightarrow> tcb_row list \<Rightarrow> tcb_row list \<Rightarrow> bool" for env :: tcb_env where
  step_initialize: "initialize env now rows = Inr (u, rows') \<Longrightarrow> tcb_step env rows rows'"
| step_propose: "propose env now img options rows = Inr (ps, rows') \<Longrightarrow> tcb_step env rows rows'"
| step_activate: "activate env now version expected key rows = Inr (res, rows') \<Longrightarrow> tcb_step env rows rows'"

definition tcb_start :: "tcb_row list \<Rightarrow> bool" where
  "tcb_start rows \<longleftrightarrow> constraints_ok rows \<and> list_all never_activated rows"

abbreviation retired :: "tcb_row \<Rightarrow> bool" where
  "retired r \<equiv> tc_status r = ''retired''"

definition tcb_ok :: "tcb_row list \<Rightarrow> bool" where
  "tcb_ok rows \<longleftrightarrow> constraints_ok rows
     \<and> (\<forall>r \<in> set rows. tc_status r \<in> {''pending'', ''active'', ''retired''})
     \<and> (\<forall>a \<in> set rows. \<forall>r \<in> set rows. active a \<longrightarrow> active r \<longrightarrow> a = r)
     \<and> (\<forall>a \<in> set rows. \<forall>r \<in> set rows. active a \<longrightarrow> retired r \<longrightarrow> tc_version r < tc_version a)
     \<and> ((\<exists>r \<in> set rows. retired r) \<longrightarrow> (\<exists>a \<in> set rows. active a))"

definition status_rank :: "string \<Rightarrow> nat" where
  "status_rank s = (if s = ''pending'' then 0 else if s = ''active'' then 1 else 2)"

text \<open>What history keeps: rows and their software, statuses only move forward, and so does the
  version that serves.\<close>

definition row_kept :: "tcb_row \<Rightarrow> tcb_row \<Rightarrow> bool" where
  "row_kept r r' \<longleftrightarrow> tc_version r' = tc_version r \<and> tc_servingImageId r' = tc_servingImageId r
     \<and> tc_measurement r' = tc_measurement r \<and> status_rank (tc_status r) \<le> status_rank (tc_status r')"

definition tcb_keeps :: "tcb_row list \<Rightarrow> tcb_row list \<Rightarrow> bool" where
  "tcb_keeps rows rows' \<longleftrightarrow>
     (\<forall>r \<in> set rows. \<exists>r' \<in> set rows'. row_kept r r')
     \<and> (\<forall>a \<in> set rows. active a \<longrightarrow> (\<exists>a' \<in> set rows'. active a' \<and> tc_version a \<le> tc_version a'))"

lemma row_kept_refl [simp]: "row_kept r r"
  by (simp add: row_kept_def)

lemma row_kept_trans: "row_kept q r \<Longrightarrow> row_kept r s \<Longrightarrow> row_kept q s"
  by (simp add: row_kept_def)

lemma tcb_keeps_append: "tcb_keeps rows (rows @ new)"
  unfolding tcb_keeps_def by (auto intro: row_kept_refl)

lemma tcb_keeps_refl: "tcb_keeps rows rows"
  using tcb_keeps_append [of rows "[]"] by simp

lemma tcb_keeps_trans:
  assumes "tcb_keeps s t" and "tcb_keeps t u"
  shows "tcb_keeps s u"
  unfolding tcb_keeps_def
proof (intro conjI ballI impI)
  show "\<exists>r' \<in> set u. row_kept r r'" if "r \<in> set s" for r
    using assms that unfolding tcb_keeps_def by (meson row_kept_trans)
  show "\<exists>a' \<in> set u. active a' \<and> tc_version a \<le> tc_version a'" if "a \<in> set s" "active a" for a
    using assms that unfolding tcb_keeps_def by (meson order_trans)
qed

lemma constraints_version: "constraints_ok rows \<Longrightarrow> q \<in> set rows \<Longrightarrow> r \<in> set rows \<Longrightarrow> tc_version q = tc_version r \<Longrightarrow> q = r"
  using unique_key_eq by (auto simp: constraints_ok_def)

text \<open>The rows after a switch from \<open>a\<close> to the pending row \<open>t\<close>.\<close>

lemma switched_rows:
  assumes "constraints_ok rows" and "a \<in> set rows" and "t \<in> set rows" and "tc_version a < tc_version t"
    and "\<And>r. tc_version (patch r) = tc_version r"
  shows "r \<in> set (update_rows (\<lambda>q. tc_version q = tc_version t) patch
             (update_rows (\<lambda>q. tc_version q = tc_version a) (\<lambda>q. q\<lparr>tc_status := ''retired''\<rparr>) rows))
     \<longleftrightarrow> r = patch t \<or> r = a\<lparr>tc_status := ''retired''\<rparr> \<or> (r \<in> set rows \<and> r \<noteq> t \<and> r \<noteq> a)"
proof -
  let ?rows1 = "update_rows (\<lambda>q. tc_version q = tc_version a) (\<lambda>q. q\<lparr>tc_status := ''retired''\<rparr>) rows"
  have u: "unique_key tc_version rows" using assms(1) by (simp add: constraints_ok_def)
  then have u1: "unique_key tc_version ?rows1" by (subst unique_key_update) auto
  have one: "x \<in> set ?rows1 \<longleftrightarrow> x = a\<lparr>tc_status := ''retired''\<rparr> \<or> (x \<in> set rows \<and> x \<noteq> a)" for x
    using u assms(2) by (rule set_update_key)
  have "t \<in> set ?rows1" using assms(3,4) by (auto simp: one)
  from set_update_key [OF u1 this, of r patch] assms(4) show ?thesis by (auto simp: one)
qed

lemma patched [simp]:
  "tc_version (activation_patch state key h b now r) = tc_version r"
  "tc_status (activation_patch state key h b now r) = ''active''"
  "tc_servingImageId (activation_patch state key h b now r) = tc_servingImageId r"
  "tc_measurement (activation_patch state key h b now r) = tc_measurement r"
  "tc_version (legacy_patch policy rec now r) = tc_version r"
  "tc_status (legacy_patch policy rec now r) = ''active''"
  "tc_servingImageId (legacy_patch policy rec now r) = tc_servingImageId r"
  "tc_measurement (legacy_patch policy rec now r) = tc_measurement r"
  by (simp_all add: activation_patch_def legacy_patch_def)

lemma proposed [simp]:
  "tc_version (proposed_row rec policy key now) = int_of (tr_version rec)"
  "tc_status (proposed_row rec policy key now) = ''pending''"
  by (simp_all add: proposed_row_def new_row_def)

lemma initialize_preserves:
  assumes "tcb_ok rows" and "initialize env now rows = Inr (u, rows')"
  shows "tcb_ok rows' \<and> tcb_keeps rows rows'"
  using assms(2)
proof (cases rule: initialize_cases)
  case unchanged
  with assms(1) show ?thesis by (simp add: tcb_keeps_refl)
next
  case (seeded r)
  let ?v = "int_of (tr_version r)"
  from seeded(3) obtain q where q: "q \<in> set rows" "JInt (tc_version q) = tr_version r" by blast
  then have qv: "tc_version q = ?v" by (metis int_of.simps(1))
  have one: "tc_version x = ?v \<longleftrightarrow> x = q" if "x \<in> set rows" for x
    using constraints_version [OF _ that q(1)] assms(1) qv by (auto simp: tcb_ok_def)
  have pending: "tc_status x = ''pending''" if "x \<in> set rows" for x
    using seeded(2) that by (simp add: never_activated_def)
  have mem: "x \<in> set rows' \<longleftrightarrow> x = legacy_patch (te_bootstrap env) r now q \<or> (x \<in> set rows \<and> x \<noteq> q)" for x
    using q(1) one by (auto simp: seeded(5) set_update_rows)
  have "tcb_ok rows'"
    using seeded(4) pending by (auto simp: tcb_ok_def mem)
  moreover have "\<exists>x' \<in> set rows'. row_kept x x'" if x: "x \<in> set rows" for x
  proof (cases "x = q")
    case True
    with pending [OF x] have "row_kept x (legacy_patch (te_bootstrap env) r now q)"
      by (simp add: row_kept_def status_rank_def)
    then show ?thesis using mem by blast
  next
    case False
    with x mem row_kept_refl [of x] show ?thesis by blast
  qed
  ultimately show ?thesis using pending by (auto simp: tcb_keeps_def)
next
  case (inserted r)
  have pending: "tc_status x = ''pending''" if "x \<in> set rows" for x
    using inserted(2) that by (simp add: never_activated_def)
  with inserted(3,5) have "tcb_ok rows'" by (auto simp: tcb_ok_def)
  with inserted(5) show ?thesis by (simp add: tcb_keeps_append)
qed

lemma propose_preserves:
  assumes "tcb_ok rows" and "propose env now img options rows = Inr (ps, rows')"
  shows "tcb_ok rows' \<and> tcb_keeps rows rows'"
proof -
  obtain p s where "ps = (p, s)" by (cases ps)
  with assms(2) have "propose env now img options rows = Inr ((p, s), rows')" by simp
  then show ?thesis
  proof (cases rule: propose_cases)
    case unchanged
    with assms(1) show ?thesis by (simp add: tcb_keeps_refl)
  next
    case inserted
    with assms(1) have "tcb_ok rows'" unfolding tcb_ok_def by auto
    with inserted(5) show ?thesis by (simp add: tcb_keeps_append)
  qed
qed

lemma activate_preserves:
  assumes "tcb_ok rows" and "activate env now version expected key rows = Inr (res, rows')"
  shows "tcb_ok rows' \<and> tcb_keeps rows rows'"
  using assms(2)
proof (cases rule: activate_cases)
  case unchanged
  with assms(1) show ?thesis by (simp add: tcb_keeps_refl)
next
  case (activated a t state binding)
  let ?patch = "activation_patch state (activation_key version expected key)
      (activation_hash (te_crypto env) (tc_version t) (tc_version a)) binding now"
  note a = activeRow_Inr [OF activated(1)]
  have mem: "r \<in> set rows' \<longleftrightarrow> r = ?patch t \<or> r = a\<lparr>tc_status := ''retired''\<rparr>
      \<or> (r \<in> set rows \<and> r \<noteq> t \<and> r \<noteq> a)" for r
    unfolding activated(9) using assms(1) a(2) activated(2,5)
    by (intro switched_rows) (auto simp: tcb_ok_def)
  have no_active: "\<not> active r" if "r \<in> set rows" "r \<noteq> a" for r
    using a(4) that by blast
  have older: "tc_version r < tc_version a" if "r \<in> set rows" "retired r" for r
    using assms(1) a(2,3) that unfolding tcb_ok_def by blast
  have "tcb_ok rows'"
    unfolding tcb_ok_def
  proof (intro conjI)
    show "\<forall>x \<in> set rows'. \<forall>r \<in> set rows'. active x \<longrightarrow> retired r \<longrightarrow> tc_version r < tc_version x"
      using no_active older activated(5) by (force simp: mem)
    show "\<forall>x \<in> set rows'. \<forall>r \<in> set rows'. active x \<longrightarrow> active r \<longrightarrow> x = r"
      using no_active by (auto simp: mem)
    show "\<forall>r \<in> set rows'. tc_status r \<in> {''pending'', ''active'', ''retired''}"
      using assms(1) by (auto simp: mem tcb_ok_def)
    show "(\<exists>r \<in> set rows'. retired r) \<longrightarrow> (\<exists>x \<in> set rows'. active x)"
      using mem [of "?patch t"] patched(2) by blast
  qed (rule activated(10))
  moreover have "\<exists>x' \<in> set rows'. row_kept x x'" if x: "x \<in> set rows" for x
  proof (cases "x = t \<or> x = a")
    case True
    with activated(4) a(3) have "row_kept x (?patch t) \<or> row_kept x (a\<lparr>tc_status := ''retired''\<rparr>)"
      by (auto simp: row_kept_def status_rank_def)
    then show ?thesis using mem by blast
  next
    case False
    with x show ?thesis by (intro bexI [of _ x]) (auto simp: mem)
  qed
  moreover have "\<exists>x' \<in> set rows'. active x' \<and> tc_version x \<le> tc_version x'"
    if "x \<in> set rows" "active x" for x
  proof -
    from no_active [of x] that have "x = a" by blast
    with activated(5) show ?thesis by (intro bexI [of _ "?patch t"]) (simp_all add: mem)
  qed
  ultimately show ?thesis by (auto simp: tcb_keeps_def)
qed

lemma tcb_step_preserves: "tcb_ok rows \<Longrightarrow> tcb_step env rows rows' \<Longrightarrow> tcb_ok rows' \<and> tcb_keeps rows rows'"
  by (erule tcb_step.cases) (blast dest: initialize_preserves propose_preserves activate_preserves)+

interpretation tcb: history_system tcb_start "tcb_step env" tcb_ok tcb_keeps for env
proof
  show "tcb_ok s" if "tcb_start s" for s
    using that by (auto simp: tcb_start_def tcb_ok_def list_all_iff never_activated_def)
qed (use tcb_step_preserves tcb_keeps_refl tcb_keeps_trans in \<open>blast+\<close>)

section \<open>A concrete history\<close>

lemma policyOf_consistent:
  assumes "valid_policy p" and "tc_policyJson row = Some (policy_json p)"
    and "tp_version p = JInt (tc_version row)" and "tc_servingImageId row = tp_servingImageId p"
    and "tc_measurement row = measurementOf cx p"
    and "tc_policyHash row = Some (sha256HexText (cx_sha cx) (stringify (policy_json p)))"
  shows "policyOf cx row = Inr p"
  using assms
  by (simp add: policyOf_def row_policy_json_def parse_policy_json tcbPolicyRecord_def tcbPolicyHash_def
      canonicalTcbPolicy_def)

lemma policyState_Inr:
  "policyState cx row = Inr s \<longleftrightarrow> tc_status row \<in> {''pending'', ''active'', ''retired''} \<and>
     (\<exists>p r. policyOf cx row = Inr p \<and> tcbPolicyRecord cx p = Inr r \<and>
       s = \<lparr>st_record = r, st_policy = p, st_status = tc_status row,
            st_binding = (case tc_activationMode row of Some m \<Rightarrow> m | None \<Rightarrow> ''unapproved''),
            st_scope = tc_activationScope row, st_activatedAt = tc_activatedAt row,
            st_createdAt = tc_createdAt row\<rparr>)"
  by (auto simp: policyState_def rbind_Inr_iff rmap_Inr_iff)

definition demo_policy2 :: tcb_policy where
  "demo_policy2 = demo_policy\<lparr>tp_version := JInt 2, tp_servingImageId := ''img2''\<rparr>"

definition demo_record :: "tcb_policy \<Rightarrow> tcb_record" where
  "demo_record p = \<lparr>tr_version = tp_version p, tr_servingImageId = tp_servingImageId p,
     tr_measurement = measurementOf demo_crypto p,
     tr_policyHash = sha256HexText (cx_sha demo_crypto) (stringify (policy_json p))\<rparr>"

definition demo_env :: tcb_env where
  "demo_env = \<lparr>te_crypto = demo_crypto, te_bootstrap = demo_policy, te_modelHash = ''m'',
     te_localFixture = True, te_approve = (\<lambda>_ _ _ _. Inl unavailable)\<rparr>"

definition demo_first :: tcb_row where
  "demo_first = legacy_patch demo_policy (demo_record demo_policy) 10 (new_row (demo_record demo_policy) 10)"

definition demo_second :: tcb_row where
  "demo_second = proposed_row (demo_record demo_policy2) demo_policy2 ''k'' 20"

definition demo_options :: proposal_options where
  "demo_options = \<lparr>po_version = None, po_idempotencyKey = Some ''k''\<rparr>"

lemma demo_policies: "valid_policy demo_policy" "valid_policy demo_policy2"
  by (simp_all add: valid_policy_def demo_policy_def demo_policy2_def is_safe_integer_def max_safe_def
      blank_def is_space_def is_control_def)

lemma demo_records:
  "tcbPolicyRecord demo_crypto demo_policy = Inr (demo_record demo_policy)"
  "tcbPolicyRecord demo_crypto demo_policy2 = Inr (demo_record demo_policy2)"
  using demo_policies by (simp_all add: tcbPolicyRecord_Inr demo_record_def)

lemma demo_fields [simp]:
  "tc_version demo_first = 1" "tc_version demo_second = 2" "tc_status demo_first = ''active''"
  "tc_status demo_second = ''pending''" "tc_proposalKey demo_first = None"
  "tc_proposalKey demo_second = Some ''k''" "tc_activationKey demo_first = None"
  "tc_activationKey demo_second = None" "tc_activationMode demo_first = Some ''legacy''"
  "tc_activationMode demo_second = None"
  by (simp_all add: demo_first_def demo_second_def legacy_patch_def new_row_def proposed_row_def
      demo_record_def demo_policy_def demo_policy2_def)

lemma demo_policyOf_first: "policyOf demo_crypto demo_first = Inr demo_policy"
  by (rule policyOf_consistent [OF demo_policies(1)])
     (simp_all add: demo_first_def legacy_patch_def new_row_def demo_record_def demo_policy_def)

lemma demo_policyOf_second: "policyOf demo_crypto demo_second = Inr demo_policy2"
  by (rule policyOf_consistent [OF demo_policies(2)])
     (simp_all add: demo_second_def proposed_row_def new_row_def demo_record_def demo_policy_def demo_policy2_def)

lemmas demo_policyOf = demo_policyOf_first demo_policyOf_second

lemma demo_constraints: "constraints_ok []" "constraints_ok [demo_first]" "constraints_ok [demo_first, demo_second]"
  by (simp_all add: constraints_ok_def unique_key_def unique_opt_def)

lemma demo_initialize: "initialize demo_env 10 [] = Inr ((), [demo_first])"
proof -
  have "versionValid (tp_version demo_policy) = Inr ()"
    by (simp add: versionValid_def demo_policy_def is_safe_integer_def max_safe_def maximum_version_def)
  then show ?thesis
    using demo_constraints(2)
    by (simp add: initialize_def demo_env_def demo_records assertSamePolicy_def seed_rows_def
        tx_insert_def checked_def demo_first_def)
qed

lemma demo_states:
  "\<exists>s. policyState demo_crypto demo_first = Inr s" "\<exists>s. policyState demo_crypto demo_second = Inr s"
  by (simp_all add: policyState_def demo_policyOf demo_records)

lemma demo_activeRow: "activeRow [demo_first] = Inr demo_first" "activeRow [demo_first, demo_second] = Inr demo_first"
  by (simp_all add: activeRow_def)

lemma demo_propose:
  "\<exists>p s. propose demo_env 20 ''img2'' demo_options [demo_first] = Inr ((p, s), [demo_first, demo_second])"
proof -
  have key: "mutationKey ''k'' = Inr ''k''"
    by (simp add: mutationKey_def key_string_def is_letter_def)
  have policy: "\<lparr>tp_version = JInt 2, tp_servingImageId = ''img2'', tp_requireCpuTee = True,
      tp_requireGpuCc = True\<rparr> = demo_policy2"
    by (simp add: demo_policy2_def demo_policy_def)
  have version: "tp_version demo_policy2 = JInt 2" by (simp add: demo_policy2_def)
  have "versionValid (JInt 2) = Inr ()"
    by (simp add: versionValid_def is_safe_integer_def max_safe_def maximum_version_def)
  moreover have "(new_row (demo_record demo_policy2) 20)
      \<lparr>tc_policyJson := Some (policy_json demo_policy2), tc_proposalKey := Some ''k''\<rparr> = demo_second"
    by (simp add: demo_second_def proposed_row_def)
  ultimately show ?thesis
    using demo_states demo_constraints(3)
    by (auto simp: propose_def demo_env_def demo_options_def demo_activeRow proposal_key_def key
        new_proposal_def max_version_def policy version demo_records proposal_collision_def
        tx_insert_def checked_def)
qed

definition demo_third :: tcb_row where
  "demo_third = activation_patch
     \<lparr>st_record = demo_record demo_policy2, st_policy = demo_policy2, st_status = ''pending'',
      st_binding = ''unapproved'', st_scope = None, st_activatedAt = None, st_createdAt = 20\<rparr>
     ''activation:1:2'' (activation_hash demo_crypto 2 1) (''local-fixture'', ''local-fixture:31337'') 30 demo_second"

lemma demo_third_fields [simp]:
  "tc_version demo_third = 2" "tc_proposalKey demo_third = Some ''k''" "tc_status demo_third = ''active''"
  "tc_activationKey demo_third = Some ''activation:1:2''" "tc_activationMode demo_third = Some ''local-fixture''"
  by (simp_all add: demo_third_def) (simp_all add: activation_patch_def)

lemma demo_policyOf_third: "policyOf demo_crypto demo_third = Inr demo_policy2"
  by (rule policyOf_consistent [OF demo_policies(2)])
     (simp_all add: demo_third_def activation_patch_def demo_second_def proposed_row_def new_row_def
       demo_record_def demo_policy_def demo_policy2_def)

definition demo_rows :: "tcb_row list" where
  "demo_rows = [demo_first\<lparr>tc_status := ''retired''\<rparr>, demo_third]"

lemma demo_numerals: "int_dec 1 = ''1''" "int_dec 2 = ''2''"
  by code_simp+

lemma demo_activation_key: "activation_key (JInt 2) (JInt 1) None = ''activation:1:2''"
  by (simp add: activation_key_def demo_numerals)

lemma demo_activate:
  "\<exists>res. activate demo_env 30 (JInt 2) (JInt 1) None [demo_first, demo_second] = Inr (res, demo_rows)
     \<and> \<not> ar_alreadyActive res"
proof -
  have key: "mutationKey ''activation:1:2'' = Inr ''activation:1:2''"
    by (simp add: mutationKey_def key_string_def is_letter_def is_digit_def)
  have valid: "versionValid (JInt 2) = Inr ()" "versionValid (JInt 1) = Inr ()"
    by (simp_all add: versionValid_def is_safe_integer_def max_safe_def maximum_version_def)
  have ok: "constraints_ok [demo_first\<lparr>tc_status := ''retired''\<rparr>, demo_second]" "constraints_ok demo_rows"
    by (simp_all add: constraints_ok_def unique_key_def unique_opt_def demo_rows_def)
  have state: "policyState demo_crypto demo_second = Inr \<lparr>st_record = demo_record demo_policy2,
      st_policy = demo_policy2, st_status = ''pending'', st_binding = ''unapproved'', st_scope = None,
      st_activatedAt = None, st_createdAt = 20\<rparr>"
    by (simp add: policyState_def demo_policyOf demo_records)
       (simp add: demo_second_def proposed_row_def new_row_def)
  have third: "\<exists>s. policyState demo_crypto demo_third = Inr s"
    by (simp add: policyState_def demo_policyOf_third demo_records)
  show ?thesis
    using demo_states(1) ok third
    by (auto simp: activate_def demo_activation_key key valid demo_activeRow activate_target_def demo_env_def
        switch_active_def state binding_for_def tx_update_def checked_def demo_rows_def demo_third_def)
qed

lemma demo_reachable_proposed: "reachable tcb_start (tcb_step demo_env) [demo_first, demo_second]"
proof -
  have "tcb_start []" using demo_constraints(1) by (simp add: tcb_start_def)
  then have "reachable tcb_start (tcb_step demo_env) []" by (rule reachable_start)
  then have "reachable tcb_start (tcb_step demo_env) [demo_first]"
    by (rule reachable_step) (rule step_initialize [OF demo_initialize])
  then show ?thesis using demo_propose by (blast intro: reachable_step step_propose)
qed

lemma demo_reachable: "reachable tcb_start (tcb_step demo_env) demo_rows"
  using demo_reachable_proposed demo_activate by (blast intro: reachable_step step_activate)

section \<open>What the lifecycle guarantees\<close>

lemma filter_unique:
  assumes "distinct xs" and "\<And>a r. a \<in> set xs \<Longrightarrow> r \<in> set xs \<Longrightarrow> P a \<Longrightarrow> P r \<Longrightarrow> a = r"
  shows "length (filter P xs) = (if \<exists>a \<in> set xs. P a then 1 else 0)"
  using assms by (induction xs) (auto simp: filter_empty_conv)

lemma tcb_ok_active_count:
  assumes "tcb_ok rows"
  shows "length (filter active rows) = (if list_all (\<lambda>r. tc_status r = ''pending'') rows then 0 else 1)"
proof -
  from assms have "distinct rows"
    by (auto simp: tcb_ok_def constraints_ok_def unique_key_def distinct_map)
  with assms have "length (filter active rows) = (if \<exists>a \<in> set rows. active a then 1 else 0)"
    by (intro filter_unique) (auto simp: tcb_ok_def)
  moreover have "(\<exists>a \<in> set rows. active a) \<longleftrightarrow> \<not> list_all (\<lambda>r. tc_status r = ''pending'') rows"
  proof
    show "\<exists>a \<in> set rows. active a" if "\<not> list_all (\<lambda>r. tc_status r = ''pending'') rows"
    proof -
      from that obtain r where r: "r \<in> set rows" "tc_status r \<noteq> ''pending''" by (auto simp: list_all_iff)
      with assms have "active r \<or> retired r" by (auto simp: tcb_ok_def)
      with r(1) assms show ?thesis unfolding tcb_ok_def by blast
    qed
  qed (force simp: list_all_iff)
  ultimately show ?thesis by simp
qed

text \<open>
  Claim C3. Whatever sequence of initialisations, proposals and activations has committed, with
  any arguments, exactly one policy row is active as soon as any row has left the pending state
  (none before), and each retired policy has a smaller version than the active one.
\<close>

theorem one_active_policy:
  assumes "reachable tcb_start (tcb_step env) rows"
  shows "length (filter active rows) = (if list_all (\<lambda>r. tc_status r = ''pending'') rows then 0 else 1)
     \<and> (\<forall>a \<in> set rows. \<forall>r \<in> set rows. active a \<longrightarrow> retired r \<longrightarrow> tc_version r < tc_version a)"
  using tcb.inv_reachable [OF assms] tcb_ok_active_count by (simp add: tcb_ok_def)

theorem one_active_policy_witness:
  "length (filter active demo_rows) = (if list_all (\<lambda>r. tc_status r = ''pending'') demo_rows then 0 else 1)"
  using one_active_policy [OF demo_reachable] by blast

text \<open>
  The policy history is append-only and monotone: along any run no row disappears, no
  row's version, image or measurement changes, no status moves backwards (a retired policy never
  serves again), and the version of the active policy never decreases.
\<close>

theorem policy_history_monotone:
  assumes "reachable tcb_start (tcb_step env) rows" and "(tcb_step env)\<^sup>*\<^sup>* rows rows'"
  shows "(\<forall>r \<in> set rows. \<exists>r' \<in> set rows'. tc_version r' = tc_version r
            \<and> tc_servingImageId r' = tc_servingImageId r \<and> tc_measurement r' = tc_measurement r
            \<and> status_rank (tc_status r) \<le> status_rank (tc_status r'))
     \<and> (\<forall>a \<in> set rows. active a \<longrightarrow> (\<exists>a' \<in> set rows'. active a' \<and> tc_version a \<le> tc_version a'))"
  using tcb.keeps_from_reachable [OF assms] by (simp add: tcb_keeps_def row_kept_def)

theorem policy_history_monotone_witness:
  "\<exists>r' \<in> set demo_rows. tc_version r' = tc_version demo_first
     \<and> status_rank (tc_status demo_first) \<le> status_rank (tc_status r')"
proof -
  have "(tcb_step demo_env)\<^sup>*\<^sup>* [demo_first, demo_second] demo_rows"
    using demo_activate by (blast intro: step_activate)
  from policy_history_monotone [OF demo_reachable_proposed this] show ?thesis by auto
qed

text \<open>
  A proposal never changes what is served: the active row, and with it the state
  \<open>current\<close> reports and every admission decision of \<open>assertCurrentTcb\<close>, is the same before and
  after; at most one pending row with a larger version is added.
\<close>

theorem proposal_keeps_serving:
  assumes "propose env now img options rows = Inr ((p, s), rows')"
  shows "filter active rows' = filter active rows \<and> current env rows = Inr p \<and> current env rows' = Inr p
     \<and> is_ok (assertCurrentTcb cx h rows') = is_ok (assertCurrentTcb cx h rows)
     \<and> (rows' = rows \<or> (\<exists>r. rows' = rows @ [r] \<and> tc_status r = ''pending''
           \<and> (\<forall>a \<in> set rows. active a \<longrightarrow> tc_version a < tc_version r)))"
  using assms
proof (cases rule: propose_cases)
  case (unchanged a)
  then show ?thesis by (simp add: current_def)
next
  case (inserted a r policy key)
  have newer: "tc_version x < int_of (tr_version r)" if "x \<in> set rows" "active x" for x
    using inserted(3,8) activeRow_Inr(4) [OF inserted(1) that] by (simp add: tcbPolicyRecord_Inr)
  have act: "filter active rows' = filter active rows" by (simp add: inserted(5))
  then have "activeRow rows' = activeRow rows" by (simp add: activeRow_def)
  with act inserted(1,2,5) newer show ?thesis
    by (auto simp: current_def assertCurrentTcb_def rbind_def is_ok_def split: sum.splits)
qed

theorem proposal_keeps_serving_witness:
  "\<exists>p s. propose demo_env 20 ''img2'' demo_options [demo_first] = Inr ((p, s), [demo_first, demo_second])
     \<and> current demo_env [demo_first, demo_second] = Inr p"
  using demo_propose proposal_keeps_serving [where cx = demo_crypto and h = "[]"] by blast

text \<open>The approval a lifecycle may be built with: only the on-chain mode.\<close>

definition approves_onchain :: "tcb_env \<Rightarrow> bool" where
  "approves_onchain env \<longleftrightarrow> (\<forall>m c h v a. te_approve env m c h v = Inr a \<longrightarrow> ta_mode a = ''onchain'')"

lemma verifyTcbApproval_onchain: "verifyTcbApproval rpc m c h v = Inr a \<Longrightarrow> ta_mode a = ''onchain''"
  by (auto simp: verifyTcbApproval_def assertApproved_def rbind_Inr_iff split: if_splits prod.splits)

lemma select_key_activation:
  assumes "constraints_ok rows" and "t \<in> set rows" and "tc_activationKey t = Some key"
  shows "select_row (\<lambda>r. tc_activationKey r = Some key) rows = Some t"
proof (cases "select_row (\<lambda>r. tc_activationKey r = Some key) rows")
  case None
  with assms(2,3) show ?thesis by (auto simp: row_simps)
next
  case (Some q)
  have "unique_opt tc_activationKey rows" using assms(1) by (simp add: constraints_ok_def)
  from unique_opt_eq [OF this _ assms(2) _ assms(3)] select_row_Some [OF Some] have "q = t" by simp
  with Some show ?thesis by simp
qed

lemma activated_row:
  assumes "tcb_ok rows" and "activate env now version expected key rows = Inr (res, rows')"
    and "\<not> ar_alreadyActive res" and "approves_onchain env"
  obtains t where "activeRow rows' = Inr t" and "JInt (tc_version t) = version"
    and "tc_activationKey t = Some (activation_key version expected key)"
    and "tc_activationRequestHash t = Some (activation_hash (te_crypto env) (int_of version) (int_of expected))"
    and "t \<in> set rows'" and "constraints_ok rows'"
    and "select_row (\<lambda>row. JInt (tc_version row) = version) rows' = Some t"
    and "policyState (te_crypto env) t = Inr (ar_active res)"
  using assms(2)
proof (cases rule: activate_cases)
  case unchanged
  with assms(3) show ?thesis by simp
next
  case (activated a t state binding)
  let ?h = "activation_hash (te_crypto env) (tc_version t) (tc_version a)"
  let ?t = "activation_patch state (activation_key version expected key) ?h binding now t"
  have ok: "tcb_ok rows'" using activate_preserves [OF assms(1,2)] by simp
  note a = activeRow_Inr [OF activated(1)]
  have mem: "r \<in> set rows' \<longleftrightarrow> r = ?t \<or> r = a\<lparr>tc_status := ''retired''\<rparr>
      \<or> (r \<in> set rows \<and> r \<noteq> t \<and> r \<noteq> a)" for r
    unfolding activated(9) using assms(1) a(2) activated(2,5)
    by (intro switched_rows) (auto simp: tcb_ok_def)
  then have t': "?t \<in> set rows'" by simp
  with ok have "\<not> list_all (\<lambda>r. tc_status r = ''pending'') rows'"
    by (auto simp: list_all_iff intro!: bexI [of _ ?t])
  with tcb_ok_active_count [OF ok] obtain x where x: "filter active rows' = [x]"
    by (auto simp: length_Suc_conv)
  have "?t \<in> set (filter active rows')" using t' by simp
  with x have "filter active rows' = [?t]" by simp
  moreover have mode: "fst binding \<in> {''onchain'', ''local-fixture''}"
    using activated(8) assms(4)
    by (auto simp: binding_for_def approves_onchain_def rmap_Inr_iff split: if_splits)
  ultimately have "activeRow rows' = Inr ?t"
    by (auto simp: activeRow_def activation_patch_def)
  moreover have "int_of version = tc_version t" "int_of expected = tc_version a"
    using activated(3,6) by auto
  moreover have "select_row (\<lambda>row. JInt (tc_version row) = version) rows' = Some ?t"
  proof -
    have eq: "(\<lambda>row. JInt (tc_version row) = version) = (\<lambda>row. tc_version row = tc_version ?t)"
      using activated(3) by auto
    have "unique_key tc_version rows'" using activated(10) by (simp add: constraints_ok_def)
    then show ?thesis unfolding eq using t' by (rule select_row_key)
  qed
  ultimately show ?thesis
    using that [of ?t] t' activated(3,10,13) by (simp add: activation_patch_def)
qed

text \<open>
  Activation is idempotent by key: after an activation has committed, the same request
  (same versions, same key, at any later time on these rows) returns the active policy with
  \<open>alreadyActive\<close> and writes nothing, although the expected version is no longer active.
\<close>

theorem activation_idempotent:
  assumes "tcb_ok rows" and "approves_onchain env"
    and "activate env now version expected key rows = Inr (res, rows')"
  shows "\<exists>res'. activate env now' version expected key rows' = Inr (res', rows')
     \<and> ar_alreadyActive res' \<and> (\<not> ar_alreadyActive res \<longrightarrow> ar_active res' = ar_active res)"
proof (cases "ar_alreadyActive res")
  case True
  from assms(3) True have "rows' = rows"
    by (cases rule: activate_cases) auto
  moreover have "activate env now' version expected key rows = Inr (res, rows)"
    using assms(3) True calculation unfolding activate_def Let_def
    by (elim rbind_InrE) (auto simp: activate_target_def switch_active_def rbind_Inr_iff split: if_splits)
  ultimately show ?thesis using True by blast
next
  case False
  obtain t where t: "activeRow rows' = Inr t" "JInt (tc_version t) = version"
    "tc_activationKey t = Some (activation_key version expected key)"
    "tc_activationRequestHash t = Some (activation_hash (te_crypto env) (int_of version) (int_of expected))"
    "t \<in> set rows'" "constraints_ok rows'"
    and sel: "select_row (\<lambda>row. JInt (tc_version row) = version) rows' = Some t"
    and st: "policyState (te_crypto env) t = Inr (ar_active res)"
    using assms(1,3) False assms(2) by (rule activated_row)
  from assms(3) have pre: "versionValid version = Inr ()" "versionValid expected = Inr ()"
    "mutationKey (activation_key version expected key) = Inr (activation_key version expected key)"
    by (auto simp: activate_def Let_def mutationKey_def rbind_Inr_iff split: if_splits)
  have "activate_target env now' version expected (activation_key version expected key)
       (activation_hash (te_crypto env) (int_of version) (int_of expected)) t t rows'
     = Inr (\<lparr>ar_previous = ar_active res, ar_active = ar_active res, ar_alreadyActive = True\<rparr>, rows')"
    using activeRow_Inr(3) [OF t(1)] t(3) st by (simp add: activate_target_def repeated_activation_def)
  then have "activate env now' version expected key rows'
     = Inr (\<lparr>ar_previous = ar_active res, ar_active = ar_active res, ar_alreadyActive = True\<rparr>, rows')"
    using pre t(1,2,4) sel select_key_activation [OF t(6,5,3)] by (simp add: activate_def)
  then show ?thesis by simp
qed

theorem activation_idempotent_witness:
  "\<exists>res'. activate demo_env 99 (JInt 2) (JInt 1) None demo_rows = Inr (res', demo_rows) \<and> ar_alreadyActive res'"
proof -
  have "approves_onchain demo_env" by (simp add: approves_onchain_def demo_env_def)
  with demo_activate tcb.inv_reachable [OF demo_reachable_proposed] activation_idempotent show ?thesis
    by meson
qed

lemma assertCurrentTcb_Inr:
  "assertCurrentTcb cx h rows = Inr (u, rows') \<longleftrightarrow> rows' = rows \<and>
     (\<exists>a s. activeRow rows = Inr a \<and> policyState cx a = Inr s \<and> tr_policyHash (st_record s) = h)"
  by (auto simp: assertCurrentTcb_def rbind_Inr_iff split: if_splits)

lemma policyState_fields:
  assumes "policyState cx row = Inr s"
  shows "valid_policy (st_policy s)" and "tp_version (st_policy s) = JInt (tc_version row)"
    and "tr_policyHash (st_record s) = sha256HexText (cx_sha cx) (stringify (policy_json (st_policy s)))"
  using assms
  by (auto simp: policyState_Inr policyOf_def rbind_Inr_iff tcbPolicyRecord_Inr split: if_splits)

text \<open>
  Activating another policy closes every session admitted under the old one: a policy
  hash that \<open>assertCurrentTcb\<close> accepted before the activation is refused with a conflict after it,
  provided SHA-256 does not collide on the two canonical policies.
\<close>

theorem activation_revokes_old_hash:
  assumes "tcb_ok rows" and "approves_onchain env"
    and "assertCurrentTcb (te_crypto env) h rows = Inr ((), rows)"
    and "activate env now version expected key rows = Inr (res, rows')" and "\<not> ar_alreadyActive res"
    and "no_collision (te_crypto env) (stringify (policy_json (st_policy (ar_previous res))))
           (stringify (policy_json (st_policy (ar_active res))))"
  shows "assertCurrentTcb (te_crypto env) h rows'
     = Inl (ConflictError ''TCB policy changed; open a new attested session'')"
  using assms(4)
proof (cases rule: activate_cases)
  case unchanged
  with assms(5) show ?thesis by simp
next
  case (activated a t state binding)
  obtain t' where t': "activeRow rows' = Inr t'" "JInt (tc_version t') = version"
    "policyState (te_crypto env) t' = Inr (ar_active res)"
    using assms(1,4,5,2) by (rule activated_row)
  let ?p = "st_policy (ar_previous res)" and ?q = "st_policy (ar_active res)"
  have hash: "h = sha256HexText (cx_sha (te_crypto env)) (stringify (policy_json ?p))"
    using assms(3) activated(1) policyState_fields(3) [OF activated(12)]
    by (auto simp: assertCurrentTcb_Inr activated(12))
  have "tc_version a \<noteq> tc_version t'"
    using activated(3,5) t'(2) by auto
  then have "tp_version ?p \<noteq> tp_version ?q"
    using policyState_fields(2) [OF activated(12)] policyState_fields(2) [OF t'(3)] by simp
  then have "stringify (policy_json ?p) \<noteq> stringify (policy_json ?q)"
    using policyState_fields(1) [OF activated(12)] policyState_fields(1) [OF t'(3)]
    by (auto simp: stringify_inj plain_policy_json dest: policy_json_inj)
  with assms(6) have "sha256HexText (cx_sha (te_crypto env)) (stringify (policy_json ?p))
      \<noteq> sha256HexText (cx_sha (te_crypto env)) (stringify (policy_json ?q))"
    using sha256HexText_no_collision same_refl by metis
  with hash policyState_fields(3) [OF t'(3)] t'(1,3) show ?thesis
    by (simp add: assertCurrentTcb_def)
qed

lemma demo_hashes_differ:
  "cx_sha demo_crypto (utf8 (stringify (policy_json demo_policy)))
     \<noteq> cx_sha demo_crypto (utf8 (stringify (policy_json demo_policy2)))"
  by code_simp

theorem activation_revokes_old_hash_witness:
  "assertCurrentTcb demo_crypto (tr_policyHash (demo_record demo_policy)) demo_rows
     = Inl (ConflictError ''TCB policy changed; open a new attested session'')"
proof -
  obtain res where res: "activate demo_env 30 (JInt 2) (JInt 1) None [demo_first, demo_second] = Inr (res, demo_rows)"
    "\<not> ar_alreadyActive res" using demo_activate by blast
  have approve: "approves_onchain demo_env" by (simp add: approves_onchain_def demo_env_def)
  have crypto: "te_crypto demo_env = demo_crypto" by (simp add: demo_env_def)
  have ok: "tcb_ok [demo_first, demo_second]" by (rule tcb.inv_reachable [OF demo_reachable_proposed])
  obtain t where t: "activeRow demo_rows = Inr t" "policyState demo_crypto t = Inr (ar_active res)"
    using activated_row [OF ok res approve] crypto by metis
  have "t = demo_third" using t(1) by (simp add: activeRow_def demo_rows_def)
  with t(2) have new: "st_policy (ar_active res) = demo_policy2"
    by (auto simp: policyState_Inr demo_policyOf_third)
  have old: "st_policy (ar_previous res) = demo_policy"
    using res by (cases rule: activate_cases)
      (auto simp: demo_activeRow crypto policyState_Inr demo_policyOf_first)
  have "assertCurrentTcb demo_crypto (tr_policyHash (demo_record demo_policy)) [demo_first, demo_second]
      = Inr ((), [demo_first, demo_second])"
    by (auto simp: assertCurrentTcb_Inr demo_activeRow policyState_Inr demo_policyOf_first demo_records)
  moreover have "no_collision demo_crypto (stringify (policy_json (st_policy (ar_previous res))))
           (stringify (policy_json (st_policy (ar_active res))))"
    using demo_hashes_differ by (simp add: no_collision_def old new)
  ultimately show ?thesis
    using activation_revokes_old_hash [OF ok approve _ res] crypto by simp
qed

end
