(* ===== verification/Inference_Service.thy ===== *)
theory Inference_Service
  imports Receipts Inference_Execution Tcb_Lifecycle
begin

text \<open>
  The paid inference of \<open>api/src/gateway.ts\<close>: sessions, admission of a request, the idempotent replay, the
  payment challenge, the dispatch claim and the publication of a receipt, composed from \<open>Payments\<close>,
  \<open>Inference_Execution\<close>, \<open>Tcb_Lifecycle\<close> and \<open>Receipts\<close>.

  Each database transaction is one function; \<open>between\<close> is what other processes commit between two of
  them. Results of \<open>requireKey\<close> and \<open>syncTcb\<close>, of the chain, of the provider, of sealing and of the clock are
  arguments. The calls of the provider and of the queue, which no rollback undoes, are listed as effects.
\<close>

section \<open>State\<close>

record session_row =
  ss_id :: string
  ss_apiKeyHash :: string
  ss_attRef :: string
  ss_quote :: "attestation_quote option"
  ss_createdAt :: int
  ss_expiresAt :: int

record agent_row =
  ag_id :: string
  ag_ownerKeyHash :: string
  ag_name :: string
  ag_policy :: agent_policy
  ag_policyHash :: string
  ag_sealedMemory :: string
  ag_memoryHash :: string

record model_listing =
  ml_modelHash :: string
  ml_codeHash :: string
  ml_state :: listing_state
  ml_listingId :: "int option"

record inference_result =
  nr_receipt :: signed_receipt
  nr_typedHash :: string
  nr_outputHash :: string
  nr_output :: string
  nr_evidence :: "string option"

record idempotency_row =
  im_keyHash :: string
  im_key :: string
  im_requestHash :: "string option"
  im_typedHash :: string
  im_response :: inference_result

record service_db =
  sd_pay :: pay_state
  sd_receipts :: "saved_receipt list"
  sd_usage :: "usage_row list"
  sd_idempotency :: "idempotency_row list"
  sd_executions :: "execution_row list"
  sd_tcb :: "tcb_row list"
  sd_models :: "model_listing list"
  sd_sessions :: "session_row list"
  sd_agents :: "agent_row list"

text \<open>The enclave software: hashes, sealing and the check of a quote at a given time.\<close>

record cvm =
  cv_modelHash :: string
  cv_codeHash :: string
  cv_sessionSecret :: "string \<Rightarrow> bytes"
  cv_decrypt :: "bytes \<Rightarrow> string \<Rightarrow> string option"
  cv_encrypt :: "bytes \<Rightarrow> string \<Rightarrow> string"
  cv_openMemory :: "string \<Rightarrow> enclave_error + string"
  cv_sealMemory :: "string \<Rightarrow> string"
  cv_releaseKeys :: "attestation_quote \<Rightarrow> int \<Rightarrow> enclave_error + unit"

record service_env =
  sn_crypto :: crypto
  sn_typed :: typed_crypto
  sn_cvm :: cvm
  sn_pay :: pay_config
  sn_verifier :: string
  sn_echo :: bool
  sn_production :: bool
  sn_marketplace :: bool
  sn_localBootstrap :: bool

text \<open>What the outside answers while one request runs.\<close>

record service_world =
  sw_now :: int
  sw_key :: "enclave_error + string"
  sw_tcb :: "enclave_error + tcb_state"
  sw_approval :: "enclave_error + tcb_approval"
  sw_onChain :: "enclave_error + bool"
  sw_wiring :: "enclave_error + unit"
  sw_proofs :: "payment_row \<Rightarrow> enclave_error + unit"

section \<open>Sessions and admission\<close>

definition current_tcb :: "service_env \<Rightarrow> string \<Rightarrow> service_db \<Rightarrow> enclave_error + unit" where
  "current_tcb env policyHash db = rmap (\<lambda>_. ()) (assertCurrentTcb (sn_crypto env) policyHash (sd_tcb db))"

definition openSession ::
    "service_env \<Rightarrow> service_world \<Rightarrow> string \<Rightarrow> attestation_quote \<Rightarrow> service_db \<Rightarrow> enclave_error + ((string \<times> int) \<times> service_db)" where
  "openSession env w fresh quote db =
     rbind (sw_key w) (\<lambda>keyHash.
     rbind (sw_tcb w) (\<lambda>state.
     rbind (cv_releaseKeys (sn_cvm env) quote (sw_now w)) (\<lambda>_.
     rbind (current_tcb env (tr_policyHash (st_record state)) db) (\<lambda>_.
     let row = \<lparr>ss_id = fresh, ss_apiKeyHash = keyHash, ss_attRef = sha256HexText (cx_sha (sn_crypto env)) (q_signature quote),
           ss_quote = Some quote, ss_createdAt = sw_now w, ss_expiresAt = sw_now w + 1800000\<rparr> in
     Inr ((fresh, ss_expiresAt row), db\<lparr>sd_sessions := sd_sessions db @ [row]\<rparr>)))))"

definition requireSession :: "service_env \<Rightarrow> service_world \<Rightarrow> string \<Rightarrow> string \<Rightarrow> service_db \<Rightarrow> enclave_error + session_row" where
  "requireSession env w sessionId keyHash db =
     rbind (of_option (UnauthorizedError ''Invalid session'') (select_row (\<lambda>s. ss_id s = sessionId) (sd_sessions db))) (\<lambda>row.
     rbind (require (ss_apiKeyHash row = keyHash) (UnauthorizedError ''Invalid session'')) (\<lambda>_.
     rbind (require (sw_now w < ss_expiresAt row) (UnauthorizedError ''Session expired'')) (\<lambda>_.
     rbind (of_option (UnauthorizedError ''Session has no durable attestation; open a new session'') (ss_quote row)) (\<lambda>quote.
     rbind (require (sha256HexText (cx_sha (sn_crypto env)) (q_signature quote) = ss_attRef row) (UnauthorizedError ''Session attestation mismatch'')) (\<lambda>_.
     rbind (cv_releaseKeys (sn_cvm env) quote (ss_createdAt row)) (\<lambda>_.
     Inr row))))))"

definition requireAgent :: "string \<Rightarrow> string \<Rightarrow> service_db \<Rightarrow> enclave_error + agent_row" where
  "requireAgent agentId keyHash db =
     rbind (of_option (NotFoundError ''agent'' agentId) (select_row (\<lambda>a. ag_id a = agentId) (sd_agents db))) (\<lambda>row.
     rbind (require (ag_ownerKeyHash row = keyHash) (NotFoundError ''agent'' agentId)) (\<lambda>_. Inr row))"

definition serving_row :: "service_env \<Rightarrow> service_db \<Rightarrow> model_listing option" where
  "serving_row env db =
     select_row (\<lambda>m. ml_modelHash m = cv_modelHash (sn_cvm env) \<and> ml_codeHash m = cv_codeHash (sn_cvm env)) (sd_models db)"

text \<open>\<open>verifyTcbApproval\<close> is \<open>sw_approval\<close>, the marketplace read is \<open>sw_onChain\<close>.\<close>

definition assertServingApproved :: "service_env \<Rightarrow> service_world \<Rightarrow> tcb_state \<Rightarrow> service_db \<Rightarrow> enclave_error + unit" where
  "assertServingApproved env w serving db =
     rbind (if st_binding serving = ''onchain''
            then rbind (sw_approval w) (\<lambda>a. require (Some (ta_scope a) = st_scope serving) (ConflictError ''TCB activation belongs to another chain deployment''))
            else require (\<not> (st_binding serving = ''local-fixture'' \<and> (\<not> sn_localBootstrap env \<or> pc_chainId (sn_pay env) \<noteq> 31337)))
              (ConflictError ''Local software TCB fixture is not enabled for this deployment'')) (\<lambda>_.
     rbind (if sn_marketplace env then rbind (sw_onChain w) (\<lambda>ok. require ok (ModelNotApprovedError ''model'')) else Inr ()) (\<lambda>_.
     require (modelServingAllowed (map_option ml_state (serving_row env db))) (ModelNotApprovedError ''model'')))"

record infer_input =
  ii_sessionId :: string
  ii_blob :: string
  ii_paymentId :: "string option"
  ii_idempotencyKey :: "string option"
  ii_agentId :: "string option"

text \<open>An empty optional field is falsy and reads as absent.\<close>

definition given :: "string option \<Rightarrow> string option" where
  "given x = (case x of Some s \<Rightarrow> if s = [] then None else Some s | None \<Rightarrow> None)"

record admitted =
  ai_keyHash :: string
  ai_state :: tcb_state
  ai_session :: session_row
  ai_agent :: "agent_row option"
  ai_secret :: bytes
  ai_plaintext :: string
  ai_requestHash :: string

definition option_json :: "string option \<Rightarrow> json" where
  "option_json x = (case x of Some s \<Rightarrow> JStr s | None \<Rightarrow> JNull)"

definition request_hash_of :: "service_env \<Rightarrow> string \<Rightarrow> string \<Rightarrow> agent_row option \<Rightarrow> string" where
  "request_hash_of env sessionId plaintext agent =
     (let sha = cx_sha (sn_crypto env) in
      sha256HexText sha (stringify (JObj [(''sessionId'', JStr sessionId), (''input'', JStr (sha256HexText sha plaintext)),
        (''agentId'', option_json (map_option ag_id agent)), (''memoryHash'', option_json (map_option ag_memoryHash agent)),
        (''policyHash'', option_json (map_option ag_policyHash agent)), (''modelHash'', JStr (cv_modelHash (sn_cvm env))),
        (''codeHash'', JStr (cv_codeHash (sn_cvm env)))])))"

definition decryptRequest :: "service_env \<Rightarrow> bytes \<Rightarrow> string \<Rightarrow> enclave_error + string" where
  "decryptRequest env secret blob = of_option (ValidationError ''ciphertext'') (cv_decrypt (sn_cvm env) secret blob)"

definition admit_agent :: "service_env \<Rightarrow> string \<Rightarrow> string option \<Rightarrow> service_db \<Rightarrow> enclave_error + agent_row option" where
  "admit_agent env keyHash agentId db =
     (case given agentId of
        None \<Rightarrow> Inr None
      | Some a \<Rightarrow>
          rbind (requireAgent a keyHash db) (\<lambda>row.
          rbind (assertAgentModel (ag_policy row) (cv_modelHash (sn_cvm env))) (\<lambda>_. Inr (Some row))))"

definition admit_infer :: "service_env \<Rightarrow> service_world \<Rightarrow> infer_input \<Rightarrow> service_db \<Rightarrow> enclave_error + admitted" where
  "admit_infer env w input db =
     rbind (sw_key w) (\<lambda>keyHash.
     rbind (sw_tcb w) (\<lambda>state.
     rbind (requireSession env w (ii_sessionId input) keyHash db) (\<lambda>session.
     rbind (assertServingApproved env w state db) (\<lambda>_.
     rbind (admit_agent env keyHash (ii_agentId input) db) (\<lambda>agent.
     let secret = cv_sessionSecret (sn_cvm env) (ss_id session) in
     rbind (decryptRequest env secret (ii_blob input)) (\<lambda>plaintext.
     rbind (case agent of None \<Rightarrow> Inr plaintext
            | Some a \<Rightarrow> rmap (\<lambda>memory. memory @ [char_of (10::nat)] @ plaintext) (cv_openMemory (sn_cvm env) (ag_sealedMemory a))) (\<lambda>prompt.
     Inr \<lparr>ai_keyHash = keyHash, ai_state = state, ai_session = session, ai_agent = agent, ai_secret = secret, ai_plaintext = prompt,
          ai_requestHash = request_hash_of env (ss_id session) plaintext agent\<rparr>)))))))"

section \<open>The transactions of an inference\<close>

definition loadIdempotent :: "string \<Rightarrow> string \<Rightarrow> string \<Rightarrow> service_db \<Rightarrow> enclave_error + inference_result option" where
  "loadIdempotent keyHash key requestHash db =
     (case select_row (\<lambda>r. im_keyHash r = keyHash \<and> im_key r = key) (sd_idempotency db) of
        None \<Rightarrow> Inr None
      | Some row \<Rightarrow>
          if im_requestHash row \<noteq> Some requestHash
          then Inl (ConflictError ''Idempotency key already bound to a different request'')
          else Inr (Some (im_response row)))"

definition replay_of :: "infer_input \<Rightarrow> admitted \<Rightarrow> service_db \<Rightarrow> enclave_error + inference_result option" where
  "replay_of input a db =
     (case given (ii_idempotencyKey input) of
        None \<Rightarrow> Inr None
      | Some key \<Rightarrow> loadIdempotent (ai_keyHash a) key (ai_requestHash a) db)"

definition policy_hash :: "admitted \<Rightarrow> string" where
  "policy_hash a = tr_policyHash (st_record (ai_state a))"

text \<open>Lines 427-435: the answer given before, if the key has one.\<close>

definition replay_tx :: "service_env \<Rightarrow> infer_input \<Rightarrow> admitted \<Rightarrow> service_db \<Rightarrow> enclave_error + inference_result option" where
  "replay_tx env input a db =
     (if given (ii_idempotencyKey input) = None then Inr None
      else rbind (current_tcb env (policy_hash a) db) (\<lambda>_. replay_of input a db))"

text \<open>Lines 437-442: without a payment the request ends in a challenge for a payment of its own.\<close>

definition challenge_tx ::
    "service_env \<Rightarrow> string \<Rightarrow> infer_input \<Rightarrow> admitted \<Rightarrow> service_db \<Rightarrow> enclave_error + (payment_row \<times> service_db)" where
  "challenge_tx env fresh input a db =
     rmap (map_prod id (\<lambda>p. db\<lparr>sd_pay := p\<rparr>))
       (openPayment fresh (ai_keyHash a) (pc_priceUnits (sn_pay env)) (ii_idempotencyKey input) (ai_requestHash a)
          (map_option ag_id (ai_agent a)) (case serving_row env db of Some m \<Rightarrow> ml_listingId m | None \<Rightarrow> None) (sd_pay db))"

definition execution_binding_of :: "infer_input \<Rightarrow> admitted \<Rightarrow> string \<Rightarrow> execution_binding" where
  "execution_binding_of input a paymentId =
     \<lparr>eb_paymentId = paymentId, eb_keyHash = ai_keyHash a, eb_requestHash = ai_requestHash a, eb_idempotencyKey = ii_idempotencyKey input\<rparr>"

datatype dispatch = Replayed inference_result | Dispatched string

text \<open>Lines 448-461: the permanent claim, committed before the provider is called.\<close>

definition claim_tx ::
    "service_env \<Rightarrow> service_world \<Rightarrow> string \<Rightarrow> infer_input \<Rightarrow> admitted \<Rightarrow> string \<Rightarrow> service_db \<Rightarrow> enclave_error + (dispatch \<times> service_db)" where
  "claim_tx env w fresh input a paymentId db =
     rbind (replay_of input a db) (\<lambda>replay.
     case replay of
       Some r \<Rightarrow> rbind (current_tcb env (policy_hash a) db) (\<lambda>_. Inr (Replayed r, db))
     | None \<Rightarrow>
         rbind (consumePayment (sn_pay env) (sw_proofs w) (ai_keyHash a) paymentId (pc_priceUnits (sn_pay env)) (ai_requestHash a) True (sd_pay db)) (\<lambda>_.
         rbind (current_tcb env (policy_hash a) db) (\<lambda>_.
         rbind (assertServingApproved env w (ai_state a) db) (\<lambda>_.
         rbind (claimInferenceExecution (execution_binding_of input a paymentId) fresh (sd_executions db)) (\<lambda>(claim, rows).
         Inr (Dispatched claim, db\<lparr>sd_executions := rows\<rparr>))))))"

record provider_answer =
  pv_receipt :: inference_receipt
  pv_sig :: string
  pv_output :: string
  pv_evidence :: "string option"

datatype service_effect = ProviderCall string | AnchorEnqueued string

definition count_usage :: "string \<Rightarrow> int \<Rightarrow> usage_row list \<Rightarrow> usage_row list" where
  "count_usage keyHash price rows =
     (if list_ex (\<lambda>u. us_keyHash u = keyHash) rows
      then update_rows (\<lambda>u. us_keyHash u = keyHash) (\<lambda>u. u\<lparr>us_calls := us_calls u + 1, us_usdcUnits := us_usdcUnits u + price\<rparr>) rows
      else rows @ [\<lparr>us_keyHash = keyHash, us_calls = 1, us_usdcUnits = price\<rparr>])"

definition insert_receipt :: "saved_receipt \<Rightarrow> service_db \<Rightarrow> enclave_error + service_db" where
  "insert_receipt row db =
     rbind (require (\<forall>r \<in> set (sd_receipts db). sv_typedHash r \<noteq> sv_typedHash row) (PlainError ''unique constraint'')) (\<lambda>_.
     Inr (db\<lparr>sd_receipts := sd_receipts db @ [row]\<rparr>))"

text \<open>A unique violation aborts the transaction: no later statement of it succeeds.\<close>

definition insert_idempotency :: "infer_input \<Rightarrow> admitted \<Rightarrow> inference_result \<Rightarrow> service_db \<Rightarrow> enclave_error + service_db" where
  "insert_idempotency input a result db =
     (case given (ii_idempotencyKey input) of
        None \<Rightarrow> Inr db
      | Some key \<Rightarrow>
          rbind (require (\<forall>r \<in> set (sd_idempotency db). \<not> (im_keyHash r = ai_keyHash a \<and> im_key r = key)) (PlainError ''unique constraint'')) (\<lambda>_.
          Inr (db\<lparr>sd_idempotency := sd_idempotency db @ [\<lparr>im_keyHash = ai_keyHash a, im_key = key, im_requestHash = Some (ai_requestHash a),
            im_typedHash = nr_typedHash result, im_response = result\<rparr>]\<rparr>)))"

definition complete_claim :: "infer_input \<Rightarrow> admitted \<Rightarrow> string \<Rightarrow> string option \<Rightarrow> string \<Rightarrow> int \<Rightarrow> service_db \<Rightarrow> enclave_error + service_db" where
  "complete_claim input a paymentId claim typedHash now db =
     (case claim of
        None \<Rightarrow> Inr db
      | Some c \<Rightarrow> rmap (\<lambda>(_, rows). db\<lparr>sd_executions := rows\<rparr>)
          (completeInferenceExecution (execution_binding_of input a paymentId) c typedHash now (sd_executions db)))"

text \<open>Lines 487-570: what is written once the provider has answered.\<close>

definition record_answer ::
    "service_env \<Rightarrow> service_world \<Rightarrow> infer_input \<Rightarrow> admitted \<Rightarrow> string \<Rightarrow> string option \<Rightarrow> provider_answer \<Rightarrow> service_db
      \<Rightarrow> enclave_error + (inference_result \<times> service_db)" where
  "record_answer env w input a paymentId claim answer db =
     rbind (current_tcb env (policy_hash a) db) (\<lambda>_.
     rbind (if sn_production env then sw_wiring w else Inr ()) (\<lambda>_.
     rbind (assertServingApproved env w (ai_state a) db) (\<lambda>_.
     rbind (receiptTypedHash (sn_typed env) (pv_receipt answer) (pc_chainId (sn_pay env)) (sn_verifier env)) (\<lambda>typedHash.
     let sr = \<lparr>sr_receipt = pv_receipt answer, sr_sig = pv_sig answer\<rparr>;
         out = cv_encrypt (sn_cvm env) (ai_secret a) (pv_output answer);
         evidence = map_option (cv_encrypt (sn_cvm env) (ai_secret a)) (pv_evidence answer);
         row = \<lparr>sv_signed = sr, sv_chainId = pc_chainId (sn_pay env), sv_verifierAddress = sn_verifier env, sv_output = out,
                sv_typedHash = typedHash, sv_status = ''pending'', sv_keyHash = Some (ai_keyHash a), sv_agentId = map_option ag_id (ai_agent a)\<rparr>;
         result = \<lparr>nr_receipt = sr, nr_typedHash = typedHash, nr_outputHash = ir_outHash (pv_receipt answer), nr_output = out, nr_evidence = evidence\<rparr> in
     rbind (insert_receipt row db) (\<lambda>db1.
     let db2 = db1\<lparr>sd_pay := linkReceipt paymentId typedHash (sd_pay db1),
                   sd_usage := count_usage (ai_keyHash a) (pc_priceUnits (sn_pay env)) (sd_usage db1)\<rparr> in
     rbind (insert_idempotency input a result db2) (\<lambda>db3.
     rbind (complete_claim input a paymentId claim typedHash (sw_now w) db3) (\<lambda>db4.
     Inr (result, db4))))))))"

text \<open>
  Lines 465-571, one transaction around the call of the provider: what it returns and the calls made. The
  answer of the provider is an argument; \<open>claim\<close> is the dispatch claim, absent for the echo backend.
\<close>

definition publish ::
    "service_env \<Rightarrow> service_world \<Rightarrow> infer_input \<Rightarrow> admitted \<Rightarrow> string \<Rightarrow> string option \<Rightarrow> enclave_error + provider_answer \<Rightarrow> service_db
      \<Rightarrow> (enclave_error + (inference_result \<times> service_db)) \<times> service_effect list" where
  "publish env w input a paymentId claim answer db =
     (case replay_of input a db of
        Inl e \<Rightarrow> (Inl e, [])
      | Inr (Some r) \<Rightarrow>
          (rbind (current_tcb env (policy_hash a) db) (\<lambda>_.
           rmap (Pair r) (complete_claim input a paymentId claim (nr_typedHash r) (sw_now w) db)), [])
      | Inr None \<Rightarrow>
          (case consumePayment (sn_pay env) (sw_proofs w) (ai_keyHash a) paymentId (pc_priceUnits (sn_pay env)) (ai_requestHash a) False (sd_pay db) of
             Inl e \<Rightarrow> (Inl e, [])
           | Inr (_, p) \<Rightarrow>
               (rbind answer (\<lambda>ans. record_answer env w input a paymentId claim ans (db\<lparr>sd_pay := p\<rparr>)), [ProviderCall paymentId])))"

text \<open>Lines 427-600 after admission. An error of a claimed publication is the quarantine error.\<close>

definition infer_claimed ::
    "service_env \<Rightarrow> service_world \<Rightarrow> infer_input \<Rightarrow> admitted \<Rightarrow> string \<Rightarrow> string option \<Rightarrow> enclave_error + provider_answer \<Rightarrow> service_db
      \<Rightarrow> (enclave_error + inference_result) \<times> service_db \<times> service_effect list" where
  "infer_claimed env w input a paymentId claim answer db =
     (case publish env w input a paymentId claim answer db of
        (Inl e, calls) \<Rightarrow> (Inl (if claim = None then e else uncertainInference paymentId), db, calls)
      | (Inr (r, db'), calls) \<Rightarrow> (Inr r, db', calls @ [AnchorEnqueued (nr_typedHash r)]))"

definition infer_paid ::
    "service_env \<Rightarrow> service_world \<Rightarrow> string \<Rightarrow> infer_input \<Rightarrow> admitted \<Rightarrow> string \<Rightarrow> enclave_error + provider_answer \<Rightarrow> (service_db \<Rightarrow> service_db)
      \<Rightarrow> service_db \<Rightarrow> (enclave_error + inference_result) \<times> service_db \<times> service_effect list" where
  "infer_paid env w fresh input a paymentId answer between db =
     (if sn_echo env then infer_claimed env w input a paymentId None answer db
      else (case claim_tx env w fresh input a paymentId db of
          Inl e \<Rightarrow> (Inl e, db, [])
        | Inr (Replayed r, db1) \<Rightarrow> (Inr r, db1, [])
        | Inr (Dispatched c, db1) \<Rightarrow> infer_claimed env w input a paymentId (Some c) answer (between db1)))"

definition infer ::
    "service_env \<Rightarrow> service_world \<Rightarrow> string \<Rightarrow> string \<Rightarrow> infer_input \<Rightarrow> enclave_error + provider_answer \<Rightarrow> (nat \<Rightarrow> service_db \<Rightarrow> service_db)
      \<Rightarrow> service_db \<Rightarrow> (enclave_error + inference_result) \<times> service_db \<times> service_effect list" where
  "infer env w freshPayment freshClaim input answer between db =
     (case admit_infer env w input db of
        Inl e \<Rightarrow> (Inl e, db, [])
      | Inr a \<Rightarrow>
          (case replay_tx env input a (between 0 db) of
             Inl e \<Rightarrow> (Inl e, between 0 db, [])
           | Inr (Some r) \<Rightarrow> (Inr r, between 0 db, [])
           | Inr None \<Rightarrow>
               (let db1 = between 1 (between 0 db) in
                case given (ii_paymentId input) of
                  None \<Rightarrow>
                    (case challenge_tx env freshPayment input a db1 of
                       Inl e \<Rightarrow> (Inl e, db1, [])
                     | Inr (intent, db2) \<Rightarrow>
                         (case current_tcb env (policy_hash a) (between 2 db2) of
                            Inl e \<Rightarrow> (Inl e, between 2 db2, [])
                          | Inr _ \<Rightarrow> (Inl (payment_required (sn_pay env) (py_id intent)), between 2 db2, [])))
                | Some paymentId \<Rightarrow> infer_paid env w freshClaim input a paymentId answer (between 2) db1)))"

definition sessionWrapKeyForOwner :: "service_env \<Rightarrow> service_world \<Rightarrow> string \<Rightarrow> service_db \<Rightarrow> enclave_error + bytes" where
  "sessionWrapKeyForOwner env w sessionId db =
     rbind (sw_key w) (\<lambda>keyHash.
     rbind (sw_tcb w) (\<lambda>state.
     rbind (requireSession env w sessionId keyHash db) (\<lambda>session.
     rbind (current_tcb env (tr_policyHash (st_record state)) db) (\<lambda>_.
     Inr (cv_sessionSecret (sn_cvm env) (ss_id session))))))"

end
