(* ===== verification/Gateway_Market.thy ===== *)
theory Gateway_Market
  imports Chain_Calls Inference_Service
begin

text \<open>
  The model market: the contract \<open>contracts/src/ModelRegistry.sol\<close>, the listing operations of \<open>api/src/gateway.ts\<close>
  over the table \<open>models\<close>, and \<open>listWithPolicy\<close> of \<open>api/src/tcb-chain.ts\<close>.

  A contract function is a function of the contract's state, \<open>None\<close> when it reverts; a \<open>bytes32\<close> is its hexadecimal
  text, equal up to letter case. An operation of the gateway calls the contract and then writes the table; the two
  are separate steps of \<open>market_step\<close>, so that other operations, the indexer and crashes come in between.
\<close>

section \<open>The registry contract\<close>

record registry_listing =
  rl_modelHash :: string
  rl_codeHash :: string
  rl_provider :: string
  rl_listedAt :: int
  rl_bps :: int
  rl_staked :: int
  rl_approved :: bool
  rl_revoked :: bool

record model_registry =
  mg_owner :: string
  mg_chainId :: int
  mg_encl :: string
  mg_listingStake :: int
  mg_count :: nat
  mg_listings :: "nat \<Rightarrow> registry_listing option"
  mg_ids :: "string \<Rightarrow> string \<Rightarrow> nat"
  mg_policies :: "nat \<Rightarrow> (string \<times> int) option"

definition registry_timelock :: int where
  "registry_timelock = 3600"

definition uint64_max :: int where
  "uint64_max = 2 ^ 64 - 1"

definition registry_ids :: "model_registry \<Rightarrow> string \<Rightarrow> string \<Rightarrow> nat" where
  "registry_ids g m c = mg_ids g (lower m) (lower c)"

text \<open>\<open>paid\<close> is what \<open>transferFrom\<close> of the stake returned.\<close>

definition registry_list ::
    "string \<Rightarrow> int \<Rightarrow> bool \<Rightarrow> string \<Rightarrow> string \<Rightarrow> int \<Rightarrow> model_registry \<Rightarrow> (nat \<times> model_registry) option" where
  "registry_list sender now paid m c bps g =
     (if same m zeroHash \<or> same c zeroHash \<or> bps > 10000 \<or> registry_ids g m c \<noteq> 0
         \<or> (mg_listingStake g > 0 \<and> (same (mg_encl g) zero_address \<or> \<not> paid)) then None
      else (let i = Suc (mg_count g);
                row = \<lparr>rl_modelHash = m, rl_codeHash = c, rl_provider = sender, rl_listedAt = now mod 2 ^ 64, rl_bps = bps,
                       rl_staked = mg_listingStake g, rl_approved = False, rl_revoked = False\<rparr>
            in Some (i, g\<lparr>mg_count := i, mg_listings := (mg_listings g)(i := Some row),
                 mg_ids := (mg_ids g)(lower m := (mg_ids g (lower m))(lower c := i))\<rparr>)))"

definition registry_listWithPolicy ::
    "string \<Rightarrow> int \<Rightarrow> bool \<Rightarrow> string \<Rightarrow> string \<Rightarrow> int \<Rightarrow> string \<Rightarrow> int \<Rightarrow> model_registry \<Rightarrow> (nat \<times> model_registry) option" where
  "registry_listWithPolicy sender now paid m c bps policyHash policyVersion g =
     (if same policyHash zeroHash \<or> policyVersion = 0 then None
      else map_option (\<lambda>(i, g'). (i, g'\<lparr>mg_policies := (mg_policies g')(i := Some (policyHash, policyVersion))\<rparr>))
        (registry_list sender now paid m c bps g))"

definition set_listing :: "nat \<Rightarrow> registry_listing \<Rightarrow> model_registry \<Rightarrow> model_registry" where
  "set_listing i row g = g\<lparr>mg_listings := (mg_listings g)(i := Some row)\<rparr>"

text \<open>A listing that exists; \<open>listedAt\<close> of the others is zero.\<close>

definition listing_of :: "nat \<Rightarrow> model_registry \<Rightarrow> registry_listing option" where
  "listing_of i g = (case mg_listings g i of Some row \<Rightarrow> if rl_listedAt row \<noteq> 0 then Some row else None | None \<Rightarrow> None)"

definition registry_approve_listing :: "string \<Rightarrow> int \<Rightarrow> nat \<Rightarrow> model_registry \<Rightarrow> model_registry option" where
  "registry_approve_listing sender now i g =
     (case listing_of i g of
        None \<Rightarrow> None
      | Some row \<Rightarrow>
          if sender \<noteq> mg_owner g \<or> rl_revoked row \<or> rl_listedAt row + registry_timelock > uint64_max \<or> now < rl_listedAt row + registry_timelock then None
          else Some (set_listing i (row\<lparr>rl_approved := True\<rparr>) g))"

definition registry_bootstrapApprove :: "string \<Rightarrow> nat \<Rightarrow> model_registry \<Rightarrow> model_registry option" where
  "registry_bootstrapApprove sender i g =
     (case listing_of i g of
        None \<Rightarrow> None
      | Some row \<Rightarrow> if sender \<noteq> mg_owner g \<or> mg_chainId g \<noteq> 31337 \<or> rl_revoked row then None
                    else Some (set_listing i (row\<lparr>rl_approved := True\<rparr>) g))"

text \<open>\<open>repaid\<close> is what \<open>transfer\<close> of the stake returned.\<close>

definition registry_revoke :: "string \<Rightarrow> bool \<Rightarrow> nat \<Rightarrow> model_registry \<Rightarrow> model_registry option" where
  "registry_revoke sender repaid i g =
     (case listing_of i g of
        None \<Rightarrow> None
      | Some row \<Rightarrow> if sender \<noteq> mg_owner g \<or> (rl_staked row > 0 \<and> \<not> repaid) then None
                    else Some (set_listing i (row\<lparr>rl_approved := False, rl_revoked := True, rl_staked := 0\<rparr>) g))"

definition registry_bootstrapRestore :: "string \<Rightarrow> nat \<Rightarrow> model_registry \<Rightarrow> model_registry option" where
  "registry_bootstrapRestore sender i g =
     (case listing_of i g of
        None \<Rightarrow> None
      | Some row \<Rightarrow> if sender \<noteq> mg_owner g \<or> mg_chainId g \<noteq> 31337 then None
                    else Some (set_listing i (row\<lparr>rl_revoked := False, rl_approved := True\<rparr>) g))"

definition registry_isApproved :: "model_registry \<Rightarrow> string \<Rightarrow> string \<Rightarrow> bool" where
  "registry_isApproved g m c =
     (let i = registry_ids g m c in
      i \<noteq> 0 \<and> (case mg_listings g i of Some row \<Rightarrow> rl_approved row \<and> \<not> rl_revoked row | None \<Rightarrow> False))"

definition registry_isApprovedWithPolicy :: "model_registry \<Rightarrow> string \<Rightarrow> string \<Rightarrow> string \<Rightarrow> int \<Rightarrow> bool" where
  "registry_isApprovedWithPolicy g m c policyHash policyVersion \<longleftrightarrow>
     \<not> same policyHash zeroHash \<and> policyVersion \<noteq> 0 \<and> registry_isApproved g m c
     \<and> (case mg_policies g (registry_ids g m c) of Some (h, v) \<Rightarrow> same h policyHash \<and> v = policyVersion | None \<Rightarrow> False)"

definition registry_paymentTerms :: "model_registry \<Rightarrow> nat \<Rightarrow> (string \<times> int) option" where
  "registry_paymentTerms g i =
     (case mg_listings g i of
        Some row \<Rightarrow> if \<not> same (rl_provider row) zero_address \<and> rl_approved row \<and> \<not> rl_revoked row then Some (rl_provider row, rl_bps row) else None
      | None \<Rightarrow> None)"

section \<open>The table\<close>

record market_row =
  mw_modelHash :: string
  mw_codeHash :: string
  mw_version :: string
  mw_provider :: string
  mw_state :: listing_state
  mw_listingBps :: js_number
  mw_listingId :: "int option"

definition market_listing :: "market_row \<Rightarrow> model_listing" where
  "market_listing r = \<lparr>ml_modelHash = mw_modelHash r, ml_codeHash = mw_codeHash r, ml_state = mw_state r, ml_listingId = mw_listingId r\<rparr>"

definition listModels :: "market_row list \<Rightarrow> market_row list" where
  "listModels rows = filter (\<lambda>r. ls_approved (mw_state r) \<and> \<not> ls_revoked (mw_state r)) rows"

definition listMarketplace :: "market_row list \<Rightarrow> market_row list" where
  "listMarketplace rows = rows"

text \<open>The four updates of the table.\<close>

datatype market_write = MarkListing bool int | MarkServing bool string string

definition marks :: "market_write \<Rightarrow> market_row \<Rightarrow> bool" where
  "marks w r = (case w of
      MarkListing _ i \<Rightarrow> mw_listingId r = Some i
    | MarkServing _ m c \<Rightarrow> mw_modelHash r = m \<and> mw_codeHash r = c)"

definition mark_state :: "market_write \<Rightarrow> listing_state" where
  "mark_state w = (let ok = (case w of MarkListing b _ \<Rightarrow> b | MarkServing b _ _ \<Rightarrow> b) in \<lparr>ls_approved = ok, ls_revoked = \<not> ok\<rparr>)"

definition write_market :: "market_write \<Rightarrow> market_row list \<Rightarrow> market_row list" where
  "write_market w rows = update_rows (marks w) (\<lambda>r. r\<lparr>mw_state := mark_state w\<rparr>) rows"

section \<open>Chain and table together\<close>

record market_state =
  mk_registry :: model_registry
  mk_models :: "market_row list"
  mk_now :: int

record market_env =
  me_configured :: bool
  me_localBootstrap :: bool
  me_chainId :: int
  me_account :: string
  me_modelHash :: string
  me_codeHash :: string
  me_sha :: hash_fun

text \<open>What became of a transaction: seen confirmed with its hash, or reported as an error, executed or not.\<close>

datatype tx_fate = SeenTx string | LostTx enclave_error bool

definition apply_registry :: "(model_registry \<Rightarrow> model_registry option) \<Rightarrow> market_state \<Rightarrow> market_state" where
  "apply_registry f s = (case f (mk_registry s) of Some g \<Rightarrow> s\<lparr>mk_registry := g\<rparr> | None \<Rightarrow> s)"

definition registry_tx :: "(model_registry \<Rightarrow> model_registry option) \<Rightarrow> tx_fate \<Rightarrow> market_state \<Rightarrow> (enclave_error + string) \<times> market_state" where
  "registry_tx f fate s =
     (case fate of
        SeenTx h \<Rightarrow> (if f (mk_registry s) = None then Inl (PlainError (''Transaction reverted: '' @ h)) else Inr h, apply_registry f s)
      | LostTx e executed \<Rightarrow> (Inl e, if executed then apply_registry f s else s))"

definition registry_state :: "model_registry \<Rightarrow> nat \<Rightarrow> int \<Rightarrow> approval_state" where
  "registry_state g i now =
     (case mg_listings g i of
        Some row \<Rightarrow> approval_state_of (rl_provider row) (rl_listedAt row) (rl_approved row) (rl_revoked row) registry_timelock now
      | None \<Rightarrow> Missing)"

definition not_configured :: enclave_error where
  "not_configured = AppError ''CHAIN_NOT_CONFIGURED'' ''Model registry address missing'' 503"

definition listingApprovalStatus :: "market_env \<Rightarrow> nat \<Rightarrow> market_state \<Rightarrow> enclave_error + approval_state" where
  "listingApprovalStatus env i s =
     rbind (require (me_configured env) not_configured) (\<lambda>_.
     let st = registry_state (mk_registry s) i (mk_now s) in
     rbind (require (st \<noteq> Missing) (NotFoundError ''listing'' (nat_dec i))) (\<lambda>_. Inr st))"

definition put_models :: "market_write \<Rightarrow> market_state \<Rightarrow> market_state" where
  "put_models w s = s\<lparr>mk_models := write_market w (mk_models s)\<rparr>"

definition approval_allowed :: "approval_state \<Rightarrow> enclave_error + unit" where
  "approval_allowed st =
     rbind (require (st \<noteq> Revoked) (ConflictError ''Revoked listings cannot be approved'')) (\<lambda>_.
     require (st \<noteq> Pending) (AppError ''TIMELOCK_ACTIVE'' ''Listing approval is timelocked'' 409))"

text \<open>\<open>admin\<close> is the result of \<open>requireAdmin\<close>; \<open>between k\<close> is what others do before the k-th step that follows.\<close>

definition approveListing ::
    "market_env \<Rightarrow> enclave_error + string \<Rightarrow> nat \<Rightarrow> tx_fate \<Rightarrow> (nat \<Rightarrow> market_state \<Rightarrow> market_state) \<Rightarrow> market_state \<Rightarrow>
       (enclave_error + (nat \<times> string option)) \<times> market_state" where
  "approveListing env admin i fate between s =
     (case rbind admin (\<lambda>_. rbind (listingApprovalStatus env i s) (\<lambda>st. rmap (\<lambda>_. st) (approval_allowed st))) of
        Inl e \<Rightarrow> (Inl e, s)
      | Inr st \<Rightarrow>
          (let (r, s') = (if st = Approved then (Inr None, s)
             else (let (r, s') = registry_tx (\<lambda>g. registry_approve_listing (me_account env) (mk_now (between 0 s)) i g) fate (between 0 s) in (rmap Some r, s'))) in
           case r of Inl e \<Rightarrow> (Inl e, s')
           | Inr tx \<Rightarrow> (Inr (i, tx), put_models (MarkListing True (int i)) (between 1 s'))))"

definition local_bootstrap :: "market_env \<Rightarrow> enclave_error + unit" where
  "local_bootstrap env = require (me_localBootstrap env \<and> me_chainId env = 31337) (ForbiddenError ''Local bootstrap is disabled'')"

definition bootstrapApproveListing ::
    "market_env \<Rightarrow> enclave_error + string \<Rightarrow> nat \<Rightarrow> tx_fate \<Rightarrow> (nat \<Rightarrow> market_state \<Rightarrow> market_state) \<Rightarrow> market_state \<Rightarrow>
       (enclave_error + (nat \<times> string)) \<times> market_state" where
  "bootstrapApproveListing env admin i fate between s =
     (case rbind admin (\<lambda>_. rbind (local_bootstrap env) (\<lambda>_. require (me_configured env) not_configured)) of
        Inl e \<Rightarrow> (Inl e, s)
      | Inr _ \<Rightarrow>
          (let (r, s') = registry_tx (registry_bootstrapApprove (me_account env) i) fate (between 0 s) in
           case r of Inl e \<Rightarrow> (Inl e, s') | Inr tx \<Rightarrow> (Inr (i, tx), put_models (MarkListing True (int i)) (between 1 s'))))"

definition revokeListing ::
    "market_env \<Rightarrow> enclave_error + string \<Rightarrow> nat \<Rightarrow> bool \<Rightarrow> tx_fate \<Rightarrow> (nat \<Rightarrow> market_state \<Rightarrow> market_state) \<Rightarrow> market_state \<Rightarrow>
       (enclave_error + nat) \<times> market_state" where
  "revokeListing env admin i repaid fate between s =
     (case admin of
        Inl e \<Rightarrow> (Inl e, s)
      | Inr _ \<Rightarrow>
          (let (r, s') = (if me_configured env then registry_tx (registry_revoke (me_account env) repaid i) fate (between 0 s) else (Inr [], s)) in
           case r of Inl e \<Rightarrow> (Inl e, s') | Inr _ \<Rightarrow> (Inr i, put_models (MarkListing False (int i)) (between 1 s'))))"

definition serving_market_row :: "market_env \<Rightarrow> market_state \<Rightarrow> market_row option" where
  "serving_market_row env s = select_row (\<lambda>r. mw_modelHash r = me_modelHash env \<and> mw_codeHash r = me_codeHash env) (mk_models s)"

definition serving_listing_id :: "market_env \<Rightarrow> market_state \<Rightarrow> nat option" where
  "serving_listing_id env s =
     (if me_configured env then map_option nat (truthy_int (case serving_market_row env s of Some r \<Rightarrow> mw_listingId r | None \<Rightarrow> None)) else None)"

definition revokeServingModel ::
    "market_env \<Rightarrow> enclave_error + string \<Rightarrow> bool \<Rightarrow> tx_fate \<Rightarrow> (nat \<Rightarrow> market_state \<Rightarrow> market_state) \<Rightarrow> market_state \<Rightarrow>
       (enclave_error + string) \<times> market_state" where
  "revokeServingModel env admin repaid fate between s =
     (case admin of
        Inl e \<Rightarrow> (Inl e, s)
      | Inr _ \<Rightarrow>
          (let (r, s') = (case serving_listing_id env s of
                Some i \<Rightarrow> registry_tx (registry_revoke (me_account env) repaid i) fate (between 0 s)
              | None \<Rightarrow> (Inr [], s)) in
           case r of Inl e \<Rightarrow> (Inl e, s')
           | Inr _ \<Rightarrow> (Inr (me_modelHash env), put_models (MarkServing False (me_modelHash env) (me_codeHash env)) (between 1 s'))))"

definition restoreServingModel ::
    "market_env \<Rightarrow> enclave_error + string \<Rightarrow> tx_fate \<Rightarrow> (nat \<Rightarrow> market_state \<Rightarrow> market_state) \<Rightarrow> market_state \<Rightarrow>
       (enclave_error + string) \<times> market_state" where
  "restoreServingModel env admin fate between s =
     (case rbind admin (\<lambda>_. local_bootstrap env) of
        Inl e \<Rightarrow> (Inl e, s)
      | Inr _ \<Rightarrow>
          (let (r, s') = (case serving_listing_id env s of
                Some i \<Rightarrow> registry_tx (registry_bootstrapRestore (me_account env) i) fate (between 0 s)
              | None \<Rightarrow> (Inr [], s)) in
           case r of Inl e \<Rightarrow> (Inl e, s')
           | Inr _ \<Rightarrow> (Inr (me_modelHash env), put_models (MarkServing True (me_modelHash env) (me_codeHash env)) (between 1 s'))))"

section \<open>Listing a model\<close>

record list_input =
  li_modelHash :: string
  li_codeHash :: string
  li_version :: string
  li_bps :: js_number
  li_policyHash :: "string option"
  li_policyVersion :: "js_number option"
  li_idempotencyKey :: "string option"

definition policy_bound :: "list_input \<Rightarrow> bool" where
  "policy_bound input \<longleftrightarrow> li_policyVersion input \<noteq> None \<or> li_policyHash input \<noteq> None"

definition list_operation_key :: "market_env \<Rightarrow> string \<Rightarrow> list_input \<Rightarrow> string \<Rightarrow> string" where
  "list_operation_key env keyHash input policyHash =
     ''tcb-list:'' @ sha256HexText (me_sha env) (stringify (JObj [(''keyHash'', JStr keyHash), (''key'',
       case li_idempotencyKey input of Some k \<Rightarrow> JStr k
       | None \<Rightarrow> JObj [(''modelHash'', JStr (li_modelHash input)), (''codeHash'', JStr (li_codeHash input)), (''version'', JStr (li_version input)),
                       (''bps'', JNum (int_of (li_bps input))), (''policyHash'', JStr policyHash)])]))"

text \<open>The policy path: \<open>history\<close> is \<open>lifecycle().list()\<close>, \<open>listed\<close> the registry's answer under an operation key.\<close>

definition list_bound ::
    "market_env \<Rightarrow> string \<Rightarrow> list_input \<Rightarrow> enclave_error + tcb_state list \<Rightarrow> (string \<Rightarrow> enclave_error + (string \<times> int)) \<Rightarrow>
       enclave_error + (int option \<times> string)" where
  "list_bound env keyHash input history listed =
     rbind (require (me_configured env) (AppError ''CHAIN_NOT_CONFIGURED'' ''TCB policy listing requires a configured registry'' 503)) (\<lambda>_.
     rbind (require (case li_idempotencyKey input of Some k \<Rightarrow> key_string k | None \<Rightarrow> True) (ValidationError ''idempotencyKey'')) (\<lambda>_.
     rbind history (\<lambda>rows.
     rbind (of_option (ConflictError ''Listing must match a stored TCB policy and its measurement'')
       (List.find (\<lambda>r. Some (tr_version (st_record r)) = li_policyVersion input) rows)) (\<lambda>policy.
     rbind (require (Some (tr_policyHash (st_record policy)) = li_policyHash input \<and> tr_measurement (st_record policy) = li_codeHash input)
       (ConflictError ''Listing must match a stored TCB policy and its measurement'')) (\<lambda>_.
     rbind (listed (list_operation_key env keyHash input (tr_policyHash (st_record policy)))) (\<lambda>(tx, i).
     rbind (require (\<bar>i\<bar> \<le> max_safe \<and> i \<le> 2147483647) (ConflictError ''Listing identifier exceeds supported database range'')) (\<lambda>_.
     Inr (Some i, tx))))))))"

definition list_on_chain ::
    "market_env \<Rightarrow> string \<Rightarrow> list_input \<Rightarrow> enclave_error + tcb_state list \<Rightarrow> (string \<Rightarrow> enclave_error + (string \<times> int)) \<Rightarrow>
       enclave_error + (string \<times> int) \<Rightarrow> enclave_error + (int option \<times> string)" where
  "list_on_chain env keyHash input history listed plain_listed =
     (if policy_bound input then list_bound env keyHash input history listed
      else if me_configured env then rmap (\<lambda>(tx, i). (Some i, tx)) plain_listed
      else Inr (None, []))"

definition new_row :: "string \<Rightarrow> list_input \<Rightarrow> int option \<Rightarrow> market_row" where
  "new_row keyHash input listingId =
     \<lparr>mw_modelHash = li_modelHash input, mw_codeHash = li_codeHash input, mw_version = li_version input, mw_provider = keyHash,
      mw_state = \<lparr>ls_approved = False, ls_revoked = False\<rparr>, mw_listingBps = li_bps input, mw_listingId = listingId\<rparr>"

definition stored_listing :: "list_input \<Rightarrow> market_row list \<Rightarrow> market_row option" where
  "stored_listing input rows = select_row (\<lambda>r. mw_modelHash r = li_modelHash input \<and> mw_codeHash r = li_codeHash input) rows"

text \<open>The insert, the unique index on both hashes, and the comparison with what is stored.\<close>

definition save_listing :: "string \<Rightarrow> list_input \<Rightarrow> int option \<Rightarrow> market_row list \<Rightarrow> (enclave_error + market_row) \<times> market_row list" where
  "save_listing keyHash input listingId rows =
     (case stored_listing input rows of
        None \<Rightarrow>
          (if case listingId of Some i \<Rightarrow> i < - 2147483648 \<or> 2147483647 < i | None \<Rightarrow> False
           then (Inl (PlainError ''integer out of range''), rows)
           else (Inr (new_row keyHash input listingId), rows @ [new_row keyHash input listingId]))
      | Some row \<Rightarrow>
          (if \<not> policy_bound input then Inl (PlainError ''duplicate key value'')
           else rmap (\<lambda>_. row) (require (mw_version row = li_version input \<and> mw_listingBps row = li_bps input \<and> mw_listingId row = listingId)
             (ConflictError ''Listing already has different immutable database metadata'')), rows))"

definition listModel ::
    "market_env \<Rightarrow> enclave_error + string \<Rightarrow> list_input \<Rightarrow> enclave_error + tcb_state list \<Rightarrow> (string \<Rightarrow> enclave_error + (string \<times> int)) \<Rightarrow>
       enclave_error + (string \<times> int) \<Rightarrow> market_row list \<Rightarrow> (enclave_error + (market_row \<times> string)) \<times> market_row list" where
  "listModel env admin input history listed plain_listed rows =
     (case rbind admin (\<lambda>keyHash. rbind (require (listingBpsValid (li_bps input)) (AppError ''INVALID_BPS'' ''listingBps must be 0..10000'' 400)) (\<lambda>_.
         rmap (Pair keyHash) (list_on_chain env keyHash input history listed plain_listed))) of
        Inl e \<Rightarrow> (Inl e, rows)
      | Inr (keyHash, listingId, tx) \<Rightarrow> (let (r, rows') = save_listing keyHash input listingId rows in (rmap (\<lambda>row. (row, tx)) r, rows')))"

section \<open>Listing under a policy on chain\<close>

definition tcb_list_prefix :: "string \<Rightarrow> string \<Rightarrow> string" where
  "tcb_list_prefix address operationKey = ''tcb-list:'' @ lower address @ '':'' @ operationKey"

definition require_success :: "enclave_error \<Rightarrow> string \<Rightarrow> token_receipt chain_io" where
  "require_success e hash = (\<lambda>w t. (rbind (cw_wait w t hash) (\<lambda>r. if tk_success r then Inr r else Inl e), t @ [Waited hash]))"

definition listed_events :: "chain_config \<Rightarrow> tcb_binding \<Rightarrow> token_receipt \<Rightarrow> int list" where
  "listed_events config b r =
     concat (map (\<lambda>l. case lg_args l of
         [VInt i, VText m, VText c, VText p] \<Rightarrow>
           if same (lg_address l) (kf_registry config) \<and> lg_name l = ''Listed'' \<and> same m (tb_modelHash b) \<and> same c (tb_codeHash b) \<and> same p (kf_account config)
           then [i] else []
       | _ \<Rightarrow> []) (tk_logs r))"

definition bound_events :: "chain_config \<Rightarrow> tcb_binding \<Rightarrow> int \<Rightarrow> token_receipt \<Rightarrow> chain_log list" where
  "bound_events config b i r =
     filter (\<lambda>l. case lg_args l of
         [VInt j, VText h, VInt v] \<Rightarrow> same (lg_address l) (kf_registry config) \<and> lg_name l = ''PolicyBound'' \<and> j = i \<and> same h (tb_policyHash b) \<and> v = tb_policyVersion b
       | _ \<Rightarrow> False) (tk_logs r)"

text \<open>\<open>supported\<close> is the answer of \<open>assertSupported\<close>.\<close>

definition listWithPolicy :: "chain_config \<Rightarrow> enclave_error + string \<Rightarrow> tcb_binding \<Rightarrow> js_number \<Rightarrow> string \<Rightarrow> (string \<times> int) chain_io" where
  "listWithPolicy config supported b bps operationKey =
     io_bind (io_lift (validate_binding b)) (\<lambda>_.
     io_bind (io_require (listingBpsValid bps) (ValidationError ''bps'')) (\<lambda>_.
     io_bind (io_require (\<not> blank operationKey \<and> length operationKey \<le> 200) (ValidationError ''operationKey'')) (\<lambda>_.
     io_bind (io_lift supported) (\<lambda>_.
     io_bind (read_int (kf_registry config) ''listingStake'' []) (\<lambda>stake.
     io_bind (if stake > 0
         then io_bind (read_text (kf_registry config) ''encl'') (\<lambda>token.
           io_bind (io_require (isConfiguredAddress (Some (kf_encl config)) \<and> same token (kf_encl config))
             (ConflictError ''Registry stake token does not match configured ENCL'')) (\<lambda>_.
           io_bind (send_durable (tcb_list_prefix (kf_registry config) operationKey @ '':approve'') (approve_call token (kf_registry config))) (\<lambda>hash.
           io_bind (require_success (ConflictError ''TCB listing stake approval reverted'') hash) (\<lambda>_. io_return ()))))
         else io_return ()) (\<lambda>_.
     io_bind (send_durable (tcb_list_prefix (kf_registry config) operationKey @ '':list'')
       (contract_call (kf_registry config) ''listWithPolicy''
          [VText (tb_modelHash b), VText (tb_codeHash b), VInt (int_of bps), VText (tb_policyHash b), VInt (tb_policyVersion b)])) (\<lambda>hash.
     io_bind (require_success (ConflictError ''TCB listing transaction reverted'') hash) (\<lambda>r.
     io_lift (case listed_events config b r of
         [i] \<Rightarrow> if i = 0 \<or> length (bound_events config b i r) \<noteq> 1 then Inl (ConflictError ''TCB listing receipt lacks the exact policy binding'') else Inr (hash, i)
       | _ \<Rightarrow> Inl (ConflictError ''TCB listing receipt lacks the exact provider/model event''))))))))))"

section \<open>The market as a system\<close>

text \<open>\<open>mn_writes\<close> are updates of the table that an operation owes after its call of the contract; \<open>mn_once\<close> are
  the listings the contract ever approved.\<close>

record market_run =
  mn_state :: market_state
  mn_writes :: "market_write list"
  mn_once :: "nat set"

definition registry_now :: "market_run \<Rightarrow> model_registry" where
  "registry_now r = mk_registry (mn_state r)"

definition now_of :: "market_run \<Rightarrow> int" where
  "now_of r = mk_now (mn_state r)"

definition with_registry :: "model_registry \<Rightarrow> market_run \<Rightarrow> market_run" where
  "with_registry g r = r\<lparr>mn_state := (mn_state r)\<lparr>mk_registry := g\<rparr>\<rparr>"

definition owe :: "market_write list \<Rightarrow> market_run \<Rightarrow> market_run" where
  "owe ws r = r\<lparr>mn_writes := mn_writes r @ ws\<rparr>"

definition approved_once :: "nat \<Rightarrow> market_run \<Rightarrow> market_run" where
  "approved_once i r = r\<lparr>mn_once := insert i (mn_once r)\<rparr>"

definition table_justified :: "market_row list \<Rightarrow> nat set \<Rightarrow> bool" where
  "table_justified rows ever \<longleftrightarrow>
     (\<forall>r \<in> set rows. ls_approved (mw_state r) \<longrightarrow> (\<exists>i \<in> ever. mw_listingId r = Some (int i)))"

inductive market_step :: "market_env \<Rightarrow> market_run \<Rightarrow> market_run \<Rightarrow> bool" for env :: market_env where
  clock: "now_of r \<le> n \<Longrightarrow> market_step env r (r\<lparr>mn_state := (mn_state r)\<lparr>mk_now := n\<rparr>\<rparr>)"
| listed: "registry_list sender (now_of r) paid m c bps (registry_now r) = Some (i, g) \<Longrightarrow> market_step env r (with_registry g r)"
| listed_bound: "registry_listWithPolicy sender (now_of r) paid m c bps h v (registry_now r) = Some (i, g) \<Longrightarrow> market_step env r (with_registry g r)"
| saved: "save_listing keyHash input lid (mk_models (mn_state r)) = (res, rows) \<Longrightarrow> market_step env r (r\<lparr>mn_state := (mn_state r)\<lparr>mk_models := rows\<rparr>\<rparr>)"
| approved: "registry_approve_listing sender (now_of r) i (registry_now r) = Some g \<Longrightarrow> set ws \<subseteq> {MarkListing True (int i)} \<Longrightarrow>
    market_step env r (owe ws (approved_once i (with_registry g r)))"
| already: "registry_state (registry_now r) i (now_of r) = Approved \<Longrightarrow> market_step env r (owe [MarkListing True (int i)] r)"
| bootstrapped: "registry_bootstrapApprove sender i (registry_now r) = Some g \<or> registry_bootstrapRestore sender i (registry_now r) = Some g \<Longrightarrow>
    market_step env r (owe ws (approved_once i (with_registry g r)))"
| revoked: "registry_revoke sender repaid i (registry_now r) = Some g \<Longrightarrow> (\<forall>w \<in> set ws. mark_state w = \<lparr>ls_approved = False, ls_revoked = True\<rparr>) \<Longrightarrow>
    market_step env r (owe ws (with_registry g r))"
| revoked_unlisted: "mark_state w = \<lparr>ls_approved = False, ls_revoked = True\<rparr> \<Longrightarrow> market_step env r (owe [w] r)"
| restored_unlisted: "local_bootstrap env = Inr () \<Longrightarrow> market_step env r (owe [w] r)"
| written: "mn_writes r = a @ w # b \<Longrightarrow> market_step env r (r\<lparr>mn_state := put_models w (mn_state r), mn_writes := a @ b\<rparr>)"
| lost: "mn_writes r = a @ w # b \<Longrightarrow> market_step env r (r\<lparr>mn_writes := a @ b\<rparr>)"
| indexed: "table_justified rows (mn_once r) \<Longrightarrow> market_step env r (r\<lparr>mn_state := (mn_state r)\<lparr>mk_models := rows\<rparr>\<rparr>)"

definition market_start :: "market_env \<Rightarrow> market_run \<Rightarrow> bool" where
  "market_start env r \<longleftrightarrow> mg_chainId (registry_now r) = me_chainId env \<and> mg_count (registry_now r) = 0
     \<and> (\<forall>i. mg_listings (registry_now r) i = None) \<and> (\<forall>m c. mg_ids (registry_now r) m c = 0)
     \<and> table_justified (mk_models (mn_state r)) {} \<and> mn_writes r = [] \<and> mn_once r = {}"

text \<open>The index by hashes points at listings of those hashes.\<close>

definition ids_ok :: "model_registry \<Rightarrow> bool" where
  "ids_ok g \<longleftrightarrow> (\<forall>i. mg_listings g i \<noteq> None \<longleftrightarrow> 0 < i \<and> i \<le> mg_count g)
     \<and> (\<forall>m c. mg_ids g m c \<noteq> 0 \<longrightarrow> (\<exists>row. mg_listings g (mg_ids g m c) = Some row \<and> lower (rl_modelHash row) = m \<and> lower (rl_codeHash row) = c))
     \<and> (\<forall>i row. mg_listings g i = Some row \<longrightarrow> mg_ids g (lower (rl_modelHash row)) (lower (rl_codeHash row)) = i)"

definition listings_ok :: "model_registry \<Rightarrow> int \<Rightarrow> nat set \<Rightarrow> bool" where
  "listings_ok g now ever \<longleftrightarrow>
     (\<forall>i row. mg_listings g i = Some row \<longrightarrow> rl_approved row \<longrightarrow> \<not> rl_revoked row \<and> i \<in> ever)
     \<and> (\<forall>i \<in> ever. \<exists>row. mg_listings g i = Some row \<and> rl_listedAt row + registry_timelock \<le> now)"

definition writes_ok :: "market_write list \<Rightarrow> nat set \<Rightarrow> bool" where
  "writes_ok ws ever \<longleftrightarrow> (\<forall>w \<in> set ws. ls_approved (mark_state w) \<longrightarrow> (\<exists>i \<in> ever. w = MarkListing True (int i)))"

definition market_ok :: "market_env \<Rightarrow> market_run \<Rightarrow> bool" where
  "market_ok env r \<longleftrightarrow> mg_chainId (registry_now r) = me_chainId env \<and> ids_ok (registry_now r)
     \<and> listings_ok (registry_now r) (now_of r) (mn_once r) \<and> writes_ok (mn_writes r) (mn_once r)
     \<and> table_justified (mk_models (mn_state r)) (mn_once r)"

text \<open>What is never undone: a listing keeps its hashes and its time, and a revocation stays.\<close>

definition market_keeps :: "market_run \<Rightarrow> market_run \<Rightarrow> bool" where
  "market_keeps r q \<longleftrightarrow> now_of r \<le> now_of q
     \<and> (\<forall>i row. mg_listings (registry_now r) i = Some row \<longrightarrow> (\<exists>row'. mg_listings (registry_now q) i = Some row'
          \<and> rl_modelHash row' = rl_modelHash row \<and> rl_codeHash row' = rl_codeHash row \<and> rl_listedAt row' = rl_listedAt row
          \<and> (rl_revoked row \<longrightarrow> rl_revoked row')))"

lemma registry_run_simps [simp]:
  "registry_now (with_registry g r) = g" "now_of (with_registry g r) = now_of r" "mn_writes (with_registry g r) = mn_writes r" "mn_once (with_registry g r) = mn_once r"
  "mk_models (mn_state (with_registry g r)) = mk_models (mn_state r)"
  "registry_now (owe ws r) = registry_now r" "now_of (owe ws r) = now_of r" "mn_writes (owe ws r) = mn_writes r @ ws" "mn_once (owe ws r) = mn_once r"
  "mn_state (owe ws r) = mn_state r"
  "registry_now (approved_once i r) = registry_now r" "now_of (approved_once i r) = now_of r" "mn_writes (approved_once i r) = mn_writes r"
  "mn_once (approved_once i r) = insert i (mn_once r)" "mn_state (approved_once i r) = mn_state r"
  by (simp_all add: registry_now_def with_registry_def now_of_def owe_def approved_once_def)

lemma set_listing_simps [simp]:
  "mg_listings (set_listing i row g) = (mg_listings g)(i := Some row)" "mg_ids (set_listing i row g) = mg_ids g"
  "mg_count (set_listing i row g) = mg_count g" "mg_chainId (set_listing i row g) = mg_chainId g"
  by (simp_all add: set_listing_def)

lemma listing_of_Some: "listing_of i g = Some row \<longleftrightarrow> mg_listings g i = Some row \<and> rl_listedAt row \<noteq> 0"
  by (auto simp: listing_of_def split: option.splits if_splits)

text \<open>Each call of the contract: what it did.\<close>

lemma registry_list_Some:
  assumes "registry_list sender now paid m c bps g = Some (i, g')"
  obtains row where "i = Suc (mg_count g)" "mg_listings g' = (mg_listings g)(i := Some row)" "mg_ids g (lower m) (lower c) = 0"
    "mg_ids g' = (mg_ids g)(lower m := (mg_ids g (lower m))(lower c := i))" "mg_count g' = i" "mg_chainId g' = mg_chainId g"
    "rl_modelHash row = m" "rl_codeHash row = c" "\<not> rl_approved row" "\<not> rl_revoked row"
  using assms by (auto simp: registry_list_def registry_ids_def Let_def split: if_splits)

lemma registry_listWithPolicy_Some:
  assumes "registry_listWithPolicy sender now paid m c bps h v g = Some (i, g')"
  obtains g1 where "registry_list sender now paid m c bps g = Some (i, g1)" "mg_listings g' = mg_listings g1" "mg_ids g' = mg_ids g1"
    "mg_count g' = mg_count g1" "mg_chainId g' = mg_chainId g1"
  using assms by (auto simp: registry_listWithPolicy_def split: if_splits prod.splits)

lemma registry_approve_Some:
  assumes "registry_approve_listing sender now i g = Some g'"
  obtains row where "mg_listings g i = Some row" "\<not> rl_revoked row" "rl_listedAt row + registry_timelock \<le> now" "g' = set_listing i (row\<lparr>rl_approved := True\<rparr>) g"
  using assms by (auto simp: registry_approve_listing_def listing_of_Some split: option.splits if_splits)

lemma registry_revoke_Some:
  assumes "registry_revoke sender repaid i g = Some g'"
  obtains row where "mg_listings g i = Some row" "g' = set_listing i (row\<lparr>rl_approved := False, rl_revoked := True, rl_staked := 0\<rparr>) g"
  using assms by (auto simp: registry_revoke_def listing_of_Some split: option.splits if_splits)

lemma registry_bootstrap_chain:
  assumes "registry_bootstrapApprove sender i g = Some g' \<or> registry_bootstrapRestore sender i g = Some g'"
  shows "mg_chainId g = 31337"
  using assms by (auto simp: registry_bootstrapApprove_def registry_bootstrapRestore_def split: option.splits if_splits)

text \<open>The invariant under each change.\<close>

lemma ids_ok_list:
  assumes "ids_ok g" and "registry_list sender now paid m c bps g = Some (i, g')"
  shows "ids_ok g'"
proof -
  from assms(2) obtain row where new: "i = Suc (mg_count g)" "mg_listings g' = (mg_listings g)(i := Some row)" "mg_ids g (lower m) (lower c) = 0"
    "mg_ids g' = (mg_ids g)(lower m := (mg_ids g (lower m))(lower c := i))" "mg_count g' = i" "rl_modelHash row = m" "rl_codeHash row = c"
    by (rule registry_list_Some)
  have old: "mg_listings g j \<noteq> None \<longleftrightarrow> 0 < j \<and> j \<le> mg_count g" for j using assms(1) by (simp add: ids_ok_def)
  have ids: "\<exists>row. mg_listings g (mg_ids g m' c') = Some row \<and> lower (rl_modelHash row) = m' \<and> lower (rl_codeHash row) = c'" if "mg_ids g m' c' \<noteq> 0" for m' c'
    using assms(1) that by (simp add: ids_ok_def)
  have rev_ids: "mg_ids g (lower (rl_modelHash q)) (lower (rl_codeHash q)) = j" if "mg_listings g j = Some q" for j q
    using assms(1) that by (simp add: ids_ok_def)
  have fresh: "mg_listings g i = None" using old [of i] new(1) by auto
  have exists: "mg_listings g' j \<noteq> None \<longleftrightarrow> 0 < j \<and> j \<le> mg_count g'" for j using old [of j] new by auto
  have forward: "\<exists>row. mg_listings g' (mg_ids g' m' c') = Some row \<and> lower (rl_modelHash row) = m' \<and> lower (rl_codeHash row) = c'" if "mg_ids g' m' c' \<noteq> 0" for m' c'
  proof (cases "m' = lower m \<and> c' = lower c")
    case True
    then show ?thesis using new by simp
  next
    case False
    then have same: "mg_ids g' m' c' = mg_ids g m' c'" by (auto simp: new(4))
    with that ids obtain q where q: "mg_listings g (mg_ids g m' c') = Some q" "lower (rl_modelHash q) = m'" "lower (rl_codeHash q) = c'" by metis
    moreover have "mg_ids g m' c' \<noteq> i" using q(1) fresh by auto
    ultimately show ?thesis by (simp add: same new(2))
  qed
  have backward: "mg_ids g' (lower (rl_modelHash q)) (lower (rl_codeHash q)) = j" if q: "mg_listings g' j = Some q" for j q
  proof (cases "j = i")
    case True
    with q have "q = row" by (simp add: new(2))
    with True show ?thesis by (simp add: new(4,6,7))
  next
    case False
    with q have q': "mg_listings g j = Some q" by (simp add: new(2))
    with rev_ids have b: "mg_ids g (lower (rl_modelHash q)) (lower (rl_codeHash q)) = j" by simp
    moreover have "j \<noteq> 0" using old [of j] q' by auto
    ultimately have "\<not> (lower (rl_modelHash q) = lower m \<and> lower (rl_codeHash q) = lower c)" using new(3) by auto
    with b show ?thesis by (auto simp: new(4))
  qed
  show ?thesis unfolding ids_ok_def using exists forward backward by simp
qed

lemma ids_ok_set:
  assumes "ids_ok g" and "mg_listings g i = Some row" and "rl_modelHash row' = rl_modelHash row" and "rl_codeHash row' = rl_codeHash row"
  shows "ids_ok (set_listing i row' g)"
  using assms unfolding ids_ok_def by (auto simp: if_split_mem2) (metis option.inject)+

lemma fresh_listing: "ids_ok g \<Longrightarrow> mg_listings g (Suc (mg_count g)) = None"
  unfolding ids_ok_def by (metis Suc_n_not_le_n)

lemma listings_ok_later: "listings_ok g now ever \<Longrightarrow> now \<le> n \<Longrightarrow> listings_ok g n ever"
  unfolding listings_ok_def by force

lemma listings_ok_list:
  assumes "listings_ok g now ever" and "ids_ok g" and "registry_list sender t paid m c bps g = Some (i, g')"
  shows "listings_ok g' now ever"
proof -
  from assms(3) obtain row where new: "i = Suc (mg_count g)" "mg_listings g' = (mg_listings g)(i := Some row)" "\<not> rl_approved row"
    by (rule registry_list_Some)
  have "mg_listings g i = None" using fresh_listing [OF assms(2)] new(1) by simp
  then show ?thesis using assms(1) unfolding listings_ok_def new(2) using new(3) by (auto split: if_splits)
qed

lemma listings_ok_approve:
  assumes "listings_ok g now ever" and "mg_listings g i = Some row" and "\<not> rl_revoked row" and "rl_listedAt row + registry_timelock \<le> now"
  shows "listings_ok (set_listing i (row\<lparr>rl_approved := True\<rparr>) g) now (insert i ever)"
  using assms unfolding listings_ok_def by auto

lemma listings_ok_revoke:
  assumes "listings_ok g now ever" and "mg_listings g i = Some row"
  shows "listings_ok (set_listing i (row\<lparr>rl_approved := False, rl_revoked := True, rl_staked := 0\<rparr>) g) now ever"
  using assms unfolding listings_ok_def by auto

lemma writes_ok_append: "writes_ok (ws @ vs) ever \<longleftrightarrow> writes_ok ws ever \<and> writes_ok vs ever"
  by (auto simp: writes_ok_def)

lemma writes_ok_insert: "writes_ok ws ever \<Longrightarrow> writes_ok ws (insert i ever)"
  by (auto simp: writes_ok_def)

lemma justified_insert: "table_justified rows ever \<Longrightarrow> table_justified rows (insert i ever)"
  by (auto simp: table_justified_def)

lemma justified_write:
  assumes "table_justified rows ever" and "writes_ok [w] ever"
  shows "table_justified (write_market w rows) ever"
  unfolding table_justified_def
proof (intro ballI impI)
  fix r assume r: "r \<in> set (write_market w rows)" and ok: "ls_approved (mw_state r)"
  from r obtain q where q: "q \<in> set rows" "(marks w q \<and> r = q\<lparr>mw_state := mark_state w\<rparr>) \<or> (\<not> marks w q \<and> r = q)"
    by (auto simp: write_market_def set_update_rows)
  show "\<exists>i\<in>ever. mw_listingId r = Some (int i)"
  proof (cases "marks w q")
    case True
    with q(2) have r: "r = q\<lparr>mw_state := mark_state w\<rparr>" by simp
    with ok have "ls_approved (mark_state w)" by simp
    with assms(2) obtain i where "i \<in> ever" "w = MarkListing True (int i)" by (auto simp: writes_ok_def)
    with True r show ?thesis by (auto simp: marks_def)
  next
    case False
    with q ok assms(1) show ?thesis by (auto simp: table_justified_def)
  qed
qed

lemma justified_save:
  assumes "table_justified rows ever" and "save_listing keyHash input lid rows = (res, rows')"
  shows "table_justified rows' ever"
  using assms by (auto simp: save_listing_def table_justified_def new_row_def split: option.splits if_splits)

lemma keeps_set:
  assumes "mg_listings (registry_now r) i = Some row" and "rl_modelHash row' = rl_modelHash row" and "rl_codeHash row' = rl_codeHash row"
    and "rl_listedAt row' = rl_listedAt row" and "rl_revoked row \<longrightarrow> rl_revoked row'"
    and "registry_now q = set_listing i row' (registry_now r)" and "now_of q = now_of r"
  shows "market_keeps r q"
  using assms by (auto simp: market_keeps_def)

lemma keeps_same: "registry_now q = registry_now r \<Longrightarrow> now_of r \<le> now_of q \<Longrightarrow> market_keeps r q"
  by (auto simp: market_keeps_def)

lemma keeps_list:
  assumes "ids_ok (registry_now r)" and "registry_list sender t paid m c bps (registry_now r) = Some (i, g)" and "mg_listings (registry_now q) = mg_listings g"
    and "now_of q = now_of r"
  shows "market_keeps r q"
proof -
  from assms(2) obtain row where new: "i = Suc (mg_count (registry_now r))" "mg_listings g = (mg_listings (registry_now r))(i := Some row)" by (rule registry_list_Some)
  have "mg_listings (registry_now r) i = None" using fresh_listing [OF assms(1)] new(1) by simp
  with assms(3,4) new(2) show ?thesis by (auto simp: market_keeps_def)
qed

lemma registry_state_approved:
  "registry_state g i now = Approved \<Longrightarrow> \<exists>row. mg_listings g i = Some row \<and> rl_approved row"
  by (auto simp: registry_state_def approval_state_of_def split: option.splits if_splits)

lemma market_step_ok:
  assumes "me_chainId env \<noteq> 31337" and "market_step env r q" and "market_ok env r"
  shows "market_ok env q \<and> market_keeps r q"
  using assms(2,3)
proof (induction rule: market_step.induct)
  case (clock r n)
  then show ?case by (auto simp: market_ok_def registry_now_def now_of_def intro: listings_ok_later intro!: keeps_same)
next
  case (listed sender r paid m c bps i g)
  from listed have ok: "ids_ok (registry_now r)" "listings_ok (registry_now r) (now_of r) (mn_once r)" by (simp_all add: market_ok_def)
  from listed(1) have "mg_chainId g = mg_chainId (registry_now r)" by (rule registry_list_Some)
  with listed(2) ids_ok_list [OF ok(1) listed(1)] listings_ok_list [OF ok(2,1) listed(1)] keeps_list [OF ok(1) listed(1)]
  show ?case by (simp add: market_ok_def)
next
  case (listed_bound sender r paid m c bps h v i g)
  from listed_bound have ok: "ids_ok (registry_now r)" "listings_ok (registry_now r) (now_of r) (mn_once r)" by (simp_all add: market_ok_def)
  from listed_bound(1) obtain g1 where g1: "registry_list sender (now_of r) paid m c bps (registry_now r) = Some (i, g1)" "mg_listings g = mg_listings g1"
    "mg_ids g = mg_ids g1" "mg_count g = mg_count g1" "mg_chainId g = mg_chainId g1" by (rule registry_listWithPolicy_Some)
  from g1(1) have "mg_chainId g1 = mg_chainId (registry_now r)" by (rule registry_list_Some)
  moreover have "ids_ok g = ids_ok g1" "listings_ok g n e = listings_ok g1 n e" for n e using g1 by (simp_all add: ids_ok_def listings_ok_def)
  ultimately show ?case
    using listed_bound(2) ids_ok_list [OF ok(1) g1(1)] listings_ok_list [OF ok(2,1) g1(1)] keeps_list [OF ok(1) g1(1)] g1(2,5) by (simp add: market_ok_def)
next
  case (saved keyHash input lid r res rows)
  then show ?case using justified_save [of "mk_models (mn_state r)" "mn_once r" keyHash input lid res rows]
    by (auto simp: market_ok_def registry_now_def now_of_def intro!: keeps_same)
next
  case (approved sender r i g ws)
  from approved(1) obtain row where row: "mg_listings (registry_now r) i = Some row" "\<not> rl_revoked row" "rl_listedAt row + registry_timelock \<le> now_of r"
    "g = set_listing i (row\<lparr>rl_approved := True\<rparr>) (registry_now r)" by (rule registry_approve_Some)
  have "writes_ok ws (insert i (mn_once r))" using approved(2) by (auto simp: writes_ok_def)
  with approved(3) have "market_ok env (owe ws (approved_once i (with_registry g r)))"
    using listings_ok_approve [OF _ row(1-3)] ids_ok_set [OF _ row(1)]
    by (simp add: market_ok_def row(4) writes_ok_append writes_ok_insert justified_insert)
  moreover have "market_keeps r (owe ws (approved_once i (with_registry g r)))"
    by (rule keeps_set [OF row(1), of "row\<lparr>rl_approved := True\<rparr>"]) (simp_all add: row(4))
  ultimately show ?case by simp
next
  case (already r i)
  then obtain row where "mg_listings (registry_now r) i = Some row" "rl_approved row" using registry_state_approved by blast
  with already(2) have "i \<in> mn_once r" by (auto simp: market_ok_def listings_ok_def)
  then have "writes_ok [MarkListing True (int i)] (mn_once r)" by (auto simp: writes_ok_def)
  with already(2) show ?case by (simp add: market_ok_def writes_ok_append keeps_same)
next
  case (bootstrapped sender i r g ws)
  with assms(1) registry_bootstrap_chain [OF bootstrapped(1)] show ?case by (simp add: market_ok_def)
next
  case (revoked sender repaid i r g ws)
  from revoked(1) obtain row where row: "mg_listings (registry_now r) i = Some row"
    "g = set_listing i (row\<lparr>rl_approved := False, rl_revoked := True, rl_staked := 0\<rparr>) (registry_now r)" by (rule registry_revoke_Some)
  have "writes_ok ws (mn_once r)" using revoked(2) by (auto simp: writes_ok_def)
  with revoked(3) have "market_ok env (owe ws (with_registry g r))"
    using listings_ok_revoke [OF _ row(1)] ids_ok_set [OF _ row(1)] by (simp add: market_ok_def row(2) writes_ok_append)
  moreover have "market_keeps r (owe ws (with_registry g r))"
    by (rule keeps_set [OF row(1), of "row\<lparr>rl_approved := False, rl_revoked := True, rl_staked := 0\<rparr>"]) (simp_all add: row(2))
  ultimately show ?case by simp
next
  case (revoked_unlisted w r)
  then have "writes_ok [w] (mn_once r)" by (simp add: writes_ok_def)
  with revoked_unlisted show ?case by (simp add: market_ok_def writes_ok_append keeps_same)
next
  case (restored_unlisted r w)
  with assms(1) show ?case by (simp add: local_bootstrap_def res_simps)
next
  case (written r a w b)
  then have ok: "writes_ok (a @ b) (mn_once r)" "writes_ok [w] (mn_once r)" "table_justified (mk_models (mn_state r)) (mn_once r)"
    by (auto simp: market_ok_def writes_ok_def)
  with written(2) justified_write [OF ok(3,2)] show ?case
    by (auto simp: market_ok_def put_models_def registry_now_def now_of_def intro!: keeps_same)
next
  case (lost r a w b)
  then have "writes_ok (a @ b) (mn_once r)" by (auto simp: market_ok_def writes_ok_def)
  with lost(2) show ?case by (auto simp: market_ok_def registry_now_def now_of_def intro!: keeps_same)
next
  case (indexed rows r)
  then show ?case by (auto simp: market_ok_def registry_now_def now_of_def intro!: keeps_same)
qed

lemma keeps_transitive:
  assumes "market_keeps r q" and "market_keeps q t"
  shows "market_keeps r t"
  unfolding market_keeps_def
proof (intro conjI allI impI)
  show "now_of r \<le> now_of t" using assms by (simp add: market_keeps_def)
  fix i row assume "mg_listings (registry_now r) i = Some row"
  with assms(1) obtain row1 where one: "mg_listings (registry_now q) i = Some row1" "rl_modelHash row1 = rl_modelHash row" "rl_codeHash row1 = rl_codeHash row"
    "rl_listedAt row1 = rl_listedAt row" "rl_revoked row \<longrightarrow> rl_revoked row1" unfolding market_keeps_def by blast
  from assms(2) one(1) obtain row2 where "mg_listings (registry_now t) i = Some row2" "rl_modelHash row2 = rl_modelHash row1" "rl_codeHash row2 = rl_codeHash row1"
    "rl_listedAt row2 = rl_listedAt row1" "rl_revoked row1 \<longrightarrow> rl_revoked row2" unfolding market_keeps_def by blast
  with one show "\<exists>row'. mg_listings (registry_now t) i = Some row' \<and> rl_modelHash row' = rl_modelHash row \<and> rl_codeHash row' = rl_codeHash row
      \<and> rl_listedAt row' = rl_listedAt row \<and> (rl_revoked row \<longrightarrow> rl_revoked row')" by simp
qed

interpretation market: history_system "\<lambda>r. market_start env r \<and> me_chainId env \<noteq> 31337" "market_step env"
  "\<lambda>r. market_ok env r \<and> me_chainId env \<noteq> 31337" market_keeps for env
proof unfold_locales
  show "market_ok env r \<and> me_chainId env \<noteq> 31337" if "market_start env r \<and> me_chainId env \<noteq> 31337" for r
    using that by (auto simp: market_start_def market_ok_def ids_ok_def listings_ok_def writes_ok_def)
  show "market_keeps r r" for r by (rule keeps_same) simp_all
  show "market_keeps r t" if "market_keeps r q" "market_keeps q t" for r q t by (rule keeps_transitive [OF that])
  show "market_keeps r q" if "market_ok env r \<and> me_chainId env \<noteq> 31337" "market_step env r q" for r q
    using that market_step_ok by blast
  show "market_ok env q \<and> me_chainId env \<noteq> 31337" if "market_ok env r \<and> me_chainId env \<noteq> 31337" "market_step env r q" for r q
    using that market_step_ok by blast
qed

section \<open>Operations are paths\<close>

text \<open>From \<open>s\<close> the system can get to \<open>s'\<close>, whatever writes are owed meanwhile.\<close>

definition path :: "market_env \<Rightarrow> market_state \<Rightarrow> market_state \<Rightarrow> bool" where
  "path env s s' \<longleftrightarrow> (\<forall>ws ever. \<exists>more ever'. (market_step env)\<^sup>*\<^sup>* \<lparr>mn_state = s, mn_writes = ws, mn_once = ever\<rparr>
     \<lparr>mn_state = s', mn_writes = ws @ more, mn_once = ever'\<rparr>)"

lemma path_refl: "path env s s"
  unfolding path_def by (intro allI exI [of _ "[]"]) (auto intro: exI)

lemma path_trans:
  assumes "path env s t" and "path env t u"
  shows "path env s u"
  unfolding path_def
proof (intro allI)
  fix ws ever
  from assms(1) obtain more ever1 where one: "(market_step env)\<^sup>*\<^sup>* \<lparr>mn_state = s, mn_writes = ws, mn_once = ever\<rparr> \<lparr>mn_state = t, mn_writes = ws @ more, mn_once = ever1\<rparr>"
    unfolding path_def by blast
  from assms(2) obtain more2 ever2 where "(market_step env)\<^sup>*\<^sup>* \<lparr>mn_state = t, mn_writes = ws @ more, mn_once = ever1\<rparr> \<lparr>mn_state = u, mn_writes = (ws @ more) @ more2, mn_once = ever2\<rparr>"
    unfolding path_def by blast
  with one have "(market_step env)\<^sup>*\<^sup>* \<lparr>mn_state = s, mn_writes = ws, mn_once = ever\<rparr> \<lparr>mn_state = u, mn_writes = ws @ (more @ more2), mn_once = ever2\<rparr>" by (simp add: rtranclp_trans)
  then show "\<exists>more ever'. (market_step env)\<^sup>*\<^sup>* \<lparr>mn_state = s, mn_writes = ws, mn_once = ever\<rparr> \<lparr>mn_state = u, mn_writes = ws @ more, mn_once = ever'\<rparr>" by blast
qed

text \<open>A call that owes a write, what others do, and the write.\<close>

lemma path_owed:
  assumes "\<And>ws ever. \<exists>ever'. market_step env \<lparr>mn_state = s, mn_writes = ws, mn_once = ever\<rparr> \<lparr>mn_state = t, mn_writes = ws @ [w], mn_once = ever'\<rparr>"
    and "path env t u"
  shows "path env s (put_models w u)"
  unfolding path_def
proof (intro allI)
  fix ws ever
  from assms(1) obtain ever1 where one: "market_step env \<lparr>mn_state = s, mn_writes = ws, mn_once = ever\<rparr> \<lparr>mn_state = t, mn_writes = ws @ [w], mn_once = ever1\<rparr>" by blast
  from assms(2) obtain more ever2 where two: "(market_step env)\<^sup>*\<^sup>* \<lparr>mn_state = t, mn_writes = ws @ [w], mn_once = ever1\<rparr> \<lparr>mn_state = u, mn_writes = (ws @ [w]) @ more, mn_once = ever2\<rparr>"
    unfolding path_def by blast
  have "market_step env \<lparr>mn_state = u, mn_writes = (ws @ [w]) @ more, mn_once = ever2\<rparr> \<lparr>mn_state = put_models w u, mn_writes = ws @ more, mn_once = ever2\<rparr>"
    using written [of "\<lparr>mn_state = u, mn_writes = (ws @ [w]) @ more, mn_once = ever2\<rparr>" ws w more env] by simp
  with one two have "(market_step env)\<^sup>*\<^sup>* \<lparr>mn_state = s, mn_writes = ws, mn_once = ever\<rparr> \<lparr>mn_state = put_models w u, mn_writes = ws @ more, mn_once = ever2\<rparr>"
    by (meson converse_rtranclp_into_rtranclp rtranclp.rtrancl_into_rtrancl)
  then show "\<exists>more ever'. (market_step env)\<^sup>*\<^sup>* \<lparr>mn_state = s, mn_writes = ws, mn_once = ever\<rparr> \<lparr>mn_state = put_models w u, mn_writes = ws @ more, mn_once = ever'\<rparr>" by blast
qed

text \<open>A call whose outcome the operation did not see.\<close>

lemma path_unseen:
  assumes "\<And>ws ever. \<exists>ever'. market_step env \<lparr>mn_state = s, mn_writes = ws, mn_once = ever\<rparr> \<lparr>mn_state = t, mn_writes = ws, mn_once = ever'\<rparr>"
  shows "path env s t"
  unfolding path_def
proof (intro allI)
  fix ws ever
  from assms obtain ever1 where "market_step env \<lparr>mn_state = s, mn_writes = ws, mn_once = ever\<rparr> \<lparr>mn_state = t, mn_writes = ws, mn_once = ever1\<rparr>" by blast
  then have "(market_step env)\<^sup>*\<^sup>* \<lparr>mn_state = s, mn_writes = ws, mn_once = ever\<rparr> \<lparr>mn_state = t, mn_writes = ws @ [], mn_once = ever1\<rparr>" by auto
  then show "\<exists>more ever'. (market_step env)\<^sup>*\<^sup>* \<lparr>mn_state = s, mn_writes = ws, mn_once = ever\<rparr> \<lparr>mn_state = t, mn_writes = ws @ more, mn_once = ever'\<rparr>" by blast
qed

lemma approve_steps:
  assumes "registry_approve_listing sender (mk_now s) i (mk_registry s) = Some g" and "set vs \<subseteq> {MarkListing True (int i)}"
  shows "\<exists>ever'. market_step env \<lparr>mn_state = s, mn_writes = ws, mn_once = ever\<rparr> \<lparr>mn_state = s\<lparr>mk_registry := g\<rparr>, mn_writes = ws @ vs, mn_once = ever'\<rparr>"
  using approved [of sender "\<lparr>mn_state = s, mn_writes = ws, mn_once = ever\<rparr>" i g vs env] assms
  by (auto simp: owe_def approved_once_def with_registry_def now_of_def registry_now_def)

lemma revoke_steps:
  assumes "registry_revoke sender repaid i (mk_registry s) = Some g" and "\<forall>w \<in> set vs. mark_state w = \<lparr>ls_approved = False, ls_revoked = True\<rparr>"
  shows "\<exists>ever'. market_step env \<lparr>mn_state = s, mn_writes = ws, mn_once = ever\<rparr> \<lparr>mn_state = s\<lparr>mk_registry := g\<rparr>, mn_writes = ws @ vs, mn_once = ever'\<rparr>"
  using revoked [of sender repaid i "\<lparr>mn_state = s, mn_writes = ws, mn_once = ever\<rparr>" g vs env] assms
  by (auto simp: owe_def with_registry_def registry_now_def)

lemma registry_tx_cases:
  assumes "registry_tx f fate s = (res, s')"
  obtains (seen) h g where "res = Inr h" "f (mk_registry s) = Some g" "s' = s\<lparr>mk_registry := g\<rparr>"
  | (unseen) e g where "res = Inl e" "f (mk_registry s) = Some g" "s' = s\<lparr>mk_registry := g\<rparr>"
  | (none) e where "res = Inl e" "s' = s"
  using assms
  by (cases fate; cases "f (mk_registry s)") (auto simp: registry_tx_def apply_registry_def split: if_splits)

lemma approveListing_path:
  assumes "\<And>k s. path env s (between k s)" and "approveListing env admin i fate between s = (res, s')"
  shows "path env s s'"
proof (cases "rbind admin (\<lambda>_. rbind (listingApprovalStatus env i s) (\<lambda>st. rmap (\<lambda>_. st) (approval_allowed st)))")
  case (Inl e)
  with assms(2) show ?thesis by (simp add: approveListing_def path_refl)
next
  case (Inr st)
  then have st: "registry_state (mk_registry s) i (mk_now s) = st" by (auto simp: listingApprovalStatus_def Let_def res_simps)
  show ?thesis
  proof (cases "st = Approved")
    case True
    with Inr assms(2) have s': "s' = put_models (MarkListing True (int i)) (between 1 s)" by (simp add: approveListing_def)
    have "\<exists>ever'. market_step env \<lparr>mn_state = s, mn_writes = ws, mn_once = ever\<rparr> \<lparr>mn_state = s, mn_writes = ws @ [MarkListing True (int i)], mn_once = ever'\<rparr>" for ws ever
      using already [of "\<lparr>mn_state = s, mn_writes = ws, mn_once = ever\<rparr>" i env] st True by (auto simp: registry_now_def now_of_def owe_def)
    then show ?thesis unfolding s' by (rule path_owed) (rule assms(1))
  next
    case False
    let ?f = "\<lambda>g. registry_approve_listing (me_account env) (mk_now (between 0 s)) i g"
    obtain tr q where tr: "registry_tx ?f fate (between 0 s) = (tr, q)" by force
    from tr have "path env (between 0 s) s'"
    proof (cases rule: registry_tx_cases)
      case (seen h g)
      then have s': "s' = put_models (MarkListing True (int i)) (between 1 q)" using assms(2) Inr False tr by (simp add: approveListing_def)
      from approve_steps [OF seen(2)] have "\<exists>ever'. market_step env \<lparr>mn_state = between 0 s, mn_writes = ws, mn_once = ever\<rparr> \<lparr>mn_state = q, mn_writes = ws @ [MarkListing True (int i)], mn_once = ever'\<rparr>" for ws ever
        by (simp add: seen(3))
      then show ?thesis unfolding s' by (rule path_owed) (rule assms(1))
    next
      case (unseen e g)
      then have s': "s' = q" using assms(2) Inr False tr by (simp add: approveListing_def)
      from approve_steps [OF unseen(2), of "[]"] have "\<exists>ever'. market_step env \<lparr>mn_state = between 0 s, mn_writes = ws, mn_once = ever\<rparr> \<lparr>mn_state = q, mn_writes = ws, mn_once = ever'\<rparr>" for ws ever
        by (simp add: unseen(3))
      then show ?thesis unfolding s' by (rule path_unseen)
    next
      case (none e)
      then have "s' = between 0 s" using assms(2) Inr False tr by (simp add: approveListing_def)
      then show ?thesis by (simp add: path_refl)
    qed
    with assms(1) show ?thesis by (rule path_trans)
  qed
qed

lemma revoking_path:
  assumes "\<And>k s. path env s (between k s)" and "registry_tx (registry_revoke sender repaid i) fate (between 0 s) = (tr, q)"
    and "mark_state w = \<lparr>ls_approved = False, ls_revoked = True\<rparr>"
    and "s' = (case tr of Inl e \<Rightarrow> q | Inr _ \<Rightarrow> put_models w (between 1 q))"
  shows "path env s s'"
proof -
  from assms(2) have "path env (between 0 s) s'"
  proof (cases rule: registry_tx_cases)
    case (seen h g)
    then have s': "s' = put_models w (between 1 q)" using assms(4) by simp
    from revoke_steps [OF seen(2), of "[w]"] assms(3) have "\<exists>ever'. market_step env \<lparr>mn_state = between 0 s, mn_writes = ws, mn_once = ever\<rparr> \<lparr>mn_state = q, mn_writes = ws @ [w], mn_once = ever'\<rparr>" for ws ever
      by (simp add: seen(3))
    then show ?thesis unfolding s' by (rule path_owed) (rule assms(1))
  next
    case (unseen e g)
    then have s': "s' = q" using assms(4) by simp
    from revoke_steps [OF unseen(2), of "[]"] have "\<exists>ever'. market_step env \<lparr>mn_state = between 0 s, mn_writes = ws, mn_once = ever\<rparr> \<lparr>mn_state = q, mn_writes = ws, mn_once = ever'\<rparr>" for ws ever
      by (simp add: unseen(3))
    then show ?thesis unfolding s' by (rule path_unseen)
  next
    case (none e)
    with assms(4) show ?thesis by (simp add: path_refl)
  qed
  with assms(1) show ?thesis by (rule path_trans)
qed

lemma unlisted_path:
  assumes "\<And>k s. path env s (between k s)" and "mark_state w = \<lparr>ls_approved = False, ls_revoked = True\<rparr>"
  shows "path env s (put_models w (between 1 s))"
proof -
  have "\<exists>ever'. market_step env \<lparr>mn_state = s, mn_writes = ws, mn_once = ever\<rparr> \<lparr>mn_state = s, mn_writes = ws @ [w], mn_once = ever'\<rparr>" for ws ever
    using revoked_unlisted [OF assms(2), of env "\<lparr>mn_state = s, mn_writes = ws, mn_once = ever\<rparr>"] by (auto simp: owe_def)
  then show ?thesis by (rule path_owed) (rule assms(1))
qed

lemma revokeListing_path:
  assumes "\<And>k s. path env s (between k s)" and "revokeListing env admin i repaid fate between s = (res, s')"
  shows "path env s s'"
proof (cases admin)
  case (Inl e)
  with assms(2) show ?thesis by (simp add: revokeListing_def path_refl)
next
  case (Inr a)
  have mark: "mark_state (MarkListing False (int i)) = \<lparr>ls_approved = False, ls_revoked = True\<rparr>" by (simp add: mark_state_def)
  show ?thesis
  proof (cases "me_configured env")
    case True
    obtain tr q where tr: "registry_tx (registry_revoke (me_account env) repaid i) fate (between 0 s) = (tr, q)" by force
    with assms(2) Inr True have "s' = (case tr of Inl e \<Rightarrow> q | Inr _ \<Rightarrow> put_models (MarkListing False (int i)) (between 1 q))"
      by (simp add: revokeListing_def split: sum.splits)
    with assms(1) tr mark show ?thesis by (rule revoking_path)
  next
    case False
    with assms(2) Inr have "s' = put_models (MarkListing False (int i)) (between 1 s)" by (simp add: revokeListing_def)
    then show ?thesis using unlisted_path [OF assms(1) mark] by simp
  qed
qed

lemma revokeServingModel_path:
  assumes "\<And>k s. path env s (between k s)" and "revokeServingModel env admin repaid fate between s = (res, s')"
  shows "path env s s'"
proof (cases admin)
  case (Inl e)
  with assms(2) show ?thesis by (simp add: revokeServingModel_def path_refl)
next
  case (Inr a)
  let ?w = "MarkServing False (me_modelHash env) (me_codeHash env)"
  have mark: "mark_state ?w = \<lparr>ls_approved = False, ls_revoked = True\<rparr>" by (simp add: mark_state_def)
  show ?thesis
  proof (cases "serving_listing_id env s")
    case (Some i)
    obtain tr q where tr: "registry_tx (registry_revoke (me_account env) repaid i) fate (between 0 s) = (tr, q)" by force
    with assms(2) Inr Some have "s' = (case tr of Inl e \<Rightarrow> q | Inr _ \<Rightarrow> put_models ?w (between 1 q))"
      by (cases tr) (auto simp: revokeServingModel_def)
    with assms(1) tr mark show ?thesis by (rule revoking_path)
  next
    case None
    with assms(2) Inr have "s' = put_models ?w (between 1 s)" by (simp add: revokeServingModel_def)
    then show ?thesis using unlisted_path [OF assms(1) mark] by simp
  qed
qed

section \<open>What is served\<close>

text \<open>The market's part of \<open>assertServingApproved\<close>: the contract now, and the table.\<close>

definition serving_gate :: "market_env \<Rightarrow> market_state \<Rightarrow> bool" where
  "serving_gate env s \<longleftrightarrow> (me_configured env \<longrightarrow> registry_isApproved (mk_registry s) (me_modelHash env) (me_codeHash env))
     \<and> modelServingAllowed (map_option mw_state (serving_market_row env s))"

lemma select_map: "select_row P (map f rows) = map_option f (select_row (\<lambda>r. P (f r)) rows)"
  by (induction rows) simp_all

lemma assertServingApproved_gate:
  assumes "assertServingApproved senv w st db = Inr u" and "sn_marketplace senv = me_configured env"
    and "cv_modelHash (sn_cvm senv) = me_modelHash env" and "cv_codeHash (sn_cvm senv) = me_codeHash env"
    and "sw_onChain w = Inr (registry_isApproved (mk_registry s) (me_modelHash env) (me_codeHash env))"
    and "sd_models db = map market_listing (mk_models s)"
  shows "serving_gate env s"
proof -
  have "map_option ml_state (serving_row senv db) = map_option mw_state (serving_market_row env s)"
    by (simp add: serving_row_def serving_market_row_def assms(3,4,6) select_map market_listing_def option.map_comp comp_def)
  with assms(1,2,5) show ?thesis
    by (auto simp: assertServingApproved_def serving_gate_def res_simps split: if_splits)
qed

lemma approved_listing:
  assumes "ids_ok g" and "registry_isApproved g m c"
  obtains i row where "mg_listings g i = Some row" "rl_approved row" "same (rl_modelHash row) m" "same (rl_codeHash row) c"
proof -
  let ?i = "registry_ids g m c"
  from assms(2) obtain row where row: "?i \<noteq> 0" "mg_listings g ?i = Some row" "rl_approved row"
    by (auto simp: registry_isApproved_def Let_def split: option.splits)
  with assms(1) have "lower (rl_modelHash row) = lower m \<and> lower (rl_codeHash row) = lower c"
    unfolding ids_ok_def registry_ids_def by (metis option.inject)
  with row show ?thesis by (intro that [of ?i row]) (simp_all add: same_def)
qed

text \<open>Claim C21. Away from the local chain a model is served only while the contract approves its listing, which was
  listed at least the timelock ago and is not revoked; and its row in the table was approved for a listing that
  the contract approved.\<close>

theorem served_model_waited:
  assumes "reachable (\<lambda>r. market_start env r \<and> me_chainId env \<noteq> 31337) (market_step env) r"
    and "me_configured env" and "serving_gate env (mn_state r)"
  shows "\<exists>i row j t. mg_listings (registry_now r) i = Some row \<and> same (rl_modelHash row) (me_modelHash env) \<and> same (rl_codeHash row) (me_codeHash env)
    \<and> rl_approved row \<and> \<not> rl_revoked row \<and> rl_listedAt row + registry_timelock \<le> now_of r
    \<and> serving_market_row env (mn_state r) = Some t \<and> mw_listingId t = Some (int j) \<and> j \<in> mn_once r"
proof -
  have ok: "ids_ok (registry_now r)" "listings_ok (registry_now r) (now_of r) (mn_once r)" "table_justified (mk_models (mn_state r)) (mn_once r)"
    using market.inv_reachable [OF assms(1)] by (simp_all add: market_ok_def)
  from assms(2,3) have "registry_isApproved (registry_now r) (me_modelHash env) (me_codeHash env)" by (simp add: serving_gate_def registry_now_def)
  with ok(1) obtain i row where row: "mg_listings (registry_now r) i = Some row" "rl_approved row"
    "same (rl_modelHash row) (me_modelHash env)" "same (rl_codeHash row) (me_codeHash env)" by (rule approved_listing)
  with ok(2) have "\<not> rl_revoked row" "i \<in> mn_once r" by (auto simp: listings_ok_def)
  with ok(2) row(1) have "rl_listedAt row + registry_timelock \<le> now_of r" unfolding listings_ok_def by (metis option.inject)
  moreover from assms(3) obtain t where t: "serving_market_row env (mn_state r) = Some t" "ls_approved (mw_state t)"
    by (auto simp: serving_gate_def modelServingAllowed_def split: option.splits)
  then have "t \<in> set (mk_models (mn_state r))" by (auto simp: serving_market_row_def dest: select_row_Some)
  with t(2) ok(3) obtain j where "mw_listingId t = Some (int j)" "j \<in> mn_once r" by (auto simp: table_justified_def)
  ultimately show ?thesis using row t(1) \<open>\<not> rl_revoked row\<close> by blast
qed

text \<open>Claim C22. A revocation is final away from the local chain: from the moment the contract has revoked the listing
  of the served model no later state serves it, whatever approvals, repeated listings, writes and index
  updates were under way.\<close>

theorem revoked_model_never_served:
  assumes "reachable (\<lambda>r. market_start env r \<and> me_chainId env \<noteq> 31337) (market_step env) r"
    and "me_configured env" and "mg_listings (registry_now r) i = Some row" and "rl_revoked row"
    and "same (rl_modelHash row) (me_modelHash env)" and "same (rl_codeHash row) (me_codeHash env)"
    and "(market_step env)\<^sup>*\<^sup>* r q"
  shows "\<not> serving_gate env (mn_state q)"
proof
  assume "serving_gate env (mn_state q)"
  with assms(2) have "registry_isApproved (registry_now q) (me_modelHash env) (me_codeHash env)" by (simp add: serving_gate_def registry_now_def)
  moreover have "market_ok env r \<and> me_chainId env \<noteq> 31337" by (rule market.inv_reachable [OF assms(1)])
  with assms(7) have ok: "market_ok env q \<and> me_chainId env \<noteq> 31337" by (rule market.inv_run)
  then have ids: "ids_ok (registry_now q)" by (simp add: market_ok_def)
  moreover have "market_keeps r q" by (rule market.keeps_from_reachable [OF assms(1,7)])
  with assms(3,4) obtain row' where row': "mg_listings (registry_now q) i = Some row'" "rl_modelHash row' = rl_modelHash row"
    "rl_codeHash row' = rl_codeHash row" "rl_revoked row'" unfolding market_keeps_def by blast
  moreover from ids row' assms(5,6) have "registry_ids (registry_now q) (me_modelHash env) (me_codeHash env) = i"
    unfolding ids_ok_def registry_ids_def same_def by metis
  ultimately show False by (auto simp: registry_isApproved_def Let_def)
qed

section \<open>A race of approval and revocation\<close>

definition demo_market_env :: market_env where
  "demo_market_env = \<lparr>me_configured = True, me_localBootstrap = False, me_chainId = 5, me_account = ''0x1'', me_modelHash = ''0xa'', me_codeHash = ''0xb'',
     me_sha = (\<lambda>b. b)\<rparr>"

definition demo_registry :: model_registry where
  "demo_registry = \<lparr>mg_owner = ''0x1'', mg_chainId = 5, mg_encl = ''0x2'', mg_listingStake = 0, mg_count = 0, mg_listings = (\<lambda>_. None),
     mg_ids = (\<lambda>_ _. 0), mg_policies = (\<lambda>_. None)\<rparr>"

definition demo_market_start :: market_run where
  "demo_market_start = \<lparr>mn_state = \<lparr>mk_registry = demo_registry, mk_models = [], mk_now = 400\<rparr>, mn_writes = [], mn_once = {}\<rparr>"

definition demo_list_input :: list_input where
  "demo_list_input = \<lparr>li_modelHash = ''0xa'', li_codeHash = ''0xb'', li_version = ''1'', li_bps = JInt 100, li_policyHash = None,
     li_policyVersion = None, li_idempotencyKey = None\<rparr>"

text \<open>The model is listed, its row stored, and the timelock over.\<close>

definition demo_listed :: market_state where
  "demo_listed = \<lparr>mk_registry = snd (the (registry_list ''0x1'' 400 True ''0xa'' ''0xb'' 100 demo_registry)),
     mk_models = snd (save_listing ''k'' demo_list_input (Some 1) []), mk_now = 5000\<rparr>"

definition demo_approved :: market_state where
  "demo_approved = snd (approveListing demo_market_env (Inr ''k'') 1 (SeenTx ''0xt'') (\<lambda>k s. s) demo_listed)"

definition demo_revoke :: "market_state \<Rightarrow> market_state" where
  "demo_revoke s = snd (revokeListing demo_market_env (Inr ''k'') 1 True (SeenTx ''0xr'') (\<lambda>k s. s) s)"

text \<open>The approval reads the contract, a complete revocation runs, and the approval writes the table.\<close>

definition demo_race :: "(enclave_error + (nat \<times> string option)) \<times> market_state" where
  "demo_race = approveListing demo_market_env (Inr ''k'') 1 (SeenTx ''0xt'') (\<lambda>k s. if k = 1 then demo_revoke s else s) demo_approved"

text \<open>An approval that races a revocation reports success and leaves the revoked model in the public list of
  models; it is not served.\<close>

definition demo_row :: "bool \<Rightarrow> bool \<Rightarrow> registry_listing" where
  "demo_row ok gone = \<lparr>rl_modelHash = ''0xa'', rl_codeHash = ''0xb'', rl_provider = ''0x1'', rl_listedAt = 400, rl_bps = 100, rl_staked = 0,
     rl_approved = ok, rl_revoked = gone\<rparr>"

definition demo_registry_with :: "registry_listing \<Rightarrow> model_registry" where
  "demo_registry_with row = demo_registry\<lparr>mg_count := 1, mg_listings := (\<lambda>_. None)(1 := Some row), mg_ids := (\<lambda>_ _. 0)(''0xa'' := (\<lambda>_. 0)(''0xb'' := 1))\<rparr>"

definition demo_table :: "bool \<Rightarrow> bool \<Rightarrow> market_row list" where
  "demo_table ok gone = [\<lparr>mw_modelHash = ''0xa'', mw_codeHash = ''0xb'', mw_version = ''1'', mw_provider = ''k'', mw_state = \<lparr>ls_approved = ok, ls_revoked = gone\<rparr>,
     mw_listingBps = JInt 100, mw_listingId = Some 1\<rparr>]"

lemma demo_market_lower: "lower ''0xa'' = ''0xa''" "lower ''0xb'' = ''0xb''" "\<not> same ''0xa'' zeroHash" "\<not> same ''0xb'' zeroHash"
  by (simp_all add: lower_def lower_char_def same_def zeroHash_def numeral_eq_Suc)

lemma demo_hex: "hex_number ''1'' = 1"
  by (simp add: hex_number_def hex_value_def is_digit_def)

lemma demo_list_result: "registry_list ''0x1'' 400 True ''0xa'' ''0xb'' 100 demo_registry = Some (Suc 0, demo_registry_with (demo_row False False))"
  by (simp add: registry_list_def demo_market_lower demo_registry_def registry_ids_def demo_registry_with_def demo_row_def)

lemma demo_listed_value: "demo_listed = \<lparr>mk_registry = demo_registry_with (demo_row False False), mk_models = demo_table False False, mk_now = 5000\<rparr>"
  by (simp add: demo_listed_def demo_list_result save_listing_def stored_listing_def new_row_def demo_list_input_def demo_table_def)

lemma demo_registry_simps:
  "mg_listings (demo_registry_with row) (Suc 0) = Some row" "mg_owner (demo_registry_with row) = ''0x1''" "set_listing (Suc 0) row' (demo_registry_with row) = demo_registry_with row'"
  by (simp_all add: demo_registry_with_def demo_registry_def set_listing_def)

lemma demo_approve: "registry_approve_listing ''0x1'' 5000 (Suc 0) (demo_registry_with (demo_row False False)) = Some (demo_registry_with (demo_row True False))"
  by (simp add: registry_approve_listing_def listing_of_def demo_registry_simps, simp add: demo_row_def registry_timelock_def uint64_max_def)

lemma demo_revoked: "registry_revoke ''0x1'' True (Suc 0) (demo_registry_with (demo_row True False)) = Some (demo_registry_with (demo_row False True))"
  by (simp add: registry_revoke_def listing_of_def demo_registry_simps, simp add: demo_row_def)

lemma demo_registry_states:
  "registry_state (demo_registry_with (demo_row ok gone)) (Suc 0) 5000 = (if gone then Revoked else if ok then Approved else Ready)"
  by (simp add: registry_state_def demo_registry_simps, simp add: demo_row_def approval_state_of_def demo_hex registry_timelock_def)

lemma demo_mark: "write_market (MarkListing b 1) (demo_table ok gone) = demo_table b (\<not> b)"
  by (simp add: write_market_def demo_table_def marks_def mark_state_def)

lemma demo_env_simps: "me_configured demo_market_env" "me_account demo_market_env = ''0x1''" "me_modelHash demo_market_env = ''0xa''" "me_codeHash demo_market_env = ''0xb''"
  by (simp_all add: demo_market_env_def)

lemma demo_approved_value: "demo_approved = \<lparr>mk_registry = demo_registry_with (demo_row True False), mk_models = demo_table True False, mk_now = 5000\<rparr>"
  by (simp add: demo_approved_def approveListing_def demo_listed_value listingApprovalStatus_def demo_env_simps demo_registry_states approval_allowed_def
      registry_tx_def apply_registry_def demo_approve put_models_def demo_mark)

lemma demo_revoke_value: "demo_revoke \<lparr>mk_registry = demo_registry_with (demo_row True False), mk_models = demo_table True False, mk_now = 5000\<rparr> = \<lparr>mk_registry = demo_registry_with (demo_row False True), mk_models = demo_table False True, mk_now = 5000\<rparr>"
  by (simp add: demo_revoke_def revokeListing_def demo_env_simps registry_tx_def apply_registry_def demo_revoked put_models_def demo_mark)

lemma demo_gate: "serving_gate demo_market_env \<lparr>mk_registry = demo_registry_with (demo_row ok gone), mk_models = demo_table up down, mk_now = n\<rparr>
    \<longleftrightarrow> ok \<and> \<not> gone \<and> up \<and> \<not> down"
  by (simp add: serving_gate_def demo_env_simps registry_isApproved_def registry_ids_def demo_market_lower serving_market_row_def modelServingAllowed_def demo_table_def)
    (simp add: demo_registry_with_def demo_row_def)

theorem approval_race_lists_revoked_model:
  "fst demo_race = Inr (1, None) \<and> map mw_modelHash (listModels (mk_models (snd demo_race))) = [''0xa'']
     \<and> registry_state (mk_registry (snd demo_race)) 1 5000 = Revoked \<and> \<not> serving_gate demo_market_env (snd demo_race)"
proof -
  have race: "demo_race = (Inr (1, None), \<lparr>mk_registry = demo_registry_with (demo_row False True), mk_models = demo_table True False, mk_now = 5000\<rparr>)"
    by (simp add: demo_race_def approveListing_def demo_approved_value demo_revoke_value put_models_def demo_mark listingApprovalStatus_def demo_env_simps
        demo_registry_states approval_allowed_def)
  show ?thesis
    by (simp add: race demo_gate demo_registry_states) (simp add: listModels_def demo_table_def)
qed

lemma demo_start: "market_start demo_market_env demo_market_start \<and> me_chainId demo_market_env \<noteq> 31337"
  by (simp add: market_start_def demo_market_start_def demo_market_env_def registry_now_def demo_registry_def table_justified_def)

lemma demo_listed_reachable:
  "\<exists>more ever. reachable (\<lambda>r. market_start demo_market_env r \<and> me_chainId demo_market_env \<noteq> 31337) (market_step demo_market_env)
     \<lparr>mn_state = demo_listed, mn_writes = more, mn_once = ever\<rparr>"
proof -
  let ?R = "reachable (\<lambda>r. market_start demo_market_env r \<and> me_chainId demo_market_env \<noteq> 31337) (market_step demo_market_env)"
  let ?g = "demo_registry_with (demo_row False False)"
  let ?rows = "snd (save_listing ''k'' demo_list_input (Some 1) [])"
  have r0: "?R demo_market_start" using demo_start by (rule reachable_start)
  have now: "now_of demo_market_start = 400" "registry_now demo_market_start = demo_registry"
    by (simp_all add: now_of_def registry_now_def demo_market_start_def)
  have l: "registry_list ''0x1'' (now_of demo_market_start) True ''0xa'' ''0xb'' 100 (registry_now demo_market_start) = Some (Suc 0, ?g)"
    by (simp only: now demo_list_result)
  have r1: "?R (with_registry ?g demo_market_start)" by (rule reachable_step [OF r0 listed [OF l]])
  have s: "save_listing ''k'' demo_list_input (Some 1) (mk_models (mn_state (with_registry ?g demo_market_start)))
      = (fst (save_listing ''k'' demo_list_input (Some 1) []), ?rows)" by (simp add: with_registry_def demo_market_start_def)
  note r2 = reachable_step [OF r1 saved [OF s]]
  let ?r2 = "(with_registry ?g demo_market_start)\<lparr>mn_state := (mn_state (with_registry ?g demo_market_start))\<lparr>mk_models := ?rows\<rparr>\<rparr>"
  have le: "now_of ?r2 \<le> 5000" by (simp add: now_of_def with_registry_def demo_market_start_def)
  let ?r3 = "?r2\<lparr>mn_state := (mn_state ?r2)\<lparr>mk_now := 5000\<rparr>\<rparr>"
  have step: "market_step demo_market_env ?r2 ?r3" using le by (rule clock)
  have r3: "?R ?r3" by (rule reachable_step, rule r2, rule step)
  have "?r3 = \<lparr>mn_state = demo_listed, mn_writes = [], mn_once = {}\<rparr>"
    by (simp add: demo_listed_def demo_list_result with_registry_def demo_market_start_def)
  with r3 have "?R \<lparr>mn_state = demo_listed, mn_writes = [], mn_once = {}\<rparr>" by simp
  then show ?thesis by blast
qed

lemma demo_run:
  assumes "path demo_market_env demo_listed s"
  shows "\<exists>r. reachable (\<lambda>r. market_start demo_market_env r \<and> me_chainId demo_market_env \<noteq> 31337) (market_step demo_market_env) r \<and> mn_state r = s"
proof -
  obtain more ever where r: "reachable (\<lambda>r. market_start demo_market_env r \<and> me_chainId demo_market_env \<noteq> 31337) (market_step demo_market_env)
     \<lparr>mn_state = demo_listed, mn_writes = more, mn_once = ever\<rparr>" using demo_listed_reachable by blast
  from assms obtain more' ever' where run: "(market_step demo_market_env)\<^sup>*\<^sup>* \<lparr>mn_state = demo_listed, mn_writes = more, mn_once = ever\<rparr>
     \<lparr>mn_state = s, mn_writes = more @ more', mn_once = ever'\<rparr>" unfolding path_def by blast
  from run r have "reachable (\<lambda>r. market_start demo_market_env r \<and> me_chainId demo_market_env \<noteq> 31337) (market_step demo_market_env)
     \<lparr>mn_state = s, mn_writes = more @ more', mn_once = ever'\<rparr>"
    by (induction rule: rtranclp_induct) (auto intro: reachable_step)
  then show ?thesis by (intro exI conjI) (assumption, simp)
qed

lemma demo_paths: "path demo_market_env demo_listed demo_approved" "path demo_market_env demo_listed (demo_revoke demo_approved)"
proof -
  have "approveListing demo_market_env (Inr ''k'') 1 (SeenTx ''0xt'') (\<lambda>k s. s) demo_listed
      = (fst (approveListing demo_market_env (Inr ''k'') 1 (SeenTx ''0xt'') (\<lambda>k s. s) demo_listed), demo_approved)" by (simp add: demo_approved_def)
  then show one: "path demo_market_env demo_listed demo_approved" by (rule approveListing_path [rotated]) (rule path_refl)
  have "revokeListing demo_market_env (Inr ''k'') 1 True (SeenTx ''0xr'') (\<lambda>k s. s) demo_approved
      = (fst (revokeListing demo_market_env (Inr ''k'') 1 True (SeenTx ''0xr'') (\<lambda>k s. s) demo_approved), demo_revoke demo_approved)" by (simp add: demo_revoke_def)
  then have "path demo_market_env demo_approved (demo_revoke demo_approved)" by (rule revokeListing_path [rotated]) (rule path_refl)
  with one show "path demo_market_env demo_listed (demo_revoke demo_approved)" by (rule path_trans)
qed

theorem served_model_waited_witness:
  "\<exists>r i row. mn_state r = demo_approved \<and> serving_gate demo_market_env demo_approved
     \<and> mg_listings (registry_now r) i = Some row \<and> rl_listedAt row + registry_timelock \<le> now_of r"
proof -
  obtain r where r: "reachable (\<lambda>r. market_start demo_market_env r \<and> me_chainId demo_market_env \<noteq> 31337) (market_step demo_market_env) r" "mn_state r = demo_approved"
    using demo_run [OF demo_paths(1)] by blast
  have "serving_gate demo_market_env demo_approved" by (simp add: demo_approved_value demo_gate)
  moreover from this r(2) have "serving_gate demo_market_env (mn_state r)" by simp
  moreover have "me_configured demo_market_env" by (simp add: demo_market_env_def)
  ultimately show ?thesis using served_model_waited [OF r(1)] r(2) by blast
qed

theorem revoked_model_never_served_witness:
  "\<exists>r. mn_state r = demo_revoke demo_approved \<and> (\<forall>q. (market_step demo_market_env)\<^sup>*\<^sup>* r q \<longrightarrow> \<not> serving_gate demo_market_env (mn_state q))"
proof -
  obtain r where r: "reachable (\<lambda>r. market_start demo_market_env r \<and> me_chainId demo_market_env \<noteq> 31337) (market_step demo_market_env) r"
    "mn_state r = demo_revoke demo_approved" using demo_run [OF demo_paths(2)] by blast
  let ?row = "demo_row False True"
  have "rl_revoked ?row" "rl_modelHash ?row = ''0xa''" "rl_codeHash ?row = ''0xb''" by (simp_all add: demo_row_def)
  moreover have "mg_listings (mk_registry (demo_revoke demo_approved)) 1 = Some ?row" by (simp add: demo_approved_value demo_revoke_value demo_registry_simps)
  then have "mg_listings (registry_now r) 1 = Some ?row" by (simp only: registry_now_def r(2))
  moreover have "me_configured demo_market_env" "me_modelHash demo_market_env = ''0xa''" "me_codeHash demo_market_env = ''0xb''"
    by (simp_all add: demo_market_env_def)
  ultimately have "\<not> serving_gate demo_market_env (mn_state q)" if "(market_step demo_market_env)\<^sup>*\<^sup>* r q" for q
    using revoked_model_never_served [OF r(1) _ _ _ _ _ that] by fastforce
  with r(2) show ?thesis by blast
qed

end
