(* ===== verification/Gateway_Runtime.thy ===== *)
theory Gateway_Runtime
  imports Chain_Calls Enclave_Cvm Tcb_Lifecycle
begin

text \<open>
  The running gateway: provider admission and readiness, the synchronisation with the active policy (\<open>boot\<close>,
  \<open>syncTcb\<close>, \<open>health\<close> and \<open>assertNewPaymentAdmission\<close> of \<open>api/src/gateway.ts\<close>), the check of the contract
  wiring (\<open>api/src/runtime-contract-wiring.ts\<close>) and the freshness of a release (\<open>api/src/release-profile.ts\<close>).

  Requests of one process interleave at every \<open>await\<close>; a part between two awaits is one step.
\<close>

section \<open>Provider admission\<close>

record admission =
  ad_attempt :: nat
  ad_ready :: bool

definition preflight_begin :: "admission \<Rightarrow> nat \<times> admission" where
  "preflight_begin a = (Suc (ad_attempt a), a\<lparr>ad_attempt := Suc (ad_attempt a), ad_ready := False\<rparr>)"

definition preflight_end :: "nat \<Rightarrow> bool \<Rightarrow> admission \<Rightarrow> admission" where
  "preflight_end n verified a =
     (if verified then (if n = ad_attempt a then a\<lparr>ad_ready := True\<rparr> else a) else a\<lparr>ad_ready := False\<rparr>)"

definition admission_fence :: "admission \<Rightarrow> admission" where
  "admission_fence a = a\<lparr>ad_attempt := Suc (ad_attempt a), ad_ready := False\<rparr>"

definition providerPreflight :: "enclave_error + unit \<Rightarrow> (admission \<Rightarrow> admission) \<Rightarrow> admission \<Rightarrow> (enclave_error + unit) \<times> admission" where
  "providerPreflight verified meanwhile a =
     (let (n, a1) = preflight_begin a in (verified, preflight_end n (is_ok verified) (meanwhile a1)))"

text \<open>The process: checks in flight and what happened, in order.\<close>

datatype admission_event = Began nat | Passed nat | Failed nat | Fenced nat

record admission_run =
  ar_state :: admission
  ar_flight :: "nat set"
  ar_events :: "admission_event list"

inductive admission_step :: "admission_run \<Rightarrow> admission_run \<Rightarrow> bool" where
  began: "preflight_begin (ar_state r) = (n, a) \<Longrightarrow>
    admission_step r \<lparr>ar_state = a, ar_flight = insert n (ar_flight r), ar_events = ar_events r @ [Began n]\<rparr>"
| ended: "n \<in> ar_flight r \<Longrightarrow>
    admission_step r \<lparr>ar_state = preflight_end n ok (ar_state r), ar_flight = ar_flight r - {n},
      ar_events = ar_events r @ [if ok then Passed n else Failed n]\<rparr>"
| fenced: "admission_step r \<lparr>ar_state = admission_fence (ar_state r), ar_flight = ar_flight r, ar_events = ar_events r @ [Fenced (Suc (ad_attempt (ar_state r)))]\<rparr>"

definition admission_start :: "admission_run \<Rightarrow> bool" where
  "admission_start r \<longleftrightarrow> ar_state r = \<lparr>ad_attempt = 0, ad_ready = False\<rparr> \<and> ar_flight r = {} \<and> ar_events r = []"

definition number_of :: "admission_event \<Rightarrow> nat" where
  "number_of e = (case e of Began n \<Rightarrow> n | Passed n \<Rightarrow> n | Failed n \<Rightarrow> n | Fenced n \<Rightarrow> n)"

definition admission_ok :: "admission_run \<Rightarrow> bool" where
  "admission_ok r \<longleftrightarrow> (\<forall>n \<in> ar_flight r. Began n \<in> set (ar_events r))
     \<and> (\<forall>e \<in> set (ar_events r). number_of e \<le> ad_attempt (ar_state r))
     \<and> (ad_ready (ar_state r) \<longrightarrow> (\<exists>pre post. ar_events r = pre @ Passed (ad_attempt (ar_state r)) # post
          \<and> Began (ad_attempt (ar_state r)) \<in> set pre \<and> (\<forall>e \<in> set post. \<exists>n < ad_attempt (ar_state r). e = Passed n)))"

lemma admission_step_ok:
  assumes "admission_step r q" and "admission_ok r"
  shows "admission_ok q"
  using assms
proof (induction rule: admission_step.induct)
  case (began r n a)
  then show ?case by (auto simp: admission_ok_def preflight_begin_def number_of_def le_SucI)
next
  case (fenced r)
  then show ?case by (auto simp: admission_ok_def admission_fence_def number_of_def le_SucI)
next
  case (ended n r ok)
  then have n: "Began n \<in> set (ar_events r)" by (simp add: admission_ok_def)
  with ended(2) have le: "n \<le> ad_attempt (ar_state r)" by (auto simp: admission_ok_def number_of_def)
  have same: "ad_attempt (preflight_end n ok (ar_state r)) = ad_attempt (ar_state r)" by (simp add: preflight_end_def)
  have nums: "\<forall>e \<in> set (ar_events r @ [if ok then Passed n else Failed n]). number_of e \<le> ad_attempt (ar_state r)"
    using ended(2) le by (auto simp: admission_ok_def number_of_def)
  have flight: "\<forall>m \<in> ar_flight r - {n}. Began m \<in> set (ar_events r @ [if ok then Passed n else Failed n])"
    using ended(2) by (auto simp: admission_ok_def)
  have "\<exists>pre post. ar_events r @ [if ok then Passed n else Failed n] = pre @ Passed (ad_attempt (ar_state r)) # post
      \<and> Began (ad_attempt (ar_state r)) \<in> set pre \<and> (\<forall>e \<in> set post. \<exists>m < ad_attempt (ar_state r). e = Passed m)"
    if ready: "ad_ready (preflight_end n ok (ar_state r))"
  proof (cases "n = ad_attempt (ar_state r)")
    case True
    from ready have ok by (auto simp: preflight_end_def split: if_splits)
    with True n show ?thesis by (intro exI [of _ "ar_events r"] exI [of _ "[]"]) simp
  next
    case False
    from ready have ok "ad_ready (ar_state r)" using False by (auto simp: preflight_end_def split: if_splits)
    with ended(2) obtain pre post where "ar_events r = pre @ Passed (ad_attempt (ar_state r)) # post" "Began (ad_attempt (ar_state r)) \<in> set pre"
      "\<forall>e \<in> set post. \<exists>m < ad_attempt (ar_state r). e = Passed m" unfolding admission_ok_def by blast
    with \<open>ok\<close> False le show ?thesis by (intro exI [of _ pre] exI [of _ "post @ [Passed n]"]) auto
  qed
  with nums flight same show ?case unfolding admission_ok_def by simp
qed

interpretation admission: invariant_system admission_start admission_step admission_ok
proof unfold_locales
  show "admission_ok r" if "admission_start r" for r using that by (simp add: admission_start_def admission_ok_def)
  show "admission_ok q" if "admission_ok r" "admission_step r q" for r q using that admission_step_ok by blast
qed

section \<open>The contract wiring\<close>

record runtime_config =
  rc_production :: bool
  rc_managed :: bool
  rc_authorized :: bool
  rc_localBootstrap :: bool
  rc_chain :: chain_config
  rc_verifier :: string

definition wiring_mismatch :: enclave_error where
  "wiring_mismatch = AppError ''PAYMENTS_RUNTIME_MISMATCH'' ''The current contract signer or payment routing differs from this deployment'' 409"

definition wiring_unavailable :: enclave_error where
  "wiring_unavailable = AppError ''PAYMENTS_RUNTIME_UNAVAILABLE'' ''Current contract signer and payment routing could not be verified'' 503"

definition text_answer :: "chain_value list \<Rightarrow> enclave_error + string" where
  "text_answer v = of_option rpc_failed (case v of [VText s] \<Rightarrow> Some s | _ \<Rightarrow> None)"

definition read_at :: "int \<Rightarrow> string \<Rightarrow> string \<Rightarrow> string chain_io" where
  "read_at block contract name =
     io_bind (io_read (\<lambda>v. rv_callAt v block (contract_call contract name []))) (\<lambda>v. io_lift (text_answer v))"

definition read_wiring :: "runtime_config \<Rightarrow> int \<Rightarrow> (string \<times> string \<times> string \<times> string \<times> string \<times> string) chain_io" where
  "read_wiring config block =
     (let verifier = rc_verifier config; meter = kf_meter (rc_chain config) in
      io_bind (read_at block verifier ''registry'') (\<lambda>registry.
      io_bind (read_at block verifier ''enclaveSigner'') (\<lambda>signer.
      io_bind (read_at block meter ''usdc'') (\<lambda>token.
      io_bind (read_at block meter ''feeVault'') (\<lambda>vault.
      io_bind (read_at block meter ''modelRegistry'') (\<lambda>meterRegistry.
      io_bind (read_at block meter ''relay'') (\<lambda>relay.
      io_return (registry, signer, token, vault, meterRegistry, relay))))))))"

definition wired_as :: "runtime_config \<Rightarrow> string \<Rightarrow> string \<times> string \<times> string \<times> string \<times> string \<times> string \<Rightarrow> bool" where
  "wired_as config expectedSigner = (\<lambda>(registry, signer, token, vault, meterRegistry, relay).
     same registry (kf_registry (rc_chain config)) \<and> same signer expectedSigner \<and> same token (kf_usdc (rc_chain config))
     \<and> same vault (kf_feeVault (rc_chain config)) \<and> same meterRegistry (kf_registry (rc_chain config)) \<and> same relay (kf_account (rc_chain config)))"

definition check_wiring :: "runtime_config \<Rightarrow> string \<Rightarrow> unit chain_io" where
  "check_wiring config expectedSigner =
     io_bind (io_read rv_chainId) (\<lambda>chainId.
     io_bind (io_require (chainId = kf_chainId (rc_chain config)) wiring_mismatch) (\<lambda>_.
     io_bind (io_read rv_head) (\<lambda>block.
     io_bind (io_read (\<lambda>v. rv_block v block)) (\<lambda>before.
     io_bind (read_wiring config block) (\<lambda>found.
     io_bind (io_require (wired_as config expectedSigner found) wiring_mismatch) (\<lambda>_.
     io_bind (io_read (\<lambda>v. rv_block v block)) (\<lambda>after.
     io_require (truthy_text (bl_hash before) \<noteq> None \<and> bl_hash before = bl_hash after) wiring_mismatch)))))))"

definition verifyRuntimeContractWiring :: "runtime_config \<Rightarrow> string \<Rightarrow> unit chain_io" where
  "verifyRuntimeContractWiring config expectedSigner =
     io_catch (check_wiring config expectedSigner) (\<lambda>e.
       io_lift (Inl (if is_app_error e \<and> error_code e = ''PAYMENTS_RUNTIME_MISMATCH'' then e else wiring_unavailable)))"

section \<open>The enclave in step with the active policy\<close>

record accepted_release =
  al_acceptedAt :: "int option"
  al_validUntil :: "int option"
  al_policyUntil :: "int option"
  al_policyHash :: string
  al_codeHash :: string
  al_tcbVersion :: js_number

text \<open>\<open>Date.parse\<close> of an invalid text is not a number, and every comparison with it fails.\<close>

definition releaseIsFresh :: "accepted_release \<Rightarrow> int \<Rightarrow> bool" where
  "releaseIsFresh r now \<longleftrightarrow>
     (case (al_acceptedAt r, al_validUntil r, al_policyUntil r) of
        (Some a, Some u, Some p) \<Rightarrow> a \<le> now \<and> now < u \<and> now < p
      | _ \<Rightarrow> False)"

record gateway =
  gp_release :: "accepted_release option"
  gp_wired :: bool
  gp_admission :: admission
  gp_lifecycle :: "tcb_env option"
  gp_cvm :: dev_cvm

text \<open>
  What one synchronisation meets: the time, the chain, the rows of \<open>tcb_policies\<close> and the registry when they are read,
  and what other requests do to the gateway during its awaits.
\<close>

record sync_world =
  sy_now :: int
  sy_chain :: chain_world
  sy_events :: "chain_event list"
  sy_rows :: "tcb_row list"
  sy_registry :: registry_view
  sy_meanwhile :: "nat \<Rightarrow> gateway \<Rightarrow> gateway"

definition lifecycle :: "cvm_env \<Rightarrow> runtime_config \<Rightarrow> registry_view \<Rightarrow> gateway \<Rightarrow> tcb_env \<times> gateway" where
  "lifecycle env config rpc g =
     (case gp_lifecycle g of
        Some l \<Rightarrow> (l, g)
      | None \<Rightarrow>
          (let l = \<lparr>te_crypto = ce_crypto env, te_bootstrap = cc_policy (dv_config (gp_cvm g)), te_modelHash = modelHash env (gp_cvm g),
               te_localFixture = rc_localBootstrap config \<and> kf_chainId (rc_chain config) = 31337, te_approve = verifyTcbApproval rpc\<rparr>
           in (l, g\<lparr>gp_lifecycle := Some l\<rparr>)))"

definition assertRuntimeContractWiring :: "cvm_env \<Rightarrow> runtime_config \<Rightarrow> sync_world \<Rightarrow> gateway \<Rightarrow> (enclave_error + unit) \<times> gateway" where
  "assertRuntimeContractWiring env config w g =
     (if \<not> rc_production config then (Inr (), g)
      else (let result = fst (verifyRuntimeContractWiring config (enclaveAddress env (gp_cvm g)) (sy_chain w) (sy_events w))
        in (result, (sy_meanwhile w 0 g)\<lparr>gp_wired := is_ok result\<rparr>)))"

definition matches_release :: "accepted_release \<Rightarrow> tcb_state \<Rightarrow> bool" where
  "matches_release r st \<longleftrightarrow> st_binding st = ''onchain'' \<and> tr_policyHash (st_record st) = al_policyHash r
     \<and> tr_measurement (st_record st) = al_codeHash r \<and> tr_version (st_record st) = al_tcbVersion r"

definition sync_checks ::
    "cvm_env \<Rightarrow> runtime_config \<Rightarrow> accepted_release option \<Rightarrow> registry_view \<Rightarrow> tcb_state \<Rightarrow> dev_cvm \<Rightarrow> enclave_error + unit" where
  "sync_checks env config release rpc state d =
     rbind (require (rc_production config \<longrightarrow> (case release of Some r \<Rightarrow> matches_release r state | None \<Rightarrow> False))
       (ConflictError ''Production requires the exact accepted on-chain application policy'')) (\<lambda>_.
     rbind (if st_binding state = ''onchain''
         then rbind (verifyTcbApproval rpc (modelHash env d) (tr_measurement (st_record state)) (tr_policyHash (st_record state)) (tr_version (st_record state)))
           (\<lambda>a. require (Some (ta_scope a) = st_scope state) (ConflictError ''TCB activation belongs to another chain deployment''))
         else require (\<not> (st_binding state = ''local-fixture'' \<and> (\<not> rc_localBootstrap config \<or> kf_chainId (rc_chain config) \<noteq> 31337)))
           (ConflictError ''Local software TCB fixture is not enabled for this deployment'')) (\<lambda>_.
     require (\<not> int_of (tr_version (st_record state)) < int_of (tp_version (cc_policy (dv_config d)))) (ConflictError ''Active TCB state moved backwards'')))"

definition needs_rotation :: "cvm_env \<Rightarrow> tcb_state \<Rightarrow> dev_cvm \<Rightarrow> enclave_error + bool" where
  "needs_rotation env state d =
     rmap (\<lambda>h. h \<noteq> tr_policyHash (st_record state) \<or> (st_binding state \<noteq> ''legacy'' \<and> \<not> cc_policyKeys (dv_config d)))
       (tcbPolicyHash (ce_crypto env) (cc_policy (dv_config d)))"

definition sync_enclave :: "cvm_env \<Rightarrow> tcb_state \<Rightarrow> dev_cvm \<Rightarrow> enclave_error + dev_cvm" where
  "sync_enclave env state d =
     rbind (needs_rotation env state d) (\<lambda>rotate. if rotate then withPolicy (st_policy state) d else Inr d)"

text \<open>After the wiring check: the active row, the checks (which await the registry), and the rotation.\<close>

definition sync_policy :: "cvm_env \<Rightarrow> runtime_config \<Rightarrow> sync_world \<Rightarrow> gateway \<Rightarrow> (enclave_error + (dev_cvm \<times> tcb_state)) \<times> gateway" where
  "sync_policy env config w g =
     (let (l, g1) = lifecycle env config (sy_registry w) g; g2 = sy_meanwhile w 1 g1 in
      case rbind (current l (sy_rows w)) (\<lambda>state. rbind (sync_checks env config (gp_release g2) (sy_registry w) state (gp_cvm g2))
          (\<lambda>_. rmap (\<lambda>d. (d, state)) (sync_enclave env state (gp_cvm g2)))) of
        Inl e \<Rightarrow> (Inl e, g2)
      | Inr (d, state) \<Rightarrow> (Inr (d, state), g2\<lparr>gp_cvm := d\<rparr>))"

definition production_accepted :: "runtime_config \<Rightarrow> int \<Rightarrow> gateway \<Rightarrow> bool" where
  "production_accepted config now g \<longleftrightarrow> \<not> rc_production config \<or> (case gp_release g of Some r \<Rightarrow> releaseIsFresh r now | None \<Rightarrow> False)"

definition syncTcb :: "cvm_env \<Rightarrow> runtime_config \<Rightarrow> sync_world \<Rightarrow> gateway \<Rightarrow> (enclave_error + (dev_cvm \<times> tcb_state)) \<times> gateway" where
  "syncTcb env config w g =
     (if \<not> production_accepted config (sy_now w) g
      then (Inl (ConflictError ''Production acceptance or reviewed provider policy expired''), g)
      else case assertRuntimeContractWiring env config w g of
          (Inl e, g1) \<Rightarrow> (Inl e, g1)
        | (Inr _, g1) \<Rightarrow> sync_policy env config w g1)"

text \<open>\<open>verified\<close> is the answer of the provider verifier, \<open>env_at\<close> what other requests do to the admission state during its await.\<close>

definition assertNewPaymentAdmission ::
    "cvm_env \<Rightarrow> runtime_config \<Rightarrow> sync_world \<Rightarrow> enclave_error + unit \<Rightarrow> (admission \<Rightarrow> admission) \<Rightarrow> gateway \<Rightarrow> (enclave_error + unit) \<times> gateway" where
  "assertNewPaymentAdmission env config w verified env_at g =
     (if \<not> rc_production config \<and> \<not> (rc_managed config \<and> rc_authorized config) then (Inr (), g)
      else case syncTcb env config w g of
          (Inl e, g1) \<Rightarrow> (Inl e, g1\<lparr>gp_admission := admission_fence (gp_admission g1)\<rparr>)
        | (Inr _, g1) \<Rightarrow> (let (r, a) = providerPreflight verified env_at (gp_admission g1) in (r, g1\<lparr>gp_admission := a\<rparr>)))"

definition active_policy :: "cvm_env \<Rightarrow> runtime_config \<Rightarrow> sync_world \<Rightarrow> gateway \<Rightarrow> (enclave_error + tcb_policy) \<times> gateway" where
  "active_policy env config w g = (case syncTcb env config w g of (r, g1) \<Rightarrow> (rmap (\<lambda>(d, state). st_policy state) r, g1))"

section \<open>Health\<close>

record health_config =
  hc_teeMode :: string
  hc_backend :: string
  hc_hostname :: string
  hc_paymentMode :: string
  hc_agentRuntime :: bool
  hc_price :: string
  hc_timeout :: int
  hc_maxTokens :: int
  hc_providerPolicy :: "string \<times> string"

record health_view =
  hv_teeMode :: string
  hv_backend :: string
  hv_route :: string
  hv_chainId :: int
  hv_paymentMode :: string
  hv_model :: "string \<times> string \<times> string"
  hv_signer :: string
  hv_verifier :: string
  hv_agentRuntime :: bool
  hv_price :: string
  hv_stage :: string
  hv_productionReady :: bool
  hv_providerReady :: bool
  hv_trust :: string
  hv_profile :: string
  hv_providerPolicy :: "(string \<times> string) option"
  hv_timeout :: int
  hv_maxTokens :: "int option"
  hv_token :: string

definition productionReady :: "runtime_config \<Rightarrow> int \<Rightarrow> gateway \<Rightarrow> bool" where
  "productionReady config now g \<longleftrightarrow> rc_production config \<and> (case gp_release g of Some r \<Rightarrow> releaseIsFresh r now | None \<Rightarrow> False)
     \<and> gp_wired g \<and> ad_ready (gp_admission g)"

definition inference_route :: "health_config \<Rightarrow> string" where
  "inference_route hc = (if hc_backend hc \<noteq> ''near-verified'' then ''development''
     else if hc_hostname hc = ''cloud-api.near.ai'' then ''near-cloud-gateway'' else ''near-direct-experimental'')"

definition health :: "cvm_env \<Rightarrow> runtime_config \<Rightarrow> health_config \<Rightarrow> int \<Rightarrow> gateway \<Rightarrow> health_view" where
  "health env config hc now g =
     \<lparr>hv_teeMode = hc_teeMode hc, hv_backend = hc_backend hc, hv_route = inference_route hc, hv_chainId = kf_chainId (rc_chain config),
      hv_paymentMode = hc_paymentMode hc,
      hv_model = (cc_modelId (dv_config (gp_cvm g)), modelHash env (gp_cvm g), codeHash env (gp_cvm g)),
      hv_signer = enclaveAddress env (gp_cvm g), hv_verifier = rc_verifier config, hv_agentRuntime = hc_agentRuntime hc, hv_price = hc_price hc,
      hv_stage = (if rc_production config then ''production'' else if rc_managed config then ''pilot'' else ''development''),
      hv_productionReady = productionReady config now g, hv_providerReady = ad_ready (gp_admission g),
      hv_trust = (if rc_managed config then ''near-cpu-gpu'' else ''development''),
      hv_profile = (if rc_managed config then ''near-arc'' else ''development''),
      hv_providerPolicy = (if gp_release g \<noteq> None then Some (hc_providerPolicy hc) else None),
      hv_timeout = hc_timeout hc, hv_maxTokens = (if hc_backend hc = ''near-verified'' then Some (hc_maxTokens hc) else None),
      hv_token = kf_usdc (rc_chain config)\<rparr>"

section \<open>What a synchronisation establishes\<close>

definition lifecycle_ok :: "cvm_env \<Rightarrow> gateway \<Rightarrow> bool" where
  "lifecycle_ok env g \<longleftrightarrow> (case gp_lifecycle g of Some l \<Rightarrow> te_crypto l = ce_crypto env | None \<Rightarrow> True)"

text \<open>What the requests of one process may do to the gateway while another one awaits.\<close>

definition gateway_keeps :: "cvm_env \<Rightarrow> gateway \<Rightarrow> gateway \<Rightarrow> bool" where
  "gateway_keeps env g h \<longleftrightarrow> gp_release h = gp_release g \<and> (lifecycle_ok env g \<longrightarrow> lifecycle_ok env h)
     \<and> (gp_lifecycle g \<noteq> None \<longrightarrow> gp_lifecycle h = gp_lifecycle g) \<and> (cvm_step env)\<^sup>*\<^sup>* (gp_cvm g) (gp_cvm h)"

definition shared_world :: "cvm_env \<Rightarrow> sync_world \<Rightarrow> bool" where
  "shared_world env w \<longleftrightarrow> (\<forall>n g. gateway_keeps env g (sy_meanwhile w n g))"

lemma gateway_keeps_refl [simp]: "gateway_keeps env g g"
  by (simp add: gateway_keeps_def)

lemma gateway_keeps_trans: "gateway_keeps env g h \<Longrightarrow> gateway_keeps env h k \<Longrightarrow> gateway_keeps env g k"
  unfolding gateway_keeps_def by (metis rtranclp_trans)

lemma shared_worldD: "shared_world env w \<Longrightarrow> gateway_keeps env g (sy_meanwhile w n g)"
  by (simp add: shared_world_def)

lemma wiring_keeps:
  assumes "shared_world env w" and "assertRuntimeContractWiring env config w g = (r, h)"
  shows "gateway_keeps env g h"
  using assms shared_worldD [OF assms(1), of g 0]
  by (auto simp: assertRuntimeContractWiring_def Let_def gateway_keeps_def lifecycle_ok_def split: if_splits)

lemma lifecycle_keeps:
  assumes "lifecycle env config rpc g = (l, h)"
  shows "gateway_keeps env g h \<and> (lifecycle_ok env g \<longrightarrow> te_crypto l = ce_crypto env) \<and> gp_lifecycle h = Some l \<and> gp_release h = gp_release g"
  using assms by (auto simp: lifecycle_def Let_def gateway_keeps_def lifecycle_ok_def split: option.splits)

lemma sync_enclave_step: "sync_enclave env state d = Inr e \<Longrightarrow> e = d \<or> cvm_step env d e"
  by (auto simp: sync_enclave_def rbind_Inr_iff split: if_splits intro: rotated)

lemma sync_policy_keeps:
  assumes "shared_world env w" and "sync_policy env config w g = (r, h)"
  shows "gateway_keeps env g h"
proof -
  obtain l g1 where l: "lifecycle env config (sy_registry w) g = (l, g1)" by force
  then have "gateway_keeps env g g1" using lifecycle_keeps by blast
  moreover note shared_worldD [OF assms(1), of g1 1]
  ultimately have k: "gateway_keeps env g (sy_meanwhile w 1 g1)" by (rule gateway_keeps_trans)
  have "h = sy_meanwhile w 1 g1 \<or> (\<exists>state e. sync_enclave env state (gp_cvm (sy_meanwhile w 1 g1)) = Inr e \<and> h = (sy_meanwhile w 1 g1)\<lparr>gp_cvm := e\<rparr>)"
    using assms(2) l by (auto simp: sync_policy_def Let_def rbind_Inr_iff rmap_Inr_iff split: sum.splits)
  then show ?thesis
  proof (elim disjE exE conjE)
    fix state e
    assume e: "sync_enclave env state (gp_cvm (sy_meanwhile w 1 g1)) = Inr e" and h: "h = (sy_meanwhile w 1 g1)\<lparr>gp_cvm := e\<rparr>"
    from sync_enclave_step [OF e] have "(cvm_step env)\<^sup>*\<^sup>* (gp_cvm (sy_meanwhile w 1 g1)) e" by auto
    then have "gateway_keeps env (sy_meanwhile w 1 g1) h" by (simp add: h gateway_keeps_def lifecycle_ok_def)
    with k show ?thesis by (rule gateway_keeps_trans)
  qed (use k in simp)
qed

text \<open>A synchronisation is itself such a step, so that synchronisations may interleave freely.\<close>

lemma syncTcb_keeps:
  assumes "shared_world env w" and "syncTcb env config w g = (r, h)"
  shows "gateway_keeps env g h"
proof (cases "production_accepted config (sy_now w) g")
  case False
  with assms(2) show ?thesis by (simp add: syncTcb_def)
next
  case True
  obtain s g1 where a: "assertRuntimeContractWiring env config w g = (s, g1)" by force
  from wiring_keeps [OF assms(1) a] have k: "gateway_keeps env g g1" .
  show ?thesis
  proof (cases s)
    case (Inl e)
    with True a assms(2) k show ?thesis by (simp add: syncTcb_def)
  next
    case (Inr u)
    with True a assms(2) have "sync_policy env config w g1 = (r, h)" by (simp add: syncTcb_def)
    from gateway_keeps_trans [OF k sync_policy_keeps [OF assms(1) this]] show ?thesis .
  qed
qed

lemma syncTcb_Inr:
  assumes "syncTcb env config w g = (Inr (d, state), h)"
  obtains g1 l g2 where "production_accepted config (sy_now w) g" "assertRuntimeContractWiring env config w g = (Inr (), g1)"
    "lifecycle env config (sy_registry w) g1 = (l, g2)" "current l (sy_rows w) = Inr state"
    "sync_checks env config (gp_release (sy_meanwhile w 1 g2)) (sy_registry w) state (gp_cvm (sy_meanwhile w 1 g2)) = Inr ()"
    "sync_enclave env state (gp_cvm (sy_meanwhile w 1 g2)) = Inr d" "h = (sy_meanwhile w 1 g2)\<lparr>gp_cvm := d\<rparr>"
proof -
  from assms have acc: "production_accepted config (sy_now w) g" by (auto simp: syncTcb_def split: if_splits)
  obtain s g1 where a: "assertRuntimeContractWiring env config w g = (s, g1)" by force
  from assms acc a have s: "s = Inr ()" and p: "sync_policy env config w g1 = (Inr (d, state), h)" by (auto simp: syncTcb_def split: sum.splits)
  obtain l g2 where l: "lifecycle env config (sy_registry w) g1 = (l, g2)" by force
  from p l show thesis
    by (auto simp: sync_policy_def Let_def rbind_Inr_iff rmap_Inr_iff split: sum.splits intro!: that [OF acc a [unfolded s] l])
qed

lemma rotated_policy: "withPolicy policy d = Inr e \<Longrightarrow> cc_policy (dv_config e) = policy"
  by (auto simp: withPolicy_def new_cvm_def frozen_config_def res_simps canonicalTcbPolicy_Inr parse_policy_json split: if_splits)

lemma withPolicy_total: "valid_policy p \<Longrightarrow> \<exists>e. withPolicy p d = Inr e"
  by (simp add: withPolicy_def new_cvm_def frozen_config_def canonicalTcbPolicy_def parse_policy_json)

lemma sync_enclave_hash:
  assumes "sync_enclave env state d = Inr e" and "tcbPolicyRecord (ce_crypto env) (st_policy state) = Inr (st_record state)"
  shows "tcbPolicyHash (ce_crypto env) (cc_policy (dv_config e)) = Inr (tr_policyHash (st_record state))"
proof -
  from assms(1) obtain rot where r: "needs_rotation env state d = Inr rot" "(if rot then withPolicy (st_policy state) d else Inr d) = Inr e"
    by (auto simp: sync_enclave_def rbind_Inr_iff)
  show ?thesis
  proof (cases rot)
    case True
    with r(2) have "cc_policy (dv_config e) = st_policy state" by (simp add: rotated_policy)
    with assms(2) show ?thesis by (auto simp: tcbPolicyRecord_Inr tcbPolicyHash_def canonicalTcbPolicy_def)
  next
    case False
    with r show ?thesis by (auto simp: needs_rotation_def rmap_Inr_iff)
  qed
qed

text \<open>
  Whatever other requests of the process do during its awaits, a synchronisation that succeeds hands out
  the enclave the gateway keeps, and that enclave runs the one active policy of the database: the hash of its
  policy is the hash the active row records.
\<close>

theorem synced_enclave_runs_active_policy:
  assumes "shared_world env w" and "lifecycle_ok env g" and "syncTcb env config w g = (Inr (d, state), h)"
  shows "gp_cvm h = d \<and> (\<exists>row. activeRow (sy_rows w) = Inr row \<and> policyOf (ce_crypto env) row = Inr (st_policy state)
     \<and> tcbPolicyHash (ce_crypto env) (cc_policy (dv_config d)) = tcbPolicyHash (ce_crypto env) (st_policy state))"
proof -
  from assms(3) obtain g1 l g2 where s: "assertRuntimeContractWiring env config w g = (Inr (), g1)"
    "lifecycle env config (sy_registry w) g1 = (l, g2)" "current l (sy_rows w) = Inr state"
    "sync_enclave env state (gp_cvm (sy_meanwhile w 1 g2)) = Inr d" "h = (sy_meanwhile w 1 g2)\<lparr>gp_cvm := d\<rparr>" by (rule syncTcb_Inr)
  from wiring_keeps [OF assms(1) s(1)] assms(2) have "lifecycle_ok env g1" by (simp add: gateway_keeps_def)
  with lifecycle_keeps [OF s(2)] have l: "te_crypto l = ce_crypto env" by blast
  from s(3) obtain row where row: "activeRow (sy_rows w) = Inr row" "policyState (te_crypto l) row = Inr state"
    by (auto simp: current_def rbind_Inr_iff)
  from row(2) have p: "policyOf (ce_crypto env) row = Inr (st_policy state)" "tcbPolicyRecord (ce_crypto env) (st_policy state) = Inr (st_record state)"
    by (auto simp: l policyState_Inr)
  from p(2) have "tcbPolicyHash (ce_crypto env) (st_policy state) = Inr (tr_policyHash (st_record state))"
    by (auto simp: tcbPolicyRecord_Inr tcbPolicyHash_def canonicalTcbPolicy_def)
  with sync_enclave_hash [OF s(4) p(2)] p(1) row(1) s(5) show ?thesis by simp
qed

lemma cvm_step_identity:
  assumes "cvm_step env d e"
  shows "dv_enclavePrivateKey e = dv_enclavePrivateKey d \<and> cc_modelId (dv_config e) = cc_modelId (dv_config d)"
  using assms
proof (induction rule: cvm_step.induct)
  case (released quote vendorAddress now d e)
  then show ?case by (auto elim!: releaseKeys_Inr)
next
  case (rotated policy d e)
  then obtain p where "new_cvm (dv_vendor d) (dv_wrappingKey d) (dv_encryptedWeights d) (dv_enclavePrivateKey d)
       ((dv_config d)\<lparr>cc_policy := p, cc_policyKeys := True\<rparr>) = Inr e" by (rule withPolicy_Inr)
  from new_cvm_Inr(6,8) [OF this] show ?case by simp
qed

lemma cvm_run_identity:
  assumes "(cvm_step env)\<^sup>*\<^sup>* d e"
  shows "enclaveAddress env e = enclaveAddress env d \<and> modelHash env e = modelHash env d"
proof -
  from assms have "dv_enclavePrivateKey e = dv_enclavePrivateKey d \<and> cc_modelId (dv_config e) = cc_modelId (dv_config d)"
    by (induction rule: rtranclp_induct) (auto dest!: cvm_step_identity)
  then show ?thesis by (simp add: enclaveAddress_def modelHash_def)
qed

text \<open>What the node answered for a parameterless contract read at a block, at some moment of the check.\<close>

definition node_answered :: "chain_world \<Rightarrow> int \<Rightarrow> string \<Rightarrow> string \<Rightarrow> string \<Rightarrow> bool" where
  "node_answered w block contract name s \<longleftrightarrow> (\<exists>t. rv_callAt (cw_view w t) block (contract_call contract name []) = Inr [VText s])"

lemma text_answer_Inr: "text_answer v = Inr s \<longleftrightarrow> v = [VText s]"
proof (cases v)
  case (Cons x xs)
  then show ?thesis by (cases x; cases xs) (auto simp: text_answer_def of_option_def)
qed (simp add: text_answer_def of_option_def)

lemma read_at_Inr: "read_at block contract name w t = (Inr s, u) \<Longrightarrow> node_answered w block contract name s"
  by (auto simp: read_at_def io_bind_Inr text_answer_Inr node_answered_def)

lemma wiring_Inr:
  assumes "verifyRuntimeContractWiring config signer w t = (Inr (), u)"
  obtains block s relay where "node_answered w block (rc_verifier config) ''enclaveSigner'' s" "same s signer"
    "node_answered w block (kf_meter (rc_chain config)) ''relay'' relay" "same relay (kf_account (rc_chain config))"
proof -
  from assms have "check_wiring config signer w t = (Inr (), u)"
    by (auto simp: verifyRuntimeContractWiring_def io_catch_def split: prod.splits sum.splits)
  then obtain block v x found where r: "read_wiring config block w v = (Inr found, x)" "wired_as config signer found"
    unfolding check_wiring_def by (elim io_bind_InrE) (auto simp: require_Inr_iff)
  obtain registry s token vault meterRegistry relay where f: "found = (registry, s, token, vault, meterRegistry, relay)" by (cases found)
  from r(1) have "node_answered w block (rc_verifier config) ''enclaveSigner'' s" "node_answered w block (kf_meter (rc_chain config)) ''relay'' relay"
    unfolding f read_wiring_def Let_def by (auto elim!: io_bind_InrE dest!: read_at_Inr)
  with r(2) f show thesis by (auto simp: wired_as_def intro: that)
qed

lemma wiring_errors:
  assumes "verifyRuntimeContractWiring config signer w t = (Inl e, u)"
  shows "error_code e = ''PAYMENTS_RUNTIME_MISMATCH'' \<or> e = wiring_unavailable"
  using assms by (auto simp: verifyRuntimeContractWiring_def io_catch_def split: prod.splits sum.splits if_splits)

lemma verifyTcbApproval_approved:
  "verifyTcbApproval rpc m c p v = Inr a \<Longrightarrow>
     rg_isApprovedWithPolicy rpc \<lparr>tb_modelHash = m, tb_codeHash = c, tb_policyHash = p, tb_policyVersion = int_of v\<rparr> = Some True"
  by (auto simp: verifyTcbApproval_def assertApproved_def approval_def rbind_Inr_iff of_option_def split: if_splits prod.splits option.splits)

text \<open>
  Claim C23. In production a synchronisation succeeds only for an accepted and unexpired release: the active state is
  the released one, the registry approves exactly that model, code and policy, and the verifier and meter contracts
  answered with the signer of the enclave handed out and with the relay of this deployment.
\<close>

theorem production_sync_is_accepted:
  assumes "shared_world env w" and "rc_production config" and "syncTcb env config w g = (Inr (d, state), h)"
  shows "\<exists>r block signer relay. gp_release g = Some r \<and> releaseIsFresh r (sy_now w) \<and> matches_release r state
     \<and> rg_isApprovedWithPolicy (sy_registry w)
         \<lparr>tb_modelHash = modelHash env d, tb_codeHash = al_codeHash r, tb_policyHash = al_policyHash r, tb_policyVersion = int_of (al_tcbVersion r)\<rparr> = Some True
     \<and> node_answered (sy_chain w) block (rc_verifier config) ''enclaveSigner'' signer \<and> same signer (enclaveAddress env d)
     \<and> node_answered (sy_chain w) block (kf_meter (rc_chain config)) ''relay'' relay \<and> same relay (kf_account (rc_chain config))"
proof -
  from assms(3) obtain g1 l g2 where s: "production_accepted config (sy_now w) g" "assertRuntimeContractWiring env config w g = (Inr (), g1)"
    "lifecycle env config (sy_registry w) g1 = (l, g2)"
    "sync_checks env config (gp_release (sy_meanwhile w 1 g2)) (sy_registry w) state (gp_cvm (sy_meanwhile w 1 g2)) = Inr ()"
    "sync_enclave env state (gp_cvm (sy_meanwhile w 1 g2)) = Inr d" by (rule syncTcb_Inr)
  define g3 where "g3 = sy_meanwhile w 1 g2"
  from s(1) assms(2) obtain r where r: "gp_release g = Some r" "releaseIsFresh r (sy_now w)" by (auto simp: production_accepted_def split: option.splits)
  have k: "gateway_keeps env g g3"
    using wiring_keeps [OF assms(1) s(2)] lifecycle_keeps [OF s(3)] shared_worldD [OF assms(1), of g2 1] gateway_keeps_trans g3_def by metis
  then have rel: "gp_release g3 = Some r" by (simp add: gateway_keeps_def r(1))
  from s(4) rel assms(2) have m: "matches_release r state" by (auto simp: sync_checks_def rbind_Inr_iff require_Inr_iff g3_def)
  with s(4) rel obtain a where a: "verifyTcbApproval (sy_registry w) (modelHash env (gp_cvm g3)) (al_codeHash r) (al_policyHash r) (al_tcbVersion r) = Inr a"
    by (auto simp: sync_checks_def rbind_Inr_iff g3_def matches_release_def)
  from k sync_enclave_step [OF s(5)] have "(cvm_step env)\<^sup>*\<^sup>* (gp_cvm g) d" "(cvm_step env)\<^sup>*\<^sup>* (gp_cvm g3) d"
    by (auto simp: gateway_keeps_def g3_def)
  then have i: "enclaveAddress env d = enclaveAddress env (gp_cvm g)" "modelHash env d = modelHash env (gp_cvm g3)" using cvm_run_identity by blast+
  from s(2) assms(2) obtain u where "verifyRuntimeContractWiring config (enclaveAddress env (gp_cvm g)) (sy_chain w) (sy_events w) = (Inr (), u)"
    by (auto simp: assertRuntimeContractWiring_def Let_def prod_eq_iff)
  then obtain block signer relay where "node_answered (sy_chain w) block (rc_verifier config) ''enclaveSigner'' signer" "same signer (enclaveAddress env (gp_cvm g))"
    "node_answered (sy_chain w) block (kf_meter (rc_chain config)) ''relay'' relay" "same relay (kf_account (rc_chain config))" by (rule wiring_Inr)
  with r m verifyTcbApproval_approved [OF a] i show ?thesis by metis
qed

text \<open>
  Claim C20. In every reachable state of the admission checks of a process, readiness is current: when the gateway says
  it is ready, the newest check passed, and since it passed only checks begun before it have ended, all of them
  successfully; no failure, rejection or newer check has been seen since.
\<close>

theorem ready_is_current:
  assumes "reachable admission_start admission_step r" and "ad_ready (ar_state r)"
  shows "\<exists>pre post. ar_events r = pre @ Passed (ad_attempt (ar_state r)) # post \<and> Began (ad_attempt (ar_state r)) \<in> set pre
     \<and> (\<forall>e \<in> set pre. number_of e \<le> ad_attempt (ar_state r)) \<and> (\<forall>e \<in> set post. \<exists>n < ad_attempt (ar_state r). e = Passed n)"
proof -
  from admission.inv_reachable [OF assms(1)] have i: "admission_ok r" .
  with assms(2) obtain pre post where e: "ar_events r = pre @ Passed (ad_attempt (ar_state r)) # post"
    "Began (ad_attempt (ar_state r)) \<in> set pre" "\<forall>e \<in> set post. \<exists>n < ad_attempt (ar_state r). e = Passed n"
    unfolding admission_ok_def by blast
  from i have "\<forall>e \<in> set (ar_events r). number_of e \<le> ad_attempt (ar_state r)" by (simp add: admission_ok_def)
  then have "\<forall>e \<in> set pre. number_of e \<le> ad_attempt (ar_state r)" by (simp add: e(1))
  with e show ?thesis by blast
qed

section \<open>Witnesses\<close>

definition demo_runtime_env :: cvm_env where
  "demo_runtime_env = demo_cvm_env\<lparr>ce_host := demo_cvm_host\<lparr>nh_crypto := demo_near_crypto\<lparr>cx_sha := (\<lambda>_. replicate 32 1)\<rparr>\<rparr>\<rparr>"

definition demo_runtime_config :: runtime_config where
  "demo_runtime_config = \<lparr>rc_production = True, rc_managed = True, rc_authorized = True, rc_localBootstrap = False,
     rc_chain = \<lparr>kf_chainId = 7, kf_account = ''r'', kf_usdc = ''u'', kf_encl = ''e'', kf_meter = ''m'', kf_staking = ''s'', kf_registry = ''g'',
       kf_mandate = ''d'', kf_feeVault = ''f'', kf_confirmations = None, kf_keccak = (\<lambda>_. [])\<rparr>, rc_verifier = ''v''\<rparr>"

definition demo_runtime_view :: rpc_view where
  "demo_runtime_view = \<lparr>rv_chainId = Inr 7, rv_head = Inr 9, rv_latest = Inl rpc_failed,
     rv_block = (\<lambda>n. Inr \<lparr>bl_number = n, bl_hash = Some ''B'', bl_timestamp = 0\<rparr>), rv_receipt = (\<lambda>_. Inl rpc_failed),
     rv_transaction = (\<lambda>_. Inl rpc_failed), rv_code = (\<lambda>_. Inr None), rv_used = (\<lambda>_ _ _ _. Inr []), rv_call = (\<lambda>_. Inl rpc_failed),
     rv_callAt = (\<lambda>_ c. Inr [VText (if kc_function c = ''enclaveSigner'' then enclaveAddress demo_runtime_env demo_created_cvm
       else if kc_function c = ''usdc'' then ''u'' else if kc_function c = ''feeVault'' then ''f'' else if kc_function c = ''relay'' then ''R'' else ''G'')])\<rparr>"

definition demo_registry_address :: string where
  "demo_registry_address = ''0x'' @ replicate 38 (CHR ''0'') @ ''22''"

definition demo_registry :: registry_view where
  "demo_registry = \<lparr>rg_address = demo_registry_address, rg_configChainId = 7, rg_chainId = Some 7, rg_genesisHash = Some ''x'', rg_bindingVersion = Some 1,
     rg_isApprovedWithPolicy = (\<lambda>_. Some True), rg_idByHashes = (\<lambda>_ _. Some 1), rg_listingPolicy = (\<lambda>_. None)\<rparr>"

definition demo_active_row :: tcb_row where
  "demo_active_row = \<lparr>tc_version = 1, tc_servingImageId = tp_servingImageId demo_policy, tc_measurement = measurementOf (ce_crypto demo_runtime_env) demo_policy,
     tc_policyHash = Some (sha256HexText (ce_sha demo_runtime_env) (stringify (policy_json demo_policy))), tc_policyJson = Some (policy_json demo_policy),
     tc_status = ''active'', tc_proposalKey = None, tc_activationKey = None, tc_activationRequestHash = None, tc_activationMode = Some ''onchain'',
     tc_activationScope = Some (int_dec 7 @ '':'' @ lower ''x'' @ '':'' @ lower demo_registry_address), tc_activatedAt = Some 5, tc_createdAt = 4\<rparr>"

definition demo_sync_world :: sync_world where
  "demo_sync_world = \<lparr>sy_now = 20, sy_chain = \<lparr>cw_send = (\<lambda>_ _ _. Inl rpc_failed), cw_wait = (\<lambda>_ _. Inl rpc_failed), cw_view = (\<lambda>_. demo_runtime_view)\<rparr>,
     sy_events = [], sy_rows = [demo_active_row], sy_registry = demo_registry, sy_meanwhile = (\<lambda>_ g. g)\<rparr>"

definition demo_gateway :: gateway where
  "demo_gateway = \<lparr>gp_release = Some \<lparr>al_acceptedAt = Some 10, al_validUntil = Some 30, al_policyUntil = Some 40,
       al_policyHash = sha256HexText (ce_sha demo_runtime_env) (stringify (policy_json demo_policy)),
       al_codeHash = measurementOf (ce_crypto demo_runtime_env) demo_policy, al_tcbVersion = JInt 1\<rparr>,
     gp_wired = False, gp_admission = \<lparr>ad_attempt = 0, ad_ready = False\<rparr>, gp_lifecycle = None, gp_cvm = demo_created_cvm\<rparr>"

lemma demo_runtime_hash: "sha256HexText (ce_sha demo_runtime_env) s = ''0x'' @ concat (replicate 32 ''01'')"
  "sha256HexText (cx_sha (ce_crypto demo_runtime_env)) s = ''0x'' @ concat (replicate 32 ''01'')"
  "measurementOf (ce_crypto demo_runtime_env) p = ''0x'' @ concat (replicate 32 ''01'')"
proof -
  have "toHex (replicate 32 1) = ''0x'' @ concat (replicate 32 ''01'')" by code_simp
  then show "sha256HexText (ce_sha demo_runtime_env) s = ''0x'' @ concat (replicate 32 ''01'')"
    "sha256HexText (cx_sha (ce_crypto demo_runtime_env)) s = ''0x'' @ concat (replicate 32 ''01'')"
    "measurementOf (ce_crypto demo_runtime_env) p = ''0x'' @ concat (replicate 32 ''01'')"
    by (simp_all add: sha256HexText_def sha256Hex_def measurementOf_def ce_sha_def ce_crypto_def demo_runtime_env_def)
qed

lemma demo_same: "same s s" "same ''G'' ''g''" "same ''R'' ''r''"
  by (simp add: same_def, code_simp, code_simp)

lemma demo_wiring:
  "assertRuntimeContractWiring demo_runtime_env demo_runtime_config demo_sync_world demo_gateway = (Inr (), demo_gateway\<lparr>gp_wired := True\<rparr>)"
  by (simp add: assertRuntimeContractWiring_def Let_def verifyRuntimeContractWiring_def io_catch_def check_wiring_def read_wiring_def io_bind_def
      read_at_def text_answer_def of_option_def contract_call_def wired_as_def demo_same require_def truthy_text_def,
      simp add: demo_runtime_config_def demo_sync_world_def demo_runtime_view_def demo_gateway_def text_answer_def of_option_def wired_as_def demo_same
      require_def truthy_text_def rbind_def)

definition demo_state :: tcb_state where
  "demo_state = \<lparr>st_record = \<lparr>tr_version = JInt 1, tr_servingImageId = tp_servingImageId demo_policy, tr_measurement = measurementOf (ce_crypto demo_runtime_env) demo_policy,
       tr_policyHash = sha256HexText (ce_sha demo_runtime_env) (stringify (policy_json demo_policy))\<rparr>,
     st_policy = demo_policy, st_status = ''active'', st_binding = ''onchain'', st_scope = tc_activationScope demo_active_row, st_activatedAt = Some 5, st_createdAt = 4\<rparr>"

lemma demo_current:
  assumes "te_crypto l = ce_crypto demo_runtime_env"
  shows "current l (sy_rows demo_sync_world) = Inr demo_state"
proof -
  have "tp_version demo_policy = JInt 1" by (simp add: demo_policy_def)
  have "activeRow (sy_rows demo_sync_world) = Inr demo_active_row"
    by (simp add: demo_sync_world_def activeRow_def) (simp add: demo_active_row_def)
  moreover have "policyOf (ce_crypto demo_runtime_env) demo_active_row = Inr demo_policy"
    by (rule policyOf_consistent [OF demo_policy_valid]) (simp_all add: demo_active_row_def ce_sha_def \<open>tp_version demo_policy = JInt 1\<close>)
  ultimately show ?thesis
    using demo_policy_valid \<open>tp_version demo_policy = JInt 1\<close>
    by (simp add: current_def assms policyState_def tcbPolicyRecord_def tcbPolicyHash_def canonicalTcbPolicy_def demo_state_def)
      (simp add: demo_active_row_def ce_sha_def)
qed

lemma demo_approved: "verifyTcbApproval demo_registry (modelHash demo_runtime_env d) (tr_measurement (st_record demo_state)) (tr_policyHash (st_record demo_state)) (JInt 1)
   = Inr \<lparr>ta_mode = ''onchain'', ta_scope = the (tc_activationScope demo_active_row), ta_listingId = 1\<rparr>"
proof -
  have a: "isConfiguredAddress (Some demo_registry_address)" by code_simp
  have h: "isHex32 (''0x'' @ concat (replicate 32 ''01''))" "lower (''0x'' @ concat (replicate 32 ''01'')) \<noteq> zero_hash" by code_simp+
  have "modelHash demo_runtime_env d = ''0x'' @ concat (replicate 32 ''01'')" by (simp only: modelHash_def demo_runtime_hash)
  then have v: "validate_binding \<lparr>tb_modelHash = modelHash demo_runtime_env d, tb_codeHash = tr_measurement (st_record demo_state),
      tb_policyHash = tr_policyHash (st_record demo_state), tb_policyVersion = 1\<rparr> = Inr ()"
    using h by (simp only: validate_binding_def demo_state_def demo_runtime_hash tcb_binding.simps tcb_state.simps tcb_record.simps) simp
  show ?thesis
    by (simp add: verifyTcbApproval_def is_safe_integer_def max_safe_def assertApproved_def approval_def v assertSupported_def)
      (simp add: demo_registry_def a demo_active_row_def of_option_def)
qed

lemma demo_sync: "\<exists>d h. syncTcb demo_runtime_env demo_runtime_config demo_sync_world demo_gateway = (Inr (d, demo_state), h)"
proof -
  obtain l g2 where l: "lifecycle demo_runtime_env demo_runtime_config (sy_registry demo_sync_world) (demo_gateway\<lparr>gp_wired := True\<rparr>) = (l, g2)" by force
  then have lc: "te_crypto l = ce_crypto demo_runtime_env" and g2: "gp_release g2 = gp_release demo_gateway" "gp_cvm g2 = demo_created_cvm"
    by (auto simp: lifecycle_def Let_def demo_gateway_def)
  have w: "sy_meanwhile demo_sync_world n g2 = g2" "sy_registry demo_sync_world = demo_registry" for n by (simp_all add: demo_sync_world_def)
  have p: "tp_version (cc_policy (dv_config demo_created_cvm)) = JInt 1" by (simp add: demo_created_cvm_def demo_cvm_config_def demo_policy_def)
  have acc: "production_accepted demo_runtime_config (sy_now demo_sync_world) demo_gateway"
    by (simp add: production_accepted_def demo_gateway_def releaseIsFresh_def demo_sync_world_def)
  obtain r where r: "gp_release demo_gateway = Some r" by (simp add: demo_gateway_def)
  then have m: "matches_release r demo_state" by (auto simp: demo_gateway_def matches_release_def demo_state_def)
  have b: "st_binding demo_state = ''onchain''" "tr_version (st_record demo_state) = JInt 1" "st_scope demo_state = Some (the (tc_activationScope demo_active_row))"
    by (simp_all add: demo_state_def demo_active_row_def)
  have c: "sync_checks demo_runtime_env demo_runtime_config (gp_release g2) demo_registry demo_state (gp_cvm g2) = Inr ()"
    by (simp add: sync_checks_def g2 r m b demo_approved p require_def)
  have "canonicalTcbPolicy demo_policy = Inr (stringify (policy_json demo_policy))" using demo_policy_valid by (simp add: canonicalTcbPolicy_def)
  moreover have "cc_policy (dv_config demo_created_cvm) = demo_policy" "\<not> cc_policyKeys (dv_config demo_created_cvm)" "st_policy demo_state = demo_policy"
    by (simp_all add: demo_created_cvm_def demo_cvm_config_def demo_state_def)
  ultimately obtain d where d: "sync_enclave demo_runtime_env demo_state (gp_cvm g2) = Inr d"
    using withPolicy_total [OF demo_policy_valid, of demo_created_cvm] by (auto simp: sync_enclave_def g2 needs_rotation_def tcbPolicyHash_def b)
  have "sync_policy demo_runtime_env demo_runtime_config demo_sync_world (demo_gateway\<lparr>gp_wired := True\<rparr>) = (Inr (d, demo_state), g2\<lparr>gp_cvm := d\<rparr>)"
    using l by (simp add: sync_policy_def w demo_current [OF lc] c d)
  then show ?thesis by (simp add: syncTcb_def acc demo_wiring)
qed

lemma demo_shared: "shared_world demo_runtime_env demo_sync_world" "lifecycle_ok demo_runtime_env demo_gateway"
  by (simp_all add: shared_world_def demo_sync_world_def lifecycle_ok_def demo_gateway_def)

theorem synced_enclave_runs_active_policy_witness:
  "\<exists>d h. syncTcb demo_runtime_env demo_runtime_config demo_sync_world demo_gateway = (Inr (d, demo_state), h) \<and> gp_cvm h = d"
proof -
  obtain d h where s: "syncTcb demo_runtime_env demo_runtime_config demo_sync_world demo_gateway = (Inr (d, demo_state), h)" using demo_sync by blast
  from synced_enclave_runs_active_policy [OF demo_shared s] s show ?thesis by blast
qed

theorem production_sync_is_accepted_witness:
  "\<exists>d h r. syncTcb demo_runtime_env demo_runtime_config demo_sync_world demo_gateway = (Inr (d, demo_state), h) \<and> matches_release r demo_state"
proof -
  obtain d h where s: "syncTcb demo_runtime_env demo_runtime_config demo_sync_world demo_gateway = (Inr (d, demo_state), h)" using demo_sync by blast
  have "rc_production demo_runtime_config" by (simp add: demo_runtime_config_def)
  from production_sync_is_accepted [OF demo_shared(1) this s] s show ?thesis by blast
qed

theorem ready_is_current_witness:
  "\<exists>r. reachable admission_start admission_step r \<and> ad_ready (ar_state r) \<and> Passed 2 \<in> set (ar_events r) \<and> Began 1 \<in> set (ar_events r)"
proof -
  let ?s = "\<lambda>n b. \<lparr>ad_attempt = n, ad_ready = b\<rparr>"
  have r0: "reachable admission_start admission_step \<lparr>ar_state = ?s 0 False, ar_flight = {}, ar_events = []\<rparr>"
    by (rule reachable_start) (simp add: admission_start_def)
  have r1: "reachable admission_start admission_step \<lparr>ar_state = ?s 1 False, ar_flight = {1}, ar_events = [Began 1]\<rparr>"
    by (rule reachable_step [OF r0]) (use began [of "\<lparr>ar_state = ?s 0 False, ar_flight = {}, ar_events = []\<rparr>"] in \<open>simp add: preflight_begin_def\<close>)
  have r2: "reachable admission_start admission_step \<lparr>ar_state = ?s 2 False, ar_flight = {2, 1}, ar_events = [Began 1, Began 2]\<rparr>"
    by (rule reachable_step [OF r1]) (use began [of "\<lparr>ar_state = ?s 1 False, ar_flight = {1}, ar_events = [Began 1]\<rparr>"] in \<open>simp add: preflight_begin_def numeral_2_eq_2\<close>)
  have r3: "reachable admission_start admission_step \<lparr>ar_state = ?s 2 True, ar_flight = {1}, ar_events = [Began 1, Began 2, Passed 2]\<rparr>"
    by (rule reachable_step [OF r2]) (use ended [of 2 "\<lparr>ar_state = ?s 2 False, ar_flight = {2, 1}, ar_events = [Began 1, Began 2]\<rparr>" True] in \<open>simp add: preflight_end_def\<close>)
  let ?r = "\<lparr>ar_state = ?s 2 True, ar_flight = {1}, ar_events = [Began 1, Began 2, Passed 2]\<rparr>"
  have "ad_ready (ar_state ?r)" by simp
  from ready_is_current [OF r3 this] obtain pre post where "ar_events ?r = pre @ Passed 2 # post" by (auto simp del: append_assoc)
  then have "Passed 2 \<in> set (ar_events ?r)" by (simp only: set_append) simp
  with r3 show ?thesis by (intro exI [of _ ?r]) simp
qed

end
