(* ===== verification/Runtime_Store.thy ===== *)
theory Runtime_Store
  imports Core_Attestation
begin

text \<open>
  The key file of the gateway (\<open>api/src/cvm-store.ts\<close>) and its recovery timer (\<open>api/src/reconciliation.ts\<close>).

  Several processes of a host may load the keys at once. A load is a sequence of file operations, each one step: the
  read, the exclusive creation (\<open>wx\<close>), which leaves an empty file, and the writes that fill it. \<open>JSON.parse\<close> and the
  curve are the parameters of \<open>key_env\<close>. Nobody but the loader writes the file.
\<close>

section \<open>The key file\<close>

record stored_cvm =
  sk_vendorPrivateKey :: string
  sk_enclavePrivateKey :: string
  sk_wrappingKey :: string
  sk_modelKey :: string

text \<open>\<open>ke_account\<close> is \<open>privateKeyToAccount(key).address\<close>, which fails for a key that is no scalar of the curve.\<close>

record key_env =
  ke_parse :: "string \<Rightarrow> json option"
  ke_account :: "string \<Rightarrow> string option"

definition keySchema :: "json option \<Rightarrow> enclave_error + string" where
  "keySchema v = of_option (PlainError ''invalid key file'') (case v of Some (JStr s) \<Rightarrow> if isHex32 s then Some s else None | _ \<Rightarrow> None)"

definition storedSchema :: "json \<Rightarrow> enclave_error + stored_cvm" where
  "storedSchema j =
     (case j of
        JObj fs \<Rightarrow>
          rbind (keySchema (map_of fs ''vendorPrivateKey'')) (\<lambda>v. rbind (keySchema (map_of fs ''enclavePrivateKey'')) (\<lambda>e.
          rbind (keySchema (map_of fs ''wrappingKey'')) (\<lambda>w. rbind (keySchema (map_of fs ''modelKey'')) (\<lambda>m.
            Inr \<lparr>sk_vendorPrivateKey = v, sk_enclavePrivateKey = e, sk_wrappingKey = w, sk_modelKey = m\<rparr>))))
      | _ \<Rightarrow> Inl (PlainError ''invalid key file''))"

definition stored_json :: "stored_cvm \<Rightarrow> json" where
  "stored_json s = JObj [(''vendorPrivateKey'', JStr (sk_vendorPrivateKey s)), (''enclavePrivateKey'', JStr (sk_enclavePrivateKey s)),
     (''wrappingKey'', JStr (sk_wrappingKey s)), (''modelKey'', JStr (sk_modelKey s))]"

definition newline :: char where
  "newline = CHR 0x0A"

definition key_line :: "string \<Rightarrow> string \<Rightarrow> string" where
  "key_line name key = ''  \"'' @ name @ ''\": \"'' @ key @ ''\"''"

definition render_keys :: "stored_cvm \<Rightarrow> string" where
  "render_keys s = ''{'' @ [newline] @ key_line ''vendorPrivateKey'' (sk_vendorPrivateKey s) @ '','' @ [newline]
     @ key_line ''enclavePrivateKey'' (sk_enclavePrivateKey s) @ '','' @ [newline] @ key_line ''wrappingKey'' (sk_wrappingKey s) @ '','' @ [newline]
     @ key_line ''modelKey'' (sk_modelKey s) @ [newline] @ ''}'' @ [newline]"

definition account :: "key_env \<Rightarrow> string \<Rightarrow> enclave_error + string" where
  "account env key = of_option (PlainError ''invalid private key'') (ke_account env key)"

definition vendor_of :: "key_env \<Rightarrow> stored_cvm \<Rightarrow> enclave_error + vendor_roots" where
  "vendor_of env s = rmap (\<lambda>a. \<lparr>vr_address = a, vr_privateKey = Some (sk_vendorPrivateKey s)\<rparr>) (account env (sk_vendorPrivateKey s))"

definition read_keys :: "key_env \<Rightarrow> string \<Rightarrow> enclave_error + (stored_cvm \<times> vendor_roots)" where
  "read_keys env raw =
     rbind (of_option (PlainError ''invalid key file'') (ke_parse env raw)) (\<lambda>j. rbind (storedSchema j) (\<lambda>s.
     rbind (account env (sk_enclavePrivateKey s)) (\<lambda>_. rmap (\<lambda>v. (s, v)) (vendor_of env s))))"

definition storedToBuffers :: "stored_cvm \<Rightarrow> enclave_error + (string \<times> bytes \<times> bytes)" where
  "storedToBuffers s =
     rbind (storedSchema (stored_json s)) (\<lambda>_. case (fromHex (sk_wrappingKey s), fromHex (sk_modelKey s)) of
        (Inr w, Inr m) \<Rightarrow> Inr (sk_enclavePrivateKey s, w, m)
      | _ \<Rightarrow> Inl (PlainError ''invalid hex''))"

section \<open>Loading the keys\<close>

datatype load_phase =
    Reading
  | Creating stored_cvm
  | Writing stored_cvm nat
  | Loaded stored_cvm vendor_roots
  | Failed enclave_error

text \<open>\<open>readFile\<close>: the keys of the file, or new keys when there is no file; every other outcome is final.\<close>

definition load_read :: "key_env \<Rightarrow> bool \<Rightarrow> stored_cvm \<Rightarrow> string option \<Rightarrow> load_phase" where
  "load_read env allowCreate fresh file =
     (case file of
        Some raw \<Rightarrow> (case read_keys env raw of Inr (s, v) \<Rightarrow> Loaded s v | Inl e \<Rightarrow> Failed e)
      | None \<Rightarrow> if allowCreate then Creating fresh
          else Failed (PlainError ''Accepted gateway keys are missing; production cannot generate replacement keys''))"

text \<open>\<open>writeFile\<close> with \<open>wx\<close>: the file is created by one process only; the others read it.\<close>

definition load_create :: "stored_cvm \<Rightarrow> string option \<Rightarrow> load_phase \<times> string option" where
  "load_create s file = (case file of None \<Rightarrow> (Writing s 0, Some []) | Some raw \<Rightarrow> (Reading, Some raw))"

definition load_write :: "stored_cvm \<Rightarrow> nat \<Rightarrow> load_phase \<times> string option" where
  "load_write s n = (Writing s n, Some (take n (render_keys s)))"

definition load_finish :: "key_env \<Rightarrow> stored_cvm \<Rightarrow> load_phase" where
  "load_finish env s = (case vendor_of env s of Inr v \<Rightarrow> Loaded s v | Inl e \<Rightarrow> Failed e)"

record key_host =
  kh_file :: "string option"
  kh_phase :: "nat \<Rightarrow> load_phase"
  kh_loaded :: "stored_cvm list"

definition loaded_of :: "load_phase \<Rightarrow> stored_cvm list" where
  "loaded_of ph = (case ph of Loaded s _ \<Rightarrow> [s] | _ \<Rightarrow> [])"

definition enter :: "nat \<Rightarrow> load_phase \<Rightarrow> string option \<Rightarrow> key_host \<Rightarrow> key_host" where
  "enter p ph file r = \<lparr>kh_file = file, kh_phase = (kh_phase r)(p := ph), kh_loaded = loaded_of ph @ kh_loaded r\<rparr>"

definition fresh_keys :: "key_env \<Rightarrow> stored_cvm \<Rightarrow> bool" where
  "fresh_keys env s \<longleftrightarrow> list_all isHex32 [sk_vendorPrivateKey s, sk_enclavePrivateKey s, sk_wrappingKey s, sk_modelKey s]
     \<and> ke_account env (sk_vendorPrivateKey s) \<noteq> None \<and> ke_account env (sk_enclavePrivateKey s) \<noteq> None"

inductive key_step :: "key_env \<Rightarrow> key_host \<Rightarrow> key_host \<Rightarrow> bool" for env where
  reads: "kh_phase r p = Reading \<Longrightarrow> fresh_keys env fresh \<Longrightarrow>
    key_step env r (enter p (load_read env allowCreate fresh (kh_file r)) (kh_file r) r)"
| creates: "kh_phase r p = Creating s \<Longrightarrow> load_create s (kh_file r) = (ph, file) \<Longrightarrow> key_step env r (enter p ph file r)"
| writes: "kh_phase r p = Writing s m \<Longrightarrow> m \<le> n \<Longrightarrow> load_write s n = (ph, file) \<Longrightarrow> key_step env r (enter p ph file r)"
| finishes: "kh_phase r p = Writing s n \<Longrightarrow> length (render_keys s) \<le> n \<Longrightarrow> key_step env r (enter p (load_finish env s) (kh_file r) r)"
| fails: "key_step env r (enter p (Failed e) (kh_file r) r)"
| restarts: "key_step env r (enter p Reading (kh_file r) r)"

definition key_start :: "key_host \<Rightarrow> bool" where
  "key_start r \<longleftrightarrow> kh_phase r = (\<lambda>_. Reading) \<and> kh_loaded r = []"

text \<open>
  What is relied on of \<open>JSON.parse\<close>: it reads back the text of the stored keys, and of a text cut short it reads
  nothing, or all of it when only the final newline is missing.
\<close>

definition parses_stored :: "key_env \<Rightarrow> bool" where
  "parses_stored env \<longleftrightarrow> (\<forall>s n. fresh_keys env s \<longrightarrow> ke_parse env (render_keys s) = Some (stored_json s)
     \<and> ke_parse env (take n (render_keys s)) \<in> {None, Some (stored_json s)})"

lemma storedSchema_json:
  assumes "fresh_keys env s"
  shows "storedSchema (stored_json s) = Inr s"
  using assms by (simp add: storedSchema_def stored_json_def keySchema_def fresh_keys_def of_option_def)

lemma read_prefix:
  assumes "parses_stored env" and "fresh_keys env s" and "read_keys env (take n (render_keys s)) = Inr (t, v)"
  shows "t = s"
proof -
  from assms(3) obtain j where j: "ke_parse env (take n (render_keys s)) = Some j" "storedSchema j = Inr t"
    by (auto simp: read_keys_def rbind_Inr_iff rmap_Inr_iff of_option_def split: option.splits)
  from assms(1,2) have "ke_parse env (take n (render_keys s)) \<in> {None, Some (stored_json s)}" unfolding parses_stored_def by blast
  with j storedSchema_json [OF assms(2)] show ?thesis by auto
qed

lemma read_rendered:
  assumes "parses_stored env" and "fresh_keys env s"
  shows "\<exists>v. read_keys env (render_keys s) = Inr (s, v) \<and> vendor_of env s = Inr v"
proof -
  from assms have "ke_parse env (render_keys s) = Some (stored_json s)" by (simp add: parses_stored_def)
  moreover from assms(2) obtain a b where "ke_account env (sk_vendorPrivateKey s) = Some a" "ke_account env (sk_enclavePrivateKey s) = Some b"
    by (auto simp: fresh_keys_def)
  ultimately show ?thesis using storedSchema_json [OF assms(2)] by (simp add: read_keys_def account_def of_option_def vendor_of_def)
qed

definition keys_ok :: "key_env \<Rightarrow> key_host \<Rightarrow> bool" where
  "keys_ok env r \<longleftrightarrow> (\<forall>p s. kh_phase r p = Creating s \<longrightarrow> fresh_keys env s)
     \<and> (case kh_file r of
          None \<Rightarrow> kh_loaded r = [] \<and> (\<forall>p s n. kh_phase r p \<noteq> Writing s n)
        | Some raw \<Rightarrow> (\<exists>k. set (kh_loaded r) \<subseteq> {k} \<and> (\<forall>t v. read_keys env raw = Inr (t, v) \<longrightarrow> t = k)
            \<and> (\<forall>p s n. kh_phase r p = Writing s n \<longrightarrow> s = k \<and> fresh_keys env s \<and> raw = take n (render_keys s)
                 \<and> (\<forall>q t m. kh_phase r q = Writing t m \<longrightarrow> q = p))))"

lemma enter_simps [simp]:
  "kh_file (enter p ph file r) = file" "kh_phase (enter p ph file r) = (kh_phase r)(p := ph)"
  "kh_loaded (enter p ph file r) = loaded_of ph @ kh_loaded r"
  by (simp_all add: enter_def)

lemma load_read_cases:
  "load_read env allowCreate fresh file \<in> {Creating fresh} \<union> range Failed \<or> (\<exists>raw s v. file = Some raw \<and> read_keys env raw = Inr (s, v) \<and> load_read env allowCreate fresh file = Loaded s v)"
  by (auto simp: load_read_def split: option.splits sum.splits)

lemma load_read_creating: "load_read env allowCreate fresh file = Creating s \<Longrightarrow> s = fresh \<and> file = None"
  by (auto simp: load_read_def split: option.splits sum.splits if_splits)

lemma load_read_not_writing: "load_read env allowCreate fresh file \<noteq> Writing s n"
  by (auto simp: load_read_def split: option.splits sum.splits if_splits)

lemma keys_ok_quiet:
  assumes "keys_ok env r" and "\<And>s. ph = Creating s \<Longrightarrow> fresh_keys env s" and "\<And>s n. ph \<noteq> Writing s n"
    and "\<And>s. s \<in> set (loaded_of ph) \<Longrightarrow> (\<exists>raw v. kh_file r = Some raw \<and> read_keys env raw = Inr (s, v))"
  shows "keys_ok env (enter p ph (kh_file r) r)"
proof (cases "kh_file r")
  case None
  with assms(4) have "loaded_of ph = []" by (cases "loaded_of ph") auto
  with assms(1-3) None show ?thesis by (simp add: keys_ok_def)
next
  case (Some raw)
  with assms(1) obtain k where k: "set (kh_loaded r) \<subseteq> {k}" "\<forall>t v. read_keys env raw = Inr (t, v) \<longrightarrow> t = k"
    "\<forall>p s n. kh_phase r p = Writing s n \<longrightarrow> s = k \<and> fresh_keys env s \<and> raw = take n (render_keys s)
       \<and> (\<forall>q t m. kh_phase r q = Writing t m \<longrightarrow> q = p)" by (auto simp: keys_ok_def)
  from assms(4) Some k(2) have "set (loaded_of ph) \<subseteq> {k}" by auto
  with k assms(1-3) Some show ?thesis unfolding keys_ok_def by (simp, intro exI [of _ k]) auto
qed

lemma keys_ok_writing:
  assumes "keys_ok env r" and "kh_phase r p = Writing s n"
  shows "fresh_keys env s" "kh_file r = Some (take n (render_keys s))" "set (kh_loaded r) \<subseteq> {s}" "\<And>q t m. kh_phase r q = Writing t m \<Longrightarrow> q = p"
proof -
  from assms obtain raw where raw: "kh_file r = Some raw" by (auto simp: keys_ok_def split: option.splits)
  with assms(1) obtain k where "set (kh_loaded r) \<subseteq> {k}" "\<forall>p s n. kh_phase r p = Writing s n \<longrightarrow> s = k \<and> fresh_keys env s
     \<and> raw = take n (render_keys s) \<and> (\<forall>q t m. kh_phase r q = Writing t m \<longrightarrow> q = p)" by (auto simp: keys_ok_def)
  with assms(2) raw show "fresh_keys env s" "kh_file r = Some (take n (render_keys s))" "set (kh_loaded r) \<subseteq> {s}"
    "\<And>q t m. kh_phase r q = Writing t m \<Longrightarrow> q = p" by blast+
qed

lemma key_step_ok:
  assumes "key_step env r q" and "keys_ok env r" and "parses_stored env"
  shows "keys_ok env q"
  using assms
proof (induction rule: key_step.induct)
  case (reads r p fresh allowCreate)
  show ?case
  proof (rule keys_ok_quiet [OF reads(3)])
    show "fresh_keys env s" if "load_read env allowCreate fresh (kh_file r) = Creating s" for s
      using load_read_creating [OF that] reads(2) by simp
    show "\<exists>raw v. kh_file r = Some raw \<and> read_keys env raw = Inr (s, v)" if "s \<in> set (loaded_of (load_read env allowCreate fresh (kh_file r)))" for s
      using that load_read_cases [of env allowCreate fresh "kh_file r"] by (auto simp: loaded_of_def)
  qed (rule load_read_not_writing)
next
  case (creates r p s ph disk)
  show ?case
  proof (cases "kh_file r")
    case (Some raw)
    with creates(2) have "ph = Reading" "disk = kh_file r" by (simp_all add: load_create_def)
    then show ?thesis using keys_ok_quiet [OF creates(3), of Reading p] by (simp add: loaded_of_def)
  next
    case None
    with creates(2) have f: "ph = Writing s 0" "disk = Some []" by (simp_all add: load_create_def)
    from creates(1,3) None have g: "fresh_keys env s" "kh_loaded r = []" "\<And>p s n. kh_phase r p \<noteq> Writing s n" by (auto simp: keys_ok_def)
    have "t = s" if "read_keys env [] = Inr (t, v)" for t v using read_prefix [OF creates(4) g(1), of 0] that by simp
    with g creates(3) show ?thesis unfolding keys_ok_def f by (auto simp: loaded_of_def)
  qed
next
  case (writes r p s m n ph disk)
  then have f: "ph = Writing s n" "disk = Some (take n (render_keys s))" by (simp_all add: load_write_def)
  note w = keys_ok_writing [OF writes(4,1)]
  have "t = s" if "read_keys env (take n (render_keys s)) = Inr (t, v)" for t v using read_prefix [OF writes(5) w(1) that] .
  then show ?case using writes(4) w unfolding keys_ok_def f by (simp add: loaded_of_def) blast
next
  case (finishes r p s n)
  from finishes(1,3) obtain raw where raw: "kh_file r = Some raw" "fresh_keys env s" "raw = take n (render_keys s)" by (auto simp: keys_ok_def split: option.splits)
  with finishes(2) have "raw = render_keys s" by simp
  with read_rendered [OF finishes(4) raw(2)] obtain v where v: "read_keys env raw = Inr (s, v)" "vendor_of env s = Inr v" by auto
  show ?case
    by (rule keys_ok_quiet [OF finishes(3)]) (use v raw in \<open>auto simp: load_finish_def loaded_of_def\<close>)
qed (auto intro!: keys_ok_quiet simp: loaded_of_def)

interpretation key_file: invariant_system key_start "key_step env" "\<lambda>r. parses_stored env \<longrightarrow> keys_ok env r" for env
proof unfold_locales
  show "parses_stored env \<longrightarrow> keys_ok env r" if "key_start r" for r
  proof (cases "kh_file r")
    case None
    with that show ?thesis by (simp add: key_start_def keys_ok_def)
  next
    case (Some raw)
    have "\<exists>k. \<forall>t v. read_keys env raw = Inr (t, v) \<longrightarrow> t = k" by (cases "read_keys env raw") auto
    with that Some show ?thesis by (simp add: key_start_def keys_ok_def)
  qed
  show "parses_stored env \<longrightarrow> keys_ok env q" if "parses_stored env \<longrightarrow> keys_ok env r" "key_step env r q" for r q
    using that key_step_ok by blast
qed

text \<open>
  Claim C32. The keys of a host never change: whatever processes load them, at the same time or later, whatever fails or
  is cut short in between, all loads that succeed return the same keys.
\<close>

theorem keys_never_rotate:
  assumes "parses_stored env" and "reachable key_start (key_step env) r" and "s \<in> set (kh_loaded r)" and "t \<in> set (kh_loaded r)"
  shows "s = t"
proof -
  from key_file.inv_reachable [OF assms(2)] assms(1) have "keys_ok env r" by simp
  with assms(3) obtain k where "set (kh_loaded r) \<subseteq> {k}" by (auto simp: keys_ok_def split: option.splits)
  with assms(3,4) show ?thesis by blast
qed

lemma key_step_file:
  assumes "key_step env r q" and "kh_file r = Some raw" and "\<forall>p s n. kh_phase r p \<noteq> Writing s n"
  shows "kh_file q = Some raw \<and> (\<forall>p s n. kh_phase q p \<noteq> Writing s n)"
  using assms
proof (induction rule: key_step.induct)
  case (reads r p fresh allowCreate)
  then show ?case using load_read_not_writing by auto
next
  case (creates r p s ph disk)
  then show ?case by (auto simp: load_create_def)
next
  case (finishes r p s n)
  then show ?case by simp
qed (auto simp: load_write_def)

text \<open>
  A key file that nobody is writing is never written again, whatever it holds: no corrupt, invalid or
  inaccessible file is replaced.
\<close>

theorem stored_file_is_kept:
  assumes "kh_file r = Some raw" and "\<forall>p s n. kh_phase r p \<noteq> Writing s n" and "(key_step env)\<^sup>*\<^sup>* r q"
  shows "kh_file q = Some raw"
proof -
  from assms(3,1,2) have "kh_file q = Some raw \<and> (\<forall>p s n. kh_phase q p \<noteq> Writing s n)"
    by (induction rule: rtranclp_induct) (simp, meson key_step_file)
  then show ?thesis by simp
qed

section \<open>The recovery timer\<close>

record recovery =
  rv_active :: bool
  rv_stopped :: bool
  rv_timer :: bool
  rv_runs :: nat
  rv_ended :: nat
  rv_reports :: "enclave_error list"
  rv_returned :: bool

definition tick :: "recovery \<Rightarrow> recovery" where
  "tick r = (if rv_active r \<or> rv_stopped r then r else r\<lparr>rv_active := True, rv_runs := Suc (rv_runs r)\<rparr>)"

definition run_ends :: "enclave_error + unit \<Rightarrow> recovery \<Rightarrow> recovery" where
  "run_ends result r = r\<lparr>rv_active := False, rv_ended := Suc (rv_ended r),
     rv_reports := (case result of Inl e \<Rightarrow> rv_reports r @ [e] | Inr _ \<Rightarrow> rv_reports r)\<rparr>"

definition stop :: "recovery \<Rightarrow> recovery" where
  "stop r = r\<lparr>rv_stopped := True, rv_timer := False\<rparr>"

definition stop_returns :: "recovery \<Rightarrow> recovery option" where
  "stop_returns r = (if rv_stopped r \<and> \<not> rv_active r then Some (r\<lparr>rv_returned := True\<rparr>) else None)"

definition startReconciliation :: recovery where
  "startReconciliation = tick \<lparr>rv_active = False, rv_stopped = False, rv_timer = True, rv_runs = 0, rv_ended = 0, rv_reports = [], rv_returned = False\<rparr>"

inductive recovery_step :: "recovery \<Rightarrow> recovery \<Rightarrow> bool" where
  ticks: "rv_timer r \<Longrightarrow> recovery_step r (tick r)"
| ends: "rv_active r \<Longrightarrow> recovery_step r (run_ends result r)"
| stops: "recovery_step r (stop r)"
| returns: "stop_returns r = Some q \<Longrightarrow> recovery_step r q"

definition recovery_ok :: "recovery \<Rightarrow> bool" where
  "recovery_ok r \<longleftrightarrow> rv_runs r = rv_ended r + (if rv_active r then 1 else 0) \<and> (rv_returned r \<longrightarrow> rv_stopped r \<and> \<not> rv_active r)"

interpretation recovery: invariant_system "\<lambda>r. r = startReconciliation" recovery_step recovery_ok
proof unfold_locales
  show "recovery_ok r" if "r = startReconciliation" for r using that by (simp add: recovery_ok_def startReconciliation_def tick_def)
  show "recovery_ok q" if "recovery_ok r" "recovery_step r q" for r q
    using that(2,1) by (induction rule: recovery_step.induct) (auto simp: recovery_ok_def tick_def run_ends_def stop_def stop_returns_def split: if_splits)
qed

text \<open>
  Recovery runs never overlap and are drained by \<open>stop\<close>: at any time at most one has started and not ended, and
  once \<open>stop\<close> has returned every run that ever starts has ended.
\<close>

theorem recovery_never_overlaps:
  assumes "reachable (\<lambda>r. r = startReconciliation) recovery_step r"
  shows "rv_runs r \<le> Suc (rv_ended r) \<and> (rv_returned r \<longrightarrow> rv_runs r = rv_ended r)"
  using recovery.inv_reachable [OF assms] by (simp add: recovery_ok_def)

section \<open>Witnesses\<close>

definition demo_slices :: "string \<Rightarrow> stored_cvm" where
  "demo_slices t = \<lparr>sk_vendorPrivateKey = take 66 (drop 25 t), sk_enclavePrivateKey = take 66 (drop 118 t),
     sk_wrappingKey = take 66 (drop 205 t), sk_modelKey = take 66 (drop 289 t)\<rparr>"

definition demo_key_env :: key_env where
  "demo_key_env = \<lparr>ke_parse = (\<lambda>t. if length t \<in> {358, 359} then Some (stored_json (demo_slices t)) else None), ke_account = Some\<rparr>"

lemma length_hex32: "isHex32 k \<Longrightarrow> length k = 66"
  by (simp add: isHex32_def hex_string_def)

lemma slices_rendered:
  assumes "length (sk_vendorPrivateKey s) = 66" "length (sk_enclavePrivateKey s) = 66" "length (sk_wrappingKey s) = 66" "length (sk_modelKey s) = 66"
  shows "demo_slices (render_keys s) = s" "length (render_keys s) = 359"
  using assms by (simp_all add: demo_slices_def render_keys_def key_line_def)

lemma slices_prefix: "358 \<le> n \<Longrightarrow> demo_slices (take n t) = demo_slices t"
  by (simp add: demo_slices_def drop_take min_def)

lemma demo_key_parses: "parses_stored demo_key_env"
proof -
  have "ke_parse demo_key_env (render_keys s) = Some (stored_json s) \<and> ke_parse demo_key_env (take n (render_keys s)) \<in> {None, Some (stored_json s)}"
    if "fresh_keys demo_key_env s" for s n
  proof -
    from that have l: "length (sk_vendorPrivateKey s) = 66" "length (sk_enclavePrivateKey s) = 66" "length (sk_wrappingKey s) = 66" "length (sk_modelKey s) = 66"
      by (simp_all add: fresh_keys_def length_hex32)
    note r = slices_rendered [OF l]
    have "length (take n (render_keys s)) \<in> {358, 359} \<Longrightarrow> 358 \<le> n" by (auto simp: r(2))
    with r slices_prefix [of n "render_keys s"] show ?thesis by (auto simp: demo_key_env_def)
  qed
  then show ?thesis by (simp add: parses_stored_def)
qed

definition demo_key :: "char \<Rightarrow> string" where
  "demo_key c = ''0x'' @ replicate 64 c"

definition demo_keys :: "char \<Rightarrow> stored_cvm" where
  "demo_keys c = \<lparr>sk_vendorPrivateKey = demo_key c, sk_enclavePrivateKey = demo_key c, sk_wrappingKey = demo_key c, sk_modelKey = demo_key c\<rparr>"

lemma demo_fresh: "fresh_keys demo_key_env (demo_keys (CHR ''1''))" "fresh_keys demo_key_env (demo_keys (CHR ''2''))"
proof -
  have "isHex32 (demo_key (CHR ''1''))" "isHex32 (demo_key (CHR ''2''))" unfolding demo_key_def by code_simp+
  then show "fresh_keys demo_key_env (demo_keys (CHR ''1''))" "fresh_keys demo_key_env (demo_keys (CHR ''2''))"
    by (simp_all add: fresh_keys_def demo_keys_def demo_key_env_def)
qed

text \<open>Two processes start together; the second loses the creation and reads what the first has written.\<close>

lemma demo_race:
  obtains r where "reachable key_start (key_step demo_key_env) r" "kh_loaded r = [demo_keys (CHR ''1''), demo_keys (CHR ''1'')]"
    "kh_file r = Some (render_keys (demo_keys (CHR ''1'')))" "\<forall>p s n. kh_phase r p \<noteq> Writing s n"
proof -
  let ?k = "demo_keys (CHR ''1'')" and ?j = "demo_keys (CHR ''2'')"
  let ?reach = "reachable key_start (key_step demo_key_env)"
  define r0 where "r0 = \<lparr>kh_file = None, kh_phase = (\<lambda>_. Reading), kh_loaded = []\<rparr>"
  define r1 where "r1 = enter 0 (Creating ?k) None r0"
  define r2 where "r2 = enter 1 (Creating ?j) None r1"
  define r3 where "r3 = enter 0 (Writing ?k 0) (Some []) r2"
  define r4 where "r4 = enter 1 Reading (Some []) r3"
  define r5 where "r5 = enter 0 (Writing ?k 359) (Some (take 359 (render_keys ?k))) r4"
  from demo_fresh(1) have l: "length (render_keys ?k) = 359" using slices_rendered(2) [of ?k] by (simp add: fresh_keys_def length_hex32)
  then have full: "take 359 (render_keys ?k) = render_keys ?k" by simp
  obtain v where v: "read_keys demo_key_env (render_keys ?k) = Inr (?k, v)" "vendor_of demo_key_env ?k = Inr v"
    using read_rendered [OF demo_key_parses demo_fresh(1)] by blast
  define r6 where "r6 = enter 0 (Loaded ?k v) (Some (render_keys ?k)) r5"
  define r7 where "r7 = enter 1 (Loaded ?k v) (Some (render_keys ?k)) r6"
  have s0: "?reach r0" by (rule reachable_start) (simp add: key_start_def r0_def)
  have s1: "?reach r1" using reachable_step [OF s0 reads [OF _ demo_fresh(1), of r0 0 True]] by (simp add: r1_def r0_def load_read_def)
  have s2: "?reach r2" using reachable_step [OF s1 reads [OF _ demo_fresh(2), of r1 1 True]] by (simp add: r2_def r1_def r0_def load_read_def)
  have s3: "?reach r3" by (rule reachable_step [OF s2]) (unfold r3_def, rule creates [of _ _ ?k], simp_all add: r2_def r1_def load_create_def)
  have s4: "?reach r4" by (rule reachable_step [OF s3]) (unfold r4_def, rule creates [of _ _ ?j], simp_all add: r3_def r2_def load_create_def)
  have s5: "?reach r5" by (rule reachable_step [OF s4]) (unfold r5_def, rule writes [of _ _ ?k 0 359], simp_all add: r4_def r3_def load_write_def)
  have s6: "?reach r6" using reachable_step [OF s5 finishes [of r5 0 ?k 359]] by (simp add: r6_def r5_def l load_finish_def v full)
  have s7: "?reach r7" using reachable_step [OF s6 reads [OF _ demo_fresh(2), of r6 1 True]] by (simp add: r7_def r6_def r5_def r4_def load_read_def v)
  from s7 show thesis by (rule that) (simp_all add: r7_def r6_def r5_def r4_def r3_def r2_def r1_def r0_def loaded_of_def)
qed

theorem keys_never_rotate_witness:
  "\<exists>r s t. reachable key_start (key_step demo_key_env) r \<and> kh_loaded r = [s, t] \<and> s = t"
proof -
  obtain r where r: "reachable key_start (key_step demo_key_env) r" "kh_loaded r = [demo_keys (CHR ''1''), demo_keys (CHR ''1'')]" by (rule demo_race)
  from keys_never_rotate [OF demo_key_parses r(1)] r show ?thesis by auto
qed

theorem stored_file_is_kept_witness:
  "\<exists>r q. kh_file r = Some ''broken'' \<and> key_step demo_key_env r q \<and> kh_file q = Some ''broken''"
proof -
  let ?r = "\<lparr>kh_file = Some ''broken'', kh_phase = (\<lambda>_. Reading), kh_loaded = []\<rparr>"
  let ?q = "enter 0 (load_read demo_key_env True (demo_keys (CHR ''1'')) (kh_file ?r)) (kh_file ?r) ?r"
  have q: "key_step demo_key_env ?r ?q" by (rule reads) (simp_all add: demo_fresh)
  have "kh_file ?q = Some ''broken''" by (rule stored_file_is_kept [of ?r]) (use q in auto)
  with q show ?thesis by (intro exI [of _ ?r] exI [of _ ?q]) simp
qed

theorem recovery_never_overlaps_witness:
  "\<exists>r. reachable (\<lambda>r. r = startReconciliation) recovery_step r \<and> rv_returned r \<and> rv_runs r = rv_ended r"
proof -
  let ?reach = "reachable (\<lambda>r. r = startReconciliation) recovery_step"
  have s0: "?reach startReconciliation" by (rule reachable_start) simp
  have s1: "?reach (stop startReconciliation)" by (rule reachable_step [OF s0 stops])
  have s2: "?reach (run_ends (Inr ()) (stop startReconciliation))"
    by (rule reachable_step [OF s1 ends]) (simp add: stop_def startReconciliation_def tick_def)
  have s3: "?reach ((run_ends (Inr ()) (stop startReconciliation))\<lparr>rv_returned := True\<rparr>)"
    by (rule reachable_step [OF s2 returns]) (simp add: stop_returns_def stop_def startReconciliation_def tick_def run_ends_def)
  from recovery_never_overlaps [OF s3] s3 show ?thesis by (intro exI [of _ "(run_ends (Inr ()) (stop startReconciliation))\<lparr>rv_returned := True\<rparr>"]) simp
qed

end
