(* ===== verification/Gateway_Agents.thy ===== *)
theory Gateway_Agents
  imports Enclave_Cvm Inference_Service
begin

text \<open>
  Agents of the gateway: \<open>createAgent\<close>, \<open>listAgents\<close>, \<open>getAgent\<close> and \<open>putAgentMemory\<close> of \<open>api/src/gateway.ts\<close>, over the
  tables of \<open>Inference_Service\<close> and the enclave of \<open>Enclave_Cvm\<close>, which \<open>cvm_of\<close> connects: the enclave functions the
  paid inference uses are those of this enclave.

  The results of \<open>requireKey\<close> and \<open>syncTcb\<close>, the random nonce of a seal, the fresh id and the day are arguments.
\<close>

section \<open>The enclave of the service\<close>

text \<open>Blobs travel and are stored as JSON text.\<close>

definition blob_json :: "aes_blob \<Rightarrow> json" where
  "blob_json b = JObj [(''iv'', JStr (bl_iv b)), (''tag'', JStr (bl_tag b)), (''ciphertext'', JStr (bl_ciphertext b))]"

definition blob_of_json :: "json \<Rightarrow> aes_blob option" where
  "blob_of_json j = (case j of
      JObj fs \<Rightarrow> (case (map_of fs ''iv'', map_of fs ''tag'', map_of fs ''ciphertext'') of
          (Some (JStr i), Some (JStr t), Some (JStr c)) \<Rightarrow> Some \<lparr>bl_iv = i, bl_tag = t, bl_ciphertext = c\<rparr>
        | _ \<Rightarrow> None)
    | _ \<Rightarrow> None)"

definition blob_text :: "aes_blob \<Rightarrow> string" where
  "blob_text b = stringify (blob_json b)"

definition parse_blob :: "cvm_env \<Rightarrow> string \<Rightarrow> enclave_error + aes_blob" where
  "parse_blob env t = of_option (PlainError ''invalid blob'') (case nh_parse (ce_host env) t of Some j \<Rightarrow> blob_of_json j | None \<Rightarrow> None)"

definition open_text :: "cvm_env \<Rightarrow> dev_cvm \<Rightarrow> string \<Rightarrow> enclave_error + string" where
  "open_text env d t = rbind (parse_blob env t) (\<lambda>b. rmap text_of (openMemory env b d))"

definition decrypt_text :: "cvm_env \<Rightarrow> bytes \<Rightarrow> string \<Rightarrow> string option" where
  "decrypt_text env secret t = (case rbind (parse_blob env t) (decryptAesGcm (ce_aes env) secret) of Inr p \<Rightarrow> Some (text_of p) | Inl _ \<Rightarrow> None)"

text \<open>An enclave whose session keys are released; \<open>iv\<close> is the nonce of its next seal.\<close>

definition cvm_of :: "cvm_env \<Rightarrow> bytes \<Rightarrow> dev_cvm \<Rightarrow> cvm" where
  "cvm_of env iv d =
     \<lparr>cv_modelHash = modelHash env d, cv_codeHash = codeHash env d,
      cv_sessionSecret = (\<lambda>s. case sessionSecret env s d of Inr b \<Rightarrow> b | Inl _ \<Rightarrow> []),
      cv_decrypt = decrypt_text env,
      cv_encrypt = (\<lambda>secret t. blob_text (encryptAesGcm (ce_aes env) iv secret (utf8 t))),
      cv_openMemory = open_text env d,
      cv_sealMemory = (\<lambda>t. blob_text (sealMemory env iv (utf8 t) d)),
      cv_releaseKeys = (\<lambda>quote now. rmap (\<lambda>_. ()) (releaseKeys env quote (vr_address (dv_vendor d)) (JInt now) d))\<rparr>"

text \<open>\<open>requireSession\<close> also releases the keys of the enclave it is given.\<close>

definition session_of ::
    "cvm_env \<Rightarrow> service_env \<Rightarrow> service_world \<Rightarrow> dev_cvm \<Rightarrow> string \<Rightarrow> string \<Rightarrow> service_db \<Rightarrow> enclave_error + (session_row \<times> dev_cvm)" where
  "session_of env senv w d sessionId keyHash db =
     rbind (requireSession (senv\<lparr>sn_cvm := cvm_of env [] d\<rparr>) w sessionId keyHash db) (\<lambda>row.
     rbind (of_option (UnauthorizedError ''Session has no durable attestation; open a new session'') (ss_quote row)) (\<lambda>quote.
     rmap (\<lambda>released. (row, released)) (releaseKeys env quote (vr_address (dv_vendor d)) (JInt (ss_createdAt row)) d)))"

section \<open>Agents\<close>

record public_agent =
  pu_id :: string
  pu_name :: string
  pu_ownerKeyHash :: string
  pu_policyHash :: string
  pu_memoryHash :: string
  pu_sealedMemory :: aes_blob

definition publicAgent :: "cvm_env \<Rightarrow> agent_row \<Rightarrow> enclave_error + public_agent" where
  "publicAgent env row = rmap (\<lambda>b. \<lparr>pu_id = ag_id row, pu_name = ag_name row, pu_ownerKeyHash = ag_ownerKeyHash row,
     pu_policyHash = ag_policyHash row, pu_memoryHash = ag_memoryHash row, pu_sealedMemory = b\<rparr>) (parse_blob env (ag_sealedMemory row))"

record agent_input =
  an_name :: string
  an_dailyLimit :: "enclave_error + int"
  an_allowedModels :: "string list option"
  an_sessionId :: "string option"
  an_memory :: "string option"

record agent_call =
  gc_key :: "enclave_error + string"
  gc_tcb :: "enclave_error + (dev_cvm \<times> tcb_state)"
  gc_now :: int
  gc_iv :: bytes
  gc_fresh :: string
  gc_day :: string

definition call_world :: "agent_call \<Rightarrow> service_world" where
  "call_world c = \<lparr>sw_now = gc_now c, sw_key = gc_key c, sw_tcb = rmap snd (gc_tcb c), sw_approval = Inl (PlainError ''unused''), sw_onChain = Inl (PlainError ''unused''),
     sw_wiring = Inl (PlainError ''unused''), sw_proofs = (\<lambda>_. Inl (PlainError ''unused''))\<rparr>"

text \<open>The bytes of a client's blob under the secret of its session.\<close>

definition session_plain ::
    "cvm_env \<Rightarrow> service_env \<Rightarrow> agent_call \<Rightarrow> string \<Rightarrow> dev_cvm \<Rightarrow> string \<Rightarrow> string \<Rightarrow> service_db \<Rightarrow> enclave_error + bytes" where
  "session_plain env senv c keyHash d sessionId blob db =
     rbind (session_of env senv (call_world c) d sessionId keyHash db) (\<lambda>(session, released).
     rbind (sessionSecret env (ss_id session) released) (\<lambda>secret.
     rmap utf8 (of_option (ValidationError ''ciphertext'') (decrypt_text env secret blob))))"

definition initial_memory :: "cvm_env \<Rightarrow> service_env \<Rightarrow> agent_call \<Rightarrow> agent_input \<Rightarrow> string \<Rightarrow> dev_cvm \<Rightarrow> service_db \<Rightarrow> enclave_error + bytes" where
  "initial_memory env senv c input keyHash d db =
     (case an_memory input of
        None \<Rightarrow> Inr []
      | Some blob \<Rightarrow>
          rbind (of_option (ForbiddenError ''sessionId required to seal memory'') (given (an_sessionId input))) (\<lambda>sessionId.
          session_plain env senv c keyHash d sessionId blob db))"

definition new_agent :: "cvm_env \<Rightarrow> agent_call \<Rightarrow> agent_input \<Rightarrow> string \<Rightarrow> dev_cvm \<Rightarrow> int \<Rightarrow> bytes \<Rightarrow> agent_row" where
  "new_agent env c input keyHash d units memory =
     (let policy = \<lparr>ap_dailyLimitUnits = units, ap_allowedModels = (case an_allowedModels input of Some m \<Rightarrow> m | None \<Rightarrow> [])\<rparr> in
      \<lparr>ag_id = gc_fresh c, ag_ownerKeyHash = keyHash, ag_name = an_name input, ag_policy = policy,
       ag_policyHash = hashAgentPolicy (ce_sha env) policy, ag_sealedMemory = blob_text (sealMemory env (gc_iv c) memory d),
       ag_memoryHash = sha256Hex (ce_sha env) memory\<rparr>)"

text \<open>\<open>elsewhere\<close> is what others commit between the reads of a call and its transaction.\<close>

definition createAgent ::
    "cvm_env \<Rightarrow> service_env \<Rightarrow> agent_call \<Rightarrow> agent_input \<Rightarrow> (service_db \<Rightarrow> service_db) \<Rightarrow> service_db \<Rightarrow> enclave_error + ((enclave_error + public_agent) \<times> service_db)" where
  "createAgent env senv c input elsewhere db =
     rbind (gc_key c) (\<lambda>keyHash. rbind (gc_tcb c) (\<lambda>(d, state).
     rbind (an_dailyLimit input) (\<lambda>units.
     rbind (initial_memory env senv c input keyHash d db) (\<lambda>memory.
     rbind (current_tcb senv (tr_policyHash (st_record state)) (elsewhere db)) (\<lambda>_.
     let row = new_agent env c input keyHash d units memory; db' = elsewhere db in
     Inr (publicAgent env row,
       db'\<lparr>sd_agents := sd_agents db' @ [row], sd_pay := createAgentMandate (gc_fresh c) units (gc_day c) (sd_pay db')\<rparr>))))))"

definition listAgents :: "cvm_env \<Rightarrow> agent_call \<Rightarrow> service_db \<Rightarrow> enclave_error + public_agent list" where
  "listAgents env c db = rbind (gc_key c) (\<lambda>keyHash. collect (map (publicAgent env) (filter (\<lambda>a. ag_ownerKeyHash a = keyHash) (sd_agents db))))"

definition getAgent :: "cvm_env \<Rightarrow> agent_call \<Rightarrow> string \<Rightarrow> service_db \<Rightarrow> enclave_error + public_agent" where
  "getAgent env c agentId db = rbind (gc_key c) (\<lambda>keyHash. rbind (requireAgent agentId keyHash db) (publicAgent env))"

definition put_row :: "string \<Rightarrow> aes_blob \<Rightarrow> string \<Rightarrow> agent_row list \<Rightarrow> agent_row list" where
  "put_row agentId sealed memoryHash = update_rows (\<lambda>a. ag_id a = agentId) (\<lambda>a. a\<lparr>ag_sealedMemory := blob_text sealed, ag_memoryHash := memoryHash\<rparr>)"

definition putAgentMemory ::
    "cvm_env \<Rightarrow> service_env \<Rightarrow> agent_call \<Rightarrow> string \<Rightarrow> string \<Rightarrow> string \<Rightarrow> (service_db \<Rightarrow> service_db) \<Rightarrow> service_db
      \<Rightarrow> enclave_error + ((string \<times> string \<times> aes_blob) \<times> service_db)" where
  "putAgentMemory env senv c agentId sessionId blob elsewhere db =
     rbind (gc_key c) (\<lambda>keyHash. rbind (requireAgent agentId keyHash db) (\<lambda>_. rbind (gc_tcb c) (\<lambda>(d, state).
     rbind (session_plain env senv c keyHash d sessionId blob db) (\<lambda>memory.
     let sealed = sealMemory env (gc_iv c) memory d; memoryHash = sha256Hex (ce_sha env) memory; db' = elsewhere db in
     rbind (current_tcb senv (tr_policyHash (st_record state)) db') (\<lambda>_.
     Inr ((agentId, memoryHash, sealed), db'\<lparr>sd_agents := put_row agentId sealed memoryHash (sd_agents db')\<rparr>))))))"

section \<open>Every state of the table\<close>

text \<open>
  The enclaves of a service descend from the one it booted: releases of session keys and policy rotations. A call may
  have read any earlier state of the database; \<open>ay_history\<close> holds them, the current one first.
\<close>

definition family :: "cvm_env \<Rightarrow> dev_cvm \<Rightarrow> dev_cvm \<Rightarrow> bool" where
  "family env boot d \<longleftrightarrow> (cvm_step env)\<^sup>*\<^sup>* boot d"

record agents_sys =
  ay_boot :: dev_cvm
  ay_history :: "service_db list"

definition ay_db :: "agents_sys \<Rightarrow> service_db" where
  "ay_db s = hd (ay_history s)"

definition good_call :: "cvm_env \<Rightarrow> agents_sys \<Rightarrow> agent_call \<Rightarrow> bool" where
  "good_call env s c \<longleftrightarrow> length (gc_iv c) = 12 \<and> (\<forall>a \<in> set (sd_agents (ay_db s)). ag_id a \<noteq> gc_fresh c)
     \<and> (case gc_tcb c of Inr (d, _) \<Rightarrow> family env (ay_boot s) d | Inl _ \<Rightarrow> True)"

inductive agents_step :: "cvm_env \<Rightarrow> agents_sys \<Rightarrow> agents_sys \<Rightarrow> bool" for env where
  agent_created: "good_call env s c \<Longrightarrow> old \<in> set (ay_history s) \<Longrightarrow>
    createAgent env senv c input (\<lambda>_. ay_db s) old = Inr (view, db) \<Longrightarrow> agents_step env s (s\<lparr>ay_history := db # ay_history s\<rparr>)"
| memory_put: "good_call env s c \<Longrightarrow> old \<in> set (ay_history s) \<Longrightarrow>
    putAgentMemory env senv c agentId sessionId blob (\<lambda>_. ay_db s) old = Inr (view, db) \<Longrightarrow> agents_step env s (s\<lparr>ay_history := db # ay_history s\<rparr>)"
| other_write: "sd_agents db = sd_agents (ay_db s) \<Longrightarrow> agents_step env s (s\<lparr>ay_history := db # ay_history s\<rparr>)"

definition agents_start :: "cvm_env \<Rightarrow> agents_sys \<Rightarrow> bool" where
  "agents_start env s \<longleftrightarrow> reachable (cvm_start env) (cvm_step env) (ay_boot s) \<and> (\<exists>db. ay_history s = [db] \<and> sd_agents db = [])"

text \<open>What an agent row holds: the seal of a memory whose hash it shows, and the hash of its own policy.\<close>

definition sealed_row :: "cvm_env \<Rightarrow> dev_cvm \<Rightarrow> agent_row \<Rightarrow> bool" where
  "sealed_row env boot a \<longleftrightarrow> ag_policyHash a = hashAgentPolicy (ce_sha env) (ag_policy a)
     \<and> (\<exists>memory iv. length iv = 12 \<and> ag_sealedMemory a = blob_text (sealMemory env iv memory boot) \<and> ag_memoryHash a = sha256Hex (ce_sha env) memory)"

definition same_agent :: "agent_row \<Rightarrow> agent_row \<Rightarrow> bool" where
  "same_agent a b \<longleftrightarrow> ag_id b = ag_id a \<and> ag_ownerKeyHash b = ag_ownerKeyHash a \<and> ag_name b = ag_name a \<and> ag_policy b = ag_policy a \<and> ag_policyHash b = ag_policyHash a"

definition agents_ok :: "cvm_env \<Rightarrow> agents_sys \<Rightarrow> bool" where
  "agents_ok env s \<longleftrightarrow> ay_history s \<noteq> [] \<and> reachable (cvm_start env) (cvm_step env) (ay_boot s)
     \<and> distinct (map ag_id (sd_agents (ay_db s))) \<and> (\<forall>a \<in> set (sd_agents (ay_db s)). sealed_row env (ay_boot s) a)
     \<and> (\<forall>old \<in> set (ay_history s). \<forall>a \<in> set (sd_agents old). \<exists>b \<in> set (sd_agents (ay_db s)). same_agent a b)"

lemma family_key:
  assumes "reachable (cvm_start env) (cvm_step env) boot" and "family env boot d"
  shows "memorySealKey env d = memorySealKey env boot"
proof -
  have "cvm_keeps boot d" by (rule enclave.keeps_from_reachable [OF assms(1) assms(2) [unfolded family_def]])
  then show ?thesis by (simp add: cvm_keeps_def memorySealKey_def)
qed

lemma family_seal:
  assumes "reachable (cvm_start env) (cvm_step env) boot" and "family env boot d"
  shows "sealMemory env iv memory d = sealMemory env iv memory boot"
  using family_key [OF assms] by (simp add: sealMemory_def)

lemma createAgent_Inr:
  assumes "createAgent env senv c input elsewhere db = Inr (view, db')"
  obtains keyHash d state units memory where "gc_key c = Inr keyHash" "gc_tcb c = Inr (d, state)"
    "view = publicAgent env (new_agent env c input keyHash d units memory)"
    "sd_agents db' = sd_agents (elsewhere db) @ [new_agent env c input keyHash d units memory]"
proof -
  from assms obtain keyHash p where k: "gc_key c = Inr keyHash" "gc_tcb c = Inr p"
    unfolding createAgent_def by (elim rbind_InrE) (rule that)
  obtain d state where p: "p = (d, state)" by (cases p)
  from assms obtain units memory where u: "an_dailyLimit input = Inr units" "initial_memory env senv c input keyHash d db = Inr memory"
    "current_tcb senv (tr_policyHash (st_record state)) (elsewhere db) = Inr ()"
    unfolding createAgent_def by (simp only: k p rbind_simps prod.case) (elim rbind_InrE, simp)
  from assms show thesis by (simp add: createAgent_def k p u Let_def) (rule that [OF k(1) k(2) [unfolded p]], auto)
qed

lemma putAgentMemory_Inr:
  assumes "putAgentMemory env senv c agentId sessionId blob elsewhere db = Inr (view, db')"
  obtains keyHash row d state memory where "gc_key c = Inr keyHash" "gc_tcb c = Inr (d, state)"
    "requireAgent agentId keyHash db = Inr row" "session_plain env senv c keyHash d sessionId blob db = Inr memory"
    "view = (agentId, sha256Hex (ce_sha env) memory, sealMemory env (gc_iv c) memory d)"
    "sd_agents db' = put_row agentId (sealMemory env (gc_iv c) memory d) (sha256Hex (ce_sha env) memory) (sd_agents (elsewhere db))"
proof -
  from assms obtain keyHash row p where k: "gc_key c = Inr keyHash" "requireAgent agentId keyHash db = Inr row" "gc_tcb c = Inr p"
    unfolding putAgentMemory_def by (elim rbind_InrE) (rule that)
  obtain d state where p: "p = (d, state)" by (cases p)
  from assms obtain memory where u: "session_plain env senv c keyHash d sessionId blob db = Inr memory"
    unfolding putAgentMemory_def by (simp only: k p rbind_simps prod.case) (elim rbind_InrE, simp)
  from assms show thesis
    by (auto simp: putAgentMemory_def k p u Let_def rbind_Inr_iff intro!: that [OF k(1) k(3) [unfolded p] k(2) u])
qed

lemma requireAgent_Inr:
  assumes "requireAgent agentId keyHash db = Inr row"
  shows "row \<in> set (sd_agents db)" "ag_id row = agentId" "ag_ownerKeyHash row = keyHash"
  using assms by (auto simp: requireAgent_def rbind_Inr_iff of_option_def require_Inr_iff dest!: select_row_Some split: option.splits)

lemma put_row_set:
  "a \<in> set (put_row agentId sealed h rows) \<longleftrightarrow>
     (\<exists>b \<in> set rows. a = (if ag_id b = agentId then b\<lparr>ag_sealedMemory := blob_text sealed, ag_memoryHash := h\<rparr> else b))"
  by (auto simp: put_row_def row_simps)

lemma put_row_ids [simp]: "map ag_id (put_row agentId sealed h rows) = map ag_id rows"
  by (induction rows) (auto simp: put_row_def row_simps)

lemma good_call_family: "good_call env s c \<Longrightarrow> gc_tcb c = Inr (d, state) \<Longrightarrow> family env (ay_boot s) d \<and> length (gc_iv c) = 12"
  by (simp add: good_call_def)

lemma new_agent_sealed:
  assumes "reachable (cvm_start env) (cvm_step env) boot" and "family env boot d" and "length (gc_iv c) = 12"
  shows "sealed_row env boot (new_agent env c input keyHash d units memory)"
  unfolding sealed_row_def
  by (intro conjI exI [of _ memory] exI [of _ "gc_iv c"]) (simp_all add: new_agent_def Let_def family_seal [OF assms(1,2)] assms(3))

lemma put_row_same: "a \<in> set rows \<Longrightarrow> \<exists>b \<in> set (put_row agentId sealed h rows). same_agent a b"
  by (induction rows) (auto simp: put_row_def same_agent_def)

text \<open>One step in terms of rows: an agent is added, the memory of one is replaced, or the agents stay.\<close>

lemma agents_step_rows:
  assumes "agents_step env s t" and "agents_ok env s"
  obtains db where "t = s\<lparr>ay_history := db # ay_history s\<rparr>"
    "\<forall>a \<in> set (sd_agents (ay_db s)). \<exists>b \<in> set (sd_agents db). same_agent a b"
    "\<forall>a \<in> set (sd_agents db). sealed_row env (ay_boot s) a" "distinct (map ag_id (sd_agents db))"
  using assms
proof (induction rule: agents_step.induct)
  case (agent_created s c old senv input view db)
  have refl: "same_agent a a" for a by (simp add: same_agent_def)
  from agent_created(5) have ok: "distinct (map ag_id (sd_agents (ay_db s)))" "\<forall>a \<in> set (sd_agents (ay_db s)). sealed_row env (ay_boot s) a"
    "reachable (cvm_start env) (cvm_step env) (ay_boot s)" by (simp_all add: agents_ok_def)
  from agent_created(3) obtain keyHash d state units memory where c: "gc_tcb c = Inr (d, state)"
    "sd_agents db = sd_agents (ay_db s) @ [new_agent env c input keyHash d units memory]" by (rule createAgent_Inr)
  from good_call_family [OF agent_created(1) c(1)] new_agent_sealed [OF ok(3)]
  have new: "sealed_row env (ay_boot s) (new_agent env c input keyHash d units memory)" by blast
  have fresh: "ag_id (new_agent env c input keyHash d units memory) \<notin> ag_id ` set (sd_agents (ay_db s))"
    using agent_created(1) by (auto simp: good_call_def new_agent_def Let_def)
  show ?case by (rule agent_created(4) [of db]) (use ok new fresh refl c(2) in auto)
next
  case (memory_put s c old senv agentId sessionId blob view db)
  from memory_put(5) have ok: "distinct (map ag_id (sd_agents (ay_db s)))" "\<forall>a \<in> set (sd_agents (ay_db s)). sealed_row env (ay_boot s) a"
    "reachable (cvm_start env) (cvm_step env) (ay_boot s)" by (simp_all add: agents_ok_def)
  from memory_put(3) obtain d state memory where c: "gc_tcb c = Inr (d, state)"
    "sd_agents db = put_row agentId (sealMemory env (gc_iv c) memory d) (sha256Hex (ce_sha env) memory) (sd_agents (ay_db s))" by (rule putAgentMemory_Inr)
  let ?put = "\<lambda>b. b\<lparr>ag_sealedMemory := blob_text (sealMemory env (gc_iv c) memory d), ag_memoryHash := sha256Hex (ce_sha env) memory\<rparr>"
  have seal: "sealed_row env (ay_boot s) (?put b)" if "sealed_row env (ay_boot s) b" for b
    using that good_call_family [OF memory_put(1) c(1)] family_seal [OF ok(3)] unfolding sealed_row_def
    by (intro conjI exI [of _ memory] exI [of _ "gc_iv c"]) simp_all
  show ?case
  proof (rule memory_put(4) [of db])
    show "\<forall>a \<in> set (sd_agents (ay_db s)). \<exists>b \<in> set (sd_agents db). same_agent a b"
      unfolding c(2) using put_row_same by blast
    show "\<forall>a \<in> set (sd_agents db). sealed_row env (ay_boot s) a" using ok(2) seal by (auto simp: c(2) put_row_set)
    show "distinct (map ag_id (sd_agents db))" unfolding c(2) put_row_ids by (rule ok(1))
  qed simp
next
  case (other_write db s)
  show ?case by (rule other_write(2) [of db]) (use other_write in \<open>auto simp: agents_ok_def same_agent_def\<close>)
qed

definition agents_keep :: "agents_sys \<Rightarrow> agents_sys \<Rightarrow> bool" where
  "agents_keep s t \<longleftrightarrow> ay_boot t = ay_boot s \<and> (\<forall>a \<in> set (sd_agents (ay_db s)). \<exists>b \<in> set (sd_agents (ay_db t)). same_agent a b)"

lemma same_agent_trans: "same_agent a b \<Longrightarrow> same_agent b c \<Longrightarrow> same_agent a c"
  by (simp add: same_agent_def)

lemma agents_step_ok:
  assumes "agents_step env s t" and "agents_ok env s"
  shows "agents_ok env t \<and> agents_keep s t"
proof -
  from assms obtain db where t: "t = s\<lparr>ay_history := db # ay_history s\<rparr>"
    "\<forall>a \<in> set (sd_agents (ay_db s)). \<exists>b \<in> set (sd_agents db). same_agent a b"
    "\<forall>a \<in> set (sd_agents db). sealed_row env (ay_boot s) a" "distinct (map ag_id (sd_agents db))" by (rule agents_step_rows)
  have db: "ay_db t = db" "ay_boot t = ay_boot s" "ay_history t = db # ay_history s" by (simp_all add: t(1) ay_db_def)
  have "\<exists>b \<in> set (sd_agents db). same_agent a b" if old: "old \<in> set (ay_history s)" "a \<in> set (sd_agents old)" for old a
  proof -
    from assms(2) old obtain b where "b \<in> set (sd_agents (ay_db s))" "same_agent a b" unfolding agents_ok_def by blast
    with t(2) show ?thesis using same_agent_trans by blast
  qed
  moreover have "\<exists>b \<in> set (sd_agents db). same_agent a b" if "a \<in> set (sd_agents db)" for a
    using that by (intro bexI [of _ a]) (simp_all add: same_agent_def)
  ultimately show ?thesis using assms(2) t(2-4) by (simp add: agents_ok_def agents_keep_def db)
qed

interpretation agents: history_system "agents_start env" "agents_step env" "agents_ok env" agents_keep for env
proof unfold_locales
  show "agents_ok env s" if "agents_start env s" for s using that by (auto simp: agents_start_def agents_ok_def ay_db_def)
  show "agents_keep s s" for s by (auto simp: agents_keep_def same_agent_def)
  show "agents_keep s u" if "agents_keep s t" "agents_keep t u" for s t u
    using that unfolding agents_keep_def by (metis same_agent_trans)
  show "agents_keep s t" if "agents_ok env s" "agents_step env s t" for s t using agents_step_ok that by blast
  show "agents_ok env t" if "agents_ok env s" "agents_step env s t" for s t using agents_step_ok that by blast
qed

section \<open>Properties\<close>

text \<open>What is relied on of \<open>JSON.parse\<close>: it reads back the text of a sealed blob.\<close>

definition blobs_parse :: "cvm_env \<Rightarrow> bool" where
  "blobs_parse env \<longleftrightarrow> (\<forall>b. nh_parse (ce_host env) (blob_text b) = Some (blob_json b))"

lemma parse_blob_text: "blobs_parse env \<Longrightarrow> parse_blob env (blob_text b) = Inr b"
  by (simp add: parse_blob_def blobs_parse_def blob_json_def blob_of_json_def of_option_def)

lemma sealed_row_opens:
  assumes "blobs_parse env" and "aes_inverse (ce_aes env)" and "reachable (cvm_start env) (cvm_step env) boot"
    and "sealed_row env boot a" and "family env boot d" and "keysReleased d"
  obtains memory where "ag_memoryHash a = sha256Hex (ce_sha env) memory" "open_text env d (ag_sealedMemory a) = Inr (text_of memory)"
proof -
  from assms(4) obtain memory iv where m: "length iv = 12" "ag_sealedMemory a = blob_text (sealMemory env iv memory boot)" "ag_memoryHash a = sha256Hex (ce_sha env) memory"
    by (auto simp: sealed_row_def)
  from assms(6) obtain k where "dv_modelKey d = Some k" by (auto simp: keysReleased_def)
  with m(1) decrypt_encrypt [OF assms(2) m(1)] have "openMemory env (sealMemory env iv memory boot) d = Inr memory"
    by (simp add: openMemory_def sealMemory_def family_key [OF assms(3,5)])
  then show thesis by (intro that [OF m(3)]) (simp add: open_text_def m(2) parse_blob_text [OF assms(1)])
qed

text \<open>
  Claim C14. In every reachable state each agent's memory is intact: whatever policies were rotated and sessions released since it was
  sealed, every enclave of the service whose keys are released opens it, to the bytes whose hash the agent shows; and
  the agent's policy hash is the hash of its policy.
\<close>

theorem agent_memory_intact:
  assumes "blobs_parse env" and "aes_inverse (ce_aes env)" and "reachable (agents_start env) (agents_step env) s"
    and "a \<in> set (sd_agents (ay_db s))" and "family env (ay_boot s) d" and "keysReleased d"
  shows "ag_policyHash a = hashAgentPolicy (ce_sha env) (ag_policy a)
     \<and> (\<exists>memory. open_text env d (ag_sealedMemory a) = Inr (text_of memory) \<and> ag_memoryHash a = sha256Hex (ce_sha env) memory)"
proof -
  from agents.inv_reachable [OF assms(3)] assms(4) have r: "reachable (cvm_start env) (cvm_step env) (ay_boot s)" "sealed_row env (ay_boot s) a"
    by (simp_all add: agents_ok_def)
  from sealed_row_opens [OF assms(1,2) r assms(5,6)] show ?thesis using r(2) by (metis sealed_row_def)
qed

text \<open>
  A paid call of an agent prompts the model with the agent's own memory: what is admitted is the agent's
  memory, a newline and the decrypted input, where the memory is the one whose hash the request hash binds.
\<close>

theorem agent_prompt_carries_memory:
  assumes "blobs_parse env" and "aes_inverse (ce_aes env)" and "reachable (agents_start env) (agents_step env) s"
    and "family env (ay_boot s) d" and "keysReleased d" and "sn_cvm senv = cvm_of env iv d"
    and "admit_infer senv w input (ay_db s) = Inr adm" and "ai_agent adm = Some a"
  shows "\<exists>memory plaintext. ai_plaintext adm = text_of memory @ [char_of (10::nat)] @ plaintext
     \<and> ag_memoryHash a = sha256Hex (ce_sha env) memory \<and> a \<in> set (sd_agents (ay_db s)) \<and> ag_ownerKeyHash a = ai_keyHash adm
     \<and> ai_requestHash adm = request_hash_of senv (ss_id (ai_session adm)) plaintext (Some a)"
proof -
  from assms(7) obtain keyHash state session agent plaintext prompt where i: "admit_agent senv keyHash (ii_agentId input) (ay_db s) = Inr agent"
    "(case agent of None \<Rightarrow> Inr plaintext | Some a \<Rightarrow> rmap (\<lambda>memory. memory @ [char_of (10::nat)] @ plaintext) (cv_openMemory (sn_cvm senv) (ag_sealedMemory a))) = Inr prompt"
    "adm = \<lparr>ai_keyHash = keyHash, ai_state = state, ai_session = session, ai_agent = agent, ai_secret = cv_sessionSecret (sn_cvm senv) (ss_id session),
       ai_plaintext = prompt, ai_requestHash = request_hash_of senv (ss_id session) plaintext agent\<rparr>"
    unfolding admit_infer_def Let_def by (elim rbind_InrE) (rule that, auto)
  from i(3) assms(8) have agent: "agent = Some a" by simp
  from i(1) agent have "requireAgent (the (given (ii_agentId input))) keyHash (ay_db s) = Inr a"
    by (auto simp: admit_agent_def rbind_Inr_iff split: option.splits)
  note a = requireAgent_Inr [OF this]
  from agents.inv_reachable [OF assms(3)] a(1) have r: "reachable (cvm_start env) (cvm_step env) (ay_boot s)" "sealed_row env (ay_boot s) a"
    by (simp_all add: agents_ok_def)
  obtain memory where m: "ag_memoryHash a = sha256Hex (ce_sha env) memory" "open_text env d (ag_sealedMemory a) = Inr (text_of memory)"
    by (rule sealed_row_opens [OF assms(1,2) r assms(4,5)])
  from i(2) m(2) agent have "prompt = text_of memory @ [char_of (10::nat)] @ plaintext" by (simp add: assms(6) cvm_of_def)
  with m(1) a i(3) agent show ?thesis by (intro exI [of _ memory] exI [of _ plaintext]) simp
qed

text \<open>
  Memory is written by its owner only: a call that replaces memory was made with the key of that agent's owner,
  and leaves every other agent and everything else of this one as it was.
\<close>

theorem memory_written_by_owner:
  assumes "reachable (agents_start env) (agents_step env) s" and "old \<in> set (ay_history s)"
    and "putAgentMemory env senv c agentId sessionId blob (\<lambda>_. ay_db s) old = Inr (view, db)"
  shows "\<exists>keyHash row. gc_key c = Inr keyHash \<and> row \<in> set (sd_agents (ay_db s)) \<and> ag_id row = agentId \<and> ag_ownerKeyHash row = keyHash
     \<and> list_all2 (\<lambda>a b. same_agent a b \<and> (ag_id a = agentId \<or> b = a)) (sd_agents (ay_db s)) (sd_agents db)"
proof -
  from assms(3) obtain keyHash row d state memory where p: "gc_key c = Inr keyHash" "requireAgent agentId keyHash old = Inr row"
    "sd_agents db = put_row agentId (sealMemory env (gc_iv c) memory d) (sha256Hex (ce_sha env) memory) (sd_agents (ay_db s))" by (rule putAgentMemory_Inr)
  note row = requireAgent_Inr [OF p(2)]
  from agents.inv_reachable [OF assms(1)] assms(2) row(1) obtain b where "b \<in> set (sd_agents (ay_db s))" "same_agent row b"
    unfolding agents_ok_def by blast
  moreover have "list_all2 (\<lambda>a b. same_agent a b \<and> (ag_id a = agentId \<or> b = a)) rows (put_row agentId sealed h rows)" for sealed h rows
    by (induction rows) (simp_all add: put_row_def same_agent_def)
  ultimately show ?thesis using p(1) row(2,3) unfolding p(3) by (intro exI [of _ keyHash] exI [of _ b]) (simp add: same_agent_def)
qed

section \<open>Witnesses\<close>

text \<open>A reader of blobs: three quoted texts at their places in the object.\<close>

fun read_quoted :: "nat \<Rightarrow> string \<Rightarrow> string \<times> string" where
  "read_quoted 0 t = ([], t)"
| "read_quoted (Suc n) t = (if t = [] then ([], []) else if hd t = CHR 0x22 then ([], tl t)
     else (let (c, r) = unescape t; (s, u) = read_quoted n r in (c # s, u)))"

lemma escape_nonempty: "escape_char c \<noteq> []"
  by (auto simp: escape_char_def)

lemma escape_hd: "hd (escape_char c @ x) \<noteq> CHR 0x22"
  using escape_char_hd [of c x] escape_nonempty [of c] by (metis append_is_Nil_conv list.collapse)

lemma read_quoted_escape: "length s < n \<Longrightarrow> read_quoted n (concat (map escape_char s) @ CHR 0x22 # r) = (s, r)"
proof (induction s arbitrary: n)
  case Nil
  then show ?case by (cases n) auto
next
  case (Cons c s)
  then obtain m where m: "n = Suc m" "length s < m" by (cases n) auto
  let ?rest = "concat (map escape_char s) @ CHR 0x22 # r"
  have "read_quoted n (escape_char c @ ?rest) = (c # s, r)"
    using escape_hd [of c ?rest] escape_nonempty [of c] Cons.IH [OF m(2)] by (simp add: m(1) unescape_escape)
  then show ?case by simp
qed

lemma length_escaped: "length s \<le> length (concat (map escape_char s))"
proof (induction s)
  case (Cons c s)
  from Cons show ?case using escape_nonempty [of c] by (cases "escape_char c") auto
qed simp

definition read_blob :: "string \<Rightarrow> json option" where
  "read_blob t =
     (let (i, r) = read_quoted (length t) (drop 7 t); (g, u) = read_quoted (length t) (drop 8 r); (c, v) = read_quoted (length t) (drop 15 u)
      in Some (blob_json \<lparr>bl_iv = i, bl_tag = g, bl_ciphertext = c\<rparr>))"

lemma read_blob_text: "read_blob (blob_text b) = Some (blob_json b)"
proof -
  let ?e = "\<lambda>s. concat (map escape_char s)"
  let ?q = "CHR 0x22"
  have t: "blob_text b = CHR 0x7B # ?q # CHR ''i'' # CHR ''v'' # ?q # CHR '':'' # ?q # ?e (bl_iv b) @ ?q # CHR '','' # ?q # ''tag'' @ ?q # CHR '':'' # ?q # ?e (bl_tag b)
      @ ?q # CHR '','' # ?q # ''ciphertext'' @ ?q # CHR '':'' # ?q # ?e (bl_ciphertext b) @ ?q # [CHR 0x7D]"
    by (simp add: blob_text_def blob_json_def encode_object_def json_quote_def escape_char_def)
  have l: "length (bl_iv b) < length (blob_text b)" "length (bl_tag b) < length (blob_text b)" "length (bl_ciphertext b) < length (blob_text b)"
    unfolding t using length_escaped [of "bl_iv b"] length_escaped [of "bl_tag b"] length_escaped [of "bl_ciphertext b"] by simp_all
  let ?n = "length (blob_text b)"
  let ?C = "?e (bl_ciphertext b) @ ?q # [CHR 0x7D]"
  let ?T = "?e (bl_tag b) @ ?q # CHR '','' # ?q # ''ciphertext'' @ ?q # CHR '':'' # ?q # ?C"
  let ?I = "?e (bl_iv b) @ ?q # CHR '','' # ?q # ''tag'' @ ?q # CHR '':'' # ?q # ?T"
  have "drop 7 (blob_text b) = ?I" by (simp add: t)
  moreover have "read_quoted ?n ?I = (bl_iv b, CHR '','' # ?q # ''tag'' @ ?q # CHR '':'' # ?q # ?T)" by (rule read_quoted_escape [OF l(1)])
  moreover have "drop 8 (CHR '','' # ?q # ''tag'' @ ?q # CHR '':'' # ?q # ?T) = ?T" by simp
  moreover have "read_quoted ?n ?T = (bl_tag b, CHR '','' # ?q # ''ciphertext'' @ ?q # CHR '':'' # ?q # ?C)" by (rule read_quoted_escape [OF l(2)])
  moreover have "drop 15 (CHR '','' # ?q # ''ciphertext'' @ ?q # CHR '':'' # ?q # ?C) = ?C" by simp
  moreover have "read_quoted ?n ?C = (bl_ciphertext b, [CHR 0x7D])" by (rule read_quoted_escape [OF l(3)])
  moreover have "\<lparr>bl_iv = bl_iv b, bl_tag = bl_tag b, bl_ciphertext = bl_ciphertext b\<rparr> = b" by simp
  ultimately show ?thesis by (simp only: read_blob_def Let_def prod.case)
qed

definition demo_agents_env :: cvm_env where
  "demo_agents_env = demo_cvm_env\<lparr>ce_host := demo_cvm_host\<lparr>nh_parse := read_blob\<rparr>\<rparr>"

lemma demo_agents_laws: "blobs_parse demo_agents_env" "aes_inverse (ce_aes demo_agents_env)"
  by (simp_all add: blobs_parse_def demo_agents_env_def read_blob_text demo_aes_laws)

lemma demo_agents_same: "ce_crypto demo_agents_env = ce_crypto demo_cvm_env" "ce_sha demo_agents_env = ce_sha demo_cvm_env" "ce_aes demo_agents_env = ce_aes demo_cvm_env"
  by (simp_all add: demo_agents_env_def ce_crypto_def ce_sha_def)

lemma demo_agents_release: "releaseKeys demo_agents_env (demo_gateway_quote demo_policy) demo_signer (JInt 500) demo_created_cvm = Inr demo_released_cvm"
proof -
  have "releaseKeys demo_agents_env q v n d = releaseKeys demo_cvm_env q v n d" for q v n d by (simp only: releaseKeys_def demo_agents_same)
  then show ?thesis by (simp only: demo_release)
qed

lemma demo_agents_boot: "reachable (cvm_start demo_agents_env) (cvm_step demo_agents_env) demo_created_cvm"
proof (rule reachable_start)
  have "create_cvm demo_agents_env (replicate 12 0) demo_cvm_config demo_vendor (Some (''2'', [1], [2])) ('''', [], []) = Inr demo_created_cvm"
    using demo_create by (simp only: create_cvm_def demo_agents_same)
  then show "cvm_start demo_agents_env demo_created_cvm" by (force simp: cvm_start_def)
qed

lemma demo_agents_family: "family demo_agents_env demo_created_cvm demo_created_cvm" "family demo_agents_env demo_created_cvm demo_released_cvm" "keysReleased demo_released_cvm"
proof -
  have "cvm_step demo_agents_env demo_created_cvm demo_released_cvm" by (rule released [OF demo_agents_release])
  then show "family demo_agents_env demo_created_cvm demo_created_cvm" "family demo_agents_env demo_created_cvm demo_released_cvm" by (auto simp: family_def)
  show "keysReleased demo_released_cvm" by (simp add: keysReleased_def demo_released_cvm_def)
qed

definition demo_agents_tcb :: tcb_state where
  "demo_agents_tcb = \<lparr>st_record = demo_record demo_policy, st_policy = demo_policy, st_status = ''active'', st_binding = ''legacy'',
     st_scope = None, st_activatedAt = None, st_createdAt = 10\<rparr>"

definition demo_agents_service :: service_env where
  "demo_agents_service = \<lparr>sn_crypto = demo_crypto, sn_typed = demo_typed, sn_cvm = cvm_of demo_agents_env (replicate 12 0) demo_released_cvm, sn_pay = demo_pay_config,
     sn_verifier = ''0xv'', sn_echo = False, sn_production = False, sn_marketplace = False, sn_localBootstrap = False\<rparr>"

definition demo_agents_session :: session_row where
  "demo_agents_session = \<lparr>ss_id = ''s'', ss_apiKeyHash = ''k'', ss_attRef = sha256HexText (cx_sha demo_crypto) (q_signature (demo_gateway_quote demo_policy)),
     ss_quote = Some (demo_gateway_quote demo_policy), ss_createdAt = 500, ss_expiresAt = 1000\<rparr>"

definition demo_agents_listing :: model_listing where
  "demo_agents_listing = \<lparr>ml_modelHash = modelHash demo_agents_env demo_released_cvm, ml_codeHash = codeHash demo_agents_env demo_released_cvm,
     ml_state = \<lparr>ls_approved = True, ls_revoked = False\<rparr>, ml_listingId = None\<rparr>"

definition demo_agents_db :: service_db where
  "demo_agents_db = \<lparr>sd_pay = \<lparr>pt_payments = [], pt_mandates = []\<rparr>, sd_receipts = [], sd_usage = [], sd_idempotency = [], sd_executions = [], sd_tcb = [demo_first],
     sd_models = [demo_agents_listing], sd_sessions = [demo_agents_session], sd_agents = []\<rparr>"

definition demo_agents_call :: "agent_call" where
  "demo_agents_call = \<lparr>gc_key = Inr ''k'', gc_tcb = Inr (demo_created_cvm, demo_agents_tcb), gc_now = 600, gc_iv = replicate 12 0, gc_fresh = ''a'', gc_day = ''d''\<rparr>"

definition demo_agents_input :: agent_input where
  "demo_agents_input = \<lparr>an_name = ''n'', an_dailyLimit = Inr 9, an_allowedModels = None, an_sessionId = None, an_memory = None\<rparr>"

definition demo_secret :: bytes where
  "demo_secret = ce_sha demo_agents_env []"

definition demo_blob :: "string \<Rightarrow> string" where
  "demo_blob t = blob_text (encryptAesGcm demo_aes (replicate 12 0) demo_secret (utf8 t))"

lemma demo_agents_current:
  assumes "sd_tcb db = [demo_first]"
  shows "current_tcb demo_agents_service (tr_policyHash (st_record demo_agents_tcb)) db = Inr ()"
proof -
  obtain s where s: "policyState demo_crypto demo_first = Inr s" using demo_states(1) by blast
  then have "st_record s = demo_record demo_policy" by (auto simp: policyState_def demo_policyOf demo_records)
  with s show ?thesis
    by (simp add: current_tcb_def assertCurrentTcb_def assms demo_agents_service_def demo_activeRow demo_agents_tcb_def)
qed

lemma demo_agents_session_ok:
  assumes "sd_sessions db = [demo_agents_session]" "sn_crypto senv = demo_crypto" "sw_now w = 600" "cv_releaseKeys (sn_cvm senv) (demo_gateway_quote demo_policy) 500 = Inr ()"
  shows "requireSession senv w ''s'' ''k'' db = Inr demo_agents_session"
  by (simp add: requireSession_def assms of_option_def require_def demo_agents_session_def)

lemma demo_vendor_address: "vr_address (dv_vendor demo_created_cvm) = demo_signer" "vr_address (dv_vendor demo_released_cvm) = demo_signer"
  by (simp_all add: demo_created_cvm_def demo_released_cvm_def demo_vendor_def)

lemma demo_agents_again: "releaseKeys demo_agents_env (demo_gateway_quote demo_policy) demo_signer (JInt 500) demo_released_cvm
    = Inr (demo_released_cvm\<lparr>dv_modelKey := Some [2], dv_verifiedAttRefs := demo_zero_hash # dv_verifiedAttRefs demo_released_cvm\<rparr>)"
proof -
  have d: "cc_policy (dv_config demo_released_cvm) = demo_policy" by (simp add: demo_released_cvm_def demo_created_cvm_def demo_cvm_config_def)
  have "releaseKeys demo_cvm_env (demo_gateway_quote (cc_policy (dv_config demo_released_cvm))) demo_signer (JInt 500) demo_released_cvm
    = Inr (demo_released_cvm\<lparr>dv_modelKey := Some [2], dv_verifiedAttRefs := demo_zero_hash # dv_verifiedAttRefs demo_released_cvm\<rparr>)"
    by (rule demo_release_any) (simp_all add: demo_released_cvm_def demo_created_cvm_def)
  moreover have "releaseKeys demo_agents_env q v n e = releaseKeys demo_cvm_env q v n e" for q v n e by (simp only: releaseKeys_def demo_agents_same)
  ultimately show ?thesis by (simp only: d)
qed

lemma demo_agents_decrypt: "decrypt_text demo_agents_env demo_secret (demo_blob t) = Some t"
proof -
  have "ce_aes demo_agents_env = demo_aes" by (simp add: demo_agents_env_def)
  then show ?thesis
    using decrypt_encrypt [OF demo_aes_laws(1), of "replicate 12 0" demo_secret "utf8 t"]
    by (simp add: decrypt_text_def demo_blob_def parse_blob_text [OF demo_agents_laws(1)])
qed

lemma demo_agents_secret: "sessionSecret demo_agents_env s demo_released_cvm = Inr demo_secret"
proof -
  have "ce_sha demo_agents_env b = ce_sha demo_agents_env []" for b
    by (simp add: demo_agents_same ce_sha_def) (simp add: demo_near_crypto_def)
  then show ?thesis by (simp add: sessionSecret_def demo_released_cvm_def of_option_def demo_secret_def)
qed

lemma demo_agents_plain:
  assumes "sd_sessions db = [demo_agents_session]"
  shows "session_plain demo_agents_env demo_agents_service demo_agents_call ''k'' demo_created_cvm ''s'' (demo_blob t) db = Inr (utf8 t)"
proof -
  let ?senv = "demo_agents_service\<lparr>sn_cvm := cvm_of demo_agents_env [] demo_created_cvm\<rparr>"
  have "cv_releaseKeys (sn_cvm ?senv) (demo_gateway_quote demo_policy) 500 = Inr ()" by (simp add: cvm_of_def demo_vendor_address demo_agents_release)
  then have "requireSession ?senv (call_world demo_agents_call) ''s'' ''k'' db = Inr demo_agents_session"
    by (intro demo_agents_session_ok [OF assms]) (simp_all add: demo_agents_service_def call_world_def demo_agents_call_def)
  then show ?thesis
    by (simp add: session_plain_def session_of_def)
      (simp add: demo_agents_session_def of_option_def demo_vendor_address demo_agents_release demo_agents_secret demo_agents_decrypt)
qed

lemma demo_agents_run:
  obtains s old db a where "reachable (agents_start demo_agents_env) (agents_step demo_agents_env) s" "ay_boot s = demo_created_cvm" "old \<in> set (ay_history s)"
    "putAgentMemory demo_agents_env demo_agents_service demo_agents_call ''a'' ''s'' (demo_blob ''hi'') (\<lambda>_. ay_db s) old = Inr (a, db)"
    "sd_agents (ay_db s) = [new_agent demo_agents_env demo_agents_call demo_agents_input ''k'' demo_created_cvm 9 []]"
    "sd_tcb (ay_db s) = [demo_first]" "sd_sessions (ay_db s) = [demo_agents_session]" "sd_models (ay_db s) = [demo_agents_listing]"
proof -
  let ?reach = "reachable (agents_start demo_agents_env) (agents_step demo_agents_env)"
  let ?row = "new_agent demo_agents_env demo_agents_call demo_agents_input ''k'' demo_created_cvm 9 []"
  define s0 where "s0 = \<lparr>ay_boot = demo_created_cvm, ay_history = [demo_agents_db]\<rparr>"
  have r0: "?reach s0" by (rule reachable_start) (simp add: agents_start_def s0_def demo_agents_boot, simp add: demo_agents_db_def)
  have db0: "ay_db s0 = demo_agents_db" "sd_tcb demo_agents_db = [demo_first]" "sd_sessions demo_agents_db = [demo_agents_session]"
    "sd_models demo_agents_db = [demo_agents_listing]" "sd_agents demo_agents_db = []" by (simp_all add: s0_def ay_db_def demo_agents_db_def)
  define db1 where "db1 = demo_agents_db\<lparr>sd_agents := [?row], sd_pay := createAgentMandate ''a'' 9 ''d'' (sd_pay demo_agents_db)\<rparr>"
  have c: "gc_key demo_agents_call = Inr ''k''" "gc_tcb demo_agents_call = Inr (demo_created_cvm, demo_agents_tcb)" "gc_fresh demo_agents_call = ''a''"
    "gc_day demo_agents_call = ''d''" "an_dailyLimit demo_agents_input = Inr 9" "an_memory demo_agents_input = None" "length (gc_iv demo_agents_call) = 12"
    by (simp_all add: demo_agents_call_def demo_agents_input_def)
  have create: "createAgent demo_agents_env demo_agents_service demo_agents_call demo_agents_input (\<lambda>_. ay_db s0) demo_agents_db
      = Inr (publicAgent demo_agents_env ?row, db1)"
    by (simp add: createAgent_def c initial_memory_def db0 demo_agents_current Let_def db1_def)
  have good: "good_call demo_agents_env s0 demo_agents_call"
    by (simp add: good_call_def c db0) (simp add: s0_def demo_agents_family)
  have r1: "?reach (s0\<lparr>ay_history := db1 # ay_history s0\<rparr>)"
    by (rule reachable_step [OF r0 agent_created [OF good _ create]]) (simp add: s0_def)
  have db1: "sd_agents db1 = [?row]" "sd_tcb db1 = [demo_first]" "sd_sessions db1 = [demo_agents_session]" "sd_models db1 = [demo_agents_listing]"
    by (simp_all add: db1_def db0)
  have row: "ag_id ?row = ''a''" "ag_ownerKeyHash ?row = ''k''" by (simp_all add: new_agent_def Let_def c)
  have req: "requireAgent ''a'' ''k'' db1 = Inr ?row" by (simp add: requireAgent_def db1(1) row of_option_def require_def)
  let ?s1 = "s0\<lparr>ay_history := db1 # ay_history s0\<rparr>"
  have now: "ay_db ?s1 = db1" by (simp add: ay_db_def)
  have "\<exists>a db. putAgentMemory demo_agents_env demo_agents_service demo_agents_call ''a'' ''s'' (demo_blob ''hi'') (\<lambda>_. ay_db ?s1) db1 = Inr (a, db)"
    by (simp add: putAgentMemory_def c req now demo_agents_plain [OF db1(3)] demo_agents_current [OF db1(2)] Let_def)
  then show thesis using that [OF r1, of db1] db1 by (auto simp: now) (simp add: s0_def)
qed

theorem agent_memory_intact_witness:
  "\<exists>s a memory. reachable (agents_start demo_agents_env) (agents_step demo_agents_env) s \<and> a \<in> set (sd_agents (ay_db s))
     \<and> open_text demo_agents_env demo_released_cvm (ag_sealedMemory a) = Inr (text_of memory) \<and> ag_memoryHash a = sha256Hex (ce_sha demo_agents_env) memory"
proof -
  obtain s a where s: "reachable (agents_start demo_agents_env) (agents_step demo_agents_env) s" "ay_boot s = demo_created_cvm" "a \<in> set (sd_agents (ay_db s))"
    by (rule demo_agents_run) force
  have "family demo_agents_env (ay_boot s) demo_released_cvm" using demo_agents_family(2) s(2) by simp
  from agent_memory_intact [OF demo_agents_laws s(1,3) this demo_agents_family(3)] s show ?thesis by blast
qed

theorem memory_written_by_owner_witness:
  "\<exists>s old view db. putAgentMemory demo_agents_env demo_agents_service demo_agents_call ''a'' ''s'' (demo_blob ''hi'') (\<lambda>_. ay_db s) old = Inr (view, db)
     \<and> (\<exists>row \<in> set (sd_agents (ay_db s)). ag_id row = ''a'' \<and> ag_ownerKeyHash row = ''k'')"
proof -
  obtain s old db view where s: "reachable (agents_start demo_agents_env) (agents_step demo_agents_env) s" "old \<in> set (ay_history s)"
    "putAgentMemory demo_agents_env demo_agents_service demo_agents_call ''a'' ''s'' (demo_blob ''hi'') (\<lambda>_. ay_db s) old = Inr (view, db)"
    by (rule demo_agents_run) blast
  from memory_written_by_owner [OF s] have "\<exists>row \<in> set (sd_agents (ay_db s)). ag_id row = ''a'' \<and> ag_ownerKeyHash row = ''k''"
    by (auto simp: demo_agents_call_def)
  with s(3) show ?thesis by blast
qed

definition demo_agents_world :: service_world where
  "demo_agents_world = \<lparr>sw_now = 600, sw_key = Inr ''k'', sw_tcb = Inr demo_agents_tcb, sw_approval = Inl (PlainError ''''), sw_onChain = Inr True,
     sw_wiring = Inr (), sw_proofs = (\<lambda>_. Inr ())\<rparr>"

definition demo_agents_infer :: infer_input where
  "demo_agents_infer = \<lparr>ii_sessionId = ''s'', ii_blob = demo_blob ''q'', ii_paymentId = None, ii_idempotencyKey = None, ii_agentId = Some ''a''\<rparr>"

theorem agent_prompt_carries_memory_witness:
  "\<exists>s adm memory plaintext. admit_infer demo_agents_service demo_agents_world demo_agents_infer (ay_db s) = Inr adm
     \<and> ai_plaintext adm = text_of memory @ [char_of (10::nat)] @ plaintext"
proof -
  let ?a = "new_agent demo_agents_env demo_agents_call demo_agents_input ''k'' demo_created_cvm 9 []"
  obtain s where s: "reachable (agents_start demo_agents_env) (agents_step demo_agents_env) s" "ay_boot s = demo_created_cvm"
    "sd_agents (ay_db s) = [?a]" "sd_sessions (ay_db s) = [demo_agents_session]" "sd_models (ay_db s) = [demo_agents_listing]"
    by (rule demo_agents_run) blast
  have cvm: "sn_cvm demo_agents_service = cvm_of demo_agents_env (replicate 12 0) demo_released_cvm" by (simp add: demo_agents_service_def)
  have fam: "family demo_agents_env (ay_boot s) demo_released_cvm" using demo_agents_family(2) s(2) by simp
  have a: "ag_id ?a = ''a''" "ag_ownerKeyHash ?a = ''k''" "ag_policy ?a = \<lparr>ap_dailyLimitUnits = 9, ap_allowedModels = []\<rparr>"
    by (simp_all add: new_agent_def Let_def demo_agents_call_def demo_agents_input_def)
  have agent: "admit_agent demo_agents_service ''k'' (Some ''a'') (ay_db s) = Inr (Some ?a)"
    by (simp add: admit_agent_def given_def requireAgent_def s(3) a of_option_def require_def assertAgentModel_def agentAllowsModel_def)
  have session: "requireSession demo_agents_service demo_agents_world ''s'' ''k'' (ay_db s) = Inr demo_agents_session"
  proof (rule demo_agents_session_ok [OF s(4)])
    show "cv_releaseKeys (sn_cvm demo_agents_service) (demo_gateway_quote demo_policy) 500 = Inr ()"
      by (simp add: cvm cvm_of_def demo_vendor_address demo_agents_again)
  qed (simp_all add: demo_agents_service_def demo_agents_world_def)
  have serving: "assertServingApproved demo_agents_service demo_agents_world demo_agents_tcb (ay_db s) = Inr ()"
    by (simp add: assertServingApproved_def serving_row_def s(5) modelServingAllowed_def demo_agents_listing_def cvm)
      (simp add: cvm_of_def demo_agents_tcb_def demo_agents_service_def require_def modelServingAllowed_def)
  have decrypt: "decryptRequest demo_agents_service (cv_sessionSecret (sn_cvm demo_agents_service) i) (demo_blob ''q'') = Inr ''q''" for i
    by (simp add: decryptRequest_def cvm) (simp add: cvm_of_def demo_agents_secret demo_agents_decrypt of_option_def)
  from agents.inv_reachable [OF s(1)] have "reachable (cvm_start demo_agents_env) (cvm_step demo_agents_env) (ay_boot s)" "sealed_row demo_agents_env (ay_boot s) ?a"
    by (simp_all add: agents_ok_def s(3))
  then obtain memory where m: "open_text demo_agents_env demo_released_cvm (ag_sealedMemory ?a) = Inr (text_of memory)"
    using sealed_row_opens [OF demo_agents_laws _ _ fam demo_agents_family(3)] by metis
  have world: "sw_key demo_agents_world = Inr ''k''" "sw_tcb demo_agents_world = Inr demo_agents_tcb"
    and input: "ii_sessionId demo_agents_infer = ''s''" "ii_agentId demo_agents_infer = Some ''a''" "ii_blob demo_agents_infer = demo_blob ''q''"
    by (simp_all add: demo_agents_world_def demo_agents_infer_def)
  have memory: "cv_openMemory (sn_cvm demo_agents_service) (ag_sealedMemory ?a) = Inr (text_of memory)" using m by (simp add: cvm cvm_of_def)
  obtain adm where adm: "admit_infer demo_agents_service demo_agents_world demo_agents_infer (ay_db s) = Inr adm" "ai_agent adm = Some ?a"
    by (simp add: admit_infer_def world input session serving agent decrypt memory Let_def)
  from agent_prompt_carries_memory [OF demo_agents_laws s(1) fam demo_agents_family(3) cvm adm] adm(1) show ?thesis by blast
qed

end
