(* ===== verification/Worker_Reorg.thy ===== *)
theory Worker_Reorg
  imports Core_Json
begin

text \<open>
  The retained block headers of the chain indexer, \<open>worker/src/reorg.ts\<close>: the stored text of a
  checkpoint window, the search for the most recent canonical checkpoint, and the window kept after a
  batch of headers.

  The stored text is a JSON value, \<open>None\<close> when \<open>JSON.parse\<close> refuses it. A header reader is a function
  of the block number; it may fail.
\<close>

section \<open>Checkpoints\<close>

record checkpoint =
  ck_number :: int
  ck_hash :: string

record chain_header = checkpoint +
  ch_parentHash :: string

type_synonym header_reader = "int \<Rightarrow> enclave_error + chain_header"

definition json_field :: "string \<Rightarrow> (string \<times> json) list \<Rightarrow> json option" where
  "json_field k fs = map_of (rev fs) k"

text \<open>\<open>/^(0|[1-9][0-9]*)$/\<close> and \<open>/^0x[0-9a-fA-F]{64}$/\<close>.\<close>

definition decimal_text :: "string \<Rightarrow> bool" where
  "decimal_text s \<longleftrightarrow> s = ''0'' \<or> (s \<noteq> [] \<and> list_all is_digit s \<and> hd s \<noteq> CHR ''0'')"

definition bad_checkpoint :: enclave_error where
  "bad_checkpoint = ValidationError ''checkpoints''"

fun stored_row :: "json \<Rightarrow> enclave_error + (string \<times> string)" where
  "stored_row (JObj fs) = (case (json_field ''number'' fs, json_field ''hash'' fs) of
     (Some (JStr n), Some (JStr h)) \<Rightarrow>
       if decimal_text n \<and> hex_string 64 h then Inr (n, h) else Inl bad_checkpoint
   | _ \<Rightarrow> Inl bad_checkpoint)"
| "stored_row _ = Inl bad_checkpoint"

fun storedCheckpoints :: "json \<Rightarrow> enclave_error + (string \<times> string) list" where
  "storedCheckpoints (JArr rows) = collect (map stored_row rows)"
| "storedCheckpoints _ = Inl bad_checkpoint"

fun contiguous :: "checkpoint list \<Rightarrow> bool" where
  "contiguous (a # b # cs) \<longleftrightarrow> ck_number b = ck_number a + 1 \<and> contiguous (b # cs)"
| "contiguous _ \<longleftrightarrow> True"

definition parseCheckpoints :: "json option \<Rightarrow> enclave_error + checkpoint list" where
  "parseCheckpoints text = (case text of
     None \<Rightarrow> Inl (PlainError ''Unexpected token'')
   | Some v \<Rightarrow> rbind (storedCheckpoints v) (\<lambda>rows.
       let checkpoints = map (\<lambda>(n, h). \<lparr>ck_number = int (dec_number n), ck_hash = ''0x'' @ drop 2 h\<rparr>) rows in
       rbind (require (contiguous checkpoints) (PlainError ''Indexer checkpoint history is not contiguous'')) (\<lambda>_.
       Inr checkpoints)))"

definition serializeCheckpoints :: "checkpoint list \<Rightarrow> json option" where
  "serializeCheckpoints checkpoints =
     Some (JArr (map (\<lambda>b. JObj [(''number'', JStr (int_dec (ck_number b))), (''hash'', JStr (ck_hash b))]) checkpoints))"

section \<open>The common ancestor\<close>

fun ancestor_loop :: "checkpoint list \<Rightarrow> int \<Rightarrow> header_reader \<Rightarrow> enclave_error + checkpoint option" where
  "ancestor_loop [] head read = Inr None"
| "ancestor_loop (c # cs) head read =
     (if ck_number c > head then ancestor_loop cs head read
      else rbind (read (ck_number c)) (\<lambda>canonical.
        if same (ck_hash canonical) (ck_hash c) then Inr (Some c) else ancestor_loop cs head read))"

definition findCommonAncestor :: "checkpoint list \<Rightarrow> int \<Rightarrow> header_reader \<Rightarrow> enclave_error + checkpoint option" where
  "findCommonAncestor checkpoints head read = ancestor_loop (rev checkpoints) head read"

section \<open>The retained window\<close>

definition last_opt :: "'a list \<Rightarrow> 'a option" where
  "last_opt xs = (if xs = [] then None else Some (last xs))"

definition slice_end :: "nat \<Rightarrow> 'a list \<Rightarrow> 'a list" where
  "slice_end keep xs = (if keep = 0 then xs else drop (length xs - keep) xs)"

definition push_header :: "checkpoint list \<Rightarrow> chain_header \<Rightarrow> enclave_error + checkpoint list" where
  "push_header tail header =
     (let new = \<lparr>ck_number = ck_number header, ck_hash = ck_hash header\<rparr> in
      case last_opt tail of
        None \<Rightarrow> Inr (tail @ [new])
      | Some prior \<Rightarrow>
          if ck_number header \<le> ck_number prior
          then Inl (PlainError ''Indexer checkpoint would move backwards'')
          else if ck_number header = ck_number prior + 1 \<and> \<not> same (ch_parentHash header) (ck_hash prior)
          then Inl (PlainError ''Chain reorganized while reading checkpoint headers'')
          else if ck_number header > ck_number prior + 1 then Inr [new]
          else Inr (tail @ [new]))"

fun push_headers :: "checkpoint list \<Rightarrow> chain_header list \<Rightarrow> enclave_error + checkpoint list" where
  "push_headers tail [] = Inr tail"
| "push_headers tail (h # hs) = rbind (push_header tail h) (\<lambda>tail. push_headers tail hs)"

definition checkpointTail :: "checkpoint list \<Rightarrow> chain_header list \<Rightarrow> nat \<Rightarrow> enclave_error + checkpoint list" where
  "checkpointTail previous headers keep = rmap (slice_end keep) (push_headers previous headers)"

section \<open>Lemmas\<close>

lemma contiguous_snoc:
  "contiguous (cs @ [c]) \<longleftrightarrow> contiguous cs \<and> (cs \<noteq> [] \<longrightarrow> ck_number c = ck_number (last cs) + 1)"
  by (induction cs rule: contiguous.induct) auto

lemma contiguous_tl: "contiguous (c # cs) \<Longrightarrow> contiguous cs"
  by (cases cs) auto

lemma contiguous_drop: "contiguous cs \<Longrightarrow> contiguous (drop n cs)"
proof (induction n arbitrary: cs)
  case (Suc n) then show ?case by (cases cs) (auto dest: contiguous_tl)
qed simp

lemma contiguous_number:
  "contiguous (c # cs) \<Longrightarrow> i < length (c # cs) \<Longrightarrow> ck_number ((c # cs) ! i) = ck_number c + int i"
proof (induction i arbitrary: c cs)
  case (Suc i) then show ?case by (cases cs) auto
qed simp

lemma contiguous_ge_hd: "contiguous (c # cs) \<Longrightarrow> x \<in> set (c # cs) \<Longrightarrow> ck_number c \<le> ck_number x"
  using contiguous_number [of c cs] by (metis in_set_conv_nth le_add_same_cancel1 of_nat_0_le_iff)

lemma contiguous_le_last: "contiguous cs \<Longrightarrow> x \<in> set cs \<Longrightarrow> ck_number x \<le> ck_number (last cs)"
proof (induction cs)
  case (Cons c cs)
  then show ?case
    using contiguous_ge_hd [of c cs "last cs"] by (cases "cs = []") (auto dest: contiguous_tl)
qed simp

lemma contiguous_take: "contiguous cs \<Longrightarrow> contiguous (take n cs)"
proof (induction n arbitrary: cs)
  case (Suc n)
  show ?case
  proof (cases cs)
    case (Cons c ds)
    with Suc have "contiguous (take n ds)" by (auto dest: contiguous_tl)
    with Suc.prems Cons show ?thesis by (cases ds; cases n) auto
  qed simp
qed simp

text \<open>What a rewind keeps of a contiguous window is a contiguous window ending at the ancestor.\<close>

lemma contiguous_filter_le:
  assumes "contiguous cs" and "c \<in> set cs"
  shows "contiguous (filter (\<lambda>b. ck_number b \<le> ck_number c) cs)
    \<and> filter (\<lambda>b. ck_number b \<le> ck_number c) cs \<noteq> []
    \<and> last (filter (\<lambda>b. ck_number b \<le> ck_number c) cs) = c"
  using assms
proof (induction cs rule: rev_induct)
  case (snoc d cs)
  from snoc.prems(1) have cs: "contiguous cs" by (simp add: contiguous_snoc)
  show ?case
  proof (cases "c \<in> set cs")
    case True
    with contiguous_le_last [OF cs True] snoc.prems(1) have "ck_number c < ck_number d"
      by (cases "cs = []") (auto simp: contiguous_snoc)
    with snoc.IH [OF cs True] show ?thesis by simp
  next
    case False
    with snoc.prems(2) have "c = d" by simp
    moreover have "filter (\<lambda>b. ck_number b \<le> ck_number d) cs = cs"
      using contiguous_le_last [OF cs] snoc.prems(1)
      by (cases "cs = []") (fastforce simp: contiguous_snoc intro!: filter_True)+
    ultimately show ?thesis using snoc.prems(1) by simp
  qed
qed simp

lemma contiguous_unique:
  "contiguous cs \<Longrightarrow> a \<in> set cs \<Longrightarrow> b \<in> set cs \<Longrightarrow> ck_number a = ck_number b \<Longrightarrow> a = b"
proof (cases cs)
  case (Cons c ds)
  assume c: "contiguous cs" and ab: "a \<in> set cs" "b \<in> set cs" and eq: "ck_number a = ck_number b"
  from ab obtain i j where "i < length cs" "cs ! i = a" "j < length cs" "cs ! j = b"
    by (metis in_set_conv_nth)
  with c eq contiguous_number [of c ds] show "a = b" unfolding Cons by fastforce
qed simp

section \<open>The search returns the most recent canonical checkpoint\<close>

definition canonical_in :: "header_reader \<Rightarrow> checkpoint \<Rightarrow> bool" where
  "canonical_in read c \<longleftrightarrow> (\<exists>h. read (ck_number c) = Inr h \<and> same (ck_hash h) (ck_hash c))"

lemma ancestor_loop_Some:
  "ancestor_loop cs head read = Inr (Some c) \<Longrightarrow>
     \<exists>before after. cs = before @ c # after \<and> ck_number c \<le> head \<and> canonical_in read c
       \<and> (\<forall>b \<in> set before. head < ck_number b \<or> \<not> canonical_in read b)"
proof (induction cs head read rule: ancestor_loop.induct)
  case (2 d cs head read)
  consider (above) "ck_number d > head" | (found) h where "ck_number d \<le> head" "read (ck_number d) = Inr h"
      "same (ck_hash h) (ck_hash d)" "c = d"
    | (forked) h where "ck_number d \<le> head" "read (ck_number d) = Inr h" "\<not> same (ck_hash h) (ck_hash d)"
    using "2.prems" by (auto split: if_splits elim!: rbind_InrE)
  then show ?case
  proof cases
    case above
    with "2" show ?thesis by (fastforce intro: exI [of _ "d # _"])
  next
    case found
    then show ?thesis by (intro exI [of _ "[]"] exI [of _ cs]) (auto simp: canonical_in_def)
  next
    case forked
    with "2.prems" have "ancestor_loop cs head read = Inr (Some c)" by simp
    with "2.IH"(2) forked obtain before after where "cs = before @ c # after" "ck_number c \<le> head" "canonical_in read c"
      "\<forall>b \<in> set before. head < ck_number b \<or> \<not> canonical_in read b"
      by (metis not_less)
    moreover from forked have "\<not> canonical_in read d" by (simp add: canonical_in_def)
    ultimately show ?thesis by (intro exI [of _ "d # before"] exI [of _ after]) auto
  qed
qed simp

lemma ancestor_loop_None:
  "ancestor_loop cs head read = Inr None \<Longrightarrow> c \<in> set cs \<Longrightarrow> head < ck_number c \<or> \<not> canonical_in read c"
proof (induction cs head read rule: ancestor_loop.induct)
  case (2 d cs head read)
  then show ?case by (auto simp: canonical_in_def split: if_splits elim!: rbind_InrE)
qed simp

lemma findCommonAncestor_Some:
  assumes "findCommonAncestor cs head read = Inr (Some c)"
  shows "c \<in> set cs \<and> ck_number c \<le> head \<and> canonical_in read c"
  using ancestor_loop_Some [OF assms [unfolded findCommonAncestor_def]]
  by (metis in_set_conv_decomp set_rev)

section \<open>The window after a batch\<close>

lemma last_opt_simps [simp]: "last_opt [] = None" "last_opt (xs @ [x]) = Some x"
  by (simp_all add: last_opt_def)

lemma last_opt_None: "last_opt xs = None \<longleftrightarrow> xs = []"
  by (simp add: last_opt_def)

lemma last_opt_Some: "last_opt xs = Some x \<longleftrightarrow> xs \<noteq> [] \<and> last xs = x"
  by (auto simp: last_opt_def)

lemma slice_end_props:
  assumes "0 < keep"
  shows "length (slice_end keep xs) \<le> keep" "set (slice_end keep xs) \<subseteq> set xs"
    "xs \<noteq> [] \<Longrightarrow> slice_end keep xs \<noteq> [] \<and> last (slice_end keep xs) = last xs"
    "contiguous cs \<Longrightarrow> contiguous (slice_end keep cs)"
  using assms by (auto simp: slice_end_def contiguous_drop diff_le_self not_le dest: in_set_dropD)

definition as_checkpoint :: "chain_header \<Rightarrow> checkpoint" where
  "as_checkpoint h = \<lparr>ck_number = ck_number h, ck_hash = ck_hash h\<rparr>"

lemma push_header_Inr:
  assumes "push_header tail h = Inr new" and "contiguous tail"
  shows "contiguous new \<and> new \<noteq> [] \<and> last new = as_checkpoint h \<and> set new \<subseteq> set tail \<union> {as_checkpoint h}"
  using assms
  by (auto simp: push_header_def Let_def contiguous_snoc last_opt_Some last_opt_None as_checkpoint_def split: option.splits if_splits)

lemma push_headers_Inr:
  "push_headers tail hs = Inr new \<Longrightarrow> contiguous tail \<Longrightarrow>
     contiguous new \<and> set new \<subseteq> set tail \<union> as_checkpoint ` set hs
     \<and> (hs \<noteq> [] \<longrightarrow> new \<noteq> [] \<and> last new = as_checkpoint (last hs)) \<and> (hs = [] \<longrightarrow> new = tail)"
proof (induction tail hs rule: push_headers.induct)
  case (2 tail h hs)
  from "2.prems"(1) obtain mid where mid: "push_header tail h = Inr mid" "push_headers mid hs = Inr new"
    by (auto elim: rbind_InrE)
  note p = push_header_Inr [OF mid(1) "2.prems"(2)]
  from "2.IH" [OF mid(2)] p show ?case by (cases hs) auto
qed simp

lemma checkpointTail_Inr:
  assumes "checkpointTail previous hs keep = Inr new" and "contiguous previous" and "hs \<noteq> []" and "0 < keep"
  shows "contiguous new \<and> new \<noteq> [] \<and> last new = as_checkpoint (last hs) \<and> length new \<le> keep
    \<and> set new \<subseteq> set previous \<union> as_checkpoint ` set hs"
proof -
  from assms(1) obtain all where all: "push_headers previous hs = Inr all" "new = slice_end keep all"
    by (auto simp: checkpointTail_def rmap_Inr_iff)
  from push_headers_Inr [OF all(1) assms(2)] assms(3,4) show ?thesis
    using slice_end_props(1,3,4) [OF assms(4), of all] subset_trans [OF slice_end_props(2) [OF assms(4), of all]]
    by (auto simp: all(2))
qed

section \<open>Stored text\<close>

definition valid_checkpoint :: "checkpoint \<Rightarrow> bool" where
  "valid_checkpoint c \<longleftrightarrow> 0 \<le> ck_number c \<and> hex_string 64 (ck_hash c)"

lemma digit_char_0: "digit_char 0 = CHR ''0''"
  by code_simp

lemma digit_char_zero: "n < 10 \<Longrightarrow> digit_char n = CHR ''0'' \<longleftrightarrow> n = 0"
  by (metis digit_char_0 digit_value_char zero_less_numeral)

lemma nat_dec_hd_zero: "hd (nat_dec n) = CHR ''0'' \<Longrightarrow> n = 0"
proof (induction n rule: nat_dec.induct)
  case (1 n)
  then show ?case
    using digit_char_zero [of n] nat_dec_nonempty by (subst (asm) (2) nat_dec.simps) (auto split: if_splits)
qed

lemma decimal_text_nat_dec: "decimal_text (nat_dec n)"
proof (cases "n = 0")
  case True
  then show ?thesis by (simp add: decimal_text_def nat_dec.simps [of 0] digit_char_0)
next
  case False
  then show ?thesis using nat_dec_hd_zero nat_dec_nonempty nat_dec_digits by (auto simp: decimal_text_def)
qed

lemma hex_string_prefix: "hex_string n h \<Longrightarrow> ''0x'' @ drop 2 h = h"
  by (metis append_take_drop_id hex_string_def)

lemma parse_serialize:
  assumes "contiguous cs" and "\<forall>c \<in> set cs. valid_checkpoint c"
  shows "parseCheckpoints (serializeCheckpoints cs) = Inr cs"
proof -
  have rows: "collect (map (stored_row \<circ> (\<lambda>b. JObj [(''number'', JStr (int_dec (ck_number b))), (''hash'', JStr (ck_hash b))])) cs)
      = Inr (map (\<lambda>b. (nat_dec (nat (ck_number b)), ck_hash b)) cs)"
    using assms(2)
    by (induction cs) (auto simp: json_field_def valid_checkpoint_def int_dec_nonneg decimal_text_nat_dec)
  have "map ((\<lambda>(n, h). \<lparr>ck_number = int (dec_number n), ck_hash = ''0x'' @ drop 2 h\<rparr>)
      \<circ> (\<lambda>b. (nat_dec (nat (ck_number b)), ck_hash b))) cs = cs"
    using assms(2)
    by (intro map_idI) (auto simp: valid_checkpoint_def dec_number_nat_dec hex_string_prefix [simplified])
  with rows assms(1) show ?thesis
    by (simp add: parseCheckpoints_def serializeCheckpoints_def Let_def)
qed

section \<open>Properties\<close>

text \<open>
  A checkpoint window survives the database: what is stored for any contiguous window of valid
  headers is read back exactly, so that a worker restart never loses or alters retained history.
\<close>

theorem checkpoint_text_round_trip:
  assumes "contiguous cs" and "\<forall>c \<in> set cs. valid_checkpoint c"
  shows "parseCheckpoints (serializeCheckpoints cs) = Inr cs"
  using assms by (rule parse_serialize)

theorem checkpoint_text_round_trip_witness:
  "parseCheckpoints (serializeCheckpoints [\<lparr>ck_number = 9, ck_hash = ''0x'' @ replicate 64 CHR ''a''\<rparr>,
      \<lparr>ck_number = 10, ck_hash = ''0x'' @ replicate 64 CHR ''b''\<rparr>])
    = Inr [\<lparr>ck_number = 9, ck_hash = ''0x'' @ replicate 64 CHR ''a''\<rparr>,
      \<lparr>ck_number = 10, ck_hash = ''0x'' @ replicate 64 CHR ''b''\<rparr>]"
proof (rule checkpoint_text_round_trip)
  have "hex_string 64 (''0x'' @ replicate 64 CHR ''a'')" "hex_string 64 (''0x'' @ replicate 64 CHR ''b'')"
    by code_simp+
  then show "\<forall>c \<in> set [\<lparr>ck_number = 9, ck_hash = ''0x'' @ replicate 64 CHR ''a''\<rparr>,
      \<lparr>ck_number = 10, ck_hash = ''0x'' @ replicate 64 CHR ''b''\<rparr>]. valid_checkpoint c"
    by (simp add: valid_checkpoint_def)
qed simp

text \<open>
  The ancestor of a reorganised chain is the most recent one: the search returns a retained
  checkpoint within the confirmed height whose stored hash the node confirms, every retained checkpoint
  above it is beyond the confirmed height or forked, and it finds nothing only when every retained
  checkpoint within the confirmed height is forked.
\<close>

theorem common_ancestor_is_most_recent:
  assumes "contiguous cs" and "findCommonAncestor cs head read = Inr found"
  shows "case found of
      Some c \<Rightarrow> c \<in> set cs \<and> ck_number c \<le> head \<and> canonical_in read c
        \<and> (\<forall>b \<in> set cs. ck_number c < ck_number b \<longrightarrow> head < ck_number b \<or> \<not> canonical_in read b)
    | None \<Rightarrow> \<forall>b \<in> set cs. head < ck_number b \<or> \<not> canonical_in read b"
proof (cases found)
  case None
  with assms(2) ancestor_loop_None [of "rev cs" head read] show ?thesis by (simp add: findCommonAncestor_def)
next
  case (Some c)
  with assms(2) have "ancestor_loop (rev cs) head read = Inr (Some c)" by (simp add: findCommonAncestor_def)
  then obtain before after where split: "rev cs = before @ c # after"
    and above: "\<forall>b \<in> set before. head < ck_number b \<or> \<not> canonical_in read b"
    using ancestor_loop_Some by blast
  from arg_cong [OF split, of rev] have cs: "cs = (rev after @ [c]) @ rev before" by simp
  have "contiguous (rev after @ [c])" using contiguous_take [OF assms(1), of "length (rev after @ [c])"] by (simp add: cs)
  then have "ck_number b \<le> ck_number c" if "b \<in> set (rev after @ [c])" for b
    using contiguous_le_last [OF _ that] by simp
  then have "b \<in> set before" if "b \<in> set cs" "ck_number c < ck_number b" for b
    using that by (fastforce simp: cs)
  with above findCommonAncestor_Some [OF assms(2) [unfolded Some]] Some show ?thesis by auto
qed

theorem common_ancestor_is_most_recent_witness:
  "\<exists>read. findCommonAncestor [\<lparr>ck_number = 7, ck_hash = ''a''\<rparr>, \<lparr>ck_number = 8, ck_hash = ''b''\<rparr>] 9 read
      = Inr (Some \<lparr>ck_number = 7, ck_hash = ''a''\<rparr>) \<and> \<not> canonical_in read \<lparr>ck_number = 8, ck_hash = ''b''\<rparr>"
proof -
  let ?read = "\<lambda>n :: int. Inr \<lparr>ck_number = n, ck_hash = ''A'', ch_parentHash = ''''\<rparr> :: enclave_error + chain_header"
  have "same ''A'' ''a''" "\<not> same ''A'' ''b''" by code_simp+
  then have found: "findCommonAncestor [\<lparr>ck_number = 7, ck_hash = ''a''\<rparr>, \<lparr>ck_number = 8, ck_hash = ''b''\<rparr>] 9 ?read
      = Inr (Some \<lparr>ck_number = 7, ck_hash = ''a''\<rparr>)"
    by (simp add: findCommonAncestor_def)
  with common_ancestor_is_most_recent [OF _ found] show ?thesis by (intro exI [of _ ?read]) auto
qed

end
