(* ===== verification/Worker_Indexer.thy ===== *)
theory Worker_Indexer
  imports Worker_Reorg "HOL-Library.Product_Lexorder"
begin

text \<open>
  The chain indexer of the worker: \<open>worker/src/policy-sync.ts\<close> (the serving policy derived from registry
  events) and \<open>worker/src/indexer.ts\<close> (one tick of the indexer, and the operator's reset), over the tables
  \<open>models\<close>, \<open>chain_events\<close> and \<open>index_cursors\<close>.

  The node is the record \<open>index_rpc\<close>, one reader per phase of a tick, so that its answers may change
  between phases; within one phase the code asks for each block at most once. Columns that hold JSON
  text hold the value. A tick is one transaction under an advisory lock, so ticks of one scope are
  serial; nested transactions are savepoints.
\<close>

section \<open>Registry policy\<close>

datatype registry_event =
    Listed (re_listingId: int) (re_modelHash: string) (re_codeHash: string) (re_provider: string)
  | Approved (re_listingId: int)
  | Revoked (re_listingId: int)

record model_row =
  mo_modelHash :: string
  mo_codeHash :: string
  mo_version :: string
  mo_provider :: string
  mo_approved :: bool
  mo_revoked :: bool
  mo_listingBps :: int
  mo_listingId :: "int option"
  mo_chainScope :: "string option"

definition max_int4 :: int where "max_int4 = 2147483647"

definition listing_in_range :: "int \<Rightarrow> bool" where
  "listing_in_range i \<longleftrightarrow> 1 \<le> i \<and> i \<le> max_int4"

definition out_of_range :: enclave_error where
  "out_of_range = PlainError ''Registry listing id is outside the supported database range''"

definition registryEventFromPayload :: "registry_event option \<Rightarrow> enclave_error + registry_event" where
  "registryEventFromPayload payload = (case payload of
     Some event \<Rightarrow> if listing_in_range (re_listingId event) then Inr event else Inl (ValidationError ''registryEvent'')
   | None \<Rightarrow> Inl (ValidationError ''registryEvent''))"

definition has_hashes :: "string \<Rightarrow> string \<Rightarrow> model_row \<Rightarrow> bool" where
  "has_hashes m c r \<longleftrightarrow> mo_modelHash r = m \<and> mo_codeHash r = c"

definition of_listing :: "string \<Rightarrow> int \<Rightarrow> model_row \<Rightarrow> bool" where
  "of_listing scope i r \<longleftrightarrow> mo_chainScope r = Some scope \<and> mo_listingId r = Some i"

definition list_model :: "string \<Rightarrow> int \<Rightarrow> string \<Rightarrow> string \<Rightarrow> string \<Rightarrow> model_row list \<Rightarrow> model_row list" where
  "list_model scope i m c provider rows =
     (if \<exists>r \<in> set rows. has_hashes m c r
      then update_rows (has_hashes m c)
             (\<lambda>r. r\<lparr>mo_listingId := Some i, mo_chainScope := Some scope, mo_approved := False, mo_revoked := False\<rparr>) rows
      else rows @ [\<lparr>mo_modelHash = m, mo_codeHash = c, mo_version = ''chain'', mo_provider = provider,
             mo_approved = False, mo_revoked = False, mo_listingBps = 0, mo_listingId = Some i,
             mo_chainScope = Some scope\<rparr>])"

fun sync_rows :: "string \<Rightarrow> registry_event \<Rightarrow> model_row list \<Rightarrow> model_row list" where
  "sync_rows scope (Listed i m c provider) rows = list_model scope i m c provider rows"
| "sync_rows scope (Approved i) rows =
     update_rows (of_listing scope i) (\<lambda>r. r\<lparr>mo_approved := True, mo_revoked := False\<rparr>) rows"
| "sync_rows scope (Revoked i) rows =
     update_rows (of_listing scope i) (\<lambda>r. r\<lparr>mo_approved := False, mo_revoked := True\<rparr>) rows"

definition applyRegistrySync ::
    "registry_event \<Rightarrow> string \<Rightarrow> model_row list \<Rightarrow> enclave_error + model_row list" where
  "applyRegistrySync event scope rows =
     rbind (require (listing_in_range (re_listingId event)) out_of_range) (\<lambda>_. Inr (sync_rows scope event rows))"

fun apply_all :: "registry_event list \<Rightarrow> string \<Rightarrow> model_row list \<Rightarrow> enclave_error + model_row list" where
  "apply_all [] scope rows = Inr rows"
| "apply_all (e # es) scope rows = rbind (applyRegistrySync e scope rows) (apply_all es scope)"

definition in_scope :: "string \<Rightarrow> model_row \<Rightarrow> bool" where
  "in_scope scope r \<longleftrightarrow> mo_chainScope r = Some scope"

definition quarantineRegistryScope :: "string \<Rightarrow> model_row list \<Rightarrow> model_row list" where
  "quarantineRegistryScope scope rows =
     update_rows (in_scope scope) (\<lambda>r. r\<lparr>mo_approved := False, mo_revoked := True\<rparr>) rows"

text \<open>A journalled event: what \<open>store\<close> inserts into \<open>chain_events\<close>. Of the payload's JSON the model
  keeps the registry event, the only field that is read back.\<close>

record event_row =
  ce_scope :: string
  ce_source :: string
  ce_txHash :: string
  ce_logIndex :: int
  ce_blockNumber :: int
  ce_blockHash :: "string option"
  ce_payload :: "registry_event option"

definition registry_sources :: "string list" where
  "registry_sources = [''ModelRegistry.Listed'', ''ModelRegistry.Approved'', ''ModelRegistry.Revoked'']"

definition registry_journal :: "string \<Rightarrow> event_row list \<Rightarrow> event_row list" where
  "registry_journal scope events =
     sort_key (\<lambda>e. (ce_blockNumber e, ce_logIndex e))
       (filter (\<lambda>e. ce_scope e = scope \<and> ce_source e \<in> set registry_sources) events)"

fun replay :: "event_row list \<Rightarrow> string \<Rightarrow> model_row list \<Rightarrow> enclave_error + model_row list" where
  "replay [] scope rows = Inr rows"
| "replay (e # es) scope rows =
     rbind (registryEventFromPayload (ce_payload e)) (\<lambda>event.
     rbind (applyRegistrySync event scope rows) (replay es scope))"

definition clear_row :: "string \<Rightarrow> model_row \<Rightarrow> model_row" where
  "clear_row scope r =
     (if in_scope scope r then r\<lparr>mo_approved := False, mo_revoked := True, mo_listingId := None\<rparr> else r)"

definition rebuildRegistryPolicy ::
    "string \<Rightarrow> event_row list \<Rightarrow> model_row list \<Rightarrow> enclave_error + model_row list" where
  "rebuildRegistryPolicy scope events rows =
     replay (registry_journal scope events) scope (map (clear_row scope) rows)"

section \<open>Configuration\<close>

record indexer_opts =
  io_verifier :: "string option"
  io_meter :: "string option"
  io_feeVault :: "string option"
  io_registry :: "string option"
  io_chainId :: "nat option"
  io_confirmations :: "js_number option"
  io_deploymentId :: "string option"
  io_reorgWindow :: "js_number option"
  io_batchSize :: "js_number option"
  io_rpcMaxRps :: "js_number option"

definition positiveOption :: "string \<Rightarrow> js_number \<Rightarrow> int \<Rightarrow> int \<Rightarrow> enclave_error + int" where
  "positiveOption name value lo hi =
     (if \<not> is_safe_integer value \<or> int_of value < lo \<or> int_of value > hi
      then Inl (PlainError (name @ '' must be an integer between '' @ int_dec lo @ '' and '' @ int_dec hi))
      else Inr (int_of value))"

definition or_default :: "'a option \<Rightarrow> 'a \<Rightarrow> 'a" where
  "or_default v d = (case v of Some x \<Rightarrow> x | None \<Rightarrow> d)"

definition local_chains :: "nat list" where
  "local_chains = [31337, 1337]"

definition rpcBudget :: "indexer_opts \<Rightarrow> enclave_error + int" where
  "rpcBudget opts = positiveOption ''rpcMaxRps''
     (or_default (io_rpcMaxRps opts) (JInt (if or_default (io_chainId opts) 31337 \<in> set local_chains then 20 else 5))) 1 20"

record raw_block =
  rb_number :: "int option"
  rb_hash :: "string option"
  rb_parentHash :: string

type_synonym block_reader = "int \<Rightarrow> enclave_error + raw_block"

definition readHeader :: "block_reader \<Rightarrow> header_reader" where
  "readHeader getBlock n =
     rbind (getBlock n) (\<lambda>block.
     case rb_hash block of
       Some h \<Rightarrow>
         if rb_number block \<noteq> Some n then Inl (PlainError (''Missing canonical header '' @ int_dec n))
         else Inr \<lparr>ck_number = n, ck_hash = h, ch_parentHash = rb_parentHash block\<rparr>
     | None \<Rightarrow> Inl (PlainError (''Missing canonical header '' @ int_dec n)))"

record log_args =
  la_id :: "int option"
  la_modelHash :: "string option"
  la_codeHash :: "string option"
  la_provider :: "string option"

record index_log =
  lg_address :: string
  lg_topics :: "string list"
  lg_data :: string
  lg_transactionHash :: "string option"
  lg_logIndex :: "int option"
  lg_blockNumber :: "int option"
  lg_blockHash :: "string option"
  lg_removed :: bool
  lg_args :: log_args

type_synonym log_reader = "string \<Rightarrow> int \<Rightarrow> int \<Rightarrow> enclave_error + index_log list"

record index_rpc =
  rp_chainId :: "enclave_error + nat"
  rp_genesis :: block_reader
  rp_latest :: "enclave_error + int"
  rp_ancestors :: block_reader
  rp_before :: block_reader
  rp_verified :: log_reader
  rp_settled :: log_reader
  rp_buyback :: log_reader
  rp_listed :: log_reader
  rp_approved :: log_reader
  rp_revoked :: log_reader
  rp_during :: block_reader
  rp_after :: block_reader

record index_context =
  cx_scope :: string
  cx_confirmations :: int
  cx_window :: int
  cx_batchSize :: int

text \<open>\<open>encode\<close> and \<open>keccak\<close> are those of \<open>indexerScope\<close>.\<close>

definition index_context_of ::
    "(string option list \<Rightarrow> string) \<Rightarrow> hash_fun \<Rightarrow> indexer_opts \<Rightarrow> index_rpc \<Rightarrow> enclave_error + index_context" where
  "index_context_of encode keccak opts rpc =
     rbind (rpcBudget opts) (\<lambda>_.
     rbind (rp_chainId rpc) (\<lambda>chainId.
     rbind (require (io_chainId opts = None \<or> io_chainId opts = Some chainId)
       (PlainError (''RPC chain '' @ nat_dec chainId @ '' does not match configured chain ''
          @ nat_dec (or_default (io_chainId opts) 0)))) (\<lambda>_.
     rbind (positiveOption ''confirmations''
       (or_default (io_confirmations opts) (JInt (if chainId \<in> set local_chains then 0 else 12))) 0 100000) (\<lambda>confirmations.
     rbind (positiveOption ''reorgWindow'' (or_default (io_reorgWindow opts) (JInt 128)) 2 4096) (\<lambda>window.
     rbind (positiveOption ''batchSize'' (or_default (io_batchSize opts) (JInt 2000)) 1 2000) (\<lambda>batchSize.
     rbind (readHeader (rp_genesis rpc) 0) (\<lambda>genesis.
     Inr \<lparr>cx_scope = indexerScope encode keccak
            \<lparr>sc_chainId = chainId, sc_genesisHash = ck_hash genesis, sc_deploymentId = io_deploymentId opts,
             sc_verifier = io_verifier opts, sc_meter = io_meter opts, sc_feeVault = io_feeVault opts,
             sc_registry = io_registry opts\<rparr>,
          cx_confirmations = confirmations, cx_window = window, cx_batchSize = batchSize\<rparr>)))))))"

section \<open>Reading a batch\<close>

record index_entry =
  en_log :: index_log
  en_registryEvent :: "registry_event option"

record index_batch =
  ba_source :: string
  ba_entries :: "index_entry list"

definition isMined :: "index_log \<Rightarrow> bool" where
  "isMined log \<longleftrightarrow> lg_transactionHash log \<noteq> None \<and> lg_logIndex log \<noteq> None \<and> lg_blockNumber log \<noteq> None
     \<and> lg_blockHash log \<noteq> None \<and> \<not> lg_removed log"

definition listingId :: "int option \<Rightarrow> enclave_error + int" where
  "listingId i = (case i of
     None \<Rightarrow> Inl out_of_range
   | Some n \<Rightarrow> if n < 1 \<or> n > max_int4 then Inl out_of_range else Inr n)"

definition plain_entry :: "index_log \<Rightarrow> enclave_error + index_entry" where
  "plain_entry log = Inr \<lparr>en_log = log, en_registryEvent = None\<rparr>"

definition listed_entry :: "index_log \<Rightarrow> enclave_error + index_entry" where
  "listed_entry log =
     (let a = lg_args log in
      case (la_modelHash a, la_codeHash a, la_provider a) of
        (Some m, Some c, Some p) \<Rightarrow>
          if m = [] \<or> c = [] \<or> p = [] then Inl (PlainError ''Malformed confirmed registry listing'')
          else rmap (\<lambda>i. \<lparr>en_log = log, en_registryEvent = Some (Listed i m c p)\<rparr>) (listingId (la_id a))
      | _ \<Rightarrow> Inl (PlainError ''Malformed confirmed registry listing''))"

definition approved_entry :: "index_log \<Rightarrow> enclave_error + index_entry" where
  "approved_entry log = rmap (\<lambda>i. \<lparr>en_log = log, en_registryEvent = Some (Approved i)\<rparr>) (listingId (la_id (lg_args log)))"

definition revoked_entry :: "index_log \<Rightarrow> enclave_error + index_entry" where
  "revoked_entry log = rmap (\<lambda>i. \<lparr>en_log = log, en_registryEvent = Some (Revoked i)\<rparr>) (listingId (la_id (lg_args log)))"

definition batch_of ::
    "string \<Rightarrow> (index_log \<Rightarrow> enclave_error + index_entry) \<Rightarrow> index_log list \<Rightarrow> enclave_error + index_batch" where
  "batch_of source entry logs =
     rmap (\<lambda>es. \<lparr>ba_source = source, ba_entries = es\<rparr>) (collect (map entry (filter isMined logs)))"

text \<open>One contract's events; nothing is read for an address that is not configured.\<close>

definition source_batch ::
    "string option \<Rightarrow> log_reader \<Rightarrow> int \<Rightarrow> int \<Rightarrow> string \<Rightarrow> enclave_error + index_batch list" where
  "source_batch address getLogs fromBlock toBlock source =
     (case address of
        Some a \<Rightarrow> if isConfiguredAddress (Some a)
          then rbind (getLogs a fromBlock toBlock) (\<lambda>logs. rmap (\<lambda>b. [b]) (batch_of source plain_entry logs))
          else Inr []
      | None \<Rightarrow> Inr [])"

definition registry_batches :: "string option \<Rightarrow> index_rpc \<Rightarrow> int \<Rightarrow> int \<Rightarrow> enclave_error + index_batch list" where
  "registry_batches address rpc fromBlock toBlock =
     (case address of
        Some a \<Rightarrow> if isConfiguredAddress (Some a)
          then rbind (rp_listed rpc a fromBlock toBlock) (\<lambda>listed.
               rbind (rp_approved rpc a fromBlock toBlock) (\<lambda>approved.
               rbind (rp_revoked rpc a fromBlock toBlock) (\<lambda>revoked.
               rbind (batch_of ''ModelRegistry.Listed'' listed_entry listed) (\<lambda>b1.
               rbind (batch_of ''ModelRegistry.Approved'' approved_entry approved) (\<lambda>b2.
               rbind (batch_of ''ModelRegistry.Revoked'' revoked_entry revoked) (\<lambda>b3.
               Inr [b1, b2, b3]))))))
          else Inr []
      | None \<Rightarrow> Inr [])"

definition read_logs :: "indexer_opts \<Rightarrow> index_rpc \<Rightarrow> int \<Rightarrow> int \<Rightarrow> enclave_error + index_batch list" where
  "read_logs opts rpc fromBlock toBlock =
     rbind (source_batch (io_verifier opts) (rp_verified rpc) fromBlock toBlock ''AttestationVerifier.Verified'') (\<lambda>b1.
     rbind (source_batch (io_meter opts) (rp_settled rpc) fromBlock toBlock ''UsageMeter.Settled'') (\<lambda>b2.
     rbind (source_batch (io_feeVault opts) (rp_buyback rpc) fromBlock toBlock ''FeeVault.BuybackQueued'') (\<lambda>b3.
     rbind (registry_batches (io_registry opts) rpc fromBlock toBlock) (\<lambda>b4.
     Inr (b1 @ b2 @ b3 @ b4)))))"

text \<open>A header of this batch: that of \<open>toBlock\<close> is the one read first, the others are read once and cached.\<close>

definition cached_header :: "index_rpc \<Rightarrow> chain_header \<Rightarrow> header_reader" where
  "cached_header rpc before n = (if n = ck_number before then Inr before else readHeader (rp_during rpc) n)"

definition check_entry :: "header_reader \<Rightarrow> int \<Rightarrow> int \<Rightarrow> index_entry \<Rightarrow> enclave_error + unit" where
  "check_entry header fromBlock toBlock entry =
     (case lg_blockNumber (en_log entry) of
        Some n \<Rightarrow>
          if n < fromBlock \<or> n > toBlock
          then Inl (PlainError ''RPC returned an event outside the requested block range'')
          else rbind (header n) (\<lambda>h.
            require (case lg_blockHash (en_log entry) of Some b \<Rightarrow> same b (ck_hash h) | None \<Rightarrow> False)
              (PlainError ''RPC event belongs to a noncanonical block''))
      | None \<Rightarrow> Inl (PlainError ''RPC returned an event outside the requested block range''))"

definition entries_of :: "index_batch list \<Rightarrow> index_entry list" where
  "entries_of batches = concat (map ba_entries batches)"

definition readBatch ::
    "indexer_opts \<Rightarrow> index_context \<Rightarrow> index_rpc \<Rightarrow> int \<Rightarrow> int \<Rightarrow> checkpoint list
      \<Rightarrow> enclave_error + (index_batch list \<times> checkpoint list)" where
  "readBatch opts ctx rpc fromBlock toBlock previous =
     rbind (readHeader (rp_before rpc) toBlock) (\<lambda>before.
     rbind (read_logs opts rpc fromBlock toBlock) (\<lambda>batches.
     let firstHeader = max (toBlock - cx_window ctx + 1) fromBlock in
     rbind (collect (map (cached_header rpc before) [firstHeader..toBlock])) (\<lambda>headers.
     rbind (collect (map (check_entry (cached_header rpc before) fromBlock toBlock) (entries_of batches))) (\<lambda>_.
     rbind (readHeader (rp_after rpc) toBlock) (\<lambda>after.
     rbind (require (same (ck_hash after) (ck_hash before)) (PlainError ''Chain reorganized while fetching events'')) (\<lambda>_.
     rbind (checkpointTail previous headers (nat (cx_window ctx))) (\<lambda>checkpoints.
     Inr (batches, checkpoints))))))))"

section \<open>The tables of the indexer\<close>

record cursor_row =
  cu_name :: string
  cu_blockNumber :: int
  cu_blockHash :: "string option"
  cu_checkpoints :: "json option"
  cu_status :: string

record index_db =
  ix_models :: "model_row list"
  ix_events :: "event_row list"
  ix_cursors :: "cursor_row list"

definition cursor_of :: "string \<Rightarrow> index_db \<Rightarrow> cursor_row option" where
  "cursor_of scope db = select_row (\<lambda>c. cu_name c = scope) (ix_cursors db)"

definition saveCursor :: "string \<Rightarrow> int \<Rightarrow> checkpoint list \<Rightarrow> string \<Rightarrow> index_db \<Rightarrow> index_db" where
  "saveCursor name blockNumber checkpoints status db =
     (let hash = map_option ck_hash (last_opt checkpoints);
          text = serializeCheckpoints checkpoints;
          cursors = ix_cursors db in
      db\<lparr>ix_cursors :=
        (if \<exists>c \<in> set cursors. cu_name c = name
         then update_rows (\<lambda>c. cu_name c = name)
                (\<lambda>c. c\<lparr>cu_blockNumber := blockNumber, cu_blockHash := hash, cu_checkpoints := text, cu_status := status\<rparr>) cursors
         else cursors @ [\<lparr>cu_name = name, cu_blockNumber = blockNumber, cu_blockHash = hash,
                cu_checkpoints = text, cu_status = status\<rparr>])\<rparr>)"

definition set_status :: "string \<Rightarrow> string \<Rightarrow> index_db \<Rightarrow> index_db" where
  "set_status name status db =
     db\<lparr>ix_cursors := update_rows (\<lambda>c. cu_name c = name) (\<lambda>c. c\<lparr>cu_status := status\<rparr>) (ix_cursors db)\<rparr>"

definition quarantine :: "string \<Rightarrow> index_db \<Rightarrow> index_db" where
  "quarantine scope db = db\<lparr>ix_models := quarantineRegistryScope scope (ix_models db)\<rparr>"

definition rebuild_policy :: "string \<Rightarrow> index_db \<Rightarrow> enclave_error + index_db" where
  "rebuild_policy scope db =
     rmap (\<lambda>rows. db\<lparr>ix_models := rows\<rparr>) (rebuildRegistryPolicy scope (ix_events db) (ix_models db))"

definition apply_events :: "string \<Rightarrow> registry_event list \<Rightarrow> index_db \<Rightarrow> enclave_error + index_db" where
  "apply_events scope events db = rmap (\<lambda>rows. db\<lparr>ix_models := rows\<rparr>) (apply_all events scope (ix_models db))"

text \<open>A null in a \<open>NOT NULL\<close> column is refused; a repeated \<open>(scope, tx_hash, log_index)\<close> is skipped.\<close>

definition store_entry :: "string \<Rightarrow> string \<Rightarrow> index_entry \<Rightarrow> event_row list \<Rightarrow> enclave_error + event_row list" where
  "store_entry scope source entry rows =
     (let log = en_log entry in
      case (lg_transactionHash log, lg_logIndex log, lg_blockNumber log) of
        (Some tx, Some i, Some n) \<Rightarrow>
          if \<exists>r \<in> set rows. ce_scope r = scope \<and> ce_txHash r = tx \<and> ce_logIndex r = i then Inr rows
          else Inr (rows @ [\<lparr>ce_scope = scope, ce_source = source, ce_txHash = tx, ce_logIndex = i,
                 ce_blockNumber = n, ce_blockHash = lg_blockHash log, ce_payload = en_registryEvent entry\<rparr>])
      | _ \<Rightarrow> Inl (PlainError ''null value in column of relation chain_events''))"

fun store_entries :: "string \<Rightarrow> (string \<times> index_entry) list \<Rightarrow> event_row list \<Rightarrow> enclave_error + event_row list" where
  "store_entries scope [] rows = Inr rows"
| "store_entries scope ((source, entry) # rest) rows =
     rbind (store_entry scope source entry rows) (store_entries scope rest)"

definition sourced_entries :: "index_batch list \<Rightarrow> (string \<times> index_entry) list" where
  "sourced_entries batches = concat (map (\<lambda>b. map (Pair (ba_source b)) (ba_entries b)) batches)"

definition store_batches :: "string \<Rightarrow> index_batch list \<Rightarrow> index_db \<Rightarrow> enclave_error + index_db" where
  "store_batches scope batches db =
     rmap (\<lambda>rows. db\<lparr>ix_events := rows\<rparr>) (store_entries scope (sourced_entries batches) (ix_events db))"

section \<open>One tick\<close>

text \<open>
  The tick's transaction. A \<open>DeferredResult\<close> is a value next to the state that commits with it, so that
  the quarantine of a failed tick is kept; an error with no state is a transaction that rolled back.
\<close>

datatype located =
    Deferred enclave_error
  | Located int "checkpoint list" bool

definition rebuild_required :: "string \<Rightarrow> string \<Rightarrow> enclave_error" where
  "rebuild_required before after = PlainError (''INDEXER_REBUILD_REQUIRED: '' @ before @ after)"

definition load_checkpoints :: "cursor_row \<Rightarrow> enclave_error + checkpoint list" where
  "load_checkpoints saved =
     rbind (parseCheckpoints (cu_checkpoints saved)) (\<lambda>checkpoints.
     rbind (require (map_option ck_number (last_opt checkpoints) = Some (cu_blockNumber saved)
                     \<and> map_option ck_hash (last_opt checkpoints) = cu_blockHash saved)
       (PlainError ''Indexer cursor has no matching checkpoint'')) (\<lambda>_.
     Inr checkpoints))"

definition locate_saved ::
    "string \<Rightarrow> index_rpc \<Rightarrow> int \<Rightarrow> cursor_row \<Rightarrow> bool \<Rightarrow> index_db \<Rightarrow> located \<times> index_db" where
  "locate_saved scope rpc confirmed saved rebuild db =
     (case load_checkpoints saved of
        Inl _ \<Rightarrow> (Deferred (rebuild_required ''invalid checkpoint history for '' scope),
                   set_status scope ''rebuild_required'' (quarantine scope db))
      | Inr checkpoints \<Rightarrow>
          (case findCommonAncestor checkpoints confirmed (readHeader (rp_ancestors rpc)) of
             Inl err \<Rightarrow> (Deferred err, set_status scope ''catching_up'' (quarantine scope db))
           | Inr None \<Rightarrow> (Deferred (rebuild_required ''fork exceeds retained history for '' scope),
                           set_status scope ''rebuild_required'' (quarantine scope db))
           | Inr (Some ancestor) \<Rightarrow>
               if ck_number ancestor \<noteq> cu_blockNumber saved
               then let kept = filter (\<lambda>b. ck_number b \<le> ck_number ancestor) checkpoints;
                        db1 = quarantine scope db;
                        db2 = db1\<lparr>ix_events := delete_rows
                                (\<lambda>e. ce_scope e = scope \<and> ce_blockNumber e > ck_number ancestor) (ix_events db1)\<rparr>
                    in (Located (ck_number ancestor) kept True,
                        saveCursor scope (ck_number ancestor) kept ''catching_up'' db2)
               else (Located (cu_blockNumber saved) checkpoints rebuild, db)))"

definition locate_cursor :: "string \<Rightarrow> index_rpc \<Rightarrow> int \<Rightarrow> index_db \<Rightarrow> located \<times> index_db" where
  "locate_cursor scope rpc confirmed db =
     (case cursor_of scope db of
        None \<Rightarrow> (Located (-1) [] False, db)
      | Some saved \<Rightarrow>
          let rebuild = (cu_status saved = ''catching_up'') in
          if cu_status saved = ''rebuild_required''
          then (Deferred (rebuild_required ''explicitly reset '' scope), db)
          else if cu_blockNumber saved \<ge> 0 then locate_saved scope rpc confirmed saved rebuild db
          else (Located (cu_blockNumber saved) [] rebuild, db))"

definition entry_key :: "index_entry \<Rightarrow> int \<times> int" where
  "entry_key e = (or_default (lg_blockNumber (en_log e)) 0, or_default (lg_logIndex (en_log e)) 0)"

definition ordered_events :: "index_batch list \<Rightarrow> registry_event list" where
  "ordered_events batches = List.map_filter en_registryEvent (sort_key entry_key (entries_of batches))"

definition is_listed :: "registry_event \<Rightarrow> bool" where
  "is_listed e = (case e of Listed _ _ _ _ \<Rightarrow> True | _ \<Rightarrow> False)"

definition commit_batch ::
    "string \<Rightarrow> int \<Rightarrow> int \<Rightarrow> bool \<Rightarrow> index_batch list \<Rightarrow> checkpoint list \<Rightarrow> index_db \<Rightarrow> enclave_error + index_db" where
  "commit_batch scope toBlock confirmed rebuild batches checkpoints db =
     rbind (store_batches scope batches db) (\<lambda>db.
     let events = ordered_events batches;
         catchingUp = (toBlock < confirmed) in
     rbind (if catchingUp then rmap (quarantine scope) (apply_events scope (filter is_listed events) db)
            else if rebuild then rebuild_policy scope db
            else apply_events scope events db) (\<lambda>db.
     Inr (saveCursor scope toBlock checkpoints (if catchingUp then ''catching_up'' else ''active'') db)))"

definition advance ::
    "indexer_opts \<Rightarrow> index_context \<Rightarrow> index_rpc \<Rightarrow> int \<Rightarrow> int \<Rightarrow> checkpoint list \<Rightarrow> bool \<Rightarrow> index_db
      \<Rightarrow> (enclave_error + int \<times> int) \<times> index_db" where
  "advance opts ctx rpc confirmed cursor checkpoints rebuild db =
     (let fromBlock = cursor + 1 in
      if fromBlock > confirmed
      then (if rebuild \<and> cursor = confirmed
            then (case rbind (rebuild_policy (cx_scope ctx) db)
                         (\<lambda>db. Inr (saveCursor (cx_scope ctx) cursor checkpoints ''active'' db)) of
                    Inl e \<Rightarrow> (Inl e, db)
                  | Inr db' \<Rightarrow> (Inr (fromBlock, confirmed), db'))
            else (Inr (fromBlock, confirmed), db))
      else let toBlock = min (fromBlock + cx_batchSize ctx - 1) confirmed in
        (case readBatch opts ctx rpc fromBlock toBlock checkpoints of
           Inl e \<Rightarrow> (Inl e, db)
         | Inr (batches, checkpoints') \<Rightarrow>
             (case commit_batch (cx_scope ctx) toBlock confirmed rebuild batches checkpoints' db of
                Inl e \<Rightarrow> (Inl e, db)
              | Inr db' \<Rightarrow> (Inr (fromBlock, toBlock), db'))))"

definition confirmed_height :: "index_context \<Rightarrow> int \<Rightarrow> int" where
  "confirmed_height ctx latest = (if latest \<ge> cx_confirmations ctx then latest - cx_confirmations ctx else -1)"

definition index_tx ::
    "indexer_opts \<Rightarrow> index_context \<Rightarrow> index_rpc \<Rightarrow> index_db
      \<Rightarrow> enclave_error + ((enclave_error + int \<times> int) \<times> index_db)" where
  "index_tx opts ctx rpc db =
     rbind (rp_latest rpc) (\<lambda>latest.
     let confirmed = confirmed_height ctx latest in
     Inr (case locate_cursor (cx_scope ctx) rpc confirmed db of
            (Deferred e, db') \<Rightarrow> (Inl e, db')
          | (Located cursor checkpoints rebuild, db') \<Rightarrow>
              advance opts ctx rpc confirmed cursor checkpoints rebuild db'))"

definition indexChainOnce ::
    "(string option list \<Rightarrow> string) \<Rightarrow> hash_fun \<Rightarrow> indexer_opts \<Rightarrow> index_rpc \<Rightarrow> index_db
      \<Rightarrow> (enclave_error + (int \<times> int) option) \<times> index_db" where
  "indexChainOnce encode keccak opts rpc db =
     (if \<not> (isConfiguredAddress (io_verifier opts) \<or> isConfiguredAddress (io_meter opts)
             \<or> isConfiguredAddress (io_feeVault opts) \<or> isConfiguredAddress (io_registry opts))
      then (Inr None, db)
      else case index_context_of encode keccak opts rpc of
        Inl e \<Rightarrow> (Inl e, db)
      | Inr ctx \<Rightarrow>
          (case index_tx opts ctx rpc db of
             Inl e \<Rightarrow> (Inl e, db)
           | Inr (outcome, db') \<Rightarrow> (rmap Some outcome, db')))"

definition reset_tx :: "string \<Rightarrow> index_db \<Rightarrow> index_db" where
  "reset_tx scope db =
     saveCursor scope (-1) [] ''catching_up''
       ((quarantine scope db)\<lparr>ix_events := delete_rows (\<lambda>e. ce_scope e = scope) (ix_events db)\<rparr>)"

definition resetChainIndexer ::
    "(string option list \<Rightarrow> string) \<Rightarrow> hash_fun \<Rightarrow> indexer_opts \<Rightarrow> index_rpc \<Rightarrow> index_db
      \<Rightarrow> enclave_error + (string \<times> index_db)" where
  "resetChainIndexer encode keccak opts rpc db =
     rmap (\<lambda>ctx. (cx_scope ctx, reset_tx (cx_scope ctx) db)) (index_context_of encode keccak opts rpc)"

end
