(* ===== verification/Gateway_Reads.thy ===== *)
theory Gateway_Reads
  imports Gateway_Agents Chain_Calls Worker_Indexer "HOL-Library.List_Lexorder" "HOL-Library.Char_ord"
begin

text \<open>
  What the gateway shows: the owner's workspace and its pages, the public model registry and its scope
  (\<open>api/src/model-registry-scope.ts\<close>), the count of anchored receipts, solvency, chain events and the current quote
  (\<open>api/src/gateway.ts\<close>).

  A listed row carries its id and its creation time in microseconds, by which the listings are ordered.
\<close>

section \<open>Listings by cursor\<close>

record 'a dated =
  dt_id :: string
  dt_createdAt :: int
  dt_row :: 'a

definition cursor_key :: "'a dated \<Rightarrow> int \<times> string" where
  "cursor_key r = (dt_createdAt r, dt_id r)"

text \<open>The pivot of a cursor is looked up among the owner's rows; without it the comparison is null and nothing is listed.\<close>

definition before_cursor :: "('a dated \<Rightarrow> bool) \<Rightarrow> 'a dated list \<Rightarrow> string option \<Rightarrow> 'a dated \<Rightarrow> bool" where
  "before_cursor own rows cursor r =
     (case cursor of
        None \<Rightarrow> True
      | Some c \<Rightarrow> (case select_row (\<lambda>p. dt_id p = lower c \<and> own p) rows of Some p \<Rightarrow> cursor_key r < cursor_key p | None \<Rightarrow> False))"

definition newest :: "'a dated list \<Rightarrow> 'a dated list" where
  "newest rows = rev (sort_key cursor_key rows)"

definition own_page :: "('a dated \<Rightarrow> bool) \<Rightarrow> string option \<Rightarrow> nat \<Rightarrow> 'a dated list \<Rightarrow> 'a dated list" where
  "own_page own cursor maximum rows = take (Suc maximum) (newest (filter (\<lambda>r. own r \<and> before_cursor own rows cursor r) rows))"

definition next_cursor :: "nat \<Rightarrow> 'a dated list \<Rightarrow> string option" where
  "next_cursor maximum page = (if maximum < length page then Some (dt_id (page ! (maximum - 1))) else None)"

text \<open>\<open>z.string().uuid()\<close>.\<close>

definition is_uuid :: "string \<Rightarrow> bool" where
  "is_uuid s \<longleftrightarrow> length s = 36 \<and> list_all (\<lambda>i. if i \<in> {8, 13, 18, 23} then s ! i = CHR ''-'' else is_hex_digit (s ! i)) [0..<36]"

section \<open>The workspace\<close>

record workspace_query =
  wq_limit :: "js_number option"
  wq_receiptsBefore :: "string option"
  wq_paymentsBefore :: "string option"
  wq_agentsBefore :: "string option"

definition workspaceQuery :: "workspace_query \<Rightarrow> enclave_error + nat" where
  "workspaceQuery q =
     (let n = (case wq_limit q of Some n \<Rightarrow> n | None \<Rightarrow> JInt 50);
          uuid = (\<lambda>c. case c of Some s \<Rightarrow> is_uuid s | None \<Rightarrow> True)
      in if (case n of JInt i \<Rightarrow> 1 \<le> i \<and> i \<le> 100 | JOther _ \<Rightarrow> False)
            \<and> uuid (wq_receiptsBefore q) \<and> uuid (wq_paymentsBefore q) \<and> uuid (wq_agentsBefore q)
         then Inr (nat (int_of n)) else Inl (ValidationError ''pagination''))"

record workspace_db =
  wd_usage :: "usage_row list"
  wd_receipts :: "saved_receipt dated list"
  wd_payments :: "payment_row dated list"
  wd_agents :: "agent_row dated list"
  wd_mandates :: "(mandate_row \<times> string) list"

text \<open>What is shown of an agent; the allowed models are absent when the stored policy does not have their form.\<close>

record agent_item =
  gi_id :: string
  gi_name :: string
  gi_policyHash :: string
  gi_memoryHash :: string
  gi_createdAt :: int
  gi_dailyLimitUnits :: "int option"
  gi_spentTodayUnits :: "int option"
  gi_lane :: "string option"
  gi_allowedModels :: "string list option"

definition shown_models :: "agent_policy \<Rightarrow> string list option" where
  "shown_models p = (if list_all isHex32 (ap_allowedModels p) \<and> length (ap_allowedModels p) \<le> 1000 then Some (ap_allowedModels p) else None)"

definition agent_item_of :: "string \<Rightarrow> workspace_db \<Rightarrow> agent_row dated \<Rightarrow> agent_item" where
  "agent_item_of day db r =
     (let m = select_row (\<lambda>(m, _). mn_agent m = dt_id r) (wd_mandates db); s = map_option (\<lambda>(m, _). mn_snapshot m) m in
      \<lparr>gi_id = dt_id r, gi_name = ag_name (dt_row r), gi_policyHash = ag_policyHash (dt_row r), gi_memoryHash = ag_memoryHash (dt_row r),
       gi_createdAt = dt_createdAt r, gi_dailyLimitUnits = map_option dailyLimitUnits s,
       gi_spentTodayUnits = map_option (\<lambda>s. if dayKey s = day then spentTodayUnits s else 0) s, gi_lane = map_option snd m,
       gi_allowedModels = shown_models (ag_policy (dt_row r))\<rparr>)"

record receipt_item =
  ri_id :: string
  ri_receipt :: signed_receipt
  ri_chainId :: int
  ri_verifierAddress :: string
  ri_typedHash :: string
  ri_status :: string
  ri_agentId :: "string option"
  ri_createdAt :: int

definition receipt_item_of :: "saved_receipt dated \<Rightarrow> receipt_item" where
  "receipt_item_of r = (let s = dt_row r in
     \<lparr>ri_id = dt_id r, ri_receipt = sv_signed s, ri_chainId = sv_chainId s, ri_verifierAddress = sv_verifierAddress s, ri_typedHash = sv_typedHash s,
      ri_status = sv_status s, ri_agentId = sv_agentId s, ri_createdAt = dt_createdAt r\<rparr>)"

record payment_item =
  pi_id :: string
  pi_amountUnits :: int
  pi_status :: string
  pi_settleTx :: "string option"
  pi_receiptHash :: "string option"
  pi_agentId :: "string option"
  pi_listingId :: "int option"
  pi_confidential :: bool
  pi_createdAt :: int

definition payment_item_of :: "payment_row dated \<Rightarrow> payment_item" where
  "payment_item_of r = (let p = dt_row r in
     \<lparr>pi_id = dt_id r, pi_amountUnits = py_amountUnits p, pi_status = py_status p, pi_settleTx = py_settleTx p, pi_receiptHash = py_receiptHash p,
      pi_agentId = py_agentId p, pi_listingId = py_listingId p, pi_confidential = py_confidential p, pi_createdAt = dt_createdAt r\<rparr>)"

record workspace_view =
  wv_calls :: int
  wv_usdcUnits :: int
  wv_receipts :: "receipt_item list"
  wv_payments :: "payment_item list"
  wv_agents :: "agent_item list"
  wv_limit :: nat
  wv_receiptsNext :: "string option"
  wv_paymentsNext :: "string option"
  wv_agentsNext :: "string option"

definition owns_receipt :: "string \<Rightarrow> saved_receipt dated \<Rightarrow> bool" where
  "owns_receipt keyHash r \<longleftrightarrow> sv_keyHash (dt_row r) = Some keyHash"

definition owns_payment :: "string \<Rightarrow> payment_row dated \<Rightarrow> bool" where
  "owns_payment keyHash r \<longleftrightarrow> py_keyHash (dt_row r) = keyHash"

definition owns_agent :: "string \<Rightarrow> agent_row dated \<Rightarrow> bool" where
  "owns_agent keyHash r \<longleftrightarrow> ag_ownerKeyHash (dt_row r) = keyHash"

text \<open>One repeatable read transaction. \<open>key\<close> is the result of \<open>requireKey\<close>.\<close>

definition workspace :: "enclave_error + string \<Rightarrow> workspace_query \<Rightarrow> string \<Rightarrow> workspace_db \<Rightarrow> enclave_error + workspace_view" where
  "workspace key query day db =
     rbind key (\<lambda>keyHash. rbind (workspaceQuery query) (\<lambda>maximum.
     let totals = select_row (\<lambda>u. us_keyHash u = keyHash) (wd_usage db);
         receiptRows = own_page (owns_receipt keyHash) (wq_receiptsBefore query) maximum (wd_receipts db);
         paymentRows = own_page (owns_payment keyHash) (wq_paymentsBefore query) maximum (wd_payments db);
         agentRows = own_page (owns_agent keyHash) (wq_agentsBefore query) maximum (wd_agents db)
     in Inr \<lparr>wv_calls = (case totals of Some u \<Rightarrow> us_calls u | None \<Rightarrow> 0), wv_usdcUnits = (case totals of Some u \<Rightarrow> us_usdcUnits u | None \<Rightarrow> 0),
          wv_receipts = map receipt_item_of (take maximum receiptRows), wv_payments = map payment_item_of (take maximum paymentRows),
          wv_agents = map (agent_item_of day db) (take maximum agentRows), wv_limit = maximum,
          wv_receiptsNext = next_cursor maximum receiptRows, wv_paymentsNext = next_cursor maximum paymentRows, wv_agentsNext = next_cursor maximum agentRows\<rparr>))"

section \<open>The public registry\<close>

definition modelRegistryScope :: "(string option list \<Rightarrow> string) \<Rightarrow> chain_config \<Rightarrow> string \<Rightarrow> string option \<Rightarrow> string chain_io" where
  "modelRegistryScope encode config verifier deploymentId =
     io_bind (io_read rv_chainId) (\<lambda>chainId.
     io_bind (io_require (chainId = kf_chainId config) (ConflictError ''Registry RPC chain mismatch'')) (\<lambda>_.
     io_bind (io_read (\<lambda>v. rv_block v 0)) (\<lambda>genesis.
     io_bind (io_lift (of_option (ConflictError ''Registry canonical genesis is unavailable'')
         (if bl_number genesis = 0 then (case bl_hash genesis of Some h \<Rightarrow> if isHex32 h then Some h else None | None \<Rightarrow> None) else None))) (\<lambda>hash.
     io_return (indexerScope encode (kf_keccak config)
       \<lparr>sc_chainId = nat (kf_chainId config), sc_genesisHash = hash, sc_deploymentId = truthy_text deploymentId, sc_verifier = Some verifier,
        sc_meter = Some (kf_meter config), sc_feeVault = Some (kf_feeVault config), sc_registry = Some (kf_registry config)\<rparr>)))))"

definition publicModelRegistry :: "string \<Rightarrow> model_row dated list \<Rightarrow> model_row dated list" where
  "publicModelRegistry scope rows = rev (sort_key dt_createdAt (rev (filter (\<lambda>r. mo_chainScope (dt_row r) = Some scope) rows)))"

record anchored_row =
  nc_chainId :: int
  nc_status :: string
  nc_verifierAddress :: string
  nc_anchoredTx :: "string option"

definition arcReceiptCount :: "string \<Rightarrow> anchored_row list \<Rightarrow> nat" where
  "arcReceiptCount verifier rows = length (filter (\<lambda>r. nc_chainId r = 5042 \<and> nc_status r = ''anchored''
     \<and> lower (nc_verifierAddress r) = lower verifier \<and> (case nc_anchoredTx r of Some t \<Rightarrow> isHex32 t | None \<Rightarrow> False)) rows)"

definition solvency :: "cvm_env \<Rightarrow> dev_cvm \<Rightarrow> string \<Rightarrow> nat \<Rightarrow> string \<times> nat \<times> bool \<times> string" where
  "solvency env d asset listed = (asset, listed, keysReleased d, enclaveAddress env d)"

record chain_event_row =
  ce_blockNumber :: int
  ce_logIndex :: int
  ce_name :: string

definition listChainEvents :: "nat \<Rightarrow> chain_event_row list \<Rightarrow> chain_event_row list" where
  "listChainEvents maximum rows = take maximum (rev (sort_key (\<lambda>r. (ce_blockNumber r, ce_logIndex r)) rows))"

text \<open>The current quote: only while the synchronised policy is still the active one.\<close>

definition current_quote :: "cvm_env \<Rightarrow> service_env \<Rightarrow> enclave_error + (dev_cvm \<times> tcb_state) \<Rightarrow> js_number \<Rightarrow> service_db \<Rightarrow> enclave_error + attestation_quote" where
  "current_quote env senv synced now db =
     rbind synced (\<lambda>(d, state). rbind (current_tcb senv (tr_policyHash (st_record state)) db) (\<lambda>_. cvm_quote env d now))"

definition session_wrap_key ::
    "cvm_env \<Rightarrow> service_env \<Rightarrow> service_world \<Rightarrow> enclave_error + (dev_cvm \<times> tcb_state) \<Rightarrow> string \<Rightarrow> (service_db \<Rightarrow> service_db) \<Rightarrow> service_db \<Rightarrow> enclave_error + bytes" where
  "session_wrap_key env senv w synced sessionId elsewhere db =
     rbind (sw_key w) (\<lambda>keyHash. rbind synced (\<lambda>(d, state).
     rbind (session_of env senv w d sessionId keyHash db) (\<lambda>(session, released).
     rbind (current_tcb senv (tr_policyHash (st_record state)) (elsewhere db)) (\<lambda>_. sessionSecret env (ss_id session) released))))"

section \<open>Following the cursors\<close>

text \<open>A client that asks for the next page until there is none, at most \<open>fuel\<close> times more.\<close>

fun follow_pages :: "nat \<Rightarrow> (string option \<Rightarrow> 'a list \<times> string option) \<Rightarrow> string option \<Rightarrow> 'a list" where
  "follow_pages fuel page cursor =
     (case page cursor of (rows, following) \<Rightarrow> rows @ (case (following, fuel) of (Some c, Suc n) \<Rightarrow> follow_pages n page (Some c) | _ \<Rightarrow> []))"

declare follow_pages.simps [simp del]

definition listed_ok :: "'a dated list \<Rightarrow> bool" where
  "listed_ok rows \<longleftrightarrow> distinct (map dt_id rows) \<and> (\<forall>r \<in> set rows. is_uuid (dt_id r) \<and> lower (dt_id r) = dt_id r)"

lemma filter_below:
  fixes f :: "'a \<Rightarrow> 'k::linorder"
  assumes "sorted_wrt (\<lambda>a b. f b < f a) S" and "i < length S"
  shows "filter (\<lambda>r. f r < f (S ! i)) S = drop (Suc i) S"
  using assms
proof (induction S arbitrary: i)
  case (Cons x xs)
  show ?case
  proof (cases i)
    case 0
    with Cons.prems(1) show ?thesis by (simp add: filter_id_conv)
  next
    case (Suc j)
    with Cons.prems have "f (xs ! j) < f x" by simp
    then have "\<not> f x < f (xs ! j)" by (rule less_not_sym)
    with Suc Cons show ?thesis by simp
  qed
qed simp

lemma newest_decreasing:
  assumes "distinct (map dt_id rows)"
  shows "sorted_wrt (\<lambda>a b. cursor_key b < cursor_key a) (newest rows)"
proof -
  have "inj_on cursor_key (set rows)" using assms by (auto simp: inj_on_def cursor_key_def distinct_map)
  moreover have "distinct rows" using assms by (simp add: distinct_map)
  ultimately have d: "distinct (map cursor_key (sort_key cursor_key rows))" by (simp add: distinct_map)
  have "sorted_wrt (<) (map cursor_key (sort_key cursor_key rows))" unfolding strict_sorted_iff using d by (intro conjI sorted_sort_key)
  then show ?thesis by (simp add: newest_def sorted_wrt_rev sorted_wrt_map)
qed

lemma select_by_id:
  assumes "distinct (map dt_id rows)" and "r \<in> set rows" and "own r"
  shows "select_row (\<lambda>p. dt_id p = dt_id r \<and> own p) rows = Some r"
proof (cases "select_row (\<lambda>p. dt_id p = dt_id r \<and> own p) rows")
  case None
  with assms show ?thesis by (auto simp: select_row_None)
next
  case (Some p)
  from select_row_Some [OF this] have "dt_id p = dt_id r" "p \<in> set rows" by simp_all
  with assms(1,2) have "p = r" by (auto simp: distinct_map inj_on_def)
  with Some show ?thesis by simp
qed

text \<open>The cursor after the first \<open>i\<close> rows selects the page that starts there.\<close>

definition cursor_at :: "'a dated list \<Rightarrow> nat \<Rightarrow> string option" where
  "cursor_at S i = (if i = 0 then None else Some (dt_id (S ! (i - 1))))"

lemma page_at:
  assumes "listed_ok rows" and "S = newest (filter own rows)" and "i \<le> length S"
  shows "own_page own (cursor_at S i) n rows = take (Suc n) (drop i S)"
proof (cases i)
  case 0
  then show ?thesis by (simp add: own_page_def cursor_at_def before_cursor_def assms(2))
next
  case (Suc j)
  let ?r = "S ! j"
  from assms(3) Suc have j: "j < length S" by simp
  then have "?r \<in> set S" by simp
  then have r: "?r \<in> set rows" "own ?r" by (simp_all add: assms(2) newest_def)
  have d: "distinct (map dt_id rows)" "lower (dt_id ?r) = dt_id ?r" using assms(1) r(1) by (simp_all add: listed_ok_def)
  have "before_cursor own rows (cursor_at S i) q \<longleftrightarrow> cursor_key q < cursor_key ?r" for q
    by (simp add: before_cursor_def cursor_at_def Suc d(2) select_by_id [where own = own, OF d(1) r])
  then have "own_page own (cursor_at S i) n rows = take (Suc n) (newest (filter (\<lambda>q. cursor_key q < cursor_key ?r) (filter own rows)))"
    by (simp add: own_page_def conj_commute)
  also have "newest (filter (\<lambda>q. cursor_key q < cursor_key ?r) (filter own rows)) = filter (\<lambda>q. cursor_key q < cursor_key ?r) S"
    by (simp add: newest_def assms(2) rev_filter flip: filter_sort)
  also have "\<dots> = drop (Suc j) S"
  proof (rule filter_below [OF _ j])
    have "distinct (map dt_id (filter own rows))" using d(1) by (simp add: distinct_map_filter)
    then show "sorted_wrt (\<lambda>a b. cursor_key b < cursor_key a) S" unfolding assms(2) by (rule newest_decreasing)
  qed
  finally show ?thesis by (simp add: Suc)
qed

lemma follow_own_pages:
  assumes "listed_ok rows" and "S = newest (filter own rows)" and "1 \<le> n"
    and "\<And>i. i \<le> length S \<Longrightarrow> page (cursor_at S i)
      = (map g (take n (own_page own (cursor_at S i) n rows)), next_cursor n (own_page own (cursor_at S i) n rows))"
  shows "i \<le> length S \<Longrightarrow> length S \<le> i + fuel \<Longrightarrow> follow_pages fuel page (cursor_at S i) = map g (drop i S)"
proof (induction fuel arbitrary: i)
  case 0
  then have "drop i S = []" by simp
  then show ?case by (subst follow_pages.simps) (simp add: assms(4) [OF 0(1)] page_at [OF assms(1,2) 0(1)] next_cursor_def)
next
  case (Suc fuel)
  note here = page_at [OF assms(1,2) Suc.prems(1), of n]
  show ?case
  proof (cases "i + n < length S")
    case False
    then have "next_cursor n (take (Suc n) (drop i S)) = None" "take n (drop i S) = drop i S" by (simp_all add: next_cursor_def)
    then show ?thesis by (subst follow_pages.simps) (simp add: assms(4) [OF Suc.prems(1)] here min_def)
  next
    case True
    have "take (Suc n) (drop i S) ! (n - 1) = S ! (i + n - 1)" using True assms(3) by (simp add: nth_append)
    then have "next_cursor n (take (Suc n) (drop i S)) = cursor_at S (i + n)"
      using True assms(3) by (simp add: next_cursor_def cursor_at_def)
    moreover obtain c where c: "cursor_at S (i + n) = Some c" using assms(3) by (simp add: cursor_at_def)
    ultimately have nxt: "next_cursor n (take (Suc n) (drop i S)) = Some c" by simp
    have "follow_pages fuel page (cursor_at S (i + n)) = map g (drop (i + n) S)"
      using True Suc.prems(2) assms(3) by (intro Suc.IH) auto
    moreover have "take n (drop i S) @ drop (i + n) S = drop i S" by (metis add.commute append_take_drop_id drop_drop)
    ultimately have "map g (take n (drop i S)) @ follow_pages fuel page (cursor_at S (i + n)) = map g (drop i S)"
      by (metis map_append)
    with c nxt show ?thesis by (subst follow_pages.simps) (simp add: assms(4) [OF Suc.prems(1)] here min_def)
  qed
qed

definition receipts_page :: "enclave_error + workspace_view \<Rightarrow> receipt_item list \<times> string option" where
  "receipts_page m = (case m of Inr v \<Rightarrow> (wv_receipts v, wv_receiptsNext v) | Inl _ \<Rightarrow> ([], None))"

definition payments_page :: "enclave_error + workspace_view \<Rightarrow> payment_item list \<times> string option" where
  "payments_page m = (case m of Inr v \<Rightarrow> (wv_payments v, wv_paymentsNext v) | Inl _ \<Rightarrow> ([], None))"

definition agents_page :: "enclave_error + workspace_view \<Rightarrow> agent_item list \<times> string option" where
  "agents_page m = (case m of Inr v \<Rightarrow> (wv_agents v, wv_agentsNext v) | Inl _ \<Rightarrow> ([], None))"

lemma cursor_uuid:
  assumes "listed_ok rows" and "S = newest (filter own rows)" and "i \<le> length S"
  shows "case cursor_at S i of Some c \<Rightarrow> is_uuid c | None \<Rightarrow> True"
proof (cases i)
  case (Suc j)
  with assms(3) have "S ! j \<in> set S" by simp
  then have "S ! j \<in> set rows" by (simp add: assms(2) newest_def)
  with assms(1) show ?thesis by (simp add: cursor_at_def Suc listed_ok_def)
qed (simp add: cursor_at_def)

definition page_query :: "nat \<Rightarrow> workspace_query" where
  "page_query n = \<lparr>wq_limit = Some (JInt (int n)), wq_receiptsBefore = None, wq_paymentsBefore = None, wq_agentsBefore = None\<rparr>"

text \<open>
  Claim C33. The pages of a workspace are complete: a client that follows the cursors of its receipts, its payments or its
  agents sees each of its own rows exactly once, newest first, and no row of anybody else.
\<close>

theorem workspace_pages_complete:
  assumes "listed_ok (wd_receipts db)" and "listed_ok (wd_payments db)" and "listed_ok (wd_agents db)"
    and "1 \<le> n" and "n \<le> 100"
    and "length (wd_receipts db) \<le> fuel" and "length (wd_payments db) \<le> fuel" and "length (wd_agents db) \<le> fuel"
  shows "follow_pages fuel (\<lambda>c. receipts_page (workspace (Inr keyHash) ((page_query n)\<lparr>wq_receiptsBefore := c\<rparr>) day db)) None
      = map receipt_item_of (newest (filter (owns_receipt keyHash) (wd_receipts db)))
    \<and> follow_pages fuel (\<lambda>c. payments_page (workspace (Inr keyHash) ((page_query n)\<lparr>wq_paymentsBefore := c\<rparr>) day db)) None
      = map payment_item_of (newest (filter (owns_payment keyHash) (wd_payments db)))
    \<and> follow_pages fuel (\<lambda>c. agents_page (workspace (Inr keyHash) ((page_query n)\<lparr>wq_agentsBefore := c\<rparr>) day db)) None
      = map (agent_item_of day db) (newest (filter (owns_agent keyHash) (wd_agents db)))"
proof -
  have start: "follow_pages fuel page None = map g S" if "follow_pages fuel page (cursor_at S 0) = map g (drop 0 S)" for page g and S :: "'a dated list"
    using that by (simp add: cursor_at_def)
  have len: "length (newest (filter own rows)) \<le> fuel" if "length rows \<le> fuel" for own and rows :: "'b dated list"
    using le_trans [OF length_filter_le that] by (simp add: newest_def)
  have q: "wq_limit (page_query n) = Some (JInt (int n))" "wq_receiptsBefore (page_query n) = None" "wq_paymentsBefore (page_query n) = None"
    "wq_agentsBefore (page_query n) = None" by (simp_all add: page_query_def)
  have r: "follow_pages fuel (\<lambda>c. receipts_page (workspace (Inr keyHash) ((page_query n)\<lparr>wq_receiptsBefore := c\<rparr>) day db)) (cursor_at S 0)
      = map receipt_item_of (drop 0 S)" if S: "S = newest (filter (owns_receipt keyHash) (wd_receipts db))" for S
  proof (rule follow_own_pages [OF assms(1) S assms(4)])
    show "receipts_page (workspace (Inr keyHash) ((page_query n)\<lparr>wq_receiptsBefore := cursor_at S i\<rparr>) day db)
      = (map receipt_item_of (take n (own_page (owns_receipt keyHash) (cursor_at S i) n (wd_receipts db))), next_cursor n (own_page (owns_receipt keyHash) (cursor_at S i) n (wd_receipts db)))"
      if "i \<le> length S" for i
      using cursor_uuid [OF assms(1) S that] assms(4,5) by (simp add: workspace_def workspaceQuery_def q Let_def receipts_page_def)
  qed (use len [OF assms(6)] S in simp_all)
  have p: "follow_pages fuel (\<lambda>c. payments_page (workspace (Inr keyHash) ((page_query n)\<lparr>wq_paymentsBefore := c\<rparr>) day db)) (cursor_at S 0)
      = map payment_item_of (drop 0 S)" if S: "S = newest (filter (owns_payment keyHash) (wd_payments db))" for S
  proof (rule follow_own_pages [OF assms(2) S assms(4)])
    show "payments_page (workspace (Inr keyHash) ((page_query n)\<lparr>wq_paymentsBefore := cursor_at S i\<rparr>) day db)
      = (map payment_item_of (take n (own_page (owns_payment keyHash) (cursor_at S i) n (wd_payments db))), next_cursor n (own_page (owns_payment keyHash) (cursor_at S i) n (wd_payments db)))"
      if "i \<le> length S" for i
      using cursor_uuid [OF assms(2) S that] assms(4,5) by (simp add: workspace_def workspaceQuery_def q Let_def payments_page_def)
  qed (use len [OF assms(7)] S in simp_all)
  have a: "follow_pages fuel (\<lambda>c. agents_page (workspace (Inr keyHash) ((page_query n)\<lparr>wq_agentsBefore := c\<rparr>) day db)) (cursor_at S 0)
      = map (agent_item_of day db) (drop 0 S)" if S: "S = newest (filter (owns_agent keyHash) (wd_agents db))" for S
  proof (rule follow_own_pages [OF assms(3) S assms(4)])
    show "agents_page (workspace (Inr keyHash) ((page_query n)\<lparr>wq_agentsBefore := cursor_at S i\<rparr>) day db)
      = (map (agent_item_of day db) (take n (own_page (owns_agent keyHash) (cursor_at S i) n (wd_agents db))), next_cursor n (own_page (owns_agent keyHash) (cursor_at S i) n (wd_agents db)))"
      if "i \<le> length S" for i
      using cursor_uuid [OF assms(3) S that] assms(4,5) by (simp add: workspace_def workspaceQuery_def q Let_def agents_page_def)
  qed (use len [OF assms(8)] S in simp_all)
  from start [OF r [OF refl]] start [OF p [OF refl]] start [OF a [OF refl]] show ?thesis by simp
qed

definition demo_dated :: "char \<Rightarrow> int \<Rightarrow> string \<Rightarrow> saved_receipt dated" where
  "demo_dated c at keyHash = \<lparr>dt_id = ''00000000-0000-0000-0000-00000000000'' @ [c], dt_createdAt = at, dt_row = demo_saved ''x'' keyHash\<rparr>"

definition demo_listed :: workspace_db where
  "demo_listed = \<lparr>wd_usage = [], wd_receipts = [demo_dated CHR ''1'' 5 ''k'', demo_dated CHR ''2'' 7 ''k'', demo_dated CHR ''3'' 6 ''other'', demo_dated CHR ''4'' 5 ''k''],
     wd_payments = [], wd_agents = [], wd_mandates = []\<rparr>"

lemma demo_listed_ok: "listed_ok (wd_receipts demo_listed)" "listed_ok (wd_payments demo_listed)" "listed_ok (wd_agents demo_listed)"
  by code_simp+

theorem workspace_pages_complete_witness:
  "follow_pages 4 (\<lambda>c. receipts_page (workspace (Inr ''k'') ((page_query 1)\<lparr>wq_receiptsBefore := c\<rparr>) ''day'' demo_listed)) None
     = map receipt_item_of [demo_dated CHR ''2'' 7 ''k'', demo_dated CHR ''4'' 5 ''k'', demo_dated CHR ''1'' 5 ''k'']"
proof -
  have s: "newest (filter (owns_receipt ''k'') (wd_receipts demo_listed)) = [demo_dated CHR ''2'' 7 ''k'', demo_dated CHR ''4'' 5 ''k'', demo_dated CHR ''1'' 5 ''k'']"
    by code_simp
  have l: "length (wd_receipts demo_listed) \<le> 4" "length (wd_payments demo_listed) \<le> 4" "length (wd_agents demo_listed) \<le> 4" by (simp_all add: demo_listed_def)
  from workspace_pages_complete [OF demo_listed_ok _ _ l, of 1 "''k''" "''day''"] show ?thesis by (simp add: s)
qed

end
