(* ===== verification/Near_Provider.thy ===== *)
theory Near_Provider
  imports Near_Inference
begin

text \<open>
  The attestation client of the NEAR provider, \<open>apps/api/src/near-provider.ts\<close>: it reads the provider's report over a
  connection, has the hardware verifier judge it, and hands out a session that is pinned to the peer of that connection.
  Its sessions are what \<open>Near_Inference\<close> takes as an argument.

  What the network, the child process, the clock and the abort signal do is an argument (\<open>wire\<close>, \<open>child_run\<close>,
  \<open>attempt_world\<close>). Node's certificate check, the X.509 parser and its text decoders are fields of \<open>provider_host\<close>.
\<close>

section \<open>Options\<close>

record nvidia_env =
  nv_mode :: "string option"
  nv_binary :: "string option"
  nv_library :: "string option"

record nvidia_local =
  nl_binary :: string
  nl_library :: string

definition nonempty_text :: "string option \<Rightarrow> string option" where
  "nonempty_text x = (case x of Some s \<Rightarrow> if s = [] then None else Some s | None \<Rightarrow> None)"

text \<open>\<open>isAbsolute\<close> on POSIX.\<close>

definition isAbsolute :: "string \<Rightarrow> bool" where
  "isAbsolute p \<longleftrightarrow> starts_with p ''/''"

definition nvidiaVerifierOptions :: "nvidia_env \<Rightarrow> enclave_error + nvidia_local option" where
  "nvidiaVerifierOptions env =
     (let mode = (case nv_mode env of Some m \<Rightarrow> m | None \<Rightarrow> ''nras'') in
      if mode = ''nras''
      then (if nonempty_text (nv_binary env) \<noteq> None \<or> nonempty_text (nv_library env) \<noteq> None
            then Inl (PlainError ''Local NVIDIA artifacts require explicit local verification mode'') else Inr None)
      else (case (nonempty_text (nv_binary env), nonempty_text (nv_library env)) of
          (Some b, Some l) \<Rightarrow>
            if mode \<noteq> ''local'' \<or> b = l
               \<or> list_ex (\<lambda>p. \<not> isAbsolute p \<or> list_ex (\<lambda>c. code_of c = 0 \<or> line_break c) p) [b, l]
               \<or> list_ex (\<lambda>c. c = CHR '':'' \<or> c = CHR ''$'') l
            then Inl (PlainError ''Local NVIDIA verification requires absolute binary and library paths'')
            else Inr (Some \<lparr>nl_binary = b, nl_library = l\<rparr>)
        | _ \<Rightarrow> Inl (PlainError ''Local NVIDIA verification requires absolute binary and library paths'')))"

record provider_options =
  po_pythonPath :: string
  po_policyPath :: string
  po_policySha256 :: "string option"
  po_verifierPath :: "string option"
  po_apiKey :: "string option"
  po_nvidiaLocal :: "nvidia_local option"
  po_maxAttempts :: "js_number option"

text \<open>The checks of \<open>createNearAttestationVerifier\<close>; the value is the configured number of attempts.\<close>

definition createNearAttestationVerifier :: "provider_options \<Rightarrow> enclave_error + nat" where
  "createNearAttestationVerifier options =
     rbind (require (po_pythonPath options \<noteq> [] \<and> po_policyPath options \<noteq> []) (PlainError ''NEAR verifier runtime and versioned policy are required'')) (\<lambda>_.
     rbind (require (case po_policySha256 options of Some h \<Rightarrow> hex_string 64 h \<and> list_all is_lower_hex_digit (drop 2 h) | None \<Rightarrow> True)
       (PlainError ''NEAR policy fingerprint must be lowercase bytes32'')) (\<lambda>_.
     let n = (case po_maxAttempts options of Some n \<Rightarrow> n | None \<Rightarrow> JInt 1) in
     rbind (require (is_safe_integer n \<and> 1 \<le> int_of n \<and> int_of n \<le> 3) (PlainError ''NEAR direct admission attempts must be an integer from 1 to 3'')) (\<lambda>_.
     rbind (require (int_of n \<le> 1 \<or> po_policySha256 options \<noteq> None) (PlainError ''NEAR direct admission retries require a pinned policy fingerprint'')) (\<lambda>_.
     Inr (nat (int_of n))))))"

section \<open>Failures\<close>

definition unavailable :: "string \<Rightarrow> string \<Rightarrow> near_throw" where
  "unavailable stage reason = createNearAttestationError \<lparr>af_stage = stage, af_reason = reason, af_verifierError = None\<rparr>"

definition rejected :: "string \<Rightarrow> near_throw" where
  "rejected code = createNearAttestationError \<lparr>af_stage = ''verifier'', af_reason = ''rejected'', af_verifierError = Some code\<rparr>"

definition tlsErrorCodes :: "string list" where
  "tlsErrorCodes = [''ERR_TLS_CERT_ALTNAME_INVALID'', ''CERT_HAS_EXPIRED'', ''CERT_NOT_YET_VALID'', ''DEPTH_ZERO_SELF_SIGNED_CERT'',
     ''SELF_SIGNED_CERT_IN_CHAIN'', ''UNABLE_TO_VERIFY_LEAF_SIGNATURE'', ''UNABLE_TO_GET_ISSUER_CERT_LOCALLY'', ''CERT_REVOKED'',
     ''ERR_TLS_CERT_SIGNATURE_ALGORITHM_UNSUPPORTED'']"

text \<open>An error on its way: one of the factory's, or another with the code it may carry.\<close>

datatype wire_error = NearFault near_throw | CodeFault "string option"

definition fault_of :: "near_throw \<Rightarrow> wire_error" where
  "fault_of t = (if isNearAttestationError t then NearFault t else CodeFault None)"

definition transportFailure :: "wire_error \<Rightarrow> bool \<Rightarrow> near_throw" where
  "transportFailure e aborted =
     (if aborted then unavailable ''transport'' ''aborted''
      else case e of
          NearFault t \<Rightarrow> t
        | CodeFault code \<Rightarrow> unavailable ''transport'' (case code of Some c \<Rightarrow> if c \<in> set tlsErrorCodes then ''tls'' else ''request'' | None \<Rightarrow> ''request''))"

record provider_host = near_host +
  pv_identity :: "string \<Rightarrow> bytes \<Rightarrow> string option option"
  pv_spki :: "bytes \<Rightarrow> bytes option"
  pv_text :: "bytes \<Rightarrow> string"
  pv_utf8 :: "bytes \<Rightarrow> string"
  pv_datetime :: "string \<Rightarrow> bool"

definition fixedVerifierError :: "provider_host \<Rightarrow> bytes \<Rightarrow> string option" where
  "fixedVerifierError host output =
     (case nh_parse host (pv_utf8 host output) of
        Some v \<Rightarrow> (case (json_field ''ok'' v, json_text ''error'' v) of
            (Some (JBool False), Some e) \<Rightarrow> if e \<in> set nearVerifierErrorCodes then Some e else None
          | _ \<Rightarrow> None)
      | None \<Rightarrow> None)"

section \<open>The connection\<close>

definition normalize_hex :: "string \<Rightarrow> string" where
  "normalize_hex s = lower (if starts_with s ''0x'' then drop 2 s else s)"

definition nearBaseUrl :: "provider_host \<Rightarrow> string \<Rightarrow> enclave_error + url_parts" where
  "nearBaseUrl host text =
     (case nh_url host text of
        None \<Rightarrow> Inl (PlainError ''Invalid URL'')
      | Some u \<Rightarrow>
          if up_protocol u \<noteq> ''https:'' \<or> \<not> near_hostname (up_hostname u) \<or> (up_port u \<noteq> [] \<and> up_port u \<noteq> ''443'')
             \<or> up_pathname u \<notin> set ['''', ''/'', ''/v1'', ''/v1/'']
             \<or> up_username u \<noteq> [] \<or> up_password u \<noteq> [] \<or> up_search u \<noteq> [] \<or> up_hash u \<noteq> []
          then Inl (PlainError ''NEAR requires an approved HTTPS endpoint'') else Inr u)"

definition peerSpkiSha256 :: "provider_host \<Rightarrow> bytes \<Rightarrow> near_throw + string" where
  "peerSpkiSha256 host raw =
     (if raw = [] then Inl (unavailable ''transport'' ''tls'')
      else case pv_spki host raw of
          None \<Rightarrow> Inl (HookThrow ''certificate'')
        | Some der \<Rightarrow> Inr (concat (map hex_of_byte (cx_sha (nh_crypto host) der))))"

definition checkNearCertificate :: "provider_host \<Rightarrow> string \<Rightarrow> bytes \<Rightarrow> string \<Rightarrow> wire_error option" where
  "checkNearCertificate host hostname cert expectedSpki =
     (case pv_identity host hostname cert of
        Some code \<Rightarrow> Some (CodeFault code)
      | None \<Rightarrow> if peerSpkiSha256 host cert = Inr (normalize_hex expectedSpki) then None else Some (NearFault (unavailable ''transport'' ''tls'')))"

text \<open>One exchange: the certificate of a connection opened for it, an error of the request, and the reply as it arrives.\<close>

record wire_reply =
  wr_cert :: bytes
  wr_length :: "string option"
  wr_encoding :: "string option"
  wr_status :: "int option"
  wr_chunks :: "bytes list"
  wr_broken :: bool

record wire =
  wi_opened :: "bytes option"
  wi_error :: "string option option"
  wi_reply :: wire_reply
  wi_aborted :: bool

record wire_response =
  ws_status :: int
  ws_length :: "string option"
  ws_encoding :: "string option"
  ws_body :: "bytes option"
  ws_peer :: string

fun within_limit :: "int \<Rightarrow> int \<Rightarrow> bytes list \<Rightarrow> bool" where
  "within_limit maximum n [] = True"
| "within_limit maximum n (c # cs) = (n + int (length c) \<le> maximum \<and> within_limit maximum (n + int (length c)) cs)"

text \<open>\<open>Number\<close> of a length header, of which the HTTP parser only lets digits pass.\<close>

definition declared_length :: "string option \<Rightarrow> int option" where
  "declared_length h = (case h of None \<Rightarrow> Some 0 | Some s \<Rightarrow> if list_all is_digit s then Some (int (dec_number s)) else None)"

definition foreign_encoding :: "string option \<Rightarrow> bool" where
  "foreign_encoding h \<longleftrightarrow> (case nonempty_text h of Some e \<Rightarrow> e \<noteq> ''identity'' | None \<Rightarrow> False)"

definition receive_reply :: "provider_host \<Rightarrow> int \<Rightarrow> bool \<Rightarrow> wire_reply \<Rightarrow> near_throw + wire_response" where
  "receive_reply host maximum aborted r =
     rbind (case peerSpkiSha256 host (wr_cert r) of Inl _ \<Rightarrow> Inl (unavailable ''transport'' ''tls'') | Inr p \<Rightarrow> Inr p) (\<lambda>peer.
     rbind (require (case declared_length (wr_length r) of Some d \<Rightarrow> d \<le> max_safe \<and> 0 \<le> d \<and> d \<le> maximum | None \<Rightarrow> False)
       (unavailable ''transport'' ''body-limit'')) (\<lambda>_.
     rbind (require (\<not> foreign_encoding (wr_encoding r)) (unavailable ''transport'' ''encoding'')) (\<lambda>_.
     rbind (require (within_limit maximum 0 (wr_chunks r)) (unavailable ''transport'' ''body-limit'')) (\<lambda>_.
     rbind (require (\<not> wr_broken r) (unavailable ''transport'' (if aborted then ''aborted'' else ''response''))) (\<lambda>_.
     let status = (case wr_status r of Some s \<Rightarrow> s | None \<Rightarrow> 502) in
     if status < 200 \<or> 599 < status then Inl (unavailable ''transport'' ''response'')
     else Inr \<lparr>ws_status = status, ws_length = wr_length r, ws_encoding = wr_encoding r,
       ws_body = (if status \<in> {204, 205, 304} then None else Some (concat (wr_chunks r))), ws_peer = peer\<rparr>)))))"

text \<open>\<open>attested\<close> is the key the agent is pinned to, once there is one; \<open>text_body\<close> tells that the body is absent or a string.\<close>

definition requestBytes :: "provider_host \<Rightarrow> string option \<Rightarrow> string \<Rightarrow> bool \<Rightarrow> int \<Rightarrow> wire \<Rightarrow> near_throw + wire_response" where
  "requestBytes host attested hostname text_body maximum w =
     (if \<not> text_body then Inl (unavailable ''transport'' ''body-type'')
      else case (case wi_opened w of
          None \<Rightarrow> map_option CodeFault (wi_error w)
        | Some cert \<Rightarrow>
            (case (case attested of None \<Rightarrow> map_option CodeFault (pv_identity host hostname cert) | Some s \<Rightarrow> checkNearCertificate host hostname cert s) of
               Some e \<Rightarrow> Some e | None \<Rightarrow> map_option CodeFault (wi_error w))) of
        Some e \<Rightarrow> Inl (transportFailure e (wi_aborted w))
      | None \<Rightarrow> receive_reply host maximum (wi_aborted w) (wi_reply w))"

section \<open>The hardware verifier\<close>

record verdict =
  vd_signingAddress :: string
  vd_tlsSpkiSha256 :: string
  vd_attestationRef :: string
  vd_verifiedAt :: string
  vd_expiresAt :: string
  vd_allowedSigners :: "string list option"
  vd_archivedHardwareVerified :: "bool option"
  vd_json :: json

text \<open>\<open>/^0x[0-9a-f]{40}$/i\<close>, not the zero address, and \<open>/^(?:0x)?[0-9a-f]{64}$/i\<close>.\<close>

definition prefixed :: "nat \<Rightarrow> string \<Rightarrow> bool" where
  "prefixed n s \<longleftrightarrow> length s = n + 2 \<and> lower (take 2 s) = ''0x'' \<and> list_all is_hex_digit (drop 2 s)"

definition signerAddress :: "string \<Rightarrow> bool" where
  "signerAddress s \<longleftrightarrow> prefixed 40 s \<and> \<not> zero_address s"

definition hex32 :: "string \<Rightarrow> bool" where
  "hex32 s \<longleftrightarrow> prefixed 64 s \<or> (length s = 64 \<and> list_all is_hex_digit s)"

definition verdict_keys :: "string list" where
  "verdict_keys = [''ok'', ''signingAddress'', ''tlsSpkiSha256'', ''attestationRef'', ''verifiedAt'', ''expiresAt'', ''allowedSigners'', ''archivedHardwareVerified'']"

text \<open>\<open>passthrough\<close>: the fields of the schema first, then the others.\<close>

definition passed_through :: "json \<Rightarrow> json" where
  "passed_through v = (case v of
       JObj fs \<Rightarrow> JObj (List.map_filter (\<lambda>k. map_option (Pair k) (map_of fs k)) verdict_keys @ filter (\<lambda>f. fst f \<notin> set verdict_keys) fs)
     | _ \<Rightarrow> v)"

definition signers_field :: "json \<Rightarrow> string list option option" where
  "signers_field v =
     (case json_field ''allowedSigners'' v of
        None \<Rightarrow> Some None
      | Some (JArr xs) \<Rightarrow>
          (case all_some (map (\<lambda>x. case x of JStr s \<Rightarrow> if signerAddress s then Some s else None | _ \<Rightarrow> None) xs) of
             Some ss \<Rightarrow> if 1 \<le> length ss \<and> length ss \<le> 32 then Some (Some ss) else None
           | None \<Rightarrow> None)
      | Some _ \<Rightarrow> None)"

definition archived_field :: "json \<Rightarrow> bool option option" where
  "archived_field v = (case json_field ''archivedHardwareVerified'' v of None \<Rightarrow> Some None | Some (JBool b) \<Rightarrow> Some (Some b) | Some _ \<Rightarrow> None)"

definition verdictSchema :: "provider_host \<Rightarrow> json \<Rightarrow> verdict option" where
  "verdictSchema host v =
     (case (json_text ''signingAddress'' v, json_text ''tlsSpkiSha256'' v, json_text ''attestationRef'' v, json_text ''verifiedAt'' v, json_text ''expiresAt'' v,
            signers_field v, archived_field v) of
        (Some a, Some t, Some r, Some i, Some e, Some ss, Some ar) \<Rightarrow>
          if json_field ''ok'' v = Some (JBool True) \<and> signerAddress a \<and> hex32 t \<and> hex32 r \<and> pv_datetime host i \<and> pv_datetime host e
          then Some \<lparr>vd_signingAddress = a, vd_tlsSpkiSha256 = t, vd_attestationRef = r, vd_verifiedAt = i, vd_expiresAt = e,
            vd_allowedSigners = ss, vd_archivedHardwareVerified = ar, vd_json = passed_through v\<rparr>
          else None
      | _ \<Rightarrow> None)"

text \<open>What the child process gets: its arguments and the names of the environment it sees.\<close>

definition verifier_args :: "provider_options \<Rightarrow> string \<Rightarrow> bool \<Rightarrow> bool \<Rightarrow> string list" where
  "verifier_args options defaultVerifierPath cloud archive =
     [case po_verifierPath options of Some p \<Rightarrow> p | None \<Rightarrow> defaultVerifierPath, ''--policy'', po_policyPath options]
     @ (case po_policySha256 options of Some h \<Rightarrow> [''--policy-sha256'', h] | None \<Rightarrow> [])
     @ (if archive then [if cloud then ''--cloud-archive'' else ''--direct-archive''] else if cloud then [''--cloud''] else [])"

definition inherited_names :: "string list" where
  "inherited_names = [''PATH'', ''Path'', ''SystemRoot'', ''SYSTEMROOT'', ''WINDIR'', ''ProgramData'', ''PROGRAMDATA'', ''TEMP'', ''TMP'', ''HOME'', ''USERPROFILE'']"

definition verifier_env :: "(string \<Rightarrow> string option) \<Rightarrow> nvidia_local option \<Rightarrow> (string \<times> string) list" where
  "verifier_env process_env local =
     [(''PYTHONUTF8'', ''1'')] @ List.map_filter (\<lambda>n. map_option (Pair n) (nonempty_text (process_env n))) inherited_names
     @ (case local of Some l \<Rightarrow> [(''NVIDIA_VERIFIER_MODE'', ''local''), (''NVIDIA_NVAT_BINARY'', nl_binary l), (''NVIDIA_NVAT_LIBRARY'', nl_library l)] | None \<Rightarrow> [])"

definition checked_nvidia :: "provider_options \<Rightarrow> near_throw + nvidia_local option" where
  "checked_nvidia options =
     (case po_nvidiaLocal options of
        None \<Rightarrow> Inr None
      | Some l \<Rightarrow>
          (case nvidiaVerifierOptions \<lparr>nv_mode = Some ''local'', nv_binary = Some (nl_binary l), nv_library = Some (nl_library l)\<rparr> of
             Inl _ \<Rightarrow> Inl (HookThrow ''nvidia options'') | Inr x \<Rightarrow> Inr x))"

datatype child_event = ChildOutput bytes | ChildStdinError | ChildError

text \<open>The events of the child in order, each with the abort flag it meets, up to its closing.\<close>

record child_run =
  cr_aborted :: bool
  cr_spawned :: bool
  cr_events :: "(bool \<times> child_event) list"
  cr_closeAborted :: bool
  cr_code :: "int option"

definition aborted_or :: "bool \<Rightarrow> string \<Rightarrow> near_throw" where
  "aborted_or aborted reason = unavailable ''verifier'' (if aborted then ''aborted'' else reason)"

fun child_output :: "nat \<Rightarrow> (bool \<times> child_event) list \<Rightarrow> near_throw + bytes" where
  "child_output n [] = Inr []"
| "child_output n ((aborted, e) # es) =
     (case e of
        ChildOutput c \<Rightarrow>
          if n + length c > 2097152 then Inl (unavailable ''verifier'' ''output-limit'')
          else rmap (\<lambda>rest. c @ rest) (child_output (n + length c) es)
      | ChildStdinError \<Rightarrow> Inl (aborted_or aborted ''stdin-failed'')
      | ChildError \<Rightarrow> Inl (aborted_or aborted ''process-failed''))"

definition closed_child :: "provider_host \<Rightarrow> bool \<Rightarrow> bool \<Rightarrow> int option \<Rightarrow> bytes \<Rightarrow> near_throw + verdict" where
  "closed_child host archive aborted code output =
     rbind (require (\<not> aborted) (unavailable ''verifier'' ''aborted'')) (\<lambda>_.
     case fixedVerifierError host output of
       Some e \<Rightarrow> Inl (rejected e)
     | None \<Rightarrow>
         rbind (require (code = Some 0) (unavailable ''verifier'' ''process-failed'')) (\<lambda>_.
         rbind (of_option (unavailable ''verifier'' ''invalid-output'')
           (case nh_parse host (pv_utf8 host output) of Some v \<Rightarrow> verdictSchema host v | None \<Rightarrow> None)) (\<lambda>v.
         if archive \<and> vd_archivedHardwareVerified v \<noteq> Some True then Inl (unavailable ''verifier'' ''archive-unverified'') else Inr v)))"

text \<open>Whether a child was started, and the verdict. \<open>input\<close> is absent when it has no JSON text.\<close>

definition runNearVerifier ::
    "provider_host \<Rightarrow> provider_options \<Rightarrow> json option \<Rightarrow> bool \<Rightarrow> child_run \<Rightarrow> bool \<times> (near_throw + verdict)" where
  "runNearVerifier host options input archive r =
     (if cr_aborted r then (False, Inl (unavailable ''verifier'' ''aborted''))
      else if input = None then (False, Inl (unavailable ''verifier'' ''invalid-input''))
      else case checked_nvidia options of
        Inl t \<Rightarrow> (False, Inl t)
      | Inr _ \<Rightarrow>
          if \<not> cr_spawned r then (False, Inl (aborted_or (cr_closeAborted r) ''process-failed''))
          else (True, rbind (child_output 0 (cr_events r)) (closed_child host archive (cr_closeAborted r) (cr_code r))))"

section \<open>One admission\<close>

record attempt_world =
  aw_aborted :: bool
  aw_nonce :: bytes
  aw_wire :: wire
  aw_policyBefore :: "bytes option"
  aw_child :: child_run
  aw_now :: int
  aw_policyAfter :: "bytes option"
  aw_abortedEnd :: bool
  aw_abortedCaught :: bool

datatype provider_event = ReportRead "(string \<times> string) list" "string option" | VerifierStarted "string list" json | ConnectionClosed

record bound_session =
  bs_session :: near_session
  bs_base :: url_parts
  bs_peer :: string

definition cloud_base :: "url_parts \<Rightarrow> bool" where
  "cloud_base base \<longleftrightarrow> up_hostname base = ''cloud-api.near.ai''"

definition nonce_text :: "attempt_world \<Rightarrow> string" where
  "nonce_text w = concat (map hex_of_byte (aw_nonce w))"

text \<open>The query of \<open>reportUrl\<close>, and the credential a cloud request carries.\<close>

definition report_query :: "string \<Rightarrow> bool \<Rightarrow> string \<Rightarrow> (string \<times> string) list" where
  "report_query model cloud nonce =
     [(''signing_algo'', ''ecdsa''), (''nonce'', nonce), (''include_tls_fingerprint'', ''true'')]
     @ (if cloud then [(''model'', model), (''provider'', ''near'')] else [])"

definition cloud_key :: "provider_options \<Rightarrow> bool \<Rightarrow> near_throw + string option" where
  "cloud_key options cloud =
     (if \<not> cloud then Inr None
      else case po_apiKey options of
          Some k \<Rightarrow> if trim k = [] \<or> list_ex line_break k then Inl (unavailable ''configuration'' ''credentials'') else Inr (Some k)
        | None \<Rightarrow> Inl (unavailable ''configuration'' ''credentials''))"

definition json_object :: "json \<Rightarrow> bool" where
  "json_object v = (case v of JObj _ \<Rightarrow> True | _ \<Rightarrow> False)"

definition gateway_report :: "bool \<Rightarrow> json \<Rightarrow> json option" where
  "gateway_report cloud report =
     (case (if cloud then json_field ''gateway_attestation'' report else Some report) of
        Some g \<Rightarrow> if json_object g then Some g else None | None \<Rightarrow> None)"

definition has_models :: "json \<Rightarrow> bool" where
  "has_models report = (case json_field ''model_attestations'' report of Some (JArr xs) \<Rightarrow> 1 \<le> length xs | _ \<Rightarrow> False)"

definition read_report :: "provider_host \<Rightarrow> url_parts \<Rightarrow> string \<Rightarrow> attempt_world \<Rightarrow> near_throw + (json \<times> string)" where
  "read_report host base model w =
     (let cloud = cloud_base base in
      rbind (requestBytes host None (up_hostname base) True 8388608 (aw_wire w)) (\<lambda>r.
      rbind (require (ws_status r = 200) (unavailable ''report'' ''http-status'')) (\<lambda>_.
      rbind (of_option (unavailable ''report'' ''json'') (nh_parse host (pv_text host (case ws_body r of Some b \<Rightarrow> b | None \<Rightarrow> [])))) (\<lambda>report.
      rbind (require (json_object report) (unavailable ''report'' ''shape'')) (\<lambda>_.
      rbind (of_option (unavailable ''report'' ''shape'') (gateway_report cloud report)) (\<lambda>g.
      rbind (of_option (unavailable ''report'' ''shape'')
        (case (json_text ''request_nonce'' g, json_text ''tls_cert_fingerprint'' g) of
           (Some n, Some f) \<Rightarrow> if cloud \<and> \<not> has_models report then None else Some (n, f) | _ \<Rightarrow> None)) (\<lambda>(n, f).
      rbind (require (n = nonce_text w) (unavailable ''report'' ''nonce-binding'')) (\<lambda>_.
      rbind (require (normalize_hex f = ws_peer r) (unavailable ''report'' ''tls-binding'')) (\<lambda>_.
      rbind (require (cloud \<or> json_text ''model_name'' report = Some model) (unavailable ''report'' ''model-binding'')) (\<lambda>_.
      Inr (report, ws_peer r)))))))))))"

definition policy_before :: "attempt_world \<Rightarrow> bytes option \<Rightarrow> near_throw + bytes" where
  "policy_before w retryPolicy =
     rbind (of_option (unavailable ''policy'' ''unreadable'') (aw_policyBefore w)) (\<lambda>p.
     rbind (require (length p \<le> 1048576) (unavailable ''policy'' ''size'')) (\<lambda>_.
     rbind (require (case retryPolicy of Some q \<Rightarrow> p = q | None \<Rightarrow> True) (unavailable ''policy'' ''changed'')) (\<lambda>_.
     Inr p)))"

definition verifier_input :: "bool \<Rightarrow> string \<Rightarrow> json \<Rightarrow> string \<Rightarrow> string \<Rightarrow> json" where
  "verifier_input cloud model report nonce peer =
     JObj ([(''attestation'', report)] @ (if cloud then [(''model'', JStr model)] else []) @ [(''nonce'', JStr nonce), (''tlsSpkiSha256'', JStr peer)])"

definition signer_set_ok :: "bool \<Rightarrow> verdict \<Rightarrow> bool" where
  "signer_set_ok cloud v =
     (let first = (\<lambda>ss. case ss of [] \<Rightarrow> False | s # _ \<Rightarrow> same s (vd_signingAddress v)) in
      case vd_allowedSigners v of
        None \<Rightarrow> \<not> cloud
      | Some ss \<Rightarrow> (cloud \<or> length ss = 1) \<and> first ss)"

text \<open>The window of a verdict; a date that \<open>Date.parse\<close> does not know fails no comparison.\<close>

definition verdict_current :: "provider_host \<Rightarrow> int \<Rightarrow> verdict \<Rightarrow> bool" where
  "verdict_current host now v =
     (let i = nh_date host (vd_verifiedAt v); e = nh_date host (vd_expiresAt v) in
      \<not> ((case i of Some i \<Rightarrow> i > now + 5000 \<or> i < now - 300000 | None \<Rightarrow> False)
         \<or> (case e of Some e \<Rightarrow> e \<le> now | None \<Rightarrow> False)
         \<or> (case (i, e) of (Some i, Some e) \<Rightarrow> e > i + 300000 | _ \<Rightarrow> False)))"

definition attestation_proof :: "provider_host \<Rightarrow> json \<Rightarrow> verdict \<Rightarrow> bytes \<Rightarrow> near_throw + string" where
  "attestation_proof host report v policy =
     rmap (\<lambda>p. stringify (JObj [(''report'', report), (''verdict'', vd_json v), (''policy'', p), (''policyHash'', JStr (near_sha (near_host.truncate host) policy))]))
       (of_option (HookThrow ''policy'') (nh_parse host (pv_utf8 host policy)))"

definition accept_verdict ::
    "provider_host \<Rightarrow> url_parts \<Rightarrow> attempt_world \<Rightarrow> json \<Rightarrow> string \<Rightarrow> bytes \<Rightarrow> verdict \<Rightarrow> near_throw + bound_session" where
  "accept_verdict host base w report peer policy v =
     (let cloud = cloud_base base in
      rbind (require (normalize_hex (vd_tlsSpkiSha256 v) = peer) (unavailable ''session'' ''tls-binding'')) (\<lambda>_.
      rbind (require (cloud \<or> (case json_text ''signing_address'' report of Some a \<Rightarrow> same (vd_signingAddress v) a | None \<Rightarrow> False))
        (unavailable ''session'' ''signer'')) (\<lambda>_.
      rbind (require (signer_set_ok cloud v) (unavailable ''session'' ''signer-set'')) (\<lambda>_.
      rbind (require (verdict_current host (aw_now w) v) (unavailable ''session'' ''time'')) (\<lambda>_.
      rbind (of_option (unavailable ''policy'' ''unreadable'') (aw_policyAfter w)) (\<lambda>after.
      rbind (require (policy = after) (unavailable ''policy'' ''changed'')) (\<lambda>_.
      rbind (require (\<not> aw_abortedEnd w) (unavailable ''transport'' ''aborted'')) (\<lambda>_.
      rbind (attestation_proof host report v policy) (\<lambda>proof.
      Inr \<lparr>bs_session = \<lparr>ns_allowedSigners = (case vd_allowedSigners v of Some ss \<Rightarrow> if cloud then ss else [vd_signingAddress v] | None \<Rightarrow> [vd_signingAddress v]),
             ns_attestationRef = ''0x'' @ normalize_hex (vd_attestationRef v), ns_verifiedAt = vd_verifiedAt v, ns_expiresAt = vd_expiresAt v,
             ns_tlsBound = True, ns_hasFetch = True, ns_attestationProof = Some proof, ns_closable = True\<rparr>,
           bs_base = base, bs_peer = peer\<rparr>)))))))))"

text \<open>\<open>verifyAttempt\<close>: what it sends and starts, and its session or exception. A session keeps its connection.\<close>

definition caught :: "attempt_world \<Rightarrow> near_throw \<Rightarrow> near_throw" where
  "caught w t = (if isNearAttestationError t then t else transportFailure (fault_of t) (aw_abortedCaught w))"

definition verifyAttempt ::
    "provider_host \<Rightarrow> provider_options \<Rightarrow> string \<Rightarrow> url_parts \<Rightarrow> string \<Rightarrow> bytes option \<Rightarrow> attempt_world
      \<Rightarrow> provider_event list \<times> (near_throw + bound_session)" where
  "verifyAttempt host options defaultPath base model retryPolicy w =
     (let cloud = cloud_base base in
      if aw_aborted w then ([], Inl (unavailable ''transport'' ''aborted''))
      else case cloud_key options cloud of
        Inl t \<Rightarrow> ([], Inl t)
      | Inr key \<Rightarrow>
        (let get = ReportRead (report_query model cloud (nonce_text w)) key in
         case rbind (read_report host base model w) (\<lambda>(report, peer). rbind (policy_before w retryPolicy) (\<lambda>p. Inr (report, peer, p))) of
           Inl t \<Rightarrow> ([get, ConnectionClosed], Inl (caught w t))
         | Inr (report, peer, policy) \<Rightarrow>
           (let input = verifier_input cloud model report (nonce_text w) peer;
                (started, verdict) = runNearVerifier host options (Some input) False (aw_child w);
                run = (if started then [VerifierStarted (verifier_args options defaultPath cloud False) input] else [])
            in case rbind verdict (accept_verdict host base w report peer policy) of
                 Inl t \<Rightarrow> (get # run @ [ConnectionClosed], Inl (caught w t))
               | Inr b \<Rightarrow> (get # run, Inr b))))"

text \<open>One reading of the policy for the retries.\<close>

record policy_read =
  pd_abortedBefore :: bool
  pd_bytes :: "bytes option"
  pd_abortedAfter :: bool

definition readRetryPolicy :: "provider_host \<Rightarrow> provider_options \<Rightarrow> policy_read \<Rightarrow> near_throw + bytes" where
  "readRetryPolicy host options r =
     rbind (require (\<not> pd_abortedBefore r) (unavailable ''transport'' ''aborted'')) (\<lambda>_.
     rbind (of_option (unavailable ''policy'' ''unreadable'') (pd_bytes r)) (\<lambda>p.
     rbind (require (length p \<le> 1048576) (unavailable ''policy'' ''size'')) (\<lambda>_.
     rbind (require (Some (near_sha (near_host.truncate host) p) = po_policySha256 options) (unavailable ''policy'' ''changed'')) (\<lambda>_.
     rbind (require (\<not> pd_abortedAfter r) (unavailable ''transport'' ''aborted'')) (\<lambda>_. Inr p)))))"

definition same_policy :: "provider_host \<Rightarrow> provider_options \<Rightarrow> bytes option \<Rightarrow> policy_read \<Rightarrow> near_throw + unit" where
  "same_policy host options retryPolicy r =
     (case retryPolicy of
        None \<Rightarrow> Inr ()
      | Some q \<Rightarrow> rbind (readRetryPolicy host options r) (\<lambda>p. require (p = q) (unavailable ''policy'' ''changed'')))"

record admission_round =
  ar_policyStart :: policy_read
  ar_attempt :: attempt_world
  ar_aborted :: bool
  ar_policyAgain :: policy_read
  ar_delay :: "string option option"
  ar_delayAborted :: bool

text \<open>What the handler does with a failed attempt: an exception, or \<open>None\<close> to select another connection.\<close>

definition retry_or_throw :: "provider_host \<Rightarrow> provider_options \<Rightarrow> bool \<Rightarrow> bytes option \<Rightarrow> bool \<Rightarrow> admission_round \<Rightarrow> near_throw \<Rightarrow> near_throw option" where
  "retry_or_throw host options cloud retryPolicy final rd t =
     (if ar_aborted rd
      then Some (if isNearAttestationError t \<and> \<not> isUnapprovedNearWorkload t then t else unavailable ''transport'' ''aborted'')
      else if cloud \<or> \<not> isNearAttestationError t \<or> \<not> isUnapprovedNearWorkload t \<or> final then Some t
      else case same_policy host options retryPolicy (ar_policyAgain rd) of
          Inl e \<Rightarrow> Some e
        | Inr _ \<Rightarrow> (case ar_delay rd of Some code \<Rightarrow> Some (transportFailure (CodeFault code) (ar_delayAborted rd)) | None \<Rightarrow> None))"

fun admission_loop ::
    "provider_host \<Rightarrow> provider_options \<Rightarrow> string \<Rightarrow> url_parts \<Rightarrow> string \<Rightarrow> bytes option \<Rightarrow> (nat \<Rightarrow> admission_round) \<Rightarrow> nat \<Rightarrow> nat
      \<Rightarrow> provider_event list \<times> (near_throw + bound_session)" where
  "admission_loop host options path base model retryPolicy rounds i 0 = ([], Inl (unavailable ''verifier'' ''process-failed''))"
| "admission_loop host options path base model retryPolicy rounds i (Suc n) =
     (case same_policy host options retryPolicy (ar_policyStart (rounds i)) of
        Inl t \<Rightarrow> ([], Inl t)
      | Inr _ \<Rightarrow>
          (let (events, res) = verifyAttempt host options path base model retryPolicy (ar_attempt (rounds i)) in
           case res of
             Inr b \<Rightarrow> (events, Inr b)
           | Inl t \<Rightarrow>
               (case retry_or_throw host options (cloud_base base) retryPolicy (n = 0) (rounds i) t of
                  Some e \<Rightarrow> (events, Inl e)
                | None \<Rightarrow>
                    (let (events', res') = admission_loop host options path base model retryPolicy rounds (Suc i) n in (events @ events', res')))))"

text \<open>The verifier that \<open>createNearAttestationVerifier\<close> returns, with its configured number of attempts.\<close>

definition allowed_attempts :: "nat \<Rightarrow> url_parts \<Rightarrow> nat" where
  "allowed_attempts configured base = (if cloud_base base then 1 else configured)"

definition near_verify ::
    "provider_host \<Rightarrow> provider_options \<Rightarrow> nat \<Rightarrow> string \<Rightarrow> string \<Rightarrow> string \<Rightarrow> policy_read \<Rightarrow> (nat \<Rightarrow> admission_round)
      \<Rightarrow> provider_event list \<times> (near_throw + bound_session)" where
  "near_verify host options configured path baseUrl model first rounds =
     (case nearBaseUrl host baseUrl of
        Inl _ \<Rightarrow> ([], Inl (HookThrow ''base url''))
      | Inr base \<Rightarrow>
          (let attempts = allowed_attempts configured base in
           case (if attempts > 1 then rmap Some (readRetryPolicy host options first) else Inr None) of
             Inl t \<Rightarrow> ([], Inl t)
           | Inr retryPolicy \<Rightarrow> admission_loop host options path base model retryPolicy rounds 0 attempts))"

section \<open>The pinned transport\<close>

text \<open>\<open>pinnedFetch\<close>. The body of its \<open>Response\<close> is read in one piece.\<close>

definition pinnedFetch :: "provider_host \<Rightarrow> bound_session \<Rightarrow> string \<Rightarrow> int \<Rightarrow> bool \<Rightarrow> wire \<Rightarrow> near_throw + near_response" where
  "pinnedFetch host b url_origin now text_body w =
     (if url_origin \<noteq> base_origin (bs_base b) then Inl (unavailable ''session'' ''origin'')
      else if (case nh_date host (ns_expiresAt (bs_session b)) of Some e \<Rightarrow> e \<le> now | None \<Rightarrow> False) then Inl (unavailable ''session'' ''expired'')
      else case requestBytes host (Some (bs_peer b)) (up_hostname (bs_base b)) text_body 8388608 w of
          Inl t \<Rightarrow> Inl (transportFailure (fault_of t) (wi_aborted w))
        | Inr r \<Rightarrow>
            if ws_peer r \<noteq> bs_peer b then Inl (unavailable ''session'' ''tls-binding'')
            else if foreign_encoding (ws_encoding r) then Inl (unavailable ''transport'' ''encoding'')
            else Inr \<lparr>rp_status = ws_status r, rp_redirected = False, rp_origin = None, rp_length = ws_length r,
              rp_body = map_option (\<lambda>body. [Inr body]) (ws_body r), rp_cancel = Inr ()\<rparr>)"

section \<open>Every session was verified\<close>

lemma caught_near: "isNearAttestationError (caught w t)"
  by (auto simp: caught_def transportFailure_def fault_of_def unavailable_def createNearAttestationError_def isNearAttestationError_def getNearAttestationFailure_def)

text \<open>What stands behind a session: the report of one attempt, the verdict on it, and the policy that was read around it.\<close>

definition verified_by ::
    "provider_host \<Rightarrow> provider_options \<Rightarrow> string \<Rightarrow> attempt_world \<Rightarrow> bound_session \<Rightarrow> json \<Rightarrow> verdict \<Rightarrow> bytes \<Rightarrow> bool" where
  "verified_by host options model w b report v policy \<longleftrightarrow>
     read_report host (bs_base b) model w = Inr (report, bs_peer b)
     \<and> runNearVerifier host options (Some (verifier_input (cloud_base (bs_base b)) model report (nonce_text w) (bs_peer b))) False (aw_child w) = (True, Inr v)
     \<and> normalize_hex (vd_tlsSpkiSha256 v) = bs_peer b \<and> verdict_current host (aw_now w) v
     \<and> aw_policyBefore w = Some policy \<and> aw_policyAfter w = Some policy
     \<and> ns_expiresAt (bs_session b) = vd_expiresAt v
     \<and> set (ns_allowedSigners (bs_session b)) \<subseteq> set (vd_signingAddress v # (case vd_allowedSigners v of Some ss \<Rightarrow> ss | None \<Rightarrow> []))"

lemma verifyAttempt_Inr:
  assumes "verifyAttempt host options path base model retryPolicy w = (events, Inr b)"
  obtains report v policy where "bs_base b = base" and "verified_by host options model w b report v policy"
    and "\<And>q. retryPolicy = Some q \<Longrightarrow> policy = q"
proof -
  from assms obtain report peer policy started verdict where
    r: "read_report host base model w = Inr (report, peer)" and p: "policy_before w retryPolicy = Inr policy"
    and v: "runNearVerifier host options (Some (verifier_input (cloud_base base) model report (nonce_text w) peer)) False (aw_child w) = (started, verdict)"
    and b: "rbind verdict (accept_verdict host base w report peer policy) = Inr b"
    by (auto simp: verifyAttempt_def Let_def split: if_splits sum.splits prod.splits elim!: rbind_InrE)
  from b obtain v' where v': "verdict = Inr v'" and a: "accept_verdict host base w report peer policy v' = Inr b" by (rule rbind_InrE)
  have started: "started" using v v' by (auto simp: runNearVerifier_def split: if_splits sum.splits)
  have policy: "aw_policyBefore w = Some policy" "\<And>q. retryPolicy = Some q \<Longrightarrow> policy = q"
    using p by (auto simp: policy_before_def of_option_def res_simps split: option.splits elim!: rbind_InrE)
  from a have "bs_base b = base" and "verified_by host options model w b report v' policy"
    using r v v' started policy(1) by (auto simp: accept_verdict_def Let_def verified_by_def of_option_def res_simps split: option.splits if_splits elim!: rbind_InrE)
  with that policy(2) show ?thesis by blast
qed

lemma admission_loop_Inr:
  "admission_loop host options path base model retryPolicy rounds i n = (events, Inr b) \<Longrightarrow>
     \<exists>k report v policy. i \<le> k \<and> k < i + n \<and> bs_base b = base \<and> verified_by host options model (ar_attempt (rounds k)) b report v policy
       \<and> (\<forall>q. retryPolicy = Some q \<longrightarrow> policy = q)"
proof (induction n arbitrary: i events)
  case (Suc n)
  obtain ev res where a: "verifyAttempt host options path base model retryPolicy (ar_attempt (rounds i)) = (ev, res)" by fastforce
  show ?case
  proof (cases res)
    case (Inr b')
    with Suc.prems a have "verifyAttempt host options path base model retryPolicy (ar_attempt (rounds i)) = (ev, Inr b)"
      by (auto split: sum.splits)
    then obtain report v policy where "bs_base b = base" "verified_by host options model (ar_attempt (rounds i)) b report v policy"
      "\<And>q. retryPolicy = Some q \<Longrightarrow> policy = q" by (rule verifyAttempt_Inr) blast
    then show ?thesis by (intro exI [of _ i]) auto
  next
    case (Inl t)
    with Suc.prems a obtain events' where "admission_loop host options path base model retryPolicy rounds (Suc i) n = (events', Inr b)"
      by (auto split: sum.splits option.splits prod.splits)
    from Suc.IH [OF this] show ?thesis by (elim exE conjE) (intro exI conjI, auto)
  qed
qed simp

lemma near_verify_Inr:
  assumes "near_verify host options configured path baseUrl model first rounds = (events, Inr b)"
  obtains k report v policy where "k < allowed_attempts configured (bs_base b)"
    and "verified_by host options model (ar_attempt (rounds k)) b report v policy"
    and "1 < allowed_attempts configured (bs_base b) \<Longrightarrow> po_policySha256 options = Some (near_sha (near_host.truncate host) policy)"
proof -
  from assms obtain base retryPolicy where
    loop: "admission_loop host options path base model retryPolicy rounds 0 (allowed_attempts configured base) = (events, Inr b)"
    and retry: "(if allowed_attempts configured base > 1 then rmap Some (readRetryPolicy host options first) else Inr None) = Inr retryPolicy"
    by (auto simp: near_verify_def Let_def split: sum.splits if_splits)
  from admission_loop_Inr [OF loop] obtain k report v policy where k: "k < allowed_attempts configured base" "bs_base b = base"
    "verified_by host options model (ar_attempt (rounds k)) b report v policy" "\<forall>q. retryPolicy = Some q \<longrightarrow> policy = q" by auto
  have "po_policySha256 options = Some (near_sha (near_host.truncate host) policy)" if "1 < allowed_attempts configured base"
  proof -
    from that retry obtain q where "readRetryPolicy host options first = Inr q" "retryPolicy = Some q"
      by (auto simp: rmap_def split: sum.splits)
    with k(4) show ?thesis by (auto simp: readRetryPolicy_def res_simps elim!: rbind_InrE)
  qed
  with k that show ?thesis by auto
qed


section \<open>Retries\<close>

definition report_reads :: "provider_event list \<Rightarrow> nat" where
  "report_reads es = length (filter (\<lambda>e. case e of ReportRead _ _ \<Rightarrow> True | _ \<Rightarrow> False) es)"

definition verifier_runs :: "provider_event list \<Rightarrow> nat" where
  "verifier_runs es = length (filter (\<lambda>e. case e of VerifierStarted _ _ \<Rightarrow> True | _ \<Rightarrow> False) es)"

definition closed_connections :: "provider_event list \<Rightarrow> nat" where
  "closed_connections es = length (filter (\<lambda>e. case e of ConnectionClosed \<Rightarrow> True | _ \<Rightarrow> False) es)"

lemmas provider_counts = report_reads_def verifier_runs_def closed_connections_def

lemma counts_append:
  "report_reads (xs @ ys) = report_reads xs + report_reads ys" "verifier_runs (xs @ ys) = verifier_runs xs + verifier_runs ys"
  "closed_connections (xs @ ys) = closed_connections xs + closed_connections ys"
  by (simp_all add: provider_counts)

definition kept :: "near_throw + bound_session \<Rightarrow> nat" where
  "kept res = (case res of Inr _ \<Rightarrow> 1 | Inl _ \<Rightarrow> 0)"

lemma verifyAttempt_counts:
  assumes "verifyAttempt host options path base model retryPolicy w = (events, res)"
  shows "report_reads events \<le> 1" and "verifier_runs events \<le> report_reads events"
    and "closed_connections events + kept res = report_reads events"
  using assms by (auto simp: verifyAttempt_def Let_def provider_counts kept_def split: if_splits sum.splits prod.splits)

text \<open>A failed verifier is the only failure that is retried.\<close>

lemma retried:
  assumes "retry_or_throw host options cloud retryPolicy final rd t = None"
  shows "\<not> cloud \<and> isUnapprovedNearWorkload t \<and> \<not> final"
  using assms by (auto simp: retry_or_throw_def split: if_splits)

lemma plain_unavailable [simp]: "\<not> isUnapprovedNearWorkload (unavailable s r)"
  by (auto simp: isUnapprovedNearWorkload_def getNearAttestationFailure_def unavailable_def createNearAttestationError_def)

lemma transportFailure_code [simp]: "\<not> isUnapprovedNearWorkload (transportFailure (CodeFault c) aborted)"
  by (simp add: transportFailure_def)

lemma requestBytes_unattested:
  assumes "requestBytes host None hostname text_body maximum w = Inl t"
  shows "\<not> isUnapprovedNearWorkload t"
  using assms by (auto simp: requestBytes_def receive_reply_def Let_def rbind_def res_simps split: if_splits option.splits sum.splits)

lemma before_verifier:
  assumes "rbind (read_report host base model w) (\<lambda>(report, peer). rbind (policy_before w retryPolicy) (\<lambda>p. Inr (report, peer, p))) = Inl t"
  shows "\<not> isUnapprovedNearWorkload t"
  using assms requestBytes_unattested [of host "up_hostname base" True 8388608 "aw_wire w"]
  by (auto simp: read_report_def policy_before_def Let_def rbind_def of_option_def res_simps split: if_splits option.splits sum.splits prod.splits)

text \<open>Only a verifier that ran can refuse a workload.\<close>

lemma caught_unapproved: "isUnapprovedNearWorkload (caught w t) \<Longrightarrow> isUnapprovedNearWorkload t"
  by (cases "isNearAttestationError t") (auto simp: caught_def fault_of_def)

lemma not_started:
  assumes "runNearVerifier host options input archive r = (False, res)"
  shows "\<exists>t. res = Inl t \<and> \<not> isUnapprovedNearWorkload t"
  using assms by (auto simp: runNearVerifier_def checked_nvidia_def aborted_or_def isUnapprovedNearWorkload_def [of "HookThrow s" for s]
    getNearAttestationFailure_def split: if_splits sum.splits option.splits)

lemma cloud_key_refusal: "cloud_key options cloud = Inl t \<Longrightarrow> \<not> isUnapprovedNearWorkload t"
  by (auto simp: cloud_key_def split: if_splits option.splits)

lemma unapproved_ran:
  assumes "verifyAttempt host options path base model retryPolicy w = (events, Inl t)" and "isUnapprovedNearWorkload t"
  shows "verifier_runs events = 1"
proof -
  let ?before = "rbind (read_report host base model w) (\<lambda>(report, peer). rbind (policy_before w retryPolicy) (\<lambda>p. Inr (report, peer, p)))"
  from assms have "\<not> aw_aborted w" by (auto simp: verifyAttempt_def Let_def)
  with assms obtain key where key: "cloud_key options (cloud_base base) = Inr key"
    using cloud_key_refusal by (cases "cloud_key options (cloud_base base)") (auto simp: verifyAttempt_def Let_def)
  have "\<not> (\<exists>t'. ?before = Inl t')"
    using assms key \<open>\<not> aw_aborted w\<close> before_verifier [of host base model w retryPolicy] caught_unapproved [of w]
    by (auto simp: verifyAttempt_def Let_def)
  then obtain report peer policy where before: "?before = Inr (report, peer, policy)" by (cases ?before) auto
  let ?input = "verifier_input (cloud_base base) model report (nonce_text w) peer"
  obtain started verdict where v: "runNearVerifier host options (Some ?input) False (aw_child w) = (started, verdict)" by fastforce
  have started
  proof (rule ccontr)
    assume n: "\<not> started"
    with v have "runNearVerifier host options (Some ?input) False (aw_child w) = (False, verdict)" by simp
    from not_started [OF this] obtain t' where t': "verdict = Inl t'" "\<not> isUnapprovedNearWorkload t'" by blast
    with assms n key before v \<open>\<not> aw_aborted w\<close> have "t = caught w t'" by (simp add: verifyAttempt_def Let_def)
    with caught_unapproved t'(2) assms(2) show False by blast
  qed
  with assms key before v \<open>\<not> aw_aborted w\<close> show ?thesis
    by (auto simp: verifyAttempt_def Let_def verifier_runs_def split: sum.splits)
qed

lemma admission_loop_counts:
  "admission_loop host options path base model retryPolicy rounds i n = (events, res) \<Longrightarrow>
     report_reads events \<le> n \<and> verifier_runs events \<le> report_reads events \<and> report_reads events \<le> Suc (verifier_runs events)
     \<and> closed_connections events + kept res = report_reads events \<and> (cloud_base base \<longrightarrow> report_reads events \<le> 1)"
proof (induction n arbitrary: i events res)
  case 0
  then show ?case by (auto simp: provider_counts kept_def)
next
  case (Suc n)
  obtain ev r where a: "verifyAttempt host options path base model retryPolicy (ar_attempt (rounds i)) = (ev, r)" by fastforce
  note one = verifyAttempt_counts [OF a]
  show ?case
  proof (cases "\<exists>t. r = Inl t \<and> retry_or_throw host options (cloud_base base) retryPolicy (n = 0) (rounds i) t = None
      \<and> same_policy host options retryPolicy (ar_policyStart (rounds i)) = Inr ()")
    case True
    then obtain t where t: "r = Inl t" "retry_or_throw host options (cloud_base base) retryPolicy (n = 0) (rounds i) t = None"
      "same_policy host options retryPolicy (ar_policyStart (rounds i)) = Inr ()" by blast
    obtain ev' r' where rest: "admission_loop host options path base model retryPolicy rounds (Suc i) n = (ev', r')" by fastforce
    have e: "events = ev @ ev'" "res = r'" using Suc.prems t a rest by auto
    have "verifier_runs ev = 1" "\<not> cloud_base base" using retried [OF t(2)] unapproved_ran a t(1) by auto
    with Suc.IH [OF rest] one t(1) show ?thesis by (auto simp: e counts_append kept_def)
  next
    case False
    then have "(events = ev \<and> (\<exists>x. res = r \<or> (r = Inl x \<and> (\<exists>y. res = Inl y)))) \<or> (events = [] \<and> (\<exists>y. res = Inl y))"
      using Suc.prems a by (auto split: sum.splits option.splits)
    with one show ?thesis by (auto simp: kept_def provider_counts)
  qed
qed

text \<open>
  Admission is bounded and leaks no connection: however the provider answers, at most as many reports are read
  as configured, at most three and one from the cloud gateway; another is read only after the hardware verifier ran on the
  one before; and every connection is closed but that of a returned session.
\<close>

theorem admission_bounded:
  assumes "createNearAttestationVerifier options = Inr configured"
    and "near_verify host options configured path baseUrl model first rounds = (events, res)"
  shows "report_reads events \<le> configured \<and> configured \<le> 3 \<and> report_reads events \<le> Suc (verifier_runs events)
    \<and> closed_connections events + kept res = report_reads events
    \<and> (\<forall>base. nearBaseUrl host baseUrl = Inr base \<longrightarrow> cloud_base base \<longrightarrow> report_reads events \<le> 1)"
proof -
  have n: "1 \<le> configured" "configured \<le> 3" using assms(1)
    by (auto simp: createNearAttestationVerifier_def Let_def res_simps elim!: rbind_InrE)
  show ?thesis
  proof (cases "\<exists>base retryPolicy. nearBaseUrl host baseUrl = Inr base
      \<and> admission_loop host options path base model retryPolicy rounds 0 (allowed_attempts configured base) = (events, res)")
    case True
    then obtain base retryPolicy where b: "nearBaseUrl host baseUrl = Inr base"
      and loop: "admission_loop host options path base model retryPolicy rounds 0 (allowed_attempts configured base) = (events, res)" by blast
    have "allowed_attempts configured base \<le> configured" using n by (simp add: allowed_attempts_def)
    with admission_loop_counts [OF loop] n b show ?thesis by auto
  next
    case False
    with assms(2) have "events = [] \<and> (\<exists>t. res = Inl t)"
      by (auto simp: near_verify_def Let_def split: sum.splits if_splits)
    with n show ?thesis by (auto simp: provider_counts kept_def)
  qed
qed

section \<open>A worked admission\<close>

definition demo_provider_host :: provider_host where
  "demo_provider_host = near_host.extend demo_near_host (provider_host.fields (\<lambda>_ _. None) (\<lambda>_. Some []) text_of text_of (\<lambda>_. True))"

lemma demo_provider_host_simps:
  "near_host.truncate demo_provider_host = demo_near_host" "nh_crypto demo_provider_host = demo_near_crypto"
  "nh_parse demo_provider_host = nh_parse demo_near_host" "nh_date demo_provider_host = nh_date demo_near_host" "nh_url demo_provider_host = nh_url demo_near_host"
  "pv_identity demo_provider_host h c = None" "pv_spki demo_provider_host c = Some []" "pv_text demo_provider_host = text_of" "pv_utf8 demo_provider_host = text_of"
  "pv_datetime demo_provider_host d"
  by (simp_all add: demo_provider_host_def near_host.defs provider_host.defs)

definition demo_provider_options :: provider_options where
  "demo_provider_options = \<lparr>po_pythonPath = ''y'', po_policyPath = ''p'', po_policySha256 = None, po_verifierPath = None, po_apiKey = Some ''k'',
     po_nvidiaLocal = None, po_maxAttempts = None\<rparr>"

definition demo_wire :: wire where
  "demo_wire = \<lparr>wi_opened = Some [1], wi_error = None, wi_reply = \<lparr>wr_cert = [1], wr_length = None, wr_encoding = None, wr_status = Some 200,
     wr_chunks = [utf8 ''G''], wr_broken = False\<rparr>, wi_aborted = False\<rparr>"

definition demo_attempt :: attempt_world where
  "demo_attempt = \<lparr>aw_aborted = False, aw_nonce = replicate 32 0, aw_wire = demo_wire, aw_policyBefore = Some (utf8 ''P''),
     aw_child = \<lparr>cr_aborted = False, cr_spawned = True, cr_events = [(False, ChildOutput (utf8 ''V''))], cr_closeAborted = False, cr_code = Some 0\<rparr>,
     aw_now = 500, aw_policyAfter = Some (utf8 ''P''), aw_abortedEnd = False, aw_abortedCaught = False\<rparr>"

definition demo_policy_read :: policy_read where
  "demo_policy_read = \<lparr>pd_abortedBefore = False, pd_bytes = None, pd_abortedAfter = False\<rparr>"

definition demo_rounds :: "nat \<Rightarrow> admission_round" where
  "demo_rounds i = \<lparr>ar_policyStart = demo_policy_read, ar_attempt = demo_attempt, ar_aborted = False, ar_policyAgain = demo_policy_read,
     ar_delay = None, ar_delayAborted = False\<rparr>"

definition demo_bound :: bound_session where
  "demo_bound = \<lparr>bs_session = demo_session, bs_base = demo_base\<lparr>up_pathname := ''/''\<rparr>, bs_peer = drop 2 demo_zero_hash\<rparr>"

lemma demo_zero_text: "concat (map hex_of_byte (replicate 32 0)) = drop 2 demo_zero_hash"
  using demo_hash [of demo_near_host "[]"] by (simp add: near_sha_def sha256Hex_def toHex_def) (simp add: demo_near_crypto_def toHex_def demo_zero_hash_def)

lemma demo_parse: "nh_parse demo_near_host ''G'' = Some demo_report" "nh_parse demo_near_host ''V'' = Some demo_verdict"
    "nh_parse demo_near_host ''P'' = Some (JObj [])" "nh_date demo_near_host ''a'' = Some 0" "nh_date demo_near_host ''b'' = Some 1000"
  by (simp_all add: demo_near_host_def)

lemma demo_normal: "normalize_hex (drop 2 demo_zero_hash) = drop 2 demo_zero_hash" "''0x'' @ normalize_hex demo_zero_hash = demo_zero_hash"
  by (simp_all add: normalize_hex_def demo_zero_hash_def starts_with_def lower_def lower_char_def)

lemma demo_peer: "peerSpkiSha256 demo_provider_host [1] = Inr (drop 2 demo_zero_hash)"
proof -
  have "cx_sha demo_near_crypto d = replicate 32 0" for d by (simp add: demo_near_crypto_def)
  then show ?thesis using demo_zero_text by (simp add: peerSpkiSha256_def demo_provider_host_simps)
qed

lemma demo_report_read: "read_report demo_provider_host (demo_base\<lparr>up_pathname := ''/''\<rparr>) ''m'' demo_attempt = Inr (demo_report, drop 2 demo_zero_hash)"
proof -
  have body: "text_of (utf8 ''G'') = ''G''" "length (utf8 ''G'') = 1" by (simp, simp add: utf8_def)
  have "requestBytes demo_provider_host None h True 8388608 demo_wire
    = Inr \<lparr>ws_status = 200, ws_length = None, ws_encoding = None, ws_body = Some (utf8 ''G''), ws_peer = drop 2 demo_zero_hash\<rparr>" for h
    by (simp add: requestBytes_def receive_reply_def demo_wire_def demo_provider_host_simps demo_peer declared_length_def foreign_encoding_def nonempty_text_def
        body max_safe_def)
  moreover have "nonce_text demo_attempt = drop 2 demo_zero_hash" using demo_zero_text by (simp add: nonce_text_def demo_attempt_def)
  moreover have "cloud_base (demo_base\<lparr>up_pathname := ''/''\<rparr>)" by (simp add: cloud_base_def demo_base_def)
  moreover have "gateway_report True demo_report
      = Some (JObj [(''request_nonce'', JStr (drop 2 demo_zero_hash)), (''tls_cert_fingerprint'', JStr (drop 2 demo_zero_hash))])"
    "json_object demo_report" "has_models demo_report"
    by (simp_all add: gateway_report_def demo_report_def json_field_def json_object_def has_models_def)
  moreover have wire: "aw_wire demo_attempt = demo_wire" by (simp add: demo_attempt_def)
  ultimately show ?thesis
    using wire by (simp add: read_report_def demo_provider_host_simps body demo_parse demo_normal json_text_def json_field_def of_option_def)
qed

definition demo_judged :: verdict where
  "demo_judged = \<lparr>vd_signingAddress = demo_signer, vd_tlsSpkiSha256 = drop 2 demo_zero_hash, vd_attestationRef = demo_zero_hash, vd_verifiedAt = ''a'',
     vd_expiresAt = ''b'', vd_allowedSigners = Some [demo_signer], vd_archivedHardwareVerified = None, vd_json = demo_verdict\<rparr>"

lemma demo_verdict_parsed: "verdictSchema demo_provider_host demo_verdict = Some demo_judged"
proof -
  have "signerAddress demo_signer" "hex32 demo_zero_hash" "hex32 (drop 2 demo_zero_hash)"
    by (simp_all add: signerAddress_def prefixed_def hex32_def demo_signer_def demo_zero_hash_def zero_address_def lower_def lower_char_def
        is_hex_digit_def is_lower_hex_digit_def is_digit_def list_all_iff)
  moreover have "passed_through demo_verdict = demo_verdict"
    by (simp add: passed_through_def demo_verdict_def verdict_keys_def)
  ultimately show ?thesis
    by (simp add: verdictSchema_def demo_judged_def demo_verdict_def json_text_def json_field_def signers_field_def archived_field_def demo_provider_host_simps)
qed

lemma demo_verdict_run: "runNearVerifier demo_provider_host demo_provider_options (Some input) False (aw_child demo_attempt) = (True, Inr demo_judged)"
proof -
  have v: "text_of (utf8 ''V'') = ''V''" "length (utf8 ''V'') = 1" by (simp, simp add: utf8_def)
  have "fixedVerifierError demo_provider_host (utf8 ''V'') = None"
    by (simp add: fixedVerifierError_def demo_provider_host_simps v demo_parse) (simp add: demo_verdict_def json_field_def)
  then show ?thesis
    by (simp add: runNearVerifier_def demo_attempt_def checked_nvidia_def demo_provider_options_def rmap_def v closed_child_def
        demo_provider_host_simps demo_parse demo_verdict_parsed of_option_def)
qed

lemma demo_accepted:
  "accept_verdict demo_provider_host (demo_base\<lparr>up_pathname := ''/''\<rparr>) demo_attempt demo_report (drop 2 demo_zero_hash) (utf8 ''P'') demo_judged = Inr demo_bound"
proof -
  have "attestation_proof demo_provider_host demo_report demo_judged (utf8 ''P'') = Inr demo_attestation"
    by (simp add: attestation_proof_def demo_provider_host_simps demo_parse rmap_def of_option_def demo_attestation_def demo_hash demo_judged_def
        del: stringify.simps)
  moreover have "cloud_base (demo_base\<lparr>up_pathname := ''/''\<rparr>)" by (simp add: cloud_base_def demo_base_def)
  moreover have "verdict_current demo_provider_host 500 demo_judged"
    by (simp add: verdict_current_def demo_provider_host_simps demo_parse demo_judged_def)
  ultimately show ?thesis
    by (simp add: accept_verdict_def demo_judged_def signer_set_ok_def same_def demo_normal of_option_def demo_bound_def demo_session_def)
      (use demo_normal(2) in \<open>simp add: demo_attempt_def of_option_def\<close>)
qed

lemma demo_admitted:
  "near_verify demo_provider_host demo_provider_options 1 ''v'' ''https://cloud-api.near.ai'' ''m'' demo_policy_read demo_rounds
     = ([ReportRead (report_query ''m'' True (drop 2 demo_zero_hash)) (Some ''k''),
         VerifierStarted [''v'', ''--policy'', ''p'', ''--cloud''] (verifier_input True ''m'' demo_report (drop 2 demo_zero_hash) (drop 2 demo_zero_hash))], Inr demo_bound)"
proof -
  have base: "nearBaseUrl demo_provider_host ''https://cloud-api.near.ai'' = Inr (demo_base\<lparr>up_pathname := ''/''\<rparr>)"
    by (simp add: nearBaseUrl_def demo_provider_host_simps demo_near_host_def demo_base_def near_hostname_def)
  have c: "cloud_base (demo_base\<lparr>up_pathname := ''/''\<rparr>)" by (simp add: cloud_base_def demo_base_def)
  have policy: "policy_before demo_attempt None = Inr (utf8 ''P'')" by (simp add: policy_before_def demo_attempt_def of_option_def utf8_def)
  have nonce: "nonce_text demo_attempt = drop 2 demo_zero_hash" using demo_zero_text by (simp add: nonce_text_def demo_attempt_def)
  have key: "cloud_key demo_provider_options True = Inr (Some ''k'')"
    by (simp add: cloud_key_def demo_provider_options_def trim_def is_space_def line_break_def)
  have args: "verifier_args demo_provider_options ''v'' True False = [''v'', ''--policy'', ''p'', ''--cloud'']"
    by (simp add: verifier_args_def demo_provider_options_def)
  have "verifyAttempt demo_provider_host demo_provider_options ''v'' (demo_base\<lparr>up_pathname := ''/''\<rparr>) ''m'' None demo_attempt
    = ([ReportRead (report_query ''m'' True (drop 2 demo_zero_hash)) (Some ''k''),
        VerifierStarted [''v'', ''--policy'', ''p'', ''--cloud''] (verifier_input True ''m'' demo_report (drop 2 demo_zero_hash) (drop 2 demo_zero_hash))], Inr demo_bound)"
    by (simp add: verifyAttempt_def c key demo_report_read policy nonce demo_verdict_run demo_accepted args)
      (simp add: demo_attempt_def)
  then show ?thesis
    by (simp add: near_verify_def base allowed_attempts_def c same_policy_def demo_rounds_def)
qed


theorem admission_bounded_witness:
  "createNearAttestationVerifier demo_provider_options = Inr 1
     \<and> closed_connections (fst (near_verify demo_provider_host demo_provider_options 1 ''v'' ''https://cloud-api.near.ai'' ''m'' demo_policy_read demo_rounds)) = 0"
proof -
  have c: "createNearAttestationVerifier demo_provider_options = Inr 1"
    by (simp add: createNearAttestationVerifier_def demo_provider_options_def is_safe_integer_def max_safe_def)
  show ?thesis using admission_bounded [OF c demo_admitted] c unfolding demo_admitted kept_def report_reads_def by simp
qed

end
