(* ===== verification/Receipt_Verifier.thy ===== *)
theory Receipt_Verifier
  imports Receipts Near_Provider
begin

text \<open>
  The public verifier of receipts that runs in a browser, \<open>frontend/src/enclave/receipt-verifier.ts\<close>: the parser of an
  exported receipt, the check of its signature against the reader's own roots of trust, and the check against the chain.

  Typed-data hashing and recovery are \<open>typed_crypto\<close>, the ABI coder is \<open>receipt_abi\<close>, and the RPC endpoint is a function
  of the number of the request, so each request may meet another state of the chain.
\<close>

section \<open>Receipts as exported\<close>

record portable_receipt =
  pt_receiptVersion :: nat
  pt_nonce :: "string option"
  pt_chainId :: int
  pt_verifierAddress :: string
  pt_modelHash :: string
  pt_codeHash :: string
  pt_inHash :: string
  pt_outHash :: string
  pt_attRef :: string
  pt_ts :: string
  pt_sig :: string
  pt_typedHash :: string
  pt_anchoredTx :: "string option"

record receipt_trust =
  rt_chainId :: int
  rt_verifierAddress :: string
  rt_signer :: string

definition hex_schema :: "string \<Rightarrow> bool" where
  "hex_schema s = prefixed 64 s"

definition address_schema :: "string \<Rightarrow> bool" where
  "address_schema s \<longleftrightarrow> prefixed 40 s \<and> \<not> zero_address s"

definition chain_schema :: "int \<Rightarrow> bool" where
  "chain_schema n \<longleftrightarrow> 0 < n \<and> n \<le> max_safe"

definition ts_schema :: "string \<Rightarrow> bool" where
  "ts_schema s \<longleftrightarrow> (s = ''0'' \<or> (1 \<le> length s \<and> length s \<le> 20 \<and> list_all is_digit s \<and> hd s \<noteq> CHR ''0'')) \<and> dec_number s \<le> 2 ^ 64 - 1"

text \<open>\<open>receiptSchema\<close> on a receipt that has the form of its type.\<close>

definition receiptSchema :: "portable_receipt \<Rightarrow> bool" where
  "receiptSchema p \<longleftrightarrow>
     pt_receiptVersion p \<in> {1, 2} \<and> (case pt_nonce p of Some n \<Rightarrow> hex_schema n | None \<Rightarrow> True) \<and> chain_schema (pt_chainId p)
     \<and> address_schema (pt_verifierAddress p) \<and> list_all hex_schema [pt_modelHash p, pt_codeHash p, pt_inHash p, pt_outHash p, pt_attRef p]
     \<and> ts_schema (pt_ts p) \<and> prefixed 130 (pt_sig p) \<and> hex_schema (pt_typedHash p)
     \<and> (case pt_anchoredTx p of Some t \<Rightarrow> hex_schema t | None \<Rightarrow> True) \<and> (pt_receiptVersion p = 2 \<longrightarrow> pt_nonce p \<noteq> None)"

definition trustSchema :: "receipt_trust \<Rightarrow> bool" where
  "trustSchema t \<longleftrightarrow> chain_schema (rt_chainId t) \<and> address_schema (rt_verifierAddress t) \<and> address_schema (rt_signer t)"

text \<open>A field that may be absent or null.\<close>

definition nullish_text :: "string \<Rightarrow> json \<Rightarrow> string option option" where
  "nullish_text k v = (case json_field k v of None \<Rightarrow> Some None | Some JNull \<Rightarrow> Some None | Some (JStr s) \<Rightarrow> Some (Some s) | Some _ \<Rightarrow> None)"

definition json_int :: "string \<Rightarrow> json \<Rightarrow> int option" where
  "json_int k v = (case json_field k v of Some (JNum n) \<Rightarrow> Some n | _ \<Rightarrow> None)"

definition receipt_of_json :: "json \<Rightarrow> portable_receipt option" where
  "receipt_of_json v =
     (case (json_int ''receiptVersion'' v, nullish_text ''nonce'' v, json_int ''chainId'' v, nullish_text ''anchoredTx'' v,
            all_some (map (\<lambda>k. json_text k v) [''verifierAddress'', ''modelHash'', ''codeHash'', ''inHash'', ''outHash'', ''attRef'', ''ts'', ''sig'', ''typedHash''])) of
        (Some ver, Some nonce, Some chain, Some anchored, Some [va, mh, ch, ih, oh, ar, ts, sig, th]) \<Rightarrow>
          (let p = \<lparr>pt_receiptVersion = nat ver, pt_nonce = nonce, pt_chainId = chain, pt_verifierAddress = va, pt_modelHash = mh, pt_codeHash = ch,
             pt_inHash = ih, pt_outHash = oh, pt_attRef = ar, pt_ts = ts, pt_sig = sig, pt_typedHash = th, pt_anchoredTx = anchored\<rparr>
           in if 0 \<le> ver \<and> receiptSchema p then Some p else None)
      | _ \<Rightarrow> None)"

definition parseReceipt :: "(string \<Rightarrow> json option) \<Rightarrow> string \<Rightarrow> string + portable_receipt" where
  "parseReceipt parse text =
     (if length (utf8 text) > 65536 then Inl ''Receipt exceeds the 64 KiB limit.''
      else of_option ''Invalid receipt JSON. Use a single exported receipt with its chain ID, verifier address and typed hash.''
        (case parse text of Some v \<Rightarrow> receipt_of_json v | None \<Rightarrow> None))"

section \<open>The signature\<close>

text \<open>\<open>RECEIPT_TYPES\<close> of \<open>frontend/src/enclave/api.ts\<close>.\<close>

definition API_RECEIPT_TYPES :: "(string \<times> string) list" where
  "API_RECEIPT_TYPES = [(''modelHash'', ''bytes32''), (''codeHash'', ''bytes32''), (''inHash'', ''bytes32''),
     (''outHash'', ''bytes32''), (''attRef'', ''bytes32''), (''nonce'', ''bytes32''), (''ts'', ''uint64'')]"

definition zero_nonce :: string where
  "zero_nonce = ''0x'' @ replicate 64 (CHR ''0'')"

definition message_value :: "portable_receipt \<Rightarrow> string \<Rightarrow> typed_value" where
  "message_value p name =
     (if name = ''modelHash'' then TypedText (pt_modelHash p) else if name = ''codeHash'' then TypedText (pt_codeHash p)
      else if name = ''inHash'' then TypedText (pt_inHash p) else if name = ''outHash'' then TypedText (pt_outHash p)
      else if name = ''attRef'' then TypedText (pt_attRef p)
      else if name = ''nonce'' then TypedText (case pt_nonce p of Some n \<Rightarrow> n | None \<Rightarrow> zero_nonce)
      else TypedInt (int (dec_number (pt_ts p))))"

definition receiptTypedData :: "portable_receipt \<Rightarrow> typed_data" where
  "receiptTypedData p =
     \<lparr>td_domain = \<lparr>dm_name = ''ENCLAVE'', dm_version = nat_dec (pt_receiptVersion p), dm_chainId = pt_chainId p, dm_contract = pt_verifierAddress p\<rparr>,
      td_primary = ''InferenceReceipt'',
      td_fields = map (\<lambda>(name, ty). (name, ty, message_value p name))
        (if pt_receiptVersion p = 2 then API_RECEIPT_TYPES else filter (\<lambda>f. fst f \<noteq> ''nonce'') API_RECEIPT_TYPES)\<rparr>"

definition canonical_signature :: "string \<Rightarrow> bool" where
  "canonical_signature sig \<longleftrightarrow>
     (let s = hex_number (take 64 (drop 66 sig)); v = hex_number (drop 130 sig) in \<not> (s = 0 \<or> s > halfCurveOrder) \<and> v \<in> {0, 1, 27, 28})"

record local_check =
  lc_digest :: string
  lc_signer :: string
  lc_hardwareAttestationVerified :: bool
  lc_ioHashesVerified :: bool

definition verifyLocalReceipt :: "typed_crypto \<Rightarrow> portable_receipt \<Rightarrow> receipt_trust \<Rightarrow> string + local_check" where
  "verifyLocalReceipt ty p trust =
     rbind (require (receiptSchema p \<and> trustSchema trust) ''Invalid input'') (\<lambda>_.
     rbind (require (pt_chainId p = rt_chainId trust \<and> same (pt_verifierAddress p) (rt_verifierAddress trust))
       ''Receipt domain does not match the trusted chain and verifier.'') (\<lambda>_.
     rbind (require (canonical_signature (pt_sig p)) ''Receipt signature is not canonical.'') (\<lambda>_.
     let typed = receiptTypedData p; digest = ty_hash ty typed in
     rbind (require (same digest (pt_typedHash p)) ''Receipt hash does not match its signed fields and domain.'') (\<lambda>_.
     rbind (of_option ''Receipt signature is invalid.'' (ty_recover ty typed (pt_sig p))) (\<lambda>signer.
     rbind (require (same signer (rt_signer trust)) ''Receipt was not signed by the trusted signer.'') (\<lambda>_.
     Inr \<lparr>lc_digest = digest, lc_signer = signer, lc_hardwareAttestationVerified = False, lc_ioHashesVerified = False\<rparr>))))))"

section \<open>The RPC endpoint\<close>

text \<open>The URL as its parser gives it; \<open>None\<close> when it has none.\<close>

definition validateRpcUrl :: "url_parts option \<Rightarrow> string \<Rightarrow> string + string" where
  "validateRpcUrl url href =
     (case url of
        None \<Rightarrow> Inl ''Enter an HTTPS RPC URL or localhost HTTP URL.''
      | Some u \<Rightarrow>
          if (up_protocol u \<noteq> ''https:'' \<and> \<not> (up_protocol u = ''http:'' \<and> up_hostname u \<in> {''localhost'', ''127.0.0.1'', ''[::1]''}))
             \<or> up_username u \<noteq> [] \<or> up_password u \<noteq> [] \<or> up_hash u \<noteq> []
          then Inl ''RPC requires HTTPS, except on localhost; embedded login credentials are not allowed.'' else Inr href)"

definition allowed_methods :: "string list" where
  "allowed_methods = [''eth_chainId'', ''eth_getBlockByNumber'', ''eth_getCode'', ''eth_call'', ''eth_getTransactionReceipt'']"

text \<open>One HTTP exchange; \<open>None\<close> is a request that failed or was aborted.\<close>

record rpc_reply =
  ry_ok :: bool
  ry_length :: "string option"
  ry_body :: "bytes list option"

definition truthy_json :: "json \<Rightarrow> bool" where
  "truthy_json v = (case v of JNull \<Rightarrow> False | JBool b \<Rightarrow> b | JNum n \<Rightarrow> n \<noteq> 0 | JStr s \<Rightarrow> s \<noteq> [] | _ \<Rightarrow> True)"

definition declared_over :: "int \<Rightarrow> string option \<Rightarrow> bool" where
  "declared_over maximum h = (case h of Some s \<Rightarrow> list_all is_digit s \<and> int (dec_number s) > maximum | None \<Rightarrow> False)"

definition rpc_result :: "(string \<Rightarrow> json option) \<Rightarrow> nat \<Rightarrow> rpc_reply \<Rightarrow> json option" where
  "rpc_result parse i r =
     (case ry_body r of
        None \<Rightarrow> None
      | Some chunks \<Rightarrow>
          if \<not> ry_ok r \<or> declared_over 1048576 (ry_length r) \<or> \<not> within_limit 1048576 0 chunks then None
          else (case decode_text (concat chunks) of
              None \<Rightarrow> None
            | Some s \<Rightarrow>
                (case parse s of
                   None \<Rightarrow> None
                 | Some b \<Rightarrow>
                     if json_text ''jsonrpc'' b = Some ''2.0'' \<and> json_field ''id'' b = Some (JNum (int i))
                        \<and> (case json_field ''error'' b of Some e \<Rightarrow> \<not> truthy_json e | None \<Rightarrow> True)
                     then json_field ''result'' b else None)))"

definition browserRpc :: "(string \<Rightarrow> json option) \<Rightarrow> bool \<Rightarrow> nat \<Rightarrow> string \<Rightarrow> rpc_reply option \<Rightarrow> string + json" where
  "browserRpc parse aborted i method reply =
     (if method \<notin> set allowed_methods then Inl ''Only read-only verification calls are allowed.''
      else of_option (if aborted then ''Verification cancelled.''
          else ''RPC request failed or returned invalid data. Check the endpoint, CORS support and contract policy.'')
        (case reply of Some r \<Rightarrow> rpc_result parse i r | None \<Rightarrow> None))"

section \<open>The check against the chain\<close>

record rpc_call =
  rc_method :: string
  rc_params :: "json list"

text \<open>A program over the endpoint: it counts the requests made, and each request is answered by its own number.\<close>

type_synonym 'a chain_check = "(nat \<Rightarrow> rpc_call \<Rightarrow> string + json) \<Rightarrow> nat \<Rightarrow> string + ('a \<times> nat)"

definition ck_return :: "'a \<Rightarrow> 'a chain_check" where
  "ck_return x = (\<lambda>rpc n. Inr (x, n))"

definition ck_lift :: "string + 'a \<Rightarrow> 'a chain_check" where
  "ck_lift m = (\<lambda>rpc n. rmap (\<lambda>x. (x, n)) m)"

definition ck_bind :: "'a chain_check \<Rightarrow> ('a \<Rightarrow> 'b chain_check) \<Rightarrow> 'b chain_check" where
  "ck_bind m f = (\<lambda>rpc n. rbind (m rpc n) (\<lambda>(x, n'). f x rpc n'))"

definition ck_rpc :: "string \<Rightarrow> json list \<Rightarrow> json chain_check" where
  "ck_rpc method params = (\<lambda>rpc n. rmap (\<lambda>v. (v, Suc n)) (rpc (Suc n) \<lparr>rc_method = method, rc_params = params\<rparr>))"

definition invalid_data :: string where
  "invalid_data = ''Invalid data''"

definition quantity :: "json \<Rightarrow> string + nat" where
  "quantity v =
     (case v of
        JStr s \<Rightarrow>
          if lower (take 2 s) = ''0x'' \<and> list_all is_hex_digit (drop 2 s) \<and> (drop 2 s = ''0'' \<or> (drop 2 s \<noteq> [] \<and> hd (drop 2 s) \<noteq> CHR ''0''))
          then Inr (hex_number (drop 2 s)) else Inl invalid_data
      | _ \<Rightarrow> Inl invalid_data)"

definition text_schema :: "(string \<Rightarrow> bool) \<Rightarrow> json option \<Rightarrow> string + string" where
  "text_schema ok v = (case v of Some (JStr s) \<Rightarrow> if ok s then Inr s else Inl invalid_data | _ \<Rightarrow> Inl invalid_data)"

definition blockSchema :: "json \<Rightarrow> string + (nat \<times> string)" where
  "blockSchema v =
     rbind (of_option invalid_data (json_field ''number'' v)) (\<lambda>n. rbind (quantity n) (\<lambda>number.
     rbind (text_schema hex_schema (json_field ''hash'' v)) (\<lambda>hash. Inr (number, hash))))"

record tx_log =
  xl_address :: string
  xl_data :: string
  xl_topics :: "string list"
  xl_removed :: bool

record tx_proof =
  xp_transactionHash :: string
  xp_blockHash :: string
  xp_blockNumber :: nat
  xp_logs :: "tx_log list"

definition byte_text :: "string \<Rightarrow> bool" where
  "byte_text s \<longleftrightarrow> lower (take 2 s) = ''0x'' \<and> even (length s) \<and> list_all is_hex_digit (drop 2 s)"

definition log_schema :: "json \<Rightarrow> string + tx_log" where
  "log_schema v =
     rbind (text_schema address_schema (json_field ''address'' v)) (\<lambda>a.
     rbind (text_schema byte_text (json_field ''data'' v)) (\<lambda>d.
     rbind (case json_field ''topics'' v of
         Some (JArr ts) \<Rightarrow> of_option invalid_data (all_some (map (\<lambda>t. case t of JStr s \<Rightarrow> if hex_schema s then Some s else None | _ \<Rightarrow> None) ts))
       | _ \<Rightarrow> Inl invalid_data) (\<lambda>topics.
     rbind (case json_field ''removed'' v of None \<Rightarrow> Inr False | Some (JBool b) \<Rightarrow> Inr b | Some _ \<Rightarrow> Inl invalid_data) (\<lambda>removed.
     Inr \<lparr>xl_address = a, xl_data = d, xl_topics = topics, xl_removed = removed\<rparr>))))"

definition ok_value :: "'e + 'a \<Rightarrow> 'a option" where
  "ok_value m = (case m of Inr x \<Rightarrow> Some x | Inl _ \<Rightarrow> None)"

definition txSchema :: "json \<Rightarrow> string + tx_proof" where
  "txSchema v =
     rbind (text_schema hex_schema (json_field ''transactionHash'' v)) (\<lambda>h.
     rbind (text_schema hex_schema (json_field ''blockHash'' v)) (\<lambda>bh.
     rbind (of_option invalid_data (json_field ''blockNumber'' v)) (\<lambda>bn. rbind (quantity bn) (\<lambda>number.
     rbind (require (json_text ''status'' v = Some ''0x1'') invalid_data) (\<lambda>_.
     rbind (case json_field ''logs'' v of
         Some (JArr ls) \<Rightarrow> of_option invalid_data (all_some (map (\<lambda>l. ok_value (log_schema l)) ls))
       | _ \<Rightarrow> Inl invalid_data) (\<lambda>logs.
     Inr \<lparr>xp_transactionHash = h, xp_blockHash = bh, xp_blockNumber = number, xp_logs = logs\<rparr>))))))"

text \<open>viem's ABI coder for the verifier and the registry: call data by function and arguments, and the results.\<close>

record verified_event =
  ve_receiptHash :: string
  ve_signer :: string
  ve_fields :: "string list"

record receipt_abi =
  ra_call :: "string \<Rightarrow> typed_value list \<Rightarrow> string"
  ra_address :: "string \<Rightarrow> string option"
  ra_bytes32 :: "string \<Rightarrow> string option"
  ra_uint :: "string \<Rightarrow> nat option"
  ra_policy :: "string \<Rightarrow> (string \<times> nat) option"
  ra_verified :: "string \<Rightarrow> string list \<Rightarrow> verified_event option"

fun hex_text :: "nat \<Rightarrow> string" where
  "hex_text n = (if n < 16 then [hex_char n] else hex_text (n div 16) @ [hex_char (n mod 16)])"

declare hex_text.simps [simp del]

definition block_tag :: "nat \<Rightarrow> string" where
  "block_tag n = ''0x'' @ hex_text n"

definition contract_read :: "string \<Rightarrow> string \<Rightarrow> string \<Rightarrow> string chain_check" where
  "contract_read tag target calldata =
     ck_bind (ck_rpc ''eth_call'' [JObj [(''to'', JStr target), (''data'', JStr calldata)], JStr tag]) (\<lambda>v.
     ck_lift (case v of JStr s \<Rightarrow> if byte_text s \<and> length s > 2 then Inr s else Inl ''Invalid contract response.'' | _ \<Rightarrow> Inl ''Invalid contract response.''))"

definition decoded :: "(string \<Rightarrow> 'a option) \<Rightarrow> string chain_check \<Rightarrow> 'a chain_check" where
  "decoded decode m = ck_bind m (\<lambda>s. ck_lift (of_option ''Decoding failed'' (decode s)))"

datatype anchor_status = NotProvided | AnchorPending | AnchorConfirmed nat

definition hash_fields :: "portable_receipt \<Rightarrow> string list" where
  "hash_fields p = [pt_modelHash p, pt_codeHash p, pt_inHash p, pt_outHash p, pt_attRef p]"

definition anchor_log :: "receipt_abi \<Rightarrow> receipt_trust \<Rightarrow> portable_receipt \<Rightarrow> string \<Rightarrow> tx_log \<Rightarrow> bool" where
  "anchor_log abi trust p digest log \<longleftrightarrow>
     same (xl_address log) (rt_verifierAddress trust) \<and> \<not> xl_removed log
     \<and> (case ra_verified abi (xl_data log) (xl_topics log) of
          Some e \<Rightarrow> same (ve_receiptHash e) digest \<and> same (ve_signer e) (rt_signer trust)
            \<and> length (ve_fields e) = 5 \<and> list_all2 same (ve_fields e) (hash_fields p)
        | None \<Rightarrow> False)"

definition check_anchor :: "receipt_abi \<Rightarrow> receipt_trust \<Rightarrow> portable_receipt \<Rightarrow> string \<Rightarrow> nat \<Rightarrow> anchor_status chain_check" where
  "check_anchor abi trust p digest head =
     (case (case pt_anchoredTx p of Some t \<Rightarrow> nonempty_text (Some t) | None \<Rightarrow> None) of
        None \<Rightarrow> ck_return NotProvided
      | Some anchored \<Rightarrow>
          ck_bind (ck_rpc ''eth_getTransactionReceipt'' [JStr anchored]) (\<lambda>raw.
          if raw = JNull then ck_return AnchorPending
          else ck_bind (ck_lift (txSchema raw)) (\<lambda>tx.
            ck_bind (ck_lift (require (same (xp_transactionHash tx) anchored \<and> xp_blockNumber tx \<le> head)
              ''Anchor transaction is inconsistent with the checked chain snapshot.'')) (\<lambda>_.
            ck_bind (ck_bind (ck_rpc ''eth_getBlockByNumber'' [JStr (block_tag (xp_blockNumber tx)), JBool False]) (\<lambda>v. ck_lift (blockSchema v))) (\<lambda>(number, hash).
            ck_bind (ck_lift (require (number = xp_blockNumber tx \<and> same hash (xp_blockHash tx)) ''Anchor transaction is not in the canonical block.'')) (\<lambda>_.
            ck_bind (ck_lift (require (list_ex (anchor_log abi trust p digest) (xp_logs tx))
              ''Anchor transaction does not contain this receipt's Verified event from the trusted verifier.'')) (\<lambda>_.
            ck_return (AnchorConfirmed (head - xp_blockNumber tx + 1)))))))))"

record chain_result =
  cq_local :: local_check
  cq_blockNumber :: nat
  cq_registry :: string
  cq_listingId :: nat
  cq_policyHash :: string
  cq_policyVersion :: nat
  cq_policyBound :: bool
  cq_anchor :: anchor_status

definition code_text :: "json \<Rightarrow> bool" where
  "code_text v = (case v of JStr s \<Rightarrow> lower (take 2 s) = ''0x'' \<and> length s > 2 \<and> list_all is_hex_digit (drop 2 s) \<and> s \<noteq> ''0x0'' | _ \<Rightarrow> False)"

definition verify_args :: "portable_receipt \<Rightarrow> typed_value list" where
  "verify_args p = map (\<lambda>(_, _, v). v) (td_fields (receiptTypedData p)) @ [TypedText (pt_sig p)]"

definition verifyOnchainReceipt :: "typed_crypto \<Rightarrow> receipt_abi \<Rightarrow> portable_receipt \<Rightarrow> receipt_trust \<Rightarrow> chain_result chain_check" where
  "verifyOnchainReceipt ty abi p trust =
     ck_bind (ck_lift (verifyLocalReceipt ty p trust)) (\<lambda>local.
     ck_bind (ck_bind (ck_rpc ''eth_chainId'' []) (\<lambda>v. ck_lift (quantity v))) (\<lambda>chainId.
     ck_bind (ck_lift (require (int chainId = rt_chainId trust) ''RPC network does not match the trusted chain ID.'')) (\<lambda>_.
     ck_bind (ck_bind (ck_rpc ''eth_getBlockByNumber'' [JStr ''latest'', JBool False]) (\<lambda>v. ck_lift (blockSchema v))) (\<lambda>(head, hash).
     let tag = block_tag head; verifier = rt_verifierAddress trust in
     ck_bind (ck_rpc ''eth_getCode'' [JStr verifier, JStr tag]) (\<lambda>code.
     ck_bind (ck_lift (require (code_text code) ''No verifier contract exists at the trusted address.'')) (\<lambda>_.
     ck_bind (decoded (ra_address abi) (contract_read tag verifier (ra_call abi ''enclaveSigner'' []))) (\<lambda>currentSigner.
     ck_bind (ck_lift (require (same currentSigner (rt_signer trust)) ''The verifier's current signer differs from the trusted signer. Historical receipts may require a separate historical policy review.'')) (\<lambda>_.
     ck_bind (decoded (ra_bytes32 abi) (contract_read tag verifier
       (ra_call abi (if pt_receiptVersion p = 2 then ''verifyReceipt'' else ''verifyLegacyReceipt'') (verify_args p)))) (\<lambda>verified.
     ck_bind (ck_lift (require (same verified (lc_digest local)) ''The verifier returned a different receipt hash.'')) (\<lambda>_.
     ck_bind (decoded (ra_address abi) (contract_read tag verifier (ra_call abi ''registry'' []))) (\<lambda>registry.
     ck_bind (ck_lift (require (address_schema registry) invalid_data)) (\<lambda>_.
     ck_bind (decoded (ra_uint abi) (contract_read tag registry (ra_call abi ''idByHashes'' [TypedText (pt_modelHash p), TypedText (pt_codeHash p)]))) (\<lambda>listingId.
     ck_bind (ck_lift (require (listingId \<noteq> 0) ''The receipt model/code pair has no registry listing.'')) (\<lambda>_.
     ck_bind (decoded (ra_policy abi) (contract_read tag registry (ra_call abi ''listingPolicy'' [TypedInt (int listingId)]))) (\<lambda>(policyHash, policyVersion).
     ck_bind (check_anchor abi trust p (lc_digest local) head) (\<lambda>anchor.
     ck_bind (ck_bind (ck_rpc ''eth_getBlockByNumber'' [JStr tag, JBool False]) (\<lambda>v. ck_lift (blockSchema v))) (\<lambda>(finalNumber, finalHash).
     ck_bind (ck_lift (require (finalNumber = head \<and> same finalHash hash) ''The chain reorganized during verification. Run the check again.'')) (\<lambda>_.
     ck_return \<lparr>cq_local = local, cq_blockNumber = head, cq_registry = registry, cq_listingId = listingId, cq_policyHash = policyHash,
       cq_policyVersion = policyVersion,
       cq_policyBound = (policyVersion > 0 \<and> \<not> (prefixed 64 policyHash \<and> list_all (\<lambda>c. c = CHR ''0'') (drop 2 policyHash))),
       cq_anchor = anchor\<rparr>))))))))))))))))))"

section \<open>The browser agrees with the enclave\<close>

definition core_receipt :: "portable_receipt \<Rightarrow> inference_receipt" where
  "core_receipt p = \<lparr>ir_version = pt_receiptVersion p, ir_modelHash = pt_modelHash p, ir_codeHash = pt_codeHash p, ir_inHash = pt_inHash p,
     ir_outHash = pt_outHash p, ir_attRef = pt_attRef p, ir_nonce = pt_nonce p, ir_ts = int (dec_number (pt_ts p))\<rparr>"

lemma receiptTypedData_core:
  assumes "receiptSchema p"
  shows "receipt_typed_data (core_receipt p) (pt_chainId p) (pt_verifierAddress p) = Inr (receiptTypedData p)"
proof -
  have "nat_dec 1 = ''1''" "nat_dec 2 = ''2''" by code_simp+
  moreover from assms have v: "pt_receiptVersion p = 1 \<or> pt_receiptVersion p = 2 \<and> pt_nonce p \<noteq> None" by (auto simp: receiptSchema_def)
  ultimately show ?thesis
    by (auto simp: receipt_typed_data_Inr receiptTypedData_def core_receipt_def receipt_types_def RECEIPT_TYPES_def LEGACY_RECEIPT_TYPES_def
        API_RECEIPT_TYPES_def receipt_field_def message_value_def)
qed

text \<open>Recovery from a signature of \<open>d\<close> over \<open>e\<close> gives the signer's address exactly when the two have one digest.\<close>

definition recovers_signer :: "typed_crypto \<Rightarrow> string \<Rightarrow> typed_data \<Rightarrow> typed_data \<Rightarrow> bool" where
  "recovers_signer ty key d e \<longleftrightarrow> ((\<exists>a. ty_recover ty e (ty_sign ty key d) = Some a \<and> same a (ty_address ty key)) \<longleftrightarrow> typed_same d e)"

text \<open>
  Claim C35. The browser accepts an enclave's signature for exactly what the enclave signed: with the enclave's address as
  the trusted signer, a receipt that carries the signature is accepted if and only if its fields, chain and verifier are
  those of the signed receipt and are the trusted ones, and its typed hash is that of its fields.
\<close>

theorem browser_accepts_exactly_signed:
  assumes "receipt_typed_data r c v = Inr d" and "recovers_signer ty key d (receiptTypedData p)" and "signReceipt ty r key c v = Inr s"
    and "receiptSchema p" and "trustSchema trust" and "pt_sig p = sr_sig s" and "canonical_signature (pt_sig p)" and "same (rt_signer trust) (ty_address ty key)"
  shows "is_ok (verifyLocalReceipt ty p trust) \<longleftrightarrow>
    same_receipt r (core_receipt p) \<and> pt_chainId p = c \<and> same (pt_verifierAddress p) v \<and> rt_chainId trust = c \<and> same (rt_verifierAddress trust) v
    \<and> same (ty_hash ty (receiptTypedData p)) (pt_typedHash p)"
proof -
  from assms(1,3) have d: "sr_sig s = ty_sign ty key d" by (auto simp: signReceipt_def res_simps)
  let ?e = "receiptTypedData p"
  have exact: "(\<exists>a. ty_recover ty ?e (pt_sig p) = Some a \<and> same a (rt_signer trust))
      \<longleftrightarrow> same_receipt r (core_receipt p) \<and> c = pt_chainId p \<and> same v (pt_verifierAddress p)"
    using assms(2,6,8) typed_same_receipt [OF assms(1) receiptTypedData_core [OF assms(4)]]
    by (simp add: recovers_signer_def d same_def)
  have "is_ok (verifyLocalReceipt ty p trust) \<longleftrightarrow> pt_chainId p = rt_chainId trust \<and> same (pt_verifierAddress p) (rt_verifierAddress trust)
      \<and> same (ty_hash ty ?e) (pt_typedHash p) \<and> (\<exists>a. ty_recover ty ?e (pt_sig p) = Some a \<and> same a (rt_signer trust))"
    using assms(4,5,7) by (auto simp: verifyLocalReceipt_def Let_def is_ok_def rbind_def require_def of_option_def split: option.splits if_splits)
  with exact show ?thesis by (auto simp: same_def)
qed

section \<open>What a chain result stands for\<close>

lemma ck_bind_InrE:
  assumes "ck_bind m f rpc n = Inr (y, n')"
  obtains x k where "m rpc n = Inr (x, k)" and "f x rpc k = Inr (y, n')"
  using assms by (auto simp: ck_bind_def elim!: rbind_InrE)

lemma ck_lift_Inr [simp]: "ck_lift m rpc n = Inr (x, k) \<longleftrightarrow> m = Inr x \<and> k = n"
  by (auto simp: ck_lift_def res_simps)

lemma ck_return_Inr [simp]: "ck_return x rpc n = Inr (y, k) \<longleftrightarrow> y = x \<and> k = n"
  by (auto simp: ck_return_def)

lemma ck_rpc_Inr [simp]: "ck_rpc m ps rpc n = Inr (v, k) \<longleftrightarrow> k = Suc n \<and> rpc (Suc n) \<lparr>rc_method = m, rc_params = ps\<rparr> = Inr v"
  by (auto simp: ck_rpc_def res_simps)

definition answered :: "(nat \<Rightarrow> rpc_call \<Rightarrow> string + json) \<Rightarrow> string \<Rightarrow> json list \<Rightarrow> (json \<Rightarrow> bool) \<Rightarrow> bool" where
  "answered rpc method params ok \<longleftrightarrow> (\<exists>i v. rpc i \<lparr>rc_method = method, rc_params = params\<rparr> = Inr v \<and> ok v)"

text \<open>An anchor: a transaction receipt of the endpoint, in the block the endpoint has at its height, with the log.\<close>

definition anchored_in ::
    "receipt_abi \<Rightarrow> receipt_trust \<Rightarrow> portable_receipt \<Rightarrow> string \<Rightarrow> (nat \<Rightarrow> rpc_call \<Rightarrow> string + json) \<Rightarrow> tx_proof \<Rightarrow> bool" where
  "anchored_in abi trust p digest rpc tx \<longleftrightarrow>
     (\<exists>anchored. pt_anchoredTx p = Some anchored \<and> same (xp_transactionHash tx) anchored
        \<and> answered rpc ''eth_getTransactionReceipt'' [JStr anchored] (\<lambda>v. txSchema v = Inr tx))
     \<and> answered rpc ''eth_getBlockByNumber'' [JStr (block_tag (xp_blockNumber tx)), JBool False]
         (\<lambda>v. \<exists>hash. blockSchema v = Inr (xp_blockNumber tx, hash) \<and> same hash (xp_blockHash tx))
     \<and> list_ex (anchor_log abi trust p digest) (xp_logs tx)"

lemma check_anchor_confirmed:
  assumes "check_anchor abi trust p digest head rpc n = Inr (AnchorConfirmed k, n')"
  shows "\<exists>tx. anchored_in abi trust p digest rpc tx \<and> xp_blockNumber tx \<le> head \<and> k = head - xp_blockNumber tx + 1"
proof -
  from assms obtain anchored where a: "pt_anchoredTx p = Some anchored"
    by (auto simp: check_anchor_def split: option.splits)
  from assms a obtain raw tx v hash where
    "rpc (Suc n) \<lparr>rc_method = ''eth_getTransactionReceipt'', rc_params = [JStr anchored]\<rparr> = Inr raw" "txSchema raw = Inr tx"
    "same (xp_transactionHash tx) anchored" "xp_blockNumber tx \<le> head"
    "rpc (Suc (Suc n)) \<lparr>rc_method = ''eth_getBlockByNumber'', rc_params = [JStr (block_tag (xp_blockNumber tx)), JBool False]\<rparr> = Inr v"
    "blockSchema v = Inr (xp_blockNumber tx, hash)" "same hash (xp_blockHash tx)" "list_ex (anchor_log abi trust p digest) (xp_logs tx)"
    "k = head - xp_blockNumber tx + 1"
    by (auto simp: check_anchor_def nonempty_text_def res_simps split: option.splits if_splits elim!: ck_bind_InrE)
  with a show ?thesis unfolding anchored_in_def answered_def by blast
qed


section \<open>Worked receipts\<close>

definition demo_field :: "char \<Rightarrow> string" where
  "demo_field c = ''0x'' @ replicate 64 c"

definition demo_verifier :: string where
  "demo_verifier = ''0x'' @ replicate 40 (CHR ''2'')"

definition demo_portable :: "char \<Rightarrow> portable_receipt" where
  "demo_portable out = \<lparr>pt_receiptVersion = 2, pt_nonce = Some (demo_field CHR ''4''), pt_chainId = 7, pt_verifierAddress = demo_verifier,
     pt_modelHash = demo_field CHR ''3'', pt_codeHash = demo_field CHR ''3'', pt_inHash = demo_field CHR ''3'', pt_outHash = demo_field out,
     pt_attRef = demo_field CHR ''3'', pt_ts = ''9'', pt_sig = demo_near_signature, pt_typedHash = demo_zero_hash, pt_anchoredTx = Some (demo_field CHR ''5'')\<rparr>"

definition demo_signed_data :: typed_data where
  "demo_signed_data = receiptTypedData (demo_portable CHR ''3'')"

definition demo_receipt_crypto :: typed_crypto where
  "demo_receipt_crypto = \<lparr>ty_hash = (\<lambda>_. demo_zero_hash), ty_sign = (\<lambda>_ _. demo_near_signature),
     ty_recover = (\<lambda>e _. if typed_same demo_signed_data e then Some demo_signer else None), ty_address = (\<lambda>_. demo_signer)\<rparr>"

definition demo_trust :: receipt_trust where
  "demo_trust = \<lparr>rt_chainId = 7, rt_verifierAddress = demo_verifier, rt_signer = demo_signer\<rparr>"

lemma demo_portable_ok: "receiptSchema (demo_portable c)" if "c \<in> {CHR ''3'', CHR ''6''}"
proof -
  have "hex_schema (demo_field d)" if "d \<in> {CHR ''3'', CHR ''4'', CHR ''5'', CHR ''6''}" for d
    using that by (auto simp: hex_schema_def demo_field_def prefixed_def is_hex_digit_def is_lower_hex_digit_def is_digit_def list_all_iff lower_def lower_char_def)
  moreover have "ts_schema ''9''" by (simp add: ts_schema_def is_digit_def dec_number_def digit_value_def)
  moreover have "prefixed 130 demo_near_signature" "hex_schema demo_zero_hash" "address_schema demo_verifier"
    by (simp_all add: demo_near_signature_def demo_zero_hash_def demo_verifier_def hex_schema_def address_schema_def prefixed_def zero_address_def
        is_hex_digit_def is_lower_hex_digit_def is_digit_def list_all_iff lower_def lower_char_def)
  ultimately show ?thesis using that by (auto simp: receiptSchema_def demo_portable_def chain_schema_def max_safe_def)
qed

lemma demo_trust_ok: "trustSchema demo_trust"
  by (simp add: trustSchema_def demo_trust_def chain_schema_def max_safe_def address_schema_def demo_verifier_def demo_signer_def prefixed_def zero_address_def
      is_hex_digit_def is_lower_hex_digit_def is_digit_def list_all_iff lower_def lower_char_def)

lemma demo_canonical: "canonical_signature demo_near_signature"
proof -
  have "take 64 (drop 66 demo_near_signature) = replicate 63 (CHR ''0'') @ ''1''" "drop 130 demo_near_signature = ''1b''"
    by (simp_all add: demo_near_signature_def)
  moreover have "hex_number (replicate n (CHR ''0'') @ ''1'') = 1" for n
    by (induction n) (simp_all add: hex_number_def hex_value_def is_digit_def)
  moreover have "hex_number ''1b'' = 27" by (simp add: hex_number_def hex_value_def is_digit_def)
  ultimately show ?thesis by (simp add: canonical_signature_def halfCurveOrder_def)
qed

theorem browser_accepts_exactly_signed_witness:
  "is_ok (verifyLocalReceipt demo_receipt_crypto (demo_portable CHR ''3'') demo_trust)
     \<and> \<not> is_ok (verifyLocalReceipt demo_receipt_crypto (demo_portable CHR ''6'') demo_trust)"
proof -
  let ?r = "core_receipt (demo_portable CHR ''3'')"
  note ok = demo_portable_ok
  have fields: "pt_chainId (demo_portable c) = 7" "pt_verifierAddress (demo_portable c) = demo_verifier" "pt_sig (demo_portable c) = demo_near_signature"
    "pt_typedHash (demo_portable c) = demo_zero_hash" for c by (simp_all add: demo_portable_def)
  have d: "receipt_typed_data ?r 7 demo_verifier = Inr demo_signed_data"
    using receiptTypedData_core [OF ok, of "CHR ''3''"] by (simp add: fields demo_signed_data_def)
  then have s: "signReceipt demo_receipt_crypto ?r ''1'' 7 demo_verifier = Inr \<lparr>sr_receipt = ?r, sr_sig = demo_near_signature\<rparr>"
    by (simp add: signReceipt_def rmap_def) (simp add: demo_receipt_crypto_def)
  have law: "recovers_signer demo_receipt_crypto ''1'' demo_signed_data e" for e
    by (simp add: recovers_signer_def demo_receipt_crypto_def same_def)
  have trust: "same (rt_signer demo_trust) (ty_address demo_receipt_crypto ''1'')" "rt_chainId demo_trust = 7" "rt_verifierAddress demo_trust = demo_verifier"
    by (simp_all add: demo_trust_def demo_receipt_crypto_def same_def)
  have check: "is_ok (verifyLocalReceipt demo_receipt_crypto (demo_portable c) demo_trust) \<longleftrightarrow> same_receipt ?r (core_receipt (demo_portable c))"
    if "c \<in> {CHR ''3'', CHR ''6''}" for c
    using browser_accepts_exactly_signed [OF d law s ok [OF that] demo_trust_ok _ _ trust(1)] demo_canonical
    by (simp add: fields trust same_def) (simp add: demo_receipt_crypto_def)
  have "same_receipt ?r ?r" "\<not> same_receipt ?r (core_receipt (demo_portable CHR ''6''))"
    by (simp_all add: same_receipt_def core_receipt_def demo_portable_def same_def demo_field_def lower_def lower_char_def)
  with check show ?thesis by simp
qed

lemma demo_locally_accepted: "is_ok (verifyLocalReceipt demo_receipt_crypto (demo_portable CHR ''3'') demo_trust)"
proof -
  have refl: "typed_same d d" for d
  proof -
    have "value_same z z" for z by (cases z) simp_all
    then show ?thesis by (auto simp: typed_same_def list_all2_conv_all_nth same_def)
  qed
  have "pt_chainId (demo_portable CHR ''3'') = 7" "pt_verifierAddress (demo_portable CHR ''3'') = demo_verifier" "pt_sig (demo_portable CHR ''3'') = demo_near_signature"
    "pt_typedHash (demo_portable CHR ''3'') = demo_zero_hash" by (simp_all add: demo_portable_def)
  moreover have "rt_chainId demo_trust = 7" "rt_verifierAddress demo_trust = demo_verifier" "rt_signer demo_trust = demo_signer" by (simp_all add: demo_trust_def)
  moreover have "ty_hash demo_receipt_crypto d = demo_zero_hash" "ty_recover demo_receipt_crypto (receiptTypedData (demo_portable CHR ''3'')) x = Some demo_signer" for d x
    by (simp_all add: demo_receipt_crypto_def demo_signed_data_def refl)
  ultimately show ?thesis
    using demo_portable_ok [of "CHR ''3''"] demo_trust_ok demo_canonical by (simp add: verifyLocalReceipt_def Let_def of_option_def same_def is_ok_def)
qed

definition demo_block_json :: "string \<Rightarrow> char \<Rightarrow> json" where
  "demo_block_json number c = JObj [(''number'', JStr number), (''hash'', JStr (demo_field c))]"

definition demo_anchor_json :: json where
  "demo_anchor_json = JObj [(''transactionHash'', JStr (demo_field CHR ''5'')), (''blockHash'', JStr (demo_field CHR ''8'')), (''blockNumber'', JStr ''0x8''),
     (''status'', JStr ''0x1''), (''logs'', JArr [JObj [(''address'', JStr demo_verifier), (''data'', JStr ''0x''), (''topics'', JArr [])]])]"

definition demo_rpc :: "nat \<Rightarrow> rpc_call \<Rightarrow> string + json" where
  "demo_rpc i c =
     (if rc_method c = ''eth_chainId'' then Inr (JStr ''0x7'')
      else if rc_method c = ''eth_getBlockByNumber''
      then Inr (if hd (rc_params c) = JStr ''0x8'' then demo_block_json ''0x8'' CHR ''8'' else demo_block_json ''0x9'' CHR ''7'')
      else if rc_method c = ''eth_getTransactionReceipt'' then Inr demo_anchor_json
      else Inr (JStr ''0x60''))"

definition demo_receipt_abi :: receipt_abi where
  "demo_receipt_abi = \<lparr>ra_call = (\<lambda>f _. f), ra_address = (\<lambda>_. Some demo_signer), ra_bytes32 = (\<lambda>_. Some demo_zero_hash), ra_uint = (\<lambda>_. Some 1),
     ra_policy = (\<lambda>_. Some (demo_zero_hash, 1)),
     ra_verified = (\<lambda>_ _. Some \<lparr>ve_receiptHash = demo_zero_hash, ve_signer = demo_signer, ve_fields = hash_fields (demo_portable CHR ''3'')\<rparr>)\<rparr>"

lemma demo_rpc_answers:
  "demo_rpc i \<lparr>rc_method = ''eth_chainId'', rc_params = ps\<rparr> = Inr (JStr ''0x7'')"
  "demo_rpc i \<lparr>rc_method = ''eth_getBlockByNumber'', rc_params = [JStr ''latest'', JBool False]\<rparr> = Inr (demo_block_json ''0x9'' CHR ''7'')"
  "demo_rpc i \<lparr>rc_method = ''eth_getBlockByNumber'', rc_params = [JStr ''0x9'', JBool False]\<rparr> = Inr (demo_block_json ''0x9'' CHR ''7'')"
  "demo_rpc i \<lparr>rc_method = ''eth_getBlockByNumber'', rc_params = [JStr ''0x8'', JBool False]\<rparr> = Inr (demo_block_json ''0x8'' CHR ''8'')"
  "demo_rpc i \<lparr>rc_method = ''eth_getTransactionReceipt'', rc_params = ps\<rparr> = Inr demo_anchor_json"
  "demo_rpc i \<lparr>rc_method = ''eth_getCode'', rc_params = ps\<rparr> = Inr (JStr ''0x60'')"
  "demo_rpc i \<lparr>rc_method = ''eth_call'', rc_params = ps\<rparr> = Inr (JStr ''0x60'')"
  by (simp_all add: demo_rpc_def)

definition demo_tx_proof :: tx_proof where
  "demo_tx_proof = \<lparr>xp_transactionHash = demo_field CHR ''5'', xp_blockHash = demo_field CHR ''8'', xp_blockNumber = 8,
     xp_logs = [\<lparr>xl_address = demo_verifier, xl_data = ''0x'', xl_topics = [], xl_removed = False\<rparr>]\<rparr>"

lemma demo_receipt_fields: "hex_schema (demo_field CHR ''5'')" "hex_schema (demo_field CHR ''7'')" "hex_schema (demo_field CHR ''8'')"
    "address_schema demo_verifier" "address_schema demo_signer"
  by (simp_all add: hex_schema_def demo_field_def address_schema_def demo_verifier_def demo_signer_def prefixed_def zero_address_def
      is_hex_digit_def is_lower_hex_digit_def is_digit_def list_all_iff lower_def lower_char_def)

lemma demo_quantities: "quantity (JStr ''0x7'') = Inr 7" "quantity (JStr ''0x8'') = Inr 8" "quantity (JStr ''0x9'') = Inr 9"
  by (simp_all add: quantity_def lower_def lower_char_def is_hex_digit_def is_lower_hex_digit_def is_digit_def hex_number_def hex_value_def)

lemma demo_schemas:
  "blockSchema (demo_block_json ''0x9'' CHR ''7'') = Inr (9, demo_field CHR ''7'')" "blockSchema (demo_block_json ''0x8'' CHR ''8'') = Inr (8, demo_field CHR ''8'')"
  "txSchema demo_anchor_json = Inr demo_tx_proof"
  using demo_receipt_fields demo_quantities
  by (simp_all add: blockSchema_def demo_block_json_def json_field_def text_schema_def of_option_def txSchema_def demo_anchor_json_def json_text_def
      log_schema_def ok_value_def demo_tx_proof_def byte_text_def lower_def lower_char_def)

lemma demo_texts: "block_tag 9 = ''0x9''" "block_tag 8 = ''0x8''" "code_text (JStr ''0x60'')" "byte_text ''0x60''"
  by (code_simp)+

lemma demo_local: "\<exists>local. verifyLocalReceipt demo_receipt_crypto (demo_portable CHR ''3'') demo_trust = Inr local \<and> lc_digest local = demo_zero_hash"
proof -
  have "is_ok (verifyLocalReceipt demo_receipt_crypto (demo_portable CHR ''3'') demo_trust)"
    using demo_locally_accepted by simp
  then obtain local where l: "verifyLocalReceipt demo_receipt_crypto (demo_portable CHR ''3'') demo_trust = Inr local" by (auto simp: is_ok_iff)
  then have "lc_digest local = ty_hash demo_receipt_crypto (receiptTypedData (demo_portable CHR ''3''))"
    by (auto simp: verifyLocalReceipt_def Let_def elim!: rbind_InrE)
  with l show ?thesis by (simp add: demo_receipt_crypto_def)
qed

lemma demo_anchor: "check_anchor demo_receipt_abi demo_trust (demo_portable CHR ''3'') demo_zero_hash 9 demo_rpc n = Inr (AnchorConfirmed 2, n + 2)"
proof -
  have p: "pt_anchoredTx (demo_portable CHR ''3'') = Some (demo_field CHR ''5'')" "nonempty_text (Some (demo_field CHR ''5'')) = Some (demo_field CHR ''5'')"
    by (simp_all add: demo_portable_def nonempty_text_def demo_field_def)
  have tx: "xp_transactionHash demo_tx_proof = demo_field CHR ''5''" "xp_blockNumber demo_tx_proof = 8" "xp_blockHash demo_tx_proof = demo_field CHR ''8''"
    "demo_anchor_json \<noteq> JNull" by (simp_all add: demo_tx_proof_def demo_anchor_json_def)
  have "list_ex (anchor_log demo_receipt_abi demo_trust (demo_portable CHR ''3'') demo_zero_hash) (xp_logs demo_tx_proof)"
    by (simp add: demo_tx_proof_def anchor_log_def demo_receipt_abi_def demo_trust_def same_def hash_fields_def)
  then show ?thesis
    by (simp add: check_anchor_def p ck_bind_def ck_rpc_def ck_lift_def ck_return_def rmap_def demo_rpc_answers tx demo_schemas demo_texts same_def)
qed

lemma demo_chain_check:
  "\<exists>res n'. verifyOnchainReceipt demo_receipt_crypto demo_receipt_abi (demo_portable CHR ''3'') demo_trust demo_rpc 0 = Inr (res, n')
     \<and> cq_anchor res = AnchorConfirmed 2"
proof -
  obtain local where local: "verifyLocalReceipt demo_receipt_crypto (demo_portable CHR ''3'') demo_trust = Inr local" "lc_digest local = demo_zero_hash"
    using demo_local by blast
  have abi: "ra_address demo_receipt_abi s = Some demo_signer" "ra_bytes32 demo_receipt_abi s = Some demo_zero_hash" "ra_uint demo_receipt_abi s = Some 1"
    "ra_policy demo_receipt_abi s = Some (demo_zero_hash, 1)" "rt_chainId demo_trust = 7" "rt_signer demo_trust = demo_signer" for s
    by (simp_all add: demo_receipt_abi_def demo_trust_def)
  show ?thesis
    by (simp add: verifyOnchainReceipt_def Let_def ck_bind_def ck_rpc_def ck_lift_def ck_return_def rmap_def demo_rpc_answers demo_schemas demo_quantities
        demo_texts demo_receipt_fields decoded_def contract_read_def abi local demo_anchor of_option_def same_def)
qed


end
