(* ===== verification/Browser_Client.thy ===== *)
theory Browser_Client
  imports Arc_Payment Receipt_Verifier Enclave_Cvm
begin

text \<open>
  The paying client of the web application, \<open>EnclaveClient\<close> of \<open>frontend/src/enclave/api.ts\<close>: it prepares an encrypted
  request, has the wallet authorize the payment, settles it, asks for the answer, and checks the answer's receipt against
  the request before it shows anything.

  An exchange with the outside (a request, a look at the clock, at the abort signal, at the wallet) takes the next step of
  \<open>client_world\<close>, so every exchange may meet a changed world. The answers of the gateway are values of the types that its
  schemas describe; what the schemas demand beyond that is written out.
\<close>

section \<open>Data\<close>

datatype client_error = ApiError int string "payment_challenge option" | AbortError | OtherError string
  and payment_challenge = PaymentChallenge (ch_network: string) (ch_maxAmountRequired: string) (ch_payTo: string) (ch_asset: string) (ch_paymentId: string)

definition invalid_response :: client_error where
  "invalid_response = ApiError 0 ''INVALID_RESPONSE'' None"

record client_deployment =
  de_stage :: string
  de_productionReady :: bool
  de_providerAdmissionReady :: "bool option"
  de_inferenceTrust :: "string option"
  de_releaseProfile :: "string option"

record client_health =
  hl_teeMode :: string
  hl_inferenceBackend :: string
  hl_inferenceRoute :: "string option"
  hl_chainId :: int
  hl_paymentMode :: string
  hl_modelHash :: string
  hl_codeHash :: string
  hl_receiptSigner :: string
  hl_verifierAddress :: string
  hl_inferencePriceUsdc :: string
  hl_deployment :: "client_deployment option"
  hl_providerPolicy :: bool
  hl_settlementToken :: "string option"

definition HealthSchema :: "client_health \<Rightarrow> bool" where
  "HealthSchema h \<longleftrightarrow> 0 < hl_chainId h \<and> hl_chainId h \<le> max_safe \<and> hl_paymentMode h \<in> {''mock'', ''authorized''}
     \<and> isHex32 (hl_modelHash h) \<and> isHex32 (hl_codeHash h) \<and> hex_string 40 (hl_receiptSigner h) \<and> hex_string 40 (hl_verifierAddress h)
     \<and> (case hl_settlementToken h of Some t \<Rightarrow> hex_string 40 t | None \<Rightarrow> True)
     \<and> (let stage = map_option de_stage (hl_deployment h); ready = (case hl_deployment h of Some d \<Rightarrow> de_productionReady d | None \<Rightarrow> False) in
        (stage \<noteq> Some ''production'' \<and> \<not> ready)
        \<or> (case hl_deployment h of
             None \<Rightarrow> False
           | Some d \<Rightarrow> de_stage d = ''production'' \<and> \<not> (de_productionReady d \<and> de_providerAdmissionReady d = Some False)
               \<and> de_releaseProfile d = Some ''near-arc'' \<and> de_inferenceTrust d = Some ''near-cpu-gpu'' \<and> hl_teeMode h = ''managed-near''
               \<and> hl_inferenceBackend h = ''near-verified'' \<and> hl_chainId h = 5042 \<and> hl_paymentMode h = ''authorized'' \<and> hl_providerPolicy h
               \<and> hl_inferenceRoute h \<noteq> Some ''development''))"

definition QuoteSchema :: "attestation_quote \<Rightarrow> bool" where
  "QuoteSchema q \<longleftrightarrow> isHex32 (q_measurement q) \<and> (case q_tcbVersion q of JInt n \<Rightarrow> 0 < n | JOther _ \<Rightarrow> False)
     \<and> (case q_timestamp q of JInt n \<Rightarrow> 0 \<le> n \<and> n \<le> max_safe | JOther _ \<Rightarrow> False) \<and> hex_string 130 (q_signature q)"

record inference_answer =
  xa_receipt :: inference_receipt
  xa_sig :: string
  xa_typedHash :: string
  xa_outputHash :: string
  xa_output :: aes_blob

definition InferenceSchema :: "inference_answer \<Rightarrow> bool" where
  "InferenceSchema x \<longleftrightarrow>
     ir_version (xa_receipt x) = 2 \<and> (case ir_nonce (xa_receipt x) of Some n \<Rightarrow> isHex32 n | None \<Rightarrow> False)
     \<and> list_all isHex32 [ir_modelHash (xa_receipt x), ir_codeHash (xa_receipt x), ir_inHash (xa_receipt x), ir_outHash (xa_receipt x), ir_attRef (xa_receipt x)]
     \<and> 0 \<le> ir_ts (xa_receipt x) \<and> ir_ts (xa_receipt x) < 10 ^ 78 \<and> hex_string 130 (xa_sig x) \<and> isHex32 (xa_typedHash x) \<and> isHex32 (xa_outputHash x)"

definition uint_text :: "string \<Rightarrow> bool" where
  "uint_text s \<longleftrightarrow> (s = ''0'' \<or> positive_text 78 s)"

definition ChallengeSchema :: "(string \<Rightarrow> bool) \<Rightarrow> payment_challenge \<Rightarrow> bool" where
  "ChallengeSchema uuid c \<longleftrightarrow> uint_text (ch_maxAmountRequired c) \<and> hex_string 40 (ch_payTo c) \<and> hex_string 40 (ch_asset c) \<and> uuid (ch_paymentId c)"

datatype api_request =
    GetHealth | GetAgent string | GetQuote
  | PostSession attestation_quote
  | PostInference json string "string option"
  | PostSettle string bool "payment_authorization option"

datatype api_answer =
    HealthAnswer client_health | AgentAnswer string | QuoteAnswer attestation_quote
  | SessionAnswer string string string
  | InferenceAnswer inference_answer
  | SettleAnswer string string bool
  | MalformedAnswer

record browser_host =
  bw_sha :: hash_fun
  bw_typed :: typed_crypto
  bw_aes :: aes
  bw_keccak :: hash_fun
  bw_recover :: "typed_transfer \<Rightarrow> string \<Rightarrow> string option"
  bw_uuid :: "string \<Rightarrow> bool"
  bw_date :: "string \<Rightarrow> int option"
  bw_units :: "string \<Rightarrow> js_number"

section \<open>Bytes\<close>

definition max_bytes :: nat where
  "max_bytes = 1048576"

text \<open>The canonical base64 of at most \<open>maximum\<close> bytes: the pattern is that of what \<open>btoa\<close> prints.\<close>

definition fromBase64 :: "string \<Rightarrow> nat \<Rightarrow> client_error + bytes" where
  "fromBase64 s maximum =
     (let decoded = from_base64 s in
      if length s > ((maximum + 2) div 3) * 4 \<or> length decoded > maximum \<or> to_base64 decoded \<noteq> s then Inl invalid_response else Inr decoded)"

definition importSessionKey :: "string \<Rightarrow> client_error + bytes" where
  "importSessionKey s = rbind (fromBase64 s 32) (\<lambda>k. if length k \<noteq> 32 then Inl invalid_response else Inr k)"

definition encrypt_request :: "browser_host \<Rightarrow> bytes \<Rightarrow> bytes \<Rightarrow> bytes \<Rightarrow> client_error + aes_blob" where
  "encrypt_request host iv key plaintext =
     (if length plaintext > max_bytes then Inl (ApiError 0 ''INPUT_TOO_LARGE'' None) else Inr (encryptAesGcm (bw_aes host) iv key plaintext))"

definition decrypt_answer :: "browser_host \<Rightarrow> bytes \<Rightarrow> aes_blob \<Rightarrow> client_error + bytes" where
  "decrypt_answer host key blob =
     rbind (fromBase64 (bl_iv blob) 12) (\<lambda>iv. rbind (fromBase64 (bl_tag blob) 16) (\<lambda>tag. rbind (fromBase64 (bl_ciphertext blob) max_bytes) (\<lambda>c.
     if length iv \<noteq> 12 \<or> length tag \<noteq> 16 then Inl invalid_response
     else of_option (ApiError 0 ''OUTPUT_AUTHENTICATION_FAILED'' None) (ae_open (bw_aes host) key iv tag c))))"

section \<open>A prepared request\<close>

record client_session =
  cl_sessionId :: string
  cl_expiresAt :: string
  cl_attRef :: string
  cl_key :: bytes

record verified_inference =
  vi_receipt :: inference_receipt
  vi_typedHash :: string
  vi_outputBytes :: bytes
  vi_outputText :: "string option"
  vi_paymentId :: "string option"

record pending_state =
  pn_body :: json
  pn_session :: client_session
  pn_health :: client_health
  pn_inputHash :: string
  pn_challenge :: "payment_challenge option"
  pn_idempotencyKey :: string
  pn_settled :: bool
  pn_busy :: bool
  pn_result :: "verified_inference option"
  pn_authorization :: "payment_authorization option"

text \<open>The typed data over which the client recovers the signer of an answer.\<close>

definition answer_typed_data :: "client_health \<Rightarrow> inference_receipt \<Rightarrow> typed_data" where
  "answer_typed_data h r =
     \<lparr>td_domain = \<lparr>dm_name = ''ENCLAVE'', dm_version = ''2'', dm_chainId = hl_chainId h, dm_contract = hl_verifierAddress h\<rparr>,
      td_primary = ''InferenceReceipt'',
      td_fields = map (\<lambda>(name, ty). (name, ty, the (receipt_field r name))) API_RECEIPT_TYPES\<rparr>"

definition verification_failed :: client_error where
  "verification_failed = ApiError 0 ''RECEIPT_VERIFICATION_FAILED'' None"

definition receipt_bound :: "browser_host \<Rightarrow> pending_state \<Rightarrow> inference_answer \<Rightarrow> string \<Rightarrow> bool" where
  "receipt_bound host p x outHash \<longleftrightarrow>
     (let r = xa_receipt x; h = pn_health p; typed = answer_typed_data h r in
      ir_ts r \<le> 2 ^ 64 - 1 \<and> same (ir_modelHash r) (hl_modelHash h) \<and> same (ir_codeHash r) (hl_codeHash h) \<and> same (ir_inHash r) (pn_inputHash p)
      \<and> same (ir_outHash r) outHash \<and> same (xa_outputHash x) outHash \<and> same (ir_attRef r) (cl_attRef (pn_session p))
      \<and> same (ty_hash (bw_typed host) typed) (xa_typedHash x)
      \<and> (case ty_recover (bw_typed host) typed (xa_sig x) of Some s \<Rightarrow> same s (hl_receiptSigner h) | None \<Rightarrow> False))"

text \<open>\<open>#verify\<close>, with the abort flag before and after, and whether the client still has the session's key.\<close>

definition verify_answer :: "browser_host \<Rightarrow> bool \<Rightarrow> bool \<Rightarrow> bool \<Rightarrow> api_answer \<Rightarrow> pending_state \<Rightarrow> client_error + verified_inference" where
  "verify_answer host aborted connected abortedEnd raw p =
     rbind (require (\<not> aborted) AbortError) (\<lambda>_.
     rbind (case raw of InferenceAnswer x \<Rightarrow> if InferenceSchema x then Inr x else Inl invalid_response | _ \<Rightarrow> Inl invalid_response) (\<lambda>x.
     rbind (require connected (ApiError 401 ''SESSION_CLOSED'' None)) (\<lambda>_.
     rbind (decrypt_answer host (cl_key (pn_session p)) (xa_output x)) (\<lambda>outputBytes.
     rbind (require (receipt_bound host p x (sha256Hex (bw_sha host) outputBytes)) verification_failed) (\<lambda>_.
     rbind (require (\<not> abortedEnd) AbortError) (\<lambda>_.
     Inr \<lparr>vi_receipt = xa_receipt x, vi_typedHash = xa_typedHash x, vi_outputBytes = outputBytes, vi_outputText = decode_text outputBytes,
       vi_paymentId = map_option ch_paymentId (pn_challenge p)\<rparr>))))))"

section \<open>Programs of the client\<close>

text \<open>The outside at each step.\<close>

record client_world =
  bx_answer :: "nat \<Rightarrow> api_request \<Rightarrow> client_error + api_answer"
  bx_now :: "nat \<Rightarrow> int"
  bx_aborted :: "nat \<Rightarrow> bool"
  bx_connected :: "nat \<Rightarrow> bool"
  bx_account :: "nat \<Rightarrow> client_error + (string \<times> int)"
  bx_wallet :: "nat \<Rightarrow> arc_intent \<Rightarrow> client_error + payment_authorization"

datatype client_event = Requested api_request | WalletAsked arc_policy arc_intent

record client_run =
  ky_pending :: pending_state
  ky_step :: nat
  ky_events :: "client_event list"

type_synonym 'a client = "client_world \<Rightarrow> client_run \<Rightarrow> (client_error + 'a) \<times> client_run"

definition cl_return :: "'a \<Rightarrow> 'a client" where
  "cl_return x = (\<lambda>w s. (Inr x, s))"

definition cl_lift :: "client_error + 'a \<Rightarrow> 'a client" where
  "cl_lift m = (\<lambda>w s. (m, s))"

definition cl_bind :: "'a client \<Rightarrow> ('a \<Rightarrow> 'b client) \<Rightarrow> 'b client" where
  "cl_bind m f = (\<lambda>w s. case m w s of (Inl e, s') \<Rightarrow> (Inl e, s') | (Inr x, s') \<Rightarrow> f x w s')"

definition cl_require :: "bool \<Rightarrow> client_error \<Rightarrow> unit client" where
  "cl_require c e = cl_lift (require c e)"

definition cl_get :: "(pending_state \<Rightarrow> 'a) \<Rightarrow> 'a client" where
  "cl_get f = (\<lambda>w s. (Inr (f (ky_pending s)), s))"

definition cl_modify :: "(pending_state \<Rightarrow> pending_state) \<Rightarrow> unit client" where
  "cl_modify f = (\<lambda>w s. (Inr (), s\<lparr>ky_pending := f (ky_pending s)\<rparr>))"

text \<open>An observation of the outside, and the two exchanges that leave a trace.\<close>

definition cl_look :: "(client_world \<Rightarrow> nat \<Rightarrow> 'a) \<Rightarrow> 'a client" where
  "cl_look f = (\<lambda>w s. (Inr (f w (ky_step s)), s\<lparr>ky_step := Suc (ky_step s)\<rparr>))"

definition cl_request :: "api_request \<Rightarrow> api_answer client" where
  "cl_request r = (\<lambda>w s. (bx_answer w (ky_step s) r, s\<lparr>ky_step := Suc (ky_step s), ky_events := ky_events s @ [Requested r]\<rparr>))"

definition cl_wallet :: "arc_policy \<Rightarrow> arc_intent \<Rightarrow> payment_authorization client" where
  "cl_wallet policy i = (\<lambda>w s. (bx_wallet w (ky_step s) i, s\<lparr>ky_step := Suc (ky_step s), ky_events := ky_events s @ [WalletAsked policy i]\<rparr>))"

definition cl_health :: "client_health client" where
  "cl_health = cl_bind (cl_request GetHealth) (\<lambda>a. cl_lift (case a of HealthAnswer h \<Rightarrow> if HealthSchema h then Inr h else Inl invalid_response | _ \<Rightarrow> Inl invalid_response))"

definition expired :: "browser_host \<Rightarrow> client_session \<Rightarrow> int \<Rightarrow> bool" where
  "expired host s now \<longleftrightarrow> (case bw_date host (cl_expiresAt s) of Some e \<Rightarrow> e \<le> now | None \<Rightarrow> False)"

definition cl_verify :: "browser_host \<Rightarrow> api_answer \<Rightarrow> verified_inference client" where
  "cl_verify host raw =
     cl_bind (cl_look bx_aborted) (\<lambda>aborted. cl_bind (cl_look bx_connected) (\<lambda>connected. cl_bind (cl_look bx_aborted) (\<lambda>abortedEnd.
     cl_bind (cl_get (verify_answer host aborted connected abortedEnd raw)) cl_lift)))"

text \<open>The last part of both ways to pay: ask for the answer with the exact body, check it and keep it.\<close>

definition paid_inference :: "browser_host \<Rightarrow> string \<Rightarrow> verified_inference client" where
  "paid_inference host paymentId =
     cl_bind (cl_get (\<lambda>p. PostInference (pn_body p) (pn_idempotencyKey p) (Some paymentId))) (\<lambda>r.
     cl_bind (cl_request r) (\<lambda>raw. cl_bind (cl_verify host raw) (\<lambda>v.
     cl_bind (cl_modify (\<lambda>p. p\<lparr>pn_result := Some v\<rparr>)) (\<lambda>_. cl_return v))))"

definition finally_idle :: "'a client \<Rightarrow> 'a client" where
  "finally_idle m = (\<lambda>w s. case m w s of (r, s') \<Rightarrow> (r, s'\<lparr>ky_pending := (ky_pending s')\<lparr>pn_busy := False\<rparr>\<rparr>))"

definition cl_busy :: "'a client \<Rightarrow> 'a client" where
  "cl_busy m = cl_bind (cl_modify (\<lambda>p. p\<lparr>pn_busy := True\<rparr>)) (\<lambda>_. finally_idle m)"

section \<open>Local settlement\<close>

definition canSettleLocally :: "client_health \<Rightarrow> bool" where
  "canSettleLocally h \<longleftrightarrow> hl_paymentMode h = ''mock'' \<and> hl_chainId h = 31337 \<and> hl_teeMode h = ''dev''"

definition same_gateway :: "client_health \<Rightarrow> client_health \<Rightarrow> bool" where
  "same_gateway c h \<longleftrightarrow> same (hl_receiptSigner c) (hl_receiptSigner h) \<and> same (hl_verifierAddress c) (hl_verifierAddress h)
     \<and> hl_modelHash c = hl_modelHash h \<and> hl_codeHash c = hl_codeHash h \<and> hl_inferencePriceUsdc c = hl_inferencePriceUsdc h"

text \<open>Once \<open>connected\<close>, a result is given again, and a call while another runs is refused; both without any effect.\<close>

definition begin_payment :: "(payment_challenge \<Rightarrow> verified_inference client) \<Rightarrow> verified_inference client" where
  "begin_payment k =
     cl_bind (cl_look bx_connected) (\<lambda>connected. cl_bind (cl_require connected (ApiError 0 ''UNKNOWN_REQUEST'' None)) (\<lambda>_.
     cl_bind (cl_get id) (\<lambda>p.
       case pn_result p of
         Some v \<Rightarrow> cl_return v
       | None \<Rightarrow>
           if pn_busy p then cl_lift (Inl (ApiError 409 ''REQUEST_BUSY'' None))
           else (case pn_challenge p of None \<Rightarrow> cl_lift (Inl invalid_response) | Some c \<Rightarrow> cl_busy (k c)))))"

definition settle_local :: "browser_host \<Rightarrow> payment_challenge \<Rightarrow> unit client" where
  "settle_local host c =
     cl_bind (cl_get pn_settled) (\<lambda>settled.
     if settled then cl_return ()
     else cl_bind (cl_request (PostSettle (ch_paymentId c) False None)) (\<lambda>a.
       cl_bind (cl_lift (case a of
           SettleAnswer paymentId tx confidential \<Rightarrow>
             if bw_uuid host paymentId \<and> tx \<noteq> [] \<and> paymentId = ch_paymentId c \<and> \<not> confidential then Inr () else Inl invalid_response
         | _ \<Rightarrow> Inl invalid_response)) (\<lambda>_.
       cl_modify (\<lambda>p. p\<lparr>pn_settled := True\<rparr>))))"

definition settleLocalAndRun :: "browser_host \<Rightarrow> verified_inference client" where
  "settleLocalAndRun host =
     begin_payment (\<lambda>c.
       cl_bind (cl_look bx_now) (\<lambda>now. cl_bind (cl_get pn_session) (\<lambda>session.
       cl_bind (cl_require (\<not> expired host session now) (ApiError 401 ''SESSION_EXPIRED'' None)) (\<lambda>_.
       cl_bind cl_health (\<lambda>current. cl_bind (cl_get pn_health) (\<lambda>health.
       cl_bind (cl_require (canSettleLocally health \<and> canSettleLocally current) (ApiError 403 ''LOCAL_SETTLEMENT_ONLY'' None)) (\<lambda>_.
       cl_bind (cl_require (same_gateway current health) (ApiError 409 ''GATEWAY_CHANGED'' None)) (\<lambda>_.
       cl_bind (settle_local host c) (\<lambda>_. paid_inference host (ch_paymentId c))))))))))"

section \<open>Settlement on Arc\<close>

definition same_option :: "string option \<Rightarrow> string \<Rightarrow> bool" where
  "same_option a b \<longleftrightarrow> (case a of Some x \<Rightarrow> same x b | None \<Rightarrow> False)"

text \<open>\<open>checkHealth\<close>: the reviewed policy against the gateway's health and the challenge.\<close>

definition arc_reviewed :: "browser_host \<Rightarrow> arc_policy \<Rightarrow> payment_challenge \<Rightarrow> client_health \<Rightarrow> client_health \<Rightarrow> bool" where
  "arc_reviewed host policy c prepared h \<longleftrightarrow>
     hl_chainId h = arc_chainId \<and> hl_paymentMode h = ''authorized'' \<and> same_option (hl_settlementToken h) arc_usdc
     \<and> same (hl_verifierAddress h) (yp_verifier policy) \<and> same (hl_receiptSigner h) (yp_receiptSigner policy)
     \<and> ch_network c = ''arc-'' @ int_dec arc_chainId \<and> same (ch_asset c) arc_usdc \<and> same (ch_payTo c) (yp_meter policy)
     \<and> 0 < dec_number (ch_maxAmountRequired c) \<and> dec_number (ch_maxAmountRequired c) \<le> dec_number (yp_maxAmountUnits policy)
     \<and> num_text (bw_units host (hl_inferencePriceUsdc h)) = ch_maxAmountRequired c
     \<and> hl_modelHash h = hl_modelHash prepared \<and> hl_codeHash h = hl_codeHash prepared"

definition check_health :: "browser_host \<Rightarrow> arc_policy \<Rightarrow> payment_challenge \<Rightarrow> client_health \<Rightarrow> unit client" where
  "check_health host policy c h =
     cl_bind (cl_get pn_health) (\<lambda>prepared. cl_require (arc_reviewed host policy c prepared h) (ApiError 403 ''ARC_PAYMENT_POLICY'' None))"

definition check_active :: "browser_host \<Rightarrow> unit client" where
  "check_active host =
     cl_bind (cl_look bx_aborted) (\<lambda>aborted. cl_bind (cl_look bx_connected) (\<lambda>connected.
     cl_bind (cl_require (\<not> aborted \<and> connected) AbortError) (\<lambda>_.
     cl_bind (cl_look bx_now) (\<lambda>now. cl_bind (cl_get pn_session) (\<lambda>session.
     cl_require (\<not> expired host session now) (ApiError 401 ''SESSION_EXPIRED'' None))))))"

definition arc_intent_of :: "browser_host \<Rightarrow> arc_policy \<Rightarrow> payment_challenge \<Rightarrow> string \<Rightarrow> client_session \<Rightarrow> int \<Rightarrow> arc_intent" where
  "arc_intent_of host policy c payer session now =
     \<lparr>yi_payer = payer, yi_meter = yp_meter policy, yi_amountUnits = ch_maxAmountRequired c, yi_paymentId = ch_paymentId c,
      yi_validBefore = (case bw_date host (cl_expiresAt session) of Some e \<Rightarrow> int_dec (min (now div 1000 + 600) (e div 1000)) | None \<Rightarrow> ''NaN'')\<rparr>"

definition cl_account :: "(string \<times> int) client" where
  "cl_account = cl_bind (cl_look bx_account) cl_lift"

definition approval_matches :: "browser_host \<Rightarrow> typed_transfer \<Rightarrow> arc_intent \<Rightarrow> payment_authorization \<Rightarrow> unit client" where
  "approval_matches host typed i auth =
     cl_bind (cl_require (same (pa_from auth) (yi_payer i) \<and> pa_validAfter auth = ''0'' \<and> pa_validBefore auth = yi_validBefore i) invalid_response) (\<lambda>_.
     cl_bind (cl_lift (of_option (OtherError ''signature'') (bw_recover host typed (pa_signature auth)))) (\<lambda>signer.
     cl_bind (cl_require (same signer (yi_payer i)) invalid_response) (\<lambda>_.
     cl_bind cl_account (\<lambda>(current, chain). cl_require (same current (yi_payer i) \<and> chain = arc_chainId) invalid_response))))"

definition authorize_arc :: "browser_host \<Rightarrow> arc_policy \<Rightarrow> payment_challenge \<Rightarrow> unit client" where
  "authorize_arc host policy c =
     cl_bind cl_account (\<lambda>(payer, chain).
     cl_bind (cl_require (chain = arc_chainId) (ApiError 403 ''WRONG_WALLET_NETWORK'' None)) (\<lambda>_.
     cl_bind (cl_look bx_now) (\<lambda>now. cl_bind (cl_get pn_session) (\<lambda>session.
     let i = arc_intent_of host policy c payer session now in
     cl_bind (cl_look bx_now) (\<lambda>now'.
     cl_bind (cl_lift (case receiveData (bw_keccak host) (bw_uuid host) (now' div 1000) i of Inl e \<Rightarrow> Inl (OtherError e) | Inr d \<Rightarrow> Inr d)) (\<lambda>typed.
     cl_bind (cl_wallet policy i) (\<lambda>auth.
     cl_bind (check_active host) (\<lambda>_.
     cl_bind (approval_matches host typed i auth) (\<lambda>_.
     cl_bind (cl_modify (\<lambda>p. p\<lparr>pn_authorization := Some auth\<rparr>)) (\<lambda>_.
     cl_bind cl_health (\<lambda>h. cl_bind (check_health host policy c h) (\<lambda>_. check_active host))))))))))))"

definition settle_arc :: "browser_host \<Rightarrow> arc_policy \<Rightarrow> payment_challenge \<Rightarrow> unit client" where
  "settle_arc host policy c =
     cl_bind (cl_get pn_settled) (\<lambda>settled.
     if settled then cl_return ()
     else cl_bind (cl_bind (cl_get pn_authorization) (\<lambda>a. case a of None \<Rightarrow> authorize_arc host policy c | Some _ \<Rightarrow> cl_return ())) (\<lambda>_.
       cl_bind (check_active host) (\<lambda>_.
       cl_bind (cl_get (\<lambda>p. PostSettle (ch_paymentId c) False (pn_authorization p))) (\<lambda>r.
       cl_bind (cl_request r) (\<lambda>a.
       cl_bind (cl_lift (case a of
           SettleAnswer paymentId tx confidential \<Rightarrow>
             if bw_uuid host paymentId \<and> isHex32 tx \<and> \<not> confidential \<and> paymentId = ch_paymentId c then Inr () else Inl invalid_response
         | _ \<Rightarrow> Inl invalid_response)) (\<lambda>_.
       cl_modify (\<lambda>p. p\<lparr>pn_settled := True\<rparr>)))))))"

definition settleArcAndRun :: "browser_host \<Rightarrow> arc_policy \<Rightarrow> verified_inference client" where
  "settleArcAndRun host policy =
     cl_bind (cl_require (ArcPaymentPolicySchema policy) (OtherError ''policy'')) (\<lambda>_.
     begin_payment (\<lambda>c.
       cl_bind (check_active host) (\<lambda>_. cl_bind (cl_get pn_health) (\<lambda>prepared.
       cl_bind (check_health host policy c prepared) (\<lambda>_. cl_bind cl_health (\<lambda>h. cl_bind (check_health host policy c h) (\<lambda>_.
       cl_bind (check_active host) (\<lambda>_. cl_bind (settle_arc host policy c) (\<lambda>_. paid_inference host (ch_paymentId c))))))))))"

section \<open>Preparation\<close>

definition session_json :: "client_session \<Rightarrow> aes_blob \<Rightarrow> string option \<Rightarrow> json" where
  "session_json session blob agentId =
     JObj ([(''sessionId'', JStr (cl_sessionId session)), (''iv'', JStr (bl_iv blob)), (''tag'', JStr (bl_tag blob)), (''ciphertext'', JStr (bl_ciphertext blob))]
       @ (case agentId of Some a \<Rightarrow> [(''agentId'', JStr a)] | None \<Rightarrow> []))"

definition openSession :: "browser_host \<Rightarrow> attestation_quote \<Rightarrow> client_session client" where
  "openSession host quote =
     cl_bind (cl_require (QuoteSchema quote) invalid_response) (\<lambda>_.
     cl_bind (cl_request (PostSession quote)) (\<lambda>a.
     cl_bind (cl_lift (case a of SessionAnswer i e k \<Rightarrow> if bw_uuid host i then Inr (i, e, k) else Inl invalid_response | _ \<Rightarrow> Inl invalid_response)) (\<lambda>(sessionId, expiresAt, wrapKey).
     cl_bind (cl_look bx_now) (\<lambda>now.
     cl_bind (cl_require (case bw_date host expiresAt of Some e \<Rightarrow> \<not> e \<le> now | None \<Rightarrow> True) invalid_response) (\<lambda>_.
     cl_bind (cl_lift (importSessionKey wrapKey)) (\<lambda>key.
     cl_return \<lparr>cl_sessionId = sessionId, cl_expiresAt = expiresAt, cl_attRef = sha256HexText (bw_sha host) (q_signature quote), cl_key = key\<rparr>))))))"

definition cl_quote :: "attestation_quote client" where
  "cl_quote = cl_bind (cl_request GetQuote) (\<lambda>a. cl_lift (case a of QuoteAnswer q \<Rightarrow> if QuoteSchema q then Inr q else Inl invalid_response | _ \<Rightarrow> Inl invalid_response))"

text \<open>An agent may be used while its memory is the empty one.\<close>

definition check_agent :: "browser_host \<Rightarrow> string option \<Rightarrow> unit client" where
  "check_agent host agentId =
     (case agentId of
        None \<Rightarrow> cl_return ()
      | Some i \<Rightarrow>
          cl_bind (cl_request (GetAgent i)) (\<lambda>a.
          cl_bind (cl_lift (case a of AgentAnswer memoryHash \<Rightarrow> if isHex32 memoryHash then Inr memoryHash else Inl invalid_response | _ \<Rightarrow> Inl invalid_response)) (\<lambda>memoryHash.
          cl_require (same memoryHash (sha256Hex (bw_sha host) [])) (ApiError 0 ''AGENT_MEMORY_UNAVAILABLE'' None))))"

text \<open>The input the enclave will see: an agent's empty memory and a line break come before the prompt.\<close>

definition composed_input :: "string option \<Rightarrow> bytes \<Rightarrow> bytes" where
  "composed_input agentId plaintext = (if agentId = None then plaintext else 10 # plaintext)"

definition challenge_matches :: "browser_host \<Rightarrow> client_health \<Rightarrow> payment_challenge \<Rightarrow> bool" where
  "challenge_matches host h c \<longleftrightarrow>
     (let price = bw_units host (hl_inferencePriceUsdc h) in
      is_safe_integer price \<and> ch_network c = ''arc-'' @ int_dec (hl_chainId h) \<and> int (dec_number (ch_maxAmountRequired c)) = int_of price)"

text \<open>The first request goes out unpaid: it is answered, or it brings the challenge.\<close>

definition first_request :: "browser_host \<Rightarrow> json \<Rightarrow> string \<Rightarrow> unit client" where
  "first_request host body key =
     (\<lambda>w s. case cl_bind (cl_request (PostInference body key None)) (cl_verify host) w s of
        (Inr v, s') \<Rightarrow> cl_modify (\<lambda>p. p\<lparr>pn_result := Some v\<rparr>) w s'
      | (Inl e, s') \<Rightarrow>
          (case e of
             ApiError status code details \<Rightarrow>
               if status \<noteq> 402 then (Inl e, s')
               else (case details of
                  None \<Rightarrow> (Inl invalid_response, s')
                | Some c \<Rightarrow>
                    if \<not> ChallengeSchema (bw_uuid host) c then (Inl invalid_response, s')
                    else cl_bind (cl_modify (\<lambda>p. p\<lparr>pn_challenge := Some c\<rparr>)) (\<lambda>_. cl_bind (cl_get pn_health) (\<lambda>h.
                      cl_require (challenge_matches host h c) invalid_response)) w s')
           | _ \<Rightarrow> (Inl e, s')))"

definition prepareInference :: "browser_host \<Rightarrow> bytes \<Rightarrow> string \<Rightarrow> string \<Rightarrow> string option \<Rightarrow> unit client" where
  "prepareInference host iv key prompt agentId =
     cl_bind (cl_require (trim prompt \<noteq> []) (ApiError 0 ''INVALID_INPUT'' None)) (\<lambda>_.
     cl_bind (cl_require (case agentId of Some a \<Rightarrow> bw_uuid host a | None \<Rightarrow> True) invalid_response) (\<lambda>_.
     let plaintext = utf8 prompt in
     cl_bind (cl_require (length plaintext \<le> max_bytes) (ApiError 0 ''INPUT_TOO_LARGE'' None)) (\<lambda>_.
     cl_bind cl_health (\<lambda>health.
     cl_bind (check_agent host agentId) (\<lambda>_.
     cl_bind cl_quote (\<lambda>quote. cl_bind (cl_look bx_now) (\<lambda>now.
     cl_bind (cl_require (same (q_measurement quote) (hl_codeHash health) \<and> \<bar>now - int_of (q_timestamp quote)\<bar> \<le> 300000) invalid_response) (\<lambda>_.
     cl_bind (openSession host quote) (\<lambda>session.
     cl_bind (cl_lift (encrypt_request host iv (cl_key session) plaintext)) (\<lambda>blob.
     let body = session_json session blob agentId in
     cl_bind (cl_modify (\<lambda>_. \<lparr>pn_body = body, pn_session = session, pn_health = health,
       pn_inputHash = sha256Hex (bw_sha host) (composed_input agentId plaintext), pn_challenge = None, pn_idempotencyKey = key, pn_settled = False,
       pn_busy = False, pn_result = None, pn_authorization = None\<rparr>)) (\<lambda>_.
     first_request host body key)))))))))))"

section \<open>What is encrypted decrypts\<close>

lemma length_sextets: "length (sextets bs) = (length bs + 5) div 6"
  by (induction bs rule: sextets.induct) (simp_all add: le_div_geq)

lemma length_to_base64: "length (to_base64 bs) = ((length bs + 2) div 3) * 4"
proof -
  have "length (concat (map (\<lambda>b. bits_of 8 (unat b)) bs)) = 8 * length bs" by (induction bs) simp_all
  then have "length (to_base64 bs) = (8 * length bs + 5) div 6 + (3 - length bs mod 3) mod 3" by (simp add: to_base64_def length_sextets)
  also have "\<dots> = ((length bs + 2) div 3) * 4"
  proof -
    define q where "q = length bs div 3"
    have "length bs = 3 * q \<or> length bs = 3 * q + 1 \<or> length bs = 3 * q + 2" unfolding q_def by linarith
    moreover have "(8 * (3 * q) + 5) div 6 = 4 * q" "(8 * (3 * q + 1) + 5) div 6 = 4 * q + 2" "(8 * (3 * q + 2) + 5) div 6 = 4 * q + 3"
      "(3 * q + 2) div 3 = q" "(3 * q + 1 + 2) div 3 = q + 1" "(3 * q + 2 + 2) div 3 = q + 1" by (rule div_nat_eqI; simp)+
    moreover have "3 * q mod 3 = 0" "(3 * q + 1) mod 3 = 1" "(3 * q + 2) mod 3 = 2" by presburger+
    ultimately show ?thesis by (elim disjE) (simp_all only:, simp_all)
  qed
  finally show ?thesis .
qed

lemma fromBase64_to: "length b \<le> maximum \<Longrightarrow> fromBase64 (to_base64 b) maximum = Inr b"
  by (simp add: fromBase64_def Let_def base64_round_trip length_to_base64 not_less div_le_mono)

lemma decrypt_answer_sealed:
  assumes "aes_inverse (bw_aes host)" and "length iv = 12" and "ae_seal (bw_aes host) key iv output = (tag, c)" and "length tag = 16"
    and "length c \<le> max_bytes"
  shows "decrypt_answer host key (encryptAesGcm (bw_aes host) iv key output) = Inr output"
proof -
  have "ae_open (bw_aes host) key iv tag c = Some output"
    using assms(1) [unfolded aes_inverse_def, rule_format, OF assms(2), of key "output"] by (simp add: assms(3))
  moreover have "encryptAesGcm (bw_aes host) iv key output = \<lparr>bl_iv = to_base64 iv, bl_tag = to_base64 tag, bl_ciphertext = to_base64 c\<rparr>"
    by (simp add: encryptAesGcm_def assms(3))
  moreover have "fromBase64 (to_base64 iv) 12 = Inr iv" "fromBase64 (to_base64 tag) 16 = Inr tag" "fromBase64 (to_base64 c) max_bytes = Inr c"
    using assms(2,4,5) by (auto intro: fromBase64_to)
  ultimately show ?thesis using assms(2,4) by (simp add: decrypt_answer_def of_option_def)
qed

section \<open>An accepted answer is the enclave's\<close>

text \<open>A signature over receipt data that recovers to \<open>signer\<close> was made by an answering enclave for data of the same digest.\<close>

definition signed_by_enclave :: "cvm_env \<Rightarrow> typed_data \<Rightarrow> bool" where
  "signed_by_enclave env e \<longleftrightarrow> (\<exists>input ctx w d ans t. cvm_infer env input ctx w d = Inr ans
     \<and> receipt_typed_data (sr_receipt (ca_receipt ans)) (cc_chainId (dv_config d)) (cc_verifyingContract (dv_config d)) = Inr t \<and> typed_same t e)"

definition signature_genuine :: "browser_host \<Rightarrow> cvm_env \<Rightarrow> string \<Rightarrow> typed_data \<Rightarrow> string \<Rightarrow> bool" where
  "signature_genuine host env signer e sig \<longleftrightarrow> ((\<exists>a. ty_recover (bw_typed host) e sig = Some a \<and> same a signer) \<longrightarrow> signed_by_enclave env e)"

text \<open>No other bytes have the digest.\<close>

definition no_second_preimage :: "hash_fun \<Rightarrow> bytes \<Rightarrow> bool" where
  "no_second_preimage sha x \<longleftrightarrow> (\<forall>y. sha y = sha x \<longrightarrow> y = x)"

lemma answer_typed_data_core:
  assumes "InferenceSchema x"
  shows "receipt_typed_data (xa_receipt x) (hl_chainId h) (hl_verifierAddress h) = Inr (answer_typed_data h (xa_receipt x))"
  using assms by (auto simp: InferenceSchema_def receipt_typed_data_Inr answer_typed_data_def receipt_types_def RECEIPT_TYPES_def API_RECEIPT_TYPES_def
    split: option.splits)

lemma verify_answer_Inr:
  assumes "verify_answer host aborted connected abortedEnd raw p = Inr v"
  obtains x where "raw = InferenceAnswer x" and "InferenceSchema x" and "receipt_bound host p x (sha256Hex (bw_sha host) (vi_outputBytes v))"
    and "vi_receipt v = xa_receipt x"
  using assms by (auto simp: verify_answer_def res_simps split: api_answer.splits if_splits elim!: rbind_InrE)


section \<open>Spending\<close>

text \<open>A triple of the client's programs: \<open>E\<close> holds of the state an exception leaves.\<close>

definition client_triple :: "(client_run \<Rightarrow> bool) \<Rightarrow> 'a client \<Rightarrow> ('a \<Rightarrow> client_run \<Rightarrow> bool) \<Rightarrow> (client_run \<Rightarrow> bool) \<Rightarrow> bool" where
  "client_triple P m Q E \<longleftrightarrow> (\<forall>w s. P s \<longrightarrow> (case m w s of (Inr x, s') \<Rightarrow> Q x s' | (Inl _, s') \<Rightarrow> E s'))"

lemma triple_bind: "client_triple P m R E \<Longrightarrow> (\<And>x. client_triple (R x) (f x) Q E) \<Longrightarrow> client_triple P (cl_bind m f) Q E"
  unfolding client_triple_def cl_bind_def by (fastforce split: prod.splits sum.splits)

lemma triple_conseq: "client_triple P m Q E \<Longrightarrow> (\<And>s. P' s \<Longrightarrow> P s) \<Longrightarrow> (\<And>x s. Q x s \<Longrightarrow> Q' x s) \<Longrightarrow> client_triple P' m Q' E"
  unfolding client_triple_def by (fastforce split: prod.splits sum.splits)

lemma triple_return: "(\<And>s. P s \<Longrightarrow> Q x s) \<Longrightarrow> client_triple P (cl_return x) Q E"
  by (simp add: client_triple_def cl_return_def)

lemma triple_lift: "(\<And>s x. P s \<Longrightarrow> m = Inr x \<Longrightarrow> Q x s) \<Longrightarrow> (\<And>s. P s \<Longrightarrow> E s) \<Longrightarrow> client_triple P (cl_lift m) Q E"
  by (auto simp: client_triple_def cl_lift_def split: sum.splits)

lemma triple_require: "(\<And>s. P s \<Longrightarrow> c \<Longrightarrow> Q () s) \<Longrightarrow> (\<And>s. P s \<Longrightarrow> E s) \<Longrightarrow> client_triple P (cl_require c e) Q E"
  unfolding cl_require_def by (rule triple_lift) (auto simp: res_simps)

lemma triple_get: "(\<And>s. P s \<Longrightarrow> Q (f (ky_pending s)) s) \<Longrightarrow> client_triple P (cl_get f) Q E"
  by (simp add: client_triple_def cl_get_def)

lemma triple_modify: "(\<And>s. P s \<Longrightarrow> Q () (s\<lparr>ky_pending := f (ky_pending s)\<rparr>)) \<Longrightarrow> client_triple P (cl_modify f) Q E"
  by (simp add: client_triple_def cl_modify_def)

lemma triple_look: "(\<And>s x. P s \<Longrightarrow> Q x (s\<lparr>ky_step := Suc (ky_step s)\<rparr>)) \<Longrightarrow> client_triple P (cl_look f) Q E"
  by (simp add: client_triple_def cl_look_def)

lemma triple_request:
  assumes "\<And>s x. P s \<Longrightarrow> Q x (s\<lparr>ky_step := Suc (ky_step s), ky_events := ky_events s @ [Requested r]\<rparr>)"
    and "\<And>s. P s \<Longrightarrow> E (s\<lparr>ky_step := Suc (ky_step s), ky_events := ky_events s @ [Requested r]\<rparr>)"
  shows "client_triple P (cl_request r) Q E"
  using assms by (auto simp: client_triple_def cl_request_def split: sum.splits)

lemma triple_wallet:
  assumes "\<And>s x. P s \<Longrightarrow> Q x (s\<lparr>ky_step := Suc (ky_step s), ky_events := ky_events s @ [WalletAsked policy i]\<rparr>)"
    and "\<And>s. P s \<Longrightarrow> E (s\<lparr>ky_step := Suc (ky_step s), ky_events := ky_events s @ [WalletAsked policy i]\<rparr>)"
  shows "client_triple P (cl_wallet policy i) Q E"
  using assms by (auto simp: client_triple_def cl_wallet_def split: sum.splits)

text \<open>What every event of a prepared request may be.\<close>

definition event_ok :: "pending_state \<Rightarrow> client_event \<Rightarrow> bool" where
  "event_ok p e =
     (case e of
        Requested r \<Rightarrow>
          (case r of
             PostSettle paymentId confidential auth \<Rightarrow>
               \<not> confidential \<and> (\<exists>c. pn_challenge p = Some c \<and> paymentId = ch_paymentId c)
               \<and> (auth = None \<and> hl_chainId (pn_health p) = 31337
                  \<or> auth \<noteq> None \<and> auth = pn_authorization p \<and> hl_chainId (pn_health p) = arc_chainId)
           | PostInference body key payment \<Rightarrow>
               body = pn_body p \<and> key = pn_idempotencyKey p \<and> (payment = None \<or> (\<exists>c. pn_challenge p = Some c \<and> payment = Some (ch_paymentId c)))
           | _ \<Rightarrow> True)
      | WalletAsked policy i \<Rightarrow>
          hl_chainId (pn_health p) = arc_chainId \<and> yi_meter i = yp_meter policy
          \<and> (\<exists>c. pn_challenge p = Some c \<and> yi_amountUnits i = ch_maxAmountRequired c \<and> yi_paymentId i = ch_paymentId c \<and> same (ch_payTo c) (yp_meter policy))
          \<and> dec_number (yi_amountUnits i) \<le> dec_number (yp_maxAmountUnits policy))"

definition pay_ok :: "client_run \<Rightarrow> bool" where
  "pay_ok s \<longleftrightarrow> (\<forall>e \<in> set (ky_events s). event_ok (ky_pending s) e)"

definition paying :: "payment_challenge \<Rightarrow> client_health \<Rightarrow> client_run \<Rightarrow> bool" where
  "paying c h s \<longleftrightarrow> pay_ok s \<and> pn_challenge (ky_pending s) = Some c \<and> pn_health (ky_pending s) = h"

lemma paying_ok: "paying c h s \<Longrightarrow> pay_ok s"
  by (simp add: paying_def)

lemma pay_ok_updates [simp]:
  "pay_ok (s\<lparr>ky_step := n\<rparr>) = pay_ok s"
  "pay_ok (s\<lparr>ky_pending := (ky_pending s)\<lparr>pn_busy := b\<rparr>\<rparr>) = pay_ok s"
  "pay_ok (s\<lparr>ky_pending := (ky_pending s)\<lparr>pn_settled := b\<rparr>\<rparr>) = pay_ok s"
  "pay_ok (s\<lparr>ky_pending := (ky_pending s)\<lparr>pn_result := v\<rparr>\<rparr>) = pay_ok s"
  by (simp_all add: pay_ok_def event_ok_def cong: client_event.case_cong api_request.case_cong)

lemma pay_ok_event: "pay_ok s \<Longrightarrow> event_ok (ky_pending s) e \<Longrightarrow> pay_ok (s\<lparr>ky_step := n, ky_events := ky_events s @ [e]\<rparr>)"
  by (auto simp: pay_ok_def)

lemma event_ok_authorized: "event_ok p e \<Longrightarrow> pn_authorization p = None \<Longrightarrow> event_ok (p\<lparr>pn_authorization := a\<rparr>) e"
  by (cases e) (auto simp: event_ok_def split: api_request.splits)

lemma pay_ok_authorized:
  assumes "pay_ok s" and "pn_authorization (ky_pending s) = None"
  shows "pay_ok (s\<lparr>ky_pending := (ky_pending s)\<lparr>pn_authorization := a\<rparr>\<rparr>)"
  using assms by (simp add: pay_ok_def event_ok_authorized)

lemmas triple_keep = triple_bind [where R = "\<lambda>_. P" for P]

text \<open>Exchanges that leave the request as it is.\<close>

definition harmless :: "'a client \<Rightarrow> bool" where
  "harmless m \<longleftrightarrow> (\<forall>w s. ky_pending (snd (m w s)) = ky_pending s
     \<and> (\<exists>es. ky_events (snd (m w s)) = ky_events s @ es \<and> (\<forall>e \<in> set es. event_ok (ky_pending s) e)))"

lemma harmless_triple:
  assumes "harmless m" and "\<And>s t. P s \<Longrightarrow> ky_pending t = ky_pending s \<Longrightarrow> pay_ok t \<Longrightarrow> P t" and "\<And>s. P s \<Longrightarrow> pay_ok s"
  shows "client_triple P m (\<lambda>_. P) pay_ok"
  unfolding client_triple_def
proof (intro allI impI)
  fix w s assume P: "P s"
  obtain r t where t: "m w s = (r, t)" by fastforce
  with assms(1) have "ky_pending t = ky_pending s" "\<exists>es. ky_events t = ky_events s @ es \<and> (\<forall>e \<in> set es. event_ok (ky_pending s) e)"
    unfolding harmless_def by (metis snd_conv)+
  moreover from this assms(3) [OF P] have "pay_ok t" by (auto simp: pay_ok_def)
  ultimately show "case m w s of (Inr x, s') \<Rightarrow> P s' | (Inl _, s') \<Rightarrow> pay_ok s'"
    using assms(2) [OF P] t by (auto split: sum.splits)
qed

lemma harmless_bind: "harmless m \<Longrightarrow> (\<And>x. harmless (f x)) \<Longrightarrow> harmless (cl_bind m f)"
  unfolding harmless_def cl_bind_def
proof (intro allI)
  fix w s
  assume m: "\<forall>w s. ky_pending (snd (m w s)) = ky_pending s \<and> (\<exists>es. ky_events (snd (m w s)) = ky_events s @ es \<and> (\<forall>e \<in> set es. event_ok (ky_pending s) e))"
    and f: "\<And>x. \<forall>w s. ky_pending (snd (f x w s)) = ky_pending s \<and> (\<exists>es. ky_events (snd (f x w s)) = ky_events s @ es \<and> (\<forall>e \<in> set es. event_ok (ky_pending s) e))"
  obtain r t where t: "m w s = (r, t)" by fastforce
  from m t have p: "ky_pending t = ky_pending s" "\<exists>es. ky_events t = ky_events s @ es \<and> (\<forall>e \<in> set es. event_ok (ky_pending s) e)" by (metis snd_conv)+
  let ?r = "case m w s of (Inl e, s') \<Rightarrow> (Inl e, s') | (Inr x, s') \<Rightarrow> f x w s'"
  show "ky_pending (snd ?r) = ky_pending s \<and> (\<exists>es. ky_events (snd ?r) = ky_events s @ es \<and> (\<forall>e \<in> set es. event_ok (ky_pending s) e))"
  proof (cases r)
    case (Inl e)
    with t p show ?thesis by simp
  next
    case (Inr x)
    from f [of x, rule_format, of w t] obtain es where "ky_pending (snd (f x w t)) = ky_pending t" "ky_events (snd (f x w t)) = ky_events t @ es"
      "\<forall>e \<in> set es. event_ok (ky_pending t) e" by blast
    with p t Inr show ?thesis by (auto simp: ball_Un)
  qed
qed

lemma harmless_basic:
  "harmless (cl_return x)" "harmless (cl_lift m)" "harmless (cl_require c e)" "harmless (cl_get f)" "harmless (cl_look g)"
  by (simp_all add: harmless_def cl_return_def cl_lift_def cl_require_def cl_get_def cl_look_def)

lemma harmless_request: "(\<And>p. event_ok p (Requested r)) \<Longrightarrow> harmless (cl_request r)"
  by (simp add: harmless_def cl_request_def)

lemma harmless_parts:
  "harmless cl_health" "harmless (cl_verify host raw)" "harmless (check_active host)" "harmless (check_health host policy c h)" "harmless cl_account"
  "harmless (approval_matches host typed i auth)"
  unfolding cl_health_def cl_verify_def check_active_def check_health_def cl_account_def approval_matches_def
  by (auto intro!: harmless_bind harmless_basic harmless_request simp: event_ok_def split: prod.splits)

lemma paying_harmless: "harmless m \<Longrightarrow> client_triple (\<lambda>s. paying c h s \<and> R (ky_pending s)) m (\<lambda>_ s. paying c h s \<and> R (ky_pending s)) pay_ok"
  by (rule harmless_triple) (auto simp: paying_def)

lemma ok_harmless: "harmless m \<Longrightarrow> client_triple pay_ok m (\<lambda>_. pay_ok) pay_ok"
  by (rule harmless_triple)

lemma triple_prod: "(\<And>a b. client_triple P (f a b) Q E) \<Longrightarrow> client_triple P (case x of (a, b) \<Rightarrow> f a b) Q E"
  by (cases x) simp

lemma paying_updates [simp]:
  "paying c h (s\<lparr>ky_step := n\<rparr>) = paying c h s"
  "paying c h (s\<lparr>ky_pending := (ky_pending s)\<lparr>pn_settled := b\<rparr>\<rparr>) = paying c h s"
  by (simp_all add: paying_def)

lemma paying_event: "paying c h s \<Longrightarrow> event_ok (ky_pending s) e \<Longrightarrow> paying c h (s\<lparr>ky_step := n, ky_events := ky_events s @ [e]\<rparr>)"
  by (simp add: paying_def pay_ok_event)

lemma triple_skip: "harmless m \<Longrightarrow> (\<And>x. client_triple (\<lambda>s. paying c h s \<and> R (ky_pending s)) (f x) Q pay_ok)
    \<Longrightarrow> client_triple (\<lambda>s. paying c h s \<and> R (ky_pending s)) (cl_bind m f) Q pay_ok"
  by (rule triple_bind [OF paying_harmless])

lemma paid_inference_triple:
  "client_triple (\<lambda>s. paying c h s \<and> R (ky_pending s)) (paid_inference host (ch_paymentId c)) (\<lambda>_. pay_ok) pay_ok"
  unfolding paid_inference_def
proof (rule triple_bind)
  let ?R = "\<lambda>x s. paying c h s \<and> x = PostInference (pn_body (ky_pending s)) (pn_idempotencyKey (ky_pending s)) (Some (ch_paymentId c))"
  show "client_triple (\<lambda>s. paying c h s \<and> R (ky_pending s)) (cl_get (\<lambda>p. PostInference (pn_body p) (pn_idempotencyKey p) (Some (ch_paymentId c)))) ?R pay_ok"
    by (rule triple_get) simp
  show "client_triple (?R x) (cl_bind (cl_request x) (\<lambda>raw. cl_bind (cl_verify host raw) (\<lambda>v.
     cl_bind (cl_modify (\<lambda>p. p\<lparr>pn_result := Some v\<rparr>)) (\<lambda>_. cl_return v)))) (\<lambda>_. pay_ok) pay_ok" for x
  proof (rule triple_bind [where R = "\<lambda>_. pay_ok"])
    have "event_ok (ky_pending s) (Requested x)" if "?R x s" for s using that by (auto simp: event_ok_def paying_def)
    then show "client_triple (?R x) (cl_request x) (\<lambda>_. pay_ok) pay_ok"
      by (intro triple_request) (auto simp: paying_def intro!: pay_ok_event)
    show "client_triple pay_ok (cl_bind (cl_verify host raw) (\<lambda>v. cl_bind (cl_modify (\<lambda>p. p\<lparr>pn_result := Some v\<rparr>)) (\<lambda>_. cl_return v))) (\<lambda>_. pay_ok) pay_ok" for raw
    proof (rule triple_bind [OF ok_harmless])
      show "client_triple pay_ok (cl_bind (cl_modify (\<lambda>p. p\<lparr>pn_result := Some v\<rparr>)) (\<lambda>_. cl_return v)) (\<lambda>_. pay_ok) pay_ok" for v
        by (rule triple_bind [where R = "\<lambda>_. pay_ok"]) (auto intro: triple_modify triple_return)
    qed (rule harmless_parts)
  qed
qed

text \<open>A settlement request and the handling of its answer.\<close>

lemma settle_answer_triple:
  assumes "\<And>s. paying c h s \<Longrightarrow> R (ky_pending s) \<Longrightarrow> event_ok (ky_pending s) (Requested r)"
  shows "client_triple (\<lambda>s. paying c h s \<and> R (ky_pending s))
    (cl_bind (cl_request r) (\<lambda>a. cl_bind (cl_lift (g a)) (\<lambda>_. cl_modify (\<lambda>p. p\<lparr>pn_settled := True\<rparr>)))) (\<lambda>_. paying c h) pay_ok"
proof (rule triple_bind)
  show "client_triple (\<lambda>s. paying c h s \<and> R (ky_pending s)) (cl_request r) (\<lambda>_. paying c h) pay_ok"
    using assms by (intro triple_request) (auto intro: paying_event paying_ok)
  show "client_triple (paying c h) (cl_bind (cl_lift (g a)) (\<lambda>_. cl_modify (\<lambda>p. p\<lparr>pn_settled := True\<rparr>))) (\<lambda>_. paying c h) pay_ok" for a
    by (rule triple_bind [where R = "\<lambda>_. paying c h"]) (auto intro!: triple_lift triple_modify paying_ok)
qed

lemma settle_local_triple:
  assumes "hl_chainId h = 31337"
  shows "client_triple (\<lambda>s. paying c h s \<and> R (ky_pending s)) (settle_local host c) (\<lambda>_. paying c h) pay_ok"
  unfolding settle_local_def
proof (rule triple_skip [OF harmless_basic(4)])
  fix settled
  have "client_triple (\<lambda>s. paying c h s \<and> R (ky_pending s)) (cl_bind (cl_request (PostSettle (ch_paymentId c) False None)) (\<lambda>a.
      cl_bind (cl_lift (g a)) (\<lambda>_. cl_modify (\<lambda>p. p\<lparr>pn_settled := True\<rparr>)))) (\<lambda>_. paying c h) pay_ok" for g :: "api_answer \<Rightarrow> client_error + unit"
    by (rule settle_answer_triple) (use assms in \<open>auto simp: event_ok_def paying_def\<close>)
  then show "client_triple (\<lambda>s. paying c h s \<and> R (ky_pending s)) (if settled then cl_return () else
      cl_bind (cl_request (PostSettle (ch_paymentId c) False None)) (\<lambda>a.
       cl_bind (cl_lift (case a of
           SettleAnswer paymentId tx confidential \<Rightarrow>
             if bw_uuid host paymentId \<and> tx \<noteq> [] \<and> paymentId = ch_paymentId c \<and> \<not> confidential then Inr () else Inl invalid_response
         | _ \<Rightarrow> Inl invalid_response)) (\<lambda>_. cl_modify (\<lambda>p. p\<lparr>pn_settled := True\<rparr>)))) (\<lambda>_. paying c h) pay_ok"
    by (auto intro: triple_return)
qed

definition reviewed_for :: "arc_policy \<Rightarrow> payment_challenge \<Rightarrow> client_health \<Rightarrow> bool" where
  "reviewed_for policy c h \<longleftrightarrow> hl_chainId h = arc_chainId \<and> same (ch_payTo c) (yp_meter policy)
     \<and> dec_number (ch_maxAmountRequired c) \<le> dec_number (yp_maxAmountUnits policy)"

lemma authorize_arc_triple:
  assumes "reviewed_for policy c h"
  shows "client_triple (\<lambda>s. paying c h s \<and> pn_authorization (ky_pending s) = None) (authorize_arc host policy c)
    (\<lambda>_ s. paying c h s \<and> pn_authorization (ky_pending s) \<noteq> None) pay_ok"
proof -
  let ?P = "\<lambda>s. paying c h s \<and> pn_authorization (ky_pending s) = None" and ?Q = "\<lambda>s. paying c h s \<and> pn_authorization (ky_pending s) \<noteq> None"
  have tail: "client_triple ?Q (cl_bind cl_health (\<lambda>h'. cl_bind (check_health host policy c h') (\<lambda>_. check_active host))) (\<lambda>_. ?Q) pay_ok"
    by (intro triple_skip [where R = "\<lambda>p. pn_authorization p \<noteq> None"] paying_harmless harmless_parts)
  have store: "client_triple ?P (cl_modify (\<lambda>p. p\<lparr>pn_authorization := Some auth\<rparr>)) (\<lambda>_. ?Q) pay_ok" for auth
    by (rule triple_modify) (auto simp: paying_def intro: pay_ok_authorized)
  have after: "client_triple ?P (cl_bind (check_active host) (\<lambda>_. cl_bind (approval_matches host typed i auth) (\<lambda>_.
      cl_bind (cl_modify (\<lambda>p. p\<lparr>pn_authorization := Some auth\<rparr>)) (\<lambda>_.
      cl_bind cl_health (\<lambda>h'. cl_bind (check_health host policy c h') (\<lambda>_. check_active host)))))) (\<lambda>_. ?Q) pay_ok" for typed i auth
    by (rule triple_skip [where R = "\<lambda>p. pn_authorization p = None"], rule harmless_parts, rule triple_skip [where R = "\<lambda>p. pn_authorization p = None"],
        rule harmless_parts, rule triple_bind [OF store tail])
  have ask: "client_triple ?P (cl_wallet policy (arc_intent_of host policy c payer session now)) (\<lambda>_. ?P) pay_ok" for payer session now
    using assms by (intro triple_wallet) (auto simp: reviewed_for_def event_ok_def arc_intent_of_def paying_def intro!: pay_ok_event)
  show ?thesis
    unfolding authorize_arc_def Let_def
    by (rule triple_skip [where R = "\<lambda>p. pn_authorization p = None"], rule harmless_parts, rule triple_prod,
        (rule triple_skip [where R = "\<lambda>p. pn_authorization p = None"], rule harmless_basic)+, rule triple_bind [OF ask after])
qed

lemma authorization_triple:
  assumes "reviewed_for policy c h"
  shows "client_triple (\<lambda>s. paying c h s \<and> R (ky_pending s))
    (cl_bind (cl_get pn_authorization) (\<lambda>a. case a of None \<Rightarrow> authorize_arc host policy c | Some _ \<Rightarrow> cl_return ()))
    (\<lambda>_ s. paying c h s \<and> pn_authorization (ky_pending s) \<noteq> None) pay_ok"
proof (rule triple_bind)
  let ?R = "\<lambda>a s. paying c h s \<and> pn_authorization (ky_pending s) = a"
  show "client_triple (\<lambda>s. paying c h s \<and> R (ky_pending s)) (cl_get pn_authorization) ?R pay_ok" by (rule triple_get) simp
  show "client_triple (?R a) (case a of None \<Rightarrow> authorize_arc host policy c | Some _ \<Rightarrow> cl_return ())
      (\<lambda>_ s. paying c h s \<and> pn_authorization (ky_pending s) \<noteq> None) pay_ok" for a
    using authorize_arc_triple [OF assms] by (cases a) (auto intro: triple_return)
qed

lemma settle_arc_triple:
  assumes "reviewed_for policy c h"
  shows "client_triple (\<lambda>s. paying c h s \<and> R (ky_pending s)) (settle_arc host policy c) (\<lambda>_. paying c h) pay_ok"
  unfolding settle_arc_def
proof (rule triple_skip [OF harmless_basic(4)])
  fix settled
  let ?Q = "\<lambda>s. paying c h s \<and> pn_authorization (ky_pending s) \<noteq> None"
  let ?G = "\<lambda>r s. paying c h s \<and> r = PostSettle (ch_paymentId c) False (pn_authorization (ky_pending s)) \<and> pn_authorization (ky_pending s) \<noteq> None"
  have post: "client_triple (?G r) (cl_bind (cl_request r) (\<lambda>a. cl_bind (cl_lift (g a)) (\<lambda>_. cl_modify (\<lambda>p. p\<lparr>pn_settled := True\<rparr>)))) (\<lambda>_. paying c h) pay_ok"
    for r and g :: "api_answer \<Rightarrow> client_error + unit"
    by (rule settle_answer_triple [where R = "\<lambda>p. r = PostSettle (ch_paymentId c) False (pn_authorization p) \<and> pn_authorization p \<noteq> None"])
      (use assms in \<open>auto simp: event_ok_def paying_def reviewed_for_def\<close>)
  have read: "client_triple ?Q (cl_get (\<lambda>p. PostSettle (ch_paymentId c) False (pn_authorization p))) ?G pay_ok" by (rule triple_get) simp
  show "client_triple (\<lambda>s. paying c h s \<and> R (ky_pending s)) (if settled then cl_return ()
     else cl_bind (cl_bind (cl_get pn_authorization) (\<lambda>a. case a of None \<Rightarrow> authorize_arc host policy c | Some _ \<Rightarrow> cl_return ())) (\<lambda>_.
       cl_bind (check_active host) (\<lambda>_.
       cl_bind (cl_get (\<lambda>p. PostSettle (ch_paymentId c) False (pn_authorization p))) (\<lambda>r.
       cl_bind (cl_request r) (\<lambda>a.
       cl_bind (cl_lift (case a of
           SettleAnswer paymentId tx confidential \<Rightarrow>
             if bw_uuid host paymentId \<and> isHex32 tx \<and> \<not> confidential \<and> paymentId = ch_paymentId c then Inr () else Inl invalid_response
         | _ \<Rightarrow> Inl invalid_response)) (\<lambda>_.
       cl_modify (\<lambda>p. p\<lparr>pn_settled := True\<rparr>))))))) (\<lambda>_. paying c h) pay_ok"
  proof (cases settled)
    case True
    then show ?thesis by (auto intro: triple_return)
  next
    case False
    have rest: "client_triple ?Q (cl_bind (check_active host) (\<lambda>_. cl_bind (cl_get (\<lambda>p. PostSettle (ch_paymentId c) False (pn_authorization p))) (\<lambda>r.
        cl_bind (cl_request r) (\<lambda>a. cl_bind (cl_lift (g a)) (\<lambda>_. cl_modify (\<lambda>p. p\<lparr>pn_settled := True\<rparr>)))))) (\<lambda>_. paying c h) pay_ok"
      for g :: "api_answer \<Rightarrow> client_error + unit"
      by (rule triple_skip [where R = "\<lambda>p. pn_authorization p \<noteq> None"], rule harmless_parts) (rule triple_bind [OF read post])
    have settled: "settled = False" using False by simp
    show ?thesis unfolding settled if_False by (intro triple_bind [OF authorization_triple [OF assms] rest])
  qed
qed

text \<open>Both ways to pay keep what is known of the events.\<close>

lemma begin_payment_triple:
  assumes "\<And>c h. client_triple (paying c h) (k c) (\<lambda>_. pay_ok) pay_ok"
  shows "client_triple pay_ok (begin_payment k) (\<lambda>_. pay_ok) pay_ok"
proof -
  have busy: "client_triple (paying c h) (cl_busy (k c)) (\<lambda>_. pay_ok) pay_ok" for c h
    unfolding cl_busy_def
  proof (rule triple_bind [where R = "\<lambda>_. paying c h"])
    show "client_triple (paying c h) (cl_modify (\<lambda>p. p\<lparr>pn_busy := True\<rparr>)) (\<lambda>_. paying c h) pay_ok"
      by (rule triple_modify) (simp add: paying_def)
    show "client_triple (paying c h) (finally_idle (k c)) (\<lambda>_. pay_ok) pay_ok"
      using assms [of c h] unfolding client_triple_def finally_idle_def by (fastforce split: prod.splits sum.splits)
  qed
  show ?thesis
    unfolding begin_payment_def
  proof (rule triple_bind [OF ok_harmless [OF harmless_basic(5)]], rule triple_bind [OF ok_harmless [OF harmless_basic(3)]], rule triple_bind)
    show "client_triple pay_ok (cl_get id) (\<lambda>p s. pay_ok s \<and> p = ky_pending s) pay_ok" by (rule triple_get) simp
    show "client_triple (\<lambda>s. pay_ok s \<and> p = ky_pending s) (case pn_result p of Some v \<Rightarrow> cl_return v
        | None \<Rightarrow> if pn_busy p then cl_lift (Inl (ApiError 409 ''REQUEST_BUSY'' None))
           else (case pn_challenge p of None \<Rightarrow> cl_lift (Inl invalid_response) | Some c \<Rightarrow> cl_busy (k c))) (\<lambda>_. pay_ok) pay_ok" for p
    proof (cases "pn_challenge p")
      case None
      then show ?thesis by (auto intro!: triple_return triple_lift split: option.splits)
    next
      case (Some c)
      have "client_triple (\<lambda>s. pay_ok s \<and> p = ky_pending s) (cl_busy (k c)) (\<lambda>_. pay_ok) pay_ok"
        by (rule triple_conseq [OF busy [of c "pn_health p"]]) (use Some in \<open>auto simp: paying_def\<close>)
      with Some show ?thesis by (auto intro!: triple_return triple_lift split: option.splits)
    qed
  qed
qed

lemmas skip = triple_skip [where R = "\<lambda>_. True", simplified]

lemma triple_pure: "(c \<Longrightarrow> client_triple P m Q E) \<Longrightarrow> client_triple (\<lambda>s. P s \<and> c) m Q E"
  by (cases c) (simp_all add: client_triple_def)

lemma settleLocalAndRun_ok: "client_triple pay_ok (settleLocalAndRun host) (\<lambda>_. pay_ok) pay_ok"
  unfolding settleLocalAndRun_def
proof (rule begin_payment_triple)
  fix c h
  have pay: "client_triple (\<lambda>s. paying c h s \<and> (canSettleLocally h \<and> canSettleLocally current))
      (cl_bind (cl_require (same_gateway current h) (ApiError 409 ''GATEWAY_CHANGED'' None)) (\<lambda>_.
       cl_bind (settle_local host c) (\<lambda>_. paid_inference host (ch_paymentId c)))) (\<lambda>_. pay_ok) pay_ok" for current
  proof (rule triple_pure)
    assume "canSettleLocally h \<and> canSettleLocally current"
    then have "hl_chainId h = 31337" by (simp add: canSettleLocally_def)
    then show "client_triple (paying c h) (cl_bind (cl_require (same_gateway current h) (ApiError 409 ''GATEWAY_CHANGED'' None)) (\<lambda>_.
       cl_bind (settle_local host c) (\<lambda>_. paid_inference host (ch_paymentId c)))) (\<lambda>_. pay_ok) pay_ok"
      by (intro skip harmless_basic triple_bind [OF settle_local_triple [where R = "\<lambda>_. True", simplified]]
          paid_inference_triple [where R = "\<lambda>_. True", simplified])
  qed
  have health: "client_triple (\<lambda>s. paying c h s \<and> health = h)
      (cl_bind (cl_require (canSettleLocally health \<and> canSettleLocally current) (ApiError 403 ''LOCAL_SETTLEMENT_ONLY'' None)) (\<lambda>_.
       cl_bind (cl_require (same_gateway current health) (ApiError 409 ''GATEWAY_CHANGED'' None)) (\<lambda>_.
       cl_bind (settle_local host c) (\<lambda>_. paid_inference host (ch_paymentId c))))) (\<lambda>_. pay_ok) pay_ok" for health current
  proof (rule triple_pure)
    assume "health = h"
    show "client_triple (paying c h) (cl_bind (cl_require (canSettleLocally health \<and> canSettleLocally current) (ApiError 403 ''LOCAL_SETTLEMENT_ONLY'' None)) (\<lambda>_.
       cl_bind (cl_require (same_gateway current health) (ApiError 409 ''GATEWAY_CHANGED'' None)) (\<lambda>_.
       cl_bind (settle_local host c) (\<lambda>_. paid_inference host (ch_paymentId c))))) (\<lambda>_. pay_ok) pay_ok"
      unfolding \<open>health = h\<close> by (rule triple_bind [OF _ pay]) (auto intro!: triple_require paying_ok)
  qed
  have get: "client_triple (paying c h) (cl_get pn_health) (\<lambda>x s. paying c h s \<and> x = h) pay_ok" by (rule triple_get) (simp add: paying_def)
  show "client_triple (paying c h) (cl_bind (cl_look bx_now) (\<lambda>now. cl_bind (cl_get pn_session) (\<lambda>session.
       cl_bind (cl_require (\<not> expired host session now) (ApiError 401 ''SESSION_EXPIRED'' None)) (\<lambda>_.
       cl_bind cl_health (\<lambda>current. cl_bind (cl_get pn_health) (\<lambda>health.
       cl_bind (cl_require (canSettleLocally health \<and> canSettleLocally current) (ApiError 403 ''LOCAL_SETTLEMENT_ONLY'' None)) (\<lambda>_.
       cl_bind (cl_require (same_gateway current health) (ApiError 409 ''GATEWAY_CHANGED'' None)) (\<lambda>_.
       cl_bind (settle_local host c) (\<lambda>_. paid_inference host (ch_paymentId c)))))))))) (\<lambda>_. pay_ok) pay_ok"
    by (rule skip, rule harmless_basic, rule skip, rule harmless_basic, rule skip, rule harmless_basic, rule skip, rule harmless_parts)
      (rule triple_bind [OF get health])
qed

lemma settleArcAndRun_ok: "client_triple pay_ok (settleArcAndRun host policy) (\<lambda>_. pay_ok) pay_ok"
  unfolding settleArcAndRun_def
proof (rule triple_bind [OF ok_harmless [OF harmless_basic(3)]], rule begin_payment_triple)
  fix c h
  let ?rest = "\<lambda>_ :: unit. cl_bind cl_health (\<lambda>h'. cl_bind (check_health host policy c h') (\<lambda>_.
       cl_bind (check_active host) (\<lambda>_. cl_bind (settle_arc host policy c) (\<lambda>_. paid_inference host (ch_paymentId c)))))"
  have pay: "client_triple (\<lambda>s. paying c h s \<and> reviewed_for policy c h) (?rest u) (\<lambda>_. pay_ok) pay_ok" for u :: unit
  proof (rule triple_pure)
    assume "reviewed_for policy c h"
    then show "client_triple (paying c h) (?rest u) (\<lambda>_. pay_ok) pay_ok"
      by (intro skip harmless_parts triple_bind [OF settle_arc_triple [where R = "\<lambda>_. True", simplified]]
          paid_inference_triple [where R = "\<lambda>_. True", simplified])
  qed
  have review: "client_triple (\<lambda>s. paying c h s \<and> prepared = h) (check_health host policy c prepared) (\<lambda>_ s. paying c h s \<and> reviewed_for policy c h) pay_ok" for prepared
  proof (rule triple_pure)
    assume "prepared = h"
    show "client_triple (paying c h) (check_health host policy c prepared) (\<lambda>_ s. paying c h s \<and> reviewed_for policy c h) pay_ok"
      unfolding check_health_def
    proof (rule triple_bind [where R = "\<lambda>x s. paying c h s"])
      show "client_triple (paying c h) (cl_require (arc_reviewed host policy c x prepared) (ApiError 403 ''ARC_PAYMENT_POLICY'' None))
          (\<lambda>_ s. paying c h s \<and> reviewed_for policy c h) pay_ok" for x
        by (rule triple_require) (auto simp: \<open>prepared = h\<close> arc_reviewed_def reviewed_for_def paying_ok)
    qed (simp add: triple_get)
  qed
  have get: "client_triple (paying c h) (cl_get pn_health) (\<lambda>x s. paying c h s \<and> x = h) pay_ok" by (rule triple_get) (simp add: paying_def)
  show "client_triple (paying c h) (cl_bind (check_active host) (\<lambda>_. cl_bind (cl_get pn_health) (\<lambda>prepared.
       cl_bind (check_health host policy c prepared) ?rest))) (\<lambda>_. pay_ok) pay_ok"
    by (rule skip, rule harmless_parts) (rule triple_bind [OF get triple_bind [OF review pay]])
qed

section \<open>A request and its payments\<close>

definition prepared_run :: "browser_host \<Rightarrow> client_run \<Rightarrow> bool" where
  "prepared_run host s \<longleftrightarrow> (\<exists>iv key prompt agentId w s0. prepareInference host iv key prompt agentId w s0 = (Inr (), s) \<and> ky_events s0 = [])"

inductive paying_step :: "browser_host \<Rightarrow> client_run \<Rightarrow> client_run \<Rightarrow> bool" for host :: browser_host where
  pay_locally: "settleLocalAndRun host w s = (r, s') \<Longrightarrow> paying_step host s s'"
| pay_on_arc: "settleArcAndRun host policy w s = (r, s') \<Longrightarrow> paying_step host s s'"

lemma triple_state: "client_triple P m (\<lambda>_. Q) Q \<Longrightarrow> P s \<Longrightarrow> m w s = (r, s') \<Longrightarrow> Q s'"
proof -
  assume t: "client_triple P m (\<lambda>_. Q) Q" and P: "P s" and m: "m w s = (r, s')"
  from t P have "case m w s of (Inr x, s') \<Rightarrow> Q s' | (Inl _, s') \<Rightarrow> Q s'" by (simp add: client_triple_def)
  then show "Q s'" by (cases r) (simp_all add: m)
qed

lemma harmless_state:
  assumes "harmless m" and "m w s = (r, t)" and "pay_ok s"
  shows "pay_ok t \<and> ky_pending t = ky_pending s"
proof -
  from assms(1,2) have "ky_pending t = ky_pending s" "\<exists>es. ky_events t = ky_events s @ es \<and> (\<forall>e \<in> set es. event_ok (ky_pending s) e)"
    unfolding harmless_def by (metis snd_conv)+
  with assms(3) show ?thesis by (auto simp: pay_ok_def)
qed

text \<open>Before the request exists, its exchanges say nothing of it.\<close>

definition calm :: "client_run \<Rightarrow> bool" where
  "calm s \<longleftrightarrow> (\<forall>e \<in> set (ky_events s). \<forall>p. event_ok p e)"

definition calm_client :: "'a client \<Rightarrow> bool" where
  "calm_client m \<longleftrightarrow> client_triple calm m (\<lambda>_. calm) (\<lambda>_. True)"

lemma calm_bind: "calm_client m \<Longrightarrow> (\<And>x. calm_client (f x)) \<Longrightarrow> calm_client (cl_bind m f)"
  unfolding calm_client_def by (rule triple_bind)

lemma calm_basic:
  "calm_client (cl_return x)" "calm_client (cl_lift m)" "calm_client (cl_require c e)" "calm_client (cl_look g)"
  unfolding calm_client_def by (auto intro!: triple_return triple_lift triple_require triple_look simp: calm_def)

lemma calm_request: "(\<And>p. event_ok p (Requested r)) \<Longrightarrow> calm_client (cl_request r)"
  unfolding calm_client_def by (rule triple_request) (auto simp: calm_def)

lemma calm_prod: "(\<And>a b. calm_client (f a b)) \<Longrightarrow> calm_client (case x of (a, b) \<Rightarrow> f a b)"
  by (cases x) simp

lemma calm_parts: "calm_client cl_health" "calm_client (check_agent host agentId)" "calm_client cl_quote" "calm_client (openSession host quote)"
  unfolding cl_health_def check_agent_def cl_quote_def openSession_def
  by (auto intro!: calm_bind calm_basic calm_request calm_prod simp: event_ok_def split: option.splits)

lemma event_ok_challenged: "event_ok p e \<Longrightarrow> pn_challenge p = None \<Longrightarrow> event_ok (p\<lparr>pn_challenge := c\<rparr>) e"
  by (cases e) (auto simp: event_ok_def split: api_request.splits)

lemma pay_ok_challenged:
  assumes "pay_ok s" and "pn_challenge (ky_pending s) = None"
  shows "pay_ok (s\<lparr>ky_pending := (ky_pending s)\<lparr>pn_challenge := c\<rparr>\<rparr>)"
  using assms by (simp add: pay_ok_def event_ok_challenged)

lemma first_request_ok:
  assumes "pay_ok s" and "pn_challenge (ky_pending s) = None" and "pn_body (ky_pending s) = body" and "pn_idempotencyKey (ky_pending s) = key"
    and "first_request host body key w s = (Inr (), t)"
  shows "pay_ok t"
proof -
  let ?s = "s\<lparr>ky_step := Suc (ky_step s), ky_events := ky_events s @ [Requested (PostInference body key None)]\<rparr>"
  have s: "pay_ok ?s" by (rule pay_ok_event) (use assms in \<open>simp_all add: event_ok_def\<close>)
  obtain r u where u: "cl_bind (cl_request (PostInference body key None)) (cl_verify host) w s = (r, u)" by fastforce
  have "pay_ok u \<and> ky_pending u = ky_pending ?s"
  proof (cases "bx_answer w (ky_step s) (PostInference body key None)")
    case (Inl e)
    with u have "u = ?s" by (simp add: cl_bind_def cl_request_def)
    with s show ?thesis by simp
  next
    case (Inr a)
    with u have "cl_verify host a w ?s = (r, u)" by (simp add: cl_bind_def cl_request_def)
    then show ?thesis using s by (rule harmless_state [OF harmless_parts(2)])
  qed
  then have ok: "pay_ok u" "pn_challenge (ky_pending u) = None" using assms(2) by simp_all
  show ?thesis
  proof (cases r)
    case (Inr v)
    with assms(5) u have "t = u\<lparr>ky_pending := (ky_pending u)\<lparr>pn_result := Some v\<rparr>\<rparr>" by (simp add: first_request_def cl_modify_def)
    with ok show ?thesis by simp
  next
    case (Inl e)
    with assms(5) u obtain c where "t = u\<lparr>ky_pending := (ky_pending u)\<lparr>pn_challenge := Some c\<rparr>\<rparr>"
      by (auto simp: first_request_def cl_bind_def cl_modify_def cl_get_def cl_require_def cl_lift_def res_simps split: client_error.splits if_splits option.splits)
    with ok pay_ok_challenged show ?thesis by simp
  qed
qed

lemma prepared_ok: "prepared_run host s \<Longrightarrow> pay_ok s"
proof -
  assume "prepared_run host s"
  then obtain iv key prompt agentId w s0 where run: "prepareInference host iv key prompt agentId w s0 = (Inr (), s)" and s0: "ky_events s0 = []"
    unfolding prepared_run_def by blast
  have last: "client_triple calm (cl_bind (cl_modify (\<lambda>_. \<lparr>pn_body = body, pn_session = session, pn_health = health,
       pn_inputHash = inputHash, pn_challenge = None, pn_idempotencyKey = key, pn_settled = False,
       pn_busy = False, pn_result = None, pn_authorization = None\<rparr>)) (\<lambda>_. first_request host body key)) (\<lambda>_. pay_ok) (\<lambda>_. True)"
    for body session health inputHash
  proof (rule triple_bind)
    let ?R = "\<lambda>s. pay_ok s \<and> pn_challenge (ky_pending s) = None \<and> pn_body (ky_pending s) = body \<and> pn_idempotencyKey (ky_pending s) = key"
    show "client_triple calm (cl_modify (\<lambda>_. \<lparr>pn_body = body, pn_session = session, pn_health = health,
       pn_inputHash = inputHash, pn_challenge = None, pn_idempotencyKey = key, pn_settled = False,
       pn_busy = False, pn_result = None, pn_authorization = None\<rparr>)) (\<lambda>_. ?R) (\<lambda>_. True)"
      by (rule triple_modify) (simp add: calm_def pay_ok_def)
    show "client_triple ?R (first_request host body key) (\<lambda>_. pay_ok) (\<lambda>_. True)"
      unfolding client_triple_def
    proof (intro allI impI)
      fix w s assume R: "?R s"
      obtain r t where t: "first_request host body key w s = (r, t)" by fastforce
      have "pay_ok t" if "r = Inr u" for u :: unit using first_request_ok [of s body key host w t] R t that by simp
      with t show "case first_request host body key w s of (Inr x, s') \<Rightarrow> pay_ok s' | (Inl _, s') \<Rightarrow> True" by (simp split: sum.splits)
    qed
  qed
  have "client_triple calm (prepareInference host iv key prompt agentId) (\<lambda>_. pay_ok) (\<lambda>_. True)"
    unfolding prepareInference_def Let_def
    by (intro triple_bind [where R = "\<lambda>_. calm"] last calm_parts [unfolded calm_client_def] calm_basic [unfolded calm_client_def])
  then have "case prepareInference host iv key prompt agentId w s0 of (Inr x, s') \<Rightarrow> pay_ok s' | (Inl _, s') \<Rightarrow> True"
    using s0 by (simp add: client_triple_def calm_def)
  then show ?thesis by (simp add: run)
qed

interpretation browser_payments: invariant_system "prepared_run host" "paying_step host" pay_ok for host
proof unfold_locales
  show "pay_ok s" if "prepared_run host s" for s using that by (rule prepared_ok)
  show "pay_ok t" if "pay_ok s" "paying_step host s t" for s t
    using that(2,1) by cases (auto intro: triple_state [OF settleLocalAndRun_ok] triple_state [OF settleArcAndRun_ok])
qed

definition settlements :: "client_run \<Rightarrow> (string \<times> bool \<times> payment_authorization option) set" where
  "settlements s = {(i, b, a). Requested (PostSettle i b a) \<in> set (ky_events s)}"

lemma pay_ok_settlement: "pay_ok s \<Longrightarrow> (i, b, a) \<in> settlements s \<Longrightarrow> event_ok (ky_pending s) (Requested (PostSettle i b a))"
  by (simp add: pay_ok_def settlements_def)

lemma pay_ok_one_settlement:
  assumes "pay_ok s" and "x \<in> settlements s" and "y \<in> settlements s"
  shows "x = y"
proof -
  obtain i b a where x: "x = (i, b, a)" by (cases x)
  obtain i' b' a' where y: "y = (i', b', a')" by (cases y)
  have "(31337 :: int) \<noteq> arc_chainId" by (simp add: arc_chainId_def)
  with pay_ok_settlement [OF assms(1) assms(2) [unfolded x]] pay_ok_settlement [OF assms(1) assms(3) [unfolded y]] show ?thesis
    unfolding x y by (auto simp: event_ok_def) (metis option.inject)
qed


section \<open>A worked request\<close>

definition demo_split_sha :: hash_fun where
  "demo_split_sha y = (if y = [113] then replicate 32 1 else if y = [97] then replicate 32 2 else replicate 32 0)"

definition demo_shown_env :: cvm_env where
  "demo_shown_env = \<lparr>ce_host = demo_cvm_host\<lparr>nh_crypto := demo_near_crypto\<lparr>cx_sha := demo_split_sha\<rparr>\<rparr>, ce_typed = demo_typed, ce_aes = demo_aes\<rparr>"

definition demo_soft_cvm :: dev_cvm where
  "demo_soft_cvm = demo_released_cvm\<lparr>dv_mode := Development, dv_config := demo_cvm_config\<lparr>cc_chainId := 31337, cc_verifyingContract := demo_signer,
     cc_inference := True, cc_verifiedInference := False, cc_gatewayMode := None\<rparr>\<rparr>"

definition demo_browser :: browser_host where
  "demo_browser = \<lparr>bw_sha = demo_split_sha,
     bw_typed = \<lparr>ty_hash = (\<lambda>_. demo_zero_hash), ty_sign = (\<lambda>_ _. demo_near_signature), ty_recover = (\<lambda>_ _. Some demo_signer), ty_address = (\<lambda>_. demo_signer)\<rparr>,
     bw_aes = demo_aes, bw_keccak = (\<lambda>_. replicate 32 0), bw_recover = (\<lambda>d _. Some (td_from d)), bw_uuid = (\<lambda>_. True), bw_date = (\<lambda>_. Some 9),
     bw_units = (\<lambda>_. JInt 5)\<rparr>"

definition demo_client_health :: client_health where
  "demo_client_health = \<lparr>hl_teeMode = ''dev'', hl_inferenceBackend = ''software'', hl_inferenceRoute = None, hl_chainId = 31337, hl_paymentMode = ''mock'',
     hl_modelHash = modelHash demo_shown_env demo_soft_cvm, hl_codeHash = codeHash demo_shown_env demo_soft_cvm, hl_receiptSigner = demo_signer,
     hl_verifierAddress = demo_signer, hl_inferencePriceUsdc = ''0.000005'', hl_deployment = None, hl_providerPolicy = False, hl_settlementToken = None\<rparr>"

definition demo_client_session :: client_session where
  "demo_client_session = \<lparr>cl_sessionId = ''s'', cl_expiresAt = ''e'', cl_attRef = demo_zero_hash, cl_key = replicate 32 7\<rparr>"

definition demo_pending :: pending_state where
  "demo_pending = \<lparr>pn_body = JObj [], pn_session = demo_client_session, pn_health = demo_client_health, pn_inputHash = sha256Hex demo_split_sha [113],
     pn_challenge = None, pn_idempotencyKey = ''k'', pn_settled = False, pn_busy = False, pn_result = None, pn_authorization = None\<rparr>"

definition demo_inference_answer :: inference_answer where
  "demo_inference_answer =
     \<lparr>xa_receipt = \<lparr>ir_version = 2, ir_modelHash = modelHash demo_shown_env demo_soft_cvm, ir_codeHash = codeHash demo_shown_env demo_soft_cvm,
        ir_inHash = sha256Hex demo_split_sha [113], ir_outHash = sha256Hex demo_split_sha [97], ir_attRef = demo_zero_hash, ir_nonce = Some demo_zero_hash, ir_ts = 0\<rparr>,
      xa_sig = demo_near_signature, xa_typedHash = demo_zero_hash, xa_outputHash = sha256Hex demo_split_sha [97],
      xa_output = encryptAesGcm demo_aes (replicate 12 0) (replicate 32 7) [97]\<rparr>"

lemma demo_split_hash: "isHex32 (sha256Hex demo_split_sha b)" "isHex32 (sha256HexText demo_split_sha s)"
  by (simp_all add: isHex32_sha256Hex sha256HexText_def demo_split_sha_def)

lemma demo_shown_sha: "ce_sha demo_shown_env = demo_split_sha" "isHex32 (modelHash demo_shown_env demo_soft_cvm)" "isHex32 (codeHash demo_shown_env demo_soft_cvm)"
proof -
  show s: "ce_sha demo_shown_env = demo_split_sha" by (simp add: ce_sha_def ce_crypto_def demo_shown_env_def)
  then show "isHex32 (modelHash demo_shown_env demo_soft_cvm)" by (simp add: modelHash_def demo_split_hash)
  show "isHex32 (codeHash demo_shown_env demo_soft_cvm)"
    using s by (simp add: codeHash_def measurementOf_def ce_sha_def demo_split_hash)
qed

lemma demo_zero_hex: "isHex32 demo_zero_hash"
  using demo_patterns(1) by (simp add: isHex32_def hash_pattern_def)

lemma demo_answer_form: "InferenceSchema demo_inference_answer"
  using demo_patterns(4) by (simp add: InferenceSchema_def demo_inference_answer_def demo_split_hash demo_shown_sha demo_zero_hex)

lemma demo_output: "decrypt_answer demo_browser (replicate 32 7) (encryptAesGcm demo_aes (replicate 12 0) (replicate 32 7) [97]) = Inr [97]"
  using decrypt_answer_sealed [of demo_browser "replicate 12 0" "replicate 32 7" "[97]"] demo_aes_laws(1)
  by (simp add: demo_browser_def demo_aes_def max_bytes_def)

lemma demo_verified: "\<exists>v. verify_answer demo_browser False True False (InferenceAnswer demo_inference_answer) demo_pending = Inr v \<and> vi_outputBytes v = [97]"
proof -
  have "receipt_bound demo_browser demo_pending demo_inference_answer (sha256Hex demo_split_sha [97])"
    by (simp add: receipt_bound_def Let_def demo_inference_answer_def demo_pending_def demo_client_session_def demo_browser_def demo_client_health_def same_def)
  moreover have "bw_sha demo_browser = demo_split_sha" "cl_key (pn_session demo_pending) = replicate 32 7"
    "xa_output demo_inference_answer = encryptAesGcm demo_aes (replicate 12 0) (replicate 32 7) [97]"
    by (simp_all add: demo_browser_def demo_pending_def demo_client_session_def demo_inference_answer_def)
  ultimately show ?thesis using demo_answer_form by (simp add: verify_answer_def demo_output)
qed

lemma demo_answer_signed: "signed_by_enclave demo_shown_env (answer_typed_data demo_client_health (xa_receipt demo_inference_answer))"
proof -
  let ?w = "demo_infer_world\<lparr>iw_backend := Inr [97]\<rparr>" and ?d = demo_soft_cvm and ?env = demo_shown_env
  have lower: "lower demo_zero_hash = demo_zero_hash" by (simp add: demo_zero_hash_def lower_def lower_char_def)
  have zero: "toHex (replicate 32 0) = demo_zero_hash"
    using demo_hash [of demo_near_host] by (simp add: near_sha_def sha256Hex_def demo_near_crypto_def)
  have stamp: "receipt_stamp ?env demo_context ?w ?d = Inr ([2], demo_zero_hash, 0)"
    using demo_zero_hex lower zero
    by (simp add: receipt_stamp_def Let_def demo_context_def demo_infer_world_def demo_soft_cvm_def demo_released_cvm_def or_else_def is_safe_integer_def max_safe_def)
  have d: "verified_answer ?env ?w [113] ?d = Inr None" "dv_mode ?d = Development" "cc_inference (dv_config ?d)"
    "cc_chainId (dv_config ?d) = hl_chainId demo_client_health" "cc_verifyingContract (dv_config ?d) = hl_verifierAddress demo_client_health"
    by (simp_all add: verified_answer_def demo_soft_cvm_def demo_client_health_def)
  let ?r = "xa_receipt demo_inference_answer" and ?t = "answer_typed_data demo_client_health (xa_receipt demo_inference_answer)"
  have typed: "receipt_typed_data ?r (cc_chainId (dv_config ?d)) (cc_verifyingContract (dv_config ?d)) = Inr ?t"
    unfolding d(4,5) by (rule answer_typed_data_core [OF demo_answer_form])
  have r: "?r = \<lparr>ir_version = 2, ir_modelHash = modelHash ?env ?d, ir_codeHash = codeHash ?env ?d, ir_inHash = sha256Hex demo_split_sha [113],
     ir_outHash = sha256Hex demo_split_sha [97], ir_attRef = ic_attRef demo_context, ir_nonce = Some demo_zero_hash, ir_ts = 0\<rparr>"
    by (simp add: demo_inference_answer_def demo_context_def)
  obtain s where s: "signReceipt (ce_typed ?env) ?r (dv_enclavePrivateKey ?d) (cc_chainId (dv_config ?d)) (cc_verifyingContract (dv_config ?d)) = Inr s"
    "sr_receipt s = ?r" using typed by (simp add: signReceipt_def)
  have "cvm_infer ?env [113] demo_context ?w ?d = Inr \<lparr>ca_output = [97], ca_receipt = s, ca_proof = None, ca_transcript = None\<rparr>"
    using s(1) by (simp add: cvm_infer_def stamp d(1-3) demo_shown_sha r)
  moreover have "typed_same ?t ?t" using typed_same_receipt [OF typed typed] by (simp add: same_receipt_def same_def r)
  ultimately show ?thesis unfolding signed_by_enclave_def using typed s(2) by (metis cvm_answer.select_convs(2))
qed


definition demo_browser_quote :: attestation_quote where
  "demo_browser_quote = \<lparr>q_cpuQuote = ''c'', q_gpuQuote = ''g'', q_measurement = codeHash demo_shown_env demo_soft_cvm, q_tcbVersion = JInt 1, q_timestamp = JInt 5, q_signature = demo_near_signature\<rparr>"

definition demo_challenge :: payment_challenge where
  "demo_challenge = PaymentChallenge (''arc-'' @ int_dec 31337) ''5'' demo_signer demo_signer ''p''"

text \<open>A gateway that asks for a payment and then fails to answer.\<close>

definition demo_client_world :: client_world where
  "demo_client_world = \<lparr>bx_answer = (\<lambda>_ r. case r of
       GetHealth \<Rightarrow> Inr (HealthAnswer demo_client_health)
     | GetQuote \<Rightarrow> Inr (QuoteAnswer demo_browser_quote)
     | PostSession _ \<Rightarrow> Inr (SessionAnswer ''s'' ''e'' (to_base64 (replicate 32 7)))
     | PostInference _ _ None \<Rightarrow> Inl (ApiError 402 ''PAYMENT_REQUIRED'' (Some demo_challenge))
     | _ \<Rightarrow> Inl (ApiError 0 ''TIMEOUT'' None)),
     bx_now = (\<lambda>_. 5), bx_aborted = (\<lambda>_. False), bx_connected = (\<lambda>_. True), bx_account = (\<lambda>_. Inl AbortError), bx_wallet = (\<lambda>_ _. Inl AbortError)\<rparr>"

definition demo_client_start :: client_run where
  "demo_client_start = \<lparr>ky_pending = demo_pending, ky_step = 0, ky_events = []\<rparr>"

lemma demo_health_form: "HealthSchema demo_client_health"
  using demo_patterns(2) by (simp add: HealthSchema_def demo_client_health_def demo_shown_sha max_safe_def hex_string_def demo_signer_def
      is_hex_digit_def is_lower_hex_digit_def is_digit_def list_all_iff)

lemma demo_quote_form: "QuoteSchema demo_browser_quote"
  using demo_patterns(4) by (simp add: QuoteSchema_def demo_browser_quote_def demo_shown_sha max_safe_def)

lemma demo_challenge_form: "ChallengeSchema (bw_uuid demo_browser) demo_challenge"
  by (simp add: ChallengeSchema_def demo_challenge_def demo_browser_def uint_text_def positive_text_def dec_string_def hex_string_def demo_signer_def
      is_hex_digit_def is_lower_hex_digit_def is_digit_def list_all_iff)

lemma demo_challenge_fits: "challenge_matches demo_browser demo_client_health demo_challenge"
  by (simp add: challenge_matches_def Let_def demo_browser_def demo_client_health_def demo_challenge_def is_safe_integer_def max_safe_def dec_number_def digit_value_def)

lemma demo_session_key: "importSessionKey (to_base64 (replicate 32 7)) = Inr (replicate 32 7)"
  by (simp add: importSessionKey_def fromBase64_to)

lemmas client_run_defs = cl_bind_def cl_return_def cl_lift_def cl_require_def cl_get_def cl_modify_def cl_look_def cl_request_def cl_health_def

lemma demo_prepares:
  "\<exists>s. prepareInference demo_browser (replicate 12 0) ''k'' ''q'' None demo_client_world demo_client_start = (Inr (), s)
     \<and> pn_challenge (ky_pending s) = Some demo_challenge \<and> pn_health (ky_pending s) = demo_client_health \<and> \<not> pn_busy (ky_pending s)
     \<and> pn_result (ky_pending s) = None \<and> \<not> pn_settled (ky_pending s) \<and> settlements s = {}"
proof -
  have q: "trim ''q'' \<noteq> []" "length (utf8 ''q'') \<le> max_bytes" "\<not> max_bytes < length (utf8 ''q'')" by (simp_all add: trim_def is_space_def utf8_def max_bytes_def)
  have a: "bx_answer demo_client_world n GetHealth = Inr (HealthAnswer demo_client_health)" "bx_answer demo_client_world n GetQuote = Inr (QuoteAnswer demo_browser_quote)"
    "bx_answer demo_client_world n (PostSession u) = Inr (SessionAnswer ''s'' ''e'' (to_base64 (replicate 32 7)))"
    "bx_answer demo_client_world n (PostInference b k None) = Inl (ApiError 402 ''PAYMENT_REQUIRED'' (Some demo_challenge))"
    "bx_now demo_client_world n = 5" for n u b k
    by (simp_all add: demo_client_world_def)
  have m: "same (q_measurement demo_browser_quote) (hl_codeHash demo_client_health)" "int_of (q_timestamp demo_browser_quote) = 5"
    "bw_date demo_browser e = Some 9" "bw_uuid demo_browser e" for e
    by (simp_all add: demo_browser_quote_def demo_client_health_def demo_browser_def same_def)
  show ?thesis
    using demo_challenge_fits
    by (simp add: prepareInference_def Let_def client_run_defs first_request_def check_agent_def cl_quote_def openSession_def encrypt_request_def q a m
        demo_health_form demo_quote_form demo_session_key demo_challenge_form require_def demo_client_start_def settlements_def)
qed

lemma demo_settle_fails:
  assumes "pn_challenge (ky_pending s) = Some demo_challenge" and "pn_health (ky_pending s) = demo_client_health" and "\<not> pn_busy (ky_pending s)"
    and "pn_result (ky_pending s) = None" and "\<not> pn_settled (ky_pending s)"
  shows "\<exists>r t. settleLocalAndRun demo_browser demo_client_world s = (r, t) \<and> ky_pending t = ky_pending s
    \<and> ky_events t = ky_events s @ [Requested GetHealth, Requested (PostSettle ''p'' False None)]"
proof -
  have a: "bx_answer demo_client_world n GetHealth = Inr (HealthAnswer demo_client_health)"
    "bx_answer demo_client_world n (PostSettle i b x) = Inl (ApiError 0 ''TIMEOUT'' None)" "bx_now demo_client_world n = 5" "bx_connected demo_client_world n" for n i b x
    by (simp_all add: demo_client_world_def)
  have m: "bw_date demo_browser e = Some 9" "canSettleLocally demo_client_health" "same_gateway demo_client_health demo_client_health" "ch_paymentId demo_challenge = ''p''" for e
    by (simp_all add: demo_browser_def canSettleLocally_def demo_client_health_def same_gateway_def same_def demo_challenge_def)
  have p: "(ky_pending s)\<lparr>pn_busy := False\<rparr> = ky_pending s" using assms(3) by (cases "ky_pending s") simp
  show ?thesis
    using assms by (simp add: settleLocalAndRun_def begin_payment_def client_run_defs cl_busy_def finally_idle_def settle_local_def expired_def a m p
        demo_health_form require_def)
qed


end
