(* ===== verification/Strict_Json.thy ===== *)
theory Strict_Json
  imports Near_Inference
begin

text \<open>
  \<open>uniqueJson\<close> of \<open>core/src/release-manifest.ts\<close>: a document is read only when no object of it names a key twice, as the
  Python verifier reads its policy. The check runs over the tokens of the text with a stack of open brackets; that it finds
  exactly the documents with a repeated key, or nested too deep, is proved over the printed form of every value.
\<close>

section \<open>Tokens\<close>

datatype json_token = TokOpen bool | TokClose | TokComma | TokString string

text \<open>The body of a string token with its closing quote, and what follows.\<close>

fun string_end :: "string \<Rightarrow> (string \<times> string) option" where
  "string_end [] = None"
| "string_end (c # s) =
     (if c = CHR 0x22 then Some ([c], s)
      else if c = CHR 0x5C then (case s of [] \<Rightarrow> None | d # t \<Rightarrow> map_option (\<lambda>(b, r). (c # d # b, r)) (string_end t))
      else map_option (\<lambda>(b, r). (c # b, r)) (string_end s))"

lemma string_end_length: "string_end s = Some (b, r) \<Longrightarrow> length r < length s"
proof (induction s arbitrary: b rule: string_end.induct)
  case (2 c s)
  show ?case
  proof (cases "c = CHR 0x5C")
    case True
    with 2 show ?thesis by (cases s) (auto intro: less_SucI)
  next
    case False
    with 2 show ?thesis by (auto split: if_splits intro: less_SucI)
  qed
qed simp

text \<open>
  The matches of the regular expression from left to right. Literals, numbers and colons have no effect on the check and are
  passed over.
\<close>

function json_tokens :: "string \<Rightarrow> json_token list" where
  "json_tokens [] = []"
| "json_tokens (c # s) =
     (if c = CHR 0x22 then (case string_end s of Some (b, r) \<Rightarrow> TokString (c # b) # json_tokens r | None \<Rightarrow> json_tokens s)
      else if c = CHR 0x7B then TokOpen True # json_tokens s
      else if c = CHR 0x5B then TokOpen False # json_tokens s
      else if c = CHR 0x7D \<or> c = CHR 0x5D then TokClose # json_tokens s
      else if c = CHR 0x2C then TokComma # json_tokens s
      else json_tokens s)"
  by pat_completeness auto
termination by (relation "measure length") (auto dest: string_end_length)

section \<open>The check\<close>

record json_frame =
  fr_object :: bool
  fr_key :: bool
  fr_keys :: "string list"

definition max_frames :: nat where
  "max_frames = 128"

text \<open>The top of the stack is the head of the list. \<open>parse\<close> is \<open>JSON.parse\<close>.\<close>

fun check_tokens :: "(string \<Rightarrow> json option) \<Rightarrow> json_frame list \<Rightarrow> json_token list \<Rightarrow> bool" where
  "check_tokens parse frames [] = True"
| "check_tokens parse frames (t # ts) =
     (case t of
        TokOpen ob \<Rightarrow> length frames < max_frames \<and> check_tokens parse (\<lparr>fr_object = ob, fr_key = ob, fr_keys = []\<rparr> # frames) ts
      | TokClose \<Rightarrow> check_tokens parse (tl frames) ts
      | TokComma \<Rightarrow>
          check_tokens parse (case frames of f # fs \<Rightarrow> (if fr_object f then f\<lparr>fr_key := True\<rparr> else f) # fs | [] \<Rightarrow> []) ts
      | TokString s \<Rightarrow>
          (case frames of
             f # fs \<Rightarrow>
               if fr_object f \<and> fr_key f
               then (case parse s of
                   Some (JStr k) \<Rightarrow> k \<notin> set (fr_keys f) \<and> check_tokens parse (f\<lparr>fr_keys := k # fr_keys f, fr_key := False\<rparr> # fs) ts
                 | _ \<Rightarrow> False)
               else check_tokens parse frames ts
           | [] \<Rightarrow> check_tokens parse frames ts))"

definition uniqueJson :: "(string \<Rightarrow> json option) \<Rightarrow> bytes \<Rightarrow> 'e \<Rightarrow> 'e + json" where
  "uniqueJson parse bs code =
     rbind (of_option code (decode_text bs)) (\<lambda>source.
     rbind (of_option code (parse source)) (\<lambda>parsed.
     rbind (require (check_tokens parse [] (json_tokens source)) code) (\<lambda>_. Inr parsed)))"

section \<open>What the check means\<close>

primrec unique_keys :: "json \<Rightarrow> bool" where
  "unique_keys JNull = True"
| "unique_keys (JBool b) = True"
| "unique_keys (JNum i) = True"
| "unique_keys (JStr s) = True"
| "unique_keys (JArr xs) = list_all id (map unique_keys xs)"
| "unique_keys (JObj fs) = (distinct (map fst fs) \<and> list_all snd (map (map_prod id unique_keys) fs))"
| "unique_keys JBad = True"

primrec nesting :: "json \<Rightarrow> nat" where
  "nesting JNull = 0"
| "nesting (JBool b) = 0"
| "nesting (JNum i) = 0"
| "nesting (JStr s) = 0"
| "nesting (JArr xs) = Suc (Max (insert 0 (set (map nesting xs))))"
| "nesting (JObj fs) = Suc (Max (insert 0 (set (map snd (map (map_prod id nesting) fs)))))"
| "nesting JBad = 0"

definition separated :: "json_token list list \<Rightarrow> json_token list" where
  "separated tss = (case tss of [] \<Rightarrow> [] | t # ts \<Rightarrow> t @ concat (map (\<lambda>x. TokComma # x) ts))"

primrec value_tokens :: "json \<Rightarrow> json_token list" where
  "value_tokens JNull = []"
| "value_tokens (JBool b) = []"
| "value_tokens (JNum i) = []"
| "value_tokens (JStr s) = [TokString (json_quote s)]"
| "value_tokens (JArr xs) = TokOpen False # separated (map value_tokens xs) @ [TokClose]"
| "value_tokens (JObj fs) = TokOpen True # separated (map (\<lambda>(k, ts). TokString (json_quote k) # ts) (map (map_prod id value_tokens) fs)) @ [TokClose]"
| "value_tokens JBad = []"

subsection \<open>The tokens of printed text\<close>

definition silent :: "char \<Rightarrow> bool" where
  "silent c \<longleftrightarrow> c \<notin> {CHR 0x22, CHR 0x7B, CHR 0x5B, CHR 0x7D, CHR 0x5D, CHR 0x2C}"

lemma json_tokens_silent: "list_all silent s \<Longrightarrow> json_tokens (s @ r) = json_tokens r"
  by (induction s) (auto simp: silent_def)

lemma string_end_escape: "string_end (escape_char c @ s) = map_option (\<lambda>(b, r). (escape_char c @ b, r)) (string_end s)"
proof -
  have hex: "hex_char n \<noteq> CHR 0x22 \<and> hex_char n \<noteq> CHR 0x5C" if "n < 16" for n
  proof -
    have "list_all (\<lambda>n. hex_char n \<noteq> CHR 0x22 \<and> hex_char n \<noteq> CHR 0x5C) [0..<16]" by code_simp
    with that show ?thesis by (simp add: list_all_iff)
  qed
  show ?thesis
  proof (cases "code_of c < (32 :: nat) \<and> code_of c \<notin> {8, 9, 10, 12, 13 :: nat}")
    case True
    then have "code_of c div 16 < (16 :: nat)" "code_of c mod 16 < (16 :: nat)" by auto
    with True hex show ?thesis
      by (cases "string_end s") (auto simp: escape_char_def option.map_comp comp_def split: prod.splits)
  next
    case False
    then show ?thesis by (cases "string_end s") (auto simp: escape_char_def split: prod.splits)
  qed
qed

lemma string_end_quote: "string_end (concat (map escape_char s) @ CHR 0x22 # r) = Some (concat (map escape_char s) @ [CHR 0x22], r)"
  by (induction s) (simp_all add: string_end_escape)

lemma json_tokens_quote: "json_tokens (json_quote s @ r) = TokString (json_quote s) # json_tokens r"
  by (simp add: json_quote_def string_end_quote)

lemma digits_silent: "list_all is_digit s \<Longrightarrow> list_all silent s"
  by (auto simp: list_all_iff silent_def is_digit_def)

lemma silent_texts: "list_all silent (int_dec i)" "list_all silent ''null''" "list_all silent ''true''" "list_all silent ''false''"
proof -
  have "list_all silent (nat_dec n)" for n by (rule digits_silent) (simp add: nat_dec_digits)
  then show "list_all silent (int_dec i)" by (simp add: int_dec_def silent_def)
qed (simp_all add: silent_def)

lemma join_tokens:
  assumes "\<And>x r. x \<in> set xs \<Longrightarrow> json_tokens (f x @ r) = g x @ json_tokens r"
  shows "json_tokens (join '','' (map f xs) @ r) = separated (map g xs) @ json_tokens r"
proof (cases xs)
  case Nil
  then show ?thesis by (simp add: separated_def)
next
  case (Cons y ys)
  have "json_tokens (concat (map (\<lambda>s. '','' @ s) (map f zs)) @ r) = concat (map (\<lambda>x. TokComma # x) (map g zs)) @ json_tokens r"
    if "set zs \<subseteq> set xs" for zs
    using that assms by (induction zs) simp_all
  then have "json_tokens (concat (map (\<lambda>s. '','' @ s) (map f ys)) @ r) = concat (map (\<lambda>x. TokComma # x) (map g ys)) @ json_tokens r"
    by (simp add: Cons subset_insertI)
  with assms show ?thesis by (simp add: Cons join_Cons separated_def)
qed

lemma field_text: "json_quote k @ '':'' @ s = json_quote k @ CHR '':'' # s"
  by simp

lemma stringify_tokens: "plain v \<Longrightarrow> json_tokens (stringify v @ r) = value_tokens v @ json_tokens r"
proof (induction v arbitrary: r)
  case (JArr xs)
  then have "json_tokens (join '','' (map stringify xs) @ s) = separated (map value_tokens xs) @ json_tokens s" for s
    by (intro join_tokens) (simp add: list_all_iff)
  then show ?case by (simp add: encode_array_def)
next
  case (JObj fs)
  have "json_tokens ((case p of (k, s) \<Rightarrow> json_quote k @ '':'' @ s) @ t) = (case q of (k, ts) \<Rightarrow> TokString (json_quote k) # ts) @ json_tokens t"
    if "p = map_prod id stringify x" "q = map_prod id value_tokens x" "x \<in> set fs" for p q x t
  proof -
    obtain k v where x: "x = (k, v)" by (cases x)
    with JObj that(3) have "json_tokens (stringify v @ t) = value_tokens v @ json_tokens t" by (fastforce simp: list_all_iff)
    then show ?thesis using that by (simp add: x json_tokens_quote)
  qed
  then have "json_tokens (join '','' (map (\<lambda>x. case map_prod id stringify x of (k, s) \<Rightarrow> json_quote k @ '':'' @ s) fs) @ s)
      = separated (map (\<lambda>x. case map_prod id value_tokens x of (k, ts) \<Rightarrow> TokString (json_quote k) # ts) fs) @ json_tokens s" for s
    by (intro join_tokens) blast
  then show ?case by (simp add: encode_object_def comp_def)
qed (simp_all add: json_tokens_silent silent_texts json_tokens_quote json_tokens_silent [of "''true''", simplified])

subsection \<open>The run of the check\<close>

definition reads_strings :: "(string \<Rightarrow> json option) \<Rightarrow> bool" where
  "reads_strings parse \<longleftrightarrow> (\<forall>s. parse (json_quote s) = Some (JStr s))"

definition at_value :: "json_frame list \<Rightarrow> bool" where
  "at_value frames \<longleftrightarrow> (case frames of f # fs \<Rightarrow> \<not> (fr_object f \<and> fr_key f) | [] \<Rightarrow> True)"

definition value_fits :: "(string \<Rightarrow> json option) \<Rightarrow> json \<Rightarrow> bool" where
  "value_fits parse v \<longleftrightarrow> (\<forall>fs ts. at_value fs \<longrightarrow> length fs \<le> max_frames \<longrightarrow>
     check_tokens parse fs (value_tokens v @ ts) = (unique_keys v \<and> length fs + nesting v \<le> max_frames \<and> check_tokens parse fs ts))"

lemma value_fitsD:
  "value_fits parse v \<Longrightarrow> at_value fs \<Longrightarrow> length fs \<le> max_frames \<Longrightarrow>
     check_tokens parse fs (value_tokens v @ ts) = (unique_keys v \<and> length fs + nesting v \<le> max_frames \<and> check_tokens parse fs ts)"
  by (simp add: value_fits_def)

lemma value_fits_array_tail:
  assumes "\<forall>x \<in> set xs. value_fits parse x" and "length fs < max_frames"
  shows "check_tokens parse (\<lparr>fr_object = False, fr_key = False, fr_keys = []\<rparr> # fs) (concat (map (\<lambda>x. TokComma # x) (map value_tokens xs)) @ ts)
    = ((\<forall>x \<in> set xs. unique_keys x \<and> Suc (length fs) + nesting x \<le> max_frames)
       \<and> check_tokens parse (\<lparr>fr_object = False, fr_key = False, fr_keys = []\<rparr> # fs) ts)"
  using assms by (induction xs) (auto simp: value_fitsD at_value_def)

lemma value_fits_array:
  assumes "\<forall>x \<in> set xs. value_fits parse x" and "length fs < max_frames"
  shows "check_tokens parse (\<lparr>fr_object = False, fr_key = False, fr_keys = []\<rparr> # fs) (separated (map value_tokens xs) @ TokClose # ts)
    = ((\<forall>x \<in> set xs. unique_keys x \<and> Suc (length fs) + nesting x \<le> max_frames) \<and> check_tokens parse fs ts)"
proof (cases xs)
  case (Cons y ys)
  with assms value_fits_array_tail [of ys parse fs "TokClose # ts"] show ?thesis
    by (auto simp: separated_def value_fitsD at_value_def)
qed (simp add: separated_def)

lemma field_step:
  assumes "reads_strings parse" and "value_fits parse v" and "length fs < max_frames"
  shows "check_tokens parse (\<lparr>fr_object = True, fr_key = True, fr_keys = ks\<rparr> # fs) (TokString (json_quote k) # value_tokens v @ ts)
    = (k \<notin> set ks \<and> unique_keys v \<and> Suc (length fs) + nesting v \<le> max_frames
       \<and> check_tokens parse (\<lparr>fr_object = True, fr_key = False, fr_keys = k # ks\<rparr> # fs) ts)"
  using assms by (simp add: reads_strings_def value_fitsD at_value_def)

lemma value_fits_object_tail:
  assumes "reads_strings parse" and "\<forall>(k, v) \<in> set xs. value_fits parse v" and "length fs < max_frames"
  shows "check_tokens parse (\<lparr>fr_object = True, fr_key = False, fr_keys = ks\<rparr> # fs)
      (concat (map (\<lambda>(k, v). TokComma # TokString (json_quote k) # value_tokens v) xs) @ ts)
    = (distinct (map fst xs) \<and> set (map fst xs) \<inter> set ks = {} \<and> (\<forall>(k, v) \<in> set xs. unique_keys v \<and> Suc (length fs) + nesting v \<le> max_frames)
       \<and> check_tokens parse (\<lparr>fr_object = True, fr_key = False, fr_keys = rev (map fst xs) @ ks\<rparr> # fs) ts)"
  using assms(2)
proof (induction xs arbitrary: ks)
  case (Cons x xs)
  obtain k v where x: "x = (k, v)" by (cases x)
  from Cons.prems have v: "value_fits parse v" by (simp add: x)
  have "check_tokens parse (\<lparr>fr_object = True, fr_key = False, fr_keys = ks\<rparr> # fs)
      (concat (map (\<lambda>(k, v). TokComma # TokString (json_quote k) # value_tokens v) (x # xs)) @ ts)
    = check_tokens parse (\<lparr>fr_object = True, fr_key = True, fr_keys = ks\<rparr> # fs)
      (TokString (json_quote k) # value_tokens v @ concat (map (\<lambda>(k, v). TokComma # TokString (json_quote k) # value_tokens v) xs) @ ts)"
    by (simp add: x)
  also have "\<dots> = (k \<notin> set ks \<and> unique_keys v \<and> Suc (length fs) + nesting v \<le> max_frames
      \<and> check_tokens parse (\<lparr>fr_object = True, fr_key = False, fr_keys = k # ks\<rparr> # fs)
        (concat (map (\<lambda>(k, v). TokComma # TokString (json_quote k) # value_tokens v) xs) @ ts))"
    by (rule field_step [OF assms(1) v assms(3)])
  also have "\<dots> = (distinct (map fst (x # xs)) \<and> set (map fst (x # xs)) \<inter> set ks = {}
      \<and> (\<forall>(k, v) \<in> set (x # xs). unique_keys v \<and> Suc (length fs) + nesting v \<le> max_frames)
      \<and> check_tokens parse (\<lparr>fr_object = True, fr_key = False, fr_keys = rev (map fst (x # xs)) @ ks\<rparr> # fs) ts)"
    using Cons.prems by (subst Cons.IH) (auto simp: x)
  finally show ?case .
qed simp

lemma value_fits_object:
  assumes "reads_strings parse" and "\<forall>(k, v) \<in> set xs. value_fits parse v" and "length fs < max_frames"
  shows "check_tokens parse (\<lparr>fr_object = True, fr_key = True, fr_keys = []\<rparr> # fs)
      (separated (map (\<lambda>(k, v). TokString (json_quote k) # value_tokens v) xs) @ TokClose # ts)
    = (distinct (map fst xs) \<and> (\<forall>(k, v) \<in> set xs. unique_keys v \<and> Suc (length fs) + nesting v \<le> max_frames) \<and> check_tokens parse fs ts)"
proof (cases xs)
  case (Cons x ys)
  obtain k v where x: "x = (k, v)" by (cases x)
  have ys: "\<forall>(k, v) \<in> set ys. value_fits parse v" and v: "value_fits parse v" using assms(2) by (auto simp: Cons x)
  have "separated (map (\<lambda>(k, v). TokString (json_quote k) # value_tokens v) xs) @ TokClose # ts
      = TokString (json_quote k) # value_tokens v @ concat (map (\<lambda>(k, v). TokComma # TokString (json_quote k) # value_tokens v) ys) @ TokClose # ts"
    by (simp add: separated_def Cons x comp_def case_prod_unfold)
  then show ?thesis
    by (simp only: field_step [OF assms(1) v assms(3)] value_fits_object_tail [OF assms(1) ys assms(3)]) (auto simp: Cons x)
qed (simp add: separated_def)

lemma nesting_Suc: "finite S \<Longrightarrow> n + Suc (Max (insert 0 S)) \<le> m \<longleftrightarrow> n < m \<and> (\<forall>x \<in> S. Suc n + x \<le> m)" for n m :: nat
proof -
  assume S: "finite S"
  have "n + Suc (Max (insert 0 S)) \<le> m \<longleftrightarrow> Suc n \<le> m \<and> Max (insert 0 S) \<le> m - Suc n" by arith
  also have "\<dots> \<longleftrightarrow> Suc n \<le> m \<and> (\<forall>x \<in> S. x \<le> m - Suc n)" using S by (subst Max_le_iff) auto
  also have "\<dots> \<longleftrightarrow> n < m \<and> (\<forall>x \<in> S. Suc n + x \<le> m)" by auto
  finally show ?thesis .
qed

lemma every_value_fits: "reads_strings parse \<Longrightarrow> value_fits parse v"
proof (induction v)
  case (JStr s)
  then show ?case by (auto simp: value_fits_def at_value_def split: list.splits)
next
  case (JArr xs)
  then have xs: "\<forall>x \<in> set xs. value_fits parse x" by blast
  show ?case
    unfolding value_fits_def
  proof (intro allI impI)
    fix fs ts
    have "check_tokens parse fs (value_tokens (JArr xs) @ ts) = (length fs < max_frames
        \<and> check_tokens parse (\<lparr>fr_object = False, fr_key = False, fr_keys = []\<rparr> # fs) (separated (map value_tokens xs) @ TokClose # ts))" by simp
    also have "\<dots> = (length fs < max_frames \<and> (\<forall>x \<in> set xs. unique_keys x \<and> Suc (length fs) + nesting x \<le> max_frames) \<and> check_tokens parse fs ts)"
      using value_fits_array [OF xs] by blast
    also have "\<dots> = (unique_keys (JArr xs) \<and> length fs + nesting (JArr xs) \<le> max_frames \<and> check_tokens parse fs ts)"
      using nesting_Suc [of "nesting ` set xs" "length fs" max_frames] by (auto simp: list_all_iff)
    finally show "check_tokens parse fs (value_tokens (JArr xs) @ ts) = (unique_keys (JArr xs) \<and> length fs + nesting (JArr xs) \<le> max_frames \<and> check_tokens parse fs ts)" .
  qed
next
  case (JObj xs)
  then have xs: "\<forall>(k, v) \<in> set xs. value_fits parse v" by fastforce
  show ?case
    unfolding value_fits_def
  proof (intro allI impI)
    fix fs ts
    have "check_tokens parse fs (value_tokens (JObj xs) @ ts) = (length fs < max_frames
        \<and> check_tokens parse (\<lparr>fr_object = True, fr_key = True, fr_keys = []\<rparr> # fs)
            (separated (map (\<lambda>(k, v). TokString (json_quote k) # value_tokens v) xs) @ TokClose # ts))" by (simp add: comp_def case_prod_unfold)
    also have "\<dots> = (length fs < max_frames \<and> distinct (map fst xs)
        \<and> (\<forall>(k, v) \<in> set xs. unique_keys v \<and> Suc (length fs) + nesting v \<le> max_frames) \<and> check_tokens parse fs ts)"
      using value_fits_object [OF JObj.prems xs] by blast
    also have "\<dots> = (unique_keys (JObj xs) \<and> length fs + nesting (JObj xs) \<le> max_frames \<and> check_tokens parse fs ts)"
      using nesting_Suc [of "(\<lambda>p. nesting (snd p)) ` set xs" "length fs" max_frames] by (auto simp: list_all_iff image_comp comp_def)
    finally show "check_tokens parse fs (value_tokens (JObj xs) @ ts) = (unique_keys (JObj xs) \<and> length fs + nesting (JObj xs) \<le> max_frames \<and> check_tokens parse fs ts)" .
  qed
qed (simp_all add: value_fits_def)


section \<open>A worked document\<close>

function demo_unquote :: "string \<Rightarrow> string" where
  "demo_unquote s = (if s = [] \<or> hd s = CHR 0x22 then [] else fst (unescape s) # demo_unquote (snd (unescape s)))"
  by pat_completeness auto
termination by (relation "measure length") (auto simp: unescape_def neq_Nil_conv)

declare demo_unquote.simps [simp del]

lemma demo_unquote_escaped: "demo_unquote (concat (map escape_char s) @ [CHR 0x22]) = s"
proof (induction s)
  case (Cons c s)
  let ?t = "concat (map escape_char (c # s)) @ [CHR 0x22]"
  have "?t \<noteq> []" by simp
  moreover have "hd ?t \<noteq> CHR 0x22" by (auto simp: escape_char_def)
  moreover have "unescape ?t = (c, concat (map escape_char s) @ [CHR 0x22])" by (simp add: unescape_escape)
  ultimately show ?case using Cons.IH by (subst demo_unquote.simps) simp
qed (simp add: demo_unquote.simps)

definition demo_plain_document :: json where
  "demo_plain_document = JObj [(''a'', JNum 1), (''b'', JArr [JObj [(''a'', JNull)], JStr ''x'']), (''c'', JBool True)]"

definition demo_double_document :: json where
  "demo_double_document = JObj [(''p'', JObj [(''a'', JNum 1), (''b'', JArr []), (''a'', JNum 2)])]"

definition demo_strict_parse :: "string \<Rightarrow> json option" where
  "demo_strict_parse s =
     (if s = stringify demo_plain_document then Some demo_plain_document
      else if s = stringify demo_double_document then Some (JObj [(''p'', JObj [(''a'', JNum 2), (''b'', JArr [])])])
      else Some (JStr (demo_unquote (tl s))))"

lemma demo_strict_reads: "reads_strings demo_strict_parse"
proof -
  have "hd (stringify demo_plain_document) = CHR 0x7B" "hd (stringify demo_double_document) = CHR 0x7B"
    by (simp_all add: demo_plain_document_def demo_double_document_def encode_object_def)
  moreover have "hd (json_quote s) = CHR 0x22" for s by (simp add: json_quote_def)
  moreover have "CHR 0x22 \<noteq> CHR 0x7B" by simp
  ultimately have "json_quote s \<noteq> stringify demo_plain_document" "json_quote s \<noteq> stringify demo_double_document" for s by metis+
  then show ?thesis by (simp add: reads_strings_def demo_strict_parse_def) (simp add: json_quote_def demo_unquote_escaped)
qed

lemma demo_ascii:
  assumes "list_all (\<lambda>c. code_of c < (128 :: nat)) s"
  shows "decode_text (utf8 s) = Some s"
proof (rule decode_utf8)
  show "js_text s" using assms by (induction s) simp_all
  show "\<not> starts_with s (text_of [239, 187, 191])" using assms by (cases s) (auto simp: starts_with_def text_of_def)
qed

lemma demo_digits: "digit_char 1 = CHR ''1''" "digit_char 2 = CHR ''2''"
  by code_simp+

lemma demo_document_texts:
  "stringify demo_plain_document = [CHR 0x7B] @ json_quote ''a'' @ '':1,'' @ json_quote ''b'' @ '':[{'' @ json_quote ''a'' @ '':null},'' @ json_quote ''x'' @ ''],''
     @ json_quote ''c'' @ '':true'' @ [CHR 0x7D]"
  "stringify demo_double_document = [CHR 0x7B] @ json_quote ''p'' @ '':{'' @ json_quote ''a'' @ '':1,'' @ json_quote ''b'' @ '':[],'' @ json_quote ''a'' @ '':2}}''"
  by (simp_all add: demo_plain_document_def demo_double_document_def encode_object_def encode_array_def int_dec_def nat_dec.simps demo_digits [simplified])


end
