(* ===== verification/Release_Manifest.thy ===== *)
theory Release_Manifest
  imports Strict_Json Near_Provider Enclave_Cvm
begin

text \<open>
  The acceptance record of a production release, \<open>core/src/release-manifest.ts\<close>: the operator's manifest, the reviewed
  policy of the provider and the archive of one accepted inference, and the offline check that they fit together.

  A file is what the file system gives for it. \<open>None\<close> of a schema is its refusal. Dates are compared as \<open>Date.parse\<close> reads
  them; a text it does not know fails every comparison.
\<close>

section \<open>Texts\<close>

definition release_hex32 :: "string \<Rightarrow> bool" where
  "release_hex32 s \<longleftrightarrow> hex_string 64 s \<and> lower s \<noteq> ''0x'' @ replicate 64 (CHR ''0'')"

definition release_address :: "string \<Rightarrow> bool" where
  "release_address s \<longleftrightarrow> isConfiguredAddress (Some s)"

definition release_signature :: "string \<Rightarrow> bool" where
  "release_signature s \<longleftrightarrow> hex_string 130 s"

definition control_text :: "char \<Rightarrow> bool" where
  "control_text c \<longleftrightarrow> code_of c \<le> 31 \<or> code_of c = 127"

definition sized_text :: "nat \<Rightarrow> string \<Rightarrow> bool" where
  "sized_text n s \<longleftrightarrow> s \<noteq> [] \<and> utf16_length s \<le> n"

definition tidy_text :: "nat \<Rightarrow> string \<Rightarrow> bool" where
  "tidy_text n s \<longleftrightarrow> sized_text n s \<and> trim s = s \<and> \<not> list_ex control_text s"

definition release_modelId :: "string \<Rightarrow> bool" where
  "release_modelId s \<longleftrightarrow> tidy_text 512 s \<and> CHR '':'' \<notin> set s"

text \<open>A path is no URL: \<open>/^[a-z]+:\\/\\//i\<close>.\<close>

definition release_filePath :: "string \<Rightarrow> bool" where
  "release_filePath s \<longleftrightarrow> tidy_text 4096 s \<and> \<not> (takeWhile is_letter s \<noteq> [] \<and> starts_with (dropWhile is_letter s) ''://'')"

definition positiveUnits :: "string \<Rightarrow> bool" where
  "positiveUnits s \<longleftrightarrow> dec_string 78 s \<and> hd s \<noteq> CHR ''0'' \<and> dec_number s \<le> 2 ^ 256 - 1"

definition release_uint64 :: "string \<Rightarrow> bool" where
  "release_uint64 s \<longleftrightarrow> dec_string 20 s \<and> (s = ''0'' \<or> hd s \<noteq> CHR ''0'') \<and> dec_number s \<le> 2 ^ 64 - 1"

definition url_origin :: "Near_Inference.url_parts \<Rightarrow> string" where
  "url_origin u = up_protocol u @ ''//'' @ up_hostname u @ (if up_port u = [] then [] else CHR '':'' # up_port u)"

definition exactHttpsOrigin :: "provider_host \<Rightarrow> string \<Rightarrow> bool" where
  "exactHttpsOrigin host s \<longleftrightarrow>
     (case nh_url host s of
        Some u \<Rightarrow> up_protocol u = ''https:'' \<and> s = url_origin u \<and> up_username u = [] \<and> up_password u = []
      | None \<Rightarrow> False)"

definition label_char :: "char \<Rightarrow> bool" where
  "label_char c \<longleftrightarrow> (97 \<le> code_of c \<and> code_of c \<le> 122) \<or> is_digit c"

text \<open>\<open>[a-z0-9](?:[a-z0-9-]\{0,61\}[a-z0-9])?\<close>.\<close>

definition dns_label :: "string \<Rightarrow> bool" where
  "dns_label s \<longleftrightarrow> 1 \<le> length s \<and> length s \<le> 63 \<and> label_char (hd s) \<and> label_char (last s) \<and> list_all (\<lambda>c. label_char c \<or> c = CHR ''-'') s"

definition direct_host :: "string \<Rightarrow> bool" where
  "direct_host h \<longleftrightarrow> (let n = length h - 20 in length h > 20 \<and> drop n h = ''.completions.near.ai'' \<and> dns_label (take n h))"

definition nearProviderOrigin :: "provider_host \<Rightarrow> string \<Rightarrow> bool" where
  "nearProviderOrigin host s \<longleftrightarrow>
     (case nh_url host s of
        Some u \<Rightarrow> up_protocol u = ''https:'' \<and> s = url_origin u \<and> up_port u = [] \<and> up_username u = [] \<and> up_password u = []
          \<and> (up_hostname u = ''cloud-api.near.ai'' \<or> direct_host (up_hostname u))
      | None \<Rightarrow> False)"

definition base64_text :: "string \<Rightarrow> bool" where
  "base64_text s \<longleftrightarrow> length s \<le> 44739244 \<and> length s mod 4 = 0
     \<and> list_all (\<lambda>c. c \<in> set b64_alphabet) (takeWhile (\<lambda>c. c \<noteq> CHR ''='') s)
     \<and> dropWhile (\<lambda>c. c \<noteq> CHR ''='') s \<in> set ['''', ''='', ''=='']"

section \<open>The manifest\<close>

text \<open>A strict object: the required keys, optional ones, and no other.\<close>

definition strict_object :: "string list \<Rightarrow> string list \<Rightarrow> json \<Rightarrow> bool" where
  "strict_object required optional v \<longleftrightarrow>
     (case v of JObj fs \<Rightarrow> set required \<subseteq> set (map fst fs) \<and> set (map fst fs) \<subseteq> set required \<union> set optional | _ \<Rightarrow> False)"

definition json_texts :: "string list \<Rightarrow> json \<Rightarrow> string list option" where
  "json_texts ks v = all_some (map (\<lambda>k. json_text k v) ks)"

definition json_number :: "string \<Rightarrow> json \<Rightarrow> int option" where
  "json_number k v = (case json_field k v of Some (JNum n) \<Rightarrow> Some n | _ \<Rightarrow> None)"

text \<open>An optional text: absent, present, or refused.\<close>

definition optional_text :: "string \<Rightarrow> json \<Rightarrow> string option option" where
  "optional_text k v = (case json_field k v of None \<Rightarrow> Some None | Some (JStr s) \<Rightarrow> Some (Some s) | Some _ \<Rightarrow> None)"

record release_contracts =
  rk_ModelRegistry :: string
  rk_AttestationVerifier :: string
  rk_USDC :: string
  rk_UsageMeter :: string
  rk_FeeVault :: string

record release_window =
  rv_acceptedAt :: string
  rv_validUntil :: string

record policy_pin =
  rp_path :: string
  rp_sha256 :: string
  rp_version :: string
  rp_reviewedAt :: string
  rp_reviewedBy :: string

record inference_pin =
  ri_path :: string
  ri_sha256 :: string
  ri_checkedAt :: string
  ri_anchorTx :: string

record payment_pin =
  ry_settleTx :: string
  ry_checkedAt :: string
  ry_amountUnits :: string
  ry_payer :: string

record release_manifest =
  rm_origin :: string
  rm_chainId :: int
  rm_modelId :: string
  rm_servingImageId :: string
  rm_tcbVersion :: int
  rm_modelHash :: string
  rm_codeHash :: string
  rm_policyHash :: string
  rm_signer :: string
  rm_contracts :: release_contracts
  rm_acceptance :: release_window
  rm_providerPolicy :: policy_pin
  rm_acceptedInference :: inference_pin
  rm_acceptedPayment :: payment_pin

definition contractsSchema :: "json \<Rightarrow> release_contracts option" where
  "contractsSchema v =
     (case json_texts [''ModelRegistry'', ''AttestationVerifier'', ''USDC'', ''UsageMeter'', ''FeeVault''] v of
        Some [registry, verifier, usdc, meter, vault] \<Rightarrow>
          if strict_object [''ModelRegistry'', ''AttestationVerifier'', ''USDC'', ''UsageMeter'', ''FeeVault''] [] v
             \<and> list_all release_address [registry, verifier, usdc, meter, vault] \<and> distinct (map lower [registry, verifier, usdc, meter, vault])
          then Some \<lparr>rk_ModelRegistry = registry, rk_AttestationVerifier = verifier, rk_USDC = usdc, rk_UsageMeter = meter, rk_FeeVault = vault\<rparr>
          else None
      | _ \<Rightarrow> None)"

definition acceptanceSchema :: "provider_host \<Rightarrow> json \<Rightarrow> release_window option" where
  "acceptanceSchema host v =
     (case json_texts [''acceptedAt'', ''validUntil''] v of
        Some [a, u] \<Rightarrow>
          if strict_object [''acceptedAt'', ''validUntil''] [] v \<and> pv_datetime host a \<and> pv_datetime host u
          then Some \<lparr>rv_acceptedAt = a, rv_validUntil = u\<rparr> else None
      | _ \<Rightarrow> None)"

definition policyPinSchema :: "provider_host \<Rightarrow> json \<Rightarrow> policy_pin option" where
  "policyPinSchema host v =
     (case json_texts [''path'', ''sha256'', ''version'', ''reviewedAt'', ''reviewedBy'', ''scope''] v of
        Some [path, sha, version, at, by', scope] \<Rightarrow>
          if strict_object [''path'', ''sha256'', ''version'', ''reviewedAt'', ''reviewedBy'', ''scope''] [] v
             \<and> release_filePath path \<and> release_hex32 sha \<and> sized_text 128 version \<and> pv_datetime host at \<and> sized_text 256 (trim by') \<and> scope = ''production''
          then Some \<lparr>rp_path = path, rp_sha256 = sha, rp_version = version, rp_reviewedAt = at, rp_reviewedBy = trim by'\<rparr> else None
      | _ \<Rightarrow> None)"

definition inferencePinSchema :: "provider_host \<Rightarrow> json \<Rightarrow> inference_pin option" where
  "inferencePinSchema host v =
     (case json_texts [''path'', ''sha256'', ''checkedAt'', ''anchorTx''] v of
        Some [path, sha, at, tx] \<Rightarrow>
          if strict_object [''path'', ''sha256'', ''checkedAt'', ''anchorTx''] [] v
             \<and> release_filePath path \<and> release_hex32 sha \<and> pv_datetime host at \<and> release_hex32 tx
          then Some \<lparr>ri_path = path, ri_sha256 = sha, ri_checkedAt = at, ri_anchorTx = tx\<rparr> else None
      | _ \<Rightarrow> None)"

definition paymentPinSchema :: "provider_host \<Rightarrow> json \<Rightarrow> payment_pin option" where
  "paymentPinSchema host v =
     (case json_texts [''settleTx'', ''checkedAt'', ''amountUnits'', ''payer''] v of
        Some [tx, at, units, payer] \<Rightarrow>
          if strict_object [''settleTx'', ''checkedAt'', ''amountUnits'', ''payer''] [] v
             \<and> release_hex32 tx \<and> pv_datetime host at \<and> positiveUnits units \<and> release_address payer
          then Some \<lparr>ry_settleTx = tx, ry_checkedAt = at, ry_amountUnits = units, ry_payer = payer\<rparr> else None
      | _ \<Rightarrow> None)"

definition manifest_keys :: "string list" where
  "manifest_keys = [''schemaVersion'', ''origin'', ''chainId'', ''modelId'', ''servingImageId'', ''tcbVersion'', ''modelHash'', ''codeHash'', ''policyHash'',
     ''signer'', ''contracts'', ''acceptance'', ''providerPolicy'', ''acceptedInference'', ''acceptedPayment'']"

definition productionReleaseManifestSchema :: "provider_host \<Rightarrow> json \<Rightarrow> release_manifest option" where
  "productionReleaseManifestSchema host v =
     (case (json_number ''tcbVersion'' v, json_texts [''origin'', ''modelId'', ''servingImageId'', ''modelHash'', ''codeHash'', ''policyHash'', ''signer''] v,
            Option.bind (json_field ''contracts'' v) contractsSchema, Option.bind (json_field ''acceptance'' v) (acceptanceSchema host),
            Option.bind (json_field ''providerPolicy'' v) (policyPinSchema host), Option.bind (json_field ''acceptedInference'' v) (inferencePinSchema host),
            Option.bind (json_field ''acceptedPayment'' v) (paymentPinSchema host)) of
        (Some n, Some [url, model, img, mh, ch, ph, signer], Some contracts, Some window, Some policy, Some inference, Some payment) \<Rightarrow>
          if strict_object manifest_keys [] v \<and> json_number ''schemaVersion'' v = Some 1 \<and> json_number ''chainId'' v = Some 5042
             \<and> exactHttpsOrigin host url \<and> release_modelId model \<and> tidy_text 80 img \<and> 0 < n \<and> n \<le> max_safe
             \<and> list_all release_hex32 [mh, ch, ph] \<and> release_address signer
          then Some \<lparr>rm_origin = url, rm_chainId = 5042, rm_modelId = model, rm_servingImageId = img, rm_tcbVersion = n, rm_modelHash = mh,
            rm_codeHash = ch, rm_policyHash = ph, rm_signer = signer, rm_contracts = contracts, rm_acceptance = window, rm_providerPolicy = policy,
            rm_acceptedInference = inference, rm_acceptedPayment = payment\<rparr>
          else None
      | _ \<Rightarrow> None)"


section \<open>The policy of the provider\<close>

definition measurementSizes :: "(string \<times> nat) list" where
  "measurementSizes =
     [(''tee_tcb_svn'', 16), (''mr_seam'', 48), (''mr_signer_seam'', 48), (''seam_attributes'', 8), (''td_attributes'', 8), (''xfam'', 8), (''mr_td'', 48),
      (''mr_config_id'', 48), (''mr_owner'', 48), (''mr_owner_config'', 48), (''rt_mr0'', 48), (''rt_mr1'', 48), (''rt_mr2'', 48), (''rt_mr3'', 48)]"

definition hex_text :: "nat \<Rightarrow> string \<Rightarrow> bool" where
  "hex_text n s \<longleftrightarrow> length s = n \<and> list_all is_hex_digit s"

definition measurementsSchema :: "json \<Rightarrow> bool" where
  "measurementsSchema v \<longleftrightarrow> strict_object (map fst measurementSizes) [] v
     \<and> list_all (\<lambda>(k, n). case json_text k v of Some s \<Rightarrow> hex_text (2 * n) s | None \<Rightarrow> False) measurementSizes"

definition text_field :: "(string \<Rightarrow> bool) \<Rightarrow> string \<Rightarrow> json \<Rightarrow> bool" where
  "text_field P k v \<longleftrightarrow> (case json_text k v of Some s \<Rightarrow> P s | None \<Rightarrow> False)"

definition number_between :: "int \<Rightarrow> int \<Rightarrow> string \<Rightarrow> json \<Rightarrow> bool" where
  "number_between a b k v \<longleftrightarrow> (case json_number k v of Some n \<Rightarrow> a \<le> n \<and> n \<le> b | None \<Rightarrow> False)"

definition object_field :: "(json \<Rightarrow> bool) \<Rightarrow> string \<Rightarrow> json \<Rightarrow> bool" where
  "object_field P k v \<longleftrightarrow> (case json_field k v of Some x \<Rightarrow> P x | None \<Rightarrow> False)"

definition array_between :: "nat \<Rightarrow> nat \<Rightarrow> (json \<Rightarrow> bool) \<Rightarrow> string \<Rightarrow> json \<Rightarrow> bool" where
  "array_between a b P k v \<longleftrightarrow> (case json_field k v of Some (JArr xs) \<Rightarrow> a \<le> length xs \<and> length xs \<le> b \<and> list_all P xs | _ \<Rightarrow> False)"

definition text_value :: "(string \<Rightarrow> bool) \<Rightarrow> json \<Rightarrow> bool" where
  "text_value P v \<longleftrightarrow> (case v of JStr s \<Rightarrow> P s | _ \<Rightarrow> False)"

definition gatewayProfileSchema :: "json \<Rightarrow> bool" where
  "gatewayProfileSchema v \<longleftrightarrow> strict_object [''appComposeSha256'', ''measurements''] [] v \<and> text_field (hex_text 64) ''appComposeSha256'' v
     \<and> object_field measurementsSchema ''measurements'' v"

definition manager_image :: "string \<Rightarrow> bool" where
  "manager_image s \<longleftrightarrow> starts_with s ''nearaidev/compose-manager@sha256:'' \<and> length s = 98 \<and> list_all is_lower_hex_digit (drop 34 s)"

definition modelProfileSchema :: "json \<Rightarrow> bool" where
  "modelProfileSchema v \<longleftrightarrow>
     strict_object [''model'', ''appComposeSha256'', ''measurements'', ''composeManagerActionsSha256'', ''composeManagerImage'', ''gpuCount'', ''gpuModels''] [] v
     \<and> text_field release_modelId ''model'' v \<and> text_field (hex_text 64) ''appComposeSha256'' v \<and> object_field measurementsSchema ''measurements'' v
     \<and> text_field (hex_text 64) ''composeManagerActionsSha256'' v \<and> text_field manager_image ''composeManagerImage'' v
     \<and> number_between 1 32 ''gpuCount'' v \<and> array_between 1 32 (text_value (\<lambda>s. s \<noteq> [])) ''gpuModels'' v"

definition nvidiaVerifierSchema :: "json \<Rightarrow> bool" where
  "nvidiaVerifierSchema v \<longleftrightarrow> strict_object [''mode'', ''sdkVersion'', ''binarySha256'', ''librarySha256''] [] v
     \<and> json_text ''mode'' v = Some ''local'' \<and> json_text ''sdkVersion'' v = Some ''1.2.2''
     \<and> json_text ''binarySha256'' v = Some ''ef4d6b63fc898081d45f39d836848b32e9579202c7b64664aa38350649c09ff6''
     \<and> json_text ''librarySha256'' v = Some ''088b827f0ce9f356afd4afcb27c22bfd71409268e7fc6d987b3331ca8d2a5c24''"

definition provenanceSchema :: "provider_host \<Rightarrow> json \<Rightarrow> bool" where
  "provenanceSchema host v \<longleftrightarrow> json_text ''status'' v = Some ''APPROVED'' \<and> json_text ''scope'' v = Some ''production''
     \<and> text_field (pv_datetime host) ''reviewedAt'' v \<and> text_field (\<lambda>s. sized_text 256 (trim s)) ''reviewedBy'' v"

record provider_policy =
  pl_version :: string
  pl_validFrom :: string
  pl_validUntil :: string
  pl_maxSessionSeconds :: int
  pl_models :: "string list"
  pl_gatewayProfiles :: "nat option"
  pl_reviewedAt :: string
  pl_reviewedBy :: string
  pl_json :: json

text \<open>The parsed value of the policy differs from the text in one place: the reviewer's name is trimmed.\<close>

definition set_field :: "string \<Rightarrow> json \<Rightarrow> json \<Rightarrow> json" where
  "set_field k x v = (case v of JObj fs \<Rightarrow> JObj (map (\<lambda>(l, y). (l, if l = k then x else y)) fs) | _ \<Rightarrow> v)"

definition trimmed_reviewer :: "json \<Rightarrow> json" where
  "trimmed_reviewer v =
     (case json_field ''provenance'' v of
        Some p \<Rightarrow> (case json_text ''reviewedBy'' p of Some s \<Rightarrow> set_field ''provenance'' (set_field ''reviewedBy'' (JStr (trim s)) p) v | None \<Rightarrow> v)
      | None \<Rightarrow> v)"

definition profile_models :: "json \<Rightarrow> string list" where
  "profile_models v = (case json_field ''profiles'' v of Some (JArr xs) \<Rightarrow> List.map_filter (json_text ''model'') xs | _ \<Rightarrow> [])"

definition array_length :: "string \<Rightarrow> json \<Rightarrow> nat option" where
  "array_length k v = (case json_field k v of Some (JArr xs) \<Rightarrow> Some (length xs) | _ \<Rightarrow> None)"

definition productionProviderPolicySchema :: "provider_host \<Rightarrow> json \<Rightarrow> provider_policy option" where
  "productionProviderPolicySchema host v =
     (case (json_texts [''version'', ''validFrom'', ''validUntil''] v, json_number ''maxSessionSeconds'' v,
            Option.bind (json_field ''provenance'' v) (json_texts [''reviewedAt'', ''reviewedBy''])) of
        (Some [version, from', until'], Some seconds, Some [at, by']) \<Rightarrow>
          if strict_object [''schemaVersion'', ''version'', ''validFrom'', ''validUntil'', ''maxSessionSeconds'', ''profiles'', ''provenance'']
               [''gatewayProfiles'', ''nvidiaVerifier''] v
             \<and> json_number ''schemaVersion'' v = Some 1 \<and> sized_text 128 version \<and> pv_datetime host from' \<and> pv_datetime host until'
             \<and> 1 \<le> seconds \<and> seconds \<le> 300 \<and> array_between 1 32 modelProfileSchema ''profiles'' v
             \<and> (json_field ''gatewayProfiles'' v = None \<or> array_between 1 32 gatewayProfileSchema ''gatewayProfiles'' v)
             \<and> (json_field ''nvidiaVerifier'' v = None \<or> object_field nvidiaVerifierSchema ''nvidiaVerifier'' v)
             \<and> object_field (provenanceSchema host) ''provenance'' v
          then Some \<lparr>pl_version = version, pl_validFrom = from', pl_validUntil = until', pl_maxSessionSeconds = seconds, pl_models = profile_models v,
            pl_gatewayProfiles = array_length ''gatewayProfiles'' v, pl_reviewedAt = at, pl_reviewedBy = trim by', pl_json = trimmed_reviewer v\<rparr>
          else None
      | _ \<Rightarrow> None)"

section \<open>The archive\<close>

definition evidence_keys :: "string list" where
  "evidence_keys = [''schemaVersion'', ''provider'', ''signatureKind'', ''endpoint'', ''model'', ''completionId'', ''requestHash'', ''responseHash'', ''outputHash'',
     ''signatureText'', ''signature'', ''signingAddress'', ''attestationRef'', ''verifiedAt'', ''expiresAt'', ''tlsBound'']"

definition evidenceSchema :: "provider_host \<Rightarrow> json \<Rightarrow> near_evidence option" where
  "evidenceSchema host v =
     (case evidence_of_json v of
        None \<Rightarrow> None
      | Some e \<Rightarrow>
          if strict_object evidence_keys [] v \<and> ne_schemaVersion e = 1 \<and> ne_provider e = ''near'' \<and> ne_signatureKind e = ''provider_tee''
             \<and> nearProviderOrigin host (ne_endpoint e) \<and> release_modelId (ne_model e) \<and> completion_id_pattern (ne_completionId e)
             \<and> list_all release_hex32 [ne_requestHash e, ne_responseHash e, ne_outputHash e] \<and> utf16_length (ne_signatureText e) \<le> 1024
             \<and> release_signature (ne_signature e) \<and> release_address (ne_signingAddress e) \<and> release_hex32 (ne_attestationRef e)
             \<and> pv_datetime host (ne_verifiedAt e) \<and> pv_datetime host (ne_expiresAt e) \<and> ne_tlsBound e
          then Some e else None)"

record archived_receipt =
  av_verifierAddress :: string
  av_typedHash :: string
  av_receipt :: signed_receipt

definition receiptArchiveSchema :: "json \<Rightarrow> archived_receipt option" where
  "receiptArchiveSchema v =
     (case json_texts [''verifierAddress'', ''typedHash'', ''modelHash'', ''codeHash'', ''inHash'', ''outHash'', ''attRef'', ''nonce'', ''ts'', ''sig''] v of
        Some [va, th, mh, ch, ih, oh, ar, nonce, ts, sig] \<Rightarrow>
          if strict_object [''receiptVersion'', ''chainId'', ''verifierAddress'', ''typedHash'', ''modelHash'', ''codeHash'', ''inHash'', ''outHash'', ''attRef'',
               ''nonce'', ''ts'', ''sig''] [] v
             \<and> json_number ''receiptVersion'' v = Some 2 \<and> json_number ''chainId'' v = Some 5042 \<and> release_address va
             \<and> list_all release_hex32 [th, mh, ch, ih, oh, ar, nonce] \<and> release_uint64 ts \<and> release_signature sig
          then Some \<lparr>av_verifierAddress = va, av_typedHash = th,
            av_receipt = \<lparr>sr_receipt = \<lparr>ir_version = 2, ir_modelHash = mh, ir_codeHash = ch, ir_inHash = ih, ir_outHash = oh, ir_attRef = ar,
              ir_nonce = Some nonce, ir_ts = int (dec_number ts)\<rparr>, sr_sig = sig\<rparr>\<rparr>
          else None
      | _ \<Rightarrow> None)"

definition proofArchiveSchema :: "provider_host \<Rightarrow> json \<Rightarrow> provider_proof option" where
  "proofArchiveSchema host v =
     (case (json_texts [''receiptHash'', ''evidenceHash'', ''sig''] v, Option.bind (json_field ''evidence'' v) (evidenceSchema host)) of
        (Some [rh, eh, sig], Some e) \<Rightarrow>
          if strict_object [''version'', ''receiptHash'', ''evidenceHash'', ''evidence'', ''sig''] [] v \<and> json_number ''version'' v = Some 1
             \<and> release_hex32 rh \<and> release_hex32 eh \<and> release_signature sig
          then Some \<lparr>pf_version = 1, pf_receiptHash = rh, pf_evidenceHash = eh, pf_evidence = e, pf_sig = sig\<rparr> else None
      | _ \<Rightarrow> None)"

record inference_archive =
  ia_receipt :: archived_receipt
  ia_proof :: provider_proof
  ia_requestBody :: string
  ia_responseBody :: string
  ia_attestationProof :: string
  ia_input :: string
  ia_output :: string

definition transcriptArchiveSchema :: "json \<Rightarrow> (string \<times> string \<times> string) option" where
  "transcriptArchiveSchema v =
     (case json_texts [''requestBodyBase64'', ''responseBodyBase64'', ''attestationProof''] v of
        Some [q, a, p] \<Rightarrow>
          if strict_object [''requestBodyBase64'', ''responseBodyBase64'', ''attestationProof''] [] v \<and> base64_text q \<and> base64_text a \<and> sized_text 4194304 p
          then Some (q, a, p) else None
      | _ \<Rightarrow> None)"

definition productionInferenceArchiveSchema :: "provider_host \<Rightarrow> json \<Rightarrow> inference_archive option" where
  "productionInferenceArchiveSchema host v =
     (case (Option.bind (json_field ''receipt'' v) receiptArchiveSchema, Option.bind (json_field ''providerProof'' v) (proofArchiveSchema host),
            Option.bind (json_field ''providerTranscript'' v) transcriptArchiveSchema, json_texts [''inputBase64'', ''outputBase64''] v) of
        (Some receipt, Some pr, Some (q, a, p), Some [i, out]) \<Rightarrow>
          if strict_object [''receipt'', ''providerProof'', ''providerTranscript'', ''inputBase64'', ''outputBase64''] [] v \<and> base64_text i \<and> base64_text out
          then Some \<lparr>ia_receipt = receipt, ia_proof = pr, ia_requestBody = q, ia_responseBody = a, ia_attestationProof = p, ia_input = i, ia_output = out\<rparr>
          else None
      | _ \<Rightarrow> None)"

section \<open>Files\<close>

text \<open>
  An opened regular file or another one, the size \<open>stat\<close> reports, and the chunks its reads deliver; no file when it cannot be
  opened or read.
\<close>

record file_read =
  fd_isFile :: bool
  fd_size :: js_number
  fd_chunks :: "bytes list"

fun read_up_to :: "nat \<Rightarrow> bytes list \<Rightarrow> bytes" where
  "read_up_to room [] = []"
| "read_up_to room (c # cs) = (if room = 0 \<or> c = [] then [] else take room c @ read_up_to (room - length c) cs)"

definition readBounded :: "file_read option \<Rightarrow> int \<Rightarrow> string \<Rightarrow> string + bytes" where
  "readBounded f maximum code =
     rbind (of_option code f) (\<lambda>f.
     rbind (require (fd_isFile f \<and> is_safe_integer (fd_size f) \<and> 0 \<le> int_of (fd_size f) \<and> int_of (fd_size f) \<le> maximum) code) (\<lambda>_.
     let bs = read_up_to (nat (int_of (fd_size f)) + 1) (fd_chunks f) in
     rbind (require (int (length bs) = int_of (fd_size f)) code) (\<lambda>_. Inr bs)))"

section \<open>The policy against the manifest\<close>

definition releaseCanonicalSignature :: "string \<Rightarrow> bool" where
  "releaseCanonicalSignature sig \<longleftrightarrow>
     (let s = hex_number (take 64 (drop 66 sig)); v = hex_number (drop 130 sig) in 0 < s \<and> s \<le> halfCurveOrder \<and> v \<in> {0, 1, 27, 28})"

definition on_dates :: "(int \<Rightarrow> int \<Rightarrow> bool) \<Rightarrow> int option \<Rightarrow> int option \<Rightarrow> bool" where
  "on_dates P a b \<longleftrightarrow> (case (a, b) of (Some x, Some y) \<Rightarrow> P x y | _ \<Rightarrow> False)"

abbreviation date_le :: "int option \<Rightarrow> int option \<Rightarrow> bool" where
  "date_le \<equiv> on_dates (\<le>)"

abbreviation date_less :: "int option \<Rightarrow> int option \<Rightarrow> bool" where
  "date_less \<equiv> on_dates (<)"

definition policy_of_bytes :: "provider_host \<Rightarrow> bytes \<Rightarrow> string + provider_policy" where
  "policy_of_bytes host bs =
     rbind (uniqueJson (nh_parse host) bs ''PROVIDER_POLICY_INVALID'') (\<lambda>v. of_option ''PROVIDER_POLICY_INVALID'' (productionProviderPolicySchema host v))"

definition validateProductionProviderPolicy ::
    "provider_host \<Rightarrow> bytes \<Rightarrow> release_manifest \<Rightarrow> int \<Rightarrow> bool \<Rightarrow> string + provider_policy" where
  "validateProductionProviderPolicy host bs m now cloud =
     (let pin = rm_providerPolicy m in
      rbind (require (same (sha256Hex (cx_sha (nh_crypto host)) bs) (rp_sha256 pin)) ''PROVIDER_POLICY_HASH_MISMATCH'') (\<lambda>_.
      rbind (policy_of_bytes host bs) (\<lambda>p.
      rbind (require (\<not> cloud \<or> (case pl_gatewayProfiles p of Some n \<Rightarrow> 0 < n | None \<Rightarrow> False)) ''PROVIDER_POLICY_INVALID'') (\<lambda>_.
      let from' = nh_date host (pl_validFrom p); until' = nh_date host (pl_validUntil p); reviewed = nh_date host (pl_reviewedAt p) in
      rbind (require (date_le from' (Some now) \<and> date_less (Some now) until' \<and> date_le from' reviewed \<and> date_less reviewed until' \<and> date_le reviewed (Some now))
        ''PROVIDER_POLICY_EXPIRED'') (\<lambda>_.
      rbind (require (pl_version p = rp_version pin \<and> pl_reviewedAt p = rp_reviewedAt pin \<and> pl_reviewedBy p = rp_reviewedBy pin)
        ''PROVIDER_POLICY_REVIEW_MISMATCH'') (\<lambda>_.
      rbind (require (rm_modelId m \<in> set (pl_models p)) ''PROVIDER_POLICY_MODEL_MISMATCH'') (\<lambda>_. Inr p)))))))"

section \<open>The archived attestation\<close>

record attestation_archive =
  ta_report :: json
  ta_model :: "string option"
  ta_attestationRef :: string
  ta_policyVersion :: string
  ta_verifiedAt :: string
  ta_expiresAt :: string
  ta_signingAddress :: "string option"
  ta_allowedSigners :: "string list option"
  ta_policy :: provider_policy
  ta_policyHash :: string

definition optional_signers :: "json \<Rightarrow> string list option option" where
  "optional_signers v =
     (case json_field ''allowedSigners'' v of
        None \<Rightarrow> Some None
      | Some (JArr xs) \<Rightarrow>
          (case all_some (map (\<lambda>x. case x of JStr s \<Rightarrow> if release_address s then Some s else None | _ \<Rightarrow> None) xs) of
             Some ss \<Rightarrow> if 1 \<le> length ss \<and> length ss \<le> 32 then Some (Some ss) else None
           | None \<Rightarrow> None)
      | Some _ \<Rightarrow> None)"

definition attestationArchiveSchema :: "provider_host \<Rightarrow> json \<Rightarrow> attestation_archive option" where
  "attestationArchiveSchema host v =
     (case (json_field ''report'' v, json_field ''verdict'' v, Option.bind (json_field ''policy'' v) (productionProviderPolicySchema host), json_text ''policyHash'' v) of
        (Some report, Some d, Some policy, Some ph) \<Rightarrow>
          (case (json_texts [''attestationRef'', ''policyVersion'', ''verifiedAt'', ''expiresAt''] d, optional_text ''model'' d, optional_text ''signingAddress'' d,
                 optional_signers d) of
             (Some [ar, ver, at, exp], Some model, Some signing, Some signers) \<Rightarrow>
               if strict_object [''report'', ''verdict'', ''policy'', ''policyHash''] [] v \<and> json_object report \<and> json_field ''ok'' d = Some (JBool True)
                  \<and> pred_option release_modelId model \<and> release_hex32 ar \<and> pv_datetime host at \<and> pv_datetime host exp \<and> pred_option release_address signing
                  \<and> release_hex32 ph
               then Some \<lparr>ta_report = report, ta_model = model, ta_attestationRef = ar, ta_policyVersion = ver, ta_verifiedAt = at, ta_expiresAt = exp,
                 ta_signingAddress = signing, ta_allowedSigners = signers, ta_policy = policy, ta_policyHash = ph\<rparr>
               else None
           | _ \<Rightarrow> None)
      | _ \<Rightarrow> None)"

definition field_present :: "string \<Rightarrow> json \<Rightarrow> bool" where
  "field_present k v \<longleftrightarrow> json_field k v \<notin> {None, Some JNull}"

text \<open>What the archived verdict and report must say of the evidence, by the route of the provider.\<close>

definition cloud_archive :: "release_manifest \<Rightarrow> near_evidence \<Rightarrow> attestation_archive \<Rightarrow> bool" where
  "cloud_archive m e a \<longleftrightarrow> ta_model a = Some (rm_modelId m)
     \<and> (case ta_allowedSigners a of Some ss \<Rightarrow> list_ex (\<lambda>s. same s (ne_signingAddress e)) ss | None \<Rightarrow> False)
     \<and> field_present ''gateway_attestation'' (ta_report a) \<and> has_models (ta_report a)
     \<and> json_field ''signing_address'' (ta_report a) = None \<and> json_field ''intel_quote'' (ta_report a) = None"

definition direct_archive :: "release_manifest \<Rightarrow> near_evidence \<Rightarrow> attestation_archive \<Rightarrow> bool" where
  "direct_archive m e a \<longleftrightarrow>
     json_field ''gateway_attestation'' (ta_report a) = None \<and> json_field ''model_attestations'' (ta_report a) = None
     \<and> json_text ''model_name'' (ta_report a) = Some (rm_modelId m)
     \<and> (case json_text ''intel_quote'' (ta_report a) of Some q \<Rightarrow> q \<noteq> [] | None \<Rightarrow> False)
     \<and> (case ta_signingAddress a of Some s \<Rightarrow> same s (ne_signingAddress e) | None \<Rightarrow> False)
     \<and> (case json_text ''signing_address'' (ta_report a) of Some s \<Rightarrow> same s (ne_signingAddress e) | None \<Rightarrow> False)
     \<and> (case ta_model a of None \<Rightarrow> True | Some x \<Rightarrow> x = rm_modelId m)
     \<and> (case ta_allowedSigners a of None \<Rightarrow> True | Some [s] \<Rightarrow> same s (ne_signingAddress e) | _ \<Rightarrow> False)"

section \<open>The release\<close>

text \<open>The files of a release: the manifest, and the files beside it by the paths it names.\<close>

record release_files =
  rf_manifest :: "file_read option"
  rf_beside :: "string \<Rightarrow> file_read option"

record production_release =
  rl_manifest :: release_manifest
  rl_receipt :: signed_receipt
  rl_proof :: provider_proof
  rl_requestBody :: bytes
  rl_responseBody :: bytes
  rl_attestationProof :: string
  rl_policy :: provider_policy
  rl_policyHash :: string
  rl_typedHash :: string
  rl_cloud :: bool

definition release_software :: "release_manifest \<Rightarrow> tcb_policy" where
  "release_software m = \<lparr>tp_version = JInt (rm_tcbVersion m), tp_servingImageId = rm_servingImageId m, tp_requireCpuTee = True, tp_requireGpuCc = True\<rparr>"

definition thrown_as :: "string \<Rightarrow> 'e + 'a \<Rightarrow> string + 'a" where
  "thrown_as code m = (case m of Inl _ \<Rightarrow> Inl code | Inr x \<Rightarrow> Inr x)"

text \<open>Lines 162-170: the manifest, its window and the software it names.\<close>

definition acceptance_window :: "provider_host \<Rightarrow> release_manifest \<Rightarrow> int \<Rightarrow> string + unit" where
  "acceptance_window host m now =
     (let accepted = nh_date host (rv_acceptedAt (rm_acceptance m)); until' = nh_date host (rv_validUntil (rm_acceptance m)) in
      rbind (require (date_le accepted (Some now) \<and> date_less (Some now) until' \<and> date_less accepted until'
        \<and> on_dates (\<lambda>a u. u - a \<le> 30 * 86400000) accepted until') ''ACCEPTANCE_EXPIRED'') (\<lambda>_.
      require (list_all (\<lambda>s. date_le (nh_date host s) accepted)
        [ri_checkedAt (rm_acceptedInference m), ry_checkedAt (rm_acceptedPayment m), rp_reviewedAt (rm_providerPolicy m)]) ''ACCEPTANCE_TIME_MISMATCH''))"

definition read_manifest :: "provider_host \<Rightarrow> release_files \<Rightarrow> int \<Rightarrow> string + release_manifest" where
  "read_manifest host files now =
     rbind (readBounded (rf_manifest files) 65536 ''MANIFEST_UNREADABLE'') (\<lambda>bs.
     rbind (uniqueJson (nh_parse host) bs ''MANIFEST_INVALID'') (\<lambda>v.
     rbind (of_option ''MANIFEST_INVALID'' (productionReleaseManifestSchema host v)) (\<lambda>m.
     rbind (acceptance_window host m now) (\<lambda>_.
     rbind (thrown_as ''EXCEPTION'' (tcbPolicyRecord (nh_crypto host) (release_software m))) (\<lambda>software.
     rbind (require (same (rm_modelHash m) (sha256HexText (cx_sha (nh_crypto host)) (''model:'' @ rm_modelId m))
       \<and> same (rm_codeHash m) (tr_measurement software) \<and> same (rm_policyHash m) (tr_policyHash software)) ''RELEASE_HASH_MISMATCH'') (\<lambda>_.
     Inr m))))))"

definition read_archive :: "provider_host \<Rightarrow> release_files \<Rightarrow> release_manifest \<Rightarrow> string + (bytes \<times> inference_archive)" where
  "read_archive host files m =
     rbind (readBounded (rf_beside files (rp_path (rm_providerPolicy m))) 1048576 ''PROVIDER_POLICY_UNREADABLE'') (\<lambda>policyBytes.
     rbind (readBounded (rf_beside files (ri_path (rm_acceptedInference m))) 67108864 ''INFERENCE_ARCHIVE_UNREADABLE'') (\<lambda>archiveBytes.
     rbind (require (same (sha256Hex (cx_sha (nh_crypto host)) archiveBytes) (ri_sha256 (rm_acceptedInference m))) ''INFERENCE_ARCHIVE_HASH_MISMATCH'') (\<lambda>_.
     rbind (uniqueJson (nh_parse host) archiveBytes ''INFERENCE_ARCHIVE_INVALID'') (\<lambda>v.
     rbind (of_option ''INFERENCE_ARCHIVE_INVALID'' (productionInferenceArchiveSchema host v)) (\<lambda>a. Inr (policyBytes, a))))))"

text \<open>Lines 178-184: the receipt and the proof under the manifest's signer.\<close>

definition release_receipt_checks :: "near_host \<Rightarrow> typed_crypto \<Rightarrow> release_manifest \<Rightarrow> inference_archive \<Rightarrow> string + string" where
  "release_receipt_checks host ty m a =
     (let r = av_receipt (ia_receipt a); verifier = rk_AttestationVerifier (rm_contracts m) in
      rbind (thrown_as ''EXCEPTION'' (receiptTypedHash ty (sr_receipt r) (rm_chainId m) verifier)) (\<lambda>typedHash.
      rbind (require (same (av_verifierAddress (ia_receipt a)) verifier \<and> same (av_typedHash (ia_receipt a)) typedHash
        \<and> same (ir_modelHash (sr_receipt r)) (rm_modelHash m) \<and> same (ir_codeHash (sr_receipt r)) (rm_codeHash m)) ''RECEIPT_RELEASE_MISMATCH'') (\<lambda>_.
      rbind (require (releaseCanonicalSignature (sr_sig r) \<and> releaseCanonicalSignature (pf_sig (ia_proof a))
        \<and> verifyReceiptSignature ty r (rm_signer m) (rm_chainId m) verifier = Inr True) ''RECEIPT_SIGNATURE_INVALID'') (\<lambda>_.
      rbind (require (verifyProviderProof host ty (ia_proof a) r (rm_signer m) (rm_chainId m) verifier) ''PROVIDER_PROOF_INVALID'') (\<lambda>_.
      Inr typedHash)))))"

text \<open>Lines 185-189.\<close>

definition inference_times :: "provider_host \<Rightarrow> release_manifest \<Rightarrow> provider_policy \<Rightarrow> inference_archive \<Rightarrow> bool" where
  "inference_times host m p a \<longleftrightarrow>
     (let e = pf_evidence (ia_proof a); ts = ir_ts (sr_receipt (av_receipt (ia_receipt a)));
          issued = nh_date host (ne_verifiedAt e); expiry = nh_date host (ne_expiresAt e); checked = nh_date host (ri_checkedAt (rm_acceptedInference m)) in
      ne_model e = rm_modelId m \<and> date_le (nh_date host (pl_validFrom p)) issued \<and> date_le expiry (nh_date host (pl_validUntil p))
      \<and> date_less issued expiry \<and> on_dates (\<lambda>i x. x - i \<le> pl_maxSessionSeconds p * 1000) issued expiry
      \<and> on_dates (\<lambda>i x. i - 300999 \<le> ts * 1000 \<and> ts * 1000 < x) issued expiry
      \<and> date_le (Some (ts * 1000)) checked \<and> date_le issued checked \<and> date_le checked (nh_date host (rv_acceptedAt (rm_acceptance m))))"

text \<open>
  Lines 190-195: the transcript, the input and the output. The request is parsed from its text as it is; unlike the transcript
  check this reading keeps a leading byte order mark.
\<close>

definition transcript_content :: "near_host \<Rightarrow> bytes \<Rightarrow> string option" where
  "transcript_content host body =
     (case nh_parse host (text_of body) of
        Some v \<Rightarrow> (case first_content v of Some (JStr s) \<Rightarrow> Some s | _ \<Rightarrow> None)
      | None \<Rightarrow> None)"

definition transcript_bound :: "near_host \<Rightarrow> inference_archive \<Rightarrow> string + unit" where
  "transcript_bound host a =
     (let r = sr_receipt (av_receipt (ia_receipt a)); q = from_base64 (ia_requestBody a); s = from_base64 (ia_responseBody a);
          input = from_base64 (ia_input a); out = from_base64 (ia_output a) in
      rbind (require (verifyNearTranscript host (pf_evidence (ia_proof a)) q s) ''PROVIDER_TRANSCRIPT_INVALID'') (\<lambda>_.
      rbind (require (same (near_sha host input) (ir_inHash r) \<and> same (near_sha host out) (ir_outHash r)) ''RECEIPT_IO_MISMATCH'') (\<lambda>_.
      rbind (of_option ''EXCEPTION'' (transcript_content host q)) (\<lambda>content.
      require (utf8 content = input) ''TRANSCRIPT_INPUT_MISMATCH''))))"

text \<open>Lines 196-219. The fingerprint is compared first, as the conjunction of the code does.\<close>

definition attestation_bound :: "provider_host \<Rightarrow> release_manifest \<Rightarrow> provider_policy \<Rightarrow> bool \<Rightarrow> inference_archive \<Rightarrow> string + unit" where
  "attestation_bound host m p cloud a =
     (let e = pf_evidence (ia_proof a) in
      rbind (uniqueJson (nh_parse host) (utf8 (ia_attestationProof a)) ''ATTESTATION_ARCHIVE_INVALID'') (\<lambda>v.
      rbind (of_option ''ATTESTATION_ARCHIVE_INVALID'' (attestationArchiveSchema host v)) (\<lambda>t.
      rbind (require (same (ta_policyHash t) (rp_sha256 (rm_providerPolicy m))) ''ATTESTATION_ARCHIVE_MISMATCH'') (\<lambda>_.
      rbind (thrown_as ''EXCEPTION'' (canonicalEvidenceJson (pl_json (ta_policy t)))) (\<lambda>archived.
      rbind (thrown_as ''EXCEPTION'' (canonicalEvidenceJson (pl_json p))) (\<lambda>pinned.
      rbind (require (archived = pinned \<and> ta_policyVersion t = pl_version p
        \<and> same (ta_attestationRef t) (ne_attestationRef e) \<and> ta_verifiedAt t = ne_verifiedAt e \<and> ta_expiresAt t = ne_expiresAt e) ''ATTESTATION_ARCHIVE_MISMATCH'') (\<lambda>_.
      require (if cloud then cloud_archive m e t else direct_archive m e t) ''ATTESTATION_ARCHIVE_MISMATCH'')))))))"

definition validateProductionRelease :: "provider_host \<Rightarrow> typed_crypto \<Rightarrow> release_files \<Rightarrow> int \<Rightarrow> string + production_release" where
  "validateProductionRelease host ty files now =
     (let h = near_host.truncate host in
      rbind (read_manifest host files now) (\<lambda>m.
      rbind (read_archive host files m) (\<lambda>(policyBytes, a).
      let cloud = (ne_endpoint (pf_evidence (ia_proof a)) = ''https://cloud-api.near.ai'') in
      rbind (validateProductionProviderPolicy host policyBytes m now cloud) (\<lambda>p.
      rbind (require (date_le (nh_date host (rv_validUntil (rm_acceptance m))) (nh_date host (pl_validUntil p))) ''ACCEPTANCE_EXCEEDS_POLICY'') (\<lambda>_.
      rbind (release_receipt_checks h ty m a) (\<lambda>typedHash.
      rbind (require (inference_times host m p a) ''INFERENCE_TIME_MISMATCH'') (\<lambda>_.
      rbind (transcript_bound h a) (\<lambda>_.
      rbind (attestation_bound host m p cloud a) (\<lambda>_.
      Inr \<lparr>rl_manifest = m, rl_receipt = av_receipt (ia_receipt a), rl_proof = ia_proof a, rl_requestBody = from_base64 (ia_requestBody a),
        rl_responseBody = from_base64 (ia_responseBody a), rl_attestationProof = ia_attestationProof a, rl_policy = p,
        rl_policyHash = sha256Hex (cx_sha (nh_crypto host)) policyBytes, rl_typedHash = typedHash, rl_cloud = cloud\<rparr>)))))))))"

section \<open>What an accepted release shows\<close>

lemma thrown_as_Inr: "thrown_as code m = Inr x \<longleftrightarrow> m = Inr x"
  by (cases m) (auto simp: thrown_as_def)

lemma verifyNearTranscript_content:
  assumes "verifyNearTranscript host e q a"
  obtains c where "parseJson host a = Inr c" "completionSchema c \<noteq> None"
    "ne_outputHash e = near_sha host (utf8 (hd (cp_contents (the (completionSchema c)))))"
    "ne_requestHash e = near_sha host q" "ne_responseHash e = near_sha host a"
  using assms by (auto simp: verifyNearTranscript_def transcript_checks_def Let_def split: if_splits sum.splits option.splits prod.splits elim!: rbind_InrE)

lemma verifyProviderProof_parts:
  assumes "verifyProviderProof host ty p r signer chainId verifier"
  shows "ne_outputHash (pf_evidence p) = ir_outHash (sr_receipt r)" and "verifyReceiptSignature ty r signer chainId verifier = Inr True"
  using assms by (auto simp: verifyProviderProof_def res_simps elim!: rbind_InrE)

lemma validateProductionRelease_Inr:
  assumes "validateProductionRelease host ty files now = Inr r"
  obtains m policyBytes a p cloud typedHash where "read_manifest host files now = Inr m" "read_archive host files m = Inr (policyBytes, a)"
    "validateProductionProviderPolicy host policyBytes m now cloud = Inr p"
    "date_le (nh_date host (rv_validUntil (rm_acceptance m))) (nh_date host (pl_validUntil p))"
    "release_receipt_checks (near_host.truncate host) ty m a = Inr typedHash" "inference_times host m p a"
    "transcript_bound (near_host.truncate host) a = Inr ()" "attestation_bound host m p cloud a = Inr ()"
    "r = \<lparr>rl_manifest = m, rl_receipt = av_receipt (ia_receipt a), rl_proof = ia_proof a, rl_requestBody = from_base64 (ia_requestBody a),
        rl_responseBody = from_base64 (ia_responseBody a), rl_attestationProof = ia_attestationProof a, rl_policy = p,
        rl_policyHash = sha256Hex (cx_sha (nh_crypto host)) policyBytes, rl_typedHash = typedHash, rl_cloud = cloud\<rparr>"
  using assms unfolding validateProductionRelease_def Let_def by (auto simp: res_simps split: prod.splits elim!: rbind_InrE)

lemma read_manifest_Inr:
  assumes "read_manifest host files now = Inr m"
  shows "date_le (nh_date host (rv_acceptedAt (rm_acceptance m))) (Some now)" and "date_less (Some now) (nh_date host (rv_validUntil (rm_acceptance m)))"
    and "on_dates (\<lambda>a u. u - a \<le> 30 * 86400000) (nh_date host (rv_acceptedAt (rm_acceptance m))) (nh_date host (rv_validUntil (rm_acceptance m)))"
    and "same (rm_modelHash m) (sha256HexText (cx_sha (nh_crypto host)) (''model:'' @ rm_modelId m))"
    and "same (rm_codeHash m) (measurementOf (nh_crypto host) (release_software m))"
  using assms by (auto simp: read_manifest_def acceptance_window_def Let_def res_simps thrown_as_Inr tcbPolicyRecord_def elim!: rbind_InrE)

text \<open>
  An accepted release rests on one inference whose parts fit together: the clock is within an acceptance window of at most
  thirty days that the provider's policy outlives, the receipt is signed by the release's signer for the model and the
  measured software the release names, its input is the prompt of the recorded provider request, and its output is the
  answer in the recorded provider response.
\<close>

theorem accepted_release_is_backed:
  assumes "validateProductionRelease host ty files now = Inr r"
  shows "date_le (nh_date host (rv_acceptedAt (rm_acceptance (rl_manifest r)))) (Some now)
    \<and> date_less (Some now) (nh_date host (rv_validUntil (rm_acceptance (rl_manifest r))))
    \<and> on_dates (\<lambda>a u. u - a \<le> 30 * 86400000) (nh_date host (rv_acceptedAt (rm_acceptance (rl_manifest r)))) (nh_date host (rv_validUntil (rm_acceptance (rl_manifest r))))
    \<and> date_le (nh_date host (rv_validUntil (rm_acceptance (rl_manifest r)))) (nh_date host (pl_validUntil (rl_policy r)))"
    (is ?window)
    and "verifyReceiptSignature ty (rl_receipt r) (rm_signer (rl_manifest r)) (rm_chainId (rl_manifest r)) (rk_AttestationVerifier (rm_contracts (rl_manifest r))) = Inr True
    \<and> same (ir_modelHash (sr_receipt (rl_receipt r))) (sha256HexText (cx_sha (nh_crypto host)) (''model:'' @ rm_modelId (rl_manifest r)))
    \<and> same (ir_codeHash (sr_receipt (rl_receipt r))) (measurementOf (nh_crypto host) (release_software (rl_manifest r)))"
    (is ?signed)
    and "\<exists>prompt c completion. transcript_content (near_host.truncate host) (rl_requestBody r) = Some prompt
      \<and> same (near_sha (near_host.truncate host) (utf8 prompt)) (ir_inHash (sr_receipt (rl_receipt r)))
      \<and> parseJson (near_host.truncate host) (rl_responseBody r) = Inr c \<and> completionSchema c = Some completion
      \<and> ir_outHash (sr_receipt (rl_receipt r)) = near_sha (near_host.truncate host) (utf8 (hd (cp_contents completion)))"
    (is ?content)
proof -
  let ?h = "near_host.truncate host"
  from assms obtain m a p cloud typedHash policyBytes where m: "read_manifest host files now = Inr m"
    and outlives: "date_le (nh_date host (rv_validUntil (rm_acceptance m))) (nh_date host (pl_validUntil p))"
    and receipt: "release_receipt_checks ?h ty m a = Inr typedHash" and transcript: "transcript_bound ?h a = Inr ()"
    and r: "r = \<lparr>rl_manifest = m, rl_receipt = av_receipt (ia_receipt a), rl_proof = ia_proof a, rl_requestBody = from_base64 (ia_requestBody a),
        rl_responseBody = from_base64 (ia_responseBody a), rl_attestationProof = ia_attestationProof a, rl_policy = p,
        rl_policyHash = sha256Hex (cx_sha (nh_crypto host)) policyBytes, rl_typedHash = typedHash, rl_cloud = cloud\<rparr>"
    by (rule validateProductionRelease_Inr)
  note manifest = read_manifest_Inr [OF m]
  from receipt have signed: "same (ir_modelHash (sr_receipt (av_receipt (ia_receipt a)))) (rm_modelHash m)" "same (ir_codeHash (sr_receipt (av_receipt (ia_receipt a)))) (rm_codeHash m)"
    and checked: "verifyProviderProof ?h ty (ia_proof a) (av_receipt (ia_receipt a)) (rm_signer m) (rm_chainId m) (rk_AttestationVerifier (rm_contracts m))"
    by (auto simp: release_receipt_checks_def Let_def res_simps elim!: rbind_InrE)
  show ?window using manifest outlives by (simp add: r)
  show ?signed using manifest(4,5) signed verifyProviderProof_parts [OF checked] by (simp add: r same_def)
  from transcript obtain prompt where t: "verifyNearTranscript ?h (pf_evidence (ia_proof a)) (from_base64 (ia_requestBody a)) (from_base64 (ia_responseBody a))"
    and io: "same (near_sha ?h (from_base64 (ia_input a))) (ir_inHash (sr_receipt (av_receipt (ia_receipt a))))"
    and prompt: "transcript_content ?h (from_base64 (ia_requestBody a)) = Some prompt" "utf8 prompt = from_base64 (ia_input a)"
    by (auto simp: transcript_bound_def Let_def of_option_def res_simps split: option.splits elim!: rbind_InrE)
  from t obtain c where "parseJson ?h (from_base64 (ia_responseBody a)) = Inr c" "completionSchema c \<noteq> None"
    "ne_outputHash (pf_evidence (ia_proof a)) = near_sha ?h (utf8 (hd (cp_contents (the (completionSchema c)))))"
    by (rule verifyNearTranscript_content)
  with io prompt verifyProviderProof_parts(1) [OF checked] show ?content by (auto simp: r)
qed

end
