(* ===== verification/Inference_Accounting.thy ===== *)
theory Inference_Accounting
  imports Inference_Service
begin

text \<open>
  What the paid inference guarantees under any interleaving of requests, settlements, sweeps, crashes,
  rotations and revocations: a payment buys at most one receipt and starts the provider at most once, every
  receipt has its own consumed payment, and the usage of a key counts exactly its receipts.
\<close>

section \<open>The service as a transition system\<close>

type_synonym ticket = "infer_input \<times> admitted \<times> string \<times> string"

record service_sys =
  sm_db :: service_db
  sm_claims :: "payment_row list"
  sm_day :: string
  sm_tickets :: "ticket list"
  sm_calls :: "service_effect list"
  sm_published :: "(string \<times> string \<times> string) list"

definition pay_view :: "service_sys \<Rightarrow> pay_sys" where
  "pay_view s = \<lparr>sy_db = sd_pay (sm_db s), sy_claims = sm_claims s, sy_day = sm_day s\<rparr>"

definition service_start :: "service_sys \<Rightarrow> bool" where
  "service_start s \<longleftrightarrow> pay_start (pay_view s) \<and> sd_receipts (sm_db s) = [] \<and> sd_usage (sm_db s) = [] \<and> sd_executions (sm_db s) = []
     \<and> sm_tickets s = [] \<and> sm_calls s = [] \<and> sm_published s = []"

definition publication :: "admitted \<Rightarrow> string \<Rightarrow> inference_result \<Rightarrow> service_effect list \<Rightarrow> (string \<times> string \<times> string) list" where
  "publication a paymentId r calls = (if calls = [] then [] else [(paymentId, ai_keyHash a, nr_typedHash r)])"

inductive service_step :: "service_env \<Rightarrow> service_sys \<Rightarrow> service_sys \<Rightarrow> bool" for env :: service_env where
  paid: "pay_step (pay_view s) p \<Longrightarrow>
    service_step env s (s\<lparr>sm_db := sm_db s\<lparr>sd_pay := sy_db p\<rparr>, sm_claims := sy_claims p, sm_day := sy_day p\<rparr>)"
| managed: "service_step env s (s\<lparr>sm_db := sm_db s\<lparr>sd_tcb := t, sd_models := m, sd_sessions := x, sd_agents := g\<rparr>\<rparr>)"
| anchored: "service_step env s (s\<lparr>sm_db := sm_db s\<lparr>sd_receipts := map (\<lambda>r. r\<lparr>sv_status := f r\<rparr>) (sd_receipts (sm_db s))\<rparr>\<rparr>)"
| claimed: "claim_tx env w fresh input a paymentId (sm_db s) = Inr (Dispatched c, db) \<Longrightarrow> \<not> sn_echo env \<Longrightarrow>
    service_step env s (s\<lparr>sm_db := db, sm_tickets := sm_tickets s @ [(input, a, paymentId, c)]\<rparr>)"
| published: "sm_tickets s = pre @ (input, a, paymentId, c) # post \<Longrightarrow>
    publish env w input a paymentId (Some c) answer (sm_db s) = (Inr (r, db), calls) \<Longrightarrow>
    service_step env s (s\<lparr>sm_db := db, sm_tickets := pre @ post, sm_calls := sm_calls s @ calls,
      sm_published := sm_published s @ publication a paymentId r calls\<rparr>)"
| failed: "sm_tickets s = pre @ (input, a, paymentId, c) # post \<Longrightarrow>
    publish env w input a paymentId (Some c) answer (sm_db s) = (Inl e, calls) \<Longrightarrow>
    service_step env s (s\<lparr>sm_tickets := pre @ post, sm_calls := sm_calls s @ calls\<rparr>)"
| echoed: "sn_echo env \<Longrightarrow> publish env w input a paymentId None answer (sm_db s) = (Inr (r, db), calls) \<Longrightarrow>
    service_step env s (s\<lparr>sm_db := db, sm_calls := sm_calls s @ calls, sm_published := sm_published s @ publication a paymentId r calls\<rparr>)"
| echo_failed: "sn_echo env \<Longrightarrow> publish env w input a paymentId None answer (sm_db s) = (Inl e, calls) \<Longrightarrow>
    service_step env s (s\<lparr>sm_calls := sm_calls s @ calls\<rparr>)"

section \<open>Invariant\<close>

fun called :: "service_effect list \<Rightarrow> string list" where
  "called [] = []"
| "called (ProviderCall p # es) = p # called es"
| "called (AnchorEnqueued h # es) = called es"

definition ticket_payments :: "ticket list \<Rightarrow> string list" where
  "ticket_payments ts = map (\<lambda>(input, a, paymentId, c). paymentId) ts"

definition paid_for :: "service_db \<Rightarrow> string \<times> string \<times> string \<Rightarrow> bool" where
  "paid_for db x \<longleftrightarrow> (\<exists>p \<in> set (pt_payments (sd_pay db)). py_id p = fst x \<and> py_keyHash p = fst (snd x) \<and> py_status p = ''consumed'')"

definition usage_exact :: "int \<Rightarrow> (string \<times> string \<times> string) list \<Rightarrow> usage_row list \<Rightarrow> bool" where
  "usage_exact price pub rows \<longleftrightarrow> unique_key us_keyHash rows
     \<and> (\<forall>u \<in> set rows. us_calls u = int (length (filter (\<lambda>x. fst (snd x) = us_keyHash u) pub))
          \<and> us_usdcUnits u = price * us_calls u)
     \<and> (\<forall>x \<in> set pub. \<exists>u \<in> set rows. us_keyHash u = fst (snd x))"

definition ledger_exact :: "(string \<times> string \<times> string) list \<Rightarrow> service_db \<Rightarrow> bool" where
  "ledger_exact pub db \<longleftrightarrow> map (\<lambda>r. (sv_keyHash r, sv_typedHash r)) (sd_receipts db) = map (\<lambda>x. (Some (fst (snd x)), snd (snd x))) pub
     \<and> distinct (map fst pub) \<and> distinct (map (\<lambda>x. snd (snd x)) pub) \<and> (\<forall>x \<in> set pub. paid_for db x)"

definition tickets_exact :: "ticket list \<Rightarrow> service_effect list \<Rightarrow> execution_row list \<Rightarrow> bool" where
  "tickets_exact ts calls rows \<longleftrightarrow> distinct (ticket_payments ts @ called calls)
     \<and> set (ticket_payments ts @ called calls) \<subseteq> ex_paymentId ` set rows"

definition service_ok :: "service_env \<Rightarrow> service_sys \<Rightarrow> bool" where
  "service_ok env s \<longleftrightarrow> pay_ok (pay_view s) \<and> executions_ok (sd_executions (sm_db s))
     \<and> ledger_exact (sm_published s) (sm_db s) \<and> usage_exact (pc_priceUnits (sn_pay env)) (sm_published s) (sd_usage (sm_db s))
     \<and> (\<not> sn_echo env \<longrightarrow> tickets_exact (sm_tickets s) (sm_calls s) (sd_executions (sm_db s)))"

lemma called_append [simp]: "called (xs @ ys) = called xs @ called ys"
  by (induction xs rule: called.induct) simp_all

section \<open>One publication\<close>

lemma payments_step:
  assumes "pay_ok p" and "pay_step p q"
  shows "pay_ok q" and "payments_keep p q"
  using assms payments.inv_step payments.keeps_step by blast+

lemma evolves_consumed: "evolves r r' \<Longrightarrow> py_status r = ''consumed'' \<Longrightarrow>
    py_status r' = ''consumed'' \<and> py_id r' = py_id r \<and> py_keyHash r' = py_keyHash r"
  by (auto simp: evolves_def status_reaches_def fixed_fields_def)

lemma paid_for_kept:
  assumes "payments_keep p q" and "sy_db p = sd_pay db" and "sy_db q = sd_pay db'" and "paid_for db x"
  shows "paid_for db' x"
proof -
  from assms(4) obtain r where r: "r \<in> set (pt_payments (sd_pay db))" "py_id r = fst x" "py_keyHash r = fst (snd x)" "py_status r = ''consumed''"
    by (auto simp: paid_for_def)
  with assms(1-3) obtain r' where "r' \<in> set (pt_payments (sd_pay db'))" "evolves r r'" unfolding payments_keep_def by metis
  with r evolves_consumed [of r r'] show ?thesis by (auto simp: paid_for_def)
qed

lemma complete_claim_Inr:
  assumes "complete_claim input a pid claim h now db = Inr db'" and "executions_ok (sd_executions db)"
  shows "\<exists>rows. db' = db\<lparr>sd_executions := rows\<rparr> \<and> executions_ok rows \<and> ex_paymentId ` set (sd_executions db) \<subseteq> ex_paymentId ` set rows"
proof (cases claim)
  case None
  with assms show ?thesis by (intro exI [of _ "sd_executions db"]) (simp add: complete_claim_def)
next
  case (Some c)
  with assms(1) obtain u rows where c: "completeInferenceExecution (execution_binding_of input a pid) c h now (sd_executions db) = Inr (u, rows)"
    "db' = db\<lparr>sd_executions := rows\<rparr>" by (auto simp: complete_claim_def res_simps)
  have "ex_paymentId ` set (sd_executions db) \<subseteq> ex_paymentId ` set rows"
    using complete_keeps [OF c(1)] unfolding executions_keep_def claim_kept_def by (metis image_eqI image_subsetI)
  with c complete_preserves [OF assms(2) c(1)] show ?thesis by blast
qed

lemma record_answer_Inr:
  assumes "record_answer env w input a pid claim answer db = Inr (r, db')" and "executions_ok (sd_executions db)"
  obtains row where "sv_typedHash row = nr_typedHash r" "sv_keyHash row = Some (ai_keyHash a)"
    "\<forall>q \<in> set (sd_receipts db). sv_typedHash q \<noteq> nr_typedHash r"
    "sd_receipts db' = sd_receipts db @ [row]" "sd_pay db' = linkReceipt pid (nr_typedHash r) (sd_pay db)"
    "sd_usage db' = count_usage (ai_keyHash a) (pc_priceUnits (sn_pay env)) (sd_usage db)"
    "executions_ok (sd_executions db')" "ex_paymentId ` set (sd_executions db) \<subseteq> ex_paymentId ` set (sd_executions db')"
proof -
  from assms(1) obtain db1 db2 row h where ins: "insert_receipt row db = Inr db1"
    and idem: "insert_idempotency input a r (db1\<lparr>sd_pay := linkReceipt pid h (sd_pay db1),
                   sd_usage := count_usage (ai_keyHash a) (pc_priceUnits (sn_pay env)) (sd_usage db1)\<rparr>) = Inr db2"
    and comp: "complete_claim input a pid claim h (sw_now w) db2 = Inr db'"
    and row: "sv_typedHash row = h" "sv_keyHash row = Some (ai_keyHash a)" "nr_typedHash r = h"
    unfolding record_answer_def Let_def by (elim rbind_InrE) (fastforce)
  from ins have db1: "db1 = db\<lparr>sd_receipts := sd_receipts db @ [row]\<rparr>" "\<forall>q \<in> set (sd_receipts db). sv_typedHash q \<noteq> h"
    using row by (auto simp: insert_receipt_def res_simps)
  from idem have db2: "sd_receipts db2 = sd_receipts db @ [row]" "sd_pay db2 = linkReceipt pid h (sd_pay db)"
    "sd_usage db2 = count_usage (ai_keyHash a) (pc_priceUnits (sn_pay env)) (sd_usage db)" "sd_executions db2 = sd_executions db"
    by (auto simp: db1 insert_idempotency_def res_simps split: option.splits)
  with assms(2) have "executions_ok (sd_executions db2)" by simp
  from complete_claim_Inr [OF comp this] obtain rows where c: "db' = db2\<lparr>sd_executions := rows\<rparr>" "executions_ok rows"
    "ex_paymentId ` set (sd_executions db2) \<subseteq> ex_paymentId ` set rows" by blast
  show ?thesis by (rule that [of row]) (simp_all add: row db1(2) c db2 c(3) [unfolded db2])
qed

lemma publish_Inr:
  assumes "publish env w input a pid claim answer db = (Inr (r, db'), calls)" and "executions_ok (sd_executions db)"
  shows "(calls = [] \<and> (\<exists>rows. db' = db\<lparr>sd_executions := rows\<rparr> \<and> executions_ok rows \<and> ex_paymentId ` set (sd_executions db) \<subseteq> ex_paymentId ` set rows))
    \<or> (calls = [ProviderCall pid] \<and> (\<exists>row p. consumePayment (sn_pay env) (sw_proofs w) (ai_keyHash a) pid (pc_priceUnits (sn_pay env)) (ai_requestHash a) False (sd_pay db) = Inr ((), p)
         \<and> sv_typedHash row = nr_typedHash r \<and> sv_keyHash row = Some (ai_keyHash a)
         \<and> (\<forall>q \<in> set (sd_receipts db). sv_typedHash q \<noteq> nr_typedHash r)
         \<and> sd_receipts db' = sd_receipts db @ [row] \<and> sd_pay db' = linkReceipt pid (nr_typedHash r) p
         \<and> sd_usage db' = count_usage (ai_keyHash a) (pc_priceUnits (sn_pay env)) (sd_usage db)
         \<and> executions_ok (sd_executions db') \<and> ex_paymentId ` set (sd_executions db) \<subseteq> ex_paymentId ` set (sd_executions db')))"
proof (cases "replay_of input a db")
  case (Inl e)
  with assms(1) show ?thesis by (simp add: publish_def)
next
  case (Inr found)
  show ?thesis
  proof (cases found)
    case (Some q)
    with Inr assms(1) have "rbind (current_tcb env (policy_hash a) db) (\<lambda>_. rmap (Pair q) (complete_claim input a pid claim (nr_typedHash q) (sw_now w) db)) = Inr (r, db')"
      and calls: "calls = []" by (simp_all add: publish_def)
    then have "complete_claim input a pid claim (nr_typedHash q) (sw_now w) db = Inr db'" by (auto simp: res_simps)
    from complete_claim_Inr [OF this assms(2)] calls show ?thesis by simp
  next
    case None
    show ?thesis
    proof (cases "consumePayment (sn_pay env) (sw_proofs w) (ai_keyHash a) pid (pc_priceUnits (sn_pay env)) (ai_requestHash a) False (sd_pay db)")
      case (Inl e)
      with Inr None assms(1) show ?thesis by (simp add: publish_def)
    next
      case consumed: (Inr v)
      obtain p where v: "v = ((), p)" by (cases v) simp
      from assms(1) Inr None consumed v obtain ans where rec: "record_answer env w input a pid claim ans (db\<lparr>sd_pay := p\<rparr>) = Inr (r, db')"
        and calls: "calls = [ProviderCall pid]" by (auto simp: publish_def res_simps)
      from assms(2) have "executions_ok (sd_executions (db\<lparr>sd_pay := p\<rparr>))" by simp
      then show ?thesis
      proof (rule record_answer_Inr [OF rec])
        fix row
        assume f: "sv_typedHash row = nr_typedHash r" "sv_keyHash row = Some (ai_keyHash a)"
          "\<forall>q \<in> set (sd_receipts (db\<lparr>sd_pay := p\<rparr>)). sv_typedHash q \<noteq> nr_typedHash r"
          "sd_receipts db' = sd_receipts (db\<lparr>sd_pay := p\<rparr>) @ [row]" "sd_pay db' = linkReceipt pid (nr_typedHash r) (sd_pay (db\<lparr>sd_pay := p\<rparr>))"
          "sd_usage db' = count_usage (ai_keyHash a) (pc_priceUnits (sn_pay env)) (sd_usage (db\<lparr>sd_pay := p\<rparr>))"
          "executions_ok (sd_executions db')" "ex_paymentId ` set (sd_executions (db\<lparr>sd_pay := p\<rparr>)) \<subseteq> ex_paymentId ` set (sd_executions db')"
        from f(3-6,8) have g: "\<forall>q \<in> set (sd_receipts db). sv_typedHash q \<noteq> nr_typedHash r"
          "sd_receipts db' = sd_receipts db @ [row]" "sd_pay db' = linkReceipt pid (nr_typedHash r) p"
          "sd_usage db' = count_usage (ai_keyHash a) (pc_priceUnits (sn_pay env)) (sd_usage db)"
          "ex_paymentId ` set (sd_executions db) \<subseteq> ex_paymentId ` set (sd_executions db')" by simp_all
        show ?thesis
          by (rule disjI2, rule conjI [OF calls], rule exI [of _ row], rule exI [of _ p])
            (intro conjI f(1,2,7) g consumed [unfolded v])
      qed
    qed
  qed
qed

lemma publish_calls: "publish env w input a pid claim answer db = (res, calls) \<Longrightarrow> calls = [] \<or> calls = [ProviderCall pid]"
  by (auto simp: publish_def split: sum.splits option.splits prod.splits)

text \<open>The new row of the ledger and the new count of the usage.\<close>

lemma usage_counted:
  assumes "usage_exact price pub rows"
  shows "usage_exact price (pub @ [(pid, key, h)]) (count_usage key price rows)"
proof (cases "list_ex (\<lambda>u. us_keyHash u = key) rows")
  case True
  then obtain u where u: "u \<in> set rows" "us_keyHash u = key" by (auto simp: list_ex_iff)
  let ?f = "\<lambda>u. u\<lparr>us_calls := us_calls u + 1, us_usdcUnits := us_usdcUnits u + price\<rparr>"
  from assms have uniq: "unique_key us_keyHash rows" by (simp add: usage_exact_def)
  have rows: "count_usage key price rows = update_rows (\<lambda>v. us_keyHash v = us_keyHash u) ?f rows"
    using True u by (simp add: count_usage_def)
  have mem: "v \<in> set (count_usage key price rows) \<longleftrightarrow> v = ?f u \<or> (v \<in> set rows \<and> v \<noteq> u)" for v
    unfolding rows by (rule set_update_key [OF uniq u(1)])
  have other: "us_keyHash v \<noteq> key" if "v \<in> set rows" "v \<noteq> u" for v using that u unique_key_eq [OF uniq] by blast
  have "unique_key us_keyHash (count_usage key price rows)" unfolding rows using uniq by (simp add: unique_key_update_on)
  moreover have "us_calls v = int (length (filter (\<lambda>x. fst (snd x) = us_keyHash v) (pub @ [(pid, key, h)]))) \<and> us_usdcUnits v = price * us_calls v"
    if "v \<in> set (count_usage key price rows)" for v
  proof (cases "v = ?f u")
    case True
    with assms u show ?thesis by (simp add: usage_exact_def algebra_simps)
  next
    case False
    with that mem other have v: "v \<in> set rows" "us_keyHash v \<noteq> key" by blast+
    from assms v(1) have "us_calls v = int (length (filter (\<lambda>x. fst (snd x) = us_keyHash v) pub)) \<and> us_usdcUnits v = price * us_calls v"
      unfolding usage_exact_def by blast
    with v(2) show ?thesis by simp
  qed
  moreover have "\<exists>v \<in> set (count_usage key price rows). us_keyHash v = fst (snd x)" if x: "x \<in> set (pub @ [(pid, key, h)])" for x
  proof (cases "fst (snd x) = key")
    case True
    have "?f u \<in> set (count_usage key price rows)" using mem [of "?f u"] by blast
    moreover have "us_keyHash (?f u) = fst (snd x)" using True u(2) by simp
    ultimately show ?thesis by blast
  next
    case False
    with x have "x \<in> set pub" by auto
    with assms obtain v where v: "v \<in> set rows" "us_keyHash v = fst (snd x)" unfolding usage_exact_def by blast
    with False u(2) have "v \<noteq> u" by metis
    with mem [of v] v show ?thesis by blast
  qed
  ultimately show ?thesis unfolding usage_exact_def by blast
next
  case False
  then have none: "\<forall>u \<in> set rows. us_keyHash u \<noteq> key" by (auto simp: list_ex_iff)
  then have "\<forall>x \<in> set pub. fst (snd x) \<noteq> key" using assms by (auto simp: usage_exact_def)
  then have zero: "filter (\<lambda>x. fst (snd x) = key) pub = []" by (simp add: filter_empty_conv)
  have eq: "count_usage key price rows = rows @ [\<lparr>us_keyHash = key, us_calls = 1, us_usdcUnits = price\<rparr>]"
    using False by (simp add: count_usage_def)
  show ?thesis using assms none zero unfolding eq usage_exact_def by (auto simp: unique_key_snoc)
qed

lemma consume_paid:
  assumes "consumePayment cfg proofs key pid amount h False db = Inr ((), p)" and "pay_ok v" and "sy_db v = db"
  shows "pay_ok (v\<lparr>sy_db := p\<rparr>)" and "payments_keep v (v\<lparr>sy_db := p\<rparr>)"
    and "\<exists>r \<in> set (pt_payments p). py_id r = pid \<and> py_keyHash r = key \<and> py_status r = ''consumed''"
    and "\<forall>r \<in> set (pt_payments db). py_id r = pid \<longrightarrow> py_status r \<noteq> ''consumed''"
proof -
  from assms(1,3) have c: "consumePayment cfg proofs key pid amount h False (sy_db v) = Inr ((), p)" by simp
  from payments_step [OF assms(2) step_consume [OF c]] show "pay_ok (v\<lparr>sy_db := p\<rparr>)" "payments_keep v (v\<lparr>sy_db := p\<rparr>)" by simp_all
  from consumePayment_Inr [OF assms(1)] obtain row where row: "payment_by_id pid db = Some row" "py_keyHash row = key" "py_status row = ''settled''"
    and p: "p = update_payments (\<lambda>r. py_id r = pid \<and> py_status r = ''settled'') (\<lambda>r. r\<lparr>py_status := ''consumed''\<rparr>) db" by auto
  have m: "row \<in> set (pt_payments db)" "py_id row = pid"
    using row(1) select_row_Some [of "\<lambda>r. py_id r = pid" "pt_payments db" row] by (simp_all add: payment_by_id_def)
  then show "\<exists>r \<in> set (pt_payments p). py_id r = pid \<and> py_keyHash r = key \<and> py_status r = ''consumed''"
    using row by (intro bexI [of _ "row\<lparr>py_status := ''consumed''\<rparr>"]) (auto simp: p update_payments_def set_update_rows)
  have "unique_key py_id (pt_payments db)" using ok_unique [OF assms(2)] assms(3) by simp
  then have "r = row" if "r \<in> set (pt_payments db)" "py_id r = pid" for r
    using that m unique_key_eq [of py_id] by metis
  with row(3) show "\<forall>r \<in> set (pt_payments db). py_id r = pid \<longrightarrow> py_status r \<noteq> ''consumed''" by auto
qed

section \<open>Every step keeps the invariant\<close>

lemma pay_view_db: "pay_view (s\<lparr>sm_db := db\<rparr>) = (pay_view s)\<lparr>sy_db := sd_pay db\<rparr>"
  by (simp add: pay_view_def)

lemma ledger_kept:
  assumes "ledger_exact pub db" and "sd_receipts db' = map (\<lambda>r. r\<lparr>sv_status := f r\<rparr>) (sd_receipts db)"
    and "\<And>x. paid_for db x \<Longrightarrow> paid_for db' x"
  shows "ledger_exact pub db'"
  using assms by (simp add: ledger_exact_def comp_def)

lemma ledger_grows:
  assumes ok: "ledger_exact pub db" and keep: "\<And>x. paid_for db x \<Longrightarrow> paid_for db' x"
    and row: "sv_typedHash row = h" "sv_keyHash row = Some key" "\<forall>q \<in> set (sd_receipts db). sv_typedHash q \<noteq> h"
    and rows: "sd_receipts db' = sd_receipts db @ [row]"
    and paid: "paid_for db' (pid, key, h)" and unpaid: "\<forall>r \<in> set (pt_payments (sd_pay db)). py_id r = pid \<longrightarrow> py_status r \<noteq> ''consumed''"
  shows "ledger_exact (pub @ [(pid, key, h)]) db'"
proof -
  have receipts: "map (\<lambda>r. (sv_keyHash r, sv_typedHash r)) (sd_receipts db) = map (\<lambda>x. (Some (fst (snd x)), snd (snd x))) pub"
    using ok by (simp add: ledger_exact_def)
  have "pid \<notin> set (map fst pub)"
  proof
    assume "pid \<in> set (map fst pub)"
    then obtain x where "x \<in> set pub" "fst x = pid" by auto
    with ok have "paid_for db x" by (simp add: ledger_exact_def)
    with unpaid \<open>fst x = pid\<close> show False by (auto simp: paid_for_def)
  qed
  moreover have "h \<notin> set (map (\<lambda>x. snd (snd x)) pub)"
  proof -
    have "map (\<lambda>x. snd (snd x)) pub = map snd (map (\<lambda>x. (Some (fst (snd x)), snd (snd x))) pub)" by simp
    also have "\<dots> = map sv_typedHash (sd_receipts db)" by (simp add: receipts [symmetric])
    finally show ?thesis using row(3) by auto
  qed
  ultimately show ?thesis using ok keep row rows paid by (auto simp: ledger_exact_def)
qed

text \<open>A committed publication, with or without a claim.\<close>

lemma publish_ok:
  assumes ok: "service_ok env s" and run: "publish env w input a pid claim answer (sm_db s) = (Inr (r, db), calls)"
    and tickets: "\<not> sn_echo env \<Longrightarrow> tickets_exact ts (sm_calls s @ calls) (sd_executions db)"
  shows "service_ok env (s\<lparr>sm_db := db, sm_tickets := ts, sm_calls := sm_calls s @ calls, sm_published := sm_published s @ publication a pid r calls\<rparr>)"
proof -
  have ex: "executions_ok (sd_executions (sm_db s))" and pay: "pay_ok (pay_view s)" and led: "ledger_exact (sm_published s) (sm_db s)"
    and use: "usage_exact (pc_priceUnits (sn_pay env)) (sm_published s) (sd_usage (sm_db s))" using ok by (simp_all add: service_ok_def)
  let ?t = "s\<lparr>sm_db := db, sm_tickets := ts, sm_calls := sm_calls s @ calls, sm_published := sm_published s @ publication a pid r calls\<rparr>"
  have view: "pay_view ?t = (pay_view s)\<lparr>sy_db := sd_pay db\<rparr>" by (simp add: pay_view_def)
  from publish_Inr [OF run ex] show ?thesis
  proof (elim disjE conjE exE)
    fix rows assume c: "calls = []" and db: "db = sm_db s\<lparr>sd_executions := rows\<rparr>" "executions_ok rows"
    have "pay_view ?t = pay_view s" unfolding view by (simp add: db(1) pay_view_def)
    moreover have "ledger_exact (sm_published s) db" using led by (simp add: db(1) ledger_exact_def paid_for_def)
    ultimately show ?thesis using pay use tickets c db(2) by (simp add: service_ok_def publication_def db(1))
  next
    fix row p assume c: "calls = [ProviderCall pid]"
      and con: "consumePayment (sn_pay env) (sw_proofs w) (ai_keyHash a) pid (pc_priceUnits (sn_pay env)) (ai_requestHash a) False (sd_pay (sm_db s)) = Inr ((), p)"
      and row: "sv_typedHash row = nr_typedHash r" "sv_keyHash row = Some (ai_keyHash a)" "\<forall>q \<in> set (sd_receipts (sm_db s)). sv_typedHash q \<noteq> nr_typedHash r"
      and db: "sd_receipts db = sd_receipts (sm_db s) @ [row]" "sd_pay db = linkReceipt pid (nr_typedHash r) p"
        "sd_usage db = count_usage (ai_keyHash a) (pc_priceUnits (sn_pay env)) (sd_usage (sm_db s))" "executions_ok (sd_executions db)"
    have v: "sy_db (pay_view s) = sd_pay (sm_db s)" by (simp add: pay_view_def)
    note cons = consume_paid [OF con pay v]
    let ?q = "(pay_view s)\<lparr>sy_db := p\<rparr>"
    have "pay_step ?q (?q\<lparr>sy_db := linkReceipt pid (nr_typedHash r) (sy_db ?q)\<rparr>)" by (rule step_receipt)
    then have link: "pay_ok (pay_view ?t)" "payments_keep ?q (pay_view ?t)"
      using payments_step [OF cons(1)] by (simp_all add: view db(2))
    have keep: "payments_keep (pay_view s) (pay_view ?t)" by (rule payments_keep_trans [OF cons(2) link(2)])
    have kept: "paid_for (sm_db s) x \<Longrightarrow> paid_for db x" for x
      by (rule paid_for_kept [OF keep]) (simp_all add: pay_view_def)
    from cons(3) obtain q where q: "q \<in> set (pt_payments p)" "py_id q = pid" "py_keyHash q = ai_keyHash a" "py_status q = ''consumed''" by blast
    then have "paid_for (sm_db s\<lparr>sd_pay := p\<rparr>) (pid, ai_keyHash a, nr_typedHash r)" by (auto simp: paid_for_def)
    then have "paid_for db (pid, ai_keyHash a, nr_typedHash r)"
      by (rule paid_for_kept [OF link(2), rotated 2]) (simp_all add: pay_view_def)
    from ledger_grows [OF led kept row db(1) this cons(4)]
    have "ledger_exact (sm_published s @ publication a pid r calls) db" by (simp add: publication_def c)
    moreover have "usage_exact (pc_priceUnits (sn_pay env)) (sm_published s @ publication a pid r calls) (sd_usage db)"
      using usage_counted [OF use, of pid "ai_keyHash a" "nr_typedHash r"] by (simp add: publication_def c db(3))
    ultimately show ?thesis using link(1) db(4) tickets by (simp add: service_ok_def)
  qed
qed

lemma publish_executions:
  assumes "publish env w input a pid claim answer db = (Inr (r, db'), calls)" and "executions_ok (sd_executions db)"
  shows "ex_paymentId ` set (sd_executions db) \<subseteq> ex_paymentId ` set (sd_executions db')"
  using publish_Inr [OF assms] by auto

text \<open>A ticket is used up: its payment moves from the tickets to the calls, or leaves both.\<close>

lemma ticket_used:
  assumes "tickets_exact (pre @ (input, a, pid, c) # post) calls rows" and "new = [] \<or> new = [ProviderCall pid]"
    and "ex_paymentId ` set rows \<subseteq> ex_paymentId ` set rows'"
  shows "tickets_exact (pre @ post) (calls @ new) rows'"
proof -
  have split: "ticket_payments (pre @ (input, a, pid, c) # post) = ticket_payments pre @ pid # ticket_payments post"
    "ticket_payments (pre @ post) = ticket_payments pre @ ticket_payments post" by (simp_all add: ticket_payments_def)
  from assms(1) have d: "distinct (ticket_payments pre @ pid # ticket_payments post @ called calls)"
    and sub: "set (ticket_payments pre @ pid # ticket_payments post @ called calls) \<subseteq> ex_paymentId ` set rows"
    by (simp_all add: tickets_exact_def split)
  have "called new = [] \<or> called new = [pid]" using assms(2) by auto
  with d have "distinct (ticket_payments pre @ ticket_payments post @ called calls @ called new)" by (elim disjE) auto
  moreover have "set (ticket_payments pre @ ticket_payments post @ called calls @ called new) \<subseteq> ex_paymentId ` set rows'"
    using \<open>called new = [] \<or> called new = [pid]\<close> subset_trans [OF sub assms(3)] by auto
  ultimately show ?thesis by (simp add: tickets_exact_def split)
qed

lemma claim_tx_Inr:
  assumes "claim_tx env w fresh input a pid db = Inr (Dispatched c, db')"
  obtains rows where "db' = db\<lparr>sd_executions := rows\<rparr>"
    "claimInferenceExecution (execution_binding_of input a pid) fresh (sd_executions db) = Inr (c, rows)"
  using assms by (auto simp: claim_tx_def res_simps split: option.splits)

lemma claimed_ok:
  assumes ok: "service_ok env s" and run: "claim_tx env w fresh input a pid (sm_db s) = Inr (Dispatched c, db)" and echo: "\<not> sn_echo env"
  shows "service_ok env (s\<lparr>sm_db := db, sm_tickets := sm_tickets s @ [(input, a, pid, c)]\<rparr>)"
proof -
  from run obtain rows where db: "db = sm_db s\<lparr>sd_executions := rows\<rparr>"
    and claim: "claimInferenceExecution (execution_binding_of input a pid) fresh (sd_executions (sm_db s)) = Inr (c, rows)" by (rule claim_tx_Inr)
  have ex: "executions_ok (sd_executions (sm_db s))" and t: "tickets_exact (sm_tickets s) (sm_calls s) (sd_executions (sm_db s))"
    using ok echo by (simp_all add: service_ok_def)
  from claim have rows: "rows = sd_executions (sm_db s) @ [claim_row (execution_binding_of input a pid) fresh]"
    "\<forall>r \<in> set (sd_executions (sm_db s)). ex_paymentId r \<noteq> pid"
    by (auto simp: claim_Inr claim_conflict_def execution_binding_of_def)
  have "pid \<notin> set (ticket_payments (sm_tickets s) @ called (sm_calls s))" using t rows(2) unfolding tickets_exact_def by fast
  then have "tickets_exact (sm_tickets s @ [(input, a, pid, c)]) (sm_calls s) rows"
    using t unfolding rows(1) by (auto simp: tickets_exact_def ticket_payments_def claim_row_def execution_binding_of_def)
  moreover have "executions_ok rows" by (rule claim_preserves [OF ex claim])
  moreover have "ledger_exact (sm_published s) db" using ok by (simp add: db service_ok_def ledger_exact_def paid_for_def)
  ultimately show ?thesis using ok by (simp add: service_ok_def db pay_view_def)
qed

lemma service_step_ok:
  assumes step: "service_step env s t" and ok: "service_ok env s"
  shows "service_ok env t"
  using step ok
proof (induction rule: service_step.induct)
  case (paid s p)
  from paid(2) have pay: "pay_ok (pay_view s)" by (simp add: service_ok_def)
  note p = payments_step [OF pay paid(1)]
  let ?db = "sm_db s\<lparr>sd_pay := sy_db p\<rparr>"
  have "paid_for (sm_db s) x \<Longrightarrow> paid_for ?db x" for x by (rule paid_for_kept [OF p(2)]) (simp_all add: pay_view_def)
  then have "ledger_exact (sm_published s) ?db" using paid(2) by (simp add: service_ok_def ledger_exact_def)
  moreover have "pay_view (s\<lparr>sm_db := ?db, sm_claims := sy_claims p, sm_day := sy_day p\<rparr>) = p" by (simp add: pay_view_def)
  ultimately show ?case using p(1) paid(2) by (simp add: service_ok_def)
next
  case (managed s t m x g)
  then show ?case by (simp add: service_ok_def pay_view_def ledger_exact_def paid_for_def)
next
  case (anchored s f)
  then show ?case by (simp add: service_ok_def pay_view_def ledger_exact_def paid_for_def comp_def)
next
  case (claimed w fresh input a paymentId s c db)
  then show ?case by (intro claimed_ok)
next
  case (published s pre input a paymentId c post w answer r db calls)
  from published(3) have ex: "executions_ok (sd_executions (sm_db s))" by (simp add: service_ok_def)
  show ?case
  proof (rule publish_ok [OF published(3,2)])
    assume "\<not> sn_echo env"
    with published(1,3) have "tickets_exact (pre @ (input, a, paymentId, c) # post) (sm_calls s) (sd_executions (sm_db s))"
      by (simp add: service_ok_def)
    then show "tickets_exact (pre @ post) (sm_calls s @ calls) (sd_executions db)"
      using publish_calls [OF published(2)] publish_executions [OF published(2) ex] by (rule ticket_used)
  qed
next
  case (failed s pre input a paymentId c post w answer e calls)
  have "tickets_exact (pre @ post) (sm_calls s @ calls) (sd_executions (sm_db s))" if "\<not> sn_echo env"
  proof -
    from that failed(1,3) have "tickets_exact (pre @ (input, a, paymentId, c) # post) (sm_calls s) (sd_executions (sm_db s))"
      by (simp add: service_ok_def)
    then show ?thesis using publish_calls [OF failed(2)] by (rule ticket_used) simp
  qed
  with failed(3) show ?case by (simp add: service_ok_def pay_view_def)
next
  case (echoed w input a paymentId answer s r db calls)
  have "service_ok env (s\<lparr>sm_db := db, sm_tickets := sm_tickets s, sm_calls := sm_calls s @ calls, sm_published := sm_published s @ publication a paymentId r calls\<rparr>)"
    by (rule publish_ok [OF echoed(3,2)]) (simp add: echoed(1))
  moreover have "s\<lparr>sm_db := db, sm_tickets := sm_tickets s, sm_calls := sm_calls s @ calls, sm_published := sm_published s @ publication a paymentId r calls\<rparr>
      = s\<lparr>sm_db := db, sm_calls := sm_calls s @ calls, sm_published := sm_published s @ publication a paymentId r calls\<rparr>" by simp
  ultimately show ?case by simp
next
  case (echo_failed w input a paymentId answer s e calls)
  then show ?case by (simp add: service_ok_def pay_view_def)
qed

interpretation service: invariant_system service_start "service_step env" "service_ok env" for env
proof unfold_locales
  show "service_ok env s" if "service_start s" for s
  proof -
    have "pay_ok (pay_view s)" using that payments.inv_start by (simp add: service_start_def)
    with that show ?thesis
      by (simp add: service_start_def service_ok_def executions_ok_def ledger_exact_def usage_exact_def tickets_exact_def ticket_payments_def)
  qed
  show "service_ok env s \<Longrightarrow> service_step env s t \<Longrightarrow> service_ok env t" for s t by (rule service_step_ok)
qed

section \<open>A worked history\<close>

text \<open>The settled payment of the demo in \<open>Payments\<close> buys one answer.\<close>

definition demo_cvm :: cvm where
  "demo_cvm = \<lparr>cv_modelHash = ''0xa'', cv_codeHash = ''0xb'', cv_sessionSecret = (\<lambda>_. []), cv_decrypt = (\<lambda>_ blob. Some blob),
     cv_encrypt = (\<lambda>_ text. text), cv_openMemory = Inr, cv_sealMemory = (\<lambda>m. m), cv_releaseKeys = (\<lambda>_ _. Inr ())\<rparr>"

definition demo_service :: service_env where
  "demo_service = \<lparr>sn_crypto = demo_crypto, sn_typed = demo_typed, sn_cvm = demo_cvm, sn_pay = demo_pay_config, sn_verifier = ''0xv'',
     sn_echo = False, sn_production = False, sn_marketplace = False, sn_localBootstrap = False\<rparr>"

definition demo_tcb :: tcb_state where
  "demo_tcb = \<lparr>st_record = demo_record demo_policy, st_policy = demo_policy, st_status = ''active'', st_binding = ''legacy'',
     st_scope = None, st_activatedAt = None, st_createdAt = 10\<rparr>"

definition demo_outside :: service_world where
  "demo_outside = \<lparr>sw_now = 30, sw_key = Inr ''k'', sw_tcb = Inr demo_tcb, sw_approval = Inl (PlainError ''''), sw_onChain = Inr True,
     sw_wiring = Inr (), sw_proofs = (\<lambda>_. Inr ())\<rparr>"

definition demo_admitted :: admitted where
  "demo_admitted = \<lparr>ai_keyHash = ''k'', ai_state = demo_tcb,
     ai_session = \<lparr>ss_id = ''s'', ss_apiKeyHash = ''k'', ss_attRef = '''', ss_quote = None, ss_createdAt = 10, ss_expiresAt = 40\<rparr>,
     ai_agent = None, ai_secret = [], ai_plaintext = ''q'', ai_requestHash = ''h''\<rparr>"

definition demo_input :: infer_input where
  "demo_input = \<lparr>ii_sessionId = ''s'', ii_blob = ''b'', ii_paymentId = Some ''p'', ii_idempotencyKey = None, ii_agentId = None\<rparr>"

definition demo_answer :: provider_answer where
  "demo_answer = \<lparr>pv_receipt = demo_receipt, pv_sig = ''s'', pv_output = ''o'', pv_evidence = None\<rparr>"

definition demo_listing :: model_listing where
  "demo_listing = \<lparr>ml_modelHash = ''0xa'', ml_codeHash = ''0xb'', ml_state = \<lparr>ls_approved = True, ls_revoked = False\<rparr>, ml_listingId = None\<rparr>"

definition demo_db :: "pay_state \<Rightarrow> service_db" where
  "demo_db p = \<lparr>sd_pay = p, sd_receipts = [], sd_usage = [], sd_idempotency = [], sd_executions = [], sd_tcb = [demo_first],
     sd_models = [demo_listing], sd_sessions = [], sd_agents = []\<rparr>"

definition demo_service_sys :: "pay_sys \<Rightarrow> service_sys" where
  "demo_service_sys p = \<lparr>sm_db = demo_db (sy_db p), sm_claims = sy_claims p, sm_day = sy_day p, sm_tickets = [], sm_calls = [], sm_published = []\<rparr>"

lemma demo_pay_view [simp]: "pay_view (demo_service_sys p) = p"
  by (cases p) (simp add: pay_view_def demo_service_sys_def demo_db_def)

lemma demo_service_pay:
  assumes "reachable pay_start pay_step p"
  shows "reachable service_start (service_step env) (demo_service_sys p)"
  using assms
proof (induction rule: reachable.induct)
  case (reachable_start p)
  then show ?case by (intro reachable.reachable_start) (simp add: service_start_def, simp add: demo_service_sys_def demo_db_def)
next
  case (reachable_step p q)
  from reachable_step(2) have "pay_step (pay_view (demo_service_sys p)) q" by simp
  from service_step.paid [OF this, of env] have "service_step env (demo_service_sys p) (demo_service_sys q)"
    by (simp add: demo_service_sys_def demo_db_def)
  with reachable_step(3) show ?case by (rule reachable.reachable_step)
qed

lemma demo_serving:
  "current_tcb demo_service (policy_hash demo_admitted) (demo_db p) = Inr ()"
  "assertServingApproved demo_service demo_outside demo_tcb (demo_db p) = Inr ()"
proof -
  obtain s where s: "policyState demo_crypto demo_first = Inr s" using demo_states(1) by blast
  then have "st_record s = demo_record demo_policy" by (auto simp: policyState_def demo_policyOf demo_records)
  with s show "current_tcb demo_service (policy_hash demo_admitted) (demo_db p) = Inr ()"
    by (simp add: current_tcb_def assertCurrentTcb_def demo_db_def demo_service_def demo_activeRow policy_hash_def demo_admitted_def demo_tcb_def)
  show "assertServingApproved demo_service demo_outside demo_tcb (demo_db p) = Inr ()"
    by (simp add: assertServingApproved_def demo_tcb_def demo_service_def serving_row_def demo_db_def demo_listing_def demo_cvm_def modelServingAllowed_def)
qed

lemmas demo_consume = consumePayment_def payment_by_id_def demo_defs

definition demo_claimed_db :: service_db where
  "demo_claimed_db = (demo_db (sy_db demo_4))\<lparr>sd_executions := [claim_row (execution_binding_of demo_input demo_admitted ''p'') ''c'']\<rparr>"

lemma demo_claim_tx:
  "claim_tx demo_service demo_outside ''c'' demo_input demo_admitted ''p'' (demo_db (sy_db demo_4)) = Inr (Dispatched ''c'', demo_claimed_db)"
proof -
  have "consumePayment (sn_pay demo_service) (sw_proofs demo_outside) ''k'' ''p'' 4 ''h'' True (sy_db demo_4) = Inr ((), sy_db demo_4)"
    by (simp add: demo_consume demo_service_def demo_outside_def)
  moreover have "replay_of demo_input demo_admitted db = Inr None" for db by (simp add: replay_of_def demo_input_def given_def)
  moreover have "ai_state demo_admitted = demo_tcb" "ai_keyHash demo_admitted = ''k''" "ai_requestHash demo_admitted = ''h''" "pc_priceUnits (sn_pay demo_service) = 4"
    by (simp_all add: demo_admitted_def demo_service_def demo_pay_config_def)
  moreover have "sd_pay (demo_db p) = p" "sd_executions (demo_db p) = []" for p by (simp_all add: demo_db_def)
  ultimately show ?thesis
    by (simp add: claim_tx_def demo_serving demo_claimed_db_def claimInferenceExecution_def claim_conflict_def)
qed

lemma demo_publish:
  obtains r db where "publish demo_service demo_outside demo_input demo_admitted ''p'' (Some ''c'') (Inr demo_answer) demo_claimed_db = (Inr (r, db), [ProviderCall ''p''])"
    "sd_receipts db \<noteq> []" "sd_usage db = [\<lparr>us_keyHash = ''k'', us_calls = 1, us_usdcUnits = 4\<rparr>]"
    "sd_pay db = (sy_db demo_4)\<lparr>pt_payments := [demo_settled\<lparr>py_status := ''consumed'', py_receiptHash := Some (nr_typedHash r)\<rparr>]\<rparr>"
    "map (\<lambda>r. (sv_keyHash r, sv_typedHash r)) (sd_receipts db) = [(Some ''k'', nr_typedHash r)]"
proof -
  let ?p = "(sy_db demo_4)\<lparr>pt_payments := [demo_settled\<lparr>py_status := ''consumed''\<rparr>]\<rparr>"
  have con: "consumePayment (sn_pay demo_service) (sw_proofs demo_outside) ''k'' ''p'' 4 ''h'' False (sy_db demo_4) = Inr ((), ?p)"
    by (simp add: demo_consume demo_service_def demo_outside_def update_payments_def)
  obtain h where h: "receiptTypedHash demo_typed demo_receipt 31337 ''0xv'' = Inr h"
    by (auto simp: receiptTypedHash_def receipt_typed_data_def receiptDomain_def encode_message_def receipt_types_def RECEIPT_TYPES_def
        receipt_field_def demo_receipt_def)
  define d where "d = (demo_db (sy_db demo_4))\<lparr>sd_pay := ?p, sd_executions := sd_executions demo_claimed_db\<rparr>"
  have none: "replay_of demo_input demo_admitted db = Inr None" "insert_idempotency demo_input demo_admitted r db = Inr db" for r db
    by (simp_all add: replay_of_def insert_idempotency_def demo_input_def given_def)
  have serve: "current_tcb demo_service (policy_hash demo_admitted) d = Inr ()" "assertServingApproved demo_service demo_outside demo_tcb d = Inr ()"
    using demo_serving [of "sy_db demo_4"] by (simp_all add: d_def current_tcb_def assertServingApproved_def serving_row_def)
  have a: "ai_state demo_admitted = demo_tcb" "ai_keyHash demo_admitted = ''k''" "ai_requestHash demo_admitted = ''h''" "pc_priceUnits (sn_pay demo_service) = 4"
    "pc_chainId (sn_pay demo_service) = 31337" "sn_production demo_service = False" "sn_typed demo_service = demo_typed" "sn_verifier demo_service = ''0xv''"
    "pv_receipt demo_answer = demo_receipt" "ai_agent demo_admitted = None"
    by (simp_all add: demo_admitted_def demo_service_def demo_pay_config_def demo_answer_def)
  have old: "sd_receipts d = []" "sd_usage d = []" "sd_pay d = ?p" "demo_claimed_db\<lparr>sd_pay := ?p\<rparr> = d"
    "sd_executions d = [claim_row (execution_binding_of demo_input demo_admitted ''p'') ''c'']"
    by (simp_all add: d_def demo_db_def demo_claimed_db_def)
  have comp: "\<exists>rows. completeInferenceExecution (execution_binding_of demo_input demo_admitted ''p'') ''c'' h 30
      [claim_row (execution_binding_of demo_input demo_admitted ''p'') ''c''] = Inr ((), rows)"
    by (simp add: completeInferenceExecution_def matching_rows_def completion_match_def claim_row_def)
  then obtain rows where rows: "completeInferenceExecution (execution_binding_of demo_input demo_admitted ''p'') ''c'' h 30
      [claim_row (execution_binding_of demo_input demo_admitted ''p'') ''c''] = Inr ((), rows)" ..
  have now: "sw_now demo_outside = 30" by (simp add: demo_outside_def)
  have "\<exists>r db. record_answer demo_service demo_outside demo_input demo_admitted ''p'' (Some ''c'') demo_answer d = Inr (r, db)
      \<and> nr_typedHash r = h \<and> sd_usage db = [\<lparr>us_keyHash = ''k'', us_calls = 1, us_usdcUnits = 4\<rparr>]
      \<and> sd_pay db = linkReceipt ''p'' h ?p \<and> map (\<lambda>r. (sv_keyHash r, sv_typedHash r)) (sd_receipts db) = [(Some ''k'', h)]"
    by (simp add: record_answer_def serve a h insert_receipt_def old none complete_claim_def rows now count_usage_def Let_def)
  then obtain r db where rec: "record_answer demo_service demo_outside demo_input demo_admitted ''p'' (Some ''c'') demo_answer d = Inr (r, db)"
    "nr_typedHash r = h" "sd_usage db = [\<lparr>us_keyHash = ''k'', us_calls = 1, us_usdcUnits = 4\<rparr>]"
    "sd_pay db = linkReceipt ''p'' h ?p" "map (\<lambda>r. (sv_keyHash r, sv_typedHash r)) (sd_receipts db) = [(Some ''k'', h)]" by (elim exE conjE) (rule that)
  have "sd_pay demo_claimed_db = sy_db demo_4" by (simp add: demo_claimed_db_def demo_db_def)
  then have pub: "publish demo_service demo_outside demo_input demo_admitted ''p'' (Some ''c'') (Inr demo_answer) demo_claimed_db = (Inr (r, db), [ProviderCall ''p''])"
    by (simp add: publish_def none a con old rec(1))
  have "linkReceipt ''p'' h ?p = (sy_db demo_4)\<lparr>pt_payments := [demo_settled\<lparr>py_status := ''consumed'', py_receiptHash := Some h\<rparr>]\<rparr>"
    by (simp add: linkReceipt_def update_payments_def demo_defs)
  with rec pub show ?thesis by (intro that [of r db]) auto
qed

definition demo_dispatched :: service_sys where
  "demo_dispatched = (demo_service_sys demo_4)\<lparr>sm_db := demo_claimed_db, sm_tickets := [(demo_input, demo_admitted, ''p'', ''c'')]\<rparr>"

lemma demo_dispatched_reachable: "reachable service_start (service_step demo_service) demo_dispatched"
proof -
  have "sm_db (demo_service_sys demo_4) = demo_db (sy_db demo_4)" "sm_tickets (demo_service_sys demo_4) = []"
    by (simp_all add: demo_service_sys_def)
  then have "service_step demo_service (demo_service_sys demo_4) demo_dispatched"
    using service_step.claimed [where s = "demo_service_sys demo_4", unfolded \<open>sm_db (demo_service_sys demo_4) = demo_db (sy_db demo_4)\<close>, OF demo_claim_tx]
    by (simp add: demo_dispatched_def demo_service_def)
  with demo_service_pay [OF demo_pay_reachable(4)] show ?thesis by (rule reachable_step)
qed

lemma demo_published_reachable:
  obtains s where "reachable service_start (service_step demo_service) s" "sm_calls s = [ProviderCall ''p'']"
    "sd_usage (sm_db s) = [\<lparr>us_keyHash = ''k'', us_calls = 1, us_usdcUnits = 4\<rparr>]"
    "\<exists>h. map (\<lambda>r. (sv_keyHash r, sv_typedHash r)) (sd_receipts (sm_db s)) = [(Some ''k'', h)]"
proof -
  obtain r db where pub: "publish demo_service demo_outside demo_input demo_admitted ''p'' (Some ''c'') (Inr demo_answer) demo_claimed_db = (Inr (r, db), [ProviderCall ''p''])"
    and db: "sd_usage db = [\<lparr>us_keyHash = ''k'', us_calls = 1, us_usdcUnits = 4\<rparr>]"
    "map (\<lambda>r. (sv_keyHash r, sv_typedHash r)) (sd_receipts db) = [(Some ''k'', nr_typedHash r)]"
    by (rule demo_publish)
  let ?s = "demo_dispatched\<lparr>sm_db := db, sm_tickets := [] @ [], sm_calls := sm_calls demo_dispatched @ [ProviderCall ''p''],
      sm_published := sm_published demo_dispatched @ publication demo_admitted ''p'' r [ProviderCall ''p'']\<rparr>"
  have "sm_tickets demo_dispatched = [] @ (demo_input, demo_admitted, ''p'', ''c'') # []" "sm_db demo_dispatched = demo_claimed_db"
    by (simp_all add: demo_dispatched_def)
  then have "service_step demo_service demo_dispatched ?s" using pub by (intro service_step.published) simp_all
  with demo_dispatched_reachable have "reachable service_start (service_step demo_service) ?s" by (rule reachable_step)
  moreover have "sm_calls demo_dispatched = []" by (simp add: demo_dispatched_def demo_service_sys_def)
  ultimately show ?thesis using db by (intro that [of ?s]) simp_all
qed

section \<open>Properties\<close>

lemma service_ledger:
  assumes "reachable service_start (service_step env) s"
  shows "ledger_exact (sm_published s) (sm_db s)" and "usage_exact (pc_priceUnits (sn_pay env)) (sm_published s) (sd_usage (sm_db s))"
    and "\<not> sn_echo env \<Longrightarrow> tickets_exact (sm_tickets s) (sm_calls s) (sd_executions (sm_db s))"
  using service.inv_reachable [OF assms] by (simp_all add: service_ok_def)

text \<open>Claim C8. Every receipt has a consumed payment of its owner to itself: in every reachable state of the
  service, however requests, settlements, sweeps, crashes, rotations and anchoring interleave, the receipts
  can be matched one to one with consumed payments of the keys they belong to, so no payment ever buys two
  receipts and no receipt exists unpaid.\<close>

theorem one_receipt_per_payment:
  assumes "reachable service_start (service_step env) s"
  shows "\<exists>payment_of. inj_on payment_of (sv_typedHash ` set (sd_receipts (sm_db s)))
    \<and> distinct (map sv_typedHash (sd_receipts (sm_db s)))
    \<and> (\<forall>r \<in> set (sd_receipts (sm_db s)). \<exists>p \<in> set (pt_payments (sd_pay (sm_db s))).
         py_id p = payment_of (sv_typedHash r) \<and> Some (py_keyHash p) = sv_keyHash r \<and> py_status p = ''consumed'')"
proof -
  let ?pub = "sm_published s"
  have ok: "map (\<lambda>r. (sv_keyHash r, sv_typedHash r)) (sd_receipts (sm_db s)) = map (\<lambda>x. (Some (fst (snd x)), snd (snd x))) ?pub"
    "distinct (map fst ?pub)" "distinct (map (\<lambda>x. snd (snd x)) ?pub)" "\<forall>x \<in> set ?pub. paid_for (sm_db s) x"
    using service_ledger(1) [OF assms] by (simp_all add: ledger_exact_def)
  have hashes: "map sv_typedHash (sd_receipts (sm_db s)) = map (\<lambda>x. snd (snd x)) ?pub"
    using arg_cong [OF ok(1), of "map snd"] by (simp add: comp_def)
  define payment_of where "payment_of h = the (map_of (map (\<lambda>x. (snd (snd x), fst x)) ?pub) h)" for h
  have of: "payment_of (snd (snd x)) = fst x" if "x \<in> set ?pub" for x
    using that ok(3) by (auto simp: payment_of_def comp_def intro!: map_of_is_SomeI arg_cong [where f = the and y = "Some (fst x)", simplified])
  have img: "sv_typedHash ` set (sd_receipts (sm_db s)) = (\<lambda>x. snd (snd x)) ` set ?pub"
    using arg_cong [OF hashes, of set] by simp
  have "inj_on payment_of (sv_typedHash ` set (sd_receipts (sm_db s)))"
    unfolding img using ok(2) of by (auto simp: inj_on_def distinct_map)
  moreover have "distinct (map sv_typedHash (sd_receipts (sm_db s)))" using hashes ok(3) by simp
  moreover have "\<exists>p \<in> set (pt_payments (sd_pay (sm_db s))). py_id p = payment_of (sv_typedHash r) \<and> Some (py_keyHash p) = sv_keyHash r \<and> py_status p = ''consumed''"
    if "r \<in> set (sd_receipts (sm_db s))" for r
  proof -
    have "(sv_keyHash r, sv_typedHash r) \<in> set (map (\<lambda>r. (sv_keyHash r, sv_typedHash r)) (sd_receipts (sm_db s)))" using that by simp
    then obtain x where x: "x \<in> set ?pub" "sv_keyHash r = Some (fst (snd x))" "sv_typedHash r = snd (snd x)" unfolding ok(1) by auto
    with ok(4) of show ?thesis by (fastforce simp: paid_for_def)
  qed
  ultimately show ?thesis by blast
qed

theorem one_receipt_per_payment_witness:
  "\<exists>s. reachable service_start (service_step demo_service) s \<and> sd_receipts (sm_db s) \<noteq> []
     \<and> (\<exists>p \<in> set (pt_payments (sd_pay (sm_db s))). py_keyHash p = ''k'' \<and> py_status p = ''consumed'')"
proof -
  obtain s where s: "reachable service_start (service_step demo_service) s"
    "\<exists>h. map (\<lambda>r. (sv_keyHash r, sv_typedHash r)) (sd_receipts (sm_db s)) = [(Some ''k'', h)]" by (rule demo_published_reachable)
  then obtain r where "r \<in> set (sd_receipts (sm_db s))" "sv_keyHash r = Some ''k''" by (cases "sd_receipts (sm_db s)") auto
  with s(1) one_receipt_per_payment [OF s(1)] show ?thesis by (metis option.inject empty_iff empty_set)
qed

text \<open>Claim C9. The usage of a key counts exactly its receipts: in every reachable state a key has a usage row
  as soon as it has a receipt, the row's call count is the number of receipts of the key, and its units are
  that many times the price.\<close>

theorem usage_counts_receipts:
  assumes "reachable service_start (service_step env) s"
  shows "unique_key us_keyHash (sd_usage (sm_db s))
    \<and> (\<forall>u \<in> set (sd_usage (sm_db s)). us_usdcUnits u = pc_priceUnits (sn_pay env) * us_calls u
         \<and> us_calls u = int (length (filter (\<lambda>r. sv_keyHash r = Some (us_keyHash u)) (sd_receipts (sm_db s)))))
    \<and> (\<forall>r \<in> set (sd_receipts (sm_db s)). \<exists>u \<in> set (sd_usage (sm_db s)). sv_keyHash r = Some (us_keyHash u))"
proof -
  let ?pub = "sm_published s"
  have ok: "map (\<lambda>r. (sv_keyHash r, sv_typedHash r)) (sd_receipts (sm_db s)) = map (\<lambda>x. (Some (fst (snd x)), snd (snd x))) ?pub"
    using service_ledger(1) [OF assms] by (simp add: ledger_exact_def)
  have keys: "map sv_keyHash (sd_receipts (sm_db s)) = map (\<lambda>x. Some (fst (snd x))) ?pub"
    using arg_cong [OF ok, of "map fst"] by (simp add: comp_def)
  have "length (filter (\<lambda>r. sv_keyHash r = k) (sd_receipts (sm_db s))) = length (filter (\<lambda>x. Some (fst (snd x)) = k) ?pub)" for k
    using arg_cong [OF keys, of "\<lambda>xs. length (filter (\<lambda>q. q = k) xs)"] by (simp add: filter_map comp_def)
  then have count: "length (filter (\<lambda>r. sv_keyHash r = Some k) (sd_receipts (sm_db s))) = length (filter (\<lambda>x. fst (snd x) = k) ?pub)" for k by simp
  have row: "\<exists>u \<in> set (sd_usage (sm_db s)). sv_keyHash r = Some (us_keyHash u)" if "r \<in> set (sd_receipts (sm_db s))" for r
  proof -
    have "sv_keyHash r \<in> set (map sv_keyHash (sd_receipts (sm_db s)))" using that by simp
    then obtain x where "x \<in> set ?pub" "sv_keyHash r = Some (fst (snd x))" unfolding keys by auto
    with service_ledger(2) [OF assms] show ?thesis unfolding usage_exact_def by metis
  qed
  show ?thesis
  proof (intro conjI ballI)
    show "unique_key us_keyHash (sd_usage (sm_db s))" using service_ledger(2) [OF assms] by (simp add: usage_exact_def)
  next
    fix u assume "u \<in> set (sd_usage (sm_db s))"
    then have "us_calls u = int (length (filter (\<lambda>x. fst (snd x) = us_keyHash u) ?pub)) \<and> us_usdcUnits u = pc_priceUnits (sn_pay env) * us_calls u"
      using service_ledger(2) [OF assms] unfolding usage_exact_def by blast
    then show "us_usdcUnits u = pc_priceUnits (sn_pay env) * us_calls u"
      and "us_calls u = int (length (filter (\<lambda>r. sv_keyHash r = Some (us_keyHash u)) (sd_receipts (sm_db s))))"
      unfolding count by simp_all
  qed (rule row)
qed

theorem usage_counts_receipts_witness:
  "\<exists>s. reachable service_start (service_step demo_service) s \<and> sd_usage (sm_db s) = [\<lparr>us_keyHash = ''k'', us_calls = 1, us_usdcUnits = 4\<rparr>]
     \<and> length (filter (\<lambda>r. sv_keyHash r = Some ''k'') (sd_receipts (sm_db s))) = 1"
proof -
  obtain s where s: "reachable service_start (service_step demo_service) s"
    "sd_usage (sm_db s) = [\<lparr>us_keyHash = ''k'', us_calls = 1, us_usdcUnits = 4\<rparr>]" by (rule demo_published_reachable)
  with usage_counts_receipts [OF s(1)] show ?thesis by auto
qed

text \<open>Claim C10. Outside the echo backend the provider is called at most once for a payment, whatever the
  client retries, processes crash, or answers are lost: the dispatch claim is permanent and committed before
  the call.\<close>

theorem provider_called_once:
  assumes "reachable service_start (service_step env) s" and "\<not> sn_echo env"
  shows "distinct (called (sm_calls s)) \<and> (\<forall>x \<in> set (sm_tickets s). fst (snd (snd x)) \<notin> set (called (sm_calls s)))
    \<and> set (called (sm_calls s)) \<subseteq> ex_paymentId ` set (sd_executions (sm_db s))"
proof -
  have t: "distinct (ticket_payments (sm_tickets s) @ called (sm_calls s))"
    "set (ticket_payments (sm_tickets s) @ called (sm_calls s)) \<subseteq> ex_paymentId ` set (sd_executions (sm_db s))"
    using service_ledger(3) [OF assms] by (simp_all add: tickets_exact_def)
  have "fst (snd (snd x)) \<in> set (ticket_payments (sm_tickets s))" if "x \<in> set (sm_tickets s)" for x
    using that by (auto simp: ticket_payments_def split: prod.splits intro!: image_eqI [of _ _ x])
  then have "fst (snd (snd x)) \<notin> set (called (sm_calls s))" if "x \<in> set (sm_tickets s)" for x
    using t(1) that unfolding distinct_append by blast
  with t show ?thesis by simp
qed

theorem provider_called_once_witness:
  "\<exists>s. reachable service_start (service_step demo_service) s \<and> called (sm_calls s) = [''p'']
     \<and> ''p'' \<in> ex_paymentId ` set (sd_executions (sm_db s))"
proof -
  obtain s where s: "reachable service_start (service_step demo_service) s" "sm_calls s = [ProviderCall ''p'']" by (rule demo_published_reachable)
  have "\<not> sn_echo demo_service" by (simp add: demo_service_def)
  from provider_called_once [OF s(1) this] s show ?thesis by auto
qed

end
