(* ===== verification/Wallet_Limiter.thy ===== *)
theory Wallet_Limiter
  imports Core_Errors
begin

text \<open>
  The login limiters of \<open>api/src/wallet-auth.ts\<close>: the in-process \<open>MemoryWalletLoginLimiter\<close> and the
  Lua script of \<open>RedisWalletLoginLimiter\<close>. Both implement one contract, the locale
  \<open>window_limiter\<close>: a fixed window of 60 s per key, opened by the first admitted call. What bounds
  the memory of the first one is eviction of the least recently used key; \<open>slack\<close> is the number of
  calls under other keys that a counter is guaranteed to survive.
\<close>

section \<open>The fixed window\<close>

definition limit_window_ms :: int where
  "limit_window_ms = 60000"

record wallet_quota =
  wq_key :: string
  wq_limit :: int

record window =
  wi_count :: int
  wi_reset :: int

text \<open>The window a call at \<open>now\<close> falls into: the stored one while it lasts, else a new empty one.\<close>

definition current_window :: "int \<Rightarrow> window option \<Rightarrow> window" where
  "current_window now previous =
     (case previous of
        Some w \<Rightarrow> if wi_reset w > now then w else \<lparr>wi_count = 0, wi_reset = now + limit_window_ms\<rparr>
      | None \<Rightarrow> \<lparr>wi_count = 0, wi_reset = now + limit_window_ms\<rparr>)"

definition counted :: "window \<Rightarrow> window" where
  "counted w = w\<lparr>wi_count := wi_count w + 1\<rparr>"

section \<open>The in-process limiter\<close>

text \<open>A \<open>Map\<close> keeps insertion order: \<open>delete\<close> then \<open>set\<close> moves a key to the end.\<close>

definition js_delete :: "'k \<Rightarrow> ('k \<times> 'v) list \<Rightarrow> ('k \<times> 'v) list" where
  "js_delete k entries = filter (\<lambda>e. fst e \<noteq> k) entries"

fun js_set :: "'k \<Rightarrow> 'v \<Rightarrow> ('k \<times> 'v) list \<Rightarrow> ('k \<times> 'v) list" where
  "js_set k v [] = [(k, v)]"
| "js_set k v (e # rest) = (if fst e = k then (k, v) # rest else e # js_set k v rest)"

record memory_limiter =
  ml_capacity :: nat
  ml_entries :: "(string \<times> window) list"

definition new_memory_limiter :: "nat \<Rightarrow> enclave_error + memory_limiter" where
  "new_memory_limiter capacity =
     (if capacity < 1 \<or> capacity > 1000000 then Inl (PlainError ''Invalid wallet login limiter capacity'')
      else Inr \<lparr>ml_capacity = capacity, ml_entries = []\<rparr>)"

definition evict_oldest :: "string \<Rightarrow> memory_limiter \<Rightarrow> memory_limiter" where
  "evict_oldest key m =
     (if map_of (ml_entries m) key = None \<and> length (ml_entries m) \<ge> ml_capacity m
      then (case ml_entries m of
              [] \<Rightarrow> m
            | (oldest, _) # _ \<Rightarrow> m\<lparr>ml_entries := js_delete oldest (ml_entries m)\<rparr>)
      else m)"

definition memory_take :: "int \<Rightarrow> wallet_quota \<Rightarrow> memory_limiter \<Rightarrow> int \<times> memory_limiter" where
  "memory_take now quota m =
     (let key = wq_key quota;
          previous = map_of (ml_entries m) key;
          w = current_window now previous;
          m1 = (if previous \<noteq> None then m\<lparr>ml_entries := js_set key w (js_delete key (ml_entries m))\<rparr> else m)
      in if wi_count w \<ge> wq_limit quota then (wi_reset w - now, m1)
         else let m2 = evict_oldest key m1
              in (0, m2\<lparr>ml_entries := js_set key (counted w) (ml_entries m2)\<rparr>))"

section \<open>The shared limiter\<close>

text \<open>
  The part of Redis that the script uses: counters that may expire. \<open>GET\<close> and \<open>INCR\<close> see an expired
  key as absent, \<open>PTTL\<close> is negative for an absent key or one without expiry, \<open>PEXPIRE\<close> does nothing to
  an absent key.
\<close>

record redis_value =
  rv_count :: int
  rv_expires :: "int option"

type_synonym redis = "string \<rightharpoonup> redis_value"

definition redis_get :: "int \<Rightarrow> string \<Rightarrow> redis \<Rightarrow> redis_value option" where
  "redis_get now k r =
     (case r k of
        None \<Rightarrow> None
      | Some v \<Rightarrow> (case rv_expires v of
          None \<Rightarrow> Some v
        | Some t \<Rightarrow> if t > now then Some v else None))"

definition redis_pttl :: "int \<Rightarrow> string \<Rightarrow> redis \<Rightarrow> int" where
  "redis_pttl now k r =
     (case redis_get now k r of
        None \<Rightarrow> -2
      | Some v \<Rightarrow> (case rv_expires v of None \<Rightarrow> -1 | Some t \<Rightarrow> t - now))"

definition redis_pexpire :: "int \<Rightarrow> string \<Rightarrow> int \<Rightarrow> redis \<Rightarrow> redis" where
  "redis_pexpire now k ms r =
     (case redis_get now k r of None \<Rightarrow> r | Some v \<Rightarrow> r(k \<mapsto> v\<lparr>rv_expires := Some (now + ms)\<rparr>))"

definition redis_incr :: "int \<Rightarrow> string \<Rightarrow> redis \<Rightarrow> redis" where
  "redis_incr now k r =
     (case redis_get now k r of
        None \<Rightarrow> r(k \<mapsto> \<lparr>rv_count = 1, rv_expires = None\<rparr>)
      | Some v \<Rightarrow> r(k \<mapsto> v\<lparr>rv_count := rv_count v + 1\<rparr>))"

text \<open>\<open>TAKE_WALLET_QUOTA\<close>, atomic as every script is.\<close>

definition redis_script :: "int \<Rightarrow> wallet_quota \<Rightarrow> redis \<Rightarrow> int \<times> redis" where
  "redis_script now quota r =
     (let k = wq_key quota;
          count = (case redis_get now k r of None \<Rightarrow> 0 | Some v \<Rightarrow> rv_count v)
      in if count \<ge> wq_limit quota
         then (let ttl = redis_pttl now k r
               in if ttl < 0 then (max 1 limit_window_ms, redis_pexpire now k limit_window_ms r)
                  else (max 1 ttl, r))
         else (let r1 = redis_incr now k r
               in (0, if redis_pttl now k r1 < 0 then redis_pexpire now k limit_window_ms r1 else r1)))"

text \<open>
  \<open>RedisWalletLoginLimiter.take\<close> around the script: refused when the client is not ready or too many
  commands are unsettled; a reply that is late (\<open>None\<close>), fails or is not a wait of at most one window
  is an outage. \<open>pending\<close> counts commands until they settle, whatever the caller was told.
\<close>

definition limit_unavailable :: enclave_error where
  "limit_unavailable = AppError ''LOGIN_LIMIT_UNAVAILABLE''
     ''Wallet sign-in is temporarily unavailable. Try again.'' 503"

definition redis_admit :: "bool \<Rightarrow> nat \<Rightarrow> nat \<Rightarrow> enclave_error + nat" where
  "redis_admit ready capacity pending =
     (if \<not> ready \<or> pending \<ge> capacity then Inl limit_unavailable else Inr (pending + 1))"

definition redis_reply :: "js_number option \<Rightarrow> enclave_error + int" where
  "redis_reply result =
     (case result of
        Some n \<Rightarrow>
          if is_safe_integer n \<and> 0 \<le> int_of n \<and> int_of n \<le> limit_window_ms then Inr (int_of n)
          else Inl limit_unavailable
      | None \<Rightarrow> Inl limit_unavailable)"

definition redis_take ::
  "bool \<Rightarrow> nat \<Rightarrow> nat \<Rightarrow> bool \<Rightarrow> int \<Rightarrow> wallet_quota \<Rightarrow> redis \<Rightarrow> (enclave_error + int) \<times> redis" where
  "redis_take ready capacity pending in_time now quota r =
     (case redis_admit ready capacity pending of
        Inl e \<Rightarrow> (Inl e, r)
      | Inr _ \<Rightarrow>
          (let (answer, r') = redis_script now quota r
           in (redis_reply (if in_time then Some (JInt answer) else None), r')))"

section \<open>The contract\<close>

definition live_window :: "int \<Rightarrow> window option \<Rightarrow> window option" where
  "live_window now stored = (case stored of Some w \<Rightarrow> if wi_reset w > now then Some w else None | None \<Rightarrow> None)"

text \<open>How many calls of a key are admitted in a run, and whether other keys leave its counter alone.\<close>

fun admissions ::
  "(int \<Rightarrow> wallet_quota \<Rightarrow> 's \<Rightarrow> int \<times> 's) \<Rightarrow> string \<Rightarrow> (int \<times> wallet_quota) list \<Rightarrow> 's \<Rightarrow> nat" where
  "admissions take_one k [] s = 0"
| "admissions take_one k ((now, q) # calls) s =
     (if wq_key q = k \<and> fst (take_one now q s) = 0 then 1 else 0)
       + admissions take_one k calls (snd (take_one now q s))"

fun gaps_below :: "nat \<Rightarrow> nat \<Rightarrow> string \<Rightarrow> (int \<times> wallet_quota) list \<Rightarrow> bool" where
  "gaps_below churn left k [] = True"
| "gaps_below churn left k ((now, q) # calls) =
     (if wq_key q = k then gaps_below churn churn k calls
      else 0 < left \<and> gaps_below churn (left - 1) k calls)"

lemma gaps_short: "length calls \<le> left \<Longrightarrow> length calls \<le> churn \<Longrightarrow> gaps_below churn left k calls"
  by (induction churn left k calls rule: gaps_below.induct) auto

lemma gaps_mono: "gaps_below churn left k calls \<Longrightarrow> left \<le> left' \<Longrightarrow> gaps_below churn left' k calls"
  by (induction churn left k calls arbitrary: left' rule: gaps_below.induct) auto

locale window_limiter =
  fixes take_one :: "int \<Rightarrow> wallet_quota \<Rightarrow> 's \<Rightarrow> int \<times> 's"
    and stored :: "'s \<Rightarrow> string \<Rightarrow> window option"
    and valid :: "'s \<Rightarrow> bool"
    and slack :: "'s \<Rightarrow> string \<Rightarrow> nat"
    and churn :: "'s \<Rightarrow> nat"
  assumes take_valid: "valid s \<Longrightarrow> 0 < wq_limit q \<Longrightarrow> valid (snd (take_one now q s))"
    and take_churn: "churn (snd (take_one now q s)) = churn s"
    and take_answer: "valid s \<Longrightarrow> 0 < wq_limit q \<Longrightarrow>
      fst (take_one now q s) =
        (let w = current_window now (stored s (wq_key q))
         in if wi_count w \<ge> wq_limit q then wi_reset w - now else 0)"
    and take_own: "valid s \<Longrightarrow> 0 < wq_limit q \<Longrightarrow>
      stored (snd (take_one now q s)) (wq_key q) =
        (let w = current_window now (stored s (wq_key q))
         in if wi_count w \<ge> wq_limit q then Some w else Some (counted w))"
    and take_own_slack: "valid s \<Longrightarrow> 0 < wq_limit q \<Longrightarrow> churn s \<le> slack (snd (take_one now q s)) (wq_key q)"
    and take_foreign: "valid s \<Longrightarrow> 0 < wq_limit q \<Longrightarrow> wq_key q \<noteq> k \<Longrightarrow> 0 < slack s k \<Longrightarrow>
      stored (snd (take_one now q s)) k = stored s k \<and> slack s k \<le> slack (snd (take_one now q s)) k + 1"
begin

lemma admissions_in_window:
  assumes "valid s" and "stored s k = Some w" and "\<forall>(now, q) \<in> set calls. now < wi_reset w \<and> 0 < wq_limit q"
    and "\<forall>(now, q) \<in> set calls. wq_key q = k \<longrightarrow> wq_limit q = limit"
    and "gaps_below (churn s) left k calls" and "left \<le> slack s k"
  shows "int (admissions take_one k calls s) \<le> max 0 (limit - wi_count w)"
  using assms
proof (induction calls arbitrary: s w left)
  case (Cons call calls)
  obtain now q where call: "call = (now, q)" by (cases call)
  let ?s = "snd (take_one now q s)"
  from Cons.prems(3) call have q: "now < wi_reset w" "0 < wq_limit q" by auto
  have valid: "valid ?s" using Cons.prems(1) q(2) by (rule take_valid)
  note rest = Cons.prems(3,4)
  show ?case
  proof (cases "wq_key q = k")
    case True
    let ?w = "if wi_count w \<ge> limit then w else counted w"
    from Cons.prems(4) call True have l: "wq_limit q = limit" by auto
    have cur: "current_window now (stored s (wq_key q)) = w"
      using True Cons.prems(2) q(1) by (simp add: current_window_def)
    have own: "stored ?s k = Some ?w"
      using take_own [OF Cons.prems(1) q(2), of now] cur True l by (simp add: Let_def)
    have ans: "fst (take_one now q s) = 0 \<longleftrightarrow> wi_count w < limit"
      using take_answer [OF Cons.prems(1) q(2), of now] cur l q(1) by (auto simp: Let_def)
    have "int (admissions take_one k calls ?s) \<le> max 0 (limit - wi_count ?w)"
    proof (rule Cons.IH [OF valid own])
      show "\<forall>(now, q) \<in> set calls. now < wi_reset ?w \<and> 0 < wq_limit q"
        using rest(1) by (auto simp: counted_def)
      show "\<forall>(now, q) \<in> set calls. wq_key q = k \<longrightarrow> wq_limit q = limit" using rest(2) by simp
      show "gaps_below (churn ?s) (churn s) k calls"
        using Cons.prems(5) call True by (simp add: take_churn)
      show "churn s \<le> slack ?s k" using take_own_slack [OF Cons.prems(1) q(2)] True by blast
    qed
    then show ?thesis using ans True call by (auto simp: counted_def)
  next
    case False
    with Cons.prems(5) call have g: "0 < left" "gaps_below (churn s) (left - 1) k calls" by auto
    with Cons.prems(6) have "0 < slack s k" by simp
    from take_foreign [OF Cons.prems(1) q(2) False this, of now]
    have f: "stored ?s k = Some w" "slack s k \<le> slack ?s k + 1" using Cons.prems(2) by auto
    have "int (admissions take_one k calls ?s) \<le> max 0 (limit - wi_count w)"
    proof (rule Cons.IH [OF valid f(1)])
      show "\<forall>(now, q) \<in> set calls. now < wi_reset w \<and> 0 < wq_limit q"
        "\<forall>(now, q) \<in> set calls. wq_key q = k \<longrightarrow> wq_limit q = limit" using rest by simp_all
      show "gaps_below (churn ?s) (left - 1) k calls" using g(2) by (simp add: take_churn)
      show "left - 1 \<le> slack ?s k" using f(2) Cons.prems(6) by simp
    qed
    then show ?thesis using False call by simp
  qed
qed simp

text \<open>The window that one admitted call opens admits at most \<open>limit - 1\<close> more.\<close>

lemma opened_window:
  assumes "valid s" and "0 < wq_limit q" and "live_window t0 (stored s (wq_key q)) = None"
    and "take_one t0 q s = (0, s')"
    and "\<forall>(now, q') \<in> set calls. now < t0 + limit_window_ms \<and> 0 < wq_limit q' \<and> (wq_key q' = wq_key q \<longrightarrow> wq_limit q' = wq_limit q)"
    and "gaps_below (churn s) (churn s) (wq_key q) calls"
  shows "int (admissions take_one (wq_key q) calls s') < wq_limit q"
proof -
  let ?w = "\<lparr>wi_count = 0, wi_reset = t0 + limit_window_ms\<rparr>"
  have s': "s' = snd (take_one t0 q s)" using assms(4) by simp
  have "current_window t0 (stored s (wq_key q)) = ?w"
    using assms(3) by (auto simp: current_window_def live_window_def split: option.splits if_splits)
  then have w: "stored s' (wq_key q) = Some (counted ?w)"
    using take_own [OF assms(1,2), of t0] assms(2) by (simp add: s' Let_def)
  have "int (admissions take_one (wq_key q) calls s') \<le> max 0 (wq_limit q - wi_count (counted ?w))"
    by (rule admissions_in_window [OF _ w _ _ _ order_refl])
       (use assms take_valid [OF assms(1,2)] take_own_slack [OF assms(1,2), of t0] gaps_mono
         in \<open>auto simp: s' counted_def take_churn\<close>)
  with assms(2) show ?thesis by (simp add: counted_def)
qed

end

section \<open>The in-process limiter keeps the contract\<close>

definition memory_ok :: "memory_limiter \<Rightarrow> bool" where
  "memory_ok m \<longleftrightarrow> 1 \<le> ml_capacity m \<and> distinct (map fst (ml_entries m))
     \<and> length (ml_entries m) \<le> ml_capacity m"

definition memory_stored :: "memory_limiter \<Rightarrow> string \<Rightarrow> window option" where
  "memory_stored m k = map_of (ml_entries m) k"

definition younger :: "string \<Rightarrow> (string \<times> window) list \<Rightarrow> nat" where
  "younger k entries = length (takeWhile (\<lambda>e. fst e \<noteq> k) (rev entries))"

definition memory_slack :: "memory_limiter \<Rightarrow> string \<Rightarrow> nat" where
  "memory_slack m k = ml_capacity m - 1 - younger k (ml_entries m)"

text \<open>The entries that stay in front of the key just used.\<close>

definition kept_entries :: "string \<Rightarrow> memory_limiter \<Rightarrow> (string \<times> window) list" where
  "kept_entries key m =
     (if map_of (ml_entries m) key \<noteq> None then js_delete key (ml_entries m)
      else if length (ml_entries m) \<ge> ml_capacity m then tl (ml_entries m) else ml_entries m)"

lemma js_set_new: "k \<notin> fst ` set xs \<Longrightarrow> js_set k v xs = xs @ [(k, v)]"
  by (induction xs) auto

lemma js_set_last: "k \<notin> fst ` set xs \<Longrightarrow> js_set k v (xs @ [(k, w)]) = xs @ [(k, v)]"
  by (induction xs) auto

lemma js_delete_keys [simp]: "fst ` set (js_delete k xs) = fst ` set xs - {k}"
  by (auto simp: js_delete_def)

lemma js_delete_absent: "k \<notin> fst ` set xs \<Longrightarrow> js_delete k xs = xs"
  by (induction xs) (auto simp: js_delete_def)

lemma kept_without_key: "memory_ok m \<Longrightarrow> key \<notin> fst ` set (kept_entries key m)"
  by (cases "ml_entries m") (auto simp: kept_entries_def map_of_eq_None_iff)

lemma evict_form:
  assumes "memory_ok m" and "map_of (ml_entries m) key = None"
  shows "evict_oldest key m = m\<lparr>ml_entries := kept_entries key m\<rparr>"
proof (cases "ml_entries m")
  case Nil
  with assms show ?thesis by (simp add: evict_oldest_def kept_entries_def)
next
  case (Cons e rest)
  with assms(1) have "fst e \<notin> fst ` set rest" by (simp add: memory_ok_def)
  then have "js_delete (fst e) rest = rest" by (rule js_delete_absent)
  with Cons have "js_delete (fst e) (ml_entries m) = rest" by (simp add: js_delete_def)
  with Cons assms(2) show ?thesis by (cases e) (simp add: evict_oldest_def kept_entries_def)
qed

lemma memory_take_form:
  fixes now :: int
  assumes "memory_ok m" and "0 < wq_limit q"
  defines "w \<equiv> current_window now (memory_stored m (wq_key q))"
  shows "memory_take now q m =
    (if wi_count w \<ge> wq_limit q then wi_reset w - now else 0,
     m\<lparr>ml_entries := kept_entries (wq_key q) m
        @ [(wq_key q, if wi_count w \<ge> wq_limit q then w else counted w)]\<rparr>)"
proof (cases "map_of (ml_entries m) (wq_key q)")
  case None
  then have "\<not> wi_count w \<ge> wq_limit q"
    using assms(2) by (simp add: w_def memory_stored_def current_window_def)
  with None show ?thesis
    using evict_form [OF assms(1) None] kept_without_key [OF assms(1), of "wq_key q"]
    by (simp add: memory_take_def Let_def w_def memory_stored_def js_set_new)
next
  case (Some p)
  let ?kept = "js_delete (wq_key q) (ml_entries m)"
  have kept: "kept_entries (wq_key q) m = ?kept" using Some by (simp add: kept_entries_def)
  have moved: "js_set (wq_key q) w ?kept = ?kept @ [(wq_key q, w)]" by (simp add: js_set_new)
  have "evict_oldest (wq_key q) (m\<lparr>ml_entries := ?kept @ [(wq_key q, w)]\<rparr>)
      = m\<lparr>ml_entries := ?kept @ [(wq_key q, w)]\<rparr>"
    by (simp add: evict_oldest_def map_of_eq_None_iff)
  then show ?thesis
    using Some kept moved by (simp add: memory_take_def Let_def w_def memory_stored_def js_set_last)
qed

lemma kept_distinct: "memory_ok m \<Longrightarrow> distinct (map fst (kept_entries key m))"
  by (auto simp: memory_ok_def kept_entries_def js_delete_def distinct_map_filter map_tl distinct_tl)

lemma kept_length: "memory_ok m \<Longrightarrow> length (kept_entries key m) < ml_capacity m"
proof (cases "map_of (ml_entries m) key")
  case (Some w)
  assume ok: "memory_ok m"
  from Some have "(key, w) \<in> set (ml_entries m)" by (rule map_of_SomeD)
  then have "length (filter (\<lambda>e. fst e \<noteq> key) (ml_entries m)) < length (ml_entries m)"
    by (intro length_filter_less) auto
  with ok Some show ?thesis by (simp add: memory_ok_def kept_entries_def js_delete_def)
qed (auto simp: memory_ok_def kept_entries_def)

lemma younger_snoc: "younger k (xs @ [(k', v)]) = (if k' = k then 0 else Suc (younger k xs))"
  by (simp add: younger_def)

lemma takeWhile_filter_le: "length (takeWhile P (filter Q xs)) \<le> length (takeWhile P xs)"
  if "\<And>x. \<not> P x \<Longrightarrow> Q x"
  using that by (induction xs) auto

lemma younger_kept:
  assumes "k \<noteq> key"
  shows "younger k (kept_entries key m) \<le> younger k (ml_entries m)"
proof -
  have "younger k (js_delete key xs) \<le> younger k xs" for xs
    unfolding younger_def js_delete_def rev_filter by (rule takeWhile_filter_le) (use assms in auto)
  moreover have "younger k (tl xs) \<le> younger k xs" for xs
  proof (cases xs)
    case (Cons a ys)
    have "length (takeWhile P ys) \<le> length (takeWhile P (ys @ zs))" for P and ys zs :: "(string \<times> window) list"
      by (induction ys) auto
    with Cons show ?thesis by (simp add: younger_def)
  qed simp
  ultimately show ?thesis by (simp add: kept_entries_def)
qed

lemma kept_lookup:
  assumes "memory_ok m" and "k \<noteq> key" and "0 < memory_slack m k"
  shows "map_of (kept_entries key m) k = map_of (ml_entries m) k"
proof -
  have del: "map_of (js_delete key xs) k = map_of xs k" for xs :: "(string \<times> window) list"
    using assms(2) by (induction xs) (auto simp: js_delete_def)
  show ?thesis
  proof (cases "map_of (ml_entries m) key \<noteq> None \<or> length (ml_entries m) < ml_capacity m")
    case True
    then show ?thesis using del by (auto simp: kept_entries_def)
  next
    case False
    then have full: "length (ml_entries m) = ml_capacity m" "kept_entries key m = tl (ml_entries m)"
      using assms(1) by (auto simp: memory_ok_def kept_entries_def)
    show ?thesis
    proof (cases "ml_entries m")
      case (Cons e rest)
      have "fst e \<noteq> k"
      proof
        assume e: "fst e = k"
        with Cons assms(1) have "k \<notin> fst ` set rest" by (auto simp: memory_ok_def)
        then have "takeWhile (\<lambda>e. fst e \<noteq> k) (rev rest @ [e]) = rev rest"
          using e by (subst takeWhile_append2) (auto intro: rev_image_eqI)
        then have "younger k (ml_entries m) = length rest" by (simp add: younger_def Cons)
        with full(1) Cons assms(3) show False by (simp add: memory_slack_def)
      qed
      with full(2) Cons show ?thesis by (cases e) simp
    qed (use full in simp)
  qed
qed

interpretation memory_limiter: window_limiter memory_take memory_stored memory_ok memory_slack
  "\<lambda>m. ml_capacity m - 1"
proof unfold_locales
  fix m :: memory_limiter and q :: wallet_quota and now k
  show "ml_capacity (snd (memory_take now q m)) - 1 = ml_capacity m - 1"
    by (simp add: memory_take_def Let_def evict_oldest_def split: list.splits)
  assume ok: "memory_ok m" and l: "0 < wq_limit q"
  note form = memory_take_form [OF ok l, of now]
  let ?kept = "kept_entries (wq_key q) m"
  have cap: "1 \<le> ml_capacity m" using ok by (simp add: memory_ok_def)
  show "memory_ok (snd (memory_take now q m))"
    using kept_distinct [OF ok, of "wq_key q"] kept_length [OF ok, of "wq_key q"]
      kept_without_key [OF ok, of "wq_key q"] cap
    by (simp add: form memory_ok_def)
  show "fst (memory_take now q m) = (let w = current_window now (memory_stored m (wq_key q))
      in if wi_count w \<ge> wq_limit q then wi_reset w - now else 0)"
    by (simp add: form Let_def)
  have "map_of ?kept (wq_key q) = None"
    using kept_without_key [OF ok, of "wq_key q"] by (simp add: map_of_eq_None_iff)
  then show "memory_stored (snd (memory_take now q m)) (wq_key q) =
      (let w = current_window now (memory_stored m (wq_key q))
       in if wi_count w \<ge> wq_limit q then Some w else Some (counted w))"
    by (simp add: form memory_stored_def map_add_def)
  show "ml_capacity m - 1 \<le> memory_slack (snd (memory_take now q m)) (wq_key q)"
    by (simp add: form memory_slack_def younger_snoc)
  assume k: "wq_key q \<noteq> k" and slack: "0 < memory_slack m k"
  show "memory_stored (snd (memory_take now q m)) k = memory_stored m k
      \<and> memory_slack m k \<le> memory_slack (snd (memory_take now q m)) k + 1"
    using kept_lookup [OF ok k [symmetric] slack] younger_kept [OF k [symmetric], of m] k
    by (auto simp: form memory_stored_def memory_slack_def younger_snoc map_add_def split: option.splits)
qed

section \<open>The shared limiter keeps the contract\<close>

definition redis_ok :: "redis \<Rightarrow> bool" where
  "redis_ok r \<longleftrightarrow> (\<forall>v \<in> ran r. rv_expires v \<noteq> None)"

definition redis_stored :: "redis \<Rightarrow> string \<Rightarrow> window option" where
  "redis_stored r k =
     (case r k of
        None \<Rightarrow> None
      | Some v \<Rightarrow> map_option (\<lambda>t. \<lparr>wi_count = rv_count v, wi_reset = t\<rparr>) (rv_expires v))"

lemma redis_script_form:
  fixes now :: int
  assumes "redis_ok r" and "0 < wq_limit q"
  defines "w \<equiv> current_window now (redis_stored r (wq_key q))"
  shows "redis_script now q r =
    (if wi_count w \<ge> wq_limit q then (wi_reset w - now, r)
     else (0, r(wq_key q \<mapsto> \<lparr>rv_count = wi_count w + 1, rv_expires = Some (wi_reset w)\<rparr>)))"
proof (cases "redis_get now (wq_key q) r")
  case None
  with assms(1) have "live_window now (redis_stored r (wq_key q)) = None"
    by (auto simp: redis_get_def redis_stored_def live_window_def redis_ok_def split: option.splits if_splits)
  then have "w = \<lparr>wi_count = 0, wi_reset = now + limit_window_ms\<rparr>"
    by (auto simp: w_def live_window_def current_window_def split: option.splits if_splits)
  with None assms(2) show ?thesis
    by (simp add: redis_script_def Let_def redis_incr_def redis_pttl_def redis_pexpire_def)
       (simp add: redis_get_def)
next
  case (Some v)
  then have v: "r (wq_key q) = Some v" by (auto simp: redis_get_def split: option.splits if_splits)
  then have "v \<in> ran r" by (rule ranI)
  with assms(1) obtain t where t: "rv_expires v = Some t" by (auto simp: redis_ok_def)
  with Some v have live: "now < t" by (simp add: redis_get_def split: if_splits)
  with v t have w: "w = \<lparr>wi_count = rv_count v, wi_reset = t\<rparr>"
    by (simp add: w_def redis_stored_def current_window_def)
  obtain c where c: "v = \<lparr>rv_count = c, rv_expires = Some t\<rparr>" using t by (cases v) simp
  from v live w show ?thesis
    unfolding c
    by (simp add: redis_script_def Let_def redis_incr_def redis_pttl_def redis_get_def)
qed

interpretation redis_limiter: window_limiter redis_script redis_stored redis_ok "\<lambda>_ _. n" "\<lambda>_. n" for n
proof unfold_locales
  fix r :: redis and q :: wallet_quota and now k
  assume ok: "redis_ok r" and l: "0 < wq_limit q"
  note form = redis_script_form [OF ok l, of now]
  show "redis_ok (snd (redis_script now q r))"
    using ok by (auto simp: form redis_ok_def ran_def)
  show "fst (redis_script now q r) = (let w = current_window now (redis_stored r (wq_key q))
      in if wi_count w \<ge> wq_limit q then wi_reset w - now else 0)"
    by (simp add: form Let_def)
  show "redis_stored (snd (redis_script now q r)) (wq_key q) =
      (let w = current_window now (redis_stored r (wq_key q))
       in if wi_count w \<ge> wq_limit q then Some w else Some (counted w))"
  proof (cases "wi_count (current_window now (redis_stored r (wq_key q))) \<ge> wq_limit q")
    case True
    with l have "redis_stored r (wq_key q) = Some (current_window now (redis_stored r (wq_key q)))"
      by (auto simp: current_window_def split: option.splits if_splits)
    with True show ?thesis by (simp add: form Let_def)
  next
    case False
    then show ?thesis by (simp add: form Let_def redis_stored_def counted_def)
  qed
  assume "wq_key q \<noteq> k"
  then show "redis_stored (snd (redis_script now q r)) k = redis_stored r k \<and> n \<le> n + 1"
    by (simp add: form redis_stored_def)
qed simp_all

section \<open>Properties\<close>

text \<open>
  The in-process limiter bounds attempts and memory: once a call opens a window for a key,
  fewer than its limit of calls of that key are admitted before the window ends, as long as fewer than
  capacity minus one calls under other keys come between two of its calls (denied calls count as
  use, so churning keys does not evict an exhausted counter); the map never outgrows its capacity.
\<close>

theorem memory_limiter_bounds_attempts:
  assumes "memory_ok m" and "0 < wq_limit q" and "live_window t0 (memory_stored m (wq_key q)) = None"
    and "memory_take t0 q m = (0, m')"
    and "\<forall>(now, q') \<in> set calls. now < t0 + limit_window_ms \<and> 0 < wq_limit q' \<and> (wq_key q' = wq_key q \<longrightarrow> wq_limit q' = wq_limit q)"
    and "gaps_below (ml_capacity m - 1) (ml_capacity m - 1) (wq_key q) calls"
  shows "int (admissions memory_take (wq_key q) calls m') < wq_limit q
    \<and> length (ml_entries m') \<le> ml_capacity m' \<and> ml_capacity m' = ml_capacity m"
proof -
  have "m' = snd (memory_take t0 q m)" using assms(4) by simp
  moreover have "memory_ok (snd (memory_take t0 q m))" using assms(1,2) by (rule memory_limiter.take_valid)
  moreover have "ml_capacity (snd (memory_take t0 q m)) = ml_capacity m"
    by (simp add: memory_take_form [OF assms(1,2)])
  ultimately show ?thesis
    using memory_limiter.opened_window [OF assms] by (simp add: memory_ok_def)
qed

theorem memory_limiter_bounds_attempts_witness:
  "let q = \<lparr>wq_key = ''a'', wq_limit = 2\<rparr>; other = \<lparr>wq_key = ''b'', wq_limit = 2\<rparr>;
       m = \<lparr>ml_capacity = 3, ml_entries = []\<rparr>
   in admissions memory_take ''a'' [(1, q), (2, other), (3, q), (4, q)] (snd (memory_take 0 q m)) < 2"
proof -
  let ?q = "\<lparr>wq_key = ''a'', wq_limit = 2\<rparr>" and ?other = "\<lparr>wq_key = ''b'', wq_limit = 2\<rparr>"
  let ?m = "\<lparr>ml_capacity = 3, ml_entries = []\<rparr>"
  have "memory_take 0 ?q ?m = (0, snd (memory_take 0 ?q ?m))"
    by (simp add: memory_take_def Let_def current_window_def)
  from memory_limiter_bounds_attempts [OF _ _ _ this, of "[(1, ?q), (2, ?other), (3, ?q), (4, ?q)]"]
  show ?thesis
    by (simp add: memory_ok_def live_window_def memory_stored_def limit_window_ms_def Let_def)
qed



end
