(* ===== verification/Wallet_Login.thy ===== *)
theory Wallet_Login
  imports Wallet_Limiter
begin

text \<open>
  Wallet sign-in of \<open>api/src/wallet-auth.ts\<close>: \<open>PostgresWalletLoginStore\<close>, \<open>WalletLogin\<close> and its
  routes, over the tables of \<open>db/src/wallet-auth-schema.ts\<close>, and the key checks \<open>requireKey\<close> and
  \<open>requireAdmin\<close> of \<open>api/src/gateway.ts\<close> that accept its tokens.

  Random values (challenge ids, tokens, owner hashes), both clocks (the database's and the process's)
  and the limiter's answers are arguments. The SIWE text functions and signature recovery of viem, and
  Node's IP parsing, are the record \<open>login_env\<close>. The routes' cookie is the argument \<open>stored\<close>.
\<close>

section \<open>Tables and environment\<close>

record challenge_row =
  cl_id :: string
  cl_address :: string
  cl_message :: string
  cl_expires :: int
  cl_client :: string

record account_row =
  ac_address :: string
  ac_owner :: string

record session_row =
  ws_token :: string
  ws_owner :: string
  ws_address :: string
  ws_expires :: int

record api_key_row =
  ak_keyHash :: string
  ak_label :: string
  ak_role :: string

record login_db =
  ld_challenges :: "challenge_row list"
  ld_accounts :: "account_row list"
  ld_sessions :: "session_row list"
  ld_keys :: "api_key_row list"

type_synonym 'a login_tx = "login_db \<Rightarrow> enclave_error + ('a \<times> login_db)"

record siwe_fields =
  sw_domain :: string
  sw_address :: string
  sw_uri :: string
  sw_version :: string
  sw_chainId :: int
  sw_nonce :: string
  sw_issuedAt :: int
  sw_expirationTime :: int
  sw_statement :: string

text \<open>What \<open>parseSiweMessage\<close> gives: every field may be missing.\<close>

record siwe_parsed =
  sp_domain :: "string option"
  sp_uri :: "string option"
  sp_chainId :: "int option"
  sp_nonce :: "string option"
  sp_address :: "string option"
  sp_expirationTime :: "int option"

record login_env =
  le_origin :: string
  le_host :: string
  le_sha :: hash_fun
  le_createSiwe :: "siwe_fields \<Rightarrow> string"
  le_parseSiwe :: "string \<Rightarrow> siwe_parsed"
  le_getAddress :: "string \<Rightarrow> string option"
  le_recover :: "string \<Rightarrow> string \<Rightarrow> string option"
  le_isIP :: "string \<Rightarrow> nat"
  le_hostname :: "string \<Rightarrow> string"

abbreviation login_sha :: "login_env \<Rightarrow> string \<Rightarrow> string" where
  "login_sha env \<equiv> sha256HexText (le_sha env)"

section \<open>The store\<close>

record login_challenge =
  lc_id :: string
  lc_address :: string
  lc_message :: string
  lc_expiresAt :: int
  lc_clientHash :: "string option"

definition legacy_client :: string where
  "legacy_client = ''legacy''"

definition login_rate_limit :: enclave_error where
  "login_rate_limit = AppError ''LOGIN_RATE_LIMIT'' ''Wait before requesting another login'' 429"

definition drop_expired :: "int \<Rightarrow> login_db \<Rightarrow> login_db" where
  "drop_expired dbnow db =
     db\<lparr>ld_challenges := delete_rows (\<lambda>c. cl_expires c \<le> dbnow) (ld_challenges db),
        ld_sessions := delete_rows (\<lambda>w. ws_expires w \<le> dbnow) (ld_sessions db)\<rparr>"

definition challenges_of :: "string \<Rightarrow> string \<Rightarrow> challenge_row list \<Rightarrow> challenge_row list" where
  "challenges_of address client rows = matching_rows (\<lambda>c. cl_address c = address \<and> cl_client c = client) rows"

definition put :: "int \<Rightarrow> login_challenge \<Rightarrow> unit login_tx" where
  "put dbnow c db =
     (let client = (case lc_clientHash c of Some h \<Rightarrow> h | None \<Rightarrow> legacy_client);
          db1 = drop_expired dbnow db
      in if length (challenges_of (lc_address c) client (ld_challenges db1)) \<ge> 5 then Inl login_rate_limit
         else if list_ex (\<lambda>r. cl_id r = lc_id c) (ld_challenges db1) then Inl (PlainError ''duplicate key value'')
         else Inr ((), db1\<lparr>ld_challenges := ld_challenges db1 @
                [\<lparr>cl_id = lc_id c, cl_address = lc_address c, cl_message = lc_message c,
                  cl_expires = lc_expiresAt c, cl_client = client\<rparr>]\<rparr>))"

definition get_challenge :: "int \<Rightarrow> string \<Rightarrow> login_db \<Rightarrow> challenge_row option" where
  "get_challenge dbnow cid db = select_row (\<lambda>c. cl_id c = cid \<and> cl_expires c > dbnow) (ld_challenges db)"

text \<open>The account of an address, created with its API key on first use.\<close>

definition ensure_account :: "string \<Rightarrow> string \<Rightarrow> string login_tx" where
  "ensure_account fresh_owner address db =
     (case select_row (\<lambda>a. ac_address a = address) (ld_accounts db) of
        Some a \<Rightarrow> Inr (ac_owner a, db)
      | None \<Rightarrow>
          if list_ex (\<lambda>k. ak_keyHash k = fresh_owner) (ld_keys db)
             \<or> list_ex (\<lambda>a. ac_owner a = fresh_owner) (ld_accounts db)
          then Inl (PlainError ''duplicate key value'')
          else Inr (fresh_owner, db\<lparr>ld_keys := ld_keys db @ [\<lparr>ak_keyHash = fresh_owner,
                   ak_label = ''Wallet '' @ address, ak_role = ''wallet''\<rparr>],
                 ld_accounts := ld_accounts db @ [\<lparr>ac_address = address, ac_owner = fresh_owner\<rparr>]\<rparr>))"

definition live_sessions :: "int \<Rightarrow> string \<Rightarrow> session_row list \<Rightarrow> session_row list" where
  "live_sessions dbnow address rows = matching_rows (\<lambda>w. ws_address w = address \<and> ws_expires w > dbnow) rows"

definition session_limit :: enclave_error where
  "session_limit = AppError ''LOGIN_SESSION_LIMIT'' ''Sign out another session or wait for it to expire'' 429"

definition consume :: "int \<Rightarrow> string \<Rightarrow> string \<Rightarrow> string \<Rightarrow> int \<Rightarrow> bool login_tx" where
  "consume dbnow fresh_owner cid tokenHash expiresAt db =
     (case get_challenge dbnow cid db of
        None \<Rightarrow> Inr (False, db)
      | Some c \<Rightarrow>
          (let db1 = db\<lparr>ld_challenges := delete_rows (\<lambda>r. cl_id r = cid \<and> cl_expires r > dbnow) (ld_challenges db)\<rparr>
           in rbind (ensure_account fresh_owner (cl_address c) db1) (\<lambda>(owner, db2).
              if length (live_sessions dbnow (cl_address c) (ld_sessions db2)) \<ge> 10 then Inl session_limit
              else if list_ex (\<lambda>w. ws_token w = tokenHash) (ld_sessions db2) then Inl (PlainError ''duplicate key value'')
              else Inr (True, db2\<lparr>ld_sessions := ld_sessions db2 @
                     [\<lparr>ws_token = tokenHash, ws_owner = owner, ws_address = cl_address c, ws_expires = expiresAt\<rparr>]\<rparr>))))"

definition revoke :: "string \<Rightarrow> login_db \<Rightarrow> login_db" where
  "revoke tokenHash db = db\<lparr>ld_sessions := delete_rows (\<lambda>w. ws_token w = tokenHash) (ld_sessions db)\<rparr>"

definition session :: "int \<Rightarrow> string \<Rightarrow> login_db \<Rightarrow> session_row option" where
  "session dbnow tokenHash db = select_row (\<lambda>w. ws_token w = tokenHash \<and> ws_expires w > dbnow) (ld_sessions db)"

section \<open>Login\<close>

definition wallet_token :: "string \<Rightarrow> bool" where
  "wallet_token t \<longleftrightarrow> length t = 69 \<and> starts_with t ''enws_'' \<and> list_all is_lower_hex_digit (drop 5 t)"

definition challenge_lifetime_ms :: int where
  "challenge_lifetime_ms = 300000"

definition session_lifetime_ms :: int where
  "session_lifetime_ms = 30 * 60000"

definition dashboard_uri :: "login_env \<Rightarrow> string" where
  "dashboard_uri env = le_origin env @ ''/dashboard''"

definition challenge_fields :: "login_env \<Rightarrow> int \<Rightarrow> string \<Rightarrow> string \<Rightarrow> siwe_fields" where
  "challenge_fields env now cid checksum =
     \<lparr>sw_domain = le_host env, sw_address = checksum, sw_uri = dashboard_uri env, sw_version = ''1'',
      sw_chainId = 5042, sw_nonce = cid, sw_issuedAt = now, sw_expirationTime = now + challenge_lifetime_ms,
      sw_statement = ''Sign in to Enclave. This does not authorize a payment.''\<rparr>"

definition challenge ::
  "login_env \<Rightarrow> int \<Rightarrow> int \<Rightarrow> string \<Rightarrow> string \<Rightarrow> string option \<Rightarrow> (string \<times> string \<times> int) login_tx" where
  "challenge env dbnow now cid address client db =
     rbind (of_option (PlainError ''Address is invalid'') (le_getAddress env address)) (\<lambda>checksum.
     let message = le_createSiwe env (challenge_fields env now cid checksum);
         expiresAt = now + challenge_lifetime_ms
     in rbind (put dbnow \<lparr>lc_id = cid, lc_address = lower checksum, lc_message = message, lc_expiresAt = expiresAt,
                lc_clientHash = map_option (\<lambda>c. login_sha env (''wallet-login:'' @ le_origin env @ '':'' @ c)) client\<rparr> db)
          (\<lambda>(_, db'). Inr ((cid, message, expiresAt), db')))"

definition login_expired :: enclave_error where
  "login_expired = UnauthorizedError ''Login challenge expired or already used''"

definition scope_unchanged :: "login_env \<Rightarrow> challenge_row \<Rightarrow> bool" where
  "scope_unchanged env c \<longleftrightarrow>
     (let data = le_parseSiwe env (cl_message c) in
      sp_domain data = Some (le_host env) \<and> sp_uri data = Some (dashboard_uri env)
      \<and> sp_chainId data = Some 5042 \<and> sp_nonce data = Some (cl_id c)
      \<and> map_option lower (sp_address data) = Some (cl_address c)
      \<and> sp_expirationTime data = Some (cl_expires c))"

text \<open>The checks of \<open>verify\<close> before the challenge is consumed; the result is the signer.\<close>

definition check_signature :: "login_env \<Rightarrow> int \<Rightarrow> challenge_row option \<Rightarrow> string \<Rightarrow> enclave_error + string" where
  "check_signature env now found signature =
     rbind (of_option login_expired found) (\<lambda>c.
     rbind (require (cl_expires c > now) login_expired) (\<lambda>_.
     rbind (require (scope_unchanged env c) (UnauthorizedError ''Login scope changed'')) (\<lambda>_.
     rbind (of_option (UnauthorizedError ''Invalid wallet signature'') (le_recover env (cl_message c) signature)) (\<lambda>signer.
     rbind (require (lower signer = cl_address c) (UnauthorizedError ''Wallet signature does not match'')) (\<lambda>_.
       Inr signer)))))"

record login_result =
  lr_token :: string
  lr_address :: string
  lr_expiresAt :: int

text \<open>\<open>between\<close> is what other requests commit between the read and the consumption.\<close>

definition verify ::
  "login_env \<Rightarrow> int \<Rightarrow> int \<Rightarrow> string \<Rightarrow> string \<Rightarrow> (login_db \<Rightarrow> login_db) \<Rightarrow> string \<Rightarrow> string \<Rightarrow> login_db \<Rightarrow>
     (enclave_error + login_result) \<times> login_db" where
  "verify env dbnow now random fresh_owner between cid signature db =
     (case check_signature env now (get_challenge dbnow cid db) signature of
        Inl e \<Rightarrow> (Inl e, db)
      | Inr signer \<Rightarrow>
          (let token = ''enws_'' @ random; expiresAt = now + session_lifetime_ms
           in case run_tx (consume dbnow fresh_owner cid (login_sha env token) expiresAt) (between db) of
                (Inl e, db') \<Rightarrow> (Inl e, db')
              | (Inr False, db') \<Rightarrow> (Inl login_expired, db')
              | (Inr True, db') \<Rightarrow>
                  (Inr \<lparr>lr_token = token, lr_address = signer, lr_expiresAt = expiresAt\<rparr>, db')))"

definition logout :: "login_env \<Rightarrow> string \<Rightarrow> login_db \<Rightarrow> login_db" where
  "logout env token db = (if wallet_token token then revoke (login_sha env token) db else db)"

definition resume :: "login_env \<Rightarrow> int \<Rightarrow> int \<Rightarrow> string \<Rightarrow> string \<Rightarrow> login_db \<Rightarrow> enclave_error + login_result" where
  "resume env dbnow now token address db =
     (if \<not> wallet_token token then Inl (UnauthorizedError ''No wallet login session'')
      else case session dbnow (login_sha env token) db of
          None \<Rightarrow> Inl (UnauthorizedError ''Wallet login expired or changed'')
        | Some w \<Rightarrow>
            if ws_expires w \<le> now \<or> lower (ws_address w) \<noteq> lower address
            then Inl (UnauthorizedError ''Wallet login expired or changed'')
            else Inr \<lparr>lr_token = token, lr_address = ws_address w, lr_expiresAt = ws_expires w\<rparr>)"

section \<open>Keys\<close>

definition requireKey :: "login_env \<Rightarrow> bool \<Rightarrow> int \<Rightarrow> string \<Rightarrow> login_db \<Rightarrow> enclave_error + string" where
  "requireKey env login_enabled now apiKey db =
     (if starts_with apiKey ''enws_''
      then if \<not> login_enabled \<or> \<not> wallet_token apiKey then Inl (UnauthorizedError ''Wallet login unavailable'')
           else (case session now (login_sha env apiKey) db of
                   None \<Rightarrow> Inl (UnauthorizedError ''Wallet login expired'')
                 | Some w \<Rightarrow> Inr (ws_owner w))
      else (case select_row (\<lambda>k. ak_keyHash k = login_sha env apiKey) (ld_keys db) of
              None \<Rightarrow> Inl (UnauthorizedError ''Unknown API key'')
            | Some _ \<Rightarrow> Inr (login_sha env apiKey)))"

definition requireAdmin :: "login_env \<Rightarrow> bool \<Rightarrow> int \<Rightarrow> string \<Rightarrow> login_db \<Rightarrow> enclave_error + string" where
  "requireAdmin env login_enabled now apiKey db =
     rbind (requireKey env login_enabled now apiKey db) (\<lambda>keyHash.
     rbind (require (map_option ak_role (select_row (\<lambda>k. ak_keyHash k = keyHash) (ld_keys db)) = Some ''admin'')
              (ForbiddenError ''Administrator role required'')) (\<lambda>_. Inr keyHash))"

section \<open>Callers and limits\<close>

datatype login_action = Challenge | Verify | Resume | Logout | Other

fun action_name :: "login_action \<Rightarrow> string" where
  "action_name Challenge = ''challenge''"
| "action_name Verify = ''verify''"
| "action_name Resume = ''resume''"
| "action_name Logout = ''logout''"
| "action_name Other = ''other''"

fun client_limit :: "login_action \<Rightarrow> int" where
  "client_limit Challenge = 30"
| "client_limit Verify = 60"
| "client_limit Resume = 120"
| "client_limit Logout = 60"
| "client_limit Other = 30"

fun resource_limit :: "login_action \<Rightarrow> int" where
  "resource_limit Challenge = 5"
| "resource_limit Verify = 10"
| "resource_limit Resume = 60"
| "resource_limit Logout = 30"
| "resource_limit Other = client_limit Other"

text \<open>\<open>/^::ffff:([a-f0-9]{1,4}):([a-f0-9]{1,4})$/\<close>: the two groups.\<close>

definition hex_group :: "string \<Rightarrow> bool" where
  "hex_group g \<longleftrightarrow> 1 \<le> length g \<and> length g \<le> 4 \<and> list_all is_lower_hex_digit g"

definition mapped_groups :: "string \<Rightarrow> (string \<times> string) option" where
  "mapped_groups s =
     (if starts_with s ''::ffff:''
      then (let rest = drop 7 s; high = takeWhile (\<lambda>c. c \<noteq> CHR '':'') rest; low = drop (length high + 1) rest
            in if hex_group high \<and> hex_group low then Some (high, low) else None)
      else None)"

definition normalizeWalletClientIp :: "login_env \<Rightarrow> string \<Rightarrow> string option" where
  "normalizeWalletClientIp env ip =
     (if length ip > 64 \<or> CHR ''%'' \<in> set ip \<or> le_isIP env ip = 0 then None
      else if le_isIP env ip = 4 then Some ip
      else (let normalized = le_hostname env ip in
        case mapped_groups normalized of
          Some (high, low) \<Rightarrow>
            (let h = hex_number high; l = hex_number low
             in Some (nat_dec (h div 256) @ ''.'' @ nat_dec (h mod 256) @ ''.''
                      @ nat_dec (l div 256) @ ''.'' @ nat_dec (l mod 256)))
        | None \<Rightarrow> Some normalized))"

definition login_client :: "login_env \<Rightarrow> string list \<Rightarrow> string option \<Rightarrow> string option \<Rightarrow> enclave_error + string" where
  "login_client env trusted socket_address real_ip =
     (case Option.bind socket_address (normalizeWalletClientIp env) of
        None \<Rightarrow> Inl (AppError ''LOGIN_CLIENT_UNAVAILABLE'' ''Wallet sign-in client identity is unavailable'' 503)
      | Some peer \<Rightarrow>
          if peer \<notin> set trusted then Inr peer
          else of_option (AppError ''LOGIN_CLIENT_UNAVAILABLE'' ''Wallet sign-in proxy identity is unavailable'' 503)
                 (Option.bind real_ip (normalizeWalletClientIp env)))"

definition login_quota :: "login_env \<Rightarrow> string \<Rightarrow> login_action \<Rightarrow> string option \<Rightarrow> wallet_quota" where
  "login_quota env client action resource =
     \<lparr>wq_key = login_sha env (le_origin env @ '':'' @ action_name action @ '':''
          @ (if resource = None then ''client'' else ''resource'') @ '':'' @ client
          @ (case resource of None \<Rightarrow> [] | Some r \<Rightarrow> '':'' @ r)),
      wq_limit = (if resource = None then client_limit action else resource_limit action)\<rparr>"

text \<open>
  \<open>WalletLogin.limit\<close>: \<open>answer\<close> is the injected limiter's. Only logout falls back to the local
  limiter; credentials are issued and restored only while the shared one answers.
\<close>

definition login_limit ::
  "login_env \<Rightarrow> int \<Rightarrow> string \<Rightarrow> login_action \<Rightarrow> string option \<Rightarrow> (wallet_quota \<Rightarrow> enclave_error + int) \<Rightarrow>
     memory_limiter \<Rightarrow> (enclave_error + int) \<times> memory_limiter" where
  "login_limit env now client action resource answer fallback =
     (let quota = login_quota env client action resource in
      case answer quota of
        Inr wait \<Rightarrow> (Inr wait, fallback)
      | Inl e \<Rightarrow>
          if action = Logout
          then (let (wait, fallback') = memory_take now quota fallback in (Inr wait, fallback'))
          else if error_code e = ''LOGIN_LIMIT_UNAVAILABLE'' \<and> is_app_error e then (Inl e, fallback)
          else (Inl limit_unavailable, fallback))"

section \<open>Routes\<close>

text \<open>
  One request: its method, \<open>Origin\<close>, last path segment, the caller's identity, the fields of its JSON
  body (\<open>None\<close> when the body is not an object with just those fields), the cookie and the \<open>x-api-key\<close> header. \<open>wait\<close> is \<open>limit\<close>'s
  answer for an action and resource. A response may set or delete the cookie.
\<close>

record login_request =
  rq_isGet :: bool
  rq_origin :: "string option"
  rq_segment :: string
  rq_client :: "enclave_error + string"
  rq_address :: "string option"
  rq_proof :: "(string \<times> string) option"
  rq_cookie :: "string option"
  rq_apiKey :: "string option"

datatype cookie_change = KeepCookie | SetCookie string int | DeleteCookie

definition route_action :: "string \<Rightarrow> login_action" where
  "route_action name =
     (if name = ''challenge'' then Challenge else if name = ''verify'' then Verify
      else if name = ''resume'' then Resume else if name = ''logout'' then Logout else Other)"

definition route_limit :: "(login_action \<Rightarrow> string option \<Rightarrow> enclave_error + int) \<Rightarrow> login_action \<Rightarrow> string option \<Rightarrow> enclave_error + unit" where
  "route_limit wait action resource =
     rbind (wait action resource) (\<lambda>retry.
       require (retry = 0) (AppError ''LOGIN_RATE_LIMIT'' ''Too many login requests. Wait before trying again.'' 429))"

definition route_guard ::
  "login_env \<Rightarrow> (login_action \<Rightarrow> string option \<Rightarrow> enclave_error + int) \<Rightarrow> login_request \<Rightarrow> enclave_error + string option" where
  "route_guard env wait rq =
     (if rq_isGet rq then Inr None
      else rbind (require (rq_origin rq = Some (le_origin env)) (UnauthorizedError ''Login origin mismatch'')) (\<lambda>_.
           rbind (rq_client rq) (\<lambda>client.
           rbind (route_limit wait (route_action (rq_segment rq)) None) (\<lambda>_. Inr (Some client)))))"

text \<open>The strict body schemas.\<close>

definition address_body :: "login_request \<Rightarrow> string option" where
  "address_body rq = Option.bind (rq_address rq) (\<lambda>a. if hex_string 40 a then Some a else None)"

definition proof_body :: "login_request \<Rightarrow> (string \<times> string) option" where
  "proof_body rq = Option.bind (rq_proof rq) (\<lambda>(cid, signature).
     if length cid = 48 \<and> list_all is_lower_hex_digit cid \<and> hex_string 130 signature
     then Some (cid, signature) else None)"

definition token_resource :: "login_env \<Rightarrow> string \<Rightarrow> string" where
  "token_resource env token = (if wallet_token token then login_sha env token else ''none'')"

definition challenge_route ::
  "login_env \<Rightarrow> (login_action \<Rightarrow> string option \<Rightarrow> enclave_error + int) \<Rightarrow> int \<Rightarrow> int \<Rightarrow> string \<Rightarrow> login_request \<Rightarrow>
     (string \<times> string \<times> int) login_tx" where
  "challenge_route env wait dbnow now cid rq db =
     rbind (route_guard env wait rq) (\<lambda>client.
     rbind (of_option (ValidationError ''login'') (address_body rq)) (\<lambda>address.
     rbind (route_limit wait Challenge (Some (lower address))) (\<lambda>_.
       challenge env dbnow now cid address client db)))"

definition verify_route ::
  "login_env \<Rightarrow> (login_action \<Rightarrow> string option \<Rightarrow> enclave_error + int) \<Rightarrow> int \<Rightarrow> int \<Rightarrow> string \<Rightarrow> string \<Rightarrow>
     (login_db \<Rightarrow> login_db) \<Rightarrow> login_request \<Rightarrow> login_db \<Rightarrow> (enclave_error + (login_result \<times> cookie_change)) \<times> login_db" where
  "verify_route env wait dbnow now random fresh_owner between rq db =
     (case rbind (route_guard env wait rq) (\<lambda>_.
           rbind (of_option (ValidationError ''login'') (proof_body rq)) (\<lambda>(cid, signature).
           rbind (route_limit wait Verify (Some cid)) (\<lambda>_. Inr (cid, signature)))) of
        Inl e \<Rightarrow> (Inl e, db)
      | Inr (cid, signature) \<Rightarrow>
          (let (res, db') = verify env dbnow now random fresh_owner between cid signature db
           in (rmap (\<lambda>r. (r, SetCookie (lr_token r) (lr_expiresAt r))) res, db')))"

definition resume_route ::
  "login_env \<Rightarrow> (login_action \<Rightarrow> string option \<Rightarrow> enclave_error + int) \<Rightarrow> int \<Rightarrow> int \<Rightarrow> login_request \<Rightarrow> login_db \<Rightarrow>
     enclave_error + login_result" where
  "resume_route env wait dbnow now rq db =
     rbind (route_guard env wait rq) (\<lambda>_.
     rbind (of_option (ValidationError ''login'') (address_body rq)) (\<lambda>address.
     let token = (case rq_cookie rq of Some t \<Rightarrow> t | None \<Rightarrow> []) in
     rbind (route_limit wait Resume (Some (token_resource env token))) (\<lambda>_.
       resume env dbnow now token address db)))"

definition logout_route ::
  "login_env \<Rightarrow> (login_action \<Rightarrow> string option \<Rightarrow> enclave_error + int) \<Rightarrow> login_request \<Rightarrow> cookie_change login_tx" where
  "logout_route env wait rq db =
     rbind (route_guard env wait rq) (\<lambda>_.
     let stored = rq_cookie rq;
         token = (case rq_apiKey rq of Some k \<Rightarrow> k | None \<Rightarrow> case stored of Some t \<Rightarrow> t | None \<Rightarrow> []) in
     rbind (route_limit wait Logout (Some (token_resource env token))) (\<lambda>_.
       Inr (if stored = None \<or> stored = Some [] \<or> stored = Some token then DeleteCookie else KeepCookie,
            logout env token db)))"

section \<open>Sign-in as a transition system\<close>

text \<open>Challenge ids are 24 random bytes: \<open>ly_seen\<close> records those drawn, a new one is not among them.\<close>

record login_sys =
  ly_db :: login_db
  ly_now :: int
  ly_seen :: "string list"

inductive login_step :: "login_sys \<Rightarrow> login_sys \<Rightarrow> bool" where
  login_time: "ly_now s \<le> now \<Longrightarrow> login_step s (s\<lparr>ly_now := now\<rparr>)"
| login_key: "\<forall>k \<in> set (ld_keys (ly_db s)). ak_keyHash k \<noteq> ak_keyHash key \<Longrightarrow>
    login_step s (s\<lparr>ly_db := (ly_db s)\<lparr>ld_keys := ld_keys (ly_db s) @ [key]\<rparr>\<rparr>)"
| login_put: "put (ly_now s) c (ly_db s) = Inr (u, db) \<Longrightarrow> lc_id c \<notin> set (ly_seen s) \<Longrightarrow>
    login_step s (s\<lparr>ly_db := db, ly_seen := lc_id c # ly_seen s\<rparr>)"
| login_consume: "consume (ly_now s) fresh_owner cid tokenHash expiresAt (ly_db s) = Inr (b, db) \<Longrightarrow>
    login_step s (s\<lparr>ly_db := db\<rparr>)"
| login_revoke: "login_step s (s\<lparr>ly_db := revoke tokenHash (ly_db s)\<rparr>)"

definition owner_ok :: "api_key_row list \<Rightarrow> account_row \<Rightarrow> bool" where
  "owner_ok keys a \<longleftrightarrow> (\<exists>k \<in> set keys. ak_keyHash k = ac_owner a \<and> ak_role k = ''wallet'')"

definition session_ok :: "account_row list \<Rightarrow> session_row \<Rightarrow> bool" where
  "session_ok accounts w \<longleftrightarrow> (\<exists>a \<in> set accounts. ac_address a = ws_address w \<and> ac_owner a = ws_owner w)"

definition challenges_ok :: "int \<Rightarrow> string list \<Rightarrow> challenge_row list \<Rightarrow> bool" where
  "challenges_ok now seen rows \<longleftrightarrow> unique_key cl_id rows \<and> cl_id ` set rows \<subseteq> set seen
     \<and> (\<forall>address client. length (challenges_of address client (delete_rows (\<lambda>c. cl_expires c \<le> now) rows)) \<le> 5)"

definition accounts_ok :: "api_key_row list \<Rightarrow> account_row list \<Rightarrow> bool" where
  "accounts_ok keys accounts \<longleftrightarrow> unique_key ak_keyHash keys \<and> unique_key ac_address accounts
     \<and> unique_key ac_owner accounts \<and> (\<forall>a \<in> set accounts. owner_ok keys a)"

definition sessions_ok :: "int \<Rightarrow> account_row list \<Rightarrow> session_row list \<Rightarrow> bool" where
  "sessions_ok now accounts rows \<longleftrightarrow> unique_key ws_token rows \<and> (\<forall>w \<in> set rows. session_ok accounts w)
     \<and> (\<forall>address. length (live_sessions now address rows) \<le> 10)"

definition login_ok :: "login_sys \<Rightarrow> bool" where
  "login_ok s \<longleftrightarrow> challenges_ok (ly_now s) (ly_seen s) (ld_challenges (ly_db s))
     \<and> accounts_ok (ld_keys (ly_db s)) (ld_accounts (ly_db s))
     \<and> sessions_ok (ly_now s) (ld_accounts (ly_db s)) (ld_sessions (ly_db s))"

definition login_start :: "login_sys \<Rightarrow> bool" where
  "login_start s \<longleftrightarrow> ld_challenges (ly_db s) = [] \<and> ld_accounts (ly_db s) = [] \<and> ld_sessions (ly_db s) = []
     \<and> unique_key ak_keyHash (ld_keys (ly_db s))"

text \<open>What stays: a challenge that is gone stays gone, accounts and keys are never replaced.\<close>

definition login_keeps :: "login_sys \<Rightarrow> login_sys \<Rightarrow> bool" where
  "login_keeps s t \<longleftrightarrow> set (ly_seen s) \<subseteq> set (ly_seen t)
     \<and> (\<forall>cid \<in> set (ly_seen s). cid \<notin> cl_id ` set (ld_challenges (ly_db s)) \<longrightarrow>
          cid \<notin> cl_id ` set (ld_challenges (ly_db t)))
     \<and> set (ld_accounts (ly_db s)) \<subseteq> set (ld_accounts (ly_db t))
     \<and> set (ld_keys (ly_db s)) \<subseteq> set (ld_keys (ly_db t))"

lemma length_filter_imp: "(\<And>x. P x \<Longrightarrow> Q x) \<Longrightarrow> length (filter P xs) \<le> length (filter Q xs)"
  by (induction xs) auto

lemma challenges_ok_later:
  assumes "challenges_ok now seen rows" and "now \<le> now'" and "set seen \<subseteq> set seen'"
  shows "challenges_ok now' seen' (delete_rows P rows)"
proof -
  have le: "length (challenges_of a c (delete_rows (\<lambda>r. cl_expires r \<le> now') (delete_rows P rows)))
      \<le> length (challenges_of a c (delete_rows (\<lambda>r. cl_expires r \<le> now) rows))" for a c
    using assms(2) by (auto simp: challenges_of_def delete_rows_def matching_rows_def intro!: length_filter_imp)
  have "length (challenges_of a c (delete_rows (\<lambda>r. cl_expires r \<le> now') (delete_rows P rows))) \<le> 5" for a c
    by (rule order_trans [OF le]) (use assms(1) in \<open>simp add: challenges_ok_def\<close>)
  moreover have "unique_key cl_id (delete_rows P rows)" "cl_id ` set (delete_rows P rows) \<subseteq> set seen'"
  proof -
    from assms(1) have "unique_key cl_id rows" "cl_id ` set rows \<subseteq> set seen" by (simp_all add: challenges_ok_def)
    moreover have "cl_id ` set (delete_rows P rows) \<subseteq> cl_id ` set rows" by (auto simp: row_simps)
    ultimately show "unique_key cl_id (delete_rows P rows)" "cl_id ` set (delete_rows P rows) \<subseteq> set seen'"
      using assms(3) by (blast intro: unique_key_delete)+
  qed
  ultimately show ?thesis by (simp add: challenges_ok_def)
qed

lemma sessions_ok_later:
  assumes "sessions_ok now accounts rows" and "now \<le> now'" and "set accounts \<subseteq> set accounts'"
  shows "sessions_ok now' accounts' (delete_rows P rows)"
proof -
  have le: "length (live_sessions now' a (delete_rows P rows)) \<le> length (live_sessions now a rows)" for a
    using assms(2) by (auto simp: live_sessions_def delete_rows_def matching_rows_def intro!: length_filter_imp)
  have "length (live_sessions now' a (delete_rows P rows)) \<le> 10" for a
    by (rule order_trans [OF le]) (use assms(1) in \<open>simp add: sessions_ok_def\<close>)
  moreover have "session_ok accounts' w" if "session_ok accounts w" for w
    using that assms(3) unfolding session_ok_def by blast
  ultimately show ?thesis
    using assms(1) by (simp add: sessions_ok_def unique_key_delete row_simps)
qed

lemma delete_none: "delete_rows (\<lambda>_. False) rows = rows"
  by (simp add: delete_rows_def)

lemma time_ok: "login_ok s \<Longrightarrow> ly_now s \<le> now \<Longrightarrow> login_ok (s\<lparr>ly_now := now\<rparr>)"
  using challenges_ok_later [of "ly_now s" "ly_seen s" _ now "ly_seen s" "\<lambda>_. False"]
    sessions_ok_later [of "ly_now s" "ld_accounts (ly_db s)" _ now "ld_accounts (ly_db s)" "\<lambda>_. False"]
  by (simp add: login_ok_def delete_none)

lemma revoke_ok: "login_ok s \<Longrightarrow> login_ok (s\<lparr>ly_db := revoke tokenHash (ly_db s)\<rparr>)"
  using sessions_ok_later [of "ly_now s" "ld_accounts (ly_db s)" _ "ly_now s" "ld_accounts (ly_db s)"]
  by (simp add: login_ok_def revoke_def)

lemma key_ok:
  "login_ok s \<Longrightarrow> \<forall>k \<in> set (ld_keys (ly_db s)). ak_keyHash k \<noteq> ak_keyHash key \<Longrightarrow>
    login_ok (s\<lparr>ly_db := (ly_db s)\<lparr>ld_keys := ld_keys (ly_db s) @ [key]\<rparr>\<rparr>)"
  by (auto simp: login_ok_def accounts_ok_def unique_key_snoc owner_ok_def image_iff)

lemma put_ok:
  assumes ok: "login_ok s" and new: "put (ly_now s) c (ly_db s) = Inr (u, db)" "lc_id c \<notin> set (ly_seen s)"
  shows "login_ok (s\<lparr>ly_db := db, ly_seen := lc_id c # ly_seen s\<rparr>)"
proof -
  let ?client = "case lc_clientHash c of Some h \<Rightarrow> h | None \<Rightarrow> legacy_client"
  let ?row = "\<lparr>cl_id = lc_id c, cl_address = lc_address c, cl_message = lc_message c,
      cl_expires = lc_expiresAt c, cl_client = ?client\<rparr>"
  let ?live = "delete_rows (\<lambda>c. cl_expires c \<le> ly_now s) (ld_challenges (ly_db s))"
  from new(1) have db: "db = (drop_expired (ly_now s) (ly_db s))\<lparr>ld_challenges := ?live @ [?row]\<rparr>"
    and few: "length (challenges_of (lc_address c) ?client ?live) < 5"
    by (auto simp: put_def Let_def drop_expired_def split: if_splits)
  have live: "challenges_ok (ly_now s) (ly_seen s) ?live"
    using ok by (auto simp: login_ok_def intro: challenges_ok_later)
  have idem: "delete_rows (\<lambda>c. cl_expires c \<le> ly_now s) ?live = ?live" by (simp add: delete_rows_def)
  have "length (challenges_of a cl (delete_rows (\<lambda>c. cl_expires c \<le> ly_now s) (?live @ [?row]))) \<le> 5" for a cl
  proof -
    have "length (challenges_of a cl ?live) \<le> 5" using live idem by (auto simp: challenges_ok_def)
    moreover have "delete_rows (\<lambda>c. cl_expires c \<le> ly_now s) (?live @ [?row])
        = ?live @ delete_rows (\<lambda>c. cl_expires c \<le> ly_now s) [?row]"
      using idem by (simp add: delete_rows_def)
    ultimately show ?thesis
      using few by (auto simp: challenges_of_def matching_rows_def delete_rows_def)
  qed
  moreover have "lc_id c \<notin> cl_id ` set ?live" using live new(2) by (auto simp: challenges_ok_def)
  ultimately have "challenges_ok (ly_now s) (lc_id c # ly_seen s) (?live @ [?row])"
    using live by (auto simp: challenges_ok_def unique_key_snoc)
  then show ?thesis
    using ok by (auto simp: login_ok_def db drop_expired_def intro: sessions_ok_later)
qed

lemma consume_Inr:
  assumes "consume dbnow fresh_owner cid tokenHash expiresAt db = Inr (b, db')"
  obtains (missing) "b = False" and "db' = db" and "get_challenge dbnow cid db = None"
  | (login) c owner where "b = True" and "get_challenge dbnow cid db = Some c"
      and "db' = db\<lparr>ld_challenges := delete_rows (\<lambda>r. cl_id r = cid \<and> cl_expires r > dbnow) (ld_challenges db),
             ld_keys := ld_keys db', ld_accounts := ld_accounts db',
             ld_sessions := ld_sessions db @ [\<lparr>ws_token = tokenHash, ws_owner = owner,
                ws_address = cl_address c, ws_expires = expiresAt\<rparr>]\<rparr>"
      and "length (live_sessions dbnow (cl_address c) (ld_sessions db)) < 10"
      and "\<forall>w \<in> set (ld_sessions db). ws_token w \<noteq> tokenHash"
      and "(\<exists>a \<in> set (ld_accounts db). ac_address a = cl_address c \<and> ac_owner a = owner)
             \<and> ld_keys db' = ld_keys db \<and> ld_accounts db' = ld_accounts db
         \<or> owner = fresh_owner \<and> (\<forall>a \<in> set (ld_accounts db). ac_address a \<noteq> cl_address c \<and> ac_owner a \<noteq> owner)
             \<and> (\<forall>k \<in> set (ld_keys db). ak_keyHash k \<noteq> owner)
             \<and> ld_keys db' = ld_keys db @ [\<lparr>ak_keyHash = owner, ak_label = ''Wallet '' @ cl_address c, ak_role = ''wallet''\<rparr>]
             \<and> ld_accounts db' = ld_accounts db @ [\<lparr>ac_address = cl_address c, ac_owner = owner\<rparr>]"
proof (cases "get_challenge dbnow cid db")
  case None
  with assms missing show ?thesis by (simp add: consume_def)
next
  case (Some c)
  let ?db1 = "db\<lparr>ld_challenges := delete_rows (\<lambda>r. cl_id r = cid \<and> cl_expires r > dbnow) (ld_challenges db)\<rparr>"
  from assms Some obtain owner db2 where acc: "ensure_account fresh_owner (cl_address c) ?db1 = Inr (owner, db2)"
    and few: "length (live_sessions dbnow (cl_address c) (ld_sessions db2)) < 10"
    and tok: "\<forall>w \<in> set (ld_sessions db2). ws_token w \<noteq> tokenHash" and b: "b = True"
    and db': "db' = db2\<lparr>ld_sessions := ld_sessions db2 @
                     [\<lparr>ws_token = tokenHash, ws_owner = owner, ws_address = cl_address c, ws_expires = expiresAt\<rparr>]\<rparr>"
    by (auto simp: consume_def Let_def rbind_Inr_iff list_ex_iff split: if_splits)
  show ?thesis
  proof (cases "select_row (\<lambda>a. ac_address a = cl_address c) (ld_accounts db)")
    case (Some a)
    with acc have "db2 = ?db1" "owner = ac_owner a" by (auto simp: ensure_account_def)
    moreover from Some have "a \<in> set (ld_accounts db)" "ac_address a = cl_address c"
      by (auto dest: select_row_Some)
    ultimately show ?thesis
      using \<open>get_challenge dbnow cid db = Some c\<close> few tok b db' by (intro login) auto
  next
    case None
    with acc have "owner = fresh_owner" "\<forall>k \<in> set (ld_keys db). ak_keyHash k \<noteq> owner"
      "\<forall>a \<in> set (ld_accounts db). ac_owner a \<noteq> owner"
      "db2 = ?db1\<lparr>ld_keys := ld_keys db @ [\<lparr>ak_keyHash = owner, ak_label = ''Wallet '' @ cl_address c, ak_role = ''wallet''\<rparr>],
             ld_accounts := ld_accounts db @ [\<lparr>ac_address = cl_address c, ac_owner = owner\<rparr>]\<rparr>"
      by (auto simp: ensure_account_def list_ex_iff split: if_splits)
    moreover from None have "\<forall>a \<in> set (ld_accounts db). ac_address a \<noteq> cl_address c" by (simp add: select_row_None)
    ultimately show ?thesis
      using Some few tok b db' by (intro login) auto
  qed
qed

lemma session_ok_mono: "session_ok accounts w \<Longrightarrow> set accounts \<subseteq> set accounts' \<Longrightarrow> session_ok accounts' w"
  by (auto simp: session_ok_def)

lemma login_consume_ok:
  assumes ok: "login_ok s" and "consume (ly_now s) fresh_owner cid tokenHash expiresAt (ly_db s) = Inr (b, db)"
  shows "login_ok (s\<lparr>ly_db := db\<rparr>)
    \<and> set (ld_accounts (ly_db s)) \<subseteq> set (ld_accounts db) \<and> set (ld_keys (ly_db s)) \<subseteq> set (ld_keys db)
    \<and> cl_id ` set (ld_challenges db) \<subseteq> cl_id ` set (ld_challenges (ly_db s))"
  using assms(2)
proof (rule consume_Inr)
  fix c owner
  let ?w = "\<lparr>ws_token = tokenHash, ws_owner = owner, ws_address = cl_address c, ws_expires = expiresAt\<rparr>"
  assume db: "db = (ly_db s)\<lparr>ld_challenges := delete_rows (\<lambda>r. cl_id r = cid \<and> cl_expires r > ly_now s) (ld_challenges (ly_db s)),
             ld_keys := ld_keys db, ld_accounts := ld_accounts db,
             ld_sessions := ld_sessions (ly_db s) @ [?w]\<rparr>"
    and few: "length (live_sessions (ly_now s) (cl_address c) (ld_sessions (ly_db s))) < 10"
    and tok: "\<forall>w \<in> set (ld_sessions (ly_db s)). ws_token w \<noteq> tokenHash"
    and acc: "(\<exists>a \<in> set (ld_accounts (ly_db s)). ac_address a = cl_address c \<and> ac_owner a = owner)
             \<and> ld_keys db = ld_keys (ly_db s) \<and> ld_accounts db = ld_accounts (ly_db s)
         \<or> owner = fresh_owner \<and> (\<forall>a \<in> set (ld_accounts (ly_db s)). ac_address a \<noteq> cl_address c \<and> ac_owner a \<noteq> owner)
             \<and> (\<forall>k \<in> set (ld_keys (ly_db s)). ak_keyHash k \<noteq> owner)
             \<and> ld_keys db = ld_keys (ly_db s) @ [\<lparr>ak_keyHash = owner, ak_label = ''Wallet '' @ cl_address c, ak_role = ''wallet''\<rparr>]
             \<and> ld_accounts db = ld_accounts (ly_db s) @ [\<lparr>ac_address = cl_address c, ac_owner = owner\<rparr>]"
  let ?s = "ly_db s"
  have accounts: "accounts_ok (ld_keys ?s) (ld_accounts ?s)" and sess: "sessions_ok (ly_now s) (ld_accounts ?s) (ld_sessions ?s)"
    and chal: "challenges_ok (ly_now s) (ly_seen s) (ld_challenges ?s)"
    using ok by (simp_all add: login_ok_def)
  have sub: "set (ld_accounts ?s) \<subseteq> set (ld_accounts db)" "set (ld_keys ?s) \<subseteq> set (ld_keys db)"
    using acc by auto
  have mine: "session_ok (ld_accounts db) ?w" using acc by (auto simp: session_ok_def)
  have "accounts_ok (ld_keys db) (ld_accounts db)"
    using acc accounts by (auto simp: accounts_ok_def unique_key_snoc owner_ok_def image_iff; blast)
  moreover have "sessions_ok (ly_now s) (ld_accounts db) (ld_sessions ?s @ [?w])"
  proof -
    have "length (live_sessions (ly_now s) a (ld_sessions ?s @ [?w])) \<le> 10" for a
      using few sess by (auto simp: sessions_ok_def live_sessions_def matching_rows_def)
    moreover have "\<forall>w \<in> set (ld_sessions ?s). session_ok (ld_accounts db) w"
      using sess sub(1) by (auto simp: sessions_ok_def intro: session_ok_mono)
    ultimately show ?thesis using sess tok mine by (auto simp: sessions_ok_def unique_key_snoc)
  qed
  moreover have "challenges_ok (ly_now s) (ly_seen s)
      (delete_rows (\<lambda>r. cl_id r = cid \<and> cl_expires r > ly_now s) (ld_challenges ?s))"
    by (rule challenges_ok_later [OF chal]) simp_all
  moreover have "ld_challenges db = delete_rows (\<lambda>r. cl_id r = cid \<and> cl_expires r > ly_now s) (ld_challenges ?s)"
    "ld_sessions db = ld_sessions ?s @ [?w]"
    by (subst db, simp)+
  ultimately show ?thesis using sub by (auto simp: login_ok_def row_simps)
qed (use ok in simp)

lemma put_keeps:
  assumes "put (ly_now s) c (ly_db s) = Inr (u, db)" and "lc_id c \<notin> set (ly_seen s)"
  shows "login_keeps s (s\<lparr>ly_db := db, ly_seen := lc_id c # ly_seen s\<rparr>)"
  using assms by (auto simp: login_keeps_def put_def Let_def drop_expired_def row_simps split: if_splits)

lemma login_step_ok:
  assumes "login_step s t" and "login_ok s"
  shows "login_ok t \<and> login_keeps s t"
  using assms
proof (induction rule: login_step.induct)
  case (login_consume s fresh_owner cid tokenHash expiresAt b db)
  from login_consume_ok [OF login_consume(2,1)] show ?case by (auto simp: login_keeps_def)
qed (auto simp: time_ok key_ok put_ok revoke_ok put_keeps, auto simp: login_keeps_def revoke_def)

interpretation login: history_system login_start login_step login_ok login_keeps
proof unfold_locales
  show "login_ok s" if "login_start s" for s
    using that by (simp add: login_start_def login_ok_def challenges_ok_def accounts_ok_def sessions_ok_def
        challenges_of_def live_sessions_def matching_rows_def delete_rows_def)
  show "login_keeps s s" for s by (simp add: login_keeps_def)
  show "login_keeps s u" if "login_keeps s t" "login_keeps t u" for s t u
    using that unfolding login_keeps_def by blast
qed (use login_step_ok in auto)

section \<open>Properties\<close>

lemma gone_is_unavailable:
  "cid \<notin> cl_id ` set (ld_challenges db) \<Longrightarrow> get_challenge dbnow cid db = None"
  by (auto simp: get_challenge_def select_row_None)

text \<open>
  A login challenge works once: after a login that used it has committed, no later login with
  the same challenge succeeds, whatever requests, sweeps and clock moves come in between.
\<close>

theorem login_challenge_single_use:
  assumes "reachable login_start login_step s"
    and used: "consume (ly_now s) owner cid tokenHash expiresAt (ly_db s) = Inr (True, db)"
    and run: "login_step\<^sup>*\<^sup>* (s\<lparr>ly_db := db\<rparr>) t"
  shows "get_challenge now' cid (ly_db t) = None
    \<and> consume now' owner' cid tokenHash' expiresAt' (ly_db t) = Inr (False, ly_db t)
    \<and> (\<exists>e. verify env now' clock random owner' id cid signature (ly_db t) = (Inl e, ly_db t))"
proof -
  have ok: "login_ok s" by (rule login.inv_reachable [OF assms(1)])
  have "login_step s (s\<lparr>ly_db := db\<rparr>)" using used by (rule login_consume)
  with assms(1) have r: "reachable login_start login_step (s\<lparr>ly_db := db\<rparr>)" by (rule reachable_step)
  have "cid \<in> set (ly_seen s) \<and> cid \<notin> cl_id ` set (ld_challenges db)"
    using used
  proof (rule consume_Inr)
    fix c owner2
    assume c: "get_challenge (ly_now s) cid (ly_db s) = Some c"
      and db: "db = (ly_db s)\<lparr>ld_challenges := delete_rows (\<lambda>r. cl_id r = cid \<and> cl_expires r > ly_now s) (ld_challenges (ly_db s)),
             ld_keys := ld_keys db, ld_accounts := ld_accounts db,
             ld_sessions := ld_sessions (ly_db s) @ [\<lparr>ws_token = tokenHash, ws_owner = owner2,
                ws_address = cl_address c, ws_expires = expiresAt\<rparr>]\<rparr>"
    from c have c_in: "c \<in> set (ld_challenges (ly_db s))" "cl_id c = cid" "cl_expires c > ly_now s"
      by (auto simp: get_challenge_def dest: select_row_Some)
    have u: "unique_key cl_id (ld_challenges (ly_db s))" "cl_id ` set (ld_challenges (ly_db s)) \<subseteq> set (ly_seen s)"
      using ok by (simp_all add: login_ok_def challenges_ok_def)
    have "ld_challenges db = delete_rows (\<lambda>r. cl_id r = cid \<and> cl_expires r > ly_now s) (ld_challenges (ly_db s))"
      by (subst db) simp
    moreover have "r = c" if "r \<in> set (ld_challenges (ly_db s))" "cl_id r = cid" for r
      using unique_key_eq [OF u(1) that(1) c_in(1)] that(2) c_in(2) by simp
    ultimately have "cid \<notin> cl_id ` set (ld_challenges db)" using c_in(3) by (auto simp: row_simps)
    moreover have "cid \<in> set (ly_seen s)" using c_in(1,2) u(2) by blast
    ultimately show ?thesis by blast
  qed simp
  moreover have "login_keeps (s\<lparr>ly_db := db\<rparr>) t" by (rule login.keeps_from_reachable [OF r run])
  ultimately have none: "get_challenge d cid (ly_db t) = None" for d
    by (auto simp: login_keeps_def intro: gone_is_unavailable)
  then show ?thesis by (simp add: consume_def verify_def check_signature_def)
qed

definition demo_login_sys :: login_sys where
  "demo_login_sys = \<lparr>ly_db = \<lparr>ld_challenges = [\<lparr>cl_id = ''c'', cl_address = ''a'', cl_message = ''m'', cl_expires = 9,
       cl_client = ''x''\<rparr>], ld_accounts = [], ld_sessions = [], ld_keys = []\<rparr>, ly_now = 1, ly_seen = [''c'']\<rparr>"

lemma demo_login_reachable: "reachable login_start login_step demo_login_sys"
proof -
  let ?s = "\<lparr>ly_db = \<lparr>ld_challenges = [], ld_accounts = [], ld_sessions = [], ld_keys = []\<rparr>, ly_now = 1, ly_seen = []\<rparr>"
  have "reachable login_start login_step ?s" by (rule reachable_start) (simp add: login_start_def)
  moreover have "put 1 \<lparr>lc_id = ''c'', lc_address = ''a'', lc_message = ''m'', lc_expiresAt = 9, lc_clientHash = Some ''x''\<rparr>
      (ly_db ?s) = Inr ((), ly_db demo_login_sys)"
    by (simp add: put_def drop_expired_def delete_rows_def challenges_of_def matching_rows_def demo_login_sys_def)
  then have "login_step ?s demo_login_sys"
    using login_put [of ?s "\<lparr>lc_id = ''c'', lc_address = ''a'', lc_message = ''m'', lc_expiresAt = 9, lc_clientHash = Some ''x''\<rparr>"]
    by (simp add: demo_login_sys_def)
  ultimately show ?thesis by (rule reachable_step)
qed

theorem login_challenge_single_use_witness:
  "\<exists>db. consume 1 ''o'' ''c'' ''t'' 50 (ly_db demo_login_sys) = Inr (True, db)
     \<and> consume 2 ''p'' ''c'' ''u'' 50 db = Inr (False, db)"
proof -
  obtain db where used: "consume (ly_now demo_login_sys) ''o'' ''c'' ''t'' 50 (ly_db demo_login_sys) = Inr (True, db)"
    by (simp add: demo_login_sys_def consume_def get_challenge_def ensure_account_def live_sessions_def matching_rows_def)
  have "login_step\<^sup>*\<^sup>* (demo_login_sys\<lparr>ly_db := db\<rparr>) (demo_login_sys\<lparr>ly_db := db\<rparr>)" by simp
  from login_challenge_single_use [OF demo_login_reachable used this] used show ?thesis
    by (auto simp: demo_login_sys_def)
qed

text \<open>
  In every reachable state a wallet session belongs to the one account of its address and to
  that account's key, which has the role wallet and never administrator rights; an address has at
  most ten live sessions, and at most five live challenges per client.
\<close>

theorem wallet_sessions_confined:
  assumes "reachable login_start login_step s"
  shows "(\<forall>w \<in> set (ld_sessions (ly_db s)). \<exists>a \<in> set (ld_accounts (ly_db s)).
      ac_address a = ws_address w \<and> ac_owner a = ws_owner w
      \<and> (\<forall>b \<in> set (ld_accounts (ly_db s)). ac_address b = ws_address w \<or> ac_owner b = ws_owner w \<longrightarrow> b = a))
    \<and> (wallet_token token \<longrightarrow> requireAdmin env enabled now token (ly_db s) \<noteq> Inr keyHash)
    \<and> length (live_sessions (ly_now s) address (ld_sessions (ly_db s))) \<le> 10
    \<and> length (challenges_of address client (delete_rows (\<lambda>c. cl_expires c \<le> ly_now s) (ld_challenges (ly_db s)))) \<le> 5"
proof -
  have ok: "login_ok s" by (rule login.inv_reachable [OF assms])
  then have acc: "accounts_ok (ld_keys (ly_db s)) (ld_accounts (ly_db s))"
    and sess: "sessions_ok (ly_now s) (ld_accounts (ly_db s)) (ld_sessions (ly_db s))"
    and chal: "challenges_ok (ly_now s) (ly_seen s) (ld_challenges (ly_db s))"
    by (simp_all add: login_ok_def)
  have one: "\<exists>a \<in> set (ld_accounts (ly_db s)). ac_address a = ws_address w \<and> ac_owner a = ws_owner w
      \<and> (\<forall>b \<in> set (ld_accounts (ly_db s)). ac_address b = ws_address w \<or> ac_owner b = ws_owner w \<longrightarrow> b = a)"
    if w: "w \<in> set (ld_sessions (ly_db s))" for w
  proof -
    from sess w obtain a where a: "a \<in> set (ld_accounts (ly_db s))" "ac_address a = ws_address w" "ac_owner a = ws_owner w"
      by (auto simp: sessions_ok_def session_ok_def)
    have u: "unique_key ac_address (ld_accounts (ly_db s))" "unique_key ac_owner (ld_accounts (ly_db s))"
      using acc by (simp_all add: accounts_ok_def)
    have "b = a" if "b \<in> set (ld_accounts (ly_db s))" "ac_address b = ws_address w \<or> ac_owner b = ws_owner w" for b
      using that a unique_key_eq [OF u(1) that(1) a(1)] unique_key_eq [OF u(2) that(1) a(1)] by auto
    with a show ?thesis by blast
  qed
  moreover have "requireAdmin env enabled now token (ly_db s) \<noteq> Inr keyHash" if t: "wallet_token token"
  proof
    assume admin: "requireAdmin env enabled now token (ly_db s) = Inr keyHash"
    from t have "starts_with token ''enws_''" by (simp add: wallet_token_def)
    with admin obtain w where w: "session now (login_sha env token) (ly_db s) = Some w" "ws_owner w = keyHash"
      and role: "map_option ak_role (select_row (\<lambda>k. ak_keyHash k = keyHash) (ld_keys (ly_db s))) = Some ''admin''"
      by (auto simp: requireAdmin_def requireKey_def rbind_Inr_iff require_Inr_iff split: if_splits option.splits)
    from w(1) have "w \<in> set (ld_sessions (ly_db s))" by (auto simp: session_def dest: select_row_Some)
    with one w(2) obtain a where "a \<in> set (ld_accounts (ly_db s))" "ac_owner a = keyHash" by blast
    with acc obtain k where k: "k \<in> set (ld_keys (ly_db s))" "ak_keyHash k = keyHash" "ak_role k = ''wallet''"
      by (auto simp: accounts_ok_def owner_ok_def)
    have "unique_key ak_keyHash (ld_keys (ly_db s))" using acc by (simp add: accounts_ok_def)
    from select_row_key [OF this k(1)] k(2,3) role show False by simp
  qed
  ultimately show ?thesis using sess chal by (simp add: sessions_ok_def challenges_ok_def)
qed

theorem wallet_sessions_confined_witness:
  "length (challenges_of ''a'' ''x'' (delete_rows (\<lambda>c. cl_expires c \<le> 1) (ld_challenges (ly_db demo_login_sys)))) \<le> 5"
  using wallet_sessions_confined [OF demo_login_reachable, where address = "''a''" and client = "''x''"] by (simp add: demo_login_sys_def)

lemma verify_Inr:
  assumes "verify env dbnow now random fresh_owner between cid signature db = (Inr r, db')"
  obtains c where "get_challenge dbnow cid db = Some c" and "check_signature env now (Some c) signature = Inr (lr_address r)"
    and "consume dbnow fresh_owner cid (login_sha env (lr_token r)) (lr_expiresAt r) (between db) = Inr (True, db')"
    and "lr_token r = ''enws_'' @ random" and "lr_expiresAt r = now + session_lifetime_ms"
proof -
  from assms obtain signer where sig: "check_signature env now (get_challenge dbnow cid db) signature = Inr signer"
    by (auto simp: verify_def split: sum.splits)
  then obtain c where c: "get_challenge dbnow cid db = Some c"
    by (auto simp: check_signature_def rbind_Inr_iff of_option_Inr_iff)
  with assms sig that show ?thesis
    by (auto simp: verify_def Let_def run_tx_def split: sum.splits bool.splits prod.splits)
qed


definition demo_login_env :: login_env where
  "demo_login_env = \<lparr>le_origin = ''https://e'', le_host = ''e'', le_sha = (\<lambda>b. b), le_createSiwe = (\<lambda>f. sw_nonce f),
     le_parseSiwe = (\<lambda>m. \<lparr>sp_domain = Some ''e'', sp_uri = Some ''https://e/dashboard'', sp_chainId = Some 5042,
       sp_nonce = Some ''c'', sp_address = Some ''A'', sp_expirationTime = Some 9\<rparr>),
     le_getAddress = Some, le_recover = (\<lambda>_ _. Some ''A''), le_isIP = (\<lambda>_. 4), le_hostname = id\<rparr>"

lemma demo_lower: "lower ''A'' = ''a''"
  by code_simp

lemma demo_check: "check_signature demo_login_env 1 (get_challenge 1 ''c'' (ly_db demo_login_sys)) ''s'' = Inr ''A''"
  by (simp add: check_signature_def get_challenge_def demo_login_sys_def demo_login_env_def scope_unchanged_def
      dashboard_uri_def demo_lower)


text \<open>The documented behaviour of viem's SIWE functions: parsing gives back what was created.\<close>

definition siwe_roundtrip :: "login_env \<Rightarrow> siwe_fields \<Rightarrow> bool" where
  "siwe_roundtrip env f \<longleftrightarrow> le_parseSiwe env (le_createSiwe env f) =
     \<lparr>sp_domain = Some (sw_domain f), sp_uri = Some (sw_uri f), sp_chainId = Some (sw_chainId f),
      sp_nonce = Some (sw_nonce f), sp_address = Some (sw_address f), sp_expirationTime = Some (sw_expirationTime f)\<rparr>"

text \<open>
  A challenge that was issued can be answered: within its five minutes the wallet's signature
  of the issued message passes every check of the verification.
\<close>

theorem issued_challenge_verifies:
  assumes addr: "le_getAddress env address = Some checksum"
    and siwe: "siwe_roundtrip env (challenge_fields env now cid checksum)"
    and issued: "challenge env dbnow now cid address client db = Inr ((cid', message, expiresAt), db')"
    and fresh: "\<forall>c \<in> set (ld_challenges db). cl_id c \<noteq> cid"
    and signed: "le_recover env message signature = Some signer" "lower signer = lower checksum"
    and time: "dbnow' < expiresAt" "clock < expiresAt"
  shows "check_signature env clock (get_challenge dbnow' cid db') signature = Inr signer
    \<and> expiresAt = now + challenge_lifetime_ms"
proof -
  from issued addr obtain client' where msg: "message = le_createSiwe env (challenge_fields env now cid checksum)" "expiresAt = now + challenge_lifetime_ms"
    and rows: "ld_challenges db' = delete_rows (\<lambda>c. cl_expires c \<le> dbnow) (ld_challenges db)
        @ [\<lparr>cl_id = cid, cl_address = lower checksum, cl_message = message, cl_expires = expiresAt, cl_client = client'\<rparr>]"
    by (auto simp: challenge_def put_def Let_def drop_expired_def rbind_Inr_iff of_option_Inr_iff split: if_splits)
  let ?c = "\<lparr>cl_id = cid, cl_address = lower checksum, cl_message = message, cl_expires = expiresAt, cl_client = client'\<rparr>"
  have "select_row (\<lambda>c. cl_id c = cid \<and> cl_expires c > dbnow') (delete_rows (\<lambda>c. cl_expires c \<le> dbnow) (ld_challenges db)) = None"
    using fresh by (auto simp: select_row_None row_simps)
  then have "get_challenge dbnow' cid db' = Some ?c"
    using time(1) by (simp add: get_challenge_def rows select_row_snoc)
  moreover have "scope_unchanged env ?c"
    using siwe by (simp add: scope_unchanged_def siwe_roundtrip_def msg challenge_fields_def Let_def)
  ultimately show ?thesis
    using signed time(2) msg(2) by (simp add: check_signature_def)
qed

theorem issued_challenge_verifies_witness:
  "\<exists>env db. check_signature env 2 (get_challenge 2 ''c'' db) ''s'' = Inr ''A''"
proof -
  let ?env = "demo_login_env\<lparr>le_createSiwe := (\<lambda>_. ''m''), le_parseSiwe := (\<lambda>_. \<lparr>sp_domain = Some ''e'',
       sp_uri = Some ''https://e/dashboard'', sp_chainId = Some 5042, sp_nonce = Some ''c'', sp_address = Some ''A'',
       sp_expirationTime = Some 300001\<rparr>)\<rparr>"
  let ?db = "\<lparr>ld_challenges = [], ld_accounts = [], ld_sessions = [], ld_keys = []\<rparr>"
  have a: "le_getAddress ?env ''A'' = Some ''A''" by (simp add: demo_login_env_def)
  have siwe: "siwe_roundtrip ?env (challenge_fields ?env 1 ''c'' ''A'')"
    by (simp add: siwe_roundtrip_def challenge_fields_def dashboard_uri_def demo_login_env_def challenge_lifetime_ms_def)
  obtain db where issued: "challenge ?env 1 1 ''c'' ''A'' None ?db = Inr ((''c'', ''m'', 300001), db)"
    by (simp add: demo_login_env_def challenge_def put_def drop_expired_def delete_rows_def challenges_of_def matching_rows_def
        challenge_lifetime_ms_def Let_def)
  have "le_recover ?env ''m'' ''s'' = Some ''A''" by (simp add: demo_login_env_def)
  from issued_challenge_verifies [OF a siwe issued _ this, of 2 2]
  have "check_signature ?env 2 (get_challenge 2 ''c'' db) ''s'' = Inr ''A''" by simp
  then show ?thesis by (intro exI)
qed

end
