(* ===== verification/Signer_Journal.thy ===== *)
theory Signer_Journal
  imports Core_Money
begin

text \<open>
  The durable signer of \<open>db/src/signer.ts\<close> over the table \<open>chain_transactions\<close> of \<open>db/src/schema.ts\<close>:
  signed bytes are committed before they are broadcast, and replayed as they are after a crash or a
  reorganisation.

  What the RPC node answers during one transaction is the record \<open>chain_view\<close>: a missing block or
  receipt is \<open>None\<close>, any other RPC failure an error. Broadcasts cannot be rolled back, so every
  operation also returns the rows it sent, in order, next to its result. The table row's random id and
  the preparation and signature of a transaction are arguments.
\<close>

section \<open>State\<close>

record journal_row =
  jr_id :: string
  jr_scope :: string
  jr_operationKey :: string
  jr_requestHash :: string
  jr_signer :: string
  jr_nonce :: int
  jr_raw :: string
  jr_confirmedBlockNumber :: "int option"
  jr_confirmedBlockHash :: "string option"
  jr_txHash :: string
  jr_status :: string

datatype signer_error =
    TransactionRevertedError string
  | TransactionProofError string string
  | SignerNonceConflictError string int
  | SignerError enclave_error

record tx_log =
  tl_address :: string
  tl_topics :: "string list"
  tl_data :: string

record tx_receipt =
  tr_hash :: string
  tr_blockNumber :: int
  tr_blockHash :: string
  tr_success :: bool
  tr_logs :: "tx_log list"

text \<open>
  \<open>cv_send\<close> and \<open>cv_observed\<close> are the hashes that sending and looking up a transaction answer;
  \<open>cv_prepare\<close> and \<open>cv_sign\<close> are viem's preparation and signature.
\<close>

record chain_view =
  cv_chainId :: "enclave_error + int"
  cv_genesis :: "enclave_error + string option"
  cv_head :: "enclave_error + int"
  cv_block :: "int \<Rightarrow> enclave_error + string option"
  cv_receipt :: "string \<Rightarrow> enclave_error + tx_receipt option"
  cv_minedNonce :: "journal_row \<Rightarrow> enclave_error + int"
  cv_pendingNonce :: "enclave_error + int"
  cv_send :: "string \<Rightarrow> enclave_error + string"
  cv_observed :: "string \<Rightarrow> enclave_error + string"
  cv_prepare :: "int \<Rightarrow> enclave_error + prepared_tx"
  cv_sign :: "int \<Rightarrow> prepared_tx \<Rightarrow> enclave_error + string"

record signer_options =
  so_chainId :: int
  so_address :: string
  so_confirmations :: "js_number option"
  so_keccak :: hash_fun

record contract_call =
  cc_address :: string
  cc_data :: string
  cc_value :: "int option"

definition lift_error :: "enclave_error + 'a \<Rightarrow> signer_error + 'a" where
  "lift_error m = (case m of Inl e \<Rightarrow> Inl (SignerError e) | Inr x \<Rightarrow> Inr x)"

section \<open>Reading the chain\<close>

definition confirmationDepth :: "signer_options \<Rightarrow> signer_error + int" where
  "confirmationDepth opts =
     (let v = (case so_confirmations opts of Some n \<Rightarrow> n
               | None \<Rightarrow> if so_chainId opts \<in> {31337, 1337} then JInt 0 else JInt 12)
      in if \<not> is_safe_integer v \<or> int_of v < 0 \<or> int_of v > 100000
         then Inl (SignerError (PlainError ''Invalid signer confirmation depth''))
         else Inr (int_of v))"

definition scopeFor :: "signer_options \<Rightarrow> chain_view \<Rightarrow> signer_error + string" where
  "scopeFor opts view =
     rbind (lift_error (cv_chainId view)) (\<lambda>chain.
     rbind (require (chain = so_chainId opts)
       (SignerError (PlainError ''RPC chain ID does not match configured signer''))) (\<lambda>_.
     rbind (lift_error (cv_genesis view)) (\<lambda>genesis.
     rbind (of_option (SignerError (PlainError ''RPC did not return a canonical genesis block'')) genesis) (\<lambda>hash.
       Inr (int_dec (so_chainId opts) @ '':'' @ hash)))))"

definition canonicalReceipt :: "chain_view \<Rightarrow> string \<Rightarrow> signer_error + tx_receipt option" where
  "canonicalReceipt view hash =
     rbind (lift_error (cv_receipt view hash)) (\<lambda>found.
       case found of
         None \<Rightarrow> Inr None
       | Some receipt \<Rightarrow>
           if \<not> same (tr_hash receipt) hash
           then Inl (TransactionProofError hash ''RPC returned a different transaction'')
           else rbind (lift_error (cv_block view (tr_blockNumber receipt))) (\<lambda>block.
             Inr (if map_option lower block = Some (lower (tr_blockHash receipt)) then Some receipt else None)))"

text \<open>Sending; an error is forgiven only if the node knows precisely this hash.\<close>

definition broadcast :: "chain_view \<Rightarrow> journal_row \<Rightarrow> signer_error + unit" where
  "broadcast view row =
     (let failure = (case cv_send view (jr_raw row) of
          Inl e \<Rightarrow> Some (SignerError e)
        | Inr hash \<Rightarrow> if same hash (jr_txHash row) then None
                       else Some (TransactionProofError (jr_txHash row) ''RPC returned a different broadcast hash''))
      in case failure of
           None \<Rightarrow> Inr ()
         | Some e \<Rightarrow>
             (case cv_observed view (jr_txHash row) of
                Inr hash \<Rightarrow> if same hash (jr_txHash row) then Inr () else Inl e
              | Inl _ \<Rightarrow> Inl e))"

section \<open>Reconciling the journal\<close>

text \<open>A recorded proof that still stands: its block is canonical and deep enough.\<close>

definition proof_stands :: "chain_view \<Rightarrow> int \<Rightarrow> int \<Rightarrow> journal_row \<Rightarrow> enclave_error + bool" where
  "proof_stands view depth head row =
     (case (jr_confirmedBlockNumber row, jr_confirmedBlockHash row) of
        (Some number, Some hash) \<Rightarrow>
          if jr_status row \<in> {''confirmed'', ''reverted''}
          then rmap (\<lambda>block. map_option lower block = Some (lower hash) \<and> head \<ge> number + depth) (cv_block view number)
          else Inr False
      | _ \<Rightarrow> Inr False)"

definition receipt_state :: "int \<Rightarrow> int \<Rightarrow> tx_receipt \<Rightarrow> journal_row \<Rightarrow> journal_row" where
  "receipt_state depth head receipt row =
     (let finalized = head \<ge> tr_blockNumber receipt + depth in
      row\<lparr>jr_status := (if finalized then (if tr_success receipt then ''confirmed'' else ''reverted'') else ''broadcast''),
          jr_confirmedBlockNumber := (if finalized then Some (tr_blockNumber receipt) else None),
          jr_confirmedBlockHash := (if finalized then Some (tr_blockHash receipt) else None)\<rparr>)"

definition replayed_state :: "journal_row \<Rightarrow> journal_row" where
  "replayed_state row = row\<lparr>jr_status := ''broadcast'', jr_confirmedBlockNumber := None, jr_confirmedBlockHash := None\<rparr>"

text \<open>One row: its new state and whether it had to be recovered, and what was sent.\<close>

definition reconcile_row ::
  "chain_view \<Rightarrow> int \<Rightarrow> int \<Rightarrow> journal_row \<Rightarrow> (signer_error + (journal_row \<times> bool)) \<times> journal_row list" where
  "reconcile_row view depth head row =
     (case proof_stands view depth head row of
        Inl e \<Rightarrow> (Inl (SignerError e), [])
      | Inr True \<Rightarrow> (Inr (row, False), [])
      | Inr False \<Rightarrow>
          (case canonicalReceipt view (jr_txHash row) of
             Inl e \<Rightarrow> (Inl e, [])
           | Inr (Some receipt) \<Rightarrow> (Inr (receipt_state depth head receipt row, True), [])
           | Inr None \<Rightarrow>
               (case cv_minedNonce view row of
                  Inl e \<Rightarrow> (Inl (SignerError e), [])
                | Inr mined \<Rightarrow>
                    if mined > jr_nonce row
                    then (Inl (SignerNonceConflictError (jr_txHash row) (jr_nonce row)), [])
                    else (rmap (\<lambda>_. (replayed_state row, True)) (broadcast view row), [row]))))"

fun reconcile_rows ::
  "chain_view \<Rightarrow> int \<Rightarrow> int \<Rightarrow> journal_row list \<Rightarrow>
     (signer_error + (journal_row \<times> bool) list) \<times> journal_row list" where
  "reconcile_rows view depth head [] = (Inr [], [])"
| "reconcile_rows view depth head (row # rows) =
     (case reconcile_row view depth head row of
        (Inl e, sent) \<Rightarrow> (Inl e, sent)
      | (Inr r, sent) \<Rightarrow>
          (let (rest, later) = reconcile_rows view depth head rows
           in (rmap (Cons r) rest, sent @ later)))"

definition journal_of :: "string \<Rightarrow> string \<Rightarrow> journal_row list \<Rightarrow> journal_row list" where
  "journal_of scope signer table =
     sort_key jr_nonce (matching_rows (\<lambda>r. jr_scope r = scope \<and> jr_signer r = signer) table)"

text \<open>The updates by id.\<close>

definition store_rows :: "journal_row list \<Rightarrow> journal_row list \<Rightarrow> journal_row list" where
  "store_rows new table =
     map (\<lambda>r. case select_row (\<lambda>n. jr_id n = jr_id r) new of Some n \<Rightarrow> n | None \<Rightarrow> r) table"

definition reconcileJournal ::
  "chain_view \<Rightarrow> string \<Rightarrow> string \<Rightarrow> int \<Rightarrow> journal_row list \<Rightarrow>
     (signer_error + (journal_row list \<times> journal_row list \<times> journal_row list)) \<times> journal_row list" where
  "reconcileJournal view scope signer depth table =
     (case cv_head view of
        Inl e \<Rightarrow> (Inl (SignerError e), [])
      | Inr head \<Rightarrow>
          (let (res, sent) = reconcile_rows view depth head (journal_of scope signer table)
           in (rmap (\<lambda>rows. (map fst rows, map fst (filter snd rows), store_rows (map fst rows) table)) res, sent)))"

section \<open>Sending\<close>

definition call_hash :: "signer_options \<Rightarrow> contract_call \<Rightarrow> string" where
  "call_hash opts call =
     toHex (so_keccak opts (utf8 (lower (cc_address call) @ '':''
       @ int_dec (case cc_value call of Some v \<Rightarrow> v | None \<Rightarrow> 0) @ '':'' @ cc_data call)))"

definition signer_address :: "signer_options \<Rightarrow> string" where
  "signer_address opts = lower (so_address opts)"

definition find_operation :: "string \<Rightarrow> string \<Rightarrow> journal_row list \<Rightarrow> journal_row option" where
  "find_operation scope key table = select_row (\<lambda>r. jr_scope r = scope \<and> jr_operationKey r = key) table"

definition plain :: "string \<Rightarrow> signer_error" where
  "plain message = SignerError (PlainError message)"

text \<open>A new row for the next nonce: prepared, admitted by the gas policy, signed.\<close>

definition sign_operation ::
  "signer_options \<Rightarrow> chain_view \<Rightarrow> string \<Rightarrow> string \<Rightarrow> string \<Rightarrow> string \<Rightarrow> journal_row list \<Rightarrow> signer_error + journal_row" where
  "sign_operation opts view fresh_id scope operationKey requestHash rows =
     rbind (lift_error (cv_pendingNonce view)) (\<lambda>nonce.
     rbind (require (rows = [] \<or> jr_nonce (last rows) < nonce)
       (plain ''Signer nonce gap; committed transactions have not entered the canonical pending chain'')) (\<lambda>_.
     rbind (require (nonce \<le> max_safe) (plain ''Signer nonce exceeds safe integer range'')) (\<lambda>_.
     rbind (lift_error (cv_prepare view nonce)) (\<lambda>prepared.
     rbind (lift_error (enforceArcRelayGas (so_chainId opts) prepared)) (\<lambda>_.
     rbind (lift_error (cv_sign view nonce prepared)) (\<lambda>raw.
       Inr \<lparr>jr_id = fresh_id, jr_scope = scope, jr_operationKey = operationKey, jr_requestHash = requestHash,
            jr_signer = signer_address opts, jr_nonce = nonce, jr_raw = raw, jr_confirmedBlockNumber = None,
            jr_confirmedBlockHash = None, jr_txHash = toHex (so_keccak opts (hex_pairs (strip_0x raw))),
            jr_status = ''prepared''\<rparr>))))))"

text \<open>The unique indexes on operation and nonce.\<close>

definition insert_row :: "journal_row \<Rightarrow> journal_row list \<Rightarrow> signer_error + journal_row list" where
  "insert_row row table =
     (if list_ex (\<lambda>r. jr_scope r = jr_scope row \<and> jr_operationKey r = jr_operationKey row
          \<or> jr_scope r = jr_scope row \<and> jr_signer r = jr_signer row \<and> jr_nonce r = jr_nonce row) table
      then Inl (plain ''duplicate key value'') else Inr (table @ [row]))"

definition key_reused :: "signer_options \<Rightarrow> contract_call \<Rightarrow> journal_row option \<Rightarrow> bool" where
  "key_reused opts call existing =
     (case existing of
        Some r \<Rightarrow> jr_requestHash r \<noteq> call_hash opts call \<or> jr_signer r \<noteq> signer_address opts
      | None \<Rightarrow> False)"

definition operation_row ::
  "signer_options \<Rightarrow> chain_view \<Rightarrow> string \<Rightarrow> string \<Rightarrow> string \<Rightarrow> string \<Rightarrow> journal_row option \<Rightarrow>
     journal_row list \<Rightarrow> journal_row list \<Rightarrow> signer_error + (journal_row \<times> journal_row list)" where
  "operation_row opts view fresh_id scope operationKey requestHash existing rows table =
     (case existing of
        Some r \<Rightarrow> Inr (case select_row (\<lambda>c. jr_id c = jr_id r) rows of Some c \<Rightarrow> c | None \<Rightarrow> r, table)
      | None \<Rightarrow>
          rbind (sign_operation opts view fresh_id scope operationKey requestHash rows) (\<lambda>row.
          rbind (insert_row row table) (\<lambda>table'. Inr (row, table'))))"

text \<open>The transaction of \<open>sendDurableTransaction\<close>: the operation's row, and the table with it.\<close>

definition reserve_operation ::
  "signer_options \<Rightarrow> chain_view \<Rightarrow> string \<Rightarrow> string \<Rightarrow> string \<Rightarrow> contract_call \<Rightarrow> journal_row list \<Rightarrow>
     (signer_error + (journal_row \<times> journal_row list)) \<times> journal_row list" where
  "reserve_operation opts view fresh_id scope operationKey call table =
     (let existing = find_operation scope operationKey table in
      if key_reused opts call existing
      then (Inl (plain ''Transaction operation key reused with different parameters''), [])
      else (case confirmationDepth opts of
          Inl e \<Rightarrow> (Inl e, [])
        | Inr depth \<Rightarrow>
            (let (res, sent) = reconcileJournal view scope (signer_address opts) depth table in
             (rbind res (\<lambda>(rows, _, table1).
                operation_row opts view fresh_id scope operationKey (call_hash opts call) existing rows table1), sent))))"

definition mark_broadcast :: "journal_row \<Rightarrow> journal_row list \<Rightarrow> journal_row list" where
  "mark_broadcast row = update_rows (\<lambda>r. jr_id r = jr_id row \<and> jr_status r \<in> {''prepared'', ''broadcast''})
     (\<lambda>r. r\<lparr>jr_status := ''broadcast''\<rparr>)"

text \<open>After the commit: what is final is answered, everything else is sent (again).\<close>

definition after_reserve ::
  "chain_view \<Rightarrow> journal_row \<Rightarrow> journal_row list \<Rightarrow> (signer_error + string) \<times> journal_row list \<times> journal_row list" where
  "after_reserve view row table =
     (if jr_status row = ''reverted'' then (Inl (TransactionRevertedError (jr_txHash row)), table, [])
      else if jr_status row = ''confirmed'' then (Inr (jr_txHash row), table, [])
      else case broadcast view row of
          Inl e \<Rightarrow> (Inl e, table, [row])
        | Inr _ \<Rightarrow> (Inr (jr_txHash row), mark_broadcast row table, [row]))"

definition sendDurableTransaction ::
  "signer_options \<Rightarrow> chain_view \<Rightarrow> chain_view \<Rightarrow> string \<Rightarrow> (journal_row list \<Rightarrow> journal_row list) \<Rightarrow> string \<Rightarrow>
     contract_call \<Rightarrow> journal_row list \<Rightarrow> (signer_error + string) \<times> journal_row list \<times> journal_row list" where
  "sendDurableTransaction opts view later fresh_id between operationKey call table =
     (case rbind (confirmationDepth opts) (\<lambda>_. scopeFor opts view) of
        Inl e \<Rightarrow> (Inl e, table, [])
      | Inr scope \<Rightarrow>
          (case reserve_operation opts view fresh_id scope operationKey call table of
             (Inl e, sent) \<Rightarrow> (Inl e, table, sent)
           | (Inr (row, table1), sent) \<Rightarrow>
               (let (res, table2, more) = after_reserve later row (between table1)
                in (res, table2, sent @ more))))"

section \<open>Confirming and recovering\<close>

text \<open>The transaction of \<open>confirmDurableTransaction\<close>.\<close>

definition record_receipt ::
  "chain_view \<Rightarrow> string \<Rightarrow> string \<Rightarrow> int \<Rightarrow> string \<Rightarrow> journal_row list \<Rightarrow> signer_error + (tx_receipt \<times> journal_row list)" where
  "record_receipt view scope signer depth hash table =
     rbind (canonicalReceipt view hash) (\<lambda>found.
     rbind (of_option (TransactionProofError hash ''receipt is not in the canonical chain'') found) (\<lambda>receipt.
     rbind (lift_error (cv_head view)) (\<lambda>head.
     rbind (require (head \<ge> tr_blockNumber receipt + depth)
       (TransactionProofError hash ''confirmation depth is insufficient'')) (\<lambda>_.
       Inr (receipt, update_rows (\<lambda>r. jr_scope r = scope \<and> jr_signer r = signer \<and> jr_txHash r = hash)
              (receipt_state depth head receipt) table)))))"

text \<open>\<open>waited\<close> is the hash of the receipt that \<open>waitForTransactionReceipt\<close> answers.\<close>

definition confirmDurableTransaction ::
  "signer_options \<Rightarrow> chain_view \<Rightarrow> enclave_error + string \<Rightarrow> string \<Rightarrow> journal_row list \<Rightarrow>
     (signer_error + tx_receipt) \<times> journal_row list" where
  "confirmDurableTransaction opts view waited hash table =
     (case rbind (confirmationDepth opts) (\<lambda>depth.
           rbind (scopeFor opts view) (\<lambda>scope.
           rbind (lift_error waited) (\<lambda>w.
           rbind (require (same w hash) (TransactionProofError hash ''the transaction was replaced'')) (\<lambda>_.
             record_receipt view scope (signer_address opts) depth hash table)))) of
        Inl e \<Rightarrow> (Inl e, table)
      | Inr (receipt, table') \<Rightarrow>
          (if tr_success receipt then Inr receipt else Inl (TransactionRevertedError hash), table'))"

definition is_reverted :: "signer_error \<Rightarrow> bool" where
  "is_reverted e = (case e of TransactionRevertedError _ \<Rightarrow> True | _ \<Rightarrow> False)"

fun confirm_recovered ::
  "signer_options \<Rightarrow> (journal_row \<Rightarrow> chain_view \<times> (enclave_error + string)) \<Rightarrow> journal_row list \<Rightarrow> journal_row list \<Rightarrow>
     (signer_error + unit) \<times> journal_row list" where
  "confirm_recovered opts views [] table = (Inr (), table)"
| "confirm_recovered opts views (row # rows) table =
     (case confirmDurableTransaction opts (fst (views row)) (snd (views row)) (jr_txHash row) table of
        (Inr _, table') \<Rightarrow> confirm_recovered opts views rows table'
      | (Inl e, table') \<Rightarrow> if is_reverted e then confirm_recovered opts views rows table' else (Inl e, table'))"

definition recoverSignerTransactions ::
  "signer_options \<Rightarrow> chain_view \<Rightarrow> (journal_row \<Rightarrow> chain_view \<times> (enclave_error + string)) \<Rightarrow> journal_row list \<Rightarrow>
     (signer_error + nat) \<times> journal_row list \<times> journal_row list" where
  "recoverSignerTransactions opts view views table =
     (case rbind (confirmationDepth opts) (\<lambda>depth. rmap (Pair depth) (scopeFor opts view)) of
        Inl e \<Rightarrow> (Inl e, table, [])
      | Inr (depth, scope) \<Rightarrow>
          (case reconcileJournal view scope (signer_address opts) depth table of
             (Inl e, sent) \<Rightarrow> (Inl e, table, sent)
           | (Inr (_, recovered, table1), sent) \<Rightarrow>
               (let (res, table2) = confirm_recovered opts views recovered table1
                in (rmap (\<lambda>_. length recovered) res, table2, sent))))"

section \<open>The write-once log the journal implements\<close>

text \<open>
  What is signed once: identity, request, nonce and bytes of a row. The abstract signer appends entries
  whose operation and nonce are new, and never changes one.
\<close>

record log_entry =
  en_id :: string
  en_scope :: string
  en_operation :: string
  en_request :: string
  en_signer :: string
  en_nonce :: int
  en_raw :: string
  en_hash :: string

definition tx_of :: "journal_row \<Rightarrow> log_entry" where
  "tx_of r = \<lparr>en_id = jr_id r, en_scope = jr_scope r, en_operation = jr_operationKey r,
     en_request = jr_requestHash r, en_signer = jr_signer r, en_nonce = jr_nonce r, en_raw = jr_raw r,
     en_hash = jr_txHash r\<rparr>"

definition entry_operation :: "log_entry \<Rightarrow> string \<times> string" where
  "entry_operation e = (en_scope e, en_operation e)"

definition entry_nonce :: "log_entry \<Rightarrow> string \<times> string \<times> int" where
  "entry_nonce e = (en_scope e, en_signer e, en_nonce e)"

definition log_append :: "log_entry list \<Rightarrow> log_entry list \<Rightarrow> bool" where
  "log_append log log' \<longleftrightarrow> log' = log \<or>
     (\<exists>e. log' = log @ [e] \<and> en_id e \<notin> en_id ` set log \<and> entry_operation e \<notin> entry_operation ` set log
        \<and> (\<forall>f \<in> set log. en_scope f = en_scope e \<longrightarrow> en_signer f = en_signer e \<longrightarrow> en_nonce f < en_nonce e))"

definition log_ok :: "log_entry list \<Rightarrow> bool" where
  "log_ok log \<longleftrightarrow> unique_key en_id log \<and> unique_key entry_operation log \<and> unique_key entry_nonce log"

lemma log_ok_append:
  assumes "log_append log log'" and "log_ok log"
  shows "log_ok log'"
proof (cases "log' = log")
  case False
  with assms(1) obtain e where e: "log' = log @ [e]" "en_id e \<notin> en_id ` set log"
    "entry_operation e \<notin> entry_operation ` set log"
    and above: "\<forall>f \<in> set log. en_scope f = en_scope e \<longrightarrow> en_signer f = en_signer e \<longrightarrow> en_nonce f < en_nonce e"
    unfolding log_append_def by blast
  have "entry_nonce e \<notin> entry_nonce ` set log" using above by (auto simp: entry_nonce_def)
  with e assms(2) show ?thesis by (simp add: log_ok_def unique_key_snoc)
qed (use assms in simp)

lemma log_append_prefix: "log_append log log' \<Longrightarrow> \<exists>more. log' = log @ more"
  by (auto simp: log_append_def)

text \<open>The updates of reconciliation and confirmation leave the log alone.\<close>

lemma tx_of_states [simp]:
  "tx_of (receipt_state depth head receipt row) = tx_of row" "tx_of (replayed_state row) = tx_of row"
  "tx_of (row\<lparr>jr_status := a\<rparr>) = tx_of row"
  by (simp_all add: tx_of_def receipt_state_def replayed_state_def Let_def)

lemma tx_of_fields:
  assumes "tx_of r = tx_of q"
  shows "jr_id r = jr_id q" and "jr_scope r = jr_scope q" and "jr_operationKey r = jr_operationKey q"
    and "jr_requestHash r = jr_requestHash q" and "jr_signer r = jr_signer q" and "jr_nonce r = jr_nonce q"
    and "jr_raw r = jr_raw q" and "jr_txHash r = jr_txHash q"
  using assms by (simp_all add: tx_of_def)

lemma reconcile_row_Inr:
  "reconcile_row view depth head row = (Inr (r, b), sent) \<Longrightarrow> tx_of r = tx_of row"
  by (auto simp: reconcile_row_def rmap_Inr_iff split: sum.splits bool.splits option.splits if_splits)

lemma reconcile_row_sent:
  "reconcile_row view depth head row = (res, sent) \<Longrightarrow> set sent \<subseteq> {row}"
  by (auto simp: reconcile_row_def split: sum.splits bool.splits option.splits if_splits)

lemma reconcile_rows_Cons_Inr:
  assumes "reconcile_rows view depth head (row # rows) = (Inr rs, sent)"
  obtains r b rest s1 s2 where "reconcile_row view depth head row = (Inr (r, b), s1)"
    and "reconcile_rows view depth head rows = (Inr rest, s2)" and "rs = (r, b) # rest" and "sent = s1 @ s2"
proof -
  obtain out s1 where a: "reconcile_row view depth head row = (out, s1)" by fastforce
  obtain out2 s2 where b: "reconcile_rows view depth head rows = (out2, s2)" by fastforce
  from assms a b that show ?thesis by (cases out; cases out2) auto
qed

lemma reconcile_rows_Inr:
  "reconcile_rows view depth head rows = (Inr rs, sent) \<Longrightarrow> map (tx_of \<circ> fst) rs = map tx_of rows"
proof (induction rows arbitrary: rs sent)
  case (Cons row rows)
  from Cons.prems show ?case
    by (rule reconcile_rows_Cons_Inr) (use Cons.IH reconcile_row_Inr in auto)
qed simp

lemma reconcile_rows_sent:
  "set (snd (reconcile_rows view depth head rows)) \<subseteq> set rows"
proof (induction rows)
  case (Cons row rows)
  obtain out s1 where a: "reconcile_row view depth head row = (out, s1)" by fastforce
  have "set s1 \<subseteq> {row}" by (rule reconcile_row_sent [OF a])
  with Cons a show ?case by (cases out) (auto split: prod.split)
qed simp

lemma journal_of_mem: "r \<in> set (journal_of scope signer table) \<longleftrightarrow> r \<in> set table \<and> jr_scope r = scope \<and> jr_signer r = signer"
  by (auto simp: journal_of_def row_simps)

lemma store_rows_log:
  assumes "unique_key jr_id table" and "\<And>n. n \<in> set new \<Longrightarrow> \<exists>r \<in> set table. tx_of r = tx_of n"
  shows "map tx_of (store_rows new table) = map tx_of table"
  unfolding store_rows_def map_map
proof (rule map_cong [OF refl], unfold o_def)
  fix r assume r: "r \<in> set table"
  show "tx_of (case select_row (\<lambda>n. jr_id n = jr_id r) new of None \<Rightarrow> r | Some n \<Rightarrow> n) = tx_of r"
  proof (cases "select_row (\<lambda>n. jr_id n = jr_id r) new")
    case (Some n)
    from select_row_Some [OF this] have n: "n \<in> set new" "jr_id n = jr_id r" by simp_all
    from assms(2) [OF n(1)] obtain q where q: "q \<in> set table" "tx_of q = tx_of n" by blast
    have "jr_id q = jr_id r" using tx_of_fields(1) [OF q(2)] n(2) by simp
    then have "q = r" by (rule unique_key_eq [OF assms(1) q(1) r])
    with q(2) Some show ?thesis by simp
  qed simp
qed

lemma reconcileJournal_log:
  assumes "reconcileJournal view scope signer depth table = (Inr (rows, recovered, table'), sent)"
    and "unique_key jr_id table"
  shows "map tx_of table' = map tx_of table"
    and "map tx_of rows = map tx_of (journal_of scope signer table)"
proof -
  from assms(1) obtain head rs where
    rs: "reconcile_rows view depth head (journal_of scope signer table) = (Inr rs, sent)"
    and out: "rows = map fst rs" "table' = store_rows (map fst rs) table"
    by (auto simp: reconcileJournal_def rmap_Inr_iff split: sum.splits prod.splits)
  note txs = reconcile_rows_Inr [OF rs]
  then show rows: "map tx_of rows = map tx_of (journal_of scope signer table)" by (simp add: out comp_def)
  have "\<exists>r \<in> set table. tx_of r = tx_of n" if "n \<in> set (map fst rs)" for n
  proof -
    from that have "tx_of n \<in> set (map tx_of rows)" by (auto simp: out)
    then have "tx_of n \<in> tx_of ` set (journal_of scope signer table)" by (simp only: rows) simp
    then show ?thesis by (auto simp: journal_of_mem)
  qed
  then show "map tx_of table' = map tx_of table" unfolding out by (rule store_rows_log [OF assms(2)])
qed

lemma reconcileJournal_sent:
  assumes "reconcileJournal view scope signer depth table = (res, sent)"
  shows "set sent \<subseteq> set table"
proof (cases "cv_head view")
  case (Inr head)
  with assms have "sent = snd (reconcile_rows view depth head (journal_of scope signer table))"
    by (auto simp: reconcileJournal_def split: prod.splits)
  then show ?thesis using reconcile_rows_sent [of view depth head "journal_of scope signer table"]
    by (auto simp: journal_of_mem)
qed (use assms in \<open>simp add: reconcileJournal_def\<close>)

lemma sorted_below_last: "sorted xs \<Longrightarrow> x \<in> set xs \<Longrightarrow> last xs < (n :: int) \<Longrightarrow> x < n"
  by (induction xs rule: rev_induct) (auto simp: sorted_append)

lemma sign_operation_Inr:
  assumes "sign_operation opts view fresh_id scope operationKey requestHash rows = Inr row"
  shows "jr_id row = fresh_id" and "jr_scope row = scope" and "jr_operationKey row = operationKey"
    and "jr_requestHash row = requestHash" and "jr_signer row = signer_address opts" and "jr_status row = ''prepared''"
    and "rows \<noteq> [] \<Longrightarrow> jr_nonce (last rows) < jr_nonce row" and "jr_nonce row \<le> max_safe"
  using assms unfolding sign_operation_def by (elim rbind_InrE; auto simp: require_Inr_iff)+

lemma insert_row_Inr:
  assumes "insert_row row table = Inr table'"
  shows "table' = table @ [row]"
    and "\<And>r. r \<in> set table \<Longrightarrow> jr_scope r = jr_scope row \<Longrightarrow> jr_operationKey r \<noteq> jr_operationKey row"
  using assms by (auto simp: insert_row_def list_ex_iff split: if_splits)

lemma nonce_above_journal:
  assumes "map tx_of rows = map tx_of (journal_of scope signer table)"
    and "rows \<noteq> [] \<Longrightarrow> jr_nonce (last rows) < n" and "r \<in> set (journal_of scope signer table)"
  shows "jr_nonce r < n"
proof -
  have "map en_nonce (map tx_of rows) = map en_nonce (map tx_of (journal_of scope signer table))"
    by (simp only: assms(1))
  then have nonces: "map jr_nonce rows = map jr_nonce (journal_of scope signer table)"
    by (simp add: comp_def tx_of_def)
  have "sorted (map jr_nonce (journal_of scope signer table))" by (simp add: journal_of_def)
  then have "sorted (map jr_nonce rows)" by (simp add: nonces)
  moreover have mem: "jr_nonce r \<in> set (map jr_nonce rows)" using assms(3) by (simp add: nonces del: set_map) simp
  moreover from mem have "last (map jr_nonce rows) < n" using assms(2) by (cases rows) (auto simp: last_map)
  ultimately show ?thesis by (rule sorted_below_last)
qed

lemma reserve_operation_cases:
  assumes "reserve_operation opts view fresh_id scope key call table = (Inr (row, table'), sent)"
  obtains depth rows recovered table1 where
    "reconcileJournal view scope (signer_address opts) depth table = (Inr (rows, recovered, table1), sent)"
    and "\<not> key_reused opts call (find_operation scope key table)"
    and "operation_row opts view fresh_id scope key (call_hash opts call) (find_operation scope key table) rows table1
           = Inr (row, table')"
proof -
  from assms obtain depth where g: "\<not> key_reused opts call (find_operation scope key table)"
    and d: "confirmationDepth opts = Inr depth"
    by (auto simp: reserve_operation_def Let_def split: if_splits sum.splits)
  obtain res s where r: "reconcileJournal view scope (signer_address opts) depth table = (res, s)" by fastforce
  from assms g d r that show ?thesis by (cases res) (auto simp: reserve_operation_def Let_def)
qed

lemma log_mem: "tx_of r \<in> set (map tx_of table) \<longleftrightarrow> (\<exists>q \<in> set table. tx_of q = tx_of r)"
  unfolding set_map by (metis image_eqI imageE)

lemma journal_ids: "log_ok (map tx_of table) \<Longrightarrow> unique_key jr_id table"
  by (simp add: log_ok_def unique_key_def comp_def tx_of_def)

lemma reserve_operation_Inr:
  assumes run: "reserve_operation opts view fresh_id scope key call table = (Inr (row, table'), sent)"
    and ok: "log_ok (map tx_of table)" and fresh: "find_operation scope key table = None \<Longrightarrow> \<forall>r \<in> set table. jr_id r \<noteq> fresh_id"
  shows "log_append (map tx_of table) (map tx_of table') \<and> tx_of row \<in> set (map tx_of table')
    \<and> jr_scope row = scope \<and> jr_operationKey row = key \<and> jr_requestHash row = call_hash opts call
    \<and> (find_operation scope key table \<noteq> None \<longrightarrow> map tx_of table' = map tx_of table)"
  using run
proof (rule reserve_operation_cases)
  fix depth rows recovered table1
  assume rec: "reconcileJournal view scope (signer_address opts) depth table = (Inr (rows, recovered, table1), sent)"
    and same: "\<not> key_reused opts call (find_operation scope key table)"
    and op: "operation_row opts view fresh_id scope key (call_hash opts call) (find_operation scope key table) rows table1
           = Inr (row, table')"
  note ids = journal_ids [OF ok]
  note log = reconcileJournal_log [OF rec ids]
  show ?thesis
  proof (cases "find_operation scope key table")
    case (Some r)
    have r: "r \<in> set table" "jr_scope r = scope" "jr_operationKey r = key" "jr_requestHash r = call_hash opts call"
      using select_row_Some [OF Some [unfolded find_operation_def]] same Some by (simp_all add: key_reused_def)
    have out: "table' = table1" "row = (case select_row (\<lambda>c. jr_id c = jr_id r) rows of Some c \<Rightarrow> c | None \<Rightarrow> r)"
      using op Some by (simp_all add: operation_row_def)
    have "tx_of row = tx_of r"
    proof (cases "select_row (\<lambda>c. jr_id c = jr_id r) rows")
      case (Some c)
      note c = select_row_Some [OF this]
      then have "tx_of c \<in> set (map tx_of rows)" by simp
      then obtain q where q: "q \<in> set table" "tx_of q = tx_of c"
        unfolding log(2) log_mem by (metis journal_of_mem)
      with c have "jr_id q = jr_id r" using tx_of_fields(1) [OF q(2)] by simp
      then have "q = r" by (rule unique_key_eq [OF ids q(1) r(1)])
      with q(2) out(2) Some show ?thesis by simp
    qed (simp add: out)
    moreover from this have "tx_of row \<in> set (map tx_of table)" using r(1) unfolding log_mem by metis
    ultimately show ?thesis
      using r log(1) out(1) tx_of_fields [of row r] by (simp add: log_append_def del: set_map)
  next
    case None
    from op None obtain table2 where sign: "sign_operation opts view fresh_id scope key (call_hash opts call) rows = Inr row"
      and ins: "insert_row row table1 = Inr table'"
      by (auto simp: operation_row_def rbind_Inr_iff)
    note row = sign_operation_Inr [OF sign] and ins = insert_row_Inr [OF ins]
    have new: "map tx_of table' = map tx_of table @ [tx_of row]" using ins(1) log(1) by simp
    have "en_nonce f < en_nonce (tx_of row)"
      if f: "f \<in> set (map tx_of table)" "en_scope f = en_scope (tx_of row)" "en_signer f = en_signer (tx_of row)" for f
    proof -
      from f obtain r where r: "r \<in> set table" "f = tx_of r" by auto
      with f row have "r \<in> set (journal_of scope (signer_address opts) table)"
        by (simp add: journal_of_mem tx_of_def)
      from nonce_above_journal [OF log(2) row(7) this] r(2) show ?thesis by (simp add: tx_of_def)
    qed
    moreover have "en_id (tx_of row) \<notin> en_id ` set (map tx_of table)"
      using fresh [OF None] row(1) by (auto simp: tx_of_def)
    moreover have "entry_operation (tx_of row) \<notin> entry_operation ` set (map tx_of table)"
      using None row(2,3) by (auto simp: tx_of_def entry_operation_def find_operation_def select_row_None)
    ultimately have "log_append (map tx_of table) (map tx_of table')"
      unfolding log_append_def new by blast
    then show ?thesis using new row(2-4) None by simp
  qed
qed

section \<open>The signer as a transition system\<close>

text \<open>
  Each step is one transaction or one broadcast of any process; \<open>sg_sent\<close> collects what has been sent.
  A process broadcasts after its commit a snapshot of a row it read or inserted.
\<close>

record signer_sys =
  sg_table :: "journal_row list"
  sg_sent :: "journal_row list"

abbreviation signer_log :: "signer_sys \<Rightarrow> log_entry list" where
  "signer_log s \<equiv> map tx_of (sg_table s)"

inductive signer_step :: "signer_sys \<Rightarrow> signer_sys \<Rightarrow> bool" where
  signer_reserve: "reserve_operation opts view fresh_id scope key call (sg_table s) = (Inr (row, table), sent) \<Longrightarrow>
    \<forall>r \<in> set (sg_table s). jr_id r \<noteq> fresh_id \<Longrightarrow>
    signer_step s (s\<lparr>sg_table := table, sg_sent := sg_sent s @ sent\<rparr>)"
| signer_reserve_failed: "reserve_operation opts view fresh_id scope key call (sg_table s) = (Inl e, sent) \<Longrightarrow>
    signer_step s (s\<lparr>sg_sent := sg_sent s @ sent\<rparr>)"
| signer_after: "after_reserve view row (sg_table s) = (res, table, sent) \<Longrightarrow> tx_of row \<in> set (signer_log s) \<Longrightarrow>
    signer_step s (s\<lparr>sg_table := table, sg_sent := sg_sent s @ sent\<rparr>)"
| signer_confirm: "record_receipt view scope signer depth hash (sg_table s) = Inr (receipt, table) \<Longrightarrow>
    signer_step s (s\<lparr>sg_table := table\<rparr>)"
| signer_reconcile: "reconcileJournal view scope signer depth (sg_table s) = (Inr (rows, recovered, table), sent) \<Longrightarrow>
    signer_step s (s\<lparr>sg_table := table, sg_sent := sg_sent s @ sent\<rparr>)"
| signer_reconcile_failed: "reconcileJournal view scope signer depth (sg_table s) = (Inl e, sent) \<Longrightarrow>
    signer_step s (s\<lparr>sg_sent := sg_sent s @ sent\<rparr>)"

definition signer_start :: "signer_sys \<Rightarrow> bool" where
  "signer_start s \<longleftrightarrow> sg_table s = [] \<and> sg_sent s = []"

definition signer_ok :: "signer_sys \<Rightarrow> bool" where
  "signer_ok s \<longleftrightarrow> log_ok (signer_log s) \<and> tx_of ` set (sg_sent s) \<subseteq> set (signer_log s)"

definition signer_keeps :: "signer_sys \<Rightarrow> signer_sys \<Rightarrow> bool" where
  "signer_keeps s t \<longleftrightarrow> (\<exists>more. signer_log t = signer_log s @ more) \<and> (\<exists>more. sg_sent t = sg_sent s @ more)"

lemma log_update: "(\<And>r. tx_of (f r) = tx_of r) \<Longrightarrow> map tx_of (update_rows P f table) = map tx_of table"
  by (rule map_update_rows)

lemma record_receipt_log:
  "record_receipt view scope signer depth hash table = Inr (receipt, table') \<Longrightarrow> map tx_of table' = map tx_of table"
  by (auto simp: record_receipt_def rbind_Inr_iff intro: log_update)

lemma after_reserve_log:
  assumes "after_reserve view row table = (res, table', sent)"
  shows "map tx_of table' = map tx_of table" and "set sent \<subseteq> {row}"
  using assms by (auto simp: after_reserve_def mark_broadcast_def log_update split: if_splits sum.splits)

lemma reserve_sent:
  assumes "reserve_operation opts view fresh_id scope key call table = (res, sent)"
  shows "set sent \<subseteq> set table"
  using assms reconcileJournal_sent
  by (auto simp: reserve_operation_def Let_def split: if_splits sum.splits prod.splits)

lemma signer_step_log:
  assumes "signer_step s t" and "signer_ok s"
  shows "log_append (signer_log s) (signer_log t)
    \<and> (\<exists>sent. sg_sent t = sg_sent s @ sent \<and> tx_of ` set sent \<subseteq> set (signer_log s))"
  using assms
proof (induction rule: signer_step.induct)
  case (signer_reserve opts view fresh_id scope key call s row table sent)
  then have "log_ok (signer_log s)" by (simp add: signer_ok_def)
  from reserve_operation_Inr [OF signer_reserve(1) this signer_reserve(2)] reserve_sent [OF signer_reserve(1)]
  show ?case by auto
next
  case (signer_reserve_failed opts view fresh_id scope key call s e sent)
  from reserve_sent [OF this(1)] show ?case by (auto simp: log_append_def)
next
  case (signer_after view row s res table sent)
  from after_reserve_log [OF this(1)] this(2) show ?case by (auto simp: log_append_def)
next
  case (signer_confirm view scope signer depth hash s receipt table)
  from record_receipt_log [OF this(1)] show ?case by (simp add: log_append_def)
next
  case (signer_reconcile view scope signer depth s rows recovered table sent)
  then have "unique_key jr_id (sg_table s)" by (auto simp: signer_ok_def intro: journal_ids)
  from reconcileJournal_log(1) [OF signer_reconcile(1) this] reconcileJournal_sent [OF signer_reconcile(1)]
  show ?case by (auto simp: log_append_def)
next
  case (signer_reconcile_failed view scope signer depth s e sent)
  from reconcileJournal_sent [OF this(1)] show ?case by (auto simp: log_append_def)
qed

lemma signer_step_ok:
  assumes "signer_step s t" and "signer_ok s"
  shows "signer_ok t \<and> signer_keeps s t"
proof -
  from signer_step_log [OF assms] obtain sent where log: "log_append (signer_log s) (signer_log t)"
    and sent: "sg_sent t = sg_sent s @ sent" "tx_of ` set sent \<subseteq> set (signer_log s)" by blast
  obtain more where more: "signer_log t = signer_log s @ more" using log_append_prefix [OF log] by blast
  have "log_ok (signer_log t)" using log_ok_append [OF log] assms(2) by (simp add: signer_ok_def)
  moreover have "tx_of ` set (sg_sent t) \<subseteq> set (signer_log t)"
    using sent assms(2) unfolding more by (auto simp: signer_ok_def)
  ultimately show ?thesis using more sent(1) by (auto simp: signer_ok_def signer_keeps_def)
qed

interpretation signer: history_system signer_start signer_step signer_ok signer_keeps
proof unfold_locales
  show "signer_ok s" if "signer_start s" for s
    using that by (simp add: signer_start_def signer_ok_def log_ok_def)
  show "signer_keeps s s" for s by (simp add: signer_keeps_def)
  show "signer_keeps s u" if "signer_keeps s t" "signer_keeps t u" for s t u
    using that by (auto simp: signer_keeps_def)
qed (use signer_step_ok in auto)

section \<open>Properties\<close>

definition demo_view :: chain_view where
  "demo_view = \<lparr>cv_chainId = Inr 31337, cv_genesis = Inr (Some ''g''), cv_head = Inr 0, cv_block = (\<lambda>_. Inr None),
     cv_receipt = (\<lambda>_. Inr None), cv_minedNonce = (\<lambda>_. Inr 0), cv_pendingNonce = Inr 0,
     cv_send = (\<lambda>_. Inr ''h''), cv_observed = (\<lambda>h. Inr h),
     cv_prepare = (\<lambda>_. Inr \<lparr>px_gas = None, px_gasPrice = None, px_maxFeePerGas = None,
        px_maxPriorityFeePerGas = None, px_value = None\<rparr>), cv_sign = (\<lambda>_ _. Inr ''r'')\<rparr>"

definition demo_options :: signer_options where
  "demo_options = \<lparr>so_chainId = 31337, so_address = ''a'', so_confirmations = None, so_keccak = (\<lambda>b. b)\<rparr>"

definition demo_call :: contract_call where
  "demo_call = \<lparr>cc_address = ''c'', cc_data = ''d'', cc_value = None\<rparr>"

lemma demo_reserved:
  "\<exists>row. reserve_operation demo_options demo_view ''i'' ''s'' ''k'' demo_call [] = (Inr (row, [row]), [])
     \<and> jr_requestHash row = call_hash demo_options demo_call"
  by (simp add: reserve_operation_def find_operation_def key_reused_def confirmationDepth_def demo_options_def
      is_safe_integer_def max_safe_def reconcileJournal_def demo_view_def journal_of_def matching_rows_def store_rows_def
      operation_row_def sign_operation_def lift_error_def enforceArcRelayGas_def arc_chain_id_def insert_row_def)

lemma demo_signer_reachable:
  assumes "reserve_operation demo_options demo_view ''i'' ''s'' ''k'' demo_call [] = (Inr (row, [row]), [])"
  shows "reachable signer_start signer_step \<lparr>sg_table = [row], sg_sent = []\<rparr>"
proof -
  let ?s = "\<lparr>sg_table = [], sg_sent = []\<rparr>"
  have "reachable signer_start signer_step ?s" by (rule reachable_start) (simp add: signer_start_def)
  moreover have "signer_step ?s \<lparr>sg_table = [row], sg_sent = []\<rparr>"
    using signer_reserve [of demo_options demo_view "''i''" "''s''" "''k''" demo_call ?s row "[row]" "[]"] assms by simp
  ultimately show ?thesis by (rule reachable_step)
qed

text \<open>
  Claim C25. The journal refines a write-once log: under every interleaving of sending, confirming,
  recovering and reorganisations, a step either leaves the signed entries as they are or appends one
  whose operation is new and whose nonce is above every nonce its signer has used on that chain; no
  two entries ever share an operation or a nonce.
\<close>

theorem journal_refines_write_once_log:
  assumes "reachable signer_start signer_step s" and "signer_step s t"
  shows "log_append (signer_log s) (signer_log t) \<and> log_ok (signer_log s)"
  using signer_step_log [OF assms(2) signer.inv_reachable [OF assms(1)]] signer.inv_reachable [OF assms(1)]
  by (simp add: signer_ok_def)

theorem journal_refines_write_once_log_witness:
  "\<exists>row. log_append (signer_log \<lparr>sg_table = [row], sg_sent = []\<rparr>) (signer_log \<lparr>sg_table = [row], sg_sent = []\<rparr>)"
proof -
  obtain row where row: "reserve_operation demo_options demo_view ''i'' ''s'' ''k'' demo_call [] = (Inr (row, [row]), [])"
    using demo_reserved by blast
  let ?s = "\<lparr>sg_table = [row], sg_sent = []\<rparr>"
  have "reserve_operation demo_options (demo_view\<lparr>cv_head := Inl e\<rparr>) ''j'' ''t'' ''l'' demo_call [row] = (Inl (SignerError e), [])"
    if "find_operation ''t'' ''l'' [row] = None" for e
    using that by (simp add: reserve_operation_def key_reused_def confirmationDepth_def demo_options_def
        is_safe_integer_def max_safe_def reconcileJournal_def)
  moreover have "jr_scope row = ''s''"
    using reserve_operation_Inr [OF row] by (simp add: log_ok_def)
  ultimately have "signer_step ?s (?s\<lparr>sg_sent := sg_sent ?s @ []\<rparr>)"
    by (intro signer_reserve_failed) (auto simp: find_operation_def)
  from journal_refines_write_once_log [OF demo_signer_reachable [OF row] this] show ?thesis by auto
qed



text \<open>
  An operation is signed once: after its transaction has been reserved, reserving the same
  operation again, at any later time and from any process, gives the same bytes, nonce and hash and signs
  nothing, and with another call it is refused.
\<close>

theorem operation_signed_once:
  assumes "reachable signer_start signer_step s"
    and first: "reserve_operation opts view fresh_id scope key call (sg_table s) = (Inr (row, table), sent)"
    and fresh: "\<forall>r \<in> set (sg_table s). jr_id r \<noteq> fresh_id"
    and run: "signer_step\<^sup>*\<^sup>* (s\<lparr>sg_table := table, sg_sent := sg_sent s @ sent\<rparr>) t"
    and again: "reserve_operation opts' view' fresh_id' scope key call' (sg_table t) = (res, sent')"
  shows "case res of
      Inr (row', table') \<Rightarrow> tx_of row' = tx_of row \<and> map tx_of table' = signer_log t
        \<and> call_hash opts' call' = call_hash opts call
    | Inl e \<Rightarrow> call_hash opts' call' = call_hash opts call
        \<or> e = plain ''Transaction operation key reused with different parameters''"
proof -
  let ?s = "s\<lparr>sg_table := table, sg_sent := sg_sent s @ sent\<rparr>"
  have ok: "log_ok (signer_log s)" using signer.inv_reachable [OF assms(1)] by (simp add: signer_ok_def)
  note r = reserve_operation_Inr [OF first ok fresh]
  have "signer_step s ?s" by (rule signer_reserve [OF first fresh])
  with assms(1) have reach: "reachable signer_start signer_step ?s" by (rule reachable_step)
  have "signer_keeps ?s t" by (rule signer.keeps_from_reachable [OF reach run])
  then obtain more where "signer_log t = map tx_of table @ more" by (auto simp: signer_keeps_def)
  then have mem: "tx_of row \<in> set (signer_log t)" using r by (simp del: set_map)
  have ok_t: "log_ok (signer_log t)"
    using signer.inv_run [OF run signer.inv_reachable [OF reach]] by (simp add: signer_ok_def)
  from mem obtain q where q: "q \<in> set (sg_table t)" "tx_of q = tx_of row" unfolding log_mem by blast
  have only: "p = q" if "p \<in> set (sg_table t)" "jr_scope p = scope" "jr_operationKey p = key" for p
  proof -
    have "unique_key (\<lambda>r. entry_operation (tx_of r)) (sg_table t)"
      using ok_t by (simp add: log_ok_def unique_key_def comp_def)
    from unique_key_eq [OF this that(1) q(1)] show ?thesis
      using that r q(2) tx_of_fields(2,3) [OF q(2)] by (simp add: entry_operation_def tx_of_def)
  qed
  obtain e where e: "find_operation scope key (sg_table t) = Some e"
    using q r tx_of_fields(2,3) [OF q(2)] by (cases "find_operation scope key (sg_table t)") (auto simp: find_operation_def select_row_None)
  have "e = q" using select_row_Some [OF e [unfolded find_operation_def]] only by blast
  then have h: "jr_requestHash e = call_hash opts call" using tx_of_fields(4) [OF q(2)] r by simp
  show ?thesis
  proof (cases res)
    case (Inl err)
    show ?thesis
    proof (cases "call_hash opts' call' = call_hash opts call")
      case False
      with e h have "key_reused opts' call' (find_operation scope key (sg_table t))" by (simp add: key_reused_def)
      with again Inl show ?thesis by (simp add: reserve_operation_def Let_def)
    qed (simp add: Inl)
  next
    case (Inr p)
    obtain row' table' where p: "p = (row', table')" by (cases p)
    from again have p_run: "reserve_operation opts' view' fresh_id' scope key call' (sg_table t) = (Inr (row', table'), sent')"
      by (simp add: Inr p)
    have ne: "find_operation scope key (sg_table t) \<noteq> None" using e by simp
    then have no: "find_operation scope key (sg_table t) = None \<Longrightarrow> \<forall>r \<in> set (sg_table t). jr_id r \<noteq> fresh_id'"
      by contradiction
    from reserve_operation_Inr [OF p_run ok_t no] have all: "tx_of row' \<in> set (map tx_of table') \<and> jr_scope row' = scope
      \<and> jr_operationKey row' = key \<and> jr_requestHash row' = call_hash opts' call'
      \<and> (find_operation scope key (sg_table t) \<noteq> None \<longrightarrow> map tx_of table' = signer_log t)"
      by blast
    then have again: "tx_of row' \<in> set (map tx_of table')" "map tx_of table' = signer_log t" "jr_scope row' = scope"
      "jr_operationKey row' = key" "jr_requestHash row' = call_hash opts' call'"
      using ne by blast+
    from again(1) obtain p where p': "p \<in> set (sg_table t)" "tx_of p = tx_of row'"
      unfolding again(2) log_mem by blast
    have "p = q" using only [OF p'(1)] tx_of_fields(2,3) [OF p'(2)] again(3,4) by simp
    with p'(2) q(2) have "tx_of row' = tx_of row" by simp
    with again(2,5) tx_of_fields(4) [OF this] r p Inr show ?thesis by simp
  qed
qed

theorem operation_signed_once_witness:
  "\<exists>row res sent. reserve_operation demo_options demo_view ''i'' ''s'' ''k'' demo_call [] = (Inr (row, [row]), [])
     \<and> reserve_operation demo_options demo_view ''j'' ''s'' ''k'' (demo_call\<lparr>cc_data := ''e''\<rparr>) [row] = (res, sent)
     \<and> (\<forall>row' table. res = Inr (row', table) \<longrightarrow> tx_of row' = tx_of row)"
proof -
  obtain row where row: "reserve_operation demo_options demo_view ''i'' ''s'' ''k'' demo_call [] = (Inr (row, [row]), [])"
    using demo_reserved by blast
  let ?s = "\<lparr>sg_table = [], sg_sent = []\<rparr>"
  have r: "reachable signer_start signer_step ?s" by (rule reachable_start) (simp add: signer_start_def)
  obtain res sent where again: "reserve_operation demo_options demo_view ''j'' ''s'' ''k'' (demo_call\<lparr>cc_data := ''e''\<rparr>) [row] = (res, sent)"
    by fastforce
  let ?t = "\<lparr>sg_table = [row], sg_sent = []\<rparr>"
  have first: "reserve_operation demo_options demo_view ''i'' ''s'' ''k'' demo_call (sg_table ?s) = (Inr (row, [row]), [])"
    using row by simp
  have run: "signer_step\<^sup>*\<^sup>* (?s\<lparr>sg_table := [row], sg_sent := sg_sent ?s @ []\<rparr>) ?t" by simp
  have "reserve_operation demo_options demo_view ''j'' ''s'' ''k'' (demo_call\<lparr>cc_data := ''e''\<rparr>) (sg_table ?t) = (res, sent)"
    using again by simp
  from operation_signed_once [OF r first _ run this]
  have "\<forall>row' table. res = Inr (row', table) \<longrightarrow> tx_of row' = tx_of row" by auto
  with row again show ?thesis by blast
qed

end
