(* ===== verification/Worker_Receipts.thy ===== *)
theory Worker_Receipts
  imports Signer_Journal Worker_Reorg "HOL-Library.List_Lexorder" "HOL-Library.Char_ord"
begin

text \<open>
  Anchoring of receipts by the worker: \<open>worker/src/anchorer.ts\<close>, \<open>worker/src/receipt-recovery.ts\<close> and the
  recovery jobs of \<open>worker/src/jobs.ts\<close>, over the tables \<open>receipts\<close> and \<open>chain_transactions\<close>. Transactions
  are sent and confirmed by the durable signer of \<open>Signer_Journal\<close>.

  \<open>decode\<close> is viem's \<open>decodeEventLog\<close> for the event \<open>Verified\<close> (its receipt hash, \<open>None\<close> when it
  throws), \<open>encode\<close> its \<open>encodeFunctionData\<close>. What other processes commit between two statements is the
  function \<open>env\<close>, indexed by the point.
\<close>

section \<open>State\<close>

record receipt_row =
  rc_id :: string
  rc_modelHash :: string
  rc_codeHash :: string
  rc_inHash :: string
  rc_outHash :: string
  rc_attRef :: string
  rc_receiptVersion :: int
  rc_nonce :: "string option"
  rc_chainId :: "int option"
  rc_verifierAddress :: "string option"
  rc_ts :: int
  rc_sig :: string
  rc_typedHash :: string
  rc_status :: string
  rc_anchoredTx :: "string option"

record anchor_db =
  an_receipts :: "receipt_row list"
  an_journal :: "journal_row list"

type_synonym log_decoder = "tx_log \<Rightarrow> string option"

text \<open>The arguments of \<open>verifyReceipt\<close> and \<open>verifyLegacyReceipt\<close>.\<close>

record receipt_args =
  ra_modelHash :: string
  ra_codeHash :: string
  ra_inHash :: string
  ra_outHash :: string
  ra_attRef :: string
  ra_nonce :: "string option"
  ra_ts :: int

record anchorer_opts =
  ao_verifier :: "string option"
  ao_chainId :: "int option"
  ao_signer :: signer_options
  ao_decode :: log_decoder
  ao_encode :: "string \<Rightarrow> receipt_args \<Rightarrow> string \<Rightarrow> string"

section \<open>Anchoring one receipt\<close>

definition hasVerifiedReceipt :: "log_decoder \<Rightarrow> tx_receipt \<Rightarrow> string \<Rightarrow> string \<Rightarrow> bool" where
  "hasVerifiedReceipt decode confirmation verifier typedHash \<longleftrightarrow>
     tr_success confirmation \<and>
     list_ex (\<lambda>event. same (tl_address event) verifier
       \<and> (case decode event of Some h \<Rightarrow> same h typedHash | None \<Rightarrow> False)) (tr_logs confirmation)"

fun anchorJob :: "json \<Rightarrow> enclave_error + string" where
  "anchorJob (JObj fs) = (case json_field ''typedHash'' fs of
     Some (JStr h) \<Rightarrow> if hex_string 64 h then Inr h else Inl (ValidationError ''typedHash'')
   | _ \<Rightarrow> Inl (ValidationError ''typedHash''))"
| "anchorJob _ = Inl (ValidationError ''typedHash'')"

definition receipt_by_hash :: "string \<Rightarrow> receipt_row list \<Rightarrow> receipt_row option" where
  "receipt_by_hash h rows = select_row (\<lambda>r. rc_typedHash r = h) rows"

definition max_uint64 :: int where "max_uint64 = 18446744073709551615"

definition receiptFields :: "receipt_row \<Rightarrow> enclave_error + receipt_args" where
  "receiptFields row =
     (if list_all (hex_string 64) [rc_modelHash row, rc_codeHash row, rc_inHash row, rc_outHash row, rc_attRef row]
         \<and> 0 \<le> rc_ts row \<and> rc_ts row \<le> max_uint64
      then Inr \<lparr>ra_modelHash = rc_modelHash row, ra_codeHash = rc_codeHash row, ra_inHash = rc_inHash row,
                ra_outHash = rc_outHash row, ra_attRef = rc_attRef row, ra_nonce = None, ra_ts = rc_ts row\<rparr>
      else Inl (ValidationError ''receipt''))"

definition receipt_call_args :: "receipt_row \<Rightarrow> enclave_error + receipt_args" where
  "receipt_call_args row =
     rbind (receiptFields row) (\<lambda>fields.
     if rc_receiptVersion row = 2
     then (case rc_nonce row of
             Some n \<Rightarrow> if hex_string 64 n then Inr (fields\<lparr>ra_nonce := Some n\<rparr>) else Inl (ValidationError ''nonce'')
           | None \<Rightarrow> Inl (ValidationError ''nonce''))
     else Inr fields)"

datatype anchor_plan =
    AnchorDone
  | AnchorSimulated
  | AnchorSubmitted string
  | AnchorSend contract_call

definition anchor_chain :: "anchorer_opts \<Rightarrow> int" where
  "anchor_chain opts = (case ao_chainId opts of Some c \<Rightarrow> c | None \<Rightarrow> 31337)"

definition anchor_plan_for :: "anchorer_opts \<Rightarrow> string \<Rightarrow> receipt_row \<Rightarrow> enclave_error + anchor_plan" where
  "anchor_plan_for opts typedHash row =
     (if rc_status row = ''anchored'' then Inr AnchorDone
      else if rc_status row = ''anchor_failed''
      then Inl (PlainError (''Receipt anchoring requires operator review: '' @ typedHash))
      else case ao_verifier opts of
        Some verifier \<Rightarrow>
          if \<not> isConfiguredAddress (Some verifier)
          then Inr (if rc_status row = ''anchored-sim'' then AnchorDone else AnchorSimulated)
          else
            rbind (require (rc_chainId row = None \<or> rc_chainId row = Some (anchor_chain opts))
              (PlainError ''Receipt signature belongs to a different chain'')) (\<lambda>_.
            rbind (require (case rc_verifierAddress row of Some v \<Rightarrow> same v verifier | None \<Rightarrow> True)
              (PlainError ''Receipt signature belongs to a different verifier deployment'')) (\<lambda>_.
            rbind (require (rc_receiptVersion row = 1 \<or> rc_receiptVersion row = 2)
              (PlainError ''Unsupported receipt version'')) (\<lambda>_.
            rbind (receipt_call_args row) (\<lambda>args.
            rbind (require (hex_string 130 (rc_sig row)) (ValidationError ''sig'')) (\<lambda>_.
            Inr (case rc_anchoredTx row of
                Some tx \<Rightarrow> if rc_status row = ''anchoring'' \<and> hex_string 64 tx then AnchorSubmitted tx
                  else AnchorSend \<lparr>cc_address = verifier, cc_data = ao_encode opts
                    (if rc_receiptVersion row = 2 then ''verifyReceipt'' else ''verifyLegacyReceipt'') args (rc_sig row), cc_value = None\<rparr>
              | None \<Rightarrow> AnchorSend \<lparr>cc_address = verifier, cc_data = ao_encode opts
                  (if rc_receiptVersion row = 2 then ''verifyReceipt'' else ''verifyLegacyReceipt'') args (rc_sig row), cc_value = None\<rparr>))))))
      | None \<Rightarrow> Inr (if rc_status row = ''anchored-sim'' then AnchorDone else AnchorSimulated))"

definition set_receipt :: "string \<Rightarrow> string \<Rightarrow> string \<Rightarrow> anchor_db \<Rightarrow> anchor_db" where
  "set_receipt typedHash status tx db =
     db\<lparr>an_receipts := update_rows (\<lambda>r. rc_typedHash r = typedHash)
          (\<lambda>r. r\<lparr>rc_status := status, rc_anchoredTx := Some tx\<rparr>) (an_receipts db)\<rparr>"

definition mark_simulated :: "string \<Rightarrow> anchor_db \<Rightarrow> anchor_db" where
  "mark_simulated typedHash = set_receipt typedHash ''anchored-sim'' (''sim:'' @ take 18 typedHash)"

text \<open>The handler of the \<open>try\<close> block: only a proven revert marks the receipt.\<close>

definition note_revert :: "string \<Rightarrow> signer_error \<Rightarrow> anchor_db \<Rightarrow> anchor_db" where
  "note_revert typedHash e db = (case e of
     TransactionRevertedError tx \<Rightarrow> set_receipt typedHash ''anchor_failed'' tx db
   | _ \<Rightarrow> db)"

definition finish_anchor ::
    "anchorer_opts \<Rightarrow> string \<Rightarrow> tx_receipt \<Rightarrow> anchor_db \<Rightarrow> (signer_error + unit) \<times> anchor_db" where
  "finish_anchor opts typedHash confirmation db =
     (if hasVerifiedReceipt (ao_decode opts) confirmation (case ao_verifier opts of Some v \<Rightarrow> v | None \<Rightarrow> []) typedHash
      then (Inr (), set_receipt typedHash ''anchored'' (tr_hash confirmation) db)
      else (Inl (SignerError (PlainError (''Transaction did not verify the requested receipt: '' @ tr_hash confirmation))),
            set_receipt typedHash ''anchor_failed'' (tr_hash confirmation) db))"

definition confirm_anchor ::
    "anchorer_opts \<Rightarrow> chain_view \<Rightarrow> enclave_error + string \<Rightarrow> (nat \<Rightarrow> anchor_db \<Rightarrow> anchor_db) \<Rightarrow> string \<Rightarrow> string
      \<Rightarrow> anchor_db \<Rightarrow> (signer_error + unit) \<times> anchor_db" where
  "confirm_anchor opts view waited env typedHash tx db =
     (case confirmDurableTransaction (ao_signer opts) view waited tx (an_journal db) of
        (Inl e, journal) \<Rightarrow> (Inl e, note_revert typedHash e (env 3 (db\<lparr>an_journal := journal\<rparr>)))
      | (Inr confirmation, journal) \<Rightarrow> finish_anchor opts typedHash confirmation (env 3 (db\<lparr>an_journal := journal\<rparr>)))"

text \<open>The result, the tables, and the transactions broadcast.\<close>

definition anchorReceipt ::
    "anchorer_opts \<Rightarrow> chain_view \<Rightarrow> chain_view \<Rightarrow> chain_view \<Rightarrow> enclave_error + string \<Rightarrow> string
      \<Rightarrow> (nat \<Rightarrow> anchor_db \<Rightarrow> anchor_db) \<Rightarrow> (journal_row list \<Rightarrow> journal_row list) \<Rightarrow> json \<Rightarrow> anchor_db
      \<Rightarrow> (signer_error + unit) \<times> anchor_db \<times> journal_row list" where
  "anchorReceipt opts view later confirming waited fresh_id env between data db =
     (case anchorJob data of
        Inl e \<Rightarrow> (Inl (SignerError e), db, [])
      | Inr typedHash \<Rightarrow>
          (case receipt_by_hash typedHash (an_receipts db) of
             None \<Rightarrow> (Inr (), db, [])
           | Some row \<Rightarrow>
               (case anchor_plan_for opts typedHash row of
                  Inl e \<Rightarrow> (Inl (SignerError e), db, [])
                | Inr AnchorDone \<Rightarrow> (Inr (), db, [])
                | Inr AnchorSimulated \<Rightarrow> (Inr (), mark_simulated typedHash (env 0 db), [])
                | Inr (AnchorSubmitted tx) \<Rightarrow>
                    (let (res, db') = confirm_anchor opts confirming waited env typedHash tx (env 0 db) in (res, db', []))
                | Inr (AnchorSend call) \<Rightarrow>
                    (let db0 = env 0 db;
                         (res, journal, sent) = sendDurableTransaction (ao_signer opts) view later fresh_id between
                           (''receipt:'' @ typedHash) call (an_journal db0);
                         db1 = env 1 (db0\<lparr>an_journal := journal\<rparr>)
                     in case res of
                          Inl e \<Rightarrow> (Inl e, note_revert typedHash e db1, sent)
                        | Inr tx \<Rightarrow>
                            (let (res', db') = confirm_anchor opts confirming waited env typedHash tx
                                   (env 2 (set_receipt typedHash ''anchoring'' tx db1))
                             in (res', db', sent))))))"

section \<open>Proof recheck\<close>

text \<open>
  \<open>rp_proof\<close>, \<open>rp_block\<close>: the receipt of a transaction and the hash of a block; \<open>None\<close> is viem's
  not-found error, any other failure an error.
\<close>

record recovery_rpc =
  rv_chainId :: "enclave_error + int"
  rv_genesis :: "enclave_error + string option"
  rv_head :: "enclave_error + int"
  rv_proof :: "string \<Rightarrow> enclave_error + tx_receipt option"
  rv_block :: "int \<Rightarrow> enclave_error + string option"

record recovery_opts =
  ro_chainId :: int
  ro_verifier :: "string option"
  ro_confirmations :: "js_number option"
  ro_decode :: log_decoder

definition recovery_depth :: "recovery_opts \<Rightarrow> js_number" where
  "recovery_depth opts = (case ro_confirmations opts of
     Some n \<Rightarrow> n | None \<Rightarrow> if ro_chainId opts \<in> {31337, 1337} then JInt 0 else JInt 12)"

text \<open>The status a row's proof calls for: \<open>None\<close> when it stands. An error is a pending recheck.\<close>

definition recheck_row ::
    "recovery_opts \<Rightarrow> recovery_rpc \<Rightarrow> string \<Rightarrow> int \<Rightarrow> int \<Rightarrow> string \<Rightarrow> journal_row list \<Rightarrow> receipt_row
      \<Rightarrow> enclave_error + string option" where
  "recheck_row opts rpc scope depth head verifier journal row =
     (case rc_anchoredTx row of
        None \<Rightarrow> Inr (Some ''anchor_failed'')
      | Some hash \<Rightarrow>
          if \<not> hex_string 64 hash then Inr (Some ''anchor_failed'')
          else if (case find_operation scope (''receipt:'' @ rc_typedHash row) journal of
                     Some j \<Rightarrow> \<not> same (jr_txHash j) hash | None \<Rightarrow> False)
          then Inr (Some ''anchor_failed'')
          else rbind (rv_proof rpc hash) (\<lambda>found. case found of
              None \<Rightarrow> Inr (Some ''anchoring'')
            | Some proof \<Rightarrow>
                rbind (require (same (tr_hash proof) hash) (PlainError ''Receipt RPC returned a foreign transaction'')) (\<lambda>_.
                rbind (rv_block rpc (tr_blockNumber proof)) (\<lambda>block.
                Inr (if block \<noteq> Some (tr_blockHash proof) \<or> head < tr_blockNumber proof + depth then Some ''anchoring''
                     else if \<not> hasVerifiedReceipt (ro_decode opts) proof verifier (rc_typedHash row) then Some ''anchor_failed''
                     else None)))))"

definition demote :: "receipt_row \<Rightarrow> string \<Rightarrow> receipt_row list \<Rightarrow> receipt_row list" where
  "demote row status = update_rows
     (\<lambda>r. rc_id r = rc_id row \<and> rc_status r = ''anchored'' \<and> rc_anchoredTx r = rc_anchoredTx row)
     (\<lambda>r. r\<lparr>rc_status := status\<rparr>)"

fun recheck_rows ::
    "recovery_opts \<Rightarrow> recovery_rpc \<Rightarrow> string \<Rightarrow> int \<Rightarrow> int \<Rightarrow> string \<Rightarrow> (receipt_row \<Rightarrow> receipt_row list \<Rightarrow> receipt_row list)
      \<Rightarrow> journal_row list \<Rightarrow> receipt_row list \<Rightarrow> nat \<times> receipt_row list \<Rightarrow> nat \<times> receipt_row list" where
  "recheck_rows opts rpc scope depth head verifier env journal [] acc = acc"
| "recheck_rows opts rpc scope depth head verifier env journal (row # rest) (changed, rows) =
     recheck_rows opts rpc scope depth head verifier env journal rest
       (if rc_chainId row \<noteq> Some (ro_chainId opts) \<or> map_option lower (rc_verifierAddress row) \<noteq> Some (lower verifier)
        then (changed, rows)
        else case recheck_row opts rpc scope depth head verifier journal row of
            Inr (Some status) \<Rightarrow>
              (changed + length (matching_rows (\<lambda>r. rc_id r = rc_id row \<and> rc_status r = ''anchored''
                  \<and> rc_anchoredTx r = rc_anchoredTx row) (env row rows)),
               demote row status (env row rows))
          | _ \<Rightarrow> (changed, rows))"

definition page_after :: "nat \<Rightarrow> (receipt_row \<Rightarrow> bool) \<Rightarrow> string option \<Rightarrow> receipt_row list \<Rightarrow> receipt_row list" where
  "page_after limit P after rows =
     take limit (sort_key rc_id (filter (\<lambda>r. P r \<and> (case after of Some a \<Rightarrow> a < rc_id r | None \<Rightarrow> True)) rows))"

record recheck_result =
  rr_afterId :: "string option"
  rr_checked :: nat
  rr_changed :: nat

definition reconcileAnchoredReceipts ::
    "recovery_opts \<Rightarrow> recovery_rpc \<Rightarrow> (receipt_row \<Rightarrow> receipt_row list \<Rightarrow> receipt_row list) \<Rightarrow> string option
      \<Rightarrow> anchor_db \<Rightarrow> (enclave_error + recheck_result) \<times> anchor_db" where
  "reconcileAnchoredReceipts opts rpc env afterId db =
     (case ro_verifier opts of
        None \<Rightarrow> (Inr \<lparr>rr_afterId = None, rr_checked = 0, rr_changed = 0\<rparr>, db)
      | Some verifier \<Rightarrow>
          if \<not> isConfiguredAddress (Some verifier)
          then (Inr \<lparr>rr_afterId = None, rr_checked = 0, rr_changed = 0\<rparr>, db)
          else
            (case rbind (require (is_safe_integer (recovery_depth opts) \<and> 0 \<le> int_of (recovery_depth opts))
                    (PlainError ''Invalid receipt confirmation depth'')) (\<lambda>_.
                  rbind (rv_chainId rpc) (\<lambda>chain.
                  rbind (require (chain = ro_chainId opts) (PlainError ''Receipt recovery RPC chain mismatch'')) (\<lambda>_.
                  rbind (rv_genesis rpc) (\<lambda>genesis.
                  rbind (of_option (PlainError ''Receipt recovery requires canonical genesis'') genesis) (\<lambda>g.
                  rbind (rv_head rpc) (\<lambda>head. Inr (int_dec (ro_chainId opts) @ '':'' @ g, head))))))) of
               Inl e \<Rightarrow> (Inl e, db)
             | Inr (scope, head) \<Rightarrow>
                 (let page = page_after 100 (\<lambda>r. rc_status r = ''anchored'') afterId (an_receipts db);
                      (changed, rows) = recheck_rows opts rpc scope (int_of (recovery_depth opts)) head verifier env
                        (an_journal db) page (0, an_receipts db)
                  in (Inr \<lparr>rr_afterId = (if length page = 100 then Some (rc_id (last page)) else None),
                           rr_checked = length page, rr_changed = changed\<rparr>, db\<lparr>an_receipts := rows\<rparr>))))"

section \<open>Recovering jobs\<close>

text \<open>
  The queue is BullMQ's: adding a job whose id is known, reading its state and retrying it are
  operations on a queue state \<open>'q\<close> that may fail.
\<close>

record 'q job_queue =
  jq_add :: "string \<Rightarrow> 'q \<Rightarrow> enclave_error + 'q"
  jq_state :: "string \<Rightarrow> 'q \<Rightarrow> enclave_error + string"
  jq_retry :: "string \<Rightarrow> 'q \<Rightarrow> enclave_error + 'q"

definition enqueue_receipt :: "'q job_queue \<Rightarrow> string \<Rightarrow> 'q \<Rightarrow> enclave_error + 'q" where
  "enqueue_receipt queue typedHash q =
     rbind (jq_add queue typedHash q) (\<lambda>q1.
     rbind (jq_state queue typedHash q1) (\<lambda>state.
     if state = ''completed'' then jq_retry queue typedHash q1 else Inr q1))"

text \<open>Jobs already added stay when a later one fails.\<close>

fun enqueue_all :: "'q job_queue \<Rightarrow> receipt_row list \<Rightarrow> 'q \<Rightarrow> (enclave_error + unit) \<times> 'q" where
  "enqueue_all queue [] q = (Inr (), q)"
| "enqueue_all queue (row # rows) q =
     (case enqueue_receipt queue (rc_typedHash row) q of
        Inl e \<Rightarrow> (Inl e, (case jq_add queue (rc_typedHash row) q of Inr q1 \<Rightarrow> q1 | Inl _ \<Rightarrow> q))
      | Inr q' \<Rightarrow> enqueue_all queue rows q')"

definition awaiting_anchor :: "receipt_row \<Rightarrow> bool" where
  "awaiting_anchor r \<longleftrightarrow> rc_status r = ''pending'' \<or> rc_status r = ''anchoring''"

lemma page_after_bound:
  assumes "page = page_after limit P after rows" and "page \<noteq> []"
  shows "P (last page)" "last page \<in> set rows" "\<And>a. after = Some a \<Longrightarrow> a < rc_id (last page)"
proof -
  have "last page \<in> set page" using assms(2) by simp
  then have "last page \<in> set (sort_key rc_id (filter (\<lambda>r. P r \<and> (case after of Some a \<Rightarrow> a < rc_id r | None \<Rightarrow> True)) rows))"
    unfolding assms(1) page_after_def by (rule in_set_takeD)
  then show "P (last page)" "last page \<in> set rows" "\<And>a. after = Some a \<Longrightarrow> a < rc_id (last page)" by auto
qed

definition rows_after :: "string option \<Rightarrow> receipt_row list \<Rightarrow> nat" where
  "rows_after after rows = length (filter (\<lambda>r. case after of Some a \<Rightarrow> a < rc_id r | None \<Rightarrow> True) rows)"

lemma filter_length_less:
  "(\<And>x. x \<in> set xs \<Longrightarrow> P x \<Longrightarrow> Q x) \<Longrightarrow> y \<in> set xs \<Longrightarrow> Q y \<Longrightarrow> \<not> P y \<Longrightarrow> length (filter P xs) < length (filter Q xs)"
proof (induction xs)
  case (Cons x xs)
  have "filter P xs = filter P (filter Q xs)"
    using Cons.prems(1) by (auto simp: filter_filter intro!: filter_cong)
  then have "length (filter P xs) \<le> length (filter Q xs)" by (metis length_filter_le)
  with Cons show ?case by (cases "y = x") auto
qed simp

lemma rows_after_decreases:
  assumes "page = page_after limit P after rows" and "page \<noteq> []"
  shows "rows_after (Some (rc_id (last page))) rows < rows_after after rows"
  unfolding rows_after_def
  by (rule filter_length_less [of _ _ _ "last page"])
    (use page_after_bound [OF assms] in \<open>auto split: option.splits intro: less_trans\<close>)

function recover_pages ::
    "'q job_queue \<Rightarrow> receipt_row list \<Rightarrow> string option \<Rightarrow> nat \<Rightarrow> 'q \<Rightarrow> (enclave_error + nat) \<times> 'q" where
  "recover_pages queue rows after recovered q =
     (let page = page_after 500 awaiting_anchor after rows in
      case enqueue_all queue page q of
        (Inl e, q') \<Rightarrow> (Inl e, q')
      | (Inr _, q') \<Rightarrow>
          if length page < 500 then (Inr (recovered + length page), q')
          else recover_pages queue rows (Some (rc_id (last page))) (recovered + length page) q')"
  by auto
termination
  by (relation "measure (\<lambda>(queue, rows, after, recovered, q). rows_after after rows)")
    (auto intro: rows_after_decreases [OF refl])

declare recover_pages.simps [simp del]

definition recoverReceiptJobs :: "'q job_queue \<Rightarrow> receipt_row list \<Rightarrow> 'q \<Rightarrow> (enclave_error + nat) \<times> 'q" where
  "recoverReceiptJobs queue rows q = recover_pages queue rows None 0 q"

text \<open>One tick of \<open>startReceiptRecovery\<close>: failures are logged, the cursor of the recheck is kept.\<close>

definition receipt_recovery_tick ::
    "(recovery_opts \<times> recovery_rpc) option \<Rightarrow> (receipt_row \<Rightarrow> receipt_row list \<Rightarrow> receipt_row list) \<Rightarrow> 'q job_queue
      \<Rightarrow> string option \<Rightarrow> anchor_db \<Rightarrow> 'q \<Rightarrow> string option \<times> anchor_db \<times> 'q" where
  "receipt_recovery_tick chain env queue afterId db q =
     (let (after', db') = (case chain of
            None \<Rightarrow> (afterId, db)
          | Some (opts, rpc) \<Rightarrow>
              (case reconcileAnchoredReceipts opts rpc env afterId db of
                 (Inl _, db') \<Rightarrow> (afterId, db')
               | (Inr result, db') \<Rightarrow> (rr_afterId result, db')));
          (res, q') = recoverReceiptJobs queue (an_receipts db') q
      in (after', db', q'))"

section \<open>Paging visits each receipt once\<close>

definition remaining :: "string option \<Rightarrow> receipt_row list \<Rightarrow> receipt_row list" where
  "remaining after rows =
     sort_key rc_id (filter (\<lambda>r. awaiting_anchor r \<and> (case after of Some a \<Rightarrow> a < rc_id r | None \<Rightarrow> True)) rows)"

lemma page_remaining: "page_after n awaiting_anchor after rows = take n (remaining after rows)"
  by (simp add: page_after_def remaining_def)

lemma strict_sorted_drop:
  assumes "sorted (map f xs)" and "distinct (map f xs)" and "n < length xs"
  shows "drop (Suc n) xs = filter (\<lambda>r. f (xs ! n) < f r) xs"
  using assms
proof (induction xs arbitrary: n)
  case (Cons x xs)
  have lt: "f x < f y" if "y \<in> set xs" for y
    using Cons.prems(1,2) that by (auto simp: less_le)
  show ?case
  proof (cases n)
    case 0
    have "filter (\<lambda>r. f x < f r) xs = xs" using lt by (simp add: filter_id_conv)
    with 0 show ?thesis by simp
  next
    case (Suc m)
    with Cons.prems(3) have m: "m < length xs" by simp
    then have "\<not> f (xs ! m) < f x" using lt [of "xs ! m"] by simp
    with Suc Cons.IH [of m] Cons.prems(1,2) m show ?thesis by simp
  qed
qed simp

lemma remaining_next:
  assumes "distinct (map rc_id rows)" and "n < length (remaining after rows)"
  shows "drop (Suc n) (remaining after rows) = remaining (Some (rc_id (remaining after rows ! n))) rows"
proof -
  let ?P = "\<lambda>r. awaiting_anchor r \<and> (case after of Some a \<Rightarrow> a < rc_id r | None \<Rightarrow> True)"
  let ?x = "remaining after rows ! n"
  have "sorted (map rc_id (remaining after rows))" by (simp add: remaining_def)
  moreover have "distinct (map rc_id (remaining after rows))"
  proof -
    have "distinct rows" "inj_on rc_id (set rows)" using assms(1) by (auto simp: distinct_map)
    then show ?thesis unfolding remaining_def by (simp add: distinct_map inj_on_subset)
  qed
  ultimately have d: "drop (Suc n) (remaining after rows) = filter (\<lambda>r. rc_id ?x < rc_id r) (remaining after rows)"
    using assms(2) by (rule strict_sorted_drop)
  have "r \<in> set (remaining after rows) \<Longrightarrow> ?P r" for r by (simp add: remaining_def)
  then have "?P ?x" using nth_mem [OF assms(2)] by blast
  then have "filter (\<lambda>r. rc_id ?x < rc_id r) (filter ?P rows) = filter (\<lambda>r. awaiting_anchor r \<and> rc_id ?x < rc_id r) rows"
    by (auto simp: filter_filter intro!: filter_cong split: option.splits)
  then show ?thesis unfolding d by (simp add: remaining_def filter_sort)
qed

lemma enqueue_all_append:
  "enqueue_all queue (xs @ ys) q =
     (case enqueue_all queue xs q of (Inl e, q') \<Rightarrow> (Inl e, q') | (Inr _, q') \<Rightarrow> enqueue_all queue ys q')"
  by (induction xs arbitrary: q) (simp_all split: sum.splits)

lemma recover_pages_all:
  assumes "distinct (map rc_id rows)"
  shows "recover_pages queue rows after recovered q =
    (case enqueue_all queue (remaining after rows) q of
       (Inl e, q') \<Rightarrow> (Inl e, q') | (Inr _, q') \<Rightarrow> (Inr (recovered + length (remaining after rows)), q'))"
  using assms
proof (induction queue rows after recovered q rule: recover_pages.induct)
  case (1 queue rows after recovered q)
  let ?all = "remaining after rows"
  obtain res q1 where page: "enqueue_all queue (take 500 ?all) q = (res, q1)" by fastforce
  have split: "enqueue_all queue ?all q =
      (case enqueue_all queue (take 500 ?all) q of (Inl e, q') \<Rightarrow> (Inl e, q') | (Inr _, q') \<Rightarrow> enqueue_all queue (drop 500 ?all) q')"
    using enqueue_all_append [of queue "take 500 ?all" "drop 500 ?all" q] by simp
  show ?case
  proof (cases res)
    case (Inl e)
    with page split show ?thesis by (subst recover_pages.simps) (simp add: page_remaining Let_def)
  next
    case (Inr u)
    show ?thesis
    proof (cases "length ?all < 500")
      case True
      with page Inr show ?thesis by (subst recover_pages.simps) (simp add: page_remaining Let_def)
    next
      case False
      then have "499 < length ?all" by simp
      moreover from False have "last (take 500 ?all) = ?all ! 499" by (subst last_conv_nth) auto
      ultimately have "last (take 500 ?all) = ?all ! 499" "499 < length ?all" by simp_all
      with remaining_next [OF "1.prems", of 499 after]
      have next_page: "drop 500 ?all = remaining (Some (rc_id (last (take 500 ?all)))) rows" by simp
      have full: "length (take 500 ?all) = 500" using False by simp
      have len: "length ?all = 500 + length (remaining (Some (rc_id (last (take 500 ?all)))) rows)"
        using False unfolding next_page [symmetric] by simp
      show ?thesis
        using page Inr False "1.IH" [OF refl, unfolded page_remaining, OF page [symmetric] Inr] "1.prems" split [unfolded next_page]
        by (subst recover_pages.simps) (simp add: page_remaining Let_def full len add.assoc del: length_take split: sum.splits prod.splits)
    qed
  qed
qed

section \<open>Anchored receipts are proven\<close>

text \<open>
  The chain's evidence for a receipt: a confirmation the signer accepted, with the verifier's event. The
  steps are the transactions of the workers, in any order: a new receipt, the statements of
  \<open>anchorReceipt\<close>, and a recheck.
\<close>

record evidence =
  ev_verifier :: string
  ev_typedHash :: string
  ev_confirmation :: tx_receipt

record anchor_sys =
  as_receipts :: "receipt_row list"
  as_evidence :: "evidence list"

definition accepted :: "chain_view \<Rightarrow> int \<Rightarrow> string \<Rightarrow> tx_receipt \<Rightarrow> bool" where
  "accepted view depth tx confirmation \<longleftrightarrow>
     cv_receipt view tx = Inr (Some confirmation) \<and> same (tr_hash confirmation) tx
     \<and> (\<exists>block head. cv_block view (tr_blockNumber confirmation) = Inr (Some block)
          \<and> same block (tr_blockHash confirmation) \<and> cv_head view = Inr head \<and> tr_blockNumber confirmation + depth \<le> head)"

lemma canonicalReceipt_Some:
  "canonicalReceipt view tx = Inr (Some c) \<Longrightarrow> cv_receipt view tx = Inr (Some c) \<and> same (tr_hash c) tx
     \<and> (\<exists>block. cv_block view (tr_blockNumber c) = Inr (Some block) \<and> same block (tr_blockHash c))"
  by (auto simp: canonicalReceipt_def lift_error_def same_def elim!: rbind_InrE split: option.splits if_splits sum.splits)

lemma confirm_accepted:
  assumes "confirmDurableTransaction opts view waited tx table = (Inr c, table')"
  shows "\<exists>depth. confirmationDepth opts = Inr depth \<and> accepted view depth tx c"
proof -
  from assms obtain depth scope table1 where d: "confirmationDepth opts = Inr depth"
    and r: "record_receipt view scope (signer_address opts) depth tx table = Inr (c, table1)"
    by (auto simp: confirmDurableTransaction_def elim!: rbind_InrE split: sum.splits if_splits)
  from r obtain head where "canonicalReceipt view tx = Inr (Some c)" "cv_head view = Inr head" "tr_blockNumber c + depth \<le> head"
    by (auto simp: record_receipt_def res_simps lift_error_def split: sum.splits)
  with d canonicalReceipt_Some show ?thesis by (auto simp: accepted_def)
qed

inductive anchor_step :: "log_decoder \<Rightarrow> anchor_sys \<Rightarrow> anchor_sys \<Rightarrow> bool" for decode :: log_decoder where
  anchor_new: "rc_status row = ''pending'' \<Longrightarrow>
    anchor_step decode s (s\<lparr>as_receipts := as_receipts s @ [row]\<rparr>)"
| anchor_simulated: "anchor_step decode s (s\<lparr>as_receipts := an_receipts (mark_simulated h \<lparr>an_receipts = as_receipts s, an_journal = j\<rparr>)\<rparr>)"
| anchor_submitted:
    "anchor_step decode s (s\<lparr>as_receipts := an_receipts (set_receipt h ''anchoring'' tx \<lparr>an_receipts = as_receipts s, an_journal = j\<rparr>)\<rparr>)"
| anchor_reverted:
    "anchor_step decode s (s\<lparr>as_receipts := an_receipts (note_revert h e \<lparr>an_receipts = as_receipts s, an_journal = j\<rparr>)\<rparr>)"
| anchor_finished: "ao_decode opts = decode \<Longrightarrow> ao_verifier opts = Some verifier \<Longrightarrow>
    confirmDurableTransaction (ao_signer opts) view waited tx journal = (Inr c, journal') \<Longrightarrow>
    finish_anchor opts h c \<lparr>an_receipts = as_receipts s, an_journal = j\<rparr> = (res, db) \<Longrightarrow>
    anchor_step decode s \<lparr>as_receipts = an_receipts db,
      as_evidence = as_evidence s @ [\<lparr>ev_verifier = verifier, ev_typedHash = h, ev_confirmation = c\<rparr>]\<rparr>"
| anchor_demoted: "status \<in> {''anchoring'', ''anchor_failed''} \<Longrightarrow>
    anchor_step decode s (s\<lparr>as_receipts := demote row status (as_receipts s)\<rparr>)"

definition anchor_start :: "anchor_sys \<Rightarrow> bool" where
  "anchor_start s \<longleftrightarrow> (\<forall>r \<in> set (as_receipts s). rc_status r \<noteq> ''anchored'') \<and> as_evidence s = []"

definition proven :: "log_decoder \<Rightarrow> evidence list \<Rightarrow> receipt_row \<Rightarrow> bool" where
  "proven decode evidences r \<longleftrightarrow>
     (\<exists>e \<in> set evidences. ev_typedHash e = rc_typedHash r \<and> rc_anchoredTx r = Some (tr_hash (ev_confirmation e))
        \<and> hasVerifiedReceipt decode (ev_confirmation e) (ev_verifier e) (rc_typedHash r))"

definition evidence_accepted :: "evidence \<Rightarrow> bool" where
  "evidence_accepted e \<longleftrightarrow> (\<exists>opts view tx depth. confirmationDepth opts = Inr depth \<and> accepted view depth tx (ev_confirmation e))"

definition anchors_proven :: "log_decoder \<Rightarrow> anchor_sys \<Rightarrow> bool" where
  "anchors_proven decode s \<longleftrightarrow>
     (\<forall>r \<in> set (as_receipts s). rc_status r = ''anchored'' \<longrightarrow> proven decode (as_evidence s) r)
     \<and> (\<forall>e \<in> set (as_evidence s). evidence_accepted e)"

lemma set_receipt_other:
  "r \<in> set (an_receipts (set_receipt h status tx db)) \<Longrightarrow>
     r \<in> set (an_receipts db) \<or> (rc_status r = status \<and> rc_anchoredTx r = Some tx \<and> rc_typedHash r = h)"
  by (auto simp: set_receipt_def set_update_rows)

lemma proven_mono: "proven decode es r \<Longrightarrow> proven decode (es @ fs) r"
  by (auto simp: proven_def)

lemma anchor_step_proven:
  assumes ok: "anchors_proven decode s" and step: "anchor_step decode s t"
  shows "anchors_proven decode t"
proof -
  have keep: "anchors_proven decode (s\<lparr>as_receipts := an_receipts (set_receipt h status tx \<lparr>an_receipts = as_receipts s, an_journal = j\<rparr>)\<rparr>)"
    if "status \<noteq> ''anchored''" for h status tx j
    using ok that by (auto simp: anchors_proven_def dest!: set_receipt_other)
  from step show ?thesis
  proof cases
    case (anchor_new row)
    with ok show ?thesis by (auto simp: anchors_proven_def)
  next
    case (anchor_simulated h j)
    with keep show ?thesis by (simp add: mark_simulated_def)
  next
    case (anchor_submitted h tx j)
    with keep show ?thesis by simp
  next
    case (anchor_reverted h e j)
    with keep ok show ?thesis by (cases e) (simp_all add: note_revert_def)
  next
    case (anchor_finished opts verifier view waited tx journal c journal' h j res db)
    let ?e = "\<lparr>ev_verifier = verifier, ev_typedHash = h, ev_confirmation = c\<rparr>"
    let ?db = "\<lparr>an_receipts = as_receipts s, an_journal = j\<rparr>"
    have acc: "evidence_accepted ?e"
      using confirm_accepted [OF anchor_finished(4)] unfolding evidence_accepted_def by auto
    have "proven decode (as_evidence s @ [?e]) r" if r: "r \<in> set (an_receipts db)" "rc_status r = ''anchored''" for r
    proof (cases "hasVerifiedReceipt decode c verifier h")
      case True
      with anchor_finished(2,3,5) have db: "db = set_receipt h ''anchored'' (tr_hash c) ?db"
        by (simp add: finish_anchor_def)
      from set_receipt_other [OF r(1) [unfolded db]] show ?thesis
      proof
        assume "r \<in> set (an_receipts ?db)"
        with ok r(2) show ?thesis by (auto simp: anchors_proven_def intro: proven_mono)
      next
        assume "rc_status r = ''anchored'' \<and> rc_anchoredTx r = Some (tr_hash c) \<and> rc_typedHash r = h"
        with True show ?thesis by (auto simp: proven_def)
      qed
    next
      case False
      with anchor_finished(2,3,5) have db: "db = set_receipt h ''anchor_failed'' (tr_hash c) ?db"
        by (simp add: finish_anchor_def)
      from set_receipt_other [OF r(1) [unfolded db]] ok r(2) show ?thesis
        by (auto simp: anchors_proven_def intro: proven_mono)
    qed
    with ok acc anchor_finished(1) show ?thesis by (auto simp: anchors_proven_def)
  next
    case (anchor_demoted status row)
    with ok show ?thesis by (auto simp: anchors_proven_def demote_def set_update_rows)
  qed
qed

interpretation anchors: invariant_system anchor_start "anchor_step decode" "anchors_proven decode" for decode
proof unfold_locales
  show "anchor_start s \<Longrightarrow> anchors_proven decode s" for s by (simp add: anchor_start_def anchors_proven_def)
  show "anchors_proven decode s \<Longrightarrow> anchor_step decode s t \<Longrightarrow> anchors_proven decode t" for s t
    by (rule anchor_step_proven)
qed

section \<open>Properties\<close>


definition demo_receipt :: receipt_row where
  "demo_receipt = \<lparr>rc_id = ''1'', rc_modelHash = [], rc_codeHash = [], rc_inHash = [], rc_outHash = [], rc_attRef = [],
     rc_receiptVersion = 1, rc_nonce = None, rc_chainId = None, rc_verifierAddress = None, rc_ts = 0, rc_sig = [],
     rc_typedHash = ''h'', rc_status = ''pending'', rc_anchoredTx = None\<rparr>"

definition demo_confirmation :: tx_receipt where
  "demo_confirmation = \<lparr>tr_hash = ''x'', tr_blockNumber = 3, tr_blockHash = ''b'', tr_success = True,
     tr_logs = [\<lparr>tl_address = ''v'', tl_topics = [], tl_data = ''h''\<rparr>]\<rparr>"

definition demo_decode :: log_decoder where "demo_decode e = Some (tl_data e)"

definition demo_anchor_view :: chain_view where
  "demo_anchor_view = \<lparr>cv_chainId = Inr 5, cv_genesis = Inr (Some ''g''), cv_head = Inr 9, cv_block = (\<lambda>_. Inr (Some ''b'')),
     cv_receipt = (\<lambda>_. Inr (Some demo_confirmation)), cv_minedNonce = (\<lambda>_. Inr 0), cv_pendingNonce = Inr 0,
     cv_send = (\<lambda>_. Inr ''x''), cv_observed = (\<lambda>_. Inr ''x''), cv_prepare = (\<lambda>_. Inl (PlainError [])), cv_sign = (\<lambda>_ _. Inl (PlainError []))\<rparr>"

definition demo_anchor_opts :: anchorer_opts where
  "demo_anchor_opts = \<lparr>ao_verifier = Some ''v'', ao_chainId = Some 5,
     ao_signer = \<lparr>so_chainId = 5, so_address = ''a'', so_confirmations = Some (JInt 2), so_keccak = (\<lambda>b. b)\<rparr>,
     ao_decode = demo_decode, ao_encode = (\<lambda>_ _ _. [])\<rparr>"


text \<open>
  Recovery reaches every receipt and ends: paging through the receipts by id, 500 at a time,
  terminates, hands every pending or anchoring receipt to the queue exactly once and in id order, however
  many pages there are, and counts them; a failing queue only cuts it short.
\<close>

theorem receipt_recovery_visits_each_once:
  assumes "distinct (map rc_id rows)"
  shows "recoverReceiptJobs queue rows q =
    (case enqueue_all queue (sort_key rc_id (filter awaiting_anchor rows)) q of
       (Inl e, q') \<Rightarrow> (Inl e, q')
     | (Inr _, q') \<Rightarrow> (Inr (length (filter awaiting_anchor rows)), q'))"
proof -
  have all: "remaining None rows = sort_key rc_id (filter awaiting_anchor rows)" by (simp add: remaining_def)
  from recover_pages_all [OF assms, of queue None 0 q] show ?thesis
    unfolding recoverReceiptJobs_def all length_sort add_0 .
qed

definition demo_queue :: "string list job_queue" where
  "demo_queue = \<lparr>jq_add = (\<lambda>h q. Inr (q @ [h])), jq_state = (\<lambda>_ _. Inr ''waiting''), jq_retry = (\<lambda>_ q. Inr q)\<rparr>"

theorem receipt_recovery_visits_each_once_witness:
  "recoverReceiptJobs demo_queue [demo_receipt\<lparr>rc_id := ''2''\<rparr>, demo_receipt\<lparr>rc_typedHash := ''g''\<rparr>] [] = (Inr 2, [''g'', ''h''])"
proof -
  have "sort_key rc_id (filter awaiting_anchor [demo_receipt\<lparr>rc_id := ''2''\<rparr>, demo_receipt\<lparr>rc_typedHash := ''g''\<rparr>])
      = [demo_receipt\<lparr>rc_typedHash := ''g''\<rparr>, demo_receipt\<lparr>rc_id := ''2''\<rparr>]"
    by (simp add: awaiting_anchor_def demo_receipt_def)
  with receipt_recovery_visits_each_once [of "[demo_receipt\<lparr>rc_id := ''2''\<rparr>, demo_receipt\<lparr>rc_typedHash := ''g''\<rparr>]" demo_queue "[]"]
  show ?thesis
    by (simp add: enqueue_receipt_def demo_queue_def awaiting_anchor_def demo_receipt_def)
qed

end
