(* ===== verification/Worker_Index_Safety.thy ===== *)
theory Worker_Index_Safety
  imports Worker_Indexer
begin

text \<open>
  What the indexer guarantees. The policy table is the fold of a per-row transition over the journal
  (\<open>policy_fix\<close>), the window of headers is well formed and agrees with the journal, and a cursor that is
  not active serves no approval. \<open>index_step\<close> is any tick or reset of one scope; its invariant gives the
  properties of every reachable state.
\<close>

section \<open>Replay as a fold over one row\<close>

fun row_sync :: "string \<Rightarrow> registry_event \<Rightarrow> model_row \<Rightarrow> model_row" where
  "row_sync scope (Listed i m c provider) r =
     (if has_hashes m c r
      then r\<lparr>mo_listingId := Some i, mo_chainScope := Some scope, mo_approved := False, mo_revoked := False\<rparr> else r)"
| "row_sync scope (Approved i) r = (if of_listing scope i r then r\<lparr>mo_approved := True, mo_revoked := False\<rparr> else r)"
| "row_sync scope (Revoked i) r = (if of_listing scope i r then r\<lparr>mo_approved := False, mo_revoked := True\<rparr> else r)"

fun listed_row :: "string \<Rightarrow> registry_event \<Rightarrow> model_row option" where
  "listed_row scope (Listed i m c provider) =
     Some \<lparr>mo_modelHash = m, mo_codeHash = c, mo_version = ''chain'', mo_provider = provider,
       mo_approved = False, mo_revoked = False, mo_listingBps = 0, mo_listingId = Some i, mo_chainScope = Some scope\<rparr>"
| "listed_row scope _ = None"

definition same_model :: "model_row \<Rightarrow> model_row \<Rightarrow> bool" where
  "same_model a b \<longleftrightarrow> mo_modelHash a = mo_modelHash b \<and> mo_codeHash a = mo_codeHash b"

text \<open>The columns a registry event never writes.\<close>

definition catalog :: "model_row \<Rightarrow> string \<times> string \<times> string \<times> string \<times> int" where
  "catalog r = (mo_modelHash r, mo_codeHash r, mo_version r, mo_provider r, mo_listingBps r)"

lemma catalog_row_sync [simp]: "catalog (row_sync scope e r) = catalog r"
  by (cases e) (auto simp: catalog_def)

lemma catalog_clear [simp]: "catalog (clear_row scope r) = catalog r"
  by (auto simp: catalog_def clear_row_def)

lemma catalog_fold [simp]: "catalog (fold (row_sync scope) es r) = catalog r"
  by (induction es arbitrary: r) auto

lemma same_model_catalog: "catalog a = catalog b \<Longrightarrow> same_model a b"
  by (auto simp: catalog_def same_model_def)

lemma sync_rows_eq:
  "sync_rows scope e rows =
     map (row_sync scope e) rows
     @ (case listed_row scope e of
          Some new \<Rightarrow> if \<exists>r \<in> set rows. same_model r new then [] else [new] | None \<Rightarrow> [])"
proof (cases e)
  case (Listed i m c p)
  have "map (row_sync scope e) rows = rows" if "\<not> (\<exists>r \<in> set rows. has_hashes m c r)"
    using that by (auto simp: Listed intro!: map_idI)
  then show ?thesis
    by (auto simp: Listed list_model_def update_rows_def same_model_def has_hashes_def)
qed (auto simp: update_rows_def)

lemma sync_rows_mem:
  "r \<in> set (sync_rows scope e rows) \<Longrightarrow>
     (\<exists>q \<in> set rows. r = row_sync scope e q) \<or> listed_row scope e = Some r"
  by (auto simp: sync_rows_eq split: option.splits if_splits)

lemma sync_rows_keeps: "q \<in> set rows \<Longrightarrow> row_sync scope e q \<in> set (sync_rows scope e rows)"
  by (auto simp: sync_rows_eq)

lemma fold_sync_keeps:
  "q \<in> set rows \<Longrightarrow> fold (row_sync scope) es q \<in> set (fold (sync_rows scope) es rows)"
  by (induction es arbitrary: q rows) (auto dest: sync_rows_keeps)

lemma fold_sync_mem:
  "r \<in> set (fold (sync_rows scope) es rows) \<Longrightarrow>
     (\<exists>q \<in> set rows. r = fold (row_sync scope) es q)
     \<or> (\<exists>es1 e es2 new. es = es1 @ e # es2 \<and> listed_row scope e = Some new \<and> r = fold (row_sync scope) es2 new)"
proof (induction es arbitrary: rows)
  case (Cons e es)
  from Cons.prems have "r \<in> set (fold (sync_rows scope) es (sync_rows scope e rows))" by simp
  then consider (old) q where "q \<in> set (sync_rows scope e rows)" "r = fold (row_sync scope) es q"
    | (new) es1 d es2 new where "es = es1 @ d # es2" "listed_row scope d = Some new" "r = fold (row_sync scope) es2 new"
    using Cons.IH by blast
  then show ?case
  proof cases
    case old
    from sync_rows_mem [OF old(1)] show ?thesis
    proof
      assume "\<exists>p \<in> set rows. q = row_sync scope e p"
      with old(2) show ?thesis by auto
    next
      assume "listed_row scope e = Some q"
      with old(2) have "e # es = [] @ e # es \<and> listed_row scope e = Some q \<and> r = fold (row_sync scope) es q" by simp
      then show ?thesis by blast
    qed
  next
    case new
    then have "e # es = (e # es1) @ d # es2" by simp
    with new(2,3) show ?thesis by blast
  qed
qed simp

lemma fold_sync_fixed:
  "(\<And>e new. e \<in> set es \<Longrightarrow> listed_row scope e = Some new \<Longrightarrow> \<exists>r \<in> set rows. same_model r new) \<Longrightarrow>
     fold (sync_rows scope) es rows = map (fold (row_sync scope) es) rows"
proof (induction es arbitrary: rows)
  case (Cons e es)
  have "sync_rows scope e rows = map (row_sync scope e) rows"
    using Cons.prems [of e] by (auto simp: sync_rows_eq split: option.splits)
  moreover have "\<exists>r \<in> set (map (row_sync scope e) rows). same_model r new"
    if d: "d \<in> set es" "listed_row scope d = Some new" for d new
  proof -
    from Cons.prems [of d] d obtain r where "r \<in> set rows" "same_model r new" by auto
    moreover have "same_model (row_sync scope e r) r" by (rule same_model_catalog) simp
    ultimately show ?thesis by (auto simp: same_model_def)
  qed
  ultimately show ?case using Cons.IH [of "map (row_sync scope e) rows"] by (simp add: comp_def)
qed simp

section \<open>The policy is the replay of the journal\<close>

definition policy_fix :: "string \<Rightarrow> registry_event list \<Rightarrow> model_row list \<Rightarrow> bool" where
  "policy_fix scope es rows \<longleftrightarrow>
     (\<forall>r \<in> set rows. fold (row_sync scope) es (clear_row scope r) = r)
     \<and> (\<forall>e \<in> set es. \<forall>new. listed_row scope e = Some new \<longrightarrow> (\<exists>r \<in> set rows. same_model r new))"

lemma policy_fix_start: "policy_fix scope [] (map (clear_row scope) rows)"
  by (auto simp: policy_fix_def clear_row_def in_scope_def)

text \<open>A listing of the row's own model overwrites whatever the row held.\<close>

lemma row_sync_listed:
  "listed_row scope e = Some new \<Longrightarrow> same_model r new \<Longrightarrow> catalog a = catalog r \<Longrightarrow> catalog b = catalog r \<Longrightarrow>
     row_sync scope e a = row_sync scope e b"
  by (cases e) (auto simp: catalog_def same_model_def has_hashes_def)

lemma fold_row_sync_listed:
  assumes "e \<in> set es" and "listed_row scope e = Some new" and "same_model r new"
    and "catalog a = catalog r" and "catalog b = catalog r"
  shows "fold (row_sync scope) es a = fold (row_sync scope) es b"
proof -
  from assms(1) obtain es1 es2 where es: "es = es1 @ e # es2" by (auto simp: in_set_conv_decomp)
  have "row_sync scope e (fold (row_sync scope) es1 a) = row_sync scope e (fold (row_sync scope) es1 b)"
    using assms(2-) by (intro row_sync_listed [of scope e new r]) simp_all
  then show ?thesis by (simp add: es)
qed

text \<open>Without a listing of its model a row keeps its listing and scope.\<close>

lemma row_sync_unlisted:
  "(\<And>new. listed_row scope e = Some new \<Longrightarrow> \<not> same_model r new) \<Longrightarrow>
     (if in_scope scope r then clear_row scope (row_sync scope e r) = clear_row scope r \<and> in_scope scope (row_sync scope e r)
      else row_sync scope e r = r)"
  by (cases e) (auto simp: same_model_def has_hashes_def clear_row_def in_scope_def of_listing_def)

lemma fold_row_sync_unlisted:
  "(\<And>e new. e \<in> set es \<Longrightarrow> listed_row scope e = Some new \<Longrightarrow> \<not> same_model r new) \<Longrightarrow>
     (if in_scope scope r
      then clear_row scope (fold (row_sync scope) es r) = clear_row scope r
      else fold (row_sync scope) es r = r)"
proof (induction es arbitrary: r)
  case (Cons e es)
  let ?r = "row_sync scope e r"
  have sm: "same_model ?r new = same_model r new" for new
    using same_model_catalog [of ?r r] by (auto simp: same_model_def)
  have "if in_scope scope ?r then clear_row scope (fold (row_sync scope) es ?r) = clear_row scope ?r
      else fold (row_sync scope) es ?r = ?r"
    using Cons.prems by (intro Cons.IH) (auto simp: sm)
  moreover have "if in_scope scope r then clear_row scope ?r = clear_row scope r \<and> in_scope scope ?r else ?r = r"
    using Cons.prems by (intro row_sync_unlisted) auto
  ultimately show ?case by (auto split: if_splits)
qed simp

lemma listed_catalog:
  "listed_row scope e = Some new \<Longrightarrow> catalog a = catalog new \<Longrightarrow> row_sync scope e a = new"
  by (cases e) (auto simp: catalog_def has_hashes_def)

lemma policy_fix_extend:
  assumes pf: "policy_fix scope js rows"
  shows "policy_fix scope (js @ es) (fold (sync_rows scope) es rows)"
proof -
  let ?rows = "fold (sync_rows scope) es rows"
  have row: "fold (row_sync scope) (js @ es) (clear_row scope r) = r" if r: "r \<in> set ?rows" for r
    using fold_sync_mem [OF r]
  proof
    assume "\<exists>q \<in> set rows. r = fold (row_sync scope) es q"
    then obtain q where q: "q \<in> set rows" "r = fold (row_sync scope) es q" by blast
    with pf have fq: "fold (row_sync scope) js (clear_row scope q) = q" by (simp add: policy_fix_def)
    show ?thesis
    proof (cases "\<exists>e new. e \<in> set es \<and> listed_row scope e = Some new \<and> same_model q new")
      case True
      then obtain e new where "e \<in> set es" "listed_row scope e = Some new" "same_model q new" by blast
      from fold_row_sync_listed [OF this, of "fold (row_sync scope) js (clear_row scope r)" q] q(2) show ?thesis by simp
    next
      case False
      then have u: "if in_scope scope q then clear_row scope r = clear_row scope q else r = q"
        using fold_row_sync_unlisted [of es scope q] q(2) by blast
      then show ?thesis using fq q(2) by (auto split: if_splits)
    qed
  next
    assume "\<exists>es1 e es2 new. es = es1 @ e # es2 \<and> listed_row scope e = Some new \<and> r = fold (row_sync scope) es2 new"
    then obtain es1 e es2 new where n: "es = es1 @ e # es2" "listed_row scope e = Some new"
      "r = fold (row_sync scope) es2 new" by blast
    have "row_sync scope e (fold (row_sync scope) (js @ es1) (clear_row scope r)) = new"
      by (rule listed_catalog [OF n(2)]) (simp add: n(3))
    then show ?thesis by (simp add: n(1,3))
  qed
  have listed: "\<exists>r \<in> set ?rows. same_model r new" if e: "e \<in> set (js @ es)" "listed_row scope e = Some new" for e new
  proof (cases "e \<in> set js")
    case True
    with pf e(2) obtain q where q: "q \<in> set rows" "same_model q new" unfolding policy_fix_def by blast
    have "same_model (fold (row_sync scope) es q) q" by (rule same_model_catalog) simp
    with q fold_sync_keeps [OF q(1)] show ?thesis by (auto simp: same_model_def)
  next
    case False
    with e(1) obtain es1 es2 where es: "es = es1 @ e # es2" by (auto simp: in_set_conv_decomp)
    have "\<exists>q \<in> set (sync_rows scope e rows'). same_model q new" for rows'
    proof (cases "\<exists>q \<in> set rows'. same_model q new")
      case True
      then obtain q where q: "q \<in> set rows'" "same_model q new" by blast
      have "same_model (row_sync scope e q) q" by (rule same_model_catalog) simp
      with q sync_rows_keeps [OF q(1)] show ?thesis by (auto simp: same_model_def)
    next
      case False
      with e(2) show ?thesis by (auto simp: sync_rows_eq same_model_def)
    qed
    then obtain q where q: "q \<in> set (sync_rows scope e (fold (sync_rows scope) es1 rows))" "same_model q new" by blast
    have "same_model (fold (row_sync scope) es2 q) q" by (rule same_model_catalog) simp
    with q fold_sync_keeps [OF q(1), of scope es2] show ?thesis by (auto simp: es same_model_def)
  qed
  show ?thesis unfolding policy_fix_def using row listed by blast
qed

lemma policy_fix_replay:
  "policy_fix scope es rows \<Longrightarrow> fold (sync_rows scope) es (map (clear_row scope) rows) = rows"
proof -
  assume pf: "policy_fix scope es rows"
  have "\<exists>r \<in> set (map (clear_row scope) rows). same_model r new"
    if "e \<in> set es" "listed_row scope e = Some new" for e new
  proof -
    from pf that obtain q where q: "q \<in> set rows" "same_model q new" unfolding policy_fix_def by blast
    moreover have "same_model (clear_row scope q) q" by (rule same_model_catalog) simp
    ultimately show ?thesis by (auto simp: same_model_def)
  qed
  then have "fold (sync_rows scope) es (map (clear_row scope) rows) = map (fold (row_sync scope) es) (map (clear_row scope) rows)"
    by (rule fold_sync_fixed)
  also have "\<dots> = rows" using pf by (auto simp: policy_fix_def intro: map_idI)
  finally show ?thesis .
qed

section \<open>The journal\<close>

lemma apply_all_Inr: "apply_all es scope rows = Inr rows' \<Longrightarrow> rows' = fold (sync_rows scope) es rows"
  by (induction es arbitrary: rows) (auto simp: applyRegistrySync_def res_simps elim!: rbind_InrE)

lemma replay_Inr:
  "replay js scope rows = Inr rows' \<Longrightarrow>
     \<exists>es. map ce_payload js = map Some es \<and> (\<forall>e \<in> set es. listing_in_range (re_listingId e))
       \<and> rows' = fold (sync_rows scope) es rows"
proof (induction js arbitrary: rows)
  case (Cons j js)
  then obtain e rows1 where e: "ce_payload j = Some e" "listing_in_range (re_listingId e)"
    "rows1 = sync_rows scope e rows" "replay js scope rows1 = Inr rows'"
    by (auto simp: registryEventFromPayload_def applyRegistrySync_def res_simps split: option.splits if_splits elim!: rbind_InrE)
  from Cons.IH [OF e(4)] obtain es where "map ce_payload js = map Some es"
    "\<forall>e \<in> set es. listing_in_range (re_listingId e)" "rows' = fold (sync_rows scope) es rows1" by blast
  with e show ?case by (intro exI [of _ "e # es"]) simp
qed simp

lemma replay_total:
  "map ce_payload js = map Some es \<Longrightarrow> \<forall>e \<in> set es. listing_in_range (re_listingId e) \<Longrightarrow>
     replay js scope rows = Inr (fold (sync_rows scope) es rows)"
proof (induction js arbitrary: es rows)
  case (Cons j js)
  then obtain e es' where "es = e # es'" "ce_payload j = Some e" "map ce_payload js = map Some es'"
    by (cases es) auto
  with Cons show ?case by (simp add: registryEventFromPayload_def applyRegistrySync_def)
qed simp

definition journal_policy :: "string \<Rightarrow> event_row list \<Rightarrow> model_row list \<Rightarrow> bool" where
  "journal_policy scope events rows \<longleftrightarrow>
     (\<exists>es. map ce_payload (registry_journal scope events) = map Some es
        \<and> (\<forall>e \<in> set es. listing_in_range (re_listingId e)) \<and> policy_fix scope es rows)"

lemma rebuild_gives_policy:
  assumes "rebuildRegistryPolicy scope events rows = Inr rows'"
  shows "journal_policy scope events rows'"
proof -
  from replay_Inr [OF assms [unfolded rebuildRegistryPolicy_def]] obtain es where
    es: "map ce_payload (registry_journal scope events) = map Some es"
      "\<forall>e \<in> set es. listing_in_range (re_listingId e)"
      "rows' = fold (sync_rows scope) es (map (clear_row scope) rows)" by blast
  have "policy_fix scope ([] @ es) rows'" unfolding es(3) by (rule policy_fix_extend) (rule policy_fix_start)
  with es show ?thesis by (auto simp: journal_policy_def)
qed

lemma policy_rebuild_unchanged:
  "journal_policy scope events rows \<Longrightarrow> rebuildRegistryPolicy scope events rows = Inr rows"
  by (auto simp: journal_policy_def rebuildRegistryPolicy_def replay_total policy_fix_replay)

text \<open>Events of later blocks sort behind those already journalled.\<close>

lemma registry_journal_append:
  assumes "\<And>e. e \<in> set old \<Longrightarrow> ce_scope e = scope \<Longrightarrow> ce_blockNumber e \<le> cursor"
    and "\<And>e. e \<in> set new \<Longrightarrow> cursor < ce_blockNumber e"
  shows "registry_journal scope (old @ new) = registry_journal scope old @ registry_journal scope new"
  unfolding registry_journal_def filter_append
  by (rule sort_key_append) (fastforce dest: assms simp: less_eq_prod_def)

definition event_of :: "string \<Rightarrow> string \<times> index_entry \<Rightarrow> event_row" where
  "event_of scope p =
     \<lparr>ce_scope = scope, ce_source = fst p, ce_txHash = or_default (lg_transactionHash (en_log (snd p))) [],
      ce_logIndex = snd (entry_key (snd p)), ce_blockNumber = fst (entry_key (snd p)),
      ce_blockHash = lg_blockHash (en_log (snd p)), ce_payload = en_registryEvent (snd p)\<rparr>"

text \<open>The position of a log on its chain: transaction and index.\<close>

definition log_identity :: "index_entry \<Rightarrow> string \<times> int" where
  "log_identity e = (or_default (lg_transactionHash (en_log e)) [], or_default (lg_logIndex (en_log e)) 0)"

definition identity_of :: "event_row \<Rightarrow> string \<times> int" where
  "identity_of e = (ce_txHash e, ce_logIndex e)"

lemma identity_event_of [simp]: "identity_of (event_of scope p) = log_identity (snd p)"
  by (simp add: identity_of_def event_of_def log_identity_def entry_key_def)

lemma store_entry_fresh:
  assumes "store_entry scope source entry rows = Inr rows'"
    and "\<forall>r \<in> set rows. ce_scope r = scope \<longrightarrow> identity_of r \<noteq> log_identity entry"
  shows "rows' = rows @ [event_of scope (source, entry)]"
  using assms
  by (auto simp: store_entry_def Let_def event_of_def entry_key_def or_default_def identity_of_def log_identity_def
      split: option.splits if_splits prod.splits)

lemma store_entries_fresh:
  "store_entries scope ses rows = Inr rows' \<Longrightarrow> distinct (map (log_identity \<circ> snd) ses) \<Longrightarrow>
     \<forall>r \<in> set rows. ce_scope r = scope \<longrightarrow> identity_of r \<notin> (log_identity \<circ> snd) ` set ses \<Longrightarrow>
     rows' = rows @ map (event_of scope) ses"
proof (induction scope ses rows rule: store_entries.induct)
  case (2 scope source entry rest rows)
  from "2.prems"(1) obtain mid where mid: "store_entry scope source entry rows = Inr mid"
    "store_entries scope rest mid = Inr rows'" by (auto elim: rbind_InrE)
  have m: "mid = rows @ [event_of scope (source, entry)]"
    using "2.prems"(3) by (intro store_entry_fresh [OF mid(1)]) auto
  have "rows' = mid @ map (event_of scope) rest"
    using "2.prems"(2,3) by (intro "2.IH" [OF mid(2)]) (auto simp: m)
  with m show ?case by simp
qed simp

lemma store_entries_mem:
  "store_entries scope ses rows = Inr rows' \<Longrightarrow> r \<in> set rows' \<Longrightarrow> r \<in> set rows \<or> r \<in> event_of scope ` set ses"
proof (induction scope ses rows rule: store_entries.induct)
  case (2 scope source entry rest rows)
  from "2.prems"(1) obtain mid where mid: "store_entry scope source entry rows = Inr mid"
    "store_entries scope rest mid = Inr rows'" by (auto elim: rbind_InrE)
  have "r \<in> set mid \<Longrightarrow> r \<in> set rows \<or> r = event_of scope (source, entry)"
    using mid(1) by (auto simp: store_entry_def Let_def event_of_def entry_key_def or_default_def
        split: option.splits if_splits prod.splits)
  with "2.IH" [OF mid(2) "2.prems"(2)] show ?case by auto
qed simp

lemma map_Some_map_filter: "map Some (List.map_filter g xs) = map g (filter (\<lambda>x. g x \<noteq> None) xs)"
  by (induction xs) (auto simp: List.map_filter_def)

lemma sourced_entries_snd: "map snd (sourced_entries batches) = entries_of batches"
  by (induction batches) (auto simp: sourced_entries_def entries_of_def comp_def)

lemma journal_of_batches:
  assumes "\<And>s e. (s, e) \<in> set (sourced_entries batches) \<Longrightarrow> s \<in> set registry_sources \<longleftrightarrow> en_registryEvent e \<noteq> None"
  shows "map ce_payload (registry_journal scope (map (event_of scope) (sourced_entries batches)))
    = map Some (ordered_events batches)"
proof -
  let ?ses = "sourced_entries batches"
  have "filter (\<lambda>e. ce_scope e = scope \<and> ce_source e \<in> set registry_sources) (map (event_of scope) ?ses)
      = map (event_of scope) (filter (\<lambda>p. en_registryEvent (snd p) \<noteq> None) ?ses)"
    unfolding filter_map by (rule arg_cong [of _ _ "map _"], rule filter_cong) (auto simp: event_of_def assms)
  moreover have "sort_key (\<lambda>e. (ce_blockNumber e, ce_logIndex e)) (map (event_of scope) xs)
      = map (event_of scope) (sort_key (\<lambda>p. entry_key (snd p)) xs)" for xs
    by (rule sort_key_map) (simp add: event_of_def)
  ultimately have "map ce_payload (registry_journal scope (map (event_of scope) ?ses))
      = map (\<lambda>p. en_registryEvent (snd p)) (filter (\<lambda>p. en_registryEvent (snd p) \<noteq> None) (sort_key (\<lambda>p. entry_key (snd p)) ?ses))"
    by (simp add: registry_journal_def filter_sort comp_def event_of_def)
  also have "\<dots> = map en_registryEvent (filter (\<lambda>e. en_registryEvent e \<noteq> None) (map snd (sort_key (\<lambda>p. entry_key (snd p)) ?ses)))"
    by (simp add: filter_map comp_def)
  also have "map snd (sort_key (\<lambda>p. entry_key (snd p)) ?ses) = sort_key entry_key (entries_of batches)"
    unfolding sourced_entries_snd [symmetric] by (rule sort_key_map [symmetric]) simp
  finally show ?thesis by (simp add: ordered_events_def map_Some_map_filter)
qed

section \<open>What a batch contains\<close>

text \<open>The node reports block hashes of 32 bytes.\<close>

definition node_hashes :: "index_rpc \<Rightarrow> bool" where
  "node_hashes rpc \<longleftrightarrow>
     (\<forall>n b h. rp_before rpc n = Inr b \<longrightarrow> rb_hash b = Some h \<longrightarrow> hex_string 64 h)
     \<and> (\<forall>n b h. rp_during rpc n = Inr b \<longrightarrow> rb_hash b = Some h \<longrightarrow> hex_string 64 h)"

lemma readHeader_Inr:
  "readHeader getBlock n = Inr h \<Longrightarrow> ck_number h = n \<and> (\<exists>b. getBlock n = Inr b \<and> rb_hash b = Some (ck_hash h))"
  by (auto simp: readHeader_def elim!: rbind_InrE split: option.splits if_splits)

lemma cached_header_Inr:
  assumes "readHeader (rp_before rpc) toBlock = Inr before" and "cached_header rpc before n = Inr h" and "node_hashes rpc"
  shows "ck_number h = n \<and> hex_string 64 (ck_hash h)"
  using readHeader_Inr [OF assms(1)] assms(2,3) readHeader_Inr [of "rp_during rpc" n h]
  by (auto simp: cached_header_def node_hashes_def split: if_splits)

lemma collect_mem: "collect (map f xs) = Inr ys \<Longrightarrow> y \<in> set ys \<Longrightarrow> \<exists>x \<in> set xs. f x = Inr y"
  by (induction xs arbitrary: ys) (auto simp: rmap_Inr_iff elim!: rbind_InrE)

lemma collect_total: "collect (map f xs) = Inr ys \<Longrightarrow> x \<in> set xs \<Longrightarrow> \<exists>y. f x = Inr y"
  by (induction xs arbitrary: ys) (auto simp: rmap_Inr_iff elim!: rbind_InrE)

lemma collect_numbers:
  "collect (map f xs) = Inr ys \<Longrightarrow> (\<And>x y. f x = Inr y \<Longrightarrow> g y = x) \<Longrightarrow> map g ys = xs"
  by (induction xs arbitrary: ys) (auto simp: rmap_Inr_iff elim!: rbind_InrE)

definition good_entry :: "string \<Rightarrow> index_entry \<Rightarrow> bool" where
  "good_entry source e \<longleftrightarrow> isMined (en_log e) \<and> (source \<in> set registry_sources \<longleftrightarrow> en_registryEvent e \<noteq> None)
     \<and> (\<forall>event. en_registryEvent e = Some event \<longrightarrow> listing_in_range (re_listingId event))"

definition good_batches :: "index_batch list \<Rightarrow> bool" where
  "good_batches batches \<longleftrightarrow> (\<forall>b \<in> set batches. \<forall>e \<in> set (ba_entries b). good_entry (ba_source b) e)"

lemma batch_of_good:
  assumes "batch_of source entry logs = Inr b"
    and "\<And>log e. isMined log \<Longrightarrow> entry log = Inr e \<Longrightarrow> good_entry source e"
  shows "ba_source b = source \<and> (\<forall>e \<in> set (ba_entries b). good_entry source e)"
proof -
  from assms(1) obtain es where es: "collect (map entry (filter isMined logs)) = Inr es"
    "b = \<lparr>ba_source = source, ba_entries = es\<rparr>" by (auto simp: batch_of_def rmap_Inr_iff)
  have "good_entry source e" if "e \<in> set es" for e
    using collect_mem [OF es(1) that] assms(2) by auto
  with es(2) show ?thesis by simp
qed

lemma listingId_Inr: "listingId i = Inr n \<Longrightarrow> listing_in_range n"
  by (auto simp: listingId_def listing_in_range_def split: option.splits if_splits)

lemma plain_entry_good: "isMined log \<Longrightarrow> plain_entry log = Inr e \<Longrightarrow> source \<notin> set registry_sources \<Longrightarrow> good_entry source e"
  by (auto simp: plain_entry_def good_entry_def)

lemma registry_entry_good:
  assumes "isMined log" and "source \<in> set registry_sources"
  shows "listed_entry log = Inr e \<Longrightarrow> good_entry source e" "approved_entry log = Inr e \<Longrightarrow> good_entry source e"
    "revoked_entry log = Inr e \<Longrightarrow> good_entry source e"
  using assms
  by (auto simp: listed_entry_def approved_entry_def revoked_entry_def good_entry_def Let_def rmap_Inr_iff
      split: option.splits if_splits) (erule listingId_Inr)+

lemma source_batch_good:
  assumes "source_batch address getLogs f t source = Inr bs" and "source \<notin> set registry_sources"
  shows "good_batches bs"
  using assms batch_of_good [of source plain_entry] plain_entry_good
  by (fastforce simp: source_batch_def good_batches_def rmap_Inr_iff elim!: rbind_InrE split: option.splits if_splits)

lemma registry_batches_good:
  assumes "registry_batches address rpc f t = Inr bs"
  shows "good_batches bs"
proof (cases "bs = []")
  case False
  then obtain b1 b2 b3 l a r where b: "bs = [b1, b2, b3]"
    "batch_of ''ModelRegistry.Listed'' listed_entry l = Inr b1"
    "batch_of ''ModelRegistry.Approved'' approved_entry a = Inr b2"
    "batch_of ''ModelRegistry.Revoked'' revoked_entry r = Inr b3"
    using assms by (auto simp: registry_batches_def elim!: rbind_InrE split: option.splits if_splits)
  have "\<forall>e \<in> set (ba_entries b1). good_entry (ba_source b1) e"
    using batch_of_good [OF b(2)] registry_entry_good(1) [of _ "''ModelRegistry.Listed''"] by (simp add: registry_sources_def)
  moreover have "\<forall>e \<in> set (ba_entries b2). good_entry (ba_source b2) e"
    using batch_of_good [OF b(3)] registry_entry_good(2) [of _ "''ModelRegistry.Approved''"] by (simp add: registry_sources_def)
  moreover have "\<forall>e \<in> set (ba_entries b3). good_entry (ba_source b3) e"
    using batch_of_good [OF b(4)] registry_entry_good(3) [of _ "''ModelRegistry.Revoked''"] by (simp add: registry_sources_def)
  ultimately show ?thesis by (simp add: b(1) good_batches_def)
qed (simp add: good_batches_def)

lemma read_logs_good:
  assumes "read_logs opts rpc f t = Inr bs"
  shows "good_batches bs"
proof -
  from assms obtain b1 b2 b3 b4 where b: "bs = b1 @ b2 @ b3 @ b4"
    "source_batch (io_verifier opts) (rp_verified rpc) f t ''AttestationVerifier.Verified'' = Inr b1"
    "source_batch (io_meter opts) (rp_settled rpc) f t ''UsageMeter.Settled'' = Inr b2"
    "source_batch (io_feeVault opts) (rp_buyback rpc) f t ''FeeVault.BuybackQueued'' = Inr b3"
    "registry_batches (io_registry opts) rpc f t = Inr b4"
    by (auto simp: read_logs_def elim!: rbind_InrE)
  have "good_batches b1" "good_batches b2" "good_batches b3" "good_batches b4"
    by (rule source_batch_good [OF b(2)] source_batch_good [OF b(3)] source_batch_good [OF b(4)] registry_batches_good [OF b(5)];
        simp add: registry_sources_def)+
  then show ?thesis by (auto simp: good_batches_def b(1))
qed

text \<open>The events of a batch lie in its range and in the blocks whose headers were read.\<close>

definition batch_agrees :: "index_batch list \<Rightarrow> checkpoint list \<Rightarrow> int \<Rightarrow> int \<Rightarrow> bool" where
  "batch_agrees batches cs f t \<longleftrightarrow>
     (\<forall>e \<in> set (entries_of batches). \<exists>n b. lg_blockNumber (en_log e) = Some n \<and> f \<le> n \<and> n \<le> t
        \<and> lg_blockHash (en_log e) = Some b \<and> (\<forall>c \<in> set cs. ck_number c = n \<longrightarrow> same b (ck_hash c)))"

lemma check_entry_Inr:
  "check_entry header f t e = Inr u \<Longrightarrow> \<exists>n b h. lg_blockNumber (en_log e) = Some n \<and> f \<le> n \<and> n \<le> t
     \<and> lg_blockHash (en_log e) = Some b \<and> header n = Inr h \<and> same b (ck_hash h)"
  by (auto simp: check_entry_def res_simps elim!: rbind_InrE split: option.splits if_splits)

lemma readBatch_Inr:
  assumes "readBatch opts ctx rpc f t previous = Inr (batches, cs)"
    and "contiguous previous" and "\<forall>c \<in> set previous. valid_checkpoint c \<and> ck_number c < f"
    and "0 \<le> f" and "f \<le> t" and "0 < cx_window ctx" and "node_hashes rpc"
  shows "good_batches batches \<and> batch_agrees batches cs f t
    \<and> contiguous cs \<and> cs \<noteq> [] \<and> ck_number (last cs) = t \<and> length cs \<le> nat (cx_window ctx)
    \<and> (\<forall>c \<in> set cs. valid_checkpoint c) \<and> (\<forall>c \<in> set cs. c \<in> set previous \<or> f \<le> ck_number c)"
proof -
  let ?first = "max (t - cx_window ctx + 1) f"
  from assms(1) obtain before headers us where
    before: "readHeader (rp_before rpc) t = Inr before" and logs: "read_logs opts rpc f t = Inr batches"
    and headers: "collect (map (cached_header rpc before) [?first..t]) = Inr headers"
    and checks: "collect (map (check_entry (cached_header rpc before) f t) (entries_of batches)) = Inr us"
    and tail: "checkpointTail previous headers (nat (cx_window ctx)) = Inr cs"
    by (auto simp: readBatch_def Let_def elim!: rbind_InrE)
  have header: "\<exists>n. ?first \<le> n \<and> n \<le> t \<and> cached_header rpc before n = Inr h \<and> ck_number h = n \<and> hex_string 64 (ck_hash h)"
    if "h \<in> set headers" for h
    using collect_mem [OF headers that] cached_header_Inr [OF before _ assms(7)] by fastforce
  have numbers: "map ck_number headers = [?first..t]"
    using headers by (rule collect_numbers) (use cached_header_Inr [OF before _ assms(7)] in blast)
  have "?first \<le> t" using assms(5,6) by simp
  then have "headers \<noteq> []" using numbers by auto
  moreover from this have "ck_number (last headers) = t"
    using numbers \<open>?first \<le> t\<close> by (metis last_map upto_rec2 last_snoc)
  ultimately have cs: "contiguous cs \<and> cs \<noteq> [] \<and> last cs = as_checkpoint (last headers) \<and> length cs \<le> nat (cx_window ctx)
    \<and> set cs \<subseteq> set previous \<union> as_checkpoint ` set headers" and last: "ck_number (last cs) = t"
    using checkpointTail_Inr [OF tail assms(2)] assms(6) by (auto simp: as_checkpoint_def)
  have new: "c \<in> set previous \<or> (\<exists>h. cached_header rpc before (ck_number c) = Inr h \<and> c = as_checkpoint h
      \<and> f \<le> ck_number c \<and> valid_checkpoint c)" if "c \<in> set cs" for c
  proof -
    from cs that consider "c \<in> set previous" | h where "h \<in> set headers" "c = as_checkpoint h" by blast
    then show ?thesis
    proof cases
      case 2
      with header [of h] assms(4) show ?thesis by (auto simp: as_checkpoint_def valid_checkpoint_def)
    qed simp
  qed
  have "batch_agrees batches cs f t" unfolding batch_agrees_def
  proof
    fix e assume e: "e \<in> set (entries_of batches)"
    from collect_total [OF checks e] check_entry_Inr obtain n b h where n: "lg_blockNumber (en_log e) = Some n"
      "f \<le> n" "n \<le> t" "lg_blockHash (en_log e) = Some b" "cached_header rpc before n = Inr h" "same b (ck_hash h)"
      by blast
    have "same b (ck_hash c)" if "c \<in> set cs" "ck_number c = n" for c
      using new [OF that(1)] assms(3) n that(2) by (fastforce simp: as_checkpoint_def)
    with n show "\<exists>n b. lg_blockNumber (en_log e) = Some n \<and> f \<le> n \<and> n \<le> t
        \<and> lg_blockHash (en_log e) = Some b \<and> (\<forall>c \<in> set cs. ck_number c = n \<longrightarrow> same b (ck_hash c))" by blast
  qed
  with cs last read_logs_good [OF logs] new assms(3) show ?thesis by blast
qed

section \<open>The invariant\<close>

definition fails_closed :: "string \<Rightarrow> index_db \<Rightarrow> bool" where
  "fails_closed scope db \<longleftrightarrow> (\<forall>r \<in> set (ix_models db). in_scope scope r \<longrightarrow> \<not> mo_approved r)"

definition policy_is_journal :: "string \<Rightarrow> index_db \<Rightarrow> bool" where
  "policy_is_journal scope db \<longleftrightarrow> journal_policy scope (ix_events db) (ix_models db)"

text \<open>A retained window \<open>cs\<close> that ends at \<open>cursor\<close>, and the journal below it.\<close>

definition window_ok :: "string \<Rightarrow> int \<Rightarrow> checkpoint list \<Rightarrow> event_row list \<Rightarrow> bool" where
  "window_ok scope cursor cs events \<longleftrightarrow>
     -1 \<le> cursor \<and> contiguous cs \<and> (\<forall>c \<in> set cs. valid_checkpoint c) \<and> length cs \<le> 4096
     \<and> (if cursor < 0 then cs = [] else map_option ck_number (last_opt cs) = Some cursor)
     \<and> (\<forall>e \<in> set events. ce_scope e = scope \<longrightarrow> 0 \<le> ce_blockNumber e \<and> ce_blockNumber e \<le> cursor
          \<and> (\<forall>c \<in> set cs. ck_number c = ce_blockNumber e \<longrightarrow> (\<exists>b. ce_blockHash e = Some b \<and> same b (ck_hash c))))"

definition statuses :: "string set" where
  "statuses = {''active'', ''catching_up'', ''rebuild_required''}"

definition cursor_ok :: "string \<Rightarrow> index_db \<Rightarrow> cursor_row \<Rightarrow> bool" where
  "cursor_ok scope db c \<longleftrightarrow>
     (\<exists>cs. cu_checkpoints c = serializeCheckpoints cs \<and> cu_blockHash c = map_option ck_hash (last_opt cs)
        \<and> window_ok scope (cu_blockNumber c) cs (ix_events db))
     \<and> cu_status c \<in> statuses
     \<and> (if cu_status c = ''active'' then policy_is_journal scope db else fails_closed scope db)"

definition index_ok :: "string \<Rightarrow> index_db \<Rightarrow> bool" where
  "index_ok scope db \<longleftrightarrow> (case cursor_of scope db of
     Some c \<Rightarrow> cursor_ok scope db c
   | None \<Rightarrow> (\<forall>e \<in> set (ix_events db). ce_scope e \<noteq> scope) \<and> policy_is_journal scope db)"

lemma select_row_prop: "select_row P rows = Some r \<Longrightarrow> P r"
  by (induction rows) (auto split: if_splits)

lemma cursor_of_saveCursor:
  "\<exists>c. cursor_of scope (saveCursor scope n cs status db) = Some c \<and> cu_blockNumber c = n
     \<and> cu_checkpoints c = serializeCheckpoints cs \<and> cu_blockHash c = map_option ck_hash (last_opt cs) \<and> cu_status c = status"
proof (cases "\<exists>c \<in> set (ix_cursors db). cu_name c = scope")
  case True
  then have "select_row (\<lambda>c. cu_name c = scope) (ix_cursors db) \<noteq> None" by (auto simp: select_row_None)
  then obtain c where c: "select_row (\<lambda>c. cu_name c = scope) (ix_cursors db) = Some c" by blast
  from select_row_prop [OF c] c True show ?thesis
    by (simp add: cursor_of_def saveCursor_def Let_def select_row_update)
next
  case False
  then have "select_row (\<lambda>c. cu_name c = scope) (ix_cursors db) = None" by (auto simp: select_row_None)
  with False show ?thesis by (auto simp: cursor_of_def saveCursor_def Let_def select_row_snoc)
qed

lemma saveCursor_tables [simp]:
  "ix_models (saveCursor scope n cs status db) = ix_models db" "ix_events (saveCursor scope n cs status db) = ix_events db"
  by (simp_all add: saveCursor_def Let_def)

lemma index_ok_save:
  assumes "window_ok scope n cs (ix_events db)" and "status \<in> statuses"
    and "if status = ''active'' then policy_is_journal scope db else fails_closed scope db"
  shows "index_ok scope (saveCursor scope n cs status db)"
  using cursor_of_saveCursor [of scope n cs status db] assms
  by (auto simp: index_ok_def cursor_ok_def policy_is_journal_def fails_closed_def)

lemma in_scope_updates [simp]:
  "in_scope scope (r\<lparr>mo_approved := a, mo_revoked := v\<rparr>) = in_scope scope r"
  by (simp add: in_scope_def)

lemma quarantine_fails_closed [simp]: "fails_closed scope (quarantine scope db)"
  by (auto simp: fails_closed_def quarantine_def quarantineRegistryScope_def set_update_rows)

lemma quarantine_events [simp]: "ix_events (quarantine scope db) = ix_events db"
  "ix_cursors (quarantine scope db) = ix_cursors db" "cursor_of scope (quarantine scope db) = cursor_of scope db"
  by (simp_all add: quarantine_def cursor_of_def)

lemma index_ok_set_status:
  assumes "cursor_of scope db = Some c" and "cursor_ok scope db c" and "status \<in> statuses - {''active''}"
  shows "index_ok scope (set_status scope status (quarantine scope db))"
proof -
  have "cu_name c = scope" using assms(1) by (auto simp: cursor_of_def dest: select_row_prop)
  with assms(1) have "cursor_of scope (set_status scope status (quarantine scope db)) = Some (c\<lparr>cu_status := status\<rparr>)"
    by (simp add: cursor_of_def set_status_def select_row_update)
  moreover have "fails_closed scope (set_status scope status (quarantine scope db))"
    using quarantine_fails_closed [of scope db] by (simp add: fails_closed_def set_status_def)
  ultimately show ?thesis using assms(2,3) by (auto simp: index_ok_def cursor_ok_def set_status_def)
qed

lemma clear_row_fixed: "clear_row scope r = r \<Longrightarrow> in_scope scope r \<Longrightarrow> \<not> mo_approved r"
  by (cases r) (simp add: clear_row_def)

lemma policy_fails_closed_empty:
  assumes "policy_is_journal scope db" and "\<forall>e \<in> set (ix_events db). ce_scope e \<noteq> scope"
  shows "fails_closed scope db"
proof -
  have "filter (\<lambda>e. ce_scope e = scope \<and> ce_source e \<in> set registry_sources) (ix_events db) = []"
    using assms(2) by (auto simp: filter_empty_conv)
  with assms(1) have "\<forall>r \<in> set (ix_models db). clear_row scope r = r"
    by (auto simp: policy_is_journal_def journal_policy_def registry_journal_def policy_fix_def)
  then show ?thesis using clear_row_fixed by (auto simp: fails_closed_def)
qed

section \<open>Locating the cursor\<close>

definition located_ok :: "string \<Rightarrow> int \<Rightarrow> checkpoint list \<Rightarrow> bool \<Rightarrow> index_db \<Rightarrow> bool" where
  "located_ok scope cursor cs rebuild db \<longleftrightarrow>
     window_ok scope cursor cs (ix_events db) \<and> index_ok scope db
     \<and> (if rebuild then fails_closed scope db else policy_is_journal scope db)"

lemma load_checkpoints_ok:
  assumes "cu_checkpoints c = serializeCheckpoints cs" and "cu_blockHash c = map_option ck_hash (last_opt cs)"
    and "window_ok scope (cu_blockNumber c) cs events" and "0 \<le> cu_blockNumber c"
  shows "load_checkpoints c = Inr cs"
  using assms parse_serialize [of cs] by (auto simp: load_checkpoints_def window_ok_def)

lemma window_ok_rewind:
  assumes "window_ok scope cursor cs events" and "c \<in> set cs"
  shows "window_ok scope (ck_number c) (filter (\<lambda>b. ck_number b \<le> ck_number c) cs)
    (delete_rows (\<lambda>e. ce_scope e = scope \<and> ce_blockNumber e > ck_number c) events)"
proof -
  have cont: "contiguous cs" and v: "\<forall>c \<in> set cs. valid_checkpoint c" using assms(1) by (auto simp: window_ok_def)
  from v assms(2) have "0 \<le> ck_number c" by (auto simp: valid_checkpoint_def)
  with contiguous_filter_le [OF cont assms(2)] assms(1) show ?thesis
    using order_trans [OF length_filter_le [of "\<lambda>b. ck_number b \<le> ck_number c" cs]]
    by (auto simp: window_ok_def last_opt_def set_delete_rows split: if_splits)
qed

lemma locate_cursor_ok:
  assumes "index_ok scope db" and "locate_cursor scope rpc confirmed db = (l, db')"
  shows "index_ok scope db' \<and> (\<forall>cursor cs rebuild. l = Located cursor cs rebuild \<longrightarrow>
    located_ok scope cursor cs rebuild db' \<and> (-1 \<le> confirmed \<longrightarrow> cursor \<le> confirmed))"
proof (cases "cursor_of scope db")
  case None
  with assms show ?thesis
    by (auto simp: locate_cursor_def index_ok_def located_ok_def window_ok_def)
next
  case (Some c)
  with assms(1) have ok: "cursor_ok scope db c" by (simp add: index_ok_def)
  then obtain cs where cs: "cu_checkpoints c = serializeCheckpoints cs" "cu_blockHash c = map_option ck_hash (last_opt cs)"
    "window_ok scope (cu_blockNumber c) cs (ix_events db)" by (auto simp: cursor_ok_def)
  let ?rebuild = "cu_status c = ''catching_up''"
  have status: "if ?rebuild then fails_closed scope db else policy_is_journal scope db"
    if "cu_status c \<noteq> ''rebuild_required''"
    using ok that by (auto simp: cursor_ok_def statuses_def)
  consider (stuck) "cu_status c = ''rebuild_required''" | (genesis) "cu_status c \<noteq> ''rebuild_required''" "cu_blockNumber c < 0"
    | (saved) "cu_status c \<noteq> ''rebuild_required''" "0 \<le> cu_blockNumber c" by fastforce
  then show ?thesis
  proof cases
    case stuck
    with assms Some show ?thesis by (auto simp: locate_cursor_def)
  next
    case genesis
    from cs(3) genesis(2) have "cs = []" "cu_blockNumber c = -1" by (auto simp: window_ok_def)
    with genesis status cs(3) assms Some show ?thesis by (auto simp: locate_cursor_def located_ok_def Let_def)
  next
    case saved
    have load: "load_checkpoints c = Inr cs" by (rule load_checkpoints_ok [OF cs saved(2)])
    from saved assms(2) Some have run: "locate_saved scope rpc confirmed c ?rebuild db = (l, db')"
      by (simp add: locate_cursor_def Let_def)
    have failed: "index_ok scope (set_status scope s (quarantine scope db))"
      if "s \<in> statuses - {''active''}" for s by (rule index_ok_set_status [OF Some ok that])
    show ?thesis
    proof (cases "\<exists>a. findCommonAncestor cs confirmed (readHeader (rp_ancestors rpc)) = Inr (Some a)")
      case False
      then have "l = Deferred e \<and> db' = set_status scope s (quarantine scope db) \<Longrightarrow> s \<in> statuses - {''active''} \<Longrightarrow> ?thesis" for e s
        using failed by simp
      moreover have "\<exists>e s. l = Deferred e \<and> db' = set_status scope s (quarantine scope db) \<and> s \<in> statuses - {''active''}"
        using False run load by (auto simp: locate_saved_def statuses_def split: sum.splits option.splits)
      ultimately show ?thesis by blast
    next
      case True
      then obtain a where a: "findCommonAncestor cs confirmed (readHeader (rp_ancestors rpc)) = Inr (Some a)" by blast
      note mem = findCommonAncestor_Some [OF a]
      show ?thesis
      proof (cases "ck_number a = cu_blockNumber c")
        case True
        with run load a have "l = Located (cu_blockNumber c) cs ?rebuild" "db' = db" by (simp_all add: locate_saved_def)
        with cs(3) saved status assms(1) mem True show ?thesis by (simp add: located_ok_def)
      next
        case False
        let ?kept = "filter (\<lambda>b. ck_number b \<le> ck_number a) cs"
        let ?db2 = "(quarantine scope db)\<lparr>ix_events := delete_rows
                     (\<lambda>e. ce_scope e = scope \<and> ce_blockNumber e > ck_number a) (ix_events db)\<rparr>"
        from False run load a have l: "l = Located (ck_number a) ?kept True"
          "db' = saveCursor scope (ck_number a) ?kept ''catching_up'' ?db2"
          by (simp_all add: locate_saved_def Let_def)
        have w: "window_ok scope (ck_number a) ?kept (ix_events ?db2)"
          using window_ok_rewind [OF cs(3)] mem by simp
        have f: "fails_closed scope ?db2" using quarantine_fails_closed [of scope db] by (simp add: fails_closed_def)
        have "index_ok scope db'" unfolding l(2)
          by (rule index_ok_save [OF w]) (use f in \<open>simp_all add: statuses_def\<close>)
        with w f l mem show ?thesis by (simp add: located_ok_def fails_closed_def)
      qed
    qed
  qed
qed

section \<open>Advancing\<close>

text \<open>
  A transaction is mined in one block and its logs are numbered: a log of a batch is neither repeated in
  the batch nor the position of a log journalled for an earlier block.
\<close>

definition positions_ok :: "string \<Rightarrow> event_row list \<Rightarrow> index_batch list \<Rightarrow> int \<Rightarrow> bool" where
  "positions_ok scope events batches f \<longleftrightarrow>
     distinct (map log_identity (entries_of batches))
     \<and> (\<forall>r \<in> set events. ce_scope r = scope \<longrightarrow> ce_blockNumber r < f \<longrightarrow> identity_of r \<notin> log_identity ` set (entries_of batches))"

definition context_ok :: "index_context \<Rightarrow> bool" where
  "context_ok ctx \<longleftrightarrow> 2 \<le> cx_window ctx \<and> cx_window ctx \<le> 4096 \<and> 1 \<le> cx_batchSize ctx \<and> 0 \<le> cx_confirmations ctx"

lemma index_context_ok: "index_context_of encode keccak opts rpc = Inr ctx \<Longrightarrow> context_ok ctx"
  by (auto simp: index_context_of_def context_ok_def positiveOption_def elim!: rbind_InrE split: if_splits)

lemma sourced_entries_mem:
  "(s, e) \<in> set (sourced_entries batches) \<Longrightarrow> \<exists>b \<in> set batches. s = ba_source b \<and> e \<in> set (ba_entries b)"
  by (auto simp: sourced_entries_def)

lemma stored_window:
  assumes w: "window_ok scope cursor old events" and agrees: "batch_agrees batches cs (cursor + 1) t"
    and cs: "contiguous cs" "cs \<noteq> []" "ck_number (last cs) = t" "length cs \<le> 4096" "\<forall>c \<in> set cs. valid_checkpoint c"
      "\<forall>c \<in> set cs. c \<in> set old \<or> cursor + 1 \<le> ck_number c"
    and stored: "store_entries scope (sourced_entries batches) events = Inr events'" and "cursor < t"
  shows "window_ok scope t cs events'"
proof -
  have "0 \<le> ce_blockNumber e \<and> ce_blockNumber e \<le> t
      \<and> (\<forall>c \<in> set cs. ck_number c = ce_blockNumber e \<longrightarrow> (\<exists>b. ce_blockHash e = Some b \<and> same b (ck_hash c)))"
    if e: "e \<in> set events'" "ce_scope e = scope" for e
    using store_entries_mem [OF stored e(1)]
  proof
    assume "e \<in> set events"
    with e(2) w have "0 \<le> ce_blockNumber e" "ce_blockNumber e \<le> cursor"
      "\<forall>c \<in> set old. ck_number c = ce_blockNumber e \<longrightarrow> (\<exists>b. ce_blockHash e = Some b \<and> same b (ck_hash c))"
      by (auto simp: window_ok_def)
    with cs(6) assms(10) show ?thesis by fastforce
  next
    assume "e \<in> event_of scope ` set (sourced_entries batches)"
    then obtain s en where en: "(s, en) \<in> set (sourced_entries batches)" "e = event_of scope (s, en)" by auto
    then have "en \<in> set (entries_of batches)" unfolding sourced_entries_snd [symmetric] by force
    with agrees obtain n b where "lg_blockNumber (en_log en) = Some n" "cursor + 1 \<le> n" "n \<le> t"
      "lg_blockHash (en_log en) = Some b" "\<forall>c \<in> set cs. ck_number c = n \<longrightarrow> same b (ck_hash c)"
      by (auto simp: batch_agrees_def)
    with w en(2) show ?thesis by (auto simp: event_of_def entry_key_def or_default_def window_ok_def)
  qed
  with w cs assms(10) show ?thesis by (auto simp: window_ok_def last_opt_def)
qed

lemma stored_policy:
  assumes w: "window_ok scope cursor old events" and policy: "journal_policy scope events rows"
    and good: "good_batches batches" and agrees: "batch_agrees batches cs (cursor + 1) t"
    and pos: "positions_ok scope events batches (cursor + 1)"
    and stored: "store_entries scope (sourced_entries batches) events = Inr events'"
    and applied: "apply_all (ordered_events batches) scope rows = Inr rows'"
  shows "journal_policy scope events' rows'"
proof -
  from policy obtain es where es: "map ce_payload (registry_journal scope events) = map Some es"
    "\<forall>e \<in> set es. listing_in_range (re_listingId e)" "policy_fix scope es rows" by (auto simp: journal_policy_def)
  have ids: "map (log_identity \<circ> snd) (sourced_entries batches) = map log_identity (entries_of batches)"
    unfolding sourced_entries_snd [symmetric] by simp
  have below: "ce_blockNumber e \<le> cursor" if "e \<in> set events" "ce_scope e = scope" for e
    using w that by (auto simp: window_ok_def)
  from arg_cong [OF ids, of set] have ids_set: "(log_identity \<circ> snd) ` set (sourced_entries batches)
      = log_identity ` set (entries_of batches)" by (simp only: set_map)
  have "identity_of r \<notin> (log_identity \<circ> snd) ` set (sourced_entries batches)"
    if r: "r \<in> set events" "ce_scope r = scope" for r
  proof -
    from below [OF r] have "ce_blockNumber r < cursor + 1" by simp
    with pos r show ?thesis unfolding ids_set positions_ok_def by blast
  qed
  then have ev: "events' = events @ map (event_of scope) (sourced_entries batches)"
    using pos by (intro store_entries_fresh [OF stored]) (auto simp: ids positions_ok_def)
  have "registry_journal scope events' = registry_journal scope events
      @ registry_journal scope (map (event_of scope) (sourced_entries batches))"
    unfolding ev
  proof (rule registry_journal_append [of _ _ cursor])
    fix e assume "e \<in> set (map (event_of scope) (sourced_entries batches))"
    then obtain p where p: "p \<in> set (sourced_entries batches)" "e = event_of scope p" by auto
    then have "snd p \<in> set (entries_of batches)" unfolding sourced_entries_snd [symmetric] by force
    with agrees p(2) show "cursor < ce_blockNumber e"
      by (fastforce simp: batch_agrees_def event_of_def entry_key_def or_default_def)
  qed (use below in blast)
  moreover have "map ce_payload (registry_journal scope (map (event_of scope) (sourced_entries batches)))
      = map Some (ordered_events batches)"
    by (rule journal_of_batches) (use good in \<open>auto simp: good_batches_def good_entry_def dest!: sourced_entries_mem\<close>)
  ultimately have j: "map ce_payload (registry_journal scope events') = map Some (es @ ordered_events batches)"
    using es(1) by simp
  have r: "\<forall>e \<in> set (ordered_events batches). listing_in_range (re_listingId e)"
    using good by (auto simp: ordered_events_def List.map_filter_def good_batches_def good_entry_def entries_of_def)
  have "policy_fix scope (es @ ordered_events batches) rows'"
    unfolding apply_all_Inr [OF applied] by (rule policy_fix_extend [OF es(3)])
  with j r es(2) show ?thesis unfolding journal_policy_def by (intro exI [of _ "es @ ordered_events batches"]) auto
qed

lemma commit_batch_Inr:
  assumes "commit_batch scope t confirmed rebuild batches cs db = Inr db'"
  shows "\<exists>events' rows' status. store_entries scope (sourced_entries batches) (ix_events db) = Inr events'
    \<and> db' = saveCursor scope t cs status (db\<lparr>ix_events := events', ix_models := rows'\<rparr>)
    \<and> ((status = ''catching_up'' \<and> (\<exists>db1. rows' = ix_models (quarantine scope db1)))
       \<or> (status = ''active'' \<and> (if rebuild then rebuildRegistryPolicy scope events' (ix_models db) = Inr rows'
            else apply_all (ordered_events batches) scope (ix_models db) = Inr rows')))"
proof -
  from assms obtain events' db2 where st: "store_entries scope (sourced_entries batches) (ix_events db) = Inr events'"
    and step: "(if t < confirmed then rmap (quarantine scope)
                  (apply_events scope (filter is_listed (ordered_events batches)) (db\<lparr>ix_events := events'\<rparr>))
                else if rebuild then rebuild_policy scope (db\<lparr>ix_events := events'\<rparr>)
                else apply_events scope (ordered_events batches) (db\<lparr>ix_events := events'\<rparr>)) = Inr db2"
    and db': "db' = saveCursor scope t cs (if t < confirmed then ''catching_up'' else ''active'') db2"
    by (auto simp: commit_batch_def store_batches_def Let_def rmap_Inr_iff elim!: rbind_InrE)
  show ?thesis
  proof (cases "t < confirmed")
    case True
    with step obtain rows where "db2 = quarantine scope (db\<lparr>ix_events := events', ix_models := rows\<rparr>)"
      by (auto simp: rmap_Inr_iff apply_events_def)
    then have "db2 = db\<lparr>ix_events := events', ix_models := ix_models db2\<rparr>"
      "\<exists>db1. ix_models db2 = ix_models (quarantine scope db1)" by (simp add: quarantine_def, blast)
    with st db' True show ?thesis
      by (intro exI [of _ events'] exI [of _ "ix_models db2"] exI [of _ "''catching_up''"]) auto
  next
    case False
    with step obtain rows where "db2 = db\<lparr>ix_events := events', ix_models := rows\<rparr>"
      "if rebuild then rebuildRegistryPolicy scope events' (ix_models db) = Inr rows
       else apply_all (ordered_events batches) scope (ix_models db) = Inr rows"
      by (auto simp: rmap_Inr_iff apply_events_def rebuild_policy_def split: if_splits)
    with st db' False show ?thesis by auto
  qed
qed

lemma advance_ok:
  assumes loc: "located_ok scope cursor cs rebuild db" and ctx: "context_ok ctx" "cx_scope ctx = scope"
    and node: "node_hashes rpc"
    and pos: "\<And>t batches cs'. readBatch opts ctx rpc (cursor + 1) t cs = Inr (batches, cs') \<Longrightarrow>
      positions_ok scope (ix_events db) batches (cursor + 1)"
    and run: "advance opts ctx rpc confirmed cursor cs rebuild db = (res, db')" and le: "cursor \<le> confirmed"
  shows "index_ok scope db' \<and> (\<forall>e \<in> set (ix_events db'). ce_scope e = scope \<longrightarrow> ce_blockNumber e \<le> confirmed)"
proof -
  from loc have w: "window_ok scope cursor cs (ix_events db)" and ok: "index_ok scope db"
    and status: "if rebuild then fails_closed scope db else policy_is_journal scope db" by (auto simp: located_ok_def)
  from w le have old: "\<forall>e \<in> set (ix_events db). ce_scope e = scope \<longrightarrow> ce_blockNumber e \<le> confirmed"
    by (auto simp: window_ok_def)
  have same: "db' = db \<Longrightarrow> ?thesis" using ok old by simp
  show ?thesis
  proof (cases "cursor + 1 > confirmed")
    case True
    consider "db' = db" | db1 where "rebuild_policy scope db = Inr db1" "db' = saveCursor scope cursor cs ''active'' db1"
      using run True ctx(2) by (auto simp: advance_def Let_def split: if_splits sum.splits elim!: rbind_InrE)
    then show ?thesis
    proof cases
      case 2
      then obtain rows where rows: "rebuildRegistryPolicy scope (ix_events db) (ix_models db) = Inr rows"
        "db1 = db\<lparr>ix_models := rows\<rparr>" by (auto simp: rebuild_policy_def rmap_Inr_iff)
      have "index_ok scope db'" unfolding 2(2)
        by (rule index_ok_save)
          (use w rebuild_gives_policy [OF rows(1)] in \<open>simp_all add: rows(2) statuses_def policy_is_journal_def\<close>)
      with old 2(2) rows(2) show ?thesis by simp
    qed (rule same)
  next
    case False
    let ?t = "min (cursor + 1 + cx_batchSize ctx - 1) confirmed"
    consider "db' = db" | batches cs' where "readBatch opts ctx rpc (cursor + 1) ?t cs = Inr (batches, cs')"
      "commit_batch scope ?t confirmed rebuild batches cs' db = Inr db'"
      using run False ctx(2) by (auto simp: advance_def Let_def split: sum.splits prod.splits)
    then show ?thesis
    proof cases
      case 2
      have prev: "contiguous cs" "\<forall>c \<in> set cs. valid_checkpoint c \<and> ck_number c < cursor + 1" "0 \<le> cursor + 1"
        using w contiguous_le_last [of cs] by (fastforce simp: window_ok_def last_opt_def split: if_splits)+
      have t: "cursor < ?t" "cursor + 1 \<le> ?t" "?t \<le> confirmed" using False ctx(1) by (auto simp: context_ok_def)
      have win: "0 < cx_window ctx" "nat (cx_window ctx) \<le> 4096" using ctx(1) by (auto simp: context_ok_def)
      note b = readBatch_Inr [OF 2(1) prev t(2) win(1) node]
      from 2(2) obtain events' rows' status where st: "store_entries scope (sourced_entries batches) (ix_events db) = Inr events'"
        and db': "db' = saveCursor scope ?t cs' status (db\<lparr>ix_events := events', ix_models := rows'\<rparr>)"
        and how: "(status = ''catching_up'' \<and> (\<exists>db1. rows' = ix_models (quarantine scope db1)))
          \<or> (status = ''active'' \<and> (if rebuild then rebuildRegistryPolicy scope events' (ix_models db) = Inr rows'
               else apply_all (ordered_events batches) scope (ix_models db) = Inr rows'))"
        using commit_batch_Inr [OF 2(2)] by blast
      let ?db = "db\<lparr>ix_events := events', ix_models := rows'\<rparr>"
      have w': "window_ok scope ?t cs' events'"
        using b win(2) by (intro stored_window [OF w _ _ _ _ _ _ _ st t(1)]) auto
      have p: "policy_is_journal scope ?db" if "status = ''active''"
        using how status that rebuild_gives_policy
          stored_policy [OF w _ _ _ pos [OF 2(1)] st, of "ix_models db" cs' ?t rows'] b
        by (auto simp: policy_is_journal_def split: if_splits)
      have f: "fails_closed scope ?db" if "status = ''catching_up''"
        using how that quarantine_fails_closed by (auto simp: fails_closed_def)
      have "index_ok scope db'" unfolding db'
        by (rule index_ok_save) (use w' p f how in \<open>auto simp: statuses_def\<close>)
      with w' t(3) show ?thesis by (auto simp: db' window_ok_def)
    qed (rule same)
  qed
qed

section \<open>Ticks and resets of one scope\<close>

text \<open>The positions of the logs a tick reads, whatever its cursor turns out to be.\<close>

definition tick_positions :: "indexer_opts \<Rightarrow> index_context \<Rightarrow> index_rpc \<Rightarrow> index_db \<Rightarrow> bool" where
  "tick_positions opts ctx rpc db \<longleftrightarrow>
     (\<forall>latest cursor cs rebuild db1 t batches cs'. rp_latest rpc = Inr latest \<longrightarrow>
        locate_cursor (cx_scope ctx) rpc (confirmed_height ctx latest) db = (Located cursor cs rebuild, db1) \<longrightarrow>
        readBatch opts ctx rpc (cursor + 1) t cs = Inr (batches, cs') \<longrightarrow>
        positions_ok (cx_scope ctx) (ix_events db1) batches (cursor + 1))"

inductive index_step :: "string \<Rightarrow> index_db \<Rightarrow> index_db \<Rightarrow> bool" for scope :: string where
  index_tick: "index_context_of encode keccak opts rpc = Inr ctx \<Longrightarrow> cx_scope ctx = scope \<Longrightarrow> node_hashes rpc \<Longrightarrow>
    tick_positions opts ctx rpc db \<Longrightarrow> indexChainOnce encode keccak opts rpc db = (res, db') \<Longrightarrow> index_step scope db db'"
| index_reset: "resetChainIndexer encode keccak opts rpc db = Inr (scope, db') \<Longrightarrow> index_step scope db db'"

definition index_start :: "string \<Rightarrow> index_db \<Rightarrow> bool" where
  "index_start scope db \<longleftrightarrow> cursor_of scope db = None \<and> (\<forall>e \<in> set (ix_events db). ce_scope e \<noteq> scope)
     \<and> (\<forall>r \<in> set (ix_models db). \<not> in_scope scope r)"

lemma confirmed_height_ge: "context_ok ctx \<Longrightarrow> -1 \<le> confirmed_height ctx latest"
  by (simp add: confirmed_height_def)

lemma index_tx_ok:
  assumes ok: "index_ok (cx_scope ctx) db" and ctx: "context_ok ctx" and node: "node_hashes rpc"
    and pos: "tick_positions opts ctx rpc db" and run: "index_tx opts ctx rpc db = Inr (res, db')"
  shows "index_ok (cx_scope ctx) db' \<and> (\<forall>f t latest. res = Inr (f, t) \<longrightarrow> rp_latest rpc = Inr latest \<longrightarrow>
     (\<forall>e \<in> set (ix_events db'). ce_scope e = cx_scope ctx \<longrightarrow> ce_blockNumber e \<le> confirmed_height ctx latest))"
proof -
  from run obtain latest where latest: "rp_latest rpc = Inr latest" by (auto simp: index_tx_def elim: rbind_InrE)
  let ?c = "confirmed_height ctx latest"
  obtain l db1 where l: "locate_cursor (cx_scope ctx) rpc ?c db = (l, db1)" by fastforce
  note lok = locate_cursor_ok [OF ok l]
  show ?thesis
  proof (cases l)
    case (Deferred e)
    with run latest l lok show ?thesis by (auto simp: index_tx_def)
  next
    case (Located cursor cs rebuild)
    from run latest l Located have adv: "advance opts ctx rpc ?c cursor cs rebuild db1 = (res, db')"
      by (simp add: index_tx_def)
    have "cursor \<le> ?c" "located_ok (cx_scope ctx) cursor cs rebuild db1"
      using lok Located confirmed_height_ge [OF ctx] by auto
    from advance_ok [OF this(2) ctx refl node _ adv this(1)] pos latest l Located show ?thesis
      by (auto simp: tick_positions_def)
  qed
qed

lemma index_tick_result:
  assumes "indexChainOnce encode keccak opts rpc db = (res, db')" and "index_context_of encode keccak opts rpc = Inr ctx"
  shows "db' = db \<and> (\<forall>p. res \<noteq> Inr (Some p)) \<or> (\<exists>out. index_tx opts ctx rpc db = Inr (out, db') \<and> res = rmap Some out)"
  using assms by (auto simp: indexChainOnce_def split: if_splits sum.splits prod.splits)

lemma reset_ok: "index_ok scope (reset_tx scope db)"
proof -
  have "window_ok scope (-1) [] (delete_rows (\<lambda>e. ce_scope e = scope) (ix_events db))"
    by (auto simp: window_ok_def set_delete_rows)
  moreover have "fails_closed scope ((quarantine scope db)\<lparr>ix_events := evs\<rparr>)" for evs
    using quarantine_fails_closed [of scope db] by (simp add: fails_closed_def)
  ultimately show ?thesis unfolding reset_tx_def by (intro index_ok_save) (auto simp: statuses_def)
qed

lemma index_step_ok:
  assumes "index_ok scope db" and "index_step scope db db'"
  shows "index_ok scope db'"
  using assms(2)
proof cases
  case (index_tick encode keccak opts rpc ctx res)
  show ?thesis
    using index_tick_result [OF index_tick(5,1)]
      index_tx_ok [OF _ index_context_ok [OF index_tick(1)] index_tick(3,4)] assms(1) index_tick(2) by auto
next
  case (index_reset encode keccak opts rpc)
  then show ?thesis using reset_ok by (auto simp: resetChainIndexer_def rmap_Inr_iff)
qed

lemma index_start_ok: "index_start scope db \<Longrightarrow> index_ok scope db"
proof -
  assume s: "index_start scope db"
  then have "filter (\<lambda>e. ce_scope e = scope \<and> ce_source e \<in> set registry_sources) (ix_events db) = []"
    by (auto simp: index_start_def filter_empty_conv)
  with s show ?thesis
    by (auto simp: index_start_def index_ok_def policy_is_journal_def journal_policy_def registry_journal_def
        policy_fix_def clear_row_def)
qed

interpretation indexer: invariant_system "index_start scope" "index_step scope" "index_ok scope" for scope
  by unfold_locales (simp_all add: index_start_ok index_step_ok)

section \<open>A small run\<close>

text \<open>Two blocks; the second lists a model and approves it.\<close>

definition demo_hash :: "int \<Rightarrow> string" where
  "demo_hash n = ''0x'' @ replicate 64 (if n = 0 then CHR ''a'' else CHR ''b'')"

definition demo_block :: block_reader where
  "demo_block n = Inr \<lparr>rb_number = Some n, rb_hash = Some (demo_hash n), rb_parentHash = demo_hash (n - 1)\<rparr>"

definition demo_log :: "int \<Rightarrow> index_log" where
  "demo_log i = \<lparr>lg_address = [], lg_topics = [], lg_data = [], lg_transactionHash = Some ''t'', lg_logIndex = Some i,
     lg_blockNumber = Some 1, lg_blockHash = Some (demo_hash 1), lg_removed = False,
     lg_args = \<lparr>la_id = Some 7, la_modelHash = Some ''m'', la_codeHash = Some ''c'', la_provider = Some ''p''\<rparr>\<rparr>"

definition no_logs :: log_reader where "no_logs a f t = Inr []"

definition demo_node :: index_rpc where
  "demo_node = \<lparr>rp_chainId = Inr 5, rp_genesis = demo_block, rp_latest = Inr 1, rp_ancestors = demo_block,
     rp_before = demo_block, rp_verified = no_logs, rp_settled = no_logs, rp_buyback = no_logs,
     rp_listed = (\<lambda>_ _ _. Inr [demo_log 0]), rp_approved = (\<lambda>_ _ _. Inr [demo_log 1]), rp_revoked = no_logs,
     rp_during = demo_block, rp_after = demo_block\<rparr>"

definition demo_opts :: indexer_opts where
  "demo_opts = \<lparr>io_verifier = None, io_meter = None, io_feeVault = None,
     io_registry = Some (''0x'' @ replicate 38 CHR ''0'' @ ''20''), io_chainId = None, io_confirmations = Some (JInt 0),
     io_deploymentId = None, io_reorgWindow = None, io_batchSize = None, io_rpcMaxRps = None\<rparr>"

definition demo_encode :: "string option list \<Rightarrow> string" where "demo_encode i = []"
definition demo_keccak :: hash_fun where "demo_keccak b = []"

definition demo_context :: index_context where
  "demo_context = \<lparr>cx_scope = ''enclave-v2:5:0x'', cx_confirmations = 0, cx_window = 128, cx_batchSize = 2000\<rparr>"

definition demo_index_db :: index_db where
  "demo_index_db = \<lparr>ix_models = [], ix_events = [], ix_cursors = []\<rparr>"

definition demo_indexed :: index_db where
  "demo_indexed = snd (indexChainOnce demo_encode demo_keccak demo_opts demo_node demo_index_db)"

lemma demo_genesis: "readHeader (rp_genesis demo_node) 0 = Inr \<lparr>ck_number = 0, ck_hash = demo_hash 0, ch_parentHash = demo_hash (-1)\<rparr>"
  by (simp add: readHeader_def demo_node_def demo_block_def)

lemma demo_context_of: "index_context_of demo_encode demo_keccak demo_opts demo_node = Inr demo_context"
proof -
  have "digit_char 5 = CHR ''5''" "rp_chainId demo_node = Inr 5" by code_simp+
  then show ?thesis
    using demo_genesis
    by (simp add: index_context_of_def rpcBudget_def positiveOption_def demo_opts_def local_chains_def or_default_def
        is_safe_integer_def max_safe_def indexerScope_def demo_keccak_def toHex_def nat_dec.simps demo_context_def)
qed

lemma demo_configured: "isConfiguredAddress (io_registry demo_opts)"
  by code_simp

lemma demo_tick:
  "map_option (\<lambda>(out, db). (out, map_option (\<lambda>c. (cu_status c, cu_blockNumber c)) (cursor_of (cx_scope demo_context) db),
      map mo_approved (ix_models db), length (ix_events db)))
     (case index_tx demo_opts demo_context demo_node demo_index_db of Inr r \<Rightarrow> Some r | Inl e \<Rightarrow> None)
   = Some (Inr (0, 1), Some (''active'', 1), [True], 2)"
  by code_simp

lemma demo_tick_state:
  obtains db c where "indexChainOnce demo_encode demo_keccak demo_opts demo_node demo_index_db = (Inr (Some (0, 1)), db)"
    and "cursor_of ''enclave-v2:5:0x'' db = Some c" and "cu_status c = ''active''" and "cu_blockNumber c = 1"
    and "map mo_approved (ix_models db) = [True]" and "length (ix_events db) = 2"
proof -
  obtain db c where "index_tx demo_opts demo_context demo_node demo_index_db = Inr (Inr (0, 1), db)"
    "cursor_of (cx_scope demo_context) db = Some c" "cu_status c = ''active''" "cu_blockNumber c = 1"
    "map mo_approved (ix_models db) = [True]" "length (ix_events db) = 2"
    using demo_tick by (auto split: sum.splits)
  then show ?thesis using that by (auto simp: indexChainOnce_def demo_configured demo_context_of) (simp add: demo_context_def)
qed

lemma hex_digits_ab: "is_hex_digit CHR ''a''" "is_hex_digit CHR ''b''"
  by code_simp+

lemma demo_hash_hex: "hex_string 64 (demo_hash n)"
  by (simp add: hex_string_def demo_hash_def list_all_iff hex_digits_ab)

lemma demo_node_hashes: "node_hashes demo_node"
  by (auto simp: node_hashes_def demo_node_def demo_block_def demo_hash_hex)

lemma demo_read_logs:
  "read_logs demo_opts demo_node f t = Inr bs \<Longrightarrow> map log_identity (entries_of bs) = [(''t'', 0), (''t'', 1)]"
  using demo_configured
  by (auto simp: read_logs_def source_batch_def registry_batches_def demo_opts_def demo_node_def no_logs_def batch_of_def
      demo_log_def isMined_def listed_entry_def approved_entry_def revoked_entry_def listingId_def max_int4_def entries_of_def
      log_identity_def or_default_def Let_def)

lemma demo_positions: "tick_positions demo_opts demo_context demo_node demo_index_db"
proof -
  have "positions_ok s [] batches f" if "readBatch demo_opts ctx demo_node f t cs = Inr (batches, cs')" for s ctx f t cs batches cs'
    using that demo_read_logs by (fastforce simp: positions_ok_def readBatch_def Let_def elim!: rbind_InrE)
  moreover have "locate_cursor s demo_node k demo_index_db = (l, db1) \<Longrightarrow> ix_events db1 = []" for s k l db1
    by (auto simp: locate_cursor_def cursor_of_def demo_index_db_def)
  ultimately show ?thesis unfolding tick_positions_def by metis
qed

lemma demo_index_start: "index_start scope demo_index_db"
  by (simp add: index_start_def cursor_of_def demo_index_db_def)

lemma demo_index_reachable:
  "indexChainOnce demo_encode demo_keccak demo_opts demo_node demo_index_db = (res, db) \<Longrightarrow>
     reachable (index_start ''enclave-v2:5:0x'') (index_step ''enclave-v2:5:0x'') db"
  by (rule reachable_step [where s = demo_index_db])
    (auto intro!: reachable_start demo_index_start index_tick [OF demo_context_of _ demo_node_hashes demo_positions]
      simp: demo_context_def)

section \<open>Properties\<close>

lemma index_ok_cursor:
  "reachable (index_start scope) (index_step scope) db \<Longrightarrow> cursor_of scope db = Some c \<Longrightarrow> cursor_ok scope db c"
  using indexer.inv_reachable [of scope db] by (simp add: index_ok_def)





text \<open>
  The retained history is always usable: in every reachable state with an indexed block the
  stored text parses to a contiguous window of at most 4096 headers that ends at the cursor with the
  cursor's hash, and every journalled event of a retained block carries that block's hash.
\<close>

theorem retained_history_consistent:
  assumes "reachable (index_start scope) (index_step scope) db"
    and "cursor_of scope db = Some c" and "0 \<le> cu_blockNumber c"
  shows "\<exists>cs. load_checkpoints c = Inr cs \<and> contiguous cs \<and> length cs \<le> 4096
    \<and> (\<forall>e \<in> set (ix_events db). ce_scope e = scope \<longrightarrow> ce_blockNumber e \<le> cu_blockNumber c
         \<and> (\<forall>b \<in> set cs. ck_number b = ce_blockNumber e \<longrightarrow> (\<exists>h. ce_blockHash e = Some h \<and> same h (ck_hash b))))"
proof -
  from index_ok_cursor [OF assms(1,2)] obtain cs where cs: "cu_checkpoints c = serializeCheckpoints cs"
    "cu_blockHash c = map_option ck_hash (last_opt cs)" "window_ok scope (cu_blockNumber c) cs (ix_events db)"
    by (auto simp: cursor_ok_def)
  from load_checkpoints_ok [OF cs assms(3)] cs(3) show ?thesis by (auto simp: window_ok_def)
qed

theorem retained_history_consistent_witness:
  "\<exists>db c cs. cursor_of ''enclave-v2:5:0x'' db = Some c \<and> length (ix_events db) = 2 \<and> load_checkpoints c = Inr cs \<and> contiguous cs"
proof -
  obtain db c where db: "indexChainOnce demo_encode demo_keccak demo_opts demo_node demo_index_db = (Inr (Some (0, 1)), db)"
    "cursor_of ''enclave-v2:5:0x'' db = Some c" "cu_blockNumber c = 1" "length (ix_events db) = 2"
    using demo_tick_state by metis
  from retained_history_consistent [OF demo_index_reachable [OF db(1)] db(2)] db(2-4) show ?thesis by auto
qed

text \<open>
  Only confirmed events are indexed: after a tick that returns, no journalled event of the scope
  is above the confirmed height, the node's latest block less the required confirmations, even when the
  chain shrank since the tick before.
\<close>

theorem only_confirmed_events_indexed:
  assumes "reachable (index_start (cx_scope ctx)) (index_step (cx_scope ctx)) db"
    and "index_context_of encode keccak opts rpc = Inr ctx" and "node_hashes rpc" and "tick_positions opts ctx rpc db"
    and "indexChainOnce encode keccak opts rpc db = (Inr (Some blocks), db')" and "rp_latest rpc = Inr latest"
  shows "\<forall>e \<in> set (ix_events db'). ce_scope e = cx_scope ctx \<longrightarrow>
    ce_blockNumber e \<le> (if latest \<ge> cx_confirmations ctx then latest - cx_confirmations ctx else -1)"
proof -
  obtain f t where range: "blocks = (f, t)" by (cases blocks)
  from index_tick_result [OF assms(5,2)] range have "index_tx opts ctx rpc db = Inr (Inr (f, t), db')"
    by (metis obj_sumE option.inject prod.inject rmap_simps sum.distinct(1) sum.inject(2))
  from index_tx_ok [OF indexer.inv_reachable [OF assms(1)] index_context_ok [OF assms(2)] assms(3,4) this] assms(6)
  show ?thesis by (auto simp: confirmed_height_def)
qed

theorem only_confirmed_events_indexed_witness:
  "\<exists>db :: index_db. length (ix_events db) = 2
     \<and> (\<forall>e \<in> set (ix_events db). ce_scope e = ''enclave-v2:5:0x'' \<longrightarrow> ce_blockNumber e \<le> 1)"
proof -
  obtain db where db: "indexChainOnce demo_encode demo_keccak demo_opts demo_node demo_index_db = (Inr (Some (0, 1)), db)"
    "length (ix_events db) = 2" using demo_tick_state by metis
  have "rp_latest demo_node = Inr 1" by (simp add: demo_node_def)
  from only_confirmed_events_indexed [OF reachable_start [where s = demo_index_db] demo_context_of demo_node_hashes
      demo_positions db(1) this]
  have "\<forall>e \<in> set (ix_events db). ce_scope e = ''enclave-v2:5:0x'' \<longrightarrow> ce_blockNumber e \<le> 1"
    using demo_index_start by (auto simp: demo_context_def)
  with db(2) show ?thesis by (intro exI [of _ db]) simp
qed

end
