(* ===== verification/Agent_Runs.thy ===== *)
theory Agent_Runs
  imports Worker_Reorg "HOL-Library.List_Lexorder" "HOL-Library.Char_ord" "HOL-Library.Product_Lexorder"
begin

text \<open>
  The autonomous agent runner: \<open>api/src/agent-runtime-store.ts\<close> (the fenced row store),
  \<open>api/src/agent-runtime.ts\<close> (create, read, cancel, resume and the execution of one step) and
  \<open>api/src/agent-runtime-routes.ts\<close>, over the tables of \<open>db/src/agent-runtime-schema.ts\<close>.

  Sealing is symbolic: a sealed text is its key context (owner, run, purpose, which is also the
  authenticated data) and its plaintext, and anything else does not open. The keyed digest of a journal
  entry, the UUID and date grammars, JSON parsing and the decryption of a result are the record
  \<open>runtime_env\<close>. A transaction reads the clock once. The answers of the inference gateway, fresh
  identifiers and the outcome of timers are arguments.
\<close>

section \<open>State\<close>

datatype 'v sealed = Sealed string string string 'v | Unreadable

fun unseal :: "string \<Rightarrow> string \<Rightarrow> string \<Rightarrow> 'v sealed \<Rightarrow> 'v option" where
  "unseal owner i purpose (Sealed o' i' p' v) = (if o' = owner \<and> i' = i \<and> p' = purpose then Some v else None)"
| "unseal owner i purpose Unreadable = None"

datatype run_phase =
    Ready | Challenge | AwaitingPayment | PaymentReady | SettlementDispatched | PaidUp | InferenceDispatched

record run_limits =
  rl_agentId :: string
  rl_steps :: int
  rl_budget :: int
  rl_deadline :: int

record step_entry =
  se_output :: string
  se_receiptHash :: string
  se_paymentId :: string
  se_settlementTx :: string
  se_amountUnits :: int

record pending_call =
  pc_sessionId :: string
  pc_expiresAt :: int
  pc_wrapKey :: string
  pc_idempotencyKey :: string
  pc_blob :: string
  pc_paymentId :: "string option"
  pc_amountUnits :: "int option"
  pc_challenge :: "x402_requirement option"
  pc_authorization :: "string option"
  pc_settlementTx :: "string option"
  pc_paid :: bool

record run_state =
  rs_credential :: string
  rs_goal :: string
  rs_phase :: run_phase
  rs_limits :: run_limits
  rs_history :: "step_entry list"
  rs_pending :: "pending_call option"
  rs_final :: "string option"

record agent_run =
  gr_id :: string
  gr_owner :: string
  gr_agentId :: string
  gr_idempotencyKey :: string
  gr_requestHash :: string
  gr_status :: string
  gr_step :: int
  gr_maxSteps :: int
  gr_maxBudget :: int
  gr_spent :: int
  gr_deadline :: int
  gr_sealed :: "run_state sealed"
  gr_version :: int
  gr_leaseToken :: "string option"
  gr_leaseUntil :: "int option"
  gr_cancelRequested :: bool
  gr_errorCode :: "string option"
  gr_paymentId :: "string option"
  gr_receiptHash :: "string option"
  gr_ledgerSequence :: nat
  gr_ledgerHead :: string
  gr_created :: int
  gr_updated :: int

record agent_action =
  ga_id :: string
  ga_runId :: string
  ga_sequence :: nat
  ga_kind :: string
  ga_previous :: string
  ga_hash :: string
  ga_payload :: "json sealed"
  ga_created :: int

record agent_db =
  ad_runs :: "agent_run list"
  ad_actions :: "agent_action list"
  ad_keys :: "string list"

record ledger_material =
  lm_run :: string
  lm_sequence :: nat
  lm_kind :: string
  lm_previous :: string
  lm_payload :: "json sealed"
  lm_created :: int

record runtime_env =
  rt_enabled :: bool
  rt_mock :: bool
  rt_steps :: int
  rt_budget :: int
  rt_duration :: int
  rt_lease :: int
  rt_timeout :: int
  rt_mac :: "string \<Rightarrow> string \<Rightarrow> ledger_material \<Rightarrow> string"
  rt_requestMac :: "string \<Rightarrow> json \<Rightarrow> string"
  rt_sha :: "string \<Rightarrow> string"
  rt_uuid :: "string \<Rightarrow> bool"
  rt_datetime :: "string \<Rightarrow> int option"
  rt_decrypt :: "string \<Rightarrow> string \<Rightarrow> enclave_error + string"
  rt_json :: "string \<Rightarrow> json option"

section \<open>The row store\<close>

record run_fence =
  rf_owner :: "string option"
  rf_token :: "string option"
  rf_version :: "int option"

definition assertRunFence :: "agent_run option \<Rightarrow> string \<Rightarrow> run_fence \<Rightarrow> int \<Rightarrow> enclave_error + agent_run" where
  "assertRunFence found i fence now =
     (case found of
        None \<Rightarrow> Inl (NotFoundError ''agent run'' i)
      | Some row \<Rightarrow>
          if (case rf_owner fence of Some o' \<Rightarrow> gr_owner row \<noteq> o' | None \<Rightarrow> False)
          then Inl (NotFoundError ''agent run'' i)
          else if (case rf_version fence of Some v \<Rightarrow> v \<noteq> gr_version row | None \<Rightarrow> False)
            \<or> (case rf_token fence of
                 Some t \<Rightarrow> gr_status row \<noteq> ''running'' \<or> gr_leaseToken row \<noteq> Some t
                   \<or> (case gr_leaseUntil row of Some until \<Rightarrow> until \<le> now | None \<Rightarrow> True)
               | None \<Rightarrow> False)
          then Inl (ConflictError ''Agent run lease or version changed'')
          else Inr row)"

definition run_by_id :: "string \<Rightarrow> agent_db \<Rightarrow> agent_run option" where
  "run_by_id i db = select_row (\<lambda>r. gr_id r = i) (ad_runs db)"

definition hasOwner :: "string \<Rightarrow> agent_db \<Rightarrow> bool" where
  "hasOwner owner db \<longleftrightarrow> owner \<in> set (ad_keys db)"

text \<open>\<open>INSERT ... ON CONFLICT DO NOTHING\<close> on (owner, idempotency key); the prior run wins.\<close>

definition run_checks :: "agent_run \<Rightarrow> bool" where
  "run_checks r \<longleftrightarrow> 0 \<le> gr_step r \<and> 1 \<le> gr_maxSteps r \<and> gr_maxSteps r \<le> 100 \<and> 0 < gr_maxBudget r
     \<and> 0 \<le> gr_spent r \<and> gr_spent r \<le> gr_maxBudget r"

definition insert_run :: "agent_run \<Rightarrow> agent_action \<Rightarrow> agent_db \<Rightarrow> enclave_error + (agent_run \<times> agent_db)" where
  "insert_run row action db =
     (case select_row (\<lambda>r. gr_owner r = gr_owner row \<and> gr_idempotencyKey r = gr_idempotencyKey row) (ad_runs db) of
        Some prior \<Rightarrow> Inr (prior, db)
      | None \<Rightarrow>
          rbind (require (run_checks row \<and> (\<forall>r \<in> set (ad_runs db). gr_id r \<noteq> gr_id row)) (PlainError ''constraint'')) (\<lambda>_.
          Inr (row, db\<lparr>ad_runs := ad_runs db @ [row], ad_actions := ad_actions db @ [action]\<rparr>)))"

definition get_run :: "string \<Rightarrow> string \<Rightarrow> int \<Rightarrow> agent_db \<Rightarrow> enclave_error + agent_run" where
  "get_run owner i now db =
     assertRunFence (select_row (\<lambda>r. gr_id r = i \<and> gr_owner r = owner) (ad_runs db)) i
       \<lparr>rf_owner = Some owner, rf_token = None, rf_version = None\<rparr> now"

definition actions_of :: "string \<Rightarrow> agent_db \<Rightarrow> agent_action list" where
  "actions_of i db = sort_key ga_sequence (matching_rows (\<lambda>a. ga_runId a = i) (ad_actions db))"

text \<open>\<open>FOR UPDATE SKIP LOCKED\<close>: rows another transaction has locked are passed over.\<close>

definition claim_run :: "(agent_run \<Rightarrow> bool) \<Rightarrow> string \<Rightarrow> int \<Rightarrow> int \<Rightarrow> agent_db \<Rightarrow> agent_run option \<times> agent_db" where
  "claim_run locked token now leaseMs db =
     (case sort_key (\<lambda>r. (gr_created r, gr_id r))
             (matching_rows (\<lambda>r. gr_status r = ''queued'' \<and> \<not> locked r) (ad_runs db)) of
        [] \<Rightarrow> (None, db)
      | row # _ \<Rightarrow>
          let P = (\<lambda>r. gr_id r = gr_id row \<and> gr_version r = gr_version row \<and> gr_status r = ''queued'');
              f = (\<lambda>r. r\<lparr>gr_status := ''running'', gr_leaseToken := Some token, gr_leaseUntil := Some (now + leaseMs),
                         gr_version := gr_version row + 1, gr_updated := now\<rparr>)
          in (map_option f (select_row P (ad_runs db)), db\<lparr>ad_runs := update_rows P f (ad_runs db)\<rparr>))"

definition expired_runs :: "int \<Rightarrow> agent_db \<Rightarrow> agent_run list" where
  "expired_runs now db =
     take 100 (sort_key (\<lambda>r. case gr_leaseUntil r of Some u \<Rightarrow> u | None \<Rightarrow> 0)
       (matching_rows (\<lambda>r. gr_status r = ''running'' \<and> (case gr_leaseUntil r of Some u \<Rightarrow> u \<le> now | None \<Rightarrow> False)) (ad_runs db)))"

definition heartbeat_run :: "string \<Rightarrow> string \<Rightarrow> int \<Rightarrow> int \<Rightarrow> agent_db \<Rightarrow> bool \<times> agent_db" where
  "heartbeat_run i token now leaseMs db =
     (case run_by_id i db of
        None \<Rightarrow> (False, db)
      | Some row \<Rightarrow>
          if gr_status row \<noteq> ''running'' \<or> gr_leaseToken row \<noteq> Some token
            \<or> (case gr_leaseUntil row of Some until \<Rightarrow> until \<le> now | None \<Rightarrow> True)
          then (False, db)
          else (True, db\<lparr>ad_runs := update_rows (\<lambda>r. gr_id r = i) (\<lambda>r. r\<lparr>gr_leaseUntil := Some (now + leaseMs)\<rparr>) (ad_runs db)\<rparr>))"

text \<open>A partial row: a field that is present is written.\<close>

record run_patch =
  pa_status :: "string option"
  pa_errorCode :: "string option option"
  pa_releaseLease :: bool
  pa_cancel :: bool
  pa_spent :: "int option"
  pa_paymentId :: "string option"
  pa_receiptHash :: "string option"
  pa_step :: "int option"
  pa_sealed :: "run_state sealed option"

definition no_patch :: run_patch where
  "no_patch = \<lparr>pa_status = None, pa_errorCode = None, pa_releaseLease = False, pa_cancel = False, pa_spent = None,
     pa_paymentId = None, pa_receiptHash = None, pa_step = None, pa_sealed = None\<rparr>"

definition written :: "'a option \<Rightarrow> 'a \<Rightarrow> 'a" where
  "written new old = (case new of Some x \<Rightarrow> x | None \<Rightarrow> old)"

definition apply_patch :: "run_patch \<Rightarrow> agent_run \<Rightarrow> agent_run" where
  "apply_patch p r =
     r\<lparr>gr_status := written (pa_status p) (gr_status r),
       gr_errorCode := written (pa_errorCode p) (gr_errorCode r),
       gr_leaseToken := (if pa_releaseLease p then None else gr_leaseToken r),
       gr_leaseUntil := (if pa_releaseLease p then None else gr_leaseUntil r),
       gr_cancelRequested := (pa_cancel p \<or> gr_cancelRequested r),
       gr_spent := written (pa_spent p) (gr_spent r),
       gr_paymentId := (case pa_paymentId p of Some x \<Rightarrow> Some x | None \<Rightarrow> gr_paymentId r),
       gr_receiptHash := (case pa_receiptHash p of Some x \<Rightarrow> Some x | None \<Rightarrow> gr_receiptHash r),
       gr_step := written (pa_step p) (gr_step r),
       gr_sealed := written (pa_sealed p) (gr_sealed r)\<rparr>"

definition change_run ::
    "string \<Rightarrow> run_fence \<Rightarrow> int \<Rightarrow> (agent_run \<Rightarrow> enclave_error + (run_patch \<times> agent_action)) \<Rightarrow> agent_db
      \<Rightarrow> enclave_error + (agent_run \<times> agent_db)" where
  "change_run i fence now mutate db =
     rbind (assertRunFence (run_by_id i db) i fence now) (\<lambda>row.
     rbind (mutate row) (\<lambda>(patch, action).
     let updated = (apply_patch patch row)\<lparr>gr_version := gr_version row + 1, gr_updated := now,
           gr_ledgerSequence := ga_sequence action, gr_ledgerHead := ga_hash action\<rparr> in
     rbind (require (run_checks updated \<and> (\<forall>a \<in> set (ad_actions db). ga_runId a = ga_runId action \<longrightarrow> ga_sequence a \<noteq> ga_sequence action))
       (PlainError ''constraint'')) (\<lambda>_.
     Inr (updated, db\<lparr>ad_runs := update_rows (\<lambda>r. gr_id r = i) (\<lambda>_. updated) (ad_runs db),
                      ad_actions := ad_actions db @ [action]\<rparr>))))"

section \<open>Sealing, opening and journalling\<close>

definition replace_underscores :: "string \<Rightarrow> string" where
  "replace_underscores = map (\<lambda>c. if c = CHR ''_'' then CHR '' '' else c)"

definition failure :: "string \<Rightarrow> nat \<Rightarrow> enclave_error" where
  "failure code status = AppError code (replace_underscores code) status"

definition terminal :: "string \<Rightarrow> bool" where
  "terminal status \<longleftrightarrow> status \<in> set [''completed'', ''cancelled'', ''failed'', ''exhausted'']"

definition uncertain :: "run_phase \<Rightarrow> bool" where
  "uncertain phase \<longleftrightarrow> phase = SettlementDispatched \<or> phase = InferenceDispatched"

definition zero_hash :: string where
  "zero_hash = ''0x'' @ replicate 64 CHR ''0''"

definition seal_state :: "agent_run \<Rightarrow> run_state \<Rightarrow> run_state sealed" where
  "seal_state row st = Sealed (gr_owner row) (gr_id row) ''state'' st"

text \<open>What the history and a paid pending call add up to; \<open>None\<close> when an amount is missing.\<close>

definition recorded_spend :: "run_state \<Rightarrow> int option" where
  "recorded_spend st =
     (let past = sum_list (map se_amountUnits (rs_history st)) in
      case rs_pending st of
        Some p \<Rightarrow> if pc_paid p then map_option (\<lambda>a. past + a) (pc_amountUnits p) else Some past
      | None \<Rightarrow> Some past)"

definition metadata_match :: "agent_run \<Rightarrow> run_state \<Rightarrow> bool" where
  "metadata_match row st \<longleftrightarrow>
     rl_agentId (rs_limits st) = gr_agentId row \<and> rl_steps (rs_limits st) = gr_maxSteps row
     \<and> rl_budget (rs_limits st) = gr_maxBudget row \<and> rl_deadline (rs_limits st) = gr_deadline row
     \<and> int (length (rs_history st)) = gr_step row \<and> recorded_spend st = Some (gr_spent row)"

definition state_unavailable :: enclave_error where
  "state_unavailable = failure ''AGENT_STATE_UNAVAILABLE'' 503"

definition open_state :: "agent_run \<Rightarrow> enclave_error + run_state" where
  "open_state row =
     (case unseal (gr_owner row) (gr_id row) ''state'' (gr_sealed row) of
        None \<Rightarrow> Inl state_unavailable
      | Some st \<Rightarrow> if metadata_match row st then Inr st else Inl state_unavailable)"

definition material_of :: "string \<Rightarrow> string \<Rightarrow> agent_action \<Rightarrow> ledger_material" where
  "material_of i previous a =
     \<lparr>lm_run = i, lm_sequence = ga_sequence a, lm_kind = ga_kind a, lm_previous = previous,
      lm_payload = ga_payload a, lm_created = ga_created a\<rparr>"

definition run_action :: "runtime_env \<Rightarrow> string \<Rightarrow> int \<Rightarrow> agent_run \<Rightarrow> string \<Rightarrow> json \<Rightarrow> agent_action" where
  "run_action env fresh now row what payload =
     (let sequence = gr_ledgerSequence row + 1;
          sealed = Sealed (gr_owner row) (gr_id row) (''action:'' @ nat_dec sequence) payload in
      \<lparr>ga_id = fresh, ga_runId = gr_id row, ga_sequence = sequence, ga_kind = what, ga_previous = gr_ledgerHead row,
       ga_hash = rt_mac env (gr_owner row) (gr_id row)
         \<lparr>lm_run = gr_id row, lm_sequence = sequence, lm_kind = what, lm_previous = gr_ledgerHead row,
          lm_payload = sealed, lm_created = now\<rparr>,
       ga_payload = sealed, ga_created = now\<rparr>)"

definition run_owner :: "runtime_env \<Rightarrow> string \<Rightarrow> agent_db \<Rightarrow> enclave_error + string" where
  "run_owner env apiKey db =
     (if apiKey = [] \<or> length apiKey > 4096 \<or> \<not> hasOwner (rt_sha env apiKey) db
      then Inl (UnauthorizedError ''Unauthorized'') else Inr (rt_sha env apiKey))"

text \<open>The fields of a view that a client sees.\<close>

record run_view =
  vw_id :: string
  vw_agentId :: string
  vw_status :: string
  vw_step :: int
  vw_maxSteps :: int
  vw_maxBudgetUnits :: int
  vw_spentUnits :: int
  vw_deadlineAt :: int
  vw_paymentId :: "string option"
  vw_receiptHash :: "string option"
  vw_errorCode :: "string option"
  vw_cancelRequested :: bool
  vw_ledgerHead :: string

definition run_view_of :: "agent_run \<Rightarrow> run_view" where
  "run_view_of r =
     \<lparr>vw_id = gr_id r, vw_agentId = gr_agentId r, vw_status = gr_status r, vw_step = gr_step r, vw_maxSteps = gr_maxSteps r,
      vw_maxBudgetUnits = gr_maxBudget r, vw_spentUnits = gr_spent r, vw_deadlineAt = gr_deadline r,
      vw_paymentId = gr_paymentId r, vw_receiptHash = gr_receiptHash r, vw_errorCode = gr_errorCode r,
      vw_cancelRequested = gr_cancelRequested r, vw_ledgerHead = gr_ledgerHead r\<rparr>"

definition dispatch_kind :: "string \<Rightarrow> bool" where
  "dispatch_kind what \<longleftrightarrow> what = ''settlement_dispatched'' \<or> what = ''inference_dispatched''"

text \<open>The mutation of \<open>write\<close>: admission of a dispatch is decided on the locked row.\<close>

definition write_mutation ::
    "runtime_env \<Rightarrow> string \<Rightarrow> int \<Rightarrow> string \<Rightarrow> json \<Rightarrow> run_state \<Rightarrow> run_patch \<Rightarrow> agent_run
      \<Rightarrow> enclave_error + (run_patch \<times> agent_action)" where
  "write_mutation env fresh now what event st patch current =
     (if dispatch_kind what \<and> (case gr_leaseUntil current of Some u \<Rightarrow> u \<le> now | None \<Rightarrow> True)
      then Inl (ConflictError ''Agent run lease expired'')
      else if dispatch_kind what \<and> (gr_cancelRequested current \<or> gr_deadline current \<le> now)
      then Inr (no_patch\<lparr>pa_status := Some (if gr_cancelRequested current then ''cancelled'' else ''exhausted''),
                         pa_errorCode := Some (if gr_cancelRequested current then None else Some ''AGENT_LIMIT_REACHED''),
                         pa_releaseLease := True\<rparr>,
                run_action env fresh now current ''stopped'' (JObj []))
      else Inr (patch\<lparr>pa_status := (case pa_status patch of
                          Some s \<Rightarrow> if gr_cancelRequested current \<and> s \<in> set [''queued'', ''completed'', ''awaiting_payment'']
                                    then Some ''cancelled'' else Some s
                        | None \<Rightarrow> None),
                      pa_sealed := Some (seal_state current st)\<rparr>,
                run_action env fresh now current what event))"

definition write_run ::
    "runtime_env \<Rightarrow> string \<Rightarrow> int \<Rightarrow> agent_run \<Rightarrow> string \<Rightarrow> json \<Rightarrow> run_state \<Rightarrow> run_patch \<Rightarrow> string option \<Rightarrow> agent_db
      \<Rightarrow> enclave_error + (agent_run \<times> agent_db)" where
  "write_run env fresh now row what event st patch token db =
     change_run (gr_id row)
       (case token of
          Some t \<Rightarrow> \<lparr>rf_owner = None, rf_token = Some t, rf_version = None\<rparr>
        | None \<Rightarrow> \<lparr>rf_owner = Some (gr_owner row), rf_token = None, rf_version = Some (gr_version row)\<rparr>)
       now (write_mutation env fresh now what event st patch) db"

section \<open>Creating a run\<close>

record run_request =
  rq_agentId :: string
  rq_goal :: string
  rq_maxSteps :: int
  rq_maxBudgetUnits :: string
  rq_deadlineAt :: string
  rq_idempotencyKey :: string

definition max_units :: int where "max_units = 1000000000000"

definition positive_decimal :: "string \<Rightarrow> bool" where
  "positive_decimal s \<longleftrightarrow> dec_string 13 s \<and> 0 < dec_number s \<and> int (dec_number s) \<le> max_units"

definition trim_text :: "string \<Rightarrow> string" where
  "trim_text s = rev (dropWhile is_space (rev (dropWhile is_space s)))"

fun parse_run_request :: "runtime_env \<Rightarrow> json \<Rightarrow> run_request option" where
  "parse_run_request env (JObj fs) =
     (case (json_field ''agentId'' fs, json_field ''goal'' fs, json_field ''maxSteps'' fs, json_field ''maxBudgetUnits'' fs,
            json_field ''deadlineAt'' fs, json_field ''idempotencyKey'' fs) of
        (Some (JStr a), Some (JStr g), Some (JNum n), Some (JStr b), Some (JStr d), Some (JStr k)) \<Rightarrow>
          if rt_uuid env a \<and> 1 \<le> int (length (trim_text g)) \<and> int (length (trim_text g)) \<le> 16384 \<and> 1 \<le> n \<and> n \<le> 100
            \<and> positive_decimal b \<and> rt_datetime env d \<noteq> None \<and> key_string k
            \<and> set (map fst fs) \<subseteq> set [''agentId'', ''goal'', ''maxSteps'', ''maxBudgetUnits'', ''deadlineAt'', ''idempotencyKey'']
          then Some \<lparr>rq_agentId = a, rq_goal = trim_text g, rq_maxSteps = n, rq_maxBudgetUnits = b, rq_deadlineAt = d, rq_idempotencyKey = k\<rparr>
          else None
      | _ \<Rightarrow> None)"
| "parse_run_request env _ = None"

text \<open>\<open>JSON.stringify(value)\<close> of the parsed request, in the order of the schema.\<close>

definition request_json :: "run_request \<Rightarrow> json" where
  "request_json r = JObj [(''agentId'', JStr (rq_agentId r)), (''goal'', JStr (rq_goal r)), (''maxSteps'', JNum (rq_maxSteps r)),
     (''maxBudgetUnits'', JStr (rq_maxBudgetUnits r)), (''deadlineAt'', JStr (rq_deadlineAt r)), (''idempotencyKey'', JStr (rq_idempotencyKey r))]"

definition invalid_run :: enclave_error where
  "invalid_run = ValidationError ''run''"

definition new_run ::
    "runtime_env \<Rightarrow> string \<Rightarrow> int \<Rightarrow> string \<Rightarrow> string \<Rightarrow> run_request \<Rightarrow> int \<Rightarrow> string \<Rightarrow> agent_run" where
  "new_run env i now owner apiKey value deadline requestHash =
     (let budget = int (dec_number (rq_maxBudgetUnits value)) in
      \<lparr>gr_id = i, gr_owner = owner, gr_agentId = rq_agentId value, gr_idempotencyKey = rq_idempotencyKey value,
       gr_requestHash = requestHash, gr_status = ''queued'', gr_step = 0, gr_maxSteps = rq_maxSteps value,
       gr_maxBudget = budget, gr_spent = 0, gr_deadline = deadline,
       gr_sealed = Sealed owner i ''state''
         \<lparr>rs_credential = apiKey, rs_goal = rq_goal value, rs_phase = Ready,
          rs_limits = \<lparr>rl_agentId = rq_agentId value, rl_steps = rq_maxSteps value, rl_budget = budget, rl_deadline = deadline\<rparr>,
          rs_history = [], rs_pending = None, rs_final = None\<rparr>,
       gr_version = 0, gr_leaseToken = None, gr_leaseUntil = None, gr_cancelRequested = False, gr_errorCode = None,
       gr_paymentId = None, gr_receiptHash = None, gr_ledgerSequence = 0, gr_ledgerHead = zero_hash,
       gr_created = now, gr_updated = now\<rparr>)"

text \<open>\<open>agentAnswer\<close> is the gateway's answer to \<open>getAgent\<close>.\<close>

definition create_run ::
    "runtime_env \<Rightarrow> string \<Rightarrow> string \<Rightarrow> int \<Rightarrow> enclave_error + unit \<Rightarrow> string \<Rightarrow> json \<Rightarrow> agent_db
      \<Rightarrow> enclave_error + (run_view \<times> agent_db)" where
  "create_run env fresh_id fresh_action now agentAnswer apiKey input db =
     rbind (require (rt_enabled env) (failure ''AGENT_RUNTIME_DISABLED'' 503)) (\<lambda>_.
     rbind (run_owner env apiKey db) (\<lambda>owner.
     rbind (of_option invalid_run (parse_run_request env input)) (\<lambda>value.
     rbind (of_option invalid_run (rt_datetime env (rq_deadlineAt value))) (\<lambda>deadline.
     rbind (require (rq_maxSteps value \<le> rt_steps env \<and> int (dec_number (rq_maxBudgetUnits value)) \<le> rt_budget env
              \<and> now < deadline \<and> deadline - now \<le> rt_duration env) invalid_run) (\<lambda>_.
     rbind agentAnswer (\<lambda>_.
     let requestHash = rt_requestMac env owner (request_json value);
         row = new_run env fresh_id now owner apiKey value deadline requestHash;
         action = run_action env fresh_action now row ''created'' (JObj [(''requestHash'', JStr requestHash)]) in
     rbind (insert_run (row\<lparr>gr_ledgerHead := ga_hash action, gr_ledgerSequence := 1\<rparr>) action db) (\<lambda>(saved, db').
     rbind (require (gr_requestHash saved = requestHash)
       (ConflictError ''Agent run idempotency key has different parameters'')) (\<lambda>_.
     Inr (run_view_of saved, db')))))))))"

section \<open>Reading a run\<close>

fun check_journal :: "runtime_env \<Rightarrow> string \<Rightarrow> string \<Rightarrow> nat \<Rightarrow> string \<Rightarrow> agent_action list \<Rightarrow> string option" where
  "check_journal env owner i index previous [] = Some previous"
| "check_journal env owner i index previous (a # as) =
     (if ga_sequence a \<noteq> index + 1 \<or> ga_previous a \<noteq> previous
         \<or> ga_hash a \<noteq> rt_mac env owner i (material_of i previous a)
      then None else check_journal env owner i (index + 1) (ga_hash a) as)"

definition journal_valid :: "runtime_env \<Rightarrow> agent_run \<Rightarrow> agent_action list \<Rightarrow> bool" where
  "journal_valid env row as \<longleftrightarrow>
     check_journal env (gr_owner row) (gr_id row) 0 zero_hash as = Some (gr_ledgerHead row) \<and> length as = gr_ledgerSequence row"

text \<open>
  A snapshot is taken when the version did not move between two reads, in at most three attempts:
  \<open>reads\<close> are the database as the three reads of each attempt find it.
\<close>

fun read_snapshot :: "string \<Rightarrow> string \<Rightarrow> int \<Rightarrow> (agent_db \<times> agent_db \<times> agent_db) list
    \<Rightarrow> enclave_error + (agent_run \<times> agent_action list)" where
  "read_snapshot owner i now [] = Inl (failure ''AGENT_STATE_CHANGED'' 409)"
| "read_snapshot owner i now ((db1, db2, db3) # rest) =
     rbind (get_run owner i now db1) (\<lambda>row.
     rbind (get_run owner i now db3) (\<lambda>again.
     if gr_version again = gr_version row then Inr (row, actions_of i db2) else read_snapshot owner i now rest))"

text \<open>The result is encrypted under the key of a session the caller owns.\<close>

definition get_run_view ::
    "runtime_env \<Rightarrow> int \<Rightarrow> (agent_db \<times> agent_db \<times> agent_db) list \<Rightarrow> (string \<Rightarrow> bool) \<Rightarrow> (string \<Rightarrow> enclave_error + string)
      \<Rightarrow> (string \<Rightarrow> string \<Rightarrow> string) \<Rightarrow> string \<Rightarrow> string \<Rightarrow> string option \<Rightarrow> agent_db
      \<Rightarrow> enclave_error + (run_view \<times> x402_requirement option \<times> string option \<times> agent_action list)" where
  "get_run_view env now reads ownedSession wrapKey encrypt apiKey i sessionId db =
     rbind (run_owner env apiKey db) (\<lambda>owner.
     rbind (read_snapshot owner i now (take 3 reads)) (\<lambda>(row, as).
     rbind (open_state row) (\<lambda>st.
     rbind (require (journal_valid env row as) (failure ''AGENT_JOURNAL_INVALID'' 503)) (\<lambda>_.
     rbind (case sessionId of
         None \<Rightarrow> Inr None
       | Some s \<Rightarrow>
           rbind (require (rt_uuid env s \<and> ownedSession s) (failure ''AGENT_RESULT_SESSION_INVALID'' 403)) (\<lambda>_.
           rbind (wrapKey s) (\<lambda>key.
           Inr (if gr_status row = ''completed'' then map_option (encrypt key) (rs_final st) else None)))) (\<lambda>output.
     Inr (run_view_of row, (case rs_pending st of Some p \<Rightarrow> pc_challenge p | None \<Rightarrow> None), output, as))))))"

definition list_runs ::
    "runtime_env \<Rightarrow> string \<Rightarrow> string option \<Rightarrow> js_number \<Rightarrow> agent_db \<Rightarrow> enclave_error + run_view list" where
  "list_runs env apiKey after limit db =
     rbind (run_owner env apiKey db) (\<lambda>owner.
     rbind (require ((case after of Some a \<Rightarrow> rt_uuid env a | None \<Rightarrow> True) \<and> is_integer limit
              \<and> 1 \<le> int_of limit \<and> int_of limit \<le> 100) (ValidationError ''pagination'')) (\<lambda>_.
     Inr (map run_view_of (take (nat (int_of limit)) (sort_key gr_id
       (matching_rows (\<lambda>r. gr_owner r = owner \<and> (case after of Some a \<Rightarrow> a < gr_id r | None \<Rightarrow> True)) (ad_runs db)))))))"

section \<open>Cancelling\<close>

definition cancel_run ::
    "runtime_env \<Rightarrow> string \<Rightarrow> int \<Rightarrow> string \<Rightarrow> string \<Rightarrow> agent_db \<Rightarrow> enclave_error + (run_view \<times> agent_db)" where
  "cancel_run env fresh now apiKey i db =
     rbind (run_owner env apiKey db) (\<lambda>owner.
     rbind (get_run owner i now db) (\<lambda>row.
     if terminal (gr_status row) \<or> gr_cancelRequested row then Inr (run_view_of row, db)
     else rbind (open_state row) (\<lambda>st.
       rbind (write_run env fresh now row ''cancel_requested'' (JObj []) st
         (if gr_status row = ''running'' \<or> gr_status row = ''outcome_unknown'' then no_patch\<lparr>pa_cancel := True\<rparr>
          else no_patch\<lparr>pa_cancel := True, pa_status := Some ''cancelled'', pa_releaseLease := True\<rparr>) None db) (\<lambda>(next_row, db').
       Inr (run_view_of next_row, db')))))"

section \<open>Completing a step\<close>

record infer_answer =
  ia_typedHash :: string
  ia_outputHash :: string
  ia_output :: string

text \<open>\<open>responseSchema\<close> and \<open>decisionSchema\<close>; the sealed output is kept as one text.\<close>

definition valid_answer :: "infer_answer option \<Rightarrow> enclave_error + infer_answer" where
  "valid_answer result =
     (case result of
        Some a \<Rightarrow> if hex_string 64 (ia_typedHash a) \<and> hex_string 64 (ia_outputHash a) then Inr a
                  else Inl (failure ''AGENT_RESULT_INVALID'' 409)
      | None \<Rightarrow> Inl (failure ''AGENT_RESULT_INVALID'' 409))"

record run_decision =
  rd_complete :: bool
  rd_output :: string

fun decisionSchema :: "json \<Rightarrow> run_decision option" where
  "decisionSchema (JObj fs) =
     (case (json_field ''action'' fs, json_field ''output'' fs) of
        (Some (JStr a), Some (JStr out)) \<Rightarrow>
          if (a = ''continue'' \<or> a = ''complete'') \<and> out \<noteq> [] \<and> int (length out) \<le> 16384
            \<and> set (map fst fs) \<subseteq> set [''action'', ''output'']
          then Some \<lparr>rd_complete = (a = ''complete''), rd_output = out\<rparr> else None
      | _ \<Rightarrow> None)"
| "decisionSchema _ = None"

definition parse_decision :: "runtime_env \<Rightarrow> string \<Rightarrow> run_decision option" where
  "parse_decision env text = (case rt_json env text of Some v \<Rightarrow> decisionSchema v | None \<Rightarrow> None)"

text \<open>The state, status and error after a step with \<open>decision\<close>.\<close>

definition finished_state :: "infer_answer \<Rightarrow> run_decision option \<Rightarrow> pending_call \<Rightarrow> run_state \<Rightarrow> run_state" where
  "finished_state answer decision pending st =
     st\<lparr>rs_history := rs_history st @
          [\<lparr>se_output = (case decision of Some d \<Rightarrow> rd_output d | None \<Rightarrow> []), se_receiptHash = ia_typedHash answer,
            se_paymentId = written (pc_paymentId pending) [], se_settlementTx = written (pc_settlementTx pending) [],
            se_amountUnits = written (pc_amountUnits pending) 0\<rparr>],
        rs_pending := None, rs_phase := Ready,
        rs_final := (case decision of Some d \<Rightarrow> if rd_complete d then Some (rd_output d) else rs_final st | None \<Rightarrow> rs_final st)\<rparr>"

definition finished_status :: "run_decision option \<Rightarrow> agent_run \<Rightarrow> string" where
  "finished_status decision row =
     (if gr_cancelRequested row then ''cancelled''
      else case decision of
          None \<Rightarrow> ''failed''
        | Some d \<Rightarrow> if rd_complete d then ''completed''
                    else if gr_step row + 1 \<ge> gr_maxSteps row then ''exhausted'' else ''queued'')"

definition finished_patch :: "infer_answer \<Rightarrow> run_decision option \<Rightarrow> agent_run \<Rightarrow> run_patch" where
  "finished_patch answer decision row =
     no_patch\<lparr>pa_status := Some (finished_status decision row), pa_step := Some (gr_step row + 1),
       pa_receiptHash := Some (ia_typedHash answer),
       pa_errorCode := Some (if decision = None then Some ''AGENT_DECISION_INVALID''
         else if finished_status decision row = ''exhausted'' then Some ''AGENT_STEP_LIMIT'' else None),
       pa_releaseLease := True\<rparr>"

definition result_invalid :: enclave_error where
  "result_invalid = failure ''AGENT_RESULT_INVALID'' 409"

definition complete_run ::
    "runtime_env \<Rightarrow> string \<Rightarrow> int \<Rightarrow> agent_run \<Rightarrow> run_state \<Rightarrow> infer_answer option \<Rightarrow> string option \<Rightarrow> string option \<Rightarrow> agent_db
      \<Rightarrow> enclave_error + (agent_run \<times> agent_db)" where
  "complete_run env fresh now row st result token expectedHash db =
     rbind (valid_answer result) (\<lambda>answer.
     rbind (of_option result_invalid (rs_pending st)) (\<lambda>pending.
     rbind (require (case expectedHash of Some h \<Rightarrow> h = ia_typedHash answer | None \<Rightarrow> True) result_invalid) (\<lambda>_.
     rbind (rt_decrypt env (pc_wrapKey pending) (ia_output answer)) (\<lambda>plaintext.
     rbind (require (rt_sha env plaintext = ia_outputHash answer) result_invalid) (\<lambda>_.
     let decision = parse_decision env plaintext in
     write_run env fresh now row ''inference_completed''
       (JObj [(''receiptHash'', JStr (ia_typedHash answer)), (''paymentId'', JStr (written (pc_paymentId pending) [])),
              (''action'', JStr (case decision of None \<Rightarrow> ''invalid'' | Some d \<Rightarrow> if rd_complete d then ''complete'' else ''continue''))])
       (finished_state answer decision pending st) (finished_patch answer decision row) token db)))))"

section \<open>Resuming\<close>

text \<open>
  \<open>proof\<close> is the recorded inference of the step's idempotency key (answer and typed hash), \<open>intent\<close> the
  payment row, both as the database holds them when the resume reads them.
\<close>

record payment_intent =
  pi_status :: string
  pi_settleTx :: "string option"
  pi_amountUnits :: int

definition reconciliation_required :: enclave_error where
  "reconciliation_required = failure ''AGENT_RECONCILIATION_REQUIRED'' 409"

definition settled_state :: "string \<Rightarrow> pending_call \<Rightarrow> run_state \<Rightarrow> run_state" where
  "settled_state tx pending st =
     st\<lparr>rs_pending := Some (pending\<lparr>pc_paid := True, pc_settlementTx := Some tx\<rparr>), rs_phase := PaidUp\<rparr>"

definition reconcile_settlement ::
    "runtime_env \<Rightarrow> string \<Rightarrow> int \<Rightarrow> agent_run \<Rightarrow> run_state \<Rightarrow> pending_call \<Rightarrow> payment_intent option \<Rightarrow> agent_db
      \<Rightarrow> enclave_error + (agent_run \<times> agent_db)" where
  "reconcile_settlement env fresh now row st pending intent db =
     (case intent of
        Some p \<Rightarrow>
          (case pi_settleTx p of
             Some tx \<Rightarrow>
               if pi_status p = ''settled'' \<and> tx \<noteq> [] \<and> Some (pi_amountUnits p) = pc_amountUnits pending
               then write_run env fresh now row ''settlement_reconciled''
                      (JObj [(''paymentId'', JStr (written (pc_paymentId pending) [])), (''tx'', JStr tx)]) (settled_state tx pending st)
                      (no_patch\<lparr>pa_spent := Some (gr_spent row + pi_amountUnits p),
                         pa_status := Some (if gr_cancelRequested row then ''cancelled'' else ''queued''), pa_errorCode := Some None\<rparr>) None db
               else Inl reconciliation_required
           | None \<Rightarrow> Inl reconciliation_required)
      | None \<Rightarrow> Inl reconciliation_required)"

definition resume_unknown ::
    "runtime_env \<Rightarrow> string \<Rightarrow> int \<Rightarrow> agent_run \<Rightarrow> run_state \<Rightarrow> ((enclave_error + infer_answer option) \<times> string) option \<Rightarrow> payment_intent option
      \<Rightarrow> agent_db \<Rightarrow> enclave_error + (agent_run \<times> agent_db)" where
  "resume_unknown env fresh now row st recorded intent db =
     (case (rs_phase st, rs_pending st) of
        (InferenceDispatched, Some _) \<Rightarrow>
          rbind (of_option reconciliation_required recorded) (\<lambda>(result, typedHash).
          rbind result (\<lambda>answer.
          complete_run env fresh now row st answer None (if typedHash = [] then None else Some typedHash) db))
      | (SettlementDispatched, Some pending) \<Rightarrow>
          if pc_paymentId pending \<noteq> None \<and> pc_paymentId pending \<noteq> Some []
          then reconcile_settlement env fresh now row st pending intent db
          else write_run env fresh now row ''preparation_resumed'' (JObj []) st
                 (no_patch\<lparr>pa_status := Some (if gr_cancelRequested row then ''cancelled'' else ''queued''), pa_errorCode := Some None\<rparr>) None db
      | _ \<Rightarrow> write_run env fresh now row ''preparation_resumed'' (JObj []) st
               (no_patch\<lparr>pa_status := Some (if gr_cancelRequested row then ''cancelled'' else ''queued''), pa_errorCode := Some None\<rparr>) None db)"

text \<open>\<open>authorization\<close> is the parsed body: \<open>None\<close> when it is malformed, \<open>Some None\<close> when it has none.\<close>

definition resume_run ::
    "runtime_env \<Rightarrow> string \<Rightarrow> int \<Rightarrow> string \<Rightarrow> string \<Rightarrow> string option option \<Rightarrow> ((enclave_error + infer_answer option) \<times> string) option
      \<Rightarrow> payment_intent option \<Rightarrow> agent_db \<Rightarrow> enclave_error + (run_view \<times> agent_db)" where
  "resume_run env fresh now apiKey i authorization recorded intent db =
     rbind (run_owner env apiKey db) (\<lambda>owner.
     rbind (get_run owner i now db) (\<lambda>row.
     rbind (open_state row) (\<lambda>st.
     rbind (of_option (ValidationError ''authorization'') authorization) (\<lambda>auth.
     if terminal (gr_status row) \<or> gr_status row = ''queued'' \<or> gr_status row = ''running'' then Inr (run_view_of row, db)
     else if gr_status row = ''outcome_unknown''
     then rmap (map_prod run_view_of id) (resume_unknown env fresh now row st recorded intent db)
     else case (rs_phase st, rs_pending st) of
         (AwaitingPayment, Some pending) \<Rightarrow>
           rbind (require (gr_status row = ''awaiting_payment'') (failure ''AGENT_RUN_NOT_RESUMABLE'' 409)) (\<lambda>_.
           rbind (of_option (failure ''AGENT_PAYMENT_AUTHORIZATION_REQUIRED'' 409) auth) (\<lambda>a.
           rmap (map_prod run_view_of id)
             (write_run env fresh now row ''payment_authorized'' (JObj [(''paymentId'', JStr (written (gr_paymentId row) []))])
               (st\<lparr>rs_pending := Some (pending\<lparr>pc_authorization := Some a\<rparr>), rs_phase := PaymentReady\<rparr>)
               (no_patch\<lparr>pa_status := Some ''queued'', pa_errorCode := Some None\<rparr>) None db)))
       | _ \<Rightarrow> Inl (failure ''AGENT_RUN_NOT_RESUMABLE'' 409)))))"

section \<open>Running a step\<close>

text \<open>
  \<open>runNext\<close> after a claim, as a machine whose steps each hold at most one transaction: a runner keeps its
  lease token, its last row and state, and where it stands. A runner that crashes is one that takes no
  further step; \<open>lost\<close> is the heartbeat's verdict. \<open>effects\<close> are the calls of the inference gateway,
  which no rollback undoes.
\<close>

datatype stage =
    StBegin | StStop | StPrepare | StChallenge | StStopAgain | StPay | StSettle | StStopPaid | StInfer | StResult
  | StComplete "infer_answer option" | StCatch enclave_error | StReport | StDone

record runner =
  rn_token :: string
  rn_row :: agent_run
  rn_state :: "run_state option"
  rn_stage :: stage
  rn_lost :: bool
  rn_thrown :: "enclave_error option"

datatype effect =
    GetAgent string string
  | OpenSession string
  | ProbeInference string string
  | SettlePayment string string "string option"
  | PaidInference string "string option" string

record session_answer =
  sa_sessionId :: string
  sa_expiresAt :: int
  sa_wrapKey :: string
  sa_blob :: string

text \<open>The answers of one step: \<open>in_agent\<close> is \<open>getAgent\<close>, \<open>in_session\<close> is \<open>quote\<close>, \<open>openSession\<close> and
  \<open>sessionWrapKeyForOwner\<close> with the prompt encrypted, \<open>in_settle\<close> the payment id and transaction.\<close>

record step_input =
  in_now :: int
  in_fresh :: string
  in_agent :: "enclave_error + unit"
  in_session :: "enclave_error + session_answer"
  in_probe :: "enclave_error + unit"
  in_intent :: "payment_intent option"
  in_settle :: "enclave_error + string \<times> string"
  in_result :: "enclave_error + infer_answer option"

definition deadline_reached :: enclave_error where
  "deadline_reached = failure ''AGENT_DEADLINE_REACHED'' 409"

text \<open>A call that is not even started past the deadline; a timeout is an answer of the call.\<close>

definition bounded :: "runtime_env \<Rightarrow> int \<Rightarrow> agent_run \<Rightarrow> effect \<Rightarrow> enclave_error + 'a \<Rightarrow> (enclave_error + 'a) \<times> effect list" where
  "bounded env now row call answer =
     (if min (rt_timeout env) (gr_deadline row - now) \<le> 0 then (Inl deadline_reached, []) else (answer, [call]))"

definition must_stop :: "int \<Rightarrow> agent_run \<Rightarrow> bool" where
  "must_stop now row \<longleftrightarrow> gr_cancelRequested row \<or> gr_deadline row \<le> now \<or> gr_step row \<ge> gr_maxSteps row"

definition stop_patch :: "agent_run \<Rightarrow> run_patch" where
  "stop_patch row = no_patch\<lparr>pa_status := Some (if gr_cancelRequested row then ''cancelled'' else ''exhausted''),
     pa_errorCode := Some (if gr_cancelRequested row then None else Some ''AGENT_LIMIT_REACHED''), pa_releaseLease := True\<rparr>"

definition ended_patch :: "string \<Rightarrow> string \<Rightarrow> run_patch" where
  "ended_patch status code = no_patch\<lparr>pa_status := Some status, pa_errorCode := Some (Some code), pa_releaseLease := True\<rparr>"

definition lease_lost :: enclave_error where
  "lease_lost = ConflictError ''Agent run lease lost''"

definition is_conflict :: "enclave_error \<Rightarrow> bool" where
  "is_conflict e = (case e of ConflictError _ \<Rightarrow> True | _ \<Rightarrow> False)"

text \<open>\<open>save\<close>: the runner moves to \<open>next\<close> with what it wrote, or to the handler with the error.\<close>

definition save_run ::
    "runtime_env \<Rightarrow> step_input \<Rightarrow> runner \<Rightarrow> string \<Rightarrow> json \<Rightarrow> run_state \<Rightarrow> run_patch \<Rightarrow> stage \<Rightarrow> agent_db \<Rightarrow> runner \<times> agent_db" where
  "save_run env inp k what event st patch next_stage db =
     (if rn_lost k then (k\<lparr>rn_stage := StCatch lease_lost\<rparr>, db)
      else case write_run env (in_fresh inp) (in_now inp) (rn_row k) what event st patch (Some (rn_token k)) db of
          Inl e \<Rightarrow> (k\<lparr>rn_stage := StCatch e\<rparr>, db)
        | Inr (row, db') \<Rightarrow>
            if dispatch_kind what \<and> gr_status row \<noteq> ''running''
            then (k\<lparr>rn_row := row, rn_stage := StCatch (ConflictError ''Agent dispatch admission denied'')\<rparr>, db')
            else (k\<lparr>rn_row := row, rn_state := Some st, rn_stage := next_stage\<rparr>, db'))"

definition prompt_for :: "session_answer \<Rightarrow> agent_run \<Rightarrow> pending_call" where
  "prompt_for s row =
     \<lparr>pc_sessionId = sa_sessionId s, pc_expiresAt = sa_expiresAt s, pc_wrapKey = sa_wrapKey s,
      pc_idempotencyKey = ''agent-run:'' @ gr_id row @ '':'' @ int_dec (gr_step row), pc_blob = sa_blob s,
      pc_paymentId = None, pc_amountUnits = None, pc_challenge = None, pc_authorization = None,
      pc_settlementTx = None, pc_paid = False\<rparr>"

definition valid_challenge :: "runtime_env \<Rightarrow> x402_requirement \<Rightarrow> (string \<times> int) option" where
  "valid_challenge env c =
     (case xr_accepts c of
        [a] \<Rightarrow> if xr_x402Version c = 1 \<and> xa_scheme a = ''exact'' \<and> positive_decimal (xa_maxAmountRequired a)
                 \<and> rt_uuid env (xa_paymentId a)
               then Some (xa_paymentId a, int (dec_number (xa_maxAmountRequired a))) else None
      | _ \<Rightarrow> None)"

definition challenge_invalid :: enclave_error where
  "challenge_invalid = failure ''AGENT_PAYMENT_CHALLENGE_INVALID'' 409"

text \<open>The stop checks of lines 265-272: the row is read again, the stop itself is the next transaction.\<close>

definition check_stop :: "step_input \<Rightarrow> runner \<Rightarrow> stage \<Rightarrow> agent_db \<Rightarrow> runner \<times> agent_db" where
  "check_stop inp k next_stage db =
     (case get_run (gr_owner (rn_row k)) (gr_id (rn_row k)) (in_now inp) db of
        Inl e \<Rightarrow> (k\<lparr>rn_stage := StCatch e\<rparr>, db)
      | Inr row \<Rightarrow> (k\<lparr>rn_row := row, rn_stage := (if must_stop (in_now inp) row then StStop else next_stage)\<rparr>, db))"

definition begin_step :: "step_input \<Rightarrow> runner \<Rightarrow> agent_db \<Rightarrow> runner \<times> agent_db" where
  "begin_step inp k db =
     (case open_state (rn_row k) of
        Inl e \<Rightarrow> (k\<lparr>rn_stage := StCatch e\<rparr>, db)
      | Inr st \<Rightarrow> check_stop inp (k\<lparr>rn_state := Some st\<rparr>) StPrepare db)"

definition prepare_step ::
    "runtime_env \<Rightarrow> step_input \<Rightarrow> runner \<Rightarrow> run_state \<Rightarrow> agent_db \<Rightarrow> runner \<times> agent_db \<times> effect list" where
  "prepare_step env inp k st db =
     (let row = rn_row k in
      case bounded env (in_now inp) row (GetAgent (rs_credential st) (gr_agentId row)) (in_agent inp) of
        (Inl e, calls) \<Rightarrow> (k\<lparr>rn_stage := StCatch e\<rparr>, db, calls)
      | (Inr _, calls) \<Rightarrow>
          if rs_pending st \<noteq> None then (k\<lparr>rn_stage := StChallenge\<rparr>, db, calls)
          else (case bounded env (in_now inp) row (OpenSession (rs_credential st)) (in_session inp) of
              (Inl e, later) \<Rightarrow> (k\<lparr>rn_stage := StCatch e\<rparr>, db, calls @ later)
            | (Inr s, later) \<Rightarrow>
                let pending = prompt_for s row;
                    (k', db') = save_run env inp k ''step_prepared''
                      (JObj [(''step'', JNum (gr_step row + 1)), (''idempotencyKey'', JStr (pc_idempotencyKey pending))])
                      (st\<lparr>rs_pending := Some pending, rs_phase := Challenge\<rparr>) no_patch StChallenge db
                in (k', db', calls @ later)))"

definition payment_required_step ::
    "runtime_env \<Rightarrow> step_input \<Rightarrow> runner \<Rightarrow> run_state \<Rightarrow> pending_call \<Rightarrow> x402_requirement \<Rightarrow> agent_db \<Rightarrow> runner \<times> agent_db" where
  "payment_required_step env inp k st pending payment db =
     (case valid_challenge env payment of
        None \<Rightarrow> (k\<lparr>rn_stage := StCatch challenge_invalid\<rparr>, db)
      | Some (paymentId, amount) \<Rightarrow>
          (case in_intent inp of
             None \<Rightarrow> (k\<lparr>rn_stage := StCatch challenge_invalid\<rparr>, db)
           | Some intent \<Rightarrow>
               if pi_status intent \<noteq> ''open'' \<or> pi_amountUnits intent \<noteq> amount
               then (k\<lparr>rn_stage := StCatch challenge_invalid\<rparr>, db)
               else if amount + gr_spent (rn_row k) > gr_maxBudget (rn_row k)
               then save_run env inp k ''budget_exhausted'' (JObj []) st (ended_patch ''exhausted'' ''AGENT_BUDGET_LIMIT'') StDone db
               else let st' = st\<lparr>rs_pending := Some (pending\<lparr>pc_paymentId := Some paymentId, pc_amountUnits := Some amount,
                                   pc_challenge := Some payment\<rparr>),
                                 rs_phase := (if rt_mock env then PaymentReady else AwaitingPayment)\<rparr>
                    in save_run env inp k ''payment_required''
                         (JObj [(''paymentId'', JStr paymentId), (''amountUnits'', JStr (int_dec amount))]) st'
                         (if rt_mock env then no_patch\<lparr>pa_paymentId := Some paymentId\<rparr>
                          else no_patch\<lparr>pa_paymentId := Some paymentId, pa_status := Some ''awaiting_payment'', pa_releaseLease := True\<rparr>)
                         (if rt_mock env then StStopAgain else StDone) db))"

definition challenge_step ::
    "runtime_env \<Rightarrow> step_input \<Rightarrow> runner \<Rightarrow> run_state \<Rightarrow> pending_call \<Rightarrow> agent_db \<Rightarrow> runner \<times> agent_db \<times> effect list" where
  "challenge_step env inp k st pending db =
     (if pc_expiresAt pending \<le> in_now inp
      then (let (k', db') = save_run env inp k ''session_expired'' (JObj []) st (ended_patch ''failed'' ''AGENT_SESSION_EXPIRED'') StDone db
            in (k', db', []))
      else if rs_phase st \<noteq> Challenge then (k\<lparr>rn_stage := StStopAgain\<rparr>, db, [])
      else case bounded env (in_now inp) (rn_row k) (ProbeInference (gr_id (rn_row k)) (pc_idempotencyKey pending)) (in_probe inp) of
          (Inr _, calls) \<Rightarrow> (k\<lparr>rn_stage := StCatch (failure ''AGENT_UNEXPECTED_CHALLENGE_RESULT'' 409)\<rparr>, db, calls)
        | (Inl e, calls) \<Rightarrow>
            (case e of
               PaymentRequiredError _ payment \<Rightarrow>
                 (let (k', db') = payment_required_step env inp k st pending payment db in (k', db', calls))
             | _ \<Rightarrow> (k\<lparr>rn_stage := StCatch e\<rparr>, db, calls)))"

definition pay_run_step ::
    "runtime_env \<Rightarrow> step_input \<Rightarrow> runner \<Rightarrow> run_state \<Rightarrow> pending_call \<Rightarrow> agent_db \<Rightarrow> runner \<times> agent_db" where
  "pay_run_step env inp k st pending db =
     (if rs_phase st \<noteq> PaymentReady then (k\<lparr>rn_stage := StStopPaid\<rparr>, db)
      else case pc_amountUnits pending of
          None \<Rightarrow> (k\<lparr>rn_stage := StCatch (PlainError ''Cannot convert undefined to a BigInt'')\<rparr>, db)
        | Some amount \<Rightarrow>
            if amount + gr_spent (rn_row k) > gr_maxBudget (rn_row k)
            then (k\<lparr>rn_stage := StCatch (failure ''AGENT_BUDGET_LIMIT'' 409)\<rparr>, db)
            else save_run env inp k ''settlement_dispatched'' (JObj [(''paymentId'', JStr (written (pc_paymentId pending) []))])
                   (st\<lparr>rs_phase := SettlementDispatched\<rparr>) no_patch StSettle db)"

definition settle_run_step ::
    "runtime_env \<Rightarrow> step_input \<Rightarrow> runner \<Rightarrow> run_state \<Rightarrow> pending_call \<Rightarrow> agent_db \<Rightarrow> runner \<times> agent_db \<times> effect list" where
  "settle_run_step env inp k st pending db =
     (case bounded env (in_now inp) (rn_row k) (SettlePayment (gr_id (rn_row k)) (pc_idempotencyKey pending) (pc_paymentId pending)) (in_settle inp) of
        (Inl e, calls) \<Rightarrow> (k\<lparr>rn_stage := StCatch e\<rparr>, db, calls)
      | (Inr (paymentId, tx), calls) \<Rightarrow>
          if Some paymentId \<noteq> pc_paymentId pending \<or> \<not> hex_string 64 tx
          then (k\<lparr>rn_stage := StCatch (failure ''AGENT_SETTLEMENT_RESULT_INVALID'' 409)\<rparr>, db, calls)
          else (let (k', db') = save_run env inp k ''settlement_completed'' (JObj [(''paymentId'', JStr paymentId), (''tx'', JStr tx)])
                      (settled_state tx (pending\<lparr>pc_authorization := None\<rparr>) st)
                      (no_patch\<lparr>pa_spent := Some (gr_spent (rn_row k) + written (pc_amountUnits pending) 0)\<rparr>) StStopPaid db
                in (k', db', calls)))"

definition infer_run_step ::
    "runtime_env \<Rightarrow> step_input \<Rightarrow> runner \<Rightarrow> run_state \<Rightarrow> pending_call \<Rightarrow> agent_db \<Rightarrow> runner \<times> agent_db" where
  "infer_run_step env inp k st pending db =
     (if rs_phase st \<noteq> PaidUp then (k\<lparr>rn_stage := StCatch (failure ''AGENT_STATE_INVALID'' 409)\<rparr>, db)
      else save_run env inp k ''inference_dispatched''
             (JObj [(''paymentId'', JStr (written (pc_paymentId pending) [])), (''idempotencyKey'', JStr (pc_idempotencyKey pending))])
             (st\<lparr>rs_phase := InferenceDispatched\<rparr>) no_patch StResult db)"

definition result_run_step ::
    "runtime_env \<Rightarrow> step_input \<Rightarrow> runner \<Rightarrow> pending_call \<Rightarrow> agent_db \<Rightarrow> runner \<times> agent_db \<times> effect list" where
  "result_run_step env inp k pending db =
     (case bounded env (in_now inp) (rn_row k) (PaidInference (gr_id (rn_row k)) (pc_paymentId pending) (pc_idempotencyKey pending)) (in_result inp) of
        (Inl e, calls) \<Rightarrow> (k\<lparr>rn_stage := StCatch e\<rparr>, db, calls)
      | (Inr result, calls) \<Rightarrow>
          (case get_run (gr_owner (rn_row k)) (gr_id (rn_row k)) (in_now inp) db of
             Inl e \<Rightarrow> (k\<lparr>rn_stage := StCatch e\<rparr>, db, calls)
           | Inr row \<Rightarrow> (k\<lparr>rn_row := row, rn_stage := StComplete result\<rparr>, db, calls)))"

definition complete_run_step ::
    "runtime_env \<Rightarrow> step_input \<Rightarrow> runner \<Rightarrow> run_state \<Rightarrow> infer_answer option \<Rightarrow> agent_db \<Rightarrow> runner \<times> agent_db" where
  "complete_run_step env inp k st result db =
     (case complete_run env (in_fresh inp) (in_now inp) (rn_row k) st result (Some (rn_token k)) None db of
        Inl e \<Rightarrow> (k\<lparr>rn_stage := StCatch e\<rparr>, db)
      | Inr (row, db') \<Rightarrow> (k\<lparr>rn_row := row, rn_stage := StDone\<rparr>, db'))"

text \<open>The run as it stands is what a runner that lost its lease answers.\<close>

definition last_view :: "step_input \<Rightarrow> runner \<Rightarrow> agent_db \<Rightarrow> runner" where
  "last_view inp k db =
     (case get_run (gr_owner (rn_row k)) (gr_id (rn_row k)) (in_now inp) db of
        Inl e \<Rightarrow> k\<lparr>rn_stage := StDone, rn_thrown := Some e\<rparr>
      | Inr row \<Rightarrow> k\<lparr>rn_row := row, rn_stage := StDone\<rparr>)"

text \<open>The handler of lines 324-336: the committed state decides between failed and unknown.\<close>

definition catch_step :: "runtime_env \<Rightarrow> step_input \<Rightarrow> runner \<Rightarrow> enclave_error \<Rightarrow> agent_db \<Rightarrow> runner \<times> agent_db" where
  "catch_step env inp k e db =
     (case rn_state k of
        None \<Rightarrow>
          (case change_run (gr_id (rn_row k)) \<lparr>rf_owner = None, rf_token = Some (rn_token k), rf_version = None\<rparr> (in_now inp)
                  (\<lambda>current. Inr (ended_patch ''failed'' ''AGENT_STATE_UNAVAILABLE'',
                     run_action env (in_fresh inp) (in_now inp) current ''state_unavailable'' (JObj []))) db of
             Inl e' \<Rightarrow> (k\<lparr>rn_stage := StDone, rn_thrown := Some e'\<rparr>, db)
           | Inr (row, db') \<Rightarrow> (k\<lparr>rn_row := row, rn_stage := StDone\<rparr>, db'))
      | Some _ \<Rightarrow>
          if is_conflict e \<or> rn_lost k then (last_view inp k db, db)
          else (case rbind (get_run (gr_owner (rn_row k)) (gr_id (rn_row k)) (in_now inp) db) (\<lambda>row. rmap (Pair row) (open_state row)) of
              Inl e' \<Rightarrow> (k\<lparr>rn_stage := StDone, rn_thrown := Some e'\<rparr>, db)
            | Inr (row, st) \<Rightarrow> (k\<lparr>rn_row := row, rn_state := Some st, rn_stage := StReport\<rparr>, db)))"

definition report_step :: "runtime_env \<Rightarrow> step_input \<Rightarrow> runner \<Rightarrow> run_state \<Rightarrow> agent_db \<Rightarrow> runner \<times> agent_db" where
  "report_step env inp k st db =
     (let (k', db') = save_run env inp k (if uncertain (rs_phase st) then ''outcome_unknown'' else ''step_failed'') (JObj []) st
            (if uncertain (rs_phase st) then ended_patch ''outcome_unknown'' ''AGENT_RECONCILIATION_REQUIRED''
             else ended_patch ''failed'' ''AGENT_STEP_FAILED'') StDone db
      in (case rn_stage k' of
            StCatch e \<Rightarrow> if is_conflict e then last_view inp k' db' else k'\<lparr>rn_stage := StDone, rn_thrown := Some e\<rparr>
          | _ \<Rightarrow> k', db'))"

definition run_step :: "runtime_env \<Rightarrow> step_input \<Rightarrow> runner \<Rightarrow> agent_db \<Rightarrow> runner \<times> agent_db \<times> effect list" where
  "run_step env inp k db =
     (let quiet = (\<lambda>(k', db'). (k', db', [])) in
      case (rn_stage k, rn_state k) of
        (StBegin, _) \<Rightarrow> quiet (begin_step inp k db)
      | (StCatch e, _) \<Rightarrow> quiet (catch_step env inp k e db)
      | (StDone, _) \<Rightarrow> (k, db, [])
      | (_, None) \<Rightarrow> (k\<lparr>rn_stage := StDone\<rparr>, db, [])
      | (StStop, Some st) \<Rightarrow> quiet (save_run env inp k ''stopped'' (JObj []) st (stop_patch (rn_row k)) StDone db)
      | (StPrepare, Some st) \<Rightarrow> prepare_step env inp k st db
      | (StStopAgain, Some st) \<Rightarrow> quiet (check_stop inp k StPay db)
      | (StStopPaid, Some st) \<Rightarrow> quiet (check_stop inp k StInfer db)
      | (StReport, Some st) \<Rightarrow> quiet (report_step env inp k st db)
      | (stage, Some st) \<Rightarrow>
          (case rs_pending st of
             None \<Rightarrow> (k\<lparr>rn_stage := StCatch (PlainError ''Cannot read properties of undefined'')\<rparr>, db, [])
           | Some pending \<Rightarrow>
               (case stage of
                  StChallenge \<Rightarrow> challenge_step env inp k st pending db
                | StPay \<Rightarrow> quiet (pay_run_step env inp k st pending db)
                | StSettle \<Rightarrow> settle_run_step env inp k st pending db
                | StInfer \<Rightarrow> quiet (infer_run_step env inp k st pending db)
                | StResult \<Rightarrow> result_run_step env inp k pending db
                | StComplete result \<Rightarrow> quiet (complete_run_step env inp k st result db)
                | _ \<Rightarrow> (k\<lparr>rn_stage := StDone\<rparr>, db, []))))"

text \<open>A run that holds an expired lease is set aside for reconciliation, never retried.\<close>

definition expire_run :: "runtime_env \<Rightarrow> string \<Rightarrow> int \<Rightarrow> agent_run \<Rightarrow> agent_db \<Rightarrow> enclave_error + (agent_run \<times> agent_db)" where
  "expire_run env fresh now row db =
     change_run (gr_id row) \<lparr>rf_owner = None, rf_token = None, rf_version = Some (gr_version row)\<rparr> now
       (\<lambda>current.
          if gr_status current \<noteq> ''running'' \<or> (case gr_leaseUntil current of Some u \<Rightarrow> u > now | None \<Rightarrow> True)
          then Inl (ConflictError ''Agent run lease renewed'')
          else Inr (no_patch\<lparr>pa_status := Some ''outcome_unknown'', pa_errorCode := Some (Some ''AGENT_LEASE_EXPIRED''), pa_releaseLease := True\<rparr>,
                    run_action env fresh now current ''lease_expired'' (JObj []))) db"

fun expire_all :: "runtime_env \<Rightarrow> (string \<Rightarrow> string) \<Rightarrow> int \<Rightarrow> agent_run list \<Rightarrow> agent_db \<Rightarrow> (enclave_error + unit) \<times> agent_db" where
  "expire_all env fresh now [] db = (Inr (), db)"
| "expire_all env fresh now (row # rows) db =
     (case expire_run env (fresh (gr_id row)) now row db of
        Inr (_, db') \<Rightarrow> expire_all env fresh now rows db'
      | Inl e \<Rightarrow> if is_conflict e then expire_all env fresh now rows db else (Inl e, db))"

fun iterate_steps ::
    "runtime_env \<Rightarrow> (agent_db \<Rightarrow> agent_db) \<Rightarrow> step_input list \<Rightarrow> runner \<Rightarrow> agent_db \<Rightarrow> runner \<times> agent_db \<times> effect list" where
  "iterate_steps env between [] k db = (k, db, [])"
| "iterate_steps env between (inp # rest) k db =
     (if rn_stage k = StDone then (k, db, [])
      else let (k1, db1, calls) = run_step env inp k (between db);
               (k2, db2, later) = iterate_steps env between rest k1 db1
           in (k2, db2, calls @ later))"

definition start_runner :: "string \<Rightarrow> agent_run \<Rightarrow> runner" where
  "start_runner token row = \<lparr>rn_token = token, rn_row = row, rn_state = None, rn_stage = StBegin, rn_lost = False, rn_thrown = None\<rparr>"

definition run_next ::
    "runtime_env \<Rightarrow> (string \<Rightarrow> string) \<Rightarrow> int \<Rightarrow> (agent_run \<Rightarrow> bool) \<Rightarrow> string \<Rightarrow> (agent_db \<Rightarrow> agent_db) \<Rightarrow> step_input list \<Rightarrow> agent_db
      \<Rightarrow> (enclave_error + run_view option) \<times> agent_db \<times> effect list" where
  "run_next env fresh now locked token between inputs db =
     (if \<not> rt_enabled env then (Inr None, db, [])
      else case expire_all env fresh now (expired_runs now db) db of
          (Inl e, db') \<Rightarrow> (Inl e, db', [])
        | (Inr _, db') \<Rightarrow>
            (case claim_run locked token now (rt_lease env) db' of
               (None, db'') \<Rightarrow> (Inr None, db'', [])
             | (Some row, db'') \<Rightarrow>
                 (let (k, db3, calls) = iterate_steps env between inputs (start_runner token row) db''
                  in (case rn_thrown k of Some e \<Rightarrow> Inl e | None \<Rightarrow> Inr (Some (run_view_of (rn_row k))), db3, calls))))"

section \<open>Construction and routes\<close>

record runtime_options =
  op_secretBytes :: nat
  op_mode :: string
  op_chainId :: js_number
  op_enabled :: bool
  op_maxSteps :: "js_number option"
  op_maxBudgetUnits :: "int option"
  op_maxDurationMs :: "js_number option"
  op_leaseMs :: "js_number option"
  op_callTimeoutMs :: "js_number option"

definition within :: "js_number \<Rightarrow> int \<Rightarrow> int \<Rightarrow> bool" where
  "within n lo hi \<longleftrightarrow> is_safe_integer n \<and> lo \<le> int_of n \<and> int_of n \<le> hi"

definition option_limits :: "runtime_options \<Rightarrow> js_number \<times> int \<times> js_number \<times> js_number \<times> js_number" where
  "option_limits o' =
     (written (op_maxSteps o') (JInt 25), written (op_maxBudgetUnits o') 10000000, written (op_maxDurationMs o') (JInt 3600000),
      written (op_leaseMs o') (JInt 30000), written (op_callTimeoutMs o') (JInt 120000))"

definition runtime_constructor :: "runtime_options \<Rightarrow> enclave_error + (js_number \<times> int \<times> js_number \<times> js_number \<times> js_number)" where
  "runtime_constructor o' =
     rbind (require (op_secretBytes o' = 32) (PlainError ''Agent runtime requires a 32-byte host secret'')) (\<lambda>_.
     rbind (require ((op_mode o' = ''authorized'' \<or> op_mode o' = ''mock'') \<and> is_safe_integer (op_chainId o') \<and> 0 < int_of (op_chainId o')
              \<and> \<not> (op_enabled o' \<and> op_mode o' = ''mock'' \<and> int_of (op_chainId o') \<noteq> 31337))
       (PlainError ''Agent runtime mock payment is local-chain only'')) (\<lambda>_.
     let (steps, budget, duration, lease, timeout) = option_limits o' in
     rbind (require (within steps 1 100 \<and> 0 < budget \<and> budget \<le> max_units \<and> within duration 1 86400000
              \<and> within lease 1000 720000 \<and> within timeout 1 360000) (PlainError ''Invalid agent runtime limits'')) (\<lambda>_.
     Inr (option_limits o'))))"

text \<open>The error boundary of the routes: only the fixed code and status of an \<open>AppError\<close> leave the server.\<close>

definition route_error :: "enclave_error \<Rightarrow> string \<times> nat" where
  "route_error e = (if is_app_error e then (error_code e, error_status e) else (''AGENT_RUNTIME_ERROR'', 500))"

definition route_run_id :: "runtime_env \<Rightarrow> string \<Rightarrow> enclave_error + string" where
  "route_run_id env i = (if rt_uuid env i then Inr i else Inl (ValidationError ''id''))"

end
