(* ===== verification/Agent_Run_Safety.thy ===== *)
theory Agent_Run_Safety
  imports Agent_Runs
begin

text \<open>
  What the agent runner guarantees under any interleaving of clients, runners, lease expiries and crashes:
  each run's sealed state matches its row, its journal is an unbroken chain, a runner's view of its state is
  the committed one while it holds the lease, and a paid call of the gateway is started at most once per
  step. A dispatch is a ticket: it is created by the commit that moves the step's phase forward, and spent by
  the call.
\<close>

section \<open>Progress of a run\<close>

fun rank :: "run_phase \<Rightarrow> nat" where
  "rank Ready = 0" | "rank Challenge = 1" | "rank AwaitingPayment = 2" | "rank PaymentReady = 3"
| "rank SettlementDispatched = 4" | "rank PaidUp = 5" | "rank InferenceDispatched = 6"

lemma rank_eq [simp]: "rank p = rank q \<longleftrightarrow> p = q"
  by (cases p; cases q) auto

definition step_key :: "string \<Rightarrow> int \<Rightarrow> string" where
  "step_key i n = ''agent-run:'' @ i @ '':'' @ int_dec n"

lemma step_key_inj: "0 \<le> n \<Longrightarrow> 0 \<le> m \<Longrightarrow> step_key i n = step_key i m \<longleftrightarrow> n = m"
  by (auto simp: step_key_def int_dec_inj_nonneg)

definition phase_ok :: "agent_run \<Rightarrow> run_state \<Rightarrow> bool" where
  "phase_ok r st \<longleftrightarrow>
     (rs_pending st = None \<longleftrightarrow> rs_phase st = Ready)
     \<and> (\<forall>p. rs_pending st = Some p \<longrightarrow>
          pc_idempotencyKey p = step_key (gr_id r) (gr_step r)
          \<and> (pc_paid p \<longleftrightarrow> 5 \<le> rank (rs_phase st))
          \<and> (2 \<le> rank (rs_phase st) \<longrightarrow> (\<exists>a. pc_amountUnits p = Some a \<and> 0 < a)))"

definition state_ok :: "agent_run \<Rightarrow> run_state \<Rightarrow> bool" where
  "state_ok r st \<longleftrightarrow> metadata_match r st \<and> phase_ok r st"

definition row_state :: "agent_run \<Rightarrow> run_state \<Rightarrow> bool" where
  "row_state r st \<longleftrightarrow> gr_sealed r = seal_state r st \<and> state_ok r st"

definition db_ok :: "runtime_env \<Rightarrow> agent_db \<Rightarrow> bool" where
  "db_ok env db \<longleftrightarrow> unique_key gr_id (ad_runs db)
     \<and> (\<forall>r \<in> set (ad_runs db). (\<exists>st. row_state r st) \<and> run_checks r \<and> journal_valid env r (actions_of (gr_id r) db))
     \<and> (\<forall>a \<in> set (ad_actions db). \<exists>r \<in> set (ad_runs db). gr_id r = ga_runId a)"

lemma row_state_unique: "row_state r st \<Longrightarrow> row_state r st' \<Longrightarrow> st = st'"
  by (simp add: row_state_def seal_state_def)

lemma open_row_state: "row_state r st \<Longrightarrow> open_state r = Inr st"
  by (simp add: open_state_def row_state_def seal_state_def state_ok_def)

lemma open_state_row: "open_state r = Inr st \<Longrightarrow> row_state r st' \<Longrightarrow> st = st'"
  by (simp add: open_row_state)

lemma run_by_id_Some: "run_by_id i db = Some r \<Longrightarrow> r \<in> set (ad_runs db) \<and> gr_id r = i"
  using select_row_Some [of "\<lambda>r. gr_id r = i" "ad_runs db" r] by (simp add: run_by_id_def)

lemma run_by_id_mem: "db_ok env db \<Longrightarrow> r \<in> set (ad_runs db) \<Longrightarrow> run_by_id (gr_id r) db = Some r"
proof -
  assume "db_ok env db" and r: "r \<in> set (ad_runs db)"
  then have "unique_key gr_id (ad_runs db)" by (simp add: db_ok_def)
  from select_row_key [OF this r] show ?thesis by (simp add: run_by_id_def)
qed

section \<open>The journal\<close>

lemma check_journal_append:
  "check_journal env owner i n prev (xs @ [a]) =
     (case check_journal env owner i n prev xs of
        None \<Rightarrow> None
      | Some last_hash \<Rightarrow>
          if ga_sequence a = n + length xs + 1 \<and> ga_previous a = last_hash \<and> ga_hash a = rt_mac env owner i (material_of i last_hash a)
          then Some (ga_hash a) else None)"
  by (induction xs arbitrary: n prev) (auto split: option.splits)

lemma check_journal_sequences:
  "check_journal env owner i n prev xs = Some h \<Longrightarrow> map ga_sequence xs = [Suc n..<Suc n + length xs]"
proof (induction xs arbitrary: n prev)
  case (Cons a xs)
  then have "map ga_sequence xs = [Suc (Suc n)..<Suc (Suc n) + length xs]" "ga_sequence a = Suc n"
    by (auto split: if_splits)
  then show ?case by (simp add: upt_rec)
qed simp

lemma journal_extend:
  assumes "journal_valid env row (actions_of i db)" and "gr_id row = i"
    and "act = run_action env fresh now row what payload"
    and "gr_owner u = gr_owner row" and "gr_id u = i" and "gr_ledgerHead u = ga_hash act" and "gr_ledgerSequence u = ga_sequence act"
    and "ad_actions db' = ad_actions db @ [act]"
  shows "journal_valid env u (actions_of i db')"
proof -
  let ?acts = "actions_of i db"
  from assms(1,2) have c: "check_journal env (gr_owner row) i 0 zero_hash ?acts = Some (gr_ledgerHead row)"
    and l: "length ?acts = gr_ledgerSequence row" by (simp_all add: journal_valid_def)
  have seqs: "map ga_sequence ?acts = [Suc 0..<Suc (length ?acts)]" using check_journal_sequences [OF c] by simp
  have act: "ga_runId act = i" "ga_sequence act = length ?acts + 1" "ga_previous act = gr_ledgerHead row"
    "ga_hash act = rt_mac env (gr_owner row) i (material_of i (gr_ledgerHead row) act)"
    using assms(2,3) l by (simp_all add: run_action_def material_of_def Let_def)
  have "ga_sequence a \<le> ga_sequence act" if "a \<in> set (matching_rows (\<lambda>a. ga_runId a = i) (ad_actions db))" for a
  proof -
    from that have "a \<in> set ?acts" by (simp add: actions_of_def)
    then have "ga_sequence a \<in> set (map ga_sequence ?acts)" by (simp only: set_map imageI)
    then have "ga_sequence a \<in> set [Suc 0..<Suc (length ?acts)]" by (simp only: seqs)
    then show ?thesis using act(2) by auto
  qed
  then have "sort_key ga_sequence (matching_rows (\<lambda>a. ga_runId a = i) (ad_actions db) @ [act]) = ?acts @ sort_key ga_sequence [act]"
    unfolding actions_of_def by (intro sort_key_append) auto
  then have "actions_of i db' = ?acts @ [act]"
    using act(1) by (simp add: actions_of_def assms(8) matching_rows_def)
  with c act assms(4-7) show ?thesis by (simp add: journal_valid_def check_journal_append)
qed

lemma actions_of_other:
  "ad_actions db' = ad_actions db @ [act] \<Longrightarrow> ga_runId act \<noteq> i \<Longrightarrow> actions_of i db' = actions_of i db"
  by (simp add: actions_of_def matching_rows_def)

section \<open>One write\<close>

text \<open>The columns a runner works from, and those no write changes.\<close>

definition identity :: "agent_run \<Rightarrow> string \<times> string \<times> string \<times> int \<times> int \<times> int" where
  "identity r = (gr_id r, gr_owner r, gr_agentId r, gr_maxSteps r, gr_maxBudget r, gr_deadline r)"

lemma identity_eq: "identity u = identity r \<longleftrightarrow> gr_id u = gr_id r \<and> gr_owner u = gr_owner r \<and> gr_agentId u = gr_agentId r
    \<and> gr_maxSteps u = gr_maxSteps r \<and> gr_maxBudget u = gr_maxBudget r \<and> gr_deadline u = gr_deadline r"
  by (auto simp: identity_def)

lemma apply_patch_simps [simp]:
  "gr_id (apply_patch p r) = gr_id r" "gr_owner (apply_patch p r) = gr_owner r" "gr_agentId (apply_patch p r) = gr_agentId r"
  "gr_maxSteps (apply_patch p r) = gr_maxSteps r" "gr_maxBudget (apply_patch p r) = gr_maxBudget r"
  "gr_deadline (apply_patch p r) = gr_deadline r" "gr_version (apply_patch p r) = gr_version r"
  "gr_status (apply_patch p r) = written (pa_status p) (gr_status r)"
  "gr_leaseToken (apply_patch p r) = (if pa_releaseLease p then None else gr_leaseToken r)"
  "gr_spent (apply_patch p r) = written (pa_spent p) (gr_spent r)" "gr_step (apply_patch p r) = written (pa_step p) (gr_step r)"
  "gr_sealed (apply_patch p r) = written (pa_sealed p) (gr_sealed r)"
  by (simp_all add: apply_patch_def)

lemma written_simps [simp]: "written None x = x" "written (Some y) x = y"
  by (simp_all add: written_def)

lemma no_patch_simps [simp]: "pa_status no_patch = None" "pa_errorCode no_patch = None" "\<not> pa_releaseLease no_patch"
  "\<not> pa_cancel no_patch" "pa_spent no_patch = None" "pa_paymentId no_patch = None" "pa_receiptHash no_patch = None"
  "pa_step no_patch = None" "pa_sealed no_patch = None"
  by (simp_all add: no_patch_def)

text \<open>What a committed change is: the row under the fence, its replacement, and the entry journalled with it.\<close>

definition replaced :: "runtime_env \<Rightarrow> agent_db \<Rightarrow> agent_run \<Rightarrow> agent_run \<Rightarrow> agent_db \<Rightarrow> bool" where
  "replaced env db cur u db' \<longleftrightarrow>
     run_by_id (gr_id cur) db = Some cur \<and> identity u = identity cur \<and> run_checks u
     \<and> (gr_leaseToken u = gr_leaseToken cur \<or> gr_leaseToken u = None)
     \<and> (\<exists>fresh now what payload. let act = run_action env fresh now cur what payload in
          gr_ledgerHead u = ga_hash act \<and> gr_ledgerSequence u = ga_sequence act
          \<and> ad_actions db' = ad_actions db @ [act])
     \<and> ad_runs db' = update_rows (\<lambda>r. gr_id r = gr_id cur) (\<lambda>_. u) (ad_runs db) \<and> ad_keys db' = ad_keys db"

lemma assertRunFence_Inr: "assertRunFence found i fence now = Inr r \<Longrightarrow> found = Some r"
  by (auto simp: assertRunFence_def split: option.splits if_splits)

lemma change_run_Inr:
  assumes "change_run i fence now mutate db = Inr (u, db')"
  shows "\<exists>cur patch act. run_by_id i db = Some cur \<and> assertRunFence (Some cur) i fence now = Inr cur \<and> mutate cur = Inr (patch, act)
    \<and> u = (apply_patch patch cur)\<lparr>gr_version := gr_version cur + 1, gr_updated := now, gr_ledgerSequence := ga_sequence act,
            gr_ledgerHead := ga_hash act\<rparr>
    \<and> run_checks u \<and> ad_runs db' = update_rows (\<lambda>r. gr_id r = i) (\<lambda>_. u) (ad_runs db)
    \<and> ad_actions db' = ad_actions db @ [act] \<and> ad_keys db' = ad_keys db"
proof -
  from assms obtain cur where cur: "assertRunFence (run_by_id i db) i fence now = Inr cur"
    unfolding change_run_def by (elim rbind_InrE)
  then have id: "run_by_id i db = Some cur" by (rule assertRunFence_Inr)
  with assms cur show ?thesis
    by (auto simp: change_run_def Let_def res_simps)
qed

lemma fence_token:
  "assertRunFence (Some cur) i \<lparr>rf_owner = None, rf_token = Some t, rf_version = None\<rparr> now = Inr cur \<Longrightarrow>
     gr_status cur = ''running'' \<and> gr_leaseToken cur = Some t"
  by (auto simp: assertRunFence_def split: if_splits)

lemma fence_version:
  "assertRunFence (Some cur) i \<lparr>rf_owner = Some w, rf_token = None, rf_version = Some v\<rparr> now = Inr cur \<Longrightarrow>
     gr_owner cur = w \<and> gr_version cur = v"
  by (auto simp: assertRunFence_def split: if_splits)

lemma db_ok_replaced:
  assumes ok: "db_ok env db" and rep: "replaced env db cur u db'" and st: "row_state u st"
  shows "db_ok env db'"
proof -
  from rep obtain fresh now what payload where
    id: "run_by_id (gr_id cur) db = Some cur" and core: "identity u = identity cur" and checks: "run_checks u"
    and led: "gr_ledgerHead u = ga_hash (run_action env fresh now cur what payload)"
      "gr_ledgerSequence u = ga_sequence (run_action env fresh now cur what payload)"
    and acts: "ad_actions db' = ad_actions db @ [run_action env fresh now cur what payload]"
    and runs: "ad_runs db' = update_rows (\<lambda>r. gr_id r = gr_id cur) (\<lambda>_. u) (ad_runs db)"
    by (auto simp: replaced_def Let_def)
  note cur = run_by_id_Some [OF id]
  have uid: "gr_id u = gr_id cur" "gr_owner u = gr_owner cur" using core by (simp_all add: identity_def)
  have uniq: "unique_key gr_id (ad_runs db)" using ok by (simp add: db_ok_def)
  have mem: "r \<in> set (ad_runs db') \<longleftrightarrow> r = u \<or> (r \<in> set (ad_runs db) \<and> r \<noteq> cur)" for r
    unfolding runs using set_update_key [OF uniq, of cur r "\<lambda>_. u"] cur by simp
  have "unique_key gr_id (ad_runs db')"
    unfolding runs using uniq uid by (subst unique_key_update_on) simp_all
  moreover have "(\<exists>st. row_state r st) \<and> run_checks r \<and> journal_valid env r (actions_of (gr_id r) db')" if "r \<in> set (ad_runs db')" for r
  proof (cases "r = u")
    case True
    have "journal_valid env cur (actions_of (gr_id cur) db)" using ok cur by (auto simp: db_ok_def)
    from journal_extend [OF this refl refl uid(2) uid(1) led acts] True st checks uid show ?thesis by auto
  next
    case False
    with that mem have r: "r \<in> set (ad_runs db)" "r \<noteq> cur" by auto
    then have "gr_id r \<noteq> gr_id cur" using unique_key_eq [OF uniq] cur by blast
    then have "actions_of (gr_id r) db' = actions_of (gr_id r) db"
      using acts by (intro actions_of_other) (auto simp: run_action_def Let_def)
    with ok r show ?thesis by (auto simp: db_ok_def)
  qed
  moreover have "\<exists>r \<in> set (ad_runs db'). gr_id r = ga_runId a" if "a \<in> set (ad_actions db')" for a
  proof -
    from that acts cur ok obtain r where "r \<in> set (ad_runs db)" "gr_id r = ga_runId a"
      by (auto simp: db_ok_def run_action_def Let_def)
    with mem uid show ?thesis by (cases "r = cur") auto
  qed
  ultimately show ?thesis by (auto simp: db_ok_def)
qed

definition row_phase :: "agent_run \<Rightarrow> nat" where
  "row_phase r = (case gr_sealed r of Sealed _ _ _ st \<Rightarrow> rank (rs_phase st) | Unreadable \<Rightarrow> 0)"

definition forward :: "agent_run \<Rightarrow> agent_run \<Rightarrow> bool" where
  "forward cur u \<longleftrightarrow> gr_step cur < gr_step u \<or> (gr_step cur = gr_step u \<and> row_phase cur \<le> row_phase u)"

definition same_core :: "agent_run \<Rightarrow> agent_run \<Rightarrow> bool" where
  "same_core a b \<longleftrightarrow> identity a = identity b \<and> gr_step a = gr_step b \<and> gr_spent a = gr_spent b \<and> gr_sealed a = gr_sealed b"

lemma row_phase_state [simp]: "gr_sealed r = seal_state q st \<Longrightarrow> row_phase r = rank (rs_phase st)"
  by (simp add: row_phase_def seal_state_def)

lemma forward_refl [simp]: "forward r r"
  by (simp add: forward_def)

lemma same_core_refl [simp]: "same_core r r"
  by (simp add: same_core_def)

lemma same_core_forward: "same_core cur u \<Longrightarrow> forward cur u"
  by (simp add: same_core_def forward_def row_phase_def)

lemma state_ok_cong:
  "identity u = identity r \<Longrightarrow> gr_step u = gr_step r \<Longrightarrow> gr_spent u = gr_spent r \<Longrightarrow> state_ok u st = state_ok r st"
  by (simp add: state_ok_def metadata_match_def phase_ok_def identity_eq)

lemma seal_state_cong: "identity u = identity r \<Longrightarrow> seal_state u st = seal_state r st"
  by (simp add: seal_state_def identity_eq)

lemma row_state_cong: "same_core a b \<Longrightarrow> row_state a st = row_state b st"
  by (simp add: same_core_def row_state_def state_ok_cong [of a b] seal_state_cong [of a b])

lemma write_run_Inr:
  assumes "write_run env fresh now row what event st patch token db = Inr (u, db')"
  shows "\<exists>cur. replaced env db cur u db' \<and> gr_id cur = gr_id row
    \<and> (case token of Some t \<Rightarrow> gr_status cur = ''running'' \<and> gr_leaseToken cur = Some t
        | None \<Rightarrow> gr_owner cur = gr_owner row \<and> gr_version cur = gr_version row)
    \<and> ((same_core cur u \<and> dispatch_kind what \<and> gr_status u \<noteq> ''running'')
       \<or> (gr_sealed u = seal_state cur st \<and> gr_step u = written (pa_step patch) (gr_step cur)
          \<and> gr_spent u = written (pa_spent patch) (gr_spent cur)
          \<and> (pa_status patch = None \<longrightarrow> gr_status u = gr_status cur)))"
proof -
  let ?fence = "case token of
          Some t \<Rightarrow> \<lparr>rf_owner = None, rf_token = Some t, rf_version = None\<rparr>
        | None \<Rightarrow> \<lparr>rf_owner = Some (gr_owner row), rf_token = None, rf_version = Some (gr_version row)\<rparr>"
  from change_run_Inr [OF assms [unfolded write_run_def]] obtain cur p act where
    cur: "run_by_id (gr_id row) db = Some cur" and fence: "assertRunFence (Some cur) (gr_id row) ?fence now = Inr cur"
    and mut: "write_mutation env fresh now what event st patch cur = Inr (p, act)"
    and u: "u = (apply_patch p cur)\<lparr>gr_version := gr_version cur + 1, gr_updated := now, gr_ledgerSequence := ga_sequence act,
            gr_ledgerHead := ga_hash act\<rparr>"
    and rest: "run_checks u" "ad_runs db' = update_rows (\<lambda>r. gr_id r = gr_id row) (\<lambda>_. u) (ad_runs db)"
      "ad_actions db' = ad_actions db @ [act]" "ad_keys db' = ad_keys db"
    by blast
  have id: "gr_id cur = gr_id row" using run_by_id_Some [OF cur] by simp
  have f: "case token of Some t \<Rightarrow> gr_status cur = ''running'' \<and> gr_leaseToken cur = Some t
      | None \<Rightarrow> gr_owner cur = gr_owner row \<and> gr_version cur = gr_version row"
    using fence fence_token fence_version by (cases token) auto
  have act: "\<exists>k p. act = run_action env fresh now cur k p"
    using mut by (auto simp: write_mutation_def split: if_splits)
  have core: "identity u = identity cur" "gr_leaseToken u = gr_leaseToken cur \<or> gr_leaseToken u = None"
    by (simp_all add: u identity_def)
  have rep: "replaced env db cur u db'"
  proof -
    obtain k' p' where a: "act = run_action env fresh now cur k' p'" using act by blast
    have led: "gr_ledgerHead u = ga_hash act" "gr_ledgerSequence u = ga_sequence act" by (simp_all add: u)
    show ?thesis unfolding replaced_def Let_def using led rest(3)
      by (intro conjI exI [of _ fresh] exI [of _ now] exI [of _ k'] exI [of _ p'])
        (simp_all only: a [symmetric] cur id core rest)
  qed
  have two: "(same_core cur u \<and> dispatch_kind what \<and> gr_status u \<noteq> ''running'')
       \<or> (gr_sealed u = seal_state cur st \<and> gr_step u = written (pa_step patch) (gr_step cur)
          \<and> gr_spent u = written (pa_spent patch) (gr_spent cur) \<and> (pa_status patch = None \<longrightarrow> gr_status u = gr_status cur))"
    using mut by (auto simp: write_mutation_def u same_core_def identity_def split: if_splits)
  show ?thesis by (rule exI [of _ cur]) (intro conjI rep id f two)
qed

section \<open>Runners\<close>

fun active :: "stage \<Rightarrow> bool" where
  "active (StCatch e) = False"
| "active StDone = False"
| "active _ = True"

text \<open>What a stage knows of the state it was reached with.\<close>

definition stage_ok :: "runner \<Rightarrow> bool" where
  "stage_ok k \<longleftrightarrow>
     (active (rn_stage k) \<and> rn_stage k \<noteq> StBegin \<longrightarrow> rn_state k \<noteq> None)
     \<and> (rn_stage k = StSettle \<longrightarrow> (\<exists>st p. rn_state k = Some st \<and> rs_phase st = SettlementDispatched \<and> rs_pending st = Some p))
     \<and> (rn_stage k = StResult \<or> (\<exists>a. rn_stage k = StComplete a) \<longrightarrow>
          (\<exists>st p. rn_state k = Some st \<and> rs_phase st = InferenceDispatched \<and> rs_pending st = Some p))"

definition synced :: "agent_run \<Rightarrow> runner \<Rightarrow> bool" where
  "synced r k \<longleftrightarrow> same_core (rn_row k) r \<and> (rn_stage k = StBegin \<or> (\<exists>st. rn_state k = Some st \<and> gr_sealed r = seal_state r st))"

definition holds :: "agent_run \<Rightarrow> runner \<Rightarrow> bool" where
  "holds r k \<longleftrightarrow> gr_id r = gr_id (rn_row k) \<and> gr_status r = ''running'' \<and> gr_leaseToken r = Some (rn_token k)"

definition runner_ok :: "agent_db \<Rightarrow> runner \<Rightarrow> bool" where
  "runner_ok db k \<longleftrightarrow> stage_ok k
     \<and> (\<exists>r \<in> set (ad_runs db). identity r = identity (rn_row k))
     \<and> (active (rn_stage k) \<longrightarrow> (\<forall>r \<in> set (ad_runs db). holds r k \<longrightarrow> synced r k))"

type_synonym ticket = "string \<times> string \<times> bool"

definition ticket_of_runner :: "runner \<Rightarrow> ticket list" where
  "ticket_of_runner k = (case rn_state k of
     Some st \<Rightarrow> (case rs_pending st of
         Some p \<Rightarrow> if rn_stage k = StSettle then [(gr_id (rn_row k), pc_idempotencyKey p, True)]
                   else if rn_stage k = StResult then [(gr_id (rn_row k), pc_idempotencyKey p, False)] else []
       | None \<Rightarrow> [])
   | None \<Rightarrow> [])"

fun ticket_of_effect :: "effect \<Rightarrow> ticket list" where
  "ticket_of_effect (SettlePayment i key p) = [(i, key, True)]"
| "ticket_of_effect (PaidInference i p key) = [(i, key, False)]"
| "ticket_of_effect _ = []"

definition tickets_of :: "effect list \<Rightarrow> ticket list" where
  "tickets_of es = concat (map ticket_of_effect es)"

definition needed_rank :: "bool \<Rightarrow> nat" where
  "needed_rank settle = (if settle then 4 else 6)"

text \<open>The new ticket of a commit that moves the row \<open>cur\<close> to \<open>u\<close>.\<close>

definition opens_ticket :: "agent_run \<Rightarrow> agent_run \<Rightarrow> ticket \<Rightarrow> bool" where
  "opens_ticket cur u t \<longleftrightarrow> (\<exists>b. t = (gr_id u, step_key (gr_id u) (gr_step u), b) \<and> gr_step u = gr_step cur
     \<and> row_phase cur < needed_rank b \<and> needed_rank b \<le> row_phase u)"

definition owned_change :: "runtime_env \<Rightarrow> agent_db \<Rightarrow> runner \<Rightarrow> agent_db \<Rightarrow> agent_run \<Rightarrow> agent_run \<Rightarrow> bool" where
  "owned_change env db k db' cur u \<longleftrightarrow> replaced env db cur u db' \<and> holds cur k \<and> (\<exists>st. row_state u st) \<and> forward cur u"

definition moved :: "runtime_env \<Rightarrow> agent_db \<Rightarrow> runner \<Rightarrow> runner \<Rightarrow> agent_db \<Rightarrow> effect list \<Rightarrow> bool" where
  "moved env db k k' db' calls \<longleftrightarrow>
     rn_token k' = rn_token k \<and> identity (rn_row k') = identity (rn_row k) \<and> runner_ok db' k'
     \<and> ((db' = db \<and> (tickets_of calls @ ticket_of_runner k' = ticket_of_runner k \<or> tickets_of calls @ ticket_of_runner k' = []))
        \<or> (\<exists>cur u. owned_change env db k db' cur u
             \<and> (tickets_of calls @ ticket_of_runner k' = ticket_of_runner k \<or> tickets_of calls @ ticket_of_runner k' = []
                \<or> (ticket_of_runner k = [] \<and> (\<exists>t. tickets_of calls @ ticket_of_runner k' = [t] \<and> opens_ticket cur u t)))))"

lemma tickets_of_simps [simp]: "tickets_of [] = []" "tickets_of (e # es) = ticket_of_effect e @ tickets_of es"
  "tickets_of (xs @ ys) = tickets_of xs @ tickets_of ys"
  by (simp_all add: tickets_of_def)

lemma bounded_calls:
  "bounded env now row call answer = (res, calls) \<Longrightarrow> tickets_of calls = ticket_of_effect call \<or> (tickets_of calls = [] \<and> res = Inl deadline_reached)"
  by (auto simp: bounded_def split: if_splits)

lemma bounded_Inr: "bounded env now row call answer = (Inr x, calls) \<Longrightarrow> calls = [call]"
  by (auto simp: bounded_def split: if_splits)

section \<open>What a save does\<close>

lemma replaced_mem:
  assumes "db_ok env db" and "replaced env db cur u db'"
  shows "r \<in> set (ad_runs db') \<longleftrightarrow> r = u \<or> (r \<in> set (ad_runs db) \<and> r \<noteq> cur)"
proof -
  have uniq: "unique_key gr_id (ad_runs db)" using assms(1) by (simp add: db_ok_def)
  have cur: "cur \<in> set (ad_runs db)" using assms(2) run_by_id_Some by (auto simp: replaced_def)
  show ?thesis using set_update_key [OF uniq cur, of r "\<lambda>_. u"] assms(2) by (simp add: replaced_def)
qed

lemma unique_runs: "db_ok env db \<Longrightarrow> r \<in> set (ad_runs db) \<Longrightarrow> q \<in> set (ad_runs db) \<Longrightarrow> gr_id r = gr_id q \<Longrightarrow> r = q"
  unfolding db_ok_def by (blast intro: unique_key_eq)

lemma replaced_cur: "replaced env db cur u db' \<Longrightarrow> cur \<in> set (ad_runs db)"
  by (auto simp: replaced_def dest: run_by_id_Some)

lemma replaced_identity: "replaced env db cur u db' \<Longrightarrow> identity u = identity cur"
  by (simp add: replaced_def)

lemma replaced_other:
  assumes "db_ok env db" and "replaced env db cur u db'" and "r \<in> set (ad_runs db')" and "gr_id r \<noteq> gr_id cur"
  shows "r \<in> set (ad_runs db)"
  using replaced_mem [OF assms(1,2)] assms(3,4) replaced_identity [OF assms(2)] by (auto simp: identity_eq)

lemma replaced_self:
  assumes "db_ok env db" and "replaced env db cur u db'" and "r \<in> set (ad_runs db')" and "gr_id r = gr_id cur"
  shows "r = u"
  using replaced_mem [OF assms(1,2), of r] assms(3,4) unique_runs [OF assms(1) _ replaced_cur [OF assms(2)], of r] by auto

lemma identity_kept:
  assumes "db_ok env db" and "replaced env db cur u db'" and "\<exists>r \<in> set (ad_runs db). identity r = x"
  shows "\<exists>r \<in> set (ad_runs db'). identity r = x"
  using assms(3) replaced_mem [OF assms(1,2)] replaced_identity [OF assms(2)] by metis

lemma save_run_cases:
  assumes ok: "db_ok env db" and rk: "runner_ok db k" and act: "active (rn_stage k)" "rn_stage k \<noteq> StBegin"
    and st0: "rn_state k = Some st0"
    and run: "save_run env inp k what ev st patch nxt db = (k', db')"
    and disp: "dispatch_kind what \<Longrightarrow> pa_status patch = None"
    and good: "\<And>cur u. row_state cur st0 \<Longrightarrow> same_core (rn_row k) cur \<Longrightarrow> identity u = identity cur \<Longrightarrow>
      gr_step u = written (pa_step patch) (gr_step cur) \<Longrightarrow> gr_spent u = written (pa_spent patch) (gr_spent cur) \<Longrightarrow>
      state_ok u st \<and> (gr_step cur < gr_step u \<or> (gr_step cur = gr_step u \<and> rank (rs_phase st0) \<le> rank (rs_phase st)))"
  obtains (failed) e where "db' = db" "k' = k\<lparr>rn_stage := StCatch e\<rparr>"
  | (denied) cur u e where "owned_change env db k db' cur u" "same_core cur u" "k' = k\<lparr>rn_row := u, rn_stage := StCatch e\<rparr>"
  | (saved) cur u where "owned_change env db k db' cur u" "row_state cur st0" "row_state u st"
      "gr_step u = written (pa_step patch) (gr_step cur)" "identity u = identity cur" "same_core (rn_row k) cur"
      "k' = k\<lparr>rn_row := u, rn_state := Some st, rn_stage := nxt\<rparr>"
proof (cases "rn_lost k")
  case True
  with run have "k' = k\<lparr>rn_stage := StCatch lease_lost\<rparr>" "db' = db" by (simp_all add: save_run_def)
  with failed show ?thesis by blast
next
  case False
  show ?thesis
  proof (cases "write_run env (in_fresh inp) (in_now inp) (rn_row k) what ev st patch (Some (rn_token k)) db")
    case (Inl e)
    with run False have "k' = k\<lparr>rn_stage := StCatch e\<rparr>" "db' = db" by (simp_all add: save_run_def)
    with failed show ?thesis by blast
  next
    case (Inr p)
    obtain u db1 where p: "p = (u, db1)" by (cases p)
    from write_run_Inr [OF Inr [unfolded p]] obtain cur where rep: "replaced env db cur u db1" and id: "gr_id cur = gr_id (rn_row k)"
      and fence: "gr_status cur = ''running''" "gr_leaseToken cur = Some (rn_token k)"
      and two: "(same_core cur u \<and> dispatch_kind what \<and> gr_status u \<noteq> ''running'')
       \<or> (gr_sealed u = seal_state cur st \<and> gr_step u = written (pa_step patch) (gr_step cur)
          \<and> gr_spent u = written (pa_spent patch) (gr_spent cur) \<and> (pa_status patch = None \<longrightarrow> gr_status u = gr_status cur))"
      by auto
    have holds: "holds cur k" using id fence by (simp add: holds_def)
    have mem: "cur \<in> set (ad_runs db)" by (rule replaced_cur [OF rep])
    with rk act(1) holds have sync: "synced cur k" by (simp add: runner_ok_def)
    then have core: "same_core (rn_row k) cur" and sealed: "gr_sealed cur = seal_state cur st0"
      using act(2) st0 by (auto simp: synced_def)
    from ok mem obtain s where "row_state cur s" by (auto simp: db_ok_def)
    with sealed have rs: "row_state cur st0" by (simp add: row_state_def seal_state_def)
    from run False Inr p have k': "(k', db') = (if dispatch_kind what \<and> gr_status u \<noteq> ''running''
        then (k\<lparr>rn_row := u, rn_stage := StCatch (ConflictError ''Agent dispatch admission denied'')\<rparr>, db1)
        else (k\<lparr>rn_row := u, rn_state := Some st, rn_stage := nxt\<rparr>, db1))" by (simp add: save_run_def)
    from two show ?thesis
    proof
      assume s: "same_core cur u \<and> dispatch_kind what \<and> gr_status u \<noteq> ''running''"
      then have "owned_change env db k db' cur u"
        using rep holds k' same_core_forward row_state_cong [of cur u st0] rs by (auto simp: owned_change_def)
      with s k' denied show ?thesis by auto
    next
      assume w: "gr_sealed u = seal_state cur st \<and> gr_step u = written (pa_step patch) (gr_step cur)
          \<and> gr_spent u = written (pa_spent patch) (gr_spent cur) \<and> (pa_status patch = None \<longrightarrow> gr_status u = gr_status cur)"
      note idn = replaced_identity [OF rep]
      from good [OF rs core idn] w have g: "state_ok u st"
        "gr_step cur < gr_step u \<or> (gr_step cur = gr_step u \<and> rank (rs_phase st0) \<le> rank (rs_phase st))" by auto
      have su: "row_state u st" using w g(1) seal_state_cong [OF idn] by (simp add: row_state_def)
      have fw: "forward cur u" using g(2) sealed w by (auto simp: forward_def)
      have "\<not> (dispatch_kind what \<and> gr_status u \<noteq> ''running'')" using w disp fence by auto
      with k' have eq: "k' = k\<lparr>rn_row := u, rn_state := Some st, rn_stage := nxt\<rparr>" "db' = db1" by (auto split: if_splits)
      have "owned_change env db k db' cur u" using rep holds su fw eq by (auto simp: owned_change_def)
      with rs su w idn core eq saved show ?thesis by blast
    qed
  qed
qed

lemma runner_ok_catch:
  assumes "\<exists>r \<in> set (ad_runs db). identity r = identity (rn_row k)" and "\<not> active (rn_stage k)"
  shows "runner_ok db k"
  using assms by (cases "rn_stage k") (simp_all add: runner_ok_def stage_ok_def)

lemma runner_ok_saved:
  assumes ok: "db_ok env db" and rep: "replaced env db cur u db'" and st: "row_state u st"
    and k: "rn_row k = u" "rn_state k = Some st" "stage_ok k"
  shows "runner_ok db' k"
proof -
  have u: "u \<in> set (ad_runs db')" using replaced_mem [OF ok rep] by simp
  have "synced r k" if "r \<in> set (ad_runs db')" "holds r k" for r
  proof -
    from that(2) have "gr_id r = gr_id cur"
      using k(1) replaced_identity [OF rep] by (auto simp: holds_def identity_eq)
    from replaced_self [OF ok rep that(1) this] st k show ?thesis by (auto simp: synced_def row_state_def)
  qed
  with u k show ?thesis by (auto simp: runner_ok_def)
qed

text \<open>A save from a stage without a ticket, to a stage that either opens one or has none.\<close>

lemma save_moves:
  assumes ok: "db_ok env db" and rk: "runner_ok db k" and act: "active (rn_stage k)" "rn_stage k \<noteq> StBegin"
    and st0: "rn_state k = Some st0"
    and run: "save_run env inp k what ev st patch nxt db = (k', db')"
    and disp: "dispatch_kind what \<Longrightarrow> pa_status patch = None"
    and good: "\<And>cur u. row_state cur st0 \<Longrightarrow> same_core (rn_row k) cur \<Longrightarrow> identity u = identity cur \<Longrightarrow>
      gr_step u = written (pa_step patch) (gr_step cur) \<Longrightarrow> gr_spent u = written (pa_spent patch) (gr_spent cur) \<Longrightarrow>
      state_ok u st \<and> (gr_step cur < gr_step u \<or> (gr_step cur = gr_step u \<and> rank (rs_phase st0) \<le> rank (rs_phase st)))"
    and stage: "\<And>u. stage_ok (k\<lparr>rn_row := u, rn_state := Some st, rn_stage := nxt\<rparr>)"
    and calls: "tickets_of calls = ticket_of_runner k \<or> tickets_of calls = []"
    and new: "(nxt \<noteq> StSettle \<and> nxt \<noteq> StResult) \<or>
      (tickets_of calls = [] \<and> ticket_of_runner k = [] \<and> pa_step patch = None \<and>
       rank (rs_phase st0) < needed_rank (nxt = StSettle) \<and> needed_rank (nxt = StSettle) \<le> rank (rs_phase st))"
  shows "moved env db k k' db' calls"
proof (rule save_run_cases [OF ok rk act st0 run], goal_cases)
  case 1
  then show ?case by (rule disp)
next
  case (2 cur u)
  then show ?case by (rule good)
next
  case (3 e)
  note failed = 3
  have "ticket_of_runner k' = []" using failed by (simp add: ticket_of_runner_def split: option.splits)
  moreover have "runner_ok db' k'"
    using rk failed by (intro runner_ok_catch) (auto simp: runner_ok_def)
  ultimately show ?thesis using failed calls by (auto simp: moved_def)
next
  case (4 cur u e)
  note denied = 4
  note rep = denied(1) [unfolded owned_change_def, THEN conjunct1]
  have idu: "identity u = identity (rn_row k)"
  proof -
    have "holds cur k" using denied(1) by (simp add: owned_change_def)
    with rk act replaced_cur [OF rep] have "same_core (rn_row k) cur" by (auto simp: runner_ok_def synced_def)
    with denied(2) show ?thesis by (simp add: same_core_def)
  qed
  have "runner_ok db' k'"
    using rk denied(3) idu identity_kept [OF ok rep, of "identity u"]
    by (intro runner_ok_catch) (auto simp: runner_ok_def)
  moreover have "ticket_of_runner k' = []" using denied(3) by (simp add: ticket_of_runner_def split: option.splits)
  ultimately show ?thesis using denied idu calls unfolding moved_def by auto
next
  case (5 cur u)
  note saved = 5
  note rep = saved(1) [unfolded owned_change_def, THEN conjunct1]
  have idu: "identity u = identity (rn_row k)" using saved(5,6) by (simp add: same_core_def)
  have rk': "runner_ok db' k'"
    by (rule runner_ok_saved [OF ok rep saved(3)]) (use saved(7) stage in simp_all)
  have t: "tickets_of calls @ ticket_of_runner k' = ticket_of_runner k \<or> tickets_of calls @ ticket_of_runner k' = []
      \<or> (ticket_of_runner k = [] \<and> (\<exists>t. tickets_of calls @ ticket_of_runner k' = [t] \<and> opens_ticket cur u t))"
  proof (cases "nxt = StSettle \<or> nxt = StResult")
    case False
    then have "ticket_of_runner k' = []" using saved(7) by (simp add: ticket_of_runner_def split: option.splits)
    with calls show ?thesis by auto
  next
    case True
    with new have n: "tickets_of calls = []" "ticket_of_runner k = []" "pa_step patch = None"
      "rank (rs_phase st0) < needed_rank (nxt = StSettle)" "needed_rank (nxt = StSettle) \<le> rank (rs_phase st)" by auto
    from stage [of u] True obtain p where p: "rs_pending st = Some p" by (auto simp: stage_ok_def)
    have key: "pc_idempotencyKey p = step_key (gr_id u) (gr_step u)"
      using saved(3) p by (simp add: row_state_def state_ok_def phase_ok_def)
    have "ticket_of_runner k' = [(gr_id u, step_key (gr_id u) (gr_step u), nxt = StSettle)]"
      using saved(7) p key True by (auto simp: ticket_of_runner_def)
    moreover have "opens_ticket cur u (gr_id u, step_key (gr_id u) (gr_step u), nxt = StSettle)"
      using saved(2-4) n by (auto simp: opens_ticket_def row_state_def)
    ultimately show ?thesis using n by auto
  qed
  show ?thesis unfolding moved_def using saved(1,7) idu rk' t by auto
qed

section \<open>Every step of a runner\<close>

lemma moved_idle:
  assumes "runner_ok db k" and "rn_token k' = rn_token k" and "identity (rn_row k') = identity (rn_row k)"
    and "\<not> active (rn_stage k')" and "tickets_of calls = ticket_of_runner k \<or> tickets_of calls = []"
  shows "moved env db k k' db calls"
proof -
  have "ticket_of_runner k' = []" using assms(4) by (auto simp: ticket_of_runner_def split: option.splits)
  moreover have "runner_ok db k'" using assms(1,3,4) by (intro runner_ok_catch) (auto simp: runner_ok_def)
  ultimately show ?thesis using assms(2,3,5) by (auto simp: moved_def)
qed

lemma moved_on:
  assumes "runner_ok db k" and "rn_token k' = rn_token k" and "identity (rn_row k') = identity (rn_row k)"
    and "runner_ok db k'" and "ticket_of_runner k' = []" and "tickets_of calls = ticket_of_runner k \<or> tickets_of calls = []"
  shows "moved env db k k' db calls"
  using assms by (auto simp: moved_def)

lemma get_run_Inr: "get_run owner i now db = Inr row \<Longrightarrow> row \<in> set (ad_runs db) \<and> gr_id row = i"
  using assertRunFence_Inr select_row_Some [of "\<lambda>r. gr_id r = i \<and> gr_owner r = owner" "ad_runs db" row]
  unfolding get_run_def by blast

text \<open>Reading the row again keeps a runner in step.\<close>

lemma reread_ok:
  assumes ok: "db_ok env db" and rk: "runner_ok db k" and act: "active (rn_stage k)"
    and get: "get_run owner (gr_id (rn_row k)) now db = Inr row"
    and k': "rn_row k' = row" "rn_token k' = rn_token k" "stage_ok k'"
    and st: "\<And>r. r \<in> set (ad_runs db) \<Longrightarrow> synced r k \<Longrightarrow> gr_sealed r = gr_sealed row \<Longrightarrow>
      rn_stage k' = StBegin \<or> (\<exists>st. rn_state k' = Some st \<and> gr_sealed r = seal_state r st)"
  shows "identity row = identity (rn_row k) \<and> runner_ok db k'"
proof -
  note row = get_run_Inr [OF get]
  from rk obtain r where r: "r \<in> set (ad_runs db)" "identity r = identity (rn_row k)" by (auto simp: runner_ok_def)
  with row have "row = r" by (intro unique_runs [OF ok]) (auto simp: identity_eq)
  with r(2) have idn: "identity row = identity (rn_row k)" by simp
  have "synced q k'" if q: "q \<in> set (ad_runs db)" "holds q k'" for q
  proof -
    have "q = row" using q row k' by (intro unique_runs [OF ok]) (auto simp: holds_def)
    moreover have "holds q k" using q(2) k' row by (simp add: holds_def)
    with rk act q(1) have "synced q k" by (simp add: runner_ok_def)
    ultimately show ?thesis using st [OF q(1)] k'(1) by (auto simp: synced_def)
  qed
  with idn row k' show ?thesis by (auto simp: runner_ok_def)
qed

lemma check_stop_moves:
  assumes ok: "db_ok env db" and rk: "runner_ok db k" and act: "active (rn_stage k)" "rn_stage k \<noteq> StBegin"
    and st0: "rn_state k = Some st0" and run: "check_stop inp k nxt db = (k', db')"
    and nxt: "nxt \<in> {StPrepare, StPay, StInfer}" and none: "ticket_of_runner k = []"
  shows "moved env db k k' db' []"
proof (cases "get_run (gr_owner (rn_row k)) (gr_id (rn_row k)) (in_now inp) db")
  case (Inl e)
  with run rk show ?thesis by (auto simp: check_stop_def intro!: moved_idle)
next
  case (Inr row)
  let ?k = "k\<lparr>rn_row := row, rn_stage := (if must_stop (in_now inp) row then StStop else nxt)\<rparr>"
  have k': "k' = ?k" "db' = db" using run Inr by (simp_all add: check_stop_def)
  have "identity row = identity (rn_row k) \<and> runner_ok db ?k"
  proof (rule reread_ok [OF ok rk act(1) Inr])
    show "stage_ok ?k" using nxt st0 by (auto simp: stage_ok_def)
    show "rn_stage ?k = StBegin \<or> (\<exists>st. rn_state ?k = Some st \<and> gr_sealed r = seal_state r st)"
      if "synced r k" for r using that act(2) by (auto simp: synced_def)
  qed simp_all
  moreover have "ticket_of_runner ?k = []" using nxt by (auto simp: ticket_of_runner_def split: option.splits)
  ultimately show ?thesis unfolding k' by (intro moved_on [OF rk]) (simp_all add: none)
qed

lemma begin_step_moves:
  assumes ok: "db_ok env db" and rk: "runner_ok db k" and stage: "rn_stage k = StBegin"
    and run: "begin_step inp k db = (k', db')"
  shows "moved env db k k' db' []"
proof (cases "open_state (rn_row k)")
  case (Inl e)
  with run rk show ?thesis by (auto simp: begin_step_def intro!: moved_idle)
next
  case (Inr st)
  have none: "ticket_of_runner k = []" using stage by (simp add: ticket_of_runner_def split: option.splits)
  show ?thesis
  proof (cases "get_run (gr_owner (rn_row k)) (gr_id (rn_row k)) (in_now inp) db")
    case (Inl e)
    with run rk Inr show ?thesis by (auto simp: begin_step_def check_stop_def intro!: moved_idle)
  next
    case row: (Inr row)
    let ?k = "k\<lparr>rn_state := Some st, rn_row := row, rn_stage := (if must_stop (in_now inp) row then StStop else StPrepare)\<rparr>"
    have k': "k' = ?k" "db' = db" using run Inr row by (simp_all add: begin_step_def check_stop_def)
    have "active (rn_stage k)" using stage by simp
    have "identity row = identity (rn_row k) \<and> runner_ok db ?k"
    proof (rule reread_ok [OF ok rk \<open>active (rn_stage k)\<close> row])
      show "stage_ok ?k" by (auto simp: stage_ok_def)
      show "rn_stage ?k = StBegin \<or> (\<exists>st. rn_state ?k = Some st \<and> gr_sealed r = seal_state r st)"
        if r: "r \<in> set (ad_runs db)" "synced r k" for r
      proof -
        from ok r(1) obtain s where s: "row_state r s" by (auto simp: db_ok_def)
        have core: "same_core (rn_row k) r" using r(2) by (simp add: synced_def)
        then have "row_state (rn_row k) s" using s row_state_cong by blast
        with Inr have "s = st" using open_state_row by blast
        with s show ?thesis by (simp add: row_state_def)
      qed
    qed simp_all
    moreover have "ticket_of_runner ?k = []" by (auto simp: ticket_of_runner_def split: option.splits)
    ultimately show ?thesis unfolding k' by (intro moved_on [OF rk]) (simp_all add: none)
  qed
qed

lemma row_state_spent: "row_state cur st \<Longrightarrow> recorded_spend st = Some (gr_spent cur)"
  by (simp add: row_state_def state_ok_def metadata_match_def)

lemma prepare_step_moves:
  assumes ok: "db_ok env db" and rk: "runner_ok db k" and stage: "rn_stage k = StPrepare" and st0: "rn_state k = Some st"
    and run: "prepare_step env inp k st db = (k', db', calls)"
  shows "moved env db k k' db' calls"
proof -
  have none: "ticket_of_runner k = []" using stage by (simp add: ticket_of_runner_def split: option.splits)
  obtain a c where agent: "bounded env (in_now inp) (rn_row k) (GetAgent (rs_credential st) (gr_agentId (rn_row k))) (in_agent inp) = (a, c)"
    by fastforce
  have tc: "tickets_of c = []" using bounded_calls [OF agent] by auto
  show ?thesis
  proof (cases a)
    case (Inl e)
    with run agent have "k' = k\<lparr>rn_stage := StCatch e\<rparr>" "db' = db" "calls = c" by (simp_all add: prepare_step_def)
    with rk tc show ?thesis by (auto intro!: moved_idle)
  next
    case a: (Inr u)
    show ?thesis
    proof (cases "rs_pending st = None")
      case False
      with run agent a have k': "k' = k\<lparr>rn_stage := StChallenge\<rparr>" "db' = db" "calls = c" by (simp_all add: prepare_step_def)
      have "runner_ok db (k\<lparr>rn_stage := StChallenge\<rparr>)"
        using rk stage st0 by (auto simp: runner_ok_def stage_ok_def holds_def synced_def)
      then show ?thesis unfolding k' using rk tc
        by (intro moved_on) (simp_all add: none ticket_of_runner_def split: option.splits)
    next
      case True
      obtain b d where session: "bounded env (in_now inp) (rn_row k) (OpenSession (rs_credential st)) (in_session inp) = (b, d)"
        by fastforce
      have td: "tickets_of d = []" using bounded_calls [OF session] by auto
      show ?thesis
      proof (cases b)
        case (Inl e)
        with run agent a True session have "k' = k\<lparr>rn_stage := StCatch e\<rparr>" "db' = db" "calls = c @ d"
          by (simp_all add: prepare_step_def)
        with rk tc td show ?thesis by (auto intro!: moved_idle)
      next
        case s: (Inr s)
        let ?st = "st\<lparr>rs_pending := Some (prompt_for s (rn_row k)), rs_phase := Challenge\<rparr>"
        have save: "save_run env inp k ''step_prepared''
            (JObj [(''step'', JNum (gr_step (rn_row k) + 1)), (''idempotencyKey'', JStr (pc_idempotencyKey (prompt_for s (rn_row k))))])
            ?st no_patch StChallenge db = (k', db')" and calls: "calls = c @ d"
          using run agent a True session s by (auto simp: prepare_step_def Let_def split: prod.splits)
        show ?thesis
        proof (rule save_moves [OF ok rk _ _ st0 save])
          fix cur u assume cur: "row_state cur st" "same_core (rn_row k) cur" "identity u = identity cur"
            "gr_step u = written (pa_step no_patch) (gr_step cur)" "gr_spent u = written (pa_spent no_patch) (gr_spent cur)"
          have "recorded_spend ?st = recorded_spend st" using True by (simp add: recorded_spend_def prompt_for_def)
          then have "state_ok u ?st"
            using cur by (auto simp: row_state_def state_ok_def metadata_match_def phase_ok_def prompt_for_def step_key_def
                identity_eq same_core_def)
          moreover have "rs_phase st = Ready" using cur(1) True by (simp add: row_state_def state_ok_def phase_ok_def)
          ultimately show "state_ok u ?st \<and> (gr_step cur < gr_step u \<or> (gr_step cur = gr_step u \<and> rank (rs_phase st) \<le> rank (rs_phase ?st)))"
            using cur(4) by simp
        qed (use stage tc td none calls in \<open>auto simp: stage_ok_def\<close>)
      qed
    qed
  qed
qed

text \<open>Saves that leave the state as it is.\<close>

lemma save_same_moves:
  assumes ok: "db_ok env db" and rk: "runner_ok db k" and act: "active (rn_stage k)" "rn_stage k \<noteq> StBegin"
    and st0: "rn_state k = Some st" and run: "save_run env inp k what ev st patch StDone db = (k', db')"
    and patch: "pa_step patch = None" "pa_spent patch = None" and disp: "\<not> dispatch_kind what"
    and calls: "tickets_of calls = ticket_of_runner k \<or> tickets_of calls = []"
  shows "moved env db k k' db' calls"
proof (rule save_moves [OF ok rk act st0 run])
  fix cur u assume cur: "row_state cur st" "identity u = identity cur"
    "gr_step u = written (pa_step patch) (gr_step cur)" "gr_spent u = written (pa_spent patch) (gr_spent cur)"
  then have "state_ok u st" using patch state_ok_cong [of u cur st] by (simp add: row_state_def)
  with cur patch show "state_ok u st \<and> (gr_step cur < gr_step u \<or> (gr_step cur = gr_step u \<and> rank (rs_phase st) \<le> rank (rs_phase st)))"
    by simp
qed (use disp calls in \<open>auto simp: stage_ok_def\<close>)

lemma save_same_idle:
  assumes "moved env db k k' db' calls" and "rn_stage k' = StDone \<or> (\<exists>e. rn_stage k' = StCatch e)"
    and "rn_token k'' = rn_token k'" and "identity (rn_row k'') = identity (rn_row k')" and "\<not> active (rn_stage k'')"
  shows "moved env db k k'' db' calls"
proof -
  have "ticket_of_runner k' = []" "ticket_of_runner k'' = []" using assms(2,5) by (auto simp: ticket_of_runner_def split: option.splits)
  moreover have "runner_ok db' k''" using assms(1,4,5) by (intro runner_ok_catch) (auto simp: moved_def runner_ok_def)
  ultimately show ?thesis using assms(1,3,4) by (simp add: moved_def)
qed

lemma save_run_stage:
  "save_run env inp k what ev st patch StDone db = (k', db') \<Longrightarrow> rn_stage k' = StDone \<or> (\<exists>e. rn_stage k' = StCatch e)"
  by (auto simp: save_run_def split: if_splits sum.splits prod.splits)

lemma positive_decimal_pos: "positive_decimal s \<Longrightarrow> 0 < int (dec_number s)"
  by (simp add: positive_decimal_def)

lemma valid_challenge_pos: "valid_challenge env c = Some (pid, a) \<Longrightarrow> 0 < a"
  by (auto simp: valid_challenge_def positive_decimal_def split: list.splits if_splits)

lemma challenge_step_moves:
  assumes ok: "db_ok env db" and rk: "runner_ok db k" and stage: "rn_stage k = StChallenge" and st0: "rn_state k = Some st"
    and pending: "rs_pending st = Some p" and run: "challenge_step env inp k st p db = (k', db', calls)"
  shows "moved env db k k' db' calls"
proof -
  have none: "ticket_of_runner k = []" using stage by (simp add: ticket_of_runner_def split: option.splits)
  have act: "active (rn_stage k)" "rn_stage k \<noteq> StBegin" using stage by simp_all
  show ?thesis
  proof (cases "pc_expiresAt p \<le> in_now inp")
    case True
    then have "save_run env inp k ''session_expired'' (JObj []) st (ended_patch ''failed'' ''AGENT_SESSION_EXPIRED'') StDone db = (k', db')"
      "calls = []" using run by (auto simp: challenge_step_def Let_def split: prod.splits)
    then show ?thesis by (intro save_same_moves [OF ok rk act st0]) (auto simp: ended_patch_def dispatch_kind_def)
  next
    case live: False
    show ?thesis
    proof (cases "rs_phase st = Challenge")
      case False
      with live run have k': "k' = k\<lparr>rn_stage := StStopAgain\<rparr>" "db' = db" "calls = []" by (simp_all add: challenge_step_def)
      have "runner_ok db (k\<lparr>rn_stage := StStopAgain\<rparr>)"
        using rk stage st0 by (auto simp: runner_ok_def stage_ok_def holds_def synced_def)
      then show ?thesis unfolding k' using rk by (intro moved_on) (simp_all add: none ticket_of_runner_def split: option.splits)
    next
      case phase: True
      obtain a c where probe: "bounded env (in_now inp) (rn_row k) (ProbeInference (gr_id (rn_row k)) (pc_idempotencyKey p)) (in_probe inp) = (a, c)"
        by fastforce
      have tc: "tickets_of c = []" using bounded_calls [OF probe] by auto
      consider (done') e where "k' = k\<lparr>rn_stage := StCatch e\<rparr>" "db' = db" "calls = c"
        | (budget) "save_run env inp k ''budget_exhausted'' (JObj []) st (ended_patch ''exhausted'' ''AGENT_BUDGET_LIMIT'') StDone db = (k', db')" "calls = c"
        | (required) payment pid amount ev patch where "valid_challenge env payment = Some (pid, amount)"
            "save_run env inp k ''payment_required'' ev
               (st\<lparr>rs_pending := Some (p\<lparr>pc_paymentId := Some pid, pc_amountUnits := Some amount, pc_challenge := Some payment\<rparr>),
                   rs_phase := (if rt_mock env then PaymentReady else AwaitingPayment)\<rparr>) patch
               (if rt_mock env then StStopAgain else StDone) db = (k', db')"
            "pa_step patch = None" "pa_spent patch = None" "calls = c"
      proof (cases a)
        case (Inr u)
        with run live phase probe that(1) show ?thesis by (auto simp: challenge_step_def)
      next
        case (Inl e)
        show ?thesis
        proof (cases "\<exists>m payment. e = PaymentRequiredError m payment")
          case False
          then have "k' = k\<lparr>rn_stage := StCatch e\<rparr> \<and> db' = db \<and> calls = c"
            using run live phase probe Inl by (cases e) (auto simp: challenge_step_def)
          with that(1) show ?thesis by blast
        next
          case True
          then obtain m payment where e: "e = PaymentRequiredError m payment" by blast
          with run live phase probe Inl have pr: "payment_required_step env inp k st p payment db = (k', db')" "calls = c"
            by (auto simp: challenge_step_def Let_def split: prod.splits)
          show ?thesis
          proof (cases "valid_challenge env payment")
            case None
            with pr that(1) [of challenge_invalid] show ?thesis by (auto simp: payment_required_step_def)
          next
            case (Some v)
            obtain pid amount where v: "v = (pid, amount)" by (cases v)
            show ?thesis
            proof (cases "in_intent inp")
              case None
              with pr Some v that(1) [of challenge_invalid] show ?thesis by (auto simp: payment_required_step_def)
            next
              case intent: (Some i)
              consider "pi_status i \<noteq> ''open'' \<or> pi_amountUnits i \<noteq> amount"
                | "\<not> (pi_status i \<noteq> ''open'' \<or> pi_amountUnits i \<noteq> amount)" "amount + gr_spent (rn_row k) > gr_maxBudget (rn_row k)"
                | "\<not> (pi_status i \<noteq> ''open'' \<or> pi_amountUnits i \<noteq> amount)" "\<not> amount + gr_spent (rn_row k) > gr_maxBudget (rn_row k)"
                by blast
              then show ?thesis
              proof cases
                case 1
                with pr Some v intent that(1) [of challenge_invalid] show ?thesis by (simp add: payment_required_step_def)
              next
                case 2
                with pr Some v intent that(2) show ?thesis by (simp add: payment_required_step_def)
              next
                case 3
                let ?patch = "if rt_mock env then no_patch\<lparr>pa_paymentId := Some pid\<rparr>
                  else no_patch\<lparr>pa_paymentId := Some pid, pa_status := Some ''awaiting_payment'', pa_releaseLease := True\<rparr>"
                from 3 pr(1) Some v intent
                have "save_run env inp k ''payment_required''
                    (JObj [(''paymentId'', JStr pid), (''amountUnits'', JStr (int_dec amount))])
                    (st\<lparr>rs_pending := Some (p\<lparr>pc_paymentId := Some pid, pc_amountUnits := Some amount, pc_challenge := Some payment\<rparr>),
                        rs_phase := (if rt_mock env then PaymentReady else AwaitingPayment)\<rparr>) ?patch
                    (if rt_mock env then StStopAgain else StDone) db = (k', db')"
                  by (simp only: payment_required_step_def option.case prod.case if_False Let_def)
                with Some v pr(2) show ?thesis by (intro that(3)) auto
              qed
            qed
          qed
        qed
      qed
      then show ?thesis
      proof cases
        case done'
        with rk tc show ?thesis by (auto intro!: moved_idle)
      next
        case budget
        with tc show ?thesis by (intro save_same_moves [OF ok rk act st0]) (auto simp: ended_patch_def dispatch_kind_def)
      next
        case required
        let ?st = "st\<lparr>rs_pending := Some (p\<lparr>pc_paymentId := Some pid, pc_amountUnits := Some amount, pc_challenge := Some payment\<rparr>),
                   rs_phase := (if rt_mock env then PaymentReady else AwaitingPayment)\<rparr>"
        show ?thesis
        proof (rule save_moves [OF ok rk act st0 required(2)])
          fix cur u assume cur: "row_state cur st" "identity u = identity cur"
            "gr_step u = written (pa_step patch) (gr_step cur)" "gr_spent u = written (pa_spent patch) (gr_spent cur)"
          have po: "phase_ok cur st" using cur(1) by (simp add: row_state_def state_ok_def)
          then have "\<not> pc_paid p" using pending phase by (simp add: phase_ok_def)
          then have "recorded_spend ?st = recorded_spend st" using pending by (simp add: recorded_spend_def)
          moreover have "0 < amount" by (rule valid_challenge_pos [OF required(1)])
          ultimately have "state_ok u ?st"
            using cur po pending phase required(3,4) by (auto simp: row_state_def state_ok_def metadata_match_def phase_ok_def identity_eq)
          with cur(3) phase required(3) show "state_ok u ?st \<and> (gr_step cur < gr_step u
              \<or> (gr_step cur = gr_step u \<and> rank (rs_phase st) \<le> rank (rs_phase ?st)))" by simp
        qed (use stage tc none required(5) in \<open>auto simp: stage_ok_def dispatch_kind_def\<close>)
      qed
    qed
  qed
qed

lemma pay_run_step_moves:
  assumes ok: "db_ok env db" and rk: "runner_ok db k" and stage: "rn_stage k = StPay" and st0: "rn_state k = Some st"
    and pending: "rs_pending st = Some p" and run: "pay_run_step env inp k st p db = (k', db')"
  shows "moved env db k k' db' []"
proof -
  have none: "ticket_of_runner k = []" using stage by (simp add: ticket_of_runner_def split: option.splits)
  have act: "active (rn_stage k)" "rn_stage k \<noteq> StBegin" using stage by simp_all
  consider (skip) "rs_phase st \<noteq> PaymentReady" "k' = k\<lparr>rn_stage := StStopPaid\<rparr>" "db' = db"
    | (refused) e where "k' = k\<lparr>rn_stage := StCatch e\<rparr>" "db' = db"
    | (dispatch) ev where "rs_phase st = PaymentReady"
        "save_run env inp k ''settlement_dispatched'' ev (st\<lparr>rs_phase := SettlementDispatched\<rparr>) no_patch StSettle db = (k', db')"
    using run by (auto simp: pay_run_step_def split: if_splits option.splits)
  then show ?thesis
  proof cases
    case skip
    have "runner_ok db (k\<lparr>rn_stage := StStopPaid\<rparr>)"
      using rk stage st0 by (auto simp: runner_ok_def stage_ok_def holds_def synced_def)
    then show ?thesis unfolding skip using rk by (intro moved_on) (simp_all add: none ticket_of_runner_def split: option.splits)
  next
    case refused
    with rk show ?thesis by (auto intro!: moved_idle)
  next
    case dispatch
    show ?thesis
    proof (rule save_moves [OF ok rk act st0 dispatch(2)])
      fix cur u assume cur: "row_state cur st" "identity u = identity cur"
        "gr_step u = written (pa_step no_patch) (gr_step cur)" "gr_spent u = written (pa_spent no_patch) (gr_spent cur)"
      have "recorded_spend (st\<lparr>rs_phase := SettlementDispatched\<rparr>) = recorded_spend st" by (simp add: recorded_spend_def)
      then have "state_ok u (st\<lparr>rs_phase := SettlementDispatched\<rparr>)"
        using cur pending dispatch(1) by (auto simp: row_state_def state_ok_def metadata_match_def phase_ok_def identity_eq)
      with cur(3) dispatch(1) show "state_ok u (st\<lparr>rs_phase := SettlementDispatched\<rparr>) \<and> (gr_step cur < gr_step u
          \<or> (gr_step cur = gr_step u \<and> rank (rs_phase st) \<le> rank (rs_phase (st\<lparr>rs_phase := SettlementDispatched\<rparr>))))" by simp
    qed (use none pending dispatch(1) in \<open>auto simp: stage_ok_def needed_rank_def\<close>)
  qed
qed

lemma settled_state_ok:
  assumes "row_state cur st" and "rs_pending st = Some p" and "rs_phase st = SettlementDispatched"
    and "identity u = identity cur" and "gr_step u = gr_step cur" and "Some (gr_spent u - gr_spent cur) = pc_amountUnits p"
    and "pc_amountUnits q = pc_amountUnits p" and "pc_idempotencyKey q = pc_idempotencyKey p"
  shows "state_ok u (settled_state tx q st)"
proof -
  have po: "phase_ok cur st" and rs: "recorded_spend st = Some (gr_spent cur)"
    using assms(1) row_state_spent by (auto simp: row_state_def state_ok_def)
  then have "\<not> pc_paid p" using assms(2,3) by (simp add: phase_ok_def)
  with rs assms(2) have "sum_list (map se_amountUnits (rs_history st)) = gr_spent cur" by (simp add: recorded_spend_def)
  then have "recorded_spend (settled_state tx q st) = Some (gr_spent u)"
    using assms(6,7) by (simp add: recorded_spend_def settled_state_def flip: assms(6))
  with assms po show ?thesis
    by (auto simp: row_state_def state_ok_def metadata_match_def phase_ok_def identity_eq settled_state_def)
qed

lemma settle_run_step_moves:
  assumes ok: "db_ok env db" and rk: "runner_ok db k" and stage: "rn_stage k = StSettle" and st0: "rn_state k = Some st"
    and pending: "rs_pending st = Some p" and run: "settle_run_step env inp k st p db = (k', db', calls)"
  shows "moved env db k k' db' calls"
proof -
  have ticket: "ticket_of_runner k = [(gr_id (rn_row k), pc_idempotencyKey p, True)]"
    using stage st0 pending by (simp add: ticket_of_runner_def)
  have act: "active (rn_stage k)" "rn_stage k \<noteq> StBegin" using stage by simp_all
  have phase: "rs_phase st = SettlementDispatched" using rk stage st0 by (auto simp: runner_ok_def stage_ok_def)
  obtain a c where settle: "bounded env (in_now inp) (rn_row k) (SettlePayment (gr_id (rn_row k)) (pc_idempotencyKey p) (pc_paymentId p)) (in_settle inp) = (a, c)"
    by fastforce
  have tc: "tickets_of c = ticket_of_runner k \<or> tickets_of c = []" using bounded_calls [OF settle] ticket by auto
  consider (refused) e where "k' = k\<lparr>rn_stage := StCatch e\<rparr>" "db' = db" "calls = c"
    | (saved) ev tx where "save_run env inp k ''settlement_completed'' ev (settled_state tx (p\<lparr>pc_authorization := None\<rparr>) st)
         (no_patch\<lparr>pa_spent := Some (gr_spent (rn_row k) + written (pc_amountUnits p) 0)\<rparr>) StStopPaid db = (k', db')" "calls = c"
    using run settle by (auto simp: settle_run_step_def Let_def split: sum.splits prod.splits if_splits)
  then show ?thesis
  proof cases
    case refused
    with rk tc show ?thesis by (auto intro!: moved_idle)
  next
    case saved
    show ?thesis
    proof (rule save_moves [OF ok rk act st0 saved(1)])
      fix cur u assume cur: "row_state cur st" "same_core (rn_row k) cur" "identity u = identity cur"
        "gr_step u = written (pa_step (no_patch\<lparr>pa_spent := Some (gr_spent (rn_row k) + written (pc_amountUnits p) 0)\<rparr>)) (gr_step cur)"
        "gr_spent u = written (pa_spent (no_patch\<lparr>pa_spent := Some (gr_spent (rn_row k) + written (pc_amountUnits p) 0)\<rparr>)) (gr_spent cur)"
      from cur(1) pending phase obtain a where "pc_amountUnits p = Some a" by (auto simp: row_state_def state_ok_def phase_ok_def)
      with cur(2,5) have "Some (gr_spent u - gr_spent cur) = pc_amountUnits p" by (simp add: same_core_def)
      with settled_state_ok [OF cur(1) pending phase cur(3)] cur(4) phase
      show "state_ok u (settled_state tx (p\<lparr>pc_authorization := None\<rparr>) st) \<and> (gr_step cur < gr_step u
          \<or> (gr_step cur = gr_step u \<and> rank (rs_phase st) \<le> rank (rs_phase (settled_state tx (p\<lparr>pc_authorization := None\<rparr>) st))))"
        by (simp add: settled_state_def)
    qed (use tc saved(2) in \<open>auto simp: stage_ok_def dispatch_kind_def\<close>)
  qed
qed

lemma infer_run_step_moves:
  assumes ok: "db_ok env db" and rk: "runner_ok db k" and stage: "rn_stage k = StInfer" and st0: "rn_state k = Some st"
    and pending: "rs_pending st = Some p" and run: "infer_run_step env inp k st p db = (k', db')"
  shows "moved env db k k' db' []"
proof -
  have none: "ticket_of_runner k = []" using stage by (simp add: ticket_of_runner_def split: option.splits)
  have act: "active (rn_stage k)" "rn_stage k \<noteq> StBegin" using stage by simp_all
  consider (refused) e where "k' = k\<lparr>rn_stage := StCatch e\<rparr>" "db' = db"
    | (dispatch) ev where "rs_phase st = PaidUp"
        "save_run env inp k ''inference_dispatched'' ev (st\<lparr>rs_phase := InferenceDispatched\<rparr>) no_patch StResult db = (k', db')"
    using run by (auto simp: infer_run_step_def split: if_splits)
  then show ?thesis
  proof cases
    case refused
    with rk show ?thesis by (auto intro!: moved_idle)
  next
    case dispatch
    show ?thesis
    proof (rule save_moves [OF ok rk act st0 dispatch(2)])
      fix cur u assume cur: "row_state cur st" "identity u = identity cur"
        "gr_step u = written (pa_step no_patch) (gr_step cur)" "gr_spent u = written (pa_spent no_patch) (gr_spent cur)"
      have "recorded_spend (st\<lparr>rs_phase := InferenceDispatched\<rparr>) = recorded_spend st" by (simp add: recorded_spend_def)
      then have "state_ok u (st\<lparr>rs_phase := InferenceDispatched\<rparr>)"
        using cur pending dispatch(1) by (auto simp: row_state_def state_ok_def metadata_match_def phase_ok_def identity_eq)
      with cur(3) dispatch(1) show "state_ok u (st\<lparr>rs_phase := InferenceDispatched\<rparr>) \<and> (gr_step cur < gr_step u
          \<or> (gr_step cur = gr_step u \<and> rank (rs_phase st) \<le> rank (rs_phase (st\<lparr>rs_phase := InferenceDispatched\<rparr>))))" by simp
    qed (use none pending dispatch(1) in \<open>auto simp: stage_ok_def needed_rank_def\<close>)
  qed
qed

lemma result_run_step_moves:
  assumes ok: "db_ok env db" and rk: "runner_ok db k" and stage: "rn_stage k = StResult" and st0: "rn_state k = Some st"
    and pending: "rs_pending st = Some p" and run: "result_run_step env inp k p db = (k', db', calls)"
  shows "moved env db k k' db' calls"
proof -
  have ticket: "ticket_of_runner k = [(gr_id (rn_row k), pc_idempotencyKey p, False)]"
    using stage st0 pending by (simp add: ticket_of_runner_def)
  obtain a c where infer: "bounded env (in_now inp) (rn_row k) (PaidInference (gr_id (rn_row k)) (pc_paymentId p) (pc_idempotencyKey p)) (in_result inp) = (a, c)"
    by fastforce
  have tc: "tickets_of c = ticket_of_runner k \<or> tickets_of c = []" using bounded_calls [OF infer] ticket by auto
  consider (refused) e where "k' = k\<lparr>rn_stage := StCatch e\<rparr>" "db' = db" "calls = c"
    | (read) row result where "get_run (gr_owner (rn_row k)) (gr_id (rn_row k)) (in_now inp) db = Inr row"
        "k' = k\<lparr>rn_row := row, rn_stage := StComplete result\<rparr>" "db' = db" "calls = c"
  proof (cases a)
    case (Inl e)
    with run infer have "k' = k\<lparr>rn_stage := StCatch e\<rparr>" "db' = db" "calls = c" by (simp_all add: result_run_step_def)
    with that(1) show ?thesis by blast
  next
    case a: (Inr result)
    show ?thesis
    proof (cases "get_run (gr_owner (rn_row k)) (gr_id (rn_row k)) (in_now inp) db")
      case (Inl e)
      with a run infer have "k' = k\<lparr>rn_stage := StCatch e\<rparr>" "db' = db" "calls = c" by (simp_all add: result_run_step_def)
      with that(1) show ?thesis by blast
    next
      case (Inr row)
      with a run infer have "k' = k\<lparr>rn_row := row, rn_stage := StComplete result\<rparr>" "db' = db" "calls = c"
        by (simp_all add: result_run_step_def)
      with Inr that(2) show ?thesis by blast
    qed
  qed
  then show ?thesis
  proof cases
    case refused
    with rk tc show ?thesis by (auto intro!: moved_idle)
  next
    case read
    let ?k = "k\<lparr>rn_row := row, rn_stage := StComplete result\<rparr>"
    have act: "active (rn_stage k)" using stage by simp
    have "identity row = identity (rn_row k) \<and> runner_ok db ?k"
    proof (rule reread_ok [OF ok rk act read(1)])
      show "stage_ok ?k" using rk stage by (auto simp: runner_ok_def stage_ok_def)
      show "rn_stage ?k = StBegin \<or> (\<exists>st. rn_state ?k = Some st \<and> gr_sealed r = seal_state r st)" if "synced r k" for r
        using that stage by (auto simp: synced_def)
    qed simp_all
    with rk tc show ?thesis unfolding read(2-4)
      by (intro moved_on) (auto simp: ticket_of_runner_def split: option.splits)
  qed
qed

lemma finished_state_ok:
  assumes "row_state cur st" and "rs_pending st = Some p" and "rs_phase st = InferenceDispatched"
    and "identity u = identity cur" and "gr_step u = gr_step cur + 1" and "gr_spent u = gr_spent cur"
  shows "state_ok u (finished_state answer decision p st)"
proof -
  have po: "phase_ok cur st" and rs: "recorded_spend st = Some (gr_spent cur)"
    using assms(1) row_state_spent by (auto simp: row_state_def state_ok_def)
  then obtain a where "pc_paid p" "pc_amountUnits p = Some a" using assms(2,3) by (auto simp: phase_ok_def)
  with rs assms have "recorded_spend (finished_state answer decision p st) = Some (gr_spent u)"
    by (simp add: recorded_spend_def finished_state_def)
  with assms show ?thesis
    by (auto simp: row_state_def state_ok_def metadata_match_def phase_ok_def identity_eq finished_state_def)
qed

lemma complete_run_Inr:
  assumes "complete_run env fresh now row st result token expected db = Inr (u, db')"
  obtains answer decision p ev where "rs_pending st = Some p"
    "write_run env fresh now row ''inference_completed'' ev (finished_state answer decision p st)
       (finished_patch answer decision row) token db = Inr (u, db')"
  using assms unfolding complete_run_def Let_def
  by (elim rbind_InrE) (erule that [rotated], simp only: of_option_Inr_iff)

lemma complete_run_step_moves:
  assumes ok: "db_ok env db" and rk: "runner_ok db k" and stage: "rn_stage k = StComplete result" and st0: "rn_state k = Some st"
    and run: "complete_run_step env inp k st result db = (k', db')"
  shows "moved env db k k' db' []"
proof (cases "complete_run env (in_fresh inp) (in_now inp) (rn_row k) st result (Some (rn_token k)) None db")
  case (Inl e)
  with run rk show ?thesis by (auto simp: complete_run_step_def intro!: moved_idle)
next
  case (Inr v)
  obtain u db1 where v: "v = (u, db1)" by (cases v)
  with run Inr have k': "k' = k\<lparr>rn_row := u, rn_stage := StDone\<rparr>" "db' = db1" by (simp_all add: complete_run_step_def)
  from Inr v obtain answer decision p ev where p: "rs_pending st = Some p"
    and w: "write_run env (in_fresh inp) (in_now inp) (rn_row k) ''inference_completed'' ev (finished_state answer decision p st)
       (finished_patch answer decision (rn_row k)) (Some (rn_token k)) db = Inr (u, db1)"
    by (auto elim: complete_run_Inr)
  from write_run_Inr [OF w] obtain cur where rep: "replaced env db cur u db1" and id: "gr_id cur = gr_id (rn_row k)"
    and fence: "gr_status cur = ''running''" "gr_leaseToken cur = Some (rn_token k)"
    and new: "gr_sealed u = seal_state cur (finished_state answer decision p st)" "gr_step u = gr_step (rn_row k) + 1" "gr_spent u = gr_spent cur"
    by (auto simp: dispatch_kind_def finished_patch_def)
  have holds: "holds cur k" using id fence by (simp add: holds_def)
  note mem = replaced_cur [OF rep] and idn = replaced_identity [OF rep]
  from rk mem holds stage have core: "same_core (rn_row k) cur" and sealed: "gr_sealed cur = seal_state cur st"
    using st0 by (auto simp: runner_ok_def synced_def)
  from ok mem obtain s where "row_state cur s" by (auto simp: db_ok_def)
  with sealed have rs: "row_state cur st" by (simp add: row_state_def seal_state_def)
  have phase: "rs_phase st = InferenceDispatched" using rk stage st0 by (auto simp: runner_ok_def stage_ok_def)
  have step: "gr_step u = gr_step cur + 1" using new(2) core by (simp add: same_core_def)
  have "row_state u (finished_state answer decision p st)"
    using finished_state_ok [OF rs p phase idn step new(3)] new(1) seal_state_cong [OF idn] by (simp add: row_state_def)
  then have "owned_change env db k db' cur u" using rep holds step k'(2) by (auto simp: owned_change_def forward_def)
  moreover have "runner_ok db' k'"
    using identity_kept [OF ok rep, of "identity u"] mem idn k' by (intro runner_ok_catch) auto
  moreover have "identity u = identity (rn_row k)" using idn core by (simp add: same_core_def)
  ultimately show ?thesis using k' by (auto simp: moved_def ticket_of_runner_def split: option.splits)
qed

text \<open>A change whose patch leaves the state, the step and the spending alone.\<close>

lemma change_keeps:
  assumes "change_run i fence now mutate db = Inr (u, db')"
    and "\<And>cur patch act. mutate cur = Inr (patch, act) \<Longrightarrow> pa_step patch = None \<and> pa_spent patch = None \<and> pa_sealed patch = None
      \<and> (\<exists>f n w p. act = run_action env f n cur w p)"
  obtains cur patch act where "replaced env db cur u db'" "same_core cur u" "gr_id cur = i" "assertRunFence (Some cur) i fence now = Inr cur"
    "mutate cur = Inr (patch, act)"
proof -
  from change_run_Inr [OF assms(1)] obtain cur patch act where
    cur: "run_by_id i db = Some cur" and fence: "assertRunFence (Some cur) i fence now = Inr cur" and mut: "mutate cur = Inr (patch, act)"
    and u: "u = (apply_patch patch cur)\<lparr>gr_version := gr_version cur + 1, gr_updated := now, gr_ledgerSequence := ga_sequence act,
            gr_ledgerHead := ga_hash act\<rparr>"
    and rest: "run_checks u" "ad_runs db' = update_rows (\<lambda>r. gr_id r = i) (\<lambda>_. u) (ad_runs db)"
      "ad_actions db' = ad_actions db @ [act]" "ad_keys db' = ad_keys db"
    by blast
  from assms(2) [OF mut] obtain f n w p where patch: "pa_step patch = None" "pa_spent patch = None" "pa_sealed patch = None"
    and act: "act = run_action env f n cur w p" by blast
  have id: "gr_id cur = i" using run_by_id_Some [OF cur] by simp
  have core: "identity u = identity cur" "gr_leaseToken u = gr_leaseToken cur \<or> gr_leaseToken u = None"
    by (simp_all add: u identity_def)
  have led: "gr_ledgerHead u = ga_hash act" "gr_ledgerSequence u = ga_sequence act" by (simp_all add: u)
  have "replaced env db cur u db'" unfolding replaced_def Let_def using led rest(3)
    by (intro conjI exI [of _ f] exI [of _ n] exI [of _ w] exI [of _ p]) (simp_all only: act [symmetric] cur id core rest)
  moreover have "same_core cur u" using patch by (simp add: u same_core_def identity_def)
  ultimately show ?thesis using that id fence mut by blast
qed

lemma ended_patch_simps [simp]: "pa_step (ended_patch s c) = None" "pa_spent (ended_patch s c) = None" "pa_sealed (ended_patch s c) = None"
  by (simp_all add: ended_patch_def)

lemma runner_ok_row: "runner_ok db k \<Longrightarrow> \<exists>r \<in> set (ad_runs db). identity r = identity (rn_row k)"
  by (simp add: runner_ok_def)

lemma same_core_identity: "same_core a b \<Longrightarrow> identity a = identity b"
  by (simp add: same_core_def)

lemma replaced_row: "db_ok env db \<Longrightarrow> replaced env db cur u db' \<Longrightarrow> same_core cur u \<Longrightarrow> \<exists>st. row_state u st"
proof -
  assume ok: "db_ok env db" and rep: "replaced env db cur u db'" and core: "same_core cur u"
  from ok replaced_cur [OF rep] obtain st where "row_state cur st" by (auto simp: db_ok_def)
  then show ?thesis using row_state_cong [OF core] by blast
qed

lemma last_view_moves:
  assumes ok: "db_ok env db" and rk: "runner_ok db k" and none: "ticket_of_runner k = []"
  shows "moved env db k (last_view inp k db) db []"
proof (cases "get_run (gr_owner (rn_row k)) (gr_id (rn_row k)) (in_now inp) db")
  case (Inl e)
  with rk show ?thesis by (auto simp: last_view_def intro!: moved_idle)
next
  case (Inr row)
  from runner_ok_row [OF rk] obtain r where "r \<in> set (ad_runs db)" "identity r = identity (rn_row k)" by blast
  moreover from this get_run_Inr [OF Inr] have "row = r" by (intro unique_runs [OF ok]) (auto simp: identity_eq)
  ultimately show ?thesis using Inr rk by (auto simp: last_view_def intro!: moved_idle)
qed

lemma catch_step_moves:
  assumes ok: "db_ok env db" and rk: "runner_ok db k" and stage: "rn_stage k = StCatch e"
    and run: "catch_step env inp k e db = (k', db')"
  shows "moved env db k k' db' []"
proof -
  have none: "ticket_of_runner k = []" using stage by (simp add: ticket_of_runner_def split: option.splits)
  show ?thesis
  proof (cases "rn_state k")
    case None
    let ?c = "change_run (gr_id (rn_row k)) \<lparr>rf_owner = None, rf_token = Some (rn_token k), rf_version = None\<rparr> (in_now inp)
                  (\<lambda>current. Inr (ended_patch ''failed'' ''AGENT_STATE_UNAVAILABLE'',
                     run_action env (in_fresh inp) (in_now inp) current ''state_unavailable'' (JObj []))) db"
    show ?thesis
    proof (cases ?c)
      case (Inl e')
      with run None rk show ?thesis by (auto simp: catch_step_def intro!: moved_idle)
    next
      case (Inr v)
      obtain u db1 where v: "v = (u, db1)" by (cases v)
      with Inr None run have k': "k' = k\<lparr>rn_row := u, rn_stage := StDone\<rparr>" "db' = db1" by (simp_all add: catch_step_def)
      obtain cur where rep: "replaced env db cur u db1" and core: "same_core cur u" and id: "gr_id cur = gr_id (rn_row k)"
        and fence: "assertRunFence (Some cur) (gr_id (rn_row k)) \<lparr>rf_owner = None, rf_token = Some (rn_token k), rf_version = None\<rparr> (in_now inp) = Inr cur"
        by (rule change_keeps [OF Inr [unfolded v], where env = env]) (auto simp: ended_patch_simps)
      have holds: "holds cur k" using id fence_token [OF fence] by (simp add: holds_def)
      from runner_ok_row [OF rk] obtain r where r: "r \<in> set (ad_runs db)" "identity r = identity (rn_row k)" by blast
      with id replaced_cur [OF rep] have "cur = r" by (intro unique_runs [OF ok]) (auto simp: identity_eq)
      with r core have idu: "identity u = identity (rn_row k)" by (simp add: same_core_def)
      have "owned_change env db k db1 cur u"
        using rep holds replaced_row [OF ok rep core] same_core_forward [OF core] by (simp add: owned_change_def)
      moreover have "runner_ok db1 k'"
        using identity_kept [OF ok rep, of "identity u"] r idu k' by (intro runner_ok_catch) auto
      moreover have "ticket_of_runner k' = []" using k' by (simp add: ticket_of_runner_def split: option.splits)
      ultimately show ?thesis using k' idu none unfolding moved_def by auto
    qed
  next
    case (Some st0)
    show ?thesis
    proof (cases "is_conflict e \<or> rn_lost k")
      case True
      with run Some have "k' = last_view inp k db" "db' = db" by (auto simp: catch_step_def)
      with last_view_moves [OF ok rk none] show ?thesis by simp
    next
      case False
      show ?thesis
      proof (cases "rbind (get_run (gr_owner (rn_row k)) (gr_id (rn_row k)) (in_now inp) db) (\<lambda>row. rmap (Pair row) (open_state row))")
        case (Inl e')
        with run Some False rk show ?thesis by (auto simp: catch_step_def intro!: moved_idle)
      next
        case (Inr v)
        then obtain row where get: "get_run (gr_owner (rn_row k)) (gr_id (rn_row k)) (in_now inp) db = Inr row"
          and st: "rmap (Pair row) (open_state row) = Inr v" by (rule rbind_InrE)
        then obtain st where st: "open_state row = Inr st" "v = (row, st)" by (cases "open_state row") auto
        with run Some False Inr have k': "k' = k\<lparr>rn_row := row, rn_state := Some st, rn_stage := StReport\<rparr>" "db' = db"
          by (simp_all add: catch_step_def)
        from runner_ok_row [OF rk] obtain r where r: "r \<in> set (ad_runs db)" "identity r = identity (rn_row k)" by blast
        note row = get_run_Inr [OF get]
        with r have "row = r" by (intro unique_runs [OF ok]) (auto simp: identity_eq)
        with r have idn: "identity row = identity (rn_row k)" by simp
        have "synced q k'" if "q \<in> set (ad_runs db)" "holds q k'" for q
        proof -
          have q: "q = row" using that row k' by (intro unique_runs [OF ok]) (auto simp: holds_def)
          from ok row obtain s where s: "row_state row s" by (auto simp: db_ok_def)
          with st(1) have "s = st" using open_state_row by blast
          with s q k' show ?thesis by (simp add: synced_def row_state_def)
        qed
        then have "runner_ok db k'" using row k' by (auto simp: runner_ok_def stage_ok_def)
        moreover have "ticket_of_runner k' = []" using k' by (simp add: ticket_of_runner_def split: option.splits)
        ultimately show ?thesis using k' idn moved_on [OF rk, of k'] by (simp add: none)
      qed
    qed
  qed
qed

lemma report_step_moves:
  assumes ok: "db_ok env db" and rk: "runner_ok db k" and stage: "rn_stage k = StReport" and st0: "rn_state k = Some st"
    and run: "report_step env inp k st db = (k', db')"
  shows "moved env db k k' db' []"
proof -
  have act: "active (rn_stage k)" "rn_stage k \<noteq> StBegin" using stage by simp_all
  have none: "ticket_of_runner k = []" using stage by (simp add: ticket_of_runner_def split: option.splits)
  let ?what = "if uncertain (rs_phase st) then ''outcome_unknown'' else ''step_failed''"
  let ?patch = "if uncertain (rs_phase st) then ended_patch ''outcome_unknown'' ''AGENT_RECONCILIATION_REQUIRED''
             else ended_patch ''failed'' ''AGENT_STEP_FAILED''"
  obtain k1 db1 where save: "save_run env inp k ?what (JObj []) st ?patch StDone db = (k1, db1)" by fastforce
  have m: "moved env db k k1 db1 []"
    by (rule save_same_moves [OF ok rk act st0 save]) (auto simp: dispatch_kind_def)
  from save_run_stage [OF save] show ?thesis
  proof
    assume d: "rn_stage k1 = StDone"
    with run save have "k' = k1" "db' = db1" by (simp_all add: report_step_def)
    with m show ?thesis by simp
  next
    assume "\<exists>e. rn_stage k1 = StCatch e"
    then obtain e where e: "rn_stage k1 = StCatch e" by blast
    show ?thesis
    proof (cases "is_conflict e")
      case False
      with run save e have "k' = k1\<lparr>rn_stage := StDone, rn_thrown := Some e\<rparr>" "db' = db1" by (simp_all add: report_step_def)
      with e save_same_idle [OF m, of k'] show ?thesis by simp
    next
      case True
      with run save e have k': "k' = last_view inp k1 db1" "db' = db1" by (auto simp: report_step_def)
      have ident: "identity (rn_row (last_view inp k1 db1)) = identity (rn_row k1)"
      proof (cases "get_run (gr_owner (rn_row k1)) (gr_id (rn_row k1)) (in_now inp) db1")
        case (Inr row)
        have ok1: "db_ok env db1"
          using m ok db_ok_replaced [OF ok] by (auto simp: moved_def owned_change_def)
        have "runner_ok db1 k1" using m by (simp add: moved_def)
        from runner_ok_row [OF this] obtain r where "r \<in> set (ad_runs db1)" "identity r = identity (rn_row k1)" by blast
        moreover from this get_run_Inr [OF Inr] have "row = r" by (intro unique_runs [OF ok1]) (auto simp: identity_eq)
        ultimately show ?thesis using Inr by (simp add: last_view_def)
      qed (simp add: last_view_def)
      have "\<not> active (rn_stage (last_view inp k1 db1))" "rn_token (last_view inp k1 db1) = rn_token k1"
        by (simp_all add: last_view_def split: sum.splits)
      with ident e show ?thesis unfolding k' by (intro save_same_idle [OF m]) simp_all
    qed
  qed
qed

lemma moved_quiet:
  assumes "(\<lambda>(k', db'). (k', db', [])) f = (k', db', calls)" and "f = (k', db') \<Longrightarrow> moved env db k k' db' []"
  shows "moved env db k k' db' calls"
  using assms by (cases f) auto

text \<open>The step of a runner, at every stage.\<close>

lemma run_step_moves:
  assumes ok: "db_ok env db" and rk: "runner_ok db k" and run: "run_step env inp k db = (k', db', calls)"
  shows "moved env db k k' db' calls"
proof (cases "rn_stage k = StDone \<or> rn_stage k = StBegin \<or> (\<exists>e. rn_stage k = StCatch e)")
  case True
  then consider "rn_stage k = StDone" | "rn_stage k = StBegin" | e where "rn_stage k = StCatch e" by blast
  then show ?thesis
  proof cases
    case 1
    with run have "k' = k" "db' = db" "calls = []" by (simp_all add: run_step_def)
    with 1 rk show ?thesis by (auto intro!: moved_idle)
  next
    case 2
    with run have "(\<lambda>(k', db'). (k', db', [])) (begin_step inp k db) = (k', db', calls)" by (simp add: run_step_def)
    then show ?thesis by (rule moved_quiet) (rule begin_step_moves [OF ok rk 2])
  next
    case 3
    with run have "(\<lambda>(k', db'). (k', db', [])) (catch_step env inp k e db) = (k', db', calls)" by (simp add: run_step_def)
    then show ?thesis by (rule moved_quiet) (rule catch_step_moves [OF ok rk 3])
  qed
next
  case False
  then have act: "active (rn_stage k)" "rn_stage k \<noteq> StBegin" by (cases "rn_stage k"; simp)+
  with rk obtain st where st: "rn_state k = Some st" by (auto simp: runner_ok_def stage_ok_def)
  show ?thesis
  proof (cases "rn_stage k \<in> {StStop, StPrepare, StStopAgain, StStopPaid, StReport}")
    case True
    then have none: "ticket_of_runner k = []" by (auto simp: ticket_of_runner_def split: option.splits)
    from True consider "rn_stage k = StStop" | "rn_stage k = StPrepare" | "rn_stage k = StStopAgain" | "rn_stage k = StStopPaid"
      | "rn_stage k = StReport" by blast
    then show ?thesis
    proof cases
      case 1
      with run st have "(\<lambda>(k', db'). (k', db', [])) (save_run env inp k ''stopped'' (JObj []) st (stop_patch (rn_row k)) StDone db) = (k', db', calls)"
        by (simp add: run_step_def)
      then show ?thesis
        by (rule moved_quiet) (rule save_same_moves [OF ok rk act st], auto simp: stop_patch_def dispatch_kind_def)
    next
      case 2
      with run st have "prepare_step env inp k st db = (k', db', calls)" by (simp add: run_step_def)
      then show ?thesis by (rule prepare_step_moves [OF ok rk 2 st])
    next
      case 3
      with run st have "(\<lambda>(k', db'). (k', db', [])) (check_stop inp k StPay db) = (k', db', calls)" by (simp add: run_step_def)
      then show ?thesis by (rule moved_quiet) (rule check_stop_moves [OF ok rk act st _ _ none], assumption, simp)
    next
      case 4
      with run st have "(\<lambda>(k', db'). (k', db', [])) (check_stop inp k StInfer db) = (k', db', calls)" by (simp add: run_step_def)
      then show ?thesis by (rule moved_quiet) (rule check_stop_moves [OF ok rk act st _ _ none], assumption, simp)
    next
      case 5
      with run st have "(\<lambda>(k', db'). (k', db', [])) (report_step env inp k st db) = (k', db', calls)" by (simp add: run_step_def)
      then show ?thesis by (rule moved_quiet) (rule report_step_moves [OF ok rk 5 st])
    qed
  next
    case other: False
    show ?thesis
    proof (cases "rs_pending st")
      case None
      have "k' = k\<lparr>rn_stage := StCatch (PlainError ''Cannot read properties of undefined'')\<rparr> \<and> db' = db \<and> calls = []"
        using act other run st None by (cases "rn_stage k") (simp_all add: run_step_def)
      with rk show ?thesis by (auto intro!: moved_idle)
    next
      case (Some p)
      from act other consider "rn_stage k = StChallenge" | "rn_stage k = StPay" | "rn_stage k = StSettle" | "rn_stage k = StInfer"
        | "rn_stage k = StResult" | result where "rn_stage k = StComplete result" by (cases "rn_stage k") auto
      then show ?thesis
      proof cases
        case 1
        with run st Some have "challenge_step env inp k st p db = (k', db', calls)" by (simp add: run_step_def)
        then show ?thesis by (rule challenge_step_moves [OF ok rk 1 st Some])
      next
        case 2
        with run st Some have "(\<lambda>(k', db'). (k', db', [])) (pay_run_step env inp k st p db) = (k', db', calls)" by (simp add: run_step_def)
        then show ?thesis by (rule moved_quiet) (rule pay_run_step_moves [OF ok rk 2 st Some])
      next
        case 3
        with run st Some have "settle_run_step env inp k st p db = (k', db', calls)" by (simp add: run_step_def)
        then show ?thesis by (rule settle_run_step_moves [OF ok rk 3 st Some])
      next
        case 4
        with run st Some have "(\<lambda>(k', db'). (k', db', [])) (infer_run_step env inp k st p db) = (k', db', calls)" by (simp add: run_step_def)
        then show ?thesis by (rule moved_quiet) (rule infer_run_step_moves [OF ok rk 4 st Some])
      next
        case 5
        with run st Some have "result_run_step env inp k p db = (k', db', calls)" by (simp add: run_step_def)
        then show ?thesis by (rule result_run_step_moves [OF ok rk 5 st Some])
      next
        case 6
        with run st Some have "(\<lambda>(k', db'). (k', db', [])) (complete_run_step env inp k st result db) = (k', db', calls)" by (simp add: run_step_def)
        then show ?thesis by (rule moved_quiet) (rule complete_run_step_moves [OF ok rk 6 st])
      qed
    qed
  qed
qed

end
