(* ===== verification/Agent_System.thy ===== *)
theory Agent_System
  imports Agent_Run_Safety
begin

text \<open>
  The agent runtime as a system: the shared tables, the runners that hold or held a lease, and the calls of
  the gateway made so far. A step is one transaction of a client (create, cancel, resume), of the lease sweep,
  of a claim or a heartbeat, or one step of one runner; runners may stop for ever at any point.
\<close>

section \<open>Steps\<close>

record agent_sys =
  gs_db :: agent_db
  gs_runners :: "runner list"
  gs_tokens :: "string set"
  gs_effects :: "effect list"

definition agent_start :: "agent_sys \<Rightarrow> bool" where
  "agent_start s \<longleftrightarrow> ad_runs (gs_db s) = [] \<and> ad_actions (gs_db s) = [] \<and> gs_runners s = [] \<and> gs_effects s = []"

inductive agent_step :: "runtime_env \<Rightarrow> agent_sys \<Rightarrow> agent_sys \<Rightarrow> bool" for env :: runtime_env where
  keyed: "agent_step env s (s\<lparr>gs_db := gs_db s\<lparr>ad_keys := keys\<rparr>\<rparr>)"
| created: "create_run env i f now answer key input (gs_db s) = Inr (v, db) \<Longrightarrow> agent_step env s (s\<lparr>gs_db := db\<rparr>)"
| cancelled: "cancel_run env f now key i (gs_db s) = Inr (v, db) \<Longrightarrow> agent_step env s (s\<lparr>gs_db := db\<rparr>)"
| resumed: "resume_run env f now key i auth recorded intent (gs_db s) = Inr (v, db) \<Longrightarrow> agent_step env s (s\<lparr>gs_db := db\<rparr>)"
| expired: "expire_run env f now row (gs_db s) = Inr (u, db) \<Longrightarrow> agent_step env s (s\<lparr>gs_db := db\<rparr>)"
| claimed: "claim_run locked token now (rt_lease env) (gs_db s) = (Some row, db) \<Longrightarrow> token \<notin> gs_tokens s \<Longrightarrow>
    agent_step env s (s\<lparr>gs_db := db, gs_runners := gs_runners s @ [start_runner token row], gs_tokens := insert token (gs_tokens s)\<rparr>)"
| renewed: "heartbeat_run i token now (rt_lease env) (gs_db s) = (b, db) \<Longrightarrow> agent_step env s (s\<lparr>gs_db := db\<rparr>)"
| lost: "gs_runners s = pre @ k # post \<Longrightarrow> agent_step env s (s\<lparr>gs_runners := pre @ k\<lparr>rn_lost := True\<rparr> # post\<rparr>)"
| ran: "gs_runners s = pre @ k # post \<Longrightarrow> run_step env inp k (gs_db s) = (k', db, calls) \<Longrightarrow>
    agent_step env s (s\<lparr>gs_db := db, gs_runners := pre @ k' # post, gs_effects := gs_effects s @ calls\<rparr>)"

inductive_cases agent_stepE: "agent_step env s t"

section \<open>Invariant\<close>

definition ticket_valid :: "agent_db \<Rightarrow> ticket \<Rightarrow> bool" where
  "ticket_valid db t \<longleftrightarrow> (\<exists>r \<in> set (ad_runs db). \<exists>m b. t = (gr_id r, step_key (gr_id r) m, b) \<and> 0 \<le> m
     \<and> (m < gr_step r \<or> (m = gr_step r \<and> needed_rank b \<le> row_phase r)))"

definition all_tickets :: "runner list \<Rightarrow> effect list \<Rightarrow> ticket list" where
  "all_tickets runners effects = tickets_of effects @ concat (map ticket_of_runner runners)"

definition leases_known :: "string set \<Rightarrow> agent_db \<Rightarrow> bool" where
  "leases_known tokens db \<longleftrightarrow> (\<forall>r \<in> set (ad_runs db). \<forall>t. gr_leaseToken r = Some t \<longrightarrow> t \<in> tokens)"

definition agent_ok :: "runtime_env \<Rightarrow> agent_sys \<Rightarrow> bool" where
  "agent_ok env s \<longleftrightarrow> db_ok env (gs_db s)
     \<and> (\<forall>k \<in> set (gs_runners s). runner_ok (gs_db s) k \<and> rn_token k \<in> gs_tokens s)
     \<and> distinct (map rn_token (gs_runners s)) \<and> leases_known (gs_tokens s) (gs_db s)
     \<and> distinct (all_tickets (gs_runners s) (gs_effects s))
     \<and> (\<forall>t \<in> set (all_tickets (gs_runners s) (gs_effects s)). ticket_valid (gs_db s) t)"

lemma agent_okI:
  assumes "db_ok env (gs_db s)" and "\<And>k. k \<in> set (gs_runners s) \<Longrightarrow> runner_ok (gs_db s) k \<and> rn_token k \<in> gs_tokens s"
    and "distinct (map rn_token (gs_runners s))" and "leases_known (gs_tokens s) (gs_db s)"
    and "distinct (all_tickets (gs_runners s) (gs_effects s))"
    and "\<And>t. t \<in> set (all_tickets (gs_runners s) (gs_effects s)) \<Longrightarrow> ticket_valid (gs_db s) t"
  shows "agent_ok env s"
  using assms by (simp add: agent_ok_def)

lemma forward_ticket:
  assumes ok: "db_ok env db" and rep: "replaced env db cur u db'" and fw: "forward cur u" and t: "ticket_valid db t"
  shows "ticket_valid db' t"
proof -
  from t obtain r m b where r: "r \<in> set (ad_runs db)" "t = (gr_id r, step_key (gr_id r) m, b)" "0 \<le> m"
    "m < gr_step r \<or> (m = gr_step r \<and> needed_rank b \<le> row_phase r)" by (auto simp: ticket_valid_def)
  note mem = replaced_mem [OF ok rep]
  show ?thesis
  proof (cases "r = cur")
    case False
    with r mem show ?thesis by (auto simp: ticket_valid_def)
  next
    case True
    have "gr_id u = gr_id r" using replaced_identity [OF rep] True by (simp add: identity_eq)
    moreover have "m < gr_step u \<or> (m = gr_step u \<and> needed_rank b \<le> row_phase u)"
      using r(4) fw True by (auto simp: forward_def)
    ultimately show ?thesis using r mem unfolding ticket_valid_def by metis
  qed
qed

lemma leases_replaced:
  "db_ok env db \<Longrightarrow> replaced env db cur u db' \<Longrightarrow> leases_known tokens db \<Longrightarrow> leases_known tokens db'"
  using replaced_mem [of env db cur u db'] replaced_cur [of env db cur u db']
  by (auto simp: leases_known_def replaced_def)

text \<open>A change of the row \<open>cur\<close> that leaves the runner \<open>k\<close> in step: \<open>k\<close> does not hold the new row, or nothing it
  works from has changed.\<close>

lemma other_runner_ok:
  assumes ok: "db_ok env db" and rep: "replaced env db cur u db'" and rk: "runner_ok db k"
    and still: "holds u k \<Longrightarrow> holds cur k \<and> same_core cur u"
  shows "runner_ok db' k"
proof -
  have "synced r k" if act: "active (rn_stage k)" and r: "r \<in> set (ad_runs db')" "holds r k" for r
  proof (cases "r = u")
    case True
    with still r have h: "holds cur k" and core: "same_core cur u" by auto
    with rk act replaced_cur [OF rep] have s: "synced cur k" by (simp add: runner_ok_def)
    have "seal_state u st = seal_state cur st" for st using core by (intro seal_state_cong) (simp add: same_core_def)
    with s core True show ?thesis by (auto simp: synced_def same_core_def)
  next
    case False
    with replaced_mem [OF ok rep] r rk act show ?thesis by (auto simp: runner_ok_def)
  qed
  with rk identity_kept [OF ok rep] show ?thesis by (simp add: runner_ok_def)
qed

text \<open>A change nobody holds the lease for: a client's, or the sweep's.\<close>

definition client_change :: "runtime_env \<Rightarrow> agent_db \<Rightarrow> agent_db \<Rightarrow> bool" where
  "client_change env db db' \<longleftrightarrow> (\<exists>cur u. replaced env db cur u db' \<and> (\<exists>st. row_state u st) \<and> forward cur u
     \<and> (gr_status u = ''running'' \<longrightarrow> gr_status cur = ''running'' \<and> same_core cur u))"

lemma client_change_ok:
  assumes ok: "agent_ok env s" and change: "client_change env (gs_db s) db"
  shows "agent_ok env (s\<lparr>gs_db := db\<rparr>)"
proof -
  from change obtain cur u where rep: "replaced env (gs_db s) cur u db" and st: "\<exists>st. row_state u st" and fw: "forward cur u"
    and run: "gr_status u = ''running'' \<Longrightarrow> gr_status cur = ''running'' \<and> same_core cur u" by (auto simp: client_change_def)
  have d: "db_ok env (gs_db s)" using ok by (simp add: agent_ok_def)
  have still: "holds cur k \<and> same_core cur u" if "holds u k" for k
    using that run rep replaced_identity [OF rep] by (auto simp: holds_def replaced_def identity_eq)
  have "db_ok env db" using db_ok_replaced [OF d rep] st by blast
  moreover have "runner_ok db k" if "runner_ok (gs_db s) k" for k by (rule other_runner_ok [OF d rep that still])
  ultimately show ?thesis
    using ok leases_replaced [OF d rep] forward_ticket [OF d rep fw] by (intro agent_okI) (simp_all add: agent_ok_def)
qed

section \<open>Clients\<close>

lemma write_run_status:
  assumes "write_run env fresh now row what event st patch token db = Inr (u, db')" and "\<not> dispatch_kind what" and "pa_status patch = Some s"
  shows "gr_status u = s \<or> gr_status u = ''cancelled''"
proof -
  from change_run_Inr [OF assms(1) [unfolded write_run_def]] obtain cur p act where
    mut: "write_mutation env fresh now what event st patch cur = Inr (p, act)"
    and u: "u = (apply_patch p cur)\<lparr>gr_version := gr_version cur + 1, gr_updated := now, gr_ledgerSequence := ga_sequence act,
            gr_ledgerHead := ga_hash act\<rparr>" by blast
  from mut assms(2,3) have "pa_status p = Some s \<or> pa_status p = Some ''cancelled''" by (auto simp: write_mutation_def)
  then show ?thesis by (auto simp: u)
qed

text \<open>A write of a client, on a row of the same transaction.\<close>

lemma client_write:
  assumes ok: "db_ok env db" and mem: "row \<in> set (ad_runs db)" and st0: "open_state row = Inr st0" and disp: "\<not> dispatch_kind what"
    and run: "write_run env fresh now row what event st patch None db = Inr (u, db')"
    and good: "\<And>u. identity u = identity row \<Longrightarrow> row_state row st0 \<Longrightarrow> gr_step u = written (pa_step patch) (gr_step row) \<Longrightarrow>
      gr_spent u = written (pa_spent patch) (gr_spent row) \<Longrightarrow>
      state_ok u st \<and> (gr_step row < gr_step u \<or> (gr_step row = gr_step u \<and> rank (rs_phase st0) \<le> rank (rs_phase st)))"
    and status: "(\<exists>s. pa_status patch = Some s \<and> s \<noteq> ''running'') \<or> (pa_step patch = None \<and> pa_spent patch = None \<and> pa_status patch = None \<and> st = st0)"
  shows "client_change env db db'"
proof -
  from write_run_Inr [OF run] disp obtain cur where rep: "replaced env db cur u db'" and id: "gr_id cur = gr_id row"
    and w: "gr_sealed u = seal_state cur st" "gr_step u = written (pa_step patch) (gr_step cur)" "gr_spent u = written (pa_spent patch) (gr_spent cur)"
      "pa_status patch = None \<longrightarrow> gr_status u = gr_status cur" by auto
  have cur: "cur = row" using unique_runs [OF ok replaced_cur [OF rep] mem id] .
  note idn = replaced_identity [OF rep]
  from ok mem obtain s where "row_state row s" by (auto simp: db_ok_def)
  with st0 have rs: "row_state row st0" using open_state_row by blast
  from good [OF idn [unfolded cur] rs] w cur have g: "state_ok u st"
    "gr_step row < gr_step u \<or> (gr_step row = gr_step u \<and> rank (rs_phase st0) \<le> rank (rs_phase st))" by auto
  have "row_state u st" using w(1) g(1) seal_state_cong [OF idn] by (simp add: row_state_def)
  moreover have "forward cur u" using g(2) rs w(1) cur by (auto simp: forward_def row_state_def)
  moreover have "gr_status cur = ''running'' \<and> same_core cur u" if "gr_status u = ''running''"
  proof -
    from status that write_run_status [OF run disp] have "pa_step patch = None \<and> pa_spent patch = None \<and> pa_status patch = None \<and> st = st0"
      by auto
    with w rs cur idn that show ?thesis by (simp add: same_core_def row_state_def)
  qed
  ultimately show ?thesis using rep by (auto simp: client_change_def)
qed

text \<open>The writes of a client that leave the state as it is.\<close>

lemma client_write_same:
  assumes "db_ok env db" and "row \<in> set (ad_runs db)" and "open_state row = Inr st" and "\<not> dispatch_kind what"
    and "write_run env fresh now row what event st patch None db = Inr (u, db')"
    and "pa_step patch = None" and "pa_spent patch = None" and "case pa_status patch of Some s \<Rightarrow> s \<noteq> ''running'' | None \<Rightarrow> True"
  shows "client_change env db db'"
proof (rule client_write [OF assms(1-5)])
  fix u assume "identity u = identity row" "row_state row st" "gr_step u = written (pa_step patch) (gr_step row)"
    "gr_spent u = written (pa_spent patch) (gr_spent row)"
  with assms(6,7) show "state_ok u st \<and> (gr_step row < gr_step u \<or> (gr_step row = gr_step u \<and> rank (rs_phase st) \<le> rank (rs_phase st)))"
    using state_ok_cong [of u row st] by (simp add: row_state_def)
qed (use assms(6-8) in \<open>auto split: option.splits\<close>)

lemma cancel_change:
  assumes ok: "db_ok env db" and run: "cancel_run env f now key i db = Inr (v, db')"
  shows "db' = db \<or> client_change env db db'"
proof -
  from run obtain owner row where get: "get_run owner i now db = Inr row"
    and rest: "(if terminal (gr_status row) \<or> gr_cancelRequested row then Inr (run_view_of row, db)
     else rbind (open_state row) (\<lambda>st.
       rbind (write_run env f now row ''cancel_requested'' (JObj []) st
         (if gr_status row = ''running'' \<or> gr_status row = ''outcome_unknown'' then no_patch\<lparr>pa_cancel := True\<rparr>
          else no_patch\<lparr>pa_cancel := True, pa_status := Some ''cancelled'', pa_releaseLease := True\<rparr>) None db) (\<lambda>(next_row, db').
       Inr (run_view_of next_row, db')))) = Inr (v, db')"
    unfolding cancel_run_def by (elim rbind_InrE) blast
  note mem = get_run_Inr [OF get, THEN conjunct1]
  show ?thesis
  proof (cases "terminal (gr_status row) \<or> gr_cancelRequested row")
    case True
    with rest show ?thesis by simp
  next
    case False
    let ?patch = "if gr_status row = ''running'' \<or> gr_status row = ''outcome_unknown'' then no_patch\<lparr>pa_cancel := True\<rparr>
          else no_patch\<lparr>pa_cancel := True, pa_status := Some ''cancelled'', pa_releaseLease := True\<rparr>"
    from rest False obtain st w where st: "open_state row = Inr st"
      and wr: "write_run env f now row ''cancel_requested'' (JObj []) st ?patch None db = Inr w"
      and w: "(\<lambda>(next_row, db'). Inr (run_view_of next_row, db')) w = (Inr (v, db') :: enclave_error + _)"
      by (simp only: if_False) (elim rbind_InrE, blast)
    from w obtain u where "w = (u, db')" by (cases w) auto
    from client_write_same [OF ok mem st _ wr [unfolded this]] show ?thesis
      by (simp add: dispatch_kind_def split: if_splits)
  qed
qed

lemma finished_status_idle: "finished_status decision row \<noteq> ''running''"
  by (auto simp: finished_status_def split: option.splits)

lemma complete_change:
  assumes ok: "db_ok env db" and mem: "row \<in> set (ad_runs db)" and st: "open_state row = Inr st" and phase: "rs_phase st = InferenceDispatched"
    and run: "complete_run env f now row st result None expected db = Inr (u, db')"
  shows "client_change env db db'"
proof -
  from run obtain answer decision p ev where p: "rs_pending st = Some p"
    and wr: "write_run env f now row ''inference_completed'' ev (finished_state answer decision p st) (finished_patch answer decision row) None db = Inr (u, db')"
    by (rule complete_run_Inr)
  show ?thesis
  proof (rule client_write [OF ok mem st _ wr])
    fix u assume u: "identity u = identity row" "row_state row st" "gr_step u = written (pa_step (finished_patch answer decision row)) (gr_step row)"
      "gr_spent u = written (pa_spent (finished_patch answer decision row)) (gr_spent row)"
    then have "gr_step u = gr_step row + 1" "gr_spent u = gr_spent row" by (simp_all add: finished_patch_def)
    with finished_state_ok [OF u(2) p phase u(1)]
    show "state_ok u (finished_state answer decision p st) \<and> (gr_step row < gr_step u
        \<or> (gr_step row = gr_step u \<and> rank (rs_phase st) \<le> rank (rs_phase (finished_state answer decision p st))))" by simp
  qed (auto simp: dispatch_kind_def finished_patch_def finished_status_idle)
qed

lemma reconcile_change:
  assumes ok: "db_ok env db" and mem: "row \<in> set (ad_runs db)" and st: "open_state row = Inr st" and phase: "rs_phase st = SettlementDispatched"
    and p: "rs_pending st = Some p" and run: "reconcile_settlement env f now row st p intent db = Inr (u, db')"
  shows "client_change env db db'"
proof -
  from run obtain i tx where i: "intent = Some i" "pi_settleTx i = Some tx" "pi_status i = ''settled''" "tx \<noteq> []"
    and amount: "Some (pi_amountUnits i) = pc_amountUnits p"
    by (auto simp: reconcile_settlement_def split: option.splits if_splits)
  define s where "s = (if gr_cancelRequested row then ''cancelled'' else ''queued'')"
  have s: "s \<noteq> ''running''" by (simp add: s_def)
  from run have wr: "write_run env f now row ''settlement_reconciled''
              (JObj [(''paymentId'', JStr (written (pc_paymentId p) [])), (''tx'', JStr tx)]) (settled_state tx p st)
              (no_patch\<lparr>pa_spent := Some (gr_spent row + pi_amountUnits i), pa_status := Some s, pa_errorCode := Some None\<rparr>) None db = Inr (u, db')"
    by (simp only: reconcile_settlement_def i amount option.case simp_thms if_True s_def)
  show ?thesis
  proof (rule client_write [OF ok mem st _ wr])
    fix u assume u: "identity u = identity row" "row_state row st"
      "gr_step u = written (pa_step (no_patch\<lparr>pa_spent := Some (gr_spent row + pi_amountUnits i),
                 pa_status := Some s, pa_errorCode := Some None\<rparr>)) (gr_step row)"
      "gr_spent u = written (pa_spent (no_patch\<lparr>pa_spent := Some (gr_spent row + pi_amountUnits i),
                 pa_status := Some s, pa_errorCode := Some None\<rparr>)) (gr_spent row)"
    then have "gr_step u = gr_step row" "Some (gr_spent u - gr_spent row) = pc_amountUnits p" using amount by simp_all
    with settled_state_ok [OF u(2) p phase u(1), of p tx] phase
    show "state_ok u (settled_state tx p st) \<and> (gr_step row < gr_step u
        \<or> (gr_step row = gr_step u \<and> rank (rs_phase st) \<le> rank (rs_phase (settled_state tx p st))))" by (simp add: settled_state_def)
  qed (use s in \<open>auto simp: dispatch_kind_def\<close>)
qed

lemma resume_unknown_change:
  assumes ok: "db_ok env db" and mem: "row \<in> set (ad_runs db)" and st: "open_state row = Inr st"
    and run: "resume_unknown env f now row st recorded intent db = Inr (u, db')"
  shows "client_change env db db'"
proof -
  have same: "client_change env db db'"
    if "write_run env f now row ''preparation_resumed'' (JObj []) st
         (no_patch\<lparr>pa_status := Some (if gr_cancelRequested row then ''cancelled'' else ''queued''), pa_errorCode := Some None\<rparr>) None db = Inr (u, db')"
    by (rule client_write_same [OF ok mem st _ that]) (simp_all add: dispatch_kind_def)
  show ?thesis
  proof (cases "rs_phase st = InferenceDispatched \<and> rs_pending st \<noteq> None")
    case True
    with run obtain r where "rbind (of_option reconciliation_required recorded) (\<lambda>(result, typedHash).
          rbind result (\<lambda>answer. complete_run env f now row st answer None (if typedHash = [] then None else Some typedHash) db)) = Inr (u, db')"
      by (auto simp: resume_unknown_def)
    then obtain answer h where "complete_run env f now row st answer None h db = Inr (u, db')"
      by (elim rbind_InrE) (auto simp: res_simps)
    then show ?thesis using True by (intro complete_change [OF ok mem st]) auto
  next
    case notinf: False
    show ?thesis
    proof (cases "rs_phase st = SettlementDispatched \<and> (\<exists>p. rs_pending st = Some p \<and> pc_paymentId p \<noteq> None \<and> pc_paymentId p \<noteq> Some [])")
      case True
      then obtain p where "rs_pending st = Some p" "pc_paymentId p \<noteq> None" "pc_paymentId p \<noteq> Some []" by blast
      with True run have "reconcile_settlement env f now row st p intent db = Inr (u, db')" by (simp add: resume_unknown_def)
      with True \<open>rs_pending st = Some p\<close> show ?thesis by (intro reconcile_change [OF ok mem st]) auto
    next
      case False
      have "resume_unknown env f now row st recorded intent db = write_run env f now row ''preparation_resumed'' (JObj []) st
         (no_patch\<lparr>pa_status := Some (if gr_cancelRequested row then ''cancelled'' else ''queued''), pa_errorCode := Some None\<rparr>) None db"
        using notinf False by (cases "rs_phase st"; cases "rs_pending st") (auto simp: resume_unknown_def)
      with run show ?thesis by (intro same) simp
    qed
  qed
qed

lemma resume_change:
  assumes ok: "db_ok env db" and run: "resume_run env f now key i auth recorded intent db = Inr (v, db')"
  shows "db' = db \<or> client_change env db db'"
proof -
  from run obtain owner row st a where get: "get_run owner i now db = Inr row" and st: "open_state row = Inr st"
    and rest: "(if terminal (gr_status row) \<or> gr_status row = ''queued'' \<or> gr_status row = ''running'' then Inr (run_view_of row, db)
     else if gr_status row = ''outcome_unknown''
     then rmap (map_prod run_view_of id) (resume_unknown env f now row st recorded intent db)
     else case (rs_phase st, rs_pending st) of
         (AwaitingPayment, Some pending) \<Rightarrow>
           rbind (require (gr_status row = ''awaiting_payment'') (failure ''AGENT_RUN_NOT_RESUMABLE'' 409)) (\<lambda>_.
           rbind (of_option (failure ''AGENT_PAYMENT_AUTHORIZATION_REQUIRED'' 409) a) (\<lambda>a.
           rmap (map_prod run_view_of id)
             (write_run env f now row ''payment_authorized'' (JObj [(''paymentId'', JStr (written (gr_paymentId row) []))])
               (st\<lparr>rs_pending := Some (pending\<lparr>pc_authorization := Some a\<rparr>), rs_phase := PaymentReady\<rparr>)
               (no_patch\<lparr>pa_status := Some ''queued'', pa_errorCode := Some None\<rparr>) None db)))
       | _ \<Rightarrow> Inl (failure ''AGENT_RUN_NOT_RESUMABLE'' 409)) = Inr (v, db')"
    unfolding resume_run_def by (elim rbind_InrE) blast
  note mem = get_run_Inr [OF get, THEN conjunct1]
  show ?thesis
  proof (cases "terminal (gr_status row) \<or> gr_status row = ''queued'' \<or> gr_status row = ''running''")
    case True
    with rest show ?thesis by simp
  next
    case idle: False
    show ?thesis
    proof (cases "gr_status row = ''outcome_unknown''")
      case True
      with rest idle obtain u where "resume_unknown env f now row st recorded intent db = Inr (u, db')" by (auto simp: res_simps)
      from resume_unknown_change [OF ok mem st this] show ?thesis ..
    next
      case False
      with rest idle obtain p where p: "rs_phase st = AwaitingPayment" "rs_pending st = Some p"
        by (auto split: run_phase.splits option.splits)
      from rest idle False obtain au u where
        wr: "write_run env f now row ''payment_authorized'' (JObj [(''paymentId'', JStr (written (gr_paymentId row) []))])
               (st\<lparr>rs_pending := Some (p\<lparr>pc_authorization := Some au\<rparr>), rs_phase := PaymentReady\<rparr>)
               (no_patch\<lparr>pa_status := Some ''queued'', pa_errorCode := Some None\<rparr>) None db = Inr (u, db')"
        by (auto simp: p res_simps)
      let ?st = "st\<lparr>rs_pending := Some (p\<lparr>pc_authorization := Some au\<rparr>), rs_phase := PaymentReady\<rparr>"
      have "client_change env db db'"
      proof (rule client_write [OF ok mem st _ wr])
        fix u assume u: "identity u = identity row" "row_state row st"
          "gr_step u = written (pa_step (no_patch\<lparr>pa_status := Some ''queued'', pa_errorCode := Some None\<rparr>)) (gr_step row)"
          "gr_spent u = written (pa_spent (no_patch\<lparr>pa_status := Some ''queued'', pa_errorCode := Some None\<rparr>)) (gr_spent row)"
        have "recorded_spend ?st = recorded_spend st" using p by (cases "pc_paid p") (simp_all add: recorded_spend_def)
        with u p have "state_ok u ?st" by (auto simp: row_state_def state_ok_def metadata_match_def phase_ok_def identity_eq)
        with u p show "state_ok u ?st \<and> (gr_step row < gr_step u \<or> (gr_step row = gr_step u \<and> rank (rs_phase st) \<le> rank (rs_phase ?st)))"
          by simp
      qed (auto simp: dispatch_kind_def)
      then show ?thesis ..
    qed
  qed
qed

lemma expire_change:
  assumes ok: "db_ok env db" and run: "expire_run env f now row db = Inr (u, db')"
  shows "client_change env db db'"
proof -
  let ?patch = "no_patch\<lparr>pa_status := Some ''outcome_unknown'', pa_errorCode := Some (Some ''AGENT_LEASE_EXPIRED''), pa_releaseLease := True\<rparr>"
  from change_run_Inr [OF run [unfolded expire_run_def]] have status: "gr_status u = ''outcome_unknown''"
    by (auto split: if_splits)
  obtain cur where rep: "replaced env db cur u db'" and core: "same_core cur u"
    by (rule change_keeps [OF run [unfolded expire_run_def], where env = env]) (auto split: if_splits)
  show ?thesis unfolding client_change_def
    using rep core status replaced_row [OF ok rep core] same_core_forward [OF core]
    by (intro exI [of _ cur] exI [of _ u]) simp
qed

section \<open>Every step keeps the invariant\<close>

lemma cat_grown_runs:
  assumes "agent_ok env s" and "db_ok env db" and "set (ad_runs (gs_db s)) \<subseteq> set (ad_runs db)"
    and new: "\<And>r. r \<in> set (ad_runs db) \<Longrightarrow> r \<notin> set (ad_runs (gs_db s)) \<Longrightarrow> gr_status r = ''queued'' \<and> gr_leaseToken r = None"
  shows "agent_ok env (s\<lparr>gs_db := db\<rparr>)"
proof (rule agent_okI)
  fix k assume k: "k \<in> set (gs_runners (s\<lparr>gs_db := db\<rparr>))"
  with assms(1) have rk: "runner_ok (gs_db s) k" "rn_token k \<in> gs_tokens s" by (simp_all add: agent_ok_def)
  have "synced r k" if "active (rn_stage k)" "r \<in> set (ad_runs db)" "holds r k" for r
    using that rk new [of r] by (cases "r \<in> set (ad_runs (gs_db s))") (auto simp: holds_def runner_ok_def)
  with rk assms(3) show "runner_ok (gs_db (s\<lparr>gs_db := db\<rparr>)) k \<and> rn_token k \<in> gs_tokens (s\<lparr>gs_db := db\<rparr>)"
    by (auto simp: runner_ok_def)
next
  show "leases_known (gs_tokens (s\<lparr>gs_db := db\<rparr>)) (gs_db (s\<lparr>gs_db := db\<rparr>))"
    using assms(1) new by (auto simp: leases_known_def agent_ok_def)
  show "ticket_valid (gs_db (s\<lparr>gs_db := db\<rparr>)) t" if "t \<in> set (all_tickets (gs_runners (s\<lparr>gs_db := db\<rparr>)) (gs_effects (s\<lparr>gs_db := db\<rparr>)))" for t
  proof -
    from that assms(1) have "ticket_valid (gs_db s) t" by (simp add: agent_ok_def)
    with assms(3) show ?thesis unfolding ticket_valid_def by (fastforce)
  qed
qed (use assms in \<open>simp_all add: agent_ok_def\<close>)

lemma create_run_ok:
  assumes ok: "agent_ok env s" and run: "create_run env i f now answer key input (gs_db s) = Inr (v, db)"
  shows "agent_ok env (s\<lparr>gs_db := db\<rparr>)"
proof -
  let ?db = "gs_db s"
  from run obtain owner vl deadline saved
    where ins: "insert_run
         ((new_run env i now owner key vl deadline (rt_requestMac env owner (request_json vl)))
            \<lparr>gr_ledgerHead := ga_hash (run_action env f now (new_run env i now owner key vl deadline (rt_requestMac env owner (request_json vl)))
               ''created'' (JObj [(''requestHash'', JStr (rt_requestMac env owner (request_json vl)))])), gr_ledgerSequence := 1\<rparr>)
         (run_action env f now (new_run env i now owner key vl deadline (rt_requestMac env owner (request_json vl)))
               ''created'' (JObj [(''requestHash'', JStr (rt_requestMac env owner (request_json vl)))])) ?db = Inr (saved, db)"
    unfolding create_run_def Let_def by (elim rbind_InrE) (auto simp: res_simps)
  define base where "base = new_run env i now owner key vl deadline (rt_requestMac env owner (request_json vl))"
  define act where "act = run_action env f now base ''created'' (JObj [(''requestHash'', JStr (rt_requestMac env owner (request_json vl)))])"
  define row where "row = base\<lparr>gr_ledgerHead := ga_hash act, gr_ledgerSequence := 1\<rparr>"
  have ins: "insert_run row act ?db = Inr (saved, db)" using ins by (simp add: base_def act_def row_def)
  have d: "db_ok env ?db" using ok by (simp add: agent_ok_def)
  show ?thesis
  proof (cases "select_row (\<lambda>r. gr_owner r = gr_owner row \<and> gr_idempotencyKey r = gr_idempotencyKey row) (ad_runs ?db)")
    case (Some prior)
    with ins have "db = ?db" by (simp add: insert_run_def)
    with ok show ?thesis by simp
  next
    case None
    with ins have checks: "run_checks row" and fresh: "\<forall>r \<in> set (ad_runs ?db). gr_id r \<noteq> gr_id row"
      and db: "db = ?db\<lparr>ad_runs := ad_runs ?db @ [row], ad_actions := ad_actions ?db @ [act]\<rparr>"
      by (auto simp: insert_run_def res_simps)
    have row: "gr_id row = i" "gr_owner row = owner" "gr_status row = ''queued''" "gr_leaseToken row = None" "gr_ledgerSequence row = 1"
      "gr_ledgerHead row = ga_hash act" by (simp_all add: row_def base_def new_run_def Let_def)
    have act: "ga_runId act = i" "ga_sequence act = 1" "ga_previous act = zero_hash"
      "ga_hash act = rt_mac env owner i (material_of i zero_hash act)"
      by (simp_all add: act_def base_def run_action_def new_run_def Let_def material_of_def)
    have none: "matching_rows (\<lambda>a. ga_runId a = i) (ad_actions ?db) = []"
      using d fresh row(1) by (auto simp: db_ok_def matching_rows_Nil)
    then have acts: "actions_of i db = [act]" by (simp add: db actions_of_def matching_rows_def act(1))
    have other: "actions_of j db = actions_of j ?db" if "j \<noteq> i" for j
      using that act(1) by (intro actions_of_other [of db ?db act]) (simp_all add: db)
    have st: "\<exists>st. row_state row st"
      by (simp add: row_def base_def new_run_def Let_def row_state_def seal_state_def state_ok_def metadata_match_def
          phase_ok_def recorded_spend_def)
    have journal: "journal_valid env row (actions_of (gr_id row) db)"
      using acts act row by (simp add: journal_valid_def)
    have "db_ok env db"
      using d fresh checks st journal other row(1) act(1)
      by (auto simp: db_ok_def db unique_key_snoc)
    then show ?thesis
      by (rule cat_grown_runs [OF ok]) (use db row in auto)
  qed
qed

text \<open>A change of one row that leaves its state alone and keeps or renews its lease under a known token.\<close>

lemma replaced_only_row:
  assumes ok: "db_ok env db" and cur: "cur \<in> set (ad_runs db)" and core: "same_core cur u"
    and same: "gr_ledgerHead u = gr_ledgerHead cur" "gr_ledgerSequence u = gr_ledgerSequence cur"
    and runs: "\<And>r. r \<in> set (ad_runs db') \<longleftrightarrow> r = u \<or> (r \<in> set (ad_runs db) \<and> r \<noteq> cur)"
    and uniq: "unique_key gr_id (ad_runs db')" and acts: "ad_actions db' = ad_actions db"
  shows "db_ok env db'" and "ticket_valid db t \<Longrightarrow> ticket_valid db' t"
proof -
  have id: "gr_id u = gr_id cur" "gr_owner u = gr_owner cur" "gr_step u = gr_step cur" "row_phase u = row_phase cur"
    using core by (simp_all add: same_core_def identity_eq row_phase_def)
  have "run_checks u = run_checks cur" using core by (simp add: run_checks_def same_core_def identity_eq)
  moreover have "journal_valid env u as = journal_valid env cur as" for as using same id by (simp add: journal_valid_def)
  moreover have "actions_of j db' = actions_of j db" for j by (simp add: actions_of_def acts)
  ultimately show "db_ok env db'"
    using ok cur id row_state_cong [OF core] uniq runs acts unfolding db_ok_def by (metis (no_types, lifting))
  show "ticket_valid db t \<Longrightarrow> ticket_valid db' t"
    using runs id cur unfolding ticket_valid_def by metis
qed

lemma replaced_only_runner:
  assumes rk: "runner_ok db k" and cur: "cur \<in> set (ad_runs db)" and core: "same_core cur u"
    and runs: "\<And>r. r \<in> set (ad_runs db') \<longleftrightarrow> r = u \<or> (r \<in> set (ad_runs db) \<and> r \<noteq> cur)"
    and still: "holds u k \<Longrightarrow> holds cur k"
  shows "runner_ok db' k"
proof -
  have ident: "identity u = identity cur" using core by (simp add: same_core_def)
  have "synced r k" if act: "active (rn_stage k)" and r: "r \<in> set (ad_runs db')" "holds r k" for r
  proof (cases "r = u")
    case True
    with still r rk act cur have s: "synced cur k" by (simp add: runner_ok_def)
    have "seal_state u st = seal_state cur st" for st by (rule seal_state_cong [OF ident])
    with s core True show ?thesis by (auto simp: synced_def same_core_def)
  next
    case False
    with runs r rk act show ?thesis by (auto simp: runner_ok_def)
  qed
  moreover have "\<exists>r \<in> set (ad_runs db'). identity r = identity (rn_row k)"
    using runner_ok_row [OF rk] runs ident by metis
  ultimately show ?thesis using rk by (simp add: runner_ok_def)
qed

lemma update_by_key:
  assumes "unique_key gr_id rows" and "cur \<in> set rows" and "\<And>r. r \<in> set rows \<Longrightarrow> P r \<longleftrightarrow> gr_id r = gr_id cur"
  shows "update_rows P f rows = update_rows (\<lambda>r. gr_id r = gr_id cur) f rows"
  using assms(3) by (simp add: update_rows_def)

lemma heartbeat_ok:
  assumes ok: "agent_ok env s" and run: "heartbeat_run i token now lease (gs_db s) = (b, db)"
  shows "agent_ok env (s\<lparr>gs_db := db\<rparr>)"
proof (cases b)
  case False
  with run have "db = gs_db s" by (auto simp: heartbeat_run_def split: option.splits if_splits)
  with ok show ?thesis by simp
next
  case True
  with run obtain cur where cur: "run_by_id i (gs_db s) = Some cur"
    and db: "db = gs_db s\<lparr>ad_runs := update_rows (\<lambda>r. gr_id r = i) (\<lambda>r. r\<lparr>gr_leaseUntil := Some (now + lease)\<rparr>) (ad_runs (gs_db s))\<rparr>"
    by (auto simp: heartbeat_run_def split: option.splits if_splits)
  have d: "db_ok env (gs_db s)" using ok by (simp add: agent_ok_def)
  then have uniq: "unique_key gr_id (ad_runs (gs_db s))" by (simp add: db_ok_def)
  note c = run_by_id_Some [OF cur]
  let ?u = "cur\<lparr>gr_leaseUntil := Some (now + lease)\<rparr>"
  have runs: "r \<in> set (ad_runs db) \<longleftrightarrow> r = ?u \<or> (r \<in> set (ad_runs (gs_db s)) \<and> r \<noteq> cur)" for r
    using set_update_key [OF uniq c [THEN conjunct1], of r] c by (simp add: db)
  have core: "same_core cur ?u" by (simp add: same_core_def identity_def)
  have uniq': "unique_key gr_id (ad_runs db)" using uniq by (simp add: db unique_key_update_on)
  have d': "db_ok env db" and tickets: "ticket_valid (gs_db s) t \<Longrightarrow> ticket_valid db t" for t
    by (rule replaced_only_row [OF d _ core _ _ runs uniq']; simp add: c db)+
  have "runner_ok db k" if "runner_ok (gs_db s) k" for k
    by (rule replaced_only_runner [OF that _ core runs]) (simp_all add: c holds_def)
  moreover have "leases_known (gs_tokens s) db"
    using ok runs c by (auto simp: agent_ok_def leases_known_def)
  ultimately show ?thesis using ok d' tickets by (intro agent_okI) (simp_all add: agent_ok_def)
qed

lemma claim_ok:
  assumes ok: "agent_ok env s" and run: "claim_run locked token now lease (gs_db s) = (Some row, db)" and fresh: "token \<notin> gs_tokens s"
  shows "agent_ok env (s\<lparr>gs_db := db, gs_runners := gs_runners s @ [start_runner token row], gs_tokens := insert token (gs_tokens s)\<rparr>)"
proof -
  have d: "db_ok env (gs_db s)" using ok by (simp add: agent_ok_def)
  then have uniq: "unique_key gr_id (ad_runs (gs_db s))" by (simp add: db_ok_def)
  let ?sorted = "sort_key (\<lambda>r. (gr_created r, gr_id r)) (matching_rows (\<lambda>r. gr_status r = ''queued'' \<and> \<not> locked r) (ad_runs (gs_db s)))"
  from run obtain cur rest where sorted: "?sorted = cur # rest" by (auto simp: claim_run_def split: list.splits)
  then have "cur \<in> set ?sorted" by simp
  then have cur: "cur \<in> set (ad_runs (gs_db s))" "gr_status cur = ''queued''" by (auto simp: matching_rows_def)
  let ?P = "\<lambda>r. gr_id r = gr_id cur \<and> gr_version r = gr_version cur \<and> gr_status r = ''queued''"
  let ?f = "\<lambda>r. r\<lparr>gr_status := ''running'', gr_leaseToken := Some token, gr_leaseUntil := Some (now + lease),
                         gr_version := gr_version cur + 1, gr_updated := now\<rparr>"
  have P: "?P r \<longleftrightarrow> gr_id r = gr_id cur" if "r \<in> set (ad_runs (gs_db s))" for r
    using that cur unique_runs [OF d that cur(1)] by auto
  from run sorted have row: "map_option ?f (select_row ?P (ad_runs (gs_db s))) = Some row"
    and db: "db = gs_db s\<lparr>ad_runs := update_rows ?P ?f (ad_runs (gs_db s))\<rparr>" by (simp_all add: claim_run_def Let_def)
  from row obtain q where q: "select_row ?P (ad_runs (gs_db s)) = Some q" "row = ?f q" by auto
  with select_row_Some [OF q(1)] unique_runs [OF d _ cur(1)] have "q = cur" by blast
  with q have u: "row = ?f cur" by simp
  have db': "db = gs_db s\<lparr>ad_runs := update_rows (\<lambda>r. gr_id r = gr_id cur) ?f (ad_runs (gs_db s))\<rparr>"
    using update_by_key [OF uniq cur(1), of ?P ?f] P db by simp
  have runs: "r \<in> set (ad_runs db) \<longleftrightarrow> r = row \<or> (r \<in> set (ad_runs (gs_db s)) \<and> r \<noteq> cur)" for r
    using set_update_key [OF uniq cur(1), of r ?f] by (simp add: db' u)
  have core: "same_core cur row" by (simp add: u same_core_def identity_def)
  have uniq': "unique_key gr_id (ad_runs db)" using uniq by (simp add: db' unique_key_update_on)
  have d': "db_ok env db" and tickets: "ticket_valid (gs_db s) t \<Longrightarrow> ticket_valid db t" for t
    by (rule replaced_only_row [OF d cur(1) core _ _ runs uniq']; simp add: u db')+
  have "runner_ok db k \<and> rn_token k \<in> insert token (gs_tokens s)" if "k \<in> set (gs_runners s)" for k
  proof -
    from that ok have k: "runner_ok (gs_db s) k" "rn_token k \<in> gs_tokens s" by (simp_all add: agent_ok_def)
    then have "\<not> holds row k" using fresh by (auto simp: holds_def u)
    then have "runner_ok db k" by (intro replaced_only_runner [OF k(1) cur(1) core runs]) simp
    with k show ?thesis by simp
  qed
  moreover have "runner_ok db (start_runner token row)"
  proof -
    have "synced r (start_runner token row)" if "r \<in> set (ad_runs db)" "gr_id r = gr_id row" for r
    proof -
      have "r = row" using that runs [of row] by (intro unique_runs [OF d']) auto
      then show ?thesis by (simp add: synced_def start_runner_def)
    qed
    with runs show ?thesis by (auto simp: runner_ok_def stage_ok_def start_runner_def holds_def)
  qed
  moreover have "leases_known (insert token (gs_tokens s)) db"
    using ok runs by (auto simp: agent_ok_def leases_known_def u)
  moreover have "ticket_of_runner (start_runner token row) = []" by (simp add: ticket_of_runner_def start_runner_def)
  moreover have "rn_token (start_runner token row) = token" by (simp add: start_runner_def)
  ultimately show ?thesis using ok d' tickets fresh by (intro agent_okI) (auto simp: agent_ok_def all_tickets_def)
qed

lemma lost_ok:
  assumes ok: "agent_ok env s" and split: "gs_runners s = pre @ k # post"
  shows "agent_ok env (s\<lparr>gs_runners := pre @ k\<lparr>rn_lost := True\<rparr> # post\<rparr>)"
proof -
  have "stage_ok (k\<lparr>rn_lost := True\<rparr>) = stage_ok k" "synced r (k\<lparr>rn_lost := True\<rparr>) = synced r k"
    "holds r (k\<lparr>rn_lost := True\<rparr>) = holds r k" "ticket_of_runner (k\<lparr>rn_lost := True\<rparr>) = ticket_of_runner k" for r
    by (simp_all add: stage_ok_def synced_def holds_def ticket_of_runner_def split: option.splits)
  moreover from this have "runner_ok db (k\<lparr>rn_lost := True\<rparr>) = runner_ok db k" for db by (simp add: runner_ok_def)
  ultimately show ?thesis using ok unfolding agent_ok_def split by (simp add: all_tickets_def)
qed

lemma kept_tickets:
  assumes "distinct (E @ A @ K @ B)" and "C @ K' = K \<or> C @ K' = []"
  shows "distinct ((E @ C) @ A @ K' @ B)" and "set ((E @ C) @ A @ K' @ B) \<subseteq> set (E @ A @ K @ B)"
proof -
  from assms(2) have "distinct ((E @ C) @ A @ K' @ B) \<and> set ((E @ C) @ A @ K' @ B) \<subseteq> set (E @ A @ K @ B)"
  proof
    assume "C @ K' = K"
    then have "K = C @ K'" by simp
    with assms(1) show ?thesis by auto
  qed (use assms(1) in auto)
  then show "distinct ((E @ C) @ A @ K' @ B)" and "set ((E @ C) @ A @ K' @ B) \<subseteq> set (E @ A @ K @ B)" by blast+
qed

lemma new_ticket:
  assumes "distinct (E @ A @ B)" and "C @ K' = [t]" and "t \<notin> set (E @ A @ B)"
  shows "distinct ((E @ C) @ A @ K' @ B)" and "set ((E @ C) @ A @ K' @ B) = insert t (set (E @ A @ B))"
  using assms by (cases C; auto)+

lemma opened_is_new:
  assumes ok: "db_ok env db" and rep: "replaced env db cur u db'" and opens: "opens_ticket cur u t" and pos: "0 \<le> gr_step cur"
  shows "ticket_valid db' t" and "\<not> ticket_valid db t"
proof -
  from opens obtain b where t: "t = (gr_id u, step_key (gr_id u) (gr_step u), b)" "gr_step u = gr_step cur"
    "row_phase cur < needed_rank b" "needed_rank b \<le> row_phase u" by (auto simp: opens_ticket_def)
  have id: "gr_id u = gr_id cur" using replaced_identity [OF rep] by (simp add: identity_eq)
  show "ticket_valid db' t"
    using t pos replaced_mem [OF ok rep, of u] unfolding ticket_valid_def
    by (intro bexI [of _ u] exI [of _ "gr_step u"] exI [of _ b]) auto
  show "\<not> ticket_valid db t"
  proof
    assume "ticket_valid db t"
    then obtain r m where r: "r \<in> set (ad_runs db)" "gr_id r = gr_id cur" "step_key (gr_id r) m = step_key (gr_id u) (gr_step u)"
      "0 \<le> m" "m < gr_step r \<or> (m = gr_step r \<and> needed_rank b \<le> row_phase r)" using t id by (auto simp: ticket_valid_def)
    then have "r = cur" by (intro unique_runs [OF ok _ replaced_cur [OF rep]])
    moreover have "m = gr_step u" using r pos t id by (simp add: step_key_inj)
    ultimately show False using r t by auto
  qed
qed

lemma ran_ok:
  assumes ok: "agent_ok env s" and split: "gs_runners s = pre @ k # post" and run: "run_step env inp k (gs_db s) = (k', db, calls)"
  shows "agent_ok env (s\<lparr>gs_db := db, gs_runners := pre @ k' # post, gs_effects := gs_effects s @ calls\<rparr>)"
proof -
  let ?E = "tickets_of (gs_effects s)" and ?A = "concat (map ticket_of_runner pre)" and ?B = "concat (map ticket_of_runner post)"
  let ?s = "s\<lparr>gs_db := db, gs_runners := pre @ k' # post, gs_effects := gs_effects s @ calls\<rparr>"
  have d: "db_ok env (gs_db s)" using ok by (simp add: agent_ok_def)
  have rk: "runner_ok (gs_db s) k" using ok split by (simp add: agent_ok_def)
  from run_step_moves [OF d rk run] have m: "moved env (gs_db s) k k' db calls" .
  then have k': "rn_token k' = rn_token k" "runner_ok db k'" by (simp_all add: moved_def)
  have dist: "distinct (?E @ ?A @ ticket_of_runner k @ ?B)" and tv: "\<And>t. t \<in> set (?E @ ?A @ ticket_of_runner k @ ?B) \<Longrightarrow> ticket_valid (gs_db s) t"
    using ok by (simp_all add: agent_ok_def all_tickets_def split) 
  have tokens: "distinct (map rn_token (pre @ k # post))" using ok by (simp add: agent_ok_def split)
  have goal: "agent_ok env ?s"
    if db: "db_ok env db" and leases: "leases_known (gs_tokens s) db" and others: "\<And>q. q \<in> set pre \<union> set post \<Longrightarrow> runner_ok db q"
      and t: "distinct (all_tickets (pre @ k' # post) (gs_effects s @ calls))"
      and v: "\<And>t. t \<in> set (all_tickets (pre @ k' # post) (gs_effects s @ calls)) \<Longrightarrow> ticket_valid db t"
  proof (rule agent_okI)
    show "runner_ok (gs_db ?s) q \<and> rn_token q \<in> gs_tokens ?s" if "q \<in> set (gs_runners ?s)" for q
      using that others k' ok split by (auto simp: agent_ok_def)
  qed (use db leases t v tokens k' in simp_all)
  have shape: "all_tickets (pre @ k' # post) (gs_effects s @ calls) = (?E @ tickets_of calls) @ ?A @ ticket_of_runner k' @ ?B"
    by (simp add: all_tickets_def)
  from m consider (same) "db = gs_db s" "tickets_of calls @ ticket_of_runner k' = ticket_of_runner k \<or> tickets_of calls @ ticket_of_runner k' = []"
    | (changed) cur u where "owned_change env (gs_db s) k db cur u"
        "tickets_of calls @ ticket_of_runner k' = ticket_of_runner k \<or> tickets_of calls @ ticket_of_runner k' = []
          \<or> (ticket_of_runner k = [] \<and> (\<exists>t. tickets_of calls @ ticket_of_runner k' = [t] \<and> opens_ticket cur u t))"
    unfolding moved_def by blast
  then show ?thesis
  proof cases
    case same
    note sw = kept_tickets [OF dist same(2)]
    show ?thesis
    proof (rule goal)
      show "ticket_valid db t" if "t \<in> set (all_tickets (pre @ k' # post) (gs_effects s @ calls))" for t
        using that sw(2) tv same(1) unfolding shape by blast
    qed (use ok same(1) sw(1) in \<open>auto simp: agent_ok_def split shape\<close>)
  next
    case changed
    then have rep: "replaced env (gs_db s) cur u db" and holds: "holds cur k" and st: "\<exists>st. row_state u st" and fw: "forward cur u"
      by (simp_all add: owned_change_def)
    have cur: "cur \<in> set (ad_runs (gs_db s))" by (rule replaced_cur [OF rep])
    have pos: "0 \<le> gr_step cur" using d cur by (auto simp: db_ok_def run_checks_def)
    have others: "runner_ok db q" if "q \<in> set pre \<union> set post" for q
    proof -
      from that ok split have "runner_ok (gs_db s) q" by (auto simp: agent_ok_def)
      moreover from that tokens have "rn_token q \<noteq> rn_token k" by simp (metis imageI)
      then have "\<not> holds u q" using rep holds by (auto simp: holds_def replaced_def)
      ultimately show ?thesis by (intro other_runner_ok [OF d rep]) auto
    qed
    show ?thesis
    proof (cases "tickets_of calls @ ticket_of_runner k' = ticket_of_runner k \<or> tickets_of calls @ ticket_of_runner k' = []")
      case True
      note sw = kept_tickets [OF dist True]
      show ?thesis
      proof (rule goal)
        show "ticket_valid db t" if "t \<in> set (all_tickets (pre @ k' # post) (gs_effects s @ calls))" for t
          using that sw(2) tv forward_ticket [OF d rep fw] unfolding shape by blast
      qed (use ok sw(1) others st leases_replaced [OF d rep] db_ok_replaced [OF d rep] in \<open>auto simp: agent_ok_def shape\<close>)
    next
      case False
      with changed(2) obtain t where none: "ticket_of_runner k = []" and one: "tickets_of calls @ ticket_of_runner k' = [t]"
        and opens: "opens_ticket cur u t" by blast
      note new = opened_is_new [OF d rep opens pos]
      have fresh: "t \<notin> set (?E @ ?A @ ?B)" using new(2) tv none by (metis append_Nil)
      from dist none have "distinct (?E @ ?A @ ?B)" by simp
      note sw = new_ticket [OF this one fresh]
      show ?thesis
      proof (rule goal)
        show "ticket_valid db t'" if "t' \<in> set (all_tickets (pre @ k' # post) (gs_effects s @ calls))" for t'
        proof (cases "t' = t")
          case False
          with that have "t' \<in> set (?E @ ?A @ ?B)" unfolding shape sw(2) by blast
          then have "t' \<in> set (?E @ ?A @ ticket_of_runner k @ ?B)" by (simp add: none)
          from forward_ticket [OF d rep fw tv [OF this]] show ?thesis .
        qed (simp add: new(1))
      qed (use ok sw(1) others st leases_replaced [OF d rep] db_ok_replaced [OF d rep] in \<open>auto simp: agent_ok_def shape\<close>)
    qed
  qed
qed

lemma agent_step_ok:
  assumes step: "agent_step env s t" and ok: "agent_ok env s"
  shows "agent_ok env t"
  using step ok
proof (induction rule: agent_step.induct)
  case (keyed s keys)
  have "actions_of i (db\<lparr>ad_keys := keys\<rparr>) = actions_of i db" for i db by (simp add: actions_of_def)
  with keyed show ?case by (simp add: agent_ok_def db_ok_def runner_ok_def leases_known_def ticket_valid_def)
next
  case (cancelled f now key i s v db)
  from cancelled(2) have "db_ok env (gs_db s)" by (simp add: agent_ok_def)
  from cancel_change [OF this cancelled(1)] client_change_ok [OF cancelled(2)] cancelled(2) show ?case by auto
next
  case (resumed f now key i auth recorded intent s v db)
  from resumed(2) have "db_ok env (gs_db s)" by (simp add: agent_ok_def)
  from resume_change [OF this resumed(1)] client_change_ok [OF resumed(2)] resumed(2) show ?case by auto
next
  case (expired f now row s u db)
  from expired(2) have "db_ok env (gs_db s)" by (simp add: agent_ok_def)
  from client_change_ok [OF expired(2) expire_change [OF this expired(1)]] show ?case .
qed (blast intro: create_run_ok claim_ok heartbeat_ok lost_ok ran_ok)+

interpretation agents: invariant_system agent_start "agent_step env" "agent_ok env" for env
proof unfold_locales
  show "agent_start s \<Longrightarrow> agent_ok env s" for s
    by (simp add: agent_start_def agent_ok_def db_ok_def leases_known_def all_tickets_def)
  show "agent_ok env s \<Longrightarrow> agent_step env s t \<Longrightarrow> agent_ok env t" for s t by (rule agent_step_ok)
qed

section \<open>What follows\<close>

lemma settlements_counted: "length (filter (\<lambda>e. \<exists>p. e = SettlePayment i key p) es) = count_list (tickets_of es) (i, key, True)"
proof (induction es)
  case (Cons e es)
  then show ?case by (cases e) (simp_all add: count_list_append)
qed simp

lemma inferences_counted: "length (filter (\<lambda>e. \<exists>p. e = PaidInference i p key) es) = count_list (tickets_of es) (i, key, False)"
proof (induction es)
  case (Cons e es)
  then show ?case by (cases e) (simp_all add: count_list_append)
qed simp

lemma distinct_counted: "distinct xs \<Longrightarrow> count_list xs x \<le> 1"
  by (induction xs) (auto simp: count_list_0_iff)

lemma agents_reachable_tickets: "reachable agent_start (agent_step env) s \<Longrightarrow> distinct (tickets_of (gs_effects s))"
  using agents.inv_reachable [of env s] by (simp add: agent_ok_def all_tickets_def)

lemma agents_reachable_db: "reachable agent_start (agent_step env) s \<Longrightarrow> db_ok env (gs_db s)"
  using agents.inv_reachable [of env s] by (simp add: agent_ok_def)

text \<open>Runs of one runner are runs of the system.\<close>

lemma iterate_reachable:
  assumes "reachable agent_start (agent_step env) s" and "gs_runners s = [k]"
    and "iterate_steps env (\<lambda>db. db) inputs k (gs_db s) = (k', db', calls)"
  shows "reachable agent_start (agent_step env) (s\<lparr>gs_db := db', gs_runners := [k'], gs_effects := gs_effects s @ calls\<rparr>)"
  using assms
proof (induction inputs arbitrary: s k calls)
  case Nil
  then have e: "s\<lparr>gs_db := db', gs_runners := [k'], gs_effects := gs_effects s @ calls\<rparr> = s" by (cases s) simp
  show ?case unfolding e by (rule Nil.prems(1))
next
  case (Cons inp rest)
  show ?case
  proof (cases "rn_stage k = StDone")
    case True
    with Cons.prems have e: "s\<lparr>gs_db := db', gs_runners := [k'], gs_effects := gs_effects s @ calls\<rparr> = s" by (cases s) simp
    show ?thesis unfolding e by (rule Cons.prems(1))
  next
    case False
    obtain k1 db1 c1 where one: "run_step env inp k (gs_db s) = (k1, db1, c1)" by (cases "run_step env inp k (gs_db s)")
    obtain k2 db2 c2 where two: "iterate_steps env (\<lambda>db. db) rest k1 db1 = (k2, db2, c2)" by (cases "iterate_steps env (\<lambda>db. db) rest k1 db1")
    let ?s = "s\<lparr>gs_db := db1, gs_runners := [k1], gs_effects := gs_effects s @ c1\<rparr>"
    from ran [of s "[]" k "[]" env inp k1 db1 c1] Cons.prems(2) one have "agent_step env s ?s" by simp
    with Cons.prems(1) have "reachable agent_start (agent_step env) ?s" by (rule reachable_step)
    from Cons.IH [OF this, of k1 c2] two Cons.prems(3) False one show ?thesis by simp
  qed
qed

section \<open>A run of one step\<close>

definition demo_runtime :: runtime_env where
  "demo_runtime = \<lparr>rt_enabled = True, rt_mock = True, rt_steps = 25, rt_budget = 100, rt_duration = 1000, rt_lease = 50,
     rt_timeout = 10, rt_mac = (\<lambda>o' i m. lm_previous m @ lm_kind m), rt_requestMac = (\<lambda>o' j. ''h''), rt_sha = (\<lambda>s. s),
     rt_uuid = (\<lambda>s. True), rt_datetime = (\<lambda>s. Some 500), rt_decrypt = (\<lambda>k o'. Inr o'), rt_json = (\<lambda>s. None)\<rparr>"

definition demo_request_body :: json where
  "demo_request_body = JObj [(''agentId'', JStr ''a''), (''goal'', JStr ''g''), (''maxSteps'', JNum 3), (''maxBudgetUnits'', JStr ''9''),
     (''deadlineAt'', JStr ''d''), (''idempotencyKey'', JStr ''k'')]"

definition demo_hash :: string where
  "demo_hash = zero_hash"

definition demo_input :: step_input where
  "demo_input = \<lparr>in_now = 10, in_fresh = ''f'', in_agent = Inr (),
     in_session = Inr \<lparr>sa_sessionId = ''s'', sa_expiresAt = 400, sa_wrapKey = ''w'', sa_blob = ''b''\<rparr>,
     in_probe = Inl (PaymentRequiredError ''m'' \<lparr>xr_x402Version = 1, xr_accepts = [\<lparr>xa_scheme = ''exact'', xa_network = ''n'',
       xa_maxAmountRequired = ''4'', xa_payTo = ''t'', xa_asset = ''u'', xa_receiptPending = False, xa_paymentId = ''p''\<rparr>]\<rparr>),
     in_intent = Some \<lparr>pi_status = ''open'', pi_settleTx = None, pi_amountUnits = 4\<rparr>, in_settle = Inr (''p'', demo_hash),
     in_result = Inr (Some \<lparr>ia_typedHash = demo_hash, ia_outputHash = demo_hash, ia_output = demo_hash\<rparr>)\<rparr>"

definition demo_empty :: agent_sys where
  "demo_empty = \<lparr>gs_db = \<lparr>ad_runs = [], ad_actions = [], ad_keys = [''u'']\<rparr>, gs_runners = [], gs_tokens = {}, gs_effects = []\<rparr>"

definition demo_created :: agent_db where
  "demo_created = (case create_run demo_runtime ''r'' ''f'' 10 (Inr ()) ''u'' demo_request_body (gs_db demo_empty) of
     Inr (v, db) \<Rightarrow> db | Inl e \<Rightarrow> gs_db demo_empty)"

definition demo_claimed :: "agent_run option \<times> agent_db" where
  "demo_claimed = claim_run (\<lambda>r. False) ''t'' 10 50 demo_created"

definition demo_runs :: "nat \<Rightarrow> runner \<times> agent_db \<times> effect list" where
  "demo_runs n = iterate_steps demo_runtime (\<lambda>db. db) (replicate n demo_input) (start_runner ''t'' (the (fst demo_claimed))) (snd demo_claimed)"

definition demo_state :: "nat \<Rightarrow> agent_sys" where
  "demo_state n = \<lparr>gs_db = fst (snd (demo_runs n)), gs_runners = [fst (demo_runs n)], gs_tokens = {''t''}, gs_effects = snd (snd (demo_runs n))\<rparr>"

definition demo_expired :: agent_db where
  "demo_expired = (case expire_run demo_runtime ''f'' 60 (rn_row (fst (demo_runs 4))) (fst (snd (demo_runs 4))) of
     Inr (u, db) \<Rightarrow> db | Inl e \<Rightarrow> fst (snd (demo_runs 4)))"

definition demo_expired_rows :: "agent_run list" where
  "demo_expired_rows = ad_runs demo_expired"

lemma demo_created_ok: "is_ok (create_run demo_runtime ''r'' ''f'' 10 (Inr ()) ''u'' demo_request_body (gs_db demo_empty))"
  by code_simp

lemma demo_claimed_ok: "fst demo_claimed \<noteq> None"
  by code_simp

lemma demo_calls: "snd (snd (demo_runs 10)) = [GetAgent ''u'' ''a'', OpenSession ''u'', ProbeInference ''r'' ''agent-run:r:0'',
    SettlePayment ''r'' ''agent-run:r:0'' (Some ''p''), PaidInference ''r'' (Some ''p'') ''agent-run:r:0'']"
  by code_simp

lemma demo_state_reachable: "reachable agent_start (agent_step demo_runtime) (demo_state n)"
proof -
  have "reachable agent_start (agent_step demo_runtime) demo_empty"
    by (rule reachable_start) (simp add: agent_start_def demo_empty_def)
  moreover from demo_created_ok obtain v db where c: "create_run demo_runtime ''r'' ''f'' 10 (Inr ()) ''u'' demo_request_body (gs_db demo_empty) = Inr (v, db)"
    by (auto simp: is_ok_iff)
  moreover from this have "db = demo_created" by (simp add: demo_created_def)
  ultimately have "reachable agent_start (agent_step demo_runtime) (demo_empty\<lparr>gs_db := demo_created\<rparr>)"
    using created [OF c] reachable_step by fastforce
  moreover from demo_claimed_ok obtain row where "fst demo_claimed = Some row" by blast
  then have row: "demo_claimed = (Some row, snd demo_claimed)" by (simp add: prod_eq_iff)
  then have "claim_run (\<lambda>r. False) ''t'' 10 (rt_lease demo_runtime) (gs_db (demo_empty\<lparr>gs_db := demo_created\<rparr>)) = (Some row, snd demo_claimed)"
    by (simp add: demo_claimed_def demo_runtime_def)
  from claimed [OF this] have "agent_step demo_runtime (demo_empty\<lparr>gs_db := demo_created\<rparr>)
      (demo_empty\<lparr>gs_db := snd demo_claimed, gs_runners := [start_runner ''t'' row], gs_tokens := {''t''}\<rparr>)"
    by (simp add: demo_empty_def)
  ultimately have r: "reachable agent_start (agent_step demo_runtime)
      (demo_empty\<lparr>gs_db := snd demo_claimed, gs_runners := [start_runner ''t'' row], gs_tokens := {''t''}\<rparr>)" by (rule reachable_step)
  have "iterate_steps demo_runtime (\<lambda>db. db) (replicate n demo_input) (start_runner ''t'' row) (snd demo_claimed)
      = (fst (demo_runs n), fst (snd (demo_runs n)), snd (snd (demo_runs n)))" using row by (simp add: demo_runs_def) (metis fst_conv option.sel)
  with iterate_reachable [OF r, of "start_runner ''t'' row"] show ?thesis by (simp add: demo_state_def demo_empty_def)
qed

lemma demo_expired_reachable: "reachable agent_start (agent_step demo_runtime) (demo_state 4\<lparr>gs_db := demo_expired\<rparr>)"
proof (cases "expire_run demo_runtime ''f'' 60 (rn_row (fst (demo_runs 4))) (fst (snd (demo_runs 4)))")
  case (Inr v)
  obtain u db where v: "v = (u, db)" by (cases v)
  with Inr have "expire_run demo_runtime ''f'' 60 (rn_row (fst (demo_runs 4))) (gs_db (demo_state 4)) = Inr (u, db)" "demo_expired = db"
    by (simp_all add: demo_state_def demo_expired_def)
  with expired demo_state_reachable [of 4] reachable_step show ?thesis by metis
next
  case (Inl e)
  then have "demo_state 4\<lparr>gs_db := demo_expired\<rparr> = demo_state 4" by (simp add: demo_expired_def demo_state_def)
  with demo_state_reachable [of 4] show ?thesis by simp
qed

section \<open>Properties\<close>

text \<open>Claim C16. However clients, lease sweeps, claims, heartbeats and runners interleave and wherever runners
  stop, the settlement and the paid inference of a step (its idempotency key) are each started at most once.\<close>

theorem paid_calls_start_once:
  assumes "reachable agent_start (agent_step env) s"
  shows "length (filter (\<lambda>e. \<exists>p. e = SettlePayment i key p) (gs_effects s)) \<le> 1
    \<and> length (filter (\<lambda>e. \<exists>p. e = PaidInference i p key) (gs_effects s)) \<le> 1"
  using distinct_counted [OF agents_reachable_tickets [OF assms]] by (simp only: settlements_counted inferences_counted)

theorem paid_calls_start_once_witness:
  "length (filter (\<lambda>e. \<exists>p. e = SettlePayment ''r'' ''agent-run:r:0'' p) (gs_effects (demo_state 10))) = 1
    \<and> length (filter (\<lambda>e. \<exists>p. e = PaidInference ''r'' p ''agent-run:r:0'') (gs_effects (demo_state 10))) = 1"
proof -
  have "gs_effects (demo_state 10) = snd (snd (demo_runs 10))" by (simp add: demo_state_def)
  with paid_calls_start_once [OF demo_state_reachable, of "''r''" "''agent-run:r:0''"] demo_calls show ?thesis by simp
qed

text \<open>Claim C17. In every reachable state every run can be opened, its recorded spending is exactly what its
  history and its paid pending call add up to, it has one history entry per step and stays within its budget.\<close>

theorem spending_is_accounted:
  assumes "reachable agent_start (agent_step env) s" and "r \<in> set (ad_runs (gs_db s))"
  shows "\<exists>st. open_state r = Inr st \<and> recorded_spend st = Some (gr_spent r) \<and> int (length (rs_history st)) = gr_step r
    \<and> rl_budget (rs_limits st) = gr_maxBudget r \<and> 0 \<le> gr_spent r \<and> gr_spent r \<le> gr_maxBudget r"
proof -
  from agents_reachable_db [OF assms(1)] assms(2) obtain st where "row_state r st" "run_checks r" by (auto simp: db_ok_def)
  then show ?thesis using open_row_state [of r st]
    by (intro exI [of _ st]) (simp add: row_state_def state_ok_def metadata_match_def run_checks_def)
qed

lemma demo_run_row: "\<exists>r \<in> set (ad_runs (gs_db (demo_state 10))). gr_id r = ''r'' \<and> gr_spent r = 4 \<and> gr_step r = 1 \<and> gr_status r = ''failed''"
proof -
  have "list_ex (\<lambda>r. gr_id r = ''r'' \<and> gr_spent r = 4 \<and> gr_step r = 1 \<and> gr_status r = ''failed'') (ad_runs (fst (snd (demo_runs 10))))" by code_simp
  then show ?thesis by (simp add: demo_state_def list_ex_iff)
qed

theorem spending_is_accounted_witness:
  "\<exists>r \<in> set (ad_runs (gs_db (demo_state 10))). \<exists>st. open_state r = Inr st \<and> recorded_spend st = Some 4 \<and> length (rs_history st) = 1"
proof -
  from demo_run_row obtain r where r: "r \<in> set (ad_runs (gs_db (demo_state 10)))" "gr_spent r = 4" "gr_step r = 1" by blast
  from spending_is_accounted [OF demo_state_reachable r(1)] r show ?thesis by (intro bexI [of _ r]) auto
qed

text \<open>A runner whose lease was taken over, expired or released, or whose run was ended by somebody
  else, commits nothing: whatever its next step is, the database stays as it is.\<close>

theorem stale_runner_writes_nothing:
  assumes "reachable agent_start (agent_step env) s" and "k \<in> set (gs_runners s)"
    and "\<forall>r \<in> set (ad_runs (gs_db s)). \<not> holds r k"
  shows "fst (snd (run_step env inp k (gs_db s))) = gs_db s"
proof -
  from agents.inv_reachable [OF assms(1)] assms(2) have ok: "db_ok env (gs_db s)" "runner_ok (gs_db s) k" by (simp_all add: agent_ok_def)
  obtain k' db' calls where run: "run_step env inp k (gs_db s) = (k', db', calls)" by (cases "run_step env inp k (gs_db s)")
  from run_step_moves [OF ok run] have "db' = gs_db s"
    using assms(3) replaced_cur by (auto simp: moved_def owned_change_def)
  then show ?thesis by (simp add: run)
qed

theorem stale_runner_writes_nothing_witness:
  "rn_stage (fst (demo_runs 4)) = StPay
     \<and> fst (snd (run_step demo_runtime demo_input (fst (demo_runs 4)) demo_expired)) = demo_expired"
proof -
  have "list_all (\<lambda>r. \<not> holds r (fst (demo_runs 4))) demo_expired_rows" by code_simp
  then have "\<forall>r \<in> set (ad_runs (gs_db (demo_state 4\<lparr>gs_db := demo_expired\<rparr>))). \<not> holds r (fst (demo_runs 4))"
    by (simp add: list_all_iff demo_expired_rows_def)
  from stale_runner_writes_nothing [OF demo_expired_reachable _ this, of demo_input]
  have "fst (snd (run_step demo_runtime demo_input (fst (demo_runs 4)) demo_expired)) = demo_expired" by (simp add: demo_state_def)
  moreover have "(case rn_stage (fst (demo_runs 4)) of StPay \<Rightarrow> True | _ \<Rightarrow> False)" by code_simp
  then have "rn_stage (fst (demo_runs 4)) = StPay" by (simp split: stage.splits)
  ultimately show ?thesis by simp
qed

section \<open>The journal cannot be rewritten\<close>

definition entry_of :: "string \<Rightarrow> agent_action \<Rightarrow> ledger_material" where
  "entry_of i a = material_of i (ga_previous a) a"

lemma check_journal_unique:
  assumes "check_journal env owner i n p as = Some h" and "check_journal env owner i n p bs = Some h" and "length as = length bs"
    and "\<And>a b. a \<in> set as \<Longrightarrow> b \<in> set bs \<Longrightarrow> rt_mac env owner i (entry_of i a) = rt_mac env owner i (entry_of i b) \<Longrightarrow> entry_of i a = entry_of i b"
  shows "map (entry_of i) as = map (entry_of i) bs"
  using assms
proof (induction as arbitrary: bs h rule: rev_induct)
  case (snoc a as)
  then obtain bs' b where bs: "bs = bs' @ [b]" by (cases bs rule: rev_cases) auto
  from snoc.prems(1) obtain ha where a: "check_journal env owner i n p as = Some ha" "ga_previous a = ha" "h = ga_hash a"
    "ga_hash a = rt_mac env owner i (entry_of i a)"
    by (auto simp: check_journal_append entry_of_def split: option.splits if_splits)
  from snoc.prems(2) obtain hb where b: "check_journal env owner i n p bs' = Some hb" "ga_previous b = hb" "h = ga_hash b"
    "ga_hash b = rt_mac env owner i (entry_of i b)"
    by (auto simp: bs check_journal_append entry_of_def split: option.splits if_splits)
  have same: "entry_of i a = entry_of i b" using snoc.prems(4) [of a b] a b bs by simp
  then have "ga_previous a = ga_previous b" by (simp add: entry_of_def material_of_def)
  with a b have "check_journal env owner i n p bs' = Some ha" by simp
  from snoc.IH [OF a(1) this] snoc.prems(3,4) have "map (entry_of i) as = map (entry_of i) bs'" by (simp add: bs)
  with same show ?case by (simp add: bs)
qed simp

text \<open>The journal of every reachable run verifies, and any other list of entries that verifies
  against the run's head and length says the same: same kinds, sealed payloads and times in the same order
  (collisions of the keyed digest between the two lists aside).\<close>

theorem journal_is_tamper_evident:
  assumes "reachable agent_start (agent_step env) s" and "r \<in> set (ad_runs (gs_db s))"
    and "journal_valid env r as"
    and "\<forall>a \<in> set as. \<forall>b \<in> set (actions_of (gr_id r) (gs_db s)).
      rt_mac env (gr_owner r) (gr_id r) (entry_of (gr_id r) a) = rt_mac env (gr_owner r) (gr_id r) (entry_of (gr_id r) b) \<longrightarrow>
      entry_of (gr_id r) a = entry_of (gr_id r) b"
  shows "journal_valid env r (actions_of (gr_id r) (gs_db s))
    \<and> map (entry_of (gr_id r)) as = map (entry_of (gr_id r)) (actions_of (gr_id r) (gs_db s))"
proof -
  have j: "journal_valid env r (actions_of (gr_id r) (gs_db s))"
    using agents_reachable_db [OF assms(1)] assms(2) by (auto simp: db_ok_def)
  with assms(3,4) show ?thesis
    using check_journal_unique [of env "gr_owner r" "gr_id r" 0 zero_hash as "gr_ledgerHead r" "actions_of (gr_id r) (gs_db s)"]
    by (auto simp: journal_valid_def)
qed

lemma demo_first_row: "\<exists>r. ad_runs (gs_db (demo_state 0)) = [r] \<and> gr_id r = ''r'' \<and> length (actions_of ''r'' (gs_db (demo_state 0))) = 1"
proof -
  have "(case ad_runs (fst (snd (demo_runs 0))) of [r] \<Rightarrow> gr_id r = ''r'' | _ \<Rightarrow> False)" by code_simp
  moreover have "length (actions_of ''r'' (fst (snd (demo_runs 0)))) = 1" by code_simp
  ultimately show ?thesis by (auto simp: demo_state_def split: list.splits)
qed

theorem journal_is_tamper_evident_witness:
  "\<exists>r. ad_runs (gs_db (demo_state 0)) = [r] \<and> journal_valid demo_runtime r (actions_of (gr_id r) (gs_db (demo_state 0)))
     \<and> length (actions_of (gr_id r) (gs_db (demo_state 0))) = 1"
proof -
  from demo_first_row obtain r where r: "ad_runs (gs_db (demo_state 0)) = [r]" "gr_id r = ''r''"
    "length (actions_of ''r'' (gs_db (demo_state 0))) = 1" by blast
  then have mem: "r \<in> set (ad_runs (gs_db (demo_state 0)))" by simp
  have "journal_valid demo_runtime r (actions_of (gr_id r) (gs_db (demo_state 0)))"
    using agents_reachable_db [OF demo_state_reachable [of 0]] mem unfolding db_ok_def by blast
  moreover obtain a where "actions_of (gr_id r) (gs_db (demo_state 0)) = [a]" using r by (auto simp: length_Suc_conv)
  ultimately show ?thesis using journal_is_tamper_evident [OF demo_state_reachable [of 0] mem, of "[a]"] r by simp
qed

section \<open>A step comes to an end\<close>

fun stage_rank :: "stage \<Rightarrow> nat" where
  "stage_rank StBegin = 13" | "stage_rank StPrepare = 12" | "stage_rank StChallenge = 11" | "stage_rank StStopAgain = 10"
| "stage_rank StPay = 9" | "stage_rank StSettle = 8" | "stage_rank StStopPaid = 7" | "stage_rank StInfer = 6"
| "stage_rank StResult = 5" | "stage_rank (StComplete a) = 4" | "stage_rank StStop = 3" | "stage_rank (StCatch e) = 2"
| "stage_rank StReport = 1" | "stage_rank StDone = 0"

lemma save_run_rank:
  "save_run env inp k what ev st patch nxt db = (k', db') \<Longrightarrow> rn_stage k' = nxt \<or> (\<exists>e. rn_stage k' = StCatch e)"
  by (auto simp: save_run_def split: if_splits sum.splits prod.splits)

lemma check_stop_rank:
  "check_stop inp k nxt db = (k', db') \<Longrightarrow> rn_stage k' \<in> {nxt, StStop} \<or> (\<exists>e. rn_stage k' = StCatch e)"
  by (auto simp: check_stop_def split: if_splits sum.splits)

lemma last_view_rank: "rn_stage (last_view inp k db) = StDone"
  by (simp add: last_view_def split: sum.splits)

lemma begin_step_rank: "begin_step inp k db = (k', db') \<Longrightarrow> stage_rank (rn_stage k') < 13"
  by (auto simp: begin_step_def split: sum.splits dest!: check_stop_rank)

lemma prepare_step_rank: "prepare_step env inp k st db = (k', db', calls) \<Longrightarrow> stage_rank (rn_stage k') < 12"
  by (auto simp: prepare_step_def Let_def split: sum.splits prod.splits if_splits dest!: save_run_rank)

lemma payment_required_rank: "payment_required_step env inp k st p payment db = (k', db') \<Longrightarrow> stage_rank (rn_stage k') < 11"
  by (auto simp: payment_required_step_def Let_def split: option.splits prod.splits if_splits dest!: save_run_rank)

lemma challenge_step_rank: "challenge_step env inp k st p db = (k', db', calls) \<Longrightarrow> stage_rank (rn_stage k') < 11"
  by (auto simp: challenge_step_def split: sum.splits prod.splits if_splits enclave_error.splits dest!: save_run_rank payment_required_rank)

lemma pay_run_step_rank: "pay_run_step env inp k st p db = (k', db') \<Longrightarrow> stage_rank (rn_stage k') < 9"
  by (auto simp: pay_run_step_def split: option.splits if_splits dest!: save_run_rank)

lemma settle_run_step_rank: "settle_run_step env inp k st p db = (k', db', calls) \<Longrightarrow> stage_rank (rn_stage k') < 8"
  by (auto simp: settle_run_step_def Let_def split: sum.splits prod.splits if_splits dest!: save_run_rank)

lemma infer_run_step_rank: "infer_run_step env inp k st p db = (k', db') \<Longrightarrow> stage_rank (rn_stage k') < 6"
  by (auto simp: infer_run_step_def split: if_splits dest!: save_run_rank)

lemma result_run_step_rank: "result_run_step env inp k p db = (k', db', calls) \<Longrightarrow> stage_rank (rn_stage k') < 5"
  by (auto simp: result_run_step_def split: sum.splits prod.splits)

lemma complete_run_step_rank: "complete_run_step env inp k st result db = (k', db') \<Longrightarrow> stage_rank (rn_stage k') < 4"
  by (auto simp: complete_run_step_def split: sum.splits prod.splits)

lemma catch_step_rank: "catch_step env inp k e db = (k', db') \<Longrightarrow> stage_rank (rn_stage k') < 2"
  by (auto simp: catch_step_def last_view_rank split: option.splits sum.splits prod.splits if_splits)

lemma report_step_rank: "report_step env inp k st db = (k', db') \<Longrightarrow> stage_rank (rn_stage k') < 1"
  by (auto simp: report_step_def Let_def last_view_rank split: prod.splits stage.splits if_splits dest!: save_run_rank)

lemma quiet_rank:
  "(case f of (k', db') \<Rightarrow> (k', db', [])) = (k1, db1, calls) \<Longrightarrow> f = (k1, db1)"
  by (cases f) simp

lemma run_step_rank:
  assumes "run_step env inp k db = (k', db', calls)" and "rn_stage k \<noteq> StDone"
  shows "stage_rank (rn_stage k') < stage_rank (rn_stage k)"
proof (cases "rn_state k")
  case None
  with assms show ?thesis
    by (cases "rn_stage k") (auto simp: run_step_def Let_def dest!: quiet_rank begin_step_rank catch_step_rank)
next
  case (Some st)
  show ?thesis
  proof (cases "rs_pending st")
    case None
    with assms Some show ?thesis
      by (cases "rn_stage k") (auto simp: run_step_def Let_def dest!: quiet_rank begin_step_rank catch_step_rank save_run_rank
          prepare_step_rank check_stop_rank report_step_rank)
  next
    case p: (Some p)
    with assms Some show ?thesis
      by (cases "rn_stage k") (auto simp: run_step_def Let_def dest!: quiet_rank begin_step_rank catch_step_rank save_run_rank
          prepare_step_rank check_stop_rank report_step_rank challenge_step_rank pay_run_step_rank settle_run_step_rank
          infer_run_step_rank result_run_step_rank complete_run_step_rank)
  qed
qed

lemma iterate_finishes:
  "stage_rank (rn_stage k) \<le> length inputs \<Longrightarrow> rn_stage (fst (iterate_steps env between inputs k db)) = StDone"
proof (induction inputs arbitrary: k db)
  case Nil
  then show ?case by (cases "rn_stage k") simp_all
next
  case (Cons inp rest)
  show ?case
  proof (cases "rn_stage k = StDone")
    case False
    obtain k1 db1 c1 where one: "run_step env inp k (between db) = (k1, db1, c1)" by (cases "run_step env inp k (between db)")
    from run_step_rank [OF one False] Cons.prems have "stage_rank (rn_stage k1) \<le> length rest" by simp
    with Cons.IH have "rn_stage (fst (iterate_steps env between rest k1 db1)) = StDone" .
    with one False show ?thesis by (cases "iterate_steps env between rest k1 db1") simp
  qed simp
qed



end
