(* ===== verification/Spec2Isabelle.thy ===== *)
theory Spec2Isabelle
  imports Enclave_Cvm X402_Funding Gateway_Market Gateway_Runtime Runtime_Store Gateway_Reads Browser_Client Release_Manifest Tcb_Lifecycle Inference_Accounting Payments Wallet_Login Worker_Receipts Worker_Index_Safety Agent_System
begin

text \<open>
  A verification development of the ENCLAVE backend: a gateway that sells attested inference for stablecoin
  payments, the worker that indexes the chain and anchors receipts, and the enclave software that signs them.

  \<^bold>\<open>The program.\<close> A client opens a session under an attested TCB policy, is challenged for a payment (HTTP 402),
  settles it directly or by x402, and calls the model; the gateway claims the dispatch, lets the enclave call the
  provider, verifies the provider's signed transcript and publishes a receipt together with the consumption of the
  payment. Wallets log in by signed challenges; agents run such calls unattended within a mandate; the worker
  follows the contracts' events through reorganisations and anchors the receipts; relay transactions go through a
  durable journal. The parts share one PostgreSQL database and are modelled over its tables.

  \<^bold>\<open>How programs are modelled\<close> (\<open>Enclave_Prelude\<close>). Fallible code returns \<open>enclave_error + 'a\<close>; every \<open>throw\<close> is
  a branch. A table is a list of rows of a record; a database transaction is a function of the committed state that
  returns an error (rolled back, no state) or a value and the next state. What other processes commit between two
  transactions of one operation is an argument (\<open>between\<close>, \<open>env\<close>), and the components with concurrent workers
  have an inductive step relation whose steps are single transactions, so every interleaving and every crash
  between transactions is a path of it. Fresh identifiers, clocks and the answers of outside services are arguments.
  Effects that no rollback undoes (provider calls, broadcasts, jobs) are returned as lists. Three locales carry the
  proofs by induction: \<open>invariant_system\<close>, \<open>history_system\<close> (an invariant and a preorder that every step
  keeps) and the contracts of components (\<open>window_limiter\<close>, for example); each is interpreted on the
  model of the code.

  \<^bold>\<open>Theories and code\<close> (paths under \<open>src/_backend/\<close>).
  \<^item> \<open>Core_Text\<close>, \<open>Core_Errors\<close>, \<open>Core_Money\<close>, \<open>Core_Json\<close>: the pure functions of \<open>packages/core/src\<close> (hashes as
    text, addresses, error classes and their HTTP form, fees and mandates, canonical JSON) and the relay's gas limits.
    Canonical JSON identifies exactly the values that differ in field order only.
  \<^item> \<open>Core_Attestation\<close>: quotes and policies (\<open>core/src/attestation.ts\<close>, \<open>tcb.ts\<close>). An accepted quote pins the
    policy; an issued quote verifies exactly within five minutes.
  \<^item> \<open>Tcb_Lifecycle\<close>: initialisation, proposal and activation of policies (\<open>apps/api/src/tcb-lifecycle.ts\<close>,
    \<open>tcb-chain.ts\<close>). One active policy, versions never go back, an old hash is refused after an activation.
  \<^item> \<open>X402_Protocol\<close>: challenges, payloads and proofs of settlement (\<open>x402-v2.ts\<close>, \<open>authorization.ts\<close>,
    \<open>settlement-proof.ts\<close>). An accepted payload signs what was issued.
  \<^item> \<open>Payments\<close>: the payment life cycle of \<open>apps/api/src/gateway.ts\<close>, mandates, and the sweep of stuck settlements.
    Daily limits hold and are accounted exactly, a payment is consumed once, an authorization pays once, a late
    worker changes nothing.
  \<^item> \<open>Wallet_Login\<close>, \<open>Wallet_Limiter\<close>: \<open>apps/api/src/wallet-auth.ts\<close>. A token means a verified signature of a
    single-use challenge; both limiters meet one contract.
  \<^item> \<open>Inference_Execution\<close>, \<open>Inference_Service\<close>, \<open>Inference_Accounting\<close>: the dispatch claim
    (\<open>inference-execution.ts\<close>) and the paid inference of \<open>gateway.ts\<close> composed from the components above. One
    receipt per consumed payment, one provider call per payment, usage counts exactly the receipts.
  \<^item> \<open>Receipts\<close>: \<open>core/src/receipt.ts\<close>, \<open>viewkey.ts\<close> and the exports of \<open>gateway.ts\<close>. A signature verifies for
    its receipt only; public views are hash-only; a view key opens its issuer's records only.
  \<^item> \<open>Core_Crypto\<close>, \<open>Near_Inference\<close>, \<open>Enclave_Cvm\<close>: sealing (\<open>core/src/crypto.ts\<close>), the provider client
    (\<open>near-inference.ts\<close>, \<open>near-attestation-error.ts\<close>) and the enclave (\<open>cvm.ts\<close>, \<open>provider-proof.ts\<close>). What the
    client returns passes the independent transcript check; the enclave answers only under a quote of its
    current policy and only with verified provider output; sealed memory survives rotations.
  \<^item> \<open>Signer_Journal\<close>: the durable signer (\<open>packages/db/src/signer.ts\<close>), refined to an append-only log of
    signed transactions; only committed transactions are sent.
  \<^item> \<open>Worker_Reorg\<close>, \<open>Worker_Indexer\<close>, \<open>Worker_Index_Safety\<close>: \<open>apps/worker/src/reorg.ts\<close>, \<open>indexer.ts\<close>,
    \<open>policy-sync.ts\<close>. The table of approved models equals the replay of the journalled events, and a stale index
    approves nothing.
  \<^item> \<open>Worker_Receipts\<close>: anchoring and recovery of receipts (\<open>anchorer.ts\<close>, \<open>receipt-recovery.ts\<close>, \<open>jobs.ts\<close>).
  \<^item> \<open>Agent_Runs\<close>, \<open>Agent_Run_Safety\<close>, \<open>Agent_System\<close>: the agent runner (\<open>agent-runtime.ts\<close>,
    \<open>agent-runtime-store.ts\<close>, \<open>agent-runtime-routes.ts\<close>), alone and as a system of runners, sweeps and clients.
  \<^item> \<open>Chain_Calls\<close>, \<open>X402_Funding\<close>: the contract calls of \<open>apps/api/src/chain.ts\<close> as programs over the node and the
    durable signer. An x402 settlement debits the payer at most once and recovers from a deposit made by others.
  \<^item> \<open>Gateway_Market\<close>: the model market of \<open>gateway.ts\<close> and \<open>tcb-chain.ts\<close> over the registry contract
    (\<open>contracts/src/ModelRegistry.sol\<close>). A served model waited out the timelock; a revoked one is never served again.
  \<^item> \<open>Gateway_Runtime\<close>: admission of the provider, \<open>syncTcb\<close>, contract wiring and health of a running gateway.
    A synchronised enclave runs the active policy, readiness is current.
  \<^item> \<open>Gateway_Agents\<close>: agents and their sealed memory, with the enclave of \<open>Enclave_Cvm\<close> as the enclave of the
    service. Memory stays intact, reaches the prompt, and is written by its owner only.
  \<^item> \<open>Runtime_Store\<close>: the key file (\<open>cvm-store.ts\<close>) and the recovery timer (\<open>reconciliation.ts\<close>). Keys never rotate.
  \<^item> \<open>Gateway_Reads\<close>: the workspace and its pages, the public registry under its chain scope, and the other reads of
    the gateway. The pages of a workspace are complete and hold the owner's rows only.
  \<^item> \<open>Near_Provider\<close>: the attestation client (\<open>near-provider.ts\<close>) that makes the sessions \<open>Near_Inference\<close> uses. Every
    managed answer is backed by a hardware verification of its own; admissions are bounded and leak no connection.
  \<^item> \<open>Receipt_Verifier\<close>: the browser's verifier of receipts (\<open>frontend/src/enclave/receipt-verifier.ts\<close>). It accepts
    exactly what the enclave signed, and its chain results are about one canonical block.
  \<^item> \<open>Arc_Payment\<close>, \<open>Browser_Client\<close>: the paying client of the web application (\<open>frontend/src/enclave/api.ts\<close> and
    \<open>arc-payment.ts\<close>). What it shows is the enclave's answer to its prompt; a prepared request is paid for once; the
    gateway accepts what the browser signed.
  \<^item> \<open>Strict_Json\<close>, \<open>Release_Manifest\<close>: the acceptance record of a production release (\<open>core/src/release-manifest.ts\<close>). The
    strict reader refuses exactly the documents with a repeated key; an accepted release rests on one signed inference.
  Each theory lists its definitions in the order of the code, then inversion lemmas (\<open>_Inr\<close>: what a success
  implies), its step relation and invariant, and last its properties, each with a closed witness over a worked run.

  \<^bold>\<open>Parameters.\<close> SHA-256, Keccak, ECDSA, EIP-712, AES-GCM, URL, date and JSON parsing, the RPC node, the contracts,
  the queue and the provider are fields of records (\<open>crypto\<close>, \<open>typed_crypto\<close>, \<open>aes\<close>, \<open>near_host\<close>, \<open>chain_view\<close>,
  \<open>index_rpc\<close>, \<open>login_env\<close>, \<open>runtime_env\<close>). What a property relies on is a named hypothesis on such a record: a
  genuine signature recovers its signer (\<open>signatures_recover\<close>, \<open>recovery_exact\<close>), two given inputs do not collide
  (\<open>no_collision\<close>), opening undoes sealing (\<open>aes_inverse\<close>), parsing reads back what was printed (\<open>reads_back\<close>,
  \<open>reads_evidence\<close>). Each has a concrete instance in the witnesses.

  \<^bold>\<open>Numbers, text and bounds.\<close> A JavaScript number where it is an integer is \<open>js_number\<close> (an \<open>int\<close>, or one of the
  other numbers), checked against the safe range where the code does; a \<open>bigint\<close> is an \<open>int\<close>; a byte is a
  \<open>8 word\<close>. A string is the list of its UTF-8 bytes. No definition takes fuel: loops are structural over the
  attempts, rows or pages the code bounds them by, or have a termination proof; that a claimed agent step ends
  within thirteen transactions and that receipt recovery ends are theorems.

  \<^bold>\<open>Not modelled.\<close> The web frontend beyond its client and its verifier renders pages; the Solidity contracts other than the model
  registry and the Python verifier are written in other languages and appear as parameters; \<open>db/src/migrate.ts\<close> is
  SQL text whose constraints are part of the row operations; \<open>index.ts\<close>, \<open>config.ts\<close> and \<open>logger.ts\<close> start the
  processes; scripts and the SDK drive the deployed system; the routers of \<open>app.ts\<close> and \<open>trpc.ts\<close> beyond their error
  handling parse requests and call the operations modelled here.
\<close>

end
